(* ===== verification/Prelude.thy ===== *)
theory Prelude
  imports Main "HOL-Library.Word" "HOL-Library.Monad_Syntax"
begin

text \<open>
  Shared vocabulary of the development: the machine integer types of the C sources, the errno
  values the modelled functions return, and generic lemmas on words, lists and the option monad.

  An operation that the C code can abort (\<open>assert(false)\<close>, \<open>TPG_ERROR_ABORT\<close>) or
  whose effect is undefined (removing a list element from a list it is not on) returns
  an \<^typ>\<open>'a option\<close>; \<^term>\<open>None\<close> is the abort.
\<close>

unbundle bit_operations_syntax

type_synonym u8 = "8 word"
type_synonym u16 = "16 word"
type_synonym u32 = "32 word"
type_synonym u64 = "64 word"

text \<open>Return codes: 0 or the negated errno, as in the code.\<close>

abbreviation EAGAIN :: int where "EAGAIN \<equiv> 11"
abbreviation ENOMEM :: int where "ENOMEM \<equiv> 12"
abbreviation EINVAL :: int where "EINVAL \<equiv> 22"
abbreviation ENOTCONN :: int where "ENOTCONN \<equiv> 107"

named_theorems opt_elim \<open>inversion rules for the option monad\<close>
named_theorems stat_simps \<open>rules that commute statistics updates with field accesses\<close>

subsection \<open>The option monad\<close>

lemma bind_SomeE [opt_elim, elim!]:
  assumes "Option.bind m f = Some y"
  obtains x where "m = Some x" and "f x = Some y"
  using assms by (cases m) auto

lemma bind_eq_Some [simp]: "(Option.bind m f = Some y) = (\<exists>x. m = Some x \<and> f x = Some y)"
  by (cases m) auto

lemma if_SomeE [opt_elim]:
  assumes "(if b then Some x else None) = Some y"
  obtains "b" and "y = x"
  using assms by (cases b) auto

subsection \<open>Words\<close>

lemma unat_sub_if_word:
  fixes a b :: "'a::len word"
  shows "unat (a - b) = (if unat b \<le> unat a then unat a - unat b
                         else 2 ^ LENGTH('a) + unat a - unat b)"
  by (simp add: unat_sub_if' ac_simps)

lemma unat_of_nat_small: "n < 2 ^ LENGTH('a) \<Longrightarrow> unat (of_nat n :: 'a::len word) = n"
  by (simp add: unat_of_nat)

lemma u32_diff_add [simp]: "(a::u32) - b + b = a"
  by simp

lemma word_unat_le: "(a::'a::len word) \<le> b \<longleftrightarrow> unat a \<le> unat b"
  by (simp add: word_le_nat_alt)

lemma word_unat_less: "(a::'a::len word) < b \<longleftrightarrow> unat a < unat b"
  by (simp add: word_less_nat_alt)

lemma word_le_plus_unat:
  fixes a b :: "'a::len word"
  assumes "unat a + unat b < 2 ^ LENGTH('a)"
  shows "unat (a + b) = unat a + unat b"
  using assms by (simp add: unat_word_ariths)

subsection \<open>Lists\<close>

lemma sum_list_list_update_nat:
  fixes xs :: "nat list"
  assumes "i < length xs"
  shows "sum_list (xs[i := v]) + xs ! i = sum_list xs + v"
  using assms
proof (induction xs arbitrary: i)
  case Nil
  then show ?case by simp
next
  case (Cons x xs)
  then show ?case by (cases i) auto
qed

lemma unat_u32_less: "unat (a::u32) < 4294967296"
  using unsigned_less [where w = a] by simp

lemma drop_concat_ge:
  "length x \<le> n \<Longrightarrow> drop n (x @ ys) = drop (n - length x) ys"
  by simp

end
