(* ===== verification/SeqNum.thy ===== *)
theory SeqNum
  imports Prelude
begin

text \<open>
  The sequence number comparisons of \<^verbatim>\<open>inc/tpg_tcp.h\<close> (the \<open>SEG_*\<close> macros), on 32 bit
  words, and what they mean in terms of the distance between two sequence numbers.
\<close>

definition SEG_LT :: "u32 \<Rightarrow> u32 \<Rightarrow> bool" where
  "SEG_LT a b \<longleftrightarrow>
     (b < 0x80000000 \<and> (a < b \<or> a \<ge> b + 0x80000000)) \<or>
     (b \<ge> 0x80000000 \<and> a < b \<and> a \<ge> b - 0x80000000)"

definition SEG_EQ :: "u32 \<Rightarrow> u32 \<Rightarrow> bool" where
  "SEG_EQ a b \<longleftrightarrow> a = b"

definition SEG_LE :: "u32 \<Rightarrow> u32 \<Rightarrow> bool" where
  "SEG_LE a b \<longleftrightarrow> a = b \<or> SEG_LT a b"

definition SEG_GE :: "u32 \<Rightarrow> u32 \<Rightarrow> bool" where
  "SEG_GE a b \<longleftrightarrow> SEG_LE b a"

definition SEG_GT :: "u32 \<Rightarrow> u32 \<Rightarrow> bool" where
  "SEG_GT a b \<longleftrightarrow> SEG_LT b a"

definition SEG_DIFF :: "u32 \<Rightarrow> u32 \<Rightarrow> u32" where
  "SEG_DIFF a b = a - b"

lemmas SEG_defs = SEG_EQ_def SEG_LE_def SEG_GE_def SEG_GT_def SEG_DIFF_def

text \<open>
  \<open>SEG_LT a b\<close> holds exactly when walking forward from \<open>a\<close> reaches \<open>b\<close> after at least one
  and at most \<open>2^31\<close> steps.
\<close>

lemma SEG_LT_dist: "SEG_LT a b \<longleftrightarrow> 0 < unat (b - a) \<and> unat (b - a) \<le> 2 ^ 31"
proof -
  have a: "unat a < 4294967296" and b: "unat b < 4294967296"
    by (rule unat_u32_less)+
  show ?thesis
    unfolding SEG_LT_def word_le_nat_alt word_less_nat_alt
    using a b
    by (auto simp: unat_sub_if_word unat_word_ariths)
qed

text \<open>
  The two comparisons by which the stack decides that a sequence number is inside a non-empty window of at
  most \<open>2^31\<close> bytes are exact: they hold for the numbers at distance less than \<open>wnd\<close> from
  \<open>nxt\<close>, across the wrap-around of the sequence space as well.
\<close>

lemma seg_in_window:
  assumes "0 < unat wnd" and "unat wnd \<le> 2 ^ 31"
  shows "SEG_GE s nxt \<and> SEG_LT s (nxt + wnd) \<longleftrightarrow> unat (s - nxt) < unat wnd"
proof -
  have lt: "unat (s - nxt) < 4294967296" by (rule unat_u32_less)
  have "nxt + wnd - s = wnd - (s - nxt)" by (simp add: algebra_simps)
  then have "unat (nxt + wnd - s) = unat (wnd - (s - nxt))" by (rule arg_cong)
  with unat_sub_if_word [of wnd "s - nxt"]
  have d: "unat (nxt + wnd - s) = (if unat (s - nxt) \<le> unat wnd then unat wnd - unat (s - nxt)
                                   else 4294967296 + unat wnd - unat (s - nxt))"
    by simp
  have "s = nxt \<longleftrightarrow> unat (s - nxt) = 0" by (metis eq_iff_diff_eq_0 unat_eq_0)
  with assms d lt show ?thesis
    unfolding SEG_GE_def SEG_LE_def SEG_LT_dist by auto
qed

section \<open>Properties\<close>

text \<open>
  The comparison is not an order on all windows: of two sequence numbers \<open>2^31\<close> apart each is
  before the other, so a window must not be larger than that, whatever the comment on the macros
  says.
\<close>

lemma seg_lt_ambiguous: "SEG_LT a (a + 0x80000000) \<and> SEG_LT (a + 0x80000000) a"
  unfolding SEG_LT_dist by (simp add: unat_sub_if_word)

end
