(* ===== verification/Mbuf.thy ===== *)
theory Mbuf
  imports Prelude
begin

text \<open>
  Packet buffers: \<^verbatim>\<open>inc/tpg_data.h\<close> and \<^verbatim>\<open>inc/tpg_mbuf.h\<close>.

  A \<open>struct rte_mbuf\<close> is a record of its payload bytes and of the two header fields the code
  maintains, \<open>pkt_len\<close> and \<open>nb_segs\<close>; a chain linked by \<open>next\<close> is a list, \<open>NULL\<close> the
  empty list. As in the C structure, \<open>pkt_len\<close> is a field of its own: only operations that
  write it keep it equal to the length of the chain. Returning a buffer to its pool has no
  effect on the remaining chain and is not modelled; whether an allocation succeeds is
  decided by a list of outcomes, the environment's.

  \<open>rte_pktmbuf_adj\<close> is a DPDK function, hence a parameter: what the code relies on is
  \<open>rte_pktmbuf_adj_spec\<close>, its documented behaviour. Its length argument has 16 bits.
\<close>

record mbuf =
  mb_data :: "u8 list"
  mb_pkt_len :: u32
  mb_nb_segs :: u16

type_synonym chain = "mbuf list"

definition data_len :: "mbuf \<Rightarrow> u32" where
  "data_len m = of_nat (length (mb_data m))"

definition chain_bytes :: "chain \<Rightarrow> u8 list" where
  "chain_bytes c = concat (map mb_data c)"

definition mbuf_ok :: "mbuf \<Rightarrow> bool" where
  "mbuf_ok m \<longleftrightarrow> length (mb_data m) < 65536"

definition chain_ok :: "chain \<Rightarrow> bool" where
  "chain_ok c \<longleftrightarrow> list_all mbuf_ok c \<and> length (chain_bytes c) < 4294967296"

text \<open>A packet: a chain whose head carries the length of the whole chain.\<close>

definition pkt_wf :: "chain \<Rightarrow> bool" where
  "pkt_wf c \<longleftrightarrow> c \<noteq> [] \<and> chain_ok c \<and> mb_pkt_len (hd c) = of_nat (length (chain_bytes c))"

subsection \<open>The DPDK primitive\<close>

type_synonym pktmbuf_adj = "chain \<Rightarrow> u16 \<Rightarrow> chain option"

definition rte_pktmbuf_adj_spec :: "pktmbuf_adj \<Rightarrow> bool" where
  "rte_pktmbuf_adj_spec adj \<longleftrightarrow>
     (\<forall>m c len. adj (m # c) len =
        (if unat len > length (mb_data m) then None
         else Some (m\<lparr>mb_data := drop (unat len) (mb_data m),
                     mb_pkt_len := mb_pkt_len m - ucast len\<rparr> # c)))"

subsection \<open>Operations\<close>

text \<open>The loop of \<open>data_adj_chain\<close> that frees the segments to be skipped completely.\<close>

fun data_adj_skip :: "chain \<Rightarrow> u32 \<Rightarrow> (chain \<times> u32) option" where
  "data_adj_skip [] len = (if len > 0 then None else Some ([], len))"
| "data_adj_skip (m # c) len =
     (if len > 0 \<and> len \<ge> data_len m then data_adj_skip c (len - data_len m)
      else Some (m # c, len))"

definition data_adj_chain :: "pktmbuf_adj \<Rightarrow> chain \<Rightarrow> u32 \<Rightarrow> chain option" where
  "data_adj_chain adj c len =
     (if c = [] then None
      else
        let new_pkt_len = mb_pkt_len (hd c) - len
        in case adj c (ucast len) of
             Some c' \<Rightarrow>
               if data_len (hd c') \<noteq> 0 then Some c'
               else if tl c' \<noteq> [] then Some (tl c')
               else Some c'
           | None \<Rightarrow> do {
               (c1, len1) \<leftarrow> data_adj_skip c len;
               c2 \<leftarrow> (if len1 \<noteq> 0
                      then if c1 \<noteq> [] \<and> data_len (hd c1) \<ge> len1
                           then (case adj c1 (ucast len1) of Some c2 \<Rightarrow> Some c2 | None \<Rightarrow> Some c1)
                           else None
                      else Some c1);
               Some (case c2 of
                       [] \<Rightarrow> []
                     | m # r \<Rightarrow> m\<lparr>mb_pkt_len := new_pkt_len\<rparr> # r)
             })"

definition data_mbuf_merge :: "chain \<Rightarrow> chain \<Rightarrow> chain" where
  "data_mbuf_merge dest src =
     (case dest of
        [] \<Rightarrow> []
      | m # r \<Rightarrow>
          m\<lparr>mb_nb_segs := mb_nb_segs m + mb_nb_segs (hd src),
            mb_pkt_len := mb_pkt_len m + mb_pkt_len (hd src)\<rparr> # r @ src)"

text \<open>
  \<open>data_clone_seg\<close>: the segments before \<open>data_offset\<close> are skipped (running off the chain
  dereferences \<open>NULL\<close>), then buffers are attached to the source segments until
  \<open>seg_data_len\<close> bytes are covered. A failed allocation frees the clone and returns \<open>NULL\<close>.
\<close>

fun pkt_mbuf_alloc :: "bool list \<Rightarrow> bool \<times> bool list" where
  "pkt_mbuf_alloc [] = (True, [])"
| "pkt_mbuf_alloc (b # bs) = (b, bs)"

fun data_clone_skip :: "chain \<Rightarrow> u32 \<Rightarrow> (chain \<times> u32) option" where
  "data_clone_skip [] off = None"
| "data_clone_skip (m # c) off =
     (if off \<ge> data_len m then data_clone_skip c (off - data_len m) else Some (m # c, off))"

fun data_clone_segs :: "chain \<Rightarrow> u32 \<Rightarrow> u32 \<Rightarrow> bool list \<Rightarrow> (chain option \<times> bool list) option"
where
  "data_clone_segs [] len off bs = None"
| "data_clone_segs (m # c) len off bs =
     (let (ok, bs) = pkt_mbuf_alloc bs
      in if \<not> ok then Some (None, bs)
         else let d = drop (unat off) (mb_data m)
              in if len \<le> of_nat (length d)
                 then Some (Some [\<lparr>mb_data = take (unat len) d,
                                   mb_pkt_len = of_nat (length d), mb_nb_segs = 1\<rparr>], bs)
                 else do {
                   (r, bs) \<leftarrow> data_clone_segs c (len - of_nat (length d)) 0 bs;
                   Some (map_option ((#) \<lparr>mb_data = d, mb_pkt_len = of_nat (length d),
                                          mb_nb_segs = 1\<rparr>) r, bs)
                 })"

definition data_clone_seg ::
  "chain \<Rightarrow> u32 \<Rightarrow> u32 \<Rightarrow> bool list \<Rightarrow> (chain option \<times> bool list) option" where
  "data_clone_seg seg_data seg_data_len data_offset bs =
     (if seg_data_len = 0 then Some (None, bs)
      else do {
        (c, off) \<leftarrow> data_clone_skip seg_data data_offset;
        (r, bs) \<leftarrow> data_clone_segs c seg_data_len off bs;
        Some (case r of
                Some (m # ms) \<Rightarrow>
                  Some (m\<lparr>mb_pkt_len := seg_data_len,
                          mb_nb_segs := of_nat (Suc (length ms))\<rparr> # ms)
              | _ \<Rightarrow> None, bs)
      })"

subsection \<open>Bytes of a chain\<close>

lemma chain_bytes_simps [simp]:
  "chain_bytes [] = []"
  "chain_bytes (m # c) = mb_data m @ chain_bytes c"
  "chain_bytes (c @ d) = chain_bytes c @ chain_bytes d"
  by (simp_all add: chain_bytes_def)

lemma chain_ok_Nil [simp]: "chain_ok []"
  by (simp add: chain_ok_def)

lemma chain_ok_ConsD: "chain_ok (m # c) \<Longrightarrow> mbuf_ok m \<and> chain_ok c"
  by (simp add: chain_ok_def)

lemma data_len_unat [simp]: "mbuf_ok m \<Longrightarrow> unat (data_len m) = length (mb_data m)"
  by (simp add: data_len_def mbuf_ok_def unat_of_nat)

lemma data_len_eq_0: "mbuf_ok m \<Longrightarrow> data_len m = 0 \<longleftrightarrow> mb_data m = []"
  by (metis data_len_unat length_0_conv unat_eq_0)

lemma chain_ok_len: "chain_ok c \<Longrightarrow> unat (of_nat (length (chain_bytes c)) :: u32) = length (chain_bytes c)"
  by (simp add: chain_ok_def unat_of_nat)

lemma chain_ok_upd_pkt_len [simp]: "chain_ok (m\<lparr>mb_pkt_len := l\<rparr> # c) = chain_ok (m # c)"
  by (simp add: chain_ok_def mbuf_ok_def)

lemma chain_ok_upd_nb_segs [simp]: "chain_ok (m\<lparr>mb_nb_segs := l\<rparr> # c) = chain_ok (m # c)"
  by (simp add: chain_ok_def mbuf_ok_def)

lemma chain_ok_upd_data:
  "chain_ok (m # c) \<Longrightarrow> length d \<le> length (mb_data m) \<Longrightarrow> chain_ok (m\<lparr>mb_data := d\<rparr> # c)"
  by (simp add: chain_ok_def mbuf_ok_def)

subsection \<open>Adjusting a chain\<close>

lemma data_adj_skip_bytes:
  assumes "chain_ok c" and "unat len \<le> length (chain_bytes c)"
  shows "\<exists>c' len'. data_adj_skip c len = Some (c', len') \<and> chain_ok c' \<and>
           drop (unat len') (chain_bytes c') = drop (unat len) (chain_bytes c) \<and>
           unat len' \<le> unat len \<and>
           (len' \<noteq> 0 \<longrightarrow> c' \<noteq> [] \<and> unat len' < length (mb_data (hd c')))"
  using assms
proof (induction c len rule: data_adj_skip.induct)
  case (1 len)
  then show ?case by (simp add: unat_eq_0)
next
  case (2 m c len)
  from "2.prems" have m: "mbuf_ok m" and c: "chain_ok c" by (auto dest: chain_ok_ConsD)
  show ?case
  proof (cases "len > 0 \<and> len \<ge> data_len m")
    case True
    with m have le: "length (mb_data m) \<le> unat len" by (simp add: word_le_nat_alt)
    with m have sub: "unat (len - data_len m) = unat len - length (mb_data m)"
      by (simp add: unat_sub_if_word)
    from "2.prems" le have "unat (len - data_len m) \<le> length (chain_bytes c)"
      by (simp add: sub)
    from "2.IH" [OF True c this] sub obtain c' len' where
      "data_adj_skip c (len - data_len m) = Some (c', len')" "chain_ok c'"
      "drop (unat len') (chain_bytes c') = drop (unat len - length (mb_data m)) (chain_bytes c)"
      "unat len' \<le> unat len - length (mb_data m)"
      "len' \<noteq> 0 \<longrightarrow> c' \<noteq> [] \<and> unat len' < length (mb_data (hd c'))"
      by auto
    with True le show ?thesis by auto
  next
    case False
    with "2.prems" m show ?thesis
      by (auto simp: word_le_nat_alt word_less_nat_alt unat_eq_0)
  qed
qed

lemma ucast16_unat: "unat len < 65536 \<Longrightarrow> unat (ucast (len::u32) :: u16) = unat len"
  by (simp add: unsigned_ucast_eq take_bit_nat_eq_self)

lemma ucast_u16_u32:
  assumes "unat (len::u32) < 65536"
  shows "ucast (ucast len :: u16) = len"
proof (rule unsigned_word_eqI)
  show "unat (ucast (ucast len :: u16) :: u32) = unat len"
    using assms by (simp add: unsigned_ucast_eq unsigned_take_bit_eq take_bit_nat_eq_self)
qed

text \<open>
  Every byte before the cut goes, every byte after it stays, as long as the length fits the
  16 bits \<open>rte_pktmbuf_adj\<close> takes.
\<close>

lemma data_adj_chain_bytes:
  assumes adj: "rte_pktmbuf_adj_spec adj" and c: "chain_ok c" "c \<noteq> []"
    and len: "unat len \<le> length (chain_bytes c)" "unat len < 65536"
  shows "\<exists>c'. data_adj_chain adj c len = Some c' \<and> chain_ok c' \<and>
           chain_bytes c' = drop (unat len) (chain_bytes c)"
proof (cases c)
  case Nil
  with c show ?thesis by simp
next
  case (Cons m r)
  with c have m: "mbuf_ok m" and r: "chain_ok r" by (auto dest: chain_ok_ConsD)
  have w: "unat (ucast len :: u16) = unat len" using len(2) by (rule ucast16_unat)
  show ?thesis
  proof (cases "unat len \<le> length (mb_data m)")
    case True
    have "mbuf_ok (m\<lparr>mb_data := drop (unat len) (mb_data m), mb_pkt_len := l\<rparr>)" for l
      using m by (simp add: mbuf_ok_def)
    from data_len_eq_0 [OF this]
    have "data_len (m\<lparr>mb_data := drop (unat len) (mb_data m), mb_pkt_len := l\<rparr>) = 0 \<longleftrightarrow>
            length (mb_data m) = unat len" for l
      using True by auto
    with True adj m r w c Cons show ?thesis
      by (auto simp: data_adj_chain_def rte_pktmbuf_adj_spec_def Let_def intro!: chain_ok_upd_data
          split: list.splits)
  next
    case False
    from data_adj_skip_bytes [OF c(1) len(1)] obtain c1 len1 where
      1: "data_adj_skip c len = Some (c1, len1)" "chain_ok c1"
        "drop (unat len1) (chain_bytes c1) = drop (unat len) (chain_bytes c)"
        "unat len1 \<le> unat len"
        "len1 \<noteq> 0 \<longrightarrow> c1 \<noteq> [] \<and> unat len1 < length (mb_data (hd c1))" by blast
    from 1(4) len(2) have w1: "unat (ucast len1 :: u16) = unat len1"
      by (intro ucast16_unat) simp
    have none: "adj c (ucast len) = None"
      using adj False w Cons by (simp add: rte_pktmbuf_adj_spec_def)
    show ?thesis
    proof (cases "len1 = 0")
      case True
      with 1 none c show ?thesis
        by (auto simp: data_adj_chain_def Let_def split: list.splits)
    next
      case False
      with 1 obtain m1 r1 where c1: "c1 = m1 # r1" and lt: "unat len1 < length (mb_data m1)"
        by (cases c1) auto
      with 1 have m1: "mbuf_ok m1" by (auto dest: chain_ok_ConsD)
      have "adj c1 (ucast len1) = Some (m1\<lparr>mb_data := drop (unat len1) (mb_data m1),
               mb_pkt_len := mb_pkt_len m1 - ucast (ucast len1 :: u16)\<rparr> # r1)"
        using adj c1 lt w1 by (simp add: rte_pktmbuf_adj_spec_def)
      moreover have "data_len m1 \<ge> len1" using m1 lt by (simp add: word_le_nat_alt)
      ultimately show ?thesis using 1 c1 lt none c False
        by (auto simp: data_adj_chain_def Let_def intro!: chain_ok_upd_data)
    qed
  qed
qed

text \<open>
  Cutting exactly the first segment off a longer chain takes the first branch, which returns
  the next segment as it is: its \<open>pkt_len\<close> is not made the length of the packet.
\<close>

lemma data_adj_chain_boundary:
  assumes adj: "rte_pktmbuf_adj_spec adj" and m: "mbuf_ok m"
  shows "data_adj_chain adj (m # n # r) (data_len m) = Some (n # r)"
proof -
  have "unat (ucast (data_len m) :: u16) = length (mb_data m)"
    using m by (simp add: ucast16_unat mbuf_ok_def)
  with adj m show ?thesis
    by (simp add: data_adj_chain_def rte_pktmbuf_adj_spec_def Let_def data_len_def)
qed

lemma data_adj_chain_pkt_wf:
  assumes adj: "rte_pktmbuf_adj_spec adj" and c: "pkt_wf (m # r)"
    and len: "unat len < length (chain_bytes (m # r))" "unat len < 65536"
    and ne: "unat len \<noteq> length (mb_data m)"
    and res: "data_adj_chain adj (m # r) len = Some c'"
  shows "pkt_wf c'"
proof -
  from c have ok: "chain_ok (m # r)" and m: "mbuf_ok m"
    by (auto simp: pkt_wf_def dest: chain_ok_ConsD)
  from data_adj_chain_bytes [OF adj ok _ _ len(2)] len(1) res
  have c': "chain_ok c'" "chain_bytes c' = drop (unat len) (chain_bytes (m # r))"
    by auto
  with len(1) have ne': "c' \<noteq> []" by (cases c') auto
  have w: "unat (ucast len :: u16) = unat len" using len(2) by (rule ucast16_unat)
  have "mb_pkt_len (hd c') = mb_pkt_len m - len"
  proof (cases "unat len \<le> length (mb_data m)")
    case True
    have "mbuf_ok (m\<lparr>mb_data := drop (unat len) (mb_data m), mb_pkt_len := l\<rparr>)" for l
      using m by (simp add: mbuf_ok_def)
    from data_len_eq_0 [OF this] True ne
    have "data_len (m\<lparr>mb_data := drop (unat len) (mb_data m), mb_pkt_len := l\<rparr>) \<noteq> 0" for l
      by auto
    moreover have "ucast (ucast len :: u16) = len"
      using len(2) by (rule ucast_u16_u32)
    ultimately show ?thesis using True adj w res
      by (auto simp: data_adj_chain_def rte_pktmbuf_adj_spec_def Let_def)
  next
    case False
    then have "adj (m # r) (ucast len) = None"
      using adj w by (simp add: rte_pktmbuf_adj_spec_def)
    with res ne' show ?thesis
      by (auto simp: data_adj_chain_def Let_def neq_Nil_conv split: list.splits)
  qed
  moreover have "mb_pkt_len m - len = of_nat (length (chain_bytes c'))"
  proof -
    have "length (chain_bytes c') = length (chain_bytes (m # r)) - unat len"
      by (simp only: c'(2) length_drop)
    with c len(1) show ?thesis
      by (simp add: pkt_wf_def of_nat_diff del: chain_bytes_simps(2))
  qed
  ultimately show ?thesis using c' ne' by (simp add: pkt_wf_def)
qed

subsection \<open>Merging and cloning\<close>

lemma data_mbuf_merge_bytes:
  "dest \<noteq> [] \<Longrightarrow> chain_bytes (data_mbuf_merge dest src) = chain_bytes dest @ chain_bytes src"
  by (cases dest) (simp_all add: data_mbuf_merge_def)

lemma data_mbuf_merge_pkt_wf:
  assumes "pkt_wf dest" and "pkt_wf src"
    and "length (chain_bytes dest) + length (chain_bytes src) < 4294967296"
  shows "pkt_wf (data_mbuf_merge dest src)"
  using assms
  by (cases dest) (auto simp: data_mbuf_merge_def pkt_wf_def chain_ok_def mbuf_ok_def)

lemma data_clone_skip_bytes:
  assumes "chain_ok c" and "unat off < length (chain_bytes c)"
  shows "\<exists>m r off'. data_clone_skip c off = Some (m # r, off') \<and> chain_ok (m # r) \<and>
           unat off' < length (mb_data m) \<and>
           drop (unat off') (chain_bytes (m # r)) = drop (unat off) (chain_bytes c)"
  using assms
proof (induction c off rule: data_clone_skip.induct)
  case (1 off)
  then show ?case by simp
next
  case (2 m c off)
  from "2.prems" have m: "mbuf_ok m" and c: "chain_ok c" by (auto dest: chain_ok_ConsD)
  show ?case
  proof (cases "off \<ge> data_len m")
    case True
    with m have le: "length (mb_data m) \<le> unat off" by (simp add: word_le_nat_alt)
    with m have sub: "unat (off - data_len m) = unat off - length (mb_data m)"
      by (simp add: unat_sub_if_word)
    with "2.prems" le have "unat (off - data_len m) < length (chain_bytes c)" by simp
    from "2.IH" [OF True c this] True sub le show ?thesis by auto
  next
    case False
    with m have "unat off < length (mb_data m)" by (simp add: word_le_nat_alt)
    with False "2.prems" show ?thesis by simp
  qed
qed

lemma data_clone_segs_bytes:
  assumes "chain_ok c" and "unat off \<le> length (mb_data (hd c))" and "c \<noteq> []"
    and "unat len + unat off \<le> length (chain_bytes c)"
  shows "\<exists>r bs'. data_clone_segs c len off bs = Some (r, bs') \<and>
           (\<forall>c'. r = Some c' \<longrightarrow> c' \<noteq> [] \<and> chain_bytes c' = take (unat len) (drop (unat off) (chain_bytes c)))"
  using assms
proof (induction c len off bs rule: data_clone_segs.induct)
  case (1 len off bs)
  then show ?case by simp
next
  case (2 m c len off bs)
  let ?d = "drop (unat off) (mb_data m)"
  obtain ok bs1 where al: "pkt_mbuf_alloc bs = (ok, bs1)" by (cases "pkt_mbuf_alloc bs")
  from "2.prems" have m: "mbuf_ok m" and c: "chain_ok c" by (auto dest: chain_ok_ConsD)
  then have d: "unat (of_nat (length ?d) :: u32) = length ?d"
    by (intro unat_of_nat_small) (auto simp: mbuf_ok_def)
  consider "\<not> ok" | "ok" "unat len \<le> length ?d" | "ok" "length ?d < unat len" by linarith
  then show ?case
  proof cases
    case 1
    with al show ?thesis by simp
  next
    case 2
    with al d "2.prems" show ?thesis by (simp add: word_le_nat_alt)
  next
    case 3
    then have le: "\<not> len \<le> of_nat (length ?d)" using d by (simp only: word_le_nat_alt not_le)
    have sub: "unat (len - of_nat (length ?d)) = unat len - length ?d"
      using 3 d by (simp add: unat_sub_if_word)
    have "c \<noteq> []" using 3 "2.prems" by auto
    moreover have "unat (len - of_nat (length ?d)) + unat (0::u32) \<le> length (chain_bytes c)"
      unfolding sub using "2.prems" 3 by simp
    ultimately have "\<exists>r bs'. data_clone_segs c (len - of_nat (length ?d)) 0 bs1 = Some (r, bs') \<and>
       (\<forall>c'. r = Some c' \<longrightarrow> c' \<noteq> [] \<and>
          chain_bytes c' = take (unat len - length ?d) (chain_bytes c))"
      using "2.IH" [of "(ok, bs1)" ok bs1 ?d] al 3 le c sub by simp
    with al 3 le "2.prems" show ?thesis by auto
  qed
qed

lemma data_clone_seg_bytes:
  assumes "chain_ok c" and "unat off + unat len \<le> length (chain_bytes c)" and "len \<noteq> 0"
  shows "\<exists>r bs'. data_clone_seg c len off bs = Some (r, bs') \<and>
           (\<forall>c'. r = Some c' \<longrightarrow> c' \<noteq> [] \<and> mb_pkt_len (hd c') = len \<and>
              chain_bytes c' = take (unat len) (drop (unat off) (chain_bytes c)))"
proof -
  have "unat off < length (chain_bytes c)" using assms(2,3) by (simp add: unat_eq_0 [symmetric])
  from data_clone_skip_bytes [OF assms(1) this] obtain m r off' where
    s: "data_clone_skip c off = Some (m # r, off')" "chain_ok (m # r)"
      "unat off' < length (mb_data m)"
      "drop (unat off') (chain_bytes (m # r)) = drop (unat off) (chain_bytes c)" by blast
  from arg_cong [OF s(4), of length] s(3) assms(2)
  have "unat len + unat off' \<le> length (chain_bytes (m # r))" by auto
  moreover have "unat off' \<le> length (mb_data (hd (m # r)))" using s(3) by simp
  ultimately obtain q bs' where
    q: "data_clone_segs (m # r) len off' bs = Some (q, bs')"
      "\<And>c'. q = Some c' \<Longrightarrow> c' \<noteq> [] \<and>
         chain_bytes c' = take (unat len) (drop (unat off') (chain_bytes (m # r)))"
    using data_clone_segs_bytes [OF s(2)] by blast
  have "chain_bytes (x\<lparr>mb_pkt_len := a, mb_nb_segs := b\<rparr> # y) = chain_bytes (x # y)" for x a b y
    by simp
  with s(1,4) q assms(3) show ?thesis
    by (cases q) (auto simp: data_clone_seg_def simp del: chain_bytes_simps(2)
        data_clone_segs.simps split: list.splits)
qed

section \<open>Properties\<close>

text \<open>
  \<open>data_adj_chain\<close> removes the first \<open>len\<close> bytes of a packet and no other, whatever its division
  into buffers, and keeps the length field of the packet exact, unless the cut falls on
  the end of the first buffer.
\<close>

theorem data_adj_chain_cuts:
  assumes "rte_pktmbuf_adj_spec adj" and "pkt_wf (m # c)"
    and "unat len < length (chain_bytes (m # c))" and "unat len < 65536"
    and "unat len \<noteq> length (mb_data m)"
  shows "\<exists>c'. data_adj_chain adj (m # c) len = Some c' \<and> pkt_wf c' \<and>
           chain_bytes c' = drop (unat len) (chain_bytes (m # c))"
proof -
  have "chain_ok (m # c)" using assms(2) by (simp add: pkt_wf_def)
  from data_adj_chain_bytes [OF assms(1) this _ _ assms(4)] assms(3) obtain c' where
    c': "data_adj_chain adj (m # c) len = Some c'"
      "chain_bytes c' = drop (unat len) (chain_bytes (m # c))" by auto
  with data_adj_chain_pkt_wf [OF assms c'(1)] show ?thesis by blast
qed

definition ex_adj0 :: pktmbuf_adj where
  "ex_adj0 c len =
     (case c of
        [] \<Rightarrow> None
      | m # r \<Rightarrow> if unat len > length (mb_data m) then None
                 else Some (m\<lparr>mb_data := drop (unat len) (mb_data m),
                              mb_pkt_len := mb_pkt_len m - ucast len\<rparr> # r))"

lemma ex_adj0_spec: "rte_pktmbuf_adj_spec ex_adj0"
  by (simp add: rte_pktmbuf_adj_spec_def ex_adj0_def)

definition ex_chain :: chain where
  "ex_chain = [\<lparr>mb_data = [1, 2], mb_pkt_len = 5, mb_nb_segs = 2\<rparr>,
               \<lparr>mb_data = [3, 4, 5], mb_pkt_len = 3, mb_nb_segs = 1\<rparr>]"

lemma ex_chain_wf: "pkt_wf ex_chain"
  by (simp add: ex_chain_def pkt_wf_def chain_ok_def mbuf_ok_def)

theorem data_adj_chain_cuts_witness:
  "\<exists>c'. data_adj_chain ex_adj0 ex_chain 3 = Some c' \<and> pkt_wf c' \<and> chain_bytes c' = [4, 5]"
  using data_adj_chain_cuts [OF ex_adj0_spec, of "hd ex_chain" "tl ex_chain" 3] ex_chain_wf
  by (simp add: ex_chain_def)

text \<open>
  Cut exactly at the end of its first buffer, a packet keeps the length field of its second
  buffer: as soon as that is not the length of what remains, the packet is no longer well-formed.
\<close>

theorem data_adj_chain_boundary_bug:
  assumes "rte_pktmbuf_adj_spec adj" and "mbuf_ok m"
    and "mb_pkt_len n \<noteq> of_nat (length (chain_bytes (n # c)))"
  shows "\<exists>c'. data_adj_chain adj (m # n # c) (data_len m) = Some c' \<and> \<not> pkt_wf c'"
  using data_adj_chain_boundary [OF assms(1,2)] assms(3) by (auto simp: pkt_wf_def)

theorem data_adj_chain_boundary_bug_witness:
  "\<exists>c'. data_adj_chain ex_adj0 [\<lparr>mb_data = [1, 2], mb_pkt_len = 5, mb_nb_segs = 2\<rparr>,
          \<lparr>mb_data = [3, 4, 5], mb_pkt_len = 0, mb_nb_segs = 1\<rparr>] 2 = Some c' \<and> \<not> pkt_wf c'"
  using data_adj_chain_boundary_bug [OF ex_adj0_spec,
    of "\<lparr>mb_data = [1, 2], mb_pkt_len = 5, mb_nb_segs = 2\<rparr>"
       "\<lparr>mb_data = [3, 4, 5], mb_pkt_len = 0, mb_nb_segs = 1\<rparr>" "[]"]
  by (simp add: mbuf_ok_def data_len_def)

text \<open>
  A clone of a range of a packet holds exactly the bytes of the range, with the length of
  the range in its length field, or could not be allocated.
\<close>

theorem data_clone_seg_range:
  assumes "chain_ok c" and "unat off + unat len \<le> length (chain_bytes c)" and "len \<noteq> 0"
  shows "\<exists>r bs'. data_clone_seg c len off bs = Some (r, bs') \<and>
           (\<forall>c'. r = Some c' \<longrightarrow> c' \<noteq> [] \<and> mb_pkt_len (hd c') = len \<and>
              chain_bytes c' = take (unat len) (drop (unat off) (chain_bytes c)))"
  using assms by (rule data_clone_seg_bytes)

theorem data_clone_seg_range_witness:
  "\<exists>r bs'. data_clone_seg ex_chain 3 1 [] = Some (r, bs') \<and>
     (\<forall>c'. r = Some c' \<longrightarrow> chain_bytes c' = [2, 3, 4])"
proof -
  have "chain_ok ex_chain" using ex_chain_wf by (simp add: pkt_wf_def)
  from data_clone_seg_range [OF this, of 1 3 "[]"] show ?thesis
    by (auto simp: ex_chain_def)
qed

end
