(* ===== verification/Rate.thy ===== *)
theory Rate
  imports Prelude
begin

text \<open>
  The rate limiting engine: \<^verbatim>\<open>inc/tpg_rate.h\<close> and \<^verbatim>\<open>src/tpg_rate.c\<close>.

  A configured rate (operations per second) is spread over slots, one per interval of the
  second (\<open>rate_limit_cfg_init\<close>); a core then moves its share of the units of every slot
  to its own \<open>rate_limit\<close> (\<open>rate_limit_init\<close>), and consumes the units of the current slot.
  Slot values are 32 bit words. The loop counters never exceed twice \<open>GCFG_RATE_MAX_SLOT_COUNT\<close>,
  so they are natural numbers; the slot array is the list of the \<open>rlc_count\<close> slots in use.
  Loops whose end depends on the data are \<open>partial_function\<close>s: not returning is \<^term>\<open>None\<close>.
\<close>

definition GCFG_RATE_MAX_SLOT_COUNT :: u32 where
  "GCFG_RATE_MAX_SLOT_COUNT = 10000"

definition TPG_RATE_LIM_INFINITE_VAL :: u32 where
  "TPG_RATE_LIM_INFINITE_VAL = 0xffffffff"

definition TPG_SEC_TO_USEC :: u32 where
  "TPG_SEC_TO_USEC = 1000000"

text \<open>\<open>tpg_rate_t\<close>: an absent value is an unlimited rate.\<close>

type_synonym tpg_rate = "u32 option"

record rate_limit_cfg =
  rlc_count :: u32
  rlc_target :: u32
  rlc_slots :: "u32 list"

record rate_limit =
  rl_current_rate :: u32
  rl_count :: u16
  rl_current_index :: u16
  rl_max_burst :: u16
  rl_slots :: "u32 list"

definition RATE_CFG_ZERO :: rate_limit_cfg where
  "RATE_CFG_ZERO = \<lparr>rlc_count = 1, rlc_target = 0, rlc_slots = [0]\<rparr>"

definition RATE_CFG_INF :: rate_limit_cfg where
  "RATE_CFG_INF = \<lparr>rlc_count = 1, rlc_target = TPG_RATE_LIM_INFINITE_VAL,
                   rlc_slots = [TPG_RATE_LIM_INFINITE_VAL]\<rparr>"

definition rate_limit_zeroed :: rate_limit where
  "rate_limit_zeroed = \<lparr>rl_current_rate = 0, rl_count = 0, rl_current_index = 0,
                        rl_max_burst = 0, rl_slots = []\<rparr>"

subsection \<open>Spreading a rate over slots\<close>

fun find_slot :: "('a \<Rightarrow> bool) \<Rightarrow> nat \<Rightarrow> 'a list \<Rightarrow> nat option" where
  "find_slot P i [] = None"
| "find_slot P i (x # xs) = (if P x then Some i else find_slot P (Suc i) xs)"

text \<open>The search that raises \<open>min_value\<close> until some slot holds it.\<close>

partial_function (option) rate_min_slot :: "u32 list \<Rightarrow> u32 \<Rightarrow> (nat \<times> u32) option" where
  "rate_min_slot slots min_value =
     (case find_slot (\<lambda>s. s = min_value) 0 slots of
        Some i \<Rightarrow> Some (i, min_value)
      | None \<Rightarrow> rate_min_slot slots (min_value + 1))"

fun rate_incr_slots :: "u32 list \<Rightarrow> nat \<Rightarrow> nat \<Rightarrow> nat \<Rightarrow> u32 list \<times> nat" where
  "rate_incr_slots slots i step 0 = (slots, 0)"
| "rate_incr_slots slots i step (Suc rate) =
     (if i < length slots
      then rate_incr_slots (slots[i := slots ! i + 1]) (i + step) step rate
      else (slots, Suc rate))"

partial_function (option) rate_cfg_spread ::
  "u32 list \<Rightarrow> u32 \<Rightarrow> nat \<Rightarrow> nat \<Rightarrow> u32 list option" where
  "rate_cfg_spread slots min_value step rate =
     (if rate = 0 then Some slots
      else Option.bind (rate_min_slot slots min_value) (\<lambda>(index, min_value).
        let (slots, rate) = rate_incr_slots slots index step rate
        in rate_cfg_spread slots min_value (Suc step) rate))"

definition rate_limit_cfg_init :: "tpg_rate \<Rightarrow> rate_limit_cfg option" where
  "rate_limit_cfg_init target =
     (case target of
        None \<Rightarrow> Some RATE_CFG_INF
      | Some rate \<Rightarrow>
          if rate = 0 then Some RATE_CFG_ZERO
          else
            let count = min rate GCFG_RATE_MAX_SLOT_COUNT;
                min_value = rate div count;
                slots = replicate (unat count) min_value;
                rem = rate mod count
            in map_option
                 (\<lambda>slots. \<lparr>rlc_count = count, rlc_target = rate, rlc_slots = slots\<rparr>)
                 (if rem = 0 then Some slots
                  else rate_cfg_spread slots min_value (unat (count div rem)) (unat rem)))"

subsection \<open>The share of a core\<close>

text \<open>
  One sweep of \<open>rate_limit_init\<close> over the slots: the units taken from \<open>cs\<close> are added to \<open>rs\<close>.
  With \<open>step = 0\<close> the sweep does not end once its slot is empty.
\<close>

partial_function (option) rate_take_slots ::
  "u32 list \<Rightarrow> u32 list \<Rightarrow> nat \<Rightarrow> nat \<Rightarrow> nat \<Rightarrow> (u32 list \<times> u32 list \<times> nat) option" where
  "rate_take_slots cs rs i step desired =
     (if i < length cs \<and> desired \<noteq> 0
      then if cs ! i \<noteq> 0
           then rate_take_slots (cs[i := cs ! i - 1]) (rs[i := rs ! i + 1]) (i + step) step
                  (desired - 1)
           else rate_take_slots cs rs (i + step) step desired
      else Some (cs, rs, desired))"

definition rate_next_step :: "nat \<Rightarrow> nat \<Rightarrow> nat" where
  "rate_next_step count step =
     (let step = Suc step mod count in if step = 0 then 1 else step)"

partial_function (option) rate_take_all ::
  "u32 list \<Rightarrow> u32 list \<Rightarrow> nat \<Rightarrow> nat \<Rightarrow> (u32 list \<times> u32 list) option" where
  "rate_take_all cs rs step desired =
     (if desired = 0 then Some (cs, rs)
      else Option.bind
             (rate_take_slots cs rs
                (case find_slot (\<lambda>s. s > 0) 0 cs of Some i \<Rightarrow> i | None \<Rightarrow> length cs)
                step desired)
             (\<lambda>(cs, rs, desired).
                rate_take_all cs rs (rate_next_step (length cs) step) desired))"

text \<open>The outcome of the slot allocation is \<open>alloc_ok\<close>.\<close>

definition rate_limit_init ::
  "bool \<Rightarrow> rate_limit_cfg \<Rightarrow> u32 \<Rightarrow> u32 \<Rightarrow> u32 \<Rightarrow> (int \<times> rate_limit \<times> rate_limit_cfg) option" where
  "rate_limit_init alloc_ok cfg displacement desired max_burst =
     (let rl = rate_limit_zeroed
      in if desired = 0 then Some (0, rl, cfg)
         else if \<not> alloc_ok then Some (- ENOMEM, rl, cfg)
         else
           let rl = rl\<lparr>rl_slots := replicate (unat (rlc_count cfg)) 0,
                       rl_max_burst := ucast max_burst\<rparr>
           in if desired = TPG_RATE_LIM_INFINITE_VAL
              then Some (0, rl\<lparr>rl_count := 1,
                               rl_slots := (rl_slots rl)[0 := TPG_RATE_LIM_INFINITE_VAL],
                               rl_current_rate := TPG_RATE_LIM_INFINITE_VAL\<rparr>, cfg)
              else
                Option.bind
                  (rate_take_all (rlc_slots cfg) (rl_slots rl) (unat displacement) (unat desired))
                  (\<lambda>(cs, rs).
                     Some (0, rl\<lparr>rl_slots := rs, rl_current_rate := rs ! 0,
                                 rl_count := ucast (rlc_count cfg), rl_current_index := 0\<rparr>,
                           cfg\<lparr>rlc_slots := cs\<rparr>)))"

definition rate_limit_free :: "rate_limit \<Rightarrow> rate_limit" where
  "rate_limit_free rl = rate_limit_zeroed"

definition rate_limit_interval_us :: "u32 \<Rightarrow> rate_limit \<Rightarrow> u32" where
  "rate_limit_interval_us no_lim_interval_size rl =
     (if rl_count rl = 0 then 0
      else if rl_count rl = 1 \<and> rl_slots rl ! 0 = TPG_RATE_LIM_INFINITE_VAL
      then no_lim_interval_size
      else TPG_SEC_TO_USEC div ucast (rl_count rl))"

text \<open>\<open>test_case_rate_init\<close> of \<^verbatim>\<open>src/tpg_tests.c\<close>: the rate of the sessions that run on a core.\<close>

definition test_case_rate_target :: "u32 \<Rightarrow> u32 \<Rightarrow> u32 \<Rightarrow> u32" where
  "test_case_rate_target target_rate total_sessions local_sessions =
     (if target_rate \<noteq> TPG_RATE_LIM_INFINITE_VAL \<and> total_sessions \<noteq> 0
      then ucast ((ucast local_sessions * ucast target_rate :: u64) div ucast total_sessions)
      else target_rate)"

definition test_case_rate_init ::
  "bool \<Rightarrow> rate_limit_cfg \<Rightarrow> u32 \<Rightarrow> u32 \<Rightarrow> u32 \<Rightarrow> u32
     \<Rightarrow> (int \<times> rate_limit \<times> rate_limit_cfg) option" where
  "test_case_rate_init alloc_ok rate_cfg core_count max_burst total_sessions local_sessions =
     rate_limit_init alloc_ok rate_cfg core_count
       (test_case_rate_target (rlc_target rate_cfg) total_sessions local_sessions) max_burst"

subsection \<open>Running\<close>

definition rate_limit_reached :: "rate_limit \<Rightarrow> bool" where
  "rate_limit_reached rl \<longleftrightarrow> rl_current_rate rl = 0"

text \<open>
  The sum and the remainder are computed as \<open>int\<close>; a count of 0 is a division by zero.
\<close>

definition rate_limit_advance_interval :: "rate_limit \<Rightarrow> rate_limit option" where
  "rate_limit_advance_interval rl =
     (if rl_count rl = 0 then None
      else
        let i = (unat (rl_current_index rl) + 1) mod unat (rl_count rl)
        in if i < length (rl_slots rl)
           then Some (rl\<lparr>rl_current_index := of_nat i, rl_current_rate := rl_slots rl ! i\<rparr>)
           else None)"

definition rate_limit_available :: "rate_limit \<Rightarrow> u32" where
  "rate_limit_available rl =
     (if ucast (rl_max_burst rl) \<le> rl_current_rate rl then ucast (rl_max_burst rl)
      else rl_current_rate rl)"

definition rate_limit_consume :: "rate_limit \<Rightarrow> u32 \<Rightarrow> rate_limit" where
  "rate_limit_consume rl count = rl\<lparr>rl_current_rate := rl_current_rate rl - count\<rparr>"

subsection \<open>The slots of a configured rate\<close>

lemma find_slot_replicate: "0 < n \<Longrightarrow> P v \<Longrightarrow> find_slot P i (replicate n v) = Some i"
  by (cases n) simp_all

lemma find_slot_SomeD:
  "find_slot P k xs = Some i \<Longrightarrow> k \<le> i \<and> i < k + length xs \<and> P (xs ! (i - k))"
  by (induction P k xs rule: find_slot.induct)
    (auto split: if_splits simp: nth_Cons' Suc_diff_le)

lemma find_slot_NoneD: "find_slot P k xs = None \<Longrightarrow> \<forall>x \<in> set xs. \<not> P x"
  by (induction P k xs rule: find_slot.induct) (auto split: if_splits)

lemma rate_incr_slots_exhaust:
  assumes "0 < step" and "r = 0 \<or> i + (r - 1) * step < length xs"
  shows "\<exists>ys. rate_incr_slots xs i step r = (ys, 0) \<and> length ys = length xs \<and>
           (\<forall>j < length xs. ys ! j = xs ! j + (if \<exists>k < r. j = i + k * step then 1 else 0))"
  using assms
proof (induction xs i step r rule: rate_incr_slots.induct)
  case (1 slots i step)
  then show ?case by simp
next
  case (2 slots i step r)
  from "2.prems" have "i + r * step < length slots" by simp
  then have lt: "i < length slots" by linarith
  have ih: "r = 0 \<or> i + step + (r - 1) * step < length (slots[i := slots ! i + 1])"
    using "2.prems" by (cases r) (auto simp: algebra_simps)
  from "2.IH" [OF lt "2.prems"(1) ih] lt obtain ys where
    ys: "rate_incr_slots (slots[i := slots ! i + 1]) (i + step) step r = (ys, 0)"
      "length ys = length slots"
      "\<And>j. j < length slots \<Longrightarrow> ys ! j = slots[i := slots ! i + 1] ! j +
              (if \<exists>k < r. j = i + step + k * step then 1 else 0)"
    by auto
  have "(\<exists>k < Suc r. j = i + k * step) \<longleftrightarrow> j = i \<or> (\<exists>k < r. j = i + step + k * step)" for j
    unfolding Ex_less_Suc2 by (auto simp: algebra_simps)
  moreover have "\<not> (\<exists>k < r. i = i + step + k * step)" using "2.prems"(1) by simp
  ultimately show ?case using ys lt "2.prems"(1) by auto
qed

text \<open>The value of slot \<open>i\<close>: the quotient, and one more every \<open>step\<close> slots.\<close>

definition rate_slot :: "nat \<Rightarrow> nat \<Rightarrow> nat \<Rightarrow> nat" where
  "rate_slot rate n i =
     rate div n + (if i mod (n div (rate mod n)) = 0 \<and> i div (n div (rate mod n)) < rate mod n
                   then 1 else 0)"

lemma stride_iff:
  fixes step :: nat
  assumes "0 < step"
  shows "(\<exists>k < r. j = 0 + k * step) \<longleftrightarrow> j mod step = 0 \<and> j div step < r"
proof
  assume "\<exists>k < r. j = 0 + k * step"
  with assms show "j mod step = 0 \<and> j div step < r" by auto
next
  assume "j mod step = 0 \<and> j div step < r"
  then show "\<exists>k < r. j = 0 + k * step" by (intro exI [of _ "j div step"]) auto
qed

lemma stride_fits:
  fixes n r :: nat
  assumes "0 < r" and "r < n"
  shows "0 < n div r" and "0 + (r - 1) * (n div r) < n"
proof -
  from assms show 0: "0 < n div r" by (simp add: div_greater_zero_iff)
  have "(r - 1) * (n div r) < r * (n div r)" using assms 0 by simp
  also have "\<dots> \<le> n" by simp
  finally show "0 + (r - 1) * (n div r) < n" by simp
qed

lemma rate_cfg_spread_replicate:
  assumes "0 < r" and "r < n"
  shows "\<exists>ys. rate_cfg_spread (replicate n v) v (n div r) r = Some ys \<and> length ys = n \<and>
           (\<forall>j < n. ys ! j = v + (if j mod (n div r) = 0 \<and> j div (n div r) < r then 1 else 0))"
proof -
  note fits = stride_fits [OF assms]
  from rate_incr_slots_exhaust [OF fits(1), of r 0 "replicate n v"] fits(2) obtain ys where
    ys: "rate_incr_slots (replicate n v) 0 (n div r) r = (ys, 0)" "length ys = n"
      "\<And>j. j < n \<Longrightarrow> ys ! j = v + (if j mod (n div r) = 0 \<and> j div (n div r) < r then 1 else 0)"
    using stride_iff [OF fits(1)] by auto
  have "rate_min_slot (replicate n v) v = Some (0, v)"
    by (subst rate_min_slot.simps) (use assms in \<open>simp add: find_slot_replicate\<close>)
  then have "rate_cfg_spread (replicate n v) v (n div r) r =
               rate_cfg_spread ys v (Suc (n div r)) 0"
    by (subst rate_cfg_spread.simps) (use assms ys in simp)
  also have "\<dots> = Some ys" by (subst rate_cfg_spread.simps) simp
  finally show ?thesis using ys by blast
qed

lemma rate_slot_word:
  fixes rate count :: u32
  assumes "0 < count" and "rate mod count \<noteq> 0"
  shows "unat (rate div count + 1) = unat rate div unat count + 1"
proof -
  have "count \<noteq> 1" using assms by auto
  then have "2 \<le> unat count" using assms(1)
    by (metis Suc_1 Suc_leI less_one linorder_neqE_nat not_less_eq unat_1 unat_gt_0 word_gt_0
        word_unat_eq_iff)
  then have "unat rate div unat count \<le> unat rate div 2" by (rule div_le_mono2 [rotated]) simp
  with unat_u32_less [of rate] show ?thesis
    by (subst word_le_plus_unat) (simp_all add: unat_div)
qed

lemma rate_limit_cfg_init_slots:
  assumes "rate \<noteq> 0"
  shows "\<exists>cfg. rate_limit_cfg_init (Some rate) = Some cfg \<and>
           rlc_target cfg = rate \<and> rlc_count cfg = min rate GCFG_RATE_MAX_SLOT_COUNT \<and>
           map unat (rlc_slots cfg) =
             map (rate_slot (unat rate) (unat (rlc_count cfg))) [0..<unat (rlc_count cfg)]"
proof -
  let ?c = "min rate GCFG_RATE_MAX_SLOT_COUNT"
  let ?n = "unat ?c"
  have pos: "0 < ?c" using assms by (simp add: GCFG_RATE_MAX_SLOT_COUNT_def word_gt_0 min_def)
  show ?thesis
  proof (cases "rate mod ?c = 0")
    case True
    then have "unat rate mod ?n = 0" by (metis unat_0 unat_mod)
    with True assms show ?thesis
      by (auto simp: rate_limit_cfg_init_def Let_def rate_slot_def unat_div intro!: nth_equalityI)
  next
    case False
    have r: "0 < unat (rate mod ?c)" using False by (metis unat_eq_0 gr0I)
    have rn: "unat (rate mod ?c) < ?n" using pos
      by (metis unat_mod mod_less_divisor unat_gt_0 word_gt_0)
    from rate_cfg_spread_replicate [OF r rn, of "rate div ?c"] obtain ys where
      ys: "rate_cfg_spread (replicate ?n (rate div ?c)) (rate div ?c)
             (unat (?c div (rate mod ?c))) (unat (rate mod ?c)) = Some ys" "length ys = ?n"
        "\<And>j. j < ?n \<Longrightarrow> ys ! j = rate div ?c + (if j mod (?n div unat (rate mod ?c)) = 0 \<and>
              j div (?n div unat (rate mod ?c)) < unat (rate mod ?c) then 1 else 0)"
      by (auto simp: unat_div)
    have "map unat ys = map (rate_slot (unat rate) ?n) [0..<?n]"
      using ys(2,3) rate_slot_word [OF pos False]
      by (auto simp: rate_slot_def unat_mod unat_div intro!: nth_equalityI)
    with ys(1) False assms show ?thesis by (auto simp: rate_limit_cfg_init_def Let_def)
  qed
qed

lemma rate_slot_le: "rate_slot r n i \<le> r div n + 1" and rate_slot_ge: "r div n \<le> rate_slot r n i"
  by (simp_all add: rate_slot_def)

lemma rate_slot_sum:
  assumes "0 < n"
  shows "sum_list (map (rate_slot r n) [0..<n]) = r"
proof -
  let ?s = "n div (r mod n)"
  have card: "card {i. i < n \<and> i mod ?s = 0 \<and> i div ?s < r mod n} = r mod n"
  proof (cases "r mod n = 0")
    case True
    then show ?thesis by simp
  next
    case False
    then have m: "0 < r mod n" "r mod n < n" using assms by auto
    note fits = stride_fits [OF m]
    have "i < n \<and> i mod ?s = 0 \<and> i div ?s < r mod n \<longleftrightarrow> (\<exists>k < r mod n. i = 0 + k * ?s)" for i
    proof -
      have "i < n" if "k < r mod n" "i = 0 + k * ?s" for k
      proof -
        have "k * ?s \<le> (r mod n - 1) * ?s" using that by (intro mult_le_mono1) linarith
        also have "\<dots> < n" using fits(2) by simp
        finally show ?thesis using that by simp
      qed
      then show ?thesis unfolding stride_iff [OF fits(1), symmetric] by blast
    qed
    then have "{i. i < n \<and> i mod ?s = 0 \<and> i div ?s < r mod n} = (\<lambda>k. k * ?s) ` {..< r mod n}"
      by (simp add: set_eq_iff image_iff Bex_def)
    moreover have "inj_on (\<lambda>k. k * ?s) {..< r mod n}" using fits(1) by (auto intro: inj_onI)
    ultimately show ?thesis by (simp add: card_image)
  qed
  have "sum_list (map (rate_slot r n) [0..<n]) =
          (\<Sum>i = 0..<n. r div n + (if i mod ?s = 0 \<and> i div ?s < r mod n then 1 else 0))"
    by (simp add: rate_slot_def interv_sum_list_conv_sum_set_nat)
  also have "\<dots> = n * (r div n) + card ({0..<n} \<inter> {i. i mod ?s = 0 \<and> i div ?s < r mod n})"
    by (simp add: sum.distrib sum.If_cases)
  also have "{0..<n} \<inter> {i. i mod ?s = 0 \<and> i div ?s < r mod n} =
               {i. i < n \<and> i mod ?s = 0 \<and> i div ?s < r mod n}" by auto
  finally show ?thesis using card by simp
qed

subsection \<open>Taking the share of a core\<close>

text \<open>\<open>share os cs rs\<close>: the units of every slot of \<open>os\<close> are split between \<open>cs\<close> and \<open>rs\<close>.\<close>

definition share :: "u32 list \<Rightarrow> u32 list \<Rightarrow> u32 list \<Rightarrow> bool" where
  "share os cs rs \<longleftrightarrow> length cs = length os \<and> length rs = length os \<and>
     (\<forall>j < length os. unat (cs ! j) + unat (rs ! j) = unat (os ! j))"

definition units :: "u32 list \<Rightarrow> nat" where
  "units xs = sum_list (map unat xs)"

lemma share_zero: "share os os (replicate (length os) 0)"
  by (simp add: share_def)

lemma share_units: "share os cs rs \<Longrightarrow> units cs + units rs = units os"
  unfolding share_def units_def
proof (induction os arbitrary: cs rs)
  case (Cons a os)
  then obtain c cs' r rs' where [simp]: "cs = c # cs'" "rs = r # rs'"
    by (cases cs; cases rs) auto
  from Cons.prems have "unat c + unat r = unat a"
    by (metis length_greater_0_conv list.distinct(1) nth_Cons_0 \<open>cs = c # cs'\<close> \<open>rs = r # rs'\<close>)
  moreover have "\<forall>j < length os. unat (cs' ! j) + unat (rs' ! j) = unat (os ! j)"
    using Cons.prems by auto
  ultimately show ?case using Cons.IH [of cs' rs'] Cons.prems by simp
qed simp

lemma share_move:
  assumes "share os cs rs" and "i < length cs" and "cs ! i \<noteq> 0"
  shows "share os (cs[i := cs ! i - 1]) (rs[i := rs ! i + 1])"
    and "units (cs[i := cs ! i - 1]) + 1 = units cs"
proof -
  from assms(3) have pos: "0 < unat (cs ! i)" by (simp add: unat_gt_0)
  then have dec: "unat (cs ! i - 1) = unat (cs ! i) - 1" by (simp add: unat_sub_if_word)
  from assms have "unat (cs ! i) + unat (rs ! i) = unat (os ! i)" by (simp add: share_def)
  with pos unat_u32_less [of "os ! i"] have "unat (rs ! i + 1) = unat (rs ! i) + 1"
    by (subst word_le_plus_unat) auto
  with assms dec pos show "share os (cs[i := cs ! i - 1]) (rs[i := rs ! i + 1])"
    by (auto simp: share_def nth_list_update)
  from sum_list_list_update_nat [of i "map unat cs" "unat (cs ! i - 1)"] assms(2) dec pos
  show "units (cs[i := cs ! i - 1]) + 1 = units cs"
    by (simp add: units_def map_update)
qed

lemma rate_take_slots_ok:
  assumes "0 < step" and "share os cs rs"
  shows "\<exists>cs' rs' d'. rate_take_slots cs rs i step d = Some (cs', rs', d') \<and> share os cs' rs' \<and>
           d' \<le> d \<and> units cs' + d = units cs + d' \<and>
           (i < length cs \<and> cs ! i \<noteq> 0 \<and> d \<noteq> 0 \<longrightarrow> d' < d)"
  using assms(2)
proof (induction "length cs - i" arbitrary: i cs rs d rule: less_induct)
  case less
  show ?case
  proof (cases "i < length cs \<and> d \<noteq> 0")
    case False
    then show ?thesis using less.prems by (subst rate_take_slots.simps) auto
  next
    case True
    show ?thesis
    proof (cases "cs ! i = 0")
      case z: True
      have "length cs - (i + step) < length cs - i" using True assms(1) by auto
      from less.hyps [OF this less.prems, of d] show ?thesis using True z
        by (subst rate_take_slots.simps) auto
    next
      case nz: False
      note mv = share_move [OF less.prems _ nz] True
      have "length (cs[i := cs ! i - 1]) - (i + step) < length cs - i" using True assms(1) by auto
      from less.hyps [OF this mv(1), of "d - 1"] mv(2) True obtain cs' rs' d' where
        "rate_take_slots (cs[i := cs ! i - 1]) (rs[i := rs ! i + 1]) (i + step) step (d - 1) =
           Some (cs', rs', d')" "share os cs' rs'" "d' \<le> d - 1"
        "units cs' + (d - 1) = units (cs[i := cs ! i - 1]) + d'" by blast
      with mv(2) True nz show ?thesis by (subst rate_take_slots.simps) auto
    qed
  qed
qed

lemma rate_take_all_ok:
  assumes "0 < step" and "share os cs rs" and "d \<le> units cs"
  shows "\<exists>cs' rs'. rate_take_all cs rs step d = Some (cs', rs') \<and> share os cs' rs' \<and>
           units cs' + d = units cs"
  using assms
proof (induction d arbitrary: cs rs step rule: less_induct)
  case (less d)
  show ?case
  proof (cases "d = 0")
    case True
    then show ?thesis using less.prems by (subst rate_take_all.simps) auto
  next
    case False
    have "find_slot (\<lambda>s. s > 0) 0 cs \<noteq> None"
    proof
      assume "find_slot (\<lambda>s. s > 0) 0 cs = None"
      from find_slot_NoneD [OF this] have "\<forall>x \<in> set cs. unat x = 0" by (simp add: unat_eq_0 word_gt_0)
      then have "units cs = 0" by (simp add: units_def)
      with False less.prems show False by simp
    qed
    then obtain i where i: "find_slot (\<lambda>s. s > 0) 0 cs = Some i" by auto
    from find_slot_SomeD [OF this] have lt: "i < length cs" and nz: "cs ! i \<noteq> 0"
      by (auto simp: word_gt_0)
    from rate_take_slots_ok [OF less.prems(1,2), of i d] lt nz False obtain cs1 rs1 d1 where
      1: "rate_take_slots cs rs i step d = Some (cs1, rs1, d1)" "share os cs1 rs1" "d1 < d"
        "units cs1 + d = units cs + d1" by auto
    have "0 < rate_next_step (length cs1) step" by (simp add: rate_next_step_def Let_def)
    from less.IH [OF 1(3) this 1(2)] 1(3,4) less.prems(3) obtain cs2 rs2 where
      "rate_take_all cs1 rs1 (rate_next_step (length cs1) step) d1 = Some (cs2, rs2)"
      "share os cs2 rs2" "units cs2 + d1 = units cs1" by auto
    with 1 i False show ?thesis by (subst rate_take_all.simps) auto
  qed
qed

lemma rate_limit_init_share:
  assumes "0 < disp" and "desired \<noteq> TPG_RATE_LIM_INFINITE_VAL" and "desired \<noteq> 0"
    and "unat desired \<le> units (rlc_slots cfg)" and "length (rlc_slots cfg) = unat (rlc_count cfg)"
  shows "\<exists>rl cfg'. rate_limit_init True cfg disp desired burst = Some (0, rl, cfg') \<and>
           share (rlc_slots cfg) (rlc_slots cfg') (rl_slots rl) \<and>
           units (rl_slots rl) = unat desired \<and> rlc_count cfg' = rlc_count cfg \<and>
           rl_count rl = ucast (rlc_count cfg) \<and> rl_current_rate rl = rl_slots rl ! 0"
proof -
  have "share (rlc_slots cfg) (rlc_slots cfg) (replicate (unat (rlc_count cfg)) 0)"
    using share_zero [of "rlc_slots cfg"] assms(5) by simp
  moreover have "0 < unat disp" using assms(1) by (simp add: word_less_nat_alt)
  ultimately obtain cs rs where
    "rate_take_all (rlc_slots cfg) (replicate (unat (rlc_count cfg)) 0) (unat disp)
       (unat desired) = Some (cs, rs)" "share (rlc_slots cfg) cs rs"
    "units cs + unat desired = units (rlc_slots cfg)"
    using rate_take_all_ok assms(4) by blast
  with assms share_units [of "rlc_slots cfg" cs rs] show ?thesis
    by (auto simp: rate_limit_init_def Let_def)
qed

text \<open>The shares of the cores never add up to more than the configured rate.\<close>

lemma test_case_rate_target_unat:
  assumes "target \<noteq> TPG_RATE_LIM_INFINITE_VAL" and "tot \<noteq> 0" and "loc \<le> tot"
  shows "unat (test_case_rate_target target tot loc) = unat loc * unat target div unat tot"
proof -
  have b: "unat loc < 2 ^ 32" "unat target < 2 ^ 32" "unat tot < 2 ^ 32"
    using unat_u32_less by auto
  have w: "unat (ucast x :: u64) = unat x" for x :: u32
    using unat_u32_less [of x] by (simp add: unsigned_ucast_eq take_bit_nat_eq_self)
  have "unat loc * unat target < 2 ^ 32 * 2 ^ 32" using b by (intro mult_strict_mono) auto
  then have "unat ((ucast loc :: u64) * ucast target) = unat loc * unat target"
    by (simp add: unat_word_ariths w)
  moreover have "unat loc * unat target div unat tot \<le> unat target"
  proof -
    have "unat loc * unat target \<le> unat tot * unat target"
      using assms(3) by (intro mult_le_mono1) (simp add: word_le_nat_alt)
    then show ?thesis using assms(2) by (metis div_le_mono nonzero_mult_div_cancel_left unat_eq_0)
  qed
  ultimately show ?thesis using assms(1,2) b
    by (simp add: test_case_rate_target_def unsigned_ucast_eq unat_div w take_bit_nat_eq_self)
qed

lemma sum_list_div_le:
  fixes xs :: "nat list"
  assumes "0 < n" and "sum_list xs \<le> n"
  shows "sum_list (map (\<lambda>x. x * t div n) xs) \<le> t"
proof -
  have "n * sum_list (map (\<lambda>x. x * t div n) xs) \<le> sum_list xs * t"
  proof (induction xs)
    case (Cons x xs)
    have "n * (x * t div n) \<le> x * t" by (rule times_div_less_eq_dividend)
    from add_mono [OF this Cons.IH] show ?case by (simp only: list.map sum_list.Cons distrib_left distrib_right)
  qed simp
  also have "\<dots> \<le> n * t" using assms by simp
  finally show ?thesis using assms by simp
qed

section \<open>Properties\<close>

text \<open>
  The slots of a configured rate add up to the rate exactly, and no two of them differ by more
  than one: the operations of a second are spread evenly over it.
\<close>

theorem rate_limit_cfg_init_even:
  assumes "rate \<noteq> 0"
  shows "\<exists>cfg. rate_limit_cfg_init (Some rate) = Some cfg \<and> units (rlc_slots cfg) = unat rate \<and>
           length (rlc_slots cfg) = unat (rlc_count cfg) \<and>
           (\<forall>x \<in> set (rlc_slots cfg). \<forall>y \<in> set (rlc_slots cfg). unat x \<le> unat y + 1)"
proof -
  from rate_limit_cfg_init_slots [OF assms] obtain cfg where
    c: "rate_limit_cfg_init (Some rate) = Some cfg" "rlc_count cfg = min rate GCFG_RATE_MAX_SLOT_COUNT"
      "map unat (rlc_slots cfg) =
         map (rate_slot (unat rate) (unat (rlc_count cfg))) [0..<unat (rlc_count cfg)]"
    by blast
  have "0 < unat (rlc_count cfg)"
    using assms c(2) by (simp add: GCFG_RATE_MAX_SLOT_COUNT_def unat_gt_0 min_def)
  from rate_slot_sum [OF this] c(3) have "units (rlc_slots cfg) = unat rate" by (simp add: units_def)
  moreover from arg_cong [OF c(3), of length] have "length (rlc_slots cfg) = unat (rlc_count cfg)" by simp
  moreover have "unat rate div unat (rlc_count cfg) \<le> unat x \<and>
      unat x \<le> unat rate div unat (rlc_count cfg) + 1" if "x \<in> set (rlc_slots cfg)" for x
  proof -
    have "unat x \<in> set (map unat (rlc_slots cfg))" using that by simp
    then show ?thesis unfolding c(3) using rate_slot_le rate_slot_ge by fastforce
  qed
  then have "unat x \<le> unat y + 1" if "x \<in> set (rlc_slots cfg)" "y \<in> set (rlc_slots cfg)" for x y
    using that by (meson add_le_mono1 le_trans)
  ultimately show ?thesis using c(1) by blast
qed

theorem rate_limit_cfg_init_even_witness:
  "\<exists>cfg. rate_limit_cfg_init (Some 107) = Some cfg \<and> units (rlc_slots cfg) = 107"
  using rate_limit_cfg_init_even [of 107] by auto

text \<open>
  Taking the share of a core moves units from the configured rate to the core's slots, slot by slot:
  nothing is lost and nothing is created, and the core gets exactly what it asked for.
\<close>

theorem rate_limit_init_conserves:
  assumes "0 < disp" and "desired \<noteq> TPG_RATE_LIM_INFINITE_VAL" and "desired \<noteq> 0"
    and "unat desired \<le> units (rlc_slots cfg)" and "length (rlc_slots cfg) = unat (rlc_count cfg)"
  shows "\<exists>rl cfg'. rate_limit_init True cfg disp desired burst = Some (0, rl, cfg') \<and>
           units (rl_slots rl) = unat desired \<and>
           units (rlc_slots cfg') + unat desired = units (rlc_slots cfg) \<and>
           (\<forall>i < length (rlc_slots cfg).
              unat (rlc_slots cfg' ! i) + unat (rl_slots rl ! i) = unat (rlc_slots cfg ! i))"
proof -
  from rate_limit_init_share [OF assms] obtain rl cfg' where
    "rate_limit_init True cfg disp desired burst = Some (0, rl, cfg')"
    "share (rlc_slots cfg) (rlc_slots cfg') (rl_slots rl)" "units (rl_slots rl) = unat desired"
    by blast
  with share_units [of "rlc_slots cfg" "rlc_slots cfg'" "rl_slots rl"] show ?thesis
    by (auto simp: share_def)
qed

theorem rate_limit_init_conserves_witness:
  "\<exists>rl cfg'. rate_limit_init True \<lparr>rlc_count = 2, rlc_target = 3, rlc_slots = [2, 1]\<rparr> 1 2 4 =
     Some (0, rl, cfg') \<and> units (rl_slots rl) = 2 \<and> units (rlc_slots cfg') + 2 = 3"
  using rate_limit_init_conserves [of 1 2 "\<lparr>rlc_count = 2, rlc_target = 3, rlc_slots = [2, 1]\<rparr>" 4]
  by (auto simp: units_def TPG_RATE_LIM_INFINITE_VAL_def)

text \<open>
  The cores together never run above the configured rate: the targets of cores whose
  sessions are at most the sessions of the test add up to at most the rate.
\<close>

lemma core_targets_le_rate:
  assumes "target \<noteq> TPG_RATE_LIM_INFINITE_VAL" and "tot \<noteq> 0" and "sum_list (map unat locals) \<le> unat tot"
  shows "sum_list (map (\<lambda>l. unat (test_case_rate_target target tot l)) locals) \<le> unat target"
proof -
  have "l \<le> tot" if "l \<in> set locals" for l
    using member_le_sum_list [of "unat l" "map unat locals"] that assms(3) by (simp add: word_le_nat_alt)
  with test_case_rate_target_unat [OF assms(1,2)]
  have "map (\<lambda>l. unat (test_case_rate_target target tot l)) locals =
          map (\<lambda>x. x * unat target div unat tot) (map unat locals)" by simp
  moreover have "0 < unat tot" using assms(2) by (simp add: unat_gt_0)
  ultimately show ?thesis using sum_list_div_le [OF _ assms(3)] by metis
qed

text \<open>
  A core whose share of the rate rounds down to zero gets no rate at all: its interval is zero,
  which the caller takes as no rate timer to start. With less than one operation per second and core,
  every core is in this case, and the test never runs an operation.
\<close>

theorem small_share_never_runs:
  assumes "rlc_target cfg \<noteq> TPG_RATE_LIM_INFINITE_VAL" and "loc \<le> tot"
    and "unat loc * unat (rlc_target cfg) < unat tot"
  shows "\<exists>rl. test_case_rate_init ok cfg cores burst tot loc = Some (0, rl, cfg) \<and>
           rate_limit_interval_us n rl = 0 \<and> rate_limit_reached rl"
proof -
  have "tot \<noteq> 0" using assms(3) by auto
  from test_case_rate_target_unat [OF assms(1) this assms(2)] assms(3)
  have "test_case_rate_target (rlc_target cfg) tot loc = 0" by (simp add: unat_eq_0)
  then show ?thesis
    by (simp add: test_case_rate_init_def rate_limit_init_def Let_def rate_limit_interval_us_def
        rate_limit_reached_def rate_limit_zeroed_def)
qed

theorem small_share_never_runs_witness:
  "\<exists>cfg rl. rate_limit_cfg_init (Some 1) = Some cfg \<and>
     test_case_rate_init True cfg 2 4 2 1 = Some (0, rl, cfg) \<and> rate_limit_interval_us 10000 rl = 0"
proof -
  from rate_limit_cfg_init_slots [of 1] obtain cfg where
    "rate_limit_cfg_init (Some 1) = Some cfg" "rlc_target cfg = 1" by auto
  with small_share_never_runs [of cfg 1 2 True 2 4 10000] show ?thesis
    by (auto simp: TPG_RATE_LIM_INFINITE_VAL_def)
qed

end
