(* ===== verification/TimerWheel.thy ===== *)
theory TimerWheel
  imports Prelude
begin

text \<open>
  The timer wheels: \<^verbatim>\<open>inc/tpg_timer.h\<close> and the generic part of \<^verbatim>\<open>src/tpg_timer.c\<close>.

  A bucket is the list of its entries, head first; the array of buckets is a function of the
  bucket index. The clock is the cycle counter \<open>now\<close>, \<open>cpu\<close> is \<open>cycles_per_us\<close>. The code reads
  the successor of an entry before it calls the timeout callback; the callback works on the
  whole state \<open>'s\<close> of the core, in which \<open>getw\<close> and \<open>updw\<close> find the wheel. Asking for the successor of an
  entry that is on no list, or removing it, is undefined in the code and \<^term>\<open>None\<close> here.
\<close>

definition GCFG_TMR_MAX_RUN_CNT :: nat where
  "GCFG_TMR_MAX_RUN_CNT = 10000"

definition GCFG_TMR_STEP_ADVANCE :: u64 where
  "GCFG_TMR_STEP_ADVANCE = 25"

record 'e tmr_wheel =
  tw_size :: u32
  tw_step :: u32
  tw_current :: u32
  tw_last_advance :: u64
  tw_wheel :: "nat \<Rightarrow> 'e list"

definition tmr_div :: "u64 \<Rightarrow> u32 \<Rightarrow> u32 \<Rightarrow> u32" where
  "tmr_div us step sz = ucast ((us div ucast step) mod ucast sz)"

definition timer_init_wheel ::
  "bool \<Rightarrow> bool \<Rightarrow> u64 \<Rightarrow> u64 \<Rightarrow> u32 \<Rightarrow> u32 \<Rightarrow> 'e tmr_wheel option" where
  "timer_init_wheel alloc_wheel alloc_buckets cpu now sz step =
     (if \<not> alloc_wheel \<or> \<not> alloc_buckets then None
      else Some \<lparr>tw_size = sz, tw_step = step, tw_current = tmr_div (now div cpu) step sz,
                 tw_last_advance = 0, tw_wheel = (\<lambda>_. [])\<rparr>)"

definition tcp_timer_get_wheel_bucket ::
  "u64 \<Rightarrow> u64 \<Rightarrow> 'e tmr_wheel \<Rightarrow> u32 \<Rightarrow> u32 option" where
  "tcp_timer_get_wheel_bucket cpu now w timeout_us =
     (let max_timeout_us = (ucast (tw_size w) * ucast (tw_step w) :: u64)
      in if ucast timeout_us > max_timeout_us then None
         else Some (tmr_div (now div cpu + ucast timeout_us) (tw_step w) (tw_size w)))"

text \<open>\<open>TIMER_SET\<close> and \<open>TIMER_CANCEL\<close>; the status of a refused timer is \<open>-EINVAL\<close>.\<close>

definition TIMER_SET :: "u64 \<Rightarrow> u64 \<Rightarrow> 'e \<Rightarrow> u32 \<Rightarrow> 'e tmr_wheel \<Rightarrow> int \<times> 'e tmr_wheel" where
  "TIMER_SET cpu now x timeout_us w =
     (case tcp_timer_get_wheel_bucket cpu now w timeout_us of
        Some b \<Rightarrow> (0, w\<lparr>tw_wheel := (tw_wheel w)(unat b := x # tw_wheel w (unat b))\<rparr>)
      | None \<Rightarrow> (- EINVAL, w))"

definition tw_buckets :: "'e tmr_wheel \<Rightarrow> nat list" where
  "tw_buckets w = [0..<unat (tw_size w)]"

definition tmr_bucket_of :: "'e \<Rightarrow> 'e tmr_wheel \<Rightarrow> nat option" where
  "tmr_bucket_of x w = find (\<lambda>b. x \<in> set (tw_wheel w b)) (tw_buckets w)"

definition TIMER_CANCEL :: "'e \<Rightarrow> 'e tmr_wheel \<Rightarrow> 'e tmr_wheel option" where
  "TIMER_CANCEL x w =
     (case tmr_bucket_of x w of
        None \<Rightarrow> None
      | Some b \<Rightarrow> Some (w\<lparr>tw_wheel := (tw_wheel w)(b := remove1 x (tw_wheel w b))\<rparr>))"

text \<open>The \<open>tle_next\<close> of an entry: the element that follows it in its bucket.\<close>

fun list_next :: "'e \<Rightarrow> 'e list \<Rightarrow> 'e option option" where
  "list_next x [] = None"
| "list_next x (y # ys) =
     (if x = y then Some (case ys of [] \<Rightarrow> None | z # _ \<Rightarrow> Some z) else list_next x ys)"

definition tmr_next :: "'e \<Rightarrow> 'e tmr_wheel \<Rightarrow> 'e option option" where
  "tmr_next x w = Option.bind (tmr_bucket_of x w) (\<lambda>b. list_next x (tw_wheel w b))"

text \<open>One bucket of \<open>tpg_time_wheel_advance\<close>; the first argument is what is left of
  \<open>GCFG_TMR_MAX_RUN_CNT\<close>.\<close>

fun tmr_run_bucket ::
  "nat \<Rightarrow> ('s \<Rightarrow> 'e tmr_wheel) \<Rightarrow> ('e \<Rightarrow> 's \<Rightarrow> 's option) \<Rightarrow> 'e option \<Rightarrow> 's \<Rightarrow> (nat \<times> 's) option"
where
  "tmr_run_bucket 0 getw cb cur s = Some (0, s)"
| "tmr_run_bucket (Suc left) getw cb cur s =
     (case cur of
        None \<Rightarrow> Some (Suc left, s)
      | Some x \<Rightarrow>
          Option.bind (tmr_next x (getw s)) (\<lambda>tmp.
          Option.bind (cb x s) (\<lambda>s. tmr_run_bucket left getw cb tmp s)))"

definition tmr_first :: "'e tmr_wheel \<Rightarrow> 'e option" where
  "tmr_first w = (case tw_wheel w (unat (tw_current w)) of [] \<Rightarrow> None | x # _ \<Rightarrow> Some x)"

partial_function (option) tmr_run_wheel ::
  "nat \<Rightarrow> ('s \<Rightarrow> 'e tmr_wheel) \<Rightarrow> (('e tmr_wheel \<Rightarrow> 'e tmr_wheel) \<Rightarrow> 's \<Rightarrow> 's)
     \<Rightarrow> ('e \<Rightarrow> 's \<Rightarrow> 's option) \<Rightarrow> u32 \<Rightarrow> 's \<Rightarrow> 's option" where
  "tmr_run_wheel left getw updw cb now_idx s =
     (if tw_current (getw s) = now_idx then Some s
      else Option.bind (tmr_run_bucket left getw cb (tmr_first (getw s)) s) (\<lambda>(left, s).
        if left = 0 then Some s
        else tmr_run_wheel left getw updw cb now_idx
               (updw (\<lambda>w. w\<lparr>tw_current := (tw_current w + 1) mod tw_size w\<rparr>) s)))"

definition tpg_time_wheel_advance ::
  "u64 \<Rightarrow> ('s \<Rightarrow> 'e tmr_wheel) \<Rightarrow> (('e tmr_wheel \<Rightarrow> 'e tmr_wheel) \<Rightarrow> 's \<Rightarrow> 's)
     \<Rightarrow> ('e \<Rightarrow> 's \<Rightarrow> 's option) \<Rightarrow> u64 \<Rightarrow> 's \<Rightarrow> 's option" where
  "tpg_time_wheel_advance cpu getw updw cb now s =
     map_option (updw (\<lambda>w. w\<lparr>tw_last_advance := now\<rparr>))
       (tmr_run_wheel GCFG_TMR_MAX_RUN_CNT getw updw cb
          (tmr_div (now div cpu) (tw_step (getw s)) (tw_size (getw s))) s)"

definition tcp_time_should_advance :: "u64 \<Rightarrow> 'e tmr_wheel \<Rightarrow> u64 \<Rightarrow> bool" where
  "tcp_time_should_advance cpu w now \<longleftrightarrow> (now - tw_last_advance w) div cpu > GCFG_TMR_STEP_ADVANCE"

subsection \<open>Well-formed wheels\<close>

definition tw_entries :: "'e tmr_wheel \<Rightarrow> 'e list" where
  "tw_entries w = concat (map (tw_wheel w) (tw_buckets w))"

definition wheel_wf :: "'e tmr_wheel \<Rightarrow> bool" where
  "wheel_wf w \<longleftrightarrow> 0 < unat (tw_size w) \<and> 0 < unat (tw_step w) \<and>
     unat (tw_current w) < unat (tw_size w) \<and>
     (\<forall>b < unat (tw_size w). distinct (tw_wheel w b)) \<and>
     (\<forall>b < unat (tw_size w). \<forall>b' < unat (tw_size w).
        b \<noteq> b' \<longrightarrow> set (tw_wheel w b) \<inter> set (tw_wheel w b') = {})"

lemma tmr_bucket_of_eq:
  assumes "wheel_wf w" and "b < unat (tw_size w)" and "x \<in> set (tw_wheel w b)"
  shows "tmr_bucket_of x w = Some b"
proof -
  have "tmr_bucket_of x w \<noteq> None"
    using assms by (auto simp: tmr_bucket_of_def find_None_iff tw_buckets_def)
  then obtain b' where "tmr_bucket_of x w = Some b'" by auto
  moreover from this have "b' < unat (tw_size w)" "x \<in> set (tw_wheel w b')"
    by (auto simp: tmr_bucket_of_def find_Some_iff tw_buckets_def)
  ultimately show ?thesis using assms by (auto simp: wheel_wf_def)
qed

lemma tmr_bucket_of_Some:
  "tmr_bucket_of x w = Some b \<Longrightarrow> b < unat (tw_size w) \<and> x \<in> set (tw_wheel w b)"
  by (auto simp: tmr_bucket_of_def find_Some_iff tw_buckets_def)

lemma tmr_bucket_of_None:
  "tmr_bucket_of x w = None \<longleftrightarrow> x \<notin> set (tw_entries w)"
  by (auto simp: tmr_bucket_of_def find_None_iff tw_buckets_def tw_entries_def)

lemma wheel_wf_upd:
  assumes "wheel_wf w" and "distinct xs" and "set xs \<subseteq> set (tw_wheel w b)"
  shows "wheel_wf (w\<lparr>tw_wheel := (tw_wheel w)(b := xs)\<rparr>)"
proof -
  have "set (((tw_wheel w)(b := xs)) i) \<subseteq> set (tw_wheel w i)" for i
    using assms(3) by simp
  then have "set (((tw_wheel w)(b := xs)) i) \<inter> set (((tw_wheel w)(b := xs)) j) = {}"
    if "i < unat (tw_size w)" "j < unat (tw_size w)" "i \<noteq> j" for i j
    using assms(1) that unfolding wheel_wf_def by blast
  then show ?thesis using assms(1,2) unfolding wheel_wf_def by simp
qed

lemma unat_ucast_u32_u64 [simp]: "unat (ucast (x::u32) :: u64) = unat x"
  using unat_u32_less [of x] by (simp add: unsigned_ucast_eq take_bit_nat_eq_self)

lemma tmr_div_unat:
  assumes "0 < unat sz"
  shows "unat (tmr_div us step sz) = (unat us div unat step) mod unat sz"
proof -
  have "(unat us div unat step) mod unat sz < unat sz" using assms by simp
  with unat_u32_less [of sz] have "(unat us div unat step) mod unat sz < 2 ^ 32" by simp
  then show ?thesis
    by (simp add: tmr_div_def unsigned_ucast_eq unat_mod unat_div take_bit_nat_eq_self)
qed

lemma TIMER_CANCEL_wf:
  assumes "wheel_wf w" and "TIMER_CANCEL x w = Some w'"
  shows "wheel_wf w' \<and> x \<notin> set (tw_entries w') \<and> set (tw_entries w') = set (tw_entries w) - {x}"
proof -
  from assms(2) obtain b where b: "tmr_bucket_of x w = Some b"
    "w' = w\<lparr>tw_wheel := (tw_wheel w)(b := remove1 x (tw_wheel w b))\<rparr>"
    by (auto simp: TIMER_CANCEL_def split: option.splits)
  note bx = tmr_bucket_of_Some [OF b(1)]
  have d: "distinct (tw_wheel w b)" using assms(1) bx by (simp add: wheel_wf_def)
  have "wheel_wf w'" unfolding b(2)
    using d assms(1) by (intro wheel_wf_upd) (auto dest: notin_set_remove1)
  moreover have "b' \<noteq> b \<Longrightarrow> b' < unat (tw_size w) \<Longrightarrow> x \<notin> set (tw_wheel w b')" for b'
    using assms(1) bx by (auto simp: wheel_wf_def)
  ultimately show ?thesis using d bx
    by (auto simp: b(2) tw_entries_def tw_buckets_def split: if_splits)
qed

lemma TIMER_SET_wf:
  assumes "wheel_wf w" and "x \<notin> set (tw_entries w)" and "TIMER_SET cpu now x t w = (r, w')"
  shows "wheel_wf w' \<and> (r = 0 \<longrightarrow> set (tw_entries w') = insert x (set (tw_entries w)))"
proof (cases "tcp_timer_get_wheel_bucket cpu now w t")
  case None
  with assms show ?thesis by (auto simp: TIMER_SET_def)
next
  case (Some b)
  then have b: "b = tmr_div (now div cpu + ucast t) (tw_step w) (tw_size w)"
    by (auto simp: tcp_timer_get_wheel_bucket_def Let_def split: if_splits)
  have w: "w' = w\<lparr>tw_wheel := (tw_wheel w)(unat b := x # tw_wheel w (unat b))\<rparr>"
    using Some assms(3) by (auto simp: TIMER_SET_def)
  have sz: "0 < unat (tw_size w)" using assms(1) by (simp add: wheel_wf_def)
  have "unat b < unat (tw_size w)"
    using sz by (simp add: b tmr_div_unat)
  moreover have "i < unat (tw_size w) \<Longrightarrow> x \<notin> set (tw_wheel w i)" for i
    using assms(2) by (auto simp: tw_entries_def tw_buckets_def)
  ultimately show ?thesis using assms(1)
    unfolding w wheel_wf_def by (auto simp: tw_entries_def tw_buckets_def split: if_splits)
qed

subsection \<open>What an advance fires\<close>

text \<open>
  The callback every timeout handler contains: it takes its entry off the wheel. It records
  the entry, so that the order in which timers fire can be stated.
\<close>

definition tmr_collect ::
  "'e \<Rightarrow> 'e tmr_wheel \<times> 'e list \<Rightarrow> ('e tmr_wheel \<times> 'e list) option" where
  "tmr_collect x s = map_option (\<lambda>w. (w, snd s @ [x])) (TIMER_CANCEL x (fst s))"

definition tmr_advance ::
  "u64 \<Rightarrow> u64 \<Rightarrow> 'e tmr_wheel \<Rightarrow> ('e tmr_wheel \<times> 'e list) option" where
  "tmr_advance cpu now w = tpg_time_wheel_advance cpu fst apfst tmr_collect now (w, [])"

lemma tmr_head_step:
  assumes "wheel_wf w" and "b < unat (tw_size w)" and "tw_wheel w b = x # xs"
  shows "tmr_next x w = Some (case xs of [] \<Rightarrow> None | z # _ \<Rightarrow> Some z)"
    and "TIMER_CANCEL x w = Some (w\<lparr>tw_wheel := (tw_wheel w)(b := xs)\<rparr>)"
proof -
  have "tmr_bucket_of x w = Some b" using assms by (intro tmr_bucket_of_eq) auto
  with assms(3) show "tmr_next x w = Some (case xs of [] \<Rightarrow> None | z # _ \<Rightarrow> Some z)"
    and "TIMER_CANCEL x w = Some (w\<lparr>tw_wheel := (tw_wheel w)(b := xs)\<rparr>)"
    by (simp_all add: tmr_next_def TIMER_CANCEL_def)
qed

lemma tmr_run_bucket_collect:
  assumes "wheel_wf w" and "b < unat (tw_size w)" and "tw_wheel w b = xs"
    and "length xs \<le> left"
  shows "tmr_run_bucket left fst tmr_collect (case xs of [] \<Rightarrow> None | x # _ \<Rightarrow> Some x) (w, l) =
           Some (left - length xs, w\<lparr>tw_wheel := (tw_wheel w)(b := [])\<rparr>, l @ xs)"
  using assms
proof (induction xs arbitrary: w l left)
  case Nil
  then have "w\<lparr>tw_wheel := (tw_wheel w)(b := [])\<rparr> = w" by (simp add: fun_upd_idem del: fun_upd_apply)
  then show ?case by (cases left) (simp_all del: fun_upd_apply)
next
  case (Cons x xs)
  obtain n where left: "left = Suc n" using Cons.prems by (cases left) auto
  let ?w = "w\<lparr>tw_wheel := (tw_wheel w)(b := xs)\<rparr>"
  note st = tmr_head_step [OF Cons.prems(1,2,3)]
  have "distinct (x # xs)" using Cons.prems by (metis wheel_wf_def)
  then have wf: "wheel_wf ?w" using Cons.prems by (intro wheel_wf_upd) auto
  have "tmr_run_bucket n fst tmr_collect (case xs of [] \<Rightarrow> None | x # _ \<Rightarrow> Some x) (?w, l @ [x]) =
          Some (n - length xs, ?w\<lparr>tw_wheel := (tw_wheel ?w)(b := [])\<rparr>, (l @ [x]) @ xs)"
    using wf Cons.prems left by (intro Cons.IH) auto
  moreover have "tmr_collect x (w, l) = Some (?w, l @ [x])"
    by (simp add: tmr_collect_def st del: fun_upd_apply)
  ultimately show ?case using st left by (simp del: fun_upd_apply)
qed

text \<open>The \<open>n\<close> buckets from \<open>c\<close> on, around the wheel.\<close>

definition ring :: "nat \<Rightarrow> nat \<Rightarrow> nat \<Rightarrow> nat list" where
  "ring sz c n = map (\<lambda>k. (c + k) mod sz) [0..<n]"

lemma ring_0 [simp]: "ring sz c 0 = []"
  by (simp add: ring_def)

lemma ring_Suc: "ring sz c (Suc n) = c mod sz # ring sz (Suc c mod sz) n"
  by (simp add: ring_def upt_conv_Cons map_Suc_upt [symmetric] mod_simps del: upt_Suc)

definition tw_clear :: "nat list \<Rightarrow> 'e tmr_wheel \<Rightarrow> 'e tmr_wheel" where
  "tw_clear bs w = w\<lparr>tw_wheel := (\<lambda>b. if b \<in> set bs then [] else tw_wheel w b)\<rparr>"

lemma tw_clear_Cons: "tw_clear (b # bs) w = tw_clear bs (w\<lparr>tw_wheel := (tw_wheel w)(b := [])\<rparr>)"
  by (cases w) (auto simp: tw_clear_def fun_eq_iff)

lemma tw_next_current:
  assumes "unat (tw_current w) < unat (tw_size w)"
  shows "unat ((tw_current w + 1) mod tw_size w) = Suc (unat (tw_current w)) mod unat (tw_size w)"
proof -
  have "unat (tw_current w + 1) = unat (tw_current w) + 1"
    using assms unat_u32_less [of "tw_size w"] by (subst word_le_plus_unat) auto
  then show ?thesis by (simp add: unat_mod)
qed

lemma ring_step_neq: "c < sz \<Longrightarrow> 0 < d \<Longrightarrow> d < sz \<Longrightarrow> (c + d) mod sz \<noteq> (c::nat)"
  by (cases "c + d < sz") (auto simp: mod_if)

lemma tmr_run_wheel_collect:
  assumes "wheel_wf w" and "n < unat (tw_size w)"
    and "unat now_idx = (unat (tw_current w) + n) mod unat (tw_size w)"
    and "length (concat (map (tw_wheel w) (ring (unat (tw_size w)) (unat (tw_current w)) n))) < left"
  shows "tmr_run_wheel left fst apfst tmr_collect now_idx (w, l) =
           Some ((tw_clear (ring (unat (tw_size w)) (unat (tw_current w)) n) w)
                   \<lparr>tw_current := now_idx\<rparr>,
                 l @ concat (map (tw_wheel w) (ring (unat (tw_size w)) (unat (tw_current w)) n)))"
  using assms
proof (induction n arbitrary: w l left)
  case 0
  then have "now_idx = tw_current w" by (simp add: wheel_wf_def word_unat_eq_iff)
  moreover have "tw_clear [] w = w" by (cases w) (simp add: tw_clear_def)
  ultimately show ?case by (subst tmr_run_wheel.simps) simp
next
  case (Suc n)
  let ?sz = "unat (tw_size w)" and ?c = "unat (tw_current w)"
  have c: "?c < ?sz" using Suc.prems by (simp add: wheel_wf_def)
  let ?w1 = "w\<lparr>tw_wheel := (tw_wheel w)(?c := [])\<rparr>"
  let ?w2 = "?w1\<lparr>tw_current := (tw_current w + 1) mod tw_size w\<rparr>"
  have cur2: "unat (tw_current ?w2) = Suc ?c mod ?sz" using tw_next_current [OF c] by simp
  have neq: "tw_current w \<noteq> now_idx"
    using ring_step_neq [OF c, of "Suc n"] Suc.prems by auto
  let ?xs = "tw_wheel w ?c"
  have ring: "ring ?sz ?c (Suc n) = ?c # ring ?sz (Suc ?c mod ?sz) n"
    using c by (simp add: ring_Suc)
  have notin: "?c \<notin> set (ring ?sz (Suc ?c mod ?sz) n)"
    using ring_step_neq [OF c] Suc.prems(2) by (auto simp: ring_def mod_simps)
      (metis Suc_lessD Suc_mono add_Suc_right less_trans_Suc zero_less_Suc)
  then have eq: "map (tw_wheel ?w2) (ring ?sz (Suc ?c mod ?sz) n) =
                 map (tw_wheel w) (ring ?sz (Suc ?c mod ?sz) n)"
    by auto
  have left: "length ?xs < left" using Suc.prems(4) ring by simp
  have run: "tmr_run_bucket left fst tmr_collect (tmr_first w) (w, l) =
               Some (left - length ?xs, ?w1, l @ ?xs)"
    unfolding tmr_first_def using Suc.prems c left by (intro tmr_run_bucket_collect) auto
  have wf1: "wheel_wf ?w1" using Suc.prems by (intro wheel_wf_upd) auto
  then have wf2: "wheel_wf ?w2" using cur2 c by (simp add: wheel_wf_def)
  have "tmr_run_wheel (left - length ?xs) fst apfst tmr_collect now_idx (?w2, l @ ?xs) =
          Some ((tw_clear (ring ?sz (Suc ?c mod ?sz) n) ?w2)\<lparr>tw_current := now_idx\<rparr>,
                (l @ ?xs) @ concat (map (tw_wheel w) (ring ?sz (Suc ?c mod ?sz) n)))"
  proof -
    have sz: "tw_size ?w2 = tw_size w" by simp
    have "length (concat (map (tw_wheel w) (ring ?sz (Suc ?c mod ?sz) n))) < left - length ?xs"
      using Suc.prems(4) ring by simp
    moreover have "unat now_idx = (Suc ?c mod ?sz + n) mod ?sz" using Suc.prems(3) by (simp add: mod_simps)
    moreover have "n < ?sz" using Suc.prems(2) by simp
    ultimately show ?thesis
      using Suc.IH [OF wf2, of "left - length ?xs" "l @ ?xs"] unfolding sz cur2 eq by blast
  qed
  moreover have "(tw_clear (ring ?sz (Suc ?c mod ?sz) n) ?w2)\<lparr>tw_current := now_idx\<rparr> =
                 (tw_clear (ring ?sz ?c (Suc n)) w)\<lparr>tw_current := now_idx\<rparr>"
    unfolding ring tw_clear_Cons by (cases w) (simp add: tw_clear_def cong: if_cong)
  ultimately show ?case using neq run left ring
    by (subst tmr_run_wheel.simps) simp
qed

text \<open>
  The ticks of the absolute clock: a wheel whose position is that of tick \<open>c\<close>, advanced to tick
  \<open>n\<close>, fires the buckets of the ticks from \<open>c\<close> up to, but not including, \<open>n\<close>.
\<close>

definition tick :: "u64 \<Rightarrow> u64 \<Rightarrow> 'e tmr_wheel \<Rightarrow> nat" where
  "tick cpu now w = unat (now div cpu) div unat (tw_step w)"

lemma ring_distinct: "n \<le> sz \<Longrightarrow> distinct (ring sz c n)"
proof -
  assume n: "n \<le> sz"
  have neq: "(c + i) mod sz \<noteq> (c + j) mod sz" if "i < j" "j < n" for i j
  proof -
    have "((c + i) mod sz + (j - i)) mod sz \<noteq> (c + i) mod sz"
      using that n by (intro ring_step_neq) auto
    moreover have "((c + i) mod sz + (j - i)) mod sz = (c + j) mod sz"
      using that by (simp only: mod_add_left_eq) simp
    ultimately show ?thesis by simp
  qed
  have "inj_on (\<lambda>k. (c + k) mod sz) {0..<n}"
  proof (rule linorder_inj_onI)
    show "(c + i) mod sz \<noteq> (c + j) mod sz" if "i < j" "i \<in> {0..<n}" "j \<in> {0..<n}" for i j
      using that neq by simp
  qed auto
  then show ?thesis by (simp add: ring_def distinct_map)
qed

lemma ring_length_le:
  assumes "0 < sz" and "n \<le> sz"
  shows "length (concat (map f (ring sz c n))) \<le> length (concat (map f [0..<sz]))"
proof -
  have "set (ring sz c n) \<subseteq> {0..<sz}" using assms(1) by (auto simp: ring_def)
  then have "(\<Sum>b \<in> set (ring sz c n). length (f b)) \<le> (\<Sum>b \<in> {0..<sz}. length (f b))"
    by (intro sum_mono2) auto
  then show ?thesis
    using ring_distinct [OF assms(2), of c]
    by (simp add: length_concat o_def sum_list_distinct_conv_sum_set interv_sum_list_conv_sum_set_nat)
qed

lemma tmr_advance_fires:
  assumes wf: "wheel_wf w" and cnt: "length (tw_entries w) < 10000"
    and c: "unat (tw_current w) = c mod unat (tw_size w)"
    and n: "c \<le> tick cpu now w" "tick cpu now w < c + unat (tw_size w)"
  shows "tmr_advance cpu now w =
           Some ((tw_clear (ring (unat (tw_size w)) c (tick cpu now w - c)) w)
                   \<lparr>tw_current := tmr_div (now div cpu) (tw_step w) (tw_size w),
                    tw_last_advance := now\<rparr>,
                 concat (map (tw_wheel w) (ring (unat (tw_size w)) c (tick cpu now w - c))))"
proof -
  let ?sz = "unat (tw_size w)" and ?d = "tick cpu now w - c"
  have sz: "0 < ?sz" using wf by (simp add: wheel_wf_def)
  have ring: "ring ?sz (c mod ?sz) ?d = ring ?sz c ?d" by (simp add: ring_def mod_simps)
  have idx: "unat (tmr_div (now div cpu) (tw_step w) (tw_size w)) = (c mod ?sz + ?d) mod ?sz"
  proof -
    have "(c mod ?sz + ?d) mod ?sz = (c + ?d) mod ?sz" by (simp only: mod_add_left_eq)
    with n(1) sz show ?thesis by (simp add: tmr_div_unat tick_def)
  qed
  have "length (concat (map (tw_wheel w) (ring ?sz c ?d))) \<le> length (tw_entries w)"
    unfolding tw_entries_def tw_buckets_def using sz n by (intro ring_length_le) auto
  then show ?thesis
    unfolding tmr_advance_def tpg_time_wheel_advance_def
    using tmr_run_wheel_collect [OF wf, of ?d "tmr_div (now div cpu) (tw_step w) (tw_size w)" 10000 "[]"] n cnt
    by (simp add: c ring idx GCFG_TMR_MAX_RUN_CNT_def)
qed

text \<open>
  A timer that is due at tick \<open>t\<close>, set while the wheel stands at tick \<open>c\<close>, fires in the first advance
  beyond \<open>t\<close>, and not before, unless \<open>t\<close> is a whole turn of the wheel away.
\<close>

lemma ring_member:
  assumes "0 < sz" and "c \<le> t" and "t \<le> c + sz" and "n < sz"
  shows "t mod sz \<in> set (ring sz c n) \<longleftrightarrow> t < c + n \<or> (t = c + sz \<and> 0 < n)"
proof
  assume "t mod sz \<in> set (ring sz c n)"
  then obtain k where k: "k < n" "t mod sz = (c + k) mod sz" by (auto simp: ring_def)
  show "t < c + n \<or> (t = c + sz \<and> 0 < n)"
  proof (rule ccontr)
    assume neg: "\<not> (t < c + n \<or> (t = c + sz \<and> 0 < n))"
    with k assms have "0 < t - (c + k)" "t - (c + k) < sz" by auto
    with ring_step_neq [of "(c + k) mod sz" sz "t - (c + k)"] assms(1)
    have "((c + k) mod sz + (t - (c + k))) mod sz \<noteq> (c + k) mod sz" by simp
    moreover have "((c + k) mod sz + (t - (c + k))) mod sz = t mod sz"
      using neg k by (simp only: mod_add_left_eq) simp
    ultimately show False using k by simp
  qed
next
  assume "t < c + n \<or> (t = c + sz \<and> 0 < n)"
  then show "t mod sz \<in> set (ring sz c n)"
  proof
    assume "t < c + n"
    with assms(2) show ?thesis
      by (auto simp: ring_def intro!: image_eqI [of _ _ "t - c"])
  next
    assume "t = c + sz \<and> 0 < n"
    then show ?thesis by (auto simp: ring_def intro!: image_eqI [of _ _ 0])
  qed
qed

lemma tmr_set_bucket:
  assumes "wheel_wf w" and "unat timeout \<le> unat (tw_size w) * unat (tw_step w)"
    and "unat (now div cpu) + unat timeout < 2 ^ 64"
  shows "TIMER_SET cpu now x timeout w =
    (0, w\<lparr>tw_wheel := (tw_wheel w)
            ((unat (now div cpu) + unat timeout) div unat (tw_step w) mod unat (tw_size w) :=
             x # tw_wheel w ((unat (now div cpu) + unat timeout) div unat (tw_step w)
                             mod unat (tw_size w)))\<rparr>)"
proof -
  have "unat (tw_size w) * unat (tw_step w) < 2 ^ 32 * 2 ^ 32"
    using unat_u32_less [of "tw_size w"] unat_u32_less [of "tw_step w"]
    by (intro mult_strict_mono) auto
  then have "unat (ucast (tw_size w) * ucast (tw_step w) :: u64) = unat (tw_size w) * unat (tw_step w)"
    by (simp add: unat_word_ariths)
  moreover have "unat (now div cpu + ucast timeout) = unat (now div cpu) + unat timeout"
    using assms(3) by (subst word_le_plus_unat) auto
  moreover have "0 < unat (tw_size w)" using assms(1) by (simp add: wheel_wf_def)
  ultimately show ?thesis using assms(2)
    by (simp add: TIMER_SET_def tcp_timer_get_wheel_bucket_def Let_def word_less_nat_alt
        tmr_div_unat del: fun_upd_apply)
qed

lemma length_tw_entries: "length (tw_entries w) = (\<Sum>b = 0..<unat (tw_size w). length (tw_wheel w b))"
  by (simp add: tw_entries_def tw_buckets_def length_concat o_def interv_sum_list_conv_sum_set_nat)

lemma length_tw_entries_insert:
  assumes "b < unat (tw_size w)"
  shows "length (tw_entries (w\<lparr>tw_wheel := (tw_wheel w)(b := x # tw_wheel w b)\<rparr>)) =
           length (tw_entries w) + 1"
  using assms by (simp add: length_tw_entries sum.remove [of _ b])

lemma tmr_set_fires_iff:
  assumes wf: "wheel_wf w" and x: "x \<notin> set (tw_entries w)"
    and cnt: "length (tw_entries w) + 1 < 10000"
    and timeout: "unat timeout \<le> unat (tw_size w) * unat (tw_step w)"
      "unat (now div cpu) + unat timeout < 2 ^ 64"
    and c: "unat (tw_current w) = c mod unat (tw_size w)"
    and t: "t = (unat (now div cpu) + unat timeout) div unat (tw_step w)"
      "c \<le> t" "t \<le> c + unat (tw_size w)"
    and n: "c \<le> tick cpu later w" "tick cpu later w < c + unat (tw_size w)"
    and set: "TIMER_SET cpu now x timeout w = (0, w')"
    and adv: "tmr_advance cpu later w' = Some (w'', fired)"
  shows "x \<in> set fired \<longleftrightarrow>
           t < tick cpu later w \<or> (t = c + unat (tw_size w) \<and> c < tick cpu later w)"
proof -
  let ?sz = "unat (tw_size w)" and ?d = "tick cpu later w - c"
  have sz: "0 < ?sz" using wf by (simp add: wheel_wf_def)
  have w': "w' = w\<lparr>tw_wheel := (tw_wheel w)(t mod ?sz := x # tw_wheel w (t mod ?sz))\<rparr>"
    using tmr_set_bucket [OF wf timeout] set t(1) by simp
  have wf': "wheel_wf w'" using TIMER_SET_wf [OF wf x set] by simp
  have len: "length (tw_entries w') = length (tw_entries w) + 1"
    using length_tw_entries_insert [of "t mod ?sz" w x] sz by (simp add: w' del: fun_upd_apply)
  have same: "tw_size w' = tw_size w" "tw_current w' = tw_current w"
    "tick cpu later w' = tick cpu later w" by (simp_all add: w' tick_def)
  from tmr_advance_fires [OF wf', of c cpu later] len cnt c n adv
  have fired: "fired = concat (map (tw_wheel w') (ring ?sz c ?d))" by (simp add: same)
  have "b < ?sz \<Longrightarrow> x \<in> set (tw_wheel w' b) \<longleftrightarrow> b = t mod ?sz" for b
    using x by (auto simp: w' tw_entries_def tw_buckets_def)
  moreover have "b \<in> set (ring ?sz c ?d) \<Longrightarrow> b < ?sz" for b using sz by (auto simp: ring_def)
  ultimately have "x \<in> set fired \<longleftrightarrow> t mod ?sz \<in> set (ring ?sz c ?d)"
    by (auto simp: fired)
  also have "\<dots> \<longleftrightarrow> t < c + ?d \<or> (t = c + ?sz \<and> 0 < ?d)"
    using sz t n by (intro ring_member) auto
  finally show ?thesis using n by auto
qed

subsection \<open>Advances that run out of their budget\<close>

lemma tmr_run_bucket_collect_take:
  assumes "wheel_wf w" and "b < unat (tw_size w)" and "tw_wheel w b = xs"
  shows "tmr_run_bucket left fst tmr_collect (case xs of [] \<Rightarrow> None | x # _ \<Rightarrow> Some x) (w, l) =
           Some (left - length xs, w\<lparr>tw_wheel := (tw_wheel w)(b := drop left xs)\<rparr>, l @ take left xs)"
  using assms
proof (induction xs arbitrary: w l left)
  case Nil
  then have "w\<lparr>tw_wheel := (tw_wheel w)(b := [])\<rparr> = w" by (simp add: fun_upd_idem del: fun_upd_apply)
  then show ?case by (cases left) (simp_all del: fun_upd_apply)
next
  case (Cons x xs)
  have same: "w\<lparr>tw_wheel := (tw_wheel w)(b := x # xs)\<rparr> = w"
    using Cons.prems(3) by (simp add: fun_upd_idem del: fun_upd_apply)
  show ?case
  proof (cases left)
    case 0
    with same show ?thesis by (simp del: fun_upd_apply)
  next
    case (Suc n)
    let ?w = "w\<lparr>tw_wheel := (tw_wheel w)(b := xs)\<rparr>"
    note st = tmr_head_step [OF Cons.prems]
    have "distinct (x # xs)" using Cons.prems by (metis wheel_wf_def)
    then have wf: "wheel_wf ?w" using Cons.prems by (intro wheel_wf_upd) auto
    have "tmr_run_bucket n fst tmr_collect (case xs of [] \<Rightarrow> None | x # _ \<Rightarrow> Some x) (?w, l @ [x]) =
            Some (n - length xs, ?w\<lparr>tw_wheel := (tw_wheel ?w)(b := drop n xs)\<rparr>, (l @ [x]) @ take n xs)"
      using wf Cons.prems by (intro Cons.IH) auto
    moreover have "tmr_collect x (w, l) = Some (?w, l @ [x])"
      by (simp add: tmr_collect_def st del: fun_upd_apply)
    ultimately show ?thesis using st Suc by (simp del: fun_upd_apply)
  qed
qed

text \<open>The entries that are due in the next \<open>n\<close> ticks, in the order in which they fire.\<close>

definition tw_due :: "nat \<Rightarrow> 'e tmr_wheel \<Rightarrow> 'e list" where
  "tw_due n w = concat (map (tw_wheel w) (ring (unat (tw_size w)) (unat (tw_current w)) n))"

text \<open>
  Where an advance stands that fired \<open>fired\<close>: \<open>k\<close> ticks further, the buckets of these ticks empty and every other
  entry in its bucket.
\<close>

definition tw_advanced :: "nat \<Rightarrow> 'e list \<Rightarrow> 'e tmr_wheel \<Rightarrow> 'e tmr_wheel \<Rightarrow> bool" where
  "tw_advanced k fired w w' \<longleftrightarrow> wheel_wf w' \<and> tw_size w' = tw_size w \<and> tw_step w' = tw_step w \<and>
     unat (tw_current w') = (unat (tw_current w) + k) mod unat (tw_size w) \<and>
     (\<forall>j < k. tw_wheel w' ((unat (tw_current w) + j) mod unat (tw_size w)) = []) \<and>
     (\<forall>b < unat (tw_size w). set (tw_wheel w' b) = set (tw_wheel w b) - set fired)"

lemma tw_due_Suc:
  assumes "wheel_wf w" and "n < unat (tw_size w)" and "Suc n < unat (tw_size w)"
  shows "tw_due (Suc n) w = tw_wheel w (unat (tw_current w)) @
           tw_due n (w\<lparr>tw_wheel := (tw_wheel w)(unat (tw_current w) := []),
                       tw_current := (tw_current w + 1) mod tw_size w\<rparr>)"
proof -
  let ?sz = "unat (tw_size w)" and ?c = "unat (tw_current w)"
  have c: "?c < ?sz" using assms(1) by (simp add: wheel_wf_def)
  have "?c \<notin> set (ring ?sz (Suc ?c mod ?sz) n)"
  proof
    assume "?c \<in> set (ring ?sz (Suc ?c mod ?sz) n)"
    then obtain k where "k < n" "?c = (?c + Suc k) mod ?sz" by (auto simp: ring_def mod_simps)
    with ring_step_neq [OF c, of "Suc k"] assms(3) show False by auto
  qed
  then have eq: "map ((tw_wheel w)(?c := [])) (ring ?sz (Suc ?c mod ?sz) n) = map (tw_wheel w) (ring ?sz (Suc ?c mod ?sz) n)"
    by auto
  have "tw_due n (w\<lparr>tw_wheel := (tw_wheel w)(?c := []), tw_current := (tw_current w + 1) mod tw_size w\<rparr>) =
      concat (map ((tw_wheel w)(?c := [])) (ring ?sz (Suc ?c mod ?sz) n))"
    by (simp add: tw_due_def tw_next_current [OF c] del: fun_upd_apply)
  with c show ?thesis unfolding eq by (simp add: tw_due_def ring_Suc del: fun_upd_apply)
qed

lemma tmr_run_wheel_budget:
  assumes "wheel_wf w" and "n < unat (tw_size w)"
    and "unat now_idx = (unat (tw_current w) + n) mod unat (tw_size w)"
  shows "\<exists>k w'. tmr_run_wheel left fst apfst tmr_collect now_idx (w, l) = Some (w', l @ take left (tw_due n w)) \<and>
           tw_advanced k (take left (tw_due n w)) w w' \<and> k \<le> n \<and> (length (tw_due n w) < left \<longrightarrow> k = n)"
  using assms
proof (induction n arbitrary: w l left)
  case 0
  then have "now_idx = tw_current w" by (simp add: wheel_wf_def word_unat_eq_iff)
  moreover have "tw_advanced 0 [] w w" using 0 by (simp add: tw_advanced_def wheel_wf_def)
  ultimately show ?case by (subst tmr_run_wheel.simps) (simp add: tw_due_def)
next
  case (Suc n)
  let ?sz = "unat (tw_size w)" and ?c = "unat (tw_current w)"
  let ?xs = "tw_wheel w ?c"
  let ?w1 = "w\<lparr>tw_wheel := (tw_wheel w)(?c := drop left ?xs)\<rparr>"
  have c: "?c < ?sz" using Suc.prems by (simp add: wheel_wf_def)
  have neq: "tw_current w \<noteq> now_idx" using ring_step_neq [OF c, of "Suc n"] Suc.prems by auto
  have run: "tmr_run_bucket left fst tmr_collect (tmr_first w) (w, l) = Some (left - length ?xs, ?w1, l @ take left ?xs)"
    unfolding tmr_first_def using Suc.prems c by (intro tmr_run_bucket_collect_take) auto
  have disj: "set ?xs \<inter> set (tw_wheel w b) = {}" if "b < ?sz" "b \<noteq> ?c" for b
    using Suc.prems(1) c that unfolding wheel_wf_def by blast
  have dist: "distinct ?xs" using Suc.prems(1) c by (simp add: wheel_wf_def)
  have wf1: "wheel_wf ?w1"
    using Suc.prems dist by (intro wheel_wf_upd) (auto dest: in_set_dropD)
  note due = tw_due_Suc [OF Suc.prems(1) Suc_lessD [OF Suc.prems(2)] Suc.prems(2)]
  show ?case
  proof (cases "left \<le> length ?xs")
    case True
    have "set (drop left ?xs) = set ?xs - set (take left ?xs)"
      using dist set_take_disj_set_drop_if_distinct [OF dist, of left left]
      by (metis Diff_cancel Diff_triv Un_Diff append_take_drop_id inf_commute le_refl set_append sup_bot_left)
    moreover have "set (tw_wheel w b) - set (take left ?xs) = set (tw_wheel w b)" if "b < ?sz" "b \<noteq> ?c" for b
      using disj [OF that] by (auto dest: in_set_takeD)
    ultimately have "tw_advanced 0 (take left ?xs) w ?w1"
      using wf1 c by (simp add: tw_advanced_def)
    then show ?thesis using neq run True due
      by (intro exI [of _ 0] exI [of _ ?w1], subst tmr_run_wheel.simps) simp
  next
    case False
    let ?w2 = "w\<lparr>tw_wheel := (tw_wheel w)(?c := []), tw_current := (tw_current w + 1) mod tw_size w\<rparr>"
    have w2: "?w1\<lparr>tw_current := (tw_current w + 1) mod tw_size w\<rparr> = ?w2" using False by simp
    have cur2: "unat (tw_current ?w2) = Suc ?c mod ?sz" using tw_next_current [OF c] by simp
    have wf2: "wheel_wf ?w2" using wf1 False cur2 c by (simp add: wheel_wf_def)
    let ?due = "tw_due n ?w2" and ?l = "left - length ?xs"
    have "unat now_idx = (unat (tw_current ?w2) + n) mod unat (tw_size ?w2)"
      unfolding cur2 using Suc.prems(3) by (simp add: mod_simps)
    from Suc.IH [OF wf2 _ this, of ?l "l @ ?xs"] Suc.prems(2) obtain k w' where
      r: "tmr_run_wheel ?l fst apfst tmr_collect now_idx (?w2, l @ ?xs) = Some (w', (l @ ?xs) @ take ?l ?due)"
      "tw_advanced k (take ?l ?due) ?w2 w'" "k \<le> n" "length ?due < ?l \<longrightarrow> k = n" by auto
    have pos: "(unat (tw_current ?w2) + j) mod ?sz = (?c + Suc j) mod ?sz" for j
      unfolding cur2 by (simp add: mod_simps)
    have take: "take left (tw_due (Suc n) w) = ?xs @ take ?l ?due" using False due by simp
    have "set (tw_wheel w' b) = set (tw_wheel w b) - set (?xs @ take ?l ?due)" if "b < ?sz" for b
    proof (cases "b = ?c")
      case True
      with r(2) that show ?thesis by (simp add: tw_advanced_def)
    next
      case False
      with r(2) that disj [OF that False] show ?thesis by (auto simp: tw_advanced_def)
    qed
    moreover have "tw_wheel w' ((?c + j) mod ?sz) = []" if "j < Suc k" for j
    proof (cases j)
      case 0
      have "set (tw_wheel w' ?c) = {}" using r(2) c by (simp add: tw_advanced_def)
      with 0 c show ?thesis by simp
    next
      case (Suc i)
      have "\<forall>j < k. tw_wheel w' ((unat (tw_current ?w2) + j) mod ?sz) = []" using r(2) by (simp add: tw_advanced_def)
      with Suc that show ?thesis unfolding pos by simp
    qed
    moreover have "unat (tw_current w') = (?c + Suc k) mod ?sz"
    proof -
      have "unat (tw_current w') = (unat (tw_current ?w2) + k) mod unat (tw_size ?w2)"
        using r(2) unfolding tw_advanced_def by blast
      then show ?thesis using pos [of k] by simp
    qed
    ultimately have adv: "tw_advanced (Suc k) (take left (tw_due (Suc n) w)) w w'"
      unfolding take using r(2) by (simp add: tw_advanced_def)
    have "tmr_run_wheel left fst apfst tmr_collect now_idx (w, l) = Some (w', l @ take left (tw_due (Suc n) w))"
      unfolding take using neq run r(1) False w2 by (subst tmr_run_wheel.simps) simp
    with adv r(3,4) False due show ?thesis by (intro exI [of _ "Suc k"] exI [of _ w']) auto
  qed
qed

lemma tmr_advance_budget:
  assumes wf: "wheel_wf w" and c: "unat (tw_current w) = c mod unat (tw_size w)"
    and n: "c \<le> tick cpu now w" "tick cpu now w < c + unat (tw_size w)"
  shows "\<exists>k w'. tmr_advance cpu now w = Some (w', take 10000 (tw_due (tick cpu now w - c) w)) \<and>
           tw_advanced k (take 10000 (tw_due (tick cpu now w - c) w)) w w' \<and> k \<le> tick cpu now w - c \<and>
           (length (tw_due (tick cpu now w - c) w) < 10000 \<longrightarrow> k = tick cpu now w - c)"
proof -
  let ?sz = "unat (tw_size w)" and ?d = "tick cpu now w - c"
  have sz: "0 < ?sz" using wf by (simp add: wheel_wf_def)
  have idx: "unat (tmr_div (now div cpu) (tw_step w) (tw_size w)) = (unat (tw_current w) + ?d) mod ?sz"
  proof -
    have "(c mod ?sz + ?d) mod ?sz = (c + ?d) mod ?sz" by (simp only: mod_add_left_eq)
    with n(1) sz show ?thesis by (simp add: tmr_div_unat tick_def c)
  qed
  have d: "?d < ?sz" using n by simp
  from tmr_run_wheel_budget [OF wf d idx, of 10000 "[]"] obtain k w' where
    r: "tmr_run_wheel 10000 fst apfst tmr_collect (tmr_div (now div cpu) (tw_step w) (tw_size w)) (w, []) =
          Some (w', take 10000 (tw_due ?d w))"
    "tw_advanced k (take 10000 (tw_due ?d w)) w w'" "k \<le> ?d" "length (tw_due ?d w) < 10000 \<longrightarrow> k = ?d" by auto
  have "tw_advanced k f w (w'\<lparr>tw_last_advance := now\<rparr>) = tw_advanced k f w w'" for f
    by (simp add: tw_advanced_def wheel_wf_def)
  with r show ?thesis
    by (intro exI [of _ k] exI [of _ "w'\<lparr>tw_last_advance := now\<rparr>"])
      (simp add: tmr_advance_def tpg_time_wheel_advance_def GCFG_TMR_MAX_RUN_CNT_def)
qed

section \<open>Properties\<close>

text \<open>
  C19: A timer fires on time. Set for a tick \<open>t\<close> less than a turn of the wheel after the wheel's position \<open>c\<close>,
  it never fires in an advance to a tick that is not after \<open>t\<close>; in an advance to a tick after \<open>t\<close>, less than
  a turn from \<open>c\<close>, it fires unless the advance fires its limit of 10000 other timers. In that case the advance stops
  at a tick \<open>c'\<close> that is not after \<open>t\<close>, with the timer still in its bucket, so that the next advance goes on
  with it; an advance that fires less than its limit ends at the tick asked for. (An advance of a turn or more
  is outside the statement: the code does not notice the turn.)
\<close>

theorem timer_fires_on_time:
  assumes "wheel_wf w" and "x \<notin> set (tw_entries w)"
    and "unat timeout \<le> unat (tw_size w) * unat (tw_step w)"
    and "unat (now div cpu) + unat timeout < 2 ^ 64"
    and "unat (tw_current w) = c mod unat (tw_size w)"
    and "t = (unat (now div cpu) + unat timeout) div unat (tw_step w)" and "c \<le> t"
    and "t < c + unat (tw_size w)"
    and "c \<le> tick cpu later w" and "tick cpu later w < c + unat (tw_size w)"
  shows "\<exists>w' w'' fired c'. TIMER_SET cpu now x timeout w = (0, w') \<and>
           tmr_advance cpu later w' = Some (w'', fired) \<and> length fired \<le> 10000 \<and>
           (x \<in> set fired \<longrightarrow> t < tick cpu later w) \<and>
           (t < tick cpu later w \<and> x \<notin> set fired \<longrightarrow> length fired = 10000) \<and>
           wheel_wf w'' \<and> unat (tw_current w'') = c' mod unat (tw_size w) \<and> c \<le> c' \<and> c' \<le> tick cpu later w \<and>
           (length fired < 10000 \<longrightarrow> c' = tick cpu later w) \<and>
           (x \<notin> set fired \<longrightarrow> x \<in> set (tw_wheel w'' (t mod unat (tw_size w))) \<and> c' \<le> t)"
proof -
  let ?sz = "unat (tw_size w)" and ?n = "tick cpu later w - c"
  have sz: "0 < ?sz" using assms(1) by (simp add: wheel_wf_def)
  let ?w' = "w\<lparr>tw_wheel := (tw_wheel w)(t mod ?sz := x # tw_wheel w (t mod ?sz))\<rparr>"
  have set: "TIMER_SET cpu now x timeout w = (0, ?w')"
    using tmr_set_bucket [OF assms(1,3,4), of x] unfolding assms(6) by simp
  have wf': "wheel_wf ?w'" using TIMER_SET_wf [OF assms(1,2) set] by blast
  have same: "tw_size ?w' = tw_size w" "tw_current ?w' = tw_current w" "tick cpu later ?w' = tick cpu later w"
    by (simp_all add: tick_def)
  obtain k w'' where adv: "tmr_advance cpu later ?w' = Some (w'', take 10000 (tw_due ?n ?w'))"
    and k: "tw_advanced k (take 10000 (tw_due ?n ?w')) ?w' w''" "k \<le> ?n" "length (tw_due ?n ?w') < 10000 \<longrightarrow> k = ?n"
    using tmr_advance_budget [OF wf', of c cpu later] assms(5,9,10) unfolding same by blast
  let ?fired = "take 10000 (tw_due ?n ?w')"
  have mem: "b < ?sz \<Longrightarrow> x \<in> set (tw_wheel ?w' b) \<longleftrightarrow> b = t mod ?sz" for b
    using assms(2) by (auto simp: tw_entries_def tw_buckets_def)
  have ring: "b \<in> set (ring ?sz c ?n) \<Longrightarrow> b < ?sz" for b using sz by (auto simp: ring_def)
  have turn: "ring ?sz (c mod ?sz) ?n = ring ?sz c ?n" by (simp add: ring_def mod_simps)
  have "x \<in> set (tw_due ?n ?w') \<longleftrightarrow> (\<exists>b \<in> set (ring ?sz c ?n). x \<in> set (tw_wheel ?w' b))"
    unfolding tw_due_def same assms(5) turn by (simp del: fun_upd_apply)
  also have "\<dots> \<longleftrightarrow> t mod ?sz \<in> set (ring ?sz c ?n)" using mem ring by blast
  also have "\<dots> \<longleftrightarrow> t < c + ?n \<or> (t = c + ?sz \<and> 0 < ?n)"
    using sz assms(7,8,10) by (intro ring_member) auto
  finally have due: "x \<in> set (tw_due ?n ?w') \<longleftrightarrow> t < tick cpu later w" using assms(8,9) by auto
  have limit: "length ?fired = 10000" if "t < tick cpu later w" "x \<notin> set ?fired"
  proof (rule ccontr)
    assume "length ?fired \<noteq> 10000"
    then have "?fired = tw_due ?n ?w'" by simp
    with due that show False by metis
  qed
  have stays: "x \<in> set (tw_wheel w'' (t mod ?sz)) \<and> c + k \<le> t" if "x \<notin> set ?fired"
  proof -
    have b: "t mod ?sz < ?sz" using sz by simp
    have in_w: "x \<in> set (tw_wheel w'' (t mod ?sz))"
      using k(1) b that unfolding tw_advanced_def same by auto
    moreover have "c + k \<le> t"
    proof (rule ccontr)
      assume "\<not> c + k \<le> t"
      then have "t - c < k" using assms(7) by simp
      then have "tw_wheel w'' ((c mod ?sz + (t - c)) mod ?sz) = []"
        using k(1) unfolding tw_advanced_def same assms(5) by blast
      moreover have "(c mod ?sz + (t - c)) mod ?sz = t mod ?sz"
        using assms(7) by (simp only: mod_add_left_eq) simp
      ultimately show False using in_w by simp
    qed
    ultimately show ?thesis by simp
  qed
  have pos: "wheel_wf w''" "unat (tw_current w'') = (c + k) mod ?sz"
    using k(1) unfolding tw_advanced_def same assms(5) by (simp_all add: mod_simps)
  have end_tick: "c + k = tick cpu later w" if "length ?fired < 10000"
    using that k(3) assms(9) by auto
  show ?thesis
    by (intro exI [of _ ?w'] exI [of _ w''] exI [of _ ?fired] exI [of _ "c + k"] conjI set adv pos)
      (use due limit stays end_tick k(2) assms(9) in \<open>auto dest: in_set_takeD\<close>)
qed

definition ex_small_wheel :: "nat tmr_wheel" where
  "ex_small_wheel =
     \<lparr>tw_size = 4, tw_step = 10, tw_current = 0, tw_last_advance = 0, tw_wheel = (\<lambda>_. [])\<rparr>"

lemma ex_small_wheel_simps [simp]:
  "tw_size ex_small_wheel = 4" "tw_step ex_small_wheel = 10" "tw_current ex_small_wheel = 0"
  "wheel_wf ex_small_wheel" "tw_entries ex_small_wheel = []"
  by (simp_all add: ex_small_wheel_def wheel_wf_def tw_entries_def tw_buckets_def upt_rec)

theorem timer_fires_on_time_witness:
  "\<exists>w' w'' fired. TIMER_SET 1 0 (7 :: nat) 20 ex_small_wheel = (0, w') \<and>
     tmr_advance 1 30 w' = Some (w'', fired) \<and> (length fired < 10000 \<longrightarrow> 7 \<in> set fired \<and> unat (tw_current w'') = 3)"
proof -
  have "\<exists>w' w'' fired c'. TIMER_SET 1 0 (7 :: nat) 20 ex_small_wheel = (0, w') \<and>
      tmr_advance 1 30 w' = Some (w'', fired) \<and> length fired \<le> 10000 \<and>
      (7 \<in> set fired \<longrightarrow> 2 < tick 1 30 ex_small_wheel) \<and>
      (2 < tick 1 30 ex_small_wheel \<and> 7 \<notin> set fired \<longrightarrow> length fired = 10000) \<and>
      wheel_wf w'' \<and> unat (tw_current w'') = c' mod unat (tw_size ex_small_wheel) \<and> 0 \<le> c' \<and>
      c' \<le> tick 1 30 ex_small_wheel \<and> (length fired < 10000 \<longrightarrow> c' = tick 1 30 ex_small_wheel) \<and>
      (7 \<notin> set fired \<longrightarrow> 7 \<in> set (tw_wheel w'' (2 mod unat (tw_size ex_small_wheel))) \<and> c' \<le> 2)"
    by (rule timer_fires_on_time) (simp_all add: tick_def)
  then show ?thesis by (fastforce simp: tick_def)
qed

text \<open>
  A timer accepted for a whole turn of the wheel, the longest timeout the code takes, fires at the
  next advance of the wheel, at whatever tick.
\<close>

theorem longest_timer_fires_at_once:
  assumes "wheel_wf w" and "x \<notin> set (tw_entries w)" and "length (tw_entries w) + 1 < 10000"
    and "unat timeout = unat (tw_size w) * unat (tw_step w)"
    and "unat (now div cpu) + unat timeout < 2 ^ 64"
    and "unat (tw_current w) = tick cpu now w mod unat (tw_size w)"
    and "tick cpu now w < tick cpu later w" and "tick cpu later w < tick cpu now w + unat (tw_size w)"
  shows "\<exists>w' w'' fired. TIMER_SET cpu now x timeout w = (0, w') \<and>
           tmr_advance cpu later w' = Some (w'', fired) \<and> x \<in> set fired"
proof -
  let ?t = "(unat (now div cpu) + unat timeout) div unat (tw_step w)"
  have step: "0 < unat (tw_step w)" and sz: "0 < unat (tw_size w)"
    using assms(1) by (simp_all add: wheel_wf_def)
  then have t: "?t = tick cpu now w + unat (tw_size w)"
    using assms(4) by (simp add: tick_def)
  obtain r w' where set: "TIMER_SET cpu now x timeout w = (r, w')" by (cases "TIMER_SET cpu now x timeout w")
  with tmr_set_bucket [OF assms(1) _ assms(5), of x] assms(4) have r: "r = 0"
    and w': "w' = w\<lparr>tw_wheel := (tw_wheel w)(?t mod unat (tw_size w) := x # tw_wheel w (?t mod unat (tw_size w)))\<rparr>"
    by simp_all
  have "wheel_wf w'" using TIMER_SET_wf [OF assms(1,2) set] by blast
  moreover have "length (tw_entries w') < 10000"
    unfolding w' using length_tw_entries_insert [of "?t mod unat (tw_size w)" w x] sz assms(3) by simp
  ultimately obtain w'' fired where adv: "tmr_advance cpu later w' = Some (w'', fired)"
    using tmr_advance_fires [of w' "tick cpu now w" cpu later] assms(6-8) by (simp add: w' tick_def)
  from tmr_set_fires_iff [OF assms(1-3) _ assms(5,6) refl _ _ _ assms(8) set [unfolded r] adv] t assms(4,7)
  show ?thesis using set r adv by auto
qed

theorem longest_timer_fires_at_once_witness:
  "\<exists>w' w'' fired. TIMER_SET 1 0 (7 :: nat) 40 ex_small_wheel = (0, w') \<and>
     tmr_advance 1 10 w' = Some (w'', fired) \<and> 7 \<in> set fired"
  by (rule longest_timer_fires_at_once) (simp_all add: tick_def)

end
