(* ===== verification/Core.thy ===== *)
theory Core
  imports Prelude TimerWheel
begin

text \<open>
  What every layer of a packet core shares: the generic part of a control block
  (\<open>l4_control_block_t\<close> of \<^verbatim>\<open>inc/tpg_lookup.h\<close>, with the socket options of
  \<^verbatim>\<open>inc/sock/tpg_sockopts.h\<close>), the operational state of a test case (\<open>test_case_info_t\<close> of
  \<^verbatim>\<open>inc/tpg_tests.h\<close>), the statistics of the timers, and the test timers of
  \<^verbatim>\<open>src/tpg_timer.c\<close>.

  A control block is known by its \<open>cb_id\<close>, the address of the code. Intrusive lists are lists of
  identifiers. A structure that embeds the generic block extends the record, so an operation on
  the generic block applies to it as it is: this is the \<open>container_of\<close> of the code. The
  per-core variables are fields of a record that the layers above extend in the same way. The
  debug build (\<open>TPG_L4_CB_DEBUG\<close>) is not modelled; \<open>L4_CB_CHECK\<close> does nothing.
\<close>

type_synonym cb_id = nat

subsection \<open>Control blocks\<close>

record tcp_sockopt =
  tcpo_win_size :: u32
  tcpo_syn_retry_cnt :: u8
  tcpo_syn_ack_retry_cnt :: u8
  tcpo_data_retry_cnt :: u8
  tcpo_retry_cnt :: u8
  tcpo_rto :: u32
  tcpo_fin_to :: u32
  tcpo_twait_to :: u32
  tcpo_orphan_to :: u32
  tcpo_skip_timewait :: bool
  tcpo_ack_delay :: bool

record sockopt = tcp_sockopt +
  vlanso_hdr_opt_len :: u8
  ip4so_hdr_opt_len :: u8

datatype test_sm_state =
    TSTS_CL_TO_INIT | TSTS_CL_TO_OPEN | TSTS_CL_OPENING | TSTS_CL_OPEN | TSTS_CL_SENDING
  | TSTS_CL_NO_SND_WIN | TSTS_CL_TO_CLOSE | TSTS_CL_CLOSING | TSTS_CL_CLOSED
  | TSTS_SRV_OPENING | TSTS_SRV_OPEN | TSTS_SRV_SENDING | TSTS_SRV_NO_SND_WIN
  | TSTS_SRV_CLOSING | TSTS_SRV_CLOSED
  | TSTS_LISTEN | TSTS_PURGED

record 'a l4cb =
  l4cb_id :: cb_id
  l4cb_test_state :: test_sm_state
  l4cb_rx_hash :: u32
  l4cb_interface :: u16
  l4cb_test_case_id :: u16
  l4cb_sockopt :: sockopt
  l4cb_app_data :: 'a
  l4cb_src_port :: u16
  l4cb_dst_port :: u16
  l4cb_src_addr :: u32
  l4cb_dst_addr :: u32
  l4cb_on_test_tmr_list :: bool

subsection \<open>Statistics and test cases\<close>

record timer_stats =
  tts_rto_set :: u64
  tts_rto_cancelled :: u64
  tts_rto_fired :: u64
  tts_slow_set :: u64
  tts_slow_cancelled :: u64
  tts_slow_fired :: u64
  tts_test_set :: u64
  tts_test_cancelled :: u64
  tts_test_fired :: u64
  tts_rto_failed :: u32
  tts_slow_failed :: u32
  tts_test_failed :: u32
  tts_l4cb_null :: u32
  tts_l4cb_invalid_flags :: u32
  tts_timeout_overflow :: u32

text \<open>\<open>tpg_delay_t\<close>: infinite when there is no value.\<close>

record tpg_delay =
  has_d_value :: bool
  d_value :: u32

abbreviation TPG_DELAY_IS_INF :: "tpg_delay \<Rightarrow> bool" where
  "TPG_DELAY_IS_INF d \<equiv> \<not> has_d_value d"

record test_case_info =
  tci_init_delay :: tpg_delay
  tci_uptime :: tpg_delay
  tci_downtime :: tpg_delay
  trs_flags :: u32
  tos_to_init_cbs :: "cb_id list"
  tos_to_open_cbs :: "cb_id list"
  tos_to_close_cbs :: "cb_id list"
  tos_to_send_cbs :: "cb_id list"
  tos_closed_cbs :: "cb_id list"
  gs_up :: u32
  gs_estab :: u32
  gs_down :: u32
  gs_failed :: u32
  gs_data_failed :: u32
  gs_data_null :: u32
  gs_start_time :: u64
  gs_end_time :: u64
  rs_estab_per_s :: u32
  rs_closed_per_s :: u32

datatype run_msg = TRMT_OPEN | TRMT_CLOSE | TRMT_SEND

text \<open>
  The per-core state: the clock (\<open>rte_get_timer_cycles\<close> and \<open>cycles_per_us\<close>), the wheel of the
  test timers, the test cases of every port, the run messages in the local queue, and
  the outcomes of the coming enqueue operations (\<^term>\<open>[]\<close>: they all succeed).
\<close>

record core_env =
  ce_now :: u64
  ce_cycles_per_us :: u64
  ce_test_wheel :: "cb_id tmr_wheel"
  ce_timer_stats :: "u16 \<Rightarrow> timer_stats"
  ce_tci :: "u16 \<Rightarrow> u16 \<Rightarrow> test_case_info"
  ce_msgs :: "(run_msg \<times> u16 \<times> u16) list"
  ce_msg_outcomes :: "bool list"

fun outcome :: "bool list \<Rightarrow> bool \<times> bool list" where
  "outcome [] = (True, [])"
| "outcome (b # bs) = (b, bs)"

definition upd_timer_stats ::
  "u16 \<Rightarrow> (timer_stats \<Rightarrow> timer_stats) \<Rightarrow> 'z core_env_scheme \<Rightarrow> 'z core_env_scheme" where
  "upd_timer_stats p f e = e\<lparr>ce_timer_stats := (ce_timer_stats e)(p := f (ce_timer_stats e p))\<rparr>"

definition get_tci :: "('a, 'z) l4cb_scheme \<Rightarrow> 'y core_env_scheme \<Rightarrow> test_case_info" where
  "get_tci cb e = ce_tci e (l4cb_interface cb) (l4cb_test_case_id cb)"

definition upd_tci ::
  "('a, 'z) l4cb_scheme \<Rightarrow> (test_case_info \<Rightarrow> test_case_info)
     \<Rightarrow> 'y core_env_scheme \<Rightarrow> 'y core_env_scheme" where
  "upd_tci cb f e =
     e\<lparr>ce_tci := (ce_tci e)(l4cb_interface cb :=
        (ce_tci e (l4cb_interface cb))(l4cb_test_case_id cb := f (get_tci cb e)))\<rparr>"

subsection \<open>Test timers\<close>

definition l4cb_timer_test_set ::
  "u32 \<Rightarrow> ('a, 'z) l4cb_scheme \<Rightarrow> 'y core_env_scheme
     \<Rightarrow> int \<times> ('a, 'z) l4cb_scheme \<times> 'y core_env_scheme" where
  "l4cb_timer_test_set timeout_us cb e =
     (if l4cb_on_test_tmr_list cb
      then (- EINVAL, cb, upd_timer_stats (l4cb_interface cb)
              (\<lambda>s. s\<lparr>tts_l4cb_invalid_flags := tts_l4cb_invalid_flags s + 1\<rparr>) e)
      else
        let (status, w) = TIMER_SET (ce_cycles_per_us e) (ce_now e) (l4cb_id cb) timeout_us
                            (ce_test_wheel e)
        in if status = 0
           then (0, cb\<lparr>l4cb_on_test_tmr_list := True\<rparr>,
                 upd_timer_stats (l4cb_interface cb) (\<lambda>s. s\<lparr>tts_test_set := tts_test_set s + 1\<rparr>)
                   (e\<lparr>ce_test_wheel := w\<rparr>))
           else (status, cb,
                 upd_timer_stats (l4cb_interface cb)
                   (\<lambda>s. s\<lparr>tts_test_failed := tts_test_failed s + 1\<rparr>)
                   (upd_timer_stats 0
                      (\<lambda>s. s\<lparr>tts_timeout_overflow := tts_timeout_overflow s + 1\<rparr>) e)))"

definition l4cb_timer_test_cancel ::
  "('a, 'z) l4cb_scheme \<Rightarrow> 'y core_env_scheme
     \<Rightarrow> (int \<times> ('a, 'z) l4cb_scheme \<times> 'y core_env_scheme) option" where
  "l4cb_timer_test_cancel cb e =
     (if \<not> l4cb_on_test_tmr_list cb
      then Some (- EINVAL, cb, upd_timer_stats (l4cb_interface cb)
                   (\<lambda>s. s\<lparr>tts_l4cb_invalid_flags := tts_l4cb_invalid_flags s + 1\<rparr>) e)
      else
        map_option
          (\<lambda>w. (0, cb\<lparr>l4cb_on_test_tmr_list := False\<rparr>,
                upd_timer_stats (l4cb_interface cb)
                  (\<lambda>s. s\<lparr>tts_test_cancelled := tts_test_cancelled s + 1\<rparr>)
                  (e\<lparr>ce_test_wheel := w\<rparr>)))
          (TIMER_CANCEL (l4cb_id cb) (ce_test_wheel e)))"

end
