(* ===== verification/TestSM.thy ===== *)
theory TestSM
  imports Core Mbuf
begin

text \<open>
  The session test state machine: \<^verbatim>\<open>src/tpg_tests_sm.c\<close>, \<^verbatim>\<open>inc/tpg_tests_sm.h\<close>, the to-init,
  to-open, to-close, to-send and closed lists and the run messages of \<^verbatim>\<open>inc/tpg_tests.h\<close>, and the
  notifications of \<^verbatim>\<open>src/tpg_tests.c\<close>.

  Every \<open>test_sm_SF_*\<close> function is one definition. They call back into the
  dispatcher through \<open>test_sm_enter_state\<close> and, through the callbacks of the application, through
  \<open>TEST_NOTIF\<close>; the dispatcher they call is their argument \<open>disp\<close>. \<open>test_sm_run\<close> ties
  the knot with the depth of the nesting as fuel, and \<open>test_sm_fuel_enough\<close> shows that a depth of
  three is never exceeded. \<^term>\<open>None\<close> is \<open>assert(false)\<close> or the removal of a control block from a
  list it is not on.

  The application is the type \<open>'a\<close> of the session's application data and the table of
  its callbacks (\<open>APP_CALL\<close>); a callback returns the notifications it sends. These are the starts and
  stops of sending: the callbacks of the protocols here are those of an application that does not close its connection from
  inside of them. The HTTP application does, with \<open>TEST_NOTIF_APP_CLOSE\<close>, when a message is invalid: that calls the
  protocol's close in the middle of the step that called the application. The notification by itself is
  \<open>test_notification_app\<close>, with the protocol's close as its argument; such a nested close in the middle of
  a step is not modelled.
\<close>

datatype test_sm_event =
    TSTE_ENTER_STATE
  | TSTE_TMR_TO
  | TSTE_CONNECTING | TSTE_CONNECTED | TSTE_CLOSING | TSTE_CLOSED | TSTE_NO_SND_WIN | TSTE_SND_WIN
  | TSTE_APP_SEND_START | TSTE_APP_SEND_STOP
  | TSTE_PURGE

datatype app_notif = TEST_NOTIF_APP_SEND_START | TEST_NOTIF_APP_SEND_STOP

record 'a app_ops =
  app_init :: "'a \<Rightarrow> 'a"
  app_conn_up :: "'a \<Rightarrow> 'a \<times> app_notif list"
  app_conn_down :: "'a \<Rightarrow> 'a"
  app_deliver :: "'a \<Rightarrow> chain \<Rightarrow> u64 \<Rightarrow> u32 \<times> 'a \<times> app_notif list"

type_synonym ('a, 'z, 'y) sm_step =
  "('a, 'z) l4cb_scheme \<Rightarrow> 'y core_env_scheme \<Rightarrow> (('a, 'z) l4cb_scheme \<times> 'y core_env_scheme) option"

type_synonym ('a, 'z, 'y) sm_disp = "test_sm_event \<Rightarrow> ('a, 'z, 'y) sm_step"

subsection \<open>Lists and run messages\<close>

definition TRS_FLAGS_OPEN_IN_PROGRESS :: u32 where "TRS_FLAGS_OPEN_IN_PROGRESS = 0x01"
definition TRS_FLAGS_OPEN_RATE_REACHED :: u32 where "TRS_FLAGS_OPEN_RATE_REACHED = 0x02"
definition TRS_FLAGS_CLOSE_IN_PROGRESS :: u32 where "TRS_FLAGS_CLOSE_IN_PROGRESS = 0x04"
definition TRS_FLAGS_CLOSE_RATE_REACHED :: u32 where "TRS_FLAGS_CLOSE_RATE_REACHED = 0x08"
definition TRS_FLAGS_SEND_IN_PROGRESS :: u32 where "TRS_FLAGS_SEND_IN_PROGRESS = 0x10"
definition TRS_FLAGS_SEND_RATE_REACHED :: u32 where "TRS_FLAGS_SEND_RATE_REACHED = 0x20"

text \<open>\<open>test_case_run_msg\<close> reports success whether or not the message could be queued.\<close>

definition test_case_run_msg ::
  "run_msg \<Rightarrow> ('a, 'z) l4cb_scheme \<Rightarrow> 'y core_env_scheme \<Rightarrow> int \<times> 'y core_env_scheme" where
  "test_case_run_msg typ cb e =
     (let (ok, os) = outcome (ce_msg_outcomes e);
          e = e\<lparr>ce_msg_outcomes := os\<rparr>
      in (0, if ok then e\<lparr>ce_msgs := ce_msgs e @ [(typ, l4cb_interface cb, l4cb_test_case_id cb)]\<rparr>
             else e))"

definition test_resched_runner ::
  "run_msg \<Rightarrow> u32 \<Rightarrow> u32 \<Rightarrow> ('a, 'z) l4cb_scheme \<Rightarrow> 'y core_env_scheme \<Rightarrow> 'y core_env_scheme" where
  "test_resched_runner typ in_progress_flag reached_flag cb e =
     (if trs_flags (get_tci cb e) AND (in_progress_flag OR reached_flag) \<noteq> 0 then e
      else
        let (err, e) = test_case_run_msg typ cb e
        in if err = 0
           then upd_tci cb (\<lambda>c. c\<lparr>trs_flags := trs_flags c OR in_progress_flag\<rparr>) e
           else e)"

definition TEST_CBQ_ADD_TO_OPEN_NO_RESCHED ::
  "('a, 'z) l4cb_scheme \<Rightarrow> 'y core_env_scheme \<Rightarrow> 'y core_env_scheme" where
  "TEST_CBQ_ADD_TO_OPEN_NO_RESCHED cb =
     upd_tci cb (\<lambda>c. c\<lparr>tos_to_open_cbs := tos_to_open_cbs c @ [l4cb_id cb]\<rparr>)"

definition TEST_CBQ_ADD_TO_OPEN ::
  "('a, 'z) l4cb_scheme \<Rightarrow> 'y core_env_scheme \<Rightarrow> 'y core_env_scheme" where
  "TEST_CBQ_ADD_TO_OPEN cb e =
     test_resched_runner TRMT_OPEN TRS_FLAGS_OPEN_IN_PROGRESS TRS_FLAGS_OPEN_RATE_REACHED cb
       (upd_tci cb (\<lambda>c. c\<lparr>tos_to_open_cbs := tos_to_open_cbs c @ [l4cb_id cb]\<rparr>) e)"

definition TEST_CBQ_ADD_TO_CLOSE ::
  "('a, 'z) l4cb_scheme \<Rightarrow> 'y core_env_scheme \<Rightarrow> 'y core_env_scheme" where
  "TEST_CBQ_ADD_TO_CLOSE cb e =
     test_resched_runner TRMT_CLOSE TRS_FLAGS_CLOSE_IN_PROGRESS TRS_FLAGS_CLOSE_RATE_REACHED cb
       (upd_tci cb (\<lambda>c. c\<lparr>tos_to_close_cbs := tos_to_close_cbs c @ [l4cb_id cb]\<rparr>) e)"

definition TEST_CBQ_ADD_TO_SEND ::
  "('a, 'z) l4cb_scheme \<Rightarrow> 'y core_env_scheme \<Rightarrow> 'y core_env_scheme" where
  "TEST_CBQ_ADD_TO_SEND cb e =
     test_resched_runner TRMT_SEND TRS_FLAGS_SEND_IN_PROGRESS TRS_FLAGS_SEND_RATE_REACHED cb
       (upd_tci cb (\<lambda>c. c\<lparr>tos_to_send_cbs := tos_to_send_cbs c @ [l4cb_id cb]\<rparr>) e)"

definition TEST_CBQ_ADD_TO_INIT ::
  "('a, 'z) l4cb_scheme \<Rightarrow> 'y core_env_scheme \<Rightarrow> 'y core_env_scheme" where
  "TEST_CBQ_ADD_TO_INIT cb =
     upd_tci cb (\<lambda>c. c\<lparr>tos_to_init_cbs := tos_to_init_cbs c @ [l4cb_id cb]\<rparr>)"

definition TEST_CBQ_ADD_CLOSED ::
  "('a, 'z) l4cb_scheme \<Rightarrow> 'y core_env_scheme \<Rightarrow> 'y core_env_scheme" where
  "TEST_CBQ_ADD_CLOSED cb =
     upd_tci cb (\<lambda>c. c\<lparr>tos_closed_cbs := tos_closed_cbs c @ [l4cb_id cb]\<rparr>)"

definition TEST_CBQ_REM_TO_OPEN ::
  "('a, 'z) l4cb_scheme \<Rightarrow> 'y core_env_scheme \<Rightarrow> 'y core_env_scheme option" where
  "TEST_CBQ_REM_TO_OPEN cb e =
     (if l4cb_id cb \<in> set (tos_to_open_cbs (get_tci cb e))
      then Some (upd_tci cb (\<lambda>c. c\<lparr>tos_to_open_cbs := remove1 (l4cb_id cb) (tos_to_open_cbs c)\<rparr>) e)
      else None)"

definition TEST_CBQ_REM_TO_CLOSE ::
  "('a, 'z) l4cb_scheme \<Rightarrow> 'y core_env_scheme \<Rightarrow> 'y core_env_scheme option" where
  "TEST_CBQ_REM_TO_CLOSE cb e =
     (if l4cb_id cb \<in> set (tos_to_close_cbs (get_tci cb e))
      then Some (upd_tci cb (\<lambda>c. c\<lparr>tos_to_close_cbs := remove1 (l4cb_id cb) (tos_to_close_cbs c)\<rparr>) e)
      else None)"

definition TEST_CBQ_REM_TO_SEND ::
  "('a, 'z) l4cb_scheme \<Rightarrow> 'y core_env_scheme \<Rightarrow> 'y core_env_scheme option" where
  "TEST_CBQ_REM_TO_SEND cb e =
     (if l4cb_id cb \<in> set (tos_to_send_cbs (get_tci cb e))
      then Some (upd_tci cb (\<lambda>c. c\<lparr>tos_to_send_cbs := remove1 (l4cb_id cb) (tos_to_send_cbs c)\<rparr>) e)
      else None)"

definition TEST_CBQ_REM_TO_INIT ::
  "('a, 'z) l4cb_scheme \<Rightarrow> 'y core_env_scheme \<Rightarrow> 'y core_env_scheme option" where
  "TEST_CBQ_REM_TO_INIT cb e =
     (if l4cb_id cb \<in> set (tos_to_init_cbs (get_tci cb e))
      then Some (upd_tci cb (\<lambda>c. c\<lparr>tos_to_init_cbs := remove1 (l4cb_id cb) (tos_to_init_cbs c)\<rparr>) e)
      else None)"

definition TEST_CBQ_REM_CLOSED ::
  "('a, 'z) l4cb_scheme \<Rightarrow> 'y core_env_scheme \<Rightarrow> 'y core_env_scheme option" where
  "TEST_CBQ_REM_CLOSED cb e =
     (if l4cb_id cb \<in> set (tos_closed_cbs (get_tci cb e))
      then Some (upd_tci cb (\<lambda>c. c\<lparr>tos_closed_cbs := remove1 (l4cb_id cb) (tos_closed_cbs c)\<rparr>) e)
      else None)"

subsection \<open>Timers, application and state entry\<close>

text \<open>\<open>L4CB_TEST_TMR_SET\<close> and \<open>L4CB_TEST_TMR_CANCEL\<close> drop the status; a delay is in seconds and
  is multiplied in 32 bits.\<close>

definition test_tmr_set_delay :: "tpg_delay \<Rightarrow> ('a, 'z, 'y) sm_step" where
  "test_tmr_set_delay d cb e =
     Some (snd (l4cb_timer_test_set (d_value d * 1000000) cb e))"

definition test_tmr_cancel_if_set :: "('a, 'z, 'y) sm_step" where
  "test_tmr_cancel_if_set cb e =
     (if l4cb_on_test_tmr_list cb then map_option snd (l4cb_timer_test_cancel cb e)
      else Some (cb, e))"

fun app_notif_event :: "app_notif \<Rightarrow> test_sm_event" where
  "app_notif_event TEST_NOTIF_APP_SEND_START = TSTE_APP_SEND_START"
| "app_notif_event TEST_NOTIF_APP_SEND_STOP = TSTE_APP_SEND_STOP"

fun test_app_notifs :: "('a, 'z, 'y) sm_disp \<Rightarrow> app_notif list \<Rightarrow> ('a, 'z, 'y) sm_step" where
  "test_app_notifs disp [] cb e = Some (cb, e)"
| "test_app_notifs disp (n # ns) cb e =
     do { (cb, e) \<leftarrow> disp (app_notif_event n) cb e; test_app_notifs disp ns cb e }"

definition test_app_conn_up ::
  "'a app_ops \<Rightarrow> ('a, 'z, 'y) sm_disp \<Rightarrow> ('a, 'z, 'y) sm_step" where
  "test_app_conn_up app disp cb e =
     (let (d, ns) = app_conn_up app (l4cb_app_data cb)
      in test_app_notifs disp ns (cb\<lparr>l4cb_app_data := d\<rparr>) e)"

definition test_app_conn_down :: "'a app_ops \<Rightarrow> ('a, 'z) l4cb_scheme \<Rightarrow> ('a, 'z) l4cb_scheme" where
  "test_app_conn_down app cb = cb\<lparr>l4cb_app_data := app_conn_down app (l4cb_app_data cb)\<rparr>"

definition test_sm_enter_state ::
  "('a, 'z, 'y) sm_disp \<Rightarrow> test_sm_state \<Rightarrow> ('a, 'z, 'y) sm_step" where
  "test_sm_enter_state disp st cb e = disp TSTE_ENTER_STATE (cb\<lparr>l4cb_test_state := st\<rparr>) e"

subsection \<open>State functions of the clients\<close>

definition test_sm_SF_client_to_init :: "('a, 'z, 'y) sm_disp \<Rightarrow> ('a, 'z, 'y) sm_disp" where
  "test_sm_SF_client_to_init disp event cb e =
     (case event of
        TSTE_ENTER_STATE \<Rightarrow>
          let init_delay = tci_init_delay (get_tci cb e)
          in if d_value init_delay = 0
             then test_sm_enter_state disp TSTS_CL_TO_OPEN cb (TEST_CBQ_ADD_TO_OPEN_NO_RESCHED cb e)
             else test_tmr_set_delay init_delay cb (TEST_CBQ_ADD_TO_INIT cb e)
      | TSTE_TMR_TO \<Rightarrow> do {
          e \<leftarrow> TEST_CBQ_REM_TO_INIT cb e;
          test_sm_enter_state disp TSTS_CL_TO_OPEN cb (TEST_CBQ_ADD_TO_OPEN cb e)
        }
      | TSTE_PURGE \<Rightarrow> do {
          e \<leftarrow> TEST_CBQ_REM_TO_INIT cb e;
          test_sm_enter_state disp TSTS_PURGED cb e
        }
      | _ \<Rightarrow> None)"

definition test_sm_SF_client_to_open ::
  "'a app_ops \<Rightarrow> ('a, 'z, 'y) sm_disp \<Rightarrow> ('a, 'z, 'y) sm_disp" where
  "test_sm_SF_client_to_open app disp event cb e =
     (case event of
        TSTE_ENTER_STATE \<Rightarrow> Some (cb, e)
      | TSTE_CONNECTING \<Rightarrow> do {
          e \<leftarrow> TEST_CBQ_REM_TO_OPEN cb e;
          test_sm_enter_state disp TSTS_CL_OPENING cb e
        }
      | TSTE_CONNECTED \<Rightarrow> do {
          e \<leftarrow> TEST_CBQ_REM_TO_OPEN cb e;
          let uptime = tci_uptime (get_tci cb e);
          (cb, e) \<leftarrow> (if \<not> TPG_DELAY_IS_INF uptime then test_tmr_set_delay uptime cb e
                     else Some (cb, e));
          (cb, e) \<leftarrow> test_sm_enter_state disp TSTS_CL_OPEN cb e;
          test_app_conn_up app disp cb e
        }
      | TSTE_PURGE \<Rightarrow> do {
          e \<leftarrow> TEST_CBQ_REM_TO_OPEN cb e;
          test_sm_enter_state disp TSTS_PURGED cb e
        }
      | _ \<Rightarrow> None)"

definition test_sm_SF_client_opening ::
  "'a app_ops \<Rightarrow> ('a, 'z, 'y) sm_disp \<Rightarrow> ('a, 'z, 'y) sm_disp" where
  "test_sm_SF_client_opening app disp event cb e =
     (case event of
        TSTE_ENTER_STATE \<Rightarrow> Some (cb, e)
      | TSTE_CONNECTED \<Rightarrow> do {
          let uptime = tci_uptime (get_tci cb e);
          (cb, e) \<leftarrow> (if \<not> TPG_DELAY_IS_INF uptime then test_tmr_set_delay uptime cb e
                     else Some (cb, e));
          (cb, e) \<leftarrow> test_sm_enter_state disp TSTS_CL_OPEN cb e;
          test_app_conn_up app disp cb e
        }
      | TSTE_CLOSING \<Rightarrow> test_sm_enter_state disp TSTS_CL_CLOSING cb e
      | TSTE_PURGE \<Rightarrow> test_sm_enter_state disp TSTS_PURGED cb e
      | _ \<Rightarrow> None)"

definition test_sm_SF_client_open ::
  "'a app_ops \<Rightarrow> ('a, 'z, 'y) sm_disp \<Rightarrow> ('a, 'z, 'y) sm_disp" where
  "test_sm_SF_client_open app disp event cb e =
     (case event of
        TSTE_ENTER_STATE \<Rightarrow> Some (cb, e)
      | TSTE_APP_SEND_START \<Rightarrow>
          test_sm_enter_state disp TSTS_CL_SENDING cb (TEST_CBQ_ADD_TO_SEND cb e)
      | TSTE_CLOSING \<Rightarrow> do {
          (cb, e) \<leftarrow> test_tmr_cancel_if_set cb e;
          test_sm_enter_state disp TSTS_CL_CLOSING (test_app_conn_down app cb) e
        }
      | TSTE_SND_WIN \<Rightarrow> Some (cb, e)
      | TSTE_NO_SND_WIN \<Rightarrow> Some (cb, e)
      | TSTE_TMR_TO \<Rightarrow>
          test_sm_enter_state disp TSTS_CL_TO_CLOSE cb (TEST_CBQ_ADD_TO_CLOSE cb e)
      | TSTE_PURGE \<Rightarrow> test_sm_enter_state disp TSTS_PURGED cb e
      | _ \<Rightarrow> None)"

definition test_sm_SF_client_sending ::
  "'a app_ops \<Rightarrow> ('a, 'z, 'y) sm_disp \<Rightarrow> ('a, 'z, 'y) sm_disp" where
  "test_sm_SF_client_sending app disp event cb e =
     (case event of
        TSTE_ENTER_STATE \<Rightarrow> Some (cb, e)
      | TSTE_CLOSING \<Rightarrow> do {
          (cb, e) \<leftarrow> test_tmr_cancel_if_set cb e;
          e \<leftarrow> TEST_CBQ_REM_TO_SEND cb e;
          test_sm_enter_state disp TSTS_CL_CLOSING (test_app_conn_down app cb) e
        }
      | TSTE_SND_WIN \<Rightarrow> Some (cb, e)
      | TSTE_NO_SND_WIN \<Rightarrow> do {
          e \<leftarrow> TEST_CBQ_REM_TO_SEND cb e;
          test_sm_enter_state disp TSTS_CL_NO_SND_WIN cb e
        }
      | TSTE_TMR_TO \<Rightarrow> do {
          e \<leftarrow> TEST_CBQ_REM_TO_SEND cb e;
          test_sm_enter_state disp TSTS_CL_TO_CLOSE cb (TEST_CBQ_ADD_TO_CLOSE cb e)
        }
      | TSTE_APP_SEND_STOP \<Rightarrow> do {
          e \<leftarrow> TEST_CBQ_REM_TO_SEND cb e;
          test_sm_enter_state disp TSTS_CL_OPEN cb e
        }
      | TSTE_PURGE \<Rightarrow> do {
          e \<leftarrow> TEST_CBQ_REM_TO_SEND cb e;
          test_sm_enter_state disp TSTS_PURGED cb e
        }
      | _ \<Rightarrow> None)"

definition test_sm_SF_client_no_snd_win ::
  "'a app_ops \<Rightarrow> ('a, 'z, 'y) sm_disp \<Rightarrow> ('a, 'z, 'y) sm_disp" where
  "test_sm_SF_client_no_snd_win app disp event cb e =
     (case event of
        TSTE_ENTER_STATE \<Rightarrow> Some (cb, e)
      | TSTE_CLOSING \<Rightarrow> do {
          (cb, e) \<leftarrow> test_tmr_cancel_if_set cb e;
          test_sm_enter_state disp TSTS_CL_CLOSING (test_app_conn_down app cb) e
        }
      | TSTE_TMR_TO \<Rightarrow>
          test_sm_enter_state disp TSTS_CL_TO_CLOSE cb (TEST_CBQ_ADD_TO_CLOSE cb e)
      | TSTE_SND_WIN \<Rightarrow>
          test_sm_enter_state disp TSTS_CL_SENDING cb (TEST_CBQ_ADD_TO_SEND cb e)
      | TSTE_APP_SEND_STOP \<Rightarrow> test_sm_enter_state disp TSTS_CL_OPEN cb e
      | TSTE_PURGE \<Rightarrow> test_sm_enter_state disp TSTS_PURGED cb e
      | _ \<Rightarrow> None)"

text \<open>A purge in this state takes the block off the closed list, as the code does.\<close>

definition test_sm_SF_client_to_close ::
  "'a app_ops \<Rightarrow> ('a, 'z, 'y) sm_disp \<Rightarrow> ('a, 'z, 'y) sm_disp" where
  "test_sm_SF_client_to_close app disp event cb e =
     (case event of
        TSTE_ENTER_STATE \<Rightarrow> Some (cb, e)
      | TSTE_CLOSING \<Rightarrow> do {
          let cb = test_app_conn_down app cb;
          e \<leftarrow> TEST_CBQ_REM_TO_CLOSE cb e;
          test_sm_enter_state disp TSTS_CL_CLOSING cb e
        }
      | TSTE_APP_SEND_START \<Rightarrow> Some (cb, e)
      | TSTE_APP_SEND_STOP \<Rightarrow> Some (cb, e)
      | TSTE_PURGE \<Rightarrow> do {
          e \<leftarrow> TEST_CBQ_REM_CLOSED cb e;
          test_sm_enter_state disp TSTS_PURGED cb e
        }
      | TSTE_SND_WIN \<Rightarrow> Some (cb, e)
      | TSTE_NO_SND_WIN \<Rightarrow> Some (cb, e)
      | _ \<Rightarrow> None)"

definition test_sm_SF_client_closing :: "('a, 'z, 'y) sm_disp \<Rightarrow> ('a, 'z, 'y) sm_disp" where
  "test_sm_SF_client_closing disp event cb e =
     (case event of
        TSTE_ENTER_STATE \<Rightarrow> Some (cb, e)
      | TSTE_CLOSED \<Rightarrow> test_sm_enter_state disp TSTS_CL_CLOSED cb e
      | TSTE_APP_SEND_START \<Rightarrow> Some (cb, e)
      | TSTE_APP_SEND_STOP \<Rightarrow> Some (cb, e)
      | TSTE_PURGE \<Rightarrow> test_sm_enter_state disp TSTS_PURGED cb e
      | _ \<Rightarrow> None)"

definition test_sm_SF_client_closed :: "('a, 'z, 'y) sm_disp \<Rightarrow> ('a, 'z, 'y) sm_disp" where
  "test_sm_SF_client_closed disp event cb e =
     (case event of
        TSTE_ENTER_STATE \<Rightarrow> do {
          let downtime = tci_downtime (get_tci cb e);
          (cb, e) \<leftarrow> (if \<not> TPG_DELAY_IS_INF downtime then test_tmr_set_delay downtime cb e
                     else Some (cb, e));
          Some (cb, TEST_CBQ_ADD_CLOSED cb e)
        }
      | TSTE_TMR_TO \<Rightarrow> do {
          e \<leftarrow> TEST_CBQ_REM_CLOSED cb e;
          test_sm_enter_state disp TSTS_CL_TO_OPEN cb (TEST_CBQ_ADD_TO_OPEN cb e)
        }
      | TSTE_PURGE \<Rightarrow> do {
          e \<leftarrow> TEST_CBQ_REM_CLOSED cb e;
          test_sm_enter_state disp TSTS_PURGED cb e
        }
      | _ \<Rightarrow> None)"

definition test_sm_SF_purged :: "('a, 'z, 'y) sm_disp \<Rightarrow> ('a, 'z, 'y) sm_disp" where
  "test_sm_SF_purged disp event cb e =
     (case event of
        TSTE_ENTER_STATE \<Rightarrow> test_tmr_cancel_if_set cb e
      | TSTE_CLOSING \<Rightarrow> Some (cb, e)
      | TSTE_CLOSED \<Rightarrow> Some (cb, e)
      | _ \<Rightarrow> None)"

subsection \<open>State functions of the servers\<close>

definition test_sm_SF_server_opening ::
  "'a app_ops \<Rightarrow> ('a, 'z, 'y) sm_disp \<Rightarrow> ('a, 'z, 'y) sm_disp" where
  "test_sm_SF_server_opening app disp event cb e =
     (case event of
        TSTE_ENTER_STATE \<Rightarrow> do {
          (cb, e) \<leftarrow> test_sm_enter_state disp TSTS_SRV_OPEN cb e;
          test_app_conn_up app disp cb e
        }
      | _ \<Rightarrow> None)"

definition test_sm_SF_server_open ::
  "'a app_ops \<Rightarrow> ('a, 'z, 'y) sm_disp \<Rightarrow> ('a, 'z, 'y) sm_disp" where
  "test_sm_SF_server_open app disp event cb e =
     (case event of
        TSTE_ENTER_STATE \<Rightarrow> Some (cb, e)
      | TSTE_APP_SEND_START \<Rightarrow>
          test_sm_enter_state disp TSTS_SRV_SENDING cb (TEST_CBQ_ADD_TO_SEND cb e)
      | TSTE_CLOSING \<Rightarrow> test_sm_enter_state disp TSTS_SRV_CLOSING (test_app_conn_down app cb) e
      | TSTE_SND_WIN \<Rightarrow> Some (cb, e)
      | TSTE_NO_SND_WIN \<Rightarrow> Some (cb, e)
      | TSTE_PURGE \<Rightarrow> test_sm_enter_state disp TSTS_PURGED cb e
      | _ \<Rightarrow> None)"

definition test_sm_SF_server_sending ::
  "'a app_ops \<Rightarrow> ('a, 'z, 'y) sm_disp \<Rightarrow> ('a, 'z, 'y) sm_disp" where
  "test_sm_SF_server_sending app disp event cb e =
     (case event of
        TSTE_ENTER_STATE \<Rightarrow> Some (cb, e)
      | TSTE_CLOSING \<Rightarrow> do {
          e \<leftarrow> TEST_CBQ_REM_TO_SEND cb e;
          test_sm_enter_state disp TSTS_SRV_CLOSING (test_app_conn_down app cb) e
        }
      | TSTE_SND_WIN \<Rightarrow> Some (cb, e)
      | TSTE_NO_SND_WIN \<Rightarrow> do {
          e \<leftarrow> TEST_CBQ_REM_TO_SEND cb e;
          test_sm_enter_state disp TSTS_SRV_NO_SND_WIN cb e
        }
      | TSTE_APP_SEND_STOP \<Rightarrow> do {
          e \<leftarrow> TEST_CBQ_REM_TO_SEND cb e;
          test_sm_enter_state disp TSTS_SRV_OPEN cb e
        }
      | TSTE_PURGE \<Rightarrow> do {
          e \<leftarrow> TEST_CBQ_REM_TO_SEND cb e;
          test_sm_enter_state disp TSTS_PURGED cb e
        }
      | _ \<Rightarrow> None)"

definition test_sm_SF_server_no_snd_win ::
  "'a app_ops \<Rightarrow> ('a, 'z, 'y) sm_disp \<Rightarrow> ('a, 'z, 'y) sm_disp" where
  "test_sm_SF_server_no_snd_win app disp event cb e =
     (case event of
        TSTE_ENTER_STATE \<Rightarrow> Some (cb, e)
      | TSTE_CLOSING \<Rightarrow> do {
          (cb, e) \<leftarrow> test_tmr_cancel_if_set cb e;
          test_sm_enter_state disp TSTS_SRV_CLOSING (test_app_conn_down app cb) e
        }
      | TSTE_SND_WIN \<Rightarrow>
          test_sm_enter_state disp TSTS_SRV_SENDING cb (TEST_CBQ_ADD_TO_SEND cb e)
      | TSTE_APP_SEND_STOP \<Rightarrow> test_sm_enter_state disp TSTS_SRV_OPEN cb e
      | TSTE_PURGE \<Rightarrow> test_sm_enter_state disp TSTS_PURGED cb e
      | _ \<Rightarrow> None)"

definition test_sm_SF_server_closing :: "('a, 'z, 'y) sm_disp \<Rightarrow> ('a, 'z, 'y) sm_disp" where
  "test_sm_SF_server_closing disp event cb e =
     (case event of
        TSTE_ENTER_STATE \<Rightarrow> Some (cb, e)
      | TSTE_CLOSED \<Rightarrow> test_sm_enter_state disp TSTS_SRV_CLOSED cb e
      | TSTE_APP_SEND_START \<Rightarrow> Some (cb, e)
      | TSTE_APP_SEND_STOP \<Rightarrow> Some (cb, e)
      | TSTE_PURGE \<Rightarrow> test_sm_enter_state disp TSTS_PURGED cb e
      | _ \<Rightarrow> None)"

definition test_sm_SF_server_closed :: "('a, 'z, 'y) sm_disp \<Rightarrow> ('a, 'z, 'y) sm_disp" where
  "test_sm_SF_server_closed disp event cb e =
     (case event of TSTE_ENTER_STATE \<Rightarrow> Some (cb, e) | _ \<Rightarrow> None)"

definition test_sm_SF_listen :: "('a, 'z, 'y) sm_disp \<Rightarrow> ('a, 'z, 'y) sm_disp" where
  "test_sm_SF_listen disp event cb e =
     (case event of
        TSTE_ENTER_STATE \<Rightarrow> Some (cb, e)
      | TSTE_PURGE \<Rightarrow> test_sm_enter_state disp TSTS_PURGED cb e
      | _ \<Rightarrow> None)"

subsection \<open>Dispatch\<close>

definition test_sm_function_array ::
  "'a app_ops \<Rightarrow> test_sm_state \<Rightarrow> ('a, 'z, 'y) sm_disp \<Rightarrow> ('a, 'z, 'y) sm_disp" where
  "test_sm_function_array app st =
     (case st of
        TSTS_CL_TO_INIT \<Rightarrow> test_sm_SF_client_to_init
      | TSTS_CL_TO_OPEN \<Rightarrow> test_sm_SF_client_to_open app
      | TSTS_CL_OPENING \<Rightarrow> test_sm_SF_client_opening app
      | TSTS_CL_OPEN \<Rightarrow> test_sm_SF_client_open app
      | TSTS_CL_SENDING \<Rightarrow> test_sm_SF_client_sending app
      | TSTS_CL_NO_SND_WIN \<Rightarrow> test_sm_SF_client_no_snd_win app
      | TSTS_CL_TO_CLOSE \<Rightarrow> test_sm_SF_client_to_close app
      | TSTS_CL_CLOSING \<Rightarrow> test_sm_SF_client_closing
      | TSTS_CL_CLOSED \<Rightarrow> test_sm_SF_client_closed
      | TSTS_SRV_OPENING \<Rightarrow> test_sm_SF_server_opening app
      | TSTS_SRV_OPEN \<Rightarrow> test_sm_SF_server_open app
      | TSTS_SRV_SENDING \<Rightarrow> test_sm_SF_server_sending app
      | TSTS_SRV_NO_SND_WIN \<Rightarrow> test_sm_SF_server_no_snd_win app
      | TSTS_SRV_CLOSING \<Rightarrow> test_sm_SF_server_closing
      | TSTS_SRV_CLOSED \<Rightarrow> test_sm_SF_server_closed
      | TSTS_LISTEN \<Rightarrow> test_sm_SF_listen
      | TSTS_PURGED \<Rightarrow> test_sm_SF_purged)"

fun test_sm_run :: "nat \<Rightarrow> 'a app_ops \<Rightarrow> ('a, 'z, 'y) sm_disp" where
  "test_sm_run 0 app event cb e = None"
| "test_sm_run (Suc n) app event cb e =
     test_sm_function_array app (l4cb_test_state cb) (test_sm_run n app) event cb e"

definition test_sm_dispatch_event :: "'a app_ops \<Rightarrow> ('a, 'z, 'y) sm_disp" where
  "test_sm_dispatch_event app = test_sm_run 3 app"

definition test_sm_has_data_pending :: "('a, 'z) l4cb_scheme \<Rightarrow> bool" where
  "test_sm_has_data_pending cb \<longleftrightarrow>
     l4cb_test_state cb = TSTS_CL_SENDING \<or> l4cb_test_state cb = TSTS_SRV_SENDING"

subsection \<open>Notifications\<close>

datatype test_notif =
    TEST_NOTIF_SESS_UP | TEST_NOTIF_SESS_DOWN | TEST_NOTIF_SESS_FAILED
  | TEST_NOTIF_DATA_FAILED | TEST_NOTIF_DATA_NULL | TEST_NOTIF_TMR_FIRED
  | TEST_NOTIF_SESS_CONNECTING | TEST_NOTIF_SESS_CONNECTED | TEST_NOTIF_SESS_CONNECTED_IMM
  | TEST_NOTIF_SESS_LISTEN | TEST_NOTIF_SESS_SRV_CONNECTED
  | TEST_NOTIF_SESS_CLOSING | TEST_NOTIF_SESS_CLOSED
  | TEST_NOTIF_SESS_WIN_AVAIL | TEST_NOTIF_SESS_WIN_UNAVAIL
  | TEST_NOTIF_APP app_notif

definition test_sess_record_start_time ::
  "('a, 'z) l4cb_scheme \<Rightarrow> 'y core_env_scheme \<Rightarrow> 'y core_env_scheme" where
  "test_sess_record_start_time cb e =
     (if gs_start_time (get_tci cb e) = 0 then upd_tci cb (\<lambda>c. c\<lparr>gs_start_time := ce_now e\<rparr>) e else e)"

definition test_sess_record_end_time ::
  "('a, 'z) l4cb_scheme \<Rightarrow> 'y core_env_scheme \<Rightarrow> 'y core_env_scheme" where
  "test_sess_record_end_time cb e = upd_tci cb (\<lambda>c. c\<lparr>gs_end_time := ce_now e\<rparr>) e"

definition test_sess_init :: "'a app_ops \<Rightarrow> ('a, 'z, 'y) sm_step" where
  "test_sess_init app cb e =
     test_sm_enter_state (test_sm_dispatch_event app) TSTS_CL_TO_INIT
       (cb\<lparr>l4cb_app_data := app_init app (l4cb_app_data cb)\<rparr>) e"

definition test_sess_connecting :: "'a app_ops \<Rightarrow> ('a, 'z, 'y) sm_step" where
  "test_sess_connecting app cb e =
     test_sm_dispatch_event app TSTE_CONNECTING cb (test_sess_record_start_time cb e)"

definition test_sess_count_estab ::
  "('a, 'z) l4cb_scheme \<Rightarrow> 'y core_env_scheme \<Rightarrow> 'y core_env_scheme" where
  "test_sess_count_estab cb =
     upd_tci cb (\<lambda>c. c\<lparr>gs_estab := gs_estab c + 1, rs_estab_per_s := rs_estab_per_s c + 1\<rparr>)"

definition test_sess_connected :: "'a app_ops \<Rightarrow> ('a, 'z, 'y) sm_step" where
  "test_sess_connected app cb e =
     test_sm_dispatch_event app TSTE_CONNECTED cb
       (test_sess_record_end_time cb (test_sess_count_estab cb e))"

definition test_sess_connected_imm :: "'a app_ops \<Rightarrow> ('a, 'z, 'y) sm_step" where
  "test_sess_connected_imm app cb e =
     test_sess_connected app cb (test_sess_record_start_time cb e)"

definition test_sess_listen :: "'a app_ops \<Rightarrow> ('a, 'z, 'y) sm_step" where
  "test_sess_listen app cb e =
     test_sm_enter_state (test_sm_dispatch_event app) TSTS_LISTEN
       (cb\<lparr>l4cb_app_data := app_init app (l4cb_app_data cb)\<rparr>) e"

definition test_sess_server_connected :: "'a app_ops \<Rightarrow> ('a, 'z, 'y) sm_step" where
  "test_sess_server_connected app cb e =
     test_sm_enter_state (test_sm_dispatch_event app) TSTS_SRV_OPENING cb
       (test_sess_count_estab cb e)"

definition test_sess_closed :: "'a app_ops \<Rightarrow> ('a, 'z, 'y) sm_step" where
  "test_sess_closed app cb e =
     test_sm_dispatch_event app TSTE_CLOSED cb
       (upd_tci cb (\<lambda>c. c\<lparr>rs_closed_per_s := rs_closed_per_s c + 1\<rparr>) e)"

definition test_notification :: "'a app_ops \<Rightarrow> test_notif \<Rightarrow> ('a, 'z, 'y) sm_step" where
  "test_notification app notification cb e =
     (case notification of
        TEST_NOTIF_SESS_UP \<Rightarrow> Some (cb, upd_tci cb (\<lambda>c. c\<lparr>gs_up := gs_up c + 1\<rparr>) e)
      | TEST_NOTIF_SESS_DOWN \<Rightarrow> Some (cb, upd_tci cb (\<lambda>c. c\<lparr>gs_down := gs_down c + 1\<rparr>) e)
      | TEST_NOTIF_SESS_FAILED \<Rightarrow> Some (cb, upd_tci cb (\<lambda>c. c\<lparr>gs_failed := gs_failed c + 1\<rparr>) e)
      | TEST_NOTIF_DATA_FAILED \<Rightarrow>
          Some (cb, upd_tci cb (\<lambda>c. c\<lparr>gs_data_failed := gs_data_failed c + 1\<rparr>) e)
      | TEST_NOTIF_DATA_NULL \<Rightarrow>
          Some (cb, upd_tci cb (\<lambda>c. c\<lparr>gs_data_null := gs_data_null c + 1\<rparr>) e)
      | TEST_NOTIF_TMR_FIRED \<Rightarrow> test_sm_dispatch_event app TSTE_TMR_TO cb e
      | TEST_NOTIF_SESS_CONNECTING \<Rightarrow> test_sess_connecting app cb e
      | TEST_NOTIF_SESS_CONNECTED \<Rightarrow> test_sess_connected app cb e
      | TEST_NOTIF_SESS_CONNECTED_IMM \<Rightarrow> test_sess_connected_imm app cb e
      | TEST_NOTIF_SESS_LISTEN \<Rightarrow> test_sess_listen app cb e
      | TEST_NOTIF_SESS_SRV_CONNECTED \<Rightarrow> test_sess_server_connected app cb e
      | TEST_NOTIF_SESS_CLOSING \<Rightarrow> test_sm_dispatch_event app TSTE_CLOSING cb e
      | TEST_NOTIF_SESS_CLOSED \<Rightarrow> test_sess_closed app cb e
      | TEST_NOTIF_SESS_WIN_AVAIL \<Rightarrow> test_sm_dispatch_event app TSTE_SND_WIN cb e
      | TEST_NOTIF_SESS_WIN_UNAVAIL \<Rightarrow> test_sm_dispatch_event app TSTE_NO_SND_WIN cb e
      | TEST_NOTIF_APP n \<Rightarrow> test_sm_dispatch_event app (app_notif_event n) cb e)"

text \<open>
  The notifications of the applications, that of a close included: \<open>close\<close> is the function that closes a session of the
  protocol (\<open>tos_session_close_cb\<close>).
\<close>

datatype app_notification = APP_SEND app_notif | TEST_NOTIF_APP_CLOSE

definition test_notification_app ::
  "'a app_ops \<Rightarrow> ('a, 'z, 'y) sm_step \<Rightarrow> app_notification \<Rightarrow> ('a, 'z, 'y) sm_step" where
  "test_notification_app app close notification cb e =
     (case notification of
        APP_SEND n \<Rightarrow> test_notification app (TEST_NOTIF_APP n) cb e
      | TEST_NOTIF_APP_CLOSE \<Rightarrow> close cb e)"

text \<open>\<open>l4cb_handle_test_to\<close> of \<^verbatim>\<open>src/tpg_timer.c\<close>: the test timer of a block fired.\<close>

definition l4cb_handle_test_to :: "'a app_ops \<Rightarrow> ('a, 'z, 'y) sm_step" where
  "l4cb_handle_test_to app cb e =
     do {
       w \<leftarrow> TIMER_CANCEL (l4cb_id cb) (ce_test_wheel e);
       let e = upd_timer_stats (l4cb_interface cb)
                 (\<lambda>s. s\<lparr>tts_test_fired := tts_test_fired s + 1\<rparr>) e;
       test_notification app TEST_NOTIF_TMR_FIRED (cb\<lparr>l4cb_on_test_tmr_list := False\<rparr>)
         (e\<lparr>ce_test_wheel := w\<rparr>)
     }"

end
