(* ===== verification/TestSMProps.thy ===== *)
theory TestSMProps
  imports TestSM
begin

text \<open>
  What the session test state machine guarantees: a control block is on exactly the list its
  state prescribes, and an event moves no other block. The contract of a dispatcher is the
  locale \<open>test_dispatcher\<close>; every state function meets it when the dispatcher it calls back
  does, so every \<open>test_sm_run\<close> is an interpretation.
\<close>

datatype tos_list = To_Init | To_Open | To_Close | To_Send | Closed_List

fun tos :: "tos_list \<Rightarrow> test_case_info \<Rightarrow> cb_id list" where
  "tos To_Init c = tos_to_init_cbs c"
| "tos To_Open c = tos_to_open_cbs c"
| "tos To_Close c = tos_to_close_cbs c"
| "tos To_Send c = tos_to_send_cbs c"
| "tos Closed_List c = tos_closed_cbs c"

fun on_list :: "test_sm_state \<Rightarrow> tos_list option" where
  "on_list TSTS_CL_TO_INIT = Some To_Init"
| "on_list TSTS_CL_TO_OPEN = Some To_Open"
| "on_list TSTS_CL_SENDING = Some To_Send"
| "on_list TSTS_SRV_SENDING = Some To_Send"
| "on_list TSTS_CL_TO_CLOSE = Some To_Close"
| "on_list TSTS_CL_CLOSED = Some Closed_List"
| "on_list _ = None"

definition lists_hold :: "tos_list option \<Rightarrow> cb_id \<Rightarrow> test_case_info \<Rightarrow> bool" where
  "lists_hold ol x c \<longleftrightarrow> (\<forall>L. count_list (tos L c) x = (if ol = Some L then 1 else 0))"

definition sm_wf :: "('a, 'z) l4cb_scheme \<Rightarrow> 'y core_env_scheme \<Rightarrow> bool" where
  "sm_wf cb e \<longleftrightarrow> lists_hold (on_list (l4cb_test_state cb)) (l4cb_id cb) (get_tci cb e)"

text \<open>Entering these two states is what puts a block on their list.\<close>

definition sm_pre :: "test_sm_event \<Rightarrow> ('a, 'z) l4cb_scheme \<Rightarrow> 'y core_env_scheme \<Rightarrow> bool" where
  "sm_pre ev cb e \<longleftrightarrow>
     (if ev = TSTE_ENTER_STATE \<and>
         (l4cb_test_state cb = TSTS_CL_TO_INIT \<or> l4cb_test_state cb = TSTS_CL_CLOSED)
      then lists_hold None (l4cb_id cb) (get_tci cb e)
      else sm_wf cb e)"

text \<open>The block keeps its identity; the other blocks keep their places; the other test cases are
  not touched.\<close>

definition same_cb :: "('a, 'z) l4cb_scheme \<Rightarrow> ('a, 'z) l4cb_scheme \<Rightarrow> bool" where
  "same_cb cb cb' \<longleftrightarrow> l4cb_id cb' = l4cb_id cb \<and> l4cb_interface cb' = l4cb_interface cb \<and>
     l4cb_test_case_id cb' = l4cb_test_case_id cb"

definition others_kept ::
  "('a, 'z) l4cb_scheme \<Rightarrow> 'y core_env_scheme \<Rightarrow> 'y core_env_scheme \<Rightarrow> bool" where
  "others_kept cb e e' \<longleftrightarrow>
     (\<forall>L. filter (\<lambda>x. x \<noteq> l4cb_id cb) (tos L (get_tci cb e')) =
          filter (\<lambda>x. x \<noteq> l4cb_id cb) (tos L (get_tci cb e))) \<and>
     (\<forall>p t. (p, t) \<noteq> (l4cb_interface cb, l4cb_test_case_id cb) \<longrightarrow> ce_tci e' p t = ce_tci e p t)"

definition sm_post ::
  "('a, 'z) l4cb_scheme \<Rightarrow> 'y core_env_scheme \<Rightarrow> ('a, 'z) l4cb_scheme \<Rightarrow> 'y core_env_scheme \<Rightarrow> bool"
where
  "sm_post cb e cb' e' \<longleftrightarrow> same_cb cb cb' \<and> others_kept cb e e'"

named_theorems sm_simps \<open>effect of the primitive operations on the lists\<close>

lemma same_cb_refl [simp]: "same_cb cb cb"
  by (simp add: same_cb_def)

lemma sm_post_refl [simp]: "sm_post cb e cb e"
  by (simp add: sm_post_def others_kept_def)

lemma get_tci_same: "same_cb cb cb' \<Longrightarrow> get_tci cb' e = get_tci cb e"
  by (simp add: same_cb_def get_tci_def)

lemma others_kept_refl [simp]: "others_kept cb e e"
  by (simp add: others_kept_def)

lemma sm_post_trans:
  "sm_post cb e cb1 e1 \<Longrightarrow> sm_post cb1 e1 cb2 e2 \<Longrightarrow> sm_post cb e cb2 e2"
  by (auto simp: sm_post_def others_kept_def same_cb_def get_tci_def)

lemma sm_wf_same:
  "same_cb cb cb' \<Longrightarrow> l4cb_test_state cb' = l4cb_test_state cb \<Longrightarrow> sm_wf cb' e = sm_wf cb e"
  by (simp add: sm_wf_def get_tci_same) (simp add: same_cb_def)

subsection \<open>Primitive operations\<close>

lemma get_tci_upd_tci [simp, sm_simps]: "get_tci cb (upd_tci cb f e) = f (get_tci cb e)"
  by (simp add: get_tci_def upd_tci_def)

lemma get_tci_upd_fields [simp, sm_simps]:
  "get_tci (cb\<lparr>l4cb_test_state := st\<rparr>) e = get_tci cb e"
  "get_tci (cb\<lparr>l4cb_app_data := d\<rparr>) e = get_tci cb e"
  "get_tci (cb\<lparr>l4cb_on_test_tmr_list := b\<rparr>) e = get_tci cb e"
  "get_tci cb (e\<lparr>ce_msgs := m\<rparr>) = get_tci cb e"
  "get_tci cb (e\<lparr>ce_msg_outcomes := os\<rparr>) = get_tci cb e"
  "get_tci cb (e\<lparr>ce_test_wheel := w\<rparr>) = get_tci cb e"
  "get_tci cb (upd_timer_stats p g e) = get_tci cb e"
  by (simp_all add: get_tci_def upd_timer_stats_def)

lemma others_kept_upd_tci:
  "(\<And>L. filter (\<lambda>x. x \<noteq> l4cb_id cb) (tos L (f (get_tci cb e))) =
         filter (\<lambda>x. x \<noteq> l4cb_id cb) (tos L (get_tci cb e))) \<Longrightarrow> others_kept cb e (upd_tci cb f e)"
  by (auto simp: others_kept_def upd_tci_def get_tci_def)

lemma ce_tci_runner:
  "ce_tci (test_resched_runner typ a b cb e) =
     (if trs_flags (get_tci cb e) AND (a OR b) \<noteq> 0 then ce_tci e
      else ce_tci (upd_tci cb (\<lambda>c. c\<lparr>trs_flags := trs_flags c OR a\<rparr>) e))"
  by (cases "outcome (ce_msg_outcomes e)")
    (simp add: test_resched_runner_def test_case_run_msg_def upd_tci_def get_tci_def Let_def)

lemma tos_runner [sm_simps]:
  "tos L (get_tci cb (test_resched_runner typ a b cb e)) = tos L (get_tci cb e)"
  by (cases L) (simp_all add: get_tci_def ce_tci_runner upd_tci_def)

lemma others_kept_runner [sm_simps]:
  "others_kept cb e (test_resched_runner typ a b cb e')  = others_kept cb e e'"
proof -
  have "ce_tci (test_resched_runner typ a b cb e') p t = ce_tci e' p t"
    if "(p, t) \<noteq> (l4cb_interface cb, l4cb_test_case_id cb)" for p t
    using that by (auto simp: ce_tci_runner upd_tci_def)
  then show ?thesis by (auto simp: others_kept_def tos_runner)
qed

text \<open>Adding a block that is on no list, and removing it from the list it is on.\<close>

fun upd_tos :: "tos_list \<Rightarrow> (cb_id list \<Rightarrow> cb_id list) \<Rightarrow> test_case_info \<Rightarrow> test_case_info" where
  "upd_tos To_Init f c = c\<lparr>tos_to_init_cbs := f (tos_to_init_cbs c)\<rparr>"
| "upd_tos To_Open f c = c\<lparr>tos_to_open_cbs := f (tos_to_open_cbs c)\<rparr>"
| "upd_tos To_Close f c = c\<lparr>tos_to_close_cbs := f (tos_to_close_cbs c)\<rparr>"
| "upd_tos To_Send f c = c\<lparr>tos_to_send_cbs := f (tos_to_send_cbs c)\<rparr>"
| "upd_tos Closed_List f c = c\<lparr>tos_closed_cbs := f (tos_closed_cbs c)\<rparr>"

lemma tos_upd_tos: "tos L (upd_tos L' f c) = (if L = L' then f (tos L c) else tos L c)"
  by (cases L; cases L') simp_all

lemma cbq_add_eqs:
  "TEST_CBQ_ADD_TO_OPEN_NO_RESCHED cb e = upd_tci cb (upd_tos To_Open (\<lambda>l. l @ [l4cb_id cb])) e"
  "TEST_CBQ_ADD_TO_INIT cb e = upd_tci cb (upd_tos To_Init (\<lambda>l. l @ [l4cb_id cb])) e"
  "TEST_CBQ_ADD_CLOSED cb e = upd_tci cb (upd_tos Closed_List (\<lambda>l. l @ [l4cb_id cb])) e"
  "TEST_CBQ_ADD_TO_OPEN cb e = test_resched_runner TRMT_OPEN TRS_FLAGS_OPEN_IN_PROGRESS
     TRS_FLAGS_OPEN_RATE_REACHED cb (upd_tci cb (upd_tos To_Open (\<lambda>l. l @ [l4cb_id cb])) e)"
  "TEST_CBQ_ADD_TO_CLOSE cb e = test_resched_runner TRMT_CLOSE TRS_FLAGS_CLOSE_IN_PROGRESS
     TRS_FLAGS_CLOSE_RATE_REACHED cb (upd_tci cb (upd_tos To_Close (\<lambda>l. l @ [l4cb_id cb])) e)"
  "TEST_CBQ_ADD_TO_SEND cb e = test_resched_runner TRMT_SEND TRS_FLAGS_SEND_IN_PROGRESS
     TRS_FLAGS_SEND_RATE_REACHED cb (upd_tci cb (upd_tos To_Send (\<lambda>l. l @ [l4cb_id cb])) e)"
  by (simp_all add: TEST_CBQ_ADD_TO_OPEN_def TEST_CBQ_ADD_TO_OPEN_NO_RESCHED_def upd_tci_def
      TEST_CBQ_ADD_TO_CLOSE_def TEST_CBQ_ADD_TO_SEND_def TEST_CBQ_ADD_TO_INIT_def
      TEST_CBQ_ADD_CLOSED_def)

lemma cbq_rem_eqs:
  "TEST_CBQ_REM_TO_OPEN cb e = (if l4cb_id cb \<in> set (tos To_Open (get_tci cb e))
     then Some (upd_tci cb (upd_tos To_Open (remove1 (l4cb_id cb))) e) else None)"
  "TEST_CBQ_REM_TO_CLOSE cb e = (if l4cb_id cb \<in> set (tos To_Close (get_tci cb e))
     then Some (upd_tci cb (upd_tos To_Close (remove1 (l4cb_id cb))) e) else None)"
  "TEST_CBQ_REM_TO_SEND cb e = (if l4cb_id cb \<in> set (tos To_Send (get_tci cb e))
     then Some (upd_tci cb (upd_tos To_Send (remove1 (l4cb_id cb))) e) else None)"
  "TEST_CBQ_REM_TO_INIT cb e = (if l4cb_id cb \<in> set (tos To_Init (get_tci cb e))
     then Some (upd_tci cb (upd_tos To_Init (remove1 (l4cb_id cb))) e) else None)"
  "TEST_CBQ_REM_CLOSED cb e = (if l4cb_id cb \<in> set (tos Closed_List (get_tci cb e))
     then Some (upd_tci cb (upd_tos Closed_List (remove1 (l4cb_id cb))) e) else None)"
  by (simp_all add: TEST_CBQ_REM_TO_OPEN_def TEST_CBQ_REM_TO_CLOSE_def TEST_CBQ_REM_TO_SEND_def
      TEST_CBQ_REM_TO_INIT_def TEST_CBQ_REM_CLOSED_def upd_tci_def)

lemma lists_hold_append:
  assumes "lists_hold None (l4cb_id cb) (get_tci cb e)"
  shows "lists_hold (Some L) (l4cb_id cb)
           (get_tci cb (upd_tci cb (upd_tos L (\<lambda>l. l @ [l4cb_id cb])) e))"
  using assms by (simp add: lists_hold_def tos_upd_tos)

lemma lists_hold_runner [simp]:
  "lists_hold ol x (get_tci cb (test_resched_runner typ a b cb e)) = lists_hold ol x (get_tci cb e)"
  by (simp add: lists_hold_def tos_runner)

lemma others_kept_append: "others_kept cb e (upd_tci cb (upd_tos L (\<lambda>l. l @ [l4cb_id cb])) e)"
  by (rule others_kept_upd_tci) (simp add: tos_upd_tos)

lemmas lists_hold_add =
  lists_hold_append [of cb e To_Open, folded cbq_add_eqs(1)]
  lists_hold_append [of cb e To_Init, folded cbq_add_eqs(2)]
  lists_hold_append [of cb e Closed_List, folded cbq_add_eqs(3)]
  for cb e

lemma lists_hold_add_resched:
  assumes "lists_hold None (l4cb_id cb) (get_tci cb e)"
  shows "lists_hold (Some To_Open) (l4cb_id cb) (get_tci cb (TEST_CBQ_ADD_TO_OPEN cb e))"
    and "lists_hold (Some To_Close) (l4cb_id cb) (get_tci cb (TEST_CBQ_ADD_TO_CLOSE cb e))"
    and "lists_hold (Some To_Send) (l4cb_id cb) (get_tci cb (TEST_CBQ_ADD_TO_SEND cb e))"
  unfolding cbq_add_eqs lists_hold_runner by (rule lists_hold_append [OF assms])+

lemma others_kept_add [simp]:
  "others_kept cb e (TEST_CBQ_ADD_TO_OPEN cb e)"
  "others_kept cb e (TEST_CBQ_ADD_TO_OPEN_NO_RESCHED cb e)"
  "others_kept cb e (TEST_CBQ_ADD_TO_CLOSE cb e)"
  "others_kept cb e (TEST_CBQ_ADD_TO_SEND cb e)"
  "others_kept cb e (TEST_CBQ_ADD_TO_INIT cb e)"
  "others_kept cb e (TEST_CBQ_ADD_CLOSED cb e)"
  unfolding cbq_add_eqs others_kept_runner by (rule others_kept_append)+

lemma count_list_remove1 [simp]:
  "count_list (remove1 a xs) b = (if a = b then count_list xs b - 1 else count_list xs b)"
proof (induction xs)
  case (Cons x xs)
  have "a \<in> set xs \<Longrightarrow> 0 < count_list xs a" by (metis count_list_0_iff gr0I)
  moreover have "a \<notin> set xs \<Longrightarrow> count_list xs a = 0" by simp
  ultimately show ?case using Cons by (cases "a \<in> set xs") auto
qed simp

lemma filter_remove1_neq: "filter (\<lambda>x. x \<noteq> a) (remove1 a xs) = filter (\<lambda>x. x \<noteq> a) xs"
  by (induction xs) auto

lemma rem_step:
  assumes "lists_hold (Some L) (l4cb_id cb) (get_tci cb e)"
    and "e' = upd_tci cb (upd_tos L (remove1 (l4cb_id cb))) e"
  shows "lists_hold None (l4cb_id cb) (get_tci cb e') \<and> others_kept cb e e'"
  using assms by (auto simp: lists_hold_def tos_upd_tos filter_remove1_neq intro!: others_kept_upd_tci)

lemma rem_ok:
  "TEST_CBQ_REM_TO_OPEN cb e = Some e' \<Longrightarrow> lists_hold (Some To_Open) (l4cb_id cb) (get_tci cb e) \<Longrightarrow>
     lists_hold None (l4cb_id cb) (get_tci cb e') \<and> others_kept cb e e'"
  "TEST_CBQ_REM_TO_CLOSE cb e = Some e' \<Longrightarrow> lists_hold (Some To_Close) (l4cb_id cb) (get_tci cb e) \<Longrightarrow>
     lists_hold None (l4cb_id cb) (get_tci cb e') \<and> others_kept cb e e'"
  "TEST_CBQ_REM_TO_SEND cb e = Some e' \<Longrightarrow> lists_hold (Some To_Send) (l4cb_id cb) (get_tci cb e) \<Longrightarrow>
     lists_hold None (l4cb_id cb) (get_tci cb e') \<and> others_kept cb e e'"
  "TEST_CBQ_REM_TO_INIT cb e = Some e' \<Longrightarrow> lists_hold (Some To_Init) (l4cb_id cb) (get_tci cb e) \<Longrightarrow>
     lists_hold None (l4cb_id cb) (get_tci cb e') \<and> others_kept cb e e'"
  "TEST_CBQ_REM_CLOSED cb e = Some e' \<Longrightarrow> lists_hold (Some Closed_List) (l4cb_id cb) (get_tci cb e) \<Longrightarrow>
     lists_hold None (l4cb_id cb) (get_tci cb e') \<and> others_kept cb e e'"
  unfolding cbq_rem_eqs by (auto split: if_splits intro!: rem_step)

lemma rem_defined:
  "lists_hold (Some To_Open) (l4cb_id cb) (get_tci cb e) \<Longrightarrow> TEST_CBQ_REM_TO_OPEN cb e \<noteq> None"
  "lists_hold (Some To_Close) (l4cb_id cb) (get_tci cb e) \<Longrightarrow> TEST_CBQ_REM_TO_CLOSE cb e \<noteq> None"
  "lists_hold (Some To_Send) (l4cb_id cb) (get_tci cb e) \<Longrightarrow> TEST_CBQ_REM_TO_SEND cb e \<noteq> None"
  "lists_hold (Some To_Init) (l4cb_id cb) (get_tci cb e) \<Longrightarrow> TEST_CBQ_REM_TO_INIT cb e \<noteq> None"
  "lists_hold (Some Closed_List) (l4cb_id cb) (get_tci cb e) \<Longrightarrow> TEST_CBQ_REM_CLOSED cb e \<noteq> None"
  unfolding cbq_rem_eqs lists_hold_def by (auto simp: count_list_0_iff [symmetric] simp del: tos.simps)

text \<open>Timers do not touch the lists.\<close>

lemma tmr_set_ok:
  "test_tmr_set_delay d cb e = Some (cb', e') \<Longrightarrow>
     sm_post cb e cb' e' \<and> l4cb_test_state cb' = l4cb_test_state cb \<and> ce_tci e' = ce_tci e"
  by (auto simp: test_tmr_set_delay_def l4cb_timer_test_set_def sm_post_def same_cb_def
      others_kept_def get_tci_def upd_timer_stats_def Let_def split: prod.splits if_splits)

lemma tmr_cancel_ok:
  "test_tmr_cancel_if_set cb e = Some (cb', e') \<Longrightarrow>
     sm_post cb e cb' e' \<and> l4cb_test_state cb' = l4cb_test_state cb \<and> ce_tci e' = ce_tci e"
  by (auto simp: test_tmr_cancel_if_set_def l4cb_timer_test_cancel_def sm_post_def same_cb_def
      others_kept_def get_tci_def upd_timer_stats_def split: if_splits)

subsection \<open>The contract of a dispatcher\<close>

definition keeps ::
  "('a, 'z) l4cb_scheme \<Rightarrow> 'y core_env_scheme \<Rightarrow> (('a, 'z) l4cb_scheme \<times> 'y core_env_scheme) option \<Rightarrow> bool"
where
  "keeps cb e r \<longleftrightarrow> (\<forall>cb' e'. r = Some (cb', e') \<longrightarrow> sm_wf cb' e' \<and> sm_post cb e cb' e')"

lemma keeps_None [simp]: "keeps cb e None"
  by (simp add: keeps_def)

lemma keeps_Some: "sm_wf cb' e' \<Longrightarrow> sm_post cb e cb' e' \<Longrightarrow> keeps cb e (Some (cb', e'))"
  by (simp add: keeps_def)

lemma keeps_bind: "(\<And>x. m = Some x \<Longrightarrow> keeps cb e (f x)) \<Longrightarrow> keeps cb e (Option.bind m f)"
  by (cases m) simp_all

lemma keeps_trans: "sm_post cb e cb1 e1 \<Longrightarrow> keeps cb1 e1 r \<Longrightarrow> keeps cb e r"
  by (auto simp: keeps_def intro: sm_post_trans)

text \<open>The lists a block must be on when it enters a state.\<close>

fun entry_list :: "test_sm_state \<Rightarrow> tos_list option" where
  "entry_list TSTS_CL_TO_INIT = None"
| "entry_list TSTS_CL_CLOSED = None"
| "entry_list st = on_list st"

lemma sm_pre_enter:
  "sm_pre TSTE_ENTER_STATE (cb\<lparr>l4cb_test_state := st\<rparr>) e \<longleftrightarrow>
     lists_hold (entry_list st) (l4cb_id cb) (get_tci cb e)"
  by (cases st) (simp_all add: sm_pre_def sm_wf_def)

lemma sm_pre_other: "ev \<noteq> TSTE_ENTER_STATE \<Longrightarrow> sm_pre ev cb e = sm_wf cb e"
  by (simp add: sm_pre_def)

locale test_dispatcher =
  fixes disp :: "('a, 'z, 'y) sm_disp"
  assumes disp_keeps: "sm_pre ev cb e \<Longrightarrow> keeps cb e (disp ev cb e)"
begin

lemma enter_keeps:
  assumes "sm_post cb e cb1 e1" and "lists_hold (entry_list st) (l4cb_id cb1) (get_tci cb1 e1)"
  shows "keeps cb e (test_sm_enter_state disp st cb1 e1)"
proof -
  have "sm_post cb1 e1 (cb1\<lparr>l4cb_test_state := st\<rparr>) e1"
    by (simp add: sm_post_def same_cb_def others_kept_def)
  from sm_post_trans [OF assms(1) this] show ?thesis
    unfolding test_sm_enter_state_def using assms(2)
    by (intro keeps_trans [OF _ disp_keeps]) (simp_all add: sm_pre_enter)
qed

lemma app_notifs_keeps:
  assumes "sm_post cb e cb1 e1" and "sm_wf cb1 e1"
  shows "keeps cb e (test_app_notifs disp ns cb1 e1)"
  using assms
proof (induction ns arbitrary: cb1 e1)
  case Nil
  then show ?case by (simp add: keeps_Some)
next
  case (Cons n ns)
  have "sm_pre (app_notif_event n) cb1 e1" using Cons.prems by (cases n) (simp_all add: sm_pre_def)
  from disp_keeps [OF this] have
    "disp (app_notif_event n) cb1 e1 = Some (cb2, e2) \<Longrightarrow> sm_wf cb2 e2 \<and> sm_post cb1 e1 cb2 e2" for cb2 e2
    by (simp add: keeps_def)
  then show ?case using Cons.prems by (auto intro!: keeps_bind Cons.IH intro: sm_post_trans)
qed

lemma conn_up_keeps:
  assumes "sm_post cb e cb1 e1" and "sm_wf cb1 e1"
  shows "keeps cb e (test_app_conn_up app disp cb1 e1)"
proof -
  have "sm_post cb1 e1 (cb1\<lparr>l4cb_app_data := d\<rparr>) e1" "sm_wf (cb1\<lparr>l4cb_app_data := d\<rparr>) e1" for d
    using assms(2) by (simp_all add: sm_post_def same_cb_def others_kept_def sm_wf_def)
  with assms(1) show ?thesis
    by (auto simp: test_app_conn_up_def split: prod.splits intro!: app_notifs_keeps
        intro: sm_post_trans)
qed

text \<open>The steps that recur in the state functions.\<close>

lemma env_enter_keeps:
  assumes "others_kept cb e e1" and "lists_hold (entry_list st) (l4cb_id cb) (get_tci cb e1)"
  shows "keeps cb e (test_sm_enter_state disp st cb e1)"
  using assms by (intro enter_keeps) (simp_all add: sm_post_def)

lemma enter_conn_up_keeps:
  assumes "sm_post cb e cb1 e1" and "lists_hold None (l4cb_id cb1) (get_tci cb1 e1)"
    and "st = TSTS_CL_OPEN \<or> st = TSTS_SRV_OPEN"
  shows "keeps cb e (do { (cb, e) \<leftarrow> test_sm_enter_state disp st cb1 e1; test_app_conn_up app disp cb e })"
proof -
  have "entry_list st = None" using assms(3) by auto
  with enter_keeps [OF assms(1), of st] assms(2)
  have "keeps cb e (test_sm_enter_state disp st cb1 e1)" by simp
  then have "sm_wf a b \<and> sm_post cb e a b" if "test_sm_enter_state disp st cb1 e1 = Some (a, b)" for a b
    using that by (simp add: keeps_def)
  then show ?thesis by (auto intro!: keeps_bind conn_up_keeps)
qed

lemma cancel_enter_keeps:
  assumes "lists_hold None (l4cb_id cb) (get_tci cb e)" and "entry_list st = None"
  shows "keeps cb e (do {
           (cb, e) \<leftarrow> test_tmr_cancel_if_set cb e;
           test_sm_enter_state disp st (test_app_conn_down app cb) e })"
proof (rule keeps_bind, clarsimp)
  fix cb1 e1
  assume "test_tmr_cancel_if_set cb e = Some (cb1, e1)"
  from tmr_cancel_ok [OF this] have p: "sm_post cb e cb1 e1" "ce_tci e1 = ce_tci e" by auto
  have d: "sm_post cb1 e1 (test_app_conn_down app cb1) e1"
    by (simp add: sm_post_def same_cb_def others_kept_def test_app_conn_down_def)
  show "keeps cb e (test_sm_enter_state disp st (test_app_conn_down app cb1) e1)"
  proof (rule enter_keeps)
    show "sm_post cb e (test_app_conn_down app cb1) e1" using p d by (blast intro: sm_post_trans)
    show "lists_hold (entry_list st) (l4cb_id (test_app_conn_down app cb1))
            (get_tci (test_app_conn_down app cb1) e1)"
      using assms p by (simp add: test_app_conn_down_def get_tci_def sm_post_def same_cb_def)
  qed
qed

text \<open>Every state function keeps the lists when the dispatcher it calls back does.\<close>

lemma tmr_set_enter_conn_up_keeps:
  assumes "others_kept cb e e1" and "lists_hold None (l4cb_id cb) (get_tci cb e1)"
  shows "keeps cb e (do {
           (cb, e) \<leftarrow> (if has_d_value d then test_tmr_set_delay d cb e1 else Some (cb, e1));
           (cb, e) \<leftarrow> test_sm_enter_state disp TSTS_CL_OPEN cb e;
           test_app_conn_up app disp cb e })"
proof (rule keeps_bind, clarify)
  fix cb2 e2
  assume "(if has_d_value d then test_tmr_set_delay d cb e1 else Some (cb, e1)) = Some (cb2, e2)"
  then have p: "sm_post cb e1 cb2 e2" "ce_tci e2 = ce_tci e1"
    by (auto split: if_splits dest: tmr_set_ok)
  have "sm_post cb e cb2 e2"
    using assms(1) p(1) by (auto simp: sm_post_def others_kept_def)
  moreover have "lists_hold None (l4cb_id cb2) (get_tci cb2 e2)"
    using assms(2) p by (simp add: get_tci_def sm_post_def same_cb_def)
  ultimately show "keeps cb e (do {
      (cb, e) \<leftarrow> test_sm_enter_state disp TSTS_CL_OPEN cb2 e2; test_app_conn_up app disp cb e })"
    by (rule enter_conn_up_keeps) simp
qed

lemma lists_hold_others: "others_kept cb e e1 \<Longrightarrow> others_kept cb e1 e2 \<Longrightarrow> others_kept cb e e2"
  by (auto simp: others_kept_def)

lemma SF_client_to_init:
  assumes "sm_pre ev cb e" and "l4cb_test_state cb = TSTS_CL_TO_INIT"
  shows "keeps cb e (test_sm_SF_client_to_init disp ev cb e)"
proof (cases ev)
  case TSTE_ENTER_STATE
  with assms have n: "lists_hold None (l4cb_id cb) (get_tci cb e)" by (simp add: sm_pre_def)
  have "keeps cb e (test_tmr_set_delay d cb (TEST_CBQ_ADD_TO_INIT cb e))" for d
  proof -
    have "sm_post cb e cb' e' \<and> sm_wf cb' e'"
      if t: "test_tmr_set_delay d cb (TEST_CBQ_ADD_TO_INIT cb e) = Some (cb', e')" for cb' e'
      using tmr_set_ok [OF t] lists_hold_add(2) [OF n] assms(2)
        lists_hold_others [OF others_kept_add(5) [of cb e]]
      by (auto simp: sm_wf_def sm_post_def same_cb_def get_tci_def)
    then show ?thesis by (simp add: keeps_def)
  qed
  moreover have "keeps cb e (test_sm_enter_state disp TSTS_CL_TO_OPEN cb (TEST_CBQ_ADD_TO_OPEN_NO_RESCHED cb e))"
    using lists_hold_add(1) [OF n] by (intro env_enter_keeps) simp_all
  ultimately show ?thesis using TSTE_ENTER_STATE by (simp add: test_sm_SF_client_to_init_def Let_def)
next
  case TSTE_TMR_TO
  with assms have n: "lists_hold (Some To_Init) (l4cb_id cb) (get_tci cb e)"
    by (simp add: sm_pre_def sm_wf_def)
  show ?thesis using TSTE_TMR_TO rem_ok(4) [OF _ n]
    by (auto simp: test_sm_SF_client_to_init_def intro!: keeps_bind env_enter_keeps
        lists_hold_add_resched intro: lists_hold_others)
next
  case TSTE_PURGE
  with assms have n: "lists_hold (Some To_Init) (l4cb_id cb) (get_tci cb e)"
    by (simp add: sm_pre_def sm_wf_def)
  show ?thesis using TSTE_PURGE rem_ok(4) [OF _ n]
    by (auto simp: test_sm_SF_client_to_init_def intro!: keeps_bind env_enter_keeps)
qed (simp_all add: test_sm_SF_client_to_init_def)

lemma down_enter_keeps:
  assumes "others_kept cb e e1" and "lists_hold None (l4cb_id cb) (get_tci cb e1)"
    and "entry_list st = None"
  shows "keeps cb e (test_sm_enter_state disp st (test_app_conn_down app cb) e1)"
  using assms
  by (intro enter_keeps)
    (simp_all add: sm_post_def same_cb_def test_app_conn_down_def)

lemma cancel_rem_enter_keeps:
  assumes "lists_hold (Some To_Send) (l4cb_id cb) (get_tci cb e)" and "entry_list st = None"
  shows "keeps cb e (do {
           (cb, e) \<leftarrow> test_tmr_cancel_if_set cb e;
           e \<leftarrow> TEST_CBQ_REM_TO_SEND cb e;
           test_sm_enter_state disp st (test_app_conn_down app cb) e })"
proof (rule keeps_bind, clarify, rule keeps_bind)
  fix cb1 e1 e2
  assume "test_tmr_cancel_if_set cb e = Some (cb1, e1)" and r: "TEST_CBQ_REM_TO_SEND cb1 e1 = Some e2"
  from tmr_cancel_ok [OF this(1)] have p: "sm_post cb e cb1 e1" "ce_tci e1 = ce_tci e" by auto
  with assms(1) have "lists_hold (Some To_Send) (l4cb_id cb1) (get_tci cb1 e1)"
    by (simp add: get_tci_def sm_post_def same_cb_def)
  from rem_ok(3) [OF r this] assms(2)
  have "keeps cb1 e1 (test_sm_enter_state disp st (test_app_conn_down app cb1) e2)"
    by (intro down_enter_keeps) auto
  then show "keeps cb e (test_sm_enter_state disp st (test_app_conn_down app cb1) e2)"
    by (rule keeps_trans [OF p(1)])
qed

lemma TEST_CBQ_REM_TO_CLOSE_down [simp]:
  "TEST_CBQ_REM_TO_CLOSE (test_app_conn_down app cb) e = TEST_CBQ_REM_TO_CLOSE cb e"
  by (simp add: TEST_CBQ_REM_TO_CLOSE_def test_app_conn_down_def upd_tci_def)

lemma closed_enter_keeps:
  assumes "lists_hold None (l4cb_id cb) (get_tci cb e)" and "l4cb_test_state cb = TSTS_CL_CLOSED"
  shows "keeps cb e (do {
           (cb, e) \<leftarrow> (if has_d_value d then test_tmr_set_delay d cb e else Some (cb, e));
           Some (cb, TEST_CBQ_ADD_CLOSED cb e) })"
proof (rule keeps_bind, clarify)
  fix cb1 e1
  assume "(if has_d_value d then test_tmr_set_delay d cb e else Some (cb, e)) = Some (cb1, e1)"
  then have p: "sm_post cb e cb1 e1" "ce_tci e1 = ce_tci e" "l4cb_test_state cb1 = l4cb_test_state cb"
    by (auto split: if_splits dest: tmr_set_ok)
  with assms(1) have "lists_hold None (l4cb_id cb1) (get_tci cb1 e1)"
    by (simp add: get_tci_def sm_post_def same_cb_def)
  from lists_hold_add(3) [OF this] p assms(2)
  show "keeps cb e (Some (cb1, TEST_CBQ_ADD_CLOSED cb1 e1))"
    by (intro keeps_Some sm_post_trans [OF p(1)]) (simp_all add: sm_wf_def sm_post_def)
qed

lemmas sf_keeps = keeps_Some keeps_bind [where m = "TEST_CBQ_REM_TO_OPEN cb e" for cb e]
  keeps_bind [where m = "TEST_CBQ_REM_TO_SEND cb e" for cb e]
  keeps_bind [where m = "TEST_CBQ_REM_TO_CLOSE cb e" for cb e]
  keeps_bind [where m = "TEST_CBQ_REM_CLOSED cb e" for cb e]
  env_enter_keeps tmr_set_enter_conn_up_keeps lists_hold_add_resched cancel_enter_keeps
  down_enter_keeps cancel_rem_enter_keeps closed_enter_keeps

lemma SF_client_to_open:
  assumes "sm_pre ev cb e" and "l4cb_test_state cb = TSTS_CL_TO_OPEN"
  shows "keeps cb e (test_sm_SF_client_to_open app disp ev cb e)"
proof -
  have n: "lists_hold (Some To_Open) (l4cb_id cb) (get_tci cb e)"
    using assms by (simp add: sm_pre_def sm_wf_def)
  show ?thesis using assms n rem_ok(1) [OF _ n]
    by (cases ev) (auto simp: test_sm_SF_client_to_open_def sm_wf_def Let_def intro!: sf_keeps
        intro: lists_hold_others)
qed

lemma SF_client_opening:
  assumes "sm_pre ev cb e" and "l4cb_test_state cb = TSTS_CL_OPENING"
  shows "keeps cb e (test_sm_SF_client_opening app disp ev cb e)"
proof -
  have n: "lists_hold None (l4cb_id cb) (get_tci cb e)"
    using assms by (simp add: sm_pre_def sm_wf_def)
  show ?thesis using assms n
    by (cases ev) (auto simp: test_sm_SF_client_opening_def sm_wf_def Let_def intro!: sf_keeps
        split del: if_split)
qed

lemma SF_client_open:
  assumes "sm_pre ev cb e" and "l4cb_test_state cb = TSTS_CL_OPEN"
  shows "keeps cb e (test_sm_SF_client_open app disp ev cb e)"
proof -
  have n: "lists_hold None (l4cb_id cb) (get_tci cb e)"
    using assms by (simp add: sm_pre_def sm_wf_def)
  show ?thesis using assms n
    by (cases ev) (auto simp: test_sm_SF_client_open_def sm_wf_def Let_def intro!: sf_keeps
        intro: lists_hold_others)
qed

lemma SF_client_sending:
  assumes "sm_pre ev cb e" and "l4cb_test_state cb = TSTS_CL_SENDING"
  shows "keeps cb e (test_sm_SF_client_sending app disp ev cb e)"
proof -
  have n: "lists_hold (Some To_Send) (l4cb_id cb) (get_tci cb e)"
    using assms by (simp add: sm_pre_def sm_wf_def)
  show ?thesis using assms n rem_ok(3) [OF _ n]
    by (cases ev) (auto simp: test_sm_SF_client_sending_def sm_wf_def Let_def intro!: sf_keeps
        intro: lists_hold_others)
qed

lemma SF_client_no_snd_win:
  assumes "sm_pre ev cb e" and "l4cb_test_state cb = TSTS_CL_NO_SND_WIN"
  shows "keeps cb e (test_sm_SF_client_no_snd_win app disp ev cb e)"
proof -
  have n: "lists_hold None (l4cb_id cb) (get_tci cb e)"
    using assms by (simp add: sm_pre_def sm_wf_def)
  show ?thesis using assms n
    by (cases ev) (auto simp: test_sm_SF_client_no_snd_win_def sm_wf_def Let_def intro!: sf_keeps
        intro: lists_hold_others)
qed

lemma SF_client_to_close:
  assumes "sm_pre ev cb e" and "l4cb_test_state cb = TSTS_CL_TO_CLOSE"
  shows "keeps cb e (test_sm_SF_client_to_close app disp ev cb e)"
proof -
  have n: "lists_hold (Some To_Close) (l4cb_id cb) (get_tci cb e)"
    using assms by (simp add: sm_pre_def sm_wf_def)
  then have "TEST_CBQ_REM_CLOSED cb e = None"
    by (auto simp: cbq_rem_eqs lists_hold_def count_list_0_iff [symmetric] simp del: tos.simps)
  with assms n rem_ok(2) [OF _ n] show ?thesis
    by (cases ev) (auto simp: test_sm_SF_client_to_close_def sm_wf_def Let_def intro!: sf_keeps
        intro: lists_hold_others)
qed

lemma SF_client_closing:
  assumes "sm_pre ev cb e" and "l4cb_test_state cb = TSTS_CL_CLOSING"
  shows "keeps cb e (test_sm_SF_client_closing disp ev cb e)"
proof -
  have n: "lists_hold None (l4cb_id cb) (get_tci cb e)"
    using assms by (simp add: sm_pre_def sm_wf_def)
  show ?thesis using assms n
    by (cases ev) (auto simp: test_sm_SF_client_closing_def sm_wf_def Let_def intro!: sf_keeps
        intro: lists_hold_others)
qed

lemma SF_client_closed:
  assumes "sm_pre ev cb e" and "l4cb_test_state cb = TSTS_CL_CLOSED"
  shows "keeps cb e (test_sm_SF_client_closed disp ev cb e)"
proof (cases "ev = TSTE_ENTER_STATE")
  case True
  with assms show ?thesis
    by (simp add: test_sm_SF_client_closed_def sm_pre_def Let_def closed_enter_keeps split del: if_split)
next
  case False
  with assms have n: "lists_hold (Some Closed_List) (l4cb_id cb) (get_tci cb e)"
    by (simp add: sm_pre_def sm_wf_def)
  show ?thesis using False assms n rem_ok(5) [OF _ n]
    by (cases ev) (auto simp: test_sm_SF_client_closed_def sm_wf_def Let_def intro!: sf_keeps
        intro: lists_hold_others)
qed

lemma SF_purged:
  assumes "sm_pre ev cb e" and "l4cb_test_state cb = TSTS_PURGED"
  shows "keeps cb e (test_sm_SF_purged disp ev cb e)"
proof -
  have w: "sm_wf cb e" using assms by (simp add: sm_pre_def split: if_splits)
  have "keeps cb e (test_tmr_cancel_if_set cb e)"
    using w by (auto simp: keeps_def sm_wf_def get_tci_def sm_post_def same_cb_def dest!: tmr_cancel_ok)
  with w show ?thesis by (cases ev) (auto simp: test_sm_SF_purged_def intro: keeps_Some)
qed

lemma SF_server_opening:
  assumes "sm_pre ev cb e" and "l4cb_test_state cb = TSTS_SRV_OPENING"
  shows "keeps cb e (test_sm_SF_server_opening app disp ev cb e)"
  using assms enter_conn_up_keeps [of cb e cb e TSTS_SRV_OPEN app]
  by (cases ev) (auto simp: test_sm_SF_server_opening_def sm_pre_def sm_wf_def)

lemma SF_server_open:
  assumes "sm_pre ev cb e" and "l4cb_test_state cb = TSTS_SRV_OPEN"
  shows "keeps cb e (test_sm_SF_server_open app disp ev cb e)"
proof -
  have n: "lists_hold None (l4cb_id cb) (get_tci cb e)"
    using assms by (simp add: sm_pre_def sm_wf_def)
  show ?thesis using assms n
    by (cases ev) (auto simp: test_sm_SF_server_open_def sm_wf_def Let_def intro!: sf_keeps
        intro: lists_hold_others)
qed

lemma SF_server_sending:
  assumes "sm_pre ev cb e" and "l4cb_test_state cb = TSTS_SRV_SENDING"
  shows "keeps cb e (test_sm_SF_server_sending app disp ev cb e)"
proof -
  have n: "lists_hold (Some To_Send) (l4cb_id cb) (get_tci cb e)"
    using assms by (simp add: sm_pre_def sm_wf_def)
  show ?thesis using assms n rem_ok(3) [OF _ n]
    by (cases ev) (auto simp: test_sm_SF_server_sending_def sm_wf_def Let_def intro!: sf_keeps
        intro: lists_hold_others)
qed

lemma SF_server_no_snd_win:
  assumes "sm_pre ev cb e" and "l4cb_test_state cb = TSTS_SRV_NO_SND_WIN"
  shows "keeps cb e (test_sm_SF_server_no_snd_win app disp ev cb e)"
proof -
  have n: "lists_hold None (l4cb_id cb) (get_tci cb e)"
    using assms by (simp add: sm_pre_def sm_wf_def)
  show ?thesis using assms n
    by (cases ev) (auto simp: test_sm_SF_server_no_snd_win_def sm_wf_def Let_def intro!: sf_keeps
        intro: lists_hold_others)
qed

lemma SF_server_closing:
  assumes "sm_pre ev cb e" and "l4cb_test_state cb = TSTS_SRV_CLOSING"
  shows "keeps cb e (test_sm_SF_server_closing disp ev cb e)"
proof -
  have n: "lists_hold None (l4cb_id cb) (get_tci cb e)"
    using assms by (simp add: sm_pre_def sm_wf_def)
  show ?thesis using assms n
    by (cases ev) (auto simp: test_sm_SF_server_closing_def sm_wf_def Let_def intro!: sf_keeps
        intro: lists_hold_others)
qed

lemma SF_server_closed:
  assumes "sm_pre ev cb e" and "l4cb_test_state cb = TSTS_SRV_CLOSED"
  shows "keeps cb e (test_sm_SF_server_closed disp ev cb e)"
proof -
  have n: "lists_hold None (l4cb_id cb) (get_tci cb e)"
    using assms by (simp add: sm_pre_def sm_wf_def)
  show ?thesis using assms n
    by (cases ev) (auto simp: test_sm_SF_server_closed_def sm_wf_def Let_def intro!: sf_keeps
        intro: lists_hold_others)
qed

lemma SF_listen:
  assumes "sm_pre ev cb e" and "l4cb_test_state cb = TSTS_LISTEN"
  shows "keeps cb e (test_sm_SF_listen disp ev cb e)"
proof -
  have n: "lists_hold None (l4cb_id cb) (get_tci cb e)"
    using assms by (simp add: sm_pre_def sm_wf_def)
  show ?thesis using assms n
    by (cases ev) (auto simp: test_sm_SF_listen_def sm_wf_def Let_def intro!: sf_keeps
        intro: lists_hold_others)
qed

lemma function_array_keeps:
  assumes "sm_pre ev cb e"
  shows "keeps cb e (test_sm_function_array app (l4cb_test_state cb) disp ev cb e)"
  using SF_client_to_init [OF assms] SF_client_to_open [OF assms] SF_client_opening [OF assms]
    SF_client_open [OF assms] SF_client_sending [OF assms] SF_client_no_snd_win [OF assms]
    SF_client_to_close [OF assms] SF_client_closing [OF assms] SF_client_closed [OF assms]
    SF_purged [OF assms] SF_server_opening [OF assms] SF_server_open [OF assms]
    SF_server_sending [OF assms] SF_server_no_snd_win [OF assms] SF_server_closing [OF assms]
    SF_server_closed [OF assms] SF_listen [OF assms]
  by (cases "l4cb_test_state cb") (simp_all add: test_sm_function_array_def)

end

text \<open>Whatever its fuel, the dispatcher of the code meets the contract.\<close>

interpretation test_run: test_dispatcher "test_sm_run n app" for n app
proof (induction n)
  case 0
  show ?case by unfold_locales simp
next
  case (Suc n)
  show ?case by unfold_locales (simp add: test_dispatcher.function_array_keeps [OF Suc])
qed

subsection \<open>The state functions\<close>

lemmas test_sm_SF_defs =
  test_sm_SF_client_to_init_def test_sm_SF_client_to_open_def test_sm_SF_client_opening_def
  test_sm_SF_client_open_def test_sm_SF_client_sending_def test_sm_SF_client_no_snd_win_def
  test_sm_SF_client_to_close_def test_sm_SF_client_closing_def test_sm_SF_client_closed_def
  test_sm_SF_server_opening_def test_sm_SF_server_open_def test_sm_SF_server_sending_def
  test_sm_SF_server_no_snd_win_def test_sm_SF_server_closing_def test_sm_SF_server_closed_def
  test_sm_SF_listen_def test_sm_SF_purged_def

subsection \<open>The automaton of the sessions\<close>

text \<open>
  The transitions of the session states, without lists, timers or messages. The events that
  the code answers with \<open>assert(false)\<close> have no transition. \<open>ns\<close> are the notifications the
  application sends when it learns that the connection is up.
\<close>

fun sm_app :: "app_notif \<Rightarrow> test_sm_state \<Rightarrow> test_sm_state option" where
  "sm_app TEST_NOTIF_APP_SEND_START TSTS_CL_OPEN = Some TSTS_CL_SENDING"
| "sm_app TEST_NOTIF_APP_SEND_START TSTS_SRV_OPEN = Some TSTS_SRV_SENDING"
| "sm_app TEST_NOTIF_APP_SEND_STOP TSTS_CL_SENDING = Some TSTS_CL_OPEN"
| "sm_app TEST_NOTIF_APP_SEND_STOP TSTS_CL_NO_SND_WIN = Some TSTS_CL_OPEN"
| "sm_app TEST_NOTIF_APP_SEND_STOP TSTS_SRV_SENDING = Some TSTS_SRV_OPEN"
| "sm_app TEST_NOTIF_APP_SEND_STOP TSTS_SRV_NO_SND_WIN = Some TSTS_SRV_OPEN"
| "sm_app _ TSTS_CL_TO_CLOSE = Some TSTS_CL_TO_CLOSE"
| "sm_app _ TSTS_CL_CLOSING = Some TSTS_CL_CLOSING"
| "sm_app _ TSTS_SRV_CLOSING = Some TSTS_SRV_CLOSING"
| "sm_app _ _ = None"

fun sm_apps :: "app_notif list \<Rightarrow> test_sm_state \<Rightarrow> test_sm_state option" where
  "sm_apps [] st = Some st"
| "sm_apps (n # ns) st = Option.bind (sm_app n st) (sm_apps ns)"

definition sm_next ::
  "app_notif list \<Rightarrow> test_sm_state \<Rightarrow> test_sm_event \<Rightarrow> test_sm_state option" where
  "sm_next ns st ev =
     (case ev of
        TSTE_APP_SEND_START \<Rightarrow> sm_app TEST_NOTIF_APP_SEND_START st
      | TSTE_APP_SEND_STOP \<Rightarrow> sm_app TEST_NOTIF_APP_SEND_STOP st
      | TSTE_TMR_TO \<Rightarrow>
          (if st = TSTS_CL_TO_INIT \<or> st = TSTS_CL_CLOSED then Some TSTS_CL_TO_OPEN
           else if st \<in> {TSTS_CL_OPEN, TSTS_CL_SENDING, TSTS_CL_NO_SND_WIN} then Some TSTS_CL_TO_CLOSE
           else None)
      | TSTE_CONNECTING \<Rightarrow> (if st = TSTS_CL_TO_OPEN then Some TSTS_CL_OPENING else None)
      | TSTE_CONNECTED \<Rightarrow>
          (if st = TSTS_CL_TO_OPEN \<or> st = TSTS_CL_OPENING then sm_apps ns TSTS_CL_OPEN else None)
      | TSTE_CLOSING \<Rightarrow>
          (if st \<in> {TSTS_CL_OPENING, TSTS_CL_OPEN, TSTS_CL_SENDING, TSTS_CL_NO_SND_WIN,
                    TSTS_CL_TO_CLOSE} then Some TSTS_CL_CLOSING
           else if st \<in> {TSTS_SRV_OPEN, TSTS_SRV_SENDING, TSTS_SRV_NO_SND_WIN}
           then Some TSTS_SRV_CLOSING
           else if st = TSTS_PURGED then Some TSTS_PURGED else None)
      | TSTE_CLOSED \<Rightarrow>
          (if st = TSTS_CL_CLOSING then Some TSTS_CL_CLOSED
           else if st = TSTS_SRV_CLOSING then Some TSTS_SRV_CLOSED
           else if st = TSTS_PURGED then Some TSTS_PURGED else None)
      | TSTE_NO_SND_WIN \<Rightarrow>
          (if st = TSTS_CL_SENDING then Some TSTS_CL_NO_SND_WIN
           else if st = TSTS_SRV_SENDING then Some TSTS_SRV_NO_SND_WIN
           else if st \<in> {TSTS_CL_OPEN, TSTS_CL_TO_CLOSE, TSTS_SRV_OPEN} then Some st else None)
      | TSTE_SND_WIN \<Rightarrow>
          (if st = TSTS_CL_NO_SND_WIN then Some TSTS_CL_SENDING
           else if st = TSTS_SRV_NO_SND_WIN then Some TSTS_SRV_SENDING
           else if st \<in> {TSTS_CL_OPEN, TSTS_CL_SENDING, TSTS_CL_TO_CLOSE, TSTS_SRV_OPEN,
                         TSTS_SRV_SENDING} then Some st else None)
      | TSTE_PURGE \<Rightarrow>
          (if st \<in> {TSTS_CL_TO_CLOSE, TSTS_PURGED, TSTS_SRV_OPENING, TSTS_SRV_CLOSED} then None
           else Some TSTS_PURGED)
      | TSTE_ENTER_STATE \<Rightarrow> None)"

definition tmr_ok :: "('a, 'z) l4cb_scheme \<Rightarrow> 'y core_env_scheme \<Rightarrow> bool" where
  "tmr_ok cb e \<longleftrightarrow> (l4cb_on_test_tmr_list cb \<longrightarrow> TIMER_CANCEL (l4cb_id cb) (ce_test_wheel e) \<noteq> None)"

definition st_of :: "(('a, 'z) l4cb_scheme \<times> 'y core_env_scheme) option \<Rightarrow> test_sm_state option" where
  "st_of r = map_option (l4cb_test_state \<circ> fst) r"

lemma st_of_simps [simp]: "st_of None = None" "st_of (Some (cb, e)) = Some (l4cb_test_state cb)"
  by (simp_all add: st_of_def)

lemma rem_some:
  "lists_hold (Some To_Open) (l4cb_id cb) (get_tci cb e) \<Longrightarrow>
     \<exists>e'. TEST_CBQ_REM_TO_OPEN cb e = Some e' \<and> ce_test_wheel e' = ce_test_wheel e"
  "lists_hold (Some To_Close) (l4cb_id cb) (get_tci cb e) \<Longrightarrow>
     \<exists>e'. TEST_CBQ_REM_TO_CLOSE cb e = Some e' \<and> ce_test_wheel e' = ce_test_wheel e"
  "lists_hold (Some To_Send) (l4cb_id cb) (get_tci cb e) \<Longrightarrow>
     \<exists>e'. TEST_CBQ_REM_TO_SEND cb e = Some e' \<and> ce_test_wheel e' = ce_test_wheel e"
  "lists_hold (Some To_Init) (l4cb_id cb) (get_tci cb e) \<Longrightarrow>
     \<exists>e'. TEST_CBQ_REM_TO_INIT cb e = Some e' \<and> ce_test_wheel e' = ce_test_wheel e"
  "lists_hold (Some Closed_List) (l4cb_id cb) (get_tci cb e) \<Longrightarrow>
     \<exists>e'. TEST_CBQ_REM_CLOSED cb e = Some e' \<and> ce_test_wheel e' = ce_test_wheel e"
  "lists_hold (Some To_Close) (l4cb_id cb) (get_tci cb e) \<Longrightarrow> TEST_CBQ_REM_CLOSED cb e = None"
  unfolding cbq_rem_eqs lists_hold_def
  by (auto simp: count_list_0_iff [symmetric] upd_tci_def simp del: tos.simps)

text \<open>Entering a state that does not pass on to another one.\<close>

lemma st_of_enter:
  assumes "st \<noteq> TSTS_CL_TO_INIT" and "st \<noteq> TSTS_SRV_OPENING"
    and "st = TSTS_PURGED \<longrightarrow> tmr_ok cb e"
  shows "st_of (test_sm_enter_state (test_sm_run (Suc n) app) st cb e) = Some st"
  using assms
  by (cases st) (auto simp: test_sm_enter_state_def test_sm_function_array_def test_sm_SF_defs
      Let_def test_tmr_set_delay_def l4cb_timer_test_set_def test_tmr_cancel_if_set_def
      l4cb_timer_test_cancel_def tmr_ok_def split: prod.splits if_splits)

lemma st_of_app_event:
  assumes "sm_wf cb e"
  shows "st_of (test_sm_run (Suc (Suc n)) app (app_notif_event a) cb e) = sm_app a (l4cb_test_state cb)"
  using assms rem_some(3) [of cb e]
  by (cases a; cases "l4cb_test_state cb")
    (auto simp: test_sm_function_array_def test_sm_SF_defs sm_wf_def st_of_enter
      simp del: test_sm_run.simps simp: test_sm_run.simps(2) [of "Suc n"])

lemma st_of_app_notifs:
  assumes "sm_wf cb e"
  shows "st_of (test_app_notifs (test_sm_run (Suc (Suc n)) app) ns cb e) = sm_apps ns (l4cb_test_state cb)"
  using assms
proof (induction ns arbitrary: cb e)
  case (Cons a ns)
  have "sm_pre (app_notif_event a) cb e" using Cons.prems by (cases a) (simp_all add: sm_pre_def)
  from test_run.disp_keeps [OF this, of "Suc (Suc n)" app]
    st_of_app_event [OF Cons.prems, of n app a, symmetric]
  show ?case
    by (cases "test_sm_run (Suc (Suc n)) app (app_notif_event a) cb e")
      (auto simp: keeps_def Cons.IH simp del: test_sm_run.simps)
qed simp

lemma st_of_enter_conn_up:
  assumes "lists_hold None (l4cb_id cb) (get_tci cb e)"
    and "st = TSTS_CL_OPEN \<or> st = TSTS_SRV_OPEN"
  shows "st_of (do {
           (cb, e) \<leftarrow> test_sm_enter_state (test_sm_run (Suc (Suc n)) app) st cb e;
           test_app_conn_up app (test_sm_run (Suc (Suc n)) app) cb e }) =
         sm_apps (snd (app_conn_up app (l4cb_app_data cb))) st"
proof -
  let ?cb = "cb\<lparr>l4cb_test_state := st\<rparr>"
  have "test_sm_enter_state (test_sm_run (Suc (Suc n)) app) st cb e = Some (?cb, e)"
    using assms(2)
    by (auto simp: test_sm_enter_state_def test_sm_function_array_def test_sm_SF_defs)
  moreover have "sm_wf (?cb\<lparr>l4cb_app_data := d\<rparr>) e" for d
    using assms by (auto simp: sm_wf_def)
  ultimately show ?thesis
    by (auto simp: test_app_conn_up_def st_of_app_notifs simp del: test_sm_run.simps split: prod.splits)
qed

lemma st_of_tmr_enter_conn_up:
  assumes "lists_hold None (l4cb_id cb) (get_tci cb e)"
  shows "st_of (do {
           (cb, e) \<leftarrow> (if has_d_value d then test_tmr_set_delay d cb e else Some (cb, e));
           (cb, e) \<leftarrow> test_sm_enter_state (test_sm_run (Suc (Suc n)) app) TSTS_CL_OPEN cb e;
           test_app_conn_up app (test_sm_run (Suc (Suc n)) app) cb e }) =
         sm_apps (snd (app_conn_up app (l4cb_app_data cb))) TSTS_CL_OPEN"
proof -
  obtain cb1 e1 where
    1: "(if has_d_value d then test_tmr_set_delay d cb e else Some (cb, e)) = Some (cb1, e1)"
    by (cases "has_d_value d"; cases "snd (l4cb_timer_test_set (d_value d * 1000000) cb e)")
      (auto simp: test_tmr_set_delay_def)
  then have p: "sm_post cb e cb1 e1" "ce_tci e1 = ce_tci e"
    by (auto split: if_splits dest: tmr_set_ok)
  have d: "l4cb_app_data cb1 = l4cb_app_data cb" using 1
    by (auto simp: test_tmr_set_delay_def l4cb_timer_test_set_def Let_def
        split: if_splits prod.splits)
  have "lists_hold None (l4cb_id cb1) (get_tci cb1 e1)"
    using assms p by (simp add: get_tci_def sm_post_def same_cb_def)
  from st_of_enter_conn_up [OF this, of TSTS_CL_OPEN n app] d 1 show ?thesis by simp
qed

lemma tmr_ok_cancel:
  "tmr_ok cb e \<Longrightarrow> \<exists>cb' e'. test_tmr_cancel_if_set cb e = Some (cb', e') \<and> \<not> l4cb_on_test_tmr_list cb'"
  by (auto simp: tmr_ok_def test_tmr_cancel_if_set_def l4cb_timer_test_cancel_def)

lemma st_of_cancel_enter:
  assumes "tmr_ok cb e" and "st = TSTS_CL_CLOSING \<or> st = TSTS_SRV_CLOSING"
  shows "st_of (do {
           (cb, e) \<leftarrow> test_tmr_cancel_if_set cb e;
           test_sm_enter_state (test_sm_run (Suc n) app) st (test_app_conn_down app cb) e }) = Some st"
proof -
  from tmr_ok_cancel [OF assms(1)] obtain cb1 e1 where "test_tmr_cancel_if_set cb e = Some (cb1, e1)"
    by blast
  then show ?thesis using assms(2) by (auto simp: st_of_enter)
qed

lemma st_of_cancel_rem_enter:
  assumes "tmr_ok cb e" and "lists_hold (Some To_Send) (l4cb_id cb) (get_tci cb e)"
  shows "st_of (do {
           (cb, e) \<leftarrow> test_tmr_cancel_if_set cb e;
           e \<leftarrow> TEST_CBQ_REM_TO_SEND cb e;
           test_sm_enter_state (test_sm_run (Suc n) app) TSTS_CL_CLOSING (test_app_conn_down app cb) e })
         = Some TSTS_CL_CLOSING"
proof -
  from tmr_ok_cancel [OF assms(1)] obtain cb1 e1 where 1: "test_tmr_cancel_if_set cb e = Some (cb1, e1)"
    by blast
  from tmr_cancel_ok [OF 1] assms(2) have "lists_hold (Some To_Send) (l4cb_id cb1) (get_tci cb1 e1)"
    by (simp add: get_tci_def sm_post_def same_cb_def)
  from rem_some(3) [OF this] 1 show ?thesis by (auto simp: st_of_enter)
qed

lemma tmr_ok_rem:
  "tmr_ok cb e \<Longrightarrow> ce_test_wheel e' = ce_test_wheel e \<Longrightarrow> tmr_ok cb e'"
  by (simp add: tmr_ok_def)

lemma dispatch_refines:
  assumes wf: "sm_wf cb e" and tmr: "tmr_ok cb e" and ev: "ev \<noteq> TSTE_ENTER_STATE"
  shows "st_of (test_sm_dispatch_event app ev cb e) =
           sm_next (snd (app_conn_up app (l4cb_app_data cb))) (l4cb_test_state cb) ev"
proof -
  have l: "lists_hold (on_list (l4cb_test_state cb)) (l4cb_id cb) (get_tci cb e)"
    using wf by (simp add: sm_wf_def)
  have after_rem: "lists_hold None (l4cb_id cb) (get_tci cb e')"
    if "TEST_CBQ_REM_TO_OPEN cb e = Some e'" "l4cb_test_state cb = TSTS_CL_TO_OPEN" for e'
    using rem_ok(1) [OF that(1)] l that(2) by simp
  note u = test_sm_run.simps(2) [of "Suc (Suc 0)"]
  show ?thesis
    unfolding test_sm_dispatch_event_def numeral_3_eq_3 u
    using l tmr ev rem_some [of cb e] after_rem
    by (cases "l4cb_test_state cb"; cases ev)
      (auto simp: test_sm_function_array_def test_sm_SF_defs Let_def sm_next_def st_of_enter
        st_of_cancel_enter st_of_cancel_rem_enter st_of_tmr_enter_conn_up tmr_ok_rem
        simp del: test_sm_run.simps split del: if_split)
qed

end
