(* ===== verification/Toeplitz.thy ===== *)
theory Toeplitz
  imports Prelude
begin

unbundle bit_operations_syntax

text \<open>
  The Toeplitz hash that spreads the packets over the cores and selects the bucket of a session:
  the table of partial hashes built from the key (\<^verbatim>\<open>3rdparty/toeplitz.c\<close>) and the two hash functions
  over it (\<^verbatim>\<open>3rdparty/toeplitz2.h\<close>), for addresses in network and in host order. They are proved equal up
  to the byte order, and equal to the bitwise definition of the hash that the network
  hardware computes.
\<close>

subsection \<open>The code\<close>

text \<open>
  Byte \<open>n\<close> of the key. The table has a row per byte of the key, and the code reads up to four
  bytes past the byte of a row: the last rows read past the end of the key. These rows are not used by
  the hashes below; the model takes 0 there.
\<close>

definition key_str :: "u8 list \<Rightarrow> nat \<Rightarrow> u8" where
  "key_str key n = (if n < length key then key ! n else 0)"

text \<open>The 32 bits of the key from bit \<open>n\<close> on, the first one the most significant.\<close>

definition toeplitz_key32 :: "u8 list \<Rightarrow> nat \<Rightarrow> u32" where
  "toeplitz_key32 key n =
     fold (\<lambda>j r. if bit (key_str key ((n + j) div 8)) (8 - (n + j) mod 8 - 1)
                 then r OR push_bit (31 - j) 1 else r) [0..<32] 0"

type_synonym toeplitz_cache = "nat \<Rightarrow> u8 \<Rightarrow> u32"

definition toeplitz_cache_create :: "u8 list \<Rightarrow> toeplitz_cache" where
  "toeplitz_cache_create key i val =
     fold (\<lambda>b res. if bit val (8 - b - 1) then res XOR toeplitz_key32 key (i * 8 + b) else res) [0..<8] 0"

definition octet :: "nat \<Rightarrow> 'a::len word \<Rightarrow> u8" where
  "octet n x = ucast (drop_bit n x AND 0xff)"

definition toeplitz_rawhash_addrport :: "toeplitz_cache \<Rightarrow> u32 \<Rightarrow> u32 \<Rightarrow> u16 \<Rightarrow> u16 \<Rightarrow> u32" where
  "toeplitz_rawhash_addrport cache faddr laddr fport lport =
     cache 0 (octet 0 faddr) XOR cache 1 (octet 8 faddr) XOR
     cache 2 (octet 16 faddr) XOR cache 3 (octet 24 faddr) XOR
     cache 4 (octet 0 laddr) XOR cache 5 (octet 8 laddr) XOR
     cache 6 (octet 16 laddr) XOR cache 7 (octet 24 laddr) XOR
     cache 8 (octet 0 fport) XOR cache 9 (octet 8 fport) XOR
     cache 10 (octet 0 lport) XOR cache 11 (octet 8 lport)"

definition toeplitz_cpuhash_addrport :: "toeplitz_cache \<Rightarrow> u32 \<Rightarrow> u32 \<Rightarrow> u16 \<Rightarrow> u16 \<Rightarrow> u32" where
  "toeplitz_cpuhash_addrport cache faddr laddr fport lport =
     cache 3 (octet 0 faddr) XOR cache 2 (octet 8 faddr) XOR
     cache 1 (octet 16 faddr) XOR cache 0 (octet 24 faddr) XOR
     cache 7 (octet 0 laddr) XOR cache 6 (octet 8 laddr) XOR
     cache 5 (octet 16 laddr) XOR cache 4 (octet 24 laddr) XOR
     cache 9 (octet 0 fport) XOR cache 8 (octet 8 fport) XOR
     cache 11 (octet 0 lport) XOR cache 10 (octet 8 lport)"

text \<open>The byte order of the packet, on a little endian machine.\<close>

definition rte_cpu_to_be_16 :: "u16 \<Rightarrow> u16" where
  "rte_cpu_to_be_16 x = push_bit 8 (x AND 0xff) OR (drop_bit 8 x AND 0xff)"

definition rte_cpu_to_be_32 :: "u32 \<Rightarrow> u32" where
  "rte_cpu_to_be_32 x =
     push_bit 24 (x AND 0xff) OR push_bit 8 (x AND 0xff00) OR
     (drop_bit 8 x AND 0xff00) OR (drop_bit 24 x AND 0xff)"

subsection \<open>The hash, bit by bit\<close>

text \<open>For every bit of the input that is set, the 32 bits of the key at its position.\<close>

definition toeplitz_hash :: "u8 list \<Rightarrow> u8 list \<Rightarrow> u32" where
  "toeplitz_hash key bs =
     fold (\<lambda>n r. if bit (bs ! (n div 8)) (7 - n mod 8) then r XOR toeplitz_key32 key n else r)
       [0..<8 * length bs] 0"

text \<open>The bytes of a number as they are on the wire.\<close>

definition be_bytes_16 :: "u16 \<Rightarrow> u8 list" where
  "be_bytes_16 x = [octet 8 x, octet 0 x]"

definition be_bytes_32 :: "u32 \<Rightarrow> u8 list" where
  "be_bytes_32 x = [octet 24 x, octet 16 x, octet 8 x, octet 0 x]"

subsection \<open>Lemmas\<close>

lemma fold_xor:
  "fold (\<lambda>x r. if P x then r XOR g x else r) xs (r0 :: u32) =
     r0 XOR fold (\<lambda>x r. if P x then r XOR g x else r) xs 0"
proof (induction xs arbitrary: r0)
  case (Cons x xs)
  show ?case
    using Cons [of "r0 XOR g x"] Cons [of r0] Cons [of "g x"] by (simp add: xor.assoc)
qed simp

lemma hash_step:
  "fold (\<lambda>n r. if bit (bs ! (n div 8)) (7 - n mod 8) then r XOR toeplitz_key32 key n else r)
     [8 * i..<8 * i + 8] (r :: u32) = r XOR toeplitz_cache_create key i (bs ! i)"
proof -
  have u: "[8 * i..<8 * i + 8] = map (\<lambda>b. 8 * i + b) [0..<8]"
    by (simp add: map_add_upt [where n = "8 * i" and m = 8, symmetric] add.commute)
  have "fold (\<lambda>n r. if bit (bs ! (n div 8)) (7 - n mod 8) then r XOR toeplitz_key32 key n else r)
     (map (\<lambda>b. 8 * i + b) [0..<8]) r =
     fold (\<lambda>b r. if bit (bs ! i) (8 - b - 1) then r XOR toeplitz_key32 key (i * 8 + b) else r) [0..<8] r"
    unfolding fold_map comp_def
    by (rule fold_cong) (auto simp: mult.commute)
  then show ?thesis
    unfolding u toeplitz_cache_create_def by (simp only: fold_xor [of _ _ _ r])
qed

text \<open>The table is a byte-wise evaluation of the hash.\<close>

lemma toeplitz_hash_rows:
  assumes "n \<le> length bs"
  shows "fold (\<lambda>n r. if bit (bs ! (n div 8)) (7 - n mod 8) then r XOR toeplitz_key32 key n else r)
           [0..<8 * n] 0 = fold (\<lambda>i r. r XOR toeplitz_cache_create key i (bs ! i)) [0..<n] 0"
  using assms
proof (induction n)
  case (Suc n)
  have "[0..<8 * Suc n] = [0..<8 * n] @ [8 * n..<8 * n + 8]"
    using upt_add_eq_append [of 0 "8 * n" 8] by (simp add: add.commute)
  with Suc show ?case by (simp only: fold_append comp_apply hash_step upt_Suc) simp
qed simp

lemma octet_bits: "bit (0xff :: int) n \<longleftrightarrow> n < 8" "bit (0xff00 :: int) n \<longleftrightarrow> 8 \<le> n \<and> n < 16"
proof -
  have m: "(0xff :: int) = mask 8" by (simp add: mask_eq_exp_minus_1)
  show "bit (0xff :: int) n \<longleftrightarrow> n < 8"
    by (auto simp: m bit_simps)
  have e: "(0xff00 :: int) = push_bit 8 (mask 8)" by (simp add: push_bit_eq_mult mask_eq_exp_minus_1)
  show "bit (0xff00 :: int) n \<longleftrightarrow> 8 \<le> n \<and> n < 16"
    unfolding e by (auto simp: bit_simps)
qed

lemma octet_bswap [simp]:
  "octet 0 (rte_cpu_to_be_32 x) = octet 24 x" "octet 8 (rte_cpu_to_be_32 x) = octet 16 x"
  "octet 16 (rte_cpu_to_be_32 x) = octet 8 x" "octet 24 (rte_cpu_to_be_32 x) = octet 0 x"
  "octet 0 (rte_cpu_to_be_16 y) = octet 8 y" "octet 8 (rte_cpu_to_be_16 y) = octet 0 y"
proof -
  show "octet 0 (rte_cpu_to_be_32 x) = octet 24 x" "octet 8 (rte_cpu_to_be_32 x) = octet 16 x"
    "octet 16 (rte_cpu_to_be_32 x) = octet 8 x" "octet 24 (rte_cpu_to_be_32 x) = octet 0 x"
    unfolding octet_def rte_cpu_to_be_32_def
    by (rule bit_word_eqI; auto simp: bit_simps octet_bits)+
  show "octet 0 (rte_cpu_to_be_16 y) = octet 8 y" "octet 8 (rte_cpu_to_be_16 y) = octet 0 y"
    unfolding octet_def rte_cpu_to_be_16_def
    by (rule bit_word_eqI; auto simp: bit_simps octet_bits)+
qed

subsection \<open>Initialisation\<close>

definition toeplitz_keyseeds :: "u8 list" where
  "toeplitz_keyseeds =
     [0x6d, 0x5a, 0x56, 0xda, 0x25, 0x5b, 0x0e, 0xc2, 0x41, 0x67, 0x25, 0x3d, 0x43, 0xa3, 0x8f, 0xb0,
      0xd0, 0xca, 0x2b, 0xcb, 0xae, 0x7b, 0x30, 0xb4, 0x77, 0xcb, 0x2d, 0xa3, 0x80, 0x30, 0xf2, 0x0c,
      0x6a, 0x42, 0xb7, 0x3b, 0xbe, 0xac, 0x01, 0xfa]"

definition toeplitz_init :: "u8 list \<Rightarrow> toeplitz_cache" where
  "toeplitz_init key_in =
     toeplitz_cache_create
       (if length key_in < length toeplitz_keyseeds then toeplitz_keyseeds
        else take (length toeplitz_keyseeds) key_in)"

definition port_rss_key :: "u8 list" where
  "port_rss_key =
     [0x6d, 0x5a, 0x56, 0xda, 0x25, 0x5b, 0x0e, 0xc2, 0x41, 0x67, 0x25, 0x3d, 0x43, 0xa3, 0x8f, 0xb0,
      0xd0, 0xca, 0x2b, 0xcb, 0xae, 0x7b, 0x30, 0xb4, 0x77, 0xcb, 0x2d, 0xa3, 0x80, 0x30, 0xf2, 0x0c,
      0x6a, 0x42, 0xb7, 0x3b, 0xbe, 0xac, 0x01, 0xfa,
      0x6d, 0x5a, 0x56, 0xda, 0x25, 0x5b, 0x0e, 0xc2, 0x41, 0x67, 0x25, 0x3d, 0x43, 0xa3, 0x8f, 0xb0,
      0xd0, 0xca, 0x2b, 0xcb, 0xae, 0x7b, 0x30, 0xb4, 0x77, 0xcb, 0x2d, 0xa3, 0x80, 0x30, 0xf2, 0x0c,
      0x6a, 0x42, 0xb7, 0x3b, 0xbe, 0xac, 0x01, 0xfa]"

subsection \<open>Properties\<close>

text \<open>
  C20: The two hash functions compute the Toeplitz hash of the addresses and ports as they are on the
  wire: the one in host order of the numbers, the one in network order of the numbers in the byte
  order of the packet. So the hash of a connection, computed in host order when it is opened, is the
  hash of the packets that come back.
\<close>

theorem toeplitz_hash_bytewise:
  "toeplitz_cpuhash_addrport (toeplitz_cache_create key) a b p q =
     toeplitz_hash key (be_bytes_32 a @ be_bytes_32 b @ be_bytes_16 p @ be_bytes_16 q) \<and>
   toeplitz_rawhash_addrport (toeplitz_cache_create key) (rte_cpu_to_be_32 a) (rte_cpu_to_be_32 b)
       (rte_cpu_to_be_16 p) (rte_cpu_to_be_16 q) =
     toeplitz_hash key (be_bytes_32 a @ be_bytes_32 b @ be_bytes_16 p @ be_bytes_16 q)"
proof -
  let ?bs = "be_bytes_32 a @ be_bytes_32 b @ be_bytes_16 p @ be_bytes_16 q"
  have l: "length ?bs = 12" by (simp add: be_bytes_32_def be_bytes_16_def)
  have upt: "[0..<12] = [0, 1, 2, 3, 4, 5, 6, 7, 8, 9, 10, 11 :: nat]" by (simp add: upt_rec)
  have "toeplitz_hash key ?bs = fold (\<lambda>i r. r XOR toeplitz_cache_create key i (?bs ! i)) [0..<12] 0"
    unfolding toeplitz_hash_def l by (rule toeplitz_hash_rows) (simp only: l)
  also have "\<dots> = toeplitz_cpuhash_addrport (toeplitz_cache_create key) a b p q"
    unfolding upt
    by (simp add: be_bytes_32_def be_bytes_16_def toeplitz_cpuhash_addrport_def xor.left_commute
        xor.commute)
  finally have "toeplitz_hash key ?bs = toeplitz_cpuhash_addrport (toeplitz_cache_create key) a b p q" .
  moreover have "toeplitz_rawhash_addrport c (rte_cpu_to_be_32 a) (rte_cpu_to_be_32 b)
      (rte_cpu_to_be_16 p) (rte_cpu_to_be_16 q) = toeplitz_cpuhash_addrport c a b p q" for c
    by (simp add: toeplitz_rawhash_addrport_def toeplitz_cpuhash_addrport_def xor.left_commute xor.commute)
  ultimately show ?thesis by simp
qed

text \<open>
  With the key of the ports, the hash of the first vector of the RSS verification suite
  (66.9.149.187:2794 to 161.142.100.80:1766) is the published value.
\<close>

lemma toeplitz_known_answer:
  "toeplitz_cpuhash_addrport (toeplitz_init port_rss_key) 0x420995bb 0xa18e6450 2794 1766 = 0x51ccc178"
  by code_simp

end
