(* ===== verification/TcpTypes.thy ===== *)
theory TcpTypes
  imports Toeplitz SeqNum Mbuf TestSM
begin

text \<open>
  The TCP control block, the packet control block, the per-core state of the TCP stack and the
  operations on its shared structures: \<^verbatim>\<open>inc/tpg_tcp.h\<close>, \<^verbatim>\<open>inc/tpg_tcp_sm.h\<close>, \<^verbatim>\<open>inc/tpg_pcb.h\<close>, the
  statistics of \<^verbatim>\<open>api/warp17-stats.proto\<close>, the retransmission and slow timers of
  \<^verbatim>\<open>src/tpg_timer.c\<close>, and the hash table and pool of \<^verbatim>\<open>src/tpg_lookup.c\<close> and
  \<^verbatim>\<open>src/tpg_tcp_lookup.c\<close>.

  Header fields are in host order. The bookkeeping for traces is left out. A transmission
  takes its outcome from the environment: sent, no header could be built
  (no route or no buffer), or refused by the port.
\<close>

datatype tcp_state =
    TS_INIT | TS_LISTEN | TS_SYN_SENT | TS_SYN_RECV | TS_ESTABLISHED | TS_FIN_WAIT_I
  | TS_FIN_WAIT_II | TS_LAST_ACK | TS_CLOSING | TS_TIME_WAIT | TS_CLOSE_WAIT | TS_CLOSED

datatype tcp_event =
    TE_ENTER_STATE
  | TE_OPEN | TE_SEND | TE_RECEIVE | TE_CLOSE | TE_ABORT | TE_STATUS
  | TE_SEGMENT_ARRIVES
  | TE_USER_TIMEOUT | TE_RETRANSMISSION_TIMEOUT | TE_ORPHAN_TIMEOUT | TE_FIN_TIMEOUT
  | TE_TIME_WAIT_TIMEOUT

record tcb_buf_hdr =
  tbh_mbuf :: chain
  tbh_tstamp :: u64
  tbh_seg_seq :: u32

text \<open>
  \<open>tcp_control_block_t\<close> with \<open>tcb_snd\<close>, \<open>tcb_rcv\<close> and \<open>tcb_retrans\<close> flattened.
  \<open>tr_last_mbuf\<close> always points to the last buffer of the chain; whether it is set is all that is kept.
\<close>

record 'a tcb = "'a l4cb" +
  tcb_state :: tcp_state
  snd_una :: u32
  snd_nxt :: u32
  snd_wnd :: u32
  snd_uo :: u32
  snd_wl1 :: u32
  snd_wl2 :: u32
  snd_iss :: u32
  rcv_nxt :: u32
  rcv_wnd :: u32
  rcv_up :: u32
  rcv_irs :: u32
  tr_data_mbufs :: chain
  tr_last_set :: bool
  tr_total_size :: u32
  tcb_rcv_buf :: "tcb_buf_hdr list"
  tcb_active :: bool
  tcb_consume_all_data :: bool
  tcb_malloced :: bool
  tcb_on_slow_list :: bool
  tcb_on_rto_list :: bool
  tcb_retrans_cnt :: u8
  tcb_fin_rcvd :: bool
  tcb_rst_rcvd :: bool
  tcb_rcv_fin_seq :: u32

text \<open>The TCP header flags.\<close>

definition RTE_TCP_FIN_FLAG :: u32 where "RTE_TCP_FIN_FLAG = 0x01"
definition RTE_TCP_SYN_FLAG :: u32 where "RTE_TCP_SYN_FLAG = 0x02"
definition RTE_TCP_RST_FLAG :: u32 where "RTE_TCP_RST_FLAG = 0x04"
definition RTE_TCP_PSH_FLAG :: u32 where "RTE_TCP_PSH_FLAG = 0x08"
definition RTE_TCP_ACK_FLAG :: u32 where "RTE_TCP_ACK_FLAG = 0x10"
definition RTE_TCP_URG_FLAG :: u32 where "RTE_TCP_URG_FLAG = 0x20"
definition TCP_BUILD_FLAG_MASK :: u32 where "TCP_BUILD_FLAG_MASK = 0xffff"
definition TCP_BUILD_FLAG_USE_ISS :: u32 where "TCP_BUILD_FLAG_USE_ISS = 0x10000"

lemmas tcp_flag_defs = RTE_TCP_FIN_FLAG_def RTE_TCP_SYN_FLAG_def RTE_TCP_RST_FLAG_def
  RTE_TCP_PSH_FLAG_def RTE_TCP_ACK_FLAG_def RTE_TCP_URG_FLAG_def TCP_BUILD_FLAG_MASK_def
  TCP_BUILD_FLAG_USE_ISS_def

record tcp_hdr =
  th_src_port :: u16
  th_dst_port :: u16
  th_sent_seq :: u32
  th_recv_ack :: u32
  th_data_off :: u8
  th_flags :: u8
  th_rx_win :: u16
  th_urp :: u16

definition TCP_IS_FLAG_SET :: "tcp_hdr \<Rightarrow> u32 \<Rightarrow> bool" where
  "TCP_IS_FLAG_SET hdr flag \<longleftrightarrow> (ucast (th_flags hdr) AND flag) \<noteq> 0"

record pcb =
  pcb_port :: u16
  pcb_hash :: u32
  pcb_mbuf :: chain
  pcb_mbuf_stored :: bool
  pcb_tcp :: tcp_hdr
  pcb_src_addr :: u32
  pcb_dst_addr :: u32
  pcb_l4_len :: u16
  pcb_l5_len :: u16
  pcb_tstamp :: u64
  pcb_sockopt :: "sockopt option"

record tsm_data_arg =
  tda_mbuf :: chain
  tda_data_len :: u32
  tda_push :: bool
  tda_urg :: bool

text \<open>The \<open>void *tsm_arg\<close>: nothing, the current packet, or the data to send.\<close>

datatype tsm_arg = NoArg | PcbArg | DataArg tsm_data_arg

subsection \<open>The state of a core\<close>

record tcp_stats =
  ts_received_pkts :: u64
  ts_received_bytes :: u64
  ts_sent_ctrl_pkts :: u64
  ts_sent_ctrl_bytes :: u64
  ts_sent_data_pkts :: u64
  ts_sent_data_bytes :: u64
  ts_tcb_malloced :: u64
  ts_tcb_freed :: u64
  ts_tcb_not_found :: u64
  ts_tcb_alloc_err :: u64
  ts_to_small_fragment :: u32
  ts_hdr_to_small :: u32
  ts_invalid_checksum :: u32
  ts_failed_ctrl_pkts :: u32
  ts_failed_data_pkts :: u32
  ts_failed_data_clone :: u32
  ts_reserved_bit_set :: u32
  ts_sent_syn :: u32
  ts_recv_syn :: u32
  ts_sent_fin :: u32
  ts_recv_fin :: u32
  ts_sent_rst :: u32
  ts_recv_rst :: u32

record tsm_stats =
  tsms_tcb_states :: "tcp_state \<Rightarrow> u32"
  tsms_syn_to :: u32
  tsms_synack_to :: u32
  tsms_retry_to :: u32
  tsms_retrans_bytes :: u64
  tsms_missing_seq :: u32
  tsms_snd_win_full :: u32

datatype tx_outcome = TxOk | TxNoHdr | TxFailed

record tx_pkt =
  tx_port :: u16
  tx_src_addr :: u32
  tx_dst_addr :: u32
  tx_src_port :: u16
  tx_dst_port :: u16
  tx_seq :: u32
  tx_ack :: u32
  tx_flags :: u8
  tx_wnd :: u16
  tx_data :: "u8 list"

record 'a env = core_env +
  e_tcbs :: "cb_id \<Rightarrow> 'a tcb"
  e_pool :: "cb_id list"
  e_htable :: "u16 \<Rightarrow> u32 \<Rightarrow> cb_id list"
  e_slow_wheel :: "cb_id tmr_wheel"
  e_rto_wheel :: "cb_id tmr_wheel"
  e_tcp_stats :: "u16 \<Rightarrow> tcp_stats"
  e_tsm_stats :: "u16 \<Rightarrow> tsm_stats"
  e_pi_mtu :: "u16 \<Rightarrow> u16"
  e_tx :: "tx_pkt list"
  e_tx_outcomes :: "tx_outcome list"
  e_alloc_outcomes :: "bool list"
  e_pcb :: pcb
  e_data_sent :: u32

text \<open>The DPDK function on buffers, the application with its data in a zeroed block, and the table
  \<open>toeplitz_cache\<close> that is computed once at the start.\<close>

record 'a prm =
  p_adj :: pktmbuf_adj
  p_app :: "'a app_ops"
  p_app_zero :: 'a
  p_toeplitz :: toeplitz_cache

definition upd_tcp_stats :: "u16 \<Rightarrow> (tcp_stats \<Rightarrow> tcp_stats) \<Rightarrow> 'a env \<Rightarrow> 'a env" where
  "upd_tcp_stats p f e = e\<lparr>e_tcp_stats := (e_tcp_stats e)(p := f (e_tcp_stats e p))\<rparr>"

definition upd_tsm_stats :: "u16 \<Rightarrow> (tsm_stats \<Rightarrow> tsm_stats) \<Rightarrow> 'a env \<Rightarrow> 'a env" where
  "upd_tsm_stats p f e = e\<lparr>e_tsm_stats := (e_tsm_stats e)(p := f (e_tsm_stats e p))\<rparr>"

text \<open>\<open>TCP_NOTIF\<close>.\<close>

definition TCP_NOTIF :: "'a prm \<Rightarrow> test_notif \<Rightarrow> 'a tcb \<Rightarrow> 'a env \<Rightarrow> ('a tcb \<times> 'a env) option" where
  "TCP_NOTIF P n t e = test_notification (p_app P) n t e"

definition tcp_snd_win_full :: "'a tcb \<Rightarrow> bool" where
  "tcp_snd_win_full t \<longleftrightarrow> SEG_EQ (snd_wnd t) (SEG_DIFF (snd_nxt t) (snd_una t))"

subsection \<open>Retransmission and slow timers\<close>

definition tcp_timer_rto_set :: "u32 \<Rightarrow> 'a tcb \<Rightarrow> 'a env \<Rightarrow> int \<times> 'a tcb \<times> 'a env" where
  "tcp_timer_rto_set timeout_us t e =
     (if tcb_on_rto_list t
      then (- EINVAL, t, upd_timer_stats (l4cb_interface t)
              (\<lambda>s. s\<lparr>tts_l4cb_invalid_flags := tts_l4cb_invalid_flags s + 1\<rparr>) e)
      else
        let (status, w) = TIMER_SET (ce_cycles_per_us e) (ce_now e) (l4cb_id t) timeout_us
                            (e_rto_wheel e)
        in if status = 0
           then (0, t\<lparr>tcb_on_rto_list := True\<rparr>,
                 upd_timer_stats (l4cb_interface t) (\<lambda>s. s\<lparr>tts_rto_set := tts_rto_set s + 1\<rparr>)
                   (e\<lparr>e_rto_wheel := w\<rparr>))
           else (status, t,
                 upd_timer_stats (l4cb_interface t)
                   (\<lambda>s. s\<lparr>tts_rto_failed := tts_rto_failed s + 1\<rparr>)
                   (upd_timer_stats 0
                      (\<lambda>s. s\<lparr>tts_timeout_overflow := tts_timeout_overflow s + 1\<rparr>) e)))"

definition tcp_timer_rto_cancel :: "'a tcb \<Rightarrow> 'a env \<Rightarrow> (int \<times> 'a tcb \<times> 'a env) option" where
  "tcp_timer_rto_cancel t e =
     (if \<not> tcb_on_rto_list t
      then Some (- EINVAL, t, upd_timer_stats (l4cb_interface t)
                   (\<lambda>s. s\<lparr>tts_l4cb_invalid_flags := tts_l4cb_invalid_flags s + 1\<rparr>) e)
      else
        map_option
          (\<lambda>w. (0, t\<lparr>tcb_on_rto_list := False\<rparr>,
                upd_timer_stats (l4cb_interface t)
                  (\<lambda>s. s\<lparr>tts_rto_cancelled := tts_rto_cancelled s + 1\<rparr>)
                  (e\<lparr>e_rto_wheel := w\<rparr>)))
          (TIMER_CANCEL (l4cb_id t) (e_rto_wheel e)))"

definition tcp_timer_slow_set :: "u32 \<Rightarrow> 'a tcb \<Rightarrow> 'a env \<Rightarrow> int \<times> 'a tcb \<times> 'a env" where
  "tcp_timer_slow_set timeout_us t e =
     (if tcb_on_slow_list t
      then (- EINVAL, t, upd_timer_stats (l4cb_interface t)
              (\<lambda>s. s\<lparr>tts_l4cb_invalid_flags := tts_l4cb_invalid_flags s + 1\<rparr>) e)
      else
        let (status, w) = TIMER_SET (ce_cycles_per_us e) (ce_now e) (l4cb_id t) timeout_us
                            (e_slow_wheel e)
        in if status = 0
           then (0, t\<lparr>tcb_on_slow_list := True\<rparr>,
                 upd_timer_stats (l4cb_interface t) (\<lambda>s. s\<lparr>tts_slow_set := tts_slow_set s + 1\<rparr>)
                   (e\<lparr>e_slow_wheel := w\<rparr>))
           else (status, t,
                 upd_timer_stats (l4cb_interface t)
                   (\<lambda>s. s\<lparr>tts_slow_failed := tts_slow_failed s + 1\<rparr>)
                   (upd_timer_stats 0
                      (\<lambda>s. s\<lparr>tts_timeout_overflow := tts_timeout_overflow s + 1\<rparr>) e)))"

definition tcp_timer_slow_cancel :: "'a tcb \<Rightarrow> 'a env \<Rightarrow> (int \<times> 'a tcb \<times> 'a env) option" where
  "tcp_timer_slow_cancel t e =
     (if \<not> tcb_on_slow_list t
      then Some (- EINVAL, t, upd_timer_stats (l4cb_interface t)
                   (\<lambda>s. s\<lparr>tts_l4cb_invalid_flags := tts_l4cb_invalid_flags s + 1\<rparr>) e)
      else
        map_option
          (\<lambda>w. (0, t\<lparr>tcb_on_slow_list := False\<rparr>,
                upd_timer_stats (l4cb_interface t)
                  (\<lambda>s. s\<lparr>tts_slow_cancelled := tts_slow_cancelled s + 1\<rparr>)
                  (e\<lparr>e_slow_wheel := w\<rparr>)))
          (TIMER_CANCEL (l4cb_id t) (e_slow_wheel e)))"

text \<open>Every call in the state machine drops the status.\<close>

definition rto_cancel :: "'a tcb \<Rightarrow> 'a env \<Rightarrow> ('a tcb \<times> 'a env) option" where
  "rto_cancel t e = map_option snd (tcp_timer_rto_cancel t e)"

definition slow_cancel :: "'a tcb \<Rightarrow> 'a env \<Rightarrow> ('a tcb \<times> 'a env) option" where
  "slow_cancel t e = map_option snd (tcp_timer_slow_cancel t e)"

definition rto_cancel_if_set :: "'a tcb \<Rightarrow> 'a env \<Rightarrow> ('a tcb \<times> 'a env) option" where
  "rto_cancel_if_set t e = (if tcb_on_rto_list t then rto_cancel t e else Some (t, e))"

definition slow_cancel_if_set :: "'a tcb \<Rightarrow> 'a env \<Rightarrow> ('a tcb \<times> 'a env) option" where
  "slow_cancel_if_set t e = (if tcb_on_slow_list t then slow_cancel t e else Some (t, e))"

subsection \<open>Sessions: the pool and the hash table\<close>

definition TPG_HASH_MOD :: "u32 \<Rightarrow> u32" where
  "TPG_HASH_MOD hash = (drop_bit 20 hash XOR hash) AND 0xfffff"

definition tlkp_find_match :: "u32 \<Rightarrow> u32 \<Rightarrow> u32 \<Rightarrow> u16 \<Rightarrow> u16 \<Rightarrow> ('a, 'z) l4cb_scheme \<Rightarrow> bool" where
  "tlkp_find_match l4_hash local_addr remote_addr local_port remote_port cb \<longleftrightarrow>
     l4_hash = l4cb_rx_hash cb \<and> local_port = l4cb_src_port cb \<and> remote_port = l4cb_dst_port cb \<and>
     local_addr = l4cb_src_addr cb \<and> remote_addr = l4cb_dst_addr cb"

definition tlkp_find_v4_cb ::
  "(u16 \<Rightarrow> u32 \<Rightarrow> cb_id list) \<Rightarrow> (cb_id \<Rightarrow> ('a, 'z) l4cb_scheme) \<Rightarrow> u16 \<Rightarrow> u32 \<Rightarrow> u32 \<Rightarrow> u32
     \<Rightarrow> u16 \<Rightarrow> u16 \<Rightarrow> cb_id option" where
  "tlkp_find_v4_cb htable mem phys_port l4_hash local_addr remote_addr local_port remote_port =
     find (\<lambda>x. tlkp_find_match l4_hash local_addr remote_addr local_port remote_port (mem x))
       (htable phys_port (TPG_HASH_MOD l4_hash))"

definition tlkp_add_cb ::
  "('a, 'z) l4cb_scheme \<Rightarrow> (u16 \<Rightarrow> u32 \<Rightarrow> cb_id list) \<Rightarrow> u16 \<Rightarrow> u32 \<Rightarrow> cb_id list" where
  "tlkp_add_cb cb htable =
     htable(l4cb_interface cb := (htable (l4cb_interface cb))
       (TPG_HASH_MOD (l4cb_rx_hash cb) :=
          l4cb_id cb # htable (l4cb_interface cb) (TPG_HASH_MOD (l4cb_rx_hash cb))))"

text \<open>
  \<open>LIST_REMOVE\<close> unlinks the block from the list it is on: the one of its interface and hash,
  which do not change while it is in the table.
\<close>

definition tlkp_delete_cb ::
  "('a, 'z) l4cb_scheme \<Rightarrow> (u16 \<Rightarrow> u32 \<Rightarrow> cb_id list) \<Rightarrow> (u16 \<Rightarrow> u32 \<Rightarrow> cb_id list) option" where
  "tlkp_delete_cb cb htable =
     (let bucket = htable (l4cb_interface cb) (TPG_HASH_MOD (l4cb_rx_hash cb))
      in if l4cb_id cb \<in> set bucket
         then Some (htable(l4cb_interface cb := (htable (l4cb_interface cb))
                      (TPG_HASH_MOD (l4cb_rx_hash cb) := remove1 (l4cb_id cb) bucket)))
         else None)"

definition TPG_CB_USE_L4_HASH_FLAG :: u32 where "TPG_CB_USE_L4_HASH_FLAG = 0x1"
definition TCG_CB_REUSE_CB :: u32 where "TCG_CB_REUSE_CB = 0x2"
definition TCG_CB_CONSUME_ALL_DATA :: u32 where "TCG_CB_CONSUME_ALL_DATA = 0x4"
definition TCG_CB_MALLOCED :: u32 where "TCG_CB_MALLOCED = 0x8"

text \<open>The hash of a connection is taken on numbers in host order, that of a packet on the fields of
  the packet.\<close>

definition tlkp_calc_connection_hash :: "'a prm \<Rightarrow> u32 \<Rightarrow> u32 \<Rightarrow> u16 \<Rightarrow> u16 \<Rightarrow> u32" where
  "tlkp_calc_connection_hash P dst_addr src_addr dst_port src_port =
     toeplitz_cpuhash_addrport (p_toeplitz P) dst_addr src_addr dst_port src_port"

definition tlkp_calc_pkt_hash :: "'a prm \<Rightarrow> u32 \<Rightarrow> u32 \<Rightarrow> u16 \<Rightarrow> u16 \<Rightarrow> u32" where
  "tlkp_calc_pkt_hash P local_addr remote_addr local_port remote_port =
     toeplitz_rawhash_addrport (p_toeplitz P) local_addr remote_addr local_port remote_port"

definition l4_cb_calc_connection_hash ::
  "'a prm \<Rightarrow> ('a, 'z) l4cb_scheme \<Rightarrow> ('a, 'z) l4cb_scheme" where
  "l4_cb_calc_connection_hash P cb =
     cb\<lparr>l4cb_rx_hash := tlkp_calc_connection_hash P (l4cb_dst_addr cb) (l4cb_src_addr cb)
                         (l4cb_dst_port cb) (l4cb_src_port cb)\<rparr>"

text \<open>The application of a session is chosen with its type; here it is the data \<open>app\<close>.\<close>

definition tlkp_init_cb ::
  "'a prm \<Rightarrow> u32 \<Rightarrow> u32 \<Rightarrow> u16 \<Rightarrow> u16 \<Rightarrow> u32 \<Rightarrow> u16 \<Rightarrow> u16 \<Rightarrow> 'a \<Rightarrow> sockopt \<Rightarrow> u32
     \<Rightarrow> ('a, 'z) l4cb_scheme \<Rightarrow> ('a, 'z) l4cb_scheme" where
  "tlkp_init_cb P local_addr remote_addr local_port remote_port l4_hash cb_interface
      test_case_id app sockopt flags cb =
     (let cb = cb\<lparr>l4cb_src_addr := local_addr, l4cb_dst_addr := remote_addr,
                  l4cb_src_port := local_port, l4cb_dst_port := remote_port,
                  l4cb_interface := cb_interface, l4cb_test_case_id := test_case_id,
                  l4cb_app_data := app, l4cb_sockopt := sockopt\<rparr>
      in if flags AND TPG_CB_USE_L4_HASH_FLAG \<noteq> 0 then cb\<lparr>l4cb_rx_hash := l4_hash\<rparr>
         else l4_cb_calc_connection_hash P cb)"

definition tlkp_init_tcb ::
  "'a prm \<Rightarrow> u32 \<Rightarrow> u32 \<Rightarrow> u16 \<Rightarrow> u16 \<Rightarrow> u32 \<Rightarrow> u16 \<Rightarrow> u16 \<Rightarrow> 'a \<Rightarrow> sockopt \<Rightarrow> u32
     \<Rightarrow> 'a tcb \<Rightarrow> 'a tcb" where
  "tlkp_init_tcb P local_addr remote_addr local_port remote_port l4_hash tcb_interface
      test_case_id app sockopt flags t =
     (tlkp_init_cb P local_addr remote_addr local_port remote_port l4_hash tcb_interface
        test_case_id app sockopt flags t)
       \<lparr>tcb_consume_all_data := flags AND TCG_CB_CONSUME_ALL_DATA \<noteq> 0,
        tcb_malloced := flags AND TCG_CB_MALLOCED \<noteq> 0\<rparr>"

definition tlkp_alloc_tcb :: "'a env \<Rightarrow> (cb_id option \<times> 'a env)" where
  "tlkp_alloc_tcb e =
     (case e_pool e of [] \<Rightarrow> (None, e) | x # xs \<Rightarrow> (Some x, e\<lparr>e_pool := xs\<rparr>))"

definition tlkp_free_tcb :: "'a tcb \<Rightarrow> 'a env \<Rightarrow> 'a env" where
  "tlkp_free_tcb t e = e\<lparr>e_pool := l4cb_id t # e_pool e\<rparr>"

definition tlkp_add_tcb :: "'a tcb \<Rightarrow> 'a env \<Rightarrow> 'a env" where
  "tlkp_add_tcb t e = e\<lparr>e_htable := tlkp_add_cb t (e_htable e)\<rparr>"

definition tlkp_delete_tcb :: "'a tcb \<Rightarrow> 'a env \<Rightarrow> 'a env option" where
  "tlkp_delete_tcb t e = map_option (\<lambda>h. e\<lparr>e_htable := h\<rparr>) (tlkp_delete_cb t (e_htable e))"

definition tlkp_find_v4_tcb :: "u16 \<Rightarrow> u32 \<Rightarrow> u32 \<Rightarrow> u32 \<Rightarrow> u16 \<Rightarrow> u16 \<Rightarrow> 'a env \<Rightarrow> cb_id option" where
  "tlkp_find_v4_tcb phys_port l4_hash local_addr remote_addr local_port remote_port e =
     tlkp_find_v4_cb (e_htable e) (e_tcbs e) phys_port l4_hash local_addr remote_addr local_port
       remote_port"

end
