(* ===== verification/TcpTx.thy ===== *)
theory TcpTx
  imports TcpTypes
begin

text \<open>
  Sending TCP packets: the transmit half of \<^verbatim>\<open>src/tpg_tcp.c\<close>. What is sent is the log \<open>e_tx\<close>
  of the core, oldest first. The layers below (route lookup, Ethernet and IPv4 header,
  checksum, transmit queue) decide only the outcome of a transmission.
\<close>

fun next_tx_outcome :: "tx_outcome list \<Rightarrow> tx_outcome \<times> tx_outcome list" where
  "next_tx_outcome [] = (TxOk, [])"
| "next_tx_outcome (x # xs) = (x, xs)"

text \<open>\<open>tcp_build_hdr\<close>: the header fields of a packet of \<open>t\<close>; \<open>tcp_flags\<close> has 8 bits.\<close>

definition tcp_build_hdr :: "'a tcb \<Rightarrow> u32 \<Rightarrow> u32 \<Rightarrow> u8 list \<Rightarrow> tx_pkt" where
  "tcp_build_hdr t sseq flags data =
     \<lparr>tx_port = l4cb_interface t,
      tx_src_addr = l4cb_src_addr t, tx_dst_addr = l4cb_dst_addr t,
      tx_src_port = l4cb_src_port t, tx_dst_port = l4cb_dst_port t,
      tx_seq = (if flags AND TCP_BUILD_FLAG_USE_ISS \<noteq> 0 then snd_iss t else sseq),
      tx_ack = rcv_nxt t,
      tx_flags = ucast (flags AND TCP_BUILD_FLAG_MASK),
      tx_wnd = ucast (rcv_wnd t),
      tx_data = data\<rparr>"

definition tcp_send_pkt :: "'a tcb \<Rightarrow> u32 \<Rightarrow> u32 \<Rightarrow> chain \<Rightarrow> 'a env \<Rightarrow> bool \<times> 'a env" where
  "tcp_send_pkt t sseq flags data e =
     (let (out, outs) = next_tx_outcome (e_tx_outcomes e);
          e = e\<lparr>e_tx_outcomes := outs\<rparr>;
          data_pkt_len = (case data of [] \<Rightarrow> 0 | m # _ \<Rightarrow> mb_pkt_len m)
      in if out = TxNoHdr
         then (False, upd_tcp_stats (l4cb_interface t)
                        (\<lambda>s. s\<lparr>ts_failed_data_pkts := ts_failed_data_pkts s + 1\<rparr>) e)
         else
           let e = upd_tcp_stats (l4cb_interface t)
                     (\<lambda>s. s\<lparr>ts_sent_ctrl_bytes := ts_sent_ctrl_bytes s + 20,
                           ts_sent_data_bytes := ts_sent_data_bytes s + ucast data_pkt_len\<rparr>) e
           in if out = TxFailed then (False, e)
              else (True, e\<lparr>e_tx := e_tx e @ [tcp_build_hdr t sseq flags (chain_bytes data)]\<rparr>))"

definition tcp_send_data_pkt :: "'a tcb \<Rightarrow> u32 \<Rightarrow> u32 \<Rightarrow> chain \<Rightarrow> 'a env \<Rightarrow> bool \<times> 'a env" where
  "tcp_send_data_pkt t sseq flags data e =
     (if data = [] then (False, e)
      else
        let (ok, e) = tcp_send_pkt t sseq flags data e
        in if ok
           then (True, upd_tcp_stats (l4cb_interface t)
                         (\<lambda>s. s\<lparr>ts_sent_data_pkts := ts_sent_data_pkts s + 1\<rparr>) e)
           else (False, e))"

definition tcp_send_ctrl_pkt_with_sseq :: "'a tcb \<Rightarrow> u32 \<Rightarrow> u32 \<Rightarrow> 'a env \<Rightarrow> 'a env" where
  "tcp_send_ctrl_pkt_with_sseq t sseq flags e =
     (let e = (if flags AND RTE_TCP_SYN_FLAG \<noteq> 0
               then upd_tcp_stats (l4cb_interface t) (\<lambda>s. s\<lparr>ts_sent_syn := ts_sent_syn s + 1\<rparr>) e
               else e);
          e = (if flags AND RTE_TCP_FIN_FLAG \<noteq> 0
               then upd_tcp_stats (l4cb_interface t) (\<lambda>s. s\<lparr>ts_sent_fin := ts_sent_fin s + 1\<rparr>) e
               else e);
          e = (if flags AND RTE_TCP_RST_FLAG \<noteq> 0
               then upd_tcp_stats (l4cb_interface t) (\<lambda>s. s\<lparr>ts_sent_rst := ts_sent_rst s + 1\<rparr>) e
               else e);
          (ok, e) = tcp_send_pkt t sseq flags [] e
      in if ok
         then upd_tcp_stats (l4cb_interface t)
                (\<lambda>s. s\<lparr>ts_sent_ctrl_pkts := ts_sent_ctrl_pkts s + 1\<rparr>) e
         else e)"

definition tcp_send_ctrl_pkt :: "'a tcb \<Rightarrow> u32 \<Rightarrow> 'a env \<Rightarrow> 'a env" where
  "tcp_send_ctrl_pkt t flags e = tcp_send_ctrl_pkt_with_sseq t (snd_nxt t) flags e"

definition tcp_send_ack_pkt :: "'a tcb \<Rightarrow> 'a env \<Rightarrow> 'a env" where
  "tcp_send_ack_pkt t e =
     (let (ok, e) = tcp_send_pkt t (snd_nxt t) RTE_TCP_ACK_FLAG [] e
      in if ok
         then upd_tcp_stats (l4cb_interface t)
                (\<lambda>s. s\<lparr>ts_sent_ctrl_pkts := ts_sent_ctrl_pkts s + 1\<rparr>) e
         else e)"

text \<open>\<open>tcb_clone\<close>: everything but the identity is copied.\<close>

definition tcb_clone :: "'a tcb \<Rightarrow> 'a env \<Rightarrow> 'a tcb option \<times> 'a env" where
  "tcb_clone t e =
     (case tlkp_alloc_tcb e of
        (None, e) \<Rightarrow>
          (None, upd_tcp_stats (l4cb_interface t)
                   (\<lambda>s. s\<lparr>ts_tcb_alloc_err := ts_tcb_alloc_err s + 1\<rparr>) e)
      | (Some x, e) \<Rightarrow>
          (Some (t\<lparr>l4cb_id := x, tcb_malloced := True\<rparr>),
           upd_tcp_stats (l4cb_interface t)
             (\<lambda>s. s\<lparr>ts_tcb_malloced := ts_tcb_malloced s + 1\<rparr>) e))"

end
