(* ===== verification/TcpData.thy ===== *)
theory TcpData
  imports TcpTx
begin

text \<open>
  The data of a connection: \<^verbatim>\<open>src/tpg_tcp_data.c\<close>. The bytes given to the stack and not yet
  acknowledged are the chain \<open>tr_data_mbufs\<close>, of which the first \<open>SND.NXT - SND.UNA\<close>
  have been sent; the segments received out of order are the list \<open>tcb_rcv_buf\<close>.

  \<open>TCB_MTU\<close> is a \<open>size_t\<close>: 64 bits. A loop over received segments or buffers is recursion
  on their list; the loop that sends segments ends after \<open>GCFG_TCP_SEGS_PER_SEND + 1\<close> turns.
\<close>

definition GCFG_TCP_SEGS_PER_SEND :: nat where
  "GCFG_TCP_SEGS_PER_SEND = 1"

text \<open>Ethernet, IPv4 and TCP headers and the Ethernet checksum.\<close>

definition TCB_MIN_HDRS_SZ :: u64 where
  "TCB_MIN_HDRS_SZ = 14 + 20 + 20 + 4"

definition TCB_MTU :: "'a tcb \<Rightarrow> 'a env \<Rightarrow> u64" where
  "TCB_MTU t e =
     ucast (e_pi_mtu e (l4cb_interface t)) - ucast (ip4so_hdr_opt_len (l4cb_sockopt t))
       - ucast (vlanso_hdr_opt_len (l4cb_sockopt t)) - TCB_MIN_HDRS_SZ"

definition TCB_AVAIL_SEND :: "'a tcb \<Rightarrow> 'a env \<Rightarrow> u64" where
  "TCB_AVAIL_SEND t e =
     (let room = ucast (tcpo_win_size (l4cb_sockopt t) - tr_total_size t);
          mtu = of_nat GCFG_TCP_SEGS_PER_SEND * TCB_MTU t e
      in if room < mtu then room else mtu)"

subsection \<open>Sending\<close>

text \<open>The first component is the number of bytes stored. A refused chain is freed.\<close>

definition tcp_data_store_send :: "'a tcb \<Rightarrow> tsm_data_arg \<Rightarrow> 'a env \<Rightarrow> (u32 \<times> 'a tcb) option" where
  "tcp_data_store_send t data e =
     (case tda_mbuf data of
        [] \<Rightarrow> None
      | d # ds \<Rightarrow>
          if ucast (mb_pkt_len d) > TCB_AVAIL_SEND t e then Some (0, t)
          else do {
            chain \<leftarrow> (if tr_last_set t
                      then (case tr_data_mbufs t of
                              [] \<Rightarrow> None
                            | m # ms \<Rightarrow>
                                Some (m\<lparr>mb_nb_segs := mb_nb_segs m + mb_nb_segs d\<rparr> # ms @ d # ds))
                      else Some (d # ds));
            let total = tr_total_size t + mb_pkt_len d;
            Some (if tr_last_set t then mb_pkt_len d else total,
                  t\<lparr>tr_data_mbufs := (hd chain)\<lparr>mb_pkt_len := total\<rparr> # tl chain,
                    tr_last_set := True, tr_total_size := total\<rparr>)
          })"

definition tcp_data_get_unsent_size :: "'a tcb \<Rightarrow> u32" where
  "tcp_data_get_unsent_size t =
     (if tr_total_size t = 0 then 0
      else tr_total_size t - SEG_DIFF (snd_nxt t) (snd_una t))"

fun tcp_data_skip_sent :: "chain \<Rightarrow> u32 \<Rightarrow> u32 \<Rightarrow> (chain \<times> u32) option" where
  "tcp_data_skip_sent [] global_offset offset = None"
| "tcp_data_skip_sent (m # ms) global_offset offset =
     (if data_len m \<le> global_offset - offset
      then tcp_data_skip_sent ms global_offset (offset + data_len m)
      else Some (m # ms, global_offset - offset))"

definition tcp_data_get_unsent :: "'a tcb \<Rightarrow> (chain \<times> u32) option" where
  "tcp_data_get_unsent t =
     tcp_data_skip_sent (tr_data_mbufs t) (tr_total_size t - tcp_data_get_unsent_size t) 0"

definition tcp_data_send_segment ::
  "'a tcb \<Rightarrow> chain \<Rightarrow> u32 \<Rightarrow> u32 \<Rightarrow> u32 \<Rightarrow> u32 \<Rightarrow> 'a env \<Rightarrow> (bool \<times> 'a env) option" where
  "tcp_data_send_segment t seg_data seg_data_len data_offset sseq snd_flags e =
     do {
       (clone, os) \<leftarrow> data_clone_seg seg_data seg_data_len data_offset (e_alloc_outcomes e);
       let e = e\<lparr>e_alloc_outcomes := os\<rparr>;
       Some (case clone of
               None \<Rightarrow>
                 (False, upd_tcp_stats (l4cb_interface t)
                           (\<lambda>s. s\<lparr>ts_failed_data_clone := ts_failed_data_clone s + 1\<rparr>) e)
             | Some c \<Rightarrow> tcp_send_data_pkt t sseq snd_flags c e)
     }"

text \<open>The inner loop of \<open>tcp_data_send_segments\<close>, which moves on to the buffer the segment
  ended in. The results are the buffers, the offset and what is left of the length.\<close>

fun tcp_data_advance :: "chain \<Rightarrow> u32 \<Rightarrow> u32 \<Rightarrow> (chain \<times> u32 \<times> u32) option" where
  "tcp_data_advance [] data_offset seg_data_len = None"
| "tcp_data_advance (m # ms) data_offset seg_data_len =
     (if data_offset + seg_data_len > data_len m
      then tcp_data_advance ms 0 (seg_data_len - (data_len m - data_offset))
      else Some (m # ms, data_offset, seg_data_len))"

fun tcp_data_send_loop ::
  "nat \<Rightarrow> chain \<Rightarrow> u32 \<Rightarrow> u32 \<Rightarrow> u32 \<Rightarrow> u32 \<Rightarrow> u32 \<Rightarrow> 'a tcb \<Rightarrow> 'a env
     \<Rightarrow> (u32 \<times> 'a tcb \<times> 'a env) option" where
  "tcp_data_send_loop 0 segs dlen data_offset sseq snd_flags sent_data t e =
     Some (sent_data, t, e)"
| "tcp_data_send_loop (Suc n) segs dlen data_offset sseq snd_flags sent_data t e =
     (if dlen = 0 then Some (sent_data, t, e)
      else
        let seg_data_len = (if ucast dlen < TCB_MTU t e then dlen else ucast (TCB_MTU t e))
        in Option.bind (tcp_data_send_segment t segs seg_data_len data_offset sseq snd_flags e)
             (\<lambda>(ok, e).
                if \<not> ok then Some (sent_data, t, e)
                else
                  let t = (if sseq = snd_nxt t then t\<lparr>snd_nxt := snd_nxt t + seg_data_len\<rparr> else t)
                  in Option.bind (tcp_data_advance segs data_offset seg_data_len)
                       (\<lambda>(segs, off, left).
                          tcp_data_send_loop n segs (dlen - seg_data_len) (off + left)
                            (sseq + seg_data_len) snd_flags (sent_data + left) t e)))"

definition tcp_data_send_segments ::
  "chain \<Rightarrow> u32 \<Rightarrow> u32 \<Rightarrow> u32 \<Rightarrow> u32 \<Rightarrow> 'a tcb \<Rightarrow> 'a env \<Rightarrow> (u32 \<times> 'a tcb \<times> 'a env) option" where
  "tcp_data_send_segments segs dlen data_offset sseq snd_flags t e =
     tcp_data_send_loop (Suc GCFG_TCP_SEGS_PER_SEND) segs dlen data_offset sseq snd_flags 0 t e"

definition tcp_data_send :: "tsm_data_arg \<Rightarrow> 'a tcb \<Rightarrow> 'a env \<Rightarrow> (int \<times> 'a tcb \<times> 'a env) option" where
  "tcp_data_send data t e =
     do {
       let e = e\<lparr>e_data_sent := 0\<rparr>;
       let snd_flags = (if tda_push data then RTE_TCP_PSH_FLAG else 0)
                         OR (if tda_urg data then RTE_TCP_URG_FLAG else 0);
       (stored_bytes, t) \<leftarrow> tcp_data_store_send t data e;
       if stored_bytes = 0 then Some (- ENOMEM, t, e)
       else do {
         let unsent_size = tcp_data_get_unsent_size t;
         (t, e) \<leftarrow>
           (if \<not> tda_push data \<and> ucast unsent_size < TCB_MTU t e then Some (t, e)
            else do {
              let unsent_size = min unsent_size
                    (SEG_DIFF (snd_wnd t) (SEG_DIFF (snd_nxt t) (snd_una t)));
              (data_to_send, data_offset) \<leftarrow> tcp_data_get_unsent t;
              (_, t, e) \<leftarrow> tcp_data_send_segments data_to_send unsent_size data_offset (snd_nxt t)
                            (RTE_TCP_ACK_FLAG OR snd_flags) t e;
              Some (t, e)
            });
         if tda_data_len data = stored_bytes
         then Some (0, t, e\<lparr>e_data_sent := stored_bytes\<rparr>)
         else Some (- EAGAIN, t, e)
       }
     }"

definition tcp_data_retrans :: "'a tcb \<Rightarrow> 'a env \<Rightarrow> (u32 \<times> 'a tcb \<times> 'a env) option" where
  "tcp_data_retrans t e =
     (if tr_data_mbufs t = [] then Some (0, t, e)
      else tcp_data_send_segments (tr_data_mbufs t) (min (tr_total_size t) (snd_wnd t)) 0
             (snd_una t) RTE_TCP_ACK_FLAG t e)"

subsection \<open>Receiving\<close>

definition chain_pkt_len :: "chain \<Rightarrow> u32" where
  "chain_pkt_len c = (case c of [] \<Rightarrow> 0 | m # _ \<Rightarrow> mb_pkt_len m)"

definition tbh_end :: "tcb_buf_hdr \<Rightarrow> u32" where
  "tbh_end h = tbh_seg_seq h + chain_pkt_len (tbh_mbuf h)"

definition TCB_RCVBUF_CONTAINED :: "tcb_buf_hdr \<Rightarrow> tcb_buf_hdr \<Rightarrow> bool" where
  "TCB_RCVBUF_CONTAINED a b \<longleftrightarrow>
     SEG_GE (tbh_seg_seq a) (tbh_seg_seq b) \<and> SEG_LE (tbh_end a) (tbh_end b)"

text \<open>\<open>data_adj_chain\<close> where the code asserts that something is left.\<close>

definition adj_nonempty :: "pktmbuf_adj \<Rightarrow> chain \<Rightarrow> u32 \<Rightarrow> chain option" where
  "adj_nonempty adj c len =
     (case data_adj_chain adj c len of Some (m # ms) \<Rightarrow> Some (m # ms) | _ \<Rightarrow> None)"

text \<open>
  The walk over the received segments. The new one is already contained in another, or it makes,
  possibly merged into an older one, the segment between the ones before and after it, or it
  goes to the end.
\<close>

datatype rcv_walk =
    RcvContained
  | RcvSeg "tcb_buf_hdr list" tcb_buf_hdr "tcb_buf_hdr list"
  | RcvEnd

fun rcv_walk_cons :: "tcb_buf_hdr \<Rightarrow> rcv_walk \<Rightarrow> rcv_walk" where
  "rcv_walk_cons c (RcvSeg prev seg rest) = RcvSeg (c # prev) seg rest"
| "rcv_walk_cons c r = r"

fun tcp_rcv_walk :: "pktmbuf_adj \<Rightarrow> tcb_buf_hdr \<Rightarrow> tcb_buf_hdr list \<Rightarrow> rcv_walk option" where
  "tcp_rcv_walk adj new [] = Some RcvEnd"
| "tcp_rcv_walk adj new (cur # cs) =
     (if TCB_RCVBUF_CONTAINED new cur then Some RcvContained
      else if SEG_LT (tbh_seg_seq new) (tbh_seg_seq cur) then Some (RcvSeg [] new (cur # cs))
      else if SEG_EQ (tbh_end cur) (tbh_seg_seq new)
      then Some (RcvSeg [] (cur\<lparr>tbh_mbuf := data_mbuf_merge (tbh_mbuf cur) (tbh_mbuf new)\<rparr>) cs)
      else if SEG_LE (tbh_seg_seq cur) (tbh_seg_seq new) \<and> SEG_LT (tbh_seg_seq new) (tbh_end cur)
      then map_option
             (\<lambda>m. RcvSeg [] (cur\<lparr>tbh_mbuf := data_mbuf_merge (tbh_mbuf cur) m\<rparr>) cs)
             (adj_nonempty adj (tbh_mbuf new) (SEG_DIFF (tbh_end cur) (tbh_seg_seq new)))
      else map_option (rcv_walk_cons cur) (tcp_rcv_walk adj new cs))"

text \<open>
  The segments that follow an extended one: those it covers are freed, the first one it covers in
  part loses its beginning. As in the code, its sequence number stays.
\<close>

fun tcp_rcv_consume ::
  "pktmbuf_adj \<Rightarrow> u32 \<Rightarrow> tcb_buf_hdr list \<Rightarrow> tcb_buf_hdr list option" where
  "tcp_rcv_consume adj seg_end [] = Some []"
| "tcp_rcv_consume adj seg_end (old # os) =
     (if SEG_GE seg_end (tbh_seg_seq old)
      then if SEG_LT seg_end (tbh_end old)
           then map_option (\<lambda>m. old\<lparr>tbh_mbuf := m\<rparr> # os)
                  (adj_nonempty adj (tbh_mbuf old) (SEG_DIFF seg_end (tbh_seg_seq old)))
           else tcp_rcv_consume adj seg_end os
      else Some (old # os))"

fun tcp_rcv_deliver ::
  "'a prm \<Rightarrow> tcb_buf_hdr list \<Rightarrow> u32 \<Rightarrow> 'a tcb \<Rightarrow> 'a env \<Rightarrow> (u32 \<times> 'a tcb \<times> 'a env) option" where
  "tcp_rcv_deliver P [] delivered t e = Some (delivered, t\<lparr>tcb_rcv_buf := []\<rparr>, e)"
| "tcp_rcv_deliver P (seg # segs) delivered t e =
     (if SEG_EQ (rcv_nxt t) (tbh_seg_seq seg)
      then
        let (n, d, ns) = app_deliver (p_app P) (l4cb_app_data t) (tbh_mbuf seg) (tbh_tstamp seg)
        in Option.bind
             (test_app_notifs (test_sm_dispatch_event (p_app P)) ns (t\<lparr>l4cb_app_data := d\<rparr>) e)
             (\<lambda>(t, e).
                let t = t\<lparr>rcv_nxt := rcv_nxt t + n\<rparr>
                in if n = chain_pkt_len (tbh_mbuf seg)
                   then tcp_rcv_deliver P segs (delivered + n) t e
                   else map_option
                          (\<lambda>m. (delivered + n,
                                t\<lparr>tcb_rcv_buf := seg\<lparr>tbh_mbuf := m\<rparr> # segs\<rparr>, e))
                          (data_adj_chain (p_adj P) (tbh_mbuf seg) n))
      else Some (delivered, t\<lparr>tcb_rcv_buf := seg # segs\<rparr>, e))"

text \<open>Storing the packet: the received segments afterwards, and whether it is kept.\<close>

definition tcp_rcv_store ::
  "pktmbuf_adj \<Rightarrow> tcb_buf_hdr \<Rightarrow> tcb_buf_hdr list \<Rightarrow> (tcb_buf_hdr list \<times> bool) option" where
  "tcp_rcv_store adj new buf =
     Option.bind (tcp_rcv_walk adj new buf) (\<lambda>r.
       case r of
         RcvContained \<Rightarrow> Some (buf, False)
       | RcvEnd \<Rightarrow> Some (buf @ [new], True)
       | RcvSeg prev seg rest \<Rightarrow>
           map_option (\<lambda>rest. (prev @ seg # rest, True)) (tcp_rcv_consume adj (tbh_end seg) rest))"

definition tcp_data_handle ::
  "'a prm \<Rightarrow> u32 \<Rightarrow> u32 \<Rightarrow> 'a tcb \<Rightarrow> 'a env \<Rightarrow> (u32 \<times> 'a tcb \<times> 'a env) option" where
  "tcp_data_handle P seg_seq seg_len t e =
     (if SEG_LE (seg_seq + seg_len) (rcv_nxt t) then Some (0, t, e)
      else do {
        (e, seg_seq) \<leftarrow>
          (if SEG_LT seg_seq (rcv_nxt t) \<and> SEG_GT (seg_seq + seg_len) (rcv_nxt t)
           then map_option (\<lambda>m. (e\<lparr>e_pcb := (e_pcb e)\<lparr>pcb_mbuf := m\<rparr>\<rparr>, rcv_nxt t))
                  (adj_nonempty (p_adj P) (pcb_mbuf (e_pcb e)) (SEG_DIFF (rcv_nxt t) seg_seq))
           else Some (e, seg_seq));
        let new_hdr = \<lparr>tbh_mbuf = pcb_mbuf (e_pcb e), tbh_tstamp = pcb_tstamp (e_pcb e),
                       tbh_seg_seq = seg_seq\<rparr>;
        (buf, stored) \<leftarrow> tcp_rcv_store (p_adj P) new_hdr (tcb_rcv_buf t);
        let e = (if stored then e\<lparr>e_pcb := (e_pcb e)\<lparr>pcb_mbuf_stored := True\<rparr>\<rparr> else e);
        tcp_rcv_deliver P buf 0 t e
      })"

end
