(* ===== verification/TcpSM.thy ===== *)
theory TcpSM
  imports TcpData
begin

text \<open>
  The TCP state machine: \<^verbatim>\<open>src/tpg_tcp_sm.c\<close>, with the silent close of \<^verbatim>\<open>src/tpg_tcp.c\<close> its
  CLOSED state calls.

  A function takes the control block \<open>t\<close> it works on and the state \<open>e\<close> of the core, and returns
  the status (0 or a negated errno) and both. Every \<open>tsm_SF_*\<close> function is a definition of
  its own, the long ones with their handling of an arriving segment apart. They change state
  through \<open>tsm_enter_state\<close>, which dispatches \<open>TE_ENTER_STATE\<close>: the dispatcher is their
  argument \<open>disp\<close>, \<open>tsm_run\<close> ties the knot, and a nesting of three is never exceeded
  (\<open>tsm_run_fuel\<close>). \<^term>\<open>None\<close> is \<open>assert(false)\<close>, \<open>TPG_ERROR_ABORT\<close> or undefined behaviour.
\<close>

type_synonym 'a tsm_result = "(int \<times> 'a tcb \<times> 'a env) option"
type_synonym 'a tsm_disp = "tcp_event \<Rightarrow> tsm_arg \<Rightarrow> 'a tcb \<Rightarrow> 'a env \<Rightarrow> 'a tsm_result"

definition TCP_RECV_SYN_INC_STAT :: "'a tcb \<Rightarrow> 'a env \<Rightarrow> 'a env" where
  "TCP_RECV_SYN_INC_STAT t =
     upd_tcp_stats (l4cb_interface t) (\<lambda>s. s\<lparr>ts_recv_syn := ts_recv_syn s + 1\<rparr>)"

definition TCP_RECV_FIN_INC_STAT :: "'a tcb \<Rightarrow> 'a env \<Rightarrow> 'a env" where
  "TCP_RECV_FIN_INC_STAT t =
     upd_tcp_stats (l4cb_interface t) (\<lambda>s. s\<lparr>ts_recv_fin := ts_recv_fin s + 1\<rparr>)"

definition TCP_RECV_RST_INC_STAT :: "'a tcb \<Rightarrow> 'a env \<Rightarrow> 'a env" where
  "TCP_RECV_RST_INC_STAT t =
     upd_tcp_stats (l4cb_interface t) (\<lambda>s. s\<lparr>ts_recv_rst := ts_recv_rst s + 1\<rparr>)"

text \<open>\<open>TCP_TOO_MANY_RETRIES\<close>: the test, and the counter it increments.\<close>

definition TCP_TOO_MANY_RETRIES ::
  "u8 \<Rightarrow> (tsm_stats \<Rightarrow> tsm_stats) \<Rightarrow> 'a tcb \<Rightarrow> 'a env \<Rightarrow> bool \<times> 'a env" where
  "TCP_TOO_MANY_RETRIES limit inc t e =
     (if tcb_retrans_cnt t \<noteq> limit then (False, e)
      else (True, upd_tsm_stats (l4cb_interface t) inc e))"

definition inc_syn_to :: "tsm_stats \<Rightarrow> tsm_stats" where
  "inc_syn_to s = s\<lparr>tsms_syn_to := tsms_syn_to s + 1\<rparr>"

definition inc_synack_to :: "tsm_stats \<Rightarrow> tsm_stats" where
  "inc_synack_to s = s\<lparr>tsms_synack_to := tsms_synack_to s + 1\<rparr>"

definition inc_retry_to :: "tsm_stats \<Rightarrow> tsm_stats" where
  "inc_retry_to s = s\<lparr>tsms_retry_to := tsms_retry_to s + 1\<rparr>"

subsection \<open>Retransmission queue and window\<close>

definition tsm_schedule_retransmission :: "'a tcb \<Rightarrow> 'a env \<Rightarrow> 'a tcb \<times> 'a env" where
  "tsm_schedule_retransmission t e =
     (if snd_una t = snd_nxt t \<and> tr_total_size t = 0 then (t\<lparr>tcb_retrans_cnt := 0\<rparr>, e)
      else if tcb_on_rto_list t then (t, e)
      else snd (tcp_timer_rto_set (tcpo_rto (l4cb_sockopt t)) t e))"

text \<open>The notification of a window that just filled up.\<close>

definition tsm_notif_win_full :: "'a prm \<Rightarrow> bool \<Rightarrow> 'a tcb \<Rightarrow> 'a env \<Rightarrow> ('a tcb \<times> 'a env) option" where
  "tsm_notif_win_full P win_was_full t e =
     (if \<not> win_was_full \<and> tcp_snd_win_full t
      then do {
        (t, e) \<leftarrow> TCP_NOTIF P TEST_NOTIF_SESS_WIN_UNAVAIL t e;
        Some (t, upd_tsm_stats (l4cb_interface t)
                   (\<lambda>s. s\<lparr>tsms_snd_win_full := tsms_snd_win_full s + 1\<rparr>) e)
      }
      else Some (t, e))"

definition tsm_send_data :: "'a prm \<Rightarrow> tsm_data_arg \<Rightarrow> 'a tcb \<Rightarrow> 'a env \<Rightarrow> 'a tsm_result" where
  "tsm_send_data P data t e =
     do {
       let win_was_full = tcp_snd_win_full t;
       (status, t, e) \<leftarrow> tcp_data_send data t e;
       let (t, e) = tsm_schedule_retransmission t e;
       (t, e) \<leftarrow> tsm_notif_win_full P win_was_full t e;
       Some (status, t, e)
     }"

definition tsm_retrans_data :: "'a prm \<Rightarrow> 'a tcb \<Rightarrow> 'a env \<Rightarrow> ('a tcb \<times> 'a env) option" where
  "tsm_retrans_data P t e =
     do {
       let win_was_full = tcp_snd_win_full t;
       (retrans_bytes, t, e) \<leftarrow> tcp_data_retrans t e;
       let e = upd_tsm_stats (l4cb_interface t)
                 (\<lambda>s. s\<lparr>tsms_retrans_bytes := tsms_retrans_bytes s + ucast retrans_bytes\<rparr>) e;
       tsm_notif_win_full P win_was_full t e
     }"

text \<open>The loop that frees the buffers that are acknowledged as a whole.\<close>

fun set_hd_pkt_len :: "u32 \<Rightarrow> chain \<Rightarrow> chain" where
  "set_hd_pkt_len l [] = []"
| "set_hd_pkt_len l (m # ms) = m\<lparr>mb_pkt_len := l\<rparr> # ms"

lemma length_set_hd_pkt_len [simp]: "length (set_hd_pkt_len l c) = length c"
  by (cases c) simp_all

function tsm_cleanup_loop :: "chain \<Rightarrow> u32 \<Rightarrow> (chain \<times> u32) option" where
  "tsm_cleanup_loop [] acked_bytes = (if acked_bytes = 0 then Some ([], acked_bytes) else None)"
| "tsm_cleanup_loop (m # ms) acked_bytes =
     (if acked_bytes \<noteq> 0 \<and> acked_bytes \<ge> data_len m
      then tsm_cleanup_loop (set_hd_pkt_len (mb_pkt_len m - data_len m) ms) (acked_bytes - data_len m)
      else Some (m # ms, acked_bytes))"
  by pat_completeness auto
termination
  by (relation "measure (length \<circ> fst)") simp_all

definition tsm_cleanup_chain :: "pktmbuf_adj \<Rightarrow> chain \<Rightarrow> u32 \<Rightarrow> chain option" where
  "tsm_cleanup_chain adj c acked_bytes =
     do {
       (c, acked_bytes) \<leftarrow> tsm_cleanup_loop c acked_bytes;
       c \<leftarrow> (if acked_bytes \<noteq> 0 then data_adj_chain adj c acked_bytes else Some c);
       Some (case c of [] \<Rightarrow> [] | m # ms \<Rightarrow> if data_len m = 0 then ms else m # ms)
     }"

definition tsm_cleanup_retrans_queu ::
  "'a prm \<Rightarrow> u32 \<Rightarrow> 'a tcb \<Rightarrow> 'a env \<Rightarrow> ('a tcb \<times> 'a env) option" where
  "tsm_cleanup_retrans_queu P seg_ack t e =
     (let acked_bytes = SEG_DIFF seg_ack (snd_una t)
      in if acked_bytes = 0 then Some (t, e)
         else if tr_total_size t < acked_bytes then Some (t, e)
         else do {
           let win_was_full = tcp_snd_win_full t;
           c \<leftarrow> tsm_cleanup_chain (p_adj P) (tr_data_mbufs t) acked_bytes;
           let t = t\<lparr>tr_total_size := tr_total_size t - acked_bytes, tr_data_mbufs := c\<rparr>;
           (t, e) \<leftarrow> (if c = [] then rto_cancel (t\<lparr>tr_last_set := False\<rparr>) e else Some (t, e));
           let t = t\<lparr>snd_una := seg_ack, tcb_retrans_cnt := 0\<rparr>;
           (if win_was_full \<and> \<not> tcp_snd_win_full t
            then do {
              (t, e) \<leftarrow> TCP_NOTIF P TEST_NOTIF_SESS_WIN_AVAIL t e;
              Some (t, upd_tsm_stats (l4cb_interface t)
                         (\<lambda>s. s\<lparr>tsms_snd_win_full := tsms_snd_win_full s - 1\<rparr>) e)
            }
            else Some (t, e))
         })"

definition tsm_handle_incoming ::
  "'a prm \<Rightarrow> u32 \<Rightarrow> u32 \<Rightarrow> 'a tcb \<Rightarrow> 'a env \<Rightarrow> (u32 \<times> 'a tcb \<times> 'a env) option" where
  "tsm_handle_incoming P seg_seq seg_len t e =
     do {
       let was_missing = (tcb_rcv_buf t \<noteq> []);
       let t = (if TCP_IS_FLAG_SET (pcb_tcp (e_pcb e)) RTE_TCP_URG_FLAG
                then t\<lparr>rcv_up := max (rcv_up t) (ucast (th_urp (pcb_tcp (e_pcb e))))\<rparr> else t);
       (delivered, t, e) \<leftarrow> tcp_data_handle P seg_seq seg_len t e;
       let e = (if \<not> was_missing \<and> tcb_rcv_buf t \<noteq> []
                then upd_tsm_stats (l4cb_interface t)
                       (\<lambda>s. s\<lparr>tsms_missing_seq := tsms_missing_seq s + 1\<rparr>) e
                else if was_missing \<and> tcb_rcv_buf t = []
                then upd_tsm_stats (l4cb_interface t)
                       (\<lambda>s. s\<lparr>tsms_missing_seq := tsms_missing_seq s - 1\<rparr>) e
                else e);
       Some (delivered, t, e)
     }"

definition tsm_do_receive_acceptance_test :: "'a tcb \<Rightarrow> u32 \<Rightarrow> u32 \<Rightarrow> bool" where
  "tsm_do_receive_acceptance_test t seg_len seg_seq =
     (if seg_len = 0 \<and> rcv_wnd t = 0 then SEG_EQ seg_seq (rcv_nxt t)
      else if seg_len = 0 \<and> rcv_wnd t > 0
      then SEG_GE seg_seq (rcv_nxt t) \<and> SEG_LT seg_seq (rcv_nxt t + rcv_wnd t)
      else if seg_len > 0 \<and> rcv_wnd t = 0 then False
      else (SEG_GE seg_seq (rcv_nxt t) \<and> SEG_LT seg_seq (rcv_nxt t + rcv_wnd t)) \<or>
           (SEG_GE (seg_seq + seg_len - 1) (rcv_nxt t) \<and>
            SEG_LT (seg_seq + seg_len - 1) (rcv_nxt t + rcv_wnd t)))"

definition tsm_need_ack :: "'a tcb \<Rightarrow> bool" where
  "tsm_need_ack t =
     (if \<not> tcpo_ack_delay (l4cb_sockopt t) then True
      else if test_sm_has_data_pending t then False
      else True)"

subsection \<open>Entering a state, and the end of a control block\<close>

definition tsm_inc_state :: "tcp_state \<Rightarrow> tsm_stats \<Rightarrow> tsm_stats" where
  "tsm_inc_state st s = s\<lparr>tsms_tcb_states := (tsms_tcb_states s)(st := tsms_tcb_states s st + 1)\<rparr>"

definition tsm_dec_state :: "tcp_state \<Rightarrow> tsm_stats \<Rightarrow> tsm_stats" where
  "tsm_dec_state st s = s\<lparr>tsms_tcb_states := (tsms_tcb_states s)(st := tsms_tcb_states s st - 1)\<rparr>"

definition tsm_enter_state ::
  "'a tsm_disp \<Rightarrow> tcp_state \<Rightarrow> tsm_arg \<Rightarrow> 'a tcb \<Rightarrow> 'a env \<Rightarrow> 'a tsm_result" where
  "tsm_enter_state disp st arg t e =
     (let e = (if st \<noteq> tcb_state t \<and> tcb_state t \<noteq> TS_LISTEN
               then upd_tsm_stats (l4cb_interface t) (tsm_dec_state (tcb_state t)) e
               else e);
          e = upd_tsm_stats (l4cb_interface t) (tsm_inc_state st) e
      in disp TE_ENTER_STATE arg (t\<lparr>tcb_state := st\<rparr>) e)"

definition tsm_initialize_minimal_statemachine :: "bool \<Rightarrow> 'a tcb \<Rightarrow> 'a tcb" where
  "tsm_initialize_minimal_statemachine active t = t\<lparr>tcb_state := TS_INIT, tcb_active := active\<rparr>"

definition tsm_initialize_statemachine ::
  "'a tsm_disp \<Rightarrow> bool \<Rightarrow> 'a tcb \<Rightarrow> 'a env \<Rightarrow> 'a tsm_result" where
  "tsm_initialize_statemachine disp active t e =
     tsm_enter_state disp TS_INIT NoArg
       ((tsm_initialize_minimal_statemachine active t)
          \<lparr>tcb_fin_rcvd := False, tcb_rst_rcvd := False, tcb_rcv_fin_seq := 0,
           snd_una := 0, snd_nxt := 0, snd_wnd := 0, snd_uo := 0, snd_wl1 := 0, snd_wl2 := 0,
           snd_iss := 0,
           rcv_nxt := 0, rcv_wnd := tcpo_win_size (l4cb_sockopt t), rcv_up := 0, rcv_irs := 0,
           tcb_retrans_cnt := 0,
           tr_data_mbufs := [], tr_last_set := False, tr_total_size := 0, tcb_rcv_buf := []\<rparr>) e"

definition tsm_terminate_statemachine :: "'a tcb \<Rightarrow> 'a env \<Rightarrow> 'a env option" where
  "tsm_terminate_statemachine t e =
     (if tcb_state t \<noteq> TS_INIT
      then if tsms_tcb_states (e_tsm_stats e (l4cb_interface t)) (tcb_state t) > 0
           then Some (upd_tsm_stats (l4cb_interface t) (tsm_dec_state (tcb_state t)) e)
           else None
      else Some e)"

text \<open>\<open>tcp_close_connection\<close> with \<open>TCG_SILENT_CLOSE\<close>.\<close>

definition tcp_silent_close :: "'a tcb \<Rightarrow> 'a env \<Rightarrow> 'a tsm_result" where
  "tcp_silent_close t e =
     do {
       let e = (if \<not> tcb_rst_rcvd t
                then tcp_send_ctrl_pkt t (RTE_TCP_ACK_FLAG OR RTE_TCP_RST_FLAG) e else e);
       e \<leftarrow> tlkp_delete_tcb t e;
       (t, e) \<leftarrow> rto_cancel_if_set t e;
       (t, e) \<leftarrow> slow_cancel_if_set t e;
       let t = t\<lparr>tr_data_mbufs := [], tr_total_size := 0, tcb_rcv_buf := []\<rparr>;
       e \<leftarrow> tsm_terminate_statemachine t e;
       Some (0, t,
             if tcb_malloced t
             then tlkp_free_tcb t
                    (upd_tcp_stats (l4cb_interface t) (\<lambda>s. s\<lparr>ts_tcb_freed := ts_tcb_freed s + 1\<rparr>) e)
             else e)
     }"

subsection \<open>What the states share\<close>

text \<open>The answer to a segment outside of the window.\<close>

definition tsm_seg_not_ok :: "'a tcb \<Rightarrow> 'a env \<Rightarrow> 'a env" where
  "tsm_seg_not_ok t e =
     (if \<not> TCP_IS_FLAG_SET (pcb_tcp (e_pcb e)) RTE_TCP_RST_FLAG then tcp_send_ack_pkt t e
      else TCP_RECV_RST_INC_STAT t e)"

text \<open>The close is announced before the state is entered.\<close>

definition tsm_notif_closing_enter ::
  "'a prm \<Rightarrow> 'a tsm_disp \<Rightarrow> tcp_state \<Rightarrow> 'a tcb \<Rightarrow> 'a env \<Rightarrow> 'a tsm_result" where
  "tsm_notif_closing_enter P disp st t e =
     do {
       (t, e) \<leftarrow> TCP_NOTIF P TEST_NOTIF_SESS_CLOSING t e;
       tsm_enter_state disp st NoArg t e
     }"

definition tsm_update_snd_wnd :: "u32 \<Rightarrow> u32 \<Rightarrow> u32 \<Rightarrow> 'a tcb \<Rightarrow> 'a tcb" where
  "tsm_update_snd_wnd seg_seq seg_ack seg_wnd t =
     (if SEG_GT seg_seq (snd_wl1 t) \<or> (SEG_EQ seg_seq (snd_wl1 t) \<and> SEG_GE seg_ack (snd_wl2 t))
      then t\<lparr>snd_wnd := seg_wnd, snd_wl1 := seg_seq, snd_wl2 := seg_ack\<rparr> else t)"

text \<open>
  The acknowledgment of a connection that has not sent its FIN, and of one that has: the FIN
  is not in the retransmission queue. The boolean is false when the segment is dropped: a
  duplicate, or it acknowledges what was not sent.
\<close>

definition tsm_process_ack ::
  "'a prm \<Rightarrow> u32 \<Rightarrow> u32 \<Rightarrow> u32 \<Rightarrow> 'a tcb \<Rightarrow> 'a env \<Rightarrow> (bool \<times> 'a tcb \<times> 'a env) option" where
  "tsm_process_ack P seg_seq seg_ack seg_wnd t e =
     do {
       (t, e) \<leftarrow> (if SEG_GT seg_ack (snd_una t) \<and> SEG_LE seg_ack (snd_nxt t)
                   then tsm_cleanup_retrans_queu P seg_ack t e else Some (t, e));
       if SEG_LT seg_ack (snd_una t) then Some (False, t, e)
       else if SEG_GT seg_ack (snd_nxt t) then Some (False, t, e)
       else Some (True, tsm_update_snd_wnd seg_seq seg_ack seg_wnd t, e)
     }"

definition tsm_process_fin_ack ::
  "'a prm \<Rightarrow> u32 \<Rightarrow> u32 \<Rightarrow> u32 \<Rightarrow> 'a tcb \<Rightarrow> 'a env \<Rightarrow> (bool \<times> 'a tcb \<times> 'a env) option" where
  "tsm_process_fin_ack P seg_seq seg_ack seg_wnd t e =
     do {
       (t, e) \<leftarrow> (if SEG_GT seg_ack (snd_una t) \<and> SEG_LE seg_ack (snd_nxt t)
                   then tsm_cleanup_retrans_queu P
                          (if seg_ack = snd_nxt t then seg_ack - 1 else seg_ack) t e
                   else Some (t, e));
       if SEG_LT seg_ack (snd_una t) then Some (False, t, e)
       else if SEG_GT seg_ack (snd_nxt t) then Some (False, t, e)
       else Some (True, tsm_update_snd_wnd seg_seq seg_ack seg_wnd t, e)
     }"

subsection \<open>The state functions\<close>

definition tsm_SF_init :: "'a tsm_disp \<Rightarrow> 'a tsm_disp" where
  "tsm_SF_init disp event arg t e =
     (case event of
        TE_OPEN \<Rightarrow>
          if tcb_active t
          then
            let t = t\<lparr>snd_una := snd_iss t, snd_nxt := snd_iss t + 1\<rparr>;
                e = tcp_send_ctrl_pkt t (RTE_TCP_SYN_FLAG OR TCP_BUILD_FLAG_USE_ISS) e
            in tsm_enter_state disp TS_SYN_SENT NoArg t e
          else tsm_enter_state disp TS_LISTEN NoArg t e
      | TE_SEND \<Rightarrow> Some (- ENOTCONN, t, e)
      | TE_RECEIVE \<Rightarrow> Some (- ENOTCONN, t, e)
      | TE_CLOSE \<Rightarrow> tsm_enter_state disp TS_CLOSED NoArg t e
      | _ \<Rightarrow> Some (0, t, e))"

text \<open>
  A SYN for a listening block makes a new block, the copy the code goes on with. What becomes of
  it is written back to the memory of the core; the listening block does not change.
\<close>

definition tsm_listen_syn :: "'a prm \<Rightarrow> 'a tsm_disp \<Rightarrow> 'a tcb \<Rightarrow> 'a env \<Rightarrow> 'a tsm_result" where
  "tsm_listen_syn P disp t e =
     (let e = TCP_RECV_SYN_INC_STAT t e;
          tcp = pcb_tcp (e_pcb e);
          seg_seq = th_sent_seq tcp
      in case tcb_clone t e of
           (None, e) \<Rightarrow> Some (- ENOMEM, t, e)
         | (Some new, e) \<Rightarrow>
             let new = new\<lparr>l4cb_dst_addr := pcb_src_addr (e_pcb e), l4cb_dst_port := th_src_port tcp\<rparr>;
                 new = l4_cb_calc_connection_hash P new;
                 e = tlkp_add_tcb new e;
                 new = new\<lparr>rcv_nxt := seg_seq + 1, rcv_irs := seg_seq,
                           snd_una := snd_iss new, snd_nxt := snd_iss new + 1\<rparr>;
                 e = tcp_send_ctrl_pkt new
                       (RTE_TCP_SYN_FLAG OR RTE_TCP_ACK_FLAG OR TCP_BUILD_FLAG_USE_ISS) e
             in map_option
                  (\<lambda>(r, new, e). (r, t, e\<lparr>e_tcbs := (e_tcbs e)(l4cb_id new := new)\<rparr>))
                  (tsm_enter_state disp TS_SYN_RECV PcbArg new e))"

definition tsm_SF_listen :: "'a prm \<Rightarrow> 'a tsm_disp \<Rightarrow> 'a tsm_disp" where
  "tsm_SF_listen P disp event arg t e =
     (case event of
        TE_ENTER_STATE \<Rightarrow> map_option (\<lambda>r. (0, r)) (TCP_NOTIF P TEST_NOTIF_SESS_LISTEN t e)
      | TE_SEND \<Rightarrow> Some (- ENOTCONN, t, e)
      | TE_RECEIVE \<Rightarrow> Some (- ENOTCONN, t, e)
      | TE_CLOSE \<Rightarrow> tsm_notif_closing_enter P disp TS_CLOSED t e
      | TE_SEGMENT_ARRIVES \<Rightarrow>
          if arg = NoArg then Some (0, t, e)
          else if TCP_IS_FLAG_SET (pcb_tcp (e_pcb e)) RTE_TCP_RST_FLAG
          then Some (0, t, TCP_RECV_RST_INC_STAT t e)
          else if TCP_IS_FLAG_SET (pcb_tcp (e_pcb e)) RTE_TCP_ACK_FLAG
          then Some (0, t, tcp_send_ctrl_pkt t (RTE_TCP_ACK_FLAG OR RTE_TCP_RST_FLAG) e)
          else if TCP_IS_FLAG_SET (pcb_tcp (e_pcb e)) RTE_TCP_SYN_FLAG
          then tsm_listen_syn P disp t e
          else Some (0, t, e)
      | _ \<Rightarrow> Some (0, t, e))"

text \<open>The SYN of the peer in \<open>SYN_SENT\<close>: the connection is up when it acknowledges ours.\<close>

definition tsm_syn_sent_syn :: "'a prm \<Rightarrow> 'a tsm_disp \<Rightarrow> 'a tcb \<Rightarrow> 'a env \<Rightarrow> 'a tsm_result" where
  "tsm_syn_sent_syn P disp t e =
     (let tcp = pcb_tcp (e_pcb e);
          seg_ack = th_recv_ack tcp;
          seg_seq = th_sent_seq tcp;
          seg_wnd = ucast (th_rx_win tcp);
          seg_len = ucast (pcb_l5_len (e_pcb e));
          e = TCP_RECV_SYN_INC_STAT t e;
          t = t\<lparr>rcv_nxt := seg_seq + 1, rcv_irs := seg_seq\<rparr>
      in do {
        (t, e) \<leftarrow> (if TCP_IS_FLAG_SET tcp RTE_TCP_ACK_FLAG
                    then tsm_cleanup_retrans_queu P seg_ack (t\<lparr>snd_una := snd_una t + 1\<rparr>) e
                    else Some (t, e));
        if TCP_IS_FLAG_SET tcp RTE_TCP_ACK_FLAG \<and> SEG_GT (snd_una t) (snd_iss t)
        then do {
          let t = t\<lparr>snd_wnd := seg_wnd, snd_wl1 := seg_seq, snd_wl2 := seg_ack\<rparr>;
          (t, e) \<leftarrow> TCP_NOTIF P TEST_NOTIF_SESS_CONNECTED t e;
          (t, e) \<leftarrow> (if seg_len \<noteq> 0
                      then map_option snd (tsm_handle_incoming P seg_seq seg_len t e)
                      else Some (t, e));
          (t, e) \<leftarrow> rto_cancel t e;
          (ret, t, e) \<leftarrow> tsm_enter_state disp TS_ESTABLISHED NoArg t e;
          Some (ret, t, if tsm_need_ack t then tcp_send_ack_pkt t e else e)
        }
        else
          tsm_enter_state disp TS_SYN_RECV NoArg t
            (tcp_send_ctrl_pkt t
               (RTE_TCP_ACK_FLAG OR RTE_TCP_SYN_FLAG OR TCP_BUILD_FLAG_USE_ISS) e)
      })"

definition tsm_syn_sent_segment ::
  "'a prm \<Rightarrow> 'a tsm_disp \<Rightarrow> 'a tcb \<Rightarrow> 'a env \<Rightarrow> 'a tsm_result" where
  "tsm_syn_sent_segment P disp t e =
     (let tcp = pcb_tcp (e_pcb e);
          seg_ack = th_recv_ack tcp
      in if TCP_IS_FLAG_SET tcp RTE_TCP_ACK_FLAG \<and>
            (SEG_LE seg_ack (snd_iss t) \<or> SEG_GT seg_ack (snd_nxt t))
         then if TCP_IS_FLAG_SET tcp RTE_TCP_RST_FLAG
              then Some (0, t, TCP_RECV_RST_INC_STAT t e)
              else Some (0, t, tcp_send_ctrl_pkt t (RTE_TCP_ACK_FLAG OR RTE_TCP_RST_FLAG) e)
         else if TCP_IS_FLAG_SET tcp RTE_TCP_ACK_FLAG \<and>
                 \<not> (SEG_GE seg_ack (snd_una t) \<and> SEG_LE seg_ack (snd_nxt t))
         then Some (0, t, e)
         else if TCP_IS_FLAG_SET tcp RTE_TCP_RST_FLAG
         then tsm_notif_closing_enter P disp TS_CLOSED (t\<lparr>tcb_rst_rcvd := True\<rparr>)
                (TCP_RECV_RST_INC_STAT t e)
         else if TCP_IS_FLAG_SET tcp RTE_TCP_SYN_FLAG then tsm_syn_sent_syn P disp t e
         else Some (0, t, e))"

definition tsm_SF_syn_sent :: "'a prm \<Rightarrow> 'a tsm_disp \<Rightarrow> 'a tsm_disp" where
  "tsm_SF_syn_sent P disp event arg t e =
     (case event of
        TE_ENTER_STATE \<Rightarrow>
          map_option (\<lambda>(t, e). (0, tsm_schedule_retransmission t e))
            (TCP_NOTIF P TEST_NOTIF_SESS_CONNECTING t e)
      | TE_SEND \<Rightarrow> Some (- ENOTCONN, t, e)
      | TE_RECEIVE \<Rightarrow> Some (- ENOTCONN, t, e)
      | TE_CLOSE \<Rightarrow> tsm_notif_closing_enter P disp TS_CLOSED t e
      | TE_SEGMENT_ARRIVES \<Rightarrow>
          if arg = NoArg then Some (0, t, e) else tsm_syn_sent_segment P disp t e
      | TE_RETRANSMISSION_TIMEOUT \<Rightarrow>
          let (give_up, e) = TCP_TOO_MANY_RETRIES (tcpo_syn_retry_cnt (l4cb_sockopt t)) inc_syn_to t e
          in if give_up then tsm_notif_closing_enter P disp TS_CLOSED t e
             else
               let e = tcp_send_ctrl_pkt t (RTE_TCP_SYN_FLAG OR TCP_BUILD_FLAG_USE_ISS) e
               in Some (0, tsm_schedule_retransmission t e)
      | _ \<Rightarrow> Some (0, t, e))"

text \<open>\<open>SYN_RECV\<close>: the steps on a segment from its acknowledgment on, then the whole.\<close>

definition tsm_syn_recv_text :: "'a prm \<Rightarrow> 'a tsm_disp \<Rightarrow> 'a tcb \<Rightarrow> 'a env \<Rightarrow> 'a tsm_result" where
  "tsm_syn_recv_text P disp t e =
     (let tcp = pcb_tcp (e_pcb e);
          seg_len = ucast (pcb_l5_len (e_pcb e));
          seg_seq = th_sent_seq tcp;
          seg_ack = th_recv_ack tcp;
          seg_wnd = ucast (th_rx_win tcp)
      in do {
        (t, e) \<leftarrow> (if SEG_GT seg_ack (snd_una t)
                    then tsm_cleanup_retrans_queu P seg_ack (t\<lparr>snd_una := snd_una t + 1\<rparr>) e
                    else Some (t, e));
        let t = t\<lparr>snd_wnd := seg_wnd, snd_wl1 := seg_seq, snd_wl2 := seg_ack\<rparr>;
        (delivered, t, e) \<leftarrow> (if seg_len \<noteq> 0 then tsm_handle_incoming P seg_seq seg_len t e
                                 else Some (0, t, e));
        let e = (if delivered \<noteq> 0 \<and> tsm_need_ack t then tcp_send_ack_pkt t e else e);
        if TCP_IS_FLAG_SET tcp RTE_TCP_FIN_FLAG
        then tsm_notif_closing_enter P disp TS_CLOSE_WAIT (t\<lparr>rcv_nxt := rcv_nxt t + 1\<rparr>)
               (TCP_RECV_FIN_INC_STAT t e)
        else do {
          (t, e) \<leftarrow> rto_cancel t e;
          tsm_enter_state disp TS_ESTABLISHED NoArg t e
        }
      })"

definition tsm_syn_recv_segment ::
  "'a prm \<Rightarrow> 'a tsm_disp \<Rightarrow> 'a tcb \<Rightarrow> 'a env \<Rightarrow> 'a tsm_result" where
  "tsm_syn_recv_segment P disp t e =
     (let tcp = pcb_tcp (e_pcb e);
          seg_len = ucast (pcb_l5_len (e_pcb e));
          seg_seq = th_sent_seq tcp;
          seg_ack = th_recv_ack tcp
      in if \<not> tsm_do_receive_acceptance_test t seg_len seg_seq then Some (0, t, tsm_seg_not_ok t e)
         else if TCP_IS_FLAG_SET tcp RTE_TCP_RST_FLAG
         then tsm_notif_closing_enter P disp TS_CLOSED (t\<lparr>tcb_rst_rcvd := True\<rparr>)
                (TCP_RECV_RST_INC_STAT t e)
         else if TCP_IS_FLAG_SET tcp RTE_TCP_SYN_FLAG
         then tsm_notif_closing_enter P disp TS_CLOSED t (TCP_RECV_SYN_INC_STAT t e)
         else if \<not> TCP_IS_FLAG_SET tcp RTE_TCP_ACK_FLAG then Some (0, t, e)
         else if \<not> (SEG_GE seg_ack (snd_una t) \<and> SEG_LE seg_ack (snd_nxt t))
         then Some (0, t, tcp_send_ctrl_pkt t (RTE_TCP_ACK_FLAG OR RTE_TCP_RST_FLAG) e)
         else tsm_syn_recv_text P disp t e)"

definition tsm_SF_syn_recv :: "'a prm \<Rightarrow> 'a tsm_disp \<Rightarrow> 'a tsm_disp" where
  "tsm_SF_syn_recv P disp event arg t e =
     (case event of
        TE_ENTER_STATE \<Rightarrow>
          map_option (\<lambda>(t, e). (0, tsm_schedule_retransmission t e))
            (TCP_NOTIF P TEST_NOTIF_SESS_SRV_CONNECTED t e)
      | TE_SEND \<Rightarrow> Some (- ENOTCONN, t, e)
      | TE_RECEIVE \<Rightarrow> Some (- ENOTCONN, t, e)
      | TE_CLOSE \<Rightarrow> tsm_notif_closing_enter P disp TS_FIN_WAIT_I t e
      | TE_SEGMENT_ARRIVES \<Rightarrow>
          if arg = NoArg then Some (0, t, e) else tsm_syn_recv_segment P disp t e
      | TE_RETRANSMISSION_TIMEOUT \<Rightarrow>
          let (give_up, e) =
                TCP_TOO_MANY_RETRIES (tcpo_syn_ack_retry_cnt (l4cb_sockopt t)) inc_synack_to t e
          in if give_up then tsm_notif_closing_enter P disp TS_CLOSED t e
             else
               let e = tcp_send_ctrl_pkt t
                         (RTE_TCP_SYN_FLAG OR RTE_TCP_ACK_FLAG OR TCP_BUILD_FLAG_USE_ISS) e
               in Some (0, tsm_schedule_retransmission t e)
      | _ \<Rightarrow> Some (0, t, e))"

text \<open>\<open>ESTABLISHED\<close>.\<close>

definition tsm_estab_fin :: "'a prm \<Rightarrow> 'a tsm_disp \<Rightarrow> 'a tcb \<Rightarrow> 'a env \<Rightarrow> 'a tsm_result" where
  "tsm_estab_fin P disp t e =
     (let tcp = pcb_tcp (e_pcb e);
          fin_seq = th_sent_seq tcp + ucast (pcb_l5_len (e_pcb e))
      in if TCP_IS_FLAG_SET tcp RTE_TCP_FIN_FLAG
         then
           let e = TCP_RECV_FIN_INC_STAT t e
           in if \<not> SEG_EQ (rcv_nxt t) fin_seq
              then Some (0, t\<lparr>tcb_fin_rcvd := True, tcb_rcv_fin_seq := fin_seq\<rparr>, e)
              else tsm_notif_closing_enter P disp TS_CLOSE_WAIT (t\<lparr>rcv_nxt := rcv_nxt t + 1\<rparr>) e
         else if tcb_fin_rcvd t \<and> SEG_EQ (rcv_nxt t) (tcb_rcv_fin_seq t)
         then tsm_notif_closing_enter P disp TS_CLOSE_WAIT (t\<lparr>rcv_nxt := rcv_nxt t + 1\<rparr>) e
         else Some (0, t, e))"

definition tsm_estab_segment ::
  "'a prm \<Rightarrow> 'a tsm_disp \<Rightarrow> 'a tcb \<Rightarrow> 'a env \<Rightarrow> 'a tsm_result" where
  "tsm_estab_segment P disp t e =
     (let tcp = pcb_tcp (e_pcb e);
          seg_len = ucast (pcb_l5_len (e_pcb e));
          seg_seq = th_sent_seq tcp
      in if \<not> tsm_do_receive_acceptance_test t seg_len seg_seq then Some (0, t, tsm_seg_not_ok t e)
         else if TCP_IS_FLAG_SET tcp RTE_TCP_RST_FLAG
         then tsm_notif_closing_enter P disp TS_CLOSED (t\<lparr>tcb_rst_rcvd := True\<rparr>)
                (TCP_RECV_RST_INC_STAT t e)
         else if TCP_IS_FLAG_SET tcp RTE_TCP_SYN_FLAG
         then tsm_notif_closing_enter P disp TS_CLOSED t (TCP_RECV_SYN_INC_STAT t e)
         else if \<not> TCP_IS_FLAG_SET tcp RTE_TCP_ACK_FLAG then Some (0, t, e)
         else do {
           (go_on, t, e) \<leftarrow> tsm_process_ack P seg_seq (th_recv_ack tcp) (ucast (th_rx_win tcp)) t e;
           if \<not> go_on then Some (0, t, e)
           else do {
             (delivered, t, e) \<leftarrow> (if seg_len \<noteq> 0 then tsm_handle_incoming P seg_seq seg_len t e
                                      else Some (0, t, e));
             tsm_estab_fin P disp t
               (if delivered \<noteq> 0 \<and> tsm_need_ack t then tcp_send_ack_pkt t e else e)
           }
         })"

definition tsm_SF_estab :: "'a prm \<Rightarrow> 'a tsm_disp \<Rightarrow> 'a tsm_disp" where
  "tsm_SF_estab P disp event arg t e =
     (case event of
        TE_SEND \<Rightarrow> (case arg of DataArg data \<Rightarrow> tsm_send_data P data t e | _ \<Rightarrow> Some (0, t, e))
      | TE_CLOSE \<Rightarrow> tsm_notif_closing_enter P disp TS_FIN_WAIT_I t e
      | TE_SEGMENT_ARRIVES \<Rightarrow>
          if arg = NoArg then Some (0, t, e) else tsm_estab_segment P disp t e
      | TE_RETRANSMISSION_TIMEOUT \<Rightarrow>
          let (give_up, e) =
                TCP_TOO_MANY_RETRIES (tcpo_data_retry_cnt (l4cb_sockopt t)) inc_retry_to t e
          in if give_up then tsm_notif_closing_enter P disp TS_CLOSED t e
             else map_option (\<lambda>(t, e). (0, tsm_schedule_retransmission t e)) (tsm_retrans_data P t e)
      | _ \<Rightarrow> Some (0, t, e))"

text \<open>\<open>FIN_WAIT_I\<close>. The boolean of \<open>tsm_fin_wait_I_fin\<close> is \<open>our_fin_acked\<close>.\<close>

definition tsm_fin_wait_I_fin ::
  "'a tsm_disp \<Rightarrow> bool \<Rightarrow> 'a tcb \<Rightarrow> 'a env \<Rightarrow> 'a tsm_result" where
  "tsm_fin_wait_I_fin disp our_fin_acked t e =
     (let tcp = pcb_tcp (e_pcb e);
          fin_seq = th_sent_seq tcp + ucast (pcb_l5_len (e_pcb e))
      in if \<not> TCP_IS_FLAG_SET tcp RTE_TCP_FIN_FLAG
         then
           let t = (if tcb_fin_rcvd t \<and> SEG_EQ (rcv_nxt t) (tcb_rcv_fin_seq t)
                    then t\<lparr>rcv_nxt := rcv_nxt t + 1\<rparr> else t);
               e = tcp_send_ack_pkt t e
           in if our_fin_acked
              then Option.bind (slow_cancel t e) (\<lambda>(t, e). tsm_enter_state disp TS_FIN_WAIT_II NoArg t e)
              else Some (0, t, e)
         else
           let e = TCP_RECV_FIN_INC_STAT t e
           in if \<not> SEG_EQ (rcv_nxt t) fin_seq
              then Some (0, t\<lparr>tcb_fin_rcvd := True, tcb_rcv_fin_seq := fin_seq\<rparr>, e)
              else
                let t = t\<lparr>rcv_nxt := rcv_nxt t + 1\<rparr>;
                    e = tcp_send_ack_pkt t e
                in Option.bind (slow_cancel t e)
                     (\<lambda>(t, e). tsm_enter_state disp
                                 (if our_fin_acked then TS_TIME_WAIT else TS_CLOSING) NoArg t e))"

definition tsm_fin_wait_I_segment ::
  "'a prm \<Rightarrow> 'a tsm_disp \<Rightarrow> 'a tcb \<Rightarrow> 'a env \<Rightarrow> 'a tsm_result" where
  "tsm_fin_wait_I_segment P disp t e =
     (let tcp = pcb_tcp (e_pcb e);
          seg_len = ucast (pcb_l5_len (e_pcb e));
          seg_seq = th_sent_seq tcp;
          seg_ack = th_recv_ack tcp
      in if \<not> tsm_do_receive_acceptance_test t seg_len seg_seq then Some (0, t, tsm_seg_not_ok t e)
         else if TCP_IS_FLAG_SET tcp RTE_TCP_RST_FLAG
         then do {
           (t, e) \<leftarrow> slow_cancel t (TCP_RECV_RST_INC_STAT t e);
           tsm_enter_state disp TS_CLOSED NoArg (t\<lparr>tcb_rst_rcvd := True\<rparr>) e
         }
         else if TCP_IS_FLAG_SET tcp RTE_TCP_SYN_FLAG
         then do {
           (t, e) \<leftarrow> slow_cancel t (TCP_RECV_SYN_INC_STAT t e);
           tsm_enter_state disp TS_CLOSED NoArg t e
         }
         else if \<not> TCP_IS_FLAG_SET tcp RTE_TCP_ACK_FLAG then Some (0, t, e)
         else do {
           (go_on, t, e) \<leftarrow> tsm_process_fin_ack P seg_seq seg_ack (ucast (th_rx_win tcp)) t e;
           if \<not> go_on then Some (0, t, e)
           else do {
             let our_fin_acked = (snd_una t = snd_nxt t - 1 \<and> seg_ack = snd_nxt t);
             let t = (if our_fin_acked then t\<lparr>snd_una := snd_una t + 1\<rparr> else t);
             (t, e) \<leftarrow> (if seg_len \<noteq> 0
                         then map_option snd (tsm_handle_incoming P seg_seq seg_len t e)
                         else Some (t, e));
             tsm_fin_wait_I_fin disp our_fin_acked t e
           }
         })"

definition tsm_SF_fin_wait_I :: "'a prm \<Rightarrow> 'a tsm_disp \<Rightarrow> 'a tsm_disp" where
  "tsm_SF_fin_wait_I P disp event arg t e =
     (case event of
        TE_ENTER_STATE \<Rightarrow>
          let e = tcp_send_ctrl_pkt t (RTE_TCP_FIN_FLAG OR RTE_TCP_ACK_FLAG) e;
              t = t\<lparr>snd_nxt := snd_nxt t + 1\<rparr>;
              (t, e) = tsm_schedule_retransmission t e;
              (_, t, e) = tcp_timer_slow_set (tcpo_orphan_to (l4cb_sockopt t)) t e
          in Some (0, t, e)
      | TE_OPEN \<Rightarrow> Some (- ENOTCONN, t, e)
      | TE_SEND \<Rightarrow> Some (- ENOTCONN, t, e)
      | TE_RECEIVE \<Rightarrow> Some (- ENOTCONN, t, e)
      | TE_CLOSE \<Rightarrow> Some (- ENOTCONN, t, e)
      | TE_SEGMENT_ARRIVES \<Rightarrow>
          if arg = NoArg then Some (0, t, e) else tsm_fin_wait_I_segment P disp t e
      | TE_RETRANSMISSION_TIMEOUT \<Rightarrow>
          let (give_up, e) = TCP_TOO_MANY_RETRIES (tcpo_retry_cnt (l4cb_sockopt t)) inc_retry_to t e
          in if give_up
             then Option.bind (slow_cancel t e) (\<lambda>(t, e). tsm_enter_state disp TS_CLOSED NoArg t e)
             else
               let e = tcp_send_ctrl_pkt_with_sseq t (snd_nxt t - 1)
                         (RTE_TCP_FIN_FLAG OR RTE_TCP_ACK_FLAG) e
               in Some (0, tsm_schedule_retransmission t e)
      | TE_ORPHAN_TIMEOUT \<Rightarrow> tsm_enter_state disp TS_CLOSED NoArg t e
      | _ \<Rightarrow> Some (0, t, e))"

text \<open>\<open>FIN_WAIT_II\<close>.\<close>

definition tsm_fin_wait_II_text ::
  "'a prm \<Rightarrow> 'a tsm_disp \<Rightarrow> 'a tcb \<Rightarrow> 'a env \<Rightarrow> 'a tsm_result" where
  "tsm_fin_wait_II_text P disp t e =
     (let tcp = pcb_tcp (e_pcb e);
          seg_len = ucast (pcb_l5_len (e_pcb e));
          seg_seq = th_sent_seq tcp
      in do {
        (go_on, t, e) \<leftarrow> tsm_process_ack P seg_seq (th_recv_ack tcp) (ucast (th_rx_win tcp)) t e;
        if \<not> go_on then Some (0, t, e)
        else do {
          (t, e) \<leftarrow> (if seg_len \<noteq> 0
                      then map_option snd (tsm_handle_incoming P seg_seq seg_len t e)
                      else Some (t, e));
          if \<not> TCP_IS_FLAG_SET tcp RTE_TCP_FIN_FLAG then Some (0, t, tcp_send_ack_pkt t e)
          else do {
            (t, e) \<leftarrow> slow_cancel t (TCP_RECV_FIN_INC_STAT t e);
            let t = t\<lparr>rcv_nxt := rcv_nxt t + 1\<rparr>;
            tsm_enter_state disp TS_TIME_WAIT NoArg t (tcp_send_ack_pkt t e)
          }
        }
      })"

definition tsm_fin_wait_II_segment ::
  "'a prm \<Rightarrow> 'a tsm_disp \<Rightarrow> 'a tcb \<Rightarrow> 'a env \<Rightarrow> 'a tsm_result" where
  "tsm_fin_wait_II_segment P disp t e =
     (let tcp = pcb_tcp (e_pcb e);
          seg_len = ucast (pcb_l5_len (e_pcb e))
      in if \<not> tsm_do_receive_acceptance_test t seg_len (th_sent_seq tcp)
         then Some (0, t, tsm_seg_not_ok t e)
         else if TCP_IS_FLAG_SET tcp RTE_TCP_RST_FLAG
         then do {
           (t, e) \<leftarrow> slow_cancel t (TCP_RECV_RST_INC_STAT t e);
           tsm_enter_state disp TS_CLOSED NoArg (t\<lparr>tcb_rst_rcvd := True\<rparr>) e
         }
         else if TCP_IS_FLAG_SET tcp RTE_TCP_SYN_FLAG
         then do {
           (t, e) \<leftarrow> slow_cancel t (TCP_RECV_SYN_INC_STAT t e);
           tsm_enter_state disp TS_CLOSED NoArg t e
         }
         else if \<not> TCP_IS_FLAG_SET tcp RTE_TCP_ACK_FLAG then Some (0, t, e)
         else tsm_fin_wait_II_text P disp t e)"

definition tsm_SF_fin_wait_II :: "'a prm \<Rightarrow> 'a tsm_disp \<Rightarrow> 'a tsm_disp" where
  "tsm_SF_fin_wait_II P disp event arg t e =
     (case event of
        TE_ENTER_STATE \<Rightarrow> Some (0, snd (tcp_timer_slow_set (tcpo_fin_to (l4cb_sockopt t)) t e))
      | TE_OPEN \<Rightarrow> Some (- ENOTCONN, t, e)
      | TE_SEND \<Rightarrow> Some (- ENOTCONN, t, e)
      | TE_RECEIVE \<Rightarrow> Some (- ENOTCONN, t, e)
      | TE_CLOSE \<Rightarrow> Some (- ENOTCONN, t, e)
      | TE_SEGMENT_ARRIVES \<Rightarrow>
          if arg = NoArg then Some (0, t, e) else tsm_fin_wait_II_segment P disp t e
      | TE_FIN_TIMEOUT \<Rightarrow> tsm_enter_state disp TS_CLOSED NoArg t e
      | _ \<Rightarrow> Some (0, t, e))"

text \<open>\<open>LAST_ACK\<close>.\<close>

definition tsm_last_ack_segment :: "'a tsm_disp \<Rightarrow> 'a tcb \<Rightarrow> 'a env \<Rightarrow> 'a tsm_result" where
  "tsm_last_ack_segment disp t e =
     (let tcp = pcb_tcp (e_pcb e);
          seg_len = ucast (pcb_l5_len (e_pcb e))
      in if \<not> tsm_do_receive_acceptance_test t seg_len (th_sent_seq tcp)
         then Some (0, t, tsm_seg_not_ok t e)
         else if TCP_IS_FLAG_SET tcp RTE_TCP_RST_FLAG
         then tsm_enter_state disp TS_CLOSED NoArg (t\<lparr>tcb_rst_rcvd := True\<rparr>)
                (TCP_RECV_RST_INC_STAT t e)
         else if TCP_IS_FLAG_SET tcp RTE_TCP_SYN_FLAG
         then tsm_enter_state disp TS_CLOSED NoArg t (TCP_RECV_SYN_INC_STAT t e)
         else if \<not> TCP_IS_FLAG_SET tcp RTE_TCP_ACK_FLAG then Some (0, t, e)
         else if SEG_EQ (th_recv_ack tcp) (snd_nxt t)
         then tsm_enter_state disp TS_CLOSED NoArg t e
         else Some (0, t, e))"

definition tsm_SF_last_ack :: "'a tsm_disp \<Rightarrow> 'a tsm_disp" where
  "tsm_SF_last_ack disp event arg t e =
     (case event of
        TE_ENTER_STATE \<Rightarrow> Some (0, tsm_schedule_retransmission t e)
      | TE_OPEN \<Rightarrow> Some (- ENOTCONN, t, e)
      | TE_SEND \<Rightarrow> Some (- ENOTCONN, t, e)
      | TE_RECEIVE \<Rightarrow> Some (- ENOTCONN, t, e)
      | TE_CLOSE \<Rightarrow> Some (- ENOTCONN, t, e)
      | TE_SEGMENT_ARRIVES \<Rightarrow>
          if arg = NoArg then Some (0, t, e) else tsm_last_ack_segment disp t e
      | TE_RETRANSMISSION_TIMEOUT \<Rightarrow>
          let (give_up, e) = TCP_TOO_MANY_RETRIES (tcpo_retry_cnt (l4cb_sockopt t)) inc_retry_to t e
          in if give_up then tsm_enter_state disp TS_CLOSED NoArg t e
             else
               let e = tcp_send_ctrl_pkt_with_sseq t (snd_nxt t - 1)
                         (RTE_TCP_ACK_FLAG OR RTE_TCP_FIN_FLAG) e
               in Some (0, tsm_schedule_retransmission t e)
      | _ \<Rightarrow> Some (0, t, e))"

text \<open>\<open>CLOSING\<close>.\<close>

definition tsm_closing_segment ::
  "'a prm \<Rightarrow> 'a tsm_disp \<Rightarrow> 'a tcb \<Rightarrow> 'a env \<Rightarrow> 'a tsm_result" where
  "tsm_closing_segment P disp t e =
     (let tcp = pcb_tcp (e_pcb e);
          seg_len = ucast (pcb_l5_len (e_pcb e));
          seg_seq = th_sent_seq tcp;
          seg_ack = th_recv_ack tcp
      in if \<not> tsm_do_receive_acceptance_test t seg_len seg_seq then Some (0, t, tsm_seg_not_ok t e)
         else if TCP_IS_FLAG_SET tcp RTE_TCP_RST_FLAG
         then tsm_enter_state disp TS_CLOSED NoArg (t\<lparr>tcb_rst_rcvd := True\<rparr>)
                (TCP_RECV_RST_INC_STAT t e)
         else if TCP_IS_FLAG_SET tcp RTE_TCP_SYN_FLAG
         then tsm_enter_state disp TS_CLOSED NoArg t (TCP_RECV_SYN_INC_STAT t e)
         else if \<not> TCP_IS_FLAG_SET tcp RTE_TCP_ACK_FLAG then Some (0, t, e)
         else do {
           (go_on, t, e) \<leftarrow> tsm_process_fin_ack P seg_seq seg_ack (ucast (th_rx_win tcp)) t e;
           if go_on \<and> snd_una t = snd_nxt t - 1 \<and> seg_ack = snd_nxt t
           then do {
             (t, e) \<leftarrow> rto_cancel_if_set t e;
             tsm_enter_state disp TS_TIME_WAIT NoArg t e
           }
           else Some (0, t, e)
         })"

definition tsm_SF_closing :: "'a prm \<Rightarrow> 'a tsm_disp \<Rightarrow> 'a tsm_disp" where
  "tsm_SF_closing P disp event arg t e =
     (case event of
        TE_ENTER_STATE \<Rightarrow> Some (0, tsm_schedule_retransmission t e)
      | TE_OPEN \<Rightarrow> Some (- ENOTCONN, t, e)
      | TE_SEND \<Rightarrow> Some (- ENOTCONN, t, e)
      | TE_RECEIVE \<Rightarrow> Some (- ENOTCONN, t, e)
      | TE_CLOSE \<Rightarrow> Some (- ENOTCONN, t, e)
      | TE_SEGMENT_ARRIVES \<Rightarrow>
          if arg = NoArg then Some (0, t, e) else tsm_closing_segment P disp t e
      | TE_RETRANSMISSION_TIMEOUT \<Rightarrow>
          let (give_up, e) = TCP_TOO_MANY_RETRIES (tcpo_retry_cnt (l4cb_sockopt t)) inc_retry_to t e
          in if give_up then tsm_enter_state disp TS_CLOSED NoArg t e
             else
               let e = tcp_send_ctrl_pkt_with_sseq t (snd_nxt t - 1)
                         (RTE_TCP_FIN_FLAG OR RTE_TCP_ACK_FLAG) e
               in Some (0, tsm_schedule_retransmission t e)
      | _ \<Rightarrow> Some (0, t, e))"

text \<open>\<open>TIME_WAIT\<close>.\<close>

definition tsm_time_wait_segment :: "'a tsm_disp \<Rightarrow> 'a tcb \<Rightarrow> 'a env \<Rightarrow> 'a tsm_result" where
  "tsm_time_wait_segment disp t e =
     (let tcp = pcb_tcp (e_pcb e);
          seg_len = ucast (pcb_l5_len (e_pcb e))
      in if \<not> tsm_do_receive_acceptance_test t seg_len (th_sent_seq tcp)
         then Some (0, t, tsm_seg_not_ok t e)
         else if TCP_IS_FLAG_SET tcp RTE_TCP_RST_FLAG
         then tsm_enter_state disp TS_CLOSED NoArg (t\<lparr>tcb_rst_rcvd := True\<rparr>)
                (TCP_RECV_RST_INC_STAT t e)
         else if TCP_IS_FLAG_SET tcp RTE_TCP_SYN_FLAG
         then tsm_enter_state disp TS_CLOSED NoArg t (TCP_RECV_SYN_INC_STAT t e)
         else
           let e = tcp_send_ack_pkt t e
           in if \<not> tcb_on_slow_list t then None
              else map_option
                     (\<lambda>(t, e). (0, snd (tcp_timer_slow_set (tcpo_twait_to (l4cb_sockopt t)) t e)))
                     (slow_cancel t e))"

definition tsm_SF_time_wait :: "'a tsm_disp \<Rightarrow> 'a tsm_disp" where
  "tsm_SF_time_wait disp event arg t e =
     (case event of
        TE_ENTER_STATE \<Rightarrow> do {
          (t, e) \<leftarrow> rto_cancel_if_set t e;
          (t, e) \<leftarrow> slow_cancel_if_set t e;
          if tcpo_skip_timewait (l4cb_sockopt t) then tsm_enter_state disp TS_CLOSED NoArg t e
          else Some (0, snd (tcp_timer_slow_set (tcpo_twait_to (l4cb_sockopt t)) t e))
        }
      | TE_OPEN \<Rightarrow> Some (- ENOTCONN, t, e)
      | TE_SEND \<Rightarrow> Some (- ENOTCONN, t, e)
      | TE_RECEIVE \<Rightarrow> Some (- ENOTCONN, t, e)
      | TE_CLOSE \<Rightarrow> Some (- ENOTCONN, t, e)
      | TE_SEGMENT_ARRIVES \<Rightarrow>
          if arg = NoArg then Some (0, t, e) else tsm_time_wait_segment disp t e
      | TE_TIME_WAIT_TIMEOUT \<Rightarrow> tsm_enter_state disp TS_CLOSED NoArg t e
      | _ \<Rightarrow> Some (0, t, e))"

text \<open>\<open>CLOSE_WAIT\<close>: a connection that does not consume all data aborts the program.\<close>

definition tsm_close_wait_segment ::
  "'a prm \<Rightarrow> 'a tsm_disp \<Rightarrow> 'a tcb \<Rightarrow> 'a env \<Rightarrow> 'a tsm_result" where
  "tsm_close_wait_segment P disp t e =
     (let tcp = pcb_tcp (e_pcb e);
          seg_len = ucast (pcb_l5_len (e_pcb e));
          seg_seq = th_sent_seq tcp
      in if \<not> tsm_do_receive_acceptance_test t seg_len seg_seq then Some (0, t, tsm_seg_not_ok t e)
         else if TCP_IS_FLAG_SET tcp RTE_TCP_RST_FLAG
         then tsm_enter_state disp TS_CLOSED NoArg (t\<lparr>tcb_rst_rcvd := True\<rparr>)
                (TCP_RECV_RST_INC_STAT t e)
         else if TCP_IS_FLAG_SET tcp RTE_TCP_SYN_FLAG
         then tsm_enter_state disp TS_CLOSED NoArg t (TCP_RECV_SYN_INC_STAT t e)
         else if \<not> TCP_IS_FLAG_SET tcp RTE_TCP_ACK_FLAG then Some (0, t, e)
         else map_option (\<lambda>(_, r). (0, r))
                (tsm_process_ack P seg_seq (th_recv_ack tcp) (ucast (th_rx_win tcp)) t e))"

definition tsm_SF_close_wait :: "'a prm \<Rightarrow> 'a tsm_disp \<Rightarrow> 'a tsm_disp" where
  "tsm_SF_close_wait P disp event arg t e =
     (case event of
        TE_ENTER_STATE \<Rightarrow>
          if tcb_consume_all_data t
          then
            let e = tcp_send_ctrl_pkt t (RTE_TCP_ACK_FLAG OR RTE_TCP_FIN_FLAG) e
            in tsm_enter_state disp TS_LAST_ACK NoArg (t\<lparr>snd_nxt := snd_nxt t + 1\<rparr>) e
          else None
      | TE_SEND \<Rightarrow> (case arg of DataArg data \<Rightarrow> tsm_send_data P data t e | _ \<Rightarrow> Some (0, t, e))
      | TE_SEGMENT_ARRIVES \<Rightarrow>
          if arg = NoArg then Some (0, t, e) else tsm_close_wait_segment P disp t e
      | TE_RETRANSMISSION_TIMEOUT \<Rightarrow>
          let (give_up, e) = TCP_TOO_MANY_RETRIES (tcpo_retry_cnt (l4cb_sockopt t)) inc_retry_to t e
          in if give_up then tsm_enter_state disp TS_CLOSED NoArg t e
             else
               map_option
                 (\<lambda>(t, e). (0, t, tcp_send_ctrl_pkt_with_sseq t (snd_nxt t - 1)
                                   (RTE_TCP_FIN_FLAG OR RTE_TCP_ACK_FLAG) e))
                 (tsm_retrans_data P t e)
      | _ \<Rightarrow> Some (0, t, e))"

text \<open>\<open>CLOSED\<close>.\<close>

definition tsm_SF_closed :: "'a prm \<Rightarrow> 'a tsm_disp" where
  "tsm_SF_closed P event arg t e =
     (case event of
        TE_ENTER_STATE \<Rightarrow> do {
          (t, e) \<leftarrow> TCP_NOTIF P TEST_NOTIF_SESS_CLOSED t e;
          let e = (if arg = PcbArg then e\<lparr>e_pcb := (e_pcb e)\<lparr>pcb_sockopt := None\<rparr>\<rparr> else e);
          tcp_silent_close t e
        }
      | TE_OPEN \<Rightarrow> Some (- ENOTCONN, t, e)
      | TE_SEND \<Rightarrow> Some (- ENOTCONN, t, e)
      | TE_RECEIVE \<Rightarrow> Some (- ENOTCONN, t, e)
      | TE_CLOSE \<Rightarrow> Some (- ENOTCONN, t, e)
      | TE_ABORT \<Rightarrow> Some (- ENOTCONN, t, e)
      | TE_SEGMENT_ARRIVES \<Rightarrow>
          let tcp = pcb_tcp (e_pcb e)
          in if arg = NoArg then Some (0, t, e)
             else if \<not> TCP_IS_FLAG_SET tcp RTE_TCP_RST_FLAG
             then if TCP_IS_FLAG_SET tcp RTE_TCP_ACK_FLAG
                  then
                    let t = t\<lparr>snd_nxt := th_recv_ack tcp\<rparr>
                    in Some (0, t, tcp_send_ctrl_pkt t RTE_TCP_RST_FLAG e)
                  else
                    let t = t\<lparr>rcv_nxt := th_sent_seq tcp + ucast (pcb_l5_len (e_pcb e))\<rparr>
                    in Some (0, t, tcp_send_ctrl_pkt t (RTE_TCP_ACK_FLAG OR RTE_TCP_RST_FLAG) e)
             else Some (0, t, TCP_RECV_RST_INC_STAT t e)
      | _ \<Rightarrow> Some (0, t, e))"

subsection \<open>The state machine\<close>

definition tsm_function_array :: "'a prm \<Rightarrow> tcp_state \<Rightarrow> 'a tsm_disp \<Rightarrow> 'a tsm_disp" where
  "tsm_function_array P st disp =
     (case st of
        TS_INIT \<Rightarrow> tsm_SF_init disp
      | TS_LISTEN \<Rightarrow> tsm_SF_listen P disp
      | TS_SYN_SENT \<Rightarrow> tsm_SF_syn_sent P disp
      | TS_SYN_RECV \<Rightarrow> tsm_SF_syn_recv P disp
      | TS_ESTABLISHED \<Rightarrow> tsm_SF_estab P disp
      | TS_FIN_WAIT_I \<Rightarrow> tsm_SF_fin_wait_I P disp
      | TS_FIN_WAIT_II \<Rightarrow> tsm_SF_fin_wait_II P disp
      | TS_LAST_ACK \<Rightarrow> tsm_SF_last_ack disp
      | TS_CLOSING \<Rightarrow> tsm_SF_closing P disp
      | TS_TIME_WAIT \<Rightarrow> tsm_SF_time_wait disp
      | TS_CLOSE_WAIT \<Rightarrow> tsm_SF_close_wait P disp
      | TS_CLOSED \<Rightarrow> tsm_SF_closed P)"

fun tsm_run :: "nat \<Rightarrow> 'a prm \<Rightarrow> 'a tsm_disp" where
  "tsm_run 0 P event arg t e = None"
| "tsm_run (Suc n) P event arg t e =
     tsm_function_array P (tcb_state t) (tsm_run n P) event arg t e"

definition tsm_dispatch_event :: "'a prm \<Rightarrow> 'a tsm_disp" where
  "tsm_dispatch_event P = tsm_run 3 P"

definition tsm_dispatch_net_event :: "'a prm \<Rightarrow> 'a tcb \<Rightarrow> 'a env \<Rightarrow> 'a tsm_result" where
  "tsm_dispatch_net_event P t e = tsm_dispatch_event P TE_SEGMENT_ARRIVES PcbArg t e"

lemmas tsm_SF_defs = tsm_SF_init_def tsm_SF_listen_def tsm_SF_syn_sent_def tsm_SF_syn_recv_def
  tsm_SF_estab_def tsm_SF_fin_wait_I_def tsm_SF_fin_wait_II_def tsm_SF_last_ack_def
  tsm_SF_closing_def tsm_SF_time_wait_def tsm_SF_close_wait_def tsm_SF_closed_def

end
