(* ===== verification/Tcp.thy ===== *)
theory Tcp
  imports TcpSM
begin

text \<open>
  The interface of the TCP stack: opening, sending and closing, the socket options and the
  reception of a packet (\<^verbatim>\<open>src/tpg_tcp.c\<close>), and the timeouts with the clock tick of a core
  (\<^verbatim>\<open>src/tpg_timer.c\<close>).

  Here a control block is known by its address: an operation reads it from the memory \<open>e_tcbs\<close> of
  the core and writes it back (\<open>on_tcb\<close>). The clock does not move while a tick is handled.
\<close>

definition on_tcb ::
  "cb_id \<Rightarrow> ('a tcb \<Rightarrow> 'a env \<Rightarrow> 'a tsm_result) \<Rightarrow> 'a env \<Rightarrow> (int \<times> 'a env) option" where
  "on_tcb x f e =
     map_option (\<lambda>(r, t, e). (r, e\<lparr>e_tcbs := (e_tcbs e)(x := t)\<rparr>)) (f (e_tcbs e x) e)"

subsection \<open>Opening, sending, closing\<close>

text \<open>\<open>*tcb\<close> is the first component of the argument and of the result.\<close>

definition tcp_open_v4_connection ::
  "'a prm \<Rightarrow> cb_id option \<Rightarrow> u16 \<Rightarrow> u32 \<Rightarrow> u16 \<Rightarrow> u32 \<Rightarrow> u16 \<Rightarrow> u16 \<Rightarrow> 'a \<Rightarrow> sockopt option \<Rightarrow> u32
     \<Rightarrow> 'a env \<Rightarrow> (int \<times> cb_id option \<times> 'a env) option" where
  "tcp_open_v4_connection P tcb eth_port src_ip_addr src_port dst_ip_addr dst_port
      test_case_id app sockopt flags e =
     (let tcb_reuse = (flags AND TCG_CB_REUSE_CB \<noteq> 0)
      in if \<not> tcb_reuse \<and> sockopt = None then Some (- EINVAL, tcb, e)
         else
           case (case tcb of
                   Some x \<Rightarrow> (Some x, 0, e)
                 | None \<Rightarrow>
                     (case tlkp_alloc_tcb e of
                        (None, e) \<Rightarrow>
                          (None, 0, upd_tcp_stats eth_port
                                      (\<lambda>s. s\<lparr>ts_tcb_alloc_err := ts_tcb_alloc_err s + 1\<rparr>) e)
                      | (Some x, e) \<Rightarrow>
                          (Some x, TCG_CB_MALLOCED,
                           upd_tcp_stats eth_port
                             (\<lambda>s. s\<lparr>ts_tcb_malloced := ts_tcb_malloced s + 1\<rparr>) e)))
           of
             (None, malloc_flag, e) \<Rightarrow> Some (- ENOMEM, None, e)
           | (Some x, malloc_flag, e) \<Rightarrow>
               let active = (dst_ip_addr \<noteq> 0 \<or> dst_port \<noteq> 0)
               in map_option (\<lambda>(_, e). (0, Some x, e))
                    (on_tcb x
                      (\<lambda>t e. do {
                         let t = (if tcb_reuse then t
                                  else tlkp_init_tcb P src_ip_addr dst_ip_addr src_port dst_port 0
                                         eth_port test_case_id app (the sockopt)
                                         (flags OR malloc_flag) t);
                         (_, t, e) \<leftarrow> tsm_initialize_statemachine (tsm_dispatch_event P) active t e;
                         tsm_dispatch_event P TE_OPEN NoArg t (tlkp_add_tcb t e)
                       }) e))"

definition tcp_listen_v4 ::
  "'a prm \<Rightarrow> cb_id option \<Rightarrow> u16 \<Rightarrow> u32 \<Rightarrow> u16 \<Rightarrow> u16 \<Rightarrow> 'a \<Rightarrow> sockopt option \<Rightarrow> u32
     \<Rightarrow> 'a env \<Rightarrow> (int \<times> cb_id option \<times> 'a env) option" where
  "tcp_listen_v4 P tcb eth_port local_ip_addr local_port test_case_id app sockopt flags e =
     tcp_open_v4_connection P tcb eth_port local_ip_addr local_port 0 0 test_case_id app sockopt
       flags e"

definition TCG_SEND_PSH :: u32 where "TCG_SEND_PSH = 0x1"
definition TCG_SEND_URG :: u32 where "TCG_SEND_URG = 0x2"
definition TCG_SILENT_CLOSE :: u32 where "TCG_SILENT_CLOSE = 0x1"

definition tcp_send_v4 :: "'a prm \<Rightarrow> cb_id \<Rightarrow> chain \<Rightarrow> u32 \<Rightarrow> 'a env \<Rightarrow> (int \<times> 'a env) option" where
  "tcp_send_v4 P x data flags e =
     (if flags AND TCG_SEND_PSH = 0 then None
      else case data of
             [] \<Rightarrow> None
           | d # _ \<Rightarrow>
               on_tcb x
                 (tsm_dispatch_event P TE_SEND
                    (DataArg \<lparr>tda_mbuf = data, tda_data_len = mb_pkt_len d,
                              tda_push = (flags AND TCG_SEND_PSH \<noteq> 0),
                              tda_urg = (flags AND TCG_SEND_URG \<noteq> 0)\<rparr>)) e)"

definition tcp_connection_cleanup :: "'a tcb \<Rightarrow> 'a env \<Rightarrow> 'a env" where
  "tcp_connection_cleanup t e = tlkp_free_tcb t e"

definition tcp_close_connection :: "'a prm \<Rightarrow> cb_id \<Rightarrow> u32 \<Rightarrow> 'a env \<Rightarrow> (int \<times> 'a env) option" where
  "tcp_close_connection P x flags e =
     on_tcb x (if flags AND TCG_SILENT_CLOSE \<noteq> 0 then tcp_silent_close
               else tsm_dispatch_event P TE_CLOSE NoArg) e"

subsection \<open>Socket options\<close>

text \<open>An optional field of a message: its \<open>has_\<close> flag and its value.\<close>

type_synonym 'v opt_field = "bool \<times> 'v"

definition TPG_XLATE_OPTIONAL_SET_FIELD :: "'v \<Rightarrow> 'v opt_field" where
  "TPG_XLATE_OPTIONAL_SET_FIELD v = (True, v)"

record tpg_tcp_sockopt =
  to_win_size :: "u32 opt_field"
  to_syn_retry_cnt :: "u32 opt_field"
  to_syn_ack_retry_cnt :: "u32 opt_field"
  to_data_retry_cnt :: "u32 opt_field"
  to_retry_cnt :: "u32 opt_field"
  to_rto :: "u32 opt_field"
  to_fin_to :: "u32 opt_field"
  to_twait_to :: "u32 opt_field"
  to_orphan_to :: "u32 opt_field"
  to_skip_timewait :: "bool opt_field"
  to_ack_delay :: "bool opt_field"

definition tcp_store_sockopt :: "tpg_tcp_sockopt \<Rightarrow> tcp_sockopt" where
  "tcp_store_sockopt options =
     \<lparr>tcpo_win_size = snd (to_win_size options),
      tcpo_syn_retry_cnt = ucast (snd (to_syn_retry_cnt options)),
      tcpo_syn_ack_retry_cnt = ucast (snd (to_syn_ack_retry_cnt options)),
      tcpo_data_retry_cnt = ucast (snd (to_data_retry_cnt options)),
      tcpo_retry_cnt = ucast (snd (to_retry_cnt options)),
      tcpo_rto = snd (to_rto options) * 1000,
      tcpo_fin_to = snd (to_fin_to options) * 1000,
      tcpo_twait_to = snd (to_twait_to options) * 1000,
      tcpo_orphan_to = snd (to_orphan_to options) * 1000,
      tcpo_skip_timewait = snd (to_skip_timewait options),
      tcpo_ack_delay = snd (to_ack_delay options)\<rparr>"

definition tcp_load_sockopt :: "tcp_sockopt \<Rightarrow> tpg_tcp_sockopt" where
  "tcp_load_sockopt options =
     \<lparr>to_win_size = TPG_XLATE_OPTIONAL_SET_FIELD (tcpo_win_size options),
      to_syn_retry_cnt = TPG_XLATE_OPTIONAL_SET_FIELD (ucast (tcpo_syn_retry_cnt options)),
      to_syn_ack_retry_cnt = TPG_XLATE_OPTIONAL_SET_FIELD (ucast (tcpo_syn_ack_retry_cnt options)),
      to_data_retry_cnt = TPG_XLATE_OPTIONAL_SET_FIELD (ucast (tcpo_data_retry_cnt options)),
      to_retry_cnt = TPG_XLATE_OPTIONAL_SET_FIELD (ucast (tcpo_retry_cnt options)),
      to_rto = TPG_XLATE_OPTIONAL_SET_FIELD (tcpo_rto options div 1000),
      to_fin_to = TPG_XLATE_OPTIONAL_SET_FIELD (tcpo_fin_to options div 1000),
      to_twait_to = TPG_XLATE_OPTIONAL_SET_FIELD (tcpo_twait_to options div 1000),
      to_orphan_to = TPG_XLATE_OPTIONAL_SET_FIELD (tcpo_orphan_to options div 1000),
      to_skip_timewait = TPG_XLATE_OPTIONAL_SET_FIELD (tcpo_skip_timewait options),
      to_ack_delay = TPG_XLATE_OPTIONAL_SET_FIELD (tcpo_ack_delay options)\<rparr>"

subsection \<open>Reception\<close>

text \<open>The header fields as the bytes of the packet give them, in network order.\<close>

definition byte_at :: "u8 list \<Rightarrow> nat \<Rightarrow> u8" where
  "byte_at bs i = (if i < length bs then bs ! i else 0)"

definition be16_at :: "u8 list \<Rightarrow> nat \<Rightarrow> u16" where
  "be16_at bs i = push_bit 8 (ucast (byte_at bs i)) OR ucast (byte_at bs (i + 1))"

definition be32_at :: "u8 list \<Rightarrow> nat \<Rightarrow> u32" where
  "be32_at bs i = push_bit 16 (ucast (be16_at bs i)) OR ucast (be16_at bs (i + 2))"

definition rte_tcp_hdr_of :: "u8 list \<Rightarrow> tcp_hdr" where
  "rte_tcp_hdr_of bs =
     \<lparr>th_src_port = be16_at bs 0, th_dst_port = be16_at bs 2,
      th_sent_seq = be32_at bs 4, th_recv_ack = be32_at bs 8,
      th_data_off = byte_at bs 12, th_flags = byte_at bs 13,
      th_rx_win = be16_at bs 14, th_urp = be16_at bs 18\<rparr>"

definition tcp_hdr_len_of :: "tcp_hdr \<Rightarrow> u32" where
  "tcp_hdr_len_of hdr = push_bit 2 (drop_bit 4 (ucast (th_data_off hdr)))"

text \<open>What the hardware says of a packet: a bad checksum, and the hash if it has one.\<close>

record rx_meta =
  rx_cksum_bad :: bool
  rx_rss_hash :: "u32 option"

text \<open>The checks on the header. \<open>Inl\<close> is a packet to drop; in both cases the statistics are updated.\<close>

definition tcp_check_hdr :: "rx_meta \<Rightarrow> mbuf \<Rightarrow> 'a env \<Rightarrow> ('a env, tcp_hdr \<times> 'a env) sum" where
  "tcp_check_hdr meta m e =
     (let port = pcb_port (e_pcb e);
          hdr = rte_tcp_hdr_of (mb_data m);
          tcp_hdr_len = tcp_hdr_len_of hdr;
          inc_small = upd_tcp_stats port (\<lambda>s. s\<lparr>ts_to_small_fragment := ts_to_small_fragment s + 1\<rparr>)
      in if data_len m < 20 then Inl (inc_small e)
         else
           let e = upd_tcp_stats port
                     (\<lambda>s. s\<lparr>ts_received_pkts := ts_received_pkts s + 1,
                           ts_received_bytes := ts_received_bytes s + ucast (pcb_l4_len (e_pcb e))\<rparr>) e
           in if data_len m < tcp_hdr_len then Inl (inc_small e)
              else if tcp_hdr_len < 20
              then Inl (upd_tcp_stats port (\<lambda>s. s\<lparr>ts_hdr_to_small := ts_hdr_to_small s + 1\<rparr>) e)
              else
                let e = (if th_flags hdr AND 0xC0 \<noteq> 0 \<or> th_data_off hdr AND 0x0F \<noteq> 0
                         then upd_tcp_stats port
                                (\<lambda>s. s\<lparr>ts_reserved_bit_set := ts_reserved_bit_set s + 1\<rparr>) e
                         else e)
                in if rx_cksum_bad meta
                   then Inl (upd_tcp_stats port
                               (\<lambda>s. s\<lparr>ts_invalid_checksum := ts_invalid_checksum s + 1\<rparr>) e)
                   else Inr (hdr, e))"

text \<open>The packet control block once the header is parsed and stripped.\<close>

definition tcp_fill_pcb :: "'a prm \<Rightarrow> rx_meta \<Rightarrow> tcp_hdr \<Rightarrow> 'a env \<Rightarrow> 'a env option" where
  "tcp_fill_pcb P meta hdr e =
     (let pcb = e_pcb e;
          hash = (case rx_rss_hash meta of
                    Some h \<Rightarrow> h
                  | None \<Rightarrow> tlkp_calc_pkt_hash P (rte_cpu_to_be_32 (pcb_src_addr pcb))
                              (rte_cpu_to_be_32 (pcb_dst_addr pcb))
                              (rte_cpu_to_be_16 (th_src_port hdr)) (rte_cpu_to_be_16 (th_dst_port hdr)))
      in map_option
           (\<lambda>m. e\<lparr>e_pcb := pcb\<lparr>pcb_hash := hash, pcb_tcp := hdr,
                               pcb_l5_len := pcb_l4_len pcb - ucast (tcp_hdr_len_of hdr),
                               pcb_mbuf := m\<rparr>\<rparr>)
           (data_adj_chain (p_adj P) (pcb_mbuf pcb) (tcp_hdr_len_of hdr)))"

text \<open>The lookup: the session of the packet, else the server that listens. The outer option is
  the abort on a server that is not in \<open>LISTEN\<close>.\<close>

definition tcp_lookup_pkt :: "'a prm \<Rightarrow> 'a env \<Rightarrow> cb_id option option" where
  "tcp_lookup_pkt P e =
     (let pcb = e_pcb e; hdr = pcb_tcp pcb
      in case tlkp_find_v4_tcb (pcb_port pcb) (pcb_hash pcb) (pcb_dst_addr pcb) (pcb_src_addr pcb)
                (th_dst_port hdr) (th_src_port hdr) e of
           Some x \<Rightarrow> Some (Some x)
         | None \<Rightarrow>
             if \<not> TCP_IS_FLAG_SET hdr RTE_TCP_SYN_FLAG then Some None
             else
               (case tlkp_find_v4_tcb (pcb_port pcb)
                       (tlkp_calc_pkt_hash P 0 (rte_cpu_to_be_32 (pcb_dst_addr pcb)) 0
                          (rte_cpu_to_be_16 (th_dst_port hdr)))
                       (pcb_dst_addr pcb) 0 (th_dst_port hdr) 0 e of
                  None \<Rightarrow> Some None
                | Some x \<Rightarrow> if tcb_state (e_tcbs e x) \<noteq> TS_LISTEN then None else Some (Some x)))"

definition zero_sockopt :: sockopt where
  "zero_sockopt =
     \<lparr>tcpo_win_size = 0, tcpo_syn_retry_cnt = 0, tcpo_syn_ack_retry_cnt = 0, tcpo_data_retry_cnt = 0,
      tcpo_retry_cnt = 0, tcpo_rto = 0, tcpo_fin_to = 0, tcpo_twait_to = 0, tcpo_orphan_to = 0,
      tcpo_skip_timewait = False, tcpo_ack_delay = False,
      vlanso_hdr_opt_len = 0, ip4so_hdr_opt_len = 0\<rparr>"

definition zero_tcb :: "'a prm \<Rightarrow> 'a tcb" where
  "zero_tcb P =
     \<lparr>l4cb_id = 0, l4cb_test_state = TSTS_CL_TO_INIT, l4cb_rx_hash = 0, l4cb_interface = 0,
      l4cb_test_case_id = 0, l4cb_sockopt = zero_sockopt, l4cb_app_data = p_app_zero P,
      l4cb_src_port = 0, l4cb_dst_port = 0, l4cb_src_addr = 0, l4cb_dst_addr = 0,
      l4cb_on_test_tmr_list = False,
      tcb_state = TS_INIT, snd_una = 0, snd_nxt = 0, snd_wnd = 0, snd_uo = 0, snd_wl1 = 0,
      snd_wl2 = 0, snd_iss = 0, rcv_nxt = 0, rcv_wnd = 0, rcv_up = 0, rcv_irs = 0,
      tr_data_mbufs = [], tr_last_set = False, tr_total_size = 0, tcb_rcv_buf = [],
      tcb_active = False, tcb_consume_all_data = False, tcb_malloced = False,
      tcb_on_slow_list = False, tcb_on_rto_list = False, tcb_retrans_cnt = 0,
      tcb_fin_rcvd = False, tcb_rst_rcvd = False, tcb_rcv_fin_seq = 0\<rparr>"

definition closed_tcb :: "'a prm \<Rightarrow> pcb \<Rightarrow> 'a tcb" where
  "closed_tcb P pcb =
     (zero_tcb P)\<lparr>l4cb_src_addr := pcb_dst_addr pcb, l4cb_dst_addr := pcb_src_addr pcb,
                  l4cb_src_port := th_dst_port (pcb_tcp pcb),
                  l4cb_dst_port := th_src_port (pcb_tcp pcb),
                  l4cb_interface := pcb_port pcb, tcb_state := TS_CLOSED\<rparr>"

text \<open>
  The packet is \<open>pcb_mbuf\<close>. The result is the buffer the caller frees: none (\<^term>\<open>[]\<close>) when the
  stack keeps it.
\<close>

definition tcp_receive_pkt :: "'a prm \<Rightarrow> rx_meta \<Rightarrow> 'a env \<Rightarrow> (chain \<times> 'a env) option" where
  "tcp_receive_pkt P meta e =
     (case pcb_mbuf (e_pcb e) of
        [] \<Rightarrow> None
      | m # ms \<Rightarrow>
          (case tcp_check_hdr meta m e of
             Inl e \<Rightarrow> Some (m # ms, e)
           | Inr (hdr, e) \<Rightarrow> do {
               e \<leftarrow> tcp_fill_pcb P meta hdr e;
               let mbuf = pcb_mbuf (e_pcb e);
               found \<leftarrow> tcp_lookup_pkt P e;
               case found of
                 Some x \<Rightarrow> do {
                   (_, e) \<leftarrow> on_tcb x (tsm_dispatch_net_event P)
                     (e\<lparr>e_pcb := (e_pcb e)\<lparr>pcb_sockopt := Some (l4cb_sockopt (e_tcbs e x))\<rparr>\<rparr>);
                   Some (if pcb_mbuf_stored (e_pcb e) then [] else mbuf, e)
                 }
               | None \<Rightarrow> do {
                   let e = upd_tcp_stats (pcb_port (e_pcb e))
                             (\<lambda>s. s\<lparr>ts_tcb_not_found := ts_tcb_not_found s + 1\<rparr>) e;
                   (_, _, e) \<leftarrow> tsm_dispatch_net_event P (closed_tcb P (e_pcb e)) e;
                   Some (mbuf, e)
                 }
             }))"

subsection \<open>Timeouts\<close>

definition tcp_handle_slow_to :: "'a prm \<Rightarrow> 'a tcb \<Rightarrow> 'a env \<Rightarrow> 'a tsm_result" where
  "tcp_handle_slow_to P t e =
     do {
       let e = upd_timer_stats (l4cb_interface t) (\<lambda>s. s\<lparr>tts_slow_fired := tts_slow_fired s + 1\<rparr>) e;
       w \<leftarrow> TIMER_CANCEL (l4cb_id t) (e_slow_wheel e);
       let e = e\<lparr>e_slow_wheel := w\<rparr>;
       let t = t\<lparr>tcb_on_slow_list := False\<rparr>;
       case tcb_state t of
         TS_FIN_WAIT_I \<Rightarrow> tsm_dispatch_event P TE_ORPHAN_TIMEOUT NoArg t e
       | TS_FIN_WAIT_II \<Rightarrow> tsm_dispatch_event P TE_FIN_TIMEOUT NoArg t e
       | TS_TIME_WAIT \<Rightarrow> tsm_dispatch_event P TE_TIME_WAIT_TIMEOUT NoArg t e
       | _ \<Rightarrow> Some (0, t, e)
     }"

definition tcp_handle_retrans_to :: "'a prm \<Rightarrow> 'a tcb \<Rightarrow> 'a env \<Rightarrow> 'a tsm_result" where
  "tcp_handle_retrans_to P t e =
     do {
       let e = upd_timer_stats (l4cb_interface t) (\<lambda>s. s\<lparr>tts_rto_fired := tts_rto_fired s + 1\<rparr>) e;
       w \<leftarrow> TIMER_CANCEL (l4cb_id t) (e_rto_wheel e);
       let e = e\<lparr>e_rto_wheel := w\<rparr>;
       let t = t\<lparr>tcb_on_rto_list := False, tcb_retrans_cnt := tcb_retrans_cnt t + 1\<rparr>;
       tsm_dispatch_event P TE_RETRANSMISSION_TIMEOUT NoArg t e
     }"

text \<open>The callbacks of the wheels, on a control block in memory.\<close>

definition slow_callback :: "'a prm \<Rightarrow> cb_id \<Rightarrow> 'a env \<Rightarrow> 'a env option" where
  "slow_callback P x e = map_option snd (on_tcb x (tcp_handle_slow_to P) e)"

definition rto_callback :: "'a prm \<Rightarrow> cb_id \<Rightarrow> 'a env \<Rightarrow> 'a env option" where
  "rto_callback P x e = map_option snd (on_tcb x (tcp_handle_retrans_to P) e)"

definition test_callback :: "'a prm \<Rightarrow> cb_id \<Rightarrow> 'a env \<Rightarrow> 'a env option" where
  "test_callback P x e =
     map_option snd
       (on_tcb x (\<lambda>t e. map_option (\<lambda>r. (0, r)) (l4cb_handle_test_to (p_app P) t e)) e)"

definition wheel_tick ::
  "('a env \<Rightarrow> cb_id tmr_wheel) \<Rightarrow> ((cb_id tmr_wheel \<Rightarrow> cb_id tmr_wheel) \<Rightarrow> 'a env \<Rightarrow> 'a env)
     \<Rightarrow> (cb_id \<Rightarrow> 'a env \<Rightarrow> 'a env option) \<Rightarrow> 'a env \<Rightarrow> 'a env option" where
  "wheel_tick getw updw cb e =
     (if tcp_time_should_advance (ce_cycles_per_us e) (getw e) (ce_now e)
      then tpg_time_wheel_advance (ce_cycles_per_us e) getw updw cb (ce_now e) e
      else Some e)"

definition time_advance :: "'a prm \<Rightarrow> 'a env \<Rightarrow> 'a env option" where
  "time_advance P e =
     do {
       e \<leftarrow> wheel_tick e_slow_wheel e_slow_wheel_update (slow_callback P) e;
       e \<leftarrow> wheel_tick e_rto_wheel e_rto_wheel_update (rto_callback P) e;
       wheel_tick ce_test_wheel ce_test_wheel_update (test_callback P) e
     }"

end
