(* ===== verification/Examples.thy ===== *)
theory Examples
  imports Tcp
begin

text \<open>
  Concrete inputs on which the properties are evaluated: the application without data, a core with
  small wheels, and control blocks in the states the properties speak of.
\<close>

definition ex_adj :: pktmbuf_adj where
  "ex_adj c len =
     (case c of
        [] \<Rightarrow> None
      | m # r \<Rightarrow> if unat len > length (mb_data m) then None
                 else Some (m\<lparr>mb_data := drop (unat len) (mb_data m),
                              mb_pkt_len := mb_pkt_len m - ucast len\<rparr> # r))"

lemma ex_adj_spec: "rte_pktmbuf_adj_spec ex_adj"
  by (simp add: rte_pktmbuf_adj_spec_def ex_adj_def)

text \<open>An application that takes everything it is given.\<close>

definition ex_app :: "unit app_ops" where
  "ex_app =
     \<lparr>app_init = (\<lambda>d. d), app_conn_up = (\<lambda>d. (d, [])), app_conn_down = (\<lambda>d. d),
      app_deliver = (\<lambda>d c ts. (chain_pkt_len c, d, []))\<rparr>"

definition ex_P :: "unit prm" where
  "ex_P = \<lparr>p_adj = ex_adj, p_app = ex_app, p_app_zero = (),
           p_toeplitz = (\<lambda>i b. ucast b)\<rparr>"

definition ex_wheel :: "cb_id tmr_wheel" where
  "ex_wheel = \<lparr>tw_size = 1, tw_step = 100, tw_current = 0, tw_last_advance = 0, tw_wheel = (\<lambda>_. [])\<rparr>"

definition ex_timer_stats :: timer_stats where
  "ex_timer_stats =
     \<lparr>tts_rto_set = 0, tts_rto_cancelled = 0, tts_rto_fired = 0, tts_slow_set = 0,
      tts_slow_cancelled = 0, tts_slow_fired = 0, tts_test_set = 0, tts_test_cancelled = 0,
      tts_test_fired = 0, tts_rto_failed = 0, tts_slow_failed = 0, tts_test_failed = 0,
      tts_l4cb_null = 0, tts_l4cb_invalid_flags = 0, tts_timeout_overflow = 0\<rparr>"

definition ex_tci :: test_case_info where
  "ex_tci =
     \<lparr>tci_init_delay = \<lparr>has_d_value = True, d_value = 0\<rparr>,
      tci_uptime = \<lparr>has_d_value = False, d_value = 0\<rparr>,
      tci_downtime = \<lparr>has_d_value = False, d_value = 0\<rparr>,
      trs_flags = 0, tos_to_init_cbs = [], tos_to_open_cbs = [], tos_to_close_cbs = [],
      tos_to_send_cbs = [], tos_closed_cbs = [],
      gs_up = 0, gs_estab = 0, gs_down = 0, gs_failed = 0, gs_data_failed = 0, gs_data_null = 0,
      gs_start_time = 0, gs_end_time = 0, rs_estab_per_s = 0, rs_closed_per_s = 0\<rparr>"

definition ex_tcp_stats :: tcp_stats where
  "ex_tcp_stats =
     \<lparr>ts_received_pkts = 0, ts_received_bytes = 0, ts_sent_ctrl_pkts = 0, ts_sent_ctrl_bytes = 0,
      ts_sent_data_pkts = 0, ts_sent_data_bytes = 0, ts_tcb_malloced = 0, ts_tcb_freed = 0,
      ts_tcb_not_found = 0, ts_tcb_alloc_err = 0, ts_to_small_fragment = 0, ts_hdr_to_small = 0,
      ts_invalid_checksum = 0, ts_failed_ctrl_pkts = 0, ts_failed_data_pkts = 0, ts_failed_data_clone = 0,
      ts_reserved_bit_set = 0, ts_sent_syn = 0, ts_recv_syn = 0, ts_sent_fin = 0, ts_recv_fin = 0,
      ts_sent_rst = 0, ts_recv_rst = 0\<rparr>"

definition ex_tsm_stats :: tsm_stats where
  "ex_tsm_stats =
     \<lparr>tsms_tcb_states = (\<lambda>_. 1), tsms_syn_to = 0, tsms_synack_to = 0, tsms_retry_to = 0,
      tsms_retrans_bytes = 0, tsms_missing_seq = 0, tsms_snd_win_full = 0\<rparr>"

definition ex_hdr :: "u8 \<Rightarrow> u32 \<Rightarrow> u32 \<Rightarrow> tcp_hdr" where
  "ex_hdr flags sq ack =
     \<lparr>th_src_port = 80, th_dst_port = 1000, th_sent_seq = sq, th_recv_ack = ack, th_data_off = 0x50,
      th_flags = flags, th_rx_win = 1000, th_urp = 0\<rparr>"

definition ex_pcb :: "tcp_hdr \<Rightarrow> u8 list \<Rightarrow> pcb" where
  "ex_pcb hdr d =
     \<lparr>pcb_port = 0, pcb_hash = 0,
      pcb_mbuf = (if d = [] then []
                  else [\<lparr>mb_data = d, mb_pkt_len = of_nat (length d), mb_nb_segs = 1\<rparr>]),
      pcb_mbuf_stored = False, pcb_tcp = hdr, pcb_src_addr = 2, pcb_dst_addr = 1,
      pcb_l4_len = of_nat (20 + length d), pcb_l5_len = of_nat (length d), pcb_tstamp = 0,
      pcb_sockopt = None\<rparr>"

definition ex_sockopt :: sockopt where
  "ex_sockopt =
     \<lparr>tcpo_win_size = 1000, tcpo_syn_retry_cnt = 2, tcpo_syn_ack_retry_cnt = 2,
      tcpo_data_retry_cnt = 2, tcpo_retry_cnt = 2, tcpo_rto = 50, tcpo_fin_to = 50,
      tcpo_twait_to = 50, tcpo_orphan_to = 50, tcpo_skip_timewait = False, tcpo_ack_delay = False,
      vlanso_hdr_opt_len = 0, ip4so_hdr_opt_len = 0\<rparr>"

text \<open>A block in state \<open>st\<close> that has sent up to 101 and received up to 501.\<close>

definition ex_tcb :: "tcp_state \<Rightarrow> test_sm_state \<Rightarrow> unit tcb" where
  "ex_tcb st tst =
     (zero_tcb ex_P)
       \<lparr>l4cb_id := 1, l4cb_test_state := tst, l4cb_rx_hash := 184, l4cb_src_port := 1000,
        l4cb_dst_port := 80, l4cb_src_addr := 1, l4cb_dst_addr := 2, l4cb_sockopt := ex_sockopt,
        tcb_state := st, snd_una := 101, snd_nxt := 101, snd_wnd := 1000, snd_wl1 := 500,
        snd_wl2 := 101, rcv_nxt := 501, rcv_wnd := 1000, rcv_irs := 500,
        tcb_active := True, tcb_consume_all_data := True, tcb_malloced := True\<rparr>"

text \<open>A core that holds the block \<open>t\<close> in its hash table and is handling the packet \<open>pcb\<close>.\<close>

definition ex_env :: "unit tcb \<Rightarrow> pcb \<Rightarrow> unit env" where
  "ex_env t pcb =
     \<lparr>ce_now = 0, ce_cycles_per_us = 1, ce_test_wheel = ex_wheel, ce_timer_stats = (\<lambda>_. ex_timer_stats),
      ce_tci = (\<lambda>_ _. ex_tci), ce_msgs = [], ce_msg_outcomes = [],
      e_tcbs = (\<lambda>x. t\<lparr>l4cb_id := x\<rparr>), e_pool = [7, 8],
      e_htable = (\<lambda>p b. if p = l4cb_interface t \<and> b = TPG_HASH_MOD (l4cb_rx_hash t)
                        then [l4cb_id t] else []),
      e_slow_wheel = ex_wheel, e_rto_wheel = ex_wheel,
      e_tcp_stats = (\<lambda>_. ex_tcp_stats), e_tsm_stats = (\<lambda>_. ex_tsm_stats),
      e_pi_mtu = (\<lambda>_. 1500), e_tx = [], e_tx_outcomes = [], e_alloc_outcomes = [],
      e_pcb = pcb, e_data_sent = 0\<rparr>"

lemma ex_wheel_wf [simp]: "wheel_wf ex_wheel"
  by (simp add: ex_wheel_def wheel_wf_def)

lemma ex_wheel_empty [simp]: "tw_entries ex_wheel = []"
  by (simp add: ex_wheel_def tw_entries_def tw_buckets_def)

text \<open>An event for a block in state \<open>st\<close>, with a packet.\<close>

definition ex_run ::
  "tcp_state \<Rightarrow> test_sm_state \<Rightarrow> tcp_event \<Rightarrow> pcb \<Rightarrow> unit tsm_result" where
  "ex_run st tst ev pcb = tsm_dispatch_event ex_P ev PcbArg (ex_tcb st tst) (ex_env (ex_tcb st tst) pcb)"

text \<open>The last acknowledgment closes a connection.\<close>

lemma ex_run_last_ack:
  "\<exists>ret t e. ex_run TS_LAST_ACK TSTS_PURGED TE_SEGMENT_ARRIVES (ex_pcb (ex_hdr 0x10 501 101) []) =
     Some (ret, t, e) \<and> tcb_state t = TS_CLOSED"
proof -
  have "case ex_run TS_LAST_ACK TSTS_PURGED TE_SEGMENT_ARRIVES (ex_pcb (ex_hdr 0x10 501 101) []) of
    None \<Rightarrow> False | Some (r, t, e) \<Rightarrow> tcb_state t = TS_CLOSED"
    by code_simp
  then show ?thesis by (auto split: option.splits)
qed

lemma ex_tcb_simps [simp]:
  "tcb_state (ex_tcb st tst) = st" "l4cb_id (ex_tcb st tst) = 1" "l4cb_interface (ex_tcb st tst) = 0"
  "tcb_on_rto_list (ex_tcb st tst) = False" "tcb_on_slow_list (ex_tcb st tst) = False"
  "tcb_malloced (ex_tcb st tst) = True" "l4cb_rx_hash (ex_tcb st tst) = 184"
  by (simp_all add: ex_tcb_def zero_tcb_def)

lemma ex_env_simps [simp]:
  "e_rto_wheel (ex_env t pcb) = ex_wheel" "e_slow_wheel (ex_env t pcb) = ex_wheel"
  "e_pool (ex_env t pcb) = [7, 8]" "e_pcb (ex_env t pcb) = pcb"
  "e_tcbs (ex_env t pcb) = (\<lambda>x. t\<lparr>l4cb_id := x\<rparr>)"
  by (simp_all add: ex_env_def)

end
