(* ===== verification/Sessions.thy ===== *)
theory Sessions
  imports TestSMProps Examples
begin

text \<open>
  All sessions of a core together: one shared environment, any sequence of notifications, purges
  and timer expiries on any of the sessions, and what holds in every state so reached.
\<close>

type_synonym 'a sessions = "(cb_id \<Rightarrow> 'a l4cb) \<times> core_env"

text \<open>A session is initialised, listens or becomes a server session when it is on no list.\<close>

definition sess_entry :: "test_notif \<Rightarrow> bool" where
  "sess_entry n \<longleftrightarrow> n = TEST_NOTIF_SESS_LISTEN \<or> n = TEST_NOTIF_SESS_SRV_CONNECTED"

inductive sess_step :: "'a app_ops \<Rightarrow> 'a sessions \<Rightarrow> 'a sessions \<Rightarrow> bool" for app where
  sess_init: "on_list (l4cb_test_state (cbs x)) = None \<Longrightarrow>
    test_sess_init app (cbs x) e = Some (cb, e') \<Longrightarrow> sess_step app (cbs, e) (cbs(x := cb), e')"
| sess_notif: "sess_entry n \<longrightarrow> on_list (l4cb_test_state (cbs x)) = None \<Longrightarrow>
    test_notification app n (cbs x) e = Some (cb, e') \<Longrightarrow> sess_step app (cbs, e) (cbs(x := cb), e')"
| sess_purge: "test_sm_dispatch_event app TSTE_PURGE (cbs x) e = Some (cb, e') \<Longrightarrow>
    sess_step app (cbs, e) (cbs(x := cb), e')"
| sess_timer: "l4cb_handle_test_to app (cbs x) e = Some (cb, e') \<Longrightarrow>
    sess_step app (cbs, e) (cbs(x := cb), e')"

definition sess_wf :: "'a sessions \<Rightarrow> bool" where
  "sess_wf s \<longleftrightarrow> (\<forall>x. l4cb_id (fst s x) = x \<and> sm_wf (fst s x) (snd s))"

subsection \<open>One step keeps the lists\<close>

lemma count_list_others:
  "filter (\<lambda>y. y \<noteq> x) ys = filter (\<lambda>y. y \<noteq> x) zs \<Longrightarrow> y \<noteq> x \<Longrightarrow> count_list ys y = count_list zs y"
proof -
  have "count_list (filter (\<lambda>y. y \<noteq> x) l) y = count_list l y" if "y \<noteq> x" for l
    using that by (induction l) auto
  then show "filter (\<lambda>y. y \<noteq> x) ys = filter (\<lambda>y. y \<noteq> x) zs \<Longrightarrow> y \<noteq> x \<Longrightarrow> ?thesis" by metis
qed

lemma sm_wf_others:
  assumes "others_kept cb e e'" and "l4cb_id cy \<noteq> l4cb_id cb" and "sm_wf cy e"
  shows "sm_wf cy e'"
proof (cases "(l4cb_interface cy, l4cb_test_case_id cy) = (l4cb_interface cb, l4cb_test_case_id cb)")
  case True
  then have "get_tci cy e = get_tci cb e" "get_tci cy e' = get_tci cb e'" by (simp_all add: get_tci_def)
  moreover have "count_list (tos L (get_tci cb e')) (l4cb_id cy) = count_list (tos L (get_tci cb e)) (l4cb_id cy)"
    for L using assms(1,2) by (intro count_list_others [where x = "l4cb_id cb"]) (simp_all add: others_kept_def)
  ultimately show ?thesis using assms(3) by (simp add: sm_wf_def lists_hold_def)
next
  case False
  with assms(1) have "get_tci cy e' = get_tci cy e" by (auto simp: others_kept_def get_tci_def)
  with assms(3) show ?thesis by (simp add: sm_wf_def)
qed

lemma dispatch_keeps: "sm_pre ev cb e \<Longrightarrow> keeps cb e (test_sm_dispatch_event app ev cb e)"
  unfolding test_sm_dispatch_event_def by (rule test_run.disp_keeps)

lemma enter_none_keeps:
  assumes "entry_list st = None" and "on_list (l4cb_test_state cb) = None" and "sm_wf cb e"
    and "sm_post cb e cb1 e1" and "\<And>L. tos L (get_tci cb1 e1) = tos L (get_tci cb e)"
  shows "keeps cb e (test_sm_enter_state (test_sm_dispatch_event app) st cb1 e1)"
  unfolding test_sm_dispatch_event_def
proof (rule test_run.enter_keeps [OF assms(4)])
  have "l4cb_id cb1 = l4cb_id cb" using assms(4) by (simp add: sm_post_def same_cb_def)
  with assms show "lists_hold (entry_list st) (l4cb_id cb1) (get_tci cb1 e1)"
    by (simp add: sm_wf_def lists_hold_def)
qed

text \<open>Counting does not touch the lists.\<close>

lemma tos_count [simp]:
  "tos L (c\<lparr>gs_up := v\<rparr>) = tos L c" "tos L (c\<lparr>gs_estab := v\<rparr>) = tos L c"
  "tos L (c\<lparr>gs_down := v\<rparr>) = tos L c" "tos L (c\<lparr>gs_failed := v\<rparr>) = tos L c"
  "tos L (c\<lparr>gs_data_failed := v\<rparr>) = tos L c" "tos L (c\<lparr>gs_data_null := v\<rparr>) = tos L c"
  "tos L (c\<lparr>gs_start_time := t\<rparr>) = tos L c" "tos L (c\<lparr>gs_end_time := t\<rparr>) = tos L c"
  "tos L (c\<lparr>rs_estab_per_s := v\<rparr>) = tos L c" "tos L (c\<lparr>rs_closed_per_s := v\<rparr>) = tos L c"
  by (cases L; simp)+

lemma count_ok:
  assumes "\<And>L c. tos L (f c) = tos L c"
  shows "sm_post cb e cb (upd_tci cb f e)" and "sm_wf cb (upd_tci cb f e) = sm_wf cb e"
  using assms by (auto simp: sm_post_def others_kept_def upd_tci_def get_tci_def sm_wf_def lists_hold_def)

lemma count_keeps:
  "sm_wf cb e \<Longrightarrow> (\<And>L c. tos L (f c) = tos L c) \<Longrightarrow> keeps cb e (Some (cb, upd_tci cb f e))"
  by (intro keeps_Some) (simp_all add: count_ok)

lemma dispatch_keeps_after:
  "sm_wf cb e1 \<Longrightarrow> sm_post cb e cb e1 \<Longrightarrow> ev \<noteq> TSTE_ENTER_STATE \<Longrightarrow>
     keeps cb e (test_sm_dispatch_event app ev cb e1)"
  by (blast intro: keeps_trans dispatch_keeps sm_pre_other [THEN iffD2])

lemma start_time_ok:
  "sm_post cb e cb (test_sess_record_start_time cb e)"
  "sm_wf cb (test_sess_record_start_time cb e) = sm_wf cb e"
  by (simp_all add: test_sess_record_start_time_def count_ok)

lemma connected_keeps: "sm_wf cb e \<Longrightarrow> keeps cb e (test_sess_connected app cb e)"
  unfolding test_sess_connected_def test_sess_record_end_time_def test_sess_count_estab_def
  by (intro dispatch_keeps_after) (auto simp: count_ok intro: sm_post_trans [OF count_ok(1) count_ok(1)])

lemma test_notification_keeps:
  assumes "sm_wf cb e" and "sess_entry n \<longrightarrow> on_list (l4cb_test_state cb) = None"
  shows "keeps cb e (test_notification app n cb e)"
proof (cases n)
  case TEST_NOTIF_SESS_CONNECTED_IMM
  with assms show ?thesis
    by (simp add: test_notification_def test_sess_connected_imm_def start_time_ok
        keeps_trans [OF start_time_ok(1) connected_keeps])
next
  case TEST_NOTIF_SESS_LISTEN
  with assms show ?thesis
    by (simp add: test_notification_def test_sess_listen_def sess_entry_def)
      (rule enter_none_keeps, simp_all add: sm_post_def same_cb_def others_kept_def get_tci_def)
next
  case TEST_NOTIF_SESS_SRV_CONNECTED
  with assms show ?thesis
    by (simp add: test_notification_def test_sess_server_connected_def test_sess_count_estab_def sess_entry_def)
      (rule enter_none_keeps [OF _ _ _ count_ok(1)], simp_all)
next
  case (TEST_NOTIF_APP a)
  with assms show ?thesis by (cases a) (simp_all add: test_notification_def dispatch_keeps sm_pre_other)
qed (use assms in \<open>simp_all add: test_notification_def count_keeps dispatch_keeps sm_pre_other
       test_sess_connecting_def test_sess_closed_def dispatch_keeps_after start_time_ok count_ok
       connected_keeps\<close>)

lemma test_sess_init_keeps:
  "sm_wf cb e \<Longrightarrow> on_list (l4cb_test_state cb) = None \<Longrightarrow> keeps cb e (test_sess_init app cb e)"
  unfolding test_sess_init_def
  by (rule enter_none_keeps) (simp_all add: sm_post_def same_cb_def others_kept_def get_tci_def)

lemma handle_test_to_keeps:
  assumes "sm_wf cb e"
  shows "keeps cb e (l4cb_handle_test_to app cb e)"
proof -
  have "keeps cb e (test_sm_dispatch_event app TSTE_TMR_TO (cb\<lparr>l4cb_on_test_tmr_list := False\<rparr>)
      (upd_timer_stats p f e\<lparr>ce_test_wheel := w\<rparr>))" for p f w
    using assms
    by (intro keeps_trans [OF _ dispatch_keeps])
      (simp_all add: sm_pre_other sm_wf_def sm_post_def same_cb_def others_kept_def get_tci_def upd_timer_stats_def)
  then show ?thesis
    by (auto simp: l4cb_handle_test_to_def test_notification_def intro!: keeps_bind)
qed

lemma sess_upd_wf:
  assumes "sess_wf (cbs, e)" and "keeps (cbs x) e (Some (cb, e'))"
  shows "sess_wf (cbs(x := cb), e')"
proof -
  from assms have id: "l4cb_id (cbs y) = y" and wf: "sm_wf (cbs y) e" for y by (simp_all add: sess_wf_def)
  from assms(2) have k: "sm_wf cb e'" "l4cb_id cb = x" "others_kept (cbs x) e e'"
    using id by (auto simp: keeps_def sm_post_def same_cb_def)
  have "sm_wf (cbs y) e'" if "y \<noteq> x" for y
    by (rule sm_wf_others [OF k(3) _ wf]) (simp add: id that)
  with k id show ?thesis by (simp add: sess_wf_def)
qed

lemma sess_step_wf: "sess_step app s s' \<Longrightarrow> sess_wf s \<Longrightarrow> sess_wf s'"
proof (induction rule: sess_step.induct)
  case (sess_init cbs x e cb e')
  then have "sm_wf (cbs x) e" by (simp add: sess_wf_def)
  from test_sess_init_keeps [OF this sess_init(1), of app] sess_init show ?case by (intro sess_upd_wf) simp_all
next
  case (sess_notif n cbs x e cb e')
  then have "sm_wf (cbs x) e" by (simp add: sess_wf_def)
  from test_notification_keeps [OF this sess_notif(1), of app] sess_notif show ?case
    by (intro sess_upd_wf) simp_all
next
  case (sess_purge cbs x e cb e')
  then have "sm_pre TSTE_PURGE (cbs x) e" by (simp add: sess_wf_def sm_pre_other)
  from dispatch_keeps [OF this, of app] sess_purge show ?case by (intro sess_upd_wf) simp_all
next
  case (sess_timer cbs x e cb e')
  then have "sm_wf (cbs x) e" by (simp add: sess_wf_def)
  from handle_test_to_keeps [OF this, of app] sess_timer show ?case by (intro sess_upd_wf) simp_all
qed

subsection \<open>Properties\<close>

definition ex_core :: core_env where
  "ex_core =
     \<lparr>ce_now = 0, ce_cycles_per_us = 1, ce_test_wheel = ex_wheel, ce_timer_stats = (\<lambda>_. ex_timer_stats),
      ce_tci = (\<lambda>_ _. ex_tci), ce_msgs = [], ce_msg_outcomes = []\<rparr>"

definition ex_cb :: "test_sm_state \<Rightarrow> cb_id \<Rightarrow> unit l4cb" where
  "ex_cb st x =
     l4cb.truncate (zero_tcb ex_P)\<lparr>l4cb_id := x, l4cb_test_state := st, l4cb_on_test_tmr_list := False\<rparr>"

lemma ex_cb_simps [simp]:
  "l4cb_id (ex_cb st x) = x" "l4cb_test_state (ex_cb st x) = st" "l4cb_interface (ex_cb st x) = 0"
  "l4cb_test_case_id (ex_cb st x) = 0" "l4cb_on_test_tmr_list (ex_cb st x) = False"
  by (simp_all add: ex_cb_def l4cb.truncate_def zero_tcb_def)

text \<open>
  C11: A session is on the list its state prescribes, once, and on no other list, after any
  sequence of notifications, purges and timer expiries of all the sessions of the core: the runner
  that walks a list finds exactly the sessions that wait for it.
\<close>

theorem sessions_on_their_lists:
  assumes "sess_wf s" and "(sess_step app)\<^sup>*\<^sup>* s s'"
  shows "count_list (tos L (get_tci (fst s' x) (snd s'))) x =
           (if on_list (l4cb_test_state (fst s' x)) = Some L then 1 else 0)"
proof -
  from assms(2,1) have "sess_wf s'" by (induction rule: rtranclp_induct) (auto intro: sess_step_wf)
  then have "l4cb_id (fst s' x) = x" "sm_wf (fst s' x) (snd s')" by (auto simp: sess_wf_def)
  then show ?thesis by (simp add: sm_wf_def lists_hold_def)
qed

theorem sessions_on_their_lists_witness:
  "\<exists>s'. (sess_step ex_app)\<^sup>*\<^sup>* (ex_cb TSTS_PURGED, ex_core) s' \<and>
     l4cb_test_state (fst s' 3) = TSTS_CL_TO_OPEN \<and>
     count_list (tos To_Open (get_tci (fst s' 3) (snd s'))) 3 = 1"
proof -
  have "case test_sess_init ex_app (ex_cb TSTS_PURGED 3) ex_core of
      None \<Rightarrow> False | Some (cb, e) \<Rightarrow> l4cb_test_state cb = TSTS_CL_TO_OPEN" by code_simp
  then obtain cb e where i: "test_sess_init ex_app (ex_cb TSTS_PURGED 3) ex_core = Some (cb, e)"
    "l4cb_test_state cb = TSTS_CL_TO_OPEN" by (auto split: option.splits)
  from sess_init [where cbs = "ex_cb TSTS_PURGED" and x = 3, OF _ i(1)] have
    r: "(sess_step ex_app)\<^sup>*\<^sup>* (ex_cb TSTS_PURGED, ex_core) ((ex_cb TSTS_PURGED)(3 := cb), e)"
    by auto
  have "tos L ex_tci = []" for L by (cases L) (simp_all add: ex_tci_def)
  then have "sess_wf (ex_cb TSTS_PURGED, ex_core)"
    by (simp add: sess_wf_def sm_wf_def lists_hold_def ex_core_def get_tci_def)
  from sessions_on_their_lists [OF this r, of To_Open 3] r i(2) show ?thesis
    by (intro exI [of _ "((ex_cb TSTS_PURGED)(3 := cb), e)"]) simp
qed

text \<open>
  C12: The state functions refine the session automaton \<open>sm_next\<close>: with the lists and the test
  timer in order, an event takes the session to the state the automaton says, and the code fails
  (an assertion or a removal from a list the session is not on) exactly when the automaton has no transition.
\<close>

theorem session_follows_automaton:
  assumes "sm_wf cb e" and "tmr_ok cb e" and "ev \<noteq> TSTE_ENTER_STATE"
  shows "map_option (\<lambda>(cb', e'). l4cb_test_state cb') (test_sm_dispatch_event app ev cb e) =
           sm_next (snd (app_conn_up app (l4cb_app_data cb))) (l4cb_test_state cb) ev"
  using dispatch_refines [OF assms, of app] by (cases "test_sm_dispatch_event app ev cb e") (auto simp: st_of_def)

lemma ex_sm_wf: "on_list st = None \<Longrightarrow> sm_wf (ex_cb st 3) ex_core"
proof -
  have "tos L ex_tci = []" for L by (cases L) (simp_all add: ex_tci_def)
  then show "on_list st = None \<Longrightarrow> ?thesis"
    by (simp add: sm_wf_def lists_hold_def ex_core_def get_tci_def)
qed

theorem session_follows_automaton_witness:
  "map_option (\<lambda>(cb, e). l4cb_test_state cb)
     (test_sm_dispatch_event ex_app TSTE_CONNECTED (ex_cb TSTS_CL_OPENING 3) ex_core) = Some TSTS_CL_OPEN \<and>
   map_option (\<lambda>(cb, e). l4cb_test_state cb)
     (test_sm_dispatch_event ex_app TSTE_SND_WIN (ex_cb TSTS_CL_CLOSING 3) ex_core) = None"
proof -
  have "tmr_ok (ex_cb st 3) ex_core" for st by (simp add: tmr_ok_def)
  from session_follows_automaton [OF ex_sm_wf this] show ?thesis
    by (simp add: sm_next_def ex_app_def)
qed

subsection \<open>The nesting of the state functions\<close>

text \<open>One level of the dispatcher, over the dispatcher \<open>disp\<close> that the state functions call back into.\<close>

definition test_sm_level :: "'a app_ops \<Rightarrow> ('a, 'z, 'y) sm_disp \<Rightarrow> ('a, 'z, 'y) sm_disp" where
  "test_sm_level app disp event cb e = test_sm_function_array app (l4cb_test_state cb) disp event cb e"

lemma level_enter_leaf:
  assumes "st \<noteq> TSTS_CL_TO_INIT" and "st \<noteq> TSTS_SRV_OPENING"
  shows "test_sm_enter_state (test_sm_level app d) st = test_sm_enter_state (test_sm_level app d') st"
  using assms
  by (intro ext, cases st)
    (simp_all add: test_sm_enter_state_def test_sm_level_def test_sm_function_array_def test_sm_SF_defs)

lemma level_app_event:
  "test_sm_level app (test_sm_level app d) (app_notif_event a) cb e =
   test_sm_level app (test_sm_level app d') (app_notif_event a) cb e"
  by (cases a; cases "l4cb_test_state cb")
    (simp_all add: test_sm_level_def [of _ "test_sm_level app _"] test_sm_function_array_def test_sm_SF_defs
      level_enter_leaf [of _ app d d'])

lemma level_app_notifs:
  "test_app_notifs (test_sm_level app (test_sm_level app d)) ns cb e =
   test_app_notifs (test_sm_level app (test_sm_level app d')) ns cb e"
proof (induction ns arbitrary: cb e)
  case (Cons a ns)
  have "test_app_notifs (test_sm_level app (test_sm_level app d)) ns =
      test_app_notifs (test_sm_level app (test_sm_level app d')) ns"
    by (intro ext) (rule Cons.IH)
  then show ?case by (simp only: test_app_notifs.simps level_app_event [of app d _ _ _ d'])
qed simp

lemma level_three:
  "test_sm_level app (test_sm_level app (test_sm_level app d)) ev cb e =
   test_sm_level app (test_sm_level app (test_sm_level app d')) ev cb e"
proof -
  have "test_app_conn_up app (test_sm_level app (test_sm_level app d)) =
      test_app_conn_up app (test_sm_level app (test_sm_level app d'))"
    by (intro ext) (simp only: test_app_conn_up_def level_app_notifs [of app d _ _ _ d'])
  then show ?thesis
    by (cases "l4cb_test_state cb"; cases ev)
      (simp_all add: test_sm_level_def [of _ "test_sm_level app (test_sm_level app _)"] test_sm_function_array_def
        test_sm_SF_defs level_enter_leaf [of _ app "test_sm_level app d" "test_sm_level app d'"] Let_def)
qed

lemma run_level: "test_sm_run (Suc n) app = test_sm_level app (test_sm_run n app)"
  by (intro ext) (simp add: test_sm_level_def)

lemma dispatch_level: "test_sm_dispatch_event app =
   test_sm_level app (test_sm_level app (test_sm_level app (test_sm_run 0 app)))"
  by (simp only: test_sm_dispatch_event_def numeral_3_eq_3 run_level)

text \<open>
  C21: The dispatcher of the session state machine returns: the state functions call back into it at most twice before
  they are done. Whatever dispatcher \<open>d\<close> stands below the third level, the result is the same, so that
  the level below is never entered and a result \<^term>\<open>None\<close> is an assertion or a removal from the wrong
  list, never the end of the fuel; and the dispatcher satisfies the recursive equation of the code, in which the state
  functions call the dispatcher itself.
\<close>

theorem test_sm_fuel_enough:
  "test_sm_dispatch_event app ev cb e = (test_sm_level app ^^ 3) d ev cb e \<and>
   test_sm_dispatch_event app ev cb e =
     test_sm_function_array app (l4cb_test_state cb) (test_sm_dispatch_event app) ev cb e"
proof -
  have any: "test_sm_dispatch_event app ev cb e = test_sm_level app (test_sm_level app (test_sm_level app d)) ev cb e"
    for d
    unfolding dispatch_level by (rule level_three)
  have "test_sm_level app (test_sm_dispatch_event app) ev cb e = test_sm_dispatch_event app ev cb e"
    unfolding any [of "test_sm_level app (test_sm_run 0 app)"] by (simp only: dispatch_level)
  with any [of d] show ?thesis by (simp add: test_sm_level_def numeral_3_eq_3)
qed

text \<open>
  A session that is waiting to be closed cannot be purged: the purge takes the control block
  off the list of the closed sessions, where it is not.
\<close>

theorem purge_to_close_wrong_list:
  assumes "sm_wf cb e" and "l4cb_test_state cb = TSTS_CL_TO_CLOSE"
  shows "l4cb_id cb \<in> set (tos_to_close_cbs (get_tci cb e)) \<and>
         l4cb_id cb \<notin> set (tos_closed_cbs (get_tci cb e)) \<and>
         test_sm_dispatch_event app TSTE_PURGE cb e = None"
proof -
  from assms have l: "lists_hold (Some To_Close) (l4cb_id cb) (get_tci cb e)" by (simp add: sm_wf_def)
  then have "count_list (tos To_Close (get_tci cb e)) (l4cb_id cb) = 1"
    and "count_list (tos Closed_List (get_tci cb e)) (l4cb_id cb) = 0"
    by (simp_all add: lists_hold_def del: tos.simps)
  moreover have "TEST_CBQ_REM_CLOSED cb e = None" using rem_some(6) [OF l] .
  then have "test_sm_dispatch_event app TSTE_PURGE cb e = None"
    using assms(2)
    by (simp add: test_sm_dispatch_event_def numeral_3_eq_3 test_sm_function_array_def
        test_sm_SF_client_to_close_def)
  ultimately show ?thesis by (metis One_nat_def count_list_0_iff tos.simps(3,5) zero_neq_one)
qed

theorem purge_to_close_wrong_list_witness:
  "test_sm_dispatch_event ex_app TSTE_PURGE (ex_cb TSTS_CL_TO_CLOSE 3)
     (upd_tci (ex_cb TSTS_CL_TO_CLOSE 3) (\<lambda>c. c\<lparr>tos_to_close_cbs := [3]\<rparr>) ex_core) = None"
proof -
  have "tos L (ex_tci\<lparr>tos_to_close_cbs := [3]\<rparr>) = (if L = To_Close then [3] else [])" for L
    by (cases L) (simp_all add: ex_tci_def)
  then have "sm_wf (ex_cb TSTS_CL_TO_CLOSE 3)
      (upd_tci (ex_cb TSTS_CL_TO_CLOSE 3) (\<lambda>c. c\<lparr>tos_to_close_cbs := [3]\<rparr>) ex_core)"
    by (simp add: sm_wf_def lists_hold_def ex_core_def get_tci_def upd_tci_def)
  from purge_to_close_wrong_list [OF this] show ?thesis by simp
qed

text \<open>
  The delay of a session, in seconds, becomes the timeout of its test timer modulo \<open>2 ^ 32\<close> microseconds:
  exact up to 4294 seconds; 4295 seconds become 32704 microseconds.
\<close>

lemma test_delay_wraps:
  "test_tmr_set_delay d cb e =
     Some (snd (l4cb_timer_test_set (of_nat (unat (d_value d) * 1000000 mod 2 ^ 32)) cb e)) \<and>
   (unat (d_value d) \<le> 4294 \<longrightarrow> unat (d_value d) * 1000000 mod 2 ^ 32 = unat (d_value d) * 1000000) \<and>
   (d_value d = 4295 \<longrightarrow> unat (d_value d) * 1000000 mod 2 ^ 32 = 32704)"
proof -
  have "d_value d * 1000000 = of_nat (unat (d_value d) * 1000000 mod 2 ^ 32)"
    by (simp add: unat_word_ariths [symmetric] word_unat_eq_iff unat_of_nat unat_word_ariths take_bit_eq_mod)
  then show ?thesis by (simp add: test_tmr_set_delay_def)
qed

end
