(* ===== verification/TestSMFrame.thy ===== *)
theory TestSMFrame
  imports TestSMProps
begin

text \<open>
  What the session test state machine leaves alone: the identity and the addresses of a control
  block, everything a protocol adds to it, the clock, and everything a protocol adds to the
  per-core state. The contract is the locale \<open>test_frame\<close>; every \<open>test_sm_run\<close> is an interpretation,
  so a notification of the TCP stack changes no field of the stack.
\<close>

definition sm_frame where
  "sm_frame cb e =
     (l4cb_id cb, l4cb_rx_hash cb, l4cb_interface cb, l4cb_test_case_id cb, l4cb_sockopt cb,
      (l4cb_src_port cb, l4cb_dst_port cb, l4cb_src_addr cb, l4cb_dst_addr cb), l4cb.more cb,
      ce_now e, ce_cycles_per_us e, core_env.more e)"

named_theorems sm_frame_dest \<open>an operation keeps the frame\<close>

lemma sm_frame_cb_upd [simp]:
  "sm_frame (cb\<lparr>l4cb_test_state := st\<rparr>) e = sm_frame cb e"
  "sm_frame (cb\<lparr>l4cb_app_data := d\<rparr>) e = sm_frame cb e"
  "sm_frame (cb\<lparr>l4cb_on_test_tmr_list := b\<rparr>) e = sm_frame cb e"
  "sm_frame (test_app_conn_down app cb) e = sm_frame cb e"
  by (simp_all add: sm_frame_def test_app_conn_down_def)

lemma sm_frame_env_upd [simp]:
  "sm_frame cb (e\<lparr>ce_msgs := m\<rparr>) = sm_frame cb e"
  "sm_frame cb (e\<lparr>ce_msg_outcomes := os\<rparr>) = sm_frame cb e"
  "sm_frame cb (e\<lparr>ce_test_wheel := w\<rparr>) = sm_frame cb e"
  "sm_frame cb (upd_timer_stats p g e) = sm_frame cb e"
  "sm_frame cb (upd_tci cb1 f e) = sm_frame cb e"
  by (simp_all add: sm_frame_def upd_timer_stats_def upd_tci_def)

lemma sm_frame_runner [simp]: "sm_frame cb (test_resched_runner typ a b cb1 e) = sm_frame cb e"
  by (cases "outcome (ce_msg_outcomes e)")
    (simp add: test_resched_runner_def test_case_run_msg_def Let_def)

lemma sm_frame_add [simp]:
  "sm_frame cb (TEST_CBQ_ADD_TO_OPEN cb1 e) = sm_frame cb e"
  "sm_frame cb (TEST_CBQ_ADD_TO_OPEN_NO_RESCHED cb1 e) = sm_frame cb e"
  "sm_frame cb (TEST_CBQ_ADD_TO_CLOSE cb1 e) = sm_frame cb e"
  "sm_frame cb (TEST_CBQ_ADD_TO_SEND cb1 e) = sm_frame cb e"
  "sm_frame cb (TEST_CBQ_ADD_TO_INIT cb1 e) = sm_frame cb e"
  "sm_frame cb (TEST_CBQ_ADD_CLOSED cb1 e) = sm_frame cb e"
  by (simp_all add: cbq_add_eqs)

lemma sm_frame_rem [sm_frame_dest]:
  "TEST_CBQ_REM_TO_OPEN cb e = Some e' \<Longrightarrow> sm_frame cb e' = sm_frame cb e"
  "TEST_CBQ_REM_TO_CLOSE cb e = Some e' \<Longrightarrow> sm_frame cb e' = sm_frame cb e"
  "TEST_CBQ_REM_TO_SEND cb e = Some e' \<Longrightarrow> sm_frame cb e' = sm_frame cb e"
  "TEST_CBQ_REM_TO_INIT cb e = Some e' \<Longrightarrow> sm_frame cb e' = sm_frame cb e"
  "TEST_CBQ_REM_CLOSED cb e = Some e' \<Longrightarrow> sm_frame cb e' = sm_frame cb e"
  by (auto simp: cbq_rem_eqs split: if_splits)

lemma sm_frame_tmr [sm_frame_dest]:
  "test_tmr_set_delay d cb e = Some (cb', e') \<Longrightarrow> sm_frame cb' e' = sm_frame cb e"
  "test_tmr_cancel_if_set cb e = Some (cb', e') \<Longrightarrow> sm_frame cb' e' = sm_frame cb e"
  by (auto simp: test_tmr_set_delay_def l4cb_timer_test_set_def test_tmr_cancel_if_set_def
      l4cb_timer_test_cancel_def Let_def split: prod.splits if_splits)

locale test_frame =
  fixes disp :: "('a, 'z, 'y) sm_disp"
  assumes disp_frame: "disp ev cb e = Some (cb', e') \<Longrightarrow> sm_frame cb' e' = sm_frame cb e"
begin

lemma enter_frame:
  "test_sm_enter_state disp st cb e = Some (cb', e') \<Longrightarrow> sm_frame cb' e' = sm_frame cb e"
  by (auto simp: test_sm_enter_state_def dest!: disp_frame)

lemma app_notifs_frame:
  "test_app_notifs disp ns cb e = Some (cb', e') \<Longrightarrow> sm_frame cb' e' = sm_frame cb e"
  by (induction ns arbitrary: cb e) (fastforce dest!: disp_frame)+

lemma conn_up_frame:
  "test_app_conn_up app disp cb e = Some (cb', e') \<Longrightarrow> sm_frame cb' e' = sm_frame cb e"
  by (auto simp: test_app_conn_up_def split: prod.splits dest!: app_notifs_frame)

lemma function_array_frame:
  "test_sm_function_array app st disp ev cb e = Some (cb', e') \<Longrightarrow> sm_frame cb' e' = sm_frame cb e"
  by (cases st; cases ev)
    (auto simp: test_sm_function_array_def test_sm_SF_defs Let_def
      dest!: sm_frame_dest enter_frame conn_up_frame split: if_splits)

end

interpretation test_run_frame: test_frame "test_sm_run n app" for n app
proof (induction n)
  case 0
  show ?case by unfold_locales simp
next
  case (Suc n)
  show ?case by unfold_locales (simp add: test_frame.function_array_frame [OF Suc])
qed

lemma dispatch_frame:
  "test_sm_dispatch_event app ev cb e = Some (cb', e') \<Longrightarrow> sm_frame cb' e' = sm_frame cb e"
  unfolding test_sm_dispatch_event_def by (rule test_run_frame.disp_frame)

interpretation test_disp_frame: test_frame "test_sm_dispatch_event app" for app
  by unfold_locales (rule dispatch_frame)

lemma test_notification_frame [sm_frame_dest]:
  "test_notification app n cb e = Some (cb', e') \<Longrightarrow> sm_frame cb' e' = sm_frame cb e"
  by (cases n)
    (auto simp: test_notification_def test_sess_init_def test_sess_connecting_def
      test_sess_connected_def test_sess_connected_imm_def test_sess_listen_def
      test_sess_server_connected_def test_sess_closed_def test_sess_record_start_time_def
      test_sess_record_end_time_def test_sess_count_estab_def
      dest!: dispatch_frame test_disp_frame.enter_frame split: if_splits)

end
