(* ===== verification/TcpFrame.thy ===== *)
theory TcpFrame
  imports TcpSM TestSMFrame
begin

text \<open>
  What the operations of the TCP stack below the state machine leave alone (\<open>tcp_frame\<close>): the
  identity and the options of the control block, the hash table, the pool, the memory of the
  other blocks and their timers; and the invariant \<open>tmr_inv\<close> they keep: a block carries the flag of a
  timer exactly when it is on the wheel of that timer.
\<close>

definition tmr_inv :: "'a tcb \<Rightarrow> 'a env \<Rightarrow> bool" where
  "tmr_inv t e \<longleftrightarrow> wheel_wf (e_rto_wheel e) \<and> wheel_wf (e_slow_wheel e) \<and>
     (tcb_on_rto_list t \<longleftrightarrow> l4cb_id t \<in> set (tw_entries (e_rto_wheel e))) \<and>
     (tcb_on_slow_list t \<longleftrightarrow> l4cb_id t \<in> set (tw_entries (e_slow_wheel e)))"

definition tcp_frame where
  "tcp_frame (t :: 'a tcb) (e :: 'a env) =
     ((l4cb_id t, l4cb_rx_hash t, l4cb_interface t, l4cb_test_case_id t, l4cb_sockopt t,
       l4cb_src_port t, l4cb_dst_port t, l4cb_src_addr t, l4cb_dst_addr t),
      (tcb_malloced t, tcb_active t, tcb_consume_all_data t),
      (e_htable e, e_pool e, e_tcbs e, pcb_tcp (e_pcb e), ce_now e, ce_cycles_per_us e))"

definition others_timers :: "'a tcb \<Rightarrow> 'a env \<Rightarrow> cb_id set \<times> cb_id set" where
  "others_timers t e =
     (set (tw_entries (e_rto_wheel e)) - {l4cb_id t}, set (tw_entries (e_slow_wheel e)) - {l4cb_id t})"

text \<open>The block and the core are in the frame \<open>v\<close> (the state of the block is its second component), with the invariant. An operation that keeps the
  frame takes every \<open>tcp_in v t e\<close> to \<open>tcp_in v t' e'\<close>.\<close>

definition tcp_view where
  "tcp_view t e = ((tcp_frame t e, others_timers t e), tcb_state t)"

definition tcp_in where
  "tcp_in v t e \<longleftrightarrow> tcp_view t e = v \<and> tmr_inv t e"

named_theorems tcp_dest \<open>an operation keeps the frame and the timers\<close>

lemma tcp_inI: "tmr_inv t e \<Longrightarrow> tcp_in (tcp_view t e) t e"
  by (simp add: tcp_in_def)

lemmas tcp_in_defs = tcp_in_def tcp_view_def tcp_frame_def tmr_inv_def others_timers_def

subsection \<open>Updates of single fields\<close>

lemma tcp_in_tcb_upd [simp]:
  "tcp_in v (t\<lparr>snd_una := w\<rparr>) e = tcp_in v t e"
  "tcp_in v (t\<lparr>snd_nxt := w\<rparr>) e = tcp_in v t e"
  "tcp_in v (t\<lparr>snd_wnd := w\<rparr>) e = tcp_in v t e"
  "tcp_in v (t\<lparr>snd_wl1 := w\<rparr>) e = tcp_in v t e"
  "tcp_in v (t\<lparr>snd_wl2 := w\<rparr>) e = tcp_in v t e"
  "tcp_in v (t\<lparr>rcv_nxt := w\<rparr>) e = tcp_in v t e"
  "tcp_in v (t\<lparr>rcv_irs := w\<rparr>) e = tcp_in v t e"
  "tcp_in v (t\<lparr>rcv_up := w\<rparr>) e = tcp_in v t e"
  "tcp_in v (t\<lparr>tr_data_mbufs := c\<rparr>) e = tcp_in v t e"
  "tcp_in v (t\<lparr>tr_last_set := b\<rparr>) e = tcp_in v t e"
  "tcp_in v (t\<lparr>tr_total_size := w\<rparr>) e = tcp_in v t e"
  "tcp_in v (t\<lparr>tcb_rcv_buf := l\<rparr>) e = tcp_in v t e"
  "tcp_in v (t\<lparr>tcb_retrans_cnt := n\<rparr>) e = tcp_in v t e"
  "tcp_in v (t\<lparr>tcb_fin_rcvd := b\<rparr>) e = tcp_in v t e"
  "tcp_in v (t\<lparr>tcb_rst_rcvd := b\<rparr>) e = tcp_in v t e"
  "tcp_in v (t\<lparr>tcb_rcv_fin_seq := w\<rparr>) e = tcp_in v t e"
  "tcp_in v (t\<lparr>l4cb_app_data := d\<rparr>) e = tcp_in v t e"
  by (simp_all add: tcp_in_defs)

lemma tcp_in_env_upd [simp]:
  "tcp_in v t (upd_tcp_stats p f e) = tcp_in v t e"
  "tcp_in v t (upd_tsm_stats p g e) = tcp_in v t e"
  "tcp_in v t (upd_timer_stats p h e) = tcp_in v t e"
  "tcp_in v t (e\<lparr>e_tx := l\<rparr>) = tcp_in v t e"
  "tcp_in v t (e\<lparr>e_tx_outcomes := os\<rparr>) = tcp_in v t e"
  "tcp_in v t (e\<lparr>e_alloc_outcomes := bs\<rparr>) = tcp_in v t e"
  "tcp_in v t (e\<lparr>e_data_sent := n\<rparr>) = tcp_in v t e"
  "tcp_in v t (e\<lparr>e_pcb := (e_pcb e)\<lparr>pcb_mbuf := m\<rparr>\<rparr>) = tcp_in v t e"
  "tcp_in v t (e\<lparr>e_pcb := (e_pcb e)\<lparr>pcb_mbuf_stored := b\<rparr>\<rparr>) = tcp_in v t e"
  "tcp_in v t (e\<lparr>e_pcb := (e_pcb e)\<lparr>pcb_sockopt := so\<rparr>\<rparr>) = tcp_in v t e"
  by (simp_all add: tcp_in_defs upd_tcp_stats_def upd_tsm_stats_def upd_timer_stats_def)

subsection \<open>Sending\<close>

lemma tcp_in_tcp_send_pkt [simp]: "tcp_in v t (snd (tcp_send_pkt t1 s f c e)) = tcp_in v t e"
  by (cases "next_tx_outcome (e_tx_outcomes e)") (simp add: tcp_send_pkt_def Let_def)

lemma tcp_in_send [simp]:
  "tcp_in v t (tcp_send_ctrl_pkt_with_sseq t1 s f e) = tcp_in v t e"
  "tcp_in v t (tcp_send_ctrl_pkt t1 f e) = tcp_in v t e"
  "tcp_in v t (tcp_send_ack_pkt t1 e) = tcp_in v t e"
  "tcp_in v t (snd (tcp_send_data_pkt t1 s f c e)) = tcp_in v t e"
  by (simp_all add: tcp_send_ctrl_pkt_with_sseq_def tcp_send_ctrl_pkt_def tcp_send_ack_pkt_def
      tcp_send_data_pkt_def case_prod_beta Let_def)

subsection \<open>Notifications\<close>

lemma tcb_more_eq:
  fixes t t' :: "'a tcb"
  assumes "l4cb.more t' = l4cb.more t"
  shows "tcb_state t' = tcb_state t" "tcb_malloced t' = tcb_malloced t" "tcb_active t' = tcb_active t"
    "tcb_consume_all_data t' = tcb_consume_all_data t" "tcb_on_rto_list t' = tcb_on_rto_list t"
    "tcb_on_slow_list t' = tcb_on_slow_list t" "tcb_rst_rcvd t' = tcb_rst_rcvd t"
    "snd_una t' = snd_una t" "snd_nxt t' = snd_nxt t" "snd_wnd t' = snd_wnd t"
    "snd_wl1 t' = snd_wl1 t" "snd_wl2 t' = snd_wl2 t" "snd_iss t' = snd_iss t"
    "rcv_nxt t' = rcv_nxt t" "rcv_wnd t' = rcv_wnd t" "tcb_rcv_buf t' = tcb_rcv_buf t"
    "tr_data_mbufs t' = tr_data_mbufs t" "tr_total_size t' = tr_total_size t"
    "tr_last_set t' = tr_last_set t" "tcb_retrans_cnt t' = tcb_retrans_cnt t"
    "tcb_fin_rcvd t' = tcb_fin_rcvd t" "tcb_rcv_fin_seq t' = tcb_rcv_fin_seq t"
  using assms by (cases t; cases t'; simp)+

lemma env_more_eq:
  fixes e e' :: "'a env"
  assumes "core_env.more e' = core_env.more e"
  shows "e_tcbs e' = e_tcbs e" "e_pool e' = e_pool e" "e_htable e' = e_htable e"
    "e_slow_wheel e' = e_slow_wheel e" "e_rto_wheel e' = e_rto_wheel e" "e_pcb e' = e_pcb e"
    "e_tx e' = e_tx e" "e_tcp_stats e' = e_tcp_stats e" "e_tsm_stats e' = e_tsm_stats e"
    "e_tx_outcomes e' = e_tx_outcomes e" "e_alloc_outcomes e' = e_alloc_outcomes e"
    "e_pi_mtu e' = e_pi_mtu e" "e_data_sent e' = e_data_sent e"
  using assms by (cases e; cases e'; simp)+

lemma sm_frame_tcp_in:
  fixes t t' :: "'a tcb" and e e' :: "'a env"
  assumes "sm_frame t' e' = sm_frame t e"
  shows "tcp_in v t' e' = tcp_in v t e"
proof -
  have "l4cb.more t' = l4cb.more t" "core_env.more e' = core_env.more e"
    using assms by (simp_all add: sm_frame_def)
  from tcb_more_eq [OF this(1)] env_more_eq [OF this(2)] assms show ?thesis
    by (simp add: tcp_in_defs sm_frame_def)
qed

lemma tcp_in_notif [tcp_dest]:
  "TCP_NOTIF P n t e = Some (t', e') \<Longrightarrow> tcp_in v t e \<Longrightarrow> tcp_in v t' e'"
  unfolding TCP_NOTIF_def by (drule test_notification_frame, drule sm_frame_tcp_in) blast

lemma tcp_in_app_notifs [tcp_dest]:
  fixes t :: "'a tcb" and e :: "'a env"
  shows "test_app_notifs (test_sm_dispatch_event app) ns t e = Some (t', e') \<Longrightarrow>
           tcp_in v t e \<Longrightarrow> tcp_in v t' e'"
  by (drule test_disp_frame.app_notifs_frame, drule sm_frame_tcp_in) blast

subsection \<open>Timers\<close>

lemma tcp_in_rto_wheel:
  assumes "tcp_in v t e" and "wheel_wf w"
    and "set (tw_entries w) - {l4cb_id t} = set (tw_entries (e_rto_wheel e)) - {l4cb_id t}"
    and "b \<longleftrightarrow> l4cb_id t \<in> set (tw_entries w)"
  shows "tcp_in v (t\<lparr>tcb_on_rto_list := b\<rparr>) (e\<lparr>e_rto_wheel := w\<rparr>)"
  using assms unfolding tcp_in_def tmr_inv_def tcp_view_def tcp_frame_def others_timers_def by simp

lemma tcp_in_slow_wheel:
  assumes "tcp_in v t e" and "wheel_wf w"
    and "set (tw_entries w) - {l4cb_id t} = set (tw_entries (e_slow_wheel e)) - {l4cb_id t}"
    and "b \<longleftrightarrow> l4cb_id t \<in> set (tw_entries w)"
  shows "tcp_in v (t\<lparr>tcb_on_slow_list := b\<rparr>) (e\<lparr>e_slow_wheel := w\<rparr>)"
  using assms unfolding tcp_in_def tmr_inv_def tcp_view_def tcp_frame_def others_timers_def by simp

lemma tcp_in_wf:
  "tcp_in v t e \<Longrightarrow> wheel_wf (e_rto_wheel e) \<and> wheel_wf (e_slow_wheel e)"
  "tcp_in v t e \<Longrightarrow> tcb_on_rto_list t \<longleftrightarrow> l4cb_id t \<in> set (tw_entries (e_rto_wheel e))"
  "tcp_in v t e \<Longrightarrow> tcb_on_slow_list t \<longleftrightarrow> l4cb_id t \<in> set (tw_entries (e_slow_wheel e))"
  by (simp_all add: tcp_in_def tmr_inv_def)

lemma tcp_in_rto_cancel [tcp_dest]:
  assumes "rto_cancel t e = Some (t', e')" and "tcp_in v t e"
  shows "tcp_in v t' e'"
proof (cases "tcb_on_rto_list t")
  case True
  with assms(1) obtain w where w: "TIMER_CANCEL (l4cb_id t) (e_rto_wheel e) = Some w"
    and t': "t' = t\<lparr>tcb_on_rto_list := False\<rparr>" and e': "e' = upd_timer_stats (l4cb_interface t)
      (\<lambda>s. s\<lparr>tts_rto_cancelled := tts_rto_cancelled s + 1\<rparr>) (e\<lparr>e_rto_wheel := w\<rparr>)"
    by (auto simp: rto_cancel_def tcp_timer_rto_cancel_def)
  from TIMER_CANCEL_wf [OF _ w] tcp_in_wf [OF assms(2)] show ?thesis
    by (auto simp: t' e' intro!: tcp_in_rto_wheel [OF assms(2)])
next
  case False
  with assms show ?thesis by (simp add: rto_cancel_def tcp_timer_rto_cancel_def) auto
qed

lemma tcp_in_slow_cancel [tcp_dest]:
  assumes "slow_cancel t e = Some (t', e')" and "tcp_in v t e"
  shows "tcp_in v t' e'"
proof (cases "tcb_on_slow_list t")
  case True
  with assms(1) obtain w where w: "TIMER_CANCEL (l4cb_id t) (e_slow_wheel e) = Some w"
    and t': "t' = t\<lparr>tcb_on_slow_list := False\<rparr>" and e': "e' = upd_timer_stats (l4cb_interface t)
      (\<lambda>s. s\<lparr>tts_slow_cancelled := tts_slow_cancelled s + 1\<rparr>) (e\<lparr>e_slow_wheel := w\<rparr>)"
    by (auto simp: slow_cancel_def tcp_timer_slow_cancel_def)
  from TIMER_CANCEL_wf [OF _ w] tcp_in_wf [OF assms(2)] show ?thesis
    by (auto simp: t' e' intro!: tcp_in_slow_wheel [OF assms(2)])
next
  case False
  with assms show ?thesis by (simp add: slow_cancel_def tcp_timer_slow_cancel_def) auto
qed

lemma tcp_in_cancel_if_set [tcp_dest]:
  "rto_cancel_if_set t e = Some (t', e') \<Longrightarrow> tcp_in v t e \<Longrightarrow> tcp_in v t' e'"
  "slow_cancel_if_set t e = Some (t', e') \<Longrightarrow> tcp_in v t e \<Longrightarrow> tcp_in v t' e'"
  by (auto simp: rto_cancel_if_set_def slow_cancel_if_set_def split: if_splits dest: tcp_dest)

lemma tcp_in_rto_set [tcp_dest]:
  assumes "tcp_timer_rto_set us t e = (r, t', e')" and "tcp_in v t e"
  shows "tcp_in v t' e'"
proof (cases "tcb_on_rto_list t")
  case True
  with assms show ?thesis by (auto simp: tcp_timer_rto_set_def)
next
  case False
  obtain s w where w: "TIMER_SET (ce_cycles_per_us e) (ce_now e) (l4cb_id t) us (e_rto_wheel e) = (s, w)"
    by (cases "TIMER_SET (ce_cycles_per_us e) (ce_now e) (l4cb_id t) us (e_rto_wheel e)") auto
  note wf = tcp_in_wf [OF assms(2)]
  show ?thesis
  proof (cases "s = 0")
    case True
    with TIMER_SET_wf [OF _ _ w] wf False
    have "wheel_wf w \<and> set (tw_entries w) = insert (l4cb_id t) (set (tw_entries (e_rto_wheel e)))" by auto
    then have "tcp_in v (t\<lparr>tcb_on_rto_list := True\<rparr>) (e\<lparr>e_rto_wheel := w\<rparr>)"
      by (intro tcp_in_rto_wheel [OF assms(2)]) auto
    with assms(1) w True False show ?thesis by (auto simp: tcp_timer_rto_set_def)
  next
    case nz: False
    with assms w False show ?thesis by (auto simp: tcp_timer_rto_set_def)
  qed
qed

lemma tcp_in_slow_set [tcp_dest]:
  assumes "tcp_timer_slow_set us t e = (r, t', e')" and "tcp_in v t e"
  shows "tcp_in v t' e'"
proof (cases "tcb_on_slow_list t")
  case True
  with assms show ?thesis by (auto simp: tcp_timer_slow_set_def)
next
  case False
  obtain s w where w: "TIMER_SET (ce_cycles_per_us e) (ce_now e) (l4cb_id t) us (e_slow_wheel e) = (s, w)"
    by (cases "TIMER_SET (ce_cycles_per_us e) (ce_now e) (l4cb_id t) us (e_slow_wheel e)") auto
  note wf = tcp_in_wf [OF assms(2)]
  show ?thesis
  proof (cases "s = 0")
    case True
    with TIMER_SET_wf [OF _ _ w] wf False
    have "wheel_wf w \<and> set (tw_entries w) = insert (l4cb_id t) (set (tw_entries (e_slow_wheel e)))" by auto
    then have "tcp_in v (t\<lparr>tcb_on_slow_list := True\<rparr>) (e\<lparr>e_slow_wheel := w\<rparr>)"
      by (intro tcp_in_slow_wheel [OF assms(2)]) auto
    with assms(1) w True False show ?thesis by (auto simp: tcp_timer_slow_set_def)
  next
    case nz: False
    with assms w False show ?thesis by (auto simp: tcp_timer_slow_set_def)
  qed
qed

subsection \<open>Programs that keep the frame\<close>

text \<open>Rules for the operators the code is put together with, one for every shape of a result.\<close>

definition keep2 where
  "keep2 v m \<longleftrightarrow> (\<forall>t e. m = Some (t, e) \<longrightarrow> tcp_in v t e)"

definition keep3 where
  "keep3 v m \<longleftrightarrow> (\<forall>r t e. m = Some (r, t, e) \<longrightarrow> tcp_in v t e)"

named_theorems keep_intro \<open>rules for programs that keep the frame\<close>

lemma keep_Some [keep_intro]:
  "tcp_in v t e \<Longrightarrow> keep2 v (Some (t, e))"
  "tcp_in v t e \<Longrightarrow> keep3 v (Some (r, t, e))"
  "keep2 v None"
  "keep3 v None"
  by (simp_all add: keep2_def keep3_def)

lemma keep_if [keep_intro]:
  "(b \<Longrightarrow> keep2 v x) \<Longrightarrow> (\<not> b \<Longrightarrow> keep2 v y) \<Longrightarrow> keep2 v (if b then x else y)"
  "(b \<Longrightarrow> keep3 v x') \<Longrightarrow> (\<not> b \<Longrightarrow> keep3 v y') \<Longrightarrow> keep3 v (if b then x' else y')"
  by simp_all

lemma keep_bind2 [keep_intro]:
  "keep2 v m \<Longrightarrow> (\<And>t e. tcp_in v t e \<Longrightarrow> keep2 v (f t e)) \<Longrightarrow> keep2 v (Option.bind m (\<lambda>(t, e). f t e))"
  "keep2 v m \<Longrightarrow> (\<And>t e. tcp_in v t e \<Longrightarrow> keep3 v (g t e)) \<Longrightarrow> keep3 v (Option.bind m (\<lambda>(t, e). g t e))"
  by (auto simp: keep2_def keep3_def)

lemma keep_bind3 [keep_intro]:
  "keep3 v m \<Longrightarrow> (\<And>r t e. tcp_in v t e \<Longrightarrow> keep2 v (f r t e)) \<Longrightarrow>
     keep2 v (Option.bind m (\<lambda>(r, t, e). f r t e))"
  "keep3 v m \<Longrightarrow> (\<And>r t e. tcp_in v t e \<Longrightarrow> keep3 v (g r t e)) \<Longrightarrow>
     keep3 v (Option.bind m (\<lambda>(r, t, e). g r t e))"
  by (auto simp: keep2_def keep3_def)

lemma keep_bind_any:
  "(\<And>x. m = Some x \<Longrightarrow> keep2 v (f x)) \<Longrightarrow> keep2 v (Option.bind m f)"
  "(\<And>x. m = Some x \<Longrightarrow> keep3 v (g x)) \<Longrightarrow> keep3 v (Option.bind m g)"
  by (auto simp: keep2_def keep3_def)

lemma keep_case:
  "(\<And>a b. x = (a, b) \<Longrightarrow> keep2 v (f a b)) \<Longrightarrow> keep2 v (case x of (a, b) \<Rightarrow> f a b)"
  "(\<And>a b. x = (a, b) \<Longrightarrow> keep3 v (g a b)) \<Longrightarrow> keep3 v (case x of (a, b) \<Rightarrow> g a b)"
  by (auto split: prod.splits)

lemma keep_map_any:
  "(\<And>m. keep3 v (Some (h m))) \<Longrightarrow> keep3 v (map_option h x)"
  by (auto simp: keep3_def)

lemma keep_map [keep_intro]:
  "keep3 v m3 \<Longrightarrow> keep2 v (map_option snd m3)"
  "keep2 v m \<Longrightarrow> keep3 v (map_option (\<lambda>x. (r, x)) m)"
  "keep2 v m \<Longrightarrow> (\<And>t e. tcp_in v t e \<Longrightarrow> keep3 v (Some (g t e))) \<Longrightarrow> keep3 v (map_option (\<lambda>(t, e). g t e) m)"
  by (auto simp: keep2_def keep3_def)

text \<open>The operations so far.\<close>

lemma keep_ops [keep_intro]:
  "tcp_in v t e \<Longrightarrow> keep2 v (TCP_NOTIF P n t e)"
  "tcp_in v t e \<Longrightarrow> keep2 v (test_app_notifs (test_sm_dispatch_event app) ns t e)"
  "tcp_in v t e \<Longrightarrow> keep2 v (rto_cancel t e)"
  "tcp_in v t e \<Longrightarrow> keep2 v (slow_cancel t e)"
  "tcp_in v t e \<Longrightarrow> keep2 v (rto_cancel_if_set t e)"
  "tcp_in v t e \<Longrightarrow> keep2 v (slow_cancel_if_set t e)"
  unfolding keep2_def by (blast intro: tcp_dest)+

lemma tcp_in_snd_set [simp]:
  assumes "tcp_in v t e"
  shows "tcp_in v (fst (snd (tcp_timer_rto_set us t e))) (snd (snd (tcp_timer_rto_set us t e)))"
    and "tcp_in v (fst (snd (tcp_timer_slow_set us t e))) (snd (snd (tcp_timer_slow_set us t e)))"
  using assms by (metis prod.collapse tcp_in_rto_set, metis prod.collapse tcp_in_slow_set)

lemma tcp_in_schedule [tcp_dest]:
  assumes "tcp_in v t e"
  shows "tcp_in v (fst (tsm_schedule_retransmission t e)) (snd (tsm_schedule_retransmission t e))"
  using assms by (simp add: tsm_schedule_retransmission_def)

lemma keep_schedule [keep_intro]:
  "tcp_in v t e \<Longrightarrow> keep2 v (Some (tsm_schedule_retransmission t e))"
  "tcp_in v t e \<Longrightarrow> keep3 v (Some (r, tsm_schedule_retransmission t e))"
  "tcp_in v t e \<Longrightarrow> keep3 v (Some (r, snd (tcp_timer_slow_set us t e)))"
  "tcp_in v t e \<Longrightarrow> (\<And>t e. tcp_in v t e \<Longrightarrow> keep3 v (f t e)) \<Longrightarrow>
     keep3 v (case tsm_schedule_retransmission t e of (t, e) \<Rightarrow> f t e)"
  "tcp_in v t e \<Longrightarrow> (\<And>r t e. tcp_in v t e \<Longrightarrow> keep3 v (g r t e)) \<Longrightarrow>
     keep3 v (case tcp_timer_slow_set us t e of (r, t, e) \<Rightarrow> g r t e)"
  using tcp_in_schedule [of v t e] tcp_in_snd_set [of v t e us]
  by (cases "tsm_schedule_retransmission t e"; cases "tcp_timer_slow_set us t e";
      auto simp: keep2_def keep3_def)+

subsection \<open>Data\<close>

lemma keep_win_full [keep_intro]: "tcp_in v t e \<Longrightarrow> keep2 v (tsm_notif_win_full P b t e)"
  unfolding tsm_notif_win_full_def by (intro keep_intro) simp_all

lemma tcp_in_store_send:
  "tcp_data_store_send t d e0 = Some (n, t') \<Longrightarrow> tcp_in v t' e = tcp_in v t e"
  by (auto simp: tcp_data_store_send_def Let_def split: list.splits if_splits)

lemma tcp_in_send_data_pkt:
  "tcp_send_data_pkt t1 s f c e = (ok, e') \<Longrightarrow> tcp_in v t e' = tcp_in v t e"
  by (metis snd_conv tcp_in_send(4))

lemma tcp_in_send_segment:
  assumes "tcp_data_send_segment t1 c l off s f e = Some (ok, e')"
  shows "tcp_in v t e' = tcp_in v t e"
proof -
  from assms obtain cl os where "data_clone_seg c l off (e_alloc_outcomes e) = Some (cl, os)"
    by (auto simp: tcp_data_send_segment_def)
  with assms show ?thesis
    using tcp_in_send_data_pkt [of t1 s f "the cl" "e\<lparr>e_alloc_outcomes := os\<rparr>" ok e' v t]
    by (cases cl) (auto simp: tcp_data_send_segment_def)
qed

lemma keep_send_loop [keep_intro]:
  "tcp_in v t e \<Longrightarrow> keep3 v (tcp_data_send_loop n c l off s f sent t e)"
proof (induction n arbitrary: c l off s sent t e)
  case 0
  then show ?case by (auto intro: keep_intro)
next
  case (Suc n)
  show ?case
    unfolding tcp_data_send_loop.simps Let_def using Suc.prems
    by (intro keep_intro keep_bind_any Suc.IH) (auto simp: tcp_in_send_segment intro!: keep_intro keep_bind_any Suc.IH)
qed

lemma keep_send_segments [keep_intro]:
  "tcp_in v t e \<Longrightarrow> keep3 v (tcp_data_send_segments c l off s f t e)"
  unfolding tcp_data_send_segments_def by (intro keep_intro)

lemma keep_data_send [keep_intro]: "tcp_in v t e \<Longrightarrow> keep3 v (tcp_data_send d t e)"
  unfolding tcp_data_send_def Let_def
  by (intro keep_intro keep_bind_any keep_case) (simp_all add: tcp_in_store_send)

lemma keep_send_data [keep_intro]: "tcp_in v t e \<Longrightarrow> keep3 v (tsm_send_data P d t e)"
  unfolding tsm_send_data_def Let_def by (intro keep_intro) simp_all

lemma keep_data_retrans [keep_intro]: "tcp_in v t e \<Longrightarrow> keep3 v (tcp_data_retrans t e)"
  unfolding tcp_data_retrans_def by (intro keep_intro)

lemma keep_retrans_data [keep_intro]: "tcp_in v t e \<Longrightarrow> keep2 v (tsm_retrans_data P t e)"
  unfolding tsm_retrans_data_def Let_def by (intro keep_intro) simp_all

lemma keep_cleanup [keep_intro]: "tcp_in v t e \<Longrightarrow> keep2 v (tsm_cleanup_retrans_queu P a t e)"
  unfolding tsm_cleanup_retrans_queu_def Let_def
  by (intro keep_intro keep_bind_any keep_case) (simp_all add: keep_intro)

lemma keep_deliver [keep_intro]: "tcp_in v t e \<Longrightarrow> keep3 v (tcp_rcv_deliver P segs n t e)"
proof (induction segs arbitrary: n t e)
  case Nil
  then show ?case by (simp add: keep_Some)
next
  case (Cons seg segs)
  show ?case
    unfolding tcp_rcv_deliver.simps Let_def using Cons.prems
    by (intro keep_intro keep_case keep_map_any Cons.IH) simp_all
qed

lemma keep_data_handle [keep_intro]: "tcp_in v t e \<Longrightarrow> keep3 v (tcp_data_handle P s l t e)"
  unfolding tcp_data_handle_def Let_def
  by (intro keep_intro keep_bind_any keep_case) (auto split: if_splits)

lemma keep_handle_incoming [keep_intro]: "tcp_in v t e \<Longrightarrow> keep3 v (tsm_handle_incoming P s l t e)"
  unfolding tsm_handle_incoming_def Let_def by (intro keep_intro) auto

end
