(* ===== verification/TcpSMProps.thy ===== *)
theory TcpSMProps
  imports TcpFrame Examples
begin

text \<open>
  The TCP state machine as a whole: the fuel is enough, and an event takes a control block
  to one of the states \<open>tcp_next\<close> allows. The contract of a dispatcher is the locale \<open>tsm_dispatcher\<close>:
  entering a state keeps the frame of the block, or ends its life (\<open>closed_from\<close>). Every
  state function meets the diagram when its dispatcher meets the contract, so every \<open>tsm_run\<close> is an
  interpretation.
\<close>

subsection \<open>The fuel is enough\<close>

text \<open>One level of the dispatcher, over the dispatcher \<open>disp\<close> that the state functions call back into.\<close>

definition tsm_level :: "'a prm \<Rightarrow> 'a tsm_disp \<Rightarrow> 'a tsm_disp" where
  "tsm_level P disp event arg t e = tsm_function_array P (tcb_state t) disp event arg t e"

lemma tsm_enter_leaf:
  assumes "st \<noteq> TS_TIME_WAIT" and "st \<noteq> TS_CLOSE_WAIT"
  shows "tsm_enter_state (tsm_level P d) st = tsm_enter_state (tsm_level P d') st"
  using assms
  by (intro ext, cases st) (simp_all add: tsm_enter_state_def tsm_level_def tsm_function_array_def tsm_SF_defs Let_def)

lemma tsm_enter_two:
  "tsm_enter_state (tsm_level P (tsm_level P d)) st = tsm_enter_state (tsm_level P (tsm_level P d')) st"
proof (cases "st = TS_TIME_WAIT \<or> st = TS_CLOSE_WAIT")
  case True
  then show ?thesis
    by (intro ext) (auto simp: tsm_enter_state_def [of "tsm_level P (tsm_level P f)" for f]
        tsm_level_def [of P "tsm_level P f" for f] tsm_function_array_def tsm_SF_defs Let_def tsm_enter_leaf [of _ P d d']
        cong: if_cong)
next
  case False
  then show ?thesis by (intro tsm_enter_leaf) simp_all
qed

lemmas tsm_segment_defs = tsm_notif_closing_enter_def
  tsm_listen_syn_def tsm_syn_sent_segment_def tsm_syn_sent_syn_def tsm_syn_recv_segment_def
  tsm_syn_recv_text_def tsm_estab_segment_def tsm_estab_fin_def tsm_fin_wait_I_segment_def
  tsm_fin_wait_I_fin_def tsm_fin_wait_II_segment_def tsm_fin_wait_II_text_def
  tsm_last_ack_segment_def tsm_closing_segment_def tsm_time_wait_segment_def
  tsm_close_wait_segment_def

text \<open>The state functions use their dispatcher to enter states only.\<close>

lemma tsm_function_array_cong:
  assumes "tsm_enter_state d1 = tsm_enter_state d2"
  shows "tsm_function_array P st d1 = tsm_function_array P st d2"
  unfolding tsm_function_array_def tsm_SF_defs tsm_segment_defs assms by (rule refl)

text \<open>
  The result of the dispatcher does not depend on the dispatcher below its three levels: that level is never entered, and
  \<^term>\<open>None\<close> is never the end of the fuel.
\<close>

lemma tsm_run_fuel: "tsm_dispatch_event P ev arg t e = (tsm_level P ^^ 3) d ev arg t e"
proof -
  have run: "tsm_run (Suc n) P = tsm_level P (tsm_run n P)" for n by (intro ext) (simp add: tsm_level_def)
  have "tsm_enter_state (tsm_level P (tsm_level P (tsm_run 0 P))) = tsm_enter_state (tsm_level P (tsm_level P d))"
    by (rule ext) (rule tsm_enter_two)
  from tsm_function_array_cong [OF this]
  have "tsm_level P (tsm_level P (tsm_level P (tsm_run 0 P))) ev arg t e =
      tsm_level P (tsm_level P (tsm_level P d)) ev arg t e"
    by (simp only: tsm_level_def [of P "tsm_level P (tsm_level P f)" for f])
  then show ?thesis
    by (simp only: tsm_dispatch_event_def numeral_3_eq_3 run funpow.simps comp_apply id_apply)
qed

subsection \<open>The diagram\<close>

text \<open>
  The states an event can take a control block to, besides the one it is in. \<open>CLOSE_WAIT\<close> is left
  as soon as it is entered, \<open>TIME_WAIT\<close> may be.
\<close>

definition tcp_next :: "tcp_state \<Rightarrow> tcp_event \<Rightarrow> tcp_state set" where
  "tcp_next st ev =
     (case ev of
        TE_OPEN \<Rightarrow> (if st = TS_INIT then {TS_SYN_SENT, TS_LISTEN} else {})
      | TE_CLOSE \<Rightarrow>
          (case st of
             TS_INIT \<Rightarrow> {TS_CLOSED} | TS_LISTEN \<Rightarrow> {TS_CLOSED} | TS_SYN_SENT \<Rightarrow> {TS_CLOSED}
           | TS_SYN_RECV \<Rightarrow> {TS_FIN_WAIT_I} | TS_ESTABLISHED \<Rightarrow> {TS_FIN_WAIT_I} | _ \<Rightarrow> {})
      | TE_SEGMENT_ARRIVES \<Rightarrow>
          (case st of
             TS_SYN_SENT \<Rightarrow> {TS_SYN_RECV, TS_ESTABLISHED, TS_CLOSED}
           | TS_SYN_RECV \<Rightarrow> {TS_ESTABLISHED, TS_LAST_ACK, TS_CLOSED}
           | TS_ESTABLISHED \<Rightarrow> {TS_LAST_ACK, TS_CLOSED}
           | TS_FIN_WAIT_I \<Rightarrow> {TS_FIN_WAIT_II, TS_CLOSING, TS_TIME_WAIT, TS_CLOSED}
           | TS_FIN_WAIT_II \<Rightarrow> {TS_TIME_WAIT, TS_CLOSED}
           | TS_LAST_ACK \<Rightarrow> {TS_CLOSED}
           | TS_CLOSING \<Rightarrow> {TS_TIME_WAIT, TS_CLOSED}
           | TS_TIME_WAIT \<Rightarrow> {TS_CLOSED}
           | TS_CLOSE_WAIT \<Rightarrow> {TS_CLOSED}
           | _ \<Rightarrow> {})
      | TE_RETRANSMISSION_TIMEOUT \<Rightarrow>
          (if st \<in> {TS_SYN_SENT, TS_SYN_RECV, TS_ESTABLISHED, TS_FIN_WAIT_I, TS_LAST_ACK, TS_CLOSING,
                    TS_CLOSE_WAIT} then {TS_CLOSED} else {})
      | TE_ORPHAN_TIMEOUT \<Rightarrow> (if st = TS_FIN_WAIT_I then {TS_CLOSED} else {})
      | TE_FIN_TIMEOUT \<Rightarrow> (if st = TS_FIN_WAIT_II then {TS_CLOSED} else {})
      | TE_TIME_WAIT_TIMEOUT \<Rightarrow> (if st = TS_TIME_WAIT then {TS_CLOSED} else {})
      | _ \<Rightarrow> {})"

text \<open>
  The end of a block: it is in \<open>CLOSED\<close>, has no data and no timers, is out of the hash table and,
  if it came from the pool, back in it. The rest is as in the frame \<open>r\<close>.
\<close>

definition closed_from where
  "closed_from r t e \<longleftrightarrow>
     (\<exists>e0. tcp_in (r, TS_CLOSED) t e0 \<and> tcb_state t = TS_CLOSED \<and>
        \<not> tcb_on_rto_list t \<and> \<not> tcb_on_slow_list t \<and> tmr_inv t e \<and>
        others_timers t e = others_timers t e0 \<and> e_tcbs e = e_tcbs e0 \<and>
        tr_data_mbufs t = [] \<and> tr_total_size t = 0 \<and> tcb_rcv_buf t = [] \<and>
        tlkp_delete_cb t (e_htable e0) = Some (e_htable e) \<and>
        e_pool e = (if tcb_malloced t then l4cb_id t # e_pool e0 else e_pool e0))"

text \<open>The result is in one of the states \<open>S\<close> with the frame kept or, when \<open>c\<close> allows it, closed.\<close>

definition ends_in where
  "ends_in r S c t e \<longleftrightarrow> (\<exists>st \<in> S. tcp_in (r, st) t e) \<or> (c \<and> closed_from r t e)"

definition goes where
  "goes r S c m \<longleftrightarrow> (\<forall>ret t e. m = Some (ret :: int, t, e) \<longrightarrow> ends_in r S c t e)"

lemma goes_None: "goes r S c None"
  by (simp add: goes_def)

lemma goes_Some: "tcp_in (r, old) t e \<Longrightarrow> old \<in> S \<Longrightarrow> goes r S c (Some (ret, t, e))"
  by (auto simp: goes_def ends_in_def)

lemma goes_if:
  "(b \<Longrightarrow> goes r S c x) \<Longrightarrow> (\<not> b \<Longrightarrow> goes r S c y) \<Longrightarrow> goes r S c (if b then x else y)"
  by simp

lemma goes_keep: "keep3 (r, old) m \<Longrightarrow> old \<in> S \<Longrightarrow> goes r S c m"
  by (auto simp: goes_def keep3_def ends_in_def)

lemma goes_bind2:
  "keep2 (r, old) m \<Longrightarrow> (\<And>t e. tcp_in (r, old) t e \<Longrightarrow> goes r S c (f t e)) \<Longrightarrow>
     goes r S c (Option.bind m (\<lambda>(t, e). f t e))"
  by (fastforce simp: keep2_def goes_def)

lemma goes_bind3:
  "keep3 (r, old) m \<Longrightarrow> (\<And>q t e. tcp_in (r, old) t e \<Longrightarrow> goes r S c (f q t e)) \<Longrightarrow>
     goes r S c (Option.bind m (\<lambda>(q, t, e). f q t e))"
  by (fastforce simp: keep3_def goes_def)

lemma goes_weaken: "goes r S c m \<Longrightarrow> S \<subseteq> S' \<Longrightarrow> (c \<longrightarrow> c') \<Longrightarrow> goes r S' c' m"
  unfolding goes_def ends_in_def by blast

lemma goes_bind_goes:
  "goes r {old} False m \<Longrightarrow> (\<And>q t e. tcp_in (r, old) t e \<Longrightarrow> goes r S c (f q t e)) \<Longrightarrow>
     goes r S c (Option.bind m (\<lambda>(q, t, e). f q t e))"
  by (fastforce simp: goes_def ends_in_def [of r "{old}"])

lemma keep_process_ack [keep_intro]:
  "tcp_in v t e \<Longrightarrow> keep3 v (tsm_process_ack P s a w t e)"
  "tcp_in v t e \<Longrightarrow> keep3 v (tsm_process_fin_ack P s a w t e)"
  unfolding tsm_process_ack_def tsm_process_fin_ack_def tsm_update_snd_wnd_def
  by (intro keep_intro; simp)+

lemma tcp_in_misc [simp]:
  "tcp_in v t (TCP_RECV_SYN_INC_STAT t1 e) = tcp_in v t e"
  "tcp_in v t (TCP_RECV_FIN_INC_STAT t1 e) = tcp_in v t e"
  "tcp_in v t (TCP_RECV_RST_INC_STAT t1 e) = tcp_in v t e"
  "tcp_in v t (tsm_seg_not_ok t1 e) = tcp_in v t e"
  "tcp_in v t (snd (TCP_TOO_MANY_RETRIES n inc t1 e)) = tcp_in v t e"
  by (simp_all add: TCP_RECV_SYN_INC_STAT_def TCP_RECV_FIN_INC_STAT_def TCP_RECV_RST_INC_STAT_def
      tsm_seg_not_ok_def TCP_TOO_MANY_RETRIES_def)

declare tcp_in_schedule [simp]

lemma tcp_in_state: "tcp_in (r, st) t e \<Longrightarrow> tcp_in (r, st') (t\<lparr>tcb_state := st'\<rparr>) e"
  by (simp add: tcp_in_defs)

lemma tcp_in_tcb_state: "tcp_in (r, st) t e \<Longrightarrow> tcb_state t = st"
  by (simp add: tcp_in_defs)

lemma goes_leaf:
  "tcp_in (r, old) t e \<Longrightarrow> old \<in> S \<Longrightarrow> goes r S c (Some (ret, tsm_schedule_retransmission t e))"
  "tcp_in (r, old) t e \<Longrightarrow> old \<in> S \<Longrightarrow> goes r S c (Some (ret, snd (tcp_timer_slow_set us t e)))"
  "tcp_in (r, old) t e \<Longrightarrow> old \<in> S \<Longrightarrow> goes r S c (tsm_send_data P d t e)"
  by (rule goes_keep; simp add: keep_intro)+

lemma goes_map2:
  "keep2 (r, old) m \<Longrightarrow> (\<And>t e. tcp_in (r, old) t e \<Longrightarrow> goes r S c (Some (g t e))) \<Longrightarrow>
     goes r S c (map_option (\<lambda>(t, e). g t e) m)"
  by (fastforce simp: keep2_def goes_def)

lemma goes_map:
  "keep2 (r, old) m \<Longrightarrow> old \<in> S \<Longrightarrow> goes r S c (map_option (\<lambda>x. (ret, x)) m)"
  "keep3 (r, old) m3 \<Longrightarrow> old \<in> S \<Longrightarrow> goes r S c (map_option (\<lambda>(q, x). (ret, x)) m3)"
  by (auto simp: keep2_def keep3_def goes_def ends_in_def)

subsection \<open>The end of a control block\<close>

lemma tcp_in_same:
  assumes "tcp_in (r, st) t e" and "tcp_in (r, st') t' e'"
  shows "l4cb_id t' = l4cb_id t" "l4cb_interface t' = l4cb_interface t" "l4cb_rx_hash t' = l4cb_rx_hash t"
    "tcb_malloced t' = tcb_malloced t" "e_htable e' = e_htable e" "e_pool e' = e_pool e"
    "e_tcbs e' = e_tcbs e" "pcb_tcp (e_pcb e') = pcb_tcp (e_pcb e)" "l4cb_sockopt t' = l4cb_sockopt t"
  using assms unfolding tcp_in_def tcp_view_def tcp_frame_def by auto

lemma cancel_if_set_htable:
  "rto_cancel_if_set t (e\<lparr>e_htable := h\<rparr>) =
     map_option (\<lambda>(t, e). (t, e\<lparr>e_htable := h\<rparr>)) (rto_cancel_if_set t e)"
  "slow_cancel_if_set t (e\<lparr>e_htable := h\<rparr>) =
     map_option (\<lambda>(t, e). (t, e\<lparr>e_htable := h\<rparr>)) (slow_cancel_if_set t e)"
  by (cases e, cases "TIMER_CANCEL (l4cb_id t) (e_rto_wheel e)",
      simp_all add: rto_cancel_if_set_def rto_cancel_def tcp_timer_rto_cancel_def upd_timer_stats_def)
    (cases e, cases "TIMER_CANCEL (l4cb_id t) (e_slow_wheel e)",
      simp_all add: slow_cancel_if_set_def slow_cancel_def tcp_timer_slow_cancel_def upd_timer_stats_def)

lemma cancel_if_set_off:
  "rto_cancel_if_set t e = Some (t', e') \<Longrightarrow> \<not> tcb_on_rto_list t'"
  "slow_cancel_if_set t e = Some (t', e') \<Longrightarrow> \<not> tcb_on_slow_list t' \<and> tcb_on_rto_list t' = tcb_on_rto_list t"
  by (auto simp: rto_cancel_if_set_def rto_cancel_def tcp_timer_rto_cancel_def slow_cancel_if_set_def
      slow_cancel_def tcp_timer_slow_cancel_def split: if_splits)

lemma tlkp_delete_cb_cong:
  fixes t t' :: "'a tcb"
  shows "l4cb_id t' = l4cb_id t \<Longrightarrow> l4cb_interface t' = l4cb_interface t \<Longrightarrow>
     l4cb_rx_hash t' = l4cb_rx_hash t \<Longrightarrow> tlkp_delete_cb t' h = tlkp_delete_cb t h"
  by (simp add: tlkp_delete_cb_def Let_def)

lemma silent_close_goes:
  assumes "tcp_in (r, TS_CLOSED) t e"
  shows "goes r {} True (tcp_silent_close t e)"
proof -
  let ?e1 = "if \<not> tcb_rst_rcvd t then tcp_send_ctrl_pkt t (RTE_TCP_ACK_FLAG OR RTE_TCP_RST_FLAG) e else e"
  have in1: "tcp_in (r, TS_CLOSED) t ?e1" using assms by simp
  have "closed_from r t' e'" if "tcp_silent_close t e = Some (ret, t', e')" for ret t' e'
  proof -
    from that obtain h t2 e2 t3 e3 where
      h: "tlkp_delete_cb t (e_htable ?e1) = Some h"
      and 2: "rto_cancel_if_set t ?e1 = Some (t2, e2)"
      and 3: "slow_cancel_if_set t2 e2 = Some (t3, e3)"
      and t': "t' = t3\<lparr>tr_data_mbufs := [], tr_total_size := 0, tcb_rcv_buf := []\<rparr>"
      and e': "\<exists>e4. tsm_terminate_statemachine t' (e3\<lparr>e_htable := h\<rparr>) = Some e4 \<and>
        e' = (if tcb_malloced t' then tlkp_free_tcb t' (upd_tcp_stats (l4cb_interface t')
                 (\<lambda>s. s\<lparr>ts_tcb_freed := ts_tcb_freed s + 1\<rparr>) e4) else e4)"
      unfolding tcp_silent_close_def tlkp_delete_tcb_def Let_def
      by (auto simp: cancel_if_set_htable)
    have in2: "tcp_in (r, TS_CLOSED) t2 e2" using 2 in1 by (rule tcp_dest)
    have in3: "tcp_in (r, TS_CLOSED) t3 e3" using 3 in2 by (rule tcp_dest)
    then have in': "tcp_in (r, TS_CLOSED) t' e3" by (simp add: t')
    note same = tcp_in_same [OF in1 in']
    from e' obtain p q f g where env: "e' = (if tcb_malloced t' then
        tlkp_free_tcb t' (upd_tcp_stats p f (upd_tsm_stats q g (e3\<lparr>e_htable := h\<rparr>)))
        else upd_tsm_stats q g (e3\<lparr>e_htable := h\<rparr>))"
      using tcp_in_tcb_state [OF in'] by (auto simp: tsm_terminate_statemachine_def split: if_splits)
    have "tlkp_delete_cb t' (e_htable e3) = Some h"
      using h same by (simp add: tlkp_delete_cb_cong [of t' t])
    moreover have "\<not> tcb_on_rto_list t'" "\<not> tcb_on_slow_list t'"
      using cancel_if_set_off(1) [OF 2] cancel_if_set_off(2) [OF 3] by (simp_all add: t')
    ultimately show ?thesis
      unfolding closed_from_def using in' tcp_in_tcb_state [OF in']
      by (intro exI [of _ e3])
        (simp add: env t' tcp_in_def tmr_inv_def others_timers_def tlkp_free_tcb_def upd_tcp_stats_def
          upd_tsm_stats_def)
  qed
  then show ?thesis by (simp add: goes_def ends_in_def)
qed

lemma tlkp_delete_cb_bucket:
  "tlkp_delete_cb cb h = Some h' \<Longrightarrow>
     h' (l4cb_interface cb) (TPG_HASH_MOD (l4cb_rx_hash cb)) =
       remove1 (l4cb_id cb) (h (l4cb_interface cb) (TPG_HASH_MOD (l4cb_rx_hash cb)))"
  by (auto simp: tlkp_delete_cb_def Let_def split: if_splits)

subsection \<open>The contract of a dispatcher\<close>

definition enter_S :: "tcp_state \<Rightarrow> tcp_state set" where
  "enter_S st = (if st = TS_CLOSED then {} else if st = TS_CLOSE_WAIT then {TS_LAST_ACK} else {st})"

definition enter_C :: "tcp_state \<Rightarrow> bool" where
  "enter_C st \<longleftrightarrow> st = TS_CLOSED \<or> st = TS_TIME_WAIT"

text \<open>Where an event can take a block that is in \<open>st\<close>, entering it included.\<close>

definition event_S :: "tcp_state \<Rightarrow> tcp_event \<Rightarrow> tcp_state set" where
  "event_S st ev = (if ev = TE_ENTER_STATE then enter_S st else insert st (tcp_next st ev - {TS_CLOSED}))"

definition event_C :: "tcp_state \<Rightarrow> tcp_event \<Rightarrow> bool" where
  "event_C st ev \<longleftrightarrow> (if ev = TE_ENTER_STATE then enter_C st else TS_CLOSED \<in> tcp_next st ev)"

lemmas event_defs = event_S_def event_C_def enter_S_def enter_C_def tcp_next_def

locale tsm_dispatcher =
  fixes disp :: "'a tsm_disp"
  assumes disp_enter:
    "tcp_in (r, st) t e \<Longrightarrow> goes r (enter_S st) (enter_C st) (disp TE_ENTER_STATE arg t e)"
begin

lemma goes_enter_exact:
  assumes "tcp_in (r, old) t e"
  shows "goes r (enter_S st) (enter_C st) (tsm_enter_state disp st arg t e)"
  unfolding tsm_enter_state_def Let_def
  by (rule disp_enter, rule tcp_in_state [where st = old]) (simp add: assms)

lemma goes_enter:
  "tcp_in (r, old) t e \<Longrightarrow> enter_S st \<subseteq> S \<Longrightarrow> (enter_C st \<longrightarrow> c) \<Longrightarrow>
     goes r S c (tsm_enter_state disp st arg t e)"
  by (rule goes_weaken [OF goes_enter_exact])

lemma goes_notif_closing:
  assumes "tcp_in (r, old) t e" and "enter_S st \<subseteq> S" and "enter_C st \<longrightarrow> c"
  shows "goes r S c (tsm_notif_closing_enter P disp st t e)"
  unfolding tsm_notif_closing_enter_def
  by (intro goes_bind2 [where old = old] keep_intro goes_enter [where old = old]) (simp_all add: assms)

text \<open>The rules for a block that is in \<open>old\<close>.\<close>

lemmas goes_struct = goes_if goes_None
lemmas goes_rules = goes_Some goes_enter goes_notif_closing goes_bind2 goes_bind3 goes_map2 goes_leaf
    goes_map

lemma estab_fin_goes:
  assumes "tcp_in (r, TS_ESTABLISHED) t e"
  shows "goes r {TS_ESTABLISHED, TS_LAST_ACK} True (tsm_estab_fin P disp t e)"
  unfolding tsm_estab_fin_def Let_def
  by (intro goes_struct goes_rules [where old = TS_ESTABLISHED]) (simp_all add: assms enter_S_def enter_C_def)

lemma estab_segment_goes:
  assumes "tcp_in (r, TS_ESTABLISHED) t e"
  shows "goes r {TS_ESTABLISHED, TS_LAST_ACK} True (tsm_estab_segment P disp t e)"
  unfolding tsm_estab_segment_def Let_def
  by (intro goes_struct goes_rules [where old = TS_ESTABLISHED] keep_intro estab_fin_goes)
    (simp_all add: assms enter_S_def enter_C_def)

lemma SF_estab_goes:
  assumes "tcp_in (r, TS_ESTABLISHED) t e"
  shows "goes r (event_S TS_ESTABLISHED ev) (event_C TS_ESTABLISHED ev) (tsm_SF_estab P disp ev arg t e)"
  using assms
  by (cases ev) (auto simp: tsm_SF_estab_def event_defs case_prod_beta split: tsm_arg.splits
      intro!: goes_struct goes_rules [where old = TS_ESTABLISHED] keep_intro
      goes_weaken [OF estab_segment_goes])

lemma SF_init_goes:
  assumes "tcp_in (r, TS_INIT) t e"
  shows "goes r (event_S TS_INIT ev) (event_C TS_INIT ev) (tsm_SF_init disp ev arg t e)"
  using assms
  by (cases ev) (auto simp: tsm_SF_init_def event_defs Let_def
      intro!: goes_struct goes_rules [where old = TS_INIT] keep_intro)

lemma SF_listen_goes:
  assumes "tcp_in (r, TS_LISTEN) t e" and "ev \<noteq> TE_SEGMENT_ARRIVES"
  shows "goes r (event_S TS_LISTEN ev) (event_C TS_LISTEN ev) (tsm_SF_listen P disp ev arg t e)"
  using assms
  by (cases ev) (auto simp: tsm_SF_listen_def event_defs Let_def
      intro!: goes_struct goes_rules [where old = TS_LISTEN] keep_intro)

lemma syn_sent_syn_goes:
  assumes "tcp_in (r, TS_SYN_SENT) t e"
  shows "goes r {TS_SYN_SENT, TS_SYN_RECV, TS_ESTABLISHED} True (tsm_syn_sent_syn P disp t e)"
proof -
  have est: "goes r {TS_ESTABLISHED} False (tsm_enter_state disp TS_ESTABLISHED NoArg t e)"
    if "tcp_in (r, TS_SYN_SENT) t e" for t e
    using goes_enter_exact [OF that, of TS_ESTABLISHED] by (simp add: enter_S_def enter_C_def)
  show ?thesis
    unfolding tsm_syn_sent_syn_def Let_def
    by (intro goes_struct goes_bind2 [where old = TS_SYN_SENT] goes_enter [where old = TS_SYN_SENT]
        goes_bind_goes [where old = TS_ESTABLISHED] est goes_Some [where old = TS_ESTABLISHED] keep_intro)
      (simp_all add: assms enter_S_def enter_C_def)
qed

lemma syn_sent_segment_goes:
  assumes "tcp_in (r, TS_SYN_SENT) t e"
  shows "goes r {TS_SYN_SENT, TS_SYN_RECV, TS_ESTABLISHED} True (tsm_syn_sent_segment P disp t e)"
  unfolding tsm_syn_sent_segment_def Let_def
  by (intro goes_struct goes_rules [where old = TS_SYN_SENT] syn_sent_syn_goes keep_intro)
    (simp_all add: assms enter_S_def enter_C_def)

lemma SF_syn_sent_goes:
  assumes "tcp_in (r, TS_SYN_SENT) t e"
  shows "goes r (event_S TS_SYN_SENT ev) (event_C TS_SYN_SENT ev) (tsm_SF_syn_sent P disp ev arg t e)"
  using assms
  by (cases ev) (auto simp: tsm_SF_syn_sent_def event_defs case_prod_beta Let_def
      intro!: goes_struct goes_rules [where old = TS_SYN_SENT] keep_intro
      goes_weaken [OF syn_sent_segment_goes])

lemma syn_recv_segment_goes:
  assumes "tcp_in (r, TS_SYN_RECV) t e"
  shows "goes r {TS_SYN_RECV, TS_ESTABLISHED, TS_LAST_ACK} True (tsm_syn_recv_segment P disp t e)"
  unfolding tsm_syn_recv_segment_def tsm_syn_recv_text_def Let_def
  by (intro goes_struct goes_rules [where old = TS_SYN_RECV] keep_intro)
    (simp_all add: assms enter_S_def enter_C_def)

lemma SF_syn_recv_goes:
  assumes "tcp_in (r, TS_SYN_RECV) t e"
  shows "goes r (event_S TS_SYN_RECV ev) (event_C TS_SYN_RECV ev) (tsm_SF_syn_recv P disp ev arg t e)"
  using assms
  by (cases ev) (auto simp: tsm_SF_syn_recv_def event_defs case_prod_beta Let_def
      intro!: goes_struct goes_rules [where old = TS_SYN_RECV] keep_intro
      goes_weaken [OF syn_recv_segment_goes])

lemma fin_wait_I_segment_goes:
  assumes "tcp_in (r, TS_FIN_WAIT_I) t e"
  shows "goes r {TS_FIN_WAIT_I, TS_FIN_WAIT_II, TS_CLOSING, TS_TIME_WAIT} True (tsm_fin_wait_I_segment P disp t e)"
  unfolding tsm_fin_wait_I_segment_def tsm_fin_wait_I_fin_def Let_def
  by (intro goes_struct goes_rules [where old = TS_FIN_WAIT_I] keep_intro)
    (simp_all add: assms enter_S_def enter_C_def)

lemma SF_fin_wait_I_goes:
  assumes "tcp_in (r, TS_FIN_WAIT_I) t e"
  shows "goes r (event_S TS_FIN_WAIT_I ev) (event_C TS_FIN_WAIT_I ev) (tsm_SF_fin_wait_I P disp ev arg t e)"
  using assms
  by (cases ev) (auto simp: tsm_SF_fin_wait_I_def event_defs case_prod_beta Let_def split: tsm_arg.splits
      intro!: goes_struct goes_rules [where old = TS_FIN_WAIT_I] keep_intro
      goes_weaken [OF fin_wait_I_segment_goes])

lemma fin_wait_II_segment_goes:
  assumes "tcp_in (r, TS_FIN_WAIT_II) t e"
  shows "goes r {TS_FIN_WAIT_II, TS_TIME_WAIT} True (tsm_fin_wait_II_segment P disp t e)"
  unfolding tsm_fin_wait_II_segment_def tsm_fin_wait_II_text_def Let_def
  by (intro goes_struct goes_rules [where old = TS_FIN_WAIT_II] keep_intro)
    (simp_all add: assms enter_S_def enter_C_def)

lemma SF_fin_wait_II_goes:
  assumes "tcp_in (r, TS_FIN_WAIT_II) t e"
  shows "goes r (event_S TS_FIN_WAIT_II ev) (event_C TS_FIN_WAIT_II ev) (tsm_SF_fin_wait_II P disp ev arg t e)"
  using assms
  by (cases ev) (auto simp: tsm_SF_fin_wait_II_def event_defs case_prod_beta Let_def split: tsm_arg.splits
      intro!: goes_struct goes_rules [where old = TS_FIN_WAIT_II] keep_intro
      goes_weaken [OF fin_wait_II_segment_goes])

lemma last_ack_segment_goes:
  assumes "tcp_in (r, TS_LAST_ACK) t e"
  shows "goes r {TS_LAST_ACK} True (tsm_last_ack_segment disp t e)"
  unfolding tsm_last_ack_segment_def Let_def
  by (intro goes_struct goes_rules [where old = TS_LAST_ACK] keep_intro)
    (simp_all add: assms enter_S_def enter_C_def)

lemma SF_last_ack_goes:
  assumes "tcp_in (r, TS_LAST_ACK) t e"
  shows "goes r (event_S TS_LAST_ACK ev) (event_C TS_LAST_ACK ev) (tsm_SF_last_ack disp ev arg t e)"
  using assms
  by (cases ev) (auto simp: tsm_SF_last_ack_def event_defs case_prod_beta Let_def split: tsm_arg.splits
      intro!: goes_struct goes_rules [where old = TS_LAST_ACK] keep_intro
      goes_weaken [OF last_ack_segment_goes])

lemma closing_segment_goes:
  assumes "tcp_in (r, TS_CLOSING) t e"
  shows "goes r {TS_CLOSING, TS_TIME_WAIT} True (tsm_closing_segment P disp t e)"
  unfolding tsm_closing_segment_def Let_def
  by (intro goes_struct goes_rules [where old = TS_CLOSING] keep_intro)
    (simp_all add: assms enter_S_def enter_C_def)

lemma SF_closing_goes:
  assumes "tcp_in (r, TS_CLOSING) t e"
  shows "goes r (event_S TS_CLOSING ev) (event_C TS_CLOSING ev) (tsm_SF_closing P disp ev arg t e)"
  using assms
  by (cases ev) (auto simp: tsm_SF_closing_def event_defs case_prod_beta Let_def split: tsm_arg.splits
      intro!: goes_struct goes_rules [where old = TS_CLOSING] keep_intro
      goes_weaken [OF closing_segment_goes])

lemma time_wait_segment_goes:
  assumes "tcp_in (r, TS_TIME_WAIT) t e"
  shows "goes r {TS_TIME_WAIT} True (tsm_time_wait_segment disp t e)"
  unfolding tsm_time_wait_segment_def Let_def
  by (intro goes_struct goes_rules [where old = TS_TIME_WAIT] keep_intro)
    (simp_all add: assms enter_S_def enter_C_def)

lemma SF_time_wait_goes:
  assumes "tcp_in (r, TS_TIME_WAIT) t e"
  shows "goes r (event_S TS_TIME_WAIT ev) (event_C TS_TIME_WAIT ev) (tsm_SF_time_wait disp ev arg t e)"
  using assms
  by (cases ev) (auto simp: tsm_SF_time_wait_def event_defs case_prod_beta Let_def split: tsm_arg.splits
      intro!: goes_struct goes_rules [where old = TS_TIME_WAIT] keep_intro
      goes_weaken [OF time_wait_segment_goes])

lemma close_wait_segment_goes:
  assumes "tcp_in (r, TS_CLOSE_WAIT) t e"
  shows "goes r {TS_CLOSE_WAIT} True (tsm_close_wait_segment P disp t e)"
  unfolding tsm_close_wait_segment_def Let_def
  by (intro goes_struct goes_rules [where old = TS_CLOSE_WAIT] keep_intro)
    (simp_all add: assms enter_S_def enter_C_def)

lemma SF_close_wait_goes:
  assumes "tcp_in (r, TS_CLOSE_WAIT) t e"
  shows "goes r (event_S TS_CLOSE_WAIT ev) (event_C TS_CLOSE_WAIT ev) (tsm_SF_close_wait P disp ev arg t e)"
  using assms
  by (cases ev) (auto simp: tsm_SF_close_wait_def event_defs case_prod_beta Let_def split: tsm_arg.splits
      intro!: goes_struct goes_rules [where old = TS_CLOSE_WAIT] keep_intro
      goes_weaken [OF close_wait_segment_goes])

lemma SF_closed_goes:
  assumes "tcp_in (r, TS_CLOSED) t e"
  shows "goes r (event_S TS_CLOSED ev) (event_C TS_CLOSED ev) (tsm_SF_closed P ev arg t e)"
proof (cases "ev = TE_ENTER_STATE")
  case True
  have "goes r {} True (do { (t, e) \<leftarrow> TCP_NOTIF P TEST_NOTIF_SESS_CLOSED t e;
          tcp_silent_close t (if arg = PcbArg then e\<lparr>e_pcb := (e_pcb e)\<lparr>pcb_sockopt := None\<rparr>\<rparr> else e) })"
    by (intro goes_bind2 [where old = TS_CLOSED] keep_intro silent_close_goes) (simp_all add: assms)
  with True show ?thesis by (simp add: tsm_SF_closed_def event_defs Let_def)
next
  case False
  with assms show ?thesis
    by (cases ev) (auto simp: tsm_SF_closed_def event_defs Let_def
        intro!: goes_struct goes_Some [where old = TS_CLOSED])
qed

lemma function_array_goes:
  assumes "tcp_in (r, st) t e" and "st = TS_LISTEN \<longrightarrow> ev \<noteq> TE_SEGMENT_ARRIVES"
  shows "goes r (event_S st ev) (event_C st ev) (tsm_function_array P st disp ev arg t e)"
  using assms
  by (cases st)
    (simp_all add: tsm_function_array_def SF_init_goes SF_listen_goes SF_syn_sent_goes SF_syn_recv_goes
      SF_estab_goes SF_fin_wait_I_goes SF_fin_wait_II_goes SF_last_ack_goes SF_closing_goes
      SF_time_wait_goes SF_close_wait_goes SF_closed_goes)

end

text \<open>Whatever its fuel, the dispatcher of the code meets the contract.\<close>

lemma tsm_run_goes_step:
  assumes "tsm_dispatcher (tsm_run n P)" and "tcp_in (r, st) t e"
    and "st = TS_LISTEN \<longrightarrow> ev \<noteq> TE_SEGMENT_ARRIVES"
  shows "goes r (event_S st ev) (event_C st ev) (tsm_run (Suc n) P ev arg t e)"
  using tsm_dispatcher.function_array_goes [OF assms] tcp_in_tcb_state [OF assms(2)] by simp

interpretation tsm_runs: tsm_dispatcher "tsm_run n P" for n and P :: "'a prm"
proof (induction n)
  case 0
  show ?case by unfold_locales (simp add: goes_None)
next
  case (Suc n)
  show ?case
  proof unfold_locales
    fix r st arg and t :: "'a tcb" and e :: "'a env"
    assume "tcp_in (r, st) t e"
    from tsm_run_goes_step [OF Suc this, of TE_ENTER_STATE arg]
    show "goes r (enter_S st) (enter_C st) (tsm_run (Suc n) P TE_ENTER_STATE arg t e)"
      by (simp add: event_S_def event_C_def)
  qed
qed

text \<open>An event on a block, other than a segment for a listening one.\<close>

lemma dispatch_goes:
  assumes "tcp_in (r, st) t e" and "st = TS_LISTEN \<longrightarrow> ev \<noteq> TE_SEGMENT_ARRIVES"
  shows "goes r (event_S st ev) (event_C st ev) (tsm_dispatch_event P ev arg t e)"
  unfolding tsm_dispatch_event_def numeral_3_eq_3
  by (rule tsm_run_goes_step [OF tsm_runs.tsm_dispatcher_axioms assms])

text \<open>A segment never changes a listening block.\<close>

lemma listen_segment_same:
  assumes "tcb_state t = TS_LISTEN"
    and "tsm_dispatch_event P TE_SEGMENT_ARRIVES arg t e = Some (ret, t', e')"
  shows "t' = t"
  using assms
  by (auto simp: tsm_dispatch_event_def numeral_3_eq_3 tsm_function_array_def tsm_SF_listen_def
      tsm_listen_syn_def Let_def simp del: tsm_run.simps
      simp: tsm_run.simps(2) [of "Suc (Suc 0)"] split: if_splits prod.splits option.splits)

subsection \<open>Properties of the state machine\<close>

lemma ex_tmr_inv [simp]: "tmr_inv (ex_tcb st tst) (ex_env (ex_tcb st' tst') pcb)"
  by (simp add: tmr_inv_def)

lemma closed_from_state: "closed_from r t e \<Longrightarrow> tcb_state t = TS_CLOSED"
  by (auto simp: closed_from_def)

lemma dispatch_ends_in:
  assumes "tmr_inv t e" and "tsm_dispatch_event P ev arg t e = Some (ret, t', e')"
    and "tcb_state t = TS_LISTEN \<longrightarrow> ev \<noteq> TE_SEGMENT_ARRIVES"
  shows "ends_in (tcp_frame t e, others_timers t e) (event_S (tcb_state t) ev)
           (event_C (tcb_state t) ev) t' e'"
proof -
  have "tcp_in ((tcp_frame t e, others_timers t e), tcb_state t) t e"
    using assms(1) by (simp add: tcp_in_def tcp_view_def)
  from dispatch_goes [OF this assms(3)] assms(2) show ?thesis by (simp add: goes_def)
qed

text \<open>
  C1: An event leaves the control block in its state or takes it along an edge of the TCP state
  diagram (\<open>tcp_next\<close>). In particular no block is ever left in \<open>CLOSE_WAIT\<close>. This holds for the applications that
  do not close the connection from inside a callback, as the raw application: their callbacks send the notifications of
  \<^typ>\<open>app_notif\<close> only. The HTTP application sends \<open>TEST_NOTIF_APP_CLOSE\<close> on an invalid message; the close
  is then an event inside the segment's, and the segment goes on in the state after it
  (\<open>close_inside_segment\<close>).
\<close>

theorem tsm_follows_diagram:
  assumes "tmr_inv t e" and "ev \<noteq> TE_ENTER_STATE"
    and "tsm_dispatch_event P ev arg t e = Some (ret, t', e')"
  shows "tcb_state t' = tcb_state t \<or> tcb_state t' \<in> tcp_next (tcb_state t) ev"
proof (cases "tcb_state t = TS_LISTEN \<and> ev = TE_SEGMENT_ARRIVES")
  case True
  with listen_segment_same assms(3) show ?thesis by blast
next
  case False
  with dispatch_ends_in [OF assms(1,3)] show ?thesis
    using assms(2)
    by (auto simp: ends_in_def event_S_def event_C_def dest: tcp_in_tcb_state closed_from_state)
qed

theorem tsm_follows_diagram_witness:
  "\<exists>ret t' e'. ex_run TS_LAST_ACK TSTS_PURGED TE_SEGMENT_ARRIVES (ex_pcb (ex_hdr 0x10 501 101) []) =
     Some (ret, t', e') \<and>
     (tcb_state t' = TS_LAST_ACK \<or> tcb_state t' \<in> tcp_next TS_LAST_ACK TE_SEGMENT_ARRIVES)"
proof -
  obtain ret t' e' where r: "tsm_dispatch_event ex_P TE_SEGMENT_ARRIVES PcbArg (ex_tcb TS_LAST_ACK TSTS_PURGED)
      (ex_env (ex_tcb TS_LAST_ACK TSTS_PURGED) (ex_pcb (ex_hdr 0x10 501 101) [])) = Some (ret, t', e')"
    using ex_run_last_ack unfolding ex_run_def by blast
  from tsm_follows_diagram [OF _ _ r] r show ?thesis by (simp add: ex_run_def)
qed

text \<open>
  C2: A connection that an event closes leaves nothing behind: it is on no retransmission or slow
  timer, holds no data, is out of the bucket of the hash table, and is back in the pool if
  it came from there.
\<close>

theorem tsm_closed_releases:
  assumes "tmr_inv t e" and "tcb_state t \<noteq> TS_CLOSED" and "ev \<noteq> TE_ENTER_STATE"
    and "tsm_dispatch_event P ev arg t e = Some (ret, t', e')" and "tcb_state t' = TS_CLOSED"
    and "distinct (e_htable e (l4cb_interface t) (TPG_HASH_MOD (l4cb_rx_hash t)))"
  shows "l4cb_id t \<notin> set (tw_entries (e_rto_wheel e')) \<and>
         l4cb_id t \<notin> set (tw_entries (e_slow_wheel e')) \<and>
         tr_data_mbufs t' = [] \<and> tcb_rcv_buf t' = [] \<and>
         l4cb_id t \<notin> set (e_htable e' (l4cb_interface t) (TPG_HASH_MOD (l4cb_rx_hash t))) \<and>
         e_pool e' = (if tcb_malloced t then l4cb_id t # e_pool e else e_pool e)"
proof -
  let ?r = "(tcp_frame t e, others_timers t e)"
  have l: "tcb_state t = TS_LISTEN \<longrightarrow> ev \<noteq> TE_SEGMENT_ARRIVES"
    using listen_segment_same assms(2,4,5) by blast
  have "TS_CLOSED \<notin> event_S (tcb_state t) ev"
    using assms(2,3) by (simp add: event_S_def)
  with dispatch_ends_in [OF assms(1,4) l] assms(5) have "closed_from ?r t' e'"
    by (auto simp: ends_in_def dest: tcp_in_tcb_state)
  then obtain e0 where c: "tcp_in (?r, TS_CLOSED) t' e0" "\<not> tcb_on_rto_list t'" "\<not> tcb_on_slow_list t'"
    "tmr_inv t' e'" "tr_data_mbufs t' = []" "tcb_rcv_buf t' = []"
    "tlkp_delete_cb t' (e_htable e0) = Some (e_htable e')"
    "e_pool e' = (if tcb_malloced t' then l4cb_id t' # e_pool e0 else e_pool e0)"
    by (auto simp: closed_from_def)
  have "tcp_in (?r, tcb_state t) t e" using assms(1) by (simp add: tcp_in_def tcp_view_def)
  note same = tcp_in_same [OF this c(1)]
  show ?thesis
    using c(2-6,8) assms(6) tlkp_delete_cb_bucket [OF c(7)] by (simp add: same tmr_inv_def)
qed

theorem tsm_closed_releases_witness:
  "\<exists>ret t' e'. ex_run TS_LAST_ACK TSTS_PURGED TE_SEGMENT_ARRIVES (ex_pcb (ex_hdr 0x10 501 101) []) =
     Some (ret, t', e') \<and> tcb_rcv_buf t' = [] \<and> e_pool e' = [1, 7, 8]"
proof -
  let ?t = "ex_tcb TS_LAST_ACK TSTS_PURGED" and ?p = "ex_pcb (ex_hdr 0x10 501 101) []"
  obtain ret t' e' where r: "tsm_dispatch_event ex_P TE_SEGMENT_ARRIVES PcbArg ?t (ex_env ?t ?p) =
      Some (ret, t', e')" "tcb_state t' = TS_CLOSED"
    using ex_run_last_ack unfolding ex_run_def by blast
  have "distinct (e_htable (ex_env ?t ?p) (l4cb_interface ?t) (TPG_HASH_MOD (l4cb_rx_hash ?t)))"
    by (simp add: ex_env_def)
  from tsm_closed_releases [OF _ _ _ r this] r(1) show ?thesis by (simp add: ex_run_def)
qed

text \<open>
  C3: An event on one connection keeps the timers consistent (a block has the flag of a timer
  exactly when it is on that wheel) and touches no other connection: neither its timers nor
  its control block.
\<close>

theorem tsm_keeps_timers:
  assumes "tmr_inv t e" and "tcb_state t = TS_LISTEN \<longrightarrow> ev \<noteq> TE_SEGMENT_ARRIVES"
    and "tsm_dispatch_event P ev arg t e = Some (ret, t', e')"
  shows "tmr_inv t' e' \<and> others_timers t' e' = others_timers t e \<and> e_tcbs e' = e_tcbs e \<and>
         l4cb_id t' = l4cb_id t"
proof -
  let ?r = "(tcp_frame t e, others_timers t e)"
  have r: "tcp_in (?r, tcb_state t) t e" using assms(1) by (simp add: tcp_in_def tcp_view_def)
  from dispatch_ends_in [OF assms(1,3,2)] show ?thesis
    unfolding ends_in_def closed_from_def
    using tcp_in_same [OF r] by (auto simp: tcp_in_def tcp_view_def)
qed

theorem tsm_keeps_timers_witness:
  "\<exists>ret t' e'. ex_run TS_LAST_ACK TSTS_PURGED TE_SEGMENT_ARRIVES (ex_pcb (ex_hdr 0x10 501 101) []) =
     Some (ret, t', e') \<and> tmr_inv t' e' \<and> l4cb_id t' = 1"
proof -
  obtain ret t' e' where r: "tsm_dispatch_event ex_P TE_SEGMENT_ARRIVES PcbArg (ex_tcb TS_LAST_ACK TSTS_PURGED)
      (ex_env (ex_tcb TS_LAST_ACK TSTS_PURGED) (ex_pcb (ex_hdr 0x10 501 101) [])) = Some (ret, t', e')"
    using ex_run_last_ack unfolding ex_run_def by blast
  from tsm_keeps_timers [OF _ _ r] r show ?thesis by (simp add: ex_run_def)
qed

end
