(* ===== verification/Lookup.thy ===== *)
theory Lookup
  imports Examples
begin

text \<open>
  The session table: which session a packet belongs to. The contract of a table is the locale
  \<open>session_table\<close>; the hash table of the code, with the memory the control blocks are in, is
  its instance. On it: what is opened is found, what is closed is not, no session is taken for
  another one, and the answer of the peer is found whatever the hash of the hardware.
\<close>

subsection \<open>The contract\<close>

locale session_table =
  fixes inv :: "'t \<Rightarrow> bool"
    and look :: "'t \<Rightarrow> 'k \<Rightarrow> 'x option"
    and add :: "'c \<Rightarrow> 't \<Rightarrow> 't"
    and del :: "'c \<Rightarrow> 't \<Rightarrow> 't option"
    and key :: "'c \<Rightarrow> 'k"
    and ident :: "'c \<Rightarrow> 'x"
  assumes look_inj: "inv T \<Longrightarrow> look T k = Some x \<Longrightarrow> look T k' = Some x \<Longrightarrow> k = k'"
    and add_law: "inv T \<Longrightarrow> look T (key c) = None \<Longrightarrow> ident c \<notin> ran (look T) \<Longrightarrow>
      inv (add c T) \<and> look (add c T) = (look T)(key c \<mapsto> ident c)"
    and del_law: "inv T \<Longrightarrow> look T (key c) = Some (ident c) \<Longrightarrow>
      \<exists>T'. del c T = Some T' \<and> inv T' \<and> look T' = (look T)(key c := None)"
begin

lemma add_del:
  assumes "inv T" and "look T (key c) = None" and "ident c \<notin> ran (look T)"
  shows "\<exists>T'. del c (add c T) = Some T' \<and> inv T' \<and> look T' = look T"
proof -
  note a = add_law [OF assms]
  then have "look (add c T) (key c) = Some (ident c)" by simp
  from del_law [OF conjunct1 [OF a] this] a assms(2) show ?thesis by (auto simp: fun_upd_idem)
qed

text \<open>A list of sessions opened one after the other.\<close>

lemma adds:
  assumes "inv T" and "distinct (map key cs)" and "distinct (map ident cs)"
    and "\<forall>c \<in> set cs. look T (key c) = None \<and> ident c \<notin> ran (look T)"
  shows "inv (fold add cs T) \<and> look (fold add cs T) = look T ++ map_of (map (\<lambda>c. (key c, ident c)) cs)"
  using assms
proof (induction cs arbitrary: T)
  case (Cons c cs)
  then have a: "inv (add c T)" "look (add c T) = (look T)(key c \<mapsto> ident c)"
    using add_law [of T c] by auto
  have "\<forall>d \<in> set cs. look (add c T) (key d) = None \<and> ident d \<notin> ran (look (add c T))"
    using Cons.prems by (auto simp: a(2) ran_def image_iff)
  from Cons.IH [OF a(1) _ _ this] Cons.prems(2,3)
  have "inv (fold add cs (add c T))"
    "look (fold add cs (add c T)) =
       (look T)(key c \<mapsto> ident c) ++ map_of (map (\<lambda>c. (key c, ident c)) cs)"
    by (simp_all add: a(2) del: fun_upd_apply)
  moreover have "map_of (map (\<lambda>c. (key c, ident c)) cs) (key c) = None"
    using Cons.prems(2) by (auto simp: map_of_eq_None_iff)
  ultimately show ?case by (auto simp: fun_eq_iff map_add_def split: option.splits)
qed simp

end

subsection \<open>The hash table\<close>

type_synonym ('a, 'z) tbl = "(u16 \<Rightarrow> u32 \<Rightarrow> cb_id list) \<times> (cb_id \<Rightarrow> ('a, 'z) l4cb_scheme)"

type_synonym tuple = "u16 \<times> u32 \<times> u32 \<times> u32 \<times> u16 \<times> u16"

definition tcb_key :: "('a, 'z) l4cb_scheme \<Rightarrow> tuple" where
  "tcb_key t = (l4cb_interface t, l4cb_rx_hash t, l4cb_src_addr t, l4cb_dst_addr t, l4cb_src_port t,
                l4cb_dst_port t)"

fun tbl_look :: "('a, 'z) tbl \<Rightarrow> tuple \<Rightarrow> cb_id option" where
  "tbl_look (ht, mem) (p, h, la, ra, lp, rp) = tlkp_find_v4_cb ht mem p h la ra lp rp"

fun tbl_add :: "('a, 'z) l4cb_scheme \<Rightarrow> ('a, 'z) tbl \<Rightarrow> ('a, 'z) tbl" where
  "tbl_add t (ht, mem) = (tlkp_add_cb t ht, mem(l4cb_id t := t))"

fun tbl_del :: "('a, 'z) l4cb_scheme \<Rightarrow> ('a, 'z) tbl \<Rightarrow> ('a, 'z) tbl option" where
  "tbl_del t (ht, mem) = map_option (\<lambda>ht. (ht, mem)) (tlkp_delete_cb t ht)"

text \<open>A block is in the bucket of its interface and hash, once, and no two have the same tuple.\<close>

definition tbl_has :: "('a, 'z) tbl \<Rightarrow> cb_id \<Rightarrow> bool" where
  "tbl_has T x \<longleftrightarrow> (\<exists>p b. x \<in> set (fst T p b))"

definition tbl_inv :: "('a, 'z) tbl \<Rightarrow> bool" where
  "tbl_inv T \<longleftrightarrow>
     (\<forall>p b. distinct (fst T p b) \<and>
            (\<forall>x \<in> set (fst T p b). l4cb_interface (snd T x) = p \<and> TPG_HASH_MOD (l4cb_rx_hash (snd T x)) = b)) \<and>
     (\<forall>x y. tbl_has T x \<longrightarrow> tbl_has T y \<longrightarrow> tcb_key (snd T x) = tcb_key (snd T y) \<longrightarrow> x = y)"

lemma find_unique:
  "(\<And>x y. x \<in> set xs \<Longrightarrow> y \<in> set xs \<Longrightarrow> P x \<Longrightarrow> P y \<Longrightarrow> x = y) \<Longrightarrow>
     find P xs = Some x \<longleftrightarrow> x \<in> set xs \<and> P x"
  by (induction xs) (auto simp: find_None_iff)

lemma tbl_look_iff:
  assumes "tbl_inv T"
  shows "tbl_look T k = Some x \<longleftrightarrow> tbl_has T x \<and> tcb_key (snd T x) = k"
proof -
  obtain ht mem where T [simp]: "T = (ht, mem)" by (cases T)
  obtain p h la ra lp rp where k [simp]: "k = (p, h, la, ra, lp, rp)" by (cases k)
  let ?P = "\<lambda>x. tlkp_find_match h la ra lp rp (mem x)"
  have m: "y \<in> set (ht p (TPG_HASH_MOD h)) \<Longrightarrow> ?P y \<longleftrightarrow> tcb_key (mem y) = k" for y
    using assms by (auto simp: tbl_inv_def tlkp_find_match_def tcb_key_def)
  have "tbl_has T y \<Longrightarrow> tcb_key (mem y) = k \<Longrightarrow> y \<in> set (ht p (TPG_HASH_MOD h))" for y
    using assms by (fastforce simp: tbl_inv_def tbl_has_def tcb_key_def)
  moreover have "tbl_has T y" if "y \<in> set (ht p (TPG_HASH_MOD h))" for y
    using that by (auto simp: tbl_has_def)
  moreover have "find ?P (ht p (TPG_HASH_MOD h)) = Some x \<longleftrightarrow> x \<in> set (ht p (TPG_HASH_MOD h)) \<and> ?P x"
  proof (rule find_unique)
    fix x y
    assume a: "x \<in> set (ht p (TPG_HASH_MOD h))" "y \<in> set (ht p (TPG_HASH_MOD h))" "?P x" "?P y"
    with m have "tcb_key (mem x) = tcb_key (mem y)" by metis
    moreover from a have "tbl_has T x" "tbl_has T y" by (auto simp: tbl_has_def)
    ultimately show "x = y" using assms by (simp add: tbl_inv_def)
  qed
  ultimately show ?thesis using m by (auto simp: tlkp_find_v4_cb_def)
qed

lemma ran_tbl_look: "tbl_inv T \<Longrightarrow> ran (tbl_look T) = {x. tbl_has T x}"
  by (auto simp: ran_def tbl_look_iff simp del: split_paired_Ex)

lemma tbl_add_bucket:
  "fst (tbl_add t T) p b = (if p = l4cb_interface t \<and> b = TPG_HASH_MOD (l4cb_rx_hash t)
     then l4cb_id t # fst T p b else fst T p b)"
  by (cases T) (auto simp: tlkp_add_cb_def)

lemma tbl_has_add: "tbl_has (tbl_add t T) x \<longleftrightarrow> x = l4cb_id t \<or> tbl_has T x"
proof -
  have "x \<in> set (fst (tbl_add t T) p b) \<longleftrightarrow>
      x = l4cb_id t \<and> p = l4cb_interface t \<and> b = TPG_HASH_MOD (l4cb_rx_hash t) \<or> x \<in> set (fst T p b)" for p b
    by (auto simp: tbl_add_bucket)
  then show ?thesis by (auto simp: tbl_has_def)
qed

lemma snd_tbl_add: "snd (tbl_add t T) = (snd T)(l4cb_id t := t)"
  by (cases T) simp

lemma tbl_add_inv:
  assumes "tbl_inv T" and "tbl_look T (tcb_key t) = None" and "\<not> tbl_has T (l4cb_id t)"
  shows "tbl_inv (tbl_add t T)"
proof -
  have new: "\<not> tbl_has T x \<or> tcb_key (snd T x) \<noteq> tcb_key t" for x
    using assms(2) tbl_look_iff [OF assms(1)] by (metis option.distinct(1))
  have "l4cb_id t \<notin> set (fst T p b)" for p b using assms(3) by (auto simp: tbl_has_def)
  with assms(1) have "distinct (fst (tbl_add t T) p b) \<and>
      (\<forall>x \<in> set (fst (tbl_add t T) p b). l4cb_interface (snd (tbl_add t T) x) = p \<and>
         TPG_HASH_MOD (l4cb_rx_hash (snd (tbl_add t T) x)) = b)" for p b
    by (auto simp: tbl_inv_def tbl_add_bucket snd_tbl_add)
  moreover have "x = y" if "tbl_has (tbl_add t T) x" "tbl_has (tbl_add t T) y"
    "tcb_key (snd (tbl_add t T) x) = tcb_key (snd (tbl_add t T) y)" for x y
    using that new [of x] new [of y] assms(1)
    by (auto simp: tbl_has_add snd_tbl_add tbl_inv_def split: if_splits)
  ultimately show ?thesis by (simp add: tbl_inv_def)
qed

lemma tbl_del_some:
  assumes "tbl_inv T" and "tbl_look T (tcb_key t) = Some (l4cb_id t)"
  shows "\<exists>T'. tbl_del t T = Some T' \<and> snd T' = snd T \<and>
           (\<forall>p b. fst T' p b = remove1 (l4cb_id t) (fst T p b))"
proof -
  obtain ht mem where T [simp]: "T = (ht, mem)" by (cases T)
  from assms have h: "tbl_has T (l4cb_id t)" "tcb_key (mem (l4cb_id t)) = tcb_key t"
    by (simp_all add: tbl_look_iff)
  then have m: "l4cb_id t \<in> set (ht p b) \<longleftrightarrow>
      p = l4cb_interface t \<and> b = TPG_HASH_MOD (l4cb_rx_hash t)" for p b
    using assms(1) by (fastforce simp: tbl_inv_def tbl_has_def tcb_key_def)
  then have "remove1 (l4cb_id t) (ht p b) = ht p b"
    if "p \<noteq> l4cb_interface t \<or> b \<noteq> TPG_HASH_MOD (l4cb_rx_hash t)" for p b
    using that by (intro remove1_idem) auto
  with m show ?thesis by (auto simp: tlkp_delete_cb_def Let_def)
qed

interpretation tcp_table: session_table "tbl_inv :: ('a, 'z) tbl \<Rightarrow> bool" tbl_look tbl_add tbl_del tcb_key l4cb_id
proof unfold_locales
  fix T :: "('a, 'z) tbl" and k k' x
  assume "tbl_inv T" "tbl_look T k = Some x" "tbl_look T k' = Some x"
  then show "k = k'" by (simp add: tbl_look_iff)
next
  fix T :: "('a, 'z) tbl" and c :: "('a, 'z) l4cb_scheme"
  assume i: "tbl_inv T" and n: "tbl_look T (tcb_key c) = None" and f: "l4cb_id c \<notin> ran (tbl_look T)"
  then have h: "\<not> tbl_has T (l4cb_id c)" by (simp add: ran_tbl_look)
  note i' = tbl_add_inv [OF i n h]
  have "tbl_look (tbl_add c T) k = ((tbl_look T)(tcb_key c \<mapsto> l4cb_id c)) k" for k
  proof (cases "((tbl_look T)(tcb_key c \<mapsto> l4cb_id c)) k")
    case None
    then have "k \<noteq> tcb_key c" "tbl_look T k = None" by (auto split: if_splits)
    then have "tbl_look (tbl_add c T) k \<noteq> Some x" for x
      using tbl_look_iff [OF i, of k] tbl_look_iff [OF i', of k]
      by (auto simp: tbl_has_add snd_tbl_add split: if_splits)
    with None show ?thesis by (metis option.exhaust)
  next
    case (Some x)
    with h show ?thesis
      using tbl_look_iff [OF i, of k x]
      by (auto simp: tbl_look_iff [OF i'] tbl_has_add snd_tbl_add split: if_splits)
  qed
  with i' show "tbl_inv (tbl_add c T) \<and> tbl_look (tbl_add c T) = (tbl_look T)(tcb_key c \<mapsto> l4cb_id c)"
    by blast
next
  fix T :: "('a, 'z) tbl" and c :: "('a, 'z) l4cb_scheme"
  assume i: "tbl_inv T" and s: "tbl_look T (tcb_key c) = Some (l4cb_id c)"
  from tbl_del_some [OF i s] obtain T' where d: "tbl_del c T = Some T'" "snd T' = snd T"
    "\<And>p b. fst T' p b = remove1 (l4cb_id c) (fst T p b)" by blast
  have dd: "distinct (fst T p b)" for p b using i by (simp add: tbl_inv_def)
  then have h: "tbl_has T' x \<longleftrightarrow> tbl_has T x \<and> x \<noteq> l4cb_id c" for x
    by (auto simp: tbl_has_def d(3))
  have i': "tbl_inv T'"
    using i by (auto simp: tbl_inv_def d(2,3) h)
  have "tbl_look T' k = ((tbl_look T)(tcb_key c := None)) k" for k
  proof (cases "((tbl_look T)(tcb_key c := None)) k")
    case None
    have "tbl_look T' k \<noteq> Some x" for x
      using None tbl_look_iff [OF i, of k x] s
      by (auto simp: tbl_look_iff [OF i', of k x] h d(2) split: if_splits)
    with None show ?thesis by (metis option.exhaust)
  next
    case (Some x)
    then have "k \<noteq> tcb_key c" "tbl_look T k = Some x" by (auto split: if_splits)
    with s have "x \<noteq> l4cb_id c" using tbl_look_iff [OF i] by metis
    with \<open>tbl_look T k = Some x\<close> Some show ?thesis by (simp add: tbl_look_iff [OF i] tbl_look_iff [OF i'] h d(2))
  qed
  with d(1) i' show "\<exists>T'. tbl_del c T = Some T' \<and> tbl_inv T' \<and> tbl_look T' = (tbl_look T)(tcb_key c := None)"
    by blast
qed


subsection \<open>The lookup of a packet\<close>

lemma calc_pkt_hash:
  "tlkp_calc_pkt_hash P (rte_cpu_to_be_32 a) (rte_cpu_to_be_32 b) (rte_cpu_to_be_16 p) (rte_cpu_to_be_16 q) =
   tlkp_calc_connection_hash P a b p q"
  by (simp add: tlkp_calc_pkt_hash_def tlkp_calc_connection_hash_def toeplitz_rawhash_addrport_def
      toeplitz_cpuhash_addrport_def xor.left_commute xor.commute)

lemma tlkp_find_v4_tcb_look:
  "tlkp_find_v4_tcb p h la ra lp rp e = tbl_look (e_htable e, e_tcbs e) (p, h, la, ra, lp, rp)"
  by (simp add: tlkp_find_v4_tcb_def)

text \<open>The tuple a packet is looked up with.\<close>

definition pkt_key :: "pcb \<Rightarrow> tuple" where
  "pkt_key pcb = (pcb_port pcb, pcb_hash pcb, pcb_dst_addr pcb, pcb_src_addr pcb,
                  th_dst_port (pcb_tcp pcb), th_src_port (pcb_tcp pcb))"

lemma tcp_lookup_pkt_found:
  "tbl_look (e_htable e, e_tcbs e) (pkt_key (e_pcb e)) = Some x \<Longrightarrow> tcp_lookup_pkt P e = Some (Some x)"
  by (simp add: tcp_lookup_pkt_def pkt_key_def tlkp_find_v4_tcb_look Let_def)

subsection \<open>Properties\<close>

text \<open>
  Sessions opened one after the other with distinct tuples are each found under their own
  tuple, and every session that was in the table still is under its own.
\<close>

theorem opened_sessions_found:
  assumes "tbl_inv T" and "distinct (map tcb_key ts)" and "distinct (map l4cb_id ts)"
    and "\<forall>t \<in> set ts. tbl_look T (tcb_key t) = None \<and> l4cb_id t \<notin> ran (tbl_look T)"
  shows "tbl_inv (fold tbl_add ts T) \<and>
         (\<forall>t \<in> set ts. tbl_look (fold tbl_add ts T) (tcb_key t) = Some (l4cb_id t)) \<and>
         (\<forall>k x. tbl_look T k = Some x \<longrightarrow> tbl_look (fold tbl_add ts T) k = Some x)"
proof -
  note a = tcp_table.adds [OF assms]
  have "map_of (map (\<lambda>t. (tcb_key t, l4cb_id t)) ts) (tcb_key t) = Some (l4cb_id t)" if "t \<in> set ts" for t
    using that assms(2) by (intro map_of_is_SomeI) (simp_all add: comp_def)
  moreover have "map_of (map (\<lambda>t. (tcb_key t, l4cb_id t)) ts) k = None" if "tbl_look T k = Some x" for k x
    using that assms(4) by (auto simp: map_of_eq_None_iff)
  ultimately show ?thesis using a by (auto simp: map_add_Some_iff simp del: split_paired_All)
qed

definition ex_sess :: "cb_id \<Rightarrow> u16 \<Rightarrow> unit tcb" where
  "ex_sess x port = (ex_tcb TS_ESTABLISHED TSTS_CL_OPEN)\<lparr>l4cb_id := x, l4cb_src_port := port\<rparr>"

theorem opened_sessions_found_witness:
  "tbl_look (fold tbl_add [ex_sess 1 1000, ex_sess 2 1001] (\<lambda>_ _. [], \<lambda>_. zero_tcb ex_P))
     (tcb_key (ex_sess 2 1001)) = Some 2"
proof -
  have "tbl_inv (\<lambda>_ _. [], \<lambda>_. zero_tcb ex_P)" by (simp add: tbl_inv_def tbl_has_def)
  moreover have "tbl_look (\<lambda>_ _. [], \<lambda>_. zero_tcb ex_P) k = None" for k
    by (cases k) (simp add: tlkp_find_v4_cb_def)
  ultimately show ?thesis
    using opened_sessions_found [of "(\<lambda>_ _. [], \<lambda>_. zero_tcb ex_P)" "[ex_sess 1 1000, ex_sess 2 1001]"]
    by (simp add: ex_sess_def tcb_key_def ran_def del: fold.simps)
qed

text \<open>
  Closing a session is the inverse of opening it: the table answers as before, for every tuple.
\<close>

theorem open_close_restores:
  assumes "tbl_inv T" and "tbl_look T (tcb_key t) = None" and "l4cb_id t \<notin> ran (tbl_look T)"
  shows "\<exists>T'. tbl_del t (tbl_add t T) = Some T' \<and> tbl_inv T' \<and> tbl_look T' = tbl_look T"
  using tcp_table.add_del [OF assms] .

theorem open_close_restores_witness:
  "\<exists>T'. tbl_del (ex_sess 1 1000) (tbl_add (ex_sess 1 1000) (\<lambda>_ _. [], \<lambda>_. zero_tcb ex_P)) = Some T' \<and>
     tbl_look T' (tcb_key (ex_sess 1 1000)) = None"
proof -
  have inv: "tbl_inv (\<lambda>_ _. [], \<lambda>_. zero_tcb ex_P)" by (simp add: tbl_inv_def tbl_has_def)
  have look: "tbl_look (\<lambda>_ _. [], \<lambda>_. zero_tcb ex_P) k = None" for k
    by (cases k) (simp add: tlkp_find_v4_cb_def)
  have "l4cb_id (ex_sess 1 1000) \<notin> ran (tbl_look (\<lambda>_ _. [], \<lambda>_. zero_tcb ex_P))"
    by (simp add: ran_def look del: tbl_look.simps split_paired_Ex)
  from open_close_restores [OF inv look this] obtain T' where
    "tbl_del (ex_sess 1 1000) (tbl_add (ex_sess 1 1000) (\<lambda>_ _. [], \<lambda>_. zero_tcb ex_P)) = Some T'"
    "tbl_look T' = tbl_look (\<lambda>_ _. [], \<lambda>_. zero_tcb ex_P)" by blast
  then show ?thesis by (simp add: look del: tbl_look.simps tbl_add.simps)
qed

text \<open>
  The answer of the peer finds the connection it answers: a connection initialised without a given
  hash is looked up by a packet with its addresses and ports the other way round, when the hardware
  gave no hash or gave the Toeplitz hash of these fields.
\<close>

theorem reply_finds_connection:
  assumes "tbl_inv (e_htable e, e_tcbs e)"
    and "tbl_look (e_htable e, e_tcbs e) (tcb_key t) = Some (l4cb_id t)"
    and "t = tlkp_init_tcb P local remote lport rport 0 port tc app so flags t0"
    and "flags AND TPG_CB_USE_L4_HASH_FLAG = 0"
    and "pcb_port (e_pcb e) = port" and "pcb_src_addr (e_pcb e) = remote"
    and "pcb_dst_addr (e_pcb e) = local"
    and "th_src_port hdr = rport" and "th_dst_port hdr = lport"
    and "rx_rss_hash meta = None \<or> rx_rss_hash meta = Some (tlkp_calc_connection_hash P remote local rport lport)"
    and "tcp_fill_pcb P meta hdr e = Some e'"
  shows "tcp_lookup_pkt P e' = Some (Some (l4cb_id t))"
proof -
  have k: "tcb_key t = (port, tlkp_calc_connection_hash P remote local rport lport, local, remote, lport, rport)"
    using assms(4) by (simp add: assms(3) tcb_key_def tlkp_init_tcb_def tlkp_init_cb_def
        l4_cb_calc_connection_hash_def)
  have e': "e_htable e' = e_htable e" "e_tcbs e' = e_tcbs e"
    "pkt_key (e_pcb e') = (port, tlkp_calc_connection_hash P remote local rport lport, local, remote, lport, rport)"
    using assms(5-11) by (auto simp: tcp_fill_pcb_def pkt_key_def calc_pkt_hash Let_def)
  then show ?thesis using assms(2) by (intro tcp_lookup_pkt_found) (simp add: k)
qed

lemma ex_env_tbl:
  "tbl_inv (e_htable (ex_env t pcb), e_tcbs (ex_env t pcb))"
  "tbl_look (e_htable (ex_env t pcb), e_tcbs (ex_env t pcb)) (tcb_key t) = Some (l4cb_id t)"
proof -
  show i: "tbl_inv (e_htable (ex_env t pcb), e_tcbs (ex_env t pcb))"
    by (auto simp: tbl_inv_def tbl_has_def ex_env_def)
  show "tbl_look (e_htable (ex_env t pcb), e_tcbs (ex_env t pcb)) (tcb_key t) = Some (l4cb_id t)"
    by (simp add: tlkp_find_v4_cb_def tlkp_find_match_def ex_env_def tcb_key_def)
qed

theorem reply_finds_connection_witness:
  "\<exists>t e'. t = tlkp_init_tcb ex_P 1 2 1000 80 0 0 0 () ex_sockopt 0 (ex_tcb TS_INIT TSTS_CL_TO_OPEN) \<and>
     tcp_fill_pcb ex_P \<lparr>rx_cksum_bad = False, rx_rss_hash = None\<rparr> (ex_hdr 0x12 7 1)
       (ex_env t (ex_pcb (ex_hdr 0x12 7 1) (replicate 20 0))) = Some e' \<and>
     tcp_lookup_pkt ex_P e' = Some (Some 1)"
proof -
  let ?t = "tlkp_init_tcb ex_P 1 2 1000 80 0 0 0 () ex_sockopt 0 (ex_tcb TS_INIT TSTS_CL_TO_OPEN)"
  let ?e = "ex_env ?t (ex_pcb (ex_hdr 0x12 7 1) (replicate 20 0))"
  let ?meta = "\<lparr>rx_cksum_bad = False, rx_rss_hash = None\<rparr>"
  have "case tcp_fill_pcb ex_P ?meta (ex_hdr 0x12 7 1) ?e of None \<Rightarrow> False | Some e' \<Rightarrow> True" by code_simp
  then obtain e' where f: "tcp_fill_pcb ex_P ?meta (ex_hdr 0x12 7 1) ?e = Some e'" by (auto split: option.splits)
  have "tcp_lookup_pkt ex_P e' = Some (Some (l4cb_id ?t))"
    by (rule reply_finds_connection [OF ex_env_tbl refl _ _ _ _ _ _ _ f])
      (simp_all add: ex_pcb_def ex_hdr_def)
  moreover have "l4cb_id ?t = 1" by (simp add: tlkp_init_tcb_def tlkp_init_cb_def l4_cb_calc_connection_hash_def)
  ultimately show ?thesis using f by auto
qed

end
