(* ===== verification/TcpSendProps.thy ===== *)
theory TcpSendProps
  imports TcpData Examples
begin

text \<open>
  The send queue: what is stored is appended, and what is sent is the right range of the queue, in
  order, under consecutive sequence numbers, in segments of at most the MTU and, as long as the
  peer does not shrink its window, inside the window.
\<close>

definition snd_bytes :: "'a tcb \<Rightarrow> u8 list" where
  "snd_bytes t = chain_bytes (tr_data_mbufs t)"

definition flight :: "'a tcb \<Rightarrow> nat" where
  "flight t = unat (snd_nxt t - snd_una t)"

text \<open>The queue is consistent: its length is recorded, and within the configured window.\<close>

definition snd_wf :: "'a tcb \<Rightarrow> bool" where
  "snd_wf t \<longleftrightarrow> chain_ok (tr_data_mbufs t) \<and> unat (tr_total_size t) = length (snd_bytes t) \<and>
     tr_last_set t = (tr_data_mbufs t \<noteq> []) \<and> tr_total_size t \<le> tcpo_win_size (l4cb_sockopt t)"

subsection \<open>Storing\<close>

lemma avail_room:
  assumes "ucast l \<le> TCB_AVAIL_SEND t e"
  shows "l \<le> tcpo_win_size (l4cb_sockopt t) - tr_total_size t"
proof -
  have "TCB_AVAIL_SEND t e \<le> ucast (tcpo_win_size (l4cb_sockopt t) - tr_total_size t)"
    by (auto simp: TCB_AVAIL_SEND_def Let_def)
  with assms have "(ucast l :: u64) \<le> ucast (tcpo_win_size (l4cb_sockopt t) - tr_total_size t)" by (rule order_trans)
  then show ?thesis unfolding word_le_nat_alt unat_ucast_u32_u64 .
qed

lemma tcp_data_store_send_ok:
  assumes "snd_wf t" and "pkt_wf (tda_mbuf data)"
    and "ucast (mb_pkt_len (hd (tda_mbuf data))) \<le> TCB_AVAIL_SEND t e"
  shows "\<exists>t'. tcp_data_store_send t data e = Some (of_nat (length (chain_bytes (tda_mbuf data))), t') \<and>
           snd_wf t' \<and> snd_bytes t' = snd_bytes t @ chain_bytes (tda_mbuf data) \<and>
           t' = t\<lparr>tr_data_mbufs := tr_data_mbufs t', tr_last_set := True, tr_total_size := tr_total_size t'\<rparr>"
proof -
  obtain d ds where d: "tda_mbuf data = d # ds" using assms(2) by (cases "tda_mbuf data") (auto simp: pkt_wf_def)
  let ?new = "chain_bytes (d # ds)"
  from assms(2) have ok: "chain_ok (d # ds)" and pl: "mb_pkt_len d = of_nat (length ?new)"
    by (simp_all add: d pkt_wf_def)
  have pn: "unat (mb_pkt_len d) = length ?new" unfolding pl using ok by (rule chain_ok_len)
  have room: "mb_pkt_len d \<le> tcpo_win_size (l4cb_sockopt t) - tr_total_size t"
    using avail_room [of "mb_pkt_len d" t e] assms(3) by (simp add: d)
  have q: "chain_ok (tr_data_mbufs t)" "unat (tr_total_size t) = length (snd_bytes t)"
    "tr_last_set t = (tr_data_mbufs t \<noteq> [])" "tr_total_size t \<le> tcpo_win_size (l4cb_sockopt t)"
    using assms(1) by (simp_all add: snd_wf_def)
  have win: "unat (tcpo_win_size (l4cb_sockopt t) - tr_total_size t) =
      unat (tcpo_win_size (l4cb_sockopt t)) - length (snd_bytes t)"
    using q(2,4) by (simp add: unat_sub)
  have le: "length (snd_bytes t) + length ?new \<le> unat (tcpo_win_size (l4cb_sockopt t))"
    using room q(4) unfolding word_le_nat_alt win pn q(2) by simp
  then have lt: "length (snd_bytes t) + length ?new < 4294967296"
    using unat_u32_less [of "tcpo_win_size (l4cb_sockopt t)"] by simp
  have tot: "unat (tr_total_size t + mb_pkt_len d) = length (snd_bytes t) + length ?new"
    using lt pn q(2) by (simp add: unat_word_ariths)
  then have lim: "tr_total_size t + mb_pkt_len d \<le> tcpo_win_size (l4cb_sockopt t)"
    using le by (simp add: word_le_nat_alt)
  have fit: "\<not> TCB_AVAIL_SEND t e < ucast (mb_pkt_len d)" using assms(3) by (simp add: d)
  have "\<exists>c. tcp_data_store_send t data e =
      Some (mb_pkt_len d, t\<lparr>tr_data_mbufs := c, tr_last_set := True, tr_total_size := tr_total_size t + mb_pkt_len d\<rparr>) \<and>
      chain_ok c \<and> c \<noteq> [] \<and> chain_bytes c = snd_bytes t @ ?new"
  proof (cases "tr_data_mbufs t")
    case Nil
    then have "tr_total_size t = 0" using q(2) by (simp add: snd_bytes_def unat_eq_0 [symmetric])
    with Nil q(3) ok fit show ?thesis
      by (intro exI [of _ "d # ds"]) (simp add: tcp_data_store_send_def d snd_bytes_def Let_def)
  next
    case (Cons m ms)
    have "chain_ok ((m\<lparr>mb_nb_segs := k, mb_pkt_len := l\<rparr> # ms) @ d # ds)" for k l
      using q(1) ok lt Cons by (simp add: chain_ok_def mbuf_ok_def snd_bytes_def)
    with Cons q(3) fit show ?thesis
      by (intro exI [of _ "m\<lparr>mb_nb_segs := mb_nb_segs m + mb_nb_segs d,
          mb_pkt_len := tr_total_size t + mb_pkt_len d\<rparr> # ms @ d # ds"])
        (simp add: tcp_data_store_send_def d snd_bytes_def Let_def)
  qed
  with tot lim pl show ?thesis by (auto simp: snd_wf_def snd_bytes_def d simp del: chain_bytes_simps)
qed

lemma tcp_data_store_send_full:
  assumes "tda_mbuf data \<noteq> []" and "TCB_AVAIL_SEND t e < ucast (mb_pkt_len (hd (tda_mbuf data)))"
  shows "tcp_data_store_send t data e = Some (0, t)"
  using assms by (cases "tda_mbuf data") (simp_all add: tcp_data_store_send_def)

subsection \<open>What has not been sent\<close>

lemma tcp_data_skip_sent_bytes:
  assumes "chain_ok c" and "unat off \<le> unat g" and "unat g - unat off < length (chain_bytes c)"
  shows "\<exists>m ms off'. tcp_data_skip_sent c g off = Some (m # ms, off') \<and> chain_ok (m # ms) \<and>
           unat off' < length (mb_data m) \<and>
           drop (unat off') (chain_bytes (m # ms)) = drop (unat g - unat off) (chain_bytes c)"
  using assms
proof (induction c g off rule: tcp_data_skip_sent.induct)
  case (2 m ms g off)
  then have m: "mbuf_ok m" "chain_ok ms" by (auto dest: chain_ok_ConsD)
  have d: "unat (g - off) = unat g - unat off" using "2.prems"(2) by (simp add: unat_sub word_le_nat_alt)
  show ?case
  proof (cases "data_len m \<le> g - off")
    case True
    then have l: "length (mb_data m) \<le> unat g - unat off" using m d by (simp add: word_le_nat_alt)
    then have a: "unat (off + data_len m) = unat off + length (mb_data m)"
      using m unat_u32_less [of g] "2.prems"(2) by (simp add: unat_word_ariths)
    have "unat (off + data_len m) \<le> unat g" "unat g - unat (off + data_len m) < length (chain_bytes ms)"
      using l a "2.prems" by simp_all
    from "2.IH" [OF True m(2) this] a l True show ?thesis by (simp add: diff_diff_left)
  next
    case False
    then have "unat g - unat off < length (mb_data m)" using m d by (simp add: word_le_nat_alt)
    with False "2.prems"(1) d show ?thesis by simp
  qed
qed simp

lemma tcp_data_get_unsent_bytes:
  assumes "snd_wf t" and "flight t < length (snd_bytes t)"
  shows "\<exists>m ms off. tcp_data_get_unsent t = Some (m # ms, off) \<and> chain_ok (m # ms) \<and>
           unat off < length (mb_data m) \<and>
           drop (unat off) (chain_bytes (m # ms)) = drop (flight t) (snd_bytes t) \<and>
           unat (tcp_data_get_unsent_size t) = length (snd_bytes t) - flight t"
proof -
  from assms have q: "chain_ok (tr_data_mbufs t)" "unat (tr_total_size t) = length (snd_bytes t)"
    by (simp_all add: snd_wf_def)
  with assms(2) have "tr_total_size t \<noteq> 0" by (auto simp: unat_eq_0 [symmetric])
  then have u: "tcp_data_get_unsent_size t = tr_total_size t - (snd_nxt t - snd_una t)"
    by (simp add: tcp_data_get_unsent_size_def SEG_defs)
  have "unat (snd_nxt t - snd_una t) \<le> unat (tr_total_size t)" using assms(2) q by (simp add: flight_def)
  then have s: "unat (tcp_data_get_unsent_size t) = length (snd_bytes t) - flight t"
    unfolding u using q by (simp add: unat_sub word_le_nat_alt flight_def)
  have g: "tr_total_size t - tcp_data_get_unsent_size t = snd_nxt t - snd_una t" by (simp add: u)
  from tcp_data_skip_sent_bytes [OF q(1), of 0 "snd_nxt t - snd_una t"] assms(2) s show ?thesis
    unfolding tcp_data_get_unsent_def g by (simp add: flight_def snd_bytes_def)
qed


subsection \<open>Segments on the wire\<close>

text \<open>The buffer and offset at which the next segment starts.\<close>

lemma tcp_data_advance_bytes:
  assumes "chain_ok c" and "c \<noteq> []" and "unat off \<le> length (mb_data (hd c))"
    and "unat off + unat l \<le> length (chain_bytes c)"
  shows "\<exists>c' off' left. tcp_data_advance c off l = Some (c', off', left) \<and> chain_ok c' \<and> c' \<noteq> [] \<and>
           unat (off' + left) \<le> length (mb_data (hd c')) \<and>
           drop (unat (off' + left)) (chain_bytes c') = drop (unat off + unat l) (chain_bytes c)"
  using assms
proof (induction c off l rule: tcp_data_advance.induct)
  case (2 m ms off l)
  then have m: "mbuf_ok m" "chain_ok ms" and lt: "length (chain_bytes (m # ms)) < 4294967296"
    by (auto simp: chain_ok_def)
  have s: "unat (off + l) = unat off + unat l" using "2.prems"(4) lt by (simp add: unat_word_ariths)
  show ?case
  proof (cases "data_len m < off + l")
    case True
    then have gt: "length (mb_data m) < unat off + unat l" using m s by (simp add: word_less_nat_alt)
    have d: "unat (data_len m - off) = length (mb_data m) - unat off"
      using m "2.prems"(3) by (simp add: unat_sub word_le_nat_alt)
    have d2: "unat (l - (data_len m - off)) = unat l - (length (mb_data m) - unat off)"
      using d gt by (simp add: unat_sub word_le_nat_alt)
    have "ms \<noteq> []" using gt "2.prems"(4) by auto
    moreover have "unat (0 :: u32) + unat (l - (data_len m - off)) \<le> length (chain_bytes ms)"
      using "2.prems"(3,4) gt by (simp add: d2)
    ultimately obtain c' off' left where r: "tcp_data_advance ms 0 (l - (data_len m - off)) = Some (c', off', left)"
      "chain_ok c'" "c' \<noteq> []" "unat (off' + left) \<le> length (mb_data (hd c'))"
      "drop (unat (off' + left)) (chain_bytes c') =
         drop (unat (0 :: u32) + unat (l - (data_len m - off))) (chain_bytes ms)"
      using "2.IH" [OF True m(2)] by auto
    have "unat l - (length (mb_data m) - unat off) = unat off + unat l - length (mb_data m)"
      using "2.prems"(3) gt by simp
    with r True gt show ?thesis by (simp add: d2)
  next
    case False
    with "2.prems" s m show ?thesis by (simp add: word_less_nat_alt)
  qed
qed simp

text \<open>Consecutive segments of at most \<open>mtu\<close> bytes.\<close>

fun seg_stream :: "nat \<Rightarrow> u32 \<Rightarrow> tx_pkt list \<Rightarrow> bool" where
  "seg_stream mtu sq [] = True"
| "seg_stream mtu sq (p # ps) =
     (tx_seq p = sq \<and> 0 < length (tx_data p) \<and> length (tx_data p) \<le> mtu \<and>
      seg_stream mtu (sq + of_nat (length (tx_data p))) ps)"

definition tx_bytes :: "tx_pkt list \<Rightarrow> u8 list" where
  "tx_bytes ps = concat (map tx_data ps)"

text \<open>The outcome lists are empty from some point on, where nothing fails any more.\<close>

lemma data_clone_segs_alloc: "data_clone_segs c l off [] = Some (r, bs) \<Longrightarrow> r \<noteq> None \<and> r \<noteq> Some [] \<and> bs = []"
  by (induction c l off "[] :: bool list" arbitrary: r bs rule: data_clone_segs.induct)
    (auto simp: Let_def split: if_splits option.splits bind_splits)

lemma data_clone_seg_alloc: "data_clone_seg c l off [] = Some (None, bs) \<Longrightarrow> l = 0"
proof (rule ccontr)
  assume a: "data_clone_seg c l off [] = Some (None, bs)" "l \<noteq> 0"
  then obtain c' off' r where "data_clone_skip c off = Some (c', off')" "data_clone_segs c' l off' [] = Some (r, bs)"
    "(case r of Some (m # ms) \<Rightarrow> Some (m\<lparr>mb_pkt_len := l, mb_nb_segs := of_nat (Suc (length ms))\<rparr> # ms)
       | _ \<Rightarrow> None) = None"
    by (auto simp: data_clone_seg_def bind_eq_Some_conv)
  with data_clone_segs_alloc [of c' l off' r bs] show False by (auto split: list.splits)
qed

lemma data_clone_seg_works: "data_clone_seg c l off [] = Some (r, bs) \<Longrightarrow> bs = []"
  using data_clone_segs_alloc by (fastforce simp: data_clone_seg_def bind_eq_Some_conv split: if_splits)

text \<open>Every buffer is found and every packet goes out.\<close>

definition tx_works :: "'a env \<Rightarrow> bool" where
  "tx_works e \<longleftrightarrow> e_alloc_outcomes e = [] \<and> e_tx_outcomes e = []"

lemma send_segment:
  assumes "chain_ok c" and "unat off + unat l \<le> length (chain_bytes c)" and "l \<noteq> 0"
    and "fl AND TCP_BUILD_FLAG_USE_ISS = 0"
  shows "\<exists>ok e' ps. tcp_data_send_segment t c l off sq fl e = Some (ok, e') \<and> e_tx e' = e_tx e @ ps \<and>
           e_pi_mtu e' = e_pi_mtu e \<and> (tx_works e \<longrightarrow> tx_works e') \<and>
           (if ok then \<exists>p. ps = [p] \<and> tx_seq p = sq \<and> tx_data p = take (unat l) (drop (unat off) (chain_bytes c))
            else ps = [] \<and> (e_alloc_outcomes e \<noteq> [] \<or> e_tx_outcomes e \<noteq> []))"
proof -
  from data_clone_seg_bytes [OF assms(1,2,3), of "e_alloc_outcomes e"] obtain r bs where
    r: "data_clone_seg c l off (e_alloc_outcomes e) = Some (r, bs)"
    "\<And>c'. r = Some c' \<Longrightarrow> c' \<noteq> [] \<and> chain_bytes c' = take (unat l) (drop (unat off) (chain_bytes c))"
    by blast
  show ?thesis
  proof (cases r)
    case None
    with data_clone_seg_alloc [of c l off bs] r(1) assms(3) have "e_alloc_outcomes e \<noteq> []" by auto
    with r None show ?thesis
      by (intro exI [of _ False]) (simp add: tcp_data_send_segment_def upd_tcp_stats_def tx_works_def)
  next
    case (Some c')
    obtain out outs where o: "next_tx_outcome (e_tx_outcomes e) = (out, outs)"
      by (cases "next_tx_outcome (e_tx_outcomes e)")
    from r(2) [OF Some] obtain m ms where c': "c' = m # ms"
      "chain_bytes c' = take (unat l) (drop (unat off) (chain_bytes c))" by (cases c') auto
    have works: "tx_works e \<Longrightarrow> bs = [] \<and> outs = []"
      using r(1) o data_clone_seg_works [of c l off r bs] by (auto simp: tx_works_def)
    have fail: "out \<noteq> TxOk \<Longrightarrow> e_tx_outcomes e \<noteq> []" using o by auto
    obtain ok e' where s: "tcp_data_send_segment t c l off sq fl e = Some (ok, e')"
      by (cases "tcp_send_data_pkt t sq fl c' (e\<lparr>e_alloc_outcomes := bs\<rparr>)")
        (simp add: tcp_data_send_segment_def r(1) Some)
    show ?thesis
    proof (cases "out = TxOk")
      case True
      with s have "ok" "e_pi_mtu e' = e_pi_mtu e" "e_tx e' = e_tx e @ [tcp_build_hdr t sq fl (chain_bytes c')]"
        "e_alloc_outcomes e' = bs" "e_tx_outcomes e' = outs"
        by (auto simp: tcp_data_send_segment_def r(1) Some tcp_send_data_pkt_def tcp_send_pkt_def o c'(1)
            Let_def upd_tcp_stats_def)
      with s assms(4) works show ?thesis by (auto simp: tcp_build_hdr_def c'(2) tx_works_def)
    next
      case False
      with s have "\<not> ok" "e_pi_mtu e' = e_pi_mtu e" "e_tx e' = e_tx e"
        by (cases out; auto simp: tcp_data_send_segment_def r(1) Some tcp_send_data_pkt_def tcp_send_pkt_def o c'(1)
            Let_def upd_tcp_stats_def)+
      with s fail [OF False] show ?thesis by (auto simp: tx_works_def)
    qed
  qed
qed

lemma send_loop:
  fixes mtu :: u32
  assumes "chain_ok c" and "c \<noteq> []" and "unat off \<le> length (mb_data (hd c))"
    and "unat off + unat dlen \<le> length (chain_bytes c)" and "fl AND TCP_BUILD_FLAG_USE_ISS = 0"
    and "TCB_MTU t e = ucast mtu" and "mtu \<noteq> 0"
  shows "\<exists>sent t' e' ps. tcp_data_send_loop n c dlen off sq fl sent0 t e = Some (sent, t', e') \<and>
           e_tx e' = e_tx e @ ps \<and> length ps \<le> n \<and> seg_stream (unat mtu) sq ps \<and>
           length (tx_bytes ps) \<le> unat dlen \<and>
           tx_bytes ps = take (length (tx_bytes ps)) (drop (unat off) (chain_bytes c)) \<and>
           t' = t\<lparr>snd_nxt := snd_nxt t'\<rparr> \<and>
           (sq = snd_nxt t \<longrightarrow> snd_nxt t' = sq + of_nat (length (tx_bytes ps))) \<and>
           (n \<noteq> 0 \<and> dlen \<noteq> 0 \<and> e_alloc_outcomes e = [] \<and> e_tx_outcomes e = [] \<longrightarrow> ps \<noteq> []) \<and>
           (tx_works e \<longrightarrow> length (tx_bytes ps) = min (unat dlen) (n * unat mtu))"
  using assms
proof (induction n arbitrary: c off dlen sq sent0 t e)
  case 0
  then show ?case by (auto simp: tx_bytes_def)
next
  case (Suc n)
  show ?case
  proof (cases "dlen = 0")
    case True
    with Suc.prems show ?thesis by (intro exI [of _ sent0] exI [of _ t] exI [of _ e] exI [of _ "[]"])
      (simp add: tx_bytes_def)
  next
    case False
    define l where "l = (if (ucast dlen :: u64) < TCB_MTU t e then dlen else ucast (TCB_MTU t e))"
    have "(ucast (ucast mtu :: u64) :: u32) = mtu"
      by (rule bit_word_eqI) (simp add: bit_simps)
    moreover have "(ucast dlen :: u64) < ucast mtu \<longleftrightarrow> dlen < mtu" by (simp add: word_less_nat_alt)
    ultimately have l: "l = min dlen mtu"
      unfolding l_def Suc.prems(6) by (auto simp: min_def)
    have l0: "l \<noteq> 0" using False Suc.prems(7) by (simp add: l min_def)
    have le: "unat l \<le> unat dlen" "unat l \<le> unat mtu" by (simp_all add: l min_def word_le_nat_alt)
    from send_segment [OF Suc.prems(1) _ l0 Suc.prems(5), of off t sq e] Suc.prems(4) le(1)
    obtain ok e1 ps1 where s: "tcp_data_send_segment t c l off sq fl e = Some (ok, e1)"
      "e_tx e1 = e_tx e @ ps1" "e_pi_mtu e1 = e_pi_mtu e"
      "tx_works e \<longrightarrow> tx_works e1"
      "if ok then \<exists>p. ps1 = [p] \<and> tx_seq p = sq \<and> tx_data p = take (unat l) (drop (unat off) (chain_bytes c))
       else ps1 = [] \<and> (e_alloc_outcomes e \<noteq> [] \<or> e_tx_outcomes e \<noteq> [])"
      by auto
    show ?thesis
    proof (cases ok)
      case False
      with s(5) have "\<not> tx_works e" by (simp add: tx_works_def)
      with False s \<open>dlen \<noteq> 0\<close> show ?thesis
        by (intro exI [of _ sent0] exI [of _ t] exI [of _ e1] exI [of _ "[]"])
          (simp add: tx_bytes_def l_def [symmetric] Let_def)
    next
      case True
      with s(5) obtain p where p: "ps1 = [p]" "tx_seq p = sq"
        "tx_data p = take (unat l) (drop (unat off) (chain_bytes c))" by auto
      have len: "length (tx_data p) = unat l" using p(3) Suc.prems(4) le(1) by simp
      from tcp_data_advance_bytes [OF Suc.prems(1,2,3), of l] Suc.prems(4) le(1)
      obtain c' off' left where a: "tcp_data_advance c off l = Some (c', off', left)" "chain_ok c'" "c' \<noteq> []"
        "unat (off' + left) \<le> length (mb_data (hd c'))"
        "drop (unat (off' + left)) (chain_bytes c') = drop (unat off + unat l) (chain_bytes c)" by auto
      define t1 where "t1 = (if sq = snd_nxt t then t\<lparr>snd_nxt := snd_nxt t + l\<rparr> else t)"
      have d: "unat (dlen - l) = unat dlen - unat l" using le(1) by (simp add: unat_sub word_le_nat_alt)
      have "length (chain_bytes c') - unat (off' + left) = length (chain_bytes c) - (unat off + unat l)"
        using arg_cong [OF a(5), of length] by simp
      moreover have "unat (off' + left) \<le> length (chain_bytes c')" using a(3,4) by (cases c') auto
      ultimately have b: "unat (off' + left) + unat (dlen - l) \<le> length (chain_bytes c')"
        using Suc.prems(4) le(1) d by simp
      have mtu': "TCB_MTU t1 e1 = ucast mtu" using Suc.prems(6) s(3) by (simp add: TCB_MTU_def t1_def)
      from Suc.IH [OF a(2,3,4) b Suc.prems(5) mtu' Suc.prems(7), of "sq + l" "sent0 + left"]
      obtain sent t' e' ps where r:
        "tcp_data_send_loop n c' (dlen - l) (off' + left) (sq + l) fl (sent0 + left) t1 e1 = Some (sent, t', e')"
        "e_tx e' = e_tx e1 @ ps" "length ps \<le> n" "seg_stream (unat mtu) (sq + l) ps"
        "length (tx_bytes ps) \<le> unat (dlen - l)"
        "tx_bytes ps = take (length (tx_bytes ps)) (drop (unat (off' + left)) (chain_bytes c'))"
        "t' = t1\<lparr>snd_nxt := snd_nxt t'\<rparr>"
        "sq + l = snd_nxt t1 \<longrightarrow> snd_nxt t' = sq + l + of_nat (length (tx_bytes ps))"
        "tx_works e1 \<longrightarrow> length (tx_bytes ps) = min (unat (dlen - l)) (n * unat mtu)" by blast
      have "tcp_data_send_loop (Suc n) c dlen off sq fl sent0 t e = Some (sent, t', e')"
        using r(1) s(1) a(1) True \<open>dlen \<noteq> 0\<close> by (simp add: l_def [symmetric] t1_def [symmetric] Let_def)
      moreover have "seg_stream (unat mtu) sq (p # ps)"
        using p(2) le(2) l0 r(4) by (simp add: len unat_gt_0)
      moreover have tb: "tx_bytes (p # ps) = tx_data p @ tx_bytes ps" by (simp add: tx_bytes_def)
      have "tx_bytes (p # ps) = take (length (tx_bytes (p # ps))) (drop (unat off) (chain_bytes c))"
      proof -
        have "tx_bytes ps = take (length (tx_bytes ps)) (drop (unat l) (drop (unat off) (chain_bytes c)))"
          using r(6) unfolding a(5) drop_drop add.commute [of "unat l"] .
        then show ?thesis unfolding tb length_append len by (subst take_add) (simp add: p(3))
      qed
      moreover have "t' = t\<lparr>snd_nxt := snd_nxt t'\<rparr>"
        by (rule trans [OF r(7)]) (simp add: t1_def)
      moreover have "sq = snd_nxt t \<longrightarrow> snd_nxt t' = sq + of_nat (length (tx_bytes (p # ps)))"
        using r(8) by (simp add: t1_def tb len add.assoc)
      moreover have "length (tx_bytes (p # ps)) \<le> unat dlen" using r(5) le(1) by (simp add: tb len d)
      moreover have "length (tx_bytes (p # ps)) = min (unat dlen) (Suc n * unat mtu)" if "tx_works e"
      proof -
        have "unat l = min (unat dlen) (unat mtu)" by (simp add: l min_def word_le_nat_alt)
        moreover have "length (tx_bytes ps) = min (unat dlen - unat l) (n * unat mtu)"
          using r(9) s(4) that d by simp
        moreover have "min a b + min (a - min a b) k = min a (b + k)" for a b k :: nat by arith
        ultimately show ?thesis by (simp add: tb len)
      qed
      ultimately show ?thesis using r(2,3) s(2) p(1)
        by (intro exI [of _ sent] exI [of _ t'] exI [of _ e'] exI [of _ "p # ps"]) simp
    qed
  qed
qed

subsection \<open>Sending as a whole\<close>

lemma snd_flags_no_iss:
  "((if a then RTE_TCP_PSH_FLAG else 0) OR (if b then RTE_TCP_URG_FLAG else 0)) AND TCP_BUILD_FLAG_USE_ISS = 0"
  "(RTE_TCP_ACK_FLAG OR ((if a then RTE_TCP_PSH_FLAG else 0) OR (if b then RTE_TCP_URG_FLAG else 0)))
     AND TCP_BUILD_FLAG_USE_ISS = 0"
  "RTE_TCP_ACK_FLAG AND TCP_BUILD_FLAG_USE_ISS = 0"
  by (cases a; cases b; simp add: tcp_flag_defs)+

text \<open>The segments sent for the unsent part of the queue, within a limit of \<open>dlen\<close> bytes.\<close>

lemma send_unsent:
  fixes mtu :: u32
  assumes "snd_wf t" and "flight t < length (snd_bytes t)" and "unat dlen \<le> length (snd_bytes t) - flight t"
    and "fl AND TCP_BUILD_FLAG_USE_ISS = 0" and "TCB_MTU t e = ucast mtu" and "mtu \<noteq> 0"
  shows "\<exists>c off sent t' e' ps. tcp_data_get_unsent t = Some (c, off) \<and>
           tcp_data_send_segments c dlen off (snd_nxt t) fl t e = Some (sent, t', e') \<and>
           e_tx e' = e_tx e @ ps \<and> length ps \<le> 2 \<and> seg_stream (unat mtu) (snd_nxt t) ps \<and>
           length (tx_bytes ps) \<le> unat dlen \<and>
           tx_bytes ps = take (length (tx_bytes ps)) (drop (flight t) (snd_bytes t)) \<and>
           t' = t\<lparr>snd_nxt := snd_nxt t + of_nat (length (tx_bytes ps))\<rparr> \<and>
           (dlen \<noteq> 0 \<and> e_alloc_outcomes e = [] \<and> e_tx_outcomes e = [] \<longrightarrow> ps \<noteq> []) \<and>
           (tx_works e \<longrightarrow> length (tx_bytes ps) = min (unat dlen) (2 * unat mtu))"
proof -
  from tcp_data_get_unsent_bytes [OF assms(1,2)] obtain m ms off where g:
    "tcp_data_get_unsent t = Some (m # ms, off)" "chain_ok (m # ms)" "unat off < length (mb_data m)"
    "drop (unat off) (chain_bytes (m # ms)) = drop (flight t) (snd_bytes t)" by blast
  have room: "unat off + unat dlen \<le> length (chain_bytes (m # ms))"
    using arg_cong [OF g(4), of length] g(3) assms(3) by simp
  have ne: "m # ms \<noteq> []" and off: "unat off \<le> length (mb_data (hd (m # ms)))" using g(3) by simp_all
  from send_loop [OF g(2) ne off room assms(4-6), of "Suc GCFG_TCP_SEGS_PER_SEND" "snd_nxt t" 0] obtain sent t' e' ps where r:
    "tcp_data_send_loop (Suc GCFG_TCP_SEGS_PER_SEND) (m # ms) dlen off (snd_nxt t) fl 0 t e = Some (sent, t', e')"
    "e_tx e' = e_tx e @ ps" "length ps \<le> Suc GCFG_TCP_SEGS_PER_SEND" "seg_stream (unat mtu) (snd_nxt t) ps"
    "length (tx_bytes ps) \<le> unat dlen"
    "tx_bytes ps = take (length (tx_bytes ps)) (drop (unat off) (chain_bytes (m # ms)))"
    "t' = t\<lparr>snd_nxt := snd_nxt t'\<rparr>" "snd_nxt t = snd_nxt t \<longrightarrow> snd_nxt t' = snd_nxt t + of_nat (length (tx_bytes ps))"
    "Suc GCFG_TCP_SEGS_PER_SEND \<noteq> 0 \<and> dlen \<noteq> 0 \<and> e_alloc_outcomes e = [] \<and> e_tx_outcomes e = [] \<longrightarrow> ps \<noteq> []"
    "tx_works e \<longrightarrow> length (tx_bytes ps) = min (unat dlen) (Suc GCFG_TCP_SEGS_PER_SEND * unat mtu)"
    by blast
  have "t' = t\<lparr>snd_nxt := snd_nxt t + of_nat (length (tx_bytes ps))\<rparr>" using r(7,8) by metis
  then show ?thesis
    using r g(1) unfolding g(4) tcp_data_send_segments_def
    by (intro exI [of _ "m # ms"] exI [of _ off] exI [of _ sent] exI [of _ t'] exI [of _ e'] exI [of _ ps])
      (simp add: GCFG_TCP_SEGS_PER_SEND_def mult_2 del: tcp_data_send_loop.simps)
qed

lemma snd_wf_nxt: "snd_wf (t\<lparr>snd_nxt := n\<rparr>) = snd_wf t" "snd_bytes (t\<lparr>snd_nxt := n\<rparr>) = snd_bytes t"
  by (simp_all add: snd_wf_def snd_bytes_def)

lemma flight_advance:
  "flight t + n < 4294967296 \<Longrightarrow> flight (t\<lparr>snd_nxt := snd_nxt t + of_nat n\<rparr>) = flight t + n"
proof -
  assume a: "flight t + n < 4294967296"
  have eq: "snd_nxt t + of_nat n - snd_una t = (snd_nxt t - snd_una t) + of_nat n" by simp
  from a have "n < 4294967296" "unat (of_nat n :: u32) = n"
    by (simp_all add: unat_of_nat take_bit_nat_eq_self)
  with a show ?thesis by (simp add: flight_def eq unat_word_ariths)
qed

subsection \<open>Properties\<close>

text \<open>
  C9: What the application sends is appended to the send queue, and what goes out is the next part of the queue: in
  order, under consecutive sequence numbers, in at most two segments of at most the MTU. How much goes out is exact
  when buffers are found and packets are sent: nothing when the unsent bytes are fewer than an MTU and the application
  does not push; otherwise the unsent bytes, as far as the room in the window of the peer and two segments allow. The
  bytes in flight stay inside the window whenever they were inside; when the peer has shrunk the window below them, the
  room is the difference wrapped around \<open>2 ^ 32\<close>, so that sending goes on beyond the window
  (\<open>send_beyond_shrunk_window\<close>).
\<close>

theorem send_in_order_in_window:
  fixes mtu :: u32
  assumes "snd_wf t" and "pkt_wf (tda_mbuf data)" and "chain_bytes (tda_mbuf data) \<noteq> []"
    and "ucast (mb_pkt_len (hd (tda_mbuf data))) \<le> TCB_AVAIL_SEND t e"
    and "tda_data_len data = mb_pkt_len (hd (tda_mbuf data))"
    and "flight t \<le> length (snd_bytes t)"
    and "TCB_MTU t e = ucast mtu" and "mtu \<noteq> 0"
  shows "\<exists>t' e' ps. tcp_data_send data t e = Some (0, t', e') \<and> e_data_sent e' = tda_data_len data \<and>
           snd_wf t' \<and> snd_bytes t' = snd_bytes t @ chain_bytes (tda_mbuf data) \<and>
           e_tx e' = e_tx e @ ps \<and> length ps \<le> 2 \<and> seg_stream (unat mtu) (snd_nxt t) ps \<and>
           tx_bytes ps = take (length (tx_bytes ps)) (drop (flight t) (snd_bytes t')) \<and>
           flight t' = flight t + length (tx_bytes ps) \<and>
           (tx_works e \<longrightarrow>
              (let unsent = length (snd_bytes t') - flight t; room = unat (snd_wnd t - (snd_nxt t - snd_una t))
               in length (tx_bytes ps) = (if \<not> tda_push data \<and> unsent < unat mtu then 0
                                          else min (min unsent room) (2 * unat mtu)))) \<and>
           (flight t \<le> unat (snd_wnd t) \<longrightarrow> flight t' \<le> unat (snd_wnd t))"
proof -
  let ?e = "e\<lparr>e_data_sent := 0\<rparr>" and ?fl = "(if tda_push data then RTE_TCP_PSH_FLAG else 0)
                         OR (if tda_urg data then RTE_TCP_URG_FLAG else 0)"
  from tcp_data_store_send_ok [OF assms(1,2), of ?e] assms(4) obtain t1 where s:
    "tcp_data_store_send t data ?e = Some (of_nat (length (chain_bytes (tda_mbuf data))), t1)" "snd_wf t1"
    "snd_bytes t1 = snd_bytes t @ chain_bytes (tda_mbuf data)"
    "t1 = t\<lparr>tr_data_mbufs := tr_data_mbufs t1, tr_last_set := True, tr_total_size := tr_total_size t1\<rparr>"
    by (auto simp: TCB_AVAIL_SEND_def TCB_MTU_def)
  have same: "snd_nxt t1 = snd_nxt t" "snd_una t1 = snd_una t" "snd_wnd t1 = snd_wnd t"
    "l4cb_interface t1 = l4cb_interface t" "l4cb_sockopt t1 = l4cb_sockopt t"
    by (subst s(4), simp)+
  then have fl: "flight t1 = flight t" by (simp add: flight_def)
  have mtu: "TCB_MTU t1 ?e = ucast mtu" using assms(7) by (simp add: TCB_MTU_def same)
  have len: "of_nat (length (chain_bytes (tda_mbuf data))) = tda_data_len data"
    using assms(2,5) by (simp add: pkt_wf_def)
  have ne: "tda_data_len data \<noteq> 0"
    using assms(2,3) chain_ok_len [of "tda_mbuf data"] by (auto simp: len [symmetric] pkt_wf_def)
  have "0 < length (chain_bytes (tda_mbuf data))" using assms(3) by simp
  then have less: "flight t1 < length (snd_bytes t1)" using assms(6) unfolding fl s(3) length_append by linarith
  from tcp_data_get_unsent_bytes [OF s(2) less]
  have un: "unat (tcp_data_get_unsent_size t1) = length (snd_bytes t1) - flight t1" by blast
  have lt: "length (snd_bytes t1) < 4294967296"
    using s(2) unat_u32_less [of "tr_total_size t1"] by (simp add: snd_wf_def)
  have nagle: "ucast (tcp_data_get_unsent_size t1) < TCB_MTU t1 ?e \<longleftrightarrow> length (snd_bytes t1) - flight t1 < unat mtu"
    using un by (simp add: mtu word_less_nat_alt)
  show ?thesis
  proof (cases "\<not> tda_push data \<and> ucast (tcp_data_get_unsent_size t1) < TCB_MTU t1 ?e")
    case True
    then have "tcp_data_send data t e = Some (0, t1, ?e\<lparr>e_data_sent := tda_data_len data\<rparr>)"
      using ne by (simp add: tcp_data_send_def s(1) len Let_def)
    with s(2,3) True show ?thesis unfolding nagle
      by (intro exI [of _ t1] exI [of _ "?e\<lparr>e_data_sent := tda_data_len data\<rparr>"] exI [of _ "[]"])
        (simp add: fl same tx_bytes_def)
  next
    case False
    let ?d = "min (tcp_data_get_unsent_size t1) (SEG_DIFF (snd_wnd t1) (SEG_DIFF (snd_nxt t1) (snd_una t1)))"
    let ?room = "unat (snd_wnd t - (snd_nxt t - snd_una t))"
    have w: "?room = unat (snd_wnd t) - flight t" if "flight t \<le> unat (snd_wnd t)"
      using that by (simp add: unat_sub word_le_nat_alt flight_def)
    have d: "unat ?d = min (length (snd_bytes t1) - flight t1) ?room"
      using un by (auto simp: min_def SEG_DIFF_def word_le_nat_alt same)
    then have d1: "unat ?d \<le> length (snd_bytes t1) - flight t1" by simp
    from send_unsent [OF s(2) less d1 snd_flags_no_iss(2) mtu assms(8), of "tda_push data" "tda_urg data"]
    obtain c off sent t' e' ps where r: "tcp_data_get_unsent t1 = Some (c, off)"
      "tcp_data_send_segments c ?d off (snd_nxt t1) (RTE_TCP_ACK_FLAG OR ?fl) t1 ?e = Some (sent, t', e')"
      "e_tx e' = e_tx ?e @ ps" "length ps \<le> 2" "seg_stream (unat mtu) (snd_nxt t1) ps"
      "length (tx_bytes ps) \<le> unat ?d"
      "tx_bytes ps = take (length (tx_bytes ps)) (drop (flight t1) (snd_bytes t1))"
      "t' = t1\<lparr>snd_nxt := snd_nxt t1 + of_nat (length (tx_bytes ps))\<rparr>"
      "tx_works ?e \<longrightarrow> length (tx_bytes ps) = min (unat ?d) (2 * unat mtu)" by blast
    have send: "tcp_data_send data t e = Some (0, t', e'\<lparr>e_data_sent := tda_data_len data\<rparr>)"
      using False ne r(1,2) by (auto simp: tcp_data_send_def s(1) len Let_def)
    have "flight t + length (tx_bytes ps) < 4294967296" using r(6) d1 less lt by (simp add: fl)
    then have fl': "flight t' = flight t + length (tx_bytes ps)"
      unfolding r(8) using flight_advance [of t1 "length (tx_bytes ps)"] by (simp add: fl)
    have same': "snd_wf t'" "snd_bytes t' = snd_bytes t1" using s(2) by (simp_all add: r(8) snd_wf_nxt)
    have exact: "length (tx_bytes ps) = (if \<not> tda_push data \<and> length (snd_bytes t') - flight t < unat mtu then 0
         else min (min (length (snd_bytes t') - flight t) ?room) (2 * unat mtu))" if "tx_works e"
    proof -
      have "tx_works ?e" using that by (simp add: tx_works_def)
      with r(9) False show ?thesis unfolding nagle d same'(2) fl by auto
    qed
    have inside: "flight t' \<le> unat (snd_wnd t)" if "flight t \<le> unat (snd_wnd t)"
      using r(6) w [OF that] that unfolding fl' d by arith
    from send same' s(3) fl' exact inside r(3-5,7) show ?thesis unfolding Let_def
      by (intro exI [of _ t'] exI [of _ "e'\<lparr>e_data_sent := tda_data_len data\<rparr>"] exI [of _ ps] conjI)
        (simp_all add: fl same)
  qed
qed

definition ex_data :: tsm_data_arg where
  "ex_data = \<lparr>tda_mbuf = ex_chain, tda_data_len = 5, tda_push = True, tda_urg = False\<rparr>"

definition ex_snd_tcb :: "unit tcb" where
  "ex_snd_tcb = (ex_tcb TS_ESTABLISHED TSTS_CL_SENDING)
     \<lparr>tr_data_mbufs := [\<lparr>mb_data = [8, 9], mb_pkt_len = 2, mb_nb_segs = 1\<rparr>], tr_last_set := True,
      tr_total_size := 2, snd_nxt := 103\<rparr>"

definition ex_snd_env :: "unit env" where
  "ex_snd_env = ex_env ex_snd_tcb (ex_pcb (ex_hdr 0x10 501 101) [])"

lemma ex_snd_simps [simp]:
  "snd_wf ex_snd_tcb" "snd_bytes ex_snd_tcb = [8, 9]" "flight ex_snd_tcb = 2" "snd_wnd ex_snd_tcb = 1000"
  "snd_nxt ex_snd_tcb = 103" "TCB_MTU ex_snd_tcb ex_snd_env = ucast (1442 :: u32)"
  "e_tx ex_snd_env = []" "tda_mbuf ex_data = ex_chain" "tda_data_len ex_data = 5"
  "pkt_wf ex_chain" "chain_bytes ex_chain = [1, 2, 3, 4, 5]" "mb_pkt_len (hd ex_chain) = 5"
  "TCB_AVAIL_SEND ex_snd_tcb ex_snd_env = 998"
  by (simp_all add: ex_snd_tcb_def ex_snd_env_def ex_env_def snd_wf_def snd_bytes_def flight_def ex_tcb_def
      ex_sockopt_def zero_tcb_def TCB_MTU_def TCB_MIN_HDRS_SZ_def TCB_AVAIL_SEND_def Let_def
      GCFG_TCP_SEGS_PER_SEND_def chain_ok_def mbuf_ok_def ex_data_def ex_chain_wf)
    (simp_all add: ex_chain_def)

theorem send_in_order_in_window_witness:
  "\<exists>t' e' ps. tcp_data_send ex_data ex_snd_tcb ex_snd_env = Some (0, t', e') \<and>
     snd_bytes t' = [8, 9, 1, 2, 3, 4, 5] \<and> e_tx e' = ps \<and> seg_stream 1442 103 ps \<and> tx_bytes ps = [1, 2, 3, 4, 5] \<and>
     flight t' = 7"
proof -
  have w: "tx_works ex_snd_env" and p: "tda_push ex_data" and u: "snd_una ex_snd_tcb = 101"
    by (simp_all add: tx_works_def ex_snd_env_def ex_env_def ex_data_def ex_snd_tcb_def ex_tcb_def)
  obtain t' e' ps where r: "tcp_data_send ex_data ex_snd_tcb ex_snd_env = Some (0, t', e')"
    "snd_bytes t' = [8, 9, 1, 2, 3, 4, 5]" "e_tx e' = ps" "seg_stream 1442 103 ps"
    "tx_bytes ps = take (length (tx_bytes ps)) [1, 2, 3, 4, 5]" "flight t' = 2 + length (tx_bytes ps)"
    "length (tx_bytes ps) = 5"
    using send_in_order_in_window [of ex_snd_tcb ex_data ex_snd_env 1442] w p u by (auto simp: Let_def)
  from r(5) have "tx_bytes ps = [1, 2, 3, 4, 5]" unfolding r(7) by simp
  with r show ?thesis by auto
qed

text \<open>
  A retransmission sends the beginning of the queue again, from the oldest unacknowledged byte on, in
  order and inside the window of the peer, and takes nothing out of the queue.
\<close>

theorem retrans_resends_oldest:
  fixes mtu :: u32
  assumes "snd_wf t" and "snd_bytes t \<noteq> []" and "TCB_MTU t e = ucast mtu" and "mtu \<noteq> 0"
  shows "\<exists>n t' e' ps. tcp_data_retrans t e = Some (n, t', e') \<and>
           e_tx e' = e_tx e @ ps \<and> length ps \<le> 2 \<and> seg_stream (unat mtu) (snd_una t) ps \<and>
           tx_bytes ps = take (length (tx_bytes ps)) (snd_bytes t) \<and>
           length (tx_bytes ps) \<le> unat (snd_wnd t) \<and> snd_bytes t' = snd_bytes t \<and> snd_una t' = snd_una t \<and>
           (snd_wnd t \<noteq> 0 \<and> e_alloc_outcomes e = [] \<and> e_tx_outcomes e = [] \<longrightarrow> ps \<noteq> [])"
proof -
  let ?c = "tr_data_mbufs t" and ?d = "min (tr_total_size t) (snd_wnd t)"
  have q: "chain_ok ?c" "unat (tr_total_size t) = length (snd_bytes t)" using assms(1) by (simp_all add: snd_wf_def)
  have c: "?c \<noteq> []" using assms(2) by (auto simp: snd_bytes_def)
  have room: "unat (0 :: u32) + unat ?d \<le> length (chain_bytes ?c)"
    using q(2) by (simp add: snd_bytes_def min_def word_le_nat_alt)
  have d: "unat ?d \<le> unat (snd_wnd t)" by (simp add: min_def word_le_nat_alt)
  have "tr_total_size t \<noteq> 0" using q(2) assms(2) by auto
  then have d0: "?d \<noteq> 0 \<longleftrightarrow> snd_wnd t \<noteq> 0" by (auto simp: min_def)
  have off: "unat (0 :: u32) \<le> length (mb_data (hd ?c))" by simp
  from send_loop [OF q(1) c off room snd_flags_no_iss(3) assms(3,4), of "Suc GCFG_TCP_SEGS_PER_SEND" "snd_una t" 0]
  obtain n t' e' ps where r:
    "tcp_data_send_loop (Suc GCFG_TCP_SEGS_PER_SEND) ?c ?d 0 (snd_una t) RTE_TCP_ACK_FLAG 0 t e = Some (n, t', e')"
    "e_tx e' = e_tx e @ ps" "length ps \<le> Suc GCFG_TCP_SEGS_PER_SEND" "seg_stream (unat mtu) (snd_una t) ps"
    "length (tx_bytes ps) \<le> unat ?d"
    "tx_bytes ps = take (length (tx_bytes ps)) (drop (unat (0 :: u32)) (chain_bytes ?c))"
    "t' = t\<lparr>snd_nxt := snd_nxt t'\<rparr>"
    "Suc GCFG_TCP_SEGS_PER_SEND \<noteq> 0 \<and> ?d \<noteq> 0 \<and> e_alloc_outcomes e = [] \<and> e_tx_outcomes e = [] \<longrightarrow> ps \<noteq> []"
    by blast
  have "snd_bytes t' = snd_bytes t" "snd_una t' = snd_una t"
    by (subst r(7), simp add: snd_bytes_def)+
  moreover have "tcp_data_retrans t e = Some (n, t', e')"
    using r(1) c by (simp add: tcp_data_retrans_def tcp_data_send_segments_def del: tcp_data_send_loop.simps)
  moreover have "length (tx_bytes ps) \<le> unat (snd_wnd t)" using r(5) d by (rule order_trans)
  ultimately show ?thesis using r(2-4,6,8) d0
    by (intro exI [of _ n] exI [of _ t'] exI [of _ e'] exI [of _ ps])
      (simp add: GCFG_TCP_SEGS_PER_SEND_def snd_bytes_def)
qed

theorem retrans_resends_oldest_witness:
  "\<exists>n t' e' ps. tcp_data_retrans ex_snd_tcb ex_snd_env = Some (n, t', e') \<and> e_tx e' = ps \<and>
     seg_stream 1442 101 ps \<and> tx_bytes ps = take (length (tx_bytes ps)) [8, 9]"
proof -
  have "snd_una ex_snd_tcb = 101" by (simp add: ex_snd_tcb_def ex_tcb_def)
  with retrans_resends_oldest [of ex_snd_tcb ex_snd_env 1442] show ?thesis by auto
qed

text \<open>
  When the peer shrinks its window below what is in flight, the room in the window is computed as a huge number
  and the code goes on sending beyond the window: with nothing failing, at least one segment at
  \<open>SND.NXT\<close> goes out although the window ends before.
\<close>

theorem send_beyond_shrunk_window:
  fixes mtu :: u32
  assumes "snd_wf t" and "pkt_wf (tda_mbuf data)" and "chain_bytes (tda_mbuf data) \<noteq> []"
    and "ucast (mb_pkt_len (hd (tda_mbuf data))) \<le> TCB_AVAIL_SEND t e"
    and "flight t \<le> length (snd_bytes t)" and "unat (snd_wnd t) < flight t"
    and "TCB_MTU t e = ucast mtu" and "mtu \<noteq> 0"
    and "tda_push data" and "e_alloc_outcomes e = []" and "e_tx_outcomes e = []"
  shows "\<exists>r t' e' p ps. tcp_data_send data t e = Some (r, t', e') \<and> e_tx e' = e_tx e @ p # ps \<and>
           tx_seq p = snd_nxt t \<and> tx_data p \<noteq> []"
proof -
  let ?e = "e\<lparr>e_data_sent := 0\<rparr>" and ?fl = "(if tda_push data then RTE_TCP_PSH_FLAG else 0)
                         OR (if tda_urg data then RTE_TCP_URG_FLAG else 0)"
  from tcp_data_store_send_ok [OF assms(1,2), of ?e] assms(4) obtain t1 where s:
    "tcp_data_store_send t data ?e = Some (of_nat (length (chain_bytes (tda_mbuf data))), t1)" "snd_wf t1"
    "snd_bytes t1 = snd_bytes t @ chain_bytes (tda_mbuf data)"
    "t1 = t\<lparr>tr_data_mbufs := tr_data_mbufs t1, tr_last_set := True, tr_total_size := tr_total_size t1\<rparr>"
    by (auto simp: TCB_AVAIL_SEND_def TCB_MTU_def)
  have same: "snd_nxt t1 = snd_nxt t" "snd_una t1 = snd_una t" "snd_wnd t1 = snd_wnd t"
    "l4cb_interface t1 = l4cb_interface t" "l4cb_sockopt t1 = l4cb_sockopt t"
    by (subst s(4), simp)+
  then have fl: "flight t1 = flight t" by (simp add: flight_def)
  have mtu: "TCB_MTU t1 ?e = ucast mtu" using assms(7) by (simp add: TCB_MTU_def same)
  have ne: "of_nat (length (chain_bytes (tda_mbuf data))) \<noteq> (0 :: u32)"
    using assms(2,3) chain_ok_len [of "tda_mbuf data"] by (auto simp: pkt_wf_def)
  have "0 < length (chain_bytes (tda_mbuf data))" using assms(3) by simp
  then have less: "flight t1 < length (snd_bytes t1)" using assms(5) unfolding fl s(3) length_append by linarith
  from tcp_data_get_unsent_bytes [OF s(2) less]
  have un: "unat (tcp_data_get_unsent_size t1) = length (snd_bytes t1) - flight t1" by blast
  let ?d = "min (tcp_data_get_unsent_size t1) (SEG_DIFF (snd_wnd t1) (SEG_DIFF (snd_nxt t1) (snd_una t1)))"
  have d: "unat ?d \<le> length (snd_bytes t1) - flight t1" using un by (auto simp: min_def word_le_nat_alt)
  have "tcp_data_get_unsent_size t1 \<noteq> 0" using un less by auto
  moreover have "snd_wnd t \<noteq> snd_nxt t - snd_una t" using assms(6) by (auto simp: flight_def)
  ultimately have d0: "?d \<noteq> 0" by (auto simp: min_def SEG_DIFF_def same)
  from send_unsent [OF s(2) less d snd_flags_no_iss(2) mtu assms(8), of "tda_push data" "tda_urg data"]
  obtain c off sent t' e' ps where r: "tcp_data_get_unsent t1 = Some (c, off)"
    "tcp_data_send_segments c ?d off (snd_nxt t1) (RTE_TCP_ACK_FLAG OR ?fl) t1 ?e = Some (sent, t', e')"
    "e_tx e' = e_tx ?e @ ps" "seg_stream (unat mtu) (snd_nxt t1) ps"
    "?d \<noteq> 0 \<and> e_alloc_outcomes ?e = [] \<and> e_tx_outcomes ?e = [] \<longrightarrow> ps \<noteq> []" by blast
  with d0 assms(10,11) obtain p qs where ps: "ps = p # qs" by (cases ps) auto
  have "\<exists>x y. tcp_data_send data t e = Some (x, t', e'\<lparr>e_data_sent := y\<rparr>)"
  proof (cases "tda_data_len data = of_nat (length (chain_bytes (tda_mbuf data)))")
    case True
    then show ?thesis using ne r(1,2) assms(9) by (auto simp: tcp_data_send_def s(1) Let_def)
  next
    case False
    then have "tcp_data_send data t e = Some (- EAGAIN, t', e')"
      using ne r(1,2) assms(9) by (auto simp: tcp_data_send_def s(1) Let_def)
    moreover have "e' = e'\<lparr>e_data_sent := e_data_sent e'\<rparr>" by simp
    ultimately show ?thesis by metis
  qed
  then show ?thesis using r(3,4) by (auto simp: ps same)
qed

theorem send_beyond_shrunk_window_witness:
  "\<exists>r t' e' p ps. tcp_data_send ex_data (ex_snd_tcb\<lparr>snd_wnd := 0\<rparr>) ex_snd_env = Some (r, t', e') \<and>
     e_tx e' = p # ps \<and> tx_seq p = 103"
proof -
  have "snd_wf (ex_snd_tcb\<lparr>snd_wnd := 0\<rparr>)" "flight (ex_snd_tcb\<lparr>snd_wnd := 0\<rparr>) = 2"
    "snd_bytes (ex_snd_tcb\<lparr>snd_wnd := 0\<rparr>) = [8, 9]" "TCB_AVAIL_SEND (ex_snd_tcb\<lparr>snd_wnd := 0\<rparr>) ex_snd_env = 998"
    "TCB_MTU (ex_snd_tcb\<lparr>snd_wnd := 0\<rparr>) ex_snd_env = ucast (1442 :: u32)"
    using ex_snd_simps by (simp_all add: snd_wf_def snd_bytes_def flight_def TCB_AVAIL_SEND_def TCB_MTU_def)
  moreover have "tda_push ex_data" "e_alloc_outcomes ex_snd_env = []" "e_tx_outcomes ex_snd_env = []"
    by (simp_all add: ex_data_def ex_snd_env_def ex_env_def)
  ultimately show ?thesis
    using send_beyond_shrunk_window [of "ex_snd_tcb\<lparr>snd_wnd := 0\<rparr>" ex_data ex_snd_env 1442] by auto
qed

text \<open>
  The length that sending reports is too small when a segment spans two buffers: here five bytes go
  out and three are reported, the number the retransmission statistics are increased by.
\<close>

lemma send_undercounts:
  "\<exists>t' e'. tcp_data_send_segments ex_chain 5 0 101 RTE_TCP_ACK_FLAG (ex_tcb TS_ESTABLISHED TSTS_CL_SENDING)
      (ex_env (ex_tcb TS_ESTABLISHED TSTS_CL_SENDING) (ex_pcb (ex_hdr 0x10 501 101) [])) = Some (3, t', e') \<and>
     tx_bytes (e_tx e') = [1, 2, 3, 4, 5]"
proof -
  have "case tcp_data_send_segments ex_chain 5 0 101 RTE_TCP_ACK_FLAG (ex_tcb TS_ESTABLISHED TSTS_CL_SENDING)
      (ex_env (ex_tcb TS_ESTABLISHED TSTS_CL_SENDING) (ex_pcb (ex_hdr 0x10 501 101) [])) of
      None \<Rightarrow> False | Some (n, t', e') \<Rightarrow> n = 3 \<and> tx_bytes (e_tx e') = [1, 2, 3, 4, 5]"
    by code_simp
  then show ?thesis by (auto split: option.splits)
qed

end
