(* ===== verification/TcpRcvProps.thy ===== *)
theory TcpRcvProps
  imports TcpData Examples
begin

text \<open>
  The reassembly of the received stream. The peer sends the bytes \<open>S 0, S 1, ...\<close>, byte \<open>k\<close> under the
  sequence number \<open>s0 + k\<close>. The list of received segments represents the set of the positions received
  and not delivered yet; a segment adds its positions to the set, and the application is given
  the positions up to the first one that is missing.
\<close>

subsection \<open>What the list of received segments represents\<close>

definition seg_holds :: "(nat \<Rightarrow> u8) \<Rightarrow> u32 \<Rightarrow> tcb_buf_hdr \<Rightarrow> nat \<Rightarrow> nat \<Rightarrow> bool" where
  "seg_holds S s0 h a b \<longleftrightarrow>
     tbh_seg_seq h = s0 + of_nat a \<and> a < b \<and> pkt_wf (tbh_mbuf h) \<and>
     mb_data (hd (tbh_mbuf h)) \<noteq> [] \<and> chain_bytes (tbh_mbuf h) = map S [a..<b]"

inductive rcv_ok :: "(nat \<Rightarrow> u8) \<Rightarrow> u32 \<Rightarrow> nat \<Rightarrow> nat \<Rightarrow> tcb_buf_hdr list \<Rightarrow> nat set \<Rightarrow> bool"
  for S s0 hi where
  rcv_Nil: "lo \<le> hi \<Longrightarrow> rcv_ok S s0 hi lo [] {}"
| rcv_Cons: "lo \<le> a \<Longrightarrow> seg_holds S s0 h a b \<Longrightarrow> rcv_ok S s0 hi b hs R \<Longrightarrow>
     rcv_ok S s0 hi lo (h # hs) ({a..<b} \<union> R)"

inductive_cases rcv_ConsE: "rcv_ok S s0 hi lo (h # hs) R"
inductive_cases rcv_NilE: "rcv_ok S s0 hi lo [] R"

text \<open>Sequence numbers less than \<open>2^31\<close> apart compare as their positions do.\<close>

lemma seq_diff:
  fixes s0 :: u32
  assumes "x \<le> y" and "y < x + 2 ^ 31"
  shows "unat ((s0 + of_nat y) - (s0 + of_nat x)) = y - x"
proof -
  have "(s0 + of_nat y) - (s0 + of_nat x) = of_nat (y - x)" using assms(1) by (simp add: of_nat_diff)
  moreover have "unat (of_nat (y - x) :: u32) = y - x" using assms by (intro unat_of_nat_small) simp
  ultimately show ?thesis by simp
qed

lemma seq_lt:
  assumes "x < y + 2 ^ 31" and "y < x + 2 ^ 31"
  shows "SEG_LT (s0 + of_nat x) (s0 + of_nat y) \<longleftrightarrow> x < y"
proof (cases "x \<le> y")
  case True
  with assms seq_diff [of x y s0] show ?thesis unfolding SEG_LT_dist by auto
next
  case False
  let ?u = "(s0 + of_nat x) - (s0 + of_nat y) :: u32"
  have "unat ?u = x - y" using False assms by (intro seq_diff) simp_all
  moreover have "(s0 + of_nat y) - (s0 + of_nat x) = 0 - ?u" by simp
  then have "unat ((s0 + of_nat y) - (s0 + of_nat x)) = unat (0 - ?u)" by (rule arg_cong)
  ultimately show ?thesis using False assms unat_sub_if_word [of 0 ?u] unfolding SEG_LT_dist by simp
qed

lemma seq_eq:
  fixes s0 :: u32
  assumes "x < y + 2 ^ 31" and "y < x + 2 ^ 31"
  shows "s0 + of_nat x = s0 + of_nat y \<longleftrightarrow> x = y"
proof
  assume e: "s0 + of_nat x = s0 + of_nat y"
  then have "\<not> SEG_LT (s0 + of_nat x) (s0 + of_nat y)" "\<not> SEG_LT (s0 + of_nat y) (s0 + of_nat x)"
    by (simp_all add: SEG_LT_dist)
  then show "x = y" using seq_lt [OF assms, of s0] seq_lt [OF assms(2,1), of s0] by simp
qed simp

lemma SEG_cases: "a = b \<or> SEG_LT a b \<or> SEG_LT b a"
proof (cases "a = b")
  case False
  have "b - a = 0 - (a - b)" by simp
  then have "unat (b - a) = unat (0 - (a - b))" by (rule arg_cong)
  moreover have "0 < unat (a - b)" using False by (auto simp: unat_gt_0)
  ultimately show ?thesis
    using unat_sub_if_word [of 0 "a - b"] unat_u32_less [of "a - b"] by (auto simp: SEG_LT_dist)
qed simp

lemma seq_cmp:
  assumes "x < y + 2 ^ 31" and "y < x + 2 ^ 31"
  shows "SEG_LT (s0 + of_nat x) (s0 + of_nat y) \<longleftrightarrow> x < y" "SEG_LE (s0 + of_nat x) (s0 + of_nat y) \<longleftrightarrow> x \<le> y"
    "SEG_GT (s0 + of_nat x) (s0 + of_nat y) \<longleftrightarrow> y < x" "SEG_GE (s0 + of_nat x) (s0 + of_nat y) \<longleftrightarrow> y \<le> x"
    "SEG_EQ (s0 + of_nat x) (s0 + of_nat y) \<longleftrightarrow> x = y"
  unfolding SEG_LE_def SEG_GT_def SEG_GE_def SEG_EQ_def
  using seq_lt [OF assms] seq_lt [OF assms(2,1)] seq_eq [OF assms, of s0] seq_eq [OF assms(2,1), of s0]
  by auto

lemma holds_end: "seg_holds S s0 h a b \<Longrightarrow> tbh_end h = s0 + of_nat b"
  by (cases "tbh_mbuf h")
    (auto simp: seg_holds_def tbh_end_def chain_pkt_len_def pkt_wf_def of_nat_diff simp del: chain_bytes_simps(2))

lemma holds_len: "seg_holds S s0 h a b \<Longrightarrow> chain_pkt_len (tbh_mbuf h) = of_nat (b - a)"
  by (cases "tbh_mbuf h")
    (auto simp: seg_holds_def chain_pkt_len_def pkt_wf_def simp del: chain_bytes_simps(2))

lemma rcv_ok_le: "rcv_ok S s0 hi lo hs R \<Longrightarrow> lo \<le> hi"
  by (induction rule: rcv_ok.induct) (auto simp: seg_holds_def)

lemma rcv_ok_lo: "rcv_ok S s0 hi lo hs R \<Longrightarrow> lo' \<le> lo \<Longrightarrow> rcv_ok S s0 hi lo' hs R"
  by (erule rcv_ok.cases) (auto intro: rcv_ok.intros)

lemma rcv_ok_hi: "rcv_ok S s0 hi lo hs R \<Longrightarrow> hi \<le> hi' \<Longrightarrow> rcv_ok S s0 hi' lo hs R"
  by (induction rule: rcv_ok.induct) (auto intro: rcv_ok.intros)

lemma rcv_ok_bounds: "rcv_ok S s0 hi lo hs R \<Longrightarrow> R \<subseteq> {lo..<hi}"
  by (induction rule: rcv_ok.induct) (force simp: seg_holds_def dest: rcv_ok_le)+


subsection \<open>Adjusting and merging\<close>

lemma adj_single:
  assumes adj: "rte_pktmbuf_adj_spec adj" and m: "mbuf_ok m" and d: "d < length (mb_data m)"
  shows "adj_nonempty adj [m] (of_nat d) =
           Some [m\<lparr>mb_data := drop d (mb_data m), mb_pkt_len := mb_pkt_len m - of_nat d\<rparr>]"
proof -
  have lt: "d < 65536" using d m by (simp add: mbuf_ok_def)
  then have u: "unat (of_nat d :: u32) = d" by (intro unat_of_nat_small) simp
  then have w: "unat (ucast (of_nat d :: u32) :: u16) = d" using lt by (simp only: ucast16_unat)
  have v: "ucast (ucast (of_nat d :: u32) :: u16) = (of_nat d :: u32)" using u lt by (simp only: ucast_u16_u32)
  have "mbuf_ok (m\<lparr>mb_data := drop d (mb_data m), mb_pkt_len := l\<rparr>)" for l
    using m by (simp add: mbuf_ok_def)
  from data_len_eq_0 [OF this] have "data_len (m\<lparr>mb_data := drop d (mb_data m), mb_pkt_len := l\<rparr>) \<noteq> 0" for l
    using d by simp
  with adj d w v show ?thesis
    by (simp add: adj_nonempty_def data_adj_chain_def rte_pktmbuf_adj_spec_def Let_def)
qed

lemma adj_zero:
  assumes "rte_pktmbuf_adj_spec adj" and "pkt_wf c" and "mb_data (hd c) \<noteq> []"
  shows "adj_nonempty adj c 0 = Some c"
proof -
  obtain m r where c: "c = m # r" using assms(2) by (cases c) (auto simp: pkt_wf_def)
  with assms(2) have "mbuf_ok m" by (auto simp: pkt_wf_def dest: chain_ok_ConsD)
  then have "data_len m \<noteq> 0" using data_len_eq_0 assms(3) c by auto
  moreover have "adj c 0 = Some c" using assms(1) by (simp add: rte_pktmbuf_adj_spec_def c)
  ultimately show ?thesis by (simp add: adj_nonempty_def data_adj_chain_def c)
qed

text \<open>A segment in one buffer, as it comes from the network.\<close>

definition single_holds :: "(nat \<Rightarrow> u8) \<Rightarrow> u32 \<Rightarrow> tcb_buf_hdr \<Rightarrow> nat \<Rightarrow> nat \<Rightarrow> bool" where
  "single_holds S s0 h a b \<longleftrightarrow> seg_holds S s0 h a b \<and> length (tbh_mbuf h) = 1"

lemma single_adj:
  assumes "rte_pktmbuf_adj_spec adj" and "single_holds S s0 h a b" and "a \<le> c" and "c < b"
  shows "\<exists>m. adj_nonempty adj (tbh_mbuf h) (of_nat c - of_nat a) = Some m \<and>
           single_holds S s0 (h\<lparr>tbh_mbuf := m, tbh_seg_seq := s0 + of_nat c\<rparr>) c b"
proof -
  obtain m where m: "tbh_mbuf h = [m]" "mbuf_ok m" "mb_data m = map S [a..<b]" "mb_pkt_len m = of_nat (b - a)"
    using assms(2) by (cases "tbh_mbuf h")
      (auto simp: single_holds_def seg_holds_def pkt_wf_def dest: chain_ok_ConsD)
  have "of_nat c - of_nat a = (of_nat (c - a) :: u32)" using assms(3) by (simp add: of_nat_diff)
  moreover have "c - a < length (mb_data m)" using assms(3,4) m(3) by simp
  note adj_single [OF assms(1) m(2) this]
  moreover have "single_holds S s0 (h\<lparr>tbh_mbuf := [m\<lparr>mb_data := drop (c - a) (mb_data m),
      mb_pkt_len := mb_pkt_len m - of_nat (c - a)\<rparr>], tbh_seg_seq := s0 + of_nat c\<rparr>) c b"
    using m assms(3,4)
    by (auto simp: single_holds_def seg_holds_def pkt_wf_def chain_ok_def mbuf_ok_def drop_map of_nat_diff)
  ultimately show ?thesis by (simp only: m(1)) blast
qed

lemma holds_merge:
  assumes "seg_holds S s0 h a b" and "chain_bytes m = map S [b..<c]" and "pkt_wf m" and "b < c"
    and "c < a + 2 ^ 31"
  shows "seg_holds S s0 (h\<lparr>tbh_mbuf := data_mbuf_merge (tbh_mbuf h) m\<rparr>) a c"
proof -
  have ne: "tbh_mbuf h \<noteq> []" and ab: "a < b" "pkt_wf (tbh_mbuf h)" "chain_bytes (tbh_mbuf h) = map S [a..<b]"
    using assms(1) by (auto simp: seg_holds_def pkt_wf_def)
  have "[a..<c] = [a..<b] @ [b..<c]" using ab(1) assms(4) by (metis less_imp_le upt_add_eq_append le_add_diff_inverse)
  moreover have "pkt_wf (data_mbuf_merge (tbh_mbuf h) m)"
    using assms(2-5) ab by (intro data_mbuf_merge_pkt_wf) auto
  moreover have "mb_data (hd (data_mbuf_merge (tbh_mbuf h) m)) = mb_data (hd (tbh_mbuf h))"
    using ne by (cases "tbh_mbuf h") (simp_all add: data_mbuf_merge_def)
  ultimately show ?thesis
    using assms(1,2,4) ne by (simp add: seg_holds_def data_mbuf_merge_bytes)
qed

subsection \<open>Storing a segment\<close>

lemma rcv_ok_pos:
  "rcv_ok S s0 hi lo hs R \<Longrightarrow> h \<in> set hs \<Longrightarrow> \<exists>a b. seg_holds S s0 h a b \<and> lo \<le> a \<and> b \<le> hi"
  by (induction rule: rcv_ok.induct) (force simp: seg_holds_def dest: rcv_ok_le)+

lemma consume_ok:
  assumes adj: "rte_pktmbuf_adj_spec adj"
  shows "rcv_ok S s0 hi lo hs R \<Longrightarrow> lo \<le> e \<Longrightarrow> e \<le> hi \<Longrightarrow> hi < lo + 2 ^ 31 \<Longrightarrow>
    \<forall>h \<in> set hs. \<not> (SEG_LT (tbh_seg_seq h) (s0 + of_nat e) \<and> SEG_LT (s0 + of_nat e) (tbh_end h)) \<Longrightarrow>
    \<exists>hs'. tcp_rcv_consume adj (s0 + of_nat e) hs = Some hs' \<and> rcv_ok S s0 hi e hs' (R - {..<e})"
proof (induction rule: rcv_ok.induct)
  case (rcv_Nil lo)
  then show ?case by (auto intro: rcv_ok.intros)
next
  case (rcv_Cons lo a h b hs R)
  have ab: "a < b" "b \<le> hi" "tbh_seg_seq h = s0 + of_nat a" "pkt_wf (tbh_mbuf h)" "mb_data (hd (tbh_mbuf h)) \<noteq> []"
    using rcv_Cons.hyps(2) rcv_ok_le [OF rcv_Cons.hyps(3)] by (auto simp: seg_holds_def)
  have R: "R \<subseteq> {b..<hi}" by (rule rcv_ok_bounds [OF rcv_Cons.hyps(3)])
  note e = holds_end [OF rcv_Cons.hyps(2)]
  have d: "a < e + 2 ^ 31" "e < a + 2 ^ 31" "b < e + 2 ^ 31" "e < b + 2 ^ 31"
    using ab rcv_Cons.prems(1-3) rcv_Cons.hyps(1) by auto
  have "\<not> (a < e \<and> e < b)" using rcv_Cons.prems(4) ab(3) d e by (simp add: seq_cmp)
  then consider "e < a" | "e = a" | "a < e" "b \<le> e" by linarith
  then show ?case
  proof cases
    case 1
    moreover have "{a..<b} \<union> R - {..<e} = {a..<b} \<union> R" using 1 R ab(1) by auto
    ultimately show ?thesis using rcv_Cons.hyps d ab e
      by (auto simp: seq_cmp intro!: rcv_ok.rcv_Cons)
  next
    case 2
    moreover have "{a..<b} \<union> R - {..<e} = {a..<b} \<union> R" using 2 R ab(1) by auto
    ultimately show ?thesis using rcv_Cons.hyps d ab e adj_zero [OF adj ab(4,5)]
      by (auto simp: seq_cmp SEG_DIFF_def intro!: rcv_ok.rcv_Cons)
  next
    case 3
    have "\<exists>hs'. tcp_rcv_consume adj (s0 + of_nat e) hs = Some hs' \<and> rcv_ok S s0 hi e hs' (R - {..<e})"
    proof (rule rcv_Cons.IH)
      show "hi < b + 2 ^ 31" using rcv_Cons.prems(3) rcv_Cons.hyps(1) ab(1) by simp
    qed (use 3 rcv_Cons.prems in auto)
    moreover have "{a..<b} \<union> R - {..<e} = R - {..<e}" using 3 by auto
    ultimately show ?thesis using 3 d ab e by (simp add: seq_cmp)
  qed
qed

lemma tcp_rcv_store_Cons:
  "tcp_rcv_store adj new (cur # cs) =
     (if TCB_RCVBUF_CONTAINED new cur then Some (cur # cs, False)
      else if SEG_LT (tbh_seg_seq new) (tbh_seg_seq cur)
      then map_option (\<lambda>r. (new # r, True)) (tcp_rcv_consume adj (tbh_end new) (cur # cs))
      else if SEG_EQ (tbh_end cur) (tbh_seg_seq new)
      then let c = cur\<lparr>tbh_mbuf := data_mbuf_merge (tbh_mbuf cur) (tbh_mbuf new)\<rparr>
           in map_option (\<lambda>r. (c # r, True)) (tcp_rcv_consume adj (tbh_end c) cs)
      else if SEG_LE (tbh_seg_seq cur) (tbh_seg_seq new) \<and> SEG_LT (tbh_seg_seq new) (tbh_end cur)
      then Option.bind (adj_nonempty adj (tbh_mbuf new) (SEG_DIFF (tbh_end cur) (tbh_seg_seq new)))
             (\<lambda>m. let c = cur\<lparr>tbh_mbuf := data_mbuf_merge (tbh_mbuf cur) m\<rparr>
                   in map_option (\<lambda>r. (c # r, True)) (tcp_rcv_consume adj (tbh_end c) cs))
      else map_option (\<lambda>(r, b). (cur # r, b)) (tcp_rcv_store adj new cs))"
  by (auto simp: tcp_rcv_store_def Let_def map_option_case split: option.splits rcv_walk.splits bind_splits
      simp del: tcp_rcv_consume.simps)

text \<open>A segment that ends strictly inside a stored one also begins strictly inside it.\<close>

definition no_partial_overlap :: "u32 \<Rightarrow> u32 \<Rightarrow> tcb_buf_hdr list \<Rightarrow> bool" where
  "no_partial_overlap sq en hs \<longleftrightarrow>
     (\<forall>h \<in> set hs. SEG_LT (tbh_seg_seq h) en \<and> SEG_LT en (tbh_end h) \<longrightarrow> SEG_LT (tbh_seg_seq h) sq)"

lemma no_straddle:
  assumes "rcv_ok S s0 hi lo hs R" and "no_partial_overlap (s0 + of_nat a) en hs" and "a \<le> lo" and "hi < a + 2 ^ 31"
  shows "\<forall>h \<in> set hs. \<not> (SEG_LT (tbh_seg_seq h) en \<and> SEG_LT en (tbh_end h))"
proof
  fix h assume h: "h \<in> set hs"
  with assms(1) obtain x y where "seg_holds S s0 h x y" "lo \<le> x" "y \<le> hi" by (blast dest: rcv_ok_pos)
  then have "tbh_seg_seq h = s0 + of_nat x" "\<not> x < a" "a < x + 2 ^ 31" "x < a + 2 ^ 31"
    using assms(3,4) by (auto simp: seg_holds_def)
  then have "\<not> SEG_LT (tbh_seg_seq h) (s0 + of_nat a)" by (simp add: seq_cmp)
  with h assms(2) show "\<not> (SEG_LT (tbh_seg_seq h) en \<and> SEG_LT en (tbh_end h))"
    by (auto simp: no_partial_overlap_def)
qed

lemma store_ok:
  assumes adj: "rte_pktmbuf_adj_spec adj" and new: "single_holds S s0 new a b"
  shows "rcv_ok S s0 hi lo hs R \<Longrightarrow> lo \<le> a \<Longrightarrow> b \<le> hi \<Longrightarrow> hi < lo + 2 ^ 31 \<Longrightarrow>
    no_partial_overlap (s0 + of_nat a) (s0 + of_nat b) hs \<Longrightarrow>
    \<exists>hs' st. tcp_rcv_store adj new hs = Some (hs', st) \<and> rcv_ok S s0 hi lo hs' (R \<union> {a..<b})"
proof (induction rule: rcv_ok.induct)
  case (rcv_Nil lo)
  have "rcv_ok S s0 hi lo [new] ({a..<b} \<union> {})"
    using new rcv_Nil by (intro rcv_ok.intros) (auto simp: single_holds_def)
  then show ?case by (auto simp: tcp_rcv_store_def)
next
  case (rcv_Cons lo x h y hs R)
  have n: "a < b" "tbh_seg_seq new = s0 + of_nat a" "seg_holds S s0 new a b"
    using new by (simp_all add: single_holds_def seg_holds_def)
  have ne: "tbh_end new = s0 + of_nat b" using n(3) by (rule holds_end)
  have h: "x < y" "y \<le> hi" "tbh_seg_seq h = s0 + of_nat x" "tbh_end h = s0 + of_nat y"
    using rcv_Cons.hyps(2) rcv_ok_le [OF rcv_Cons.hyps(3)] holds_end [OF rcv_Cons.hyps(2)]
    by (auto simp: seg_holds_def)
  have R: "R \<subseteq> {y..<hi}" by (rule rcv_ok_bounds [OF rcv_Cons.hyps(3)])
  have all: "rcv_ok S s0 hi lo (h # hs) ({x..<y} \<union> R)" using rcv_Cons.hyps by (rule rcv_ok.rcv_Cons)
  have d: "i < j + 2 ^ 31" if "i \<in> {a, b, x, y}" and "j \<in> {a, b, x, y}" for i j
    using that rcv_Cons.prems(1-3) rcv_Cons.hyps(1) h n by auto
  note c = TCB_RCVBUF_CONTAINED_def seq_cmp [OF d d] n(2) ne h(3,4)
  have rest: "no_partial_overlap (s0 + of_nat a) (s0 + of_nat b) hs"
    using rcv_Cons.prems(4) by (simp add: no_partial_overlap_def)
  have merged: "\<exists>hs' st. map_option (\<lambda>r. (c # r, True)) (tcp_rcv_consume adj (tbh_end c) hs) = Some (hs', st) \<and>
      rcv_ok S s0 hi lo hs' ({x..<y} \<union> R \<union> {a..<b})"
    if c: "c = h\<lparr>tbh_mbuf := data_mbuf_merge (tbh_mbuf h) m\<rparr>" and m: "chain_bytes m = map S [y..<b]" "pkt_wf m"
      and le: "x \<le> a" "a \<le> y" "y < b" for c m
  proof -
    have c1: "seg_holds S s0 c x b" unfolding c
      using rcv_Cons.hyps(2) m le(3) d by (intro holds_merge) auto
    have hi: "hi < y + 2 ^ 31" "hi < a + 2 ^ 31" using rcv_Cons.prems(1,3) rcv_Cons.hyps(1) h(1) by auto
    from consume_ok [OF adj rcv_Cons.hyps(3) less_imp_le [OF le(3)] rcv_Cons.prems(2) hi(1)
        no_straddle [OF rcv_Cons.hyps(3) rest le(2) hi(2)]]
    obtain hs' where r: "tcp_rcv_consume adj (s0 + of_nat b) hs = Some hs'" "rcv_ok S s0 hi b hs' (R - {..<b})"
      by blast
    have "{x..<y} \<union> R \<union> {a..<b} = {x..<b} \<union> (R - {..<b})" using le R h(1) by auto
    moreover have "rcv_ok S s0 hi lo (c # hs') ({x..<b} \<union> (R - {..<b}))"
      using rcv_Cons.hyps(1) c1 r(2) by (rule rcv_ok.rcv_Cons)
    ultimately show ?thesis using r(1) holds_end [OF c1] by auto
  qed
  consider "x \<le> a" "b \<le> y" | "a < x" | "a = y" | "x \<le> a" "a < y" "y < b" | "y < a" using h(1) by linarith
  then show ?case
  proof cases
    case 1
    moreover have "{x..<y} \<union> R \<union> {a..<b} = {x..<y} \<union> R" using 1 by auto
    ultimately show ?thesis using all by (auto simp: tcp_rcv_store_Cons c)
  next
    case 2
    have x: "rcv_ok S s0 hi x (h # hs) ({x..<y} \<union> R)" using rcv_Cons.hyps by (intro rcv_ok.rcv_Cons) auto
    have hi: "hi < a + 2 ^ 31" using rcv_Cons.prems(1,3) by simp
    from consume_ok [OF adj all _ rcv_Cons.prems(2,3) no_straddle [OF x rcv_Cons.prems(4) less_imp_le [OF 2] hi]]
      rcv_Cons.prems(1) n(1)
    obtain hs' where r: "tcp_rcv_consume adj (s0 + of_nat b) (h # hs) = Some hs'"
      "rcv_ok S s0 hi b hs' ({x..<y} \<union> R - {..<b})"
      by (auto simp del: tcp_rcv_consume.simps)
    have "{x..<y} \<union> R \<union> {a..<b} = {a..<b} \<union> ({x..<y} \<union> R - {..<b})" using 2 R h(1) by auto
    moreover have "rcv_ok S s0 hi lo (new # hs') ({a..<b} \<union> ({x..<y} \<union> R - {..<b}))"
      using rcv_Cons.prems(1) n(3) r(2) by (rule rcv_ok.rcv_Cons)
    ultimately show ?thesis using 2 r(1) h(1) n(1)
      by (auto simp: tcp_rcv_store_Cons c simp del: tcp_rcv_consume.simps)
  next
    case 3
    then have "chain_bytes (tbh_mbuf new) = map S [y..<b]" "pkt_wf (tbh_mbuf new)" "x \<le> a" "a \<le> y" "y < b"
      using n h(1) by (auto simp: seg_holds_def)
    from merged [OF refl this] 3 n(1) h(1) show ?thesis
      by (simp add: tcp_rcv_store_Cons c Let_def)
  next
    case 4
    from single_adj [OF adj new less_imp_le [OF 4(2)] 4(3)] obtain m where
      m: "adj_nonempty adj (tbh_mbuf new) (of_nat y - of_nat a) = Some m"
      "single_holds S s0 (new\<lparr>tbh_mbuf := m, tbh_seg_seq := s0 + of_nat y\<rparr>) y b" by blast
    then have "chain_bytes m = map S [y..<b]" "pkt_wf m" by (auto simp: single_holds_def seg_holds_def)
    from merged [OF refl this 4(1) less_imp_le [OF 4(2)] 4(3)] 4 n(1) h(1) m(1) show ?thesis
      by (simp add: tcp_rcv_store_Cons c Let_def SEG_DIFF_def)
  next
    case 5
    then have "\<exists>hs' st. tcp_rcv_store adj new hs = Some (hs', st) \<and> rcv_ok S s0 hi y hs' (R \<union> {a..<b})"
      using rcv_Cons.prems(2,3) rcv_Cons.hyps(1) h(1) rest by (intro rcv_Cons.IH) auto
    then obtain hs' st where r: "tcp_rcv_store adj new hs = Some (hs', st)" "rcv_ok S s0 hi y hs' (R \<union> {a..<b})"
      by blast
    have "rcv_ok S s0 hi lo (h # hs') ({x..<y} \<union> (R \<union> {a..<b}))"
      using rcv_Cons.hyps(1,2) r(2) by (rule rcv_ok.rcv_Cons)
    with 5 r(1) n(1) h(1) show ?thesis by (simp add: tcp_rcv_store_Cons c Un_assoc)
  qed
qed

subsection \<open>Delivering\<close>

text \<open>An application that takes all it is given; \<open>view\<close> is what it has been given so far.\<close>

definition app_records :: "'a app_ops \<Rightarrow> ('a \<Rightarrow> u8 list) \<Rightarrow> bool" where
  "app_records app view \<longleftrightarrow>
     (\<forall>d c ts. \<exists>d'. app_deliver app d c ts = (chain_pkt_len c, d', []) \<and> view d' = view d @ chain_bytes c)"

lemma app_recordsE:
  assumes "app_records app view"
  obtains d' where "app_deliver app d c ts = (chain_pkt_len c, d', [])" "view d' = view d @ chain_bytes c"
  using assms unfolding app_records_def by blast

text \<open>The buffer, the next position expected and what the application has, before and after.\<close>

definition delivered_to ::
  "(nat \<Rightarrow> u8) \<Rightarrow> u32 \<Rightarrow> nat \<Rightarrow> ('a \<Rightarrow> u8 list) \<Rightarrow> 'a tcb \<Rightarrow> nat \<Rightarrow> nat set \<Rightarrow> 'a tcb \<Rightarrow> nat \<Rightarrow> nat set \<Rightarrow> bool" where
  "delivered_to S s0 hi view t p R t' q R' \<longleftrightarrow>
     rcv_nxt t' = s0 + of_nat q \<and> p \<le> q \<and> {p..<q} \<subseteq> R \<and> q \<notin> R \<and> R' = R - {..<q} \<and>
     rcv_ok S s0 hi q (tcb_rcv_buf t') R' \<and>
     view (l4cb_app_data t') = view (l4cb_app_data t) @ map S [p..<q] \<and>
     t' = t\<lparr>l4cb_app_data := l4cb_app_data t', rcv_nxt := s0 + of_nat q, tcb_rcv_buf := tcb_rcv_buf t'\<rparr>"

lemma deliver_ok:
  assumes app: "app_records (p_app P) view"
  shows "rcv_ok S s0 hi lo hs R \<Longrightarrow> hi < lo + 2 ^ 31 \<Longrightarrow> rcv_nxt t = s0 + of_nat lo \<Longrightarrow>
    \<exists>q t'. tcp_rcv_deliver P hs dl t e = Some (dl + (of_nat q - of_nat lo), t', e) \<and>
      delivered_to S s0 hi view t lo R t' q (R - {..<q})"
proof (induction arbitrary: t dl rule: rcv_ok.induct)
  case (rcv_Nil lo)
  then show ?case
    by (intro exI [of _ lo]) (auto simp: delivered_to_def intro: rcv_ok.rcv_Nil)
next
  case (rcv_Cons lo a h b hs R)
  have ab: "a < b" "b \<le> hi" "tbh_seg_seq h = s0 + of_nat a" "chain_bytes (tbh_mbuf h) = map S [a..<b]"
    using rcv_Cons.hyps(2) rcv_ok_le [OF rcv_Cons.hyps(3)] by (auto simp: seg_holds_def)
  have R: "R \<subseteq> {b..<hi}" by (rule rcv_ok_bounds [OF rcv_Cons.hyps(3)])
  have d: "lo < a + 2 ^ 31" "a < lo + 2 ^ 31" using rcv_Cons.prems(1) rcv_Cons.hyps(1) ab by auto
  show ?case
  proof (cases "a = lo")
    case False
    have "rcv_ok S s0 hi lo (h # hs) ({a..<b} \<union> R)" using rcv_Cons.hyps by (rule rcv_ok.rcv_Cons)
    moreover have "{a..<b} \<union> R - {..<lo} = {a..<b} \<union> R" "lo \<notin> {a..<b} \<union> R"
      using R ab(1) False rcv_Cons.hyps(1) by auto
    ultimately show ?thesis using False rcv_Cons.prems(2) ab(3) d
      by (intro exI [of _ lo] exI [of _ "t\<lparr>tcb_rcv_buf := h # hs\<rparr>"]) (simp add: seq_cmp delivered_to_def)
  next
    case True
    obtain x where x: "app_deliver (p_app P) (l4cb_app_data t) (tbh_mbuf h) (tbh_tstamp h) =
        (of_nat (b - a), x, [])" "view x = view (l4cb_app_data t) @ map S [a..<b]"
      using app_recordsE [OF app, of "l4cb_app_data t" "tbh_mbuf h" "tbh_tstamp h"]
      unfolding holds_len [OF rcv_Cons.hyps(2)] ab(4) by blast
    let ?t = "t\<lparr>l4cb_app_data := x, rcv_nxt := s0 + of_nat b\<rparr>"
    have nb: "s0 + of_nat lo + of_nat (b - a) = s0 + of_nat b" using True ab(1) by (simp add: of_nat_diff)
    have "hi < b + 2 ^ 31" "rcv_nxt ?t = s0 + of_nat b" using rcv_Cons.prems(1) True ab(1) by simp_all
    from rcv_Cons.IH [OF this, of "dl + of_nat (b - a)"] obtain q t' where
      r: "tcp_rcv_deliver P hs (dl + of_nat (b - a)) ?t e = Some (dl + of_nat (b - a) + (of_nat q - of_nat b), t', e)"
      and q: "delivered_to S s0 hi view ?t b R t' q (R - {..<q})" by blast
    from q have bq: "b \<le> q" by (simp add: delivered_to_def)
    have l: "[lo..<q] = [a..<b] @ [b..<q]" using True ab(1) bq by (metis less_imp_le upt_add_eq_append le_add_diff_inverse)
    have "{b..<q} \<subseteq> R" "q \<notin> R" using q by (simp_all add: delivered_to_def)
    moreover have "{lo..<q} = {a..<b} \<union> {b..<q}" using bq True ab(1) by auto
    ultimately have "{lo..<q} \<subseteq> {a..<b} \<union> R" "q \<notin> {a..<b} \<union> R" "{a..<b} \<union> R - {..<q} = R - {..<q}"
      using bq by auto
    then have "delivered_to S s0 hi view t lo ({a..<b} \<union> R) t' q ({a..<b} \<union> R - {..<q})"
      using q x(2) True ab(1) l unfolding delivered_to_def by simp
    moreover have "tcp_rcv_deliver P (h # hs) dl t e = Some (dl + (of_nat q - of_nat lo), t', e)"
      using r True ab rcv_Cons.prems(2) d nb
      by (simp add: seq_cmp x(1) holds_len [OF rcv_Cons.hyps(2)] of_nat_diff)
    ultimately show ?thesis by blast
  qed
qed

subsection \<open>Properties\<close>

text \<open>
  The state of a receiver: it has been given the positions before \<open>p\<close>, expects \<open>p\<close>, and keeps the
  positions \<open>R\<close> after it.
\<close>

definition rcv_at :: "(nat \<Rightarrow> u8) \<Rightarrow> u32 \<Rightarrow> nat \<Rightarrow> nat set \<Rightarrow> 'a tcb \<Rightarrow> bool" where
  "rcv_at S s0 p R t \<longleftrightarrow>
     rcv_nxt t = s0 + of_nat p \<and> p \<notin> R \<and> rcv_ok S s0 (p + (2 ^ 31 - 1)) p (tcb_rcv_buf t) R"

definition pkt_holds :: "(nat \<Rightarrow> u8) \<Rightarrow> chain \<Rightarrow> nat \<Rightarrow> nat \<Rightarrow> bool" where
  "pkt_holds S c a b \<longleftrightarrow> length c = 1 \<and> pkt_wf c \<and> a < b \<and> chain_bytes c = map S [a..<b]"

text \<open>
  C10: Reassembly refines the set of the positions received. A segment in one buffer that holds the positions from
  \<open>a\<close> to \<open>b\<close> of the stream, in the window or before it, adds those that were not delivered yet; the
  application gets the bytes from the expected position up to the first missing one, in order, each
  once, and the rest is kept. This needs that the segment does not overlap a stored one in part.
\<close>

theorem reassembly_delivers_stream:
  assumes "rte_pktmbuf_adj_spec (p_adj P)" and "app_records (p_app P) view"
    and "rcv_at S s0 p R t" and "pkt_holds S (pcb_mbuf (e_pcb e)) a b"
    and "p < a + 2 ^ 31" and "b < p + 2 ^ 31"
    and "no_partial_overlap (s0 + of_nat (max a p)) (s0 + of_nat b) (tcb_rcv_buf t)"
  shows "\<exists>q t' e'. tcp_data_handle P (s0 + of_nat a) (of_nat (b - a)) t e = Some (of_nat (q - p), t', e') \<and>
           p \<le> q \<and> {p..<q} \<subseteq> R \<union> {a..<b} \<and> q \<notin> R \<union> {a..<b} \<and>
           view (l4cb_app_data t') = view (l4cb_app_data t) @ map S [p..<q] \<and>
           rcv_at S s0 q (R \<union> {a..<b} - {..<q}) t'"
proof -
  let ?hi = "p + (2 ^ 31 - 1)"
  have t: "rcv_nxt t = s0 + of_nat p" "p \<notin> R" "rcv_ok S s0 ?hi p (tcb_rcv_buf t) R"
    using assms(3) by (simp_all add: rcv_at_def)
  obtain m where m: "pcb_mbuf (e_pcb e) = [m]" "pkt_wf [m]" "a < b" "mb_data m = map S [a..<b]"
    using assms(4) by (cases "pcb_mbuf (e_pcb e)") (auto simp: pkt_holds_def)
  have en: "s0 + of_nat a + of_nat (b - a) = s0 + of_nat b" using m(3) by (simp add: of_nat_diff)
  have d: "a < p + 2 ^ 31" "p < b + 2 ^ 31" using m(3) assms(5,6) by auto
  note c = t(1) en seq_cmp [OF d(1) assms(5)] seq_cmp [OF assms(6) d(2)] seq_cmp [OF assms(5) d(1)] seq_cmp [OF d(2) assms(6)]
  have R: "R \<subseteq> {p..<?hi}" by (rule rcv_ok_bounds [OF t(3)])
  show ?thesis
  proof (cases "b \<le> p")
    case True
    then have "R \<union> {a..<b} - {..<p} = R" using R by auto
    moreover have "tcp_data_handle P (s0 + of_nat a) (of_nat (b - a)) t e = Some (0, t, e)"
      using True by (simp add: tcp_data_handle_def c)
    ultimately show ?thesis using True t(2) assms(3)
      by (intro exI [of _ p] exI [of _ t] exI [of _ e]) simp
  next
    case False
    let ?a = "max a p" and ?h = "\<lambda>c. \<lparr>tbh_mbuf = c, tbh_tstamp = pcb_tstamp (e_pcb e), tbh_seg_seq = s0 + of_nat (max a p)\<rparr>"
    have one: "single_holds S s0 \<lparr>tbh_mbuf = [m], tbh_tstamp = ts, tbh_seg_seq = s0 + of_nat a\<rparr> a b" for ts
      using m by (auto simp: single_holds_def seg_holds_def)
    have "\<exists>c e1. single_holds S s0 (?h c) ?a b \<and> tcp_data_handle P (s0 + of_nat a) (of_nat (b - a)) t e =
        Option.bind (tcp_rcv_store (p_adj P) (?h c) (tcb_rcv_buf t)) (\<lambda>(buf, st). tcp_rcv_deliver P buf 0 t (e1 st))"
    proof (cases "a < p")
      case True
      then have "a \<le> p" "p < b" using False by simp_all
      from single_adj [OF assms(1) one this, of 0] obtain c where
        "adj_nonempty (p_adj P) [m] (of_nat p - of_nat a) = Some c" "single_holds S s0 (?h c) p b"
        using True by (auto simp: max_def single_holds_def seg_holds_def)
      with True False show ?thesis
        by (intro exI [of _ c] exI [of _ "\<lambda>st. (if st then e\<lparr>e_pcb := (e_pcb e)\<lparr>pcb_mbuf := c, pcb_mbuf_stored := True\<rparr>\<rparr>
              else e\<lparr>e_pcb := (e_pcb e)\<lparr>pcb_mbuf := c\<rparr>\<rparr>)"])
          (simp add: tcp_data_handle_def c m(1) SEG_DIFF_def max_def Let_def case_prod_unfold cong: if_cong)
    next
      case F: False
      with False one show ?thesis
        by (intro exI [of _ "[m]"] exI [of _ "\<lambda>st. (if st then e\<lparr>e_pcb := (e_pcb e)\<lparr>pcb_mbuf_stored := True\<rparr>\<rparr> else e)"])
          (simp add: tcp_data_handle_def c m(1) max_def Let_def case_prod_unfold cong: if_cong)
    qed
    then obtain c e1 where new: "single_holds S s0 (?h c) ?a b"
      and handle: "tcp_data_handle P (s0 + of_nat a) (of_nat (b - a)) t e =
        Option.bind (tcp_rcv_store (p_adj P) (?h c) (tcb_rcv_buf t)) (\<lambda>(buf, st). tcp_rcv_deliver P buf 0 t (e1 st))"
      by blast
    from store_ok [OF assms(1) new t(3)] assms(6,7) False obtain hs' st where
      st: "tcp_rcv_store (p_adj P) (?h c) (tcb_rcv_buf t) = Some (hs', st)" "rcv_ok S s0 ?hi p hs' (R \<union> {?a..<b})"
      by auto
    from deliver_ok [OF assms(2) st(2) _ t(1), of 0 "e1 st"] obtain q t' where
      q: "tcp_rcv_deliver P hs' 0 t (e1 st) = Some (0 + (of_nat q - of_nat p), t', e1 st)"
      "delivered_to S s0 ?hi view t p (R \<union> {?a..<b}) t' q (R \<union> {?a..<b} - {..<q})" by auto
    have "rcv_ok S s0 (q + (2 ^ 31 - 1)) q (tcb_rcv_buf t') (R \<union> {?a..<b} - {..<q})"
      using q(2) unfolding delivered_to_def by (auto elim!: rcv_ok_hi)
    moreover have "R \<union> {?a..<b} - {..<q} = R \<union> {a..<b} - {..<q}" "q \<notin> R \<union> {a..<b}"
      using q(2) unfolding delivered_to_def by auto
    moreover have "of_nat q - of_nat p = (of_nat (q - p) :: u32)"
      using q(2) unfolding delivered_to_def by (simp add: of_nat_diff)
    ultimately show ?thesis using st(1) q handle
      unfolding delivered_to_def rcv_at_def
      by (intro exI [of _ q] exI [of _ t'] exI [of _ "e1 st"]) auto
  qed
qed

text \<open>An application that keeps what it is given, and a receiver that has a later segment already.\<close>

definition ex_rec_P :: "u8 list prm" where
  "ex_rec_P =
     \<lparr>p_adj = ex_adj,
      p_app = \<lparr>app_init = (\<lambda>d. d), app_conn_up = (\<lambda>d. (d, [])), app_conn_down = (\<lambda>d. d),
               app_deliver = (\<lambda>d c ts. (chain_pkt_len c, d @ chain_bytes c, []))\<rparr>,
      p_app_zero = [], p_toeplitz = (\<lambda>i b. ucast b)\<rparr>"

definition ex_stream :: "nat \<Rightarrow> u8" where
  "ex_stream k = of_nat k"

definition ex_seg :: "nat \<Rightarrow> nat \<Rightarrow> chain" where
  "ex_seg a b = [\<lparr>mb_data = map ex_stream [a..<b], mb_pkt_len = of_nat (b - a), mb_nb_segs = 1\<rparr>]"

definition ex_held :: "nat \<Rightarrow> nat \<Rightarrow> tcb_buf_hdr" where
  "ex_held a b = \<lparr>tbh_mbuf = ex_seg a b, tbh_tstamp = 0, tbh_seg_seq = 500 + of_nat a\<rparr>"

definition ex_rcv_tcb :: "tcb_buf_hdr list \<Rightarrow> u8 list tcb" where
  "ex_rcv_tcb hs = (zero_tcb ex_rec_P)\<lparr>rcv_nxt := 500, rcv_wnd := 1000, tcb_rcv_buf := hs\<rparr>"

definition ex_rcv_env :: "chain \<Rightarrow> u8 list env" where
  "ex_rcv_env c =
     \<lparr>ce_now = 0, ce_cycles_per_us = 1, ce_test_wheel = ex_wheel, ce_timer_stats = (\<lambda>_. ex_timer_stats),
      ce_tci = (\<lambda>_ _. ex_tci), ce_msgs = [], ce_msg_outcomes = [],
      e_tcbs = (\<lambda>_. ex_rcv_tcb []), e_pool = [], e_htable = (\<lambda>_ _. []), e_slow_wheel = ex_wheel,
      e_rto_wheel = ex_wheel, e_tcp_stats = (\<lambda>_. ex_tcp_stats), e_tsm_stats = (\<lambda>_. ex_tsm_stats),
      e_pi_mtu = (\<lambda>_. 1500), e_tx = [], e_tx_outcomes = [], e_alloc_outcomes = [],
      e_pcb = (ex_pcb (ex_hdr 0x10 500 101) [])\<lparr>pcb_mbuf := c\<rparr>, e_data_sent = 0\<rparr>"

lemma ex_rcv_simps [simp]:
  "rte_pktmbuf_adj_spec (p_adj ex_rec_P)" "app_records (p_app ex_rec_P) (\<lambda>d. d)"
  "pcb_mbuf (e_pcb (ex_rcv_env c)) = c" "rcv_nxt (ex_rcv_tcb hs) = 500" "tcb_rcv_buf (ex_rcv_tcb hs) = hs"
  "l4cb_app_data (ex_rcv_tcb hs) = []"
  using ex_adj_spec by (simp_all add: ex_rec_P_def app_records_def ex_rcv_env_def ex_rcv_tcb_def zero_tcb_def ex_pcb_def)

lemma ex_seg_holds: "a < b \<Longrightarrow> b < 65536 \<Longrightarrow> pkt_holds ex_stream (ex_seg a b) a b"
  by (auto simp: pkt_holds_def ex_seg_def pkt_wf_def chain_ok_def mbuf_ok_def)

lemma ex_held_holds: "a < b \<Longrightarrow> b < 65536 \<Longrightarrow> seg_holds ex_stream 500 (ex_held a b) a b"
  using ex_seg_holds [of a b] by (auto simp: pkt_holds_def seg_holds_def ex_held_def ex_seg_def)

theorem reassembly_delivers_stream_witness:
  "\<exists>q t' e'. tcp_data_handle ex_rec_P 500 10 (ex_rcv_tcb [ex_held 10 20, ex_held 25 30]) (ex_rcv_env (ex_seg 0 10)) =
       Some (of_nat q, t', e') \<and> {0..<q} \<subseteq> {0..<20} \<union> {25..<30} \<and> q \<notin> {0..<20} \<union> {25..<30} \<and>
     l4cb_app_data t' = map ex_stream [0..<q]"
proof -
  let ?hs = "[ex_held 10 20, ex_held 25 30]"
  have "rcv_ok ex_stream 500 (2 ^ 31 - 1) 0 ?hs ({10..<20} \<union> ({25..<30} \<union> {}))"
    by (intro rcv_ok.intros ex_held_holds) simp_all
  then have "rcv_at ex_stream 500 0 ({10..<20} \<union> {25..<30}) (ex_rcv_tcb ?hs)" by (simp add: rcv_at_def)
  moreover have "no_partial_overlap 500 510 ?hs"
    by (simp add: no_partial_overlap_def ex_held_def SEG_LT_dist)
  moreover have "{10..<20::nat} \<union> {25..<30} \<union> {0..<10} = {0..<20} \<union> {25..<30}" by auto
  ultimately show ?thesis
    using reassembly_delivers_stream [of ex_rec_P "\<lambda>d. d" ex_stream 500 0 "{10..<20} \<union> {25..<30}"
        "ex_rcv_tcb ?hs" "ex_rcv_env (ex_seg 0 10)" 0 10] ex_seg_holds [of 0 10]
    by auto
qed

text \<open>
  The segment after a gap is not delivered any more once its sequence number is behind the expected one:
  no segment that arrives later, in the window or before it, is delivered either, and the state stays the same. A
  connection in this state makes no progress.
\<close>

theorem stale_segment_blocks:
  assumes "tcb_rcv_buf t = h # hs" and "SEG_LT (tbh_seg_seq h) (rcv_nxt t)"
    and "unat (rcv_nxt t - tbh_seg_seq h) < 2 ^ 30"
    and "SEG_LT seg_seq (rcv_nxt t) \<or> unat (seg_seq - rcv_nxt t) < 2 ^ 30"
    and "tcp_data_handle P seg_seq seg_len t e = Some (k, t', e')"
  shows "k = 0 \<and> rcv_nxt t' = rcv_nxt t \<and> l4cb_app_data t' = l4cb_app_data t \<and>
         (\<exists>h' hs'. tcb_rcv_buf t' = h' # hs' \<and> tbh_seg_seq h' = tbh_seg_seq h)"
proof -
  have keeps: "\<exists>h' hs'. buf = h' # hs' \<and> tbh_seg_seq h' = tbh_seg_seq h"
    if "tcp_rcv_store adj new (h # hs) = Some (buf, st)" "\<not> SEG_LT (tbh_seg_seq new) (tbh_seg_seq h)" for adj new buf st
    using that by (auto simp: tcp_rcv_store_Cons Let_def split: if_splits)
  have after: "\<not> SEG_LT s (tbh_seg_seq h)" if "unat (s - rcv_nxt t) < 2 ^ 30" for s
  proof -
    have "s - tbh_seg_seq h = (s - rcv_nxt t) + (rcv_nxt t - tbh_seg_seq h)" by simp
    then have "unat (s - tbh_seg_seq h) = unat ((s - rcv_nxt t) + (rcv_nxt t - tbh_seg_seq h))" by (rule arg_cong)
    also have "\<dots> = unat (s - rcv_nxt t) + unat (rcv_nxt t - tbh_seg_seq h)"
      using that assms(3) by (subst unat_word_ariths) simp
    finally have "0 < unat (s - tbh_seg_seq h)" "unat (s - tbh_seg_seq h) < 2 ^ 31"
      using that assms(2,3) by (auto simp: SEG_LT_dist)
    moreover have "tbh_seg_seq h - s = 0 - (s - tbh_seg_seq h)" by simp
    then have "unat (tbh_seg_seq h - s) = unat (0 - (s - tbh_seg_seq h))" by (rule arg_cong)
    ultimately show ?thesis
      using unat_sub_if_word [of 0 "s - tbh_seg_seq h"] by (simp add: SEG_LT_dist)
  qed
  have ne: "\<not> SEG_EQ (rcv_nxt t) (tbh_seg_seq h)" using assms(2) by (auto simp: SEG_EQ_def SEG_LT_dist)
  have deliver: "tcp_rcv_deliver P (h' # hs') 0 t e1 = Some (0, t\<lparr>tcb_rcv_buf := h' # hs'\<rparr>, e1)"
    if "tbh_seg_seq h' = tbh_seg_seq h" for h' hs' e1 using ne that by simp
  have step: ?thesis
    if "\<not> SEG_LT (tbh_seg_seq new) (tbh_seg_seq h)"
      and "Option.bind (tcp_rcv_store (p_adj P) new (tcb_rcv_buf t)) (\<lambda>(buf, st). tcp_rcv_deliver P buf 0 t (e1 st)) =
             Some (k, t', e')" for new e1
  proof -
    from that(2) obtain buf st where b: "tcp_rcv_store (p_adj P) new (h # hs) = Some (buf, st)"
      "tcp_rcv_deliver P buf 0 t (e1 st) = Some (k, t', e')" by (auto simp: assms(1))
    from keeps [OF b(1) that(1)] obtain h' hs' where h': "buf = h' # hs'" "tbh_seg_seq h' = tbh_seg_seq h" by blast
    from b(2) deliver [OF h'(2)] h' show ?thesis by (auto simp del: tcp_rcv_deliver.simps)
  qed
  consider "SEG_LE (seg_seq + seg_len) (rcv_nxt t)"
    | m where "\<not> SEG_LE (seg_seq + seg_len) (rcv_nxt t)" "SEG_LT seg_seq (rcv_nxt t)" "SEG_GT (seg_seq + seg_len) (rcv_nxt t)"
        "adj_nonempty (p_adj P) (pcb_mbuf (e_pcb e)) (SEG_DIFF (rcv_nxt t) seg_seq) = Some m"
    | "\<not> SEG_LE (seg_seq + seg_len) (rcv_nxt t)" "\<not> SEG_LT seg_seq (rcv_nxt t)"
    using assms(5) SEG_cases [of "seg_seq + seg_len" "rcv_nxt t"]
    by (auto simp: tcp_data_handle_def SEG_LE_def SEG_GT_def SEG_EQ_def split: if_splits)
  then show ?thesis
  proof cases
    case 1
    then show ?thesis using assms(1,5) by (simp add: tcp_data_handle_def)
  next
    case (2 m)
    show ?thesis
      by (rule step [of "\<lparr>tbh_mbuf = m, tbh_tstamp = pcb_tstamp (e_pcb e), tbh_seg_seq = rcv_nxt t\<rparr>"
            "\<lambda>st. (if st then e\<lparr>e_pcb := (e_pcb e)\<lparr>pcb_mbuf := m, pcb_mbuf_stored := True\<rparr>\<rparr>
              else e\<lparr>e_pcb := (e_pcb e)\<lparr>pcb_mbuf := m\<rparr>\<rparr>)"])
        (use 2 assms(5) after [of "rcv_nxt t"] in
          \<open>simp_all add: tcp_data_handle_def Let_def case_prod_unfold cong: if_cong\<close>)
  next
    case 3
    show ?thesis
      by (rule step [of "\<lparr>tbh_mbuf = pcb_mbuf (e_pcb e), tbh_tstamp = pcb_tstamp (e_pcb e), tbh_seg_seq = seg_seq\<rparr>"
            "\<lambda>st. (if st then e\<lparr>e_pcb := (e_pcb e)\<lparr>pcb_mbuf_stored := True\<rparr>\<rparr> else e)"])
        (use 3 assms(4,5) after [of seg_seq] in
          \<open>simp_all add: tcp_data_handle_def Let_def case_prod_unfold cong: if_cong\<close>)
  qed
qed

theorem stale_segment_blocks_witness:
  "\<exists>k t' e'. tcp_data_handle ex_rec_P 500 5 (ex_rcv_tcb [(ex_held 3 9)\<lparr>tbh_seg_seq := 498\<rparr>]) (ex_rcv_env (ex_seg 0 5)) =
     Some (k, t', e') \<and> k = 0 \<and> rcv_nxt t' = 500"
proof -
  let ?h = "(ex_held 3 9)\<lparr>tbh_seg_seq := 498\<rparr>"
  have "case tcp_data_handle ex_rec_P 500 5 (ex_rcv_tcb [?h]) (ex_rcv_env (ex_seg 0 5)) of
    None \<Rightarrow> False | Some (k, t', e') \<Rightarrow> True"
    by code_simp
  then obtain k t' e' where r:
    "tcp_data_handle ex_rec_P 500 5 (ex_rcv_tcb [?h]) (ex_rcv_env (ex_seg 0 5)) = Some (k, t', e')"
    by (auto split: option.splits)
  then show ?thesis
    using stale_segment_blocks [of "ex_rcv_tcb [?h]" ?h "[]" 500 ex_rec_P 5 "ex_rcv_env (ex_seg 0 5)" k t' e']
    by (auto simp: SEG_LT_dist)
qed

text \<open>
  A segment that overlaps the beginning of a stored one makes the code cut the stored one without moving
  its sequence number. The application gets the new segment; the rest of the stored one, which is next in the stream, is
  not delivered, and its sequence number is behind the expected one from then on.
\<close>

theorem partial_overlap_strands_data:
  assumes "rte_pktmbuf_adj_spec (p_adj P)" and "app_records (p_app P) view"
    and "rcv_nxt t = s0 + of_nat p" and "tcb_rcv_buf t = [h]" and "single_holds S s0 h x y"
    and "pkt_holds S (pcb_mbuf (e_pcb e)) p b" and "p < x" and "x < b" and "b < y" and "y < p + 2 ^ 31"
  shows "\<exists>t' e' m. tcp_data_handle P (s0 + of_nat p) (of_nat (b - p)) t e = Some (of_nat (b - p), t', e') \<and>
           rcv_nxt t' = s0 + of_nat b \<and> view (l4cb_app_data t') = view (l4cb_app_data t) @ map S [p..<b] \<and>
           tcb_rcv_buf t' = [h\<lparr>tbh_mbuf := m\<rparr>] \<and> chain_bytes m = map S [b..<y] \<and>
           SEG_LT (tbh_seg_seq h) (rcv_nxt t')"
proof -
  have d: "i < j + 2 ^ 31" if "i \<in> {p, x, b, y}" and "j \<in> {p, x, b, y}" for i j using that assms(7-10) by auto
  have en: "s0 + of_nat p + of_nat (b - p) = s0 + of_nat b" using assms(7,8) by (simp add: of_nat_diff)
  let ?new = "\<lparr>tbh_mbuf = pcb_mbuf (e_pcb e), tbh_tstamp = pcb_tstamp (e_pcb e), tbh_seg_seq = s0 + of_nat p\<rparr>"
  have new: "seg_holds S s0 ?new p b"
    using assms(6) by (cases "pcb_mbuf (e_pcb e)") (auto simp: pkt_holds_def seg_holds_def)
  have h: "seg_holds S s0 h x y" "tbh_seg_seq h = s0 + of_nat x" using assms(5) by (auto simp: single_holds_def seg_holds_def)
  from single_adj [OF assms(1,5) less_imp_le [OF assms(8)] assms(9)] obtain m where
    m: "adj_nonempty (p_adj P) (tbh_mbuf h) (of_nat b - of_nat x) = Some m" "chain_bytes m = map S [b..<y]"
    by (auto simp: single_holds_def seg_holds_def)
  note c = seq_cmp [OF d d] en assms(3,4) h(2) holds_end [OF h(1)] holds_end [OF new]
  obtain dd where dd: "app_deliver (p_app P) (l4cb_app_data t) (pcb_mbuf (e_pcb e)) (pcb_tstamp (e_pcb e)) = (of_nat (b - p), dd, [])"
    "view dd = view (l4cb_app_data t) @ map S [p..<b]"
    using app_recordsE [OF assms(2), of "l4cb_app_data t" "pcb_mbuf (e_pcb e)" "pcb_tstamp (e_pcb e)"]
      holds_len [OF new] new by (auto simp: seg_holds_def)
  have st: "tcp_rcv_store (p_adj P) ?new [h] = Some ([?new, h\<lparr>tbh_mbuf := m\<rparr>], True)"
    using assms(7-9) m(1) by (simp add: tcp_rcv_store_Cons TCB_RCVBUF_CONTAINED_def c SEG_DIFF_def)
  let ?t = "t\<lparr>l4cb_app_data := dd, rcv_nxt := s0 + of_nat b, tcb_rcv_buf := [h\<lparr>tbh_mbuf := m\<rparr>]\<rparr>"
  have "tcp_rcv_deliver P [?new, h\<lparr>tbh_mbuf := m\<rparr>] 0 t e1 = Some (of_nat (b - p), ?t, e1)" for e1
    using assms(7-9) dd(1) en holds_len [OF new] by (simp add: c(1-5) c(7-))
  then have "\<exists>e'. tcp_data_handle P (s0 + of_nat p) (of_nat (b - p)) t e = Some (of_nat (b - p), ?t, e')"
    using assms(7,8) st by (simp add: tcp_data_handle_def c Let_def del: tcp_rcv_deliver.simps)
  then show ?thesis using m(2) dd(2) assms(8) by (auto simp: c)
qed

theorem partial_overlap_strands_data_witness:
  "\<exists>t' e' m. tcp_data_handle ex_rec_P 500 15 (ex_rcv_tcb [ex_held 10 20]) (ex_rcv_env (ex_seg 0 15)) =
     Some (15, t', e') \<and> rcv_nxt t' = 515 \<and> tcb_rcv_buf t' = [(ex_held 10 20)\<lparr>tbh_mbuf := m\<rparr>] \<and>
     chain_bytes m = map ex_stream [15..<20]"
proof -
  have "single_holds ex_stream 500 (ex_held 10 20) 10 20"
    using ex_held_holds [of 10 20] by (simp add: single_holds_def ex_held_def ex_seg_def)
  with partial_overlap_strands_data [of ex_rec_P "\<lambda>d. d" "ex_rcv_tcb [ex_held 10 20]" 500 0 "ex_held 10 20" ex_stream 10 20
      "ex_rcv_env (ex_seg 0 15)" 15] ex_seg_holds [of 0 15]
  show ?thesis by auto
qed

end
