(* ===== verification/TcpProps.thy ===== *)
theory TcpProps
  imports TcpSMProps TcpSendProps
begin

text \<open>
  What the state machine does with segments: which ones it accepts, what it answers, what an
  acknowledgment takes off the queue; and the interface of the stack around it.
\<close>

subsection \<open>The acceptance of a segment\<close>

text \<open>
  C5: The acceptance test is the one of the standard: a segment is accepted when its first or its last
  sequence number is in the receive window, across the wrap-around of the sequence space. An empty
  segment counts as its sequence number, and a closed window takes the empty segment it expects only.
\<close>

theorem acceptance_test_window:
  assumes "unat (rcv_wnd t) \<le> 2 ^ 31"
  shows "tsm_do_receive_acceptance_test t seg_len seg_seq \<longleftrightarrow>
     (let off = (\<lambda>s. unat (s - rcv_nxt t))
      in if rcv_wnd t = 0 then seg_len = 0 \<and> off seg_seq = 0
         else off seg_seq < unat (rcv_wnd t) \<or>
              (seg_len \<noteq> 0 \<and> off (seg_seq + seg_len - 1) < unat (rcv_wnd t)))"
proof -
  have w: "rcv_wnd t \<noteq> 0 \<Longrightarrow> 0 < unat (rcv_wnd t)" by (simp add: unat_gt_0)
  have z: "seg_len > 0 \<longleftrightarrow> seg_len \<noteq> 0" "rcv_wnd t > 0 \<longleftrightarrow> rcv_wnd t \<noteq> 0" by (simp_all add: word_gt_0)
  have e: "SEG_EQ seg_seq (rcv_nxt t) \<longleftrightarrow> unat (seg_seq - rcv_nxt t) = 0"
    by (simp add: SEG_EQ_def unat_eq_0)
  show ?thesis
    using seg_in_window [OF w assms] unfolding tsm_do_receive_acceptance_test_def z e Let_def
    by (auto simp: unat_eq_0)
qed

theorem acceptance_test_window_witness:
  "tsm_do_receive_acceptance_test (ex_tcb TS_ESTABLISHED TSTS_CL_OPEN) 10 495 \<and>
   \<not> tsm_do_receive_acceptance_test (ex_tcb TS_ESTABLISHED TSTS_CL_OPEN) 10 1501"
  using acceptance_test_window [of "ex_tcb TS_ESTABLISHED TSTS_CL_OPEN" 10 495]
    acceptance_test_window [of "ex_tcb TS_ESTABLISHED TSTS_CL_OPEN" 10 1501]
  by (simp add: ex_tcb_def)

definition syn_states :: "tcp_state set" where
  "syn_states = {TS_SYN_RECV, TS_ESTABLISHED, TS_FIN_WAIT_I, TS_FIN_WAIT_II, TS_CLOSE_WAIT, TS_CLOSING,
     TS_LAST_ACK, TS_TIME_WAIT}"

definition seg_acceptable :: "'a tcb \<Rightarrow> 'a env \<Rightarrow> bool" where
  "seg_acceptable t e =
     tsm_do_receive_acceptance_test t (ucast (pcb_l5_len (e_pcb e))) (th_sent_seq (pcb_tcp (e_pcb e)))"

text \<open>What is on the wire for a sent packet.\<close>

lemma tcp_send_pkt_ok:
  "e_tx_outcomes e = [] \<Longrightarrow> e_tx (snd (tcp_send_pkt t s f c e)) = e_tx e @ [tcp_build_hdr t s f (chain_bytes c)]"
  by (simp add: tcp_send_pkt_def Let_def upd_tcp_stats_def)

lemma send_ack_tx [simp]:
  "e_tx_outcomes e = [] \<Longrightarrow> e_tx (tcp_send_ack_pkt t e) = e_tx e @ [tcp_build_hdr t (snd_nxt t) RTE_TCP_ACK_FLAG []]"
  using tcp_send_pkt_ok [of e t "snd_nxt t" RTE_TCP_ACK_FLAG "[]"]
  by (cases "tcp_send_pkt t (snd_nxt t) RTE_TCP_ACK_FLAG [] e") (simp add: tcp_send_ack_pkt_def upd_tcp_stats_def)

lemma send_ctrl_tx [simp]:
  assumes "e_tx_outcomes e = []"
  shows "e_tx (tcp_send_ctrl_pkt t f e) = e_tx e @ [tcp_build_hdr t (snd_nxt t) f []]"
    "e_tx (tcp_send_ctrl_pkt_with_sseq t s f e) = e_tx e @ [tcp_build_hdr t s f []]"
  using assms
  by (simp_all add: tcp_send_ctrl_pkt_def tcp_send_ctrl_pkt_with_sseq_def tcp_send_pkt_def Let_def upd_tcp_stats_def)

lemma recv_stat_tx [simp]:
  "e_tx (TCP_RECV_RST_INC_STAT t e) = e_tx e" "e_tx (TCP_RECV_FIN_INC_STAT t e) = e_tx e"
  "e_tx (TCP_RECV_SYN_INC_STAT t e) = e_tx e"
  by (simp_all add: TCP_RECV_RST_INC_STAT_def TCP_RECV_FIN_INC_STAT_def TCP_RECV_SYN_INC_STAT_def upd_tcp_stats_def)

text \<open>
  C6: A segment outside of the window does not change the connection, in every synchronised state: it is
  answered with an acknowledgment of what was received, or not at all when it is a reset.
\<close>

theorem unacceptable_segment_answered:
  assumes "tcb_state t \<in> syn_states" and "\<not> seg_acceptable t e" and "e_tx_outcomes e = []"
  shows "\<exists>e'. tsm_dispatch_net_event P t e = Some (0, t, e') \<and>
           e_tx e' = e_tx e @ (if TCP_IS_FLAG_SET (pcb_tcp (e_pcb e)) RTE_TCP_RST_FLAG then []
                               else [tcp_build_hdr t (snd_nxt t) RTE_TCP_ACK_FLAG []])"
proof -
  have "tsm_dispatch_net_event P t e = Some (0, t, tsm_seg_not_ok t e)"
    using assms(1,2)
    by (auto simp: syn_states_def seg_acceptable_def tsm_dispatch_net_event_def tsm_dispatch_event_def eval_nat_numeral
        tsm_function_array_def tsm_SF_defs tsm_syn_recv_segment_def tsm_estab_segment_def tsm_fin_wait_I_segment_def
        tsm_fin_wait_II_segment_def tsm_close_wait_segment_def tsm_closing_segment_def tsm_last_ack_segment_def
        tsm_time_wait_segment_def Let_def)
  then show ?thesis using assms(3) by (simp add: tsm_seg_not_ok_def)
qed

theorem unacceptable_segment_answered_witness:
  "\<exists>e'. ex_run TS_ESTABLISHED TSTS_CL_OPEN TE_SEGMENT_ARRIVES (ex_pcb (ex_hdr 0x10 400 101) [1]) =
     Some (0, ex_tcb TS_ESTABLISHED TSTS_CL_OPEN, e') \<and> length (e_tx e') = 1"
proof -
  let ?t = "ex_tcb TS_ESTABLISHED TSTS_CL_OPEN" and ?pcb = "ex_pcb (ex_hdr 0x10 400 101) [1]"
  have "\<not> seg_acceptable ?t (ex_env ?t ?pcb)"
    by (simp add: seg_acceptable_def) code_simp
  with unacceptable_segment_answered [of ?t "ex_env ?t ?pcb" ex_P]
  show ?thesis
    by (auto simp: ex_run_def tsm_dispatch_net_event_def syn_states_def ex_env_def ex_pcb_def ex_hdr_def
        TCP_IS_FLAG_SET_def tcp_flag_defs)
qed

subsection \<open>The end of a connection\<close>

lemma cancel_tx:
  "rto_cancel_if_set t e = Some (t', e') \<Longrightarrow> e_tx e' = e_tx e \<and> e_tsm_stats e' = e_tsm_stats e"
  "slow_cancel_if_set t e = Some (t', e') \<Longrightarrow> e_tx e' = e_tx e \<and> e_tsm_stats e' = e_tsm_stats e"
  "slow_cancel t e = Some (t', e') \<Longrightarrow> e_tx e' = e_tx e \<and> e_tsm_stats e' = e_tsm_stats e"
  "rto_cancel t e = Some (t', e') \<Longrightarrow> e_tx e' = e_tx e \<and> e_tsm_stats e' = e_tsm_stats e"
  by (auto simp: rto_cancel_if_set_def rto_cancel_def tcp_timer_rto_cancel_def slow_cancel_if_set_def
      slow_cancel_def tcp_timer_slow_cancel_def upd_timer_stats_def split: if_splits)

lemma cancel_same:
  "slow_cancel t e = Some (t', e') \<Longrightarrow> t' = t \<or> t' = t\<lparr>tcb_on_slow_list := False\<rparr>"
  "rto_cancel t e = Some (t', e') \<Longrightarrow> t' = t \<or> t' = t\<lparr>tcb_on_rto_list := False\<rparr>"
  "rto_cancel_if_set t e = Some (t', e') \<Longrightarrow> t' = t \<or> t' = t\<lparr>tcb_on_rto_list := False\<rparr>"
  "slow_cancel_if_set t e = Some (t', e') \<Longrightarrow> t' = t \<or> t' = t\<lparr>tcb_on_slow_list := False\<rparr>"
  by (auto simp: rto_cancel_def tcp_timer_rto_cancel_def slow_cancel_def tcp_timer_slow_cancel_def
      rto_cancel_if_set_def slow_cancel_if_set_def split: if_splits)

lemma tcp_notif_same:
  fixes t :: "'a tcb" and e :: "'a env"
  assumes "TCP_NOTIF P n t e = Some (t', e')"
  shows "l4cb.more t' = l4cb.more t" "core_env.more e' = core_env.more e" "l4cb_interface t' = l4cb_interface t"
    "l4cb_id t' = l4cb_id t" "l4cb_sockopt t' = l4cb_sockopt t" "l4cb_rx_hash t' = l4cb_rx_hash t"
    "l4cb_src_port t' = l4cb_src_port t" "l4cb_dst_port t' = l4cb_dst_port t"
    "l4cb_src_addr t' = l4cb_src_addr t" "l4cb_dst_addr t' = l4cb_dst_addr t"
    "ce_now e' = ce_now e" "ce_cycles_per_us e' = ce_cycles_per_us e"
  using test_notification_frame [of "p_app P" n t e t' e'] assms by (simp_all add: TCP_NOTIF_def sm_frame_def)

lemmas tcp_notif_more = tcb_more_eq [OF tcp_notif_same(1)] env_more_eq [OF tcp_notif_same(2)]

lemma build_hdr_cong:
  fixes t t' :: "'a tcb"
  assumes "TCP_NOTIF P n t e = Some (t', e')"
  shows "tcp_build_hdr t' s f d = tcp_build_hdr t s f d"
  using tcp_notif_same [OF assms] tcp_notif_more [OF assms] by (simp add: tcp_build_hdr_def)

lemma upd_env_same [simp]:
  "e_tx (upd_tcp_stats p f e) = e_tx e" "e_tx (upd_tsm_stats p g e) = e_tx e"
  "e_tx_outcomes (upd_tcp_stats p f e) = e_tx_outcomes e" "e_tx_outcomes (upd_tsm_stats p g e) = e_tx_outcomes e"
  "e_tsm_stats (upd_tcp_stats p f e) = e_tsm_stats e" "e_pcb (upd_tcp_stats p f e) = e_pcb e"
  "e_pcb (upd_tsm_stats p g e) = e_pcb e"
  by (simp_all add: upd_tcp_stats_def upd_tsm_stats_def)

lemma silent_close_tx:
  assumes "tcp_silent_close t e = Some (r, t', e')" and "e_tx_outcomes e = []"
  shows "tcb_state t' = tcb_state t \<and>
    e_tx e' = e_tx e @ (if tcb_rst_rcvd t then []
       else [tcp_build_hdr t (snd_nxt t) (RTE_TCP_ACK_FLAG OR RTE_TCP_RST_FLAG) []])"
proof -
  let ?e = "if \<not> tcb_rst_rcvd t then tcp_send_ctrl_pkt t (RTE_TCP_ACK_FLAG OR RTE_TCP_RST_FLAG) e else e"
  obtain e1 t2 e2 t3 e3 e4 where
    d: "tlkp_delete_tcb t ?e = Some e1" "rto_cancel_if_set t e1 = Some (t2, e2)"
      "slow_cancel_if_set t2 e2 = Some (t3, e3)"
      "tsm_terminate_statemachine (t3\<lparr>tr_data_mbufs := [], tr_total_size := 0, tcb_rcv_buf := []\<rparr>) e3 = Some e4"
      "t' = t3\<lparr>tr_data_mbufs := [], tr_total_size := 0, tcb_rcv_buf := []\<rparr>" and
    e': "e_tx e' = e_tx e4"
    using assms(1) by (auto simp: tcp_silent_close_def Let_def tlkp_free_tcb_def split: if_splits)
  have "e_tx e1 = e_tx ?e" using d(1) by (auto simp: tlkp_delete_tcb_def)
  moreover have "e_tx e2 = e_tx e1" "e_tx e3 = e_tx e2" using d(2,3) by (simp_all add: cancel_tx)
  moreover have "e_tx e4 = e_tx e3"
    using d(4) by (auto simp: tsm_terminate_statemachine_def split: if_splits)
  moreover have "tcb_state t3 = tcb_state t" using d(2,3) by (auto dest!: cancel_same)
  ultimately show ?thesis using assms(2) d(5) e' by (simp split: if_splits)
qed

lemma enter_closed_tx:
  fixes t :: "'a tcb"
  assumes "tsm_enter_state (tsm_run (Suc n) P) TS_CLOSED arg t e = Some (r, t', e')" and "e_tx_outcomes e = []"
  shows "tcb_state t' = TS_CLOSED \<and>
    e_tx e' = e_tx e @ (if tcb_rst_rcvd t then []
       else [tcp_build_hdr t (snd_nxt t) (RTE_TCP_ACK_FLAG OR RTE_TCP_RST_FLAG) []])"
proof -
  let ?e = "upd_tsm_stats (l4cb_interface t) (tsm_inc_state TS_CLOSED)
     (if TS_CLOSED \<noteq> tcb_state t \<and> tcb_state t \<noteq> TS_LISTEN
      then upd_tsm_stats (l4cb_interface t) (tsm_dec_state (tcb_state t)) e else e)"
  obtain t1 e1 where n: "TCP_NOTIF P TEST_NOTIF_SESS_CLOSED (t\<lparr>tcb_state := TS_CLOSED\<rparr>) ?e = Some (t1, e1)"
    and c: "tcp_silent_close t1 (if arg = PcbArg then e1\<lparr>e_pcb := (e_pcb e1)\<lparr>pcb_sockopt := None\<rparr>\<rparr> else e1) = Some (r, t', e')"
    using assms(1) by (auto simp: tsm_enter_state_def Let_def tsm_function_array_def tsm_SF_closed_def)
  note m = tcp_notif_more [OF n]
  show ?thesis
    using silent_close_tx [OF c] m assms(2) build_hdr_cong [OF n] by (simp add: tcp_build_hdr_def split: if_splits)
qed

lemma notif_closing_closed_tx:
  fixes t :: "'a tcb"
  assumes "tsm_notif_closing_enter P (tsm_run (Suc n) P) TS_CLOSED t e = Some (r, t', e')" and "e_tx_outcomes e = []"
  shows "tcb_state t' = TS_CLOSED \<and>
    e_tx e' = e_tx e @ (if tcb_rst_rcvd t then []
       else [tcp_build_hdr t (snd_nxt t) (RTE_TCP_ACK_FLAG OR RTE_TCP_RST_FLAG) []])"
proof -
  obtain t1 e1 where n: "TCP_NOTIF P TEST_NOTIF_SESS_CLOSING t e = Some (t1, e1)"
    and c: "tsm_enter_state (tsm_run (Suc n) P) TS_CLOSED NoArg t1 e1 = Some (r, t', e')"
    using assms(1) by (auto simp: tsm_notif_closing_enter_def)
  show ?thesis using enter_closed_tx [OF c] tcp_notif_more [OF n] assms(2) build_hdr_cong [OF n] by simp
qed

lemma dispatch_array:
  "tsm_dispatch_event P ev arg t e = tsm_function_array P (tcb_state t) (tsm_run (Suc (Suc 0)) P) ev arg t e"
  by (simp add: tsm_dispatch_event_def eval_nat_numeral)

lemmas segment_defs = tsm_syn_recv_segment_def tsm_estab_segment_def tsm_fin_wait_I_segment_def
  tsm_fin_wait_II_segment_def tsm_close_wait_segment_def tsm_closing_segment_def tsm_last_ack_segment_def
  tsm_time_wait_segment_def

text \<open>
  A reset in the window ends the connection in every synchronised state, and is not answered by anything.
\<close>

theorem reset_closes_silently:
  fixes t :: "'a tcb"
  assumes "tcb_state t \<in> syn_states" and "seg_acceptable t e"
    and "TCP_IS_FLAG_SET (pcb_tcp (e_pcb e)) RTE_TCP_RST_FLAG" and "e_tx_outcomes e = []"
    and "tsm_dispatch_net_event P t e = Some (r, t', e')"
  shows "tcb_state t' = TS_CLOSED \<and> e_tx e' = e_tx e"
proof -
  let ?d = "tsm_run (Suc (Suc 0)) P" and ?t = "t\<lparr>tcb_rst_rcvd := True\<rparr>" and ?e = "TCP_RECV_RST_INC_STAT t e"
  have out: "e_tx_outcomes ?e = []" using assms(4) by (simp add: TCP_RECV_RST_INC_STAT_def)
  have "tsm_notif_closing_enter P ?d TS_CLOSED ?t ?e = Some (r, t', e') \<or>
      tsm_enter_state ?d TS_CLOSED NoArg ?t ?e = Some (r, t', e') \<or>
      (\<exists>t1 e1. slow_cancel t ?e = Some (t1, e1) \<and>
         tsm_enter_state ?d TS_CLOSED NoArg (t1\<lparr>tcb_rst_rcvd := True\<rparr>) e1 = Some (r, t', e'))"
    using assms(1-3,5)
    by (auto simp: syn_states_def seg_acceptable_def tsm_dispatch_net_event_def dispatch_array
        tsm_function_array_def tsm_SF_defs segment_defs Let_def simp del: tsm_run.simps)
  then show ?thesis
  proof (elim disjE exE conjE)
    assume "tsm_notif_closing_enter P ?d TS_CLOSED ?t ?e = Some (r, t', e')"
    from notif_closing_closed_tx [OF this out] show ?thesis by simp
  next
    assume "tsm_enter_state ?d TS_CLOSED NoArg ?t ?e = Some (r, t', e')"
    from enter_closed_tx [OF this out] show ?thesis by simp
  next
    fix t1 e1
    assume c: "slow_cancel t ?e = Some (t1, e1)"
      and n: "tsm_enter_state ?d TS_CLOSED NoArg (t1\<lparr>tcb_rst_rcvd := True\<rparr>) e1 = Some (r, t', e')"
    have "e_tx_outcomes e1 = []" using c out
      by (auto simp: slow_cancel_def tcp_timer_slow_cancel_def upd_timer_stats_def split: if_splits)
    from enter_closed_tx [OF n this] cancel_tx(3) [OF c] show ?thesis by simp
  qed
qed

theorem reset_closes_silently_witness:
  "\<exists>r t' e'. ex_run TS_ESTABLISHED TSTS_CL_OPEN TE_SEGMENT_ARRIVES (ex_pcb (ex_hdr 0x14 501 101) []) =
     Some (r, t', e') \<and> tcb_state t' = TS_CLOSED \<and> e_tx e' = []"
proof -
  let ?t = "ex_tcb TS_ESTABLISHED TSTS_CL_OPEN" and ?pcb = "ex_pcb (ex_hdr 0x14 501 101) []"
  have "case ex_run TS_ESTABLISHED TSTS_CL_OPEN TE_SEGMENT_ARRIVES ?pcb of None \<Rightarrow> False | Some (r, t', e') \<Rightarrow> True"
    by code_simp
  then obtain r t' e' where r: "ex_run TS_ESTABLISHED TSTS_CL_OPEN TE_SEGMENT_ARRIVES ?pcb = Some (r, t', e')"
    by (auto split: option.splits)
  have "seg_acceptable ?t (ex_env ?t ?pcb)" unfolding seg_acceptable_def by code_simp
  moreover have "e_tx_outcomes (ex_env ?t ?pcb) = []" "e_tx (ex_env ?t ?pcb) = []" by (simp_all add: ex_env_def)
  ultimately show ?thesis
    using reset_closes_silently [of ?t "ex_env ?t ?pcb" ex_P r t' e'] r
    by (simp add: ex_run_def tsm_dispatch_net_event_def syn_states_def ex_pcb_def ex_hdr_def
        TCP_IS_FLAG_SET_def tcp_flag_defs)
qed

text \<open>
  The orderly end of a connection also ends with a reset: when the last acknowledgment arrives in
  \<open>LAST_ACK\<close>, and when \<open>TIME_WAIT\<close> is over, the block is closed and a segment with ACK and RST goes to the
  peer, although the close is called silent and no reset was due.
\<close>

theorem orderly_close_sends_reset:
  fixes t :: "'a tcb"
  assumes "(tcb_state t = TS_LAST_ACK \<and> ev = TE_SEGMENT_ARRIVES \<and> seg_acceptable t e \<and>
             th_flags (pcb_tcp (e_pcb e)) = 0x10 \<and> th_recv_ack (pcb_tcp (e_pcb e)) = snd_nxt t) \<or>
           (tcb_state t = TS_TIME_WAIT \<and> ev = TE_TIME_WAIT_TIMEOUT)"
    and "\<not> tcb_rst_rcvd t" and "e_tx_outcomes e = []"
    and "tsm_dispatch_event P ev PcbArg t e = Some (r, t', e')"
  shows "tcb_state t' = TS_CLOSED \<and> (\<exists>p. e_tx e' = e_tx e @ [p] \<and> tx_flags p = 0x14)"
proof -
  have "tsm_enter_state (tsm_run (Suc (Suc 0)) P) TS_CLOSED NoArg t e = Some (r, t', e')"
    using assms(1,4)
    by (auto simp: dispatch_array tsm_function_array_def tsm_SF_defs segment_defs Let_def seg_acceptable_def
        TCP_IS_FLAG_SET_def tcp_flag_defs SEG_EQ_def simp del: tsm_run.simps)
  from enter_closed_tx [OF this assms(3)] assms(2) show ?thesis
    by (simp add: tcp_build_hdr_def tcp_flag_defs)
qed

theorem orderly_close_sends_reset_witness:
  "\<exists>r t' e' p. ex_run TS_LAST_ACK TSTS_PURGED TE_SEGMENT_ARRIVES (ex_pcb (ex_hdr 0x10 501 101) []) =
     Some (r, t', e') \<and> e_tx e' = [p] \<and> tx_flags p = 0x14"
proof -
  let ?t = "ex_tcb TS_LAST_ACK TSTS_PURGED" and ?pcb = "ex_pcb (ex_hdr 0x10 501 101) []"
  obtain r t' e' where r: "ex_run TS_LAST_ACK TSTS_PURGED TE_SEGMENT_ARRIVES ?pcb = Some (r, t', e')"
    using ex_run_last_ack by blast
  have "seg_acceptable ?t (ex_env ?t ?pcb)" unfolding seg_acceptable_def by code_simp
  moreover have "e_tx_outcomes (ex_env ?t ?pcb) = []" "e_tx (ex_env ?t ?pcb) = []" by (simp_all add: ex_env_def)
  moreover have "\<not> tcb_rst_rcvd ?t" "snd_nxt ?t = 101" by (simp_all add: ex_tcb_def zero_tcb_def)
  moreover have "th_flags (pcb_tcp ?pcb) = 0x10" "th_recv_ack (pcb_tcp ?pcb) = 101" by (simp_all add: ex_pcb_def ex_hdr_def)
  ultimately show ?thesis
    using orderly_close_sends_reset [of ?t TE_SEGMENT_ARRIVES "ex_env ?t ?pcb" ex_P r t' e'] r
    by (simp add: ex_run_def)
qed

subsection \<open>Acknowledgments\<close>

lemma chain_ok_set_hd [simp]: "chain_ok (set_hd_pkt_len l c) = chain_ok c"
  by (cases c) (simp_all)

lemma chain_bytes_set_hd [simp]: "chain_bytes (set_hd_pkt_len l c) = chain_bytes c"
  by (cases c) simp_all

definition no_empty :: "chain \<Rightarrow> bool" where
  "no_empty c \<longleftrightarrow> list_all (\<lambda>m. mb_data m \<noteq> []) c"

lemma no_empty_simps [simp]: "no_empty []" "no_empty (m # ms) \<longleftrightarrow> mb_data m \<noteq> [] \<and> no_empty ms"
  by (simp_all add: no_empty_def)

lemma no_empty_set_hd [simp]: "no_empty (set_hd_pkt_len l c) = no_empty c"
  by (cases c) simp_all

lemma cleanup_loop_bytes:
  assumes "chain_ok c" and "unat k \<le> length (chain_bytes c)"
  shows "\<exists>c' k'. tsm_cleanup_loop c k = Some (c', k') \<and> chain_ok c' \<and>
           drop (unat k') (chain_bytes c') = drop (unat k) (chain_bytes c) \<and>
           (k' \<noteq> 0 \<longrightarrow> (\<exists>m ms. c' = m # ms \<and> unat k' < length (mb_data m))) \<and> (no_empty c \<longrightarrow> no_empty c')"
  using assms
proof (induction c k rule: tsm_cleanup_loop.induct)
  case (1 k)
  then show ?case by (simp add: unat_eq_0)
next
  case (2 m ms k)
  from "2.prems" have m: "mbuf_ok m" and ms: "chain_ok ms" by (auto dest: chain_ok_ConsD)
  show ?case
  proof (cases "k \<noteq> 0 \<and> k \<ge> data_len m")
    case True
    then have le: "length (mb_data m) \<le> unat k" using m by (simp add: word_le_nat_alt)
    then have sub: "unat (k - data_len m) = unat k - length (mb_data m)"
      using m by (simp add: unat_sub word_le_nat_alt)
    have "unat (k - data_len m) \<le> length (chain_bytes (set_hd_pkt_len (mb_pkt_len m - data_len m) ms))"
      using "2.prems"(2) by (simp add: sub)
    from "2.IH" [OF True _ this] ms True le sub show ?thesis by auto
  next
    case False
    then have "k \<noteq> 0 \<longrightarrow> unat k < length (mb_data m)" using m by (auto simp: word_le_nat_alt)
    then show ?thesis using False "2.prems" by auto
  qed
qed

lemma adj_head_no_empty:
  assumes "rte_pktmbuf_adj_spec adj" and "mbuf_ok m" and "unat k < length (mb_data m)" and "no_empty (m # ms)"
    and "data_adj_chain adj (m # ms) k = Some c"
  shows "no_empty c"
proof -
  have k: "unat (ucast k :: u16) = unat k" using assms(2,3) by (intro ucast16_unat) (simp add: mbuf_ok_def)
  have "mbuf_ok (m\<lparr>mb_data := drop (unat k) (mb_data m), mb_pkt_len := l\<rparr>)" for l
    using assms(2) by (simp add: mbuf_ok_def)
  from data_len_eq_0 [OF this] assms(3)
  have "data_len (m\<lparr>mb_data := drop (unat k) (mb_data m), mb_pkt_len := l\<rparr>) \<noteq> 0" for l by simp
  with assms k show ?thesis
    by (auto simp: data_adj_chain_def rte_pktmbuf_adj_spec_def Let_def)
qed

lemma cleanup_chain_bytes:
  assumes adj: "rte_pktmbuf_adj_spec adj" and c: "chain_ok c" "no_empty c" and k: "unat k \<le> length (chain_bytes c)"
  shows "\<exists>c'. tsm_cleanup_chain adj c k = Some c' \<and> chain_ok c' \<and> no_empty c' \<and>
           chain_bytes c' = drop (unat k) (chain_bytes c)"
proof -
  from cleanup_loop_bytes [OF c(1) k] c(2) obtain c1 k1 where
    1: "tsm_cleanup_loop c k = Some (c1, k1)" "chain_ok c1" "no_empty c1"
      "drop (unat k1) (chain_bytes c1) = drop (unat k) (chain_bytes c)"
      "k1 \<noteq> 0 \<longrightarrow> (\<exists>m ms. c1 = m # ms \<and> unat k1 < length (mb_data m))" by blast
  have "\<exists>c2. (if k1 \<noteq> 0 then data_adj_chain adj c1 k1 else Some c1) = Some c2 \<and> chain_ok c2 \<and> no_empty c2 \<and>
      chain_bytes c2 = drop (unat k) (chain_bytes c)"
  proof (cases "k1 = 0")
    case True
    with 1 show ?thesis by simp
  next
    case False
    with 1(5) obtain m ms where m: "c1 = m # ms" "unat k1 < length (mb_data m)" by blast
    then have ok: "mbuf_ok m" using 1(2) by (auto dest: chain_ok_ConsD)
    with m have lt: "unat k1 \<le> length (chain_bytes c1)" "unat k1 < 65536" by (simp_all add: mbuf_ok_def)
    from data_adj_chain_bytes [OF adj 1(2) _ lt] m obtain c2 where
      2: "data_adj_chain adj c1 k1 = Some c2" "chain_ok c2" "chain_bytes c2 = drop (unat k1) (chain_bytes c1)" by auto
    moreover have "no_empty c2" using adj_head_no_empty [OF adj ok m(2), of ms c2] 1(3) 2(1) m(1) by simp
    ultimately show ?thesis using False 1(4) by simp
  qed
  then obtain c2 where 2: "(if k1 \<noteq> 0 then data_adj_chain adj c1 k1 else Some c1) = Some c2" "chain_ok c2"
    "no_empty c2" "chain_bytes c2 = drop (unat k) (chain_bytes c)" by blast
  have "(case c2 of [] \<Rightarrow> [] | m # ms \<Rightarrow> if data_len m = 0 then ms else m # ms) = c2"
    using 2(2,3) by (cases c2) (auto simp: data_len_eq_0 dest: chain_ok_ConsD)
  with 1(1) 2 show ?thesis by (simp add: tsm_cleanup_chain_def)
qed

lemma rto_cancel_on:
  assumes "tmr_inv t e" and "tcb_on_rto_list t"
  shows "\<exists>e'. rto_cancel t e = Some (t\<lparr>tcb_on_rto_list := False\<rparr>, e')"
proof -
  have "l4cb_id t \<in> set (tw_entries (e_rto_wheel e))" using assms by (simp add: tmr_inv_def)
  then have "TIMER_CANCEL (l4cb_id t) (e_rto_wheel e) \<noteq> None"
    by (auto simp: TIMER_CANCEL_def tw_entries_def tmr_bucket_of_def find_None_iff split: option.splits)
  then show ?thesis using assms(2) by (auto simp: rto_cancel_def tcp_timer_rto_cancel_def)
qed

text \<open>
  C4: An acknowledgment of data takes exactly the acknowledged bytes off the front of the send queue; what follows
  stays as it is, \<open>SND.UNA\<close> becomes the acknowledged number, the retries start anew, and the
  retransmission timer stops exactly when nothing is left. When the send window was full and the acknowledgment opens
  it, the session is told so and the statistics count one full window less; the result is then exactly the result of
  that notification, and otherwise the block described. (What the notification does is the session's matter: an
  established session goes on, \<open>window_reopened_while_closing_aborts\<close> shows a closing one that aborts.)
\<close>

theorem ack_takes_acked_bytes:
  fixes t :: "'a tcb"
  assumes "rte_pktmbuf_adj_spec (p_adj P)" and "snd_wf t" and "no_empty (tr_data_mbufs t)" and "tmr_inv t e"
    and "0 < unat (seg_ack - snd_una t)" and "unat (seg_ack - snd_una t) \<le> length (snd_bytes t)"
  shows "\<exists>t' e'. tsm_cleanup_retrans_queu P seg_ack t e =
             (if tcp_snd_win_full t \<and> \<not> tcp_snd_win_full t'
              then Option.bind (TCP_NOTIF P TEST_NOTIF_SESS_WIN_AVAIL t' e')
                     (\<lambda>(t, e). Some (t, upd_tsm_stats (l4cb_interface t)
                                        (\<lambda>s. s\<lparr>tsms_snd_win_full := tsms_snd_win_full s - 1\<rparr>) e))
              else Some (t', e')) \<and>
           snd_bytes t' = drop (unat (seg_ack - snd_una t)) (snd_bytes t) \<and> snd_una t' = seg_ack \<and>
           snd_nxt t' = snd_nxt t \<and> snd_wnd t' = snd_wnd t \<and>
           l4cb_test_state t' = l4cb_test_state t \<and> tcb_retrans_cnt t' = 0 \<and> snd_wf t' \<and>
           (snd_bytes t' = [] \<longrightarrow> \<not> tcb_on_rto_list t') \<and>
           (snd_bytes t' \<noteq> [] \<longrightarrow> tcb_on_rto_list t' = tcb_on_rto_list t \<and> e' = e)"
proof -
  let ?k = "seg_ack - snd_una t"
  have q: "chain_ok (tr_data_mbufs t)" "unat (tr_total_size t) = length (snd_bytes t)"
    "tr_last_set t = (tr_data_mbufs t \<noteq> [])" "tr_total_size t \<le> tcpo_win_size (l4cb_sockopt t)"
    using assms(2) by (simp_all add: snd_wf_def)
  from cleanup_chain_bytes [OF assms(1) q(1) assms(3)] assms(6) obtain c where
    c: "tsm_cleanup_chain (p_adj P) (tr_data_mbufs t) ?k = Some c" "chain_ok c" "no_empty c"
      "chain_bytes c = drop (unat ?k) (snd_bytes t)" by (auto simp: snd_bytes_def)
  have nz: "?k \<noteq> 0" using assms(5) by auto
  have le: "\<not> tr_total_size t < ?k" using assms(6) q(2) by (simp add: word_less_nat_alt)
  have tot: "unat (tr_total_size t - ?k) = length (snd_bytes t) - unat ?k"
    using assms(6) q(2) by (simp add: unat_sub word_le_nat_alt)
  then have lim: "tr_total_size t - ?k \<le> tcpo_win_size (l4cb_sockopt t)"
    using q(2,4) by (simp add: word_le_nat_alt)
  have last: "tr_last_set t" using assms(5,6) q(3) by (auto simp: snd_bytes_def)
  have ce: "c = [] \<longleftrightarrow> chain_bytes c = []" using c(3) by (cases c) auto
  let ?t = "t\<lparr>tr_total_size := tr_total_size t - ?k, tr_data_mbufs := c\<rparr>"
  show ?thesis
  proof (cases "c = []")
    case False
    let ?t' = "?t\<lparr>snd_una := seg_ack, tcb_retrans_cnt := 0\<rparr>"
    have "tsm_cleanup_retrans_queu P seg_ack t e =
        (if tcp_snd_win_full t \<and> \<not> tcp_snd_win_full ?t'
         then Option.bind (TCP_NOTIF P TEST_NOTIF_SESS_WIN_AVAIL ?t' e)
                (\<lambda>(t, e). Some (t, upd_tsm_stats (l4cb_interface t)
                                  (\<lambda>s. s\<lparr>tsms_snd_win_full := tsms_snd_win_full s - 1\<rparr>) e))
         else Some (?t', e))"
      using False c(1) nz le by (simp add: tsm_cleanup_retrans_queu_def SEG_DIFF_def Let_def)
    then show ?thesis using False c(2,4) tot lim last ce
      by (intro exI [where x = ?t'] exI [where x = e]) (simp add: snd_wf_def snd_bytes_def)
  next
    case True
    have inv: "tmr_inv (?t\<lparr>tr_last_set := False\<rparr>) e" using assms(4) by (simp add: tmr_inv_def)
    obtain b e1 where r: "rto_cancel (?t\<lparr>tr_last_set := False\<rparr>) e = Some (?t\<lparr>tr_last_set := False, tcb_on_rto_list := b\<rparr>, e1)"
      and b: "\<not> b"
    proof (cases "tcb_on_rto_list t")
      case True
      with rto_cancel_on [OF inv] that [of False] show ?thesis by auto
    next
      case False
      then show ?thesis using that [of False] by (cases t) (auto simp: rto_cancel_def tcp_timer_rto_cancel_def)
    qed
    let ?t' = "?t\<lparr>tr_last_set := False, tcb_on_rto_list := b, snd_una := seg_ack, tcb_retrans_cnt := 0\<rparr>"
    have "tsm_cleanup_retrans_queu P seg_ack t e =
        (if tcp_snd_win_full t \<and> \<not> tcp_snd_win_full ?t'
         then Option.bind (TCP_NOTIF P TEST_NOTIF_SESS_WIN_AVAIL ?t' e1)
                (\<lambda>(t, e). Some (t, upd_tsm_stats (l4cb_interface t)
                                  (\<lambda>s. s\<lparr>tsms_snd_win_full := tsms_snd_win_full s - 1\<rparr>) e))
         else Some (?t', e1))"
      using r c(1) nz le True by (simp add: tsm_cleanup_retrans_queu_def SEG_DIFF_def Let_def)
    then show ?thesis using True c(2,4) tot lim b
      by (intro exI [where x = ?t'] exI [where x = e1]) (simp add: snd_wf_def snd_bytes_def)
  qed
qed

text \<open>Two of three bytes are acknowledged, with a window larger than them and with the full window of three bytes, where
  the sending client is told.\<close>

theorem ack_takes_acked_bytes_witness:
  "(\<exists>t' e'. tsm_cleanup_retrans_queu ex_P 102 ex_snd_tcb ex_snd_env = Some (t', e') \<and>
      snd_bytes t' = [9] \<and> snd_una t' = 102) \<and>
   (let t = ex_snd_tcb\<lparr>snd_nxt := 103, snd_wnd := 2\<rparr>
    in tcp_snd_win_full t \<and>
       (\<exists>t' e'. tsm_cleanup_retrans_queu ex_P 102 t ex_snd_env = Some (t', e') \<and>
          snd_bytes t' = [9] \<and> snd_una t' = 102 \<and> \<not> tcp_snd_win_full t'))"
proof -
  let ?f = "ex_snd_tcb\<lparr>snd_nxt := 103, snd_wnd := 2\<rparr>"
  have una: "snd_una ex_snd_tcb = 101" and nf: "\<not> tcp_snd_win_full ex_snd_tcb" and f: "tcp_snd_win_full ?f"
    and ne: "no_empty (tr_data_mbufs ex_snd_tcb)" and wf: "snd_wf ?f"
    and fb: "snd_bytes ?f = [8, 9]" and tst: "l4cb_test_state ex_snd_tcb = TSTS_CL_SENDING"
    using ex_snd_simps by (simp_all add: ex_snd_tcb_def ex_tcb_def tcp_snd_win_full_def SEG_defs snd_wf_def snd_bytes_def)
  have inv: "tmr_inv ex_snd_tcb ex_snd_env" "tmr_inv ?f ex_snd_env"
    by (simp_all add: tmr_inv_def ex_snd_env_def ex_snd_tcb_def ex_tcb_def zero_tcb_def)
  have a: "rte_pktmbuf_adj_spec (p_adj ex_P)" by (simp add: ex_P_def ex_adj_spec)
  have "\<exists>t' e'. tsm_cleanup_retrans_queu ex_P 102 ex_snd_tcb ex_snd_env = Some (t', e') \<and>
      snd_bytes t' = [9] \<and> snd_una t' = 102"
    using ack_takes_acked_bytes [OF a _ ne inv(1), of 102] una nf by auto
  moreover have "\<exists>t' e'. tsm_cleanup_retrans_queu ex_P 102 ?f ex_snd_env = Some (t', e') \<and>
          snd_bytes t' = [9] \<and> snd_una t' = 102 \<and> \<not> tcp_snd_win_full t'"
  proof -
    obtain t1 e1 where
      r: "tsm_cleanup_retrans_queu ex_P 102 ?f ex_snd_env =
            (if \<not> tcp_snd_win_full t1
             then Option.bind (TCP_NOTIF ex_P TEST_NOTIF_SESS_WIN_AVAIL t1 e1)
                    (\<lambda>(t, e). Some (t, upd_tsm_stats (l4cb_interface t)
                                       (\<lambda>s. s\<lparr>tsms_snd_win_full := tsms_snd_win_full s - 1\<rparr>) e))
             else Some (t1, e1))"
      and t1: "snd_bytes t1 = [9]" "snd_una t1 = 102" "snd_nxt t1 = 103" "snd_wnd t1 = 2" "l4cb_test_state t1 = TSTS_CL_SENDING"
      using ack_takes_acked_bytes [OF a wf _ inv(2), of 102] una f ne tst fb by auto
    from t1 have "\<not> tcp_snd_win_full t1" by (simp add: tcp_snd_win_full_def SEG_defs)
    moreover from t1 have "TCP_NOTIF ex_P TEST_NOTIF_SESS_WIN_AVAIL t1 e1 = Some (t1, e1)"
      by (simp add: TCP_NOTIF_def test_notification_def test_sm_dispatch_event_def eval_nat_numeral
          test_sm_function_array_def test_sm_SF_client_sending_def)
    ultimately show ?thesis using r t1 by auto
  qed
  ultimately show ?thesis using f by simp
qed

text \<open>
  A client that is closing aborts the program on the acknowledgment that reopens a full window: the session state machine
  has no transition for it. The FIN counts as one byte of the window, so it can fill the window after the
  notifications of the open connection are over.
\<close>

theorem window_reopened_while_closing_aborts:
  fixes t :: "'a tcb"
  assumes "rte_pktmbuf_adj_spec (p_adj P)" and "snd_wf t" and "no_empty (tr_data_mbufs t)"
    and "tcb_state t = TS_FIN_WAIT_I" and "l4cb_test_state t = TSTS_CL_CLOSING" and "tcp_snd_win_full t"
    and "seg_acceptable t e" and "th_flags (pcb_tcp (e_pcb e)) = 0x10"
    and "0 < unat (th_recv_ack (pcb_tcp (e_pcb e)) - snd_una t)"
    and "unat (th_recv_ack (pcb_tcp (e_pcb e)) - snd_una t) < length (snd_bytes t)"
    and "unat (snd_nxt t - snd_una t) = length (snd_bytes t) + 1" and "length (snd_bytes t) < 2 ^ 30"
  shows "tsm_dispatch_net_event P t e = None"
proof -
  let ?ack = "th_recv_ack (pcb_tcp (e_pcb e))"
  let ?k = "?ack - snd_una t"
  have q: "chain_ok (tr_data_mbufs t)" "unat (tr_total_size t) = length (snd_bytes t)"
    using assms(2) by (simp_all add: snd_wf_def)
  have "unat ?k \<le> length (chain_bytes (tr_data_mbufs t))" using assms(10) by (simp add: snd_bytes_def)
  from cleanup_chain_bytes [OF assms(1) q(1) assms(3) this] obtain c where
    c: "tsm_cleanup_chain (p_adj P) (tr_data_mbufs t) ?k = Some c" "chain_bytes c = drop (unat ?k) (snd_bytes t)"
    unfolding snd_bytes_def by blast
  have "c \<noteq> []" using c(2) assms(10) by auto
  have nz: "?k \<noteq> 0" using assms(9) by auto
  have le: "\<not> tr_total_size t < ?k" using assms(10) q(2) by (simp add: word_less_nat_alt)
  have "snd_nxt t - ?ack = (snd_nxt t - snd_una t) - ?k" by simp
  then have d: "unat (snd_nxt t - ?ack) = length (snd_bytes t) + 1 - unat ?k"
    using unat_sub_if_word [of "snd_nxt t - snd_una t" ?k] assms(10,11) by simp
  then have ne: "?ack \<noteq> snd_nxt t" using assms(10) by auto
  have seg: "SEG_GT ?ack (snd_una t)" "SEG_LE ?ack (snd_nxt t)"
  proof -
    have "0 < unat (snd_nxt t - ?ack)" "unat (snd_nxt t - ?ack) \<le> 2 ^ 31" "unat ?k \<le> 2 ^ 31"
      unfolding d using assms(10,12) by simp_all
    then show "SEG_GT ?ack (snd_una t)" "SEG_LE ?ack (snd_nxt t)"
      using assms(9) by (simp_all add: SEG_GT_def SEG_LE_def SEG_LT_dist)
  qed
  have wnd: "snd_wnd t = snd_nxt t - snd_una t" using assms(6) by (simp add: tcp_snd_win_full_def SEG_defs)
  have "tsm_cleanup_retrans_queu P ?ack t e = None"
    using c(1) nz le \<open>c \<noteq> []\<close> assms(5,6) wnd
    by (simp add: tsm_cleanup_retrans_queu_def Let_def SEG_DIFF_def tcp_snd_win_full_def SEG_EQ_def TCP_NOTIF_def
        test_notification_def test_sm_dispatch_event_def eval_nat_numeral test_sm_function_array_def test_sm_SF_client_closing_def)
  then have "tsm_process_fin_ack P s ?ack w t e = None" for s w
    using seg ne by (simp add: tsm_process_fin_ack_def)
  then show ?thesis
    using assms(4,7,8)
    by (simp add: tsm_dispatch_net_event_def dispatch_array tsm_function_array_def tsm_SF_defs segment_defs Let_def
        seg_acceptable_def TCP_IS_FLAG_SET_def tcp_flag_defs del: tsm_run.simps)
qed

definition ex_full_tcb :: "unit tcb" where
  "ex_full_tcb = ex_snd_tcb\<lparr>tcb_state := TS_FIN_WAIT_I, l4cb_test_state := TSTS_CL_CLOSING, snd_nxt := 104, snd_wnd := 3\<rparr>"

theorem window_reopened_while_closing_aborts_witness:
  "tsm_dispatch_net_event ex_P ex_full_tcb (ex_env ex_full_tcb (ex_pcb (ex_hdr 0x10 501 102) [])) = None"
proof (rule window_reopened_while_closing_aborts)
  show "rte_pktmbuf_adj_spec (p_adj ex_P)" using ex_adj_spec by (simp add: ex_P_def)
  show "seg_acceptable ex_full_tcb (ex_env ex_full_tcb (ex_pcb (ex_hdr 0x10 501 102) []))"
    unfolding seg_acceptable_def by code_simp
qed (use ex_snd_simps in \<open>simp_all add: ex_full_tcb_def snd_wf_def snd_bytes_def tcp_snd_win_full_def SEG_defs
    ex_snd_tcb_def ex_tcb_def zero_tcb_def ex_pcb_def ex_hdr_def\<close>)

end
