(* ===== verification/TcpIfaceProps.thy ===== *)
theory TcpIfaceProps
  imports TcpProps
begin

text \<open>
  The interface of the stack: opening and listening, retries, what is dropped before it reaches a
  connection, and connections that get stuck.
\<close>

lemma bucket_ok:
  assumes "unat us \<le> unat (tw_size w) * unat (tw_step w)"
  shows "\<exists>b. tcp_timer_get_wheel_bucket cpu now w us = Some b"
proof -
  have "unat (tw_size w) * unat (tw_step w) < 2 ^ 32 * 2 ^ 32"
    using unat_u32_less [of "tw_size w"] unat_u32_less [of "tw_step w"] by (intro mult_strict_mono) auto
  then have "unat (ucast (tw_size w) * ucast (tw_step w) :: u64) = unat (tw_size w) * unat (tw_step w)"
    by (simp add: unat_word_ariths)
  with assms show ?thesis by (simp add: tcp_timer_get_wheel_bucket_def Let_def word_less_nat_alt)
qed

lemma rto_set_ok:
  assumes "\<not> tcb_on_rto_list t"
    and "tcp_timer_get_wheel_bucket (ce_cycles_per_us e) (ce_now e) (e_rto_wheel e) us = Some b"
  shows "\<exists>e'. tcp_timer_rto_set us t e = (0, t\<lparr>tcb_on_rto_list := True\<rparr>, e') \<and> e_tx e' = e_tx e"
  using assms by (auto simp: tcp_timer_rto_set_def TIMER_SET_def Let_def upd_timer_stats_def)

text \<open>A close that finds its block in the table, on the timers its flags say and counted in its state, returns.\<close>

lemma cancel_if_set_ok:
  assumes "tmr_inv t e"
  shows "\<exists>t' e'. rto_cancel_if_set t e = Some (t', e') \<and> e_tsm_stats e' = e_tsm_stats e \<and>
           l4cb_test_state t' = l4cb_test_state t \<and> tcb_state t' = tcb_state t \<and> l4cb_interface t' = l4cb_interface t \<and>
           ce_test_wheel e' = ce_test_wheel e"
    and "\<exists>t' e'. slow_cancel_if_set t e = Some (t', e') \<and> e_tsm_stats e' = e_tsm_stats e \<and>
           l4cb_test_state t' = l4cb_test_state t \<and> tcb_state t' = tcb_state t \<and> l4cb_interface t' = l4cb_interface t \<and>
           ce_test_wheel e' = ce_test_wheel e"
proof -
  have cancel: "l4cb_id t \<in> set (tw_entries w) \<Longrightarrow> \<exists>w'. TIMER_CANCEL (l4cb_id t) w = Some w'" for w
    by (auto simp: TIMER_CANCEL_def tw_entries_def tmr_bucket_of_def find_None_iff split: option.splits)
  show "\<exists>t' e'. rto_cancel_if_set t e = Some (t', e') \<and> e_tsm_stats e' = e_tsm_stats e \<and>
      l4cb_test_state t' = l4cb_test_state t \<and> tcb_state t' = tcb_state t \<and> l4cb_interface t' = l4cb_interface t \<and>
           ce_test_wheel e' = ce_test_wheel e"
    using assms cancel [of "e_rto_wheel e"]
    by (auto simp: rto_cancel_if_set_def rto_cancel_def tcp_timer_rto_cancel_def tmr_inv_def upd_timer_stats_def)
  show "\<exists>t' e'. slow_cancel_if_set t e = Some (t', e') \<and> e_tsm_stats e' = e_tsm_stats e \<and>
      l4cb_test_state t' = l4cb_test_state t \<and> tcb_state t' = tcb_state t \<and> l4cb_interface t' = l4cb_interface t \<and>
           ce_test_wheel e' = ce_test_wheel e"
    using assms cancel [of "e_slow_wheel e"]
    by (auto simp: slow_cancel_if_set_def slow_cancel_def tcp_timer_slow_cancel_def tmr_inv_def upd_timer_stats_def)
qed

definition in_table :: "'a tcb \<Rightarrow> 'a env \<Rightarrow> bool" where
  "in_table t e \<longleftrightarrow> l4cb_id t \<in> set (e_htable e (l4cb_interface t) (TPG_HASH_MOD (l4cb_rx_hash t)))"

lemma send_ctrl_same:
  "e_rto_wheel (tcp_send_ctrl_pkt t f e) = e_rto_wheel e" "e_slow_wheel (tcp_send_ctrl_pkt t f e) = e_slow_wheel e"
  "e_htable (tcp_send_ctrl_pkt t f e) = e_htable e" "e_tsm_stats (tcp_send_ctrl_pkt t f e) = e_tsm_stats e"
  "e_tcbs (tcp_send_ctrl_pkt t f e) = e_tcbs e" "ce_test_wheel (tcp_send_ctrl_pkt t f e) = ce_test_wheel e"
  by (simp_all add: tcp_send_ctrl_pkt_def tcp_send_ctrl_pkt_with_sseq_def tcp_send_pkt_def Let_def upd_tcp_stats_def
      split: prod.splits)

lemma silent_close_ok:
  fixes t :: "'a tcb"
  assumes "tmr_inv t e" and "in_table t e" and "0 < tsms_tcb_states (e_tsm_stats e (l4cb_interface t)) (tcb_state t)"
    and "tcb_state t \<noteq> TS_INIT"
  shows "\<exists>t' e'. tcp_silent_close t e = Some (0, t', e') \<and> l4cb_test_state t' = l4cb_test_state t \<and>
           tcb_state t' = tcb_state t \<and> tlkp_delete_cb t (e_htable e) = Some (e_htable e') \<and> tmr_inv t' e' \<and>
           others_timers t' e' = others_timers t e \<and> e_tcbs e' = e_tcbs e \<and> l4cb_id t' = l4cb_id t \<and>
           l4cb_rx_hash t' = l4cb_rx_hash t \<and> l4cb_interface t' = l4cb_interface t \<and>
           l4cb_test_case_id t' = l4cb_test_case_id t \<and> ce_test_wheel e' = ce_test_wheel e \<and>
           e_tsm_stats e' = (e_tsm_stats e)(l4cb_interface t :=
             tsm_dec_state (tcb_state t) (e_tsm_stats e (l4cb_interface t)))"
proof -
  let ?e = "if \<not> tcb_rst_rcvd t then tcp_send_ctrl_pkt t (RTE_TCP_ACK_FLAG OR RTE_TCP_RST_FLAG) e else e"
  have "e_rto_wheel ?e = e_rto_wheel e" "e_slow_wheel ?e = e_slow_wheel e"
    and same: "e_htable ?e = e_htable e" "e_tsm_stats ?e = e_tsm_stats e" "e_tcbs ?e = e_tcbs e"
    "ce_test_wheel ?e = ce_test_wheel e"
    by (simp_all add: send_ctrl_same)
  then have inv_e: "tmr_inv t ?e" and others_e: "others_timers t ?e = others_timers t e"
    using assms(1) by (simp_all only: tmr_inv_def others_timers_def)
  obtain h where d: "tlkp_delete_tcb t ?e = Some (?e\<lparr>e_htable := h\<rparr>)" "tlkp_delete_cb t (e_htable e) = Some h"
    using assms(2) same(1) by (simp add: tlkp_delete_tcb_def tlkp_delete_cb_def in_table_def Let_def)
  have inv: "tmr_inv t (?e\<lparr>e_htable := h\<rparr>)" using inv_e by (simp add: tmr_inv_def)
  from cancel_if_set_ok(1) [OF this] obtain t2 e2 where
    r: "rto_cancel_if_set t (?e\<lparr>e_htable := h\<rparr>) = Some (t2, e2)" "e_tsm_stats e2 = e_tsm_stats e"
      "l4cb_test_state t2 = l4cb_test_state t" "tcb_state t2 = tcb_state t" "l4cb_interface t2 = l4cb_interface t"
      "ce_test_wheel e2 = ce_test_wheel e"
    using same(2,4) by auto
  let ?v = "tcp_view t (?e\<lparr>e_htable := h\<rparr>)"
  have v2: "tcp_in ?v t2 e2" using tcp_in_cancel_if_set(1) [OF r(1) tcp_inI [OF inv]] .
  then have "tmr_inv t2 e2" by (simp add: tcp_in_def)
  from cancel_if_set_ok(2) [OF this] r(2-6) obtain t3 e3 where
    sl: "slow_cancel_if_set t2 e2 = Some (t3, e3)" "e_tsm_stats e3 = e_tsm_stats e"
      "l4cb_test_state t3 = l4cb_test_state t" "tcb_state t3 = tcb_state t" "l4cb_interface t3 = l4cb_interface t"
      "ce_test_wheel e3 = ce_test_wheel e"
    by auto
  have v3: "tcp_in ?v t3 e3" using tcp_in_cancel_if_set(2) [OF sl(1) v2] .
  let ?t = "t3\<lparr>tr_data_mbufs := [], tr_total_size := 0, tcb_rcv_buf := []\<rparr>"
  have tm: "tsm_terminate_statemachine ?t e3 = Some (upd_tsm_stats (l4cb_interface t) (tsm_dec_state (tcb_state t)) e3)"
    using assms(3,4) sl(2,4,5) by (simp add: tsm_terminate_statemachine_def)
  have "tcp_in ?v ?t e3" using v3 by simp
  then have v: "tmr_inv ?t e3" "tcp_frame ?t e3 = tcp_frame t (?e\<lparr>e_htable := h\<rparr>)"
    "others_timers ?t e3 = others_timers t (?e\<lparr>e_htable := h\<rparr>)"
    by (simp_all only: tcp_in_def tcp_view_def prod.inject)
  have "others_timers t (?e\<lparr>e_htable := h\<rparr>) = others_timers t e"
    using others_e unfolding others_timers_def by simp
  then have f: "tmr_inv ?t e3" "others_timers ?t e3 = others_timers t e" "e_htable e3 = h" "e_tcbs e3 = e_tcbs e"
    "l4cb_id t3 = l4cb_id t" "l4cb_rx_hash t3 = l4cb_rx_hash t" "l4cb_test_case_id t3 = l4cb_test_case_id t"
    using v same(3) by (simp_all add: tcp_frame_def)
  let ?e4 = "upd_tsm_stats (l4cb_interface t) (tsm_dec_state (tcb_state t)) e3"
  let ?e5 = "if tcb_malloced ?t then tlkp_free_tcb ?t (upd_tcp_stats (l4cb_interface ?t)
      (\<lambda>s. s\<lparr>ts_tcb_freed := ts_tcb_freed s + 1\<rparr>) ?e4) else ?e4"
  have "tcp_silent_close t e = Some (0, ?t, ?e5)"
    using d(1) r(1) sl(1) tm by (simp add: tcp_silent_close_def Let_def)
  moreover have "tmr_inv ?t ?e5 \<and> others_timers ?t ?e5 = others_timers ?t e3 \<and> e_htable ?e5 = e_htable e3 \<and>
      e_tcbs ?e5 = e_tcbs e3 \<and> ce_test_wheel ?e5 = ce_test_wheel e3 \<and>
      e_tsm_stats ?e5 = (e_tsm_stats e3)(l4cb_interface t := tsm_dec_state (tcb_state t) (e_tsm_stats e3 (l4cb_interface t)))"
    using f(1) by (simp add: tmr_inv_def others_timers_def tlkp_free_tcb_def upd_tcp_stats_def upd_tsm_stats_def)
  ultimately show ?thesis using d(2) f sl(2-6)
    by (intro exI [of _ ?t] exI [of _ ?e5]) simp
qed

lemma opening_notifs:
  "l4cb_test_state t = TSTS_CL_OPENING \<Longrightarrow>
     TCP_NOTIF P TEST_NOTIF_SESS_CLOSING t e = Some (t\<lparr>l4cb_test_state := TSTS_CL_CLOSING\<rparr>, e)"
  "l4cb_test_state t = TSTS_CL_CLOSING \<Longrightarrow>
     \<exists>t' e'. TCP_NOTIF P TEST_NOTIF_SESS_CLOSED t e = Some (t', e') \<and> l4cb_test_state t' = TSTS_CL_CLOSED"
  by (auto simp: TCP_NOTIF_def test_notification_def test_sess_closed_def test_sm_dispatch_event_def numeral_3_eq_3
      test_sm_function_array_def test_sm_SF_client_opening_def test_sm_SF_client_closing_def test_sm_SF_client_closed_def
      test_sm_enter_state_def test_tmr_set_delay_def l4cb_timer_test_set_def Let_def split: prod.splits)

lemma syn_sent_gives_up:
  fixes t :: "'a tcb"
  assumes "tmr_inv t e" and "l4cb_test_state t = TSTS_CL_OPENING" and "tcb_state t = TS_SYN_SENT" and "in_table t e"
    and "tsms_tcb_states (e_tsm_stats e (l4cb_interface t)) TS_CLOSED + 1 \<noteq> 0"
  shows "\<exists>t' e'. tsm_notif_closing_enter P (tsm_run (Suc n) P) TS_CLOSED t e = Some (0, t', e') \<and>
           l4cb_test_state t' = TSTS_CL_CLOSED"
proof -
  let ?t1 = "t\<lparr>l4cb_test_state := TSTS_CL_CLOSING, tcb_state := TS_CLOSED\<rparr>"
  let ?e1 = "upd_tsm_stats (l4cb_interface t) (tsm_inc_state TS_CLOSED)
     (upd_tsm_stats (l4cb_interface t) (tsm_dec_state TS_SYN_SENT) e)"
  have inv: "tmr_inv ?t1 ?e1" using assms(1) by (simp add: tmr_inv_def upd_tsm_stats_def)
  obtain t2 e2 where n: "TCP_NOTIF P TEST_NOTIF_SESS_CLOSED ?t1 ?e1 = Some (t2, e2)" "l4cb_test_state t2 = TSTS_CL_CLOSED"
    using opening_notifs(2) [of ?t1 P ?e1] by (auto simp del: upd_env_same)
  have v: "tcp_in (tcp_view ?t1 ?e1) t2 e2" using tcp_dest(1) [OF n(1) tcp_inI [OF inv]] .
  note m = tcp_notif_same [OF n(1)] tcp_notif_more [OF n(1)]
  have "tmr_inv t2 e2" using v by (simp add: tcp_in_def)
  moreover have "in_table t2 e2" using assms(4) m by (simp add: in_table_def upd_tsm_stats_def)
  moreover have "0 < tsms_tcb_states (e_tsm_stats e2 (l4cb_interface t2)) (tcb_state t2)"
    using assms(5) m by (simp add: upd_tsm_stats_def tsm_inc_state_def tsm_dec_state_def word_gt_0)
  ultimately obtain t' e' where "tcp_silent_close t2 e2 = Some (0, t', e')" "l4cb_test_state t' = TSTS_CL_CLOSED"
    using silent_close_ok [of t2 e2] n(2) m by auto
  then show ?thesis
    using assms(2,3) n by (simp add: tsm_notif_closing_enter_def opening_notifs(1) tsm_enter_state_def Let_def
        tsm_function_array_def tsm_SF_closed_def)
qed

text \<open>
  C22: A connection request that is not answered is repeated on every timeout, with the initial sequence number and the
  timer armed again, until the configured number of retries is reached; then the client gives up: for a block of a
  session that is being opened, in the table and with the counter of closed blocks not at its end, the handler returns
  with the block and the session closed, off the two timers, after one segment with ACK and RST (none after a reset).
  The counter of retries has 8 bits: a configured limit of 0 means 256 retries.
\<close>

theorem syn_retries_then_gives_up:
  fixes t :: "'a tcb"
  assumes "tcb_state t = TS_SYN_SENT" and "tmr_inv t e" and "tcb_on_rto_list t"
    and "snd_una t \<noteq> snd_nxt t" and "e_tx_outcomes e = []"
    and "unat (tcpo_rto (l4cb_sockopt t)) \<le> unat (tw_size (e_rto_wheel e)) * unat (tw_step (e_rto_wheel e))"
  shows "if tcb_retrans_cnt t + 1 \<noteq> tcpo_syn_retry_cnt (l4cb_sockopt t)
         then \<exists>e' p. tcp_handle_retrans_to P t e = Some (0, t\<lparr>tcb_retrans_cnt := tcb_retrans_cnt t + 1\<rparr>, e') \<and>
                e_tx e' = e_tx e @ [p] \<and> tx_seq p = snd_iss t \<and> tx_flags p = 0x02
         else l4cb_test_state t = TSTS_CL_OPENING \<and> in_table t e \<and>
                tsms_tcb_states (e_tsm_stats e (l4cb_interface t)) TS_CLOSED + 1 \<noteq> 0 \<longrightarrow>
              (\<exists>t' e'. tcp_handle_retrans_to P t e = Some (0, t', e') \<and> tcb_state t' = TS_CLOSED \<and>
                l4cb_test_state t' = TSTS_CL_CLOSED \<and> \<not> tcb_on_rto_list t' \<and> \<not> tcb_on_slow_list t' \<and>
                l4cb_id t \<notin> set (tw_entries (e_rto_wheel e')) \<and> l4cb_id t \<notin> set (tw_entries (e_slow_wheel e')) \<and>
                e_tx e' = e_tx e @ (if tcb_rst_rcvd t then []
                  else [tcp_build_hdr t (snd_nxt t) (RTE_TCP_ACK_FLAG OR RTE_TCP_RST_FLAG) []]))"
proof -
  let ?e = "upd_timer_stats (l4cb_interface t) (\<lambda>s. s\<lparr>tts_rto_fired := tts_rto_fired s + 1\<rparr>) e"
  let ?t = "t\<lparr>tcb_on_rto_list := False, tcb_retrans_cnt := tcb_retrans_cnt t + 1\<rparr>"
  have "l4cb_id t \<in> set (tw_entries (e_rto_wheel e))" using assms(2,3) by (simp add: tmr_inv_def)
  then obtain w where w: "TIMER_CANCEL (l4cb_id t) (e_rto_wheel e) = Some w"
    by (cases "TIMER_CANCEL (l4cb_id t) (e_rto_wheel e)")
      (auto simp: TIMER_CANCEL_def tw_entries_def tmr_bucket_of_def find_None_iff split: option.splits)
  then have sz: "tw_size w = tw_size (e_rto_wheel e)" "tw_step w = tw_step (e_rto_wheel e)"
    by (auto simp: TIMER_CANCEL_def split: option.splits)
  let ?e1 = "?e\<lparr>e_rto_wheel := w\<rparr>"
  have h: "tcp_handle_retrans_to P t e = tsm_dispatch_event P TE_RETRANSMISSION_TIMEOUT NoArg ?t ?e1"
    using w by (simp add: tcp_handle_retrans_to_def upd_timer_stats_def)
  show ?thesis
  proof (cases "tcb_retrans_cnt t + 1 = tcpo_syn_retry_cnt (l4cb_sockopt t)")
    case False
    let ?e2 = "tcp_send_ctrl_pkt ?t (RTE_TCP_SYN_FLAG OR TCP_BUILD_FLAG_USE_ISS) ?e1"
    have out: "e_tx_outcomes ?e1 = []" "e_tx ?e1 = e_tx e" using assms(5) by (simp_all add: upd_timer_stats_def)
    have same: "e_rto_wheel ?e2 = w" "ce_cycles_per_us ?e2 = ce_cycles_per_us e" "ce_now ?e2 = ce_now e"
      using out(1) by (simp_all add: tcp_send_ctrl_pkt_def tcp_send_ctrl_pkt_with_sseq_def tcp_send_pkt_def Let_def
          upd_tcp_stats_def upd_timer_stats_def)
    obtain b where b: "tcp_timer_get_wheel_bucket (ce_cycles_per_us ?e2) (ce_now ?e2) (e_rto_wheel ?e2)
        (tcpo_rto (l4cb_sockopt ?t)) = Some b"
      using bucket_ok [of "tcpo_rto (l4cb_sockopt ?t)" "e_rto_wheel ?e2"] assms(6) sz unfolding same by auto
    have off: "\<not> tcb_on_rto_list ?t" by simp
    have "tsm_dispatch_event P TE_RETRANSMISSION_TIMEOUT NoArg ?t ?e1 = Some (0, tsm_schedule_retransmission ?t ?e2)"
      using False assms(1)
      by (simp add: dispatch_array tsm_function_array_def tsm_SF_syn_sent_def TCP_TOO_MANY_RETRIES_def del: tsm_run.simps)
    moreover obtain e3 where "tcp_timer_rto_set (tcpo_rto (l4cb_sockopt t)) ?t ?e2 = (0, ?t\<lparr>tcb_on_rto_list := True\<rparr>, e3)"
      "e_tx e3 = e_tx ?e2"
      using rto_set_ok [OF off b] by auto
    moreover have "?t\<lparr>tcb_on_rto_list := True\<rparr> = t\<lparr>tcb_retrans_cnt := tcb_retrans_cnt t + 1\<rparr>"
      using assms(3) by (cases t) simp
    ultimately show ?thesis using False assms(4) out
      by (simp add: h tsm_schedule_retransmission_def tcp_build_hdr_def tcp_flag_defs)
  next
    case True
    have "\<exists>t' e'. tcp_handle_retrans_to P t e = Some (0, t', e') \<and> tcb_state t' = TS_CLOSED \<and>
        l4cb_test_state t' = TSTS_CL_CLOSED \<and> \<not> tcb_on_rto_list t' \<and> \<not> tcb_on_slow_list t' \<and>
        l4cb_id t \<notin> set (tw_entries (e_rto_wheel e')) \<and> l4cb_id t \<notin> set (tw_entries (e_slow_wheel e')) \<and>
        e_tx e' = e_tx e @ (if tcb_rst_rcvd t then []
          else [tcp_build_hdr t (snd_nxt t) (RTE_TCP_ACK_FLAG OR RTE_TCP_RST_FLAG) []])"
      if up: "l4cb_test_state t = TSTS_CL_OPENING" "in_table t e"
        "tsms_tcb_states (e_tsm_stats e (l4cb_interface t)) TS_CLOSED + 1 \<noteq> 0"
    proof -
    let ?e2 = "upd_tsm_stats (l4cb_interface t) inc_syn_to ?e1"
    have "tcp_in (tcp_view ?t ?e1) ?t ?e1"
      using TIMER_CANCEL_wf [OF _ w] assms(2) by (intro tcp_inI) (auto simp: tmr_inv_def upd_timer_stats_def)
    then have inv: "tmr_inv ?t ?e2" by (simp add: tcp_in_def tmr_inv_def upd_timer_stats_def upd_tsm_stats_def)
    have close: "tcp_handle_retrans_to P t e = tsm_notif_closing_enter P (tsm_run (Suc (Suc 0)) P) TS_CLOSED ?t ?e2"
      using True assms(1) unfolding h
      by (simp add: dispatch_array tsm_function_array_def tsm_SF_syn_sent_def TCP_TOO_MANY_RETRIES_def del: tsm_run.simps)
    have tab: "in_table ?t ?e2" using up(2) by (simp add: in_table_def upd_timer_stats_def upd_tsm_stats_def)
    have cnt: "tsms_tcb_states (e_tsm_stats ?e2 (l4cb_interface ?t)) TS_CLOSED + 1 \<noteq> 0"
      using up(3) by (simp add: upd_timer_stats_def upd_tsm_stats_def inc_syn_to_def)
    from syn_sent_gives_up [OF inv _ _ tab cnt, of P 1] assms(1) up(1) obtain t' e' where
      c: "tsm_notif_closing_enter P (tsm_run (Suc (Suc 0)) P) TS_CLOSED ?t ?e2 = Some (0, t', e')"
        "l4cb_test_state t' = TSTS_CL_CLOSED" by auto
    note tx = notif_closing_closed_tx [OF c(1)]
    have "tcp_handle_retrans_to P t e = Some (0, t', e')" using c(1) close by simp
    moreover have "tcb_state t' = TS_CLOSED" "e_tx e' = e_tx e @ (if tcb_rst_rcvd t then []
          else [tcp_build_hdr t (snd_nxt t) (RTE_TCP_ACK_FLAG OR RTE_TCP_RST_FLAG) []])"
      using tx assms(5) by (simp_all add: upd_timer_stats_def upd_tsm_stats_def tcp_build_hdr_def)
    moreover have "\<not> tcb_on_rto_list t' \<and> \<not> tcb_on_slow_list t' \<and>
        l4cb_id t \<notin> set (tw_entries (e_rto_wheel e')) \<and> l4cb_id t \<notin> set (tw_entries (e_slow_wheel e'))"
    proof -
      have i1: "tmr_inv ?t ?e1" using inv by (simp add: tmr_inv_def upd_tsm_stats_def)
      have "tsm_dispatch_event P TE_RETRANSMISSION_TIMEOUT NoArg ?t ?e1 = Some (0, t', e')"
        using calculation(1) h by simp
      from dispatch_ends_in [OF i1 this] assms(1) have
        "ends_in (tcp_frame ?t ?e1, others_timers ?t ?e1) (event_S TS_SYN_SENT TE_RETRANSMISSION_TIMEOUT)
           (event_C TS_SYN_SENT TE_RETRANSMISSION_TIMEOUT) t' e'" by simp
      moreover have "TS_CLOSED \<notin> event_S TS_SYN_SENT TE_RETRANSMISSION_TIMEOUT" by (simp add: event_S_def)
      ultimately have "closed_from (tcp_frame ?t ?e1, others_timers ?t ?e1) t' e'"
        using tx assms(5) by (auto simp: ends_in_def upd_timer_stats_def upd_tsm_stats_def dest: tcp_in_tcb_state)
      then obtain e0 where o: "tcp_in ((tcp_frame ?t ?e1, others_timers ?t ?e1), TS_CLOSED) t' e0" "\<not> tcb_on_rto_list t'"
        "\<not> tcb_on_slow_list t'" "tmr_inv t' e'" by (auto simp: closed_from_def)
      have "tcp_in ((tcp_frame ?t ?e1, others_timers ?t ?e1), tcb_state ?t) ?t ?e1" using i1 by (simp add: tcp_in_def tcp_view_def)
      from tcp_in_same [OF this o(1)] have "l4cb_id t' = l4cb_id t" by simp
      with o show ?thesis by (simp add: tmr_inv_def)
    qed
    ultimately show ?thesis using c(2) by auto
    qed
    then show ?thesis using True by simp
  qed
qed

definition ex_rto_wheel :: "cb_id tmr_wheel" where
  "ex_rto_wheel = ex_wheel\<lparr>tw_wheel := (\<lambda>b. if b = 0 then [1] else [])\<rparr>"

definition ex_syn_tcb :: "unit tcb" where
  "ex_syn_tcb = (ex_tcb TS_SYN_SENT TSTS_CL_OPENING)\<lparr>tcb_on_rto_list := True, snd_una := 0, snd_nxt := 1\<rparr>"

definition ex_syn_env :: "unit env" where
  "ex_syn_env = (ex_env ex_syn_tcb (ex_pcb (ex_hdr 0x10 501 101) []))\<lparr>e_rto_wheel := ex_rto_wheel\<rparr>"

theorem syn_retries_then_gives_up_witness:
  "(\<exists>e' p. tcp_handle_retrans_to ex_P ex_syn_tcb ex_syn_env = Some (0, ex_syn_tcb\<lparr>tcb_retrans_cnt := 1\<rparr>, e') \<and>
      e_tx e' = [p] \<and> tx_flags p = 0x02) \<and>
   (\<exists>t' e'. tcp_handle_retrans_to ex_P (ex_syn_tcb\<lparr>tcb_retrans_cnt := 1\<rparr>) ex_syn_env = Some (0, t', e') \<and>
      tcb_state t' = TS_CLOSED \<and> l4cb_test_state t' = TSTS_CL_CLOSED \<and> length (e_tx e') = 1)"
proof -
  let ?u = "ex_syn_tcb\<lparr>tcb_retrans_cnt := 1\<rparr>"
  have inv: "tmr_inv ex_syn_tcb ex_syn_env" "tmr_inv ?u ex_syn_env"
    by (simp_all add: tmr_inv_def ex_syn_tcb_def ex_syn_env_def ex_rto_wheel_def ex_wheel_def wheel_wf_def tw_entries_def
        tw_buckets_def ex_tcb_def zero_tcb_def ex_env_def)
  have t: "tcb_retrans_cnt ex_syn_tcb = 0" "l4cb_sockopt ex_syn_tcb = ex_sockopt" "tcb_state ex_syn_tcb = TS_SYN_SENT"
    "tcb_on_rto_list ex_syn_tcb" "snd_una ex_syn_tcb \<noteq> snd_nxt ex_syn_tcb" "l4cb_test_state ex_syn_tcb = TSTS_CL_OPENING"
    "\<not> tcb_rst_rcvd ex_syn_tcb"
    by (simp_all add: ex_syn_tcb_def ex_tcb_def zero_tcb_def)
  have e: "e_tx_outcomes ex_syn_env = []" "e_tx ex_syn_env = []" "e_rto_wheel ex_syn_env = ex_rto_wheel"
    "in_table ex_syn_tcb ex_syn_env" "in_table ?u ex_syn_env"
    "tsms_tcb_states (e_tsm_stats ex_syn_env (l4cb_interface ex_syn_tcb)) TS_CLOSED + 1 \<noteq> 0"
    by (simp_all add: ex_syn_env_def ex_env_def in_table_def ex_tsm_stats_def)
  have limit: "tcpo_syn_retry_cnt ex_sockopt = 2"
    "unat (tcpo_rto ex_sockopt) \<le> unat (tw_size ex_rto_wheel) * unat (tw_step ex_rto_wheel)"
    by (simp_all add: ex_sockopt_def ex_rto_wheel_def ex_wheel_def)
  have "\<exists>e' p. tcp_handle_retrans_to ex_P ex_syn_tcb ex_syn_env = Some (0, ex_syn_tcb\<lparr>tcb_retrans_cnt := 1\<rparr>, e') \<and>
      e_tx e' = [p] \<and> tx_flags p = 0x02"
    using syn_retries_then_gives_up [of ex_syn_tcb ex_syn_env ex_P] inv(1) t e limit by auto
  moreover have "\<exists>t' e'. tcp_handle_retrans_to ex_P ?u ex_syn_env = Some (0, t', e') \<and>
      tcb_state t' = TS_CLOSED \<and> l4cb_test_state t' = TSTS_CL_CLOSED \<and> length (e_tx e') = 1"
    using syn_retries_then_gives_up [of ?u ex_syn_env ex_P] inv(2) t e limit by auto
  ultimately show ?thesis by blast
qed

subsection \<open>A close from inside a callback\<close>

definition tcp_app_close :: "'a prm \<Rightarrow> 'a tcb \<Rightarrow> 'a env \<Rightarrow> ('a tcb \<times> 'a env) option" where
  "tcp_app_close P t e = map_option snd (tsm_dispatch_event P TE_CLOSE NoArg t e)"

lemma timer_set_states:
  "tcp_timer_rto_set us t e = (r, t', e') \<Longrightarrow> tcb_state t' = tcb_state t \<and> l4cb_test_state t' = l4cb_test_state t"
  "tcp_timer_slow_set us t e = (r, t', e') \<Longrightarrow> tcb_state t' = tcb_state t \<and> l4cb_test_state t' = l4cb_test_state t"
  "tsm_schedule_retransmission t e = (t', e') \<Longrightarrow> tcb_state t' = tcb_state t \<and> l4cb_test_state t' = l4cb_test_state t"
  by (auto simp: tcp_timer_rto_set_def tcp_timer_slow_set_def tsm_schedule_retransmission_def Let_def
      split: if_splits prod.splits)

text \<open>
  An application that closes an established client from inside its callback takes the connection to \<open>FIN_WAIT_I\<close> before
  the segment that called it has been dealt with. If the segment carries a FIN too, \<open>tsm_SF_estab\<close> goes on to announce a
  close itself; the session, which is closing, has no transition for it and the program aborts.
\<close>

lemma close_inside_segment:
  fixes t :: "'a tcb"
  assumes "tcb_state t = TS_ESTABLISHED" and "l4cb_test_state t \<in> {TSTS_CL_OPEN, TSTS_CL_SENDING, TSTS_CL_NO_SND_WIN}"
    and "test_notification_app (p_app P) (tcp_app_close P) TEST_NOTIF_APP_CLOSE t e = Some (t', e')"
  shows "tcb_state t' = TS_FIN_WAIT_I \<and> l4cb_test_state t' = TSTS_CL_CLOSING \<and>
         TCP_NOTIF P TEST_NOTIF_SESS_CLOSING t' e'' = None"
proof -
  obtain r where d: "tsm_dispatch_event P TE_CLOSE NoArg t e = Some (r, t', e')"
    using assms(3) by (auto simp: test_notification_app_def tcp_app_close_def)
  then obtain t1 e1 where n: "TCP_NOTIF P TEST_NOTIF_SESS_CLOSING t e = Some (t1, e1)"
    and en: "tsm_enter_state (tsm_run (Suc (Suc 0)) P) TS_FIN_WAIT_I NoArg t1 e1 = Some (r, t', e')"
    using assms(1)
    by (auto simp: dispatch_array tsm_function_array_def tsm_SF_estab_def tsm_notif_closing_enter_def simp del: tsm_run.simps)
  have "l4cb_test_state t1 = TSTS_CL_CLOSING"
    using n assms(2)
    by (auto simp: TCP_NOTIF_def test_notification_def test_sm_dispatch_event_def numeral_3_eq_3 test_sm_function_array_def
        test_sm_SF_client_open_def test_sm_SF_client_sending_def test_sm_SF_client_no_snd_win_def
        test_sm_SF_client_closing_def test_sm_enter_state_def)
  moreover have "tcb_state t' = TS_FIN_WAIT_I \<and> l4cb_test_state t' = l4cb_test_state t1"
    using en by (auto simp: tsm_enter_state_def Let_def tsm_function_array_def tsm_SF_fin_wait_I_def
        split: if_splits prod.splits dest!: timer_set_states)
  ultimately show ?thesis
    by (simp add: TCP_NOTIF_def test_notification_def test_sm_dispatch_event_def numeral_3_eq_3 test_sm_function_array_def
        test_sm_SF_client_closing_def)
qed

subsection \<open>A connection that does not end\<close>

text \<open>
  A block in \<open>CLOSING\<close> whose FIN counts as acknowledged already never leaves the state: no segment but a reset or a SYN moves
  it, a timeout does not either, and no timer gets armed. \<open>FIN_WAIT_I\<close> enters \<open>CLOSING\<close> like that when the
  acknowledgment of the FIN came with the FIN of the peer ahead of missing data: it is recorded in \<open>SND.UNA\<close> and forgotten.
\<close>

theorem closing_with_acked_fin_stuck:
  fixes t :: "'a tcb"
  assumes "tcb_state t = TS_CLOSING" and "snd_una t = snd_nxt t" and "tr_total_size t = 0"
    and "ev = TE_SEGMENT_ARRIVES \<and> \<not> TCP_IS_FLAG_SET (pcb_tcp (e_pcb e)) RTE_TCP_RST_FLAG \<and>
           \<not> TCP_IS_FLAG_SET (pcb_tcp (e_pcb e)) RTE_TCP_SYN_FLAG \<or>
         ev = TE_RETRANSMISSION_TIMEOUT \<and> tcb_retrans_cnt t \<noteq> tcpo_retry_cnt (l4cb_sockopt t)"
  shows "\<exists>t' e'. tsm_dispatch_event P ev PcbArg t e = Some (0, t', e') \<and> tcb_state t' = TS_CLOSING \<and>
           snd_una t' = snd_nxt t' \<and> tr_total_size t' = 0 \<and> tcb_on_rto_list t' = tcb_on_rto_list t \<and>
           tcb_on_slow_list t' = tcb_on_slow_list t"
  using assms(4)
proof (elim disjE conjE)
  assume ev: "ev = TE_RETRANSMISSION_TIMEOUT" and cnt: "tcb_retrans_cnt t \<noteq> tcpo_retry_cnt (l4cb_sockopt t)"
  show ?thesis using assms(1-3) ev cnt
    by (simp add: dispatch_array tsm_function_array_def tsm_SF_closing_def TCP_TOO_MANY_RETRIES_def
        tsm_schedule_retransmission_def del: tsm_run.simps)
next
  assume ev: "ev = TE_SEGMENT_ARRIVES"
    and no: "\<not> TCP_IS_FLAG_SET (pcb_tcp (e_pcb e)) RTE_TCP_RST_FLAG" "\<not> TCP_IS_FLAG_SET (pcb_tcp (e_pcb e)) RTE_TCP_SYN_FLAG"
  have clean: "tsm_cleanup_retrans_queu P a t e = Some (t, e)" for a
    using assms(3) by (simp add: tsm_cleanup_retrans_queu_def Let_def word_gt_0)
  have ack: "\<exists>b t'. tsm_process_fin_ack P s a w t e = Some (b, t', e) \<and> snd_una t' = snd_una t \<and>
      (t' = t \<or> t' = t\<lparr>snd_wnd := w, snd_wl1 := s, snd_wl2 := a\<rparr>)" for s a w
    by (auto simp: tsm_process_fin_ack_def clean tsm_update_snd_wnd_def)
  show ?thesis
  proof (cases "seg_acceptable t e \<and> TCP_IS_FLAG_SET (pcb_tcp (e_pcb e)) RTE_TCP_ACK_FLAG")
    case False
    then show ?thesis using assms(1-3) ev no
      by (auto simp: dispatch_array tsm_function_array_def tsm_SF_closing_def tsm_closing_segment_def Let_def
          seg_acceptable_def simp del: tsm_run.simps)
  next
    case True
    obtain b t' where p: "tsm_process_fin_ack P (th_sent_seq (pcb_tcp (e_pcb e))) (th_recv_ack (pcb_tcp (e_pcb e)))
        (ucast (th_rx_win (pcb_tcp (e_pcb e)))) t e = Some (b, t', e)"
      and t': "t' = t \<or> t' = t\<lparr>snd_wnd := ucast (th_rx_win (pcb_tcp (e_pcb e))), snd_wl1 := th_sent_seq (pcb_tcp (e_pcb e)),
        snd_wl2 := th_recv_ack (pcb_tcp (e_pcb e))\<rparr>"
      using ack by blast
    have "snd_nxt t \<noteq> snd_nxt t - 1" by simp
    with True p t' assms(1-3) ev no show ?thesis
      by (auto simp: dispatch_array tsm_function_array_def tsm_SF_closing_def tsm_closing_segment_def Let_def
          seg_acceptable_def simp del: tsm_run.simps)
  qed
qed

theorem closing_with_acked_fin_stuck_witness:
  "\<exists>t' e'. ex_run TS_CLOSING TSTS_CL_CLOSING TE_SEGMENT_ARRIVES (ex_pcb (ex_hdr 0x10 501 101) []) = Some (0, t', e') \<and>
     tcb_state t' = TS_CLOSING"
  using closing_with_acked_fin_stuck [of "ex_tcb TS_CLOSING TSTS_CL_CLOSING" TE_SEGMENT_ARRIVES
      "ex_env (ex_tcb TS_CLOSING TSTS_CL_CLOSING) (ex_pcb (ex_hdr 0x10 501 101) [])" ex_P]
  by (auto simp: ex_run_def ex_tcb_def zero_tcb_def ex_pcb_def ex_hdr_def TCP_IS_FLAG_SET_def tcp_flag_defs)

subsection \<open>Packets that are dropped\<close>

definition ts_bad_pkts :: "tcp_stats \<Rightarrow> u32" where
  "ts_bad_pkts s = ts_to_small_fragment s + ts_hdr_to_small s + ts_invalid_checksum s"

lemma upd_tcp_stats_twice: "upd_tcp_stats p f (upd_tcp_stats p g e) = upd_tcp_stats p (f \<circ> g) e"
  by (simp add: upd_tcp_stats_def)

lemma check_hdr_bad:
  assumes "data_len m < 20 \<or> data_len m < tcp_hdr_len_of (rte_tcp_hdr_of (mb_data m)) \<or>
         tcp_hdr_len_of (rte_tcp_hdr_of (mb_data m)) < 20 \<or> rx_cksum_bad meta"
  shows "\<exists>f. tcp_check_hdr meta m e = Inl (upd_tcp_stats (pcb_port (e_pcb e)) f e) \<and> (\<forall>s. ts_bad_pkts (f s) = ts_bad_pkts s + 1)"
  using assms
  by (auto simp: tcp_check_hdr_def Let_def upd_tcp_stats_twice ts_bad_pkts_def)

text \<open>
  A packet with a damaged header or a bad checksum is given back to the caller, is counted once, and does nothing else: no connection,
  no list and no timer changes and nothing is sent.
\<close>

theorem bad_packet_dropped:
  assumes "pcb_mbuf (e_pcb e) = m # ms"
    and "data_len m < 20 \<or> data_len m < tcp_hdr_len_of (rte_tcp_hdr_of (mb_data m)) \<or>
         tcp_hdr_len_of (rte_tcp_hdr_of (mb_data m)) < 20 \<or> rx_cksum_bad meta"
  shows "\<exists>s. tcp_receive_pkt P meta e = Some (m # ms, e\<lparr>e_tcp_stats := s\<rparr>) \<and>
           ts_bad_pkts (s (pcb_port (e_pcb e))) = ts_bad_pkts (e_tcp_stats e (pcb_port (e_pcb e))) + 1 \<and>
           (\<forall>p. p \<noteq> pcb_port (e_pcb e) \<longrightarrow> s p = e_tcp_stats e p)"
  using check_hdr_bad [OF assms(2), of e] assms(1)
  by (auto simp: tcp_receive_pkt_def upd_tcp_stats_def)

theorem bad_packet_dropped_witness:
  "\<exists>s. tcp_receive_pkt ex_P \<lparr>rx_cksum_bad = False, rx_rss_hash = None\<rparr> (ex_env ex_snd_tcb (ex_pcb (ex_hdr 0 0 0) [1, 2])) =
     Some ([\<lparr>mb_data = [1, 2], mb_pkt_len = 2, mb_nb_segs = 1\<rparr>], (ex_env ex_snd_tcb (ex_pcb (ex_hdr 0 0 0) [1, 2]))\<lparr>e_tcp_stats := s\<rparr>)"
  using bad_packet_dropped [of "ex_env ex_snd_tcb (ex_pcb (ex_hdr 0 0 0) [1, 2])" "\<lparr>mb_data = [1, 2], mb_pkt_len = 2, mb_nb_segs = 1\<rparr>"
      "[]" "\<lparr>rx_cksum_bad = False, rx_rss_hash = None\<rparr>" ex_P]
  by (auto simp: ex_pcb_def data_len_def)

subsection \<open>Opening a connection\<close>

lemma rto_set_same:
  assumes "tcp_timer_rto_set us t e = (r, t', e')"
  shows "(t' = t \<or> t' = t\<lparr>tcb_on_rto_list := True\<rparr>) \<and> e_tx e' = e_tx e \<and> e_pool e' = e_pool e \<and>
    e_htable e' = e_htable e \<and> e_tcbs e' = e_tcbs e"
proof (cases "tcb_on_rto_list t")
  case True
  with assms show ?thesis by (auto simp: tcp_timer_rto_set_def upd_timer_stats_def)
next
  case False
  obtain s w where "TIMER_SET (ce_cycles_per_us e) (ce_now e) (l4cb_id t) us (e_rto_wheel e) = (s, w)"
    by (cases "TIMER_SET (ce_cycles_per_us e) (ce_now e) (l4cb_id t) us (e_rto_wheel e)") auto
  with False assms show ?thesis
    by (cases "s = 0") (auto simp: tcp_timer_rto_set_def upd_timer_stats_def)
qed

lemma sched_same:
  assumes "tsm_schedule_retransmission t e = (t', e')"
  shows "(t' = t \<or> t' = t\<lparr>tcb_retrans_cnt := 0\<rparr> \<or> t' = t\<lparr>tcb_on_rto_list := True\<rparr>) \<and> e_tx e' = e_tx e \<and>
    e_pool e' = e_pool e \<and> e_htable e' = e_htable e \<and> e_tcbs e' = e_tcbs e"
proof -
  obtain r t1 e1 where r: "tcp_timer_rto_set (tcpo_rto (l4cb_sockopt t)) t e = (r, t1, e1)"
    by (cases "tcp_timer_rto_set (tcpo_rto (l4cb_sockopt t)) t e") auto
  show ?thesis using rto_set_same [OF r] assms r
    by (auto simp: tsm_schedule_retransmission_def split: if_splits)
qed

text \<open>The fields of a block and of a core that the entry into the two states of the handshake keeps.\<close>

definition tcb_conn where
  "tcb_conn (t :: 'a tcb) =
     ((l4cb_id t, l4cb_interface t, l4cb_rx_hash t, l4cb_src_addr t, l4cb_dst_addr t, l4cb_src_port t, l4cb_dst_port t),
      (snd_una t, snd_nxt t, snd_iss t, rcv_nxt t, rcv_irs t))"

lemma rcv_irs_more: "l4cb.more (t' :: 'a tcb) = l4cb.more t \<Longrightarrow> rcv_irs t' = rcv_irs t"
  by (cases t; cases t') simp

lemma enter_handshake:
  fixes t :: "'a tcb"
  assumes "tsm_enter_state (tsm_run (Suc n) P) st arg t e = Some (r, t', e')" and "st = TS_SYN_SENT \<or> st = TS_SYN_RECV"
  shows "tcb_state t' = st \<and> r = 0 \<and> tcb_conn t' = tcb_conn t \<and>
    e_tx e' = e_tx e \<and> e_pool e' = e_pool e \<and> e_htable e' = e_htable e \<and> e_tcbs e' = e_tcbs e"
proof -
  let ?e = "upd_tsm_stats (l4cb_interface t) (tsm_inc_state st)
     (if st \<noteq> tcb_state t \<and> tcb_state t \<noteq> TS_LISTEN
      then upd_tsm_stats (l4cb_interface t) (tsm_dec_state (tcb_state t)) e else e)"
  have e: "e_tx ?e = e_tx e" "e_pool ?e = e_pool e" "e_htable ?e = e_htable e" "e_tcbs ?e = e_tcbs e"
    by (simp_all add: upd_tsm_stats_def)
  obtain m t1 e1 where n: "TCP_NOTIF P m (t\<lparr>tcb_state := st\<rparr>) ?e = Some (t1, e1)"
    and s: "tsm_schedule_retransmission t1 e1 = (t', e')" "r = 0"
    using assms by (auto simp: tsm_enter_state_def Let_def tsm_function_array_def tsm_SF_syn_sent_def tsm_SF_syn_recv_def)
  note m = tcp_notif_more [OF n] tcp_notif_same [OF n]
  have "rcv_irs t1 = rcv_irs t" using rcv_irs_more [OF tcp_notif_same(1) [OF n]] by simp
  then have "tcb_conn t1 = tcb_conn t" "tcb_state t1 = st" by (simp_all add: tcb_conn_def m)
  moreover have "tcb_conn t' = tcb_conn t1" "tcb_state t' = tcb_state t1"
    using sched_same [OF s(1)] by (auto simp: tcb_conn_def)
  moreover have "e_tx e' = e_tx e" "e_pool e' = e_pool e" "e_htable e' = e_htable e" "e_tcbs e' = e_tcbs e"
    using sched_same [OF s(1)] m(23-35) by (simp_all only: e)
  ultimately show ?thesis using s(2) by simp
qed

lemma upd_same [simp]:
  "e_pool (upd_tcp_stats p f e) = e_pool e" "e_htable (upd_tcp_stats p f e) = e_htable e"
  "e_tcbs (upd_tcp_stats p f e) = e_tcbs e" "ce_tci (upd_tcp_stats p f e) = ce_tci e"
  by (simp_all add: upd_tcp_stats_def)

lemma send_pkt_same [simp]:
  "e_pool (snd (tcp_send_pkt t s f c e)) = e_pool e" "e_htable (snd (tcp_send_pkt t s f c e)) = e_htable e"
  "e_tcbs (snd (tcp_send_pkt t s f c e)) = e_tcbs e" "e_pcb (snd (tcp_send_pkt t s f c e)) = e_pcb e"
  "ce_tci (snd (tcp_send_pkt t s f c e)) = ce_tci e"
  by (cases "next_tx_outcome (e_tx_outcomes e)"; simp add: tcp_send_pkt_def Let_def)+

lemma send_same [simp]:
  "e_pool (tcp_send_ctrl_pkt t f e) = e_pool e" "e_htable (tcp_send_ctrl_pkt t f e) = e_htable e"
  "e_tcbs (tcp_send_ctrl_pkt t f e) = e_tcbs e" "e_pcb (tcp_send_ctrl_pkt t f e) = e_pcb e"
  by (simp_all add: tcp_send_ctrl_pkt_def tcp_send_ctrl_pkt_with_sseq_def Let_def case_prod_beta)

text \<open>
  C8: A SYN for a listening block makes a new block, takes it from the pool, and leaves the listening one as it is. The new
  block is in \<open>SYN_RECV\<close> for the addresses and ports of the packet, is in the hash table, expects the number after the one of the SYN, and the
  peer is answered with SYN and ACK of that number.
\<close>

theorem passive_open_answers:
  fixes t :: "'a tcb"
  assumes "tcb_state t = TS_LISTEN" and "th_flags (pcb_tcp (e_pcb e)) = 0x02" and "e_pool e = x # xs"
    and "e_tx_outcomes e = []" and "tsm_dispatch_net_event P t e = Some (r, t', e')"
  shows "t' = t \<and> e_pool e' = xs \<and>
     (let n = e_tcbs e' x; sq = th_sent_seq (pcb_tcp (e_pcb e))
      in tcb_state n = TS_SYN_RECV \<and> l4cb_id n = x \<and> rcv_nxt n = sq + 1 \<and> rcv_irs n = sq \<and>
         snd_una n = snd_iss t \<and> snd_nxt n = snd_iss t + 1 \<and>
         l4cb_dst_addr n = pcb_src_addr (e_pcb e) \<and> l4cb_dst_port n = th_src_port (pcb_tcp (e_pcb e)) \<and>
         x \<in> set (e_htable e' (l4cb_interface n) (TPG_HASH_MOD (l4cb_rx_hash n))) \<and>
         (\<exists>p. e_tx e' = e_tx e @ [p] \<and> tx_flags p = 0x12 \<and> tx_seq p = snd_iss t \<and> tx_ack p = sq + 1 \<and>
              tx_dst_addr p = pcb_src_addr (e_pcb e) \<and> tx_dst_port p = th_src_port (pcb_tcp (e_pcb e))))"
proof -
  let ?d = "tsm_run (Suc (Suc 0)) P" and ?tcp = "pcb_tcp (e_pcb e)"
  let ?n0 = "t\<lparr>l4cb_id := x, tcb_malloced := True, l4cb_dst_addr := pcb_src_addr (e_pcb e), l4cb_dst_port := th_src_port ?tcp\<rparr>"
  let ?n1 = "l4_cb_calc_connection_hash P ?n0"
  let ?n2 = "?n1\<lparr>rcv_nxt := th_sent_seq ?tcp + 1, rcv_irs := th_sent_seq ?tcp, snd_una := snd_iss t, snd_nxt := snd_iss t + 1\<rparr>"
  let ?e1 = "upd_tcp_stats (l4cb_interface t) (\<lambda>s. s\<lparr>ts_tcb_malloced := ts_tcb_malloced s + 1\<rparr>) ((TCP_RECV_SYN_INC_STAT t e)\<lparr>e_pool := xs\<rparr>)"
  let ?e2 = "tcp_send_ctrl_pkt ?n2 (RTE_TCP_SYN_FLAG OR RTE_TCP_ACK_FLAG OR TCP_BUILD_FLAG_USE_ISS) (tlkp_add_tcb ?n1 ?e1)"
  have id: "l4cb_id ?n1 = x" "snd_iss ?n1 = snd_iss t" by (simp_all add: l4_cb_calc_connection_hash_def)
  have "\<exists>n e3. t' = t \<and> tsm_enter_state ?d TS_SYN_RECV PcbArg ?n2 ?e2 = Some (r, n, e3) \<and>
      e' = e3\<lparr>e_tcbs := (e_tcbs e3)(l4cb_id n := n)\<rparr>"
    using assms(1,2,3,5)
    by (auto simp: tsm_dispatch_net_event_def dispatch_array tsm_function_array_def tsm_SF_listen_def tsm_listen_syn_def
        TCP_IS_FLAG_SET_def tcp_flag_defs tcb_clone_def tlkp_alloc_tcb_def Let_def l4_cb_calc_connection_hash_def
        TCP_RECV_SYN_INC_STAT_def upd_tcp_stats_def simp del: tsm_run.simps)
  then obtain n e3 where t': "t' = t" and n: "tsm_enter_state ?d TS_SYN_RECV PcbArg ?n2 ?e2 = Some (r, n, e3)"
    and e': "e' = e3\<lparr>e_tcbs := (e_tcbs e3)(l4cb_id n := n)\<rparr>" by blast
  from enter_handshake [OF n] have k: "tcb_state n = TS_SYN_RECV" "tcb_conn n = tcb_conn ?n2" "e_tx e3 = e_tx ?e2"
    "e_pool e3 = e_pool ?e2" "e_htable e3 = e_htable ?e2" by simp_all
  have out: "e_tx_outcomes (tlkp_add_tcb ?n1 ?e1) = []" "e_tx (tlkp_add_tcb ?n1 ?e1) = e_tx e"
    using assms(4) by (simp_all add: tlkp_add_tcb_def TCP_RECV_SYN_INC_STAT_def upd_tcp_stats_def)
  have c: "l4cb_id n = x" "rcv_nxt n = th_sent_seq ?tcp + 1" "rcv_irs n = th_sent_seq ?tcp" "snd_una n = snd_iss t"
    "snd_nxt n = snd_iss t + 1" "l4cb_dst_addr n = pcb_src_addr (e_pcb e)" "l4cb_dst_port n = th_src_port ?tcp"
    "l4cb_interface n = l4cb_interface ?n1" "l4cb_rx_hash n = l4cb_rx_hash ?n1"
    using k(2) by (simp_all add: tcb_conn_def l4_cb_calc_connection_hash_def)
  have "e_tx e3 = e_tx e @ [tcp_build_hdr ?n2 (snd_nxt ?n2) (RTE_TCP_SYN_FLAG OR RTE_TCP_ACK_FLAG OR TCP_BUILD_FLAG_USE_ISS) []]"
    unfolding k(3) send_ctrl_tx(1) [OF out(1)] out(2) ..
  then have tx: "\<exists>p. e_tx e' = e_tx e @ [p] \<and> tx_flags p = 0x12 \<and> tx_seq p = snd_iss t \<and> tx_ack p = th_sent_seq ?tcp + 1 \<and>
      tx_dst_addr p = pcb_src_addr (e_pcb e) \<and> tx_dst_port p = th_src_port ?tcp"
    by (simp add: e' tcp_build_hdr_def tcp_flag_defs l4_cb_calc_connection_hash_def)
  have "x \<in> set (e_htable e3 (l4cb_interface ?n1) (TPG_HASH_MOD (l4cb_rx_hash ?n1)))"
    unfolding k(5) by (simp add: tlkp_add_tcb_def tlkp_add_cb_def id)
  moreover have "e_pool e3 = xs" unfolding k(4) by (simp add: tlkp_add_tcb_def TCP_RECV_SYN_INC_STAT_def upd_tcp_stats_def)
  ultimately show ?thesis using t' k(1) c tx by (simp add: e' Let_def)
qed

text \<open>
  C7: Opening a connection takes a block from the pool, puts it into the hash table in \<open>SYN_SENT\<close>, and sends one SYN from its
  address and port to those of the peer. The initial sequence number is always 0: the block is zeroed with it.
\<close>

theorem active_open_sends_syn:
  assumes "flags AND TCG_CB_REUSE_CB = 0" and "e_pool e = x # xs" and "e_tx_outcomes e = []"
    and "dst_ip \<noteq> 0" and "l4cb_id (e_tcbs e x) = x"
    and "tcp_open_v4_connection P None eth src_ip src_port dst_ip dst_port tc app (Some so) flags e = Some (r, y, e')"
  shows "r = 0 \<and> y = Some x \<and> e_pool e' = xs \<and>
    (let n = e_tcbs e' x
     in tcb_state n = TS_SYN_SENT \<and> l4cb_id n = x \<and> snd_iss n = 0 \<and> snd_una n = 0 \<and> snd_nxt n = 1 \<and>
        x \<in> set (e_htable e' eth (TPG_HASH_MOD (l4cb_rx_hash n))) \<and>
        (\<exists>p. e_tx e' = e_tx e @ [p] \<and> tx_flags p = 0x02 \<and> tx_seq p = 0 \<and> tx_src_addr p = src_ip \<and>
             tx_dst_addr p = dst_ip \<and> tx_src_port p = src_port \<and> tx_dst_port p = dst_port))"
proof -
  let ?d = "tsm_run (Suc (Suc 0)) P"
  let ?e1 = "upd_tcp_stats eth (\<lambda>s. s\<lparr>ts_tcb_malloced := ts_tcb_malloced s + 1\<rparr>) (e\<lparr>e_pool := xs\<rparr>)"
  let ?t1 = "tlkp_init_tcb P src_ip dst_ip src_port dst_port 0 eth tc app so (flags OR TCG_CB_MALLOCED) (e_tcbs e x)"
  have "\<exists>t2 e2. tsm_initialize_statemachine (tsm_dispatch_event P) True ?t1 ?e1 = Some (0, t2, e2) \<and>
      tcb_state t2 = TS_INIT \<and> tcb_active t2 \<and> snd_iss t2 = 0 \<and> e_pool e2 = xs \<and> e_tx e2 = e_tx e \<and>
      e_tx_outcomes e2 = [] \<and> l4cb_id t2 = x \<and> l4cb_interface t2 = eth \<and> l4cb_src_addr t2 = src_ip \<and> l4cb_dst_addr t2 = dst_ip \<and>
      l4cb_src_port t2 = src_port \<and> l4cb_dst_port t2 = dst_port"
    using assms(3,5)
    by (simp add: tsm_initialize_statemachine_def tsm_enter_state_def Let_def dispatch_array tsm_function_array_def
        tsm_SF_init_def tsm_initialize_minimal_statemachine_def tlkp_init_tcb_def tlkp_init_cb_def
        l4_cb_calc_connection_hash_def upd_tsm_stats_def upd_tcp_stats_def del: tsm_run.simps)
  then obtain t2 e2 where i: "tsm_initialize_statemachine (tsm_dispatch_event P) True ?t1 ?e1 = Some (0, t2, e2)"
    and t2: "tcb_state t2 = TS_INIT" "tcb_active t2" "snd_iss t2 = 0" "l4cb_id t2 = x" "l4cb_interface t2 = eth"
      "l4cb_src_addr t2 = src_ip" "l4cb_dst_addr t2 = dst_ip" "l4cb_src_port t2 = src_port" "l4cb_dst_port t2 = dst_port"
    and e2: "e_pool e2 = xs" "e_tx e2 = e_tx e" "e_tx_outcomes e2 = []"
    by blast
  let ?t3 = "t2\<lparr>snd_una := 0, snd_nxt := 1\<rparr>" and ?e3 = "tlkp_add_tcb t2 e2"
  let ?e4 = "tcp_send_ctrl_pkt ?t3 (RTE_TCP_SYN_FLAG OR TCP_BUILD_FLAG_USE_ISS) ?e3"
  have mem: "e_tcbs ?e1 = e_tcbs e" by (simp add: upd_tcp_stats_def)
  have "\<exists>q n e5. tsm_enter_state ?d TS_SYN_SENT NoArg ?t3 ?e4 = Some (q, n, e5) \<and> r = 0 \<and> y = Some x \<and>
      e' = e5\<lparr>e_tcbs := (e_tcbs e5)(x := n)\<rparr>"
    using assms(1,2,4,6) i t2(1-3)
    by (auto simp: mem tcp_open_v4_connection_def tlkp_alloc_tcb_def on_tcb_def dispatch_array tsm_function_array_def
        tsm_SF_init_def Let_def simp del: tsm_run.simps)
  then obtain q n e5 where n: "tsm_enter_state ?d TS_SYN_SENT NoArg ?t3 ?e4 = Some (q, n, e5)"
    and r: "r = 0" "y = Some x" "e' = e5\<lparr>e_tcbs := (e_tcbs e5)(x := n)\<rparr>" by blast
  from enter_handshake [OF n] have k: "tcb_state n = TS_SYN_SENT" "tcb_conn n = tcb_conn ?t3" "e_tx e5 = e_tx ?e4"
    "e_pool e5 = e_pool ?e4" "e_htable e5 = e_htable ?e4" by simp_all
  have c: "l4cb_id n = x" "snd_iss n = 0" "snd_una n = 0" "snd_nxt n = 1" "l4cb_rx_hash n = l4cb_rx_hash t2"
    using k(2) t2 by (simp_all add: tcb_conn_def)
  have out: "e_tx_outcomes ?e3 = []" "e_tx ?e3 = e_tx e" using e2 by (simp_all add: tlkp_add_tcb_def)
  have "e_tx e5 = e_tx e @ [tcp_build_hdr ?t3 (snd_nxt ?t3) (RTE_TCP_SYN_FLAG OR TCP_BUILD_FLAG_USE_ISS) []]"
    unfolding k(3) send_ctrl_tx(1) [OF out(1)] out(2) ..
  moreover have "x \<in> set (e_htable e5 eth (TPG_HASH_MOD (l4cb_rx_hash n)))"
    unfolding k(5) by (simp add: tlkp_add_tcb_def tlkp_add_cb_def t2 c)
  moreover have "e_pool e5 = xs" unfolding k(4) by (simp add: tlkp_add_tcb_def e2)
  ultimately show ?thesis using r k(1) c t2 by (simp add: tcp_build_hdr_def tcp_flag_defs)
qed

definition ex_open_env :: "unit env" where
  "ex_open_env = (ex_env (ex_tcb TS_LISTEN TSTS_LISTEN) (ex_pcb (ex_hdr 0x02 500 0) []))"

definition ex_init_env :: "unit env" where
  "ex_init_env = (ex_env (ex_tcb TS_INIT TSTS_CL_TO_OPEN) (ex_pcb (ex_hdr 0x02 500 0) []))
     \<lparr>ce_tci := (\<lambda>_ _. ex_tci\<lparr>tos_to_open_cbs := [7]\<rparr>)\<rparr>"

lemma ex_connecting:
  assumes "l4cb_test_state t = TSTS_CL_TO_OPEN" and "ce_tci e = (\<lambda>_ _. ex_tci\<lparr>tos_to_open_cbs := [l4cb_id t]\<rparr>)"
  shows "TCP_NOTIF ex_P TEST_NOTIF_SESS_CONNECTING t e \<noteq> None"
  using assms
  by (simp add: TCP_NOTIF_def test_notification_def test_sess_connecting_def test_sm_enter_state_def
      test_sm_dispatch_event_def eval_nat_numeral test_sm_function_array_def test_sm_SF_client_to_open_def
      test_sm_SF_client_opening_def cbq_rem_eqs test_sess_record_start_time_def get_tci_def upd_tci_def ex_tci_def)

lemma initialize_eq:
  "tsm_initialize_statemachine (tsm_dispatch_event P) active t e =
     Some (0, t\<lparr>tcb_state := TS_INIT, tcb_active := active, tcb_fin_rcvd := False, tcb_rst_rcvd := False, tcb_rcv_fin_seq := 0,
        snd_una := 0, snd_nxt := 0, snd_wnd := 0, snd_uo := 0, snd_wl1 := 0, snd_wl2 := 0, snd_iss := 0,
        rcv_nxt := 0, rcv_wnd := tcpo_win_size (l4cb_sockopt t), rcv_up := 0, rcv_irs := 0, tcb_retrans_cnt := 0,
        tr_data_mbufs := [], tr_last_set := False, tr_total_size := 0, tcb_rcv_buf := []\<rparr>,
      upd_tsm_stats (l4cb_interface t) (tsm_inc_state TS_INIT) e)"
  by (simp add: tsm_initialize_statemachine_def tsm_enter_state_def Let_def dispatch_array tsm_function_array_def
      tsm_SF_init_def tsm_initialize_minimal_statemachine_def del: tsm_run.simps)

lemma init_tcb_same:
  "l4cb_test_state (tlkp_init_tcb P a b p q h i c app so fl t) = l4cb_test_state t"
  "l4cb_id (tlkp_init_tcb P a b p q h i c app so fl t) = l4cb_id t"
  by (simp_all add: tlkp_init_tcb_def tlkp_init_cb_def Let_def l4_cb_calc_connection_hash_def)

lemma ce_tci_same [simp]:
  "ce_tci (tcp_send_ctrl_pkt t f e) = ce_tci e" 
  "ce_tci (upd_tsm_stats p h e) = ce_tci e" "ce_tci (tlkp_add_tcb t e) = ce_tci e"
  by (simp_all add: tcp_send_ctrl_pkt_def tcp_send_ctrl_pkt_with_sseq_def Let_def case_prod_beta
      upd_tsm_stats_def tlkp_add_tcb_def)

theorem active_open_sends_syn_witness:
  "\<exists>r y e' p. tcp_open_v4_connection ex_P None 0 1 1000 2 80 0 () (Some ex_sockopt) 0 ex_init_env = Some (r, y, e') \<and>
     e_tx e' = [p] \<and> tx_flags p = 0x02 \<and> tx_seq p = 0"
proof -
  have e: "e_pool ex_init_env = 7 # [8]" "e_tx_outcomes ex_init_env = []" "l4cb_id (e_tcbs ex_init_env 7) = 7" "e_tx ex_init_env = []"
    by (simp_all add: ex_init_env_def ex_env_def)
  have "tsm_enter_state (tsm_run (Suc (Suc 0)) ex_P) TS_SYN_SENT NoArg n e1 \<noteq> None"
    if "l4cb_test_state n = TSTS_CL_TO_OPEN" "ce_tci e1 = (\<lambda>_ _. ex_tci\<lparr>tos_to_open_cbs := [l4cb_id n]\<rparr>)" for n e1
    using ex_connecting [of "n\<lparr>tcb_state := TS_SYN_SENT\<rparr>"] that
    by (simp add: tsm_enter_state_def Let_def tsm_function_array_def tsm_SF_syn_sent_def upd_tsm_stats_def)
  note up = this
  let ?t = "tlkp_init_tcb ex_P 1 2 1000 80 0 0 0 () ex_sockopt TCG_CB_MALLOCED (e_tcbs ex_init_env 7)"
  have t: "l4cb_test_state ?t = TSTS_CL_TO_OPEN" "l4cb_id ?t = 7" "ce_tci ex_init_env = (\<lambda>_ _. ex_tci\<lparr>tos_to_open_cbs := [7]\<rparr>)"
    by (simp_all add: init_tcb_same ex_init_env_def ex_env_def ex_tcb_def)
  have "e_tcbs (upd_tcp_stats 0 g (ex_init_env\<lparr>e_pool := [8]\<rparr>)) = e_tcbs ex_init_env" for g by (simp add: upd_tcp_stats_def)
  then have "tcp_open_v4_connection ex_P None 0 1 1000 2 80 0 () (Some ex_sockopt) 0 ex_init_env \<noteq> None"
    using up t
    by (auto simp: tcp_open_v4_connection_def TCG_CB_REUSE_CB_def tlkp_alloc_tcb_def e on_tcb_def initialize_eq
        dispatch_array tsm_function_array_def tsm_SF_init_def Let_def simp del: tsm_run.simps)
  then obtain r y e' where r:
    "tcp_open_v4_connection ex_P None 0 1 1000 2 80 0 () (Some ex_sockopt) 0 ex_init_env = Some (r, y, e')"
    by auto
  from active_open_sends_syn [OF _ e(1,2) _ e(3) r] e(4) r show ?thesis by (auto simp: Let_def TCG_CB_REUSE_CB_def)
qed

lemma ex_srv_connected: "TCP_NOTIF ex_P TEST_NOTIF_SESS_SRV_CONNECTED t e \<noteq> None"
  by (simp add: TCP_NOTIF_def test_notification_def test_sess_server_connected_def test_sm_enter_state_def
      test_sm_dispatch_event_def eval_nat_numeral test_sm_function_array_def test_sm_SF_server_opening_def
      test_sm_SF_server_open_def test_app_conn_up_def ex_P_def ex_app_def)

theorem passive_open_answers_witness:
  "\<exists>r t' e'. tsm_dispatch_net_event ex_P (ex_tcb TS_LISTEN TSTS_LISTEN) ex_open_env = Some (r, t', e') \<and>
     e_pool e' = [8] \<and> tcb_state (e_tcbs e' 7) = TS_SYN_RECV \<and> rcv_nxt (e_tcbs e' 7) = 501"
proof -
  let ?t = "ex_tcb TS_LISTEN TSTS_LISTEN"
  have e: "e_pool ex_open_env = 7 # [8]" "e_tx_outcomes ex_open_env = []" "pcb_tcp (e_pcb ex_open_env) = ex_hdr 0x02 500 0"
    by (simp_all add: ex_open_env_def ex_pcb_def) (simp_all add: ex_env_def)
  have t: "tcb_state ?t = TS_LISTEN" "th_flags (pcb_tcp (e_pcb ex_open_env)) = 0x02" by (simp_all add: e ex_hdr_def)
  have "tsm_enter_state (tsm_run (Suc (Suc 0)) ex_P) TS_SYN_RECV PcbArg n e1 \<noteq> None" for n e1
    using ex_srv_connected by (simp add: tsm_enter_state_def Let_def tsm_function_array_def tsm_SF_syn_recv_def)
  then have "tsm_dispatch_net_event ex_P ?t ex_open_env \<noteq> None"
    using t e(1) by (auto simp: tsm_dispatch_net_event_def dispatch_array tsm_function_array_def tsm_SF_listen_def
        tsm_listen_syn_def TCP_IS_FLAG_SET_def tcp_flag_defs tcb_clone_def tlkp_alloc_tcb_def Let_def
        TCP_RECV_SYN_INC_STAT_def upd_tcp_stats_def simp del: tsm_run.simps)
  then obtain r t' e' where r: "tsm_dispatch_net_event ex_P ?t ex_open_env = Some (r, t', e')" by auto
  from passive_open_answers [OF t e(1,2) r] r show ?thesis by (simp add: e Let_def ex_hdr_def)
qed

end
