(* ===== verification/DataChain.thy ===== *)
theory DataChain
  imports Mbuf
begin

text \<open>
  Building chains that point to static data: \<^verbatim>\<open>data_chain_from_static_template\<close> and
  \<^verbatim>\<open>data_chain_from_static_chain\<close> of \<^verbatim>\<open>inc/tpg_data.h\<close>.

  A buffer that points to a template holds a prefix of it: its bytes are the bytes of the template
  (the buffer is marked static and nobody writes to it). A chain is built from the front, so the
  loops carry the buffers built so far. A loop ends when the data is covered or an allocation
  fails; with an empty template it would not end, which is \<^term>\<open>None\<close>.
\<close>

text \<open>\<open>DATA_MBUF_FROM_TEMPLATE\<close> on a fresh buffer: \<open>data_len\<close> has 16 bits.\<close>

definition DATA_MBUF_FROM_TEMPLATE :: "u8 list \<Rightarrow> u32 \<Rightarrow> mbuf" where
  "DATA_MBUF_FROM_TEMPLATE tmpl len =
     \<lparr>mb_data = take (unat (ucast len :: u16)) tmpl, mb_pkt_len = 0, mb_nb_segs = 1\<rparr>"

text \<open>The loop: the chain, whether the last allocation succeeded, and the bytes that remain.\<close>

partial_function (option) data_template_loop ::
  "u8 list \<Rightarrow> u32 \<Rightarrow> u32 \<Rightarrow> chain \<Rightarrow> bool list \<Rightarrow> (chain \<times> bool \<times> u32 \<times> bool list) option" where
  "data_template_loop tmpl template_len len acc bs =
     (let m = DATA_MBUF_FROM_TEMPLATE tmpl template_len;
          acc = acc @ [m];
          len = len - data_len m
      in if len \<ge> template_len
         then let (ok, bs) = pkt_mbuf_alloc bs
              in if ok then data_template_loop tmpl template_len len acc bs
                 else Some (acc, False, len, bs)
         else Some (acc, True, len, bs))"

fun set_head :: "u16 \<Rightarrow> u32 \<Rightarrow> chain \<Rightarrow> chain" where
  "set_head nb_segs pkt_len [] = []"
| "set_head nb_segs pkt_len (m # c) = m\<lparr>mb_nb_segs := nb_segs, mb_pkt_len := pkt_len\<rparr> # c"

text \<open>The template is \<open>template_len\<close> bytes long; \<^term>\<open>[]\<close> is the chain \<open>NULL\<close>.\<close>

definition data_chain_from_static_template ::
  "u32 \<Rightarrow> u8 list \<Rightarrow> u32 \<Rightarrow> bool list \<Rightarrow> (chain \<times> bool list) option" where
  "data_chain_from_static_template len tmpl template_len bs =
     (if len = 0 then Some ([], bs)
      else
        let (ok, bs) = pkt_mbuf_alloc bs
        in if \<not> ok then Some ([], bs)
           else if len \<le> template_len
           then Some (set_head 1 len [DATA_MBUF_FROM_TEMPLATE tmpl len], bs)
           else do {
             (c, ok, rest, bs) \<leftarrow> data_template_loop tmpl template_len len [] bs;
             if \<not> ok then Some ([], bs)
             else if rest \<noteq> 0
             then let (ok, bs) = pkt_mbuf_alloc bs
                  in if \<not> ok then Some ([], bs)
                     else Some (set_head (of_nat (Suc (length c))) len
                                  (c @ [DATA_MBUF_FROM_TEMPLATE tmpl rest]), bs)
             else Some (set_head (of_nat (length c)) len c, bs)
           })"

text \<open>
  Pointing into a static chain: the first buffer is entered at \<open>data_offset\<close>, the others at 0;
  the walk ends with the data, with the chain, or when an allocation fails.
\<close>

fun data_static_chain_loop ::
  "chain \<Rightarrow> u32 \<Rightarrow> u32 \<Rightarrow> bool list \<Rightarrow> (chain \<times> bool \<times> bool list) option" where
  "data_static_chain_loop [] off len bs = None"
| "data_static_chain_loop (s # c) off len bs =
     (let req = (if data_len s - off \<le> len then data_len s - off else len);
          m = \<lparr>mb_data = take (unat (ucast req :: u16)) (drop (unat off) (mb_data s)),
               mb_pkt_len = 0, mb_nb_segs = 1\<rparr>;
          len = len - data_len m
      in if len \<noteq> 0 \<and> c \<noteq> []
         then let (ok, bs) = pkt_mbuf_alloc bs
              in if ok
                 then map_option (\<lambda>(r, ok, bs). (m # r, ok, bs)) (data_static_chain_loop c 0 len bs)
                 else Some ([m], False, bs)
         else Some ([m], True, bs))"

definition data_chain_from_static_chain ::
  "chain \<Rightarrow> u32 \<Rightarrow> u32 \<Rightarrow> bool list \<Rightarrow> (chain \<times> bool list) option" where
  "data_chain_from_static_chain static_chain data_offset len bs =
     (if len = 0 \<or> static_chain = [] then Some ([], bs)
      else
        let (ok, bs) = pkt_mbuf_alloc bs
        in if \<not> ok then Some ([], bs)
           else do {
             (c, ok, bs) \<leftarrow> data_static_chain_loop static_chain data_offset len bs;
             Some (if ok then set_head (of_nat (length c)) len c else [], bs)
           })"

subsection \<open>Chains from a template\<close>

text \<open>\<open>n\<close> bytes of a template repeated over and over.\<close>

definition repeated :: "u8 list \<Rightarrow> nat \<Rightarrow> u8 list" where
  "repeated tmpl n = map (\<lambda>i. tmpl ! (i mod length tmpl)) [0..<n]"

lemma length_repeated [simp]: "length (repeated tmpl n) = n"
  by (simp add: repeated_def)

lemma repeated_short: "n \<le> length tmpl \<Longrightarrow> repeated tmpl n = take n tmpl"
  by (intro nth_equalityI) (simp_all add: repeated_def)

lemma repeated_add: "repeated tmpl (length tmpl + n) = tmpl @ repeated tmpl n"
  by (intro nth_equalityI) (auto simp: repeated_def nth_append le_mod_geq)

lemma template_mbuf [simp]:
  assumes "length tmpl < 65536" and "unat len \<le> length tmpl"
  shows "mb_data (DATA_MBUF_FROM_TEMPLATE tmpl len) = take (unat len) tmpl"
  using assms by (simp add: DATA_MBUF_FROM_TEMPLATE_def ucast16_unat)

lemma set_head_bytes [simp]: "chain_bytes (set_head n l c) = chain_bytes c"
  by (cases c) simp_all

lemma set_head_length [simp]: "length (set_head n l c) = length c"
  by (cases c) simp_all

lemma set_head_Nil [simp]: "set_head n l c = [] \<longleftrightarrow> c = []"
  by (cases c) simp_all

lemma template_mbuf_ok [simp]: "length tmpl < 65536 \<Longrightarrow> mbuf_ok (DATA_MBUF_FROM_TEMPLATE tmpl len)"
  by (simp add: mbuf_ok_def DATA_MBUF_FROM_TEMPLATE_def)

lemma pkt_mbuf_alloc_set:
  assumes "pkt_mbuf_alloc bs = (ok, bs')"
  shows "\<not> ok \<longrightarrow> False \<in> set bs" and "set bs' \<subseteq> set bs"
  using assms by (cases bs; auto)+

text \<open>The loop covers whole templates, or gives up on a failed allocation.\<close>

lemma data_template_loop_covers:
  assumes "0 < length tmpl" and "length tmpl < 65536" and "template_len = of_nat (length tmpl)"
    and "length tmpl \<le> unat len"
  shows "\<exists>k ok rest bs'. data_template_loop tmpl template_len len acc bs =
            Some (acc @ replicate k (DATA_MBUF_FROM_TEMPLATE tmpl template_len), ok, rest, bs') \<and>
          0 < k \<and> k * length tmpl + unat rest = unat len \<and> (ok \<longrightarrow> unat rest < length tmpl) \<and>
          (\<not> ok \<longrightarrow> False \<in> set bs) \<and> set bs' \<subseteq> set bs"
  using assms(4)
proof (induction "unat len" arbitrary: len acc bs rule: less_induct)
  case less
  let ?m = "DATA_MBUF_FROM_TEMPLATE tmpl template_len"
  have t: "unat template_len = length tmpl" using assms by (simp add: unat_of_nat_small)
  then have m: "mb_data ?m = tmpl" using assms(2) by simp
  then have sub: "unat (len - data_len ?m) = unat len - length tmpl"
    using less.prems assms(2) by (subst unat_sub_if_word) (simp add: data_len_def unat_of_nat_small)
  show ?case
  proof (cases "len - data_len ?m \<ge> template_len")
    case False
    then have "unat (len - data_len ?m) < length tmpl" using t by (simp add: word_unat_le)
    then show ?thesis using False sub less.prems
      by (subst data_template_loop.simps) (auto simp: Let_def intro!: exI [of _ 1])
  next
    case True
    then have le: "length tmpl \<le> unat (len - data_len ?m)" using t by (simp add: word_unat_le)
    have lt: "unat (len - data_len ?m) < unat len" using sub assms(1) less.prems by linarith
    obtain ok bs1 where a: "pkt_mbuf_alloc bs = (ok, bs1)" by fastforce
    note bs = pkt_mbuf_alloc_set [OF a]
    show ?thesis
    proof (cases ok)
      case False
      then show ?thesis using True a bs sub less.prems
        by (subst data_template_loop.simps) (auto simp: Let_def intro!: exI [of _ 1])
    next
      case ok: True
      from less.hyps [OF lt le, of "acc @ [?m]" bs1] obtain k ok' rest bs' where
        r: "data_template_loop tmpl template_len (len - data_len ?m) (acc @ [?m]) bs1 =
              Some ((acc @ [?m]) @ replicate k ?m, ok', rest, bs')" "0 < k"
          "k * length tmpl + unat rest = unat (len - data_len ?m)" "ok' \<longrightarrow> unat rest < length tmpl"
          "\<not> ok' \<longrightarrow> False \<in> set bs1" "set bs' \<subseteq> set bs1" by blast
      then have "data_template_loop tmpl template_len len acc bs =
          Some (acc @ replicate (Suc k) ?m, ok', rest, bs')"
        using True ok a by (subst data_template_loop.simps) (simp add: Let_def)
      moreover have "Suc k * length tmpl + unat rest = unat len"
        using r(3) sub less.prems by simp
      ultimately show ?thesis using r bs(2) by blast
    qed
  qed
qed

lemma chain_bytes_replicate [simp]: "chain_bytes (replicate k m) = concat (replicate k (mb_data m))"
  by (induction k) simp_all

lemma repeated_mult:
  "n \<le> length tmpl \<Longrightarrow> repeated tmpl (k * length tmpl + n) = concat (replicate k tmpl) @ take n tmpl"
  by (induction k) (simp_all add: repeated_short repeated_add add.assoc)

text \<open>
  The outcome of \<open>data_chain_from_static_template\<close>: the requested number of bytes of the repeated
  template in a packet with its length, or \<open>NULL\<close> when there is nothing to send or an allocation failed.
\<close>

lemma static_template_chain:
  assumes "0 < length tmpl" and "length tmpl < 65536" and "template_len = of_nat (length tmpl)"
  shows "\<exists>c bs'. data_chain_from_static_template len tmpl template_len bs = Some (c, bs') \<and>
          set bs' \<subseteq> set bs \<and> (c = [] \<longrightarrow> len = 0 \<or> False \<in> set bs) \<and>
          (c \<noteq> [] \<longrightarrow> len \<noteq> 0 \<and> chain_bytes c = repeated tmpl (unat len) \<and> mb_pkt_len (hd c) = len \<and>
             mb_nb_segs (hd c) = of_nat (length c) \<and> list_all mbuf_ok c \<and>
             (unat len mod length tmpl \<noteq> 0 \<longrightarrow> length (mb_data (last c)) = unat len mod length tmpl))"
proof (cases "len = 0")
  case True
  then show ?thesis by (simp add: data_chain_from_static_template_def)
next
  case nz: False
  have t: "unat template_len = length tmpl" using assms by (simp add: unat_of_nat_small)
  obtain ok bs1 where a: "pkt_mbuf_alloc bs = (ok, bs1)" by fastforce
  note bs = pkt_mbuf_alloc_set [OF a]
  have ok_head: "list_all mbuf_ok (set_head n l c) = list_all mbuf_ok c" for n l c
    by (cases c) (simp_all add: mbuf_ok_def)
  have hd: "c \<noteq> [] \<Longrightarrow> mb_pkt_len (hd (set_head n l c)) = l \<and> mb_nb_segs (hd (set_head n l c)) = n" for n l c
    by (cases c) simp_all
  show ?thesis
  proof (cases "ok \<and> \<not> len \<le> template_len")
    case False
    have "unat len mod length tmpl = unat len" if "unat len \<le> length tmpl" "unat len mod length tmpl \<noteq> 0"
      using that by (cases "unat len = length tmpl") simp_all
    then show ?thesis using False nz a bs t assms
      by (auto simp: data_chain_from_static_template_def word_unat_le repeated_short mbuf_ok_def)
  next
    case True
    then have "length tmpl \<le> unat len" using t by (simp add: word_unat_le)
    from data_template_loop_covers [OF assms this, of "[]" bs1] obtain k ok' rest bs' where
      r: "data_template_loop tmpl template_len len [] bs1 =
            Some (replicate k (DATA_MBUF_FROM_TEMPLATE tmpl template_len), ok', rest, bs')"
        "0 < k" "k * length tmpl + unat rest = unat len" "ok' \<longrightarrow> unat rest < length tmpl"
        "\<not> ok' \<longrightarrow> False \<in> set bs1" "set bs' \<subseteq> set bs1" by auto
    obtain ok2 bs2 where a2: "pkt_mbuf_alloc bs' = (ok2, bs2)" by fastforce
    note bs2 = pkt_mbuf_alloc_set [OF a2]
    let ?m = "DATA_MBUF_FROM_TEMPLATE tmpl template_len"
    let ?c = "replicate k ?m @ (if rest = 0 then [] else [DATA_MBUF_FROM_TEMPLATE tmpl rest])"
    show ?thesis
    proof (cases "ok' \<and> (rest \<noteq> 0 \<longrightarrow> ok2)")
      case False
      then show ?thesis using nz True a r a2 bs bs2
        by (auto simp: data_chain_from_static_template_def)
    next
      case ok: True
      then have rest: "unat rest \<le> length tmpl" using r(4) by simp
      have "chain_bytes ?c = repeated tmpl (unat len)"
        using rest t assms(2) by (simp add: r(3) [symmetric] repeated_mult)
      moreover have "list_all mbuf_ok ?c"
        using assms(2) by (simp add: list_all_iff)
      moreover have "unat len mod length tmpl = unat rest" using r(3,4) ok
        by (metis add.commute mod_less mod_mult_self1)
      moreover have "length (mb_data (last (set_head n l c))) = length (mb_data (last c))" for n l c
        by (cases c) simp_all
      ultimately show ?thesis using nz True a r a2 ok bs(2) bs2(2) rest assms(2) r(2)
        by (auto simp: data_chain_from_static_template_def ok_head hd unat_eq_0)
    qed
  qed
qed

subsection \<open>Ranges of a static chain\<close>

lemma static_chain_mbuf:
  assumes "mbuf_ok s" and "unat off \<le> length (mb_data s)"
    and "req = (if data_len s - off \<le> len then data_len s - off else len)"
  shows "take (unat (ucast req :: u16)) (drop (unat off) (mb_data s)) = take (unat len) (drop (unat off) (mb_data s))"
    and "unat (len - of_nat (length (take (unat len) (drop (unat off) (mb_data s))))) =
           unat len - (length (mb_data s) - unat off)"
proof -
  have d: "unat (data_len s - off) = length (mb_data s) - unat off"
    using assms(1,2) by (simp add: unat_sub_if_word)
  then have "unat req = min (length (mb_data s) - unat off) (unat len)"
    using assms(3) by (simp add: word_unat_le)
  then show "take (unat (ucast req :: u16)) (drop (unat off) (mb_data s)) = take (unat len) (drop (unat off) (mb_data s))"
    using assms(1) by (subst ucast16_unat) (auto simp: mbuf_ok_def min_def)
  have "length (mb_data s) < 65536" using assms(1) by (simp add: mbuf_ok_def)
  then show "unat (len - of_nat (length (take (unat len) (drop (unat off) (mb_data s))))) =
           unat len - (length (mb_data s) - unat off)"
    by (subst unat_sub_if_word) (auto simp: unat_of_nat_small min_def)
qed

lemma data_static_chain_loop_range:
  assumes "list_all mbuf_ok c" and "c \<noteq> []" and "unat off \<le> length (mb_data (hd c))"
  shows "\<exists>r ok bs'. data_static_chain_loop c off len bs = Some (r, ok, bs') \<and> r \<noteq> [] \<and>
           list_all mbuf_ok r \<and> (\<not> ok \<longrightarrow> False \<in> set bs) \<and>
           (ok \<longrightarrow> chain_bytes r = take (unat len) (drop (unat off) (chain_bytes c)))"
  using assms
proof (induction c arbitrary: off len bs)
  case (Cons s c)
  let ?d = "take (unat len) (drop (unat off) (mb_data s))"
  let ?m = "\<lparr>mb_data = ?d, mb_pkt_len = 0, mb_nb_segs = 1\<rparr>"
  from Cons.prems have s: "mbuf_ok s" "unat off \<le> length (mb_data s)" "list_all mbuf_ok c" by simp_all
  have m: "mbuf_ok ?m" using s(1) by (simp add: mbuf_ok_def)
  note sm = static_chain_mbuf [OF s(1,2) refl, of len]
  have len': "unat (len - data_len ?m) = unat len - (length (mb_data s) - unat off)"
    using sm(2) by (simp add: data_len_def)
  obtain ok bs1 where a: "pkt_mbuf_alloc bs = (ok, bs1)" by fastforce
  note bs = pkt_mbuf_alloc_set [OF a]
  have step: "data_static_chain_loop (s # c) off len bs =
      (if len - data_len ?m \<noteq> 0 \<and> c \<noteq> []
       then if ok then map_option (\<lambda>(r, ok, bs). (?m # r, ok, bs)) (data_static_chain_loop c 0 (len - data_len ?m) bs1)
            else Some ([?m], False, bs1)
       else Some ([?m], True, bs))"
    by (simp add: a sm(1) Let_def del: set_head.simps)
  show ?case
  proof (cases "len - data_len ?m \<noteq> 0 \<and> c \<noteq> [] \<and> ok")
    case False
    have "chain_bytes c = [] \<or> unat len - (length (mb_data s) - unat off) = 0"
      if "\<not> (len - data_len ?m \<noteq> 0 \<and> c \<noteq> [])"
      using that len' by (auto simp: unat_eq_0 [symmetric])
    then show ?thesis using False m bs s(2) unfolding step by auto
  next
    case True
    from Cons.IH [OF s(3), of 0 "len - data_len ?m" bs1] True
    obtain r ok' bs' where
      "data_static_chain_loop c 0 (len - data_len ?m) bs1 = Some (r, ok', bs')" "r \<noteq> []" "list_all mbuf_ok r"
      "\<not> ok' \<longrightarrow> False \<in> set bs1"
      "ok' \<longrightarrow> chain_bytes r = take (unat (len - data_len ?m)) (chain_bytes c)"
      by auto
    then show ?thesis using True m bs s(2) len' unfolding step by auto
  qed
qed simp

end
