(* ===== verification/RawApp.thy ===== *)
theory RawApp
  imports DataChain Tcp
begin

text \<open>
  The raw application: \<^verbatim>\<open>src/appl/tpg_test_raw_app.c\<close> and \<^verbatim>\<open>inc/appl/tpg_test_raw_app.h\<close>. A client
  sends requests of a fixed size and waits for responses of a fixed size; a server is the same
  application with the two sizes exchanged.

  A callback takes the application data of the session, with the flags of the test case copied
  into it (\<open>ad_storage\<close>), and the statistics of the test case, and returns them with the
  notifications it sends. The session state machine does not look at the application data, so
  they may be sent after the update of the data. The latency samples the code passes to
  \<open>test_update_latency\<close> are kept in a list of their own. The timestamp an outgoing packet is
  marked with is filled in by the lower layers and stays 0 here.

  \<open>rte_pktmbuf_trim\<close> belongs to DPDK and is a parameter with its documented behaviour.
\<close>

datatype raw_state = RAWS_SENDING | RAWS_RECEIVING

record raw_app =
  ra_req_size :: u16
  ra_resp_size :: u16
  ra_remaining_count :: u16
  ra_rx_tstamp_size :: u8
  ra_tx_tstamp_size :: u8
  ra_tx_tstamp :: "u8 list"
  ra_state :: raw_state
  rst_tstamp :: u32

record raw_stats =
  rsts_req_cnt :: u64
  rsts_resp_cnt :: u64
  rsts_tstamp_no_phys_addr :: u32
  rsts_tstamp_no_mbuf :: u32
  rsts_tstamp_no_win :: u32
  raw_latency :: "(u64 \<times> u64) list"

text \<open>\<open>tpg_raw_client_t\<close> and \<open>tpg_raw_server_t\<close>: the lengths of the configuration have 32 bits.\<close>

record raw_cfg =
  rc_req_plen :: u32
  rc_resp_plen :: u32
  rc_rx_tstamp :: "bool opt_field"
  rc_tx_tstamp :: "bool opt_field"

definition TPG_XLATE_OPT_BOOL :: "bool opt_field \<Rightarrow> bool" where
  "TPG_XLATE_OPT_BOOL f = (fst f \<and> snd f)"

definition RAW_FLAG_TSTAMP_NONE :: u32 where "RAW_FLAG_TSTAMP_NONE = 0"
definition RAW_FLAG_TSTAMP_RX :: u32 where "RAW_FLAG_TSTAMP_RX = 1"
definition RAW_FLAG_TSTAMP_TX :: u32 where "RAW_FLAG_TSTAMP_TX = 2"
definition RAW_FLAG_TSTAMP_RXTX :: u32 where
  "RAW_FLAG_TSTAMP_RXTX = RAW_FLAG_TSTAMP_RX OR RAW_FLAG_TSTAMP_TX"
definition RAW_FLAG_TSTAMP_MASK :: u32 where
  "RAW_FLAG_TSTAMP_MASK = RAW_FLAG_TSTAMP_NONE OR RAW_FLAG_TSTAMP_RX OR RAW_FLAG_TSTAMP_TX"

definition RAW_TSTAMP_SET :: "u32 \<Rightarrow> u32 \<Rightarrow> u32" where
  "RAW_TSTAMP_SET cfg v = cfg OR (v AND RAW_FLAG_TSTAMP_MASK)"

definition RAW_TSTAMP_ISSET :: "u32 \<Rightarrow> u32 \<Rightarrow> bool" where
  "RAW_TSTAMP_ISSET cfg v \<longleftrightarrow> cfg AND RAW_FLAG_TSTAMP_MASK AND v \<noteq> 0"

text \<open>\<open>sizeof(raw_latency_data_t)\<close>, the magic, and the template of every payload.\<close>

definition raw_latency_data_size :: nat where "raw_latency_data_size = 16"

definition raw_latency_magic :: "u8 list" where
  "raw_latency_magic = [0x57, 0x4c, 0x41, 0x54, 0x45, 0x4e, 0x43, 0x59]"

definition RAW_DATA_TEMPLATE_SIZE :: nat where "RAW_DATA_TEMPLATE_SIZE = 2048"

definition raw_mbuf_template :: "u8 list" where
  "raw_mbuf_template = replicate RAW_DATA_TEMPLATE_SIZE 42"

subsection \<open>Configuration\<close>

definition raw_init_tstamp_cfg :: "bool \<Rightarrow> bool \<Rightarrow> u32" where
  "raw_init_tstamp_cfg rx_tstamp tx_tstamp =
     (if rx_tstamp \<and> tx_tstamp then RAW_TSTAMP_SET RAW_FLAG_TSTAMP_NONE RAW_FLAG_TSTAMP_RXTX
      else if rx_tstamp then RAW_TSTAMP_SET RAW_FLAG_TSTAMP_NONE RAW_FLAG_TSTAMP_RX
      else if tx_tstamp then RAW_TSTAMP_SET RAW_FLAG_TSTAMP_NONE RAW_FLAG_TSTAMP_TX
      else RAW_FLAG_TSTAMP_NONE)"

definition raw_tc_start :: "raw_cfg \<Rightarrow> u32" where
  "raw_tc_start cfg =
     raw_init_tstamp_cfg (TPG_XLATE_OPT_BOOL (rc_rx_tstamp cfg)) (TPG_XLATE_OPT_BOOL (rc_tx_tstamp cfg))"

definition raw_tc_stop :: u32 where "raw_tc_stop = RAW_FLAG_TSTAMP_NONE"

definition raw_client_default_cfg :: raw_cfg where
  "raw_client_default_cfg =
     \<lparr>rc_req_plen = 0, rc_resp_plen = 0,
      rc_rx_tstamp = TPG_XLATE_OPTIONAL_SET_FIELD False,
      rc_tx_tstamp = TPG_XLATE_OPTIONAL_SET_FIELD False\<rparr>"

text \<open>The timestamp option of the IPv4 socket options, when they could be read, is an argument.\<close>

definition raw_validate_cfg :: "bool option \<Rightarrow> u32 \<Rightarrow> bool \<Rightarrow> u32 \<Rightarrow> bool \<Rightarrow> bool" where
  "raw_validate_cfg ip4so_tx_tstamp incoming_len rx_tstamp outgoing_len tx_tstamp =
     (if rx_tstamp \<and> incoming_len < of_nat raw_latency_data_size then False
      else if tx_tstamp \<and> ip4so_tx_tstamp = Some True then False
      else if tx_tstamp \<and> outgoing_len < of_nat raw_latency_data_size then False
      else True)"

definition raw_client_validate_cfg :: "bool option \<Rightarrow> raw_cfg \<Rightarrow> bool" where
  "raw_client_validate_cfg ip4 cfg =
     raw_validate_cfg ip4 (rc_resp_plen cfg) (TPG_XLATE_OPT_BOOL (rc_rx_tstamp cfg))
       (rc_req_plen cfg) (TPG_XLATE_OPT_BOOL (rc_tx_tstamp cfg))"

definition raw_server_validate_cfg :: "bool option \<Rightarrow> raw_cfg \<Rightarrow> bool" where
  "raw_server_validate_cfg ip4 cfg =
     raw_validate_cfg ip4 (rc_req_plen cfg) (TPG_XLATE_OPT_BOOL (rc_rx_tstamp cfg))
       (rc_resp_plen cfg) (TPG_XLATE_OPT_BOOL (rc_tx_tstamp cfg))"

definition raw_pkts_per_send :: "u32 \<Rightarrow> u32 \<Rightarrow> u32" where
  "raw_pkts_per_send plen max_pkt_size = (plen + max_pkt_size - 1) div max_pkt_size"

subsection \<open>Sessions\<close>

definition raw_goto_state :: "raw_state \<Rightarrow> u16 \<Rightarrow> raw_app \<Rightarrow> raw_app" where
  "raw_goto_state st remaining raw = raw\<lparr>ra_remaining_count := remaining, ra_state := st\<rparr>"

definition raw_latency_data_init :: "u8 list \<Rightarrow> u8 list" where
  "raw_latency_data_init d = raw_latency_magic @ drop (length raw_latency_magic) d"

definition raw_conn_init :: "u32 \<Rightarrow> u32 \<Rightarrow> raw_app \<Rightarrow> raw_app" where
  "raw_conn_init req_len resp_len raw =
     (let raw = (if RAW_TSTAMP_ISSET (rst_tstamp raw) RAW_FLAG_TSTAMP_RX
                 then raw\<lparr>ra_rx_tstamp_size := of_nat raw_latency_data_size\<rparr> else raw);
          raw = (if RAW_TSTAMP_ISSET (rst_tstamp raw) RAW_FLAG_TSTAMP_TX
                 then raw\<lparr>ra_tx_tstamp_size := of_nat raw_latency_data_size,
                          ra_tx_tstamp := raw_latency_data_init (ra_tx_tstamp raw)\<rparr> else raw)
      in raw\<lparr>ra_req_size := ucast req_len, ra_resp_size := ucast resp_len\<rparr>)"

definition raw_client_init :: "raw_cfg \<Rightarrow> raw_app \<Rightarrow> raw_app" where
  "raw_client_init cfg = raw_conn_init (rc_req_plen cfg) (rc_resp_plen cfg)"

definition raw_server_init :: "raw_cfg \<Rightarrow> raw_app \<Rightarrow> raw_app" where
  "raw_server_init cfg = raw_conn_init (rc_resp_plen cfg) (rc_req_plen cfg)"

definition raw_client_conn_up :: "raw_app \<Rightarrow> raw_app \<times> app_notif list" where
  "raw_client_conn_up raw =
     (let raw = raw_goto_state RAWS_SENDING (ra_req_size raw) raw
      in (raw, if ra_req_size raw = 0 then [] else [TEST_NOTIF_APP_SEND_START]))"

definition raw_server_conn_up :: "raw_app \<Rightarrow> raw_app \<times> app_notif list" where
  "raw_server_conn_up raw = (raw_goto_state RAWS_RECEIVING (ra_resp_size raw) raw, [])"

definition raw_conn_down :: "raw_app \<Rightarrow> raw_app" where
  "raw_conn_down raw = raw"

subsection \<open>Receiving\<close>

text \<open>Two big endian halves of the timestamp; a byte behind the end of the first buffer reads as 0.\<close>

definition TSTAMP_JOIN :: "u32 \<Rightarrow> u32 \<Rightarrow> u64" where
  "TSTAMP_JOIN high low = push_bit 32 (ucast high) OR ucast low"

definition raw_rx_tstamp :: "u8 list \<Rightarrow> u64 option" where
  "raw_rx_tstamp d =
     (if map (byte_at d) [0..<8] = raw_latency_magic
      then Some (TSTAMP_JOIN (be32_at d 12) (be32_at d 8)) else None)"

definition raw_deliver_data ::
  "raw_app \<Rightarrow> chain \<Rightarrow> u64 \<Rightarrow> u32 \<times> raw_app \<times> (u64 \<times> u64) list" where
  "raw_deliver_data raw rx_data rx_tstamp =
     (let rx_len = mb_pkt_len (hd rx_data)
      in if ra_state raw \<noteq> RAWS_RECEIVING then (rx_len, raw, [])
         else
           let pkt_len = (if rx_len > ucast (ra_remaining_count raw)
                          then ucast (ra_remaining_count raw) else rx_len);
               done = raw\<lparr>ra_remaining_count := ra_remaining_count raw - ucast pkt_len\<rparr>
           in if ra_rx_tstamp_size raw \<noteq> 0 \<and> ra_remaining_count raw = ra_resp_size raw
              then if pkt_len \<ge> ucast (ra_rx_tstamp_size raw)
                   then (rx_len, done,
                         case raw_rx_tstamp (mb_data (hd rx_data)) of
                           Some ts \<Rightarrow> [(ts, rx_tstamp)] | None \<Rightarrow> [])
                   else (0, raw, [])
              else (rx_len, done, []))"

text \<open>What both ends do once a message is complete.\<close>

definition raw_next_message ::
  "raw_app \<Rightarrow> raw_app \<times> app_notif list" where
  "raw_next_message raw =
     (if ra_req_size raw \<noteq> 0
      then (raw_goto_state RAWS_SENDING (ra_req_size raw) raw, [TEST_NOTIF_APP_SEND_START])
      else (raw_goto_state RAWS_RECEIVING (ra_resp_size raw) raw, []))"

definition raw_client_deliver_data ::
  "raw_app \<Rightarrow> raw_stats \<Rightarrow> chain \<Rightarrow> u64 \<Rightarrow> u32 \<times> raw_app \<times> raw_stats \<times> app_notif list" where
  "raw_client_deliver_data raw stats rx_data rx_tstamp =
     (let (delivered, raw, lat) = raw_deliver_data raw rx_data rx_tstamp;
          stats = stats\<lparr>raw_latency := raw_latency stats @ lat\<rparr>
      in if ra_remaining_count raw = 0 \<and> ra_resp_size raw \<noteq> 0
         then let (raw, ns) = raw_next_message raw
              in (delivered, raw, stats\<lparr>rsts_resp_cnt := rsts_resp_cnt stats + 1\<rparr>, ns)
         else (delivered, raw, stats, []))"

definition raw_server_deliver_data ::
  "raw_app \<Rightarrow> raw_stats \<Rightarrow> chain \<Rightarrow> u64 \<Rightarrow> u32 \<times> raw_app \<times> raw_stats \<times> app_notif list" where
  "raw_server_deliver_data raw stats rx_data rx_tstamp =
     (let (delivered, raw, lat) = raw_deliver_data raw rx_data rx_tstamp;
          stats = stats\<lparr>raw_latency := raw_latency stats @ lat\<rparr>
      in if ra_remaining_count raw = 0 \<and> ra_resp_size raw \<noteq> 0
         then let (raw, ns) = raw_next_message raw
              in (delivered, raw, stats\<lparr>rsts_req_cnt := rsts_req_cnt stats + 1\<rparr>, ns)
         else (delivered, raw, stats, []))"

subsection \<open>Sending\<close>

type_synonym pktmbuf_trim = "chain \<Rightarrow> u16 \<Rightarrow> chain option"

text \<open>The last buffer loses bytes at its end, unless it is too short (the status -1).\<close>

definition rte_pktmbuf_trim_spec :: "pktmbuf_trim \<Rightarrow> bool" where
  "rte_pktmbuf_trim_spec trim \<longleftrightarrow>
     (\<forall>c len. c \<noteq> [] \<longrightarrow> trim c len =
        (if unat len > length (mb_data (last c)) then None
         else Some (set_head (mb_nb_segs (hd c)) (mb_pkt_len (hd c) - ucast len)
                (butlast c @ [(last c)\<lparr>mb_data :=
                    take (length (mb_data (last c)) - unat len) (mb_data (last c))\<rparr>]))))"

text \<open>
  The result is the chain (\<^term>\<open>[]\<close> for \<open>NULL\<close>), the application data, the statistics and the
  outcomes of the allocations that are left; \<open>phys_ok\<close> says that the physical address of the control block is known.
\<close>

definition raw_prepend_tstamp ::
  "pktmbuf_trim \<Rightarrow> bool \<Rightarrow> raw_app \<Rightarrow> raw_stats \<Rightarrow> chain \<Rightarrow> bool list
     \<Rightarrow> (chain \<times> raw_app \<times> raw_stats \<times> bool list) option" where
  "raw_prepend_tstamp trim phys_ok raw stats tx_mbuf bs =
     (if tx_mbuf = [] then Some ([], raw, stats, bs)
      else if ra_tx_tstamp_size raw \<noteq> 0 \<and> ra_req_size raw = ra_remaining_count raw
      then if \<not> phys_ok
           then Some (tx_mbuf, raw,
                      stats\<lparr>rsts_tstamp_no_phys_addr := rsts_tstamp_no_phys_addr stats + 1\<rparr>, bs)
           else if mb_pkt_len (hd tx_mbuf) < of_nat raw_latency_data_size
           then Some (tx_mbuf, raw, stats\<lparr>rsts_tstamp_no_win := rsts_tstamp_no_win stats + 1\<rparr>, bs)
           else do {
             let raw = raw\<lparr>ra_tx_tstamp := take 8 (ra_tx_tstamp raw) @ replicate 8 0\<rparr>;
             (tstamp_mbuf, bs) \<leftarrow> data_chain_from_static_template (of_nat raw_latency_data_size)
                                   (ra_tx_tstamp raw) (of_nat raw_latency_data_size) bs;
             if tstamp_mbuf = []
             then Some (tx_mbuf, raw, stats\<lparr>rsts_tstamp_no_mbuf := rsts_tstamp_no_mbuf stats + 1\<rparr>, bs)
             else if mb_pkt_len (hd tx_mbuf) = mb_pkt_len (hd tstamp_mbuf)
             then Some (tstamp_mbuf, raw, stats, bs)
             else do {
               tx_mbuf \<leftarrow> trim tx_mbuf (ucast (mb_pkt_len (hd tstamp_mbuf)));
               Some (data_mbuf_merge [hd tstamp_mbuf] tx_mbuf, raw, stats, bs)
             }
           }
      else Some (tx_mbuf, raw, stats, bs))"

definition raw_send_data ::
  "pktmbuf_trim \<Rightarrow> bool \<Rightarrow> raw_app \<Rightarrow> raw_stats \<Rightarrow> u32 \<Rightarrow> bool list
     \<Rightarrow> (chain \<times> raw_app \<times> raw_stats \<times> bool list) option" where
  "raw_send_data trim phys_ok raw stats max_tx_size bs =
     do {
       let to_send = (if ucast (ra_remaining_count raw) < max_tx_size
                      then ucast (ra_remaining_count raw) else max_tx_size);
       (tx_mbuf, bs) \<leftarrow> data_chain_from_static_template to_send raw_mbuf_template
                         (of_nat RAW_DATA_TEMPLATE_SIZE) bs;
       raw_prepend_tstamp trim phys_ok raw stats tx_mbuf bs
     }"

definition raw_data_sent :: "raw_app \<Rightarrow> u32 \<Rightarrow> raw_app" where
  "raw_data_sent raw bytes_sent = raw\<lparr>ra_remaining_count := ra_remaining_count raw - ucast bytes_sent\<rparr>"

definition raw_client_data_sent ::
  "raw_app \<Rightarrow> raw_stats \<Rightarrow> u32 \<Rightarrow> bool \<times> raw_app \<times> raw_stats \<times> app_notif list" where
  "raw_client_data_sent raw stats bytes_sent =
     (let raw = raw_data_sent raw bytes_sent
      in if ra_remaining_count raw = 0
         then let stats = stats\<lparr>rsts_req_cnt := rsts_req_cnt stats + 1\<rparr>
              in if ra_resp_size raw \<noteq> 0
                 then (True, raw_goto_state RAWS_RECEIVING (ra_resp_size raw) raw, stats,
                       [TEST_NOTIF_APP_SEND_STOP])
                 else (True, raw_goto_state RAWS_SENDING (ra_req_size raw) raw, stats,
                       [TEST_NOTIF_APP_SEND_STOP, TEST_NOTIF_APP_SEND_START])
         else (False, raw, stats, []))"

definition raw_server_data_sent ::
  "raw_app \<Rightarrow> raw_stats \<Rightarrow> u32 \<Rightarrow> bool \<times> raw_app \<times> raw_stats \<times> app_notif list" where
  "raw_server_data_sent raw stats bytes_sent =
     (let raw = raw_data_sent raw bytes_sent
      in if ra_remaining_count raw = 0
         then (True, raw_goto_state RAWS_RECEIVING (ra_resp_size raw) raw,
               stats\<lparr>rsts_resp_cnt := rsts_resp_cnt stats + 1\<rparr>, [TEST_NOTIF_APP_SEND_STOP])
         else (False, raw, stats, []))"

text \<open>The statistics of the cores are added up; the latency samples have a place of their own.\<close>

definition raw_stats_add :: "raw_stats \<Rightarrow> raw_stats \<Rightarrow> raw_stats" where
  "raw_stats_add total_stats elem =
     total_stats
       \<lparr>rsts_req_cnt := rsts_req_cnt total_stats + rsts_req_cnt elem,
        rsts_resp_cnt := rsts_resp_cnt total_stats + rsts_resp_cnt elem,
        rsts_tstamp_no_phys_addr := rsts_tstamp_no_phys_addr total_stats + rsts_tstamp_no_phys_addr elem,
        rsts_tstamp_no_mbuf := rsts_tstamp_no_mbuf total_stats + rsts_tstamp_no_mbuf elem,
        rsts_tstamp_no_win := rsts_tstamp_no_win total_stats + rsts_tstamp_no_win elem\<rparr>"

text \<open>The callback tables of the two applications; the statistics are left out.\<close>

definition raw_no_stats :: raw_stats where
  "raw_no_stats =
     \<lparr>rsts_req_cnt = 0, rsts_resp_cnt = 0, rsts_tstamp_no_phys_addr = 0, rsts_tstamp_no_mbuf = 0,
      rsts_tstamp_no_win = 0, raw_latency = []\<rparr>"

definition raw_client_ops :: "raw_cfg \<Rightarrow> raw_app app_ops" where
  "raw_client_ops cfg =
     \<lparr>app_init = raw_client_init cfg, app_conn_up = raw_client_conn_up, app_conn_down = raw_conn_down,
      app_deliver = (\<lambda>d c ts. let (n, d, _, ns) = raw_client_deliver_data d raw_no_stats c ts in (n, d, ns))\<rparr>"

definition raw_server_ops :: "raw_cfg \<Rightarrow> raw_app app_ops" where
  "raw_server_ops cfg =
     \<lparr>app_init = raw_server_init cfg, app_conn_up = raw_server_conn_up, app_conn_down = raw_conn_down,
      app_deliver = (\<lambda>d c ts. let (n, d, _, ns) = raw_server_deliver_data d raw_no_stats c ts in (n, d, ns))\<rparr>"

end
