(* ===== verification/RawProps.thy ===== *)
theory RawProps
  imports RawApp Examples
begin

text \<open>
  The raw application at both ends of a connection: a client and a server that talk over a
  connection which keeps the order of the bytes and delivers them in pieces of any size.
\<close>

subsection \<open>One operation\<close>

lemma u16_minus: "n \<le> r \<Longrightarrow> (of_nat r :: u16) - ucast (of_nat n :: u32) = of_nat (r - n)"
proof -
  have "ucast (of_nat n :: u32) = (of_nat n :: u16)"
    by (simp add: unsigned_of_nat word_of_nat_eq_iff take_bit_take_bit)
  then show "n \<le> r \<Longrightarrow> ?thesis" by (simp add: of_nat_diff)
qed

lemma u16_inj: "m < 65536 \<Longrightarrow> n < 65536 \<Longrightarrow> (of_nat m :: u16) = of_nat n \<longleftrightarrow> m = n"
  by (simp add: word_of_nat_eq_iff take_bit_nat_eq_self)

lemma u16_eq_0: "r < 65536 \<Longrightarrow> (of_nat r :: u16) = 0 \<longleftrightarrow> r = 0"
  using u16_inj [of r 0] by simp

lemma u16_u32: "r < 65536 \<Longrightarrow> ucast (of_nat r :: u16) = (of_nat r :: u32)"
  by (intro unsigned_word_eqI) (simp add: unsigned_ucast_eq unsigned_of_nat take_bit_nat_eq_self)

lemma u16_u32_unat: "unat (ucast (x :: u16) :: u32) = unat x"
proof -
  have "unat x < 2 ^ LENGTH(16)" by (rule unsigned_less)
  then show ?thesis by (simp add: unsigned_ucast_eq take_bit_nat_eq_self)
qed

lemma raw_prepend_off:
  "ra_tx_tstamp_size raw = 0 \<Longrightarrow> raw_prepend_tstamp trim phys_ok raw stats c bs = Some (c, raw, stats, bs)"
  by (simp add: raw_prepend_tstamp_def)

text \<open>Without timestamps, the amount offered to the stack is bounded by what remains.\<close>

lemma raw_send_bounded:
  assumes "raw_send_data trim phys_ok raw stats mx bs = Some (c, raw', stats', bs')" and "c \<noteq> []"
    and "ra_tx_tstamp_size raw = 0"
  shows "raw' = raw \<and> stats' = stats \<and> unat (mb_pkt_len (hd c)) \<le> unat (ra_remaining_count raw) \<and>
           chain_bytes c = replicate (unat (mb_pkt_len (hd c))) 42"
proof -
  let ?n = "if ucast (ra_remaining_count raw) < mx then ucast (ra_remaining_count raw) else mx"
  have t: "0 < length raw_mbuf_template" "length raw_mbuf_template < 65536"
    "of_nat RAW_DATA_TEMPLATE_SIZE = (of_nat (length raw_mbuf_template) :: u32)"
    by (simp_all add: raw_mbuf_template_def RAW_DATA_TEMPLATE_SIZE_def)
  from static_template_chain [OF t, of ?n bs] obtain c1 bs1 where
    c: "data_chain_from_static_template ?n raw_mbuf_template (of_nat RAW_DATA_TEMPLATE_SIZE) bs = Some (c1, bs1)"
    "c1 \<noteq> [] \<longrightarrow> chain_bytes c1 = repeated raw_mbuf_template (unat ?n) \<and> mb_pkt_len (hd c1) = ?n"
    by blast
  from assms(1,3) have "c1 = c" "raw' = raw" "stats' = stats"
    unfolding raw_send_data_def Let_def c(1) by (simp_all add: raw_prepend_off)
  moreover have "repeated raw_mbuf_template k = replicate k 42" for k
    by (intro nth_equalityI) (simp_all add: repeated_def raw_mbuf_template_def RAW_DATA_TEMPLATE_SIZE_def)
  moreover have "unat ?n \<le> unat (ra_remaining_count raw)"
    by (auto simp: word_unat_less u16_u32_unat)
  ultimately show ?thesis using c(2) assms(2) by (simp split del: if_split)
qed

text \<open>Bytes that arrive while a message is being received are counted down.\<close>

lemma raw_deliver_counts:
  assumes "ra_state raw = RAWS_RECEIVING" and "ra_remaining_count raw = of_nat r" and "n \<le> r" and "r < 65536"
    and "ra_rx_tstamp_size raw = 0" and "mb_pkt_len (hd c) = of_nat n"
  shows "raw_deliver_data raw c ts = (of_nat n, raw\<lparr>ra_remaining_count := of_nat (r - n)\<rparr>, [])"
proof -
  have "\<not> of_nat n > (of_nat r :: u32)" using assms by (simp add: word_unat_less unat_of_nat_small)
  with assms show ?thesis by (simp add: raw_deliver_data_def u16_u32 u16_minus)
qed

subsection \<open>A conversation\<close>

record raw_end =
  re_app :: raw_app
  re_stats :: raw_stats
  re_send :: bool

text \<open>Both ends, whether the session is asked to send (\<open>re_send\<close>), and the bytes on the way.\<close>

record raw_talk =
  rt_client :: raw_end
  rt_server :: raw_end
  rt_to_server :: nat
  rt_to_client :: nat

definition raw_notified :: "app_notif list \<Rightarrow> bool \<Rightarrow> bool" where
  "raw_notified ns b = foldl (\<lambda>_ n. n = TEST_NOTIF_APP_SEND_START) b ns"

definition raw_sends ::
  "(raw_app \<Rightarrow> raw_stats \<Rightarrow> u32 \<Rightarrow> bool \<times> raw_app \<times> raw_stats \<times> app_notif list)
     \<Rightarrow> pktmbuf_trim \<Rightarrow> nat \<Rightarrow> raw_end \<Rightarrow> raw_end \<Rightarrow> bool" where
  "raw_sends data_sent trim n s s' \<longleftrightarrow>
     re_send s \<and> 0 < n \<and>
     (\<exists>phys_ok mx bs c raw stats bs'. raw_send_data trim phys_ok (re_app s) (re_stats s) mx bs =
          Some (c, raw, stats, bs') \<and> c \<noteq> [] \<and> n \<le> unat (mb_pkt_len (hd c)) \<and>
          (case data_sent raw stats (of_nat n) of (_, raw, stats, ns) \<Rightarrow>
             s' = \<lparr>re_app = raw, re_stats = stats, re_send = raw_notified ns (re_send s)\<rparr>))"

definition raw_gets ::
  "(raw_app \<Rightarrow> raw_stats \<Rightarrow> chain \<Rightarrow> u64 \<Rightarrow> u32 \<times> raw_app \<times> raw_stats \<times> app_notif list)
     \<Rightarrow> nat \<Rightarrow> raw_end \<Rightarrow> nat \<Rightarrow> raw_end \<Rightarrow> bool" where
  "raw_gets deliver n s n' s' \<longleftrightarrow>
     0 < n \<and> (\<exists>c ts. c \<noteq> [] \<and> mb_pkt_len (hd c) = of_nat n \<and>
        (case deliver (re_app s) (re_stats s) c ts of (d, raw, stats, ns) \<Rightarrow>
           n' = unat d \<and> s' = \<lparr>re_app = raw, re_stats = stats, re_send = raw_notified ns (re_send s)\<rparr>))"

inductive raw_step :: "pktmbuf_trim \<Rightarrow> raw_talk \<Rightarrow> raw_talk \<Rightarrow> bool" for trim where
  raw_client_sends: "raw_sends raw_client_data_sent trim n (rt_client s) c \<Longrightarrow>
    raw_step trim s (s\<lparr>rt_client := c, rt_to_server := rt_to_server s + n\<rparr>)"
| raw_server_sends: "raw_sends raw_server_data_sent trim n (rt_server s) c \<Longrightarrow>
    raw_step trim s (s\<lparr>rt_server := c, rt_to_client := rt_to_client s + n\<rparr>)"
| raw_server_gets: "raw_gets raw_server_deliver_data n (rt_server s) n' c \<Longrightarrow> n \<le> rt_to_server s \<Longrightarrow>
    raw_step trim s (s\<lparr>rt_server := c, rt_to_server := rt_to_server s - n'\<rparr>)"
| raw_client_gets: "raw_gets raw_client_deliver_data n (rt_client s) n' c \<Longrightarrow> n \<le> rt_to_client s \<Longrightarrow>
    raw_step trim s (s\<lparr>rt_client := c, rt_to_client := rt_to_client s - n'\<rparr>)"

definition raw_zero :: raw_app where
  "raw_zero =
     \<lparr>ra_req_size = 0, ra_resp_size = 0, ra_remaining_count = 0, ra_rx_tstamp_size = 0,
      ra_tx_tstamp_size = 0, ra_tx_tstamp = replicate 16 0, ra_state = RAWS_SENDING, rst_tstamp = 0\<rparr>"

text \<open>The connection comes up at both ends, configured with the same two lengths and no timestamps.\<close>

definition raw_start :: "nat \<Rightarrow> nat \<Rightarrow> raw_talk" where
  "raw_start q p =
     (let cfg = \<lparr>rc_req_plen = of_nat q, rc_resp_plen = of_nat p,
                 rc_rx_tstamp = (False, False), rc_tx_tstamp = (False, False)\<rparr>;
          raw = raw_zero\<lparr>rst_tstamp := raw_tc_start cfg\<rparr>;
          (c, cn) = raw_client_conn_up (raw_client_init cfg raw);
          (s, sn) = raw_server_conn_up (raw_server_init cfg raw)
      in \<lparr>rt_client = \<lparr>re_app = c, re_stats = raw_no_stats, re_send = raw_notified cn False\<rparr>,
          rt_server = \<lparr>re_app = s, re_stats = raw_no_stats, re_send = raw_notified sn False\<rparr>,
          rt_to_server = 0, rt_to_client = 0\<rparr>)"

text \<open>
  One end: the state, the bytes that remain, whether it is asked to send, and what it has counted.
\<close>

definition raw_end_is ::
  "nat \<Rightarrow> nat \<Rightarrow> raw_state \<Rightarrow> nat \<Rightarrow> nat \<Rightarrow> nat \<Rightarrow> raw_end \<Rightarrow> bool" where
  "raw_end_is snd_size rcv_size st r reqs resps s \<longleftrightarrow>
     ra_req_size (re_app s) = of_nat snd_size \<and> ra_resp_size (re_app s) = of_nat rcv_size \<and>
     ra_rx_tstamp_size (re_app s) = 0 \<and> ra_tx_tstamp_size (re_app s) = 0 \<and>
     ra_state (re_app s) = st \<and> ra_remaining_count (re_app s) = of_nat r \<and>
     (re_send s \<longleftrightarrow> st = RAWS_SENDING) \<and>
     rsts_req_cnt (re_stats s) = of_nat reqs \<and> rsts_resp_cnt (re_stats s) = of_nat resps"

text \<open>
  The four phases of the transaction \<open>n\<close>: a part of the request is on its way; the whole request
  has been sent; a part of the response is on its way; the whole response has been sent.
\<close>

definition raw_phase :: "nat \<Rightarrow> nat \<Rightarrow> nat \<Rightarrow> raw_talk \<Rightarrow> bool" where
  "raw_phase q p n s \<longleftrightarrow>
     (\<exists>r. 0 < r \<and> r + rt_to_server s \<le> q \<and> rt_to_client s = 0 \<and>
        raw_end_is q p RAWS_SENDING r n n (rt_client s) \<and>
        raw_end_is p q RAWS_RECEIVING (r + rt_to_server s) n n (rt_server s)) \<or>
     (0 < rt_to_server s \<and> rt_to_server s \<le> q \<and> rt_to_client s = 0 \<and>
        raw_end_is q p RAWS_RECEIVING p (n + 1) n (rt_client s) \<and>
        raw_end_is p q RAWS_RECEIVING (rt_to_server s) n n (rt_server s)) \<or>
     (\<exists>r. 0 < r \<and> r + rt_to_client s \<le> p \<and> rt_to_server s = 0 \<and>
        raw_end_is q p RAWS_RECEIVING (r + rt_to_client s) (n + 1) n (rt_client s) \<and>
        raw_end_is p q RAWS_SENDING r (n + 1) n (rt_server s)) \<or>
     (0 < rt_to_client s \<and> rt_to_client s \<le> p \<and> rt_to_server s = 0 \<and>
        raw_end_is q p RAWS_RECEIVING (rt_to_client s) (n + 1) n (rt_client s) \<and>
        raw_end_is p q RAWS_RECEIVING q (n + 1) (n + 1) (rt_server s))"

lemma raw_notified_simps [simp]:
  "raw_notified [] b = b" "raw_notified [TEST_NOTIF_APP_SEND_START] b"
  "\<not> raw_notified [TEST_NOTIF_APP_SEND_STOP] b"
  by (simp_all add: raw_notified_def)

text \<open>Sending: a part of the message, or its end.\<close>

lemma raw_sendsE:
  assumes "raw_sends data_sent trim n s s'" and "raw_end_is a b st r reqs resps s" and "r < 65536"
  obtains x raw stats ns where "st = RAWS_SENDING" "0 < n" "n \<le> r" "re_send s"
    "data_sent (re_app s) (re_stats s) (of_nat n) = (x, raw, stats, ns)"
    "s' = \<lparr>re_app = raw, re_stats = stats, re_send = raw_notified ns True\<rparr>"
proof -
  from assms(1) obtain phys_ok mx bs c raw stats bs' where
    s: "re_send s" "0 < n" "raw_send_data trim phys_ok (re_app s) (re_stats s) mx bs = Some (c, raw, stats, bs')"
      "c \<noteq> []" "n \<le> unat (mb_pkt_len (hd c))"
      "case data_sent raw stats (of_nat n) of (_, raw, stats, ns) \<Rightarrow>
             s' = \<lparr>re_app = raw, re_stats = stats, re_send = raw_notified ns (re_send s)\<rparr>"
    unfolding raw_sends_def by (elim conjE exE) (rule that)
  from assms(2) have e: "ra_tx_tstamp_size (re_app s) = 0" "ra_remaining_count (re_app s) = of_nat r"
    "re_send s \<longleftrightarrow> st = RAWS_SENDING" by (simp_all add: raw_end_is_def)
  from raw_send_bounded [OF s(3,4) e(1)] have
    "raw = re_app s" "stats = re_stats s" "unat (mb_pkt_len (hd c)) \<le> r"
    using e(2) assms(3) by (simp_all add: unat_of_nat_small)
  with s e that show thesis by (auto split: prod.splits)
qed

lemma raw_client_sends_end:
  assumes "raw_sends raw_client_data_sent trim n s s'" and "raw_end_is a b st r reqs resps s"
    and "r < 65536" and "0 < b" and "b < 65536"
  shows "st = RAWS_SENDING \<and> 0 < n \<and> n \<le> r \<and>
    (if n = r then raw_end_is a b RAWS_RECEIVING b (reqs + 1) resps s'
     else raw_end_is a b RAWS_SENDING (r - n) reqs resps s')"
  using assms(2-)
  by (rule_tac raw_sendsE [OF assms(1-3)])
    (auto simp: raw_client_data_sent_def raw_data_sent_def raw_goto_state_def raw_end_is_def u16_minus u16_eq_0 u16_inj Let_def
      split: if_splits)

lemma raw_server_sends_end:
  assumes "raw_sends raw_server_data_sent trim n s s'" and "raw_end_is a b st r reqs resps s"
    and "r < 65536" and "0 < b" and "b < 65536"
  shows "st = RAWS_SENDING \<and> 0 < n \<and> n \<le> r \<and>
    (if n = r then raw_end_is a b RAWS_RECEIVING b reqs (resps + 1) s'
     else raw_end_is a b RAWS_SENDING (r - n) reqs resps s')"
  using assms(2-)
  by (rule_tac raw_sendsE [OF assms(1-3)])
    (auto simp: raw_server_data_sent_def raw_data_sent_def raw_goto_state_def raw_end_is_def u16_minus u16_eq_0 u16_inj Let_def
      split: if_splits)

text \<open>Receiving: a part of the message, or its end.\<close>

lemma raw_getsE:
  assumes "raw_gets deliver n s n' s'"
  obtains c ts d raw stats ns where "0 < n" "c \<noteq> []" "mb_pkt_len (hd c) = of_nat n"
    "deliver (re_app s) (re_stats s) c ts = (d, raw, stats, ns)" "n' = unat d"
    "s' = \<lparr>re_app = raw, re_stats = stats, re_send = raw_notified ns (re_send s)\<rparr>"
proof -
  from assms obtain c ts where
    g: "0 < n" "c \<noteq> []" "mb_pkt_len (hd c) = of_nat n"
      "case deliver (re_app s) (re_stats s) c ts of (d, raw, stats, ns) \<Rightarrow>
         n' = unat d \<and> s' = \<lparr>re_app = raw, re_stats = stats, re_send = raw_notified ns (re_send s)\<rparr>"
    unfolding raw_gets_def by (elim conjE exE) (rule that)
  obtain d raw stats ns where "deliver (re_app s) (re_stats s) c ts = (d, raw, stats, ns)"
    by (rule prod_cases4)
  with g that show thesis by auto
qed

text \<open>The two callbacks differ in the counter only.\<close>

definition raw_end_deliver ::
  "(raw_stats \<Rightarrow> raw_stats) \<Rightarrow> raw_app \<Rightarrow> raw_stats \<Rightarrow> chain \<Rightarrow> u64
     \<Rightarrow> u32 \<times> raw_app \<times> raw_stats \<times> app_notif list" where
  "raw_end_deliver inc raw stats rx_data ts =
     (let (d, raw, lat) = raw_deliver_data raw rx_data ts;
          stats = stats\<lparr>raw_latency := raw_latency stats @ lat\<rparr>
      in if ra_remaining_count raw = 0 \<and> ra_resp_size raw \<noteq> 0
         then (d, fst (raw_next_message raw), inc stats, snd (raw_next_message raw))
         else (d, raw, stats, []))"

lemma raw_deliver_both:
  "raw_server_deliver_data = raw_end_deliver (\<lambda>s. s\<lparr>rsts_req_cnt := rsts_req_cnt s + 1\<rparr>)"
  "raw_client_deliver_data = raw_end_deliver (\<lambda>s. s\<lparr>rsts_resp_cnt := rsts_resp_cnt s + 1\<rparr>)"
  by (intro ext, simp add: raw_server_deliver_data_def raw_client_deliver_data_def raw_end_deliver_def
      case_prod_beta Let_def)+

lemma raw_next_end:
  assumes "raw_end_is a b st r reqs resps \<lparr>re_app = raw, re_stats = stats, re_send = x\<rparr>" and "0 < a" and "a < 65536"
    and "rsts_req_cnt stats' = of_nat reqs'" and "rsts_resp_cnt stats' = of_nat resps'"
  shows "raw_end_is a b RAWS_SENDING a reqs' resps'
    \<lparr>re_app = fst (raw_next_message raw), re_stats = stats', re_send = raw_notified (snd (raw_next_message raw)) y\<rparr>"
  using assms by (auto simp: raw_next_message_def raw_end_is_def raw_goto_state_def u16_eq_0)

lemma raw_gets_end:
  assumes "raw_gets (raw_end_deliver inc) n s n' s'" and "raw_end_is a b RAWS_RECEIVING r reqs resps s"
    and "n \<le> r" and "r < 65536" and "0 < a" and "a < 65536" and "0 < b" and "b < 65536"
    and "\<And>s. rsts_req_cnt s = of_nat reqs \<Longrightarrow> rsts_resp_cnt s = of_nat resps \<Longrightarrow>
           rsts_req_cnt (inc s) = of_nat reqs' \<and> rsts_resp_cnt (inc s) = of_nat resps'"
  shows "0 < n \<and> n' = n \<and>
    (if n = r then raw_end_is a b RAWS_SENDING a reqs' resps' s'
     else raw_end_is a b RAWS_RECEIVING (r - n) reqs resps s')"
proof -
  from assms(1) obtain c ts d raw stats ns where
    g: "0 < n" "mb_pkt_len (hd c) = of_nat n" "n' = unat d"
      "raw_end_deliver inc (re_app s) (re_stats s) c ts = (d, raw, stats, ns)"
      "s' = \<lparr>re_app = raw, re_stats = stats, re_send = raw_notified ns (re_send s)\<rparr>"
    by (rule raw_getsE)
  from assms(2) have e: "ra_state (re_app s) = RAWS_RECEIVING" "ra_remaining_count (re_app s) = of_nat r"
    "ra_rx_tstamp_size (re_app s) = 0" "ra_resp_size (re_app s) \<noteq> 0"
    using assms(7,8) by (simp_all add: raw_end_is_def u16_eq_0)
  note d = raw_deliver_counts [OF e(1,2) assms(3,4) e(3) g(2), of ts]
  let ?raw = "re_app s\<lparr>ra_remaining_count := of_nat (r - n)\<rparr>"
  let ?stats = "re_stats s\<lparr>raw_latency := raw_latency (re_stats s) @ []\<rparr>"
  have z: "(of_nat (r - n) :: u16) = 0 \<longleftrightarrow> n = r" using assms(3,4) by (subst u16_eq_0) auto
  from g(4) have r: "d = of_nat n" "raw = (if n = r then fst (raw_next_message ?raw) else ?raw)"
    "stats = (if n = r then inc ?stats else ?stats)" "ns = (if n = r then snd (raw_next_message ?raw) else [])"
    using e(4) z unfolding raw_end_deliver_def d Let_def by (auto split: if_splits)
  have "raw_end_is a b RAWS_RECEIVING (r - n) reqs resps \<lparr>re_app = ?raw, re_stats = ?stats, re_send = re_send s\<rparr>"
    using assms(2) by (simp add: raw_end_is_def)
  moreover from assms(2) have "rsts_req_cnt (inc ?stats) = of_nat reqs' \<and> rsts_resp_cnt (inc ?stats) = of_nat resps'"
    by (intro assms(9)) (simp_all add: raw_end_is_def)
  moreover have "unat (of_nat n :: u32) = n" using assms(3,4) by (simp add: unat_of_nat_small)
  ultimately show ?thesis using g(1,3,5) r raw_next_end [OF _ assms(5,6)] by auto
qed

lemmas raw_server_gets_end = raw_gets_end [of "\<lambda>s. s\<lparr>rsts_req_cnt := rsts_req_cnt s + 1\<rparr>", folded raw_deliver_both]
lemmas raw_client_gets_end = raw_gets_end [of "\<lambda>s. s\<lparr>rsts_resp_cnt := rsts_resp_cnt s + 1\<rparr>", folded raw_deliver_both]

subsection \<open>The phases are kept\<close>

lemma raw_end_state:
  "raw_end_is a b st r reqs resps s \<Longrightarrow> raw_end_is a b st' r' reqs' resps' s \<Longrightarrow> st = st'"
  by (simp add: raw_end_is_def)

lemma raw_gets_le: "raw_gets deliver n s n' s' \<Longrightarrow> 0 < n"
  by (simp add: raw_gets_def)

lemma raw_step_phase:
  assumes "raw_step trim s s'" and "raw_phase q p n s" and "0 < q" "q < 65536" "0 < p" "p < 65536"
  shows "\<exists>n. raw_phase q p n s'"
  using assms(1)
proof cases
  case (raw_client_sends k c)
  from assms(2) obtain r where r: "0 < r" "r + rt_to_server s \<le> q" "rt_to_client s = 0"
    "raw_end_is q p RAWS_SENDING r n n (rt_client s)"
    "raw_end_is p q RAWS_RECEIVING (r + rt_to_server s) n n (rt_server s)"
    unfolding raw_phase_def
    using raw_client_sends_end [OF raw_client_sends(2) _ _ assms(5,6)] assms(4,6)
    by (elim disjE exE conjE) (auto dest!: raw_client_sends_end [OF raw_client_sends(2) _ _ assms(5,6)])
  from raw_client_sends_end [OF raw_client_sends(2) r(4) _ assms(5,6)] r assms(4)
  have "0 < k" "k \<le> r" "if k = r then raw_end_is q p RAWS_RECEIVING p (n + 1) n c
     else raw_end_is q p RAWS_SENDING (r - k) n n c" by auto
  then have "raw_phase q p n s'" unfolding raw_client_sends(1) raw_phase_def using r assms(4)
    by (cases "k = r") (auto intro!: exI [of _ "r - k"] simp: add.commute)
  then show ?thesis ..
next
  case (raw_server_sends k c)
  from assms(2) obtain r where r: "0 < r" "r + rt_to_client s \<le> p" "rt_to_server s = 0"
    "raw_end_is q p RAWS_RECEIVING (r + rt_to_client s) (n + 1) n (rt_client s)"
    "raw_end_is p q RAWS_SENDING r (n + 1) n (rt_server s)"
    unfolding raw_phase_def using assms(4,6)
    by (elim disjE exE conjE) (auto dest!: raw_server_sends_end [OF raw_server_sends(2) _ _ assms(3,4)])
  from raw_server_sends_end [OF raw_server_sends(2) r(5) _ assms(3,4)] r assms(6)
  have "0 < k" "k \<le> r" "if k = r then raw_end_is p q RAWS_RECEIVING q (n + 1) (n + 1) c
     else raw_end_is p q RAWS_SENDING (r - k) (n + 1) n c" by auto
  then have "raw_phase q p n s'" unfolding raw_server_sends(1) raw_phase_def using r assms(6)
    by (cases "k = r") (auto intro!: exI [of _ "r - k"] simp: add.commute)
  then show ?thesis ..
next
  case (raw_server_gets k k' c)
  from assms(2) raw_gets_le [OF raw_server_gets(2)] raw_server_gets(3) consider
    (part) r where "0 < r" "r + rt_to_server s \<le> q" "rt_to_client s = 0"
      "raw_end_is q p RAWS_SENDING r n n (rt_client s)"
      "raw_end_is p q RAWS_RECEIVING (r + rt_to_server s) n n (rt_server s)"
  | (all) "rt_to_server s \<le> q" "rt_to_client s = 0"
      "raw_end_is q p RAWS_RECEIVING p (n + 1) n (rt_client s)"
      "raw_end_is p q RAWS_RECEIVING (rt_to_server s) n n (rt_server s)"
    unfolding raw_phase_def by (elim disjE exE conjE) auto
  then have "raw_phase q p n s'"
  proof cases
    case part
    from raw_server_gets_end [OF raw_server_gets(2) part(5) _ _ assms(5,6,3,4), of "n + 1" n] part raw_server_gets(3) assms(4)
    have "k' = k" "raw_end_is p q RAWS_RECEIVING (r + rt_to_server s - k) n n c" by auto
    then show ?thesis using part raw_server_gets(3) unfolding raw_server_gets(1) raw_phase_def by auto
  next
    case all
    from raw_server_gets_end [OF raw_server_gets(2) all(4) _ _ assms(5,6,3,4), of "n + 1" n] all raw_server_gets(3) assms(4)
    have "k' = k" "if k = rt_to_server s then raw_end_is p q RAWS_SENDING p (n + 1) n c
       else raw_end_is p q RAWS_RECEIVING (rt_to_server s - k) n n c" by auto
    then show ?thesis using all raw_server_gets(3) assms(5) unfolding raw_server_gets(1) raw_phase_def
      by (auto split: if_splits)
  qed
  then show ?thesis ..
next
  case (raw_client_gets k k' c)
  from assms(2) raw_gets_le [OF raw_client_gets(2)] raw_client_gets(3) consider
    (part) r where "0 < r" "r + rt_to_client s \<le> p" "rt_to_server s = 0"
      "raw_end_is q p RAWS_RECEIVING (r + rt_to_client s) (n + 1) n (rt_client s)"
      "raw_end_is p q RAWS_SENDING r (n + 1) n (rt_server s)"
  | (all) "rt_to_client s \<le> p" "rt_to_server s = 0"
      "raw_end_is q p RAWS_RECEIVING (rt_to_client s) (n + 1) n (rt_client s)"
      "raw_end_is p q RAWS_RECEIVING q (n + 1) (n + 1) (rt_server s)"
    unfolding raw_phase_def by (elim disjE exE conjE) auto
  then show ?thesis
  proof cases
    case part
    from raw_client_gets_end [OF raw_client_gets(2) part(4) _ _ assms(3-6), of "n + 1" "n + 1"] part raw_client_gets(3) assms(6)
    have "k' = k" "raw_end_is q p RAWS_RECEIVING (r + rt_to_client s - k) (n + 1) n c" by auto
    then have "raw_phase q p n s'" using part raw_client_gets(3) unfolding raw_client_gets(1) raw_phase_def by auto
    then show ?thesis ..
  next
    case all
    from raw_client_gets_end [OF raw_client_gets(2) all(3) _ _ assms(3-6), of "n + 1" "n + 1"] all raw_client_gets(3) assms(6)
    have "k' = k" "if k = rt_to_client s then raw_end_is q p RAWS_SENDING q (n + 1) (n + 1) c
       else raw_end_is q p RAWS_RECEIVING (rt_to_client s - k) (n + 1) n c" by auto
    then have "raw_phase q p (if k = rt_to_client s then n + 1 else n) s'"
      using all raw_client_gets(3) assms(3) unfolding raw_client_gets(1) raw_phase_def
      by (auto split: if_splits)
    then show ?thesis ..
  qed
qed

text \<open>The conversation does not stop.\<close>

lemma raw_can_send:
  assumes "raw_end_is a b RAWS_SENDING r reqs resps s" and "0 < r" and "r < 65536"
  shows "\<exists>s'. raw_sends ds trim 1 s s'"
proof -
  have t: "0 < length raw_mbuf_template" "length raw_mbuf_template < 65536"
    "of_nat RAW_DATA_TEMPLATE_SIZE = (of_nat (length raw_mbuf_template) :: u32)"
    by (simp_all add: raw_mbuf_template_def RAW_DATA_TEMPLATE_SIZE_def)
  let ?n = "if ucast (ra_remaining_count (re_app s)) < (1 :: u32) then ucast (ra_remaining_count (re_app s)) else 1"
  have e: "re_send s" "ra_tx_tstamp_size (re_app s) = 0" "ra_remaining_count (re_app s) = of_nat r"
    using assms(1) by (simp_all add: raw_end_is_def)
  then have n: "?n = 1" using assms(2,3) by (simp add: u16_u32 word_unat_less unat_of_nat_small)
  from static_template_chain [OF t, of 1 "[]"] obtain c bs' where
    c: "data_chain_from_static_template 1 raw_mbuf_template (of_nat RAW_DATA_TEMPLATE_SIZE) [] = Some (c, bs')"
    "c \<noteq> []" "mb_pkt_len (hd c) = 1" by auto
  have "raw_send_data trim True (re_app s) (re_stats s) 1 [] = Some (c, re_app s, re_stats s, bs')"
    unfolding raw_send_data_def Let_def n c(1) by (simp add: raw_prepend_off e)
  then show ?thesis unfolding raw_sends_def using c e(1)
    by (intro exI [of _ "case ds (re_app s) (re_stats s) 1 of (_, raw, stats, ns) \<Rightarrow>
        \<lparr>re_app = raw, re_stats = stats, re_send = raw_notified ns (re_send s)\<rparr>"]) (fastforce split: prod.splits)
qed

lemma raw_can_get: "0 < n \<Longrightarrow> \<exists>n' s'. raw_gets deliver n s n' s'"
proof -
  assume "0 < n"
  let ?c = "[\<lparr>mb_data = [], mb_pkt_len = of_nat n, mb_nb_segs = 1\<rparr>]"
  obtain d raw stats ns where "deliver (re_app s) (re_stats s) ?c 0 = (d, raw, stats, ns)" by (rule prod_cases4)
  with \<open>0 < n\<close> show ?thesis unfolding raw_gets_def
    by (intro exI [of _ "unat d"] exI [of _ "\<lparr>re_app = raw, re_stats = stats, re_send = raw_notified ns (re_send s)\<rparr>"]
        conjI exI [of _ ?c] exI [of _ 0]) auto
qed

lemma raw_phase_progress:
  assumes "raw_phase q p n s" and "q < 65536" and "p < 65536"
  shows "\<exists>s'. raw_step trim s s'"
proof -
  from assms consider (c) r where "raw_end_is q p RAWS_SENDING r n n (rt_client s)" "0 < r" "r < 65536"
    | (s) r where "raw_end_is p q RAWS_SENDING r (n + 1) n (rt_server s)" "0 < r" "r < 65536"
    | (to_s) "0 < rt_to_server s" | (to_c) "0 < rt_to_client s"
    unfolding raw_phase_def by (elim disjE exE conjE) auto
  then show ?thesis
  proof cases
    case c then show ?thesis using raw_can_send [of q p r n n] by (blast intro: raw_client_sends)
  next
    case s then show ?thesis using raw_can_send [of p q r "n + 1" n] by (blast intro: raw_server_sends)
  next
    case to_s then show ?thesis using raw_can_get by (blast intro: raw_server_gets)
  next
    case to_c then show ?thesis using raw_can_get by (blast intro: raw_client_gets)
  qed
qed

lemma raw_start_phase: "0 < q \<Longrightarrow> q < 65536 \<Longrightarrow> raw_phase q p 0 (raw_start q p)"
proof -
  assume "0 < q" "q < 65536"
  moreover have "ucast (of_nat q :: u32) = (of_nat q :: u16)" "ucast (of_nat p :: u32) = (of_nat p :: u16)" for q p
    by (simp_all add: unsigned_of_nat word_of_nat_eq_iff take_bit_take_bit)
  ultimately show ?thesis unfolding raw_phase_def
    by (intro disjI1 exI [of _ q]) (simp add: raw_start_def raw_tc_start_def raw_init_tstamp_cfg_def TPG_XLATE_OPT_BOOL_def
        raw_client_init_def raw_server_init_def raw_conn_init_def RAW_TSTAMP_ISSET_def RAW_FLAG_TSTAMP_NONE_def
        raw_client_conn_up_def raw_server_conn_up_def raw_goto_state_def raw_zero_def raw_end_is_def raw_no_stats_def
        u16_eq_0)
qed

subsection \<open>Properties\<close>

definition ex_trim :: pktmbuf_trim where
  "ex_trim c len =
     (if c = [] \<or> unat len > length (mb_data (last c)) then None
      else Some (set_head (mb_nb_segs (hd c)) (mb_pkt_len (hd c) - ucast len)
             (butlast c @ [(last c)\<lparr>mb_data :=
                 take (length (mb_data (last c)) - unat len) (mb_data (last c))\<rparr>])))"

lemma ex_trim_spec: "rte_pktmbuf_trim_spec ex_trim"
  by (simp add: rte_pktmbuf_trim_spec_def ex_trim_def)

text \<open>
  C24: A client and a server that are configured with the same request and response lengths stay in
  step however the bytes are cut up: the connection is always in one of the four phases of one
  transaction, in which nobody is asked to send while the other end still is, no byte is lost or
  counted twice, and the four counters differ by at most one; and there is always a next step.
\<close>

theorem raw_request_response_lockstep:
  assumes "0 < q" and "q < 65536" and "0 < p" and "p < 65536" and "(raw_step trim)\<^sup>*\<^sup>* (raw_start q p) s"
  shows "\<exists>n. raw_phase q p n s \<and> (\<exists>s'. raw_step trim s s')"
proof -
  from assms(5) have "\<exists>n. raw_phase q p n s"
    by (induction rule: rtranclp_induct) (use assms(1-4) in \<open>auto intro: raw_start_phase raw_step_phase\<close>)
  then show ?thesis using raw_phase_progress assms(2,4) by blast
qed

theorem raw_request_response_lockstep_witness:
  "\<exists>s. raw_step ex_trim (raw_start 3 5) s \<and> (\<exists>n. raw_phase 3 5 n s)"
proof -
  from raw_request_response_lockstep [of 3 5 ex_trim "raw_start 3 5"] obtain s where
    s: "raw_step ex_trim (raw_start 3 5) s" by auto
  with raw_request_response_lockstep [of 3 5 ex_trim s] show ?thesis by auto
qed

text \<open>
  With TX timestamps the timestamp replaces the end of the payload. When the message is longer
  than one template buffer and its last buffer is shorter than the 16 bytes of the timestamp, the
  buffer cannot be trimmed and the assertion on it ends the program, although the configuration was validated.
\<close>

theorem raw_tstamp_short_tail_aborts:
  assumes "rte_pktmbuf_trim_spec trim" and "TPG_XLATE_OPT_BOOL (rc_tx_tstamp cfg)"
    and "\<not> TPG_XLATE_OPT_BOOL (rc_rx_tstamp cfg)" and "rc_req_plen cfg = of_nat q"
    and "2048 < q" and "q < 65536" and "0 < q mod 2048" and "q mod 2048 < 16"
    and "q \<le> unat mx" and "False \<notin> set bs"
  shows "raw_client_validate_cfg (Some False) cfg \<and>
    raw_send_data trim True
      (fst (raw_client_conn_up (raw_client_init cfg (raw_zero\<lparr>rst_tstamp := raw_tc_start cfg\<rparr>)))) stats mx bs = None"
proof
  show "raw_client_validate_cfg (Some False) cfg"
    using assms(3-6) by (simp add: raw_client_validate_cfg_def raw_validate_cfg_def raw_latency_data_size_def
        word_unat_less unat_of_nat_small)
  let ?raw = "fst (raw_client_conn_up (raw_client_init cfg (raw_zero\<lparr>rst_tstamp := raw_tc_start cfg\<rparr>)))"
  have "ucast (of_nat q :: u32) = (of_nat q :: u16)"
    by (simp add: unsigned_of_nat word_of_nat_eq_iff take_bit_take_bit)
  then have raw: "ra_tx_tstamp_size ?raw = 16" "ra_req_size ?raw = of_nat q" "ra_remaining_count ?raw = of_nat q"
    "length (ra_tx_tstamp ?raw) = 16"
    using assms(2-4)
    by (simp_all add: raw_tc_start_def raw_init_tstamp_cfg_def RAW_TSTAMP_SET_def RAW_TSTAMP_ISSET_def
        RAW_FLAG_TSTAMP_NONE_def RAW_FLAG_TSTAMP_RX_def RAW_FLAG_TSTAMP_TX_def RAW_FLAG_TSTAMP_MASK_def
        raw_client_init_def raw_conn_init_def raw_client_conn_up_def raw_goto_state_def raw_zero_def Let_def
        raw_latency_data_init_def raw_latency_magic_def raw_latency_data_size_def)
  have t: "0 < length raw_mbuf_template" "length raw_mbuf_template < 65536"
    "of_nat RAW_DATA_TEMPLATE_SIZE = (of_nat (length raw_mbuf_template) :: u32)"
    by (simp_all add: raw_mbuf_template_def RAW_DATA_TEMPLATE_SIZE_def)
  have q: "unat (of_nat q :: u32) = q" "(of_nat q :: u32) \<noteq> 0"
    using assms(5,6) by (simp_all add: unat_of_nat_small word_unat_eq_iff)
  then have n: "(if ucast (ra_remaining_count ?raw) < mx then ucast (ra_remaining_count ?raw) else mx) = of_nat q"
    unfolding raw(3) u16_u32 [OF assms(6)] using assms(9) q(1) by (auto simp: word_unat_less word_unat_eq_iff)
  from static_template_chain [OF t, of "of_nat q" bs] q assms(7,10) obtain c bs1 where
    c: "data_chain_from_static_template (of_nat q) raw_mbuf_template (of_nat RAW_DATA_TEMPLATE_SIZE) bs = Some (c, bs1)"
      "c \<noteq> []" "mb_pkt_len (hd c) = of_nat q" "length (mb_data (last c)) = q mod 2048" "False \<notin> set bs1"
    by (auto simp: raw_mbuf_template_def RAW_DATA_TEMPLATE_SIZE_def)
  let ?d = "take 8 (ra_tx_tstamp ?raw) @ replicate 8 0"
  have d: "0 < length ?d" "length ?d < 65536" "(16 :: u32) = of_nat (length ?d)" using raw(4) by simp_all
  from static_template_chain [OF d, of 16 bs1] c(5) obtain m bs2 where
    m: "data_chain_from_static_template 16 ?d 16 bs1 = Some (m, bs2)" "m \<noteq> []" "mb_pkt_len (hd m) = 16" by auto
  have "trim c 16 = None" using assms(1,8) c(2,4) by (simp add: rte_pktmbuf_trim_spec_def)
  moreover have "(of_nat q :: u32) \<noteq> 16" "\<not> of_nat q < (16 :: u32)"
    using assms(5) q(1) by (auto simp: word_unat_eq_iff word_unat_less)
  ultimately show "raw_send_data trim True ?raw stats mx bs = None"
    using c m raw unfolding raw_send_data_def Let_def n c(1)
    by (simp add: raw_prepend_tstamp_def raw_latency_data_size_def Let_def)
qed

theorem raw_tstamp_short_tail_aborts_witness:
  "raw_send_data ex_trim True
     (fst (raw_client_conn_up (raw_client_init
        \<lparr>rc_req_plen = 2050, rc_resp_plen = 100, rc_rx_tstamp = (False, False), rc_tx_tstamp = (True, True)\<rparr>
        (raw_zero\<lparr>rst_tstamp := raw_tc_start
           \<lparr>rc_req_plen = 2050, rc_resp_plen = 100, rc_rx_tstamp = (False, False), rc_tx_tstamp = (True, True)\<rparr>\<rparr>))))
     raw_no_stats 4000 [] = None"
  using raw_tstamp_short_tail_aborts [OF ex_trim_spec, of
      "\<lparr>rc_req_plen = 2050, rc_resp_plen = 100, rc_rx_tstamp = (False, False), rc_tx_tstamp = (True, True)\<rparr>"
      2050 4000 "[]" raw_no_stats]
  by (simp add: TPG_XLATE_OPT_BOOL_def)

text \<open>
  The lengths of the configuration have 32 bits and those of a session 16: a request of 65536 bytes
  is never sent, and the session never asks to send.
\<close>

lemma raw_lengths_truncated:
  assumes "rc_req_plen cfg = 65536"
  shows "snd (raw_client_conn_up (raw_client_init cfg raw)) = [] \<and> raw_pkts_per_send (rc_req_plen cfg) 1460 = 45"
  using assms by (simp add: raw_client_conn_up_def raw_client_init_def raw_conn_init_def raw_goto_state_def
      raw_pkts_per_send_def Let_def)

text \<open>
  A server that gets the end of a request and the beginning of the next one in one buffer takes
  the buffer but counts the end only: the bytes of the next request are lost.
\<close>

lemma raw_pipelined_lost:
  assumes "ra_state raw = RAWS_RECEIVING" and "ra_req_size raw = 0" and "ra_resp_size raw = of_nat q"
    and "ra_remaining_count raw = of_nat r" and "0 < r" and "r \<le> q" and "q < 65536" and "r < n" and "n < 2 ^ 32"
    and "ra_rx_tstamp_size raw = 0" and "mb_pkt_len (hd c) = of_nat n"
  shows "\<exists>raw' stats'. raw_server_deliver_data raw stats c ts = (of_nat n, raw', stats', []) \<and>
           ra_state raw' = RAWS_RECEIVING \<and> ra_remaining_count raw' = of_nat q"
proof -
  have "of_nat n > (of_nat r :: u32)" using assms by (simp add: word_unat_less unat_of_nat_small)
  moreover have "(of_nat q :: u16) \<noteq> 0" using assms by (simp add: u16_eq_0)
  moreover have "ucast (of_nat r :: u32) = (of_nat r :: u16)"
    by (simp add: unsigned_of_nat word_of_nat_eq_iff take_bit_take_bit)
  ultimately show ?thesis using assms
    by (simp add: raw_server_deliver_data_def raw_deliver_data_def u16_u32 raw_next_message_def raw_goto_state_def)
qed

end
