(* ===== verification/Udp.thy ===== *)
theory Udp
  imports Tcp
begin

text \<open>
  UDP: \<^verbatim>\<open>src/tpg_udp.c\<close>, \<^verbatim>\<open>inc/tpg_udp.h\<close> and \<^verbatim>\<open>src/tpg_udp_lookup.c\<close>. A UDP session is the generic
  control block with two flags and a state; it has no timers of its own, and its state machine is
  the open and the close.

  The core keeps the control blocks, the pool and the hash table of UDP apart from those of TCP. As
  for TCP, the lower layers give an outcome for every packet: sent, no header could be built, or
  the transmission failed; the failure statistics of the lower layers are theirs.
\<close>

datatype udp_state = US_INIT | US_LISTEN | US_OPEN | US_CLOSED

record 'a ucb = "'a l4cb" +
  ucb_active :: bool
  ucb_malloced :: bool
  ucb_state :: udp_state

record udp_stats =
  us_received_pkts :: u64
  us_received_bytes :: u64
  us_sent_pkts :: u64
  us_sent_ctrl_bytes :: u64
  us_sent_data_bytes :: u64
  us_ucb_malloced :: u64
  us_ucb_freed :: u64
  us_ucb_not_found :: u64
  us_ucb_alloc_err :: u64
  us_to_small_fragment :: u32
  us_invalid_checksum :: u32
  us_failed_pkts :: u32

record udp_hdr =
  uh_src_port :: u16
  uh_dst_port :: u16
  uh_dgram_len :: u16

record udp_pcb =
  up_port :: u16
  up_hash :: u32
  up_mbuf :: chain
  up_mbuf_stored :: bool
  up_udp :: udp_hdr
  up_src_addr :: u32
  up_dst_addr :: u32
  up_l4_len :: u16
  up_l5_len :: u16
  up_tstamp :: u64
  up_sockopt :: "sockopt option"

record udp_tx =
  ux_port :: u16
  ux_src_addr :: u32
  ux_dst_addr :: u32
  ux_hdr :: udp_hdr
  ux_data :: "u8 list"

record 'a uenv = core_env +
  u_ucbs :: "cb_id \<Rightarrow> 'a ucb"
  u_pool :: "cb_id list"
  u_htable :: "u16 \<Rightarrow> u32 \<Rightarrow> cb_id list"
  u_stats :: "u16 \<Rightarrow> udp_stats"
  u_pi_mtu :: "u16 \<Rightarrow> u16"
  u_tx :: "udp_tx list"
  u_tx_outcomes :: "tx_outcome list"
  u_pcb :: udp_pcb

definition upd_udp_stats :: "u16 \<Rightarrow> (udp_stats \<Rightarrow> udp_stats) \<Rightarrow> 'a uenv \<Rightarrow> 'a uenv" where
  "upd_udp_stats p f e = e\<lparr>u_stats := (u_stats e)(p := f (u_stats e p))\<rparr>"

definition on_ucb ::
  "cb_id \<Rightarrow> ('a ucb \<Rightarrow> 'a uenv \<Rightarrow> (int \<times> 'a ucb \<times> 'a uenv) option) \<Rightarrow> 'a uenv \<Rightarrow> (int \<times> 'a uenv) option" where
  "on_ucb x f e =
     map_option (\<lambda>(r, u, e). (r, e\<lparr>u_ucbs := (u_ucbs e)(x := u)\<rparr>)) (f (u_ucbs e x) e)"

definition UDP_NOTIF :: "'a prm \<Rightarrow> test_notif \<Rightarrow> 'a ucb \<Rightarrow> 'a uenv \<Rightarrow> ('a ucb \<times> 'a uenv) option" where
  "UDP_NOTIF P n u e = test_notification (p_app P) n u e"

text \<open>\<open>UCB_MTU\<close>: the sizes are \<open>size_t\<close>.\<close>

definition UCB_MIN_HDRS_SZ :: u64 where "UCB_MIN_HDRS_SZ = 14 + 20 + 8 + 4"

definition UCB_MTU :: "'a ucb \<Rightarrow> 'a uenv \<Rightarrow> u64" where
  "UCB_MTU u e =
     ucast (u_pi_mtu e (l4cb_interface u)) - ucast (ip4so_hdr_opt_len (l4cb_sockopt u)) -
     ucast (vlanso_hdr_opt_len (l4cb_sockopt u)) - UCB_MIN_HDRS_SZ"

subsection \<open>The pool and the hash table\<close>

definition tlkp_alloc_ucb :: "'a uenv \<Rightarrow> cb_id option \<times> 'a uenv" where
  "tlkp_alloc_ucb e =
     (case u_pool e of [] \<Rightarrow> (None, e) | x # xs \<Rightarrow> (Some x, e\<lparr>u_pool := xs\<rparr>))"

definition tlkp_init_ucb ::
  "'a prm \<Rightarrow> u32 \<Rightarrow> u32 \<Rightarrow> u16 \<Rightarrow> u16 \<Rightarrow> u32 \<Rightarrow> u16 \<Rightarrow> u16 \<Rightarrow> 'a \<Rightarrow> sockopt \<Rightarrow> u32
     \<Rightarrow> 'a ucb \<Rightarrow> 'a ucb" where
  "tlkp_init_ucb P local_addr remote_addr local_port remote_port l4_hash ucb_interface
      test_case_id app sockopt flags u =
     (tlkp_init_cb P local_addr remote_addr local_port remote_port l4_hash ucb_interface
        test_case_id app sockopt flags u)
       \<lparr>ucb_malloced := flags AND TCG_CB_MALLOCED \<noteq> 0\<rparr>"

definition tlkp_init_ucb_client ::
  "'a prm \<Rightarrow> u32 \<Rightarrow> u32 \<Rightarrow> u16 \<Rightarrow> u16 \<Rightarrow> u32 \<Rightarrow> u16 \<Rightarrow> u16 \<Rightarrow> 'a \<Rightarrow> sockopt \<Rightarrow> u32
     \<Rightarrow> 'a ucb \<Rightarrow> 'a ucb" where
  "tlkp_init_ucb_client P local_addr remote_addr local_port remote_port l4_hash ucb_interface
      test_case_id app sockopt flags u =
     (tlkp_init_ucb P local_addr remote_addr local_port remote_port l4_hash ucb_interface
        test_case_id app sockopt flags u)
       \<lparr>ucb_state := US_INIT, ucb_active := True\<rparr>"

definition tlkp_free_ucb :: "'a ucb \<Rightarrow> 'a uenv \<Rightarrow> 'a uenv" where
  "tlkp_free_ucb u e = e\<lparr>u_pool := l4cb_id u # u_pool e\<rparr>"

definition tlkp_add_ucb :: "'a ucb \<Rightarrow> 'a uenv \<Rightarrow> 'a uenv" where
  "tlkp_add_ucb u e = e\<lparr>u_htable := tlkp_add_cb u (u_htable e)\<rparr>"

definition tlkp_delete_ucb :: "'a ucb \<Rightarrow> 'a uenv \<Rightarrow> 'a uenv option" where
  "tlkp_delete_ucb u e = map_option (\<lambda>h. e\<lparr>u_htable := h\<rparr>) (tlkp_delete_cb u (u_htable e))"

definition tlkp_find_v4_ucb :: "u16 \<Rightarrow> u32 \<Rightarrow> u32 \<Rightarrow> u32 \<Rightarrow> u16 \<Rightarrow> u16 \<Rightarrow> 'a uenv \<Rightarrow> cb_id option" where
  "tlkp_find_v4_ucb phys_port l4_hash local_addr remote_addr local_port remote_port e =
     tlkp_find_v4_cb (u_htable e) (u_ucbs e) phys_port l4_hash local_addr remote_addr local_port
       remote_port"

definition ucb_clone :: "'a ucb \<Rightarrow> 'a uenv \<Rightarrow> 'a ucb option \<times> 'a uenv" where
  "ucb_clone u e =
     (case tlkp_alloc_ucb e of
        (None, e) \<Rightarrow>
          (None, upd_udp_stats (l4cb_interface u)
                   (\<lambda>s. s\<lparr>us_ucb_alloc_err := us_ucb_alloc_err s + 1\<rparr>) e)
      | (Some x, e) \<Rightarrow>
          (Some (u\<lparr>l4cb_id := x, ucb_malloced := True\<rparr>),
           upd_udp_stats (l4cb_interface u)
             (\<lambda>s. s\<lparr>us_ucb_malloced := us_ucb_malloced s + 1\<rparr>) e))"

subsection \<open>Opening and closing\<close>

definition udp_open_v4_connection ::
  "'a prm \<Rightarrow> cb_id option \<Rightarrow> u16 \<Rightarrow> u32 \<Rightarrow> u16 \<Rightarrow> u32 \<Rightarrow> u16 \<Rightarrow> u16 \<Rightarrow> 'a \<Rightarrow> sockopt option \<Rightarrow> u32
     \<Rightarrow> 'a uenv \<Rightarrow> (int \<times> cb_id option \<times> 'a uenv) option" where
  "udp_open_v4_connection P ucb eth_port src_ip_addr src_port dst_ip_addr dst_port
      test_case_id app sockopt flags e =
     (let ucb_reuse = (flags AND TCG_CB_REUSE_CB \<noteq> 0)
      in if \<not> ucb_reuse \<and> sockopt = None then Some (- EINVAL, ucb, e)
         else
           case (case ucb of
                   Some x \<Rightarrow> (Some x, 0, e)
                 | None \<Rightarrow>
                     (case tlkp_alloc_ucb e of
                        (None, e) \<Rightarrow>
                          (None, 0, upd_udp_stats eth_port
                                      (\<lambda>s. s\<lparr>us_ucb_alloc_err := us_ucb_alloc_err s + 1\<rparr>) e)
                      | (Some x, e) \<Rightarrow>
                          (Some x, TCG_CB_MALLOCED,
                           upd_udp_stats eth_port
                             (\<lambda>s. s\<lparr>us_ucb_malloced := us_ucb_malloced s + 1\<rparr>) e)))
           of
             (None, malloc_flag, e) \<Rightarrow> Some (- ENOMEM, None, e)
           | (Some x, malloc_flag, e) \<Rightarrow>
               let active = (dst_ip_addr \<noteq> 0 \<or> dst_port \<noteq> 0)
               in map_option (\<lambda>(r, e). (r, Some x, e))
                    (on_ucb x
                      (\<lambda>u e. do {
                         let u = (if ucb_reuse then u
                                  else tlkp_init_ucb P src_ip_addr dst_ip_addr src_port dst_port 0
                                         eth_port test_case_id app (the sockopt)
                                         (flags OR malloc_flag) u);
                         (u, e) \<leftarrow>
                           (if active
                            then UDP_NOTIF P TEST_NOTIF_SESS_CONNECTED_IMM
                                   (u\<lparr>ucb_active := True, ucb_state := US_OPEN\<rparr>) e
                            else UDP_NOTIF P TEST_NOTIF_SESS_LISTEN
                                   (u\<lparr>ucb_active := False, ucb_state := US_LISTEN\<rparr>) e);
                         Some (0, u, tlkp_add_ucb u e)
                       }) e))"

definition udp_listen_v4 ::
  "'a prm \<Rightarrow> cb_id option \<Rightarrow> u16 \<Rightarrow> u32 \<Rightarrow> u16 \<Rightarrow> u16 \<Rightarrow> 'a \<Rightarrow> sockopt option \<Rightarrow> u32
     \<Rightarrow> 'a uenv \<Rightarrow> (int \<times> cb_id option \<times> 'a uenv) option" where
  "udp_listen_v4 P ucb eth_port local_ip_addr local_port test_case_id app sockopt flags e =
     udp_open_v4_connection P ucb eth_port local_ip_addr local_port 0 0 test_case_id app sockopt
       flags e"

definition udp_connection_cleanup :: "'a ucb \<Rightarrow> 'a uenv \<Rightarrow> 'a uenv" where
  "udp_connection_cleanup u e = tlkp_free_ucb u e"

definition udp_close_v4 :: "'a prm \<Rightarrow> 'a ucb \<Rightarrow> 'a uenv \<Rightarrow> (int \<times> 'a ucb \<times> 'a uenv) option" where
  "udp_close_v4 P u e =
     do {
       let u = u\<lparr>ucb_state := US_CLOSED\<rparr>;
       (u, e) \<leftarrow> UDP_NOTIF P TEST_NOTIF_SESS_CLOSING u e;
       (u, e) \<leftarrow> UDP_NOTIF P TEST_NOTIF_SESS_CLOSED u e;
       e \<leftarrow> tlkp_delete_ucb u e;
       Some (0, u,
         if ucb_malloced u
         then udp_connection_cleanup u
                (upd_udp_stats (l4cb_interface u) (\<lambda>s. s\<lparr>us_ucb_freed := us_ucb_freed s + 1\<rparr>) e)
         else e)
     }"

subsection \<open>Sending\<close>

fun utx_outcome :: "tx_outcome list \<Rightarrow> tx_outcome \<times> tx_outcome list" where
  "utx_outcome [] = (TxOk, [])"
| "utx_outcome (b # bs) = (b, bs)"

text \<open>The length of the datagram is the length of the data in 16 bits, and 8.\<close>

definition udp_build_hdr :: "'a ucb \<Rightarrow> u32 \<Rightarrow> udp_hdr" where
  "udp_build_hdr u l4_len =
     \<lparr>uh_src_port = l4cb_src_port u, uh_dst_port = l4cb_dst_port u, uh_dgram_len = ucast l4_len + 8\<rparr>"

text \<open>The header and the data are one packet; \<open>*data_sent\<close> is set before the packet is given away.\<close>

definition udp_send_pkt ::
  "'a ucb \<Rightarrow> udp_hdr \<Rightarrow> chain \<Rightarrow> bool \<Rightarrow> 'a uenv \<Rightarrow> int \<times> u32 \<times> 'a uenv" where
  "udp_send_pkt u hdr data ok e =
     (let data_sent = mb_pkt_len (hd data);
          e = upd_udp_stats (l4cb_interface u)
                (\<lambda>s. s\<lparr>us_sent_ctrl_bytes := us_sent_ctrl_bytes s + 8,
                      us_sent_data_bytes := us_sent_data_bytes s + ucast data_sent\<rparr>) e
      in if ok
         then (0, data_sent,
               e\<lparr>u_tx := u_tx e @ [\<lparr>ux_port = l4cb_interface u, ux_src_addr = l4cb_src_addr u,
                                   ux_dst_addr = l4cb_dst_addr u, ux_hdr = hdr,
                                   ux_data = chain_bytes data\<rparr>]\<rparr>)
         else (- ENOMEM, data_sent, e))"

definition udp_send_v4 :: "'a ucb \<Rightarrow> chain \<Rightarrow> 'a uenv \<Rightarrow> (int \<times> u32 \<times> 'a uenv) option" where
  "udp_send_v4 u data e =
     (case data of
        [] \<Rightarrow> None
      | m # _ \<Rightarrow>
          let (r, os) = utx_outcome (u_tx_outcomes e);
              e = e\<lparr>u_tx_outcomes := os\<rparr>;
              stat = upd_udp_stats (l4cb_interface u)
          in if r = TxNoHdr
             then Some (- ENOMEM, 0, stat (\<lambda>s. s\<lparr>us_failed_pkts := us_failed_pkts s + 1\<rparr>) e)
             else
               let (err, data_sent, e) = udp_send_pkt u (udp_build_hdr u (mb_pkt_len m)) data (r = TxOk) e
               in Some (err, data_sent,
                        if err = 0 then stat (\<lambda>s. s\<lparr>us_sent_pkts := us_sent_pkts s + 1\<rparr>) e else e))"

subsection \<open>Reception\<close>

definition rte_udp_hdr_of :: "u8 list \<Rightarrow> udp_hdr" where
  "rte_udp_hdr_of bs =
     \<lparr>uh_src_port = be16_at bs 0, uh_dst_port = be16_at bs 2, uh_dgram_len = be16_at bs 4\<rparr>"

text \<open>The application takes the payload; what it leaves is dropped.\<close>

definition udp_process_incoming :: "'a prm \<Rightarrow> 'a ucb \<Rightarrow> 'a uenv \<Rightarrow> (int \<times> 'a ucb \<times> 'a uenv) option" where
  "udp_process_incoming P u e =
     (let (n, d, ns) = app_deliver (p_app P) (l4cb_app_data u) (up_mbuf (u_pcb e)) (up_tstamp (u_pcb e))
      in map_option (\<lambda>(u, e). (int (unat n), u, e))
           (test_app_notifs (test_sm_dispatch_event (p_app P)) ns (u\<lparr>l4cb_app_data := d\<rparr>) e))"

definition udp_check_hdr :: "rx_meta \<Rightarrow> mbuf \<Rightarrow> 'a uenv \<Rightarrow> ('a uenv, udp_hdr \<times> 'a uenv) sum" where
  "udp_check_hdr meta m e =
     (let port = up_port (u_pcb e)
      in if data_len m < 8
         then Inl (upd_udp_stats port (\<lambda>s. s\<lparr>us_to_small_fragment := us_to_small_fragment s + 1\<rparr>) e)
         else
           let e = upd_udp_stats port
                     (\<lambda>s. s\<lparr>us_received_pkts := us_received_pkts s + 1,
                           us_received_bytes := us_received_bytes s + ucast (up_l4_len (u_pcb e))\<rparr>) e
           in if rx_cksum_bad meta
              then Inl (upd_udp_stats port (\<lambda>s. s\<lparr>us_invalid_checksum := us_invalid_checksum s + 1\<rparr>) e)
              else Inr (rte_udp_hdr_of (mb_data m), e))"

definition udp_fill_pcb :: "'a prm \<Rightarrow> rx_meta \<Rightarrow> udp_hdr \<Rightarrow> 'a uenv \<Rightarrow> 'a uenv option" where
  "udp_fill_pcb P meta hdr e =
     (let pcb = u_pcb e;
          hash = (case rx_rss_hash meta of
                    Some h \<Rightarrow> h
                  | None \<Rightarrow> tlkp_calc_pkt_hash P (rte_cpu_to_be_32 (up_src_addr pcb))
                              (rte_cpu_to_be_32 (up_dst_addr pcb))
                              (rte_cpu_to_be_16 (uh_src_port hdr)) (rte_cpu_to_be_16 (uh_dst_port hdr)))
      in map_option
           (\<lambda>m. e\<lparr>u_pcb := pcb\<lparr>up_hash := hash, up_udp := hdr, up_l5_len := up_l4_len pcb - 8, up_mbuf := m\<rparr>\<rparr>)
           (data_adj_chain (p_adj P) (up_mbuf pcb) 8))"

text \<open>The session of the packet, or a new one when a server listens: \<open>None\<close> when there is none.\<close>

definition udp_find_session :: "'a prm \<Rightarrow> 'a uenv \<Rightarrow> (cb_id option \<times> bool \<times> 'a uenv) option" where
  "udp_find_session P e =
     (let pcb = u_pcb e; hdr = up_udp pcb
      in case tlkp_find_v4_ucb (up_port pcb) (up_hash pcb) (up_dst_addr pcb) (up_src_addr pcb)
                (uh_dst_port hdr) (uh_src_port hdr) e of
           Some x \<Rightarrow> Some (Some x, False, e)
         | None \<Rightarrow>
             (case tlkp_find_v4_ucb (up_port pcb)
                     (tlkp_calc_pkt_hash P 0 (rte_cpu_to_be_32 (up_dst_addr pcb)) 0
                        (rte_cpu_to_be_16 (uh_dst_port hdr)))
                     (up_dst_addr pcb) 0 (uh_dst_port hdr) 0 e of
                None \<Rightarrow> Some (None, False, e)
              | Some x \<Rightarrow>
                  (case ucb_clone (u_ucbs e x) e of
                     (None, e) \<Rightarrow> Some (None, True, e)
                   | (Some n, e) \<Rightarrow>
                       let n = l4_cb_calc_connection_hash P
                                 (n\<lparr>l4cb_dst_addr := up_src_addr pcb, l4cb_dst_port := uh_src_port hdr\<rparr>);
                           e = tlkp_add_ucb n e;
                           n = n\<lparr>ucb_state := US_OPEN\<rparr>
                       in map_option
                            (\<lambda>(n, e). (Some (l4cb_id n), False, e\<lparr>u_ucbs := (u_ucbs e)(l4cb_id n := n)\<rparr>))
                            (UDP_NOTIF P TEST_NOTIF_SESS_SRV_CONNECTED n e))))"

text \<open>The result is the buffer the caller frees, as for TCP. A failed clone is not counted as a
  packet without a session.\<close>

definition udp_receive_pkt :: "'a prm \<Rightarrow> rx_meta \<Rightarrow> 'a uenv \<Rightarrow> (chain \<times> 'a uenv) option" where
  "udp_receive_pkt P meta e =
     (case up_mbuf (u_pcb e) of
        [] \<Rightarrow> None
      | m # ms \<Rightarrow>
          (case udp_check_hdr meta m e of
             Inl e \<Rightarrow> Some (m # ms, e)
           | Inr (hdr, e) \<Rightarrow> do {
               e \<leftarrow> udp_fill_pcb P meta hdr e;
               let mbuf = up_mbuf (u_pcb e);
               (found, failed, e) \<leftarrow> udp_find_session P e;
               case found of
                 Some x \<Rightarrow> do {
                   (_, e) \<leftarrow> on_ucb x (udp_process_incoming P)
                     (e\<lparr>u_pcb := (u_pcb e)\<lparr>up_sockopt := Some (l4cb_sockopt (u_ucbs e x))\<rparr>\<rparr>);
                   Some (if up_mbuf_stored (u_pcb e) then [] else mbuf, e)
                 }
               | None \<Rightarrow>
                   Some (mbuf,
                     if failed then e
                     else upd_udp_stats (up_port (u_pcb e))
                            (\<lambda>s. s\<lparr>us_ucb_not_found := us_ucb_not_found s + 1\<rparr>) e)
             }))"

end
