(* ===== verification/UdpProps.thy ===== *)
theory UdpProps
  imports Udp Lookup
begin

text \<open>
  Properties of UDP: a datagram for a server opens a session of its own, which the datagrams that
  follow find, and what the server sends goes back to the client.
\<close>

lemma tlkp_find_v4_ucb_look:
  "tlkp_find_v4_ucb p h la ra lp rp e = tbl_look (u_htable e, u_ucbs e) (p, h, la, ra, lp, rp)"
  by (simp add: tlkp_find_v4_ucb_def)

text \<open>The tuple of the flow of a packet, with the hash the software computes, and that of its server.\<close>

definition udp_flow_key :: "'a prm \<Rightarrow> udp_pcb \<Rightarrow> udp_hdr \<Rightarrow> tuple" where
  "udp_flow_key P pcb hdr =
     (up_port pcb,
      tlkp_calc_connection_hash P (up_src_addr pcb) (up_dst_addr pcb) (uh_src_port hdr) (uh_dst_port hdr),
      up_dst_addr pcb, up_src_addr pcb, uh_dst_port hdr, uh_src_port hdr)"

definition udp_listen_key :: "'a prm \<Rightarrow> udp_pcb \<Rightarrow> udp_hdr \<Rightarrow> tuple" where
  "udp_listen_key P pcb hdr =
     (up_port pcb, tlkp_calc_connection_hash P 0 (up_dst_addr pcb) 0 (uh_dst_port hdr),
      up_dst_addr pcb, 0, uh_dst_port hdr, 0)"

lemma rte_zero [simp]: "rte_cpu_to_be_32 0 = 0" "rte_cpu_to_be_16 0 = 0"
  by (simp_all add: rte_cpu_to_be_32_def rte_cpu_to_be_16_def)

lemma calc_listen_hash:
  "tlkp_calc_pkt_hash P 0 (rte_cpu_to_be_32 b) 0 (rte_cpu_to_be_16 q) = tlkp_calc_connection_hash P 0 b 0 q"
  using calc_pkt_hash [of P 0 b 0 q] by simp

text \<open>The clone of a listening block goes to \<open>SRV_OPEN\<close>, and its application is told.\<close>

lemma udp_srv_connected:
  assumes "snd (app_conn_up (p_app P) (l4cb_app_data u)) = []"
  shows "UDP_NOTIF P TEST_NOTIF_SESS_SRV_CONNECTED u e =
           Some (u\<lparr>l4cb_test_state := TSTS_SRV_OPEN,
                   l4cb_app_data := fst (app_conn_up (p_app P) (l4cb_app_data u))\<rparr>,
                 test_sess_count_estab u e)"
  using assms
  by (auto simp: UDP_NOTIF_def test_notification_def test_sess_server_connected_def test_sm_enter_state_def
      test_sm_dispatch_event_def numeral_3_eq_3 test_sm_function_array_def test_sm_SF_server_opening_def
      test_sm_SF_server_open_def test_app_conn_up_def split: prod.splits)

text \<open>The new session of a flow.\<close>

definition udp_new_session :: "'a prm \<Rightarrow> 'a ucb \<Rightarrow> cb_id \<Rightarrow> udp_pcb \<Rightarrow> 'a ucb" where
  "udp_new_session P s n pcb =
     (l4_cb_calc_connection_hash P
        (s\<lparr>l4cb_id := n, l4cb_dst_addr := up_src_addr pcb, l4cb_dst_port := uh_src_port (up_udp pcb),
           ucb_malloced := True\<rparr>))
       \<lparr>ucb_state := US_OPEN, l4cb_test_state := TSTS_SRV_OPEN,
        l4cb_app_data := fst (app_conn_up (p_app P) (l4cb_app_data s))\<rparr>"

lemma udp_new_session_simps [simp]:
  "l4cb_id (udp_new_session P s n pcb) = n" "ucb_state (udp_new_session P s n pcb) = US_OPEN"
  "l4cb_test_state (udp_new_session P s n pcb) = TSTS_SRV_OPEN"
  "l4cb_app_data (udp_new_session P s n pcb) = fst (app_conn_up (p_app P) (l4cb_app_data s))"
  "l4cb_src_addr (udp_new_session P s n pcb) = l4cb_src_addr s"
  "l4cb_dst_addr (udp_new_session P s n pcb) = up_src_addr pcb"
  "l4cb_src_port (udp_new_session P s n pcb) = l4cb_src_port s"
  "l4cb_dst_port (udp_new_session P s n pcb) = uh_src_port (up_udp pcb)"
  "l4cb_interface (udp_new_session P s n pcb) = l4cb_interface s"
  "ucb_malloced (udp_new_session P s n pcb) = True"
  by (simp_all add: udp_new_session_def l4_cb_calc_connection_hash_def)

lemma udp_find_session_new:
  assumes inv: "tbl_inv (u_htable e, u_ucbs e)"
    and flow: "tbl_look (u_htable e, u_ucbs e) (udp_flow_key P (u_pcb e) (up_udp (u_pcb e))) = None"
    and srv: "tbl_look (u_htable e, u_ucbs e) (udp_listen_key P (u_pcb e) (up_udp (u_pcb e))) = Some s"
    and hash: "up_hash (u_pcb e) = tlkp_calc_connection_hash P (up_src_addr (u_pcb e)) (up_dst_addr (u_pcb e))
        (uh_src_port (up_udp (u_pcb e))) (uh_dst_port (up_udp (u_pcb e)))"
    and pool: "u_pool e = n # ns" "\<not> tbl_has (u_htable e, u_ucbs e) n"
    and up: "snd (app_conn_up (p_app P) (l4cb_app_data (u_ucbs e s))) = []"
  defines "u \<equiv> udp_new_session P (u_ucbs e s) n (u_pcb e)"
  shows "\<exists>e'. udp_find_session P e = Some (Some n, False, e') \<and> u_pool e' = ns \<and>
           u_pcb e' = u_pcb e \<and> u_ucbs e' = (u_ucbs e)(n := u) \<and>
           u_tx e' = u_tx e \<and> u_tx_outcomes e' = u_tx_outcomes e \<and>
           gs_estab (get_tci u e') = gs_estab (get_tci u e) + 1 \<and>
           tcb_key u = udp_flow_key P (u_pcb e) (up_udp (u_pcb e)) \<and>
           tbl_inv (u_htable e', u_ucbs e') \<and>
           tbl_look (u_htable e', u_ucbs e') =
             (tbl_look (u_htable e, u_ucbs e))(udp_flow_key P (u_pcb e) (up_udp (u_pcb e)) \<mapsto> n)"
proof -
  let ?T = "(u_htable e, u_ucbs e)"
  let ?c = "l4_cb_calc_connection_hash P ((u_ucbs e s)\<lparr>l4cb_id := n, ucb_malloced := True,
               l4cb_dst_addr := up_src_addr (u_pcb e), l4cb_dst_port := uh_src_port (up_udp (u_pcb e))\<rparr>)"
  from tbl_look_iff [OF inv] srv have s: "tcb_key (u_ucbs e s) = udp_listen_key P (u_pcb e) (up_udp (u_pcb e))"
    by auto
  then have k: "tcb_key u = udp_flow_key P (u_pcb e) (up_udp (u_pcb e))"
    by (simp add: tcb_key_def udp_listen_key_def udp_flow_key_def u_def udp_new_session_def
        l4_cb_calc_connection_hash_def)
  have cu: "l4cb_interface ?c = l4cb_interface u" "l4cb_rx_hash ?c = l4cb_rx_hash u" "l4cb_id ?c = l4cb_id u"
    by (simp_all add: u_def udp_new_session_def l4_cb_calc_connection_hash_def)
  have a: "tlkp_add_cb ?c (u_htable e) = tlkp_add_cb u (u_htable e)"
    by (simp only: tlkp_add_cb_def cu)
  have n: "n \<notin> ran (tbl_look ?T)" using pool(2) ran_tbl_look [OF inv] by simp
  have idn: "l4cb_id u = n" by (simp add: u_def)
  have T': "tbl_add u ?T = (tlkp_add_cb u (u_htable e), (u_ucbs e)(n := u))"
    by (simp add: idn)
  have add: "tbl_inv (tlkp_add_cb u (u_htable e), (u_ucbs e)(n := u))"
    "tbl_look (tlkp_add_cb u (u_htable e), (u_ucbs e)(n := u)) =
       (tbl_look ?T)(udp_flow_key P (u_pcb e) (up_udp (u_pcb e)) \<mapsto> n)"
    using tcp_table.add_law [OF inv, of u] flow n unfolding k idn T' by blast+
  have u: "u = ?c\<lparr>ucb_state := US_OPEN, l4cb_test_state := TSTS_SRV_OPEN, 
                  l4cb_app_data := fst (app_conn_up (p_app P) (l4cb_app_data (u_ucbs e s)))\<rparr>"
    by (simp add: u_def udp_new_session_def l4_cb_calc_connection_hash_def)
  have flow': "tlkp_find_v4_ucb (up_port (u_pcb e)) (up_hash (u_pcb e)) (up_dst_addr (u_pcb e))
      (up_src_addr (u_pcb e)) (uh_dst_port (up_udp (u_pcb e))) (uh_src_port (up_udp (u_pcb e))) e = None"
    using flow unfolding tlkp_find_v4_ucb_look hash udp_flow_key_def .
  have srv': "tlkp_find_v4_ucb (up_port (u_pcb e))
      (tlkp_calc_connection_hash P 0 (up_dst_addr (u_pcb e)) 0 (uh_dst_port (up_udp (u_pcb e))))
      (up_dst_addr (u_pcb e)) 0 (uh_dst_port (up_udp (u_pcb e))) 0 e = Some s"
    using srv unfolding tlkp_find_v4_ucb_look udp_listen_key_def .
  let ?e = "tlkp_add_ucb ?c (upd_udp_stats (l4cb_interface (u_ucbs e s))
                   (\<lambda>s. s\<lparr>us_ucb_malloced := us_ucb_malloced s + 1\<rparr>) (e\<lparr>u_pool := ns\<rparr>))"
  have "udp_find_session P e =
      Some (Some n, False, (test_sess_count_estab (?c\<lparr>ucb_state := US_OPEN\<rparr>) ?e)
        \<lparr>u_ucbs := (u_ucbs (test_sess_count_estab (?c\<lparr>ucb_state := US_OPEN\<rparr>) ?e))(n := u)\<rparr>)"
    unfolding udp_find_session_def Let_def flow' calc_listen_hash srv' option.case
    by (simp add: ucb_clone_def tlkp_alloc_ucb_def pool(1) udp_srv_connected up u
        l4_cb_calc_connection_hash_def)
  then show ?thesis
    using add k a by (simp add: test_sess_count_estab_def upd_tci_def tlkp_add_ucb_def upd_udp_stats_def
        get_tci_def u_def l4_cb_calc_connection_hash_def udp_new_session_def)
qed

text \<open>The packet of the flow, once its header is parsed.\<close>

lemma udp_fill_pcb_ok:
  assumes adj: "rte_pktmbuf_adj_spec (p_adj P)" and c: "chain_ok (up_mbuf (u_pcb e))"
    and len: "8 \<le> length (chain_bytes (up_mbuf (u_pcb e)))" and ne: "up_mbuf (u_pcb e) \<noteq> []"
    and hw: "rx_rss_hash meta = None"
  shows "\<exists>c'. udp_fill_pcb P meta hdr e =
            Some (e\<lparr>u_pcb := (u_pcb e)\<lparr>up_hash := tlkp_calc_connection_hash P (up_src_addr (u_pcb e))
                      (up_dst_addr (u_pcb e)) (uh_src_port hdr) (uh_dst_port hdr),
                    up_udp := hdr, up_l5_len := up_l4_len (u_pcb e) - 8, up_mbuf := c'\<rparr>\<rparr>) \<and>
            chain_bytes c' = drop 8 (chain_bytes (up_mbuf (u_pcb e)))"
proof -
  from data_adj_chain_bytes [OF adj c ne, of 8] len obtain c' where
    "data_adj_chain (p_adj P) (up_mbuf (u_pcb e)) 8 = Some c'"
    "chain_bytes c' = drop 8 (chain_bytes (up_mbuf (u_pcb e)))" by auto
  with hw show ?thesis by (intro exI [of _ c']) (simp add: udp_fill_pcb_def calc_pkt_hash Let_def)
qed

lemma udp_check_hdr_ok:
  assumes "8 \<le> data_len m" and "\<not> rx_cksum_bad meta"
  obtains e1 where "udp_check_hdr meta m e = Inr (rte_udp_hdr_of (mb_data m), e1)"
    "u_pcb e1 = u_pcb e" "u_ucbs e1 = u_ucbs e" "u_htable e1 = u_htable e" "u_pool e1 = u_pool e"
    "ce_tci e1 = ce_tci e"
  using assms by (simp add: udp_check_hdr_def Let_def upd_udp_stats_def not_le [symmetric])

lemma udp_process_incoming_quiet:
  assumes "app_deliver (p_app P) (l4cb_app_data u) (up_mbuf (u_pcb e)) (up_tstamp (u_pcb e)) = (k, d, [])"
  shows "udp_process_incoming P u e = Some (int (unat k), u\<lparr>l4cb_app_data := d\<rparr>, e)"
  using assms by (simp add: udp_process_incoming_def)

lemma udp_send_v4_peer:
  assumes "u_tx_outcomes e = []"
  shows "\<exists>e'. udp_send_v4 u (x # data) e = Some (0, mb_pkt_len x, e') \<and>
           u_tx e' = u_tx e @ [\<lparr>ux_port = l4cb_interface u, ux_src_addr = l4cb_src_addr u,
             ux_dst_addr = l4cb_dst_addr u, ux_hdr = udp_build_hdr u (mb_pkt_len x),
             ux_data = chain_bytes (x # data)\<rparr>]"
  using assms by (simp add: udp_send_v4_def udp_send_pkt_def upd_udp_stats_def Let_def)

text \<open>
  C23: A datagram for a listening server, of a flow the core does not know, opens a session: the block
  is taken from the pool, is \<open>OPEN\<close> and belongs to the flow, the application gets exactly the payload
  behind the eight bytes of the header, and the listening block stays as it is. Every later
  datagram of the flow is given to that session, and what the session sends goes to the client,
  with the ports exchanged.
\<close>

theorem udp_server_session:
  assumes "rte_pktmbuf_adj_spec (p_adj P)" and "up_mbuf (u_pcb e) = m # r" and "chain_ok (m # r)"
    and "8 \<le> data_len m" and "\<not> rx_cksum_bad meta" and "rx_rss_hash meta = None"
    and "tbl_inv (u_htable e, u_ucbs e)"
    and "tbl_look (u_htable e, u_ucbs e) (udp_flow_key P (u_pcb e) (rte_udp_hdr_of (mb_data m))) = None"
    and "tbl_look (u_htable e, u_ucbs e) (udp_listen_key P (u_pcb e) (rte_udp_hdr_of (mb_data m))) = Some s"
    and "u_pool e = n # ns" and "\<not> tbl_has (u_htable e, u_ucbs e) n"
    and "app_conn_up (p_app P) (l4cb_app_data (u_ucbs e s)) = (d, [])"
    and "\<And>c. chain_bytes c = drop 8 (chain_bytes (m # r)) \<Longrightarrow>
           app_deliver (p_app P) d c (up_tstamp (u_pcb e)) = (k c, d' (drop 8 (chain_bytes (m # r))), [])"
  shows "\<exists>c e'. udp_receive_pkt P meta e = Some (c, e') \<and> u_pool e' = ns \<and>
           (let u = u_ucbs e' n; hdr = rte_udp_hdr_of (mb_data m)
            in ucb_state u = US_OPEN \<and> l4cb_test_state u = TSTS_SRV_OPEN \<and>
               l4cb_app_data u = d' (drop 8 (chain_bytes (m # r))) \<and>
               u_ucbs e' s = u_ucbs e s \<and>
               (\<forall>pcb. up_port pcb = up_port (u_pcb e) \<longrightarrow> up_src_addr pcb = up_src_addr (u_pcb e) \<longrightarrow>
                      up_dst_addr pcb = up_dst_addr (u_pcb e) \<longrightarrow> up_udp pcb = hdr \<longrightarrow>
                      up_hash pcb = up_hash (u_pcb e') \<longrightarrow>
                      udp_find_session P (e'\<lparr>u_pcb := pcb\<rparr>) = Some (Some n, False, e'\<lparr>u_pcb := pcb\<rparr>)) \<and>
               (\<forall>e2 x data. u_tx_outcomes e2 = [] \<longrightarrow>
                  (\<exists>e3 tx. udp_send_v4 u (x # data) e2 = Some (0, mb_pkt_len x, e3) \<and>
                     u_tx e3 = u_tx e2 @ [tx] \<and> ux_dst_addr tx = up_src_addr (u_pcb e) \<and>
                     ux_src_addr tx = up_dst_addr (u_pcb e) \<and>
                     uh_dst_port (ux_hdr tx) = uh_src_port hdr \<and> uh_src_port (ux_hdr tx) = uh_dst_port hdr \<and>
                     ux_data tx = chain_bytes (x # data))))"
proof -
  let ?hdr = "rte_udp_hdr_of (mb_data m)"
  obtain e1 where 1: "udp_check_hdr meta m e = Inr (?hdr, e1)" "u_pcb e1 = u_pcb e" "u_ucbs e1 = u_ucbs e"
    "u_htable e1 = u_htable e" "u_pool e1 = u_pool e" "ce_tci e1 = ce_tci e"
    using udp_check_hdr_ok [OF assms(4,5), of e] by metis
  have l: "8 \<le> length (chain_bytes (m # r))"
    using assms(3,4) by (auto simp: word_le_nat_alt dest: chain_ok_ConsD)
  obtain c where c: "udp_fill_pcb P meta ?hdr e1 =
      Some (e1\<lparr>u_pcb := (u_pcb e)\<lparr>up_hash := tlkp_calc_connection_hash P (up_src_addr (u_pcb e))
                (up_dst_addr (u_pcb e)) (uh_src_port ?hdr) (uh_dst_port ?hdr),
              up_udp := ?hdr, up_l5_len := up_l4_len (u_pcb e) - 8, up_mbuf := c\<rparr>\<rparr>)"
    "chain_bytes c = drop 8 (chain_bytes (m # r))"
    using udp_fill_pcb_ok [OF assms(1), of e1 meta ?hdr] assms(2,3,6) l by (auto simp: 1(2) simp del: chain_bytes_simps)
  let ?e2 = "e1\<lparr>u_pcb := (u_pcb e)\<lparr>up_hash := tlkp_calc_connection_hash P (up_src_addr (u_pcb e))
                (up_dst_addr (u_pcb e)) (uh_src_port ?hdr) (uh_dst_port ?hdr),
              up_udp := ?hdr, up_l5_len := up_l4_len (u_pcb e) - 8, up_mbuf := c\<rparr>\<rparr>"
  let ?u = "udp_new_session P (u_ucbs e s) n (u_pcb ?e2)"
  have "snd (app_conn_up (p_app P) (l4cb_app_data (u_ucbs ?e2 s))) = []" using assms(12) by (simp add: 1)
  with udp_find_session_new [of ?e2 P s n ns] assms(7-11)
  obtain e3 where e3: "udp_find_session P ?e2 = Some (Some n, False, e3)" "u_pool e3 = ns"
    "u_pcb e3 = u_pcb ?e2" "u_ucbs e3 = (u_ucbs e)(n := ?u)"
    "tbl_look (u_htable e3, u_ucbs e3) (udp_flow_key P (u_pcb e) ?hdr) = Some n"
    by (auto simp: 1 udp_flow_key_def udp_listen_key_def simp del: tbl_look.simps)
  have sn: "s \<noteq> n" using assms(9,11) tbl_look_iff [OF assms(7)] by auto
  have key: "tcb_key (u_ucbs e s) = udp_listen_key P (u_pcb e) ?hdr"
    using assms(9) tbl_look_iff [OF assms(7)] by auto
  let ?d = "d' (drop 8 (chain_bytes (m # r)))"
  let ?e4 = "e3\<lparr>u_pcb := (u_pcb e3)\<lparr>up_sockopt := Some (l4cb_sockopt (u_ucbs e3 n))\<rparr>\<rparr>"
  have p: "on_ucb n (udp_process_incoming P) ?e4 =
      Some (int (unat (k c)), ?e4\<lparr>u_ucbs := (u_ucbs ?e4)(n := ?u\<lparr>l4cb_app_data := ?d\<rparr>)\<rparr>)"
    using assms(13) [OF c(2)] assms(12)
    by (simp add: on_ucb_def udp_process_incoming_quiet [where d = ?d and k = "k c"] e3)
  let ?e5 = "?e4\<lparr>u_ucbs := (u_ucbs ?e4)(n := ?u\<lparr>l4cb_app_data := ?d\<rparr>)\<rparr>"
  have rcv: "\<exists>c. udp_receive_pkt P meta e = Some (c, ?e5)"
    using p by (simp add: udp_receive_pkt_def assms(2) 1(1) c(1) e3(1))
  have look: "tlkp_find_v4_ucb (up_port (u_pcb e)) (up_hash (u_pcb ?e5)) (up_dst_addr (u_pcb e))
      (up_src_addr (u_pcb e)) (uh_dst_port ?hdr) (uh_src_port ?hdr) (?e5\<lparr>u_pcb := pcb\<rparr>) = Some n" for pcb
  proof -
    have "tbl_look (u_htable e3, (u_ucbs e3)(n := ?u\<lparr>l4cb_app_data := ?d\<rparr>)) q = tbl_look (u_htable e3, u_ucbs e3) q" for q
      by (cases q) (auto simp: tlkp_find_v4_cb_def tlkp_find_match_def e3(4) intro!: arg_cong2 [where f = find] ext)
    with e3(5) show ?thesis
      by (simp add: tlkp_find_v4_ucb_look udp_flow_key_def e3(3) del: tbl_look.simps chain_bytes_simps)
  qed
  have peer: "l4cb_src_addr ?u = up_dst_addr (u_pcb e)" "l4cb_src_port ?u = uh_dst_port ?hdr"
    using key by (simp_all add: tcb_key_def udp_listen_key_def)
  from rcv obtain c' where "udp_receive_pkt P meta e = Some (c', ?e5)" by blast
  moreover have "\<forall>pcb. up_port pcb = up_port (u_pcb e) \<longrightarrow> up_src_addr pcb = up_src_addr (u_pcb e) \<longrightarrow>
        up_dst_addr pcb = up_dst_addr (u_pcb e) \<longrightarrow> up_udp pcb = ?hdr \<longrightarrow> up_hash pcb = up_hash (u_pcb ?e5) \<longrightarrow>
        udp_find_session P (?e5\<lparr>u_pcb := pcb\<rparr>) = Some (Some n, False, ?e5\<lparr>u_pcb := pcb\<rparr>)"
    using look unfolding udp_find_session_def Let_def by simp
  moreover have "u_pool ?e5 = ns" "u_ucbs ?e5 s = u_ucbs e s" "u_ucbs ?e5 n = ?u\<lparr>l4cb_app_data := ?d\<rparr>"
    using sn by (simp_all add: e3)
  moreover have "\<forall>e2 x data. u_tx_outcomes e2 = [] \<longrightarrow>
       (\<exists>e3 tx. udp_send_v4 (?u\<lparr>l4cb_app_data := ?d\<rparr>) (x # data) e2 = Some (0, mb_pkt_len x, e3) \<and>
          u_tx e3 = u_tx e2 @ [tx] \<and> ux_dst_addr tx = up_src_addr (u_pcb e) \<and>
          ux_src_addr tx = up_dst_addr (u_pcb e) \<and>
          uh_dst_port (ux_hdr tx) = uh_src_port ?hdr \<and> uh_src_port (ux_hdr tx) = uh_dst_port ?hdr \<and>
          ux_data tx = chain_bytes (x # data))"
    using udp_send_v4_peer [of _ "?u\<lparr>l4cb_app_data := ?d\<rparr>"] peer by (fastforce simp: udp_build_hdr_def)
  ultimately show ?thesis by (intro exI [of _ c'] exI [of _ ?e5]) (simp add: Let_def)
qed

definition ex_udp_stats :: udp_stats where
  "ex_udp_stats =
     \<lparr>us_received_pkts = 0, us_received_bytes = 0, us_sent_pkts = 0, us_sent_ctrl_bytes = 0,
      us_sent_data_bytes = 0, us_ucb_malloced = 0, us_ucb_freed = 0, us_ucb_not_found = 0,
      us_ucb_alloc_err = 0, us_to_small_fragment = 0, us_invalid_checksum = 0, us_failed_pkts = 0\<rparr>"

text \<open>A server of address 1 and port 80, in the bucket of its hash.\<close>

definition ex_srv_ucb :: "unit ucb" where
  "ex_srv_ucb =
     \<lparr>l4cb_id = 3, l4cb_test_state = TSTS_LISTEN, l4cb_rx_hash = tlkp_calc_connection_hash ex_P 0 1 0 80,
      l4cb_interface = 0, l4cb_test_case_id = 0, l4cb_sockopt = ex_sockopt, l4cb_app_data = (),
      l4cb_src_port = 80, l4cb_dst_port = 0, l4cb_src_addr = 1, l4cb_dst_addr = 0,
      l4cb_on_test_tmr_list = False, ucb_active = False, ucb_malloced = False, ucb_state = US_LISTEN\<rparr>"

definition ex_udp_mbuf :: mbuf where
  "ex_udp_mbuf = \<lparr>mb_data = [3, 232, 0, 80, 0, 10, 0, 0, 65, 66], mb_pkt_len = 10, mb_nb_segs = 1\<rparr>"

definition ex_uenv :: "unit uenv" where
  "ex_uenv =
     \<lparr>ce_now = 0, ce_cycles_per_us = 1, ce_test_wheel = ex_wheel, ce_timer_stats = (\<lambda>_. ex_timer_stats),
      ce_tci = (\<lambda>_ _. ex_tci), ce_msgs = [], ce_msg_outcomes = [],
      u_ucbs = (\<lambda>_. ex_srv_ucb), u_pool = [7, 8],
      u_htable = (\<lambda>p b. if p = 0 \<and> b = TPG_HASH_MOD (l4cb_rx_hash ex_srv_ucb) then [3] else []),
      u_stats = (\<lambda>_. ex_udp_stats), u_pi_mtu = (\<lambda>_. 1500), u_tx = [], u_tx_outcomes = [],
      u_pcb = \<lparr>up_port = 0, up_hash = 0, up_mbuf = [ex_udp_mbuf], up_mbuf_stored = False,
               up_udp = \<lparr>uh_src_port = 0, uh_dst_port = 0, uh_dgram_len = 0\<rparr>, up_src_addr = 2,
               up_dst_addr = 1, up_l4_len = 10, up_l5_len = 0, up_tstamp = 0, up_sockopt = None\<rparr>\<rparr>"

theorem udp_server_session_witness:
  "\<exists>c e'. udp_receive_pkt ex_P \<lparr>rx_cksum_bad = False, rx_rss_hash = None\<rparr> ex_uenv = Some (c, e') \<and>
     u_pool e' = [8] \<and> ucb_state (u_ucbs e' 7) = US_OPEN"
proof -
  let ?hdr = "rte_udp_hdr_of (mb_data ex_udp_mbuf)"
  have h: "?hdr = \<lparr>uh_src_port = 1000, uh_dst_port = 80, uh_dgram_len = 10\<rparr>"
    by code_simp
  have inv: "tbl_inv (u_htable ex_uenv, u_ucbs ex_uenv)"
    by (auto simp: tbl_inv_def tbl_has_def ex_uenv_def ex_srv_ucb_def)
  have key: "tbl_look (u_htable ex_uenv, u_ucbs ex_uenv) k = Some x \<longleftrightarrow> x = 3 \<and> tcb_key ex_srv_ucb = k" for k x
    unfolding tbl_look_iff [OF inv] by (auto simp: tbl_has_def ex_uenv_def)
  have "udp_flow_key ex_P (u_pcb ex_uenv) ?hdr \<noteq> tcb_key ex_srv_ucb"
    by (simp add: h udp_flow_key_def tcb_key_def ex_srv_ucb_def ex_uenv_def)
  then have flow: "tbl_look (u_htable ex_uenv, u_ucbs ex_uenv) (udp_flow_key ex_P (u_pcb ex_uenv) ?hdr) = None"
    using key by (metis option.exhaust)
  have srv: "tbl_look (u_htable ex_uenv, u_ucbs ex_uenv) (udp_listen_key ex_P (u_pcb ex_uenv) ?hdr) = Some 3"
    unfolding key by (simp add: h udp_listen_key_def tcb_key_def ex_srv_ucb_def ex_uenv_def)
  have "\<not> tbl_has (u_htable ex_uenv, u_ucbs ex_uenv) 7" by (auto simp: tbl_has_def ex_uenv_def)
  from udp_server_session [where P = ex_P and e = ex_uenv and m = ex_udp_mbuf and r = "[]"
      and meta = "\<lparr>rx_cksum_bad = False, rx_rss_hash = None\<rparr>" and n = 7 and ns = "[8]" and s = 3
      and d = "()" and k = chain_pkt_len and d' = "\<lambda>_. ()", OF _ _ _ _ _ _ inv flow srv _ this]
  show ?thesis
    by (auto simp: ex_uenv_def ex_udp_mbuf_def chain_ok_def mbuf_ok_def data_len_def ex_P_def ex_app_def
        ex_adj_spec Let_def)
qed

end
