(* ===== verification/Latency.thy ===== *)
theory Latency
  imports Prelude
begin

text \<open>
  Latency statistics: \<open>test_update_latency\<close> and its helpers of \<^verbatim>\<open>src/tpg_tests.c\<close>, and
  \<open>test_aggregate_latencies\<close> of \<^verbatim>\<open>src/tpg_test_mgmt.c\<close>, which adds the statistics of the cores.

  Every sample goes into the global statistics; the last \<open>tols_length\<close> samples are meant to be kept
  in a ring, over which the recent statistics are computed when they are asked for.
\<close>

record latency_stats =
  ls_max_exceeded :: u32
  ls_max_average_exceeded :: u32
  ls_min_latency :: u32
  ls_max_latency :: u32
  ls_sum_latency :: u64
  ls_sum_jitter :: u64
  ls_instant_jitter :: u64
  ls_samples_count :: u64

text \<open>The limits of a test case: \<^term>\<open>None\<close> when the option is not there.\<close>

record test_case_latency =
  tcs_max :: "u32 option"
  tcs_max_avg :: "u32 option"
  tcs_samples :: "u32 option"

definition TPG_TSTAMP_SAMPLES_MAX_BUFSIZE :: nat where "TPG_TSTAMP_SAMPLES_MAX_BUFSIZE = 1000"

record latency_state =
  tols_timestamps :: "u64 list"
  tols_length :: u32
  tols_actual_length :: u32
  tols_start_index :: u32

record gen_latency_stats =
  gls_stats :: latency_stats
  gls_sample_stats :: latency_stats
  gls_invalid_lat :: u32

definition zero_latency_stats :: latency_stats where
  "zero_latency_stats =
     \<lparr>ls_max_exceeded = 0, ls_max_average_exceeded = 0, ls_min_latency = 0, ls_max_latency = 0,
      ls_sum_latency = 0, ls_sum_jitter = 0, ls_instant_jitter = 0, ls_samples_count = 0\<rparr>"

definition test_case_latency_init :: gen_latency_stats where
  "test_case_latency_init =
     \<lparr>gls_stats = zero_latency_stats\<lparr>ls_min_latency := 0xFFFFFFFF\<rparr>,
      gls_sample_stats = zero_latency_stats\<lparr>ls_min_latency := 0xFFFFFFFF\<rparr>, gls_invalid_lat = 0\<rparr>"

subsection \<open>The ring of the recent samples\<close>

definition test_latency_state_init :: "u32 \<Rightarrow> latency_state" where
  "test_latency_state_init len =
     \<lparr>tols_timestamps = replicate TPG_TSTAMP_SAMPLES_MAX_BUFSIZE 0, tols_length = len,
      tols_actual_length = 0, tols_start_index = 0\<rparr>"

text \<open>\<^term>\<open>None\<close> is a ring without length, or a slot outside of the array.\<close>

definition test_latency_state_add ::
  "u64 \<Rightarrow> latency_state \<times> latency_stats \<Rightarrow> (latency_state \<times> latency_stats) option" where
  "test_latency_state_add tstamp = (\<lambda>(buffer, sample_stats).
     let position = unat ((tols_actual_length buffer + tols_start_index buffer) mod tols_length buffer)
     in if tols_length buffer = 0 \<or> position \<ge> length (tols_timestamps buffer) then None
        else if tols_actual_length buffer + 1 \<le> tols_length buffer
        then Some (buffer\<lparr>tols_timestamps := (tols_timestamps buffer)[position := tstamp],
                          tols_actual_length := tols_actual_length buffer + 1\<rparr>, sample_stats)
        else Some (buffer\<lparr>tols_timestamps := (tols_timestamps buffer)[position := tstamp]\<rparr>,
                   sample_stats\<lparr>ls_sum_latency :=
                                  ls_sum_latency sample_stats - tols_timestamps buffer ! position,
                                ls_samples_count := ls_samples_count sample_stats - 1\<rparr>))"

subsection \<open>The statistics of a sample\<close>

text \<open>
  The average is that of the samples before this one, as a signed number of 64 bits; the latency is
  compared to it as an \<open>int\<close> of 32 bits.
\<close>

definition test_update_latency_stats ::
  "test_case_latency \<Rightarrow> u64 \<Rightarrow> latency_stats \<Rightarrow> latency_stats" where
  "test_update_latency_stats tci_latency latency stats =
     (let avg = (if ls_samples_count stats > 0
                 then ls_sum_latency stats div ls_samples_count stats else 0);
          stats = (if ls_samples_count stats > 0
                   then let jitter = (if sint avg \<ge> sint (ucast latency :: u32)
                                      then avg - latency else latency - avg)
                        in stats\<lparr>ls_instant_jitter := jitter,
                                 ls_sum_jitter := ls_sum_jitter stats + jitter\<rparr>
                   else stats);
          stats = (case tcs_max tci_latency of
                     Some mx \<Rightarrow> if latency > ucast mx
                                then stats\<lparr>ls_max_exceeded := ls_max_exceeded stats + 1\<rparr> else stats
                   | None \<Rightarrow> stats);
          stats = (case tcs_max_avg tci_latency of
                     Some mx \<Rightarrow> if sint avg > int (unat mx)
                                then stats\<lparr>ls_max_average_exceeded := ls_max_average_exceeded stats + 1\<rparr>
                                else stats
                   | None \<Rightarrow> stats);
          stats = stats\<lparr>ls_samples_count := ls_samples_count stats + 1,
                        ls_sum_latency := ls_sum_latency stats + latency\<rparr>;
          stats = (if latency < ucast (ls_min_latency stats)
                   then stats\<lparr>ls_min_latency := ucast latency\<rparr> else stats)
      in if latency > ucast (ls_max_latency stats)
         then stats\<lparr>ls_max_latency := ucast latency\<rparr> else stats)"

definition test_update_latency ::
  "test_case_latency \<Rightarrow> u64 \<Rightarrow> u64 \<Rightarrow> gen_latency_stats \<times> latency_state
     \<Rightarrow> (gen_latency_stats \<times> latency_state) option" where
  "test_update_latency tci_latency sent_tstamp rcv_tstamp = (\<lambda>(stats, buffer).
     if rcv_tstamp < sent_tstamp \<or> sent_tstamp = 0 \<or> rcv_tstamp = 0
     then Some (stats\<lparr>gls_invalid_lat := gls_invalid_lat stats + 1\<rparr>, buffer)
     else
       let latency = rcv_tstamp - sent_tstamp;
           stats = stats\<lparr>gls_stats := test_update_latency_stats tci_latency latency (gls_stats stats)\<rparr>
       in if tols_length buffer \<noteq> 0
          then map_option (\<lambda>(buffer, s). (stats\<lparr>gls_sample_stats := s\<rparr>, buffer))
                 (test_latency_state_add latency (buffer, gls_sample_stats stats))
          else Some (stats, buffer))"

text \<open>The recent statistics are computed from the ring, from its first slot on.\<close>

definition test_update_recent_latency_stats ::
  "latency_state \<Rightarrow> test_case_latency \<Rightarrow> latency_stats" where
  "test_update_recent_latency_stats buffer tc_latency =
     fold (test_update_latency_stats tc_latency)
       (take (unat (tols_actual_length buffer)) (tols_timestamps buffer))
       (zero_latency_stats\<lparr>ls_min_latency := 0xFFFFFFFF\<rparr>)"

subsection \<open>Aggregation\<close>

definition test_aggregate_latencies :: "latency_stats \<Rightarrow> latency_stats \<Rightarrow> latency_stats" where
  "test_aggregate_latencies dest source =
     (let dest = dest\<lparr>
            ls_max_average_exceeded := ls_max_average_exceeded dest + ls_max_average_exceeded source,
            ls_max_exceeded := ls_max_exceeded dest + ls_max_exceeded source,
            ls_max_latency := (if ls_max_latency dest \<ge> ls_max_latency source
                               then ls_max_latency dest else ls_max_latency source),
            ls_min_latency := (if ls_min_latency dest \<le> ls_min_latency source
                               then ls_min_latency dest else ls_min_latency source),
            ls_samples_count := ls_samples_count dest + ls_samples_count source,
            ls_sum_latency := ls_sum_latency dest + ls_sum_latency source,
            ls_sum_jitter := ls_sum_jitter dest + ls_sum_jitter source,
            ls_instant_jitter := (if ls_instant_jitter dest \<ge> ls_instant_jitter source
                                  then ls_instant_jitter dest else ls_instant_jitter source)\<rparr>
      in dest\<lparr>ls_samples_count := ls_samples_count dest + ls_samples_count source\<rparr>)"

subsection \<open>The ring\<close>

text \<open>The samples one after the other.\<close>

definition latency_ring ::
  "u64 list \<Rightarrow> latency_state \<times> latency_stats \<Rightarrow> (latency_state \<times> latency_stats) option" where
  "latency_ring xs st = fold (\<lambda>t st. Option.bind st (test_latency_state_add t)) xs (Some st)"

lemma latency_ring_simps:
  "latency_ring [] st = Some st"
  "latency_ring (xs @ [t]) st = Option.bind (latency_ring xs st) (test_latency_state_add t)"
  by (simp_all add: latency_ring_def)

text \<open>What the ring holds after the samples \<open>xs\<close>.\<close>

definition ring_holds :: "u64 list \<Rightarrow> nat \<Rightarrow> latency_state \<Rightarrow> bool" where
  "ring_holds ys L b \<longleftrightarrow>
     length (tols_timestamps b) = TPG_TSTAMP_SAMPLES_MAX_BUFSIZE \<and> tols_length b = of_nat L \<and>
     tols_start_index b = 0 \<and> tols_actual_length b = of_nat (length ys) \<and>
     take (length ys) (tols_timestamps b) = ys"

lemma ring_position:
  assumes "n \<le> L" and "0 < L" and "L \<le> TPG_TSTAMP_SAMPLES_MAX_BUFSIZE"
  shows "unat ((of_nat n :: u32) mod of_nat L) = n mod L"
  using assms by (simp add: unat_mod unat_of_nat_small TPG_TSTAMP_SAMPLES_MAX_BUFSIZE_def)

lemma ring_room:
  assumes "n \<le> TPG_TSTAMP_SAMPLES_MAX_BUFSIZE" and "L \<le> TPG_TSTAMP_SAMPLES_MAX_BUFSIZE"
  shows "(of_nat n + 1 :: u32) \<le> of_nat L \<longleftrightarrow> n < L" and "(of_nat L :: u32) = 0 \<longleftrightarrow> L = 0"
proof -
  have "(of_nat n + 1 :: u32) = of_nat (Suc n)" by simp
  then have "unat (of_nat n + 1 :: u32) = Suc n" "unat (of_nat L :: u32) = L"
    using assms unat_of_nat_small [of "Suc n", where 'a = 32] unat_of_nat_small [of L, where 'a = 32]
    by (simp_all add: TPG_TSTAMP_SAMPLES_MAX_BUFSIZE_def del: of_nat_Suc)
  then show "(of_nat n + 1 :: u32) \<le> of_nat L \<longleftrightarrow> n < L" "(of_nat L :: u32) = 0 \<longleftrightarrow> L = 0"
    by (auto simp: word_le_nat_alt word_unat_eq_iff)
qed

lemma ring_add:
  assumes "ring_holds ys L b" and "length ys < L" and "L \<le> TPG_TSTAMP_SAMPLES_MAX_BUFSIZE"
  shows "\<exists>b'. test_latency_state_add t (b, s) = Some (b', s) \<and> ring_holds (ys @ [t]) L b'"
proof -
  have p: "unat ((of_nat (length ys) :: u32) mod of_nat L) = length ys"
    using ring_position [of "length ys" L] assms by simp
  have r: "(of_nat L :: u32) \<noteq> 0" "(of_nat (length ys) + 1 :: u32) \<le> of_nat L"
    using assms(2,3) by (simp_all add: ring_room)
  have l: "length ys < length (tols_timestamps b)" using assms by (simp add: ring_holds_def)
  have "take (Suc (length ys)) ((tols_timestamps b)[length ys := t]) = ys @ [t]"
    using assms(1) l by (simp add: take_Suc_conv_app_nth ring_holds_def)
  with assms(1) p r l show ?thesis
    by (simp add: test_latency_state_add_def ring_holds_def Let_def add.commute)
qed

lemma ring_full:
  assumes "ring_holds ys L b" and "length ys = L" and "0 < L" and "L \<le> TPG_TSTAMP_SAMPLES_MAX_BUFSIZE"
  shows "\<exists>b' s'. test_latency_state_add t (b, s) = Some (b', s') \<and> ring_holds (t # tl ys) L b'"
proof -
  have p: "unat ((of_nat L :: u32) mod of_nat L) = 0" by simp
  have "(of_nat L :: u32) \<noteq> 0" "\<not> (of_nat L + 1 :: u32) \<le> of_nat L"
    using assms(3,4) by (simp_all add: ring_room)
  moreover have "take L ((tols_timestamps b)[0 := t]) = t # tl ys"
  proof -
    from assms have "take L (tols_timestamps b) = ys" by (simp add: ring_holds_def)
    moreover have "take L ((tols_timestamps b)[0 := t]) = (take L (tols_timestamps b))[0 := t]"
      by (simp add: take_update_swap)
    moreover have "ys[0 := t] = t # tl ys" using assms(2,3) by (cases ys) auto
    ultimately show ?thesis by simp
  qed
  moreover have "Suc (length (tl ys)) = L" using assms(2,3) by simp
  ultimately show ?thesis
    using assms(1,2,4) p by (auto simp: test_latency_state_add_def ring_holds_def Let_def TPG_TSTAMP_SAMPLES_MAX_BUFSIZE_def)
qed

lemma latency_ring_fills:
  assumes "length xs \<le> L" and "L \<le> TPG_TSTAMP_SAMPLES_MAX_BUFSIZE"
  shows "\<exists>b. latency_ring xs (test_latency_state_init (of_nat L), s) = Some (b, s) \<and> ring_holds xs L b"
  using assms(1)
proof (induction xs rule: rev_induct)
  case Nil
  show ?case by (simp add: latency_ring_simps ring_holds_def test_latency_state_init_def)
next
  case (snoc t xs)
  then obtain b where "latency_ring xs (test_latency_state_init (of_nat L), s) = Some (b, s)" "ring_holds xs L b"
    by auto
  with ring_add [of xs L b t s] snoc.prems assms(2) show ?case by (auto simp: latency_ring_simps)
qed

text \<open>
  The ring of the recent latencies does not turn: its start never moves, so once \<open>L\<close> samples are
  stored every further one overwrites the first slot. However many samples arrive, the recent
  statistics are those of the very last sample and of the second to the \<open>L\<close>-th sample of the test.
\<close>

theorem recent_latencies_stuck:
  assumes "0 < L" and "L \<le> TPG_TSTAMP_SAMPLES_MAX_BUFSIZE" and "L < length xs"
  shows "\<exists>b s'. latency_ring xs (test_latency_state_init (of_nat L), s) = Some (b, s') \<and>
           (\<forall>lim. test_update_recent_latency_stats b lim =
              fold (test_update_latency_stats lim) (last xs # drop 1 (take L xs))
                (zero_latency_stats\<lparr>ls_min_latency := 0xFFFFFFFF\<rparr>))"
proof -
  have "\<exists>b s'. latency_ring xs (test_latency_state_init (of_nat L), s) = Some (b, s') \<and>
          ring_holds (last xs # drop 1 (take L xs)) L b"
    using assms(3)
  proof (induction xs rule: rev_induct)
    case (snoc t xs)
    let ?i = "(test_latency_state_init (of_nat L), s)"
    obtain ys b s' where ys: "latency_ring xs ?i = Some (b, s')" "ring_holds ys L b" "length ys = L"
      "tl ys = drop 1 (take L xs)"
    proof (cases "L < length xs")
      case True
      from snoc.IH [OF this] obtain b s' where
        "latency_ring xs ?i = Some (b, s')" "ring_holds (last xs # drop 1 (take L xs)) L b" by blast
      moreover have "length (last xs # drop 1 (take L xs)) = L" using True assms(1) by simp
      ultimately show ?thesis by (rule that) simp
    next
      case False
      with snoc.prems have "length xs = L" by simp
      moreover obtain b where "latency_ring xs ?i = Some (b, s)" "ring_holds xs L b"
        using latency_ring_fills [of xs L s] assms(2) \<open>length xs = L\<close> by auto
      ultimately show ?thesis by (intro that [of b s xs]) (simp_all add: drop_Suc)
    qed
    from ring_full [OF ys(2,3) assms(1,2), of t s'] obtain b' s'' where
      "test_latency_state_add t (b, s') = Some (b', s'')" "ring_holds (t # tl ys) L b'" by blast
    moreover have "take L (xs @ [t]) = take L xs" using snoc.prems by simp
    ultimately show ?case using ys(1,4) by (simp add: latency_ring_simps)
  qed simp
  moreover have "length (last xs # drop 1 (take L xs)) = L" using assms by simp
  ultimately show ?thesis using assms(2)
    by (fastforce simp: test_update_recent_latency_stats_def ring_holds_def unat_of_nat_small
        TPG_TSTAMP_SAMPLES_MAX_BUFSIZE_def)
qed

theorem recent_latencies_stuck_witness:
  "\<exists>b s'. latency_ring [10, 20, 30, 40, 50, 60] (test_latency_state_init 3, zero_latency_stats) = Some (b, s') \<and>
     ls_sum_latency (test_update_recent_latency_stats b \<lparr>tcs_max = None, tcs_max_avg = None, tcs_samples = Some 3\<rparr>) = 110"
proof -
  have "ls_sum_latency (fold (test_update_latency_stats \<lparr>tcs_max = None, tcs_max_avg = None, tcs_samples = Some 3\<rparr>)
      [60, 20, 30] (zero_latency_stats\<lparr>ls_min_latency := 0xFFFFFFFF\<rparr>)) = 110"
    by code_simp
  with recent_latencies_stuck [of 3 "[10, 20, 30, 40, 50, 60]" zero_latency_stats] show ?thesis
    by (auto simp: TPG_TSTAMP_SAMPLES_MAX_BUFSIZE_def)
qed

subsection \<open>The statistics\<close>

text \<open>What the statistics of the samples \<open>xs\<close> should be.\<close>

definition latency_summary :: "test_case_latency \<Rightarrow> u64 list \<Rightarrow> latency_stats \<Rightarrow> bool" where
  "latency_summary lim xs st \<longleftrightarrow>
     unat (ls_samples_count st) = length xs \<and>
     unat (ls_sum_latency st) = sum_list (map unat xs) \<and>
     unat (ls_min_latency st) = Min (insert (2 ^ 32 - 1) (unat ` set xs)) \<and>
     unat (ls_max_latency st) = Max (insert 0 (unat ` set xs)) \<and>
     unat (ls_max_exceeded st) =
       (case tcs_max lim of None \<Rightarrow> 0 | Some m \<Rightarrow> length (filter (\<lambda>x. unat m < unat x) xs))"

lemma sum_list_unat_bound:
  assumes "\<forall>x \<in> set xs. unat (x :: u64) < 2 ^ 32" and "length xs < 2 ^ 32"
  shows "sum_list (map unat xs) < 2 ^ 64"
proof -
  have "sum_list (map unat xs) \<le> length xs * (2 ^ 32 - 1)"
    using assms(1)
  proof (induction xs)
    case (Cons x xs)
    then have "unat x \<le> 2 ^ 32 - 1" "sum_list (map unat xs) \<le> length xs * (2 ^ 32 - 1)" by simp_all
    then show ?case by simp
  qed simp
  also have "\<dots> < 2 ^ 64" using assms(2) by simp
  finally show ?thesis .
qed

lemma unat_u32_u64: "unat (ucast (x :: u32) :: u64) = unat x"
  using unat_u32_less [of x] by (simp add: unsigned_ucast_eq take_bit_nat_eq_self)

lemma unat_u64_u32: "unat (x :: u64) < 2 ^ 32 \<Longrightarrow> unat (ucast x :: u32) = unat x"
  by (simp add: unsigned_ucast_eq take_bit_nat_eq_self)

lemma latency_summary_snoc:
  assumes "latency_summary lim xs st" and "\<forall>y \<in> set (xs @ [x]). unat (y :: u64) < 2 ^ 32"
    and "length (xs @ [x]) < 2 ^ 32"
  shows "latency_summary lim (xs @ [x]) (test_update_latency_stats lim x st)"
proof -
  let ?st = "test_update_latency_stats lim x st"
  have x: "unat x < 2 ^ 32" using assms(2) by simp
  have c: "ls_samples_count ?st = ls_samples_count st + 1" "ls_sum_latency ?st = ls_sum_latency st + x"
    "ls_min_latency ?st = (if x < ucast (ls_min_latency st) then ucast x else ls_min_latency st)"
    "ls_max_latency ?st = (if x > ucast (ls_max_latency st) then ucast x else ls_max_latency st)"
    "ls_max_exceeded ?st =
       (case tcs_max lim of None \<Rightarrow> ls_max_exceeded st
        | Some m \<Rightarrow> if x > ucast m then ls_max_exceeded st + 1 else ls_max_exceeded st)"
    by (simp_all add: test_update_latency_stats_def Let_def split: option.split)
  note st = assms(1)[unfolded latency_summary_def]
  have "sum_list (map unat (xs @ [x])) < 2 ^ 64" using sum_list_unat_bound [OF assms(2,3)] .
  then have sum: "unat (ls_sum_latency ?st) = sum_list (map unat (xs @ [x]))"
    unfolding c using st by (subst word_le_plus_unat) simp_all
  have cnt: "unat (ls_samples_count ?st) = length (xs @ [x])"
    unfolding c using st assms(3) by (subst word_le_plus_unat) simp_all
  have lt: "x < ucast m \<longleftrightarrow> unat x < unat m" "ucast m < x \<longleftrightarrow> unat m < unat x" for m :: u32
    by (simp_all add: word_less_nat_alt unat_u32_u64)
  have "unat (ls_min_latency ?st) = min (unat x) (unat (ls_min_latency st))"
    unfolding c lt using x by (simp add: unat_u64_u32 min_def)
  also have "\<dots> = Min (insert (2 ^ 32 - 1) (unat ` set (xs @ [x])))"
    using st by (simp add: insert_commute)
  finally have mn: "unat (ls_min_latency ?st) = Min (insert (2 ^ 32 - 1) (unat ` set (xs @ [x])))" .
  have "unat (ls_max_latency ?st) = max (unat x) (unat (ls_max_latency st))"
    unfolding c lt using x by (simp add: unat_u64_u32 max_def)
  also have "\<dots> = max (unat x) (Max (insert 0 (unat ` set xs)))" using st by (simp only:)
  also have "\<dots> = Max (insert (unat x) (insert 0 (unat ` set xs)))" by (rule Max_insert [symmetric]) auto
  also have "insert (unat x) (insert 0 (unat ` set xs)) = insert 0 (unat ` set (xs @ [x]))" by auto
  finally have mx: "unat (ls_max_latency ?st) = Max (insert 0 (unat ` set (xs @ [x])))" .
  have "length (filter P xs) + 1 < 2 ^ 32" for P
    using le_less_trans [OF length_filter_le [of P xs]] assms(3) by simp
  then have ex: "unat (ls_max_exceeded ?st) = (case tcs_max lim of None \<Rightarrow> 0
      | Some m \<Rightarrow> length (filter (\<lambda>x. unat m < unat x) (xs @ [x])))"
    unfolding c lt using st by (cases "tcs_max lim") (simp_all add: word_le_plus_unat)
  show ?thesis unfolding latency_summary_def using sum cnt mn mx ex by blast
qed

lemma aggregate_count:
  "ls_samples_count (test_aggregate_latencies a b) = ls_samples_count a + ls_samples_count b + ls_samples_count b"
  by (simp add: test_aggregate_latencies_def Let_def)

lemma latency_summary_init:
  "latency_summary lim [] (zero_latency_stats\<lparr>ls_min_latency := 0xFFFFFFFF\<rparr>)"
  by (simp add: latency_summary_def zero_latency_stats_def split: option.split)

lemma latency_summary_fold:
  assumes "\<forall>x \<in> set xs. unat (x :: u64) < 2 ^ 32" and "length xs < 2 ^ 32"
  shows "latency_summary lim xs
           (fold (test_update_latency_stats lim) xs (zero_latency_stats\<lparr>ls_min_latency := 0xFFFFFFFF\<rparr>))"
  using assms
proof (induction xs rule: rev_induct)
  case Nil
  show ?case by (simp add: latency_summary_init)
next
  case (snoc x xs)
  then show ?case by (simp add: latency_summary_snoc)
qed

text \<open>The statistics of a core that recorded the samples \<open>zs\<close>.\<close>

definition core_stats :: "test_case_latency \<Rightarrow> u64 list \<Rightarrow> latency_stats" where
  "core_stats lim zs = fold (test_update_latency_stats lim) zs (zero_latency_stats\<lparr>ls_min_latency := 0xFFFFFFFF\<rparr>)"

text \<open>
  The statistics of two cores are right each on its own (number of samples, sum, minimum, maximum and
  how many are above the limit), and their aggregation is right but for the number of samples: those
  of the second core are counted twice, so the average that is shown of them is half of what it is.
\<close>

theorem aggregate_counts_twice:
  assumes "\<forall>x \<in> set (xs @ ys). unat x < 2 ^ 32" and "length xs + 2 * length ys < 2 ^ 32"
  shows "latency_summary lim xs (core_stats lim xs) \<and> latency_summary lim ys (core_stats lim ys) \<and>
    unat (ls_samples_count (test_aggregate_latencies (core_stats lim xs) (core_stats lim ys))) = length xs + 2 * length ys \<and>
    latency_summary lim (xs @ ys) ((test_aggregate_latencies (core_stats lim xs) (core_stats lim ys))
      \<lparr>ls_samples_count := of_nat (length (xs @ ys))\<rparr>)"
proof (intro conjI)
  let ?a = "core_stats lim xs" and ?b = "core_stats lim ys"
  from assms(1,2) show x: "latency_summary lim xs ?a" and y: "latency_summary lim ys ?b"
    unfolding core_stats_def by (auto intro!: latency_summary_fold)
  note st = x[unfolded latency_summary_def] y[unfolded latency_summary_def]
  have c: "unat (ls_samples_count ?a) + unat (ls_samples_count ?b) + unat (ls_samples_count ?b) =
      length xs + 2 * length ys" using st by simp
  have c1: "unat (ls_samples_count ?a + ls_samples_count ?b) = unat (ls_samples_count ?a) + unat (ls_samples_count ?b)"
    by (rule word_le_plus_unat) (use c assms(2) in simp)
  have "unat (ls_samples_count ?a + ls_samples_count ?b + ls_samples_count ?b) =
      unat (ls_samples_count ?a + ls_samples_count ?b) + unat (ls_samples_count ?b)"
    by (rule word_le_plus_unat) (use c c1 assms(2) in simp)
  with c c1 have "unat (ls_samples_count ?a + ls_samples_count ?b + ls_samples_count ?b) = length xs + 2 * length ys"
    by (simp only:)
  then show "unat (ls_samples_count (test_aggregate_latencies ?a ?b)) = length xs + 2 * length ys"
    by (simp only: aggregate_count)
  have "sum_list (map unat (xs @ ys)) < 2 ^ 64"
    using assms(1,2) by (intro sum_list_unat_bound) simp_all
  then have sum: "unat (ls_sum_latency ?a + ls_sum_latency ?b) = sum_list (map unat (xs @ ys))"
    using st by (subst word_le_plus_unat) simp_all
  have mn: "unat (if ls_min_latency ?a \<le> ls_min_latency ?b then ls_min_latency ?a else ls_min_latency ?b) =
      Min (insert (2 ^ 32 - 1) (unat ` set (xs @ ys)))"
  proof -
    have "Min (insert (2 ^ 32 - 1) (unat ` set (xs @ ys))) =
        Min (insert (2 ^ 32 - 1) (unat ` set xs) \<union> insert (2 ^ 32 - 1) (unat ` set ys))"
      by (rule arg_cong [where f = Min]) auto
    also have "\<dots> = min (unat (ls_min_latency ?a)) (unat (ls_min_latency ?b))"
      using st by (subst Min_Un) simp_all
    finally show ?thesis by (simp add: word_le_nat_alt min_def)
  qed
  have mx: "unat (if ls_max_latency ?a \<ge> ls_max_latency ?b then ls_max_latency ?a else ls_max_latency ?b) =
      Max (insert 0 (unat ` set (xs @ ys)))"
  proof -
    have "Max (insert 0 (unat ` set (xs @ ys))) = Max (insert 0 (unat ` set xs) \<union> insert 0 (unat ` set ys))"
      by (rule arg_cong [where f = Max]) auto
    also have "\<dots> = max (Max (insert 0 (unat ` set xs))) (Max (insert 0 (unat ` set ys)))"
      by (rule Max_Un) auto
    also have "\<dots> = max (unat (ls_max_latency ?a)) (unat (ls_max_latency ?b))"
      using st by (simp only:)
    finally show ?thesis by (simp add: word_le_nat_alt max_def)
  qed
  have "length (filter P xs) + length (filter P ys) < 2 ^ 32" for P
    using add_le_mono [OF length_filter_le [of P xs] length_filter_le [of P ys]] assms(2) by linarith
  then have ex: "unat (ls_max_exceeded ?a + ls_max_exceeded ?b) = (case tcs_max lim of None \<Rightarrow> 0
      | Some m \<Rightarrow> length (filter (\<lambda>x. unat m < unat x) (xs @ ys)))"
    using st by (cases "tcs_max lim") (simp_all add: word_le_plus_unat)
  have cnt: "unat (of_nat (length (xs @ ys)) :: u64) = length (xs @ ys)"
    using assms(2) by (intro unat_of_nat_small) simp
  show "latency_summary lim (xs @ ys) ((test_aggregate_latencies ?a ?b)\<lparr>ls_samples_count := of_nat (length (xs @ ys))\<rparr>)"
    unfolding latency_summary_def test_aggregate_latencies_def Let_def
    using sum mn mx ex cnt by simp
qed

theorem aggregate_counts_twice_witness:
  "unat (ls_samples_count (test_aggregate_latencies
     (core_stats \<lparr>tcs_max = None, tcs_max_avg = None, tcs_samples = None\<rparr> [10])
     (core_stats \<lparr>tcs_max = None, tcs_max_avg = None, tcs_samples = None\<rparr> [20]))) = 3"
  using aggregate_counts_twice [of "[10]" "[20]" "\<lparr>tcs_max = None, tcs_max_avg = None, tcs_samples = None\<rparr>"]
  by simp

end
