(* ===== verification/TestCfg.thy ===== *)
theory TestCfg
  imports Core TcpTypes Latency
begin

text \<open>
  The configuration of a test case, and the walks over its sessions: \<^verbatim>\<open>inc/tpg_utils.h\<close>, the
  message types of \<^verbatim>\<open>api/*.proto\<close>, the checks of \<^verbatim>\<open>src/tpg_test_mgmt_api.c\<close> and the walks of
  \<^verbatim>\<open>src/tpg_tests.c\<close>.

  A port of a configuration has 32 bits, the counter of a walk over ports has 16. A walk is a loop
  that may not end; then it has no value (\<^term>\<open>None\<close>). The configuration of the application has
  the type \<open>'app\<close>.
\<close>

subsection \<open>Addresses and ranges\<close>

datatype ip_v = IP_V__IPV4 | IP_V__IPV6

record tpg_ip =
  ip_version :: ip_v
  ip_v4 :: u32

record tpg_ip_range =
  ipr_start :: tpg_ip
  ipr_end :: tpg_ip

record tpg_l4_port_range =
  l4pr_start :: u32
  l4pr_end :: u32

definition TPG_IPV4 :: "u32 \<Rightarrow> tpg_ip" where
  "TPG_IPV4 v = \<lparr>ip_version = IP_V__IPV4, ip_v4 = v\<rparr>"

definition TPG_IP_GT :: "tpg_ip \<Rightarrow> tpg_ip \<Rightarrow> bool" where
  "TPG_IP_GT i1 i2 \<longleftrightarrow> ip_version i1 = ip_version i2 \<and> ip_version i1 = IP_V__IPV4 \<and> ip_v4 i1 > ip_v4 i2"

definition TPG_IP_EQ :: "tpg_ip \<Rightarrow> tpg_ip \<Rightarrow> bool" where
  "TPG_IP_EQ i1 i2 \<longleftrightarrow> ip_version i1 = ip_version i2 \<and> ip_version i1 = IP_V__IPV4 \<and> ip_v4 i1 = ip_v4 i2"

definition TPG_IP_GE :: "tpg_ip \<Rightarrow> tpg_ip \<Rightarrow> bool" where
  "TPG_IP_GE i1 i2 \<longleftrightarrow> TPG_IP_GT i1 i2 \<or> TPG_IP_EQ i1 i2"

definition TPG_IP_MCAST :: "tpg_ip \<Rightarrow> bool" where
  "TPG_IP_MCAST ip \<longleftrightarrow> ip_version ip = IP_V__IPV4 \<and> ip_v4 ip AND 0xF0000000 = 0xE0000000"

text \<open>The argument of these two is an address, which is never \<open>NULL\<close>: they are the IPv4 bounds.\<close>

definition TPG_IP_MCAST_MIN :: tpg_ip where "TPG_IP_MCAST_MIN = TPG_IPV4 0xE0000000"
definition TPG_IP_MCAST_MAX :: tpg_ip where "TPG_IP_MCAST_MAX = TPG_IPV4 0xEFFFFFFF"

definition TPG_IP_BCAST :: "tpg_ip \<Rightarrow> bool" where
  "TPG_IP_BCAST ip \<longleftrightarrow> ip_version ip = IP_V__IPV4 \<and> ip_v4 ip = 0xFFFFFFFF"

definition TPG_IPV4_RANGE :: "u32 \<Rightarrow> u32 \<Rightarrow> tpg_ip_range" where
  "TPG_IPV4_RANGE a b = \<lparr>ipr_start = TPG_IPV4 a, ipr_end = TPG_IPV4 b\<rparr>"

definition TPG_PORT_RANGE :: "u32 \<Rightarrow> u32 \<Rightarrow> tpg_l4_port_range" where
  "TPG_PORT_RANGE a b = \<lparr>l4pr_start = a, l4pr_end = b\<rparr>"

definition TPG_IPV4_RANGE_SIZE :: "tpg_ip_range \<Rightarrow> u32" where
  "TPG_IPV4_RANGE_SIZE r = ip_v4 (ipr_end r) - ip_v4 (ipr_start r) + 1"

definition TPG_PORT_RANGE_SIZE :: "tpg_l4_port_range \<Rightarrow> u32" where
  "TPG_PORT_RANGE_SIZE r = l4pr_end r - l4pr_start r + 1"

subsection \<open>Loops over ranges\<close>

partial_function (option) ipv4_loop :: "u32 \<Rightarrow> (u32 \<Rightarrow> 's \<Rightarrow> 's option) \<Rightarrow> u32 \<Rightarrow> 's \<Rightarrow> 's option" where
  "ipv4_loop hi body ip s =
     (if ip \<le> hi then Option.bind (body ip s) (ipv4_loop hi body (ip + 1)) else Some s)"

definition TPG_IPV4_FOREACH :: "tpg_ip_range \<Rightarrow> (u32 \<Rightarrow> 's \<Rightarrow> 's option) \<Rightarrow> 's \<Rightarrow> 's option" where
  "TPG_IPV4_FOREACH r body = ipv4_loop (ip_v4 (ipr_end r)) body (ip_v4 (ipr_start r))"

text \<open>The counter has 16 bits and is compared as a number of 32.\<close>

partial_function (option) port_loop :: "u32 \<Rightarrow> (u16 \<Rightarrow> 's \<Rightarrow> 's option) \<Rightarrow> u16 \<Rightarrow> 's \<Rightarrow> 's option" where
  "port_loop hi body port s =
     (if ucast port \<le> hi then Option.bind (body port s) (port_loop hi body (port + 1)) else Some s)"

definition TPG_PORT_FOREACH ::
  "tpg_l4_port_range \<Rightarrow> (u16 \<Rightarrow> 's \<Rightarrow> 's option) \<Rightarrow> 's \<Rightarrow> 's option" where
  "TPG_PORT_FOREACH r body = port_loop (l4pr_end r) body (ucast (l4pr_start r))"

definition TPG_FOREACH_CB_IN_RANGE ::
  "tpg_ip_range \<Rightarrow> tpg_ip_range \<Rightarrow> tpg_l4_port_range \<Rightarrow> tpg_l4_port_range
     \<Rightarrow> (u32 \<Rightarrow> u32 \<Rightarrow> u16 \<Rightarrow> u16 \<Rightarrow> 's \<Rightarrow> 's option) \<Rightarrow> 's \<Rightarrow> 's option" where
  "TPG_FOREACH_CB_IN_RANGE sips dips sports dports body =
     TPG_IPV4_FOREACH dips (\<lambda>dip. TPG_PORT_FOREACH dports (\<lambda>dport.
       TPG_IPV4_FOREACH sips (\<lambda>sip. TPG_PORT_FOREACH sports (\<lambda>sport. body sip dip sport dport))))"

subsection \<open>Test cases\<close>

datatype l4_proto = L4_PROTO__UDP | L4_PROTO__TCP | L4_PROTO__MAX

datatype test_case_type = TEST_CASE_TYPE__CLIENT | TEST_CASE_TYPE__SERVER | TEST_CASE_TYPE__MAX

record tpg_rate =
  has_r_value :: bool
  r_value :: u32

record tpg_client =
  cl_src_ips :: tpg_ip_range
  cl_dst_ips :: tpg_ip_range
  l4c_proto :: l4_proto
  tuc_sports :: tpg_l4_port_range
  tuc_dports :: tpg_l4_port_range
  rc_open_rate :: tpg_rate
  rc_close_rate :: tpg_rate
  rc_send_rate :: tpg_rate
  cl_mcast_src :: bool

record tpg_server =
  srv_ips :: tpg_ip_range
  l4s_proto :: l4_proto
  tus_ports :: tpg_l4_port_range

text \<open>The value is one 64 bit field, of which all but \<open>tc_data_mb_sent\<close> use 32 bits.\<close>

datatype test_criteria =
    CRIT_RUN_TIME u32 | CRIT_SRV_UP u32 | CRIT_CL_UP u32 | CRIT_CL_ESTAB u32 | CRIT_DATA_MB u64

record 'app tpg_test_case =
  tc_type :: test_case_type
  tc_eth_port :: u32
  tc_id :: u32
  tc_client :: tpg_client
  tc_server :: tpg_server
  has_tc_init_delay :: bool
  has_tc_uptime :: bool
  has_tc_downtime :: bool
  tc_init_delay :: tpg_delay
  tc_uptime :: tpg_delay
  tc_downtime :: tpg_delay
  tc_app :: 'app
  tc_criteria :: test_criteria
  tc_async :: bool
  has_tc_latency :: bool
  tc_latency :: test_case_latency

definition TPG_TEST_MAX_ENTRIES :: u32 where "TPG_TEST_MAX_ENTRIES = 16"

subsection \<open>The sessions of a test case\<close>

text \<open>The queue a hash is delivered to, for the size of the indirection table and the queues of the port.\<close>

definition tlkp_get_qindex_from_hash :: "u16 \<Rightarrow> u32 \<Rightarrow> u32 \<Rightarrow> u32" where
  "tlkp_get_qindex_from_hash reta_size qcnt hash = (hash mod ucast reta_size) mod qcnt"

text \<open>The callback gets the two addresses, the two ports and the hash. The parameters are the
  tables of the hash, the indirection table, the queues of the port and the queue of this core.\<close>

definition test_case_for_each_client ::
  "'a prm \<Rightarrow> u16 \<Rightarrow> u32 \<Rightarrow> u32 \<Rightarrow> tpg_client \<Rightarrow> (u32 \<Rightarrow> u32 \<Rightarrow> u16 \<Rightarrow> u16 \<Rightarrow> u32 \<Rightarrow> 's \<Rightarrow> 's option)
     \<Rightarrow> 's \<Rightarrow> 's option" where
  "test_case_for_each_client P reta_size qcnt rx_queue_id client_cfg callback =
     TPG_FOREACH_CB_IN_RANGE (cl_src_ips client_cfg) (cl_dst_ips client_cfg)
       (tuc_sports client_cfg) (tuc_dports client_cfg)
       (\<lambda>src_ip dst_ip src_port dst_port s.
          let conn_hash = tlkp_calc_connection_hash P dst_ip src_ip dst_port src_port
          in if tlkp_get_qindex_from_hash reta_size qcnt conn_hash \<noteq> rx_queue_id then Some s
             else callback src_ip dst_ip src_port dst_port conn_hash s)"

definition test_case_client_cfg_count :: "tpg_client \<Rightarrow> u32" where
  "test_case_client_cfg_count client_cfg =
     TPG_IPV4_RANGE_SIZE (cl_src_ips client_cfg) * TPG_IPV4_RANGE_SIZE (cl_dst_ips client_cfg) *
     TPG_PORT_RANGE_SIZE (tuc_sports client_cfg) * TPG_PORT_RANGE_SIZE (tuc_dports client_cfg)"

definition test_case_init_state_client_counters_cb ::
  "u32 \<Rightarrow> u32 \<Rightarrow> u16 \<Rightarrow> u16 \<Rightarrow> u32 \<Rightarrow> u32 \<Rightarrow> u32 option" where
  "test_case_init_state_client_counters_cb src_ip dst_ip src_port dst_port conn_hash local_sessions =
     Some (local_sessions + 1)"

definition test_case_for_each_server ::
  "tpg_server \<Rightarrow> (u32 \<Rightarrow> u32 \<Rightarrow> u16 \<Rightarrow> u16 \<Rightarrow> u32 \<Rightarrow> 's \<Rightarrow> 's option) \<Rightarrow> 's \<Rightarrow> 's option" where
  "test_case_for_each_server server_cfg callback =
     TPG_IPV4_FOREACH (srv_ips server_cfg)
       (\<lambda>src_ip. TPG_PORT_FOREACH (tus_ports server_cfg) (\<lambda>src_port. callback src_ip 0 src_port 0 0))"

definition test_case_server_cfg_count :: "tpg_server \<Rightarrow> u32" where
  "test_case_server_cfg_count server_cfg =
     TPG_IPV4_RANGE_SIZE (srv_ips server_cfg) * TPG_PORT_RANGE_SIZE (tus_ports server_cfg)"

subsection \<open>Checks\<close>

definition test_mgmt_validate_test_case_id :: "u32 \<Rightarrow> bool" where
  "test_mgmt_validate_test_case_id test_case_id \<longleftrightarrow> \<not> test_case_id \<ge> TPG_TEST_MAX_ENTRIES"

definition test_mgmt_validate_ip_range :: "tpg_ip_range \<Rightarrow> bool" where
  "test_mgmt_validate_ip_range r \<longleftrightarrow> TPG_IP_GE (ipr_end r) (ipr_start r)"

definition test_mgmt_validate_ip_unicast_range :: "tpg_ip_range \<Rightarrow> bool" where
  "test_mgmt_validate_ip_unicast_range r =
     (if \<not> test_mgmt_validate_ip_range r then False
      else if TPG_IP_GE (ipr_start r) TPG_IP_MCAST_MIN \<and> TPG_IP_GE TPG_IP_MCAST_MAX (ipr_end r) then False
      else if TPG_IP_GE (ipr_end r) TPG_IP_MCAST_MIN \<and> TPG_IP_GE TPG_IP_MCAST_MAX (ipr_end r) then False
      else if TPG_IP_GE (ipr_end r) TPG_IP_MCAST_MAX \<and> TPG_IP_GE TPG_IP_MCAST_MIN (ipr_start r) then False
      else if TPG_IP_BCAST (ipr_end r) then False
      else True)"

definition test_mgmt_validate_ip_mcast_range :: "tpg_ip_range \<Rightarrow> bool" where
  "test_mgmt_validate_ip_mcast_range r \<longleftrightarrow>
     test_mgmt_validate_ip_range r \<and> TPG_IP_MCAST (ipr_start r) \<and> TPG_IP_MCAST (ipr_end r)"

definition test_mgmt_validate_l4port_range :: "tpg_l4_port_range \<Rightarrow> bool" where
  "test_mgmt_validate_l4port_range r \<longleftrightarrow>
     l4pr_start r \<le> 0xFFFF \<and> l4pr_end r \<le> 0xFFFF \<and> l4pr_end r \<ge> l4pr_start r"

definition test_mgmt_validate_client_l4 :: "tpg_client \<Rightarrow> bool" where
  "test_mgmt_validate_client_l4 cfg =
     (if l4c_proto cfg = L4_PROTO__TCP \<or> l4c_proto cfg = L4_PROTO__UDP
      then if \<not> test_mgmt_validate_l4port_range (tuc_sports cfg) then False
           else if \<not> test_mgmt_validate_l4port_range (tuc_dports cfg) then False
           else True
      else False)"

definition test_mgmt_validate_test_case_client :: "tpg_client \<Rightarrow> bool" where
  "test_mgmt_validate_test_case_client cfg =
     (if \<not> test_mgmt_validate_ip_range (cl_src_ips cfg) then False
      else if \<not> test_mgmt_validate_ip_range (cl_dst_ips cfg) then False
      else if \<not> test_mgmt_validate_client_l4 cfg then False
      else if cl_mcast_src cfg \<and> \<not> test_mgmt_validate_ip_mcast_range (cl_dst_ips cfg) then False
      else if cl_mcast_src cfg \<and> l4c_proto cfg \<noteq> L4_PROTO__UDP then False
      else if \<not> cl_mcast_src cfg \<and> \<not> test_mgmt_validate_ip_unicast_range (cl_dst_ips cfg) then False
      else if \<not> test_mgmt_validate_ip_unicast_range (cl_src_ips cfg) then False
      else True)"

definition test_mgmt_validate_server_l4 :: "tpg_server \<Rightarrow> bool" where
  "test_mgmt_validate_server_l4 cfg =
     (if l4s_proto cfg = L4_PROTO__TCP \<or> l4s_proto cfg = L4_PROTO__UDP
      then test_mgmt_validate_l4port_range (tus_ports cfg) else False)"

definition test_mgmt_validate_test_case_server :: "'app tpg_test_case \<Rightarrow> bool" where
  "test_mgmt_validate_test_case_server cfg =
     (if \<not> test_mgmt_validate_ip_range (srv_ips (tc_server cfg)) then False
      else if \<not> test_mgmt_validate_server_l4 (tc_server cfg) then False
      else if has_tc_init_delay cfg \<or> has_tc_uptime cfg \<or> has_tc_downtime cfg then False
      else True)"

text \<open>An absent number of samples is 0.\<close>

definition test_mgmt_validate_latency :: "'app tpg_test_case \<Rightarrow> bool" where
  "test_mgmt_validate_latency cfg =
     (if \<not> has_tc_latency cfg then True
      else \<not> (case tcs_samples (tc_latency cfg) of None \<Rightarrow> 0 | Some n \<Rightarrow> n) > of_nat TPG_TSTAMP_SAMPLES_MAX_BUFSIZE)"

text \<open>The number of ports, and what the application says of its configuration, are arguments.\<close>

definition test_mgmt_validate_port_id :: "u32 \<Rightarrow> u32 \<Rightarrow> bool" where
  "test_mgmt_validate_port_id dev_count eth_port \<longleftrightarrow> \<not> eth_port \<ge> dev_count"

definition test_mgmt_validate_test_case :: "u32 \<Rightarrow> ('app tpg_test_case \<Rightarrow> bool) \<Rightarrow> 'app tpg_test_case \<Rightarrow> bool" where
  "test_mgmt_validate_test_case dev_count app_validate cfg =
     (if \<not> test_mgmt_validate_port_id dev_count (tc_eth_port cfg) then False
      else if \<not> test_mgmt_validate_test_case_id (tc_id cfg) then False
      else if \<not> test_mgmt_validate_latency cfg then False
      else if \<not> app_validate cfg then False
      else case tc_type cfg of
             TEST_CASE_TYPE__SERVER \<Rightarrow> test_mgmt_validate_test_case_server cfg
           | TEST_CASE_TYPE__CLIENT \<Rightarrow> test_mgmt_validate_test_case_client (tc_client cfg)
           | TEST_CASE_TYPE__MAX \<Rightarrow> False)"

end
