(* ===== verification/TestCfgProps.thy ===== *)
theory TestCfgProps
  imports TestCfg Examples
begin

text \<open>
  Properties of the walks over the sessions of a test case: what they visit, how the cores divide
  it, and the ranges on which they do not return.
\<close>

subsection \<open>Loops as folds over lists\<close>

primrec walk :: "('x \<Rightarrow> 's \<Rightarrow> 's option) \<Rightarrow> 'x list \<Rightarrow> 's \<Rightarrow> 's option" where
  "walk f [] s = Some s"
| "walk f (x # xs) s = Option.bind (f x s) (walk f xs)"

lemma walk_append: "walk f (xs @ ys) s = Option.bind (walk f xs s) (walk f ys)"
  by (induction xs arbitrary: s) (auto split: bind_splits)

lemma walk_concat: "walk f (concat (map g xs)) = walk (\<lambda>x. walk f (g x)) xs"
proof (induction xs)
  case (Cons x xs)
  show ?case by (rule ext) (simp add: walk_append Cons.IH)
qed (simp add: fun_eq_iff)

lemma walk_map: "walk f (map g xs) = walk (\<lambda>x. f (g x)) xs"
proof (induction xs)
  case (Cons x xs)
  show ?case by (rule ext) (simp add: Cons.IH)
qed (simp add: fun_eq_iff)

lemma walk_filter: "walk (\<lambda>x s. if P x then f x s else Some s) xs s = walk f (filter P xs) s"
  by (induction xs arbitrary: s) (auto split: bind_splits)

lemma walk_count: "walk (\<lambda>_ n. Some (n + 1)) xs n = Some (n + of_nat (length xs))"
  by (induction xs arbitrary: n) (auto simp: add.assoc)

definition ip_list :: "tpg_ip_range \<Rightarrow> u32 list" where
  "ip_list r = map of_nat [unat (ip_v4 (ipr_start r))..<Suc (unat (ip_v4 (ipr_end r)))]"

definition port_list :: "tpg_l4_port_range \<Rightarrow> u16 list" where
  "port_list r = map of_nat [unat (l4pr_start r)..<Suc (unat (l4pr_end r))]"

lemma ipv4_loop_walk:
  assumes "unat hi < 2 ^ 32 - 1"
  shows "ipv4_loop hi body ip s = walk body (map of_nat [unat ip..<Suc (unat hi)]) s"
proof (induction "Suc (unat hi) - unat ip" arbitrary: ip s)
  case 0
  then show ?case by (subst ipv4_loop.simps) (simp add: word_le_nat_alt)
next
  case (Suc n)
  then have le: "unat ip \<le> unat hi" by simp
  then have p: "unat (ip + 1) = Suc (unat ip)" using assms by (simp add: unat_word_ariths)
  have "ipv4_loop hi body (ip + 1) s' = walk body (map of_nat [Suc (unat ip)..<Suc (unat hi)]) s'" for s'
    using Suc(1) [of "ip + 1" s'] Suc(2) p by simp
  then have "ipv4_loop hi body (ip + 1) = walk body (map of_nat [Suc (unat ip)..<Suc (unat hi)])" by (rule ext)
  moreover have "[unat ip..<Suc (unat hi)] = unat ip # [Suc (unat ip)..<Suc (unat hi)]"
    using le by (simp add: upt_conv_Cons)
  ultimately show ?case using le by (subst ipv4_loop.simps) (simp add: word_le_nat_alt del: upt_Suc)
qed

lemma ucast_u16_le: "ucast (p :: u16) \<le> (hi :: u32) \<longleftrightarrow> unat p \<le> unat hi"
proof -
  have "unat (ucast p :: u32) = unat p"
    using unsigned_less [of p, where 'a = nat] by (simp add: unsigned_ucast_eq take_bit_nat_eq_self)
  then show ?thesis by (simp add: word_le_nat_alt)
qed

lemma port_loop_walk:
  assumes "unat hi < 2 ^ 16 - 1"
  shows "port_loop hi body p s = walk body (map of_nat [unat p..<Suc (unat hi)]) s"
proof (induction "Suc (unat hi) - unat p" arbitrary: p s)
  case 0
  then show ?case by (subst port_loop.simps) (simp add: ucast_u16_le)
next
  case (Suc n)
  then have le: "unat p \<le> unat hi" by simp
  then have p: "unat (p + 1) = Suc (unat p)" using assms by (simp add: unat_word_ariths)
  have "port_loop hi body (p + 1) s' = walk body (map of_nat [Suc (unat p)..<Suc (unat hi)]) s'" for s'
    using Suc(1) [of "p + 1" s'] Suc(2) p by simp
  then have "port_loop hi body (p + 1) = walk body (map of_nat [Suc (unat p)..<Suc (unat hi)])" by (rule ext)
  moreover have "[unat p..<Suc (unat hi)] = unat p # [Suc (unat p)..<Suc (unat hi)]"
    using le by (simp add: upt_conv_Cons)
  ultimately show ?case using le by (subst port_loop.simps) (simp add: ucast_u16_le del: upt_Suc)
qed

lemma TPG_IPV4_FOREACH_walk:
  "unat (ip_v4 (ipr_end r)) < 2 ^ 32 - 1 \<Longrightarrow> TPG_IPV4_FOREACH r body = walk body (ip_list r)"
  by (rule ext) (simp only: TPG_IPV4_FOREACH_def ip_list_def ipv4_loop_walk)

lemma TPG_PORT_FOREACH_walk:
  assumes "unat (l4pr_end r) < 2 ^ 16 - 1" and "unat (l4pr_start r) < 2 ^ 16"
  shows "TPG_PORT_FOREACH r body = walk body (port_list r)"
proof (rule ext)
  fix s
  have "unat (ucast (l4pr_start r) :: u16) = unat (l4pr_start r)"
    using assms(2) by (simp add: unsigned_ucast_eq take_bit_nat_eq_self)
  with assms(1) show "TPG_PORT_FOREACH r body s = walk body (port_list r) s"
    by (simp only: TPG_PORT_FOREACH_def port_list_def port_loop_walk)
qed

subsection \<open>Loops that do not return\<close>

lemma port_loop_returns:
  assumes "port_loop hi body p s = Some y"
  shows "unat hi < 2 ^ 16 - 1"
proof (rule port_loop.raw_induct [where P = "\<lambda>(hi :: u32) _ _ _ _. unat hi < 2 ^ 16 - 1", OF _ assms])
  fix f body s y and hi :: u32 and p :: u16
  assume IH: "\<And>(hi :: u32) body p s y. f hi body p s = Some y \<Longrightarrow> unat hi < 2 ^ 16 - 1"
    and y: "(if ucast p \<le> hi then Option.bind (body p s) (f hi body (p + 1)) else Some s) = Some y"
  show "unat hi < 2 ^ 16 - 1"
  proof (cases "unat p \<le> unat hi")
    case True
    with y have "Option.bind (body p s) (f hi body (p + 1)) = Some y" by (simp add: ucast_u16_le)
    then show ?thesis using IH by (auto simp: bind_eq_Some_conv)
  next
    case False
    with unsigned_less [of p, where 'a = nat] show ?thesis by simp
  qed
qed

lemma port_loop_never: "unat hi \<ge> 2 ^ 16 - 1 \<Longrightarrow> port_loop hi body p s = None"
  using port_loop_returns by (cases "port_loop hi body p s") fastforce+

lemma ipv4_loop_returns:
  assumes "ipv4_loop hi body p s = Some y"
  shows "unat hi < 2 ^ 32 - 1"
proof (rule ipv4_loop.raw_induct [where P = "\<lambda>(hi :: u32) _ _ _ _. unat hi < 2 ^ 32 - 1", OF _ assms])
  fix f body s y and hi p :: u32
  assume IH: "\<And>(hi :: u32) body p s y. f hi body p s = Some y \<Longrightarrow> unat hi < 2 ^ 32 - 1"
    and y: "(if p \<le> hi then Option.bind (body p s) (f hi body (p + 1)) else Some s) = Some y"
  show "unat hi < 2 ^ 32 - 1"
  proof (cases "unat p \<le> unat hi")
    case True
    with y have "Option.bind (body p s) (f hi body (p + 1)) = Some y" by (simp add: word_le_nat_alt)
    then show ?thesis using IH by (auto simp: bind_eq_Some_conv)
  next
    case False
    with unsigned_less [of p, where 'a = nat] show ?thesis by simp
  qed
qed

subsection \<open>The sessions of a client test case\<close>

text \<open>Every combination of the four ranges, in the order of the loops.\<close>

type_synonym sess_tuple = "u32 \<times> u32 \<times> u16 \<times> u16"

definition client_sessions :: "tpg_client \<Rightarrow> sess_tuple list" where
  "client_sessions cfg =
     concat (map (\<lambda>dip. concat (map (\<lambda>dport. concat (map (\<lambda>sip.
       map (\<lambda>sport. (sip, dip, sport, dport)) (port_list (tuc_sports cfg))) (ip_list (cl_src_ips cfg))))
         (port_list (tuc_dports cfg)))) (ip_list (cl_dst_ips cfg)))"

text \<open>The ranges the loops end on.\<close>

definition client_ends :: "tpg_client \<Rightarrow> bool" where
  "client_ends cfg \<longleftrightarrow>
     unat (ip_v4 (ipr_end (cl_src_ips cfg))) < 2 ^ 32 - 1 \<and> unat (ip_v4 (ipr_end (cl_dst_ips cfg))) < 2 ^ 32 - 1 \<and>
     unat (l4pr_end (tuc_sports cfg)) < 2 ^ 16 - 1 \<and> unat (l4pr_end (tuc_dports cfg)) < 2 ^ 16 - 1 \<and>
     unat (l4pr_start (tuc_sports cfg)) < 2 ^ 16 \<and> unat (l4pr_start (tuc_dports cfg)) < 2 ^ 16"

definition session_queue :: "'a prm \<Rightarrow> u16 \<Rightarrow> u32 \<Rightarrow> sess_tuple \<Rightarrow> u32" where
  "session_queue P reta qcnt = (\<lambda>(sip, dip, sport, dport).
     tlkp_get_qindex_from_hash reta qcnt (tlkp_calc_connection_hash P dip sip dport sport))"

definition queue_sessions :: "'a prm \<Rightarrow> u16 \<Rightarrow> u32 \<Rightarrow> u32 \<Rightarrow> tpg_client \<Rightarrow> sess_tuple list" where
  "queue_sessions P reta qcnt q cfg = filter (\<lambda>t. session_queue P reta qcnt t = q) (client_sessions cfg)"

lemma if_neq_swap: "(if a \<noteq> b then x else y) = (if a = b then y else x)"
  by simp

lemma for_each_client_walk:
  assumes "client_ends cfg"
  shows "test_case_for_each_client P reta qcnt q cfg callback =
           walk (\<lambda>(sip, dip, sport, dport). callback sip dip sport dport
                   (tlkp_calc_connection_hash P dip sip dport sport)) (queue_sessions P reta qcnt q cfg)"
proof (rule ext)
  fix s
  let ?f = "\<lambda>(sip, dip, sport, dport) s.
      if session_queue P reta qcnt (sip, dip, sport, dport) = q
      then callback sip dip sport dport (tlkp_calc_connection_hash P dip sip dport sport) s else Some s"
  have "test_case_for_each_client P reta qcnt q cfg callback s = walk ?f (client_sessions cfg) s"
    using assms
    by (simp add: test_case_for_each_client_def TPG_FOREACH_CB_IN_RANGE_def TPG_IPV4_FOREACH_walk
        TPG_PORT_FOREACH_walk client_ends_def client_sessions_def session_queue_def Let_def
        walk_concat walk_map if_neq_swap)
  also have "\<dots> = walk (\<lambda>(sip, dip, sport, dport). callback sip dip sport dport
                   (tlkp_calc_connection_hash P dip sip dport sport)) (queue_sessions P reta qcnt q cfg) s"
    unfolding queue_sessions_def walk_filter [symmetric]
    by (rule arg_cong [where f = "\<lambda>f. walk f (client_sessions cfg) s"]) (auto simp: fun_eq_iff)
  finally show "test_case_for_each_client P reta qcnt q cfg callback s = \<dots>" .
qed

lemma ip_list_set:
  "set (ip_list r) = {ip. ip_v4 (ipr_start r) \<le> ip \<and> ip \<le> ip_v4 (ipr_end r)}" and
  ip_list_distinct: "distinct (ip_list r)" and
  ip_list_length: "length (ip_list r) = Suc (unat (ip_v4 (ipr_end r))) - unat (ip_v4 (ipr_start r))"
proof -
  have lt: "n < Suc (unat (ip_v4 (ipr_end r))) \<Longrightarrow> unat (of_nat n :: u32) = n" for n
    using unat_u32_less [of "ip_v4 (ipr_end r)"] by (intro unat_of_nat_small) simp
  show "set (ip_list r) = {ip. ip_v4 (ipr_start r) \<le> ip \<and> ip \<le> ip_v4 (ipr_end r)}"
  proof (intro set_eqI iffI)
    fix ip assume "ip \<in> set (ip_list r)"
    then show "ip \<in> {ip. ip_v4 (ipr_start r) \<le> ip \<and> ip \<le> ip_v4 (ipr_end r)}"
      using lt by (auto simp: ip_list_def word_le_nat_alt simp del: upt_Suc)
  next
    fix ip assume "ip \<in> {ip. ip_v4 (ipr_start r) \<le> ip \<and> ip \<le> ip_v4 (ipr_end r)}"
    then have "unat ip \<in> set [unat (ip_v4 (ipr_start r))..<Suc (unat (ip_v4 (ipr_end r)))]"
      by (auto simp: word_le_nat_alt)
    then have "of_nat (unat ip) \<in> set (ip_list r)" unfolding ip_list_def set_map by (rule imageI)
    then show "ip \<in> set (ip_list r)" by simp
  qed
  show "distinct (ip_list r)"
    using lt by (auto simp: ip_list_def distinct_map inj_on_def simp del: upt_Suc) metis
  show "length (ip_list r) = Suc (unat (ip_v4 (ipr_end r))) - unat (ip_v4 (ipr_start r))"
    by (simp add: ip_list_def del: upt_Suc)
qed

lemma unat_ucast_u16_u32: "unat (ucast (p :: u16) :: u32) = unat p"
  using unsigned_less [of p, where 'a = nat] by (simp add: unsigned_ucast_eq take_bit_nat_eq_self)

lemma port_list_set:
  assumes "unat (l4pr_end r) < 2 ^ 16"
  shows "set (port_list r) = {p. l4pr_start r \<le> ucast p \<and> ucast p \<le> l4pr_end r}"
    and "distinct (port_list r)"
    and "length (port_list r) = Suc (unat (l4pr_end r)) - unat (l4pr_start r)"
proof -
  have lt: "n < Suc (unat (l4pr_end r)) \<Longrightarrow> unat (of_nat n :: u16) = n" for n
    using assms by (intro unat_of_nat_small) simp
  show "set (port_list r) = {p. l4pr_start r \<le> ucast p \<and> ucast p \<le> l4pr_end r}"
  proof (intro set_eqI iffI)
    fix p :: u16 assume "p \<in> set (port_list r)"
    then show "p \<in> {p. l4pr_start r \<le> ucast p \<and> ucast p \<le> l4pr_end r}"
      using lt by (auto simp: port_list_def word_le_nat_alt unat_ucast_u16_u32 simp del: upt_Suc)
  next
    fix p :: u16 assume "p \<in> {p. l4pr_start r \<le> ucast p \<and> ucast p \<le> l4pr_end r}"
    then have "unat p \<in> set [unat (l4pr_start r)..<Suc (unat (l4pr_end r))]"
      by (auto simp: word_le_nat_alt unat_ucast_u16_u32)
    then have "of_nat (unat p) \<in> set (port_list r)" unfolding port_list_def set_map by (rule imageI)
    then show "p \<in> set (port_list r)" by simp
  qed
  show "distinct (port_list r)"
    using lt by (auto simp: port_list_def distinct_map inj_on_def simp del: upt_Suc) metis
  show "length (port_list r) = Suc (unat (l4pr_end r)) - unat (l4pr_start r)"
    by (simp add: port_list_def del: upt_Suc)
qed

lemma distinct_concat_pairs:
  assumes "distinct xs" and "\<And>x. x \<in> set xs \<Longrightarrow> distinct (g x)"
    and "\<And>x y. x \<in> set xs \<Longrightarrow> y \<in> set xs \<Longrightarrow> x \<noteq> y \<Longrightarrow> set (g x) \<inter> set (g y) = {}"
  shows "distinct (concat (map g xs))"
  using assms
proof (induction xs)
  case (Cons x xs)
  then show ?case by (auto simp: disjoint_iff)
qed simp

lemma client_sessions_distinct:
  assumes "client_ends cfg"
  shows "distinct (client_sessions cfg)"
  using assms unfolding client_sessions_def
  by (intro distinct_concat_pairs ip_list_distinct port_list_set) (auto simp: distinct_map inj_on_def client_ends_def port_list_set)

lemma length_concat_const: "(\<And>x. x \<in> set xs \<Longrightarrow> length (g x) = n) \<Longrightarrow> length (concat (map g xs)) = length xs * n"
  by (induction xs) auto

lemma client_sessions_length:
  "length (client_sessions cfg) =
     length (ip_list (cl_dst_ips cfg)) * (length (port_list (tuc_dports cfg)) *
       (length (ip_list (cl_src_ips cfg)) * length (port_list (tuc_sports cfg))))"
  unfolding client_sessions_def by (simp add: length_concat_const)

lemma client_sessions_set:
  assumes "client_ends cfg"
  shows "set (client_sessions cfg) = {(sip, dip, sport, dport).
     ip_v4 (ipr_start (cl_src_ips cfg)) \<le> sip \<and> sip \<le> ip_v4 (ipr_end (cl_src_ips cfg)) \<and>
     ip_v4 (ipr_start (cl_dst_ips cfg)) \<le> dip \<and> dip \<le> ip_v4 (ipr_end (cl_dst_ips cfg)) \<and>
     l4pr_start (tuc_sports cfg) \<le> ucast sport \<and> ucast sport \<le> l4pr_end (tuc_sports cfg) \<and>
     l4pr_start (tuc_dports cfg) \<le> ucast dport \<and> ucast dport \<le> l4pr_end (tuc_dports cfg)}"
  using assms by (auto simp: client_sessions_def ip_list_set port_list_set client_ends_def)

subsection \<open>Properties\<close>

lemma validated_starts:
  assumes "test_mgmt_validate_test_case_client cfg"
  shows "ip_v4 (ipr_start (cl_src_ips cfg)) \<le> ip_v4 (ipr_end (cl_src_ips cfg))"
    and "ip_v4 (ipr_start (cl_dst_ips cfg)) \<le> ip_v4 (ipr_end (cl_dst_ips cfg))"
    and "test_mgmt_validate_l4port_range (tuc_sports cfg)"
    and "test_mgmt_validate_l4port_range (tuc_dports cfg)"
  using assms
  by (auto simp: test_mgmt_validate_test_case_client_def test_mgmt_validate_ip_range_def TPG_IP_GE_def
      TPG_IP_GT_def TPG_IP_EQ_def test_mgmt_validate_client_l4_def split: if_splits)

lemma range_size_word:
  fixes a b :: u32
  assumes "a \<le> b" and "unat b < 2 ^ 32 - 1"
  shows "unat (b - a + 1) = Suc (unat b) - unat a"
proof -
  have "unat (b - a) = unat b - unat a" using assms(1) by (rule unat_sub)
  then have "unat (b - a) + 1 < 2 ^ 32" using assms(2) by simp
  then show ?thesis using \<open>unat (b - a) = unat b - unat a\<close> assms(1)
    by (simp add: unat_word_ariths word_le_nat_alt Suc_diff_le)
qed

lemma range_size_ip:
  assumes "ip_v4 (ipr_start r) \<le> ip_v4 (ipr_end r)" and "unat (ip_v4 (ipr_end r)) < 2 ^ 32 - 1"
  shows "unat (TPG_IPV4_RANGE_SIZE r) = length (ip_list r)"
  unfolding TPG_IPV4_RANGE_SIZE_def ip_list_length by (rule range_size_word [OF assms])

lemma range_size_port:
  assumes "l4pr_start r \<le> l4pr_end r" and "unat (l4pr_end r) < 2 ^ 16 - 1"
  shows "unat (TPG_PORT_RANGE_SIZE r) = length (port_list r)"
proof -
  have "unat (l4pr_end r) < 2 ^ 16" and "unat (l4pr_end r) < 2 ^ 32 - 1" using assms(2) by simp_all
  then show ?thesis unfolding TPG_PORT_RANGE_SIZE_def port_list_set(3) [OF \<open>_ < 2 ^ 16\<close>]
    by (intro range_size_word assms(1))
qed

lemma length_filter_split:
  fixes f :: "'x \<Rightarrow> nat"
  assumes "\<forall>x \<in> set xs. f x < n"
  shows "length xs = (\<Sum>q<n. length (filter (\<lambda>x. f x = q) xs))"
  using assms
proof (induction xs)
  case (Cons x xs)
  have "(\<Sum>q<n. length (filter (\<lambda>x. f x = q) (x # xs))) =
      (\<Sum>q<n. (if f x = q then 1 else 0) + length (filter (\<lambda>x. f x = q) xs))"
    by (intro sum.cong) auto
  also have "\<dots> = (\<Sum>q<n. if f x = q then 1 else 0) + (\<Sum>q<n. length (filter (\<lambda>x. f x = q) xs))"
    by (rule sum.distrib)
  also have "\<dots> = 1 + length xs"
    using Cons by (subst sum.delta') (auto simp only: finite_lessThan lessThan_iff list.set ball_simps insert_iff if_True)
  finally show ?case by simp
qed simp

lemma client_counters_walk:
  assumes "client_ends cfg"
  shows "test_case_for_each_client P reta qcnt q cfg test_case_init_state_client_counters_cb 0 =
           Some (of_nat (length (queue_sessions P reta qcnt q cfg)))"
proof -
  have "(\<lambda>(sip, dip, sport, dport). test_case_init_state_client_counters_cb sip dip sport dport
           (tlkp_calc_connection_hash P dip sip dport sport)) = (\<lambda>_ n. Some (n + 1))"
    by (auto simp: test_case_init_state_client_counters_cb_def fun_eq_iff)
  then show ?thesis unfolding for_each_client_walk [OF assms] by (simp only: walk_count) simp
qed

lemma session_queue_less: "0 < qcnt \<Longrightarrow> session_queue P reta qcnt t < qcnt"
  by (cases t) (simp add: session_queue_def tlkp_get_qindex_from_hash_def word_less_nat_alt unat_mod)

lemma queue_sessions_sum:
  assumes "0 < qcnt"
  shows "length (client_sessions cfg) = (\<Sum>q<unat qcnt. length (queue_sessions P reta qcnt (of_nat q) cfg))"
proof -
  have "length (client_sessions cfg) =
      (\<Sum>q<unat qcnt. length (filter (\<lambda>t. unat (session_queue P reta qcnt t) = q) (client_sessions cfg)))"
    by (intro length_filter_split ballI unat_mono session_queue_less assms)
  also have "\<dots> = (\<Sum>q<unat qcnt. length (queue_sessions P reta qcnt (of_nat q) cfg))"
  proof (intro sum.cong refl)
    fix q assume "q \<in> {..<unat qcnt}"
    then have "unat (of_nat q :: u32) = q"
      using unat_u32_less [of qcnt] by (intro unat_of_nat_small) simp
    then have "unat (session_queue P reta qcnt t) = q \<longleftrightarrow> session_queue P reta qcnt t = of_nat q" for t
      by (metis word_unat_eq_iff)
    then show "length (filter (\<lambda>t. unat (session_queue P reta qcnt t) = q) (client_sessions cfg)) =
        length (queue_sessions P reta qcnt (of_nat q) cfg)"
      by (simp add: queue_sessions_def)
  qed
  finally show ?thesis .
qed

lemma client_cfg_count_length:
  assumes "test_mgmt_validate_test_case_client cfg" and "client_ends cfg"
    and "length (client_sessions cfg) < 2 ^ 32"
  shows "unat (test_case_client_cfg_count cfg) = length (client_sessions cfg)"
proof -
  note v = validated_starts [OF assms(1)]
  have s: "unat (TPG_IPV4_RANGE_SIZE (cl_src_ips cfg)) = length (ip_list (cl_src_ips cfg))"
    "unat (TPG_IPV4_RANGE_SIZE (cl_dst_ips cfg)) = length (ip_list (cl_dst_ips cfg))"
    "unat (TPG_PORT_RANGE_SIZE (tuc_sports cfg)) = length (port_list (tuc_sports cfg))"
    "unat (TPG_PORT_RANGE_SIZE (tuc_dports cfg)) = length (port_list (tuc_dports cfg))"
    using v assms(2)
    by (auto simp: client_ends_def test_mgmt_validate_l4port_range_def intro!: range_size_ip range_size_port)
  have "unat (test_case_client_cfg_count cfg) =
      (unat (TPG_IPV4_RANGE_SIZE (cl_src_ips cfg)) * unat (TPG_IPV4_RANGE_SIZE (cl_dst_ips cfg)) *
       unat (TPG_PORT_RANGE_SIZE (tuc_sports cfg)) * unat (TPG_PORT_RANGE_SIZE (tuc_dports cfg))) mod 2 ^ 32"
    by (simp add: test_case_client_cfg_count_def unat_word_ariths mod_mult_left_eq mod_mult_right_eq)
  with assms(3) show ?thesis
    unfolding s client_sessions_length by (simp add: ac_simps)
qed

text \<open>
  C25: The sessions of a client test case are the combinations of its four ranges, each once, and the
  receive queues of the port divide them: a core walks exactly the sessions whose packets come
  back on its queue, every session belongs to one queue, and the counts of the cores add up to the
  number that the test manager computes from the ranges.
\<close>

theorem client_sessions_divided:
  assumes "test_mgmt_validate_test_case_client cfg" and "client_ends cfg" and "0 < qcnt"
    and "length (client_sessions cfg) < 2 ^ 32"
  shows "distinct (client_sessions cfg) \<and>
    (\<forall>q callback. test_case_for_each_client P reta qcnt q cfg callback =
       walk (\<lambda>(sip, dip, sport, dport). callback sip dip sport dport
               (tlkp_calc_connection_hash P dip sip dport sport)) (queue_sessions P reta qcnt q cfg)) \<and>
    (\<forall>q. test_case_for_each_client P reta qcnt q cfg test_case_init_state_client_counters_cb 0 =
       Some (of_nat (length (queue_sessions P reta qcnt q cfg)))) \<and>
    (\<forall>t \<in> set (client_sessions cfg). \<exists>!q. q < qcnt \<and> t \<in> set (queue_sessions P reta qcnt q cfg)) \<and>
    unat (test_case_client_cfg_count cfg) =
      (\<Sum>q<unat qcnt. length (queue_sessions P reta qcnt (of_nat q) cfg))"
proof (intro conjI allI ballI)
  show "distinct (client_sessions cfg)" by (rule client_sessions_distinct [OF assms(2)])
  show "test_case_for_each_client P reta qcnt q cfg callback =
       walk (\<lambda>(sip, dip, sport, dport). callback sip dip sport dport
               (tlkp_calc_connection_hash P dip sip dport sport)) (queue_sessions P reta qcnt q cfg)"
    for q and callback :: "u32 \<Rightarrow> u32 \<Rightarrow> u16 \<Rightarrow> u16 \<Rightarrow> u32 \<Rightarrow> 's \<Rightarrow> 's option"
    by (rule for_each_client_walk [OF assms(2)])
  show "test_case_for_each_client P reta qcnt q cfg test_case_init_state_client_counters_cb 0 =
       Some (of_nat (length (queue_sessions P reta qcnt q cfg)))" for q
    by (rule client_counters_walk [OF assms(2)])
  show "\<exists>!q. q < qcnt \<and> t \<in> set (queue_sessions P reta qcnt q cfg)" if "t \<in> set (client_sessions cfg)" for t
    using that by (auto simp: queue_sessions_def session_queue_less [OF assms(3)])
  show "unat (test_case_client_cfg_count cfg) =
      (\<Sum>q<unat qcnt. length (queue_sessions P reta qcnt (of_nat q) cfg))"
    unfolding client_cfg_count_length [OF assms(1,2,4)] by (rule queue_sessions_sum [OF assms(3)])
qed

definition two_ports :: tpg_client where
  "two_ports = \<lparr>cl_src_ips = TPG_IPV4_RANGE 0x0A000001 0x0A000001, cl_dst_ips = TPG_IPV4_RANGE 0x0A000002 0x0A000003,
     l4c_proto = L4_PROTO__TCP, tuc_sports = TPG_PORT_RANGE 10 11, tuc_dports = TPG_PORT_RANGE 80 80,
     rc_open_rate = \<lparr>has_r_value = False, r_value = 0\<rparr>, rc_close_rate = \<lparr>has_r_value = False, r_value = 0\<rparr>,
     rc_send_rate = \<lparr>has_r_value = False, r_value = 0\<rparr>, cl_mcast_src = False\<rparr>"

lemmas validate_client_simps =
  test_mgmt_validate_test_case_client_def test_mgmt_validate_ip_range_def test_mgmt_validate_client_l4_def
  test_mgmt_validate_l4port_range_def test_mgmt_validate_ip_unicast_range_def test_mgmt_validate_ip_mcast_range_def
  TPG_IPV4_RANGE_def TPG_PORT_RANGE_def TPG_IPV4_def TPG_IP_GE_def TPG_IP_GT_def TPG_IP_EQ_def
  TPG_IP_MCAST_MIN_def TPG_IP_MCAST_MAX_def TPG_IP_BCAST_def TPG_IP_MCAST_def

lemma two_ports_ok:
  "test_mgmt_validate_test_case_client two_ports" "client_ends two_ports" "length (client_sessions two_ports) = 4"
  by (simp_all add: two_ports_def validate_client_simps client_ends_def client_sessions_def ip_list_def port_list_def)

theorem client_sessions_divided_witness:
  "\<forall>P :: nat prm. unat (test_case_client_cfg_count two_ports) = 4 \<and>
   (\<Sum>q<2. length (queue_sessions P 128 2 (of_nat q) two_ports)) = 4"
proof
  fix P :: "nat prm"
  have c: "test_case_client_cfg_count two_ports = 4"
    by (simp add: two_ports_def test_case_client_cfg_count_def TPG_IPV4_RANGE_SIZE_def TPG_PORT_RANGE_SIZE_def
        TPG_IPV4_RANGE_def TPG_PORT_RANGE_def TPG_IPV4_def)
  have "unat (test_case_client_cfg_count two_ports) =
      (\<Sum>q<unat (2 :: u32). length (queue_sessions P 128 2 (of_nat q) two_ports))"
    by (rule client_sessions_divided [of two_ports 2 P 128, THEN conjunct2, THEN conjunct2, THEN conjunct2, THEN conjunct2])
      (simp_all add: two_ports_ok)
  then show "unat (test_case_client_cfg_count two_ports) = 4 \<and>
      (\<Sum>q<2. length (queue_sessions P 128 2 (of_nat q) two_ports)) = 4" unfolding c by simp
qed

lemma ipv4_loop_first_none:
  "ip \<le> hi \<Longrightarrow> body ip s = None \<Longrightarrow> ipv4_loop hi body ip s = None"
  by (subst ipv4_loop.simps) simp

lemma port_loop_first_none:
  "ucast p \<le> hi \<Longrightarrow> body p s = None \<Longrightarrow> port_loop hi body p s = None"
  by (subst port_loop.simps) simp

lemma validated_ports:
  assumes "test_mgmt_validate_l4port_range r"
  shows "ucast (ucast (l4pr_start r) :: u16) \<le> l4pr_end r"
proof -
  have "unat (ucast (l4pr_start r :: u32) :: u16) = unat (l4pr_start r)"
    using assms by (simp add: test_mgmt_validate_l4port_range_def word_le_nat_alt unsigned_ucast_eq take_bit_nat_eq_self)
  moreover have "l4pr_start r \<le> l4pr_end r" using assms by (simp add: test_mgmt_validate_l4port_range_def)
  ultimately show ?thesis unfolding ucast_u16_le by (simp add: word_le_nat_alt)
qed

text \<open>
  A port range may end at 65535 (the check accepts it and the counts include it), but no walk
  over the sessions of such a client ends: the 16 bit counter wraps to 0 below the end of the
  range, whatever the callback does and on every queue.
\<close>

theorem port_range_65535_never_returns:
  assumes "test_mgmt_validate_test_case_client cfg"
    and "l4pr_end (tuc_sports cfg) = 0xFFFF \<or> l4pr_end (tuc_dports cfg) = 0xFFFF"
  shows "test_case_for_each_client P reta qcnt q cfg callback s = None"
proof -
  note v = validated_starts [OF assms(1)]
  note walk_defs = test_case_for_each_client_def TPG_FOREACH_CB_IN_RANGE_def TPG_IPV4_FOREACH_def TPG_PORT_FOREACH_def
  show ?thesis
  proof (cases "l4pr_end (tuc_dports cfg) = 0xFFFF")
    case True
    show ?thesis unfolding walk_defs
      by (intro ipv4_loop_first_none v port_loop_never) (simp add: True)
  next
    case False
    with assms(2) have "l4pr_end (tuc_sports cfg) = 0xFFFF" by simp
    then show ?thesis unfolding walk_defs
      by (intro ipv4_loop_first_none v port_loop_first_none [OF validated_ports] port_loop_never) simp
  qed
qed

theorem port_range_65535_never_returns_witness:
  "\<forall>(P :: nat prm) q. test_case_for_each_client P 128 2 q (two_ports\<lparr>tuc_sports := TPG_PORT_RANGE 65000 65535\<rparr>)
     test_case_init_state_client_counters_cb 0 = None"
  by (intro allI, rule port_range_65535_never_returns) (simp_all add: two_ports_def validate_client_simps)

end
