(* ===== verification/Runner.thy ===== *)
theory Runner
  imports TestCfg Rate Udp
begin

text \<open>
  The test case runners of a packet core (\<^verbatim>\<open>src/tpg_tests.c\<close>): the messages that open, close and send
  in batches bounded by a rate limit, the timers of the rates, the initialisation and the stop of a
  test case, and the requests for statistics.

  The code reaches a session through a table of callbacks per protocol; here it is the record
  \<open>session_ops\<close>, with one instance for TCP and one for UDP. What the application does when it is
  asked for data is the record \<open>app_send_ops\<close>; its statistics have the type \<open>'s\<close>. The operational
  state of a test case is \<open>test_case_info\<close> of the core (lists, flags, counters) and the record
  \<open>test_run\<close> for the rest of the structure. A loop over a list that its body must shorten is a
  \<open>partial_function\<close>. A timer of a rate is its period in cycles when it is armed.
\<close>

record test_rate_state =
  trs_open :: rate_limit
  trs_close :: rate_limit
  trs_send :: rate_limit

record test_rate_timers =
  trt_open_timer :: "u64 option"
  trt_close_timer :: "u64 option"
  trt_send_timer :: "u64 option"

record 'app test_case_init_msg =
  tcim_test_case :: "'app tpg_test_case"
  tcim_l4_type :: l4_proto
  tcim_sockopt :: sockopt
  tcim_rx_tstamp :: bool
  tcim_tx_tstamp :: bool
  tcim_open_rate :: rate_limit_cfg
  tcim_close_rate :: rate_limit_cfg
  tcim_send_rate :: rate_limit_cfg

record ('app, 's) test_run =
  tos_rates :: test_rate_state
  tci_rate_timers :: test_rate_timers
  tci_cfg :: "'app test_case_init_msg"
  tci_app_stats :: 's
  tci_gen_latency :: gen_latency_stats
  tci_latency_state :: latency_state
  rs_data_per_s :: u32
  rs_start_time :: u64
  rs_end_time :: u64
  tstamp_rx_on :: bool
  tstamp_tx_on :: bool
  tci_configured :: bool
  tci_running :: bool
  tci_stopping :: bool

record ('a, 's) app_send_ops =
  aps_send :: "'a \<Rightarrow> 's \<Rightarrow> u32 \<Rightarrow> (chain \<times> 'a \<times> 's \<times> app_notif list) option"
  aps_data_sent :: "'a \<Rightarrow> 's \<Rightarrow> u32 \<Rightarrow> (bool \<times> 'a \<times> 's \<times> app_notif list) option"
  aps_stats_init :: 's

text \<open>The callbacks, with the reading and writing of a control block.\<close>

record ('a, 'z, 'y) session_ops =
  so_get :: "'y core_env_scheme \<Rightarrow> cb_id \<Rightarrow> ('a, 'z) l4cb_scheme"
  so_set :: "cb_id \<Rightarrow> ('a, 'z) l4cb_scheme \<Rightarrow> 'y core_env_scheme \<Rightarrow> 'y core_env_scheme"
  tos_client_open_cb :: "cb_id \<Rightarrow> 'y core_env_scheme \<Rightarrow> (int \<times> 'y core_env_scheme) option"
  tos_client_close_cb :: "cb_id \<Rightarrow> 'y core_env_scheme \<Rightarrow> 'y core_env_scheme option"
  tos_session_mtu_cb :: "cb_id \<Rightarrow> 'y core_env_scheme \<Rightarrow> u32"
  tos_session_send_cb :: "cb_id \<Rightarrow> chain \<Rightarrow> 'y core_env_scheme \<Rightarrow> (int \<times> u32 \<times> 'y core_env_scheme) option"
  sess_purge :: "cb_id \<Rightarrow> 'y core_env_scheme \<Rightarrow> 'y core_env_scheme option"
  sess_htable_walk :: "u16 \<Rightarrow> 'y core_env_scheme \<Rightarrow> cb_id list"

definition so_on ::
  "('a, 'z, 'y) session_ops \<Rightarrow> ('a, 'z, 'y) sm_step \<Rightarrow> cb_id \<Rightarrow> 'y core_env_scheme
     \<Rightarrow> 'y core_env_scheme option" where
  "so_on K f x e = map_option (\<lambda>(cb, e). so_set K x cb e) (f (so_get K e x) e)"

definition upd_tci_at ::
  "u16 \<Rightarrow> u16 \<Rightarrow> (test_case_info \<Rightarrow> test_case_info) \<Rightarrow> 'y core_env_scheme \<Rightarrow> 'y core_env_scheme" where
  "upd_tci_at port tcid f e =
     e\<lparr>ce_tci := (ce_tci e)(port := (ce_tci e port)(tcid := f (ce_tci e port tcid)))\<rparr>"

subsection \<open>The callbacks of TCP\<close>

definition test_case_tcp_client_open :: "'a prm \<Rightarrow> cb_id \<Rightarrow> 'a env \<Rightarrow> (int \<times> 'a env) option" where
  "test_case_tcp_client_open P x e =
     (let t = e_tcbs e x
      in map_option (\<lambda>(r, _, e). (r, e))
           (tcp_open_v4_connection P (Some x) (l4cb_interface t) (l4cb_src_addr t) (l4cb_src_port t)
              (l4cb_dst_addr t) (l4cb_dst_port t) (l4cb_test_case_id t) (l4cb_app_data t) None
              TCG_CB_REUSE_CB e))"

definition test_case_tcp_mtu :: "cb_id \<Rightarrow> 'a env \<Rightarrow> u32" where
  "test_case_tcp_mtu x e = ucast (TCB_AVAIL_SEND (e_tcbs e x) e)"

definition test_case_tcp_send :: "'a prm \<Rightarrow> cb_id \<Rightarrow> chain \<Rightarrow> 'a env \<Rightarrow> (int \<times> u32 \<times> 'a env) option" where
  "test_case_tcp_send P x data_mbuf e =
     map_option (\<lambda>(r, e). (r, e_data_sent e, e))
       (tcp_send_v4 P x data_mbuf TCG_SEND_PSH (e\<lparr>e_data_sent := 0\<rparr>))"

definition test_case_tcp_close :: "'a prm \<Rightarrow> cb_id \<Rightarrow> 'a env \<Rightarrow> 'a env option" where
  "test_case_tcp_close P x e = map_option snd (tcp_close_connection P x 0 e)"

definition test_case_tcp_purge :: "'a prm \<Rightarrow> cb_id \<Rightarrow> 'a env \<Rightarrow> 'a env option" where
  "test_case_tcp_purge P x e =
     do {
       e \<leftarrow> (if tcb_state (e_tcbs e x) \<noteq> TS_INIT \<and> tcb_state (e_tcbs e x) \<noteq> TS_CLOSED
             then map_option snd (tcp_close_connection P x TCG_SILENT_CLOSE e) else Some e);
       Some (if \<not> tcb_malloced (e_tcbs e x) then tcp_connection_cleanup (e_tcbs e x) e else e)
     }"

text \<open>The sessions of a port in the order of the buckets; a callback only removes the block it is
  called on.\<close>

definition tlkp_walk_v4 :: "(u16 \<Rightarrow> u32 \<Rightarrow> cb_id list) \<Rightarrow> u16 \<Rightarrow> cb_id list" where
  "tlkp_walk_v4 htable phys_port = concat (map (\<lambda>i. htable phys_port (of_nat i)) [0..<2 ^ 20])"

definition tcp_session_ops where
  "tcp_session_ops P =
     \<lparr>so_get = e_tcbs, so_set = (\<lambda>x t e. e\<lparr>e_tcbs := (e_tcbs e)(x := t)\<rparr>),
      tos_client_open_cb = test_case_tcp_client_open P, tos_client_close_cb = test_case_tcp_close P,
      tos_session_mtu_cb = test_case_tcp_mtu, tos_session_send_cb = test_case_tcp_send P,
      sess_purge = test_case_tcp_purge P, sess_htable_walk = (\<lambda>port e. tlkp_walk_v4 (e_htable e) port)\<rparr>"

subsection \<open>The callbacks of UDP\<close>

definition test_case_udp_client_open :: "'a prm \<Rightarrow> cb_id \<Rightarrow> 'a uenv \<Rightarrow> (int \<times> 'a uenv) option" where
  "test_case_udp_client_open P x e =
     (let u = u_ucbs e x
      in map_option (\<lambda>(r, _, e). (r, e))
           (udp_open_v4_connection P (Some x) (l4cb_interface u) (l4cb_src_addr u) (l4cb_src_port u)
              (l4cb_dst_addr u) (l4cb_dst_port u) (l4cb_test_case_id u) (l4cb_app_data u) None
              TCG_CB_REUSE_CB e))"

definition test_case_udp_mtu :: "cb_id \<Rightarrow> 'a uenv \<Rightarrow> u32" where
  "test_case_udp_mtu x e = ucast (UCB_MTU (u_ucbs e x) e)"

definition test_case_udp_send :: "cb_id \<Rightarrow> chain \<Rightarrow> 'a uenv \<Rightarrow> (int \<times> u32 \<times> 'a uenv) option" where
  "test_case_udp_send x data_mbuf e = udp_send_v4 (u_ucbs e x) data_mbuf e"

definition test_case_udp_close :: "'a prm \<Rightarrow> cb_id \<Rightarrow> 'a uenv \<Rightarrow> 'a uenv option" where
  "test_case_udp_close P x e = map_option snd (on_ucb x (udp_close_v4 P) e)"

definition test_case_udp_purge :: "'a prm \<Rightarrow> cb_id \<Rightarrow> 'a uenv \<Rightarrow> 'a uenv option" where
  "test_case_udp_purge P x e =
     do {
       e \<leftarrow> (if ucb_state (u_ucbs e x) \<noteq> US_INIT \<and> ucb_state (u_ucbs e x) \<noteq> US_CLOSED
             then test_case_udp_close P x e else Some e);
       Some (if \<not> ucb_malloced (u_ucbs e x) then udp_connection_cleanup (u_ucbs e x) e else e)
     }"

definition udp_session_ops where
  "udp_session_ops P =
     \<lparr>so_get = u_ucbs, so_set = (\<lambda>x u e. e\<lparr>u_ucbs := (u_ucbs e)(x := u)\<rparr>),
      tos_client_open_cb = test_case_udp_client_open P, tos_client_close_cb = test_case_udp_close P,
      tos_session_mtu_cb = test_case_udp_mtu, tos_session_send_cb = test_case_udp_send,
      sess_purge = test_case_udp_purge P, sess_htable_walk = (\<lambda>port e. tlkp_walk_v4 (u_htable e) port)\<rparr>"

subsection \<open>Running\<close>

text \<open>The result is the status, the rate limit and the flags.\<close>

definition test_case_rate_limit_update ::
  "u32 \<Rightarrow> rate_limit \<Rightarrow> cb_id list \<Rightarrow> u32 \<Rightarrow> u32 \<Rightarrow> u32 \<Rightarrow> int \<times> rate_limit \<times> u32" where
  "test_case_rate_limit_update flags rate_limit cb_list rate_in_progress_flag rate_reached_flag consumed =
     (let rl = rate_limit_consume rate_limit consumed
      in if \<not> rate_limit_reached rl
         then if cb_list = [] then (0, rl, flags AND NOT rate_in_progress_flag) else (- EAGAIN, rl, flags)
         else (0, rl, (flags OR rate_reached_flag) AND NOT rate_in_progress_flag))"

fun run_open_loop ::
  "'a app_ops \<Rightarrow> ('a, 'z, 'y) session_ops \<Rightarrow> u16 \<Rightarrow> u16 \<Rightarrow> nat \<Rightarrow> u32 \<Rightarrow> 'y core_env_scheme
     \<Rightarrow> (u32 \<times> 'y core_env_scheme) option" where
  "run_open_loop app K port tcid 0 open_cnt e = Some (open_cnt, e)"
| "run_open_loop app K port tcid (Suc n) open_cnt e =
     (case tos_to_open_cbs (ce_tci e port tcid) of
        [] \<Rightarrow> Some (open_cnt, e)
      | x # _ \<Rightarrow> do {
          (error, e) \<leftarrow> tos_client_open_cb K x e;
          e \<leftarrow> (if error \<noteq> 0
                then map_option (\<lambda>e. TEST_CBQ_ADD_TO_OPEN (so_get K e x) e)
                       (so_on K (test_notification app TEST_NOTIF_SESS_FAILED) x e)
                else so_on K (test_notification app TEST_NOTIF_SESS_UP) x e);
          run_open_loop app K port tcid n (open_cnt + 1) e
        })"

definition test_case_run_open_cb ::
  "'a app_ops \<Rightarrow> ('a, 'z, 'y) session_ops \<Rightarrow> u16 \<Rightarrow> u16 \<Rightarrow> ('app, 's) test_run \<Rightarrow> 'y core_env_scheme
     \<Rightarrow> (int \<times> ('app, 's) test_run \<times> 'y core_env_scheme) option" where
  "test_case_run_open_cb app K port tcid T e =
     do {
       let max_open = rate_limit_available (trs_open (tos_rates T));
       (open_cnt, e) \<leftarrow> run_open_loop app K port tcid (unat max_open) 0 e;
       let c = ce_tci e port tcid;
       let (r, rl, flags) = test_case_rate_limit_update (trs_flags c) (trs_open (tos_rates T))
              (tos_to_open_cbs c) TRS_FLAGS_OPEN_IN_PROGRESS TRS_FLAGS_OPEN_RATE_REACHED open_cnt;
       Some (r, T\<lparr>tos_rates := (tos_rates T)\<lparr>trs_open := rl\<rparr>\<rparr>,
             upd_tci_at port tcid (\<lambda>c. c\<lparr>trs_flags := flags\<rparr>) e)
     }"

fun run_close_loop ::
  "('a, 'z, 'y) session_ops \<Rightarrow> u16 \<Rightarrow> u16 \<Rightarrow> nat \<Rightarrow> u32 \<Rightarrow> 'y core_env_scheme
     \<Rightarrow> (u32 \<times> 'y core_env_scheme) option" where
  "run_close_loop K port tcid 0 close_cnt e = Some (close_cnt, e)"
| "run_close_loop K port tcid (Suc n) close_cnt e =
     (case tos_to_close_cbs (ce_tci e port tcid) of
        [] \<Rightarrow> Some (close_cnt, e)
      | x # _ \<Rightarrow> do {
          e \<leftarrow> tos_client_close_cb K x e;
          run_close_loop K port tcid n (close_cnt + 1) e
        })"

definition test_case_run_close_cb ::
  "('a, 'z, 'y) session_ops \<Rightarrow> u16 \<Rightarrow> u16 \<Rightarrow> ('app, 's) test_run \<Rightarrow> 'y core_env_scheme
     \<Rightarrow> (int \<times> ('app, 's) test_run \<times> 'y core_env_scheme) option" where
  "test_case_run_close_cb K port tcid T e =
     do {
       let max_close = rate_limit_available (trs_close (tos_rates T));
       (close_cnt, e) \<leftarrow> run_close_loop K port tcid (unat max_close) 0 e;
       let c = ce_tci e port tcid;
       let (r, rl, flags) = test_case_rate_limit_update (trs_flags c) (trs_close (tos_rates T))
              (tos_to_close_cbs c) TRS_FLAGS_CLOSE_IN_PROGRESS TRS_FLAGS_CLOSE_RATE_REACHED close_cnt;
       Some (r, T\<lparr>tos_rates := (tos_rates T)\<lparr>trs_close := rl\<rparr>\<rparr>,
             upd_tci_at port tcid (\<lambda>c. c\<lparr>trs_flags := flags\<rparr>) e)
     }"

text \<open>One session of the batch that sends. The first component says whether a whole message is out.\<close>

definition run_send_again ::
  "('a, 'z, 'y) session_ops \<Rightarrow> cb_id \<Rightarrow> 'y core_env_scheme \<Rightarrow> 'y core_env_scheme option" where
  "run_send_again K x e =
     map_option (TEST_CBQ_ADD_TO_SEND (so_get K e x)) (TEST_CBQ_REM_TO_SEND (so_get K e x) e)"

definition so_app_notifs ::
  "'a app_ops \<Rightarrow> ('a, 'z, 'y) session_ops \<Rightarrow> 'a \<Rightarrow> app_notif list \<Rightarrow> cb_id \<Rightarrow> 'y core_env_scheme
     \<Rightarrow> 'y core_env_scheme option" where
  "so_app_notifs app K d ns x e =
     so_on K (\<lambda>cb. test_app_notifs (test_sm_dispatch_event app) ns (cb\<lparr>l4cb_app_data := d\<rparr>)) x e"

definition run_send_one ::
  "'a app_ops \<Rightarrow> ('a, 's) app_send_ops \<Rightarrow> ('a, 'z, 'y) session_ops \<Rightarrow> cb_id \<Rightarrow> 's \<Rightarrow> 'y core_env_scheme
     \<Rightarrow> (bool \<times> 's \<times> 'y core_env_scheme) option" where
  "run_send_one app A K x s e =
     do {
       (data_mbuf, d, s, ns) \<leftarrow> aps_send A (l4cb_app_data (so_get K e x)) s (tos_session_mtu_cb K x e);
       e \<leftarrow> so_app_notifs app K d ns x e;
       if data_mbuf = [] then do {
         e \<leftarrow> so_on K (test_notification app TEST_NOTIF_DATA_NULL) x e;
         e \<leftarrow> (if test_sm_has_data_pending (so_get K e x) then run_send_again K x e else Some e);
         Some (False, s, e)
       } else do {
         (error, data_sent, e) \<leftarrow> tos_session_send_cb K x data_mbuf e;
         e \<leftarrow> (if error \<noteq> 0 then so_on K (test_notification app TEST_NOTIF_DATA_FAILED) x e else Some e);
         if error \<noteq> 0 \<and> test_sm_has_data_pending (so_get K e x)
         then map_option (\<lambda>e. (False, s, e)) (run_send_again K x e)
         else if data_sent \<noteq> 0 then do {
           (complete, d, s, ns) \<leftarrow> aps_data_sent A (l4cb_app_data (so_get K e x)) s data_sent;
           map_option (\<lambda>e. (complete, s, e)) (so_app_notifs app K d ns x e)
         } else Some (False, s, e)
       }
     }"

fun run_send_loop ::
  "'a app_ops \<Rightarrow> ('a, 's) app_send_ops \<Rightarrow> ('a, 'z, 'y) session_ops \<Rightarrow> u16 \<Rightarrow> u16 \<Rightarrow> nat \<Rightarrow> u32 \<Rightarrow> u32 \<Rightarrow> 's
     \<Rightarrow> 'y core_env_scheme \<Rightarrow> (u32 \<times> u32 \<times> 's \<times> 'y core_env_scheme) option" where
  "run_send_loop app A K port tcid 0 send_cnt send_pkt_cnt s e = Some (send_cnt, send_pkt_cnt, s, e)"
| "run_send_loop app A K port tcid (Suc n) send_cnt send_pkt_cnt s e =
     (case tos_to_send_cbs (ce_tci e port tcid) of
        [] \<Rightarrow> Some (send_cnt, send_pkt_cnt, s, e)
      | x # _ \<Rightarrow> do {
          (complete, s, e) \<leftarrow> run_send_one app A K x s e;
          run_send_loop app A K port tcid n (if complete then send_cnt + 1 else send_cnt)
            (send_pkt_cnt + 1) s e
        })"

definition test_case_run_send_cb ::
  "'a app_ops \<Rightarrow> ('a, 's) app_send_ops \<Rightarrow> ('a, 'z, 'y) session_ops \<Rightarrow> u16 \<Rightarrow> u16 \<Rightarrow> ('app, 's) test_run
     \<Rightarrow> 'y core_env_scheme \<Rightarrow> (int \<times> ('app, 's) test_run \<times> 'y core_env_scheme) option" where
  "test_case_run_send_cb app A K port tcid T e =
     do {
       let max_send = rate_limit_available (trs_send (tos_rates T));
       (send_cnt, send_pkt_cnt, s, e) \<leftarrow>
         run_send_loop app A K port tcid (unat max_send) 0 0 (tci_app_stats T) e;
       let c = ce_tci e port tcid;
       let (r, rl, flags) = test_case_rate_limit_update (trs_flags c) (trs_send (tos_rates T))
              (tos_to_send_cbs c) TRS_FLAGS_SEND_IN_PROGRESS TRS_FLAGS_SEND_RATE_REACHED send_pkt_cnt;
       Some (r, T\<lparr>tos_rates := (tos_rates T)\<lparr>trs_send := rl\<rparr>, tci_app_stats := s,
                  rs_data_per_s := rs_data_per_s T + send_cnt\<rparr>,
             upd_tci_at port tcid (\<lambda>c. c\<lparr>trs_flags := flags\<rparr>) e)
     }"

subsection \<open>The timers of the rates\<close>

definition test_resched_runner_at ::
  "run_msg \<Rightarrow> u32 \<Rightarrow> u32 \<Rightarrow> u16 \<Rightarrow> u16 \<Rightarrow> 'y core_env_scheme \<Rightarrow> 'y core_env_scheme" where
  "test_resched_runner_at typ in_progress_flag reached_flag port tcid e =
     (if trs_flags (ce_tci e port tcid) AND (in_progress_flag OR reached_flag) \<noteq> 0 then e
      else
        let (ok, os) = outcome (ce_msg_outcomes e);
            e = e\<lparr>ce_msg_outcomes := os\<rparr>;
            e = (if ok then e\<lparr>ce_msgs := ce_msgs e @ [(typ, port, tcid)]\<rparr> else e)
        in upd_tci_at port tcid (\<lambda>c. c\<lparr>trs_flags := trs_flags c OR in_progress_flag\<rparr>) e)"

text \<open>The argument of a timer names the rate, the two flags and the message.\<close>

definition tmr_arg_flags :: "run_msg \<Rightarrow> u32 \<times> u32" where
  "tmr_arg_flags typ =
     (case typ of
        TRMT_OPEN \<Rightarrow> (TRS_FLAGS_OPEN_IN_PROGRESS, TRS_FLAGS_OPEN_RATE_REACHED)
      | TRMT_CLOSE \<Rightarrow> (TRS_FLAGS_CLOSE_IN_PROGRESS, TRS_FLAGS_CLOSE_RATE_REACHED)
      | TRMT_SEND \<Rightarrow> (TRS_FLAGS_SEND_IN_PROGRESS, TRS_FLAGS_SEND_RATE_REACHED))"

definition upd_rate_limit ::
  "run_msg \<Rightarrow> (rate_limit \<Rightarrow> rate_limit option) \<Rightarrow> test_rate_state \<Rightarrow> test_rate_state option" where
  "upd_rate_limit typ f rs =
     (case typ of
        TRMT_OPEN \<Rightarrow> map_option (\<lambda>rl. rs\<lparr>trs_open := rl\<rparr>) (f (trs_open rs))
      | TRMT_CLOSE \<Rightarrow> map_option (\<lambda>rl. rs\<lparr>trs_close := rl\<rparr>) (f (trs_close rs))
      | TRMT_SEND \<Rightarrow> map_option (\<lambda>rl. rs\<lparr>trs_send := rl\<rparr>) (f (trs_send rs)))"

definition test_case_tmr_cb ::
  "run_msg \<Rightarrow> u16 \<Rightarrow> u16 \<Rightarrow> ('app, 's) test_run \<Rightarrow> 'y core_env_scheme
     \<Rightarrow> (('app, 's) test_run \<times> 'y core_env_scheme) option" where
  "test_case_tmr_cb typ port tcid T e =
     do {
       let (in_progress_flag, reached_flag) = tmr_arg_flags typ;
       rates \<leftarrow> upd_rate_limit typ rate_limit_advance_interval (tos_rates T);
       let e = upd_tci_at port tcid (\<lambda>c. c\<lparr>trs_flags := trs_flags c AND NOT reached_flag\<rparr>) e;
       Some (T\<lparr>tos_rates := rates\<rparr>, test_resched_runner_at typ in_progress_flag reached_flag port tcid e)
     }"

definition test_case_rate_zero :: "u32 \<Rightarrow> rate_limit \<Rightarrow> rate_limit option" where
  "test_case_rate_zero core_count rl =
     map_option (\<lambda>(_, rl, _). rl) (test_case_rate_init True RATE_CFG_ZERO core_count 0 0 0)"

text \<open>The interval of an unlimited rate is a configuration value.\<close>

definition test_case_rate_start_timer ::
  "u32 \<Rightarrow> u64 \<Rightarrow> u64 option \<Rightarrow> rate_limit \<Rightarrow> u64 option" where
  "test_case_rate_start_timer no_lim_interval_size cycles_per_us tmr rl =
     (if rate_limit_interval_us no_lim_interval_size rl = 0 then tmr
      else Some (ucast (rate_limit_interval_us no_lim_interval_size rl) * cycles_per_us))"

definition GCFG_TCP_CLIENT_BURST_MAX :: u32 where "GCFG_TCP_CLIENT_BURST_MAX = 1"
definition GCFG_UDP_CLIENT_BURST_MAX :: u32 where "GCFG_UDP_CLIENT_BURST_MAX = 16"

text \<open>The shares are taken from the rates of the message, which is returned with what is left for
  the next cores. The first argument are the outcomes of the three allocations.\<close>

definition test_case_rate_state_init ::
  "bool \<times> bool \<times> bool \<Rightarrow> u32 \<Rightarrow> 'app test_case_init_msg \<Rightarrow> u32 \<Rightarrow> u32
     \<Rightarrow> (test_rate_state \<times> test_rate_timers \<times> 'app test_case_init_msg) option" where
  "test_case_rate_state_init allocs core_count im total_sessions local_sessions =
     do {
       max_burst \<leftarrow> (case tcim_l4_type im of
           L4_PROTO__TCP \<Rightarrow> Some GCFG_TCP_CLIENT_BURST_MAX
         | L4_PROTO__UDP \<Rightarrow> Some GCFG_UDP_CLIENT_BURST_MAX
         | _ \<Rightarrow> None);
       (_, op, oc) \<leftarrow> test_case_rate_init (fst allocs) (tcim_open_rate im) core_count max_burst
                       total_sessions local_sessions;
       (_, cl, cc) \<leftarrow> test_case_rate_init (fst (snd allocs)) (tcim_close_rate im) core_count max_burst
                       total_sessions local_sessions;
       (_, se, sc) \<leftarrow> test_case_rate_init (snd (snd allocs)) (tcim_send_rate im) core_count max_burst
                       total_sessions local_sessions;
       Some (\<lparr>trs_open = op, trs_close = cl, trs_send = se\<rparr>,
             \<lparr>trt_open_timer = None, trt_close_timer = None, trt_send_timer = None\<rparr>,
             im\<lparr>tcim_open_rate := oc, tcim_close_rate := cc, tcim_send_rate := sc\<rparr>)
     }"

definition test_case_rate_state_start ::
  "u32 \<Rightarrow> u64 \<Rightarrow> test_rate_state \<Rightarrow> test_rate_timers \<Rightarrow> test_rate_timers" where
  "test_case_rate_state_start no_lim_interval_size cycles_per_us rs tm =
     \<lparr>trt_open_timer = test_case_rate_start_timer no_lim_interval_size cycles_per_us (trt_open_timer tm) (trs_open rs),
      trt_close_timer = test_case_rate_start_timer no_lim_interval_size cycles_per_us (trt_close_timer tm) (trs_close rs),
      trt_send_timer = test_case_rate_start_timer no_lim_interval_size cycles_per_us (trt_send_timer tm) (trs_send rs)\<rparr>"

definition test_case_rate_state_stop ::
  "u32 \<Rightarrow> ('app, 's) test_run \<Rightarrow> ('app, 's) test_run option" where
  "test_case_rate_state_stop core_count T =
     do {
       op \<leftarrow> test_case_rate_zero core_count (trs_open (tos_rates T));
       cl \<leftarrow> test_case_rate_zero core_count (trs_close (tos_rates T));
       se \<leftarrow> test_case_rate_zero core_count (trs_send (tos_rates T));
       Some (T\<lparr>tci_rate_timers := \<lparr>trt_open_timer = None, trt_close_timer = None, trt_send_timer = None\<rparr>,
               tos_rates := \<lparr>trs_open = op, trs_close = cl, trs_send = se\<rparr>\<rparr>)
     }"

definition test_case_rate_state_running :: "test_case_info \<Rightarrow> bool" where
  "test_case_rate_state_running c \<longleftrightarrow>
     trs_flags c AND (TRS_FLAGS_OPEN_IN_PROGRESS OR TRS_FLAGS_CLOSE_IN_PROGRESS OR TRS_FLAGS_SEND_IN_PROGRESS) \<noteq> 0"

subsection \<open>Purging\<close>

partial_function (option) test_purge_list ::
  "(test_case_info \<Rightarrow> cb_id list) \<Rightarrow> 'a app_ops \<Rightarrow> ('a, 'z, 'y) session_ops \<Rightarrow> u16 \<Rightarrow> u16 \<Rightarrow> u32
     \<Rightarrow> 'y core_env_scheme \<Rightarrow> (u32 \<times> 'y core_env_scheme) option" where
  "test_purge_list cb_list app K port tcid purge_cnt e =
     (case cb_list (ce_tci e port tcid) of
        [] \<Rightarrow> Some (purge_cnt, e)
      | x # _ \<Rightarrow>
          Option.bind (so_on K (test_sm_dispatch_event app TSTE_PURGE) x e)
            (\<lambda>e. Option.bind (sess_purge K x e)
              (\<lambda>e. test_purge_list cb_list app K port tcid (purge_cnt + 1) e)))"

fun purge_htable ::
  "'a app_ops \<Rightarrow> ('a, 'z, 'y) session_ops \<Rightarrow> u16 \<Rightarrow> cb_id list \<Rightarrow> 'y core_env_scheme
     \<Rightarrow> 'y core_env_scheme option" where
  "purge_htable app K tcid [] e = Some e"
| "purge_htable app K tcid (x # xs) e =
     (if l4cb_test_case_id (so_get K e x) \<noteq> tcid then purge_htable app K tcid xs e
      else do {
        e \<leftarrow> so_on K (test_sm_dispatch_event app TSTE_PURGE) x e;
        e \<leftarrow> sess_purge K x e;
        purge_htable app K tcid xs e
      })"

definition test_case_purge_cbs ::
  "'a app_ops \<Rightarrow> ('a, 'z, 'y) session_ops \<Rightarrow> u16 \<Rightarrow> u16 \<Rightarrow> 'y core_env_scheme \<Rightarrow> 'y core_env_scheme option" where
  "test_case_purge_cbs app K port tcid e =
     do {
       (_, e) \<leftarrow> test_purge_list tos_to_init_cbs app K port tcid 0 e;
       (_, e) \<leftarrow> test_purge_list tos_to_open_cbs app K port tcid 0 e;
       (_, e) \<leftarrow> test_purge_list tos_to_close_cbs app K port tcid 0 e;
       (_, e) \<leftarrow> test_purge_list tos_to_send_cbs app K port tcid 0 e;
       (_, e) \<leftarrow> test_purge_list tos_closed_cbs app K port tcid 0 e;
       purge_htable app K tcid (sess_htable_walk K port e) e
     }"

subsection \<open>Initialisation\<close>

definition tlkp_init_tcb_client ::
  "'a prm \<Rightarrow> u32 \<Rightarrow> u32 \<Rightarrow> u16 \<Rightarrow> u16 \<Rightarrow> u32 \<Rightarrow> u16 \<Rightarrow> u16 \<Rightarrow> 'a \<Rightarrow> sockopt \<Rightarrow> u32 \<Rightarrow> 'a tcb \<Rightarrow> 'a tcb" where
  "tlkp_init_tcb_client P local_addr remote_addr local_port remote_port l4_hash tcb_interface
      test_case_id app sockopt flags t =
     tsm_initialize_minimal_statemachine True
       (tlkp_init_tcb P local_addr remote_addr local_port remote_port l4_hash tcb_interface test_case_id app
          sockopt flags t)"

text \<open>A failed allocation of a block is only logged. \<open>app\<close> is the application of the configuration.\<close>

definition test_case_start_tcp_client ::
  "'a prm \<Rightarrow> sockopt \<Rightarrow> 'a \<Rightarrow> u16 \<Rightarrow> u16 \<Rightarrow> u32 \<Rightarrow> u32 \<Rightarrow> u16 \<Rightarrow> u16 \<Rightarrow> u32 \<Rightarrow> 'a env \<Rightarrow> 'a env option" where
  "test_case_start_tcp_client P sockopt app eth_port test_case_id src_ip dst_ip src_port dst_port conn_hash e =
     (case tlkp_alloc_tcb e of
        (None, e) \<Rightarrow> Some e
      | (Some x, e) \<Rightarrow>
          map_option (\<lambda>(t, e). e\<lparr>e_tcbs := (e_tcbs e)(x := t)\<rparr>)
            (test_sess_init (p_app P)
               (tlkp_init_tcb_client P src_ip dst_ip src_port dst_port conn_hash eth_port test_case_id app
                  sockopt (TPG_CB_USE_L4_HASH_FLAG OR TCG_CB_CONSUME_ALL_DATA) (e_tcbs e x)) e))"

definition test_case_start_udp_client ::
  "'a prm \<Rightarrow> sockopt \<Rightarrow> 'a \<Rightarrow> u16 \<Rightarrow> u16 \<Rightarrow> u32 \<Rightarrow> u32 \<Rightarrow> u16 \<Rightarrow> u16 \<Rightarrow> u32 \<Rightarrow> 'a uenv \<Rightarrow> 'a uenv option" where
  "test_case_start_udp_client P sockopt app eth_port test_case_id src_ip dst_ip src_port dst_port conn_hash e =
     (case tlkp_alloc_ucb e of
        (None, e) \<Rightarrow> Some e
      | (Some x, e) \<Rightarrow>
          map_option (\<lambda>(u, e). e\<lparr>u_ucbs := (u_ucbs e)(x := u)\<rparr>)
            (test_sess_init (p_app P)
               (tlkp_init_ucb_client P src_ip dst_ip src_port dst_port conn_hash eth_port test_case_id app
                  sockopt (TPG_CB_USE_L4_HASH_FLAG OR 0) (u_ucbs e x)) e))"

text \<open>The outcome of a listen is counted for the test case; there is no block to notify.\<close>

definition server_started :: "u16 \<Rightarrow> u16 \<Rightarrow> int \<Rightarrow> 'y core_env_scheme \<Rightarrow> 'y core_env_scheme" where
  "server_started port tcid error =
     (if error \<noteq> 0 then upd_tci_at port tcid (\<lambda>c. c\<lparr>gs_failed := gs_failed c + 1\<rparr>)
      else upd_tci_at port tcid (\<lambda>c. c\<lparr>gs_up := gs_up c + 1\<rparr>))"

definition test_case_start_tcp_server ::
  "'a prm \<Rightarrow> sockopt \<Rightarrow> 'a \<Rightarrow> u16 \<Rightarrow> u16 \<Rightarrow> u32 \<Rightarrow> u32 \<Rightarrow> u16 \<Rightarrow> u16 \<Rightarrow> u32 \<Rightarrow> 'a env \<Rightarrow> 'a env option" where
  "test_case_start_tcp_server P sockopt app eth_port test_case_id src_ip dst_ip src_port dst_port conn_hash e =
     map_option (\<lambda>(error, _, e). server_started eth_port test_case_id error e)
       (tcp_listen_v4 P None eth_port src_ip src_port test_case_id app (Some sockopt)
          TCG_CB_CONSUME_ALL_DATA e)"

definition test_case_start_udp_server ::
  "'a prm \<Rightarrow> sockopt \<Rightarrow> 'a \<Rightarrow> u16 \<Rightarrow> u16 \<Rightarrow> u32 \<Rightarrow> u32 \<Rightarrow> u16 \<Rightarrow> u16 \<Rightarrow> u32 \<Rightarrow> 'a uenv \<Rightarrow> 'a uenv option" where
  "test_case_start_udp_server P sockopt app eth_port test_case_id src_ip dst_ip src_port dst_port conn_hash e =
     map_option (\<lambda>(error, _, e). server_started eth_port test_case_id error e)
       (udp_listen_v4 P None eth_port src_ip src_port test_case_id app (Some sockopt) 0 e)"

text \<open>The numbers of all the sessions and of those of this core.\<close>

definition test_case_session_counts ::
  "'a prm \<Rightarrow> u16 \<Rightarrow> u32 \<Rightarrow> u32 \<Rightarrow> 'app tpg_test_case \<Rightarrow> (u32 \<times> u32) option" where
  "test_case_session_counts P reta_size qcnt rx_queue_id tc =
     (case tc_type tc of
        TEST_CASE_TYPE__CLIENT \<Rightarrow>
          map_option (\<lambda>local_sessions. (test_case_client_cfg_count (tc_client tc), local_sessions))
            (test_case_for_each_client P reta_size qcnt rx_queue_id (tc_client tc)
               test_case_init_state_client_counters_cb 0)
      | TEST_CASE_TYPE__SERVER \<Rightarrow>
          Some (test_case_server_cfg_count (tc_server tc), test_case_server_cfg_count (tc_server tc))
      | _ \<Rightarrow> None)"

definition test_case_init_state ::
  "'a prm \<Rightarrow> bool \<times> bool \<times> bool \<Rightarrow> u16 \<Rightarrow> u32 \<Rightarrow> u32 \<Rightarrow> 'app test_case_init_msg
     \<Rightarrow> ('app, 's) test_run \<times> test_case_info
     \<Rightarrow> (('app, 's) test_run \<times> test_case_info \<times> 'app test_case_init_msg) option" where
  "test_case_init_state P allocs reta_size qcnt rx_queue_id im = (\<lambda>(T, c).
     do {
       (total_sessions, local_sessions) \<leftarrow>
         test_case_session_counts P reta_size qcnt rx_queue_id (tcim_test_case im);
       (rates, timers, im) \<leftarrow> test_case_rate_state_init allocs qcnt im total_sessions local_sessions;
       Some (T\<lparr>tos_rates := rates, tci_rate_timers := timers\<rparr>,
             c\<lparr>tos_to_init_cbs := [], tos_to_open_cbs := [], tos_to_close_cbs := [], tos_to_send_cbs := [],
               tos_closed_cbs := [], trs_flags := 0\<rparr>, im)
     })"

definition zero_gen_latency :: gen_latency_stats where
  "zero_gen_latency =
     \<lparr>gls_stats = zero_latency_stats, gls_sample_stats = zero_latency_stats, gls_invalid_lat = 0\<rparr>"

text \<open>
  The handler up to the sessions. The timestamps of the port are switched on, the recent samples are
  emptied, and the statistics are cleared at the end. The delays of the configuration are
  read from \<open>test_case_info\<close> by the sessions.
\<close>

definition test_case_init_setup ::
  "'a prm \<Rightarrow> ('a, 's) app_send_ops \<Rightarrow> bool \<times> bool \<times> bool \<Rightarrow> u16 \<Rightarrow> u32 \<Rightarrow> u32 \<Rightarrow> 'app test_case_init_msg
     \<Rightarrow> ('app, 's) test_run \<times> test_case_info
     \<Rightarrow> (('app, 's) test_run \<times> test_case_info \<times> 'app test_case_init_msg) option" where
  "test_case_init_setup P A allocs reta_size qcnt rx_queue_id im = (\<lambda>(T, c).
     do {
       let tc = tcim_test_case im;
       let T = T\<lparr>tci_cfg := im\<rparr>;
       let c = c\<lparr>tci_init_delay := tc_init_delay tc, tci_uptime := tc_uptime tc, tci_downtime := tc_downtime tc\<rparr>;
       let T = (if tcim_tx_tstamp im then T\<lparr>tstamp_tx_on := True\<rparr> else T);
       let T = (if tcim_rx_tstamp im
                then T\<lparr>tstamp_rx_on := True, tci_gen_latency := test_case_latency_init,
                       tci_latency_state := test_latency_state_init
                         (case tcs_samples (tc_latency tc) of Some n \<Rightarrow> n | None \<Rightarrow> 0)\<rparr>
                else T);
       (T, c, im) \<leftarrow> test_case_init_state P allocs reta_size qcnt rx_queue_id im (T, c);
       Some (T\<lparr>tci_gen_latency := zero_gen_latency, tci_app_stats := aps_stats_init A,
               rs_data_per_s := 0, rs_start_time := 0, rs_end_time := 0\<rparr>,
             c\<lparr>gs_up := 0, gs_estab := 0, gs_down := 0, gs_failed := 0, gs_data_failed := 0,
               gs_data_null := 0, gs_start_time := 0, gs_end_time := 0,
               rs_estab_per_s := 0, rs_closed_per_s := 0\<rparr>, im)
     })"

text \<open>
  The whole handler for the sessions of TCP; the identifiers of the port and of the test case have 16
  bits in a block. A core without a queue on the port ignores the message, and so does a test case
  that is configured.
\<close>

definition test_case_init_tcp_sessions ::
  "'a prm \<Rightarrow> 'a \<Rightarrow> u16 \<Rightarrow> u32 \<Rightarrow> u32 \<Rightarrow> 'app test_case_init_msg \<Rightarrow> 'a env \<Rightarrow> 'a env option" where
  "test_case_init_tcp_sessions P app reta_size qcnt rx_queue_id im =
     (let tc = tcim_test_case im; port = ucast (tc_eth_port tc); tcid = ucast (tc_id tc); so = tcim_sockopt im
      in case tc_type tc of
           TEST_CASE_TYPE__CLIENT \<Rightarrow>
             test_case_for_each_client P reta_size qcnt rx_queue_id (tc_client tc)
               (test_case_start_tcp_client P so app port tcid)
         | TEST_CASE_TYPE__SERVER \<Rightarrow>
             test_case_for_each_server (tc_server tc) (test_case_start_tcp_server P so app port tcid)
         | _ \<Rightarrow> (\<lambda>_. None))"

definition test_case_init_udp_sessions ::
  "'a prm \<Rightarrow> 'a \<Rightarrow> u16 \<Rightarrow> u32 \<Rightarrow> u32 \<Rightarrow> 'app test_case_init_msg \<Rightarrow> 'a uenv \<Rightarrow> 'a uenv option" where
  "test_case_init_udp_sessions P app reta_size qcnt rx_queue_id im =
     (let tc = tcim_test_case im; port = ucast (tc_eth_port tc); tcid = ucast (tc_id tc); so = tcim_sockopt im
      in case tc_type tc of
           TEST_CASE_TYPE__CLIENT \<Rightarrow>
             test_case_for_each_client P reta_size qcnt rx_queue_id (tc_client tc)
               (test_case_start_udp_client P so app port tcid)
         | TEST_CASE_TYPE__SERVER \<Rightarrow>
             test_case_for_each_server (tc_server tc) (test_case_start_udp_server P so app port tcid)
         | _ \<Rightarrow> (\<lambda>_. None))"

definition test_case_init_cb ::
  "'a prm \<Rightarrow> ('a, 's) app_send_ops \<Rightarrow> bool \<times> bool \<times> bool \<Rightarrow> u16 \<Rightarrow> u32 \<Rightarrow> u32 option
     \<Rightarrow> (u32 \<Rightarrow> 'app test_case_init_msg \<Rightarrow> 'y core_env_scheme \<Rightarrow> 'y core_env_scheme option)
     \<Rightarrow> 'app test_case_init_msg \<Rightarrow> ('app, 's) test_run \<Rightarrow> 'y core_env_scheme
     \<Rightarrow> (int \<times> 'app test_case_init_msg \<times> ('app, 's) test_run \<times> 'y core_env_scheme) option" where
  "test_case_init_cb P A allocs reta_size qcnt rx_queue_id init_sessions im T e =
     (case rx_queue_id of
        None \<Rightarrow> Some (0, im, T, e)
      | Some q \<Rightarrow>
          if tci_configured T then Some (0, im, T, e)
          else do {
            let port = ucast (tc_eth_port (tcim_test_case im));
            let tcid = ucast (tc_id (tcim_test_case im));
            (T, c, im) \<leftarrow> test_case_init_setup P A allocs reta_size qcnt q im (T, ce_tci e port tcid);
            e \<leftarrow> init_sessions q im (upd_tci_at port tcid (\<lambda>_. c) e);
            Some (0, im, T\<lparr>tci_configured := True\<rparr>, e)
          })"

subsection \<open>Start and stop\<close>

definition test_case_start_cb ::
  "u32 \<Rightarrow> u32 option \<Rightarrow> ('app, 's) test_run \<Rightarrow> 'y core_env_scheme \<Rightarrow> int \<times> ('app, 's) test_run" where
  "test_case_start_cb no_lim_interval_size rx_queue_id T e =
     (if rx_queue_id = None then (0, T)
      else if tci_running T then (0, T)
      else (0, T\<lparr>rs_start_time := ce_now e,
                 tci_rate_timers := test_case_rate_state_start no_lim_interval_size (ce_cycles_per_us e)
                                      (tos_rates T) (tci_rate_timers T),
                 tci_running := True\<rparr>))"

text \<open>The third component is the flag \<open>tcsm_done\<close> that the sender waits for.\<close>

definition test_case_stop_cb ::
  "'a app_ops \<Rightarrow> ('a, 'z, 'y) session_ops \<Rightarrow> u32 \<Rightarrow> u16 \<Rightarrow> u16 \<Rightarrow> ('app, 's) test_run \<Rightarrow> 'y core_env_scheme
     \<Rightarrow> (int \<times> bool \<times> ('app, 's) test_run \<times> 'y core_env_scheme) option" where
  "test_case_stop_cb app K core_count port tcid T e =
     (if \<not> tci_configured T \<or> \<not> tci_running T then Some (0, True, T, e)
      else do {
        (all_purged, T, e) \<leftarrow>
          (if \<not> tci_stopping T
           then map_option (\<lambda>T. (False, T\<lparr>tci_stopping := True\<rparr>, e)) (test_case_rate_state_stop core_count T)
           else map_option (\<lambda>e. (True, T, e)) (test_case_purge_cbs app K port tcid e));
        if test_case_rate_state_running (ce_tci e port tcid) \<or> \<not> all_purged then Some (- EAGAIN, False, T, e)
        else Some (0, True,
               T\<lparr>tci_stopping := False, tci_running := False, tci_configured := False,
                 tstamp_tx_on := (if tcim_tx_tstamp (tci_cfg T) then False else tstamp_tx_on T),
                 tstamp_rx_on := (if tcim_rx_tstamp (tci_cfg T) then False else tstamp_rx_on T)\<rparr>, e)
      })"

subsection \<open>Requests for statistics\<close>

record gen_stats =
  g_up :: u32
  g_estab :: u32
  g_down :: u32
  g_failed :: u32
  g_data_failed :: u32
  g_data_null :: u32
  g_start_time :: u64
  g_end_time :: u64
  g_latency :: gen_latency_stats

record rate_stats =
  r_estab_per_s :: u32
  r_closed_per_s :: u32
  r_data_per_s :: u32
  r_start_time :: u64
  r_end_time :: u64

text \<open>The statistics are copied and cleared, but for the two times. The copy of the application is
  made with its \<open>stats_copy\<close>.\<close>

definition test_case_stats_req_cb ::
  "('a, 's) app_send_ops \<Rightarrow> ('app, 's) test_run \<times> test_case_info
     \<Rightarrow> (gen_stats \<times> 's) \<times> (('app, 's) test_run \<times> test_case_info)" where
  "test_case_stats_req_cb A = (\<lambda>(T, c).
     let rx = tcim_rx_tstamp (tci_cfg T);
         lat = (if rx then (tci_gen_latency T)\<lparr>gls_sample_stats :=
                             test_update_recent_latency_stats (tci_latency_state T)
                               (tc_latency (tcim_test_case (tci_cfg T)))\<rparr>
                else tci_gen_latency T);
         answer = \<lparr>g_up = gs_up c, g_estab = gs_estab c, g_down = gs_down c, g_failed = gs_failed c,
                   g_data_failed = gs_data_failed c, g_data_null = gs_data_null c,
                   g_start_time = gs_start_time c, g_end_time = gs_end_time c, g_latency = lat\<rparr>
     in ((answer, tci_app_stats T),
         (T\<lparr>tci_gen_latency := (if rx then test_case_latency_init else lat), tci_app_stats := aps_stats_init A\<rparr>,
          c\<lparr>gs_up := 0, gs_estab := 0, gs_down := 0, gs_failed := 0, gs_data_failed := 0, gs_data_null := 0\<rparr>)))"

definition rates_cleared ::
  "u64 \<Rightarrow> ('app, 's) test_run \<times> test_case_info \<Rightarrow> ('app, 's) test_run \<times> test_case_info" where
  "rates_cleared now = (\<lambda>(T, c).
     (T\<lparr>rs_data_per_s := 0, rs_end_time := 0, rs_start_time := now\<rparr>,
      c\<lparr>rs_estab_per_s := 0, rs_closed_per_s := 0\<rparr>))"

definition test_case_rates_stats_req_cb ::
  "u64 \<Rightarrow> ('app, 's) test_run \<times> test_case_info \<Rightarrow> rate_stats \<times> (('app, 's) test_run \<times> test_case_info)" where
  "test_case_rates_stats_req_cb now = (\<lambda>(T, c).
     (\<lparr>r_estab_per_s = rs_estab_per_s c, r_closed_per_s = rs_closed_per_s c, r_data_per_s = rs_data_per_s T,
       r_start_time = rs_start_time T, r_end_time = now\<rparr>, rates_cleared now (T, c)))"

record state_counter =
  sc_to_init_cbs :: u32
  sc_to_open_cbs :: u32
  sc_to_close_cbs :: u32
  sc_to_send_cbs :: u32
  sc_closed_cbs :: u32
  sc_test_states_from_test :: "test_sm_state \<Rightarrow> u32"
  sc_test_states_from_l4 :: "test_sm_state \<Rightarrow> u32"
  sc_tcp_states_from_test :: "tcp_state \<Rightarrow> u32"
  sc_tcp_states_from_tcp :: "tcp_state \<Rightarrow> u32"
  sc_udp_states_from_test :: "udp_state \<Rightarrow> u32"
  sc_udp_states_from_udp :: "udp_state \<Rightarrow> u32"

definition zero_state_counter :: state_counter where
  "zero_state_counter =
     \<lparr>sc_to_init_cbs = 0, sc_to_open_cbs = 0, sc_to_close_cbs = 0, sc_to_send_cbs = 0, sc_closed_cbs = 0,
      sc_test_states_from_test = (\<lambda>_. 0), sc_test_states_from_l4 = (\<lambda>_. 0),
      sc_tcp_states_from_test = (\<lambda>_. 0), sc_tcp_states_from_tcp = (\<lambda>_. 0),
      sc_udp_states_from_test = (\<lambda>_. 0), sc_udp_states_from_udp = (\<lambda>_. 0)\<rparr>"

definition count_at :: "'k \<Rightarrow> ('k \<Rightarrow> u32) \<Rightarrow> 'k \<Rightarrow> u32" where
  "count_at k f = f(k := f k + 1)"

text \<open>\<open>tail\<close> counts a list of blocks into two arrays: the states of the test and those of the protocol.\<close>

fun test_tcb_count_tail ::
  "'a env \<Rightarrow> cb_id list \<Rightarrow> (test_sm_state \<Rightarrow> u32) \<times> (tcp_state \<Rightarrow> u32)
     \<Rightarrow> u32 \<times> (test_sm_state \<Rightarrow> u32) \<times> (tcp_state \<Rightarrow> u32)" where
  "test_tcb_count_tail e [] (ts, ps) = (0, ts, ps)"
| "test_tcb_count_tail e (x # xs) (ts, ps) =
     (let t = e_tcbs e x;
          (n, r) = test_tcb_count_tail e xs (count_at (l4cb_test_state t) ts, count_at (tcb_state t) ps)
      in (n + 1, r))"

fun test_ucb_count_tail ::
  "'a uenv \<Rightarrow> cb_id list \<Rightarrow> (test_sm_state \<Rightarrow> u32) \<times> (udp_state \<Rightarrow> u32)
     \<Rightarrow> u32 \<times> (test_sm_state \<Rightarrow> u32) \<times> (udp_state \<Rightarrow> u32)" where
  "test_ucb_count_tail e [] (ts, ps) = (0, ts, ps)"
| "test_ucb_count_tail e (x # xs) (ts, ps) =
     (let u = u_ucbs e x;
          (n, r) = test_ucb_count_tail e xs (count_at (l4cb_test_state u) ts, count_at (ucb_state u) ps)
      in (n + 1, r))"

definition test_case_count_tcb_cbs ::
  "u16 \<Rightarrow> u16 \<Rightarrow> 'a env \<Rightarrow> (test_sm_state \<Rightarrow> u32) \<times> (tcp_state \<Rightarrow> u32)
     \<Rightarrow> (test_sm_state \<Rightarrow> u32) \<times> (tcp_state \<Rightarrow> u32)" where
  "test_case_count_tcb_cbs port tcid e arrays =
     fold (\<lambda>x (ts, ps). if l4cb_test_case_id (e_tcbs e x) \<noteq> tcid then (ts, ps)
                          else (count_at (l4cb_test_state (e_tcbs e x)) ts, count_at (tcb_state (e_tcbs e x)) ps))
       (tlkp_walk_v4 (e_htable e) port) arrays"

definition test_case_count_ucb_cbs ::
  "u16 \<Rightarrow> u16 \<Rightarrow> 'a uenv \<Rightarrow> (test_sm_state \<Rightarrow> u32) \<times> (udp_state \<Rightarrow> u32)
     \<Rightarrow> (test_sm_state \<Rightarrow> u32) \<times> (udp_state \<Rightarrow> u32)" where
  "test_case_count_ucb_cbs port tcid e arrays =
     fold (\<lambda>x (ts, ps). if l4cb_test_case_id (u_ucbs e x) \<noteq> tcid then (ts, ps)
                          else (count_at (l4cb_test_state (u_ucbs e x)) ts, count_at (ucb_state (u_ucbs e x)) ps))
       (tlkp_walk_v4 (u_htable e) port) arrays"

definition test_case_get_state_counter_tcp :: "u16 \<Rightarrow> u16 \<Rightarrow> 'a env \<Rightarrow> state_counter" where
  "test_case_get_state_counter_tcp port tcid e =
     (let c = ce_tci e port tcid;
          (n_init, a) = test_tcb_count_tail e (tos_to_init_cbs c) (\<lambda>_. 0, \<lambda>_. 0);
          (n_open, a) = test_tcb_count_tail e (tos_to_open_cbs c) a;
          (n_close, a) = test_tcb_count_tail e (tos_to_close_cbs c) a;
          (n_send, a) = test_tcb_count_tail e (tos_to_send_cbs c) a;
          (n_closed, ts, ps) = test_tcb_count_tail e (tos_closed_cbs c) a;
          (ts', ps') = test_case_count_tcb_cbs port tcid e (\<lambda>_. 0, \<lambda>_. 0)
      in zero_state_counter\<lparr>sc_to_init_cbs := n_init, sc_to_open_cbs := n_open, sc_to_close_cbs := n_close,
           sc_to_send_cbs := n_send, sc_closed_cbs := n_closed, sc_test_states_from_test := ts,
           sc_tcp_states_from_test := ps, sc_test_states_from_l4 := ts', sc_tcp_states_from_tcp := ps'\<rparr>)"

definition test_case_get_state_counter_udp :: "u16 \<Rightarrow> u16 \<Rightarrow> 'a uenv \<Rightarrow> state_counter" where
  "test_case_get_state_counter_udp port tcid e =
     (let c = ce_tci e port tcid;
          (n_init, a) = test_ucb_count_tail e (tos_to_init_cbs c) (\<lambda>_. 0, \<lambda>_. 0);
          (n_open, a) = test_ucb_count_tail e (tos_to_open_cbs c) a;
          (n_close, a) = test_ucb_count_tail e (tos_to_close_cbs c) a;
          (n_send, a) = test_ucb_count_tail e (tos_to_send_cbs c) a;
          (n_closed, ts, ps) = test_ucb_count_tail e (tos_closed_cbs c) a;
          (ts', ps') = test_case_count_ucb_cbs port tcid e (\<lambda>_. 0, \<lambda>_. 0)
      in zero_state_counter\<lparr>sc_to_init_cbs := n_init, sc_to_open_cbs := n_open, sc_to_close_cbs := n_close,
           sc_to_send_cbs := n_send, sc_closed_cbs := n_closed, sc_test_states_from_test := ts,
           sc_udp_states_from_test := ps, sc_test_states_from_l4 := ts', sc_udp_states_from_udp := ps'\<rparr>)"

text \<open>The states are an argument; the handler clears the statistics of the rates, as the code does.\<close>

definition test_case_states_stats_req_cb ::
  "state_counter \<Rightarrow> u64 \<Rightarrow> ('app, 's) test_run \<times> test_case_info
     \<Rightarrow> state_counter \<times> (('app, 's) test_run \<times> test_case_info)" where
  "test_case_states_stats_req_cb counter now Tc = (counter, rates_cleared now Tc)"

end
