(* ===== verification/RunnerProps.thy ===== *)
theory RunnerProps
  imports Runner TcpIfaceProps UdpProps
begin

text \<open>
  Properties of the runners. The batches that open sessions are verified against the contract of
  the callback, the locale \<open>session_opener\<close>, which TCP and UDP fulfil; the iteration of a run message
  until it is not reposted is \<open>run_open_msgs\<close>.
\<close>

subsection \<open>Opening in batches\<close>

text \<open>A run message is handled again as long as the handler reposts it.\<close>

fun run_open_msgs ::
  "nat \<Rightarrow> 'a app_ops \<Rightarrow> ('a, 'z, 'y) session_ops \<Rightarrow> u16 \<Rightarrow> u16 \<Rightarrow> ('app, 's) test_run \<Rightarrow> 'y core_env_scheme
     \<Rightarrow> (('app, 's) test_run \<times> 'y core_env_scheme) option" where
  "run_open_msgs 0 app K port tcid T e = None"
| "run_open_msgs (Suc n) app K port tcid T e =
     do {
       (r, T, e) \<leftarrow> test_case_run_open_cb app K port tcid T e;
       if r = - EAGAIN then run_open_msgs n app K port tcid T e else Some (T, e)
     }"

locale session_opener =
  fixes app :: "'a app_ops" and K :: "('a, 'z, 'y) session_ops" and port tcid :: u16
    and ready opened :: "cb_id \<Rightarrow> 'y core_env_scheme \<Rightarrow> bool"
  assumes opens: "tos_to_open_cbs (ce_tci e port tcid) = x # xs \<Longrightarrow> ready x e \<Longrightarrow>
      \<exists>e'. tos_client_open_cb K x e = Some (0, e') \<and> tos_to_open_cbs (ce_tci e' port tcid) = xs \<and>
           gs_up (ce_tci e' port tcid) = gs_up (ce_tci e port tcid) \<and> opened x e' \<and>
           (\<forall>y. y \<noteq> x \<longrightarrow> ready y e \<longrightarrow> ready y e') \<and> (\<forall>y. y \<noteq> x \<longrightarrow> opened y e \<longrightarrow> opened y e')"
    and counted: "opened x e \<Longrightarrow>
      \<exists>e'. so_on K (test_notification app TEST_NOTIF_SESS_UP) x e = Some e' \<and>
           tos_to_open_cbs (ce_tci e' port tcid) = tos_to_open_cbs (ce_tci e port tcid) \<and>
           gs_up (ce_tci e' port tcid) = gs_up (ce_tci e port tcid) + 1 \<and>
           (\<forall>y. ready y e \<longrightarrow> ready y e') \<and> (\<forall>y. opened y e \<longrightarrow> opened y e')"
    and flags_ready: "ready y e \<Longrightarrow> ready y (upd_tci_at port tcid (\<lambda>c. c\<lparr>trs_flags := f\<rparr>) e)"
    and flags_opened: "opened y e \<Longrightarrow> opened y (upd_tci_at port tcid (\<lambda>c. c\<lparr>trs_flags := f\<rparr>) e)"
begin

lemma run_open_loop_fifo:
  assumes "tos_to_open_cbs (ce_tci e port tcid) = q" and "distinct q" and "\<forall>x \<in> set q. ready x e"
    and "\<forall>x \<in> Z. opened x e \<and> x \<notin> set q"
  shows "\<exists>e'. run_open_loop app K port tcid n cnt e = Some (cnt + of_nat (min n (length q)), e') \<and>
           tos_to_open_cbs (ce_tci e' port tcid) = drop n q \<and>
           gs_up (ce_tci e' port tcid) = gs_up (ce_tci e port tcid) + of_nat (min n (length q)) \<and>
           (\<forall>x \<in> set (drop n q). ready x e') \<and> (\<forall>x \<in> Z \<union> set (take n q). opened x e')"
  using assms
proof (induction n arbitrary: q e cnt Z)
  case (Suc n)
  show ?case
  proof (cases q)
    case (Cons x xs)
    from opens [of e x xs] Suc.prems Cons obtain e1 where
      e1: "tos_client_open_cb K x e = Some (0, e1)" "tos_to_open_cbs (ce_tci e1 port tcid) = xs"
        "gs_up (ce_tci e1 port tcid) = gs_up (ce_tci e port tcid)" "opened x e1"
        "\<forall>y. y \<noteq> x \<longrightarrow> ready y e \<longrightarrow> ready y e1" "\<forall>y. y \<noteq> x \<longrightarrow> opened y e \<longrightarrow> opened y e1"
      by auto
    from counted [OF e1(4)] obtain e2 where
      e2: "so_on K (test_notification app TEST_NOTIF_SESS_UP) x e1 = Some e2"
        "tos_to_open_cbs (ce_tci e2 port tcid) = xs"
        "gs_up (ce_tci e2 port tcid) = gs_up (ce_tci e port tcid) + 1"
        "\<forall>y. ready y e1 \<longrightarrow> ready y e2" "\<forall>y. opened y e1 \<longrightarrow> opened y e2"
      using e1(2,3) by auto
    have r: "\<forall>y \<in> set xs. ready y e2" using Suc.prems(2,3) e1(5) e2(4) Cons by auto
    have z: "\<forall>y \<in> insert x Z. opened y e2 \<and> y \<notin> set xs"
      using Suc.prems(2,4) e1(4,6) e2(5) Cons by auto
    from Suc.IH [OF e2(2) _ r z, of "cnt + 1"] Suc.prems(2) Cons obtain e' where
      "run_open_loop app K port tcid n (cnt + 1) e2 = Some (cnt + 1 + of_nat (min n (length xs)), e')"
      "tos_to_open_cbs (ce_tci e' port tcid) = drop n xs"
      "gs_up (ce_tci e' port tcid) = gs_up (ce_tci e2 port tcid) + of_nat (min n (length xs))"
      "\<forall>y \<in> set (drop n xs). ready y e'" "\<forall>y \<in> insert x Z \<union> set (take n xs). opened y e'"
      by auto
    then show ?thesis using Cons Suc.prems(1) e1(1) e2(1,3)
      by (intro exI [of _ e']) (auto simp: add.assoc)
  qed (use Suc.prems in auto)
qed auto

lemma run_open_cb_batch:
  assumes "tos_to_open_cbs (ce_tci e port tcid) = q" and "distinct q" and "\<forall>x \<in> set q. ready x e"
    and "\<forall>x \<in> Z. opened x e \<and> x \<notin> set q"
    and "m = min (unat (rate_limit_available (trs_open (tos_rates T)))) (length q)"
  shows "\<exists>r T' e'. test_case_run_open_cb app K port tcid T e = Some (r, T', e') \<and>
     r = (if unat (rl_current_rate (trs_open (tos_rates T))) > m \<and> length q > m then - EAGAIN else 0) \<and>
     T' = T\<lparr>tos_rates := (tos_rates T)\<lparr>trs_open := rate_limit_consume (trs_open (tos_rates T)) (of_nat m)\<rparr>\<rparr> \<and>
     tos_to_open_cbs (ce_tci e' port tcid) = drop m q \<and>
     gs_up (ce_tci e' port tcid) = gs_up (ce_tci e port tcid) + of_nat m \<and>
     (r = 0 \<longrightarrow> trs_flags (ce_tci e' port tcid) AND TRS_FLAGS_OPEN_IN_PROGRESS = 0) \<and>
     (\<forall>x \<in> set (drop m q). ready x e') \<and> (\<forall>x \<in> Z \<union> set (take m q). opened x e')"
proof -
  let ?a = "rate_limit_available (trs_open (tos_rates T))" and ?rl = "trs_open (tos_rates T)"
  from run_open_loop_fifo [OF assms(1-4), of "unat ?a" 0] obtain e1 where
    e1: "run_open_loop app K port tcid (unat ?a) 0 e = Some (of_nat m, e1)"
      "tos_to_open_cbs (ce_tci e1 port tcid) = drop (unat ?a) q"
      "gs_up (ce_tci e1 port tcid) = gs_up (ce_tci e port tcid) + of_nat m"
      "\<forall>x \<in> set (drop (unat ?a) q). ready x e1" "\<forall>x \<in> Z \<union> set (take (unat ?a) q). opened x e1"
    using assms(5) by auto
  have d: "drop (unat ?a) q = drop m q" "take (unat ?a) q = take m q"
    using assms(5) by (auto simp: min_def)
  have le: "m \<le> unat (rl_current_rate ?rl)"
    using assms(5) by (auto simp: rate_limit_available_def word_le_nat_alt min_def split: if_splits)
  then have "unat (rl_current_rate ?rl - of_nat m) = unat (rl_current_rate ?rl) - m"
    using unat_u32_less [of "rl_current_rate ?rl"] by (subst unat_sub) (simp_all add: word_le_nat_alt unat_of_nat_small)
  then have z: "rl_current_rate ?rl - of_nat m = 0 \<longleftrightarrow> unat (rl_current_rate ?rl) = m"
    using le by (simp add: unat_eq_0 [symmetric])
  have fl: "(w AND NOT TRS_FLAGS_OPEN_IN_PROGRESS) AND TRS_FLAGS_OPEN_IN_PROGRESS = 0" for w :: u32
    by (simp add: and.assoc)
  have dr: "drop m q = [] \<longleftrightarrow> length q = m" using assms(5) by auto
  show ?thesis
    using e1 z le dr flags_ready flags_opened
    unfolding d test_case_run_open_cb_def test_case_rate_limit_update_def rate_limit_reached_def
    by (auto simp: upd_tci_at_def rate_limit_consume_def fl Let_def)
qed

lemma run_open_msgs_all:
  assumes "tos_to_open_cbs (ce_tci e port tcid) = q" and "distinct q" and "\<forall>x \<in> set q. ready x e"
    and "\<forall>x \<in> Z. opened x e \<and> x \<notin> set q" and "0 < rl_max_burst (trs_open (tos_rates T))"
    and "k = min (unat (rl_current_rate (trs_open (tos_rates T)))) (length q)" and "length q < n"
  shows "\<exists>T' e'. run_open_msgs n app K port tcid T e = Some (T', e') \<and>
     T' = T\<lparr>tos_rates := (tos_rates T)\<lparr>trs_open := rate_limit_consume (trs_open (tos_rates T)) (of_nat k)\<rparr>\<rparr> \<and>
     tos_to_open_cbs (ce_tci e' port tcid) = drop k q \<and>
     gs_up (ce_tci e' port tcid) = gs_up (ce_tci e port tcid) + of_nat k \<and>
     trs_flags (ce_tci e' port tcid) AND TRS_FLAGS_OPEN_IN_PROGRESS = 0 \<and>
     (\<forall>x \<in> set (drop k q). ready x e') \<and> (\<forall>x \<in> Z \<union> set (take k q). opened x e')"
  using assms
proof (induction n arbitrary: q T e k Z)
  case (Suc n)
  let ?rl = "trs_open (tos_rates T)"
  define m where "m = min (unat (rate_limit_available ?rl)) (length q)"
  from run_open_cb_batch [OF Suc.prems(1-4) m_def] obtain r T1 e1 where
    b: "test_case_run_open_cb app K port tcid T e = Some (r, T1, e1)"
      "r = (if unat (rl_current_rate ?rl) > m \<and> length q > m then - EAGAIN else 0)"
      "T1 = T\<lparr>tos_rates := (tos_rates T)\<lparr>trs_open := rate_limit_consume ?rl (of_nat m)\<rparr>\<rparr>"
      "tos_to_open_cbs (ce_tci e1 port tcid) = drop m q"
      "gs_up (ce_tci e1 port tcid) = gs_up (ce_tci e port tcid) + of_nat m"
      "r = 0 \<longrightarrow> trs_flags (ce_tci e1 port tcid) AND TRS_FLAGS_OPEN_IN_PROGRESS = 0"
      "\<forall>x \<in> set (drop m q). ready x e1" "\<forall>x \<in> Z \<union> set (take m q). opened x e1"
    by blast
  have le: "m \<le> unat (rl_current_rate ?rl)"
    by (auto simp: m_def rate_limit_available_def word_le_nat_alt min_def split: if_splits)
  show ?case
  proof (cases "unat (rl_current_rate ?rl) > m \<and> length q > m")
    case False
    then have "k = m" using le Suc.prems(6) by (auto simp: m_def)
    then show ?thesis using b False by (intro exI [of _ T1] exI [of _ e1]) auto
  next
    case True
    have m: "unat (rl_current_rate ?rl - of_nat m) = unat (rl_current_rate ?rl) - m"
      using unat_u32_less [of "rl_current_rate ?rl"] True
      by (subst unat_sub) (simp_all add: word_le_nat_alt unat_of_nat_small)
    have "rate_limit_available ?rl = ucast (rl_max_burst ?rl)"
      using True by (auto simp: m_def rate_limit_available_def min_def split: if_splits)
    moreover have "0 < unat (rl_max_burst ?rl)" using Suc.prems(5) by (simp add: word_less_nat_alt)
    ultimately have "0 < m" using True unsigned_less [of "rl_max_burst ?rl", where 'a = nat]
      by (auto simp: m_def unsigned_ucast_eq take_bit_nat_eq_self)
    have z: "\<forall>x \<in> Z \<union> set (take m q). opened x e1 \<and> x \<notin> set (drop m q)"
      using b(8) Suc.prems(2,4) set_take_disj_set_drop_if_distinct [of q m m] by (auto dest: in_set_dropD)
    let ?k = "min (unat (rl_current_rate (trs_open (tos_rates T1)))) (length (drop m q))"
    have "0 < rl_max_burst (trs_open (tos_rates T1))" using Suc.prems(5) b(3) by (simp add: rate_limit_consume_def)
    moreover have "length (drop m q) < n" using Suc.prems(7) \<open>0 < m\<close> True unfolding length_drop by arith
    ultimately obtain T2 e2 where
      r: "run_open_msgs n app K port tcid T1 e1 = Some (T2, e2)"
        "T2 = T1\<lparr>tos_rates := (tos_rates T1)\<lparr>trs_open := rate_limit_consume (trs_open (tos_rates T1)) (of_nat ?k)\<rparr>\<rparr>"
        "tos_to_open_cbs (ce_tci e2 port tcid) = drop ?k (drop m q)"
        "gs_up (ce_tci e2 port tcid) = gs_up (ce_tci e1 port tcid) + of_nat ?k"
        "trs_flags (ce_tci e2 port tcid) AND TRS_FLAGS_OPEN_IN_PROGRESS = 0"
        "\<forall>x \<in> set (drop ?k (drop m q)). ready x e2" "\<forall>x \<in> (Z \<union> set (take m q)) \<union> set (take ?k (drop m q)). opened x e2"
      using Suc.IH [OF b(4) _ b(7) z _ refl, of T1] Suc.prems(2) by auto
    have k: "k = m + ?k" using True le Suc.prems(6) m b(3) by (auto simp: rate_limit_consume_def)
    have c: "(of_nat k :: u32) = of_nat m + of_nat ?k" by (subst k) (rule of_nat_add)
    have t: "set (take k q) = set (take m q) \<union> set (take ?k (drop m q))" "drop k q = drop ?k (drop m q)"
      by (subst k, simp add: take_add, subst k, simp add: add.commute)
    have "T2 = T\<lparr>tos_rates := (tos_rates T)\<lparr>trs_open := rate_limit_consume ?rl (of_nat k)\<rparr>\<rparr>"
      unfolding r(2) b(3) c by (simp add: rate_limit_consume_def)
    moreover have "run_open_msgs (Suc n) app K port tcid T e = Some (T2, e2)" using b(1,2) True r(1) by simp
    ultimately show ?thesis unfolding t c using r(3-7) b(5)
      by (intro exI [of _ T2] exI [of _ e2]) (auto simp: add.assoc)
  qed
qed simp

end

subsection \<open>TCP and UDP fulfil the contract\<close>

definition client_waits :: "u16 \<Rightarrow> u16 \<Rightarrow> cb_id \<Rightarrow> ('a, 'z) l4cb_scheme \<Rightarrow> bool" where
  "client_waits port tcid x cb \<longleftrightarrow>
     l4cb_id cb = x \<and> l4cb_interface cb = port \<and> l4cb_test_case_id cb = tcid \<and>
     l4cb_test_state cb = TSTS_CL_TO_OPEN \<and> (l4cb_dst_addr cb \<noteq> 0 \<or> l4cb_dst_port cb \<noteq> 0)"

text \<open>The application may start to send when the session is up.\<close>

definition app_starts_once :: "'a app_ops \<Rightarrow> 'a \<Rightarrow> bool" where
  "app_starts_once app d \<longleftrightarrow> snd (app_conn_up app d) \<in> {[], [TEST_NOTIF_APP_SEND_START]}"

lemma get_tci_at:
  "get_tci cb e = ce_tci e (l4cb_interface cb) (l4cb_test_case_id cb)"
  by (simp add: get_tci_def)

lemma upd_tci_is_at: "upd_tci cb f e = upd_tci_at (l4cb_interface cb) (l4cb_test_case_id cb) f e"
  by (simp add: upd_tci_def upd_tci_at_def get_tci_def)

lemma resched_lists [simp]:
  "tos_to_open_cbs (ce_tci (test_resched_runner typ a b cb e) p t) = tos_to_open_cbs (ce_tci e p t)"
  "gs_up (ce_tci (test_resched_runner typ a b cb e) p t) = gs_up (ce_tci e p t)"
  by (cases "outcome (ce_msg_outcomes e)";
      simp add: test_resched_runner_def test_case_run_msg_def Let_def upd_tci_def get_tci_def)+

lemma add_to_send_lists [simp]:
  "tos_to_open_cbs (ce_tci (TEST_CBQ_ADD_TO_SEND cb e) p t) = tos_to_open_cbs (ce_tci e p t)"
  "gs_up (ce_tci (TEST_CBQ_ADD_TO_SEND cb e) p t) = gs_up (ce_tci e p t)"
  by (simp_all add: TEST_CBQ_ADD_TO_SEND_def) (simp_all add: upd_tci_def get_tci_def)

lemma test_set_lists [simp]:
  "ce_tci (snd (snd (l4cb_timer_test_set us cb e))) = ce_tci e"
  "ce_tci (upd_timer_stats p f e) = ce_tci e"
  by (auto simp: l4cb_timer_test_set_def upd_timer_stats_def Let_def split: prod.splits)

lemma test_set_state [simp]:
  "l4cb_test_state (fst (snd (l4cb_timer_test_set us cb e))) = l4cb_test_state cb"
  "l4cb_app_data (fst (snd (l4cb_timer_test_set us cb e))) = l4cb_app_data cb"
  by (auto simp: l4cb_timer_test_set_def Let_def split: prod.splits)

lemma client_connecting:
  assumes "l4cb_test_state cb = TSTS_CL_TO_OPEN"
    and "tos_to_open_cbs (ce_tci e (l4cb_interface cb) (l4cb_test_case_id cb)) = l4cb_id cb # xs"
  shows "\<exists>e'. test_notification app TEST_NOTIF_SESS_CONNECTING cb e = Some (cb\<lparr>l4cb_test_state := TSTS_CL_OPENING\<rparr>, e') \<and>
    tos_to_open_cbs (ce_tci e' (l4cb_interface cb) (l4cb_test_case_id cb)) = xs \<and>
    gs_up (ce_tci e' (l4cb_interface cb) (l4cb_test_case_id cb)) = gs_up (ce_tci e (l4cb_interface cb) (l4cb_test_case_id cb))"
  using assms
  by (simp add: test_notification_def test_sess_connecting_def test_sm_enter_state_def test_sm_dispatch_event_def
      eval_nat_numeral test_sm_function_array_def test_sm_SF_client_to_open_def test_sm_SF_client_opening_def
      cbq_rem_eqs test_sess_record_start_time_def get_tci_def upd_tci_def)

lemma client_connected_imm:
  assumes "l4cb_test_state cb = TSTS_CL_TO_OPEN" and "app_starts_once app (l4cb_app_data cb)"
    and "tos_to_open_cbs (ce_tci e (l4cb_interface cb) (l4cb_test_case_id cb)) = l4cb_id cb # xs"
  shows "\<exists>cb' e'. test_notification app TEST_NOTIF_SESS_CONNECTED_IMM cb e = Some (cb', e') \<and>
    l4cb_test_state cb' \<in> {TSTS_CL_OPEN, TSTS_CL_SENDING} \<and>
    tos_to_open_cbs (ce_tci e' (l4cb_interface cb) (l4cb_test_case_id cb)) = xs \<and>
    gs_up (ce_tci e' (l4cb_interface cb) (l4cb_test_case_id cb)) = gs_up (ce_tci e (l4cb_interface cb) (l4cb_test_case_id cb))"
proof -
  let ?e1 = "test_sess_record_end_time cb (test_sess_count_estab cb (test_sess_record_start_time cb e))"
  let ?d = "test_sm_run 2 app"
  define e2 where "e2 = upd_tci cb (upd_tos To_Open (remove1 (l4cb_id cb))) ?e1"
  have e2: "tos_to_open_cbs (ce_tci e2 (l4cb_interface cb) (l4cb_test_case_id cb)) = xs"
    "gs_up (ce_tci e2 (l4cb_interface cb) (l4cb_test_case_id cb)) = gs_up (ce_tci e (l4cb_interface cb) (l4cb_test_case_id cb))"
    using assms(3)
    by (simp_all add: e2_def test_sess_record_end_time_def test_sess_count_estab_def test_sess_record_start_time_def
        get_tci_def upd_tci_def)
  have rem: "TEST_CBQ_REM_TO_OPEN cb ?e1 = Some e2"
    using assms(3)
    by (simp add: e2_def cbq_rem_eqs test_sess_record_end_time_def test_sess_count_estab_def
        test_sess_record_start_time_def get_tci_def upd_tci_def)
  obtain cb3 e3 where tmr: "(if \<not> TPG_DELAY_IS_INF (tci_uptime (get_tci cb e2))
      then test_tmr_set_delay (tci_uptime (get_tci cb e2)) cb e2 else Some (cb, e2)) = Some (cb3, e3)"
    and e3: "l4cb_app_data cb3 = l4cb_app_data cb" "ce_tci e3 = ce_tci e2"
    by (cases "TPG_DELAY_IS_INF (tci_uptime (get_tci cb e2))") (auto simp: test_tmr_set_delay_def prod_eq_iff)
  let ?cb4 = "cb3\<lparr>l4cb_test_state := TSTS_CL_OPEN, l4cb_app_data := fst (app_conn_up app (l4cb_app_data cb))\<rparr>"
  have d: "?d TSTE_ENTER_STATE (cb3\<lparr>l4cb_test_state := TSTS_CL_OPEN\<rparr>) e3 = Some (cb3\<lparr>l4cb_test_state := TSTS_CL_OPEN\<rparr>, e3)"
    by (simp add: eval_nat_numeral test_sm_function_array_def test_sm_SF_client_open_def)
  have s: "?d TSTE_APP_SEND_START ?cb4 e3 = Some (?cb4\<lparr>l4cb_test_state := TSTS_CL_SENDING\<rparr>, TEST_CBQ_ADD_TO_SEND ?cb4 e3)"
    by (simp add: eval_nat_numeral test_sm_function_array_def test_sm_SF_client_open_def test_sm_enter_state_def
        test_sm_SF_client_sending_def)
  have "test_notification app TEST_NOTIF_SESS_CONNECTED_IMM cb e =
      test_app_notifs ?d (snd (app_conn_up app (l4cb_app_data cb))) ?cb4 e3"
    using assms(1) rem tmr e3 d
    by (simp add: test_notification_def test_sess_connected_imm_def test_sess_connected_def test_sm_dispatch_event_def
        numeral_3_eq_3 numeral_2_eq_2 test_sm_function_array_def test_sm_SF_client_to_open_def test_sm_enter_state_def
        test_app_conn_up_def Let_def case_prod_beta del: test_sm_run.simps(2) add: test_sm_run.simps(2) [of "Suc (Suc 0)"])
  moreover have "tos_to_open_cbs (ce_tci e3 (l4cb_interface cb) (l4cb_test_case_id cb)) = xs"
    "gs_up (ce_tci e3 (l4cb_interface cb) (l4cb_test_case_id cb)) = gs_up (ce_tci e (l4cb_interface cb) (l4cb_test_case_id cb))"
    using e2 e3(2) by simp_all
  ultimately show ?thesis using assms(2) s by (auto simp: app_starts_once_def)
qed

lemma ucb_more_eq:
  fixes u u' :: "'a ucb"
  assumes "l4cb.more u' = l4cb.more u"
  shows "ucb_state u' = ucb_state u" "ucb_active u' = ucb_active u" "ucb_malloced u' = ucb_malloced u"
  using assms by (cases u; cases u'; simp)+

lemma uenv_more_eq:
  fixes e e' :: "'a uenv"
  assumes "core_env.more e' = core_env.more e"
  shows "u_ucbs e' = u_ucbs e"
  using assms by (cases e; cases e') simp

definition udp_ready :: "'a prm \<Rightarrow> u16 \<Rightarrow> u16 \<Rightarrow> cb_id \<Rightarrow> 'a uenv \<Rightarrow> bool" where
  "udp_ready P port tcid x e \<longleftrightarrow>
     client_waits port tcid x (u_ucbs e x) \<and> app_starts_once (p_app P) (l4cb_app_data (u_ucbs e x))"

definition udp_opened :: "u16 \<Rightarrow> u16 \<Rightarrow> cb_id \<Rightarrow> 'a uenv \<Rightarrow> bool" where
  "udp_opened port tcid x e \<longleftrightarrow>
     l4cb_interface (u_ucbs e x) = port \<and> l4cb_test_case_id (u_ucbs e x) = tcid \<and>
     l4cb_test_state (u_ucbs e x) \<in> {TSTS_CL_OPEN, TSTS_CL_SENDING} \<and> ucb_state (u_ucbs e x) = US_OPEN"

lemma udp_opens:
  assumes "tos_to_open_cbs (ce_tci e port tcid) = x # xs" and "udp_ready P port tcid x e"
  shows "\<exists>u' e1. test_case_udp_client_open P x e = Some (0, tlkp_add_ucb u' (e1\<lparr>u_ucbs := (u_ucbs e)(x := u')\<rparr>)) \<and>
    tos_to_open_cbs (ce_tci e1 port tcid) = xs \<and> gs_up (ce_tci e1 port tcid) = gs_up (ce_tci e port tcid) \<and>
    l4cb_interface u' = port \<and> l4cb_test_case_id u' = tcid \<and>
    l4cb_test_state u' \<in> {TSTS_CL_OPEN, TSTS_CL_SENDING} \<and> ucb_state u' = US_OPEN"
proof -
  let ?u = "(u_ucbs e x)\<lparr>ucb_active := True, ucb_state := US_OPEN\<rparr>"
  have w: "client_waits port tcid x (u_ucbs e x)" "app_starts_once (p_app P) (l4cb_app_data ?u)"
    using assms(2) by (simp_all add: udp_ready_def)
  have "tos_to_open_cbs (ce_tci e (l4cb_interface ?u) (l4cb_test_case_id ?u)) = l4cb_id ?u # xs"
    using w(1) assms(1) by (simp add: client_waits_def)
  then obtain u' e1 where n: "test_notification (p_app P) TEST_NOTIF_SESS_CONNECTED_IMM ?u e = Some (u', e1)"
    and r: "l4cb_test_state u' \<in> {TSTS_CL_OPEN, TSTS_CL_SENDING}" "tos_to_open_cbs (ce_tci e1 port tcid) = xs"
      "gs_up (ce_tci e1 port tcid) = gs_up (ce_tci e port tcid)"
    using client_connected_imm [of ?u "p_app P" e xs] w by (auto simp: client_waits_def)
  note f = test_notification_frame [OF n, unfolded sm_frame_def prod.inject]
  have "u_ucbs e1 = u_ucbs e" using f by (intro uenv_more_eq) simp
  moreover have "ucb_state u' = US_OPEN" using f ucb_more_eq [of u' ?u] by simp
  ultimately show ?thesis using n r f w(1)
    by (intro exI [of _ u'] exI [of _ e1])
      (auto simp: test_case_udp_client_open_def udp_open_v4_connection_def TCG_CB_REUSE_CB_def on_ucb_def
        UDP_NOTIF_def client_waits_def Let_def tlkp_add_ucb_def)
qed

lemma udp_memory_simps [simp]:
  "u_ucbs (tlkp_add_ucb u e) = u_ucbs e" "ce_tci (tlkp_add_ucb u e) = ce_tci e"
  "u_ucbs (upd_tci_at p t f e) = u_ucbs e"
  by (simp_all add: tlkp_add_ucb_def upd_tci_at_def)

interpretation udp_opener:
  session_opener "p_app P" "udp_session_ops P" port tcid "udp_ready P port tcid" "udp_opened port tcid"
proof
  fix e :: "'a uenv" and x xs
  assume "tos_to_open_cbs (ce_tci e port tcid) = x # xs" and "udp_ready P port tcid x e"
  from udp_opens [OF this] show "\<exists>e'. tos_client_open_cb (udp_session_ops P) x e = Some (0, e') \<and>
      tos_to_open_cbs (ce_tci e' port tcid) = xs \<and> gs_up (ce_tci e' port tcid) = gs_up (ce_tci e port tcid) \<and>
      udp_opened port tcid x e' \<and> (\<forall>y. y \<noteq> x \<longrightarrow> udp_ready P port tcid y e \<longrightarrow> udp_ready P port tcid y e') \<and>
      (\<forall>y. y \<noteq> x \<longrightarrow> udp_opened port tcid y e \<longrightarrow> udp_opened port tcid y e')"
    by (auto simp: udp_session_ops_def udp_opened_def udp_ready_def)
next
  fix e :: "'a uenv" and x
  assume "udp_opened port tcid x e"
  then show "\<exists>e'. so_on (udp_session_ops P) (test_notification (p_app P) TEST_NOTIF_SESS_UP) x e = Some e' \<and>
      tos_to_open_cbs (ce_tci e' port tcid) = tos_to_open_cbs (ce_tci e port tcid) \<and>
      gs_up (ce_tci e' port tcid) = gs_up (ce_tci e port tcid) + 1 \<and>
      (\<forall>y. udp_ready P port tcid y e \<longrightarrow> udp_ready P port tcid y e') \<and>
      (\<forall>y. udp_opened port tcid y e \<longrightarrow> udp_opened port tcid y e')"
    by (simp add: so_on_def udp_session_ops_def test_notification_def upd_tci_is_at udp_opened_def udp_ready_def)
      (simp add: upd_tci_at_def)
qed (simp_all add: udp_ready_def udp_opened_def)

definition tcp_ready :: "u16 \<Rightarrow> u16 \<Rightarrow> cb_id \<Rightarrow> 'a env \<Rightarrow> bool" where
  "tcp_ready port tcid x e \<longleftrightarrow> client_waits port tcid x (e_tcbs e x)"

definition tcp_opened :: "u16 \<Rightarrow> u16 \<Rightarrow> cb_id \<Rightarrow> 'a env \<Rightarrow> bool" where
  "tcp_opened port tcid x e \<longleftrightarrow>
     l4cb_interface (e_tcbs e x) = port \<and> l4cb_test_case_id (e_tcbs e x) = tcid \<and>
     l4cb_test_state (e_tcbs e x) = TSTS_CL_OPENING \<and> tcb_state (e_tcbs e x) = TS_SYN_SENT"

lemma sched_tci:
  assumes "tsm_schedule_retransmission t e = (t', e')"
  shows "ce_tci e' = ce_tci e" "l4cb_interface t' = l4cb_interface t" "l4cb_test_case_id t' = l4cb_test_case_id t"
    "l4cb_test_state t' = l4cb_test_state t" "tcb_state t' = tcb_state t"
  using assms
  by (auto simp: tsm_schedule_retransmission_def tcp_timer_rto_set_def Let_def upd_timer_stats_def
      split: if_splits prod.splits)

lemma tcp_opens:
  fixes e :: "'a env"
  assumes "tos_to_open_cbs (ce_tci e port tcid) = x # xs" and "tcp_ready port tcid x e"
  shows "\<exists>t' e1. test_case_tcp_client_open P x e = Some (0, e1\<lparr>e_tcbs := (e_tcbs e)(x := t')\<rparr>) \<and>
    tos_to_open_cbs (ce_tci e1 port tcid) = xs \<and> gs_up (ce_tci e1 port tcid) = gs_up (ce_tci e port tcid) \<and>
    l4cb_interface t' = port \<and> l4cb_test_case_id t' = tcid \<and>
    l4cb_test_state t' = TSTS_CL_OPENING \<and> tcb_state t' = TS_SYN_SENT"
proof -
  let ?d = "tsm_run (Suc (Suc 0)) P"
  have w: "client_waits port tcid x (e_tcbs e x)" using assms(2) by (simp add: tcp_ready_def)
  obtain t1 e1 where i: "tsm_initialize_statemachine (tsm_dispatch_event P) True (e_tcbs e x) e = Some (0, t1, e1)"
    and t1: "tcb_state t1 = TS_INIT" "tcb_active t1" "client_waits port tcid x t1"
    and e1: "ce_tci e1 = ce_tci e" "e_tcbs e1 = e_tcbs e"
    using w by (simp add: initialize_eq client_waits_def upd_tsm_stats_def)
  define t2 where "t2 = t1\<lparr>snd_una := snd_iss t1, snd_nxt := snd_iss t1 + 1\<rparr>"
  define e2 where "e2 = tcp_send_ctrl_pkt t2 (RTE_TCP_SYN_FLAG OR TCP_BUILD_FLAG_USE_ISS) (tlkp_add_tcb t1 e1)"
  define t3 where "t3 = t2\<lparr>tcb_state := TS_SYN_SENT\<rparr>"
  define e3 where "e3 = upd_tsm_stats (l4cb_interface t2) (tsm_inc_state TS_SYN_SENT)
     (upd_tsm_stats (l4cb_interface t2) (tsm_dec_state TS_INIT) e2)"
  have e3: "ce_tci e3 = ce_tci e" "e_tcbs e3 = e_tcbs e"
    using e1 by (simp_all add: e3_def e2_def upd_tsm_stats_def tlkp_add_tcb_def)
  have t3: "client_waits port tcid x t3" using t1(3) by (simp add: t3_def t2_def client_waits_def)
  have "tos_to_open_cbs (ce_tci e3 (l4cb_interface t3) (l4cb_test_case_id t3)) = l4cb_id t3 # xs"
    using t3 assms(1) e3 by (simp add: client_waits_def)
  then obtain e4 where n: "TCP_NOTIF P TEST_NOTIF_SESS_CONNECTING t3 e3 = Some (t3\<lparr>l4cb_test_state := TSTS_CL_OPENING\<rparr>, e4)"
    and e4: "tos_to_open_cbs (ce_tci e4 port tcid) = xs" "gs_up (ce_tci e4 port tcid) = gs_up (ce_tci e port tcid)"
    using client_connecting [of t3 e3 xs "p_app P"] t3 e3 by (auto simp: client_waits_def TCP_NOTIF_def)
  obtain t5 e5 where s: "tsm_schedule_retransmission (t3\<lparr>l4cb_test_state := TSTS_CL_OPENING\<rparr>) e4 = (t5, e5)"
    by fastforce
  have mem: "e_tcbs e5 = e_tcbs e" using sched_same [OF s] tcp_notif_more(23) [OF n] e3 by simp
  have "tsm_enter_state ?d TS_SYN_SENT NoArg t2 e2 = Some (0, t5, e5)"
    using n s t1(1)
    by (simp add: tsm_enter_state_def tsm_function_array_def tsm_SF_syn_sent_def t3_def e3_def t2_def Let_def)
  then have "test_case_tcp_client_open P x e = Some (0, e5\<lparr>e_tcbs := (e_tcbs e)(x := t5)\<rparr>)"
    using i t1(1,2) w mem
    by (auto simp: test_case_tcp_client_open_def tcp_open_v4_connection_def TCG_CB_REUSE_CB_def on_tcb_def
        client_waits_def dispatch_array tsm_function_array_def tsm_SF_init_def t2_def e2_def simp del: tsm_run.simps)
  then show ?thesis using sched_tci [OF s] e4 t3
    by (intro exI [of _ t5] exI [of _ e5]) (simp add: client_waits_def t3_def t2_def)
qed

lemma tcp_memory_simps [simp]: "e_tcbs (upd_tci_at p t f e) = e_tcbs e"
  by (simp add: upd_tci_at_def)

interpretation tcp_opener:
  session_opener "p_app P" "tcp_session_ops P" port tcid "tcp_ready port tcid" "tcp_opened port tcid"
proof
  fix e :: "'a env" and x xs
  assume "tos_to_open_cbs (ce_tci e port tcid) = x # xs" and "tcp_ready port tcid x e"
  from tcp_opens [OF this, of P] show "\<exists>e'. tos_client_open_cb (tcp_session_ops P) x e = Some (0, e') \<and>
      tos_to_open_cbs (ce_tci e' port tcid) = xs \<and> gs_up (ce_tci e' port tcid) = gs_up (ce_tci e port tcid) \<and>
      tcp_opened port tcid x e' \<and> (\<forall>y. y \<noteq> x \<longrightarrow> tcp_ready port tcid y e \<longrightarrow> tcp_ready port tcid y e') \<and>
      (\<forall>y. y \<noteq> x \<longrightarrow> tcp_opened port tcid y e \<longrightarrow> tcp_opened port tcid y e')"
    by (auto simp: tcp_session_ops_def tcp_opened_def tcp_ready_def)
next
  fix e :: "'a env" and x
  assume "tcp_opened port tcid x e"
  then show "\<exists>e'. so_on (tcp_session_ops P) (test_notification (p_app P) TEST_NOTIF_SESS_UP) x e = Some e' \<and>
      tos_to_open_cbs (ce_tci e' port tcid) = tos_to_open_cbs (ce_tci e port tcid) \<and>
      gs_up (ce_tci e' port tcid) = gs_up (ce_tci e port tcid) + 1 \<and>
      (\<forall>y. tcp_ready port tcid y e \<longrightarrow> tcp_ready port tcid y e') \<and>
      (\<forall>y. tcp_opened port tcid y e \<longrightarrow> tcp_opened port tcid y e')"
    by (simp add: so_on_def tcp_session_ops_def test_notification_def upd_tci_is_at tcp_opened_def tcp_ready_def)
      (simp add: upd_tci_at_def)
qed (simp_all add: tcp_ready_def tcp_opened_def)

lemma tmr_cb_open:
  assumes "test_case_tmr_cb TRMT_OPEN port tcid T0 e0 = Some (T, e)"
  shows "\<exists>rl. rate_limit_advance_interval (trs_open (tos_rates T0)) = Some rl \<and> trs_open (tos_rates T) = rl \<and>
    tos_to_open_cbs (ce_tci e port tcid) = tos_to_open_cbs (ce_tci e0 port tcid) \<and>
    gs_up (ce_tci e port tcid) = gs_up (ce_tci e0 port tcid) \<and> core_env.more e = core_env.more e0"
  using assms
  by (cases "outcome (ce_msg_outcomes e0)")
    (auto simp: test_case_tmr_cb_def tmr_arg_flags_def upd_rate_limit_def test_resched_runner_at_def upd_tci_at_def
      Let_def split: if_splits)

text \<open>
  C13: A tick of the open timer starts a new interval, and the run messages that follow open
  the sessions waiting to be opened in the order of their list: exactly as many as the slot of the interval allows, or
  all of them. Each is in \<open>SYN_SENT\<close> and counted once, the rest waits in its order, and
  no run message is in progress at the end. The sessions are distinct blocks of the test case
  that wait to be opened, and the rate has a burst.
\<close>

theorem open_tick_in_order:
  fixes P :: "'a prm" and e0 :: "'a env"
  assumes "test_case_tmr_cb TRMT_OPEN port tcid T0 e0 = Some (T, e)"
    and "tos_to_open_cbs (ce_tci e0 port tcid) = q" and "distinct q"
    and "\<forall>x \<in> set q. client_waits port tcid x (e_tcbs e0 x)"
    and "0 < rl_max_burst (trs_open (tos_rates T0))"
  shows "\<exists>slot T' e'. slot = rl_slots (trs_open (tos_rates T0)) !
        ((unat (rl_current_index (trs_open (tos_rates T0))) + 1) mod unat (rl_count (trs_open (tos_rates T0)))) \<and>
     run_open_msgs (length q + 1) (p_app P) (tcp_session_ops P) port tcid T e = Some (T', e') \<and>
     tos_to_open_cbs (ce_tci e' port tcid) = drop (unat slot) q \<and>
     gs_up (ce_tci e' port tcid) = gs_up (ce_tci e0 port tcid) + of_nat (min (unat slot) (length q)) \<and>
     rl_current_rate (trs_open (tos_rates T')) = slot - of_nat (min (unat slot) (length q)) \<and>
     trs_flags (ce_tci e' port tcid) AND TRS_FLAGS_OPEN_IN_PROGRESS = 0 \<and>
     (\<forall>x \<in> set (take (unat slot) q). tcb_state (e_tcbs e' x) = TS_SYN_SENT \<and>
        l4cb_test_state (e_tcbs e' x) = TSTS_CL_OPENING) \<and>
     (\<forall>x \<in> set (drop (unat slot) q). client_waits port tcid x (e_tcbs e' x))"
proof -
  from tmr_cb_open [OF assms(1)] obtain rl where
    rl: "rate_limit_advance_interval (trs_open (tos_rates T0)) = Some rl" "trs_open (tos_rates T) = rl"
    and e: "tos_to_open_cbs (ce_tci e port tcid) = q" "gs_up (ce_tci e port tcid) = gs_up (ce_tci e0 port tcid)"
      "core_env.more e = core_env.more e0" using assms(2) by auto
  let ?slot = "rl_current_rate rl" and ?k = "min (unat (rl_current_rate rl)) (length q)"
  have r: "?slot = rl_slots (trs_open (tos_rates T0)) !
      ((unat (rl_current_index (trs_open (tos_rates T0))) + 1) mod unat (rl_count (trs_open (tos_rates T0))))"
    "rl_max_burst rl = rl_max_burst (trs_open (tos_rates T0))"
    using rl(1) by (auto simp: rate_limit_advance_interval_def Let_def split: if_splits)
  have ready: "\<forall>x \<in> set q. tcp_ready port tcid x e"
    using assms(4) env_more_eq(1) [OF e(3)] by (simp add: tcp_ready_def)
  from tcp_opener.run_open_msgs_all [of e port tcid q "{}" T ?k "length q + 1" P, OF e(1) assms(3) ready]
  obtain T' e' where
    o: "run_open_msgs (length q + 1) (p_app P) (tcp_session_ops P) port tcid T e = Some (T', e')"
      "T' = T\<lparr>tos_rates := (tos_rates T)\<lparr>trs_open := rate_limit_consume rl (of_nat ?k)\<rparr>\<rparr>"
      "tos_to_open_cbs (ce_tci e' port tcid) = drop ?k q"
      "gs_up (ce_tci e' port tcid) = gs_up (ce_tci e port tcid) + of_nat ?k"
      "trs_flags (ce_tci e' port tcid) AND TRS_FLAGS_OPEN_IN_PROGRESS = 0"
      "\<forall>x \<in> set (drop ?k q). tcp_ready port tcid x e'" "\<forall>x \<in> set (take ?k q). tcp_opened port tcid x e'"
    using assms(5) r(2) rl(2) by auto
  have d: "drop ?k q = drop (unat ?slot) q" "take ?k q = take (unat ?slot) q" by (simp_all add: min_def)
  show ?thesis
    using o e(2) unfolding d
    by (intro exI [of _ ?slot] exI [of _ T'] exI [of _ e'] conjI r(1))
      (auto simp: rate_limit_consume_def tcp_ready_def tcp_opened_def)
qed

text \<open>Three sessions wait and the interval allows two.\<close>

definition ex_open_rate :: rate_limit where
  "ex_open_rate = \<lparr>rl_current_rate = 0, rl_count = 1, rl_current_index = 0, rl_max_burst = 1, rl_slots = [2]\<rparr>"

definition ex_waiting :: "unit env" where
  "ex_waiting = (ex_env (ex_tcb TS_INIT TSTS_CL_TO_OPEN) (ex_pcb (ex_hdr 0 0 0) []))
     \<lparr>ce_tci := (\<lambda>_ _. ex_tci\<lparr>tos_to_open_cbs := [4, 5, 6]\<rparr>)\<rparr>"

theorem open_tick_in_order_witness:
  "\<forall>T :: (unit, unit) test_run. \<exists>T1 e1 T' e'.
     test_case_tmr_cb TRMT_OPEN 0 0 (T\<lparr>tos_rates := (tos_rates T)\<lparr>trs_open := ex_open_rate\<rparr>\<rparr>) ex_waiting = Some (T1, e1) \<and>
     run_open_msgs 4 (p_app ex_P) (tcp_session_ops ex_P) 0 0 T1 e1 = Some (T', e') \<and>
     tos_to_open_cbs (ce_tci e' 0 0) = [6] \<and> tcb_state (e_tcbs e' 5) = TS_SYN_SENT"
proof
  fix T :: "(unit, unit) test_run"
  let ?T = "T\<lparr>tos_rates := (tos_rates T)\<lparr>trs_open := ex_open_rate\<rparr>\<rparr>"
  have "test_case_tmr_cb TRMT_OPEN 0 0 ?T ex_waiting \<noteq> None"
    by (simp add: test_case_tmr_cb_def tmr_arg_flags_def upd_rate_limit_def rate_limit_advance_interval_def
        ex_open_rate_def Let_def)
  then obtain T1 e1 where t: "test_case_tmr_cb TRMT_OPEN 0 0 ?T ex_waiting = Some (T1, e1)" by auto
  have q: "tos_to_open_cbs (ce_tci ex_waiting 0 0) = [4, 5, 6]"
    "\<forall>x \<in> set [4, 5, 6]. client_waits 0 0 x (e_tcbs ex_waiting x)"
    by (simp_all add: ex_waiting_def client_waits_def)
      (simp_all add: ex_tcb_def zero_tcb_def ex_env_def)
  have n4: "Suc (Suc (Suc (Suc 0))) = 4" by simp
  from open_tick_in_order [OF t q(1) _ q(2), of ex_P] obtain T' e' where
    "run_open_msgs 4 (p_app ex_P) (tcp_session_ops ex_P) 0 0 T1 e1 = Some (T', e')"
    "tos_to_open_cbs (ce_tci e' 0 0) = [6]" "tcb_state (e_tcbs e' 5) = TS_SYN_SENT"
    by (auto simp: ex_open_rate_def n4 simp del: run_open_msgs.simps)
  with t show "\<exists>T1 e1 T' e'. test_case_tmr_cb TRMT_OPEN 0 0 ?T ex_waiting = Some (T1, e1) \<and>
     run_open_msgs 4 (p_app ex_P) (tcp_session_ops ex_P) 0 0 T1 e1 = Some (T', e') \<and>
     tos_to_open_cbs (ce_tci e' 0 0) = [6] \<and> tcb_state (e_tcbs e' 5) = TS_SYN_SENT" by blast
qed

end
