(* ===== verification/RunnerStop.thy ===== *)
theory RunnerStop
  imports RunnerProps TestSMProps Examples
begin

text \<open>
  The stop of a test case and the statistics of its start. A first message stops the rates; a second
  one purges the sessions. What a purge must not do to the lists is the locale \<open>session_purger\<close>,
  which TCP and UDP fulfil: a purge that returns has emptied them (\<open>purge_cbs_empties\<close>). That it returns is in
  \<open>RunnerPurge\<close>.
\<close>

subsection \<open>A stopped test case is quiet\<close>

lemma rate_zero_eq: "test_case_rate_zero n rl = Some rate_limit_zeroed"
  by (simp add: test_case_rate_zero_def test_case_rate_init_def test_case_rate_target_def RATE_CFG_ZERO_def
      rate_limit_init_def TPG_RATE_LIM_INFINITE_VAL_def)

definition rates_zeroed :: test_rate_state where
  "rates_zeroed = \<lparr>trs_open = rate_limit_zeroed, trs_close = rate_limit_zeroed, trs_send = rate_limit_zeroed\<rparr>"

lemma zeroed_available: "rate_limit_available rate_limit_zeroed = 0"
  by (simp add: rate_limit_available_def rate_limit_zeroed_def)

lemma zeroed_update:
  "test_case_rate_limit_update flags rate_limit_zeroed q a b 0 = (0, rate_limit_zeroed, (flags OR b) AND NOT a)"
  by (simp add: test_case_rate_limit_update_def rate_limit_consume_def rate_limit_reached_def rate_limit_zeroed_def)

lemmas zeroed_simps = zeroed_available zeroed_update

definition stopping_flags :: "run_msg \<Rightarrow> u16 \<Rightarrow> u16 \<Rightarrow> 'y core_env_scheme \<Rightarrow> 'y core_env_scheme" where
  "stopping_flags typ port tcid e =
     upd_tci_at port tcid (\<lambda>c. c\<lparr>trs_flags := (trs_flags (ce_tci e port tcid) OR snd (tmr_arg_flags typ))
                                              AND NOT (fst (tmr_arg_flags typ))\<rparr>) e"

lemma flags_disjoint:
  "TRS_FLAGS_OPEN_IN_PROGRESS OR TRS_FLAGS_CLOSE_IN_PROGRESS OR TRS_FLAGS_SEND_IN_PROGRESS = (0x15 :: u32)"
  by (simp add: TRS_FLAGS_OPEN_IN_PROGRESS_def TRS_FLAGS_CLOSE_IN_PROGRESS_def TRS_FLAGS_SEND_IN_PROGRESS_def)

lemma flags_quiet:
  fixes f :: u32
  shows "((((((f OR 0x02) AND NOT 0x01) OR 0x08) AND NOT 0x04) OR 0x20) AND NOT 0x10) AND 0x15 = 0"
proof (rule bit_eqI)
  fix n
  have "bit (0x15 :: u32) n \<longleftrightarrow> n = 0 \<or> n = 2 \<or> n = 4"
    by (auto simp: bit_numeral_rec bit_1_iff numeral_eq_Suc split: nat.splits)
  then show "bit (((((((f OR 0x02) AND NOT 0x01) OR 0x08) AND NOT 0x04) OR 0x20) AND NOT 0x10) AND 0x15) n \<longleftrightarrow> bit (0 :: u32) n"
    by (auto simp: bit_simps bit_numeral_rec)
qed

lemma stopped_runs:
  assumes "tos_rates T = rates_zeroed"
  shows "test_case_run_open_cb app K port tcid T e = Some (0, T, stopping_flags TRMT_OPEN port tcid e)"
    and "test_case_run_close_cb K port tcid T e = Some (0, T, stopping_flags TRMT_CLOSE port tcid e)"
    and "test_case_run_send_cb app A K port tcid T e = Some (0, T, stopping_flags TRMT_SEND port tcid e)"
  using assms
  by (cases T; simp add: test_case_run_open_cb_def test_case_run_close_cb_def test_case_run_send_cb_def rates_zeroed_def
      zeroed_simps stopping_flags_def tmr_arg_flags_def)+

lemma stopped_flags:
  "\<not> test_case_rate_state_running (ce_tci (stopping_flags TRMT_SEND port tcid
       (stopping_flags TRMT_CLOSE port tcid (stopping_flags TRMT_OPEN port tcid e))) port tcid)"
  unfolding test_case_rate_state_running_def flags_disjoint
  using flags_quiet [of "trs_flags (ce_tci e port tcid)"]
  by (simp add: stopping_flags_def upd_tci_at_def tmr_arg_flags_def TRS_FLAGS_OPEN_IN_PROGRESS_def
      TRS_FLAGS_OPEN_RATE_REACHED_def TRS_FLAGS_CLOSE_IN_PROGRESS_def TRS_FLAGS_CLOSE_RATE_REACHED_def
      TRS_FLAGS_SEND_IN_PROGRESS_def TRS_FLAGS_SEND_RATE_REACHED_def)

text \<open>
  C15: The first stop message of a running test case switches its rates off: the timers are disarmed,
  no session is touched and the message is reposted. From then on every run message that
  is still queued ends without opening, closing or sending anything and is not reposted, so
  that after the three of them no message is in progress and the next stop message can finish.
\<close>

theorem stop_quiesces:
  assumes "tci_configured T" and "tci_running T" and "\<not> tci_stopping T"
  shows "\<exists>T1. test_case_stop_cb app K n port tcid T e = Some (- EAGAIN, False, T1, e) \<and> tci_stopping T1 \<and>
    tci_rate_timers T1 = \<lparr>trt_open_timer = None, trt_close_timer = None, trt_send_timer = None\<rparr> \<and>
    (\<forall>e2. test_case_run_open_cb app K port tcid T1 e2 = Some (0, T1, stopping_flags TRMT_OPEN port tcid e2) \<and>
       test_case_run_close_cb K port tcid T1 e2 = Some (0, T1, stopping_flags TRMT_CLOSE port tcid e2) \<and>
       test_case_run_send_cb app A K port tcid T1 e2 = Some (0, T1, stopping_flags TRMT_SEND port tcid e2) \<and>
       \<not> test_case_rate_state_running (ce_tci (stopping_flags TRMT_SEND port tcid
           (stopping_flags TRMT_CLOSE port tcid (stopping_flags TRMT_OPEN port tcid e2))) port tcid))"
proof -
  define T1 where "T1 = T\<lparr>tci_rate_timers := \<lparr>trt_open_timer = None, trt_close_timer = None, trt_send_timer = None\<rparr>,
      tos_rates := rates_zeroed, tci_stopping := True\<rparr>"
  have "test_case_stop_cb app K n port tcid T e = Some (- EAGAIN, False, T1, e)"
    using assms by (simp add: test_case_stop_cb_def test_case_rate_state_stop_def rate_zero_eq T1_def rates_zeroed_def)
  moreover have "tos_rates T1 = rates_zeroed" "tci_stopping T1"
    "tci_rate_timers T1 = \<lparr>trt_open_timer = None, trt_close_timer = None, trt_send_timer = None\<rparr>"
    by (simp_all add: T1_def)
  ultimately show ?thesis
    by (intro exI [of _ T1]) (simp add: stopped_runs stopped_flags)
qed

subsection \<open>Purging empties the lists\<close>

definition lists_shrink :: "u16 \<Rightarrow> u16 \<Rightarrow> 'y core_env_scheme \<Rightarrow> 'y core_env_scheme \<Rightarrow> bool" where
  "lists_shrink port tcid e e' \<longleftrightarrow> (\<forall>L. set (tos L (ce_tci e' port tcid)) \<subseteq> set (tos L (ce_tci e port tcid)))"

lemma lists_shrink_refl: "ce_tci e' = ce_tci e \<Longrightarrow> lists_shrink port tcid e e'"
  by (simp add: lists_shrink_def)

lemma lists_shrink_trans:
  "lists_shrink port tcid e1 e2 \<Longrightarrow> lists_shrink port tcid e2 e3 \<Longrightarrow> lists_shrink port tcid e1 e3"
  by (fastforce simp: lists_shrink_def)

lemma lists_shrink_rem:
  "lists_shrink port tcid e (upd_tci cb (upd_tos L (remove1 x)) e)"
  unfolding lists_shrink_def
  by (auto simp del: tos.simps upd_tos.simps simp: upd_tci_def get_tci_def tos_upd_tos split: if_splits
      dest: set_remove1_subset [THEN subsetD])

lemma test_cancel_tci:
  "test_tmr_cancel_if_set cb e = Some (cb', e') \<Longrightarrow> ce_tci e' = ce_tci e \<and> l4cb_test_state cb' = l4cb_test_state cb"
  by (auto simp: test_tmr_cancel_if_set_def l4cb_timer_test_cancel_def upd_timer_stats_def split: if_splits)

lemma enter_purged:
  assumes "test_sm_enter_state (test_sm_run (Suc n) app) TSTS_PURGED cb e = Some (cb', e')"
  shows "l4cb_test_state cb' = TSTS_PURGED" "ce_tci e' = ce_tci e"
  using assms by (auto simp: test_sm_enter_state_def test_sm_function_array_def test_sm_SF_purged_def dest!: test_cancel_tci)

lemma purge_array:
  "s \<notin> {TSTS_PURGED, TSTS_SRV_OPENING, TSTS_SRV_CLOSED} \<Longrightarrow>
    test_sm_function_array app s d TSTE_PURGE cb e =
      Option.bind (case s of TSTS_CL_TO_INIT \<Rightarrow> TEST_CBQ_REM_TO_INIT cb e | TSTS_CL_TO_OPEN \<Rightarrow> TEST_CBQ_REM_TO_OPEN cb e
          | TSTS_CL_SENDING \<Rightarrow> TEST_CBQ_REM_TO_SEND cb e | TSTS_SRV_SENDING \<Rightarrow> TEST_CBQ_REM_TO_SEND cb e
          | TSTS_CL_TO_CLOSE \<Rightarrow> TEST_CBQ_REM_CLOSED cb e | TSTS_CL_CLOSED \<Rightarrow> TEST_CBQ_REM_CLOSED cb e
          | _ \<Rightarrow> Some e)
        (test_sm_enter_state d TSTS_PURGED cb)"
  by (cases s) (simp_all add: test_sm_function_array_def test_sm_SF_client_to_init_def
        test_sm_SF_client_to_open_def test_sm_SF_client_opening_def test_sm_SF_client_open_def test_sm_SF_client_sending_def
        test_sm_SF_client_no_snd_win_def test_sm_SF_client_to_close_def test_sm_SF_client_closing_def
        test_sm_SF_client_closed_def test_sm_SF_server_opening_def test_sm_SF_server_open_def
        test_sm_SF_server_sending_def test_sm_SF_server_no_snd_win_def test_sm_SF_server_closing_def
        test_sm_SF_listen_def)

lemma rem_shrinks:
  "(case s of TSTS_CL_TO_INIT \<Rightarrow> TEST_CBQ_REM_TO_INIT cb e | TSTS_CL_TO_OPEN \<Rightarrow> TEST_CBQ_REM_TO_OPEN cb e
      | TSTS_CL_SENDING \<Rightarrow> TEST_CBQ_REM_TO_SEND cb e | TSTS_SRV_SENDING \<Rightarrow> TEST_CBQ_REM_TO_SEND cb e
      | TSTS_CL_TO_CLOSE \<Rightarrow> TEST_CBQ_REM_CLOSED cb e | TSTS_CL_CLOSED \<Rightarrow> TEST_CBQ_REM_CLOSED cb e
      | _ \<Rightarrow> Some e) = Some e1 \<Longrightarrow> lists_shrink port tcid e e1"
  by (cases s) (auto simp: cbq_rem_eqs simp del: tos.simps upd_tos.simps split: if_splits
      intro: lists_shrink_rem lists_shrink_refl)

lemma purge_event_lists:
  assumes "test_sm_dispatch_event app TSTE_PURGE cb e = Some (cb', e')"
  shows "l4cb_test_state cb' = TSTS_PURGED \<and> lists_shrink port tcid e e'"
proof -
  let ?s = "l4cb_test_state cb"
  have d: "test_sm_function_array app ?s (test_sm_run (Suc (Suc 0)) app) TSTE_PURGE cb e = Some (cb', e')"
    using assms by (simp add: test_sm_dispatch_event_def numeral_3_eq_3)
  show ?thesis
  proof (cases "?s \<in> {TSTS_PURGED, TSTS_SRV_OPENING, TSTS_SRV_CLOSED}")
    case True
    then show ?thesis using d
      by (auto simp: test_sm_function_array_def test_sm_SF_purged_def test_sm_SF_server_opening_def
          test_sm_SF_server_closed_def lists_shrink_refl)
  next
    case False
    from d [unfolded purge_array [OF False]] obtain e1 where
      r: "(case ?s of TSTS_CL_TO_INIT \<Rightarrow> TEST_CBQ_REM_TO_INIT cb e | TSTS_CL_TO_OPEN \<Rightarrow> TEST_CBQ_REM_TO_OPEN cb e
          | TSTS_CL_SENDING \<Rightarrow> TEST_CBQ_REM_TO_SEND cb e | TSTS_SRV_SENDING \<Rightarrow> TEST_CBQ_REM_TO_SEND cb e
          | TSTS_CL_TO_CLOSE \<Rightarrow> TEST_CBQ_REM_CLOSED cb e | TSTS_CL_CLOSED \<Rightarrow> TEST_CBQ_REM_CLOSED cb e
          | _ \<Rightarrow> Some e) = Some e1"
      and en: "test_sm_enter_state (test_sm_run (Suc (Suc 0)) app) TSTS_PURGED cb e1 = Some (cb', e')"
      by (auto simp: bind_eq_Some_conv simp del: test_sm_run.simps)
    from enter_purged [OF en] have "lists_shrink port tcid e1 e'" by (intro lists_shrink_refl)
    with rem_shrinks [OF r] enter_purged [OF en] show ?thesis by (blast intro: lists_shrink_trans)
  qed
qed

locale session_purger =
  fixes app :: "'a app_ops" and K :: "('a, 'z, 'y) session_ops" and port tcid :: u16
  assumes get_set: "so_get K (so_set K x cb e) x = cb"
    and set_tci: "ce_tci (so_set K x cb e) = ce_tci e"
    and purge_lists: "l4cb_test_state (so_get K e x) = TSTS_PURGED \<Longrightarrow> sess_purge K x e = Some e' \<Longrightarrow>
      lists_shrink port tcid e e'"
begin

lemma purge_one:
  assumes "so_on K (test_sm_dispatch_event app TSTE_PURGE) x e = Some e1" and "sess_purge K x e1 = Some e2"
  shows "lists_shrink port tcid e e2"
proof -
  from assms(1) obtain cb e' where d: "test_sm_dispatch_event app TSTE_PURGE (so_get K e x) e = Some (cb, e')"
    and e1: "e1 = so_set K x cb e'" by (auto simp: so_on_def)
  from purge_event_lists [OF d, of port tcid] have p: "l4cb_test_state cb = TSTS_PURGED" "lists_shrink port tcid e e'"
    by simp_all
  have "lists_shrink port tcid e' e1" unfolding e1 by (rule lists_shrink_refl [OF set_tci])
  moreover have "lists_shrink port tcid e1 e2" using p(1) assms(2) by (intro purge_lists) (simp_all add: e1 get_set)
  ultimately show ?thesis using p(2) by (blast intro: lists_shrink_trans)
qed

lemma purge_list_empties:
  assumes "test_purge_list (tos L) app K port tcid cnt e = Some (n, e')"
  shows "tos L (ce_tci e' port tcid) = [] \<and> lists_shrink port tcid e e'"
proof -
  let ?P = "\<lambda>cl app' K' port' tcid' cnt e r. cl = tos L \<longrightarrow> app' = app \<longrightarrow> K' = K \<longrightarrow> port' = port \<longrightarrow> tcid' = tcid \<longrightarrow>
      tos L (ce_tci (snd r) port tcid) = [] \<and> lists_shrink port tcid e (snd r)"
  have "?P (tos L) app K port tcid cnt e (n, e')"
  proof (rule test_purge_list.raw_induct [where P = ?P, OF _ assms], intro impI)
    fix f cl app' K' port' tcid' cnt e r
    assume IH: "\<And>cl app' K' port' tcid' cnt e r. f cl app' K' port' tcid' cnt e = Some r \<Longrightarrow> ?P cl app' K' port' tcid' cnt e r"
      and r: "(case cl (ce_tci e port' tcid') of [] \<Rightarrow> Some (cnt, e)
        | x # xs \<Rightarrow> Option.bind (so_on K' (test_sm_dispatch_event app' TSTE_PURGE) x e)
            (\<lambda>e. Option.bind (sess_purge K' x e) (f cl app' K' port' tcid' (cnt + 1)))) = Some r"
      and same: "cl = tos L" "app' = app" "K' = K" "port' = port" "tcid' = tcid"
    show "tos L (ce_tci (snd r) port tcid) = [] \<and> lists_shrink port tcid e (snd r)"
    proof (cases "tos L (ce_tci e port tcid)")
      case Nil
      then show ?thesis using r same by (auto simp: lists_shrink_refl)
    next
      case (Cons x xs)
      with r same obtain e1 e2 where
        s: "so_on K (test_sm_dispatch_event app TSTE_PURGE) x e = Some e1" "sess_purge K x e1 = Some e2"
          "f (tos L) app K port tcid (cnt + 1) e2 = Some r"
        by (auto simp: bind_eq_Some_conv)
      from IH [OF s(3)] purge_one [OF s(1,2)] show ?thesis by (auto intro: lists_shrink_trans)
    qed
  qed
  then show ?thesis by simp
qed

lemma purge_htable_shrinks:
  "purge_htable app K tcid xs e = Some e' \<Longrightarrow> lists_shrink port tcid e e'"
proof (induction xs arbitrary: e)
  case (Cons x xs)
  show ?case
  proof (cases "l4cb_test_case_id (so_get K e x) = tcid")
    case True
    with Cons.prems obtain e1 e2 where
      "so_on K (test_sm_dispatch_event app TSTE_PURGE) x e = Some e1" "sess_purge K x e1 = Some e2"
      "purge_htable app K tcid xs e2 = Some e'"
      by (auto simp: bind_eq_Some_conv)
    then show ?thesis by (blast intro: lists_shrink_trans purge_one Cons.IH)
  next
    case False
    with Cons show ?thesis by simp
  qed
qed (simp add: lists_shrink_refl)

lemma shrink_empty: "lists_shrink port tcid e e' \<Longrightarrow> tos L (ce_tci e port tcid) = [] \<Longrightarrow> tos L (ce_tci e' port tcid) = []"
  unfolding lists_shrink_def by (metis set_empty subset_empty)

lemma purge_cbs_empties:
  assumes "test_case_purge_cbs app K port tcid e = Some e'"
  shows "tos L (ce_tci e' port tcid) = []"
proof -
  have t: "tos_to_init_cbs = tos To_Init" "tos_to_open_cbs = tos To_Open" "tos_to_close_cbs = tos To_Close"
    "tos_to_send_cbs = tos To_Send" "tos_closed_cbs = tos Closed_List" by (rule ext; simp)+
  from assms obtain n1 e1 n2 e2 n3 e3 n4 e4 n5 e5 where
    p: "test_purge_list (tos To_Init) app K port tcid 0 e = Some (n1, e1)"
      "test_purge_list (tos To_Open) app K port tcid 0 e1 = Some (n2, e2)"
      "test_purge_list (tos To_Close) app K port tcid 0 e2 = Some (n3, e3)"
      "test_purge_list (tos To_Send) app K port tcid 0 e3 = Some (n4, e4)"
      "test_purge_list (tos Closed_List) app K port tcid 0 e4 = Some (n5, e5)"
      "purge_htable app K tcid (sess_htable_walk K port e5) e5 = Some e'"
    unfolding test_case_purge_cbs_def t by (auto simp: bind_eq_Some_conv)
  note q = p(1-5) [THEN purge_list_empties] purge_htable_shrinks [OF p(6)]
  have "tos L (ce_tci e5 port tcid) = []" if "L = Closed_List" using q that by simp
  moreover have "tos L (ce_tci e5 port tcid) = []" if "L = To_Send" using q that by (meson shrink_empty)
  moreover have "tos L (ce_tci e5 port tcid) = []" if "L = To_Close" using q that by (meson shrink_empty)
  moreover have "tos L (ce_tci e5 port tcid) = []" if "L = To_Open" using q that by (meson shrink_empty)
  moreover have "tos L (ce_tci e5 port tcid) = []" if "L = To_Init" using q that by (meson shrink_empty)
  ultimately have "tos L (ce_tci e5 port tcid) = []" by (cases L) blast+
  then show ?thesis by (rule shrink_empty [OF q(6)])
qed

end

lemma tcp_terminate_tci: "tsm_terminate_statemachine t e = Some e' \<Longrightarrow> ce_tci e' = ce_tci e"
  by (auto simp: tsm_terminate_statemachine_def split: if_splits)

lemma cancel_if_set_tci:
  "rto_cancel_if_set t e = Some (t', e') \<Longrightarrow> ce_tci e' = ce_tci e"
  "slow_cancel_if_set t e = Some (t', e') \<Longrightarrow> ce_tci e' = ce_tci e"
  by (auto simp: rto_cancel_if_set_def rto_cancel_def tcp_timer_rto_cancel_def slow_cancel_if_set_def slow_cancel_def
      tcp_timer_slow_cancel_def upd_timer_stats_def split: if_splits)

lemma tcp_silent_close_tci:
  assumes "tcp_silent_close t e = Some (r, t', e')"
  shows "ce_tci e' = ce_tci e"
proof -
  let ?e1 = "if \<not> tcb_rst_rcvd t then tcp_send_ctrl_pkt t (RTE_TCP_ACK_FLAG OR RTE_TCP_RST_FLAG) e else e"
  from assms obtain h t2 e2 t3 e3 e4 where
    "rto_cancel_if_set t (?e1\<lparr>e_htable := h\<rparr>) = Some (t2, e2)" "slow_cancel_if_set t2 e2 = Some (t3, e3)"
    "tsm_terminate_statemachine t' e3 = Some e4"
    and e': "e' = (if tcb_malloced t' then tlkp_free_tcb t' (upd_tcp_stats (l4cb_interface t')
                 (\<lambda>s. s\<lparr>ts_tcb_freed := ts_tcb_freed s + 1\<rparr>) e4) else e4)"
    unfolding tcp_silent_close_def tlkp_delete_tcb_def Let_def by (auto simp: bind_eq_Some_conv)
  then have "ce_tci e4 = ce_tci ?e1" by (auto dest!: cancel_if_set_tci tcp_terminate_tci)
  then show ?thesis by (simp add: e' tlkp_free_tcb_def upd_tcp_stats_def)
qed

interpretation tcp_purger: session_purger "p_app P" "tcp_session_ops P" port tcid for P port tcid
proof unfold_locales
  fix x :: cb_id and e e' :: "'a env"
  assume "sess_purge (tcp_session_ops P) x e = Some e'"
  then show "lists_shrink port tcid e e'"
    by (intro lists_shrink_refl)
      (auto simp: tcp_session_ops_def test_case_tcp_purge_def tcp_close_connection_def TCG_SILENT_CLOSE_def on_tcb_def
        tcp_connection_cleanup_def tlkp_free_tcb_def bind_eq_Some_conv split: if_splits dest!: tcp_silent_close_tci)
qed (simp_all add: tcp_session_ops_def)

text \<open>A purged block of UDP is closed without a change of the lists; the closes are counted.\<close>

lemma purged_closing:
  assumes "l4cb_test_state cb = TSTS_PURGED"
  shows "test_notification app TEST_NOTIF_SESS_CLOSING cb e = Some (cb, e)"
    and "test_notification app TEST_NOTIF_SESS_CLOSED cb e =
      Some (cb, upd_tci cb (\<lambda>c. c\<lparr>rs_closed_per_s := rs_closed_per_s c + 1\<rparr>) e)"
  using assms by (simp_all add: test_notification_def test_sess_closed_def test_sm_dispatch_event_def numeral_3_eq_3
      test_sm_function_array_def test_sm_SF_purged_def)

lemma lists_shrink_counter:
  "(\<And>L c. tos L (f c) = tos L c) \<Longrightarrow> ce_tci e' = ce_tci (upd_tci cb f e) \<Longrightarrow> lists_shrink port tcid e e'"
  by (auto simp: lists_shrink_def upd_tci_def get_tci_def split: if_splits)

lemma udp_close_purged:
  fixes u :: "'a ucb"
  assumes "l4cb_test_state u = TSTS_PURGED" and "udp_close_v4 P u e = Some (r, u', e')"
  shows "ce_tci e' = ce_tci (upd_tci u (\<lambda>c. c\<lparr>rs_closed_per_s := rs_closed_per_s c + 1\<rparr>) e)"
proof -
  have "l4cb_test_state (u\<lparr>ucb_state := US_CLOSED\<rparr>) = TSTS_PURGED" using assms(1) by simp
  note n = purged_closing [OF this, of "p_app P"]
  from assms(2) show ?thesis
    by (cases "tlkp_delete_cb u (u_htable e)")
      (auto simp: udp_close_v4_def UDP_NOTIF_def n tlkp_delete_ucb_def tlkp_delete_cb_def upd_tci_def get_tci_def
        udp_connection_cleanup_def tlkp_free_ucb_def upd_udp_stats_def split: if_splits)
qed

interpretation udp_purger: session_purger "p_app P" "udp_session_ops P" port tcid for P port tcid
proof unfold_locales
  fix x :: cb_id and e e' :: "'a uenv"
  assume p: "l4cb_test_state (so_get (udp_session_ops P) e x) = TSTS_PURGED"
    and c: "sess_purge (udp_session_ops P) x e = Some e'"
  show "lists_shrink port tcid e e'"
  proof (cases "ucb_state (u_ucbs e x) \<noteq> US_INIT \<and> ucb_state (u_ucbs e x) \<noteq> US_CLOSED")
    case True
    with p c have "ce_tci e' = ce_tci (upd_tci (u_ucbs e x) (\<lambda>c. c\<lparr>rs_closed_per_s := rs_closed_per_s c + 1\<rparr>) e)"
      by (auto simp: udp_session_ops_def test_case_udp_purge_def test_case_udp_close_def on_ucb_def
          udp_connection_cleanup_def tlkp_free_ucb_def bind_eq_Some_conv dest: udp_close_purged)
    then show ?thesis by (rule lists_shrink_counter [rotated]) (case_tac L; simp)
  next
    case False
    with c have "ce_tci e' = ce_tci e"
      by (auto simp: udp_session_ops_def test_case_udp_purge_def udp_connection_cleanup_def tlkp_free_ucb_def split: if_splits)
    then show ?thesis by (rule lists_shrink_refl)
  qed
qed (simp_all add: udp_session_ops_def)

subsection \<open>The end of a test case\<close>

lemma stop_cb_cases:
  assumes "tci_configured T" and "tci_running T" and "tci_stopping T"
  shows "test_case_stop_cb app K n port tcid T e =
    (case test_case_purge_cbs app K port tcid e of None \<Rightarrow> None
     | Some e' \<Rightarrow> if test_case_rate_state_running (ce_tci e' port tcid) then Some (- EAGAIN, False, T, e')
         else Some (0, True, T\<lparr>tci_stopping := False, tci_running := False, tci_configured := False,
                tstamp_tx_on := (if tcim_tx_tstamp (tci_cfg T) then False else tstamp_tx_on T),
                tstamp_rx_on := (if tcim_rx_tstamp (tci_cfg T) then False else tstamp_rx_on T)\<rparr>, e'))"
  using assms by (cases "test_case_purge_cbs app K port tcid e") (simp_all add: test_case_stop_cb_def)

text \<open>
  A test case with a session that waits to be closed cannot be stopped: the purge takes that session off
  the list of the closed ones, where it is not, and the stop message has no result.
\<close>

theorem stop_with_close_pending_aborts:
  assumes "tci_configured T" and "tci_running T" and "tci_stopping T"
    and "tos_to_init_cbs (ce_tci e port tcid) = []" and "tos_to_open_cbs (ce_tci e port tcid) = []"
    and "tos_to_close_cbs (ce_tci e port tcid) = x # xs"
    and "l4cb_id (so_get K e x) = x" and "l4cb_interface (so_get K e x) = port"
    and "l4cb_test_case_id (so_get K e x) = tcid" and "l4cb_test_state (so_get K e x) = TSTS_CL_TO_CLOSE"
    and "x \<notin> set (tos_closed_cbs (ce_tci e port tcid))"
  shows "test_case_stop_cb app K n port tcid T e = None"
proof -
  have "so_on K (test_sm_dispatch_event app TSTE_PURGE) x e = None"
    using assms by (simp add: so_on_def test_sm_dispatch_event_def numeral_3_eq_3 test_sm_function_array_def
        test_sm_SF_client_to_close_def TEST_CBQ_REM_CLOSED_def get_tci_def)
  then have "test_purge_list tos_to_close_cbs app K port tcid 0 e = None"
    using assms by (subst test_purge_list.simps) simp
  moreover have "test_purge_list tos_to_init_cbs app K port tcid 0 e = Some (0, e)"
    using assms by (subst test_purge_list.simps) simp
  moreover have "test_purge_list tos_to_open_cbs app K port tcid 0 e = Some (0, e)"
    using assms by (subst test_purge_list.simps) simp
  ultimately have "test_case_purge_cbs app K port tcid e = None"
    by (simp add: test_case_purge_cbs_def)
  then show ?thesis by (simp add: stop_cb_cases [OF assms(1-3)])
qed

definition ex_stopping :: "('app, 's) test_run \<Rightarrow> ('app, 's) test_run" where
  "ex_stopping T = T\<lparr>tci_configured := True, tci_running := True, tci_stopping := True\<rparr>"

lemma ex_stopping_simps [simp]: "tci_configured (ex_stopping T)" "tci_running (ex_stopping T)" "tci_stopping (ex_stopping T)"
  by (simp_all add: ex_stopping_def)

text \<open>A core with a session that waits to be opened and one with a session that waits to be closed.\<close>

definition ex_to_open :: "unit env" where
  "ex_to_open = (ex_env (ex_tcb TS_INIT TSTS_CL_TO_OPEN) (ex_pcb (ex_hdr 0 0 0) []))
     \<lparr>ce_tci := (\<lambda>_ _. ex_tci\<lparr>tos_to_open_cbs := [4]\<rparr>), e_htable := (\<lambda>_ _. [])\<rparr>"

definition ex_to_close :: "unit env" where
  "ex_to_close = (ex_env (ex_tcb TS_ESTABLISHED TSTS_CL_TO_CLOSE) (ex_pcb (ex_hdr 0 0 0) []))
     \<lparr>ce_tci := (\<lambda>_ _. ex_tci\<lparr>tos_to_close_cbs := [4]\<rparr>)\<rparr>"

theorem stop_with_close_pending_aborts_witness:
  "\<forall>T :: (unit, unit) test_run.
     test_case_stop_cb (p_app ex_P) (tcp_session_ops ex_P) 1 0 0 (ex_stopping T) ex_to_close = None"
proof
  fix T :: "(unit, unit) test_run"
  show "test_case_stop_cb (p_app ex_P) (tcp_session_ops ex_P) 1 0 0 (ex_stopping T) ex_to_close = None"
    by (rule stop_with_close_pending_aborts [where x = 4 and xs = "[]"])
      (simp_all add: ex_to_close_def ex_tci_def tcp_session_ops_def ex_tcb_def zero_tcb_def)
qed

definition ex_running :: "('app, 's) test_run \<Rightarrow> ('app, 's) test_run" where
  "ex_running T = T\<lparr>tci_configured := True, tci_running := True, tci_stopping := False\<rparr>"

theorem stop_quiesces_witness:
  "\<forall>T :: (unit, unit) test_run. \<exists>T1.
     test_case_stop_cb (p_app ex_P) (tcp_session_ops ex_P) 1 0 0 (ex_running T) ex_to_open = Some (- EAGAIN, False, T1, ex_to_open) \<and>
     test_case_run_open_cb (p_app ex_P) (tcp_session_ops ex_P) 0 0 T1 ex_to_open =
       Some (0, T1, stopping_flags TRMT_OPEN 0 0 ex_to_open)"
proof
  fix T :: "(unit, unit) test_run"
  have "tci_configured (ex_running T)" "tci_running (ex_running T)" "\<not> tci_stopping (ex_running T)"
    by (simp_all add: ex_running_def)
  from stop_quiesces [OF this, of "p_app ex_P" "tcp_session_ops ex_P" 1 0 0 ex_to_open]
  show "\<exists>T1. test_case_stop_cb (p_app ex_P) (tcp_session_ops ex_P) 1 0 0 (ex_running T) ex_to_open = Some (- EAGAIN, False, T1, ex_to_open) \<and>
     test_case_run_open_cb (p_app ex_P) (tcp_session_ops ex_P) 0 0 T1 ex_to_open =
       Some (0, T1, stopping_flags TRMT_OPEN 0 0 ex_to_open)" by blast
qed

end
