(* ===== verification/RunnerPurge.thy ===== *)
theory RunnerPurge
  imports RunnerStop TcpIfaceProps Sessions
begin

text \<open>
  The second stop message of a test case returns: what must hold of the sessions of the test case for that, and what
  is left then. What the protocol must promise of its close is the locale \<open>session_stopper\<close>; TCP and UDP fulfil
  it for tables, timers and counters that agree with the sessions (\<open>tcp_good\<close>, \<open>udp_good\<close>).
\<close>

subsection \<open>Purging one session\<close>

definition sess_purgeable :: "u16 \<Rightarrow> u16 \<Rightarrow> cb_id \<Rightarrow> ('a, 'z) l4cb_scheme \<Rightarrow> 'y core_env_scheme \<Rightarrow> bool" where
  "sess_purgeable port tcid x cb e \<longleftrightarrow>
     l4cb_id cb = x \<and> l4cb_interface cb = port \<and> l4cb_test_case_id cb = tcid \<and> sm_wf cb e \<and> tmr_ok cb e \<and>
     l4cb_test_state cb \<notin> {TSTS_CL_TO_CLOSE, TSTS_PURGED, TSTS_SRV_OPENING, TSTS_SRV_CLOSED}"

lemma cancel_wheel:
  assumes "test_tmr_cancel_if_set cb e = Some (cb', e')"
  shows "ce_test_wheel e' = ce_test_wheel e \<or> TIMER_CANCEL (l4cb_id cb) (ce_test_wheel e) = Some (ce_test_wheel e')"
  using assms by (auto simp: test_tmr_cancel_if_set_def l4cb_timer_test_cancel_def upd_timer_stats_def split: if_splits)

lemma rem_wheel:
  "(case s of TSTS_CL_TO_INIT \<Rightarrow> TEST_CBQ_REM_TO_INIT cb e | TSTS_CL_TO_OPEN \<Rightarrow> TEST_CBQ_REM_TO_OPEN cb e
      | TSTS_CL_SENDING \<Rightarrow> TEST_CBQ_REM_TO_SEND cb e | TSTS_SRV_SENDING \<Rightarrow> TEST_CBQ_REM_TO_SEND cb e
      | TSTS_CL_TO_CLOSE \<Rightarrow> TEST_CBQ_REM_CLOSED cb e | TSTS_CL_CLOSED \<Rightarrow> TEST_CBQ_REM_CLOSED cb e
      | _ \<Rightarrow> Some e) = Some e1 \<Longrightarrow> ce_test_wheel e1 = ce_test_wheel e"
  by (cases s) (auto simp: cbq_rem_eqs upd_tci_def simp del: tos.simps upd_tos.simps split: if_splits)

lemma rem_flags:
  "(case s of TSTS_CL_TO_INIT \<Rightarrow> TEST_CBQ_REM_TO_INIT cb e | TSTS_CL_TO_OPEN \<Rightarrow> TEST_CBQ_REM_TO_OPEN cb e
      | TSTS_CL_SENDING \<Rightarrow> TEST_CBQ_REM_TO_SEND cb e | TSTS_SRV_SENDING \<Rightarrow> TEST_CBQ_REM_TO_SEND cb e
      | TSTS_CL_TO_CLOSE \<Rightarrow> TEST_CBQ_REM_CLOSED cb e | TSTS_CL_CLOSED \<Rightarrow> TEST_CBQ_REM_CLOSED cb e
      | _ \<Rightarrow> Some e) = Some e1 \<Longrightarrow> trs_flags (ce_tci e1 p t) = trs_flags (ce_tci e p t)"
  by (cases s) (auto simp: cbq_rem_eqs upd_tci_def get_tci_def split: if_splits)

lemma purge_event_wheel:
  assumes "test_sm_dispatch_event app TSTE_PURGE cb e = Some (cb', e')"
    and "l4cb_test_state cb \<notin> {TSTS_PURGED, TSTS_SRV_OPENING, TSTS_SRV_CLOSED}"
  shows "(ce_test_wheel e' = ce_test_wheel e \<or> TIMER_CANCEL (l4cb_id cb) (ce_test_wheel e) = Some (ce_test_wheel e')) \<and>
    trs_flags (ce_tci e' p t) = trs_flags (ce_tci e p t)"
proof -
  let ?s = "l4cb_test_state cb"
  have "test_sm_function_array app ?s (test_sm_run (Suc (Suc 0)) app) TSTE_PURGE cb e = Some (cb', e')"
    using assms(1) by (simp add: test_sm_dispatch_event_def numeral_3_eq_3)
  then obtain e1 where
    r: "(case ?s of TSTS_CL_TO_INIT \<Rightarrow> TEST_CBQ_REM_TO_INIT cb e | TSTS_CL_TO_OPEN \<Rightarrow> TEST_CBQ_REM_TO_OPEN cb e
          | TSTS_CL_SENDING \<Rightarrow> TEST_CBQ_REM_TO_SEND cb e | TSTS_SRV_SENDING \<Rightarrow> TEST_CBQ_REM_TO_SEND cb e
          | TSTS_CL_TO_CLOSE \<Rightarrow> TEST_CBQ_REM_CLOSED cb e | TSTS_CL_CLOSED \<Rightarrow> TEST_CBQ_REM_CLOSED cb e
          | _ \<Rightarrow> Some e) = Some e1"
    and en: "test_sm_enter_state (test_sm_run (Suc (Suc 0)) app) TSTS_PURGED cb e1 = Some (cb', e')"
    unfolding purge_array [OF assms(2)] by (auto simp: bind_eq_Some_conv simp del: test_sm_run.simps)
  from en have "test_tmr_cancel_if_set (cb\<lparr>l4cb_test_state := TSTS_PURGED\<rparr>) e1 = Some (cb', e')"
    by (simp add: test_sm_enter_state_def test_sm_function_array_def test_sm_SF_purged_def)
  from cancel_wheel [OF this] rem_wheel [OF r] rem_flags [OF r, of p t] test_cancel_tci [OF this] show ?thesis by simp
qed

lemma cancel_other:
  assumes "wheel_wf w" and "TIMER_CANCEL x w = Some w'" and "y \<noteq> x" and "TIMER_CANCEL y w \<noteq> None"
  shows "TIMER_CANCEL y w' \<noteq> None"
proof -
  have some: "TIMER_CANCEL y v \<noteq> None \<longleftrightarrow> y \<in> set (tw_entries v)" for v
    using tmr_bucket_of_None [of y v] by (auto simp: TIMER_CANCEL_def split: option.splits)
  from TIMER_CANCEL_wf [OF assms(1,2)] assms(3,4) show ?thesis unfolding some by simp
qed

lemma filter_absent: "count_list xs x = 0 \<Longrightarrow> filter (\<lambda>y. y \<noteq> x) xs = xs"
  by (auto simp: count_list_0_iff filter_id_conv)

lemma purge_event_ok:
  fixes cb :: "('a, 'z) l4cb_scheme" and e :: "'y core_env_scheme"
  assumes p: "sess_purgeable port tcid x cb e" and wf: "wheel_wf (ce_test_wheel e)"
  shows "\<exists>cb' e'. test_sm_dispatch_event app TSTE_PURGE cb e = Some (cb', e') \<and>
           l4cb_test_state cb' = TSTS_PURGED \<and> sm_frame cb' e' = sm_frame cb e \<and>
           (\<forall>L. tos L (ce_tci e' port tcid) = filter (\<lambda>y. y \<noteq> x) (tos L (ce_tci e port tcid))) \<and>
           wheel_wf (ce_test_wheel e') \<and> trs_flags (ce_tci e' port tcid) = trs_flags (ce_tci e port tcid) \<and>
           (\<forall>cy y. y \<noteq> x \<longrightarrow> sess_purgeable port tcid y (cy :: ('a, 'z) l4cb_scheme) e \<longrightarrow> sess_purgeable port tcid y cy e')"
proof -
  note q = p [unfolded sess_purgeable_def]
  have "st_of (test_sm_dispatch_event app TSTE_PURGE cb e) = Some TSTS_PURGED"
    using dispatch_refines [of cb e TSTE_PURGE app] q by (simp add: sm_next_def)
  then obtain cb' e' where d: "test_sm_dispatch_event app TSTE_PURGE cb e = Some (cb', e')"
    and st: "l4cb_test_state cb' = TSTS_PURGED" by (auto simp: st_of_def)
  have "keeps cb e (test_sm_dispatch_event app TSTE_PURGE cb e)"
    using q by (intro dispatch_keeps) (simp add: sm_pre_other)
  then have k: "sm_wf cb' e'" "same_cb cb cb'" "others_kept cb e e'"
    unfolding d keeps_def sm_post_def by auto
  have tci: "get_tci cb e = ce_tci e port tcid" "get_tci cb e' = ce_tci e' port tcid" "get_tci cb' e' = ce_tci e' port tcid"
    using q k(2) by (simp_all add: get_tci_def same_cb_def)
  have "count_list (tos L (ce_tci e' port tcid)) x = 0" for L
    using k(1,2) st q unfolding sm_wf_def lists_hold_def tci by (simp add: same_cb_def)
  then have lists: "tos L (ce_tci e' port tcid) = filter (\<lambda>y. y \<noteq> x) (tos L (ce_tci e port tcid))" for L
    using k(3) q filter_absent [of "tos L (ce_tci e' port tcid)" x] unfolding others_kept_def tci by auto
  have ns: "l4cb_test_state cb \<notin> {TSTS_PURGED, TSTS_SRV_OPENING, TSTS_SRV_CLOSED}" using q by auto
  from purge_event_wheel [OF d ns, of port tcid] q have fl: "trs_flags (ce_tci e' port tcid) = trs_flags (ce_tci e port tcid)"
    and w: "ce_test_wheel e' = ce_test_wheel e \<or>
      TIMER_CANCEL x (ce_test_wheel e) = Some (ce_test_wheel e')" by simp_all
  then have wf': "wheel_wf (ce_test_wheel e')" using wf TIMER_CANCEL_wf by (metis)
  have "sess_purgeable port tcid y cy e'" if "y \<noteq> x" and o: "sess_purgeable port tcid y cy e"
    for y and cy :: "('a, 'z) l4cb_scheme"
  proof -
    have "sm_wf cy e'" using sm_wf_others [OF k(3), of cy] o q that by (simp add: sess_purgeable_def)
    moreover have "tmr_ok cy e'"
      using w o that cancel_other [OF wf, of x "ce_test_wheel e'" y] by (auto simp: tmr_ok_def sess_purgeable_def)
    ultimately show ?thesis using o by (simp add: sess_purgeable_def)
  qed
  with d st lists wf' fl dispatch_frame [OF d] show ?thesis by blast
qed

subsection \<open>Purging every session\<close>

text \<open>
  \<open>good A e\<close> is what a protocol keeps of the sessions \<open>A\<close> that are not purged yet: an event of the test state machine
  does not touch it, and the close of a purged session ends it for that session only.
\<close>

locale session_stopper = session_purger app K port tcid
  for app :: "'a app_ops" and K :: "('a, 'z, 'y) session_ops" and port tcid :: u16 +
  fixes good :: "cb_id set \<Rightarrow> 'y core_env_scheme \<Rightarrow> bool"
  assumes get_other: "y \<noteq> x \<Longrightarrow> so_get K (so_set K x cb e) y = so_get K e y"
    and set_wheel: "ce_test_wheel (so_set K x cb e) = ce_test_wheel e"
    and get_more: "core_env.more e' = core_env.more e \<Longrightarrow> so_get K e' = so_get K e"
    and event_walk: "core_env.more e' = core_env.more e \<Longrightarrow>
      sess_htable_walk K port (so_set K x cb e') = sess_htable_walk K port e"
    and event_good: "good A e \<Longrightarrow> x \<in> A \<Longrightarrow> sm_frame cb e' = sm_frame (so_get K e x) e \<Longrightarrow> good A (so_set K x cb e')"
    and walk_distinct: "good A e \<Longrightarrow> distinct (sess_htable_walk K port e)"
    and close_ok: "good A e \<Longrightarrow> x \<in> A \<Longrightarrow> l4cb_test_state (so_get K e x) = TSTS_PURGED \<Longrightarrow>
      \<exists>e'. sess_purge K x e = Some e' \<and> good (A - {x}) e' \<and>
        (\<forall>L. tos L (ce_tci e' port tcid) = tos L (ce_tci e port tcid)) \<and> ce_test_wheel e' = ce_test_wheel e \<and>
        trs_flags (ce_tci e' port tcid) = trs_flags (ce_tci e port tcid) \<and>
        (\<forall>y. y \<noteq> x \<longrightarrow> so_get K e' y = so_get K e y) \<and> l4cb_test_state (so_get K e' x) = TSTS_PURGED \<and>
        set (sess_htable_walk K port e') = set (sess_htable_walk K port e) - {x}"

text \<open>The sessions \<open>A\<close> are those of the test case: on its lists, or in the table with its number.\<close>

definition stop_live ::
  "('a, 'z, 'y) session_ops \<Rightarrow> (cb_id set \<Rightarrow> 'y core_env_scheme \<Rightarrow> bool) \<Rightarrow> u16 \<Rightarrow> u16 \<Rightarrow> cb_id set \<Rightarrow> 'y core_env_scheme
     \<Rightarrow> bool" where
  "stop_live K good port tcid A e \<longleftrightarrow>
     finite A \<and> wheel_wf (ce_test_wheel e) \<and> good A e \<and> (\<forall>x \<in> A. sess_purgeable port tcid x (so_get K e x) e) \<and>
     (\<forall>L. set (tos L (ce_tci e port tcid)) \<subseteq> A) \<and>
     (\<forall>x \<in> set (sess_htable_walk K port e). l4cb_test_case_id (so_get K e x) = tcid \<longrightarrow> x \<in> A) \<and>
     (\<forall>x \<in> A. (\<exists>L. x \<in> set (tos L (ce_tci e port tcid))) \<or> x \<in> set (sess_htable_walk K port e))"

definition purged_to ::
  "('a, 'z, 'y) session_ops \<Rightarrow> (cb_id set \<Rightarrow> 'y core_env_scheme \<Rightarrow> bool) \<Rightarrow> u16 \<Rightarrow> u16 \<Rightarrow> cb_id set \<Rightarrow> 'y core_env_scheme
     \<Rightarrow> cb_id set \<Rightarrow> 'y core_env_scheme \<Rightarrow> bool" where
  "purged_to K good port tcid A e A' e' \<longleftrightarrow>
     A' \<subseteq> A \<and> stop_live K good port tcid A' e' \<and>
     (\<forall>L. tos L (ce_tci e' port tcid) = filter (\<lambda>y. y \<in> A') (tos L (ce_tci e port tcid))) \<and>
     trs_flags (ce_tci e' port tcid) = trs_flags (ce_tci e port tcid) \<and>
     (\<forall>y \<in> A - A'. l4cb_test_state (so_get K e' y) = TSTS_PURGED) \<and> (\<forall>y. y \<notin> A - A' \<longrightarrow> so_get K e' y = so_get K e y)"

lemma purged_to_refl: "stop_live K good port tcid A e \<Longrightarrow> purged_to K good port tcid A e A e"
  unfolding purged_to_def stop_live_def by (auto intro!: filter_True [symmetric])

lemma purged_to_trans:
  assumes "purged_to K good port tcid A e A1 e1" and "purged_to K good port tcid A1 e1 A2 e2"
  shows "purged_to K good port tcid A e A2 e2"
  unfolding purged_to_def
proof (intro conjI allI ballI impI)
  show "A2 \<subseteq> A" "stop_live K good port tcid A2 e2"
    "trs_flags (ce_tci e2 port tcid) = trs_flags (ce_tci e port tcid)" using assms by (auto simp: purged_to_def)
  show "tos L (ce_tci e2 port tcid) = filter (\<lambda>y. y \<in> A2) (tos L (ce_tci e port tcid))" for L
  proof -
    have "(\<lambda>y. y \<in> A2 \<and> y \<in> A1) = (\<lambda>y. y \<in> A2)" using assms(2) by (auto simp: purged_to_def)
    then show ?thesis using assms by (simp add: purged_to_def conj_commute)
  qed
  show "l4cb_test_state (so_get K e2 y) = TSTS_PURGED" if "y \<in> A - A2" for y
    using assms that by (cases "y \<in> A1") (auto simp: purged_to_def)
  show "so_get K e2 y = so_get K e y" if "y \<notin> A - A2" for y
    using assms that by (auto simp: purged_to_def)
qed

context session_stopper
begin

lemma purge_step:
  assumes live: "stop_live K good port tcid A e" and x: "x \<in> A"
  shows "\<exists>e1 e2. so_on K (test_sm_dispatch_event app TSTE_PURGE) x e = Some e1 \<and> sess_purge K x e1 = Some e2 \<and>
           purged_to K good port tcid A e (A - {x}) e2"
proof -
  from live have fin: "finite A" and wf: "wheel_wf (ce_test_wheel e)" and g: "good A e"
    and p: "\<And>y. y \<in> A \<Longrightarrow> sess_purgeable port tcid y (so_get K e y) e"
    and l: "\<And>L. set (tos L (ce_tci e port tcid)) \<subseteq> A"
    and w: "\<And>y. y \<in> set (sess_htable_walk K port e) \<Longrightarrow> l4cb_test_case_id (so_get K e y) = tcid \<Longrightarrow> y \<in> A"
    and c: "\<And>y. y \<in> A \<Longrightarrow> (\<exists>L. y \<in> set (tos L (ce_tci e port tcid))) \<or> y \<in> set (sess_htable_walk K port e)"
    by (auto simp: stop_live_def)
  from purge_event_ok [OF p [OF x] wf, of app] obtain cb e' where
    d: "test_sm_dispatch_event app TSTE_PURGE (so_get K e x) e = Some (cb, e')"
    and st: "l4cb_test_state cb = TSTS_PURGED" and fr: "sm_frame cb e' = sm_frame (so_get K e x) e"
    and ls: "\<And>L. tos L (ce_tci e' port tcid) = filter (\<lambda>y. y \<noteq> x) (tos L (ce_tci e port tcid))"
    and wf': "wheel_wf (ce_test_wheel e')" and fl: "trs_flags (ce_tci e' port tcid) = trs_flags (ce_tci e port tcid)"
    and oth: "\<And>cy y. y \<noteq> x \<Longrightarrow> sess_purgeable port tcid y (cy :: ('a, 'z) l4cb_scheme) e \<Longrightarrow> sess_purgeable port tcid y cy e'"
    by blast
  let ?e1 = "so_set K x cb e'"
  have m: "core_env.more e' = core_env.more e" using fr by (simp add: sm_frame_def)
  have get: "so_get K ?e1 y = (if y = x then cb else so_get K e y)" for y
    using get_set get_other get_more [OF m] by (cases "y = x") simp_all
  have "good A ?e1" using event_good [OF g x fr] .
  from close_ok [OF this x] st obtain e2 where
    s: "sess_purge K x ?e1 = Some e2" and g2: "good (A - {x}) e2"
    and l2: "\<And>L. tos L (ce_tci e2 port tcid) = tos L (ce_tci e' port tcid)" and w2: "ce_test_wheel e2 = ce_test_wheel e'"
    and fl2: "trs_flags (ce_tci e2 port tcid) = trs_flags (ce_tci e' port tcid)"
    and get2: "\<And>y. y \<noteq> x \<Longrightarrow> so_get K e2 y = so_get K e y" and st2: "l4cb_test_state (so_get K e2 x) = TSTS_PURGED"
    and walk2: "set (sess_htable_walk K port e2) = set (sess_htable_walk K port e) - {x}"
    using get by (auto simp: set_tci set_wheel event_walk [OF m])
  have pur: "sess_purgeable port tcid y (so_get K e2 y) e2" if "y \<in> A - {x}" for y
  proof -
    have q: "sess_purgeable port tcid y (so_get K e y) e'" using oth p that by simp
    then have "get_tci (so_get K e y) e' = ce_tci e' port tcid" "get_tci (so_get K e y) e2 = ce_tci e2 port tcid"
      by (simp_all add: get_tci_def sess_purgeable_def)
    with q show ?thesis using get2 that l2 w2 by (auto simp: sess_purgeable_def sm_wf_def lists_hold_def tmr_ok_def)
  qed
  have lists: "tos L (ce_tci e2 port tcid) = filter (\<lambda>y. y \<in> A - {x}) (tos L (ce_tci e port tcid))" for L
    using l2 ls l [of L] by (auto intro!: filter_cong)
  have "stop_live K good port tcid (A - {x}) e2"
    unfolding stop_live_def lists using fin wf' w2 g2 pur w c get2 walk2 by auto
  moreover have "A - (A - {x}) = {x}" using x by auto
  ultimately have "purged_to K good port tcid A e (A - {x}) e2"
    unfolding purged_to_def using lists get2 st2 fl fl2 by auto
  with d s show ?thesis by (auto simp: so_on_def)
qed

lemma purge_list_ok:
  "stop_live K good port tcid A e \<Longrightarrow> \<exists>n e' A'. test_purge_list (tos L) app K port tcid cnt e = Some (n, e') \<and>
     purged_to K good port tcid A e A' e' \<and> tos L (ce_tci e' port tcid) = []"
proof (induction "card A" arbitrary: A e cnt rule: less_induct)
  case less
  show ?case
  proof (cases "tos L (ce_tci e port tcid)")
    case Nil
    then have "test_purge_list (tos L) app K port tcid cnt e = Some (cnt, e)" by (subst test_purge_list.simps) simp
    then show ?thesis using Nil purged_to_refl [OF less.prems] by blast
  next
    case (Cons x xs)
    have "set (tos L (ce_tci e port tcid)) \<subseteq> A" "finite A" using less.prems by (simp_all add: stop_live_def)
    then have x: "x \<in> A" "finite A" using Cons by simp_all
    from purge_step [OF less.prems x(1)] obtain e1 e2 where
      s: "so_on K (test_sm_dispatch_event app TSTE_PURGE) x e = Some e1" "sess_purge K x e1 = Some e2"
        "purged_to K good port tcid A e (A - {x}) e2" by blast
    have "card (A - {x}) < card A" using x by (rule card_Diff1_less [rotated])
    moreover have "stop_live K good port tcid (A - {x}) e2" using s(3) by (simp add: purged_to_def)
    ultimately obtain n e' A' where
      r: "test_purge_list (tos L) app K port tcid (cnt + 1) e2 = Some (n, e')"
        "purged_to K good port tcid (A - {x}) e2 A' e'" "tos L (ce_tci e' port tcid) = []"
      using less.hyps [of "A - {x}" e2 "cnt + 1"] by blast
    have "test_purge_list (tos L) app K port tcid cnt e = Some (n, e')"
      using Cons s(1,2) r(1) by (subst test_purge_list.simps) simp
    with r purged_to_trans [OF s(3) r(2)] show ?thesis by blast
  qed
qed

lemma purge_htable_ok:
  "stop_live K good port tcid A e \<Longrightarrow> distinct xs \<Longrightarrow> A \<subseteq> set xs \<Longrightarrow>
     \<forall>x \<in> set xs. l4cb_test_case_id (so_get K e x) = tcid \<longrightarrow> x \<in> A \<Longrightarrow>
     \<exists>e'. purge_htable app K tcid xs e = Some e' \<and> purged_to K good port tcid A e {} e'"
proof (induction xs arbitrary: A e)
  case Nil
  then show ?case using purged_to_refl [OF Nil.prems(1)] by simp
next
  case (Cons x xs)
  show ?case
  proof (cases "l4cb_test_case_id (so_get K e x) = tcid")
    case True
    with Cons.prems(4) have x: "x \<in> A" by simp
    from purge_step [OF Cons.prems(1) this] obtain e1 e2 where
      s: "so_on K (test_sm_dispatch_event app TSTE_PURGE) x e = Some e1" "sess_purge K x e1 = Some e2"
        "purged_to K good port tcid A e (A - {x}) e2" by blast
    have "stop_live K good port tcid (A - {x}) e2" "A - {x} \<subseteq> set xs"
      "\<forall>y \<in> set xs. l4cb_test_case_id (so_get K e2 y) = tcid \<longrightarrow> y \<in> A - {x}"
      using s(3) Cons.prems by (auto simp: purged_to_def)
    from Cons.IH [OF this(1) _ this(2,3)] Cons.prems(2) obtain e' where
      "purge_htable app K tcid xs e2 = Some e'" "purged_to K good port tcid (A - {x}) e2 {} e'" by auto
    with s True purged_to_trans [OF s(3)] show ?thesis by auto
  next
    case False
    have "x \<notin> A" using False Cons.prems(1) by (auto simp: stop_live_def sess_purgeable_def)
    with False Cons.prems show ?thesis by (auto intro!: Cons.IH)
  qed
qed

lemma purge_cbs_ok:
  assumes "stop_live K good port tcid A e"
  shows "\<exists>e'. test_case_purge_cbs app K port tcid e = Some e' \<and> purged_to K good port tcid A e {} e'"
proof -
  have t: "tos_to_init_cbs = tos To_Init" "tos_to_open_cbs = tos To_Open" "tos_to_close_cbs = tos To_Close"
    "tos_to_send_cbs = tos To_Send" "tos_closed_cbs = tos Closed_List" by (rule ext; simp)+
  have live: "stop_live K good port tcid B f" if "purged_to K good port tcid A e B f" for B f
    using that by (simp add: purged_to_def)
  have stays: "purged_to K good port tcid A e C g \<and> tos L (ce_tci g port tcid) = []"
    if "purged_to K good port tcid A e B f" "purged_to K good port tcid B f C g" "tos L (ce_tci f port tcid) = []" for B f C g L
  proof -
    have "tos L (ce_tci g port tcid) = filter (\<lambda>y. y \<in> C) (tos L (ce_tci f port tcid))"
      using that(2) unfolding purged_to_def by blast
    with that(3) purged_to_trans [OF that(1,2)] show ?thesis by simp
  qed
  from purge_list_ok [OF assms, of To_Init 0] obtain n1 e1 A1 where
    r1: "test_purge_list (tos To_Init) app K port tcid 0 e = Some (n1, e1)" "purged_to K good port tcid A e A1 e1"
      "tos To_Init (ce_tci e1 port tcid) = []" by blast
  from purge_list_ok [OF live [OF r1(2)], of To_Open 0] obtain n2 e2 A2 where
    r2: "test_purge_list (tos To_Open) app K port tcid 0 e1 = Some (n2, e2)" "purged_to K good port tcid A1 e1 A2 e2"
      "tos To_Open (ce_tci e2 port tcid) = []" by blast
  note p2 = stays [OF r1(2) r2(2) r1(3)]
  from purge_list_ok [OF live [OF conjunct1 [OF p2]], of To_Close 0] obtain n3 e3 A3 where
    r3: "test_purge_list (tos To_Close) app K port tcid 0 e2 = Some (n3, e3)" "purged_to K good port tcid A2 e2 A3 e3"
      "tos To_Close (ce_tci e3 port tcid) = []" by blast
  note p3 = stays [OF conjunct1 [OF p2] r3(2)]
  from purge_list_ok [OF live, of A3 e3 To_Send 0] p3 p2 obtain n4 e4 A4 where
    r4: "test_purge_list (tos To_Send) app K port tcid 0 e3 = Some (n4, e4)" "purged_to K good port tcid A3 e3 A4 e4"
      "tos To_Send (ce_tci e4 port tcid) = []" by blast
  have q3: "purged_to K good port tcid A e A3 e3" using p3 p2 by blast
  note p4 = stays [OF q3 r4(2)]
  have q4: "purged_to K good port tcid A e A4 e4" by (rule purged_to_trans [OF q3 r4(2)])
  from purge_list_ok [OF live [OF q4], of Closed_List 0] obtain n5 e5 A5 where
    r5: "test_purge_list (tos Closed_List) app K port tcid 0 e4 = Some (n5, e5)" "purged_to K good port tcid A4 e4 A5 e5"
      "tos Closed_List (ce_tci e5 port tcid) = []" by blast
  have q5: "purged_to K good port tcid A e A5 e5" by (rule purged_to_trans [OF q4 r5(2)])
  have "tos L (ce_tci e5 port tcid) = []" for L
    using p2 p3 p4 stays [OF q4 r5(2)] r1(3) r2(3) r3(3) r4(3) r5(3) q3 by (cases L) blast+
  then have A5: "A5 \<subseteq> set (sess_htable_walk K port e5)" and w: "\<forall>x \<in> set (sess_htable_walk K port e5).
      l4cb_test_case_id (so_get K e5 x) = tcid \<longrightarrow> x \<in> A5"
    and d: "distinct (sess_htable_walk K port e5)"
    using live [OF q5] walk_distinct by (auto simp: stop_live_def)
  from purge_htable_ok [OF live [OF q5] d A5 w] obtain e6 where
    r6: "purge_htable app K tcid (sess_htable_walk K port e5) e5 = Some e6" "purged_to K good port tcid A5 e5 {} e6" by blast
  have "test_case_purge_cbs app K port tcid e = Some e6"
    unfolding test_case_purge_cbs_def t by (simp add: r1(1) r2(1) r3(1) r4(1) r5(1) r6(1))
  with purged_to_trans [OF q5 r6(2)] show ?thesis by blast
qed

lemma purge_cbs_done:
  assumes "stop_live K good port tcid A e"
  shows "\<exists>e'. test_case_purge_cbs app K port tcid e = Some e' \<and> good {} e' \<and>
    trs_flags (ce_tci e' port tcid) = trs_flags (ce_tci e port tcid) \<and> (\<forall>L. tos L (ce_tci e' port tcid) = []) \<and>
    (\<forall>x \<in> set (sess_htable_walk K port e'). l4cb_test_case_id (so_get K e' x) \<noteq> tcid) \<and>
    (\<forall>x \<in> A. l4cb_test_state (so_get K e' x) = TSTS_PURGED) \<and> (\<forall>x. x \<notin> A \<longrightarrow> so_get K e' x = so_get K e x)"
  using purge_cbs_ok [OF assms] by (auto simp: purged_to_def stop_live_def)

end

subsection \<open>The table\<close>

text \<open>A bucket holds a session once, and only sessions with its hash.\<close>

definition table_ok :: "u16 \<Rightarrow> (u16 \<Rightarrow> u32 \<Rightarrow> cb_id list) \<Rightarrow> (cb_id \<Rightarrow> u32) \<Rightarrow> bool" where
  "table_ok port h hash \<longleftrightarrow> (\<forall>i. distinct (h port i) \<and> (\<forall>x \<in> set (h port i). i = TPG_HASH_MOD (hash x)))"

lemma hash_mod_less: "unat (TPG_HASH_MOD h) < 2 ^ 20"
proof -
  have "TPG_HASH_MOD h \<le> 0xfffff" unfolding TPG_HASH_MOD_def by (rule word_and_le1)
  then show ?thesis by (simp add: word_le_nat_alt)
qed

lemma walk_set:
  assumes "table_ok port h hash"
  shows "x \<in> set (tlkp_walk_v4 h port) \<longleftrightarrow> x \<in> set (h port (TPG_HASH_MOD (hash x)))"
proof
  assume "x \<in> set (tlkp_walk_v4 h port)"
  then show "x \<in> set (h port (TPG_HASH_MOD (hash x)))" using assms by (auto simp: tlkp_walk_v4_def table_ok_def)
next
  assume "x \<in> set (h port (TPG_HASH_MOD (hash x)))"
  then have "x \<in> set (h port (of_nat (unat (TPG_HASH_MOD (hash x)))))" by simp
  moreover have "unat (TPG_HASH_MOD (hash x)) \<in> {0..<2 ^ 20}"
    unfolding atLeastLessThan_iff using hash_mod_less [of "hash x"] by (intro conjI) (rule le0)
  then have "h port (of_nat (unat (TPG_HASH_MOD (hash x)))) \<in> set (map (\<lambda>i. h port (of_nat i)) [0..<2 ^ 20])"
    unfolding set_map set_upt by (rule imageI)
  ultimately show "x \<in> set (tlkp_walk_v4 h port)" unfolding tlkp_walk_v4_def set_concat by (rule UN_I [rotated])
qed

lemma walk_ok_distinct:
  assumes "table_ok port h hash"
  shows "distinct (tlkp_walk_v4 h port)"
proof -
  have "distinct (concat (map (\<lambda>i. h port (of_nat i)) [0..<n]))" if "n \<le> 2 ^ 32" for n
    using that
  proof (induction n)
    case (Suc n)
    have "x \<notin> set (h port (of_nat i))" if x: "x \<in> set (h port (of_nat n))" and i: "i < n" for x i
    proof
      assume "x \<in> set (h port (of_nat i))"
      with x assms have "(of_nat n :: u32) = of_nat i" unfolding table_ok_def by metis
      then have "unat (of_nat n :: u32) = unat (of_nat i :: u32)" by simp
      with i Suc.prems show False by (simp add: unat_of_nat)
    qed
    then show ?case using Suc assms by (auto simp: table_ok_def)
  qed simp
  then show ?thesis by (simp add: tlkp_walk_v4_def)
qed

lemma delete_ok:
  assumes t: "table_ok port h hash" and d: "tlkp_delete_cb cb h = Some h'"
    and cb: "l4cb_interface cb = port" "l4cb_rx_hash cb = hash (l4cb_id cb)"
  shows "table_ok port h' hash" "set (h' port i) = set (h port i) - {l4cb_id cb}"
    "set (tlkp_walk_v4 h' port) = set (tlkp_walk_v4 h port) - {l4cb_id cb}"
proof -
  let ?b = "TPG_HASH_MOD (hash (l4cb_id cb))"
  have dist: "distinct (h port j)" for j using t by (simp add: table_ok_def)
  from d cb have h': "h' port j = (if j = ?b then remove1 (l4cb_id cb) (h port j) else h port j)" for j
    by (auto simp: tlkp_delete_cb_def Let_def split: if_splits)
  have out: "l4cb_id cb \<notin> set (h port j)" if "j \<noteq> ?b" for j using t that by (auto simp: table_ok_def)
  show b: "set (h' port i) = set (h port i) - {l4cb_id cb}" for i
    using dist out by (auto simp: h')
  show t': "table_ok port h' hash" using t b by (auto simp: table_ok_def h')
  show "set (tlkp_walk_v4 h' port) = set (tlkp_walk_v4 h port) - {l4cb_id cb}"
    using b walk_set [OF t] walk_set [OF t'] by blast
qed

lemma table_cong: "(\<And>x. hash' x = hash x) \<Longrightarrow> table_ok port h hash' = table_ok port h hash"
  by (simp add: table_ok_def)

subsection \<open>TCP\<close>

text \<open>
  A session of TCP is in the table exactly when its connection is neither initial nor closed, its timers are those of
  its flags, and the statistics of the port count at least the open connections of the test case.
\<close>

definition tcp_good :: "u16 \<Rightarrow> cb_id set \<Rightarrow> 'a env \<Rightarrow> bool" where
  "tcp_good port A e \<longleftrightarrow>
     finite A \<and> table_ok port (e_htable e) (\<lambda>x. l4cb_rx_hash (e_tcbs e x)) \<and>
     (\<forall>x \<in> A. l4cb_id (e_tcbs e x) = x \<and> l4cb_interface (e_tcbs e x) = port \<and> tmr_inv (e_tcbs e x) e \<and>
        (in_table (e_tcbs e x) e \<longleftrightarrow> tcb_state (e_tcbs e x) \<notin> {TS_INIT, TS_CLOSED})) \<and>
     (\<forall>st. st \<notin> {TS_INIT, TS_CLOSED} \<longrightarrow>
        card {x \<in> A. tcb_state (e_tcbs e x) = st} \<le> unat (tsms_tcb_states (e_tsm_stats e port) st))"

lemma tcp_more:
  "core_env.more e' = core_env.more e \<Longrightarrow> e_tcbs e' = e_tcbs e \<and> e_htable e' = e_htable e \<and> e_tsm_stats e' = e_tsm_stats e \<and>
     e_rto_wheel e' = e_rto_wheel e \<and> e_slow_wheel e' = e_slow_wheel (e :: 'a env)"
  by (cases e; cases e') simp

lemma tcb_more:
  "l4cb.more t' = l4cb.more t \<Longrightarrow> tcb_state t' = tcb_state t \<and> tcb_on_rto_list t' = tcb_on_rto_list t \<and>
     tcb_on_slow_list t' = tcb_on_slow_list (t :: 'a tcb)"
  by (cases t; cases t') simp

lemma tcp_event_good:
  assumes g: "tcp_good port A (e :: 'a env)" and f: "sm_frame cb e' = sm_frame (e_tcbs e x) e"
  shows "tcp_good port A (e'\<lparr>e_tcbs := (e_tcbs e')(x := cb)\<rparr>)"
proof -
  let ?e = "e'\<lparr>e_tcbs := (e_tcbs e')(x := cb)\<rparr>"
  from f have m: "core_env.more e' = core_env.more e" and c: "l4cb.more cb = l4cb.more (e_tcbs e x)"
    and i: "l4cb_id cb = l4cb_id (e_tcbs e x)" "l4cb_rx_hash cb = l4cb_rx_hash (e_tcbs e x)"
      "l4cb_interface cb = l4cb_interface (e_tcbs e x)"
    by (simp_all add: sm_frame_def)
  have same: "l4cb_id (e_tcbs ?e y) = l4cb_id (e_tcbs e y)" "l4cb_rx_hash (e_tcbs ?e y) = l4cb_rx_hash (e_tcbs e y)"
    "l4cb_interface (e_tcbs ?e y) = l4cb_interface (e_tcbs e y)" "tcb_state (e_tcbs ?e y) = tcb_state (e_tcbs e y)"
    "tcb_on_rto_list (e_tcbs ?e y) = tcb_on_rto_list (e_tcbs e y)"
    "tcb_on_slow_list (e_tcbs ?e y) = tcb_on_slow_list (e_tcbs e y)" for y
    using tcp_more [OF m] tcb_more [OF c] i by simp_all
  have env: "e_htable ?e = e_htable e" "e_tsm_stats ?e = e_tsm_stats e" "e_rto_wheel ?e = e_rto_wheel e"
    "e_slow_wheel ?e = e_slow_wheel e" using tcp_more [OF m] by simp_all
  show ?thesis using g unfolding tcp_good_def tmr_inv_def in_table_def same env .
qed

lemma count_less:
  assumes "finite A" and "x \<in> A" and "f x = s"
    and "\<forall>st. P st \<longrightarrow> card {y \<in> A. f y = st} \<le> unat (c st)" and "P s"
    and "\<And>y. y \<noteq> x \<Longrightarrow> f' y = f y"
  shows "0 < c s" and "\<forall>st. P st \<longrightarrow> card {y \<in> A - {x}. f' y = st} \<le> unat ((c(s := c s - 1)) st :: u32)"
proof -
  have fin: "finite {y \<in> A. f y = st}" for st using assms(1) by simp
  have "x \<in> {y \<in> A. f y = s}" using assms(2,3) by simp
  with fin have "0 < card {y \<in> A. f y = s}" by (auto simp: card_gt_0_iff)
  with assms(4,5) have pos: "0 < unat (c s)" by (meson le_trans less_le_trans)
  then show "0 < c s" by (simp add: word_less_nat_alt)
  show "\<forall>st. P st \<longrightarrow> card {y \<in> A - {x}. f' y = st} \<le> unat ((c(s := c s - 1)) st)"
  proof (intro allI impI)
    fix st assume "P st"
    have eq: "{y \<in> A - {x}. f' y = st} = {y \<in> A. f y = st} - {x}" using assms(6) by auto
    show "card {y \<in> A - {x}. f' y = st} \<le> unat ((c(s := c s - 1)) st)"
    proof (cases "st = s")
      case True
      have "unat (c s - 1) = unat (c s) - 1" using pos by (intro unat_minus_one) auto
      moreover have "card ({y \<in> A. f y = s} - {x}) = card {y \<in> A. f y = s} - 1"
        using assms(2,3) by (intro card_Diff_singleton) simp
      moreover have "card {y \<in> A. f y = s} \<le> unat (c s)" using assms(4,5) by blast
      ultimately show ?thesis unfolding True eq [unfolded True] fun_upd_same by (simp only: diff_le_mono)
    next
      case False
      have "card ({y \<in> A. f y = st} - {x}) \<le> card {y \<in> A. f y = st}" by (rule card_Diff1_le)
      then show ?thesis unfolding eq using False assms(4) \<open>P st\<close> by (simp add: le_trans)
    qed
  qed
qed

lemma tcp_cleanup_good:
  "tcp_good port A (tcp_connection_cleanup t e) = tcp_good port A e"
  by (simp add: tcp_good_def tcp_connection_cleanup_def tlkp_free_tcb_def tmr_inv_def in_table_def)

lemma tcp_cleanup_same:
  "ce_tci (tcp_connection_cleanup t e) = ce_tci e" "ce_test_wheel (tcp_connection_cleanup t e) = ce_test_wheel e"
  "e_tcbs (tcp_connection_cleanup t e) = e_tcbs e" "e_htable (tcp_connection_cleanup t e) = e_htable e"
  by (simp_all add: tcp_connection_cleanup_def tlkp_free_tcb_def)

definition tcp_closed_ok :: "u16 \<Rightarrow> cb_id set \<Rightarrow> cb_id \<Rightarrow> 'a env \<Rightarrow> 'a env \<Rightarrow> bool" where
  "tcp_closed_ok port A x e e' \<longleftrightarrow>
     tcp_good port (A - {x}) e' \<and> ce_tci e' = ce_tci e \<and> ce_test_wheel e' = ce_test_wheel e \<and>
     (\<forall>y. y \<noteq> x \<longrightarrow> e_tcbs e' y = e_tcbs e y) \<and> l4cb_test_state (e_tcbs e' x) = l4cb_test_state (e_tcbs e x) \<and>
     set (tlkp_walk_v4 (e_htable e') port) = set (tlkp_walk_v4 (e_htable e) port) - {x}"

lemma tcp_purge_idle:
  assumes g: "tcp_good port A e" and x: "x \<in> A" and st: "tcb_state (e_tcbs e x) \<in> {TS_INIT, TS_CLOSED}"
  shows "tcp_closed_ok port A x e e"
proof -
  have sub: "card {y \<in> A - {x}. tcb_state (e_tcbs e y) = s} \<le> card {y \<in> A. tcb_state (e_tcbs e y) = s}" for s
    using g by (intro card_mono) (auto simp: tcp_good_def)
  have "\<not> in_table (e_tcbs e x) e" using g x st unfolding tcp_good_def by blast
  moreover have "l4cb_id (e_tcbs e x) = x" "l4cb_interface (e_tcbs e x) = port" using g x unfolding tcp_good_def by blast+
  moreover have t: "table_ok port (e_htable e) (\<lambda>x. l4cb_rx_hash (e_tcbs e x))" using g unfolding tcp_good_def by blast
  ultimately have "x \<notin> set (tlkp_walk_v4 (e_htable e) port)" using walk_set [OF t, of x] by (simp add: in_table_def)
  moreover have "tcp_good port (A - {x}) e"
    using g le_trans [OF sub] unfolding tcp_good_def by blast
  ultimately show ?thesis by (simp add: tcp_closed_ok_def)
qed

lemma tcp_purge_open:
  assumes g: "tcp_good port A e" and x: "x \<in> A" and st: "tcb_state (e_tcbs e x) \<notin> {TS_INIT, TS_CLOSED}"
  shows "\<exists>t' e0. tcp_silent_close (e_tcbs e x) e = Some (0, t', e0) \<and>
           tcp_closed_ok port A x e (e0\<lparr>e_tcbs := (e_tcbs e0)(x := t')\<rparr>)"
proof -
  let ?t = "e_tcbs e x"
  let ?hash = "\<lambda>x. l4cb_rx_hash (e_tcbs e x)"
  let ?P = "\<lambda>st. st \<notin> {TS_INIT, TS_CLOSED}"
  have a: "l4cb_id ?t = x" "l4cb_interface ?t = port" "tmr_inv ?t e" "in_table ?t e"
    and t: "table_ok port (e_htable e) ?hash" and fin: "finite A"
    and cnt: "\<forall>st. ?P st \<longrightarrow> card {y \<in> A. tcb_state (e_tcbs e y) = st} \<le> unat (tsms_tcb_states (e_tsm_stats e port) st)"
    using g x st unfolding tcp_good_def by blast+
  note c = count_less [OF fin x refl cnt st]
  have "0 < tsms_tcb_states (e_tsm_stats e (l4cb_interface ?t)) (tcb_state ?t)" using c(1) [of "\<lambda>y. tcb_state (e_tcbs e y)"] a(2) by simp
  from silent_close_ok [OF a(3,4) this] st obtain t' e0 where
    s: "tcp_silent_close ?t e = Some (0, t', e0)" and f: "l4cb_test_state t' = l4cb_test_state ?t" "tcb_state t' = tcb_state ?t"
      "tlkp_delete_cb ?t (e_htable e) = Some (e_htable e0)" "tmr_inv t' e0" "others_timers t' e0 = others_timers ?t e"
      "e_tcbs e0 = e_tcbs e" "l4cb_id t' = l4cb_id ?t" "l4cb_rx_hash t' = l4cb_rx_hash ?t"
      "ce_test_wheel e0 = ce_test_wheel e"
      "e_tsm_stats e0 = (e_tsm_stats e)(port := tsm_dec_state (tcb_state ?t) (e_tsm_stats e port))"
    using a(2) by auto
  let ?e = "e0\<lparr>e_tcbs := (e_tcbs e0)(x := t')\<rparr>"
  note del = delete_ok [OF t f(3) a(2), unfolded a(1), OF refl]
  have hash: "l4cb_rx_hash (e_tcbs ?e y) = ?hash y" for y using f(6,8) by simp
  have oth: "e_tcbs ?e y = e_tcbs e y" if "y \<noteq> x" for y using f(6) that by simp
  have each: "l4cb_id (e_tcbs ?e y) = y \<and> l4cb_interface (e_tcbs ?e y) = port \<and> tmr_inv (e_tcbs ?e y) ?e \<and>
      (in_table (e_tcbs ?e y) ?e \<longleftrightarrow> tcb_state (e_tcbs ?e y) \<notin> {TS_INIT, TS_CLOSED})" if y: "y \<in> A - {x}" for y
  proof -
    have b: "l4cb_id (e_tcbs e y) = y" "l4cb_interface (e_tcbs e y) = port" "tmr_inv (e_tcbs e y) e"
      "in_table (e_tcbs e y) e \<longleftrightarrow> tcb_state (e_tcbs e y) \<notin> {TS_INIT, TS_CLOSED}"
      using g y unfolding tcp_good_def by blast+
    have w: "set (tw_entries (e_rto_wheel e0)) - {x} = set (tw_entries (e_rto_wheel e)) - {x}"
      "set (tw_entries (e_slow_wheel e0)) - {x} = set (tw_entries (e_slow_wheel e)) - {x}"
      using f(5,7) a(1) by (simp_all add: others_timers_def)
    have "y \<in> set (tw_entries (e_rto_wheel e0)) \<longleftrightarrow> y \<in> set (tw_entries (e_rto_wheel e))"
      "y \<in> set (tw_entries (e_slow_wheel e0)) \<longleftrightarrow> y \<in> set (tw_entries (e_slow_wheel e))"
      using w y by blast+
    then have "tmr_inv (e_tcbs e y) ?e" using b(1,3) f(4) by (simp add: tmr_inv_def)
    moreover have "in_table (e_tcbs e y) ?e = in_table (e_tcbs e y) e"
      using del(2) b(1,2) y by (simp add: in_table_def)
    ultimately show ?thesis using b oth [of y] y by simp
  qed
  have stats: "tsms_tcb_states (e_tsm_stats ?e port) =
      (tsms_tcb_states (e_tsm_stats e port))(tcb_state ?t := tsms_tcb_states (e_tsm_stats e port) (tcb_state ?t) - 1)"
    using f(10) by (simp add: tsm_dec_state_def)
  have "\<forall>st. ?P st \<longrightarrow> card {y \<in> A - {x}. tcb_state (e_tcbs ?e y) = st} \<le> unat (tsms_tcb_states (e_tsm_stats ?e port) st)"
    unfolding stats using oth by (intro c(2)) simp
  moreover have "table_ok port (e_htable ?e) (\<lambda>x. l4cb_rx_hash (e_tcbs ?e x))"
    unfolding hash using del(1) by simp
  ultimately have "tcp_good port (A - {x}) ?e" using each fin unfolding tcp_good_def by blast
  moreover have "ce_tci ?e = ce_tci e" using tcp_silent_close_tci [OF s] by simp
  ultimately have "tcp_closed_ok port A x e ?e" using f(1,9) oth del(3) by (simp add: tcp_closed_ok_def)
  with s show ?thesis by blast
qed

lemma tcp_purge_ok:
  assumes g: "tcp_good port A e" and x: "x \<in> A"
  shows "\<exists>e'. test_case_tcp_purge P x e = Some e' \<and> tcp_closed_ok port A x e e'"
proof -
  have clean: "tcp_closed_ok port A x e (if \<not> tcb_malloced t then tcp_connection_cleanup t f else f)"
    if "tcp_closed_ok port A x e f" for f t
    using that by (simp add: tcp_closed_ok_def tcp_cleanup_good tcp_cleanup_same)
  show ?thesis
  proof (cases "tcb_state (e_tcbs e x) \<in> {TS_INIT, TS_CLOSED}")
    case True
    then show ?thesis using clean [OF tcp_purge_idle [OF g x True]] by (auto simp: test_case_tcp_purge_def)
  next
    case False
    from tcp_purge_open [OF g x False] obtain t' e0 where
      s: "tcp_silent_close (e_tcbs e x) e = Some (0, t', e0)"
      and ok: "tcp_closed_ok port A x e (e0\<lparr>e_tcbs := (e_tcbs e0)(x := t')\<rparr>)" by blast
    have "tcp_close_connection P x TCG_SILENT_CLOSE e = Some (0, e0\<lparr>e_tcbs := (e_tcbs e0)(x := t')\<rparr>)"
      using s by (simp add: tcp_close_connection_def on_tcb_def TCG_SILENT_CLOSE_def)
    then show ?thesis using False clean [OF ok, of t'] by (simp add: test_case_tcp_purge_def split: if_splits)
  qed
qed

interpretation tcp_stopper: session_stopper "p_app P" "tcp_session_ops P" port tcid "tcp_good port" for P port tcid
proof unfold_locales
  fix e e' :: "'a env" and x y :: cb_id and cb :: "'a tcb" and A :: "cb_id set"
  note ops = tcp_session_ops_def
  show "y \<noteq> x \<Longrightarrow> so_get (tcp_session_ops P) (so_set (tcp_session_ops P) x cb e) y = so_get (tcp_session_ops P) e y"
    "ce_test_wheel (so_set (tcp_session_ops P) x cb e) = ce_test_wheel e"
    by (simp_all add: ops)
  show "so_get (tcp_session_ops P) e' = so_get (tcp_session_ops P) e"
    "sess_htable_walk (tcp_session_ops P) port (so_set (tcp_session_ops P) x cb e') = sess_htable_walk (tcp_session_ops P) port e"
    if "core_env.more e' = core_env.more e"
    using tcp_more [OF that] by (simp_all add: ops)
  show "tcp_good port A (so_set (tcp_session_ops P) x cb e')"
    if "tcp_good port A e" "sm_frame cb e' = sm_frame (so_get (tcp_session_ops P) e x) e"
    using tcp_event_good that by (simp add: ops)
  show "distinct (sess_htable_walk (tcp_session_ops P) port e)" if "tcp_good port A e"
    using that walk_ok_distinct by (auto simp: ops tcp_good_def)
  show "\<exists>e'. sess_purge (tcp_session_ops P) x e = Some e' \<and> tcp_good port (A - {x}) e' \<and>
      (\<forall>L. tos L (ce_tci e' port tcid) = tos L (ce_tci e port tcid)) \<and> ce_test_wheel e' = ce_test_wheel e \<and>
      trs_flags (ce_tci e' port tcid) = trs_flags (ce_tci e port tcid) \<and>
      (\<forall>y. y \<noteq> x \<longrightarrow> so_get (tcp_session_ops P) e' y = so_get (tcp_session_ops P) e y) \<and>
      l4cb_test_state (so_get (tcp_session_ops P) e' x) = TSTS_PURGED \<and>
      set (sess_htable_walk (tcp_session_ops P) port e') = set (sess_htable_walk (tcp_session_ops P) port e) - {x}"
    if "tcp_good port A e" "x \<in> A" "l4cb_test_state (so_get (tcp_session_ops P) e x) = TSTS_PURGED"
    using tcp_purge_ok [OF that(1,2), of P] that(3) by (auto simp: ops tcp_closed_ok_def)
qed

subsection \<open>UDP\<close>

definition udp_in_table :: "'a ucb \<Rightarrow> 'a uenv \<Rightarrow> bool" where
  "udp_in_table u e \<longleftrightarrow> l4cb_id u \<in> set (u_htable e (l4cb_interface u) (TPG_HASH_MOD (l4cb_rx_hash u)))"

definition udp_good :: "u16 \<Rightarrow> cb_id set \<Rightarrow> 'a uenv \<Rightarrow> bool" where
  "udp_good port A e \<longleftrightarrow>
     finite A \<and> table_ok port (u_htable e) (\<lambda>x. l4cb_rx_hash (u_ucbs e x)) \<and>
     (\<forall>x \<in> A. l4cb_id (u_ucbs e x) = x \<and> l4cb_interface (u_ucbs e x) = port \<and>
        (udp_in_table (u_ucbs e x) e \<longleftrightarrow> ucb_state (u_ucbs e x) \<notin> {US_INIT, US_CLOSED}))"

lemma udp_more: "core_env.more e' = core_env.more e \<Longrightarrow> u_ucbs e' = u_ucbs e \<and> u_htable e' = u_htable (e :: 'a uenv)"
  by (cases e; cases e') simp

lemma ucb_more: "l4cb.more u' = l4cb.more u \<Longrightarrow> ucb_state u' = ucb_state (u :: 'a ucb)"
  by (cases u; cases u') simp

lemma udp_event_good:
  assumes g: "udp_good port A (e :: 'a uenv)" and f: "sm_frame cb e' = sm_frame (u_ucbs e x) e"
  shows "udp_good port A (e'\<lparr>u_ucbs := (u_ucbs e')(x := cb)\<rparr>)"
proof -
  let ?e = "e'\<lparr>u_ucbs := (u_ucbs e')(x := cb)\<rparr>"
  from f have m: "core_env.more e' = core_env.more e" and c: "l4cb.more cb = l4cb.more (u_ucbs e x)"
    and i: "l4cb_id cb = l4cb_id (u_ucbs e x)" "l4cb_rx_hash cb = l4cb_rx_hash (u_ucbs e x)"
      "l4cb_interface cb = l4cb_interface (u_ucbs e x)"
    by (simp_all add: sm_frame_def)
  have same: "l4cb_id (u_ucbs ?e y) = l4cb_id (u_ucbs e y)" "l4cb_rx_hash (u_ucbs ?e y) = l4cb_rx_hash (u_ucbs e y)"
    "l4cb_interface (u_ucbs ?e y) = l4cb_interface (u_ucbs e y)" "ucb_state (u_ucbs ?e y) = ucb_state (u_ucbs e y)" for y
    using udp_more [OF m] ucb_more [OF c] i by simp_all
  have env: "u_htable ?e = u_htable e" using udp_more [OF m] by simp
  show ?thesis using g unfolding udp_good_def udp_in_table_def same env .
qed

definition udp_closed_ok :: "u16 \<Rightarrow> u16 \<Rightarrow> cb_id set \<Rightarrow> cb_id \<Rightarrow> 'a uenv \<Rightarrow> 'a uenv \<Rightarrow> bool" where
  "udp_closed_ok port tcid A x e e' \<longleftrightarrow>
     udp_good port (A - {x}) e' \<and> (\<forall>L. tos L (ce_tci e' port tcid) = tos L (ce_tci e port tcid)) \<and>
     ce_test_wheel e' = ce_test_wheel e \<and> trs_flags (ce_tci e' port tcid) = trs_flags (ce_tci e port tcid) \<and>
     (\<forall>y. y \<noteq> x \<longrightarrow> u_ucbs e' y = u_ucbs e y) \<and> l4cb_test_state (u_ucbs e' x) = l4cb_test_state (u_ucbs e x) \<and>
     set (tlkp_walk_v4 (u_htable e') port) = set (tlkp_walk_v4 (u_htable e) port) - {x}"

lemma udp_cleanup_ok:
  "udp_closed_ok port tcid A x e (udp_connection_cleanup u f) = udp_closed_ok port tcid A x e f"
  "udp_closed_ok port tcid A x e (upd_udp_stats p g f) = udp_closed_ok port tcid A x e f"
  by (simp_all add: udp_closed_ok_def udp_good_def udp_in_table_def udp_connection_cleanup_def tlkp_free_ucb_def
      upd_udp_stats_def)

lemma udp_purge_idle:
  assumes g: "udp_good port A e" and x: "x \<in> A" and st: "ucb_state (u_ucbs e x) \<in> {US_INIT, US_CLOSED}"
  shows "udp_closed_ok port tcid A x e e"
proof -
  have "\<not> udp_in_table (u_ucbs e x) e" using g x st unfolding udp_good_def by blast
  moreover have "l4cb_id (u_ucbs e x) = x" "l4cb_interface (u_ucbs e x) = port" using g x unfolding udp_good_def by blast+
  moreover have t: "table_ok port (u_htable e) (\<lambda>x. l4cb_rx_hash (u_ucbs e x))" using g unfolding udp_good_def by blast
  ultimately have "x \<notin> set (tlkp_walk_v4 (u_htable e) port)" using walk_set [OF t, of x] by (simp add: udp_in_table_def)
  moreover have "udp_good port (A - {x}) e" using g unfolding udp_good_def by blast
  ultimately show ?thesis by (simp add: udp_closed_ok_def)
qed

lemma counted_lists:
  "tos L (ce_tci (upd_tci cb (\<lambda>c. c\<lparr>rs_closed_per_s := rs_closed_per_s c + n\<rparr>) e) p i) = tos L (ce_tci e p i)"
  "ce_test_wheel (upd_tci cb f e) = ce_test_wheel e"
  "trs_flags (ce_tci (upd_tci cb (\<lambda>c. c\<lparr>rs_closed_per_s := rs_closed_per_s c + n\<rparr>) e) p i) = trs_flags (ce_tci e p i)"
  by (cases L) (auto simp: upd_tci_def get_tci_def)

lemma udp_purge_open:
  fixes e :: "'a uenv"
  assumes g: "udp_good port A e" and x: "x \<in> A" and st: "ucb_state (u_ucbs e x) \<notin> {US_INIT, US_CLOSED}"
    and p: "l4cb_test_state (u_ucbs e x) = TSTS_PURGED"
  shows "\<exists>e1. test_case_udp_close P x e = Some e1 \<and> udp_closed_ok port tcid A x e e1"
proof -
  let ?hash = "\<lambda>x. l4cb_rx_hash (u_ucbs e x)"
  let ?u = "(u_ucbs e x)\<lparr>ucb_state := US_CLOSED\<rparr>"
  let ?e = "upd_tci ?u (\<lambda>c. c\<lparr>rs_closed_per_s := rs_closed_per_s c + 1\<rparr>) e"
  have a: "l4cb_id (u_ucbs e x) = x" "l4cb_interface (u_ucbs e x) = port" "udp_in_table (u_ucbs e x) e"
    and t: "table_ok port (u_htable e) ?hash" and fin: "finite A"
    using g x st unfolding udp_good_def by blast+
  obtain h where d: "tlkp_delete_cb ?u (u_htable e) = Some h"
    using a(3) by (simp add: tlkp_delete_cb_def Let_def udp_in_table_def)
  have "l4cb_interface ?u = port" "l4cb_rx_hash ?u = ?hash (l4cb_id ?u)" "l4cb_id ?u = x" using a by simp_all
  note del = delete_ok [OF t d this(1,2), unfolded this(3)]
  have "l4cb_test_state ?u = TSTS_PURGED" using p by simp
  note n = purged_closing [OF this, of "p_app P"]
  let ?f = "?e\<lparr>u_htable := h, u_ucbs := (u_ucbs e)(x := ?u)\<rparr>"
  have hash: "l4cb_rx_hash (u_ucbs ?f y) = ?hash y" for y by simp
  have each: "l4cb_id (u_ucbs ?f y) = y \<and> l4cb_interface (u_ucbs ?f y) = port \<and>
      (udp_in_table (u_ucbs ?f y) ?f \<longleftrightarrow> ucb_state (u_ucbs ?f y) \<notin> {US_INIT, US_CLOSED})" if y: "y \<in> A - {x}" for y
  proof -
    have b: "l4cb_id (u_ucbs e y) = y" "l4cb_interface (u_ucbs e y) = port"
      "udp_in_table (u_ucbs e y) e \<longleftrightarrow> ucb_state (u_ucbs e y) \<notin> {US_INIT, US_CLOSED}"
      using g y unfolding udp_good_def by blast+
    have "udp_in_table (u_ucbs e y) ?f = udp_in_table (u_ucbs e y) e"
      using del(2) b(1,2) y by (simp add: udp_in_table_def)
    then show ?thesis using b y by simp
  qed
  have "table_ok port (u_htable ?f) (\<lambda>x. l4cb_rx_hash (u_ucbs ?f x))" unfolding hash using del(1) by simp
  with each fin have "udp_good port (A - {x}) ?f" unfolding udp_good_def by blast
  then have ok: "udp_closed_ok port tcid A x e ?f"
    using del(3) by (simp add: udp_closed_ok_def counted_lists)
  let ?g = "upd_udp_stats port (\<lambda>s. s\<lparr>us_ucb_freed := us_ucb_freed s + 1\<rparr>) ?f"
  have ok2: "udp_closed_ok port tcid A x e (udp_connection_cleanup ?u ?g)" using ok by (simp only: udp_cleanup_ok)
  have "test_case_udp_close P x e = Some (if ucb_malloced ?u then udp_connection_cleanup ?u ?g else ?f)"
    using d a(2) by (simp add: test_case_udp_close_def on_ucb_def udp_close_v4_def UDP_NOTIF_def n tlkp_delete_ucb_def
        upd_tci_def upd_udp_stats_def udp_connection_cleanup_def tlkp_free_ucb_def)
  with ok ok2 show ?thesis by (simp split: if_splits)
qed

lemma udp_purge_ok:
  assumes g: "udp_good port A e" and x: "x \<in> A" and p: "l4cb_test_state (u_ucbs e x) = TSTS_PURGED"
  shows "\<exists>e'. test_case_udp_purge P x e = Some e' \<and> udp_closed_ok port tcid A x e e'"
proof (cases "ucb_state (u_ucbs e x) \<in> {US_INIT, US_CLOSED}")
  case True
  then show ?thesis using udp_purge_idle [OF g x True] by (auto simp: test_case_udp_purge_def udp_cleanup_ok)
next
  case False
  from udp_purge_open [OF g x False p, of P tcid] obtain e1 where
    "test_case_udp_close P x e = Some e1" "udp_closed_ok port tcid A x e e1" by blast
  then show ?thesis using False by (auto simp: test_case_udp_purge_def udp_cleanup_ok)
qed

interpretation udp_stopper: session_stopper "p_app P" "udp_session_ops P" port tcid "udp_good port" for P port tcid
proof unfold_locales
  fix e e' :: "'a uenv" and x y :: cb_id and cb :: "'a ucb" and A :: "cb_id set"
  note ops = udp_session_ops_def
  show "y \<noteq> x \<Longrightarrow> so_get (udp_session_ops P) (so_set (udp_session_ops P) x cb e) y = so_get (udp_session_ops P) e y"
    "ce_test_wheel (so_set (udp_session_ops P) x cb e) = ce_test_wheel e"
    by (simp_all add: ops)
  show "so_get (udp_session_ops P) e' = so_get (udp_session_ops P) e"
    "sess_htable_walk (udp_session_ops P) port (so_set (udp_session_ops P) x cb e') = sess_htable_walk (udp_session_ops P) port e"
    if "core_env.more e' = core_env.more e"
    using udp_more [OF that] by (simp_all add: ops)
  show "udp_good port A (so_set (udp_session_ops P) x cb e')"
    if "udp_good port A e" "sm_frame cb e' = sm_frame (so_get (udp_session_ops P) e x) e"
    using udp_event_good that by (simp add: ops)
  show "distinct (sess_htable_walk (udp_session_ops P) port e)" if "udp_good port A e"
    using that walk_ok_distinct by (auto simp: ops udp_good_def)
  show "\<exists>e'. sess_purge (udp_session_ops P) x e = Some e' \<and> udp_good port (A - {x}) e' \<and>
      (\<forall>L. tos L (ce_tci e' port tcid) = tos L (ce_tci e port tcid)) \<and> ce_test_wheel e' = ce_test_wheel e \<and>
      trs_flags (ce_tci e' port tcid) = trs_flags (ce_tci e port tcid) \<and>
      (\<forall>y. y \<noteq> x \<longrightarrow> so_get (udp_session_ops P) e' y = so_get (udp_session_ops P) e y) \<and>
      l4cb_test_state (so_get (udp_session_ops P) e' x) = TSTS_PURGED \<and>
      set (sess_htable_walk (udp_session_ops P) port e') = set (sess_htable_walk (udp_session_ops P) port e) - {x}"
    if "udp_good port A e" "x \<in> A" "l4cb_test_state (so_get (udp_session_ops P) e x) = TSTS_PURGED"
    using udp_purge_ok [OF that(1,2), of P tcid] that(3) by (auto simp: ops udp_closed_ok_def)
qed

subsection \<open>The end of a test case\<close>

lemma stop_returns:
  assumes "tci_configured T" and "tci_running T" and "tci_stopping T"
    and "test_case_purge_cbs app K port tcid e = Some e'"
    and "trs_flags (ce_tci e' port tcid) = trs_flags (ce_tci e port tcid)"
  shows "\<exists>T'. test_case_stop_cb app K n port tcid T e =
           Some (if test_case_rate_state_running (ce_tci e port tcid) then - EAGAIN else 0,
                 \<not> test_case_rate_state_running (ce_tci e port tcid), T', e') \<and>
           tci_running T' = test_case_rate_state_running (ce_tci e port tcid) \<and>
           tci_configured T' = test_case_rate_state_running (ce_tci e port tcid)"
  using assms by (simp add: stop_cb_cases test_case_rate_state_running_def)

text \<open>
  C14: The second stop message of a test case, of TCP or of UDP, always returns, and it purges: let the live sessions be
  those on the five lists of the test case or in the table with its number, each where its state says and none of them
  waiting to be closed (which aborts the stop, \<open>stop_with_close_pending_aborts\<close>) or in a state that is only passed
  through (SRV_OPENING, SRV_CLOSED), with tables, timers and counters that agree with the sessions. Then every one of them ends in state PURGED, the lists are empty, no session in the table
  belongs to the test case, and the blocks of other sessions are untouched. The message reports the end and
  unconfigures the test case when no run message is in progress, and is reposted otherwise.
\<close>

theorem stop_purges_all_sessions:
  assumes "tci_configured T" and "tci_running T" and "tci_stopping T"
    and "stop_live (tcp_session_ops P) (tcp_good port) port tcid A e"
    and "stop_live (udp_session_ops Q) (udp_good port) port tcid B u"
  shows "(\<exists>T' e'. let busy = test_case_rate_state_running (ce_tci e port tcid)
            in test_case_stop_cb (p_app P) (tcp_session_ops P) n port tcid T e =
                 Some (if busy then - EAGAIN else 0, \<not> busy, T', e') \<and>
               tci_running T' = busy \<and> tci_configured T' = busy \<and>
               (\<forall>L. tos L (ce_tci e' port tcid) = []) \<and> (\<forall>x \<in> A. l4cb_test_state (e_tcbs e' x) = TSTS_PURGED) \<and>
               (\<forall>x \<in> set (tlkp_walk_v4 (e_htable e') port). l4cb_test_case_id (e_tcbs e' x) \<noteq> tcid) \<and>
               (\<forall>x. x \<notin> A \<longrightarrow> e_tcbs e' x = e_tcbs e x))
       \<and> (\<exists>T' u'. let busy = test_case_rate_state_running (ce_tci u port tcid)
            in test_case_stop_cb (p_app Q) (udp_session_ops Q) n port tcid T u =
                 Some (if busy then - EAGAIN else 0, \<not> busy, T', u') \<and>
               tci_running T' = busy \<and> tci_configured T' = busy \<and>
               (\<forall>L. tos L (ce_tci u' port tcid) = []) \<and> (\<forall>x \<in> B. l4cb_test_state (u_ucbs u' x) = TSTS_PURGED) \<and>
               (\<forall>x \<in> set (tlkp_walk_v4 (u_htable u') port). l4cb_test_case_id (u_ucbs u' x) \<noteq> tcid) \<and>
               (\<forall>x. x \<notin> B \<longrightarrow> u_ucbs u' x = u_ucbs u x))"
proof -
  have tcp: "so_get (tcp_session_ops P) = e_tcbs"
    "sess_htable_walk (tcp_session_ops P) = (\<lambda>port e. tlkp_walk_v4 (e_htable e) port)"
    and udp: "so_get (udp_session_ops Q) = u_ucbs"
    "sess_htable_walk (udp_session_ops Q) = (\<lambda>port e. tlkp_walk_v4 (u_htable e) port)"
    by (simp_all add: tcp_session_ops_def udp_session_ops_def)
  from tcp_stopper.purge_cbs_done [OF assms(4)] obtain e' where
    e': "test_case_purge_cbs (p_app P) (tcp_session_ops P) port tcid e = Some e'"
      "trs_flags (ce_tci e' port tcid) = trs_flags (ce_tci e port tcid)" "\<forall>L. tos L (ce_tci e' port tcid) = []"
      "\<forall>x \<in> set (tlkp_walk_v4 (e_htable e') port). l4cb_test_case_id (e_tcbs e' x) \<noteq> tcid"
      "\<forall>x \<in> A. l4cb_test_state (e_tcbs e' x) = TSTS_PURGED" "\<forall>x. x \<notin> A \<longrightarrow> e_tcbs e' x = e_tcbs e x"
    unfolding tcp by blast
  from udp_stopper.purge_cbs_done [OF assms(5)] obtain u' where
    u': "test_case_purge_cbs (p_app Q) (udp_session_ops Q) port tcid u = Some u'"
      "trs_flags (ce_tci u' port tcid) = trs_flags (ce_tci u port tcid)" "\<forall>L. tos L (ce_tci u' port tcid) = []"
      "\<forall>x \<in> set (tlkp_walk_v4 (u_htable u') port). l4cb_test_case_id (u_ucbs u' x) \<noteq> tcid"
      "\<forall>x \<in> B. l4cb_test_state (u_ucbs u' x) = TSTS_PURGED" "\<forall>x. x \<notin> B \<longrightarrow> u_ucbs u' x = u_ucbs u x"
    unfolding udp by blast
  from stop_returns [OF assms(1-3) e'(1,2), of n] stop_returns [OF assms(1-3) u'(1,2), of n] e'(3-) u'(3-)
  show ?thesis unfolding Let_def by blast
qed

text \<open>
  A client that waits to be opened and one with an open connection; a server that listens.
\<close>

definition ex_live :: "unit env" where
  "ex_live = (ex_env (ex_tcb TS_ESTABLISHED TSTS_CL_OPEN) (ex_pcb (ex_hdr 0 0 0) []))
     \<lparr>ce_tci := (\<lambda>_ _. ex_tci\<lparr>tos_to_open_cbs := [4]\<rparr>),
      e_tcbs := (\<lambda>x. if x = 4 then (ex_tcb TS_INIT TSTS_CL_TO_OPEN)\<lparr>l4cb_id := 4\<rparr>
                      else (ex_tcb TS_ESTABLISHED TSTS_CL_OPEN)\<lparr>l4cb_id := x\<rparr>),
      e_htable := (\<lambda>p b. if p = 0 \<and> b = TPG_HASH_MOD 184 then [5] else [])\<rparr>"

lemma ex_live_ok: "stop_live (tcp_session_ops ex_P) (tcp_good 0) 0 0 {4, 5} ex_live"
proof -
  have t: "table_ok 0 (e_htable ex_live) (\<lambda>x. l4cb_rx_hash (e_tcbs ex_live x))"
    by (simp add: table_ok_def ex_live_def ex_tcb_def)
  have w: "x \<in> set (tlkp_walk_v4 (e_htable ex_live) 0) \<longleftrightarrow> x = 5" for x
    unfolding walk_set [OF t] by (simp add: ex_live_def ex_tcb_def)
  have c: "{x. (x = 4 \<or> x = 5) \<and> tcb_state (e_tcbs ex_live x) = st} \<subseteq> {5}" if "st \<noteq> TS_INIT" for st
    using that by (auto simp: ex_live_def ex_tcb_def)
  have "card {x \<in> {4, 5}. tcb_state (e_tcbs ex_live x) = st} \<le> unat (tsms_tcb_states (e_tsm_stats ex_live 0) st)"
    if "st \<noteq> TS_INIT" for st
    using card_mono [OF _ c [OF that]] by (simp add: ex_live_def ex_env_def ex_tsm_stats_def)
  then have good: "tcp_good 0 {4, 5} ex_live" using t
    by (simp add: tcp_good_def in_table_def tmr_inv_def ex_live_def ex_env_def ex_tcb_def zero_tcb_def tw_entries_def ex_wheel_def
        wheel_wf_def)
  have live: "sess_purgeable 0 0 x (e_tcbs ex_live x) ex_live" if "x \<in> {4, 5}" for x
  proof -
    have "\<forall>L. count_list (tos L (ce_tci ex_live 0 0)) x = (if x = 4 \<and> L = To_Open then 1 else 0)"
      using that by (intro allI, case_tac L) (auto simp: ex_live_def ex_tci_def)
    then show ?thesis using that
      by (auto simp: sess_purgeable_def sm_wf_def lists_hold_def tmr_ok_def get_tci_def ex_live_def ex_tcb_def zero_tcb_def)
  qed
  have l: "set (tos L (ce_tci ex_live 0 0)) \<subseteq> {4}" for L by (cases L) (simp_all add: ex_live_def ex_tci_def)
  have "4 \<in> set (tos To_Open (ce_tci ex_live 0 0))" by (simp add: ex_live_def)
  then have on: "(\<exists>L. x \<in> set (tos L (ce_tci ex_live 0 0))) \<or> x \<in> set (tlkp_walk_v4 (e_htable ex_live) 0)" if "x \<in> {4, 5}" for x
    using that w by blast
  have wheel: "wheel_wf (ce_test_wheel ex_live)" by (simp add: ex_live_def ex_env_def)
  have ops: "so_get (tcp_session_ops ex_P) = e_tcbs"
    "sess_htable_walk (tcp_session_ops ex_P) = (\<lambda>port e. tlkp_walk_v4 (e_htable e) port)"
    by (simp_all add: tcp_session_ops_def)
  show ?thesis unfolding stop_live_def ops
  proof (intro conjI ballI allI impI)
    show "set (tos L (ce_tci ex_live 0 0)) \<subseteq> {4, 5}" for L using l [of L] by blast
  qed (use good live on w wheel in simp_all)
qed

lemma ex_uenv_ok: "stop_live (udp_session_ops ex_P) (udp_good 0) 0 0 {3} ex_uenv"
proof -
  have t: "table_ok 0 (u_htable ex_uenv) (\<lambda>x. l4cb_rx_hash (u_ucbs ex_uenv x))"
    by (simp add: table_ok_def ex_uenv_def)
  have w: "x \<in> set (tlkp_walk_v4 (u_htable ex_uenv) 0) \<longleftrightarrow> x = 3" for x
    unfolding walk_set [OF t] by (simp add: ex_uenv_def)
  have "udp_good 0 {3} ex_uenv" using t by (simp add: udp_good_def udp_in_table_def ex_uenv_def ex_srv_ucb_def)
  moreover have l: "tos L (ce_tci ex_uenv 0 0) = []" for L by (cases L) (simp_all add: ex_uenv_def ex_tci_def)
  moreover have "sess_purgeable 0 0 3 (u_ucbs ex_uenv 3) ex_uenv"
    using l by (simp add: sess_purgeable_def sm_wf_def lists_hold_def tmr_ok_def get_tci_def)
      (simp add: ex_uenv_def ex_srv_ucb_def)
  moreover have "wheel_wf (ce_test_wheel ex_uenv)" by (simp add: ex_uenv_def)
  ultimately show ?thesis using w unfolding stop_live_def udp_session_ops_def by simp
qed

theorem stop_purges_all_sessions_witness:
  "\<forall>T :: (unit, unit) test_run.
     (\<exists>T' e'. test_case_stop_cb (p_app ex_P) (tcp_session_ops ex_P) 1 0 0 (ex_stopping T) ex_live = Some (0, True, T', e') \<and>
        l4cb_test_state (e_tcbs e' 4) = TSTS_PURGED \<and> l4cb_test_state (e_tcbs e' 5) = TSTS_PURGED \<and> \<not> tci_running T') \<and>
     (\<exists>T' u'. test_case_stop_cb (p_app ex_P) (udp_session_ops ex_P) 1 0 0 (ex_stopping T) ex_uenv = Some (0, True, T', u') \<and>
        l4cb_test_state (u_ucbs u' 3) = TSTS_PURGED)"
proof
  fix T :: "(unit, unit) test_run"
  have "test_case_rate_state_running (ce_tci ex_live 0 0) = False" "test_case_rate_state_running (ce_tci ex_uenv 0 0) = False"
    by (simp_all add: test_case_rate_state_running_def ex_live_def ex_uenv_def ex_tci_def)
  note r = stop_purges_all_sessions [OF ex_stopping_simps [of T] ex_live_ok ex_uenv_ok, where n = 1, unfolded Let_def this if_False]
  from conjunct1 [OF r] obtain T1 e' where
    "test_case_stop_cb (p_app ex_P) (tcp_session_ops ex_P) 1 0 0 (ex_stopping T) ex_live = Some (0, \<not> False, T1, e')"
    "\<not> tci_running T1" "\<forall>x \<in> {4, 5}. l4cb_test_state (e_tcbs e' x) = TSTS_PURGED" by blast
  moreover from conjunct2 [OF r] obtain T2 u' where
    "test_case_stop_cb (p_app ex_P) (udp_session_ops ex_P) 1 0 0 (ex_stopping T) ex_uenv = Some (0, \<not> False, T2, u')"
    "l4cb_test_state (u_ucbs u' 3) = TSTS_PURGED" by blast
  ultimately show "(\<exists>T' e'. test_case_stop_cb (p_app ex_P) (tcp_session_ops ex_P) 1 0 0 (ex_stopping T) ex_live = Some (0, True, T', e') \<and>
        l4cb_test_state (e_tcbs e' 4) = TSTS_PURGED \<and> l4cb_test_state (e_tcbs e' 5) = TSTS_PURGED \<and> \<not> tci_running T') \<and>
     (\<exists>T' u'. test_case_stop_cb (p_app ex_P) (udp_session_ops ex_P) 1 0 0 (ex_stopping T) ex_uenv = Some (0, True, T', u') \<and>
        l4cb_test_state (u_ucbs u' 3) = TSTS_PURGED)"
    by auto
qed

end
