(* ===== verification/MgmtEnv.thy ===== *)
theory MgmtEnv
  imports Runner
begin

text \<open>
  The test environment of a port and the options of its sockets: \<^verbatim>\<open>inc/tpg_test_mgmt.h\<close>,
  \<^verbatim>\<open>inc/sock/tpg_sockopts.h\<close>, the storing and loading of options of the layers, and the checks of
  options of \<^verbatim>\<open>src/tpg_test_mgmt_api.c\<close>.

  The arrays of the program are functions of the index; an index that the code does not check is
  any value. Error codes are the negated numbers of \<^verbatim>\<open>errno.h\<close>.
\<close>

definition EEXIST :: int where "EEXIST = 17"
definition EALREADY :: int where "EALREADY = 114"
definition EBUSY :: int where "EBUSY = 16"
definition ENOENT :: int where "ENOENT = 2"

subsection \<open>Socket options\<close>

text \<open>The options of a test case: those the protocols read, and the rest.\<close>

record api_sockopt = sockopt +
  ip4so_rx_tstamp :: bool
  ip4so_tx_tstamp :: bool
  ip4so_tos :: u8
  vlanso_id :: u16
  vlanso_pri :: u8
  ethso_tx_offload_ipv4_cksum :: bool
  ethso_tx_offload_tcp_cksum :: bool
  ethso_tx_offload_udp_cksum :: bool

record tpg_ipv4_sockopt =
  o_ip4so_rx_tstamp :: "bool opt_field"
  o_ip4so_tx_tstamp :: "bool opt_field"
  o_ip4so_tos :: "u32 opt_field"

record tpg_vlan_sockopt =
  o_vlanso_id :: "u32 opt_field"
  o_vlanso_pri :: "u32 opt_field"

definition so_set_tcp :: "tcp_sockopt \<Rightarrow> api_sockopt \<Rightarrow> api_sockopt" where
  "so_set_tcp t so = tcp_sockopt.extend t (tcp_sockopt.more so)"

definition so_tcp :: "api_sockopt \<Rightarrow> tcp_sockopt" where
  "so_tcp so = tcp_sockopt.truncate so"

text \<open>The 12 bytes of the timestamp option: a header of 4 and two words.\<close>

definition ipv4_store_sockopt :: "tpg_ipv4_sockopt \<Rightarrow> api_sockopt \<Rightarrow> api_sockopt" where
  "ipv4_store_sockopt options so =
     (let so = so\<lparr>ip4so_rx_tstamp := snd (o_ip4so_rx_tstamp options),
                  ip4so_tx_tstamp := snd (o_ip4so_tx_tstamp options),
                  ip4so_tos := ucast (snd (o_ip4so_tos options))\<rparr>
      in if ip4so_tx_tstamp so then so\<lparr>ip4so_hdr_opt_len := 12\<rparr> else so)"

definition ipv4_load_sockopt :: "api_sockopt \<Rightarrow> tpg_ipv4_sockopt" where
  "ipv4_load_sockopt so =
     \<lparr>o_ip4so_rx_tstamp = TPG_XLATE_OPTIONAL_SET_FIELD (ip4so_rx_tstamp so),
      o_ip4so_tx_tstamp = TPG_XLATE_OPTIONAL_SET_FIELD (ip4so_tx_tstamp so),
      o_ip4so_tos = TPG_XLATE_OPTIONAL_SET_FIELD (ucast (ip4so_tos so))\<rparr>"

definition vlan_store_sockopt :: "tpg_vlan_sockopt \<Rightarrow> api_sockopt \<Rightarrow> api_sockopt" where
  "vlan_store_sockopt options so =
     (let so = so\<lparr>vlanso_id := ucast (snd (o_vlanso_id options)), vlanso_pri := ucast (snd (o_vlanso_pri options))\<rparr>
      in so\<lparr>vlanso_hdr_opt_len := (if vlanso_id so \<noteq> 0 then 4 else 0)\<rparr>)"

definition vlan_load_sockopt :: "api_sockopt \<Rightarrow> tpg_vlan_sockopt" where
  "vlan_load_sockopt so =
     \<lparr>o_vlanso_id = TPG_XLATE_OPTIONAL_SET_FIELD (ucast (vlanso_id so)),
      o_vlanso_pri = TPG_XLATE_OPTIONAL_SET_FIELD (ucast (vlanso_pri so))\<rparr>"

text \<open>A field the caller does not give is marked absent and keeps the value that was loaded.\<close>

definition TPG_XLATE_OPTIONAL_COPY_FIELD :: "'v opt_field \<Rightarrow> 'v opt_field \<Rightarrow> 'v opt_field" where
  "TPG_XLATE_OPTIONAL_COPY_FIELD dest src =
     (if fst src then TPG_XLATE_OPTIONAL_SET_FIELD (snd src) else (False, snd dest))"

text \<open>The default values of the messages.\<close>

definition tpg_xlate_default_TcpSockopt :: tpg_tcp_sockopt where
  "tpg_xlate_default_TcpSockopt =
     \<lparr>to_win_size = (True, 1024), to_syn_retry_cnt = (True, 24), to_syn_ack_retry_cnt = (True, 24),
      to_data_retry_cnt = (True, 128), to_retry_cnt = (True, 12), to_rto = (True, 50),
      to_fin_to = (True, 100), to_twait_to = (True, 500), to_orphan_to = (True, 100),
      to_skip_timewait = (True, False), to_ack_delay = (True, False)\<rparr>"

definition tpg_xlate_default_Ipv4Sockopt :: tpg_ipv4_sockopt where
  "tpg_xlate_default_Ipv4Sockopt =
     \<lparr>o_ip4so_rx_tstamp = (True, False), o_ip4so_tx_tstamp = (True, False), o_ip4so_tos = (True, 0)\<rparr>"

definition tpg_xlate_default_VlanSockopt :: tpg_vlan_sockopt where
  "tpg_xlate_default_VlanSockopt = \<lparr>o_vlanso_id = (True, 0), o_vlanso_pri = (True, 0)\<rparr>"

subsection \<open>Checks of options\<close>

text \<open>The span and the step of the two wheels of TCP, in microseconds.\<close>

definition GCFG_SLOW_TMR_MAX :: u32 where "GCFG_SLOW_TMR_MAX = 60 * 1000000"
definition GCFG_SLOW_TMR_STEP :: u32 where "GCFG_SLOW_TMR_STEP = 100000"
definition GCFG_RTO_TMR_MAX :: u32 where "GCFG_RTO_TMR_MAX = 30 * 1000000"
definition GCFG_RTO_TMR_STEP :: u32 where "GCFG_RTO_TMR_STEP = 50"

definition TCP_MAX_WINDOW_SIZE :: u32 where "TCP_MAX_WINDOW_SIZE = 65535"
definition TCP_MAX_RETRY_CNT :: u32 where "TCP_MAX_RETRY_CNT = 128"
definition TCP_MAX_RTO_MS :: u32 where "TCP_MAX_RTO_MS = 10000"
definition TCP_MAX_FIN_TO_MS :: u32 where "TCP_MAX_FIN_TO_MS = 1000"
definition TCP_MAX_TWAIT_TO_MS :: u32 where "TCP_MAX_TWAIT_TO_MS = 10000"
definition TCP_MAX_ORPHAN_TO_MS :: u32 where "TCP_MAX_ORPHAN_TO_MS = 2000"

definition test_mgmt_validate_tcp_sockopt :: "tpg_tcp_sockopt \<Rightarrow> bool" where
  "test_mgmt_validate_tcp_sockopt options =
     (if fst (to_win_size options) \<and> snd (to_win_size options) > TCP_MAX_WINDOW_SIZE then False
      else if fst (to_syn_retry_cnt options) \<and> snd (to_syn_retry_cnt options) > TCP_MAX_RETRY_CNT then False
      else if fst (to_syn_ack_retry_cnt options) \<and> snd (to_syn_ack_retry_cnt options) > TCP_MAX_RETRY_CNT then False
      else if fst (to_data_retry_cnt options) \<and> snd (to_data_retry_cnt options) > TCP_MAX_RETRY_CNT then False
      else if fst (to_retry_cnt options) \<and> snd (to_retry_cnt options) > TCP_MAX_RETRY_CNT then False
      else if fst (to_rto options) \<and> snd (to_rto options) > TCP_MAX_RTO_MS then False
      else if fst (to_fin_to options) \<and> snd (to_fin_to options) > TCP_MAX_FIN_TO_MS then False
      else if fst (to_twait_to options) \<and> snd (to_twait_to options) > TCP_MAX_TWAIT_TO_MS then False
      else if fst (to_orphan_to options) \<and> snd (to_orphan_to options) > TCP_MAX_ORPHAN_TO_MS then False
      else True)"

definition test_mgmt_validate_ipv4_sockopt :: "tpg_ipv4_sockopt \<Rightarrow> bool" where
  "test_mgmt_validate_ipv4_sockopt options =
     (if fst (o_ip4so_tos options) \<and> snd (o_ip4so_tos options) > 255 then False else True)"

definition VLAN_MIN :: u32 where "VLAN_MIN = 1"
definition VLAN_MAX :: u32 where "VLAN_MAX = 4094"

definition test_mgmt_validate_vlan_sockopt :: "tpg_vlan_sockopt \<Rightarrow> bool" where
  "test_mgmt_validate_vlan_sockopt options =
     (if fst (o_vlanso_id options) \<and> (snd (o_vlanso_id options) < VLAN_MIN \<or> snd (o_vlanso_id options) > VLAN_MAX)
      then False
      else if fst (o_vlanso_pri options)
      then if \<not> fst (o_vlanso_id options) then False
           else if snd (o_vlanso_pri options) > 7 then False else True
      else True)"

subsection \<open>The environment of a port\<close>

datatype test_case_state =
    TEST_CASE_STATE__IDLE | TEST_CASE_STATE__RUNNING | TEST_CASE_STATE__PASSED | TEST_CASE_STATE__FAILED
  | TEST_CASE_STATE__STOPPED

text \<open>The timer is armed or not. The result holds the value that the criterion of the test case measures.\<close>

record test_env_oper_state =
  teos_timer :: bool
  teos_test_case_state :: test_case_state
  teos_result :: u32
  teos_start_time :: u64
  teos_stop_time :: u64
  teos_configured :: bool
  teos_update_rates :: bool

record 'app test_env_case =
  cfg :: "'app tpg_test_case"
  tec_state :: test_env_oper_state
  tec_sockopt :: api_sockopt

record l3_intf =
  l3i_ip :: tpg_ip
  l3i_mask :: tpg_ip
  l3i_vlan_id :: u32
  l3i_gw :: tpg_ip

text \<open>The list holds the interfaces in use: its length is \<open>pc_l3_intfs_count\<close>.\<close>

record port_cfg =
  pc_l3_intfs :: "l3_intf list"
  pc_def_gw :: tpg_ip

record 'app test_env =
  te_port_cfg :: port_cfg
  te_test_cases :: "u32 \<Rightarrow> 'app test_env_case"
  te_test_cases_count :: u32
  te_test_running :: bool
  te_test_case_to_start :: bool
  te_test_case_next :: u32

definition TEST_CASE_RUNNING :: "'app tpg_test_case \<Rightarrow> test_case_state \<Rightarrow> bool" where
  "TEST_CASE_RUNNING te state \<longleftrightarrow>
     state = TEST_CASE_STATE__RUNNING \<or> tc_type te = TEST_CASE_TYPE__SERVER \<and> state = TEST_CASE_STATE__PASSED"

definition upd_case ::
  "u32 \<Rightarrow> ('app test_env_case \<Rightarrow> 'app test_env_case) \<Rightarrow> 'app test_env \<Rightarrow> 'app test_env" where
  "upd_case tcid f tenv = tenv\<lparr>te_test_cases := (te_test_cases tenv)(tcid := f (te_test_cases tenv tcid))\<rparr>"

definition upd_oper ::
  "u32 \<Rightarrow> (test_env_oper_state \<Rightarrow> test_env_oper_state) \<Rightarrow> 'app test_env \<Rightarrow> 'app test_env" where
  "upd_oper tcid f = upd_case tcid (\<lambda>c. c\<lparr>tec_state := f (tec_state c)\<rparr>)"

text \<open>The test cases that \<open>TEST_CASE_FOREACH\<close> visits, in its order, and the first of them.\<close>

definition te_ids :: "u32 list" where
  "te_ids = [0, 1, 2, 3, 4, 5, 6, 7, 8, 9, 10, 11, 12, 13, 14, 15]"

definition te_configured :: "'app test_env \<Rightarrow> u32 \<Rightarrow> bool" where
  "te_configured tenv tcid \<longleftrightarrow> teos_configured (tec_state (te_test_cases tenv tcid))"

definition TEST_CASE_FOREACH :: "'app test_env \<Rightarrow> u32 list" where
  "TEST_CASE_FOREACH tenv = filter (te_configured tenv) te_ids"

definition test_mgmt_test_case_first :: "'app test_env \<Rightarrow> 'app tpg_test_case option" where
  "test_mgmt_test_case_first tenv =
     (case TEST_CASE_FOREACH tenv of [] \<Rightarrow> None | tcid # _ \<Rightarrow> Some (cfg (te_test_cases tenv tcid)))"

end
