(* ===== verification/Mgmt.thy ===== *)
theory Mgmt
  imports MgmtEnv
begin

text \<open>
  The test manager: \<^verbatim>\<open>src/tpg_test_mgmt.c\<close>. It starts the test cases of a port one after the other,
  asks the packet cores for statistics in the callback of the timer of a test case, decides whether
  the test case has passed or failed, and stops it.

  What the manager sends to the packet cores and to the routing is a log. What the cores answer is
  an argument: \<open>mp_init_answer\<close> gives the message of the initialisation back (a core takes its share of
  the rates out of it), \<open>mp_stop_done\<close> says whether a core ends a stop message, and the answers to the
  requests for statistics are arguments of the timer callback. A failure to send a message ends the
  program in the code and is not modelled. An assertion that fails, a division by zero and a wait
  that does not end are \<^term>\<open>None\<close>.
\<close>

datatype 'app mgmt_msg =
    MsgInit nat "'app test_case_init_msg"
  | MsgStart nat u32 u32
  | MsgStop nat u32 u32
  | RouteIntfAdd u32 l3_intf nat
  | RouteIntfDel u32 l3_intf
  | RouteGwAdd u32 tpg_ip
  | RouteGwDel u32 tpg_ip

record ('app, 's) mgmt =
  m_envs :: "u32 \<Rightarrow> 'app test_env"
  m_gen_stats :: "u32 \<Rightarrow> u32 \<Rightarrow> gen_stats"
  m_rate_stats :: "u32 \<Rightarrow> u32 \<Rightarrow> rate_stats"
  m_app_stats :: "u32 \<Rightarrow> u32 \<Rightarrow> 's"
  m_now :: u64
  m_log :: "'app mgmt_msg list"

text \<open>\<open>mp_cores\<close> are the packet cores of a port. The fields \<open>mgmt_stats\<close> \<dots> are the callbacks of the applications.\<close>

record ('app, 's) mgmt_prm =
  mp_cores :: "u32 \<Rightarrow> nat list"
  mp_cycles_per_us :: u64
  mp_timer_hz :: u64
  mp_max_tc_runtime :: u32
  mp_pi_mtu :: "u32 \<Rightarrow> u16"
  mp_stats_init_global :: "'app \<Rightarrow> 's"
  mp_stats_init_req :: "'app \<Rightarrow> 's"
  mp_stats_add :: "'app \<Rightarrow> 's \<Rightarrow> 's \<Rightarrow> 's"
  mp_pkts_per_send :: "'app tpg_test_case \<Rightarrow> u32 \<Rightarrow> u32"
  mp_app_rx_tstamp :: "'app \<Rightarrow> bool"
  mp_app_tx_tstamp :: "'app \<Rightarrow> bool"
  mp_init_answer :: "nat \<Rightarrow> 'app test_case_init_msg \<Rightarrow> 'app test_case_init_msg"
  mp_stop_done :: "nat \<Rightarrow> u32 \<Rightarrow> u32 \<Rightarrow> bool"

definition upd_env :: "u32 \<Rightarrow> ('app test_env \<Rightarrow> 'app test_env) \<Rightarrow> ('app, 's) mgmt \<Rightarrow> ('app, 's) mgmt" where
  "upd_env port f M = M\<lparr>m_envs := (m_envs M)(port := f (m_envs M port))\<rparr>"

definition upd2 :: "u32 \<Rightarrow> u32 \<Rightarrow> 'v \<Rightarrow> (u32 \<Rightarrow> u32 \<Rightarrow> 'v) \<Rightarrow> u32 \<Rightarrow> u32 \<Rightarrow> 'v" where
  "upd2 port tcid v f = f(port := (f port)(tcid := v))"

definition mgmt_log :: "'app mgmt_msg list \<Rightarrow> ('app, 's) mgmt \<Rightarrow> ('app, 's) mgmt" where
  "mgmt_log ms M = M\<lparr>m_log := m_log M @ ms\<rparr>"

subsection \<open>Statistics of the cores\<close>

definition zero_gen_stats :: gen_stats where
  "zero_gen_stats =
     \<lparr>g_up = 0, g_estab = 0, g_down = 0, g_failed = 0, g_data_failed = 0, g_data_null = 0,
      g_start_time = 0, g_end_time = 0, g_latency = zero_gen_latency\<rparr>"

definition zero_rate_stats :: rate_stats where
  "zero_rate_stats =
     \<lparr>r_estab_per_s = 0, r_closed_per_s = 0, r_data_per_s = 0, r_start_time = 0, r_end_time = 0\<rparr>"

text \<open>The totals before the first core: the recent latencies start again, and the times.\<close>

definition status_start :: "gen_stats \<Rightarrow> gen_stats" where
  "status_start t =
     t\<lparr>g_latency := (g_latency t)\<lparr>gls_sample_stats := zero_latency_stats\<lparr>ls_min_latency := 0xFFFFFFFF\<rparr>,
                                  gls_stats := (gls_stats (g_latency t))\<lparr>ls_instant_jitter := 0\<rparr>\<rparr>,
       g_start_time := 0xFFFFFFFFFFFFFFFF\<rparr>"

definition status_latency :: "gen_stats \<Rightarrow> gen_stats \<Rightarrow> gen_latency_stats" where
  "status_latency t g =
     \<lparr>gls_stats = test_aggregate_latencies (gls_stats (g_latency t)) (gls_stats (g_latency g)),
      gls_sample_stats = test_aggregate_latencies (gls_sample_stats (g_latency t)) (gls_sample_stats (g_latency g)),
      gls_invalid_lat = gls_invalid_lat (g_latency t) + gls_invalid_lat (g_latency g)\<rparr>"

text \<open>The answer of one core. The listening blocks are on all the cores.\<close>

definition status_add :: "bool \<Rightarrow> gen_stats \<Rightarrow> gen_stats \<times> u32 \<Rightarrow> gen_stats \<times> u32" where
  "status_add is_server g = (\<lambda>(t, srv_up).
     (t\<lparr>g_latency := status_latency t g,
        g_up := (if is_server then g_up t else g_up t + g_up g),
        g_estab := g_estab t + g_estab g, g_down := g_down t + g_down g, g_failed := g_failed t + g_failed g,
        g_data_failed := g_data_failed t + g_data_failed g, g_data_null := g_data_null t + g_data_null g,
        g_start_time := (if g_start_time g < g_start_time t then g_start_time g else g_start_time t),
        g_end_time := (if g_end_time g > g_end_time t then g_end_time g else g_end_time t)\<rparr>,
      if is_server \<and> g_up g > srv_up then g_up g else srv_up))"

definition test_update_status ::
  "('app, 's) mgmt_prm \<Rightarrow> (nat \<Rightarrow> 's \<Rightarrow> gen_stats \<times> 's) \<Rightarrow> 'app tpg_test_case \<Rightarrow> ('app, 's) mgmt
     \<Rightarrow> ('app, 's) mgmt" where
  "test_update_status P answer test_case M =
     (let port = tc_eth_port test_case; tcid = tc_id test_case; app = tc_app test_case;
          is_server = (tc_type test_case = TEST_CASE_TYPE__SERVER);
          ((total, srv_up), app_stats) =
            fold (\<lambda>core (ts, s). let (g, a) = answer core (mp_stats_init_req P app)
                                 in (status_add is_server g ts, mp_stats_add P app s a))
              (mp_cores P port) ((status_start (m_gen_stats M port tcid), 0), m_app_stats M port tcid);
          total = (if is_server then total\<lparr>g_up := g_up total + srv_up\<rparr> else total)
      in M\<lparr>m_gen_stats := upd2 port tcid total (m_gen_stats M),
           m_app_stats := upd2 port tcid app_stats (m_app_stats M)\<rparr>)"

text \<open>The operations per second of a core, over the microseconds of its answer.\<close>

definition rate_per_s :: "u32 \<Rightarrow> u64 \<Rightarrow> u32" where
  "rate_per_s n duration = ucast (ucast n * ucast TPG_SEC_TO_USEC div duration)"

definition rates_add :: "u64 \<Rightarrow> rate_stats \<Rightarrow> rate_stats \<Rightarrow> rate_stats option" where
  "rates_add cycles_per_us r t =
     (let start = r_start_time r div cycles_per_us; stop = r_end_time r div cycles_per_us; duration = stop - start
      in if cycles_per_us = 0 \<or> duration = 0 then None
         else Some \<lparr>r_estab_per_s = r_estab_per_s t + rate_per_s (r_estab_per_s r) duration,
                    r_closed_per_s = r_closed_per_s t + rate_per_s (r_closed_per_s r) duration,
                    r_data_per_s = r_data_per_s t + rate_per_s (r_data_per_s r) duration,
                    r_start_time = start, r_end_time = stop\<rparr>)"

definition test_update_rates ::
  "('app, 's) mgmt_prm \<Rightarrow> (nat \<Rightarrow> rate_stats) \<Rightarrow> 'app tpg_test_case \<Rightarrow> ('app, 's) mgmt
     \<Rightarrow> ('app, 's) mgmt option" where
  "test_update_rates P answer test_case M =
     map_option (\<lambda>r. M\<lparr>m_rate_stats := upd2 (tc_eth_port test_case) (tc_id test_case) r (m_rate_stats M)\<rparr>)
       (fold (\<lambda>core t. Option.bind t (rates_add (mp_cycles_per_us P) (answer core)))
          (mp_cores P (tc_eth_port test_case)) (Some zero_rate_stats))"

text \<open>The counters of the states, added up over the cores. The states of TCP and UDP blocks that the code
  counts apart are one array here, for the protocol of the test case.\<close>

definition state_counter_add :: "state_counter \<Rightarrow> state_counter \<Rightarrow> state_counter" where
  "state_counter_add c t =
     t\<lparr>sc_to_init_cbs := sc_to_init_cbs t + sc_to_init_cbs c, sc_to_open_cbs := sc_to_open_cbs t + sc_to_open_cbs c,
       sc_to_close_cbs := sc_to_close_cbs t + sc_to_close_cbs c, sc_to_send_cbs := sc_to_send_cbs t + sc_to_send_cbs c,
       sc_closed_cbs := sc_closed_cbs t + sc_closed_cbs c,
       sc_test_states_from_test := (\<lambda>s. sc_test_states_from_test t s + sc_test_states_from_test c s),
       sc_test_states_from_l4 := (\<lambda>s. sc_test_states_from_l4 t s + sc_test_states_from_l4 c s),
       sc_tcp_states_from_test := (\<lambda>s. sc_tcp_states_from_test t s + sc_tcp_states_from_test c s),
       sc_tcp_states_from_tcp := (\<lambda>s. sc_tcp_states_from_tcp t s + sc_tcp_states_from_tcp c s),
       sc_udp_states_from_udp := (\<lambda>s. sc_udp_states_from_udp t s + sc_udp_states_from_udp c s)\<rparr>"

definition test_update_state_counter ::
  "('app, 's) mgmt_prm \<Rightarrow> (nat \<Rightarrow> state_counter) \<Rightarrow> 'app tpg_test_case \<Rightarrow> state_counter" where
  "test_update_state_counter P answer test_case =
     fold (\<lambda>core. state_counter_add (answer core)) (mp_cores P (tc_eth_port test_case)) zero_state_counter"

subsection \<open>The message of the initialisation\<close>

text \<open>\<open>TCP_GLOBAL_AVAIL_SEND\<close> and \<open>UDP_GLOBAL_MTU\<close>; the sizes are \<open>size_t\<close>.\<close>

definition TCP_GLOBAL_AVAIL_SEND :: "u16 \<Rightarrow> api_sockopt \<Rightarrow> u64" where
  "TCP_GLOBAL_AVAIL_SEND pi_mtu so =
     (let room = ucast (tcpo_win_size so);
          mtu = of_nat GCFG_TCP_SEGS_PER_SEND *
            (ucast pi_mtu - ucast (ip4so_hdr_opt_len so) - ucast (vlanso_hdr_opt_len so) - TCB_MIN_HDRS_SZ)
      in if room < mtu then room else mtu)"

definition UDP_GLOBAL_MTU :: "u16 \<Rightarrow> api_sockopt \<Rightarrow> u64" where
  "UDP_GLOBAL_MTU pi_mtu so =
     ucast pi_mtu - ucast (ip4so_hdr_opt_len so) - ucast (vlanso_hdr_opt_len so) - UCB_MIN_HDRS_SZ"

definition test_max_pkt_size :: "(u32 \<Rightarrow> u16) \<Rightarrow> 'app tpg_test_case \<Rightarrow> api_sockopt \<Rightarrow> u32" where
  "test_max_pkt_size pi_mtu entry sockopt =
     (let proto_size = (\<lambda>proto. case proto of
            L4_PROTO__TCP \<Rightarrow> ucast (TCP_GLOBAL_AVAIL_SEND (pi_mtu (tc_eth_port entry)) sockopt)
          | L4_PROTO__UDP \<Rightarrow> ucast (UDP_GLOBAL_MTU (pi_mtu (tc_eth_port entry)) sockopt)
          | _ \<Rightarrow> 0)
      in case tc_type entry of
           TEST_CASE_TYPE__CLIENT \<Rightarrow> proto_size (l4c_proto (tc_client entry))
         | TEST_CASE_TYPE__SERVER \<Rightarrow> proto_size (l4s_proto (tc_server entry))
         | _ \<Rightarrow> 0)"

definition GCFG_RATE_MIN_RATE_PRECISION :: u32 where "GCFG_RATE_MIN_RATE_PRECISION = 50"

definition opt_rate :: "TestCfg.tpg_rate \<Rightarrow> u32 option" where
  "opt_rate r = (if has_r_value r then Some (r_value r) else None)"

text \<open>The packets per second of a client; its configured rate counts the sends of the application.\<close>

definition target_send_rate :: "('app, 's) mgmt_prm \<Rightarrow> 'app tpg_test_case \<Rightarrow> api_sockopt \<Rightarrow> u32" where
  "target_send_rate P entry sockopt =
     (let mtu = test_max_pkt_size (mp_pi_mtu P) entry sockopt;
          pkts_per_send = mp_pkts_per_send P entry mtu;
          target = pkts_per_send * r_value (rc_send_rate (tc_client entry))
      in if target > GCFG_RATE_MIN_RATE_PRECISION
         then target div GCFG_RATE_MIN_RATE_PRECISION * GCFG_RATE_MIN_RATE_PRECISION
         else target)"

text \<open>The three rates of the message; \<^term>\<open>None\<close> when the spreading of a rate does not end.\<close>

definition test_init_msg_client_rates ::
  "('app, 's) mgmt_prm \<Rightarrow> 'app tpg_test_case \<Rightarrow> api_sockopt \<Rightarrow> (rate_limit_cfg \<times> rate_limit_cfg \<times> rate_limit_cfg) option" where
  "test_init_msg_client_rates P entry sockopt =
     do {
       op \<leftarrow> rate_limit_cfg_init (opt_rate (rc_open_rate (tc_client entry)));
       cl \<leftarrow> rate_limit_cfg_init (opt_rate (rc_close_rate (tc_client entry)));
       se \<leftarrow> rate_limit_cfg_init (if has_r_value (rc_send_rate (tc_client entry))
                                  then Some (target_send_rate P entry sockopt) else None);
       Some (op, cl, se)
     }"

definition test_init_msg_server_rates :: "(rate_limit_cfg \<times> rate_limit_cfg \<times> rate_limit_cfg) option" where
  "test_init_msg_server_rates =
     do {
       op \<leftarrow> rate_limit_cfg_init (Some 0);
       cl \<leftarrow> rate_limit_cfg_init (Some 0);
       se \<leftarrow> rate_limit_cfg_init None;
       Some (op, cl, se)
     }"

definition test_mgmt_rx_tstamp_enabled :: "('app, 's) mgmt_prm \<Rightarrow> ('app, 's) mgmt \<Rightarrow> 'app tpg_test_case \<Rightarrow> bool" where
  "test_mgmt_rx_tstamp_enabled P M entry =
     (if ip4so_rx_tstamp (tec_sockopt (te_test_cases (m_envs M (tc_eth_port entry)) (tc_id entry))) then True
      else mp_app_rx_tstamp P (tc_app entry))"

definition test_mgmt_tx_tstamp_enabled :: "('app, 's) mgmt_prm \<Rightarrow> ('app, 's) mgmt \<Rightarrow> 'app tpg_test_case \<Rightarrow> bool" where
  "test_mgmt_tx_tstamp_enabled P M entry =
     (if ip4so_tx_tstamp (tec_sockopt (te_test_cases (m_envs M (tc_eth_port entry)) (tc_id entry))) then True
      else mp_app_tx_tstamp P (tc_app entry))"

definition test_init_msg ::
  "('app, 's) mgmt_prm \<Rightarrow> ('app, 's) mgmt \<Rightarrow> 'app tpg_test_case \<Rightarrow> api_sockopt \<Rightarrow> 'app test_case_init_msg option" where
  "test_init_msg P M entry sockopt =
     do {
       (l4, op, cl, se) \<leftarrow>
         (case tc_type entry of
            TEST_CASE_TYPE__CLIENT \<Rightarrow>
              map_option (\<lambda>r. (l4c_proto (tc_client entry), r)) (test_init_msg_client_rates P entry sockopt)
          | TEST_CASE_TYPE__SERVER \<Rightarrow>
              map_option (\<lambda>r. (l4s_proto (tc_server entry), r)) test_init_msg_server_rates
          | _ \<Rightarrow> None);
       Some \<lparr>tcim_test_case = entry, tcim_l4_type = l4, tcim_sockopt = sockopt.truncate sockopt,
             tcim_rx_tstamp = test_mgmt_rx_tstamp_enabled P M entry,
             tcim_tx_tstamp = test_mgmt_tx_tstamp_enabled P M entry,
             tcim_open_rate = op, tcim_close_rate = cl, tcim_send_rate = se\<rparr>
     }"

text \<open>The cores are served one after the other, each with what the ones before have left of the rates.\<close>

fun init_cores ::
  "('app, 's) mgmt_prm \<Rightarrow> nat list \<Rightarrow> 'app test_case_init_msg \<Rightarrow> 'app mgmt_msg list" where
  "init_cores P [] im = []"
| "init_cores P (core # cores) im = MsgInit core im # init_cores P cores (mp_init_answer P core im)"

definition test_init_test_case ::
  "('app, 's) mgmt_prm \<Rightarrow> 'app tpg_test_case \<Rightarrow> api_sockopt \<Rightarrow> ('app, 's) mgmt \<Rightarrow> ('app, 's) mgmt option" where
  "test_init_test_case P entry sockopt M =
     map_option (\<lambda>im. mgmt_log (init_cores P (mp_cores P (tc_eth_port entry)) im) M)
       (test_init_msg P M entry sockopt)"

subsection \<open>Has a test case passed?\<close>

definition test_check_run_time_tc_status ::
  "('app, 's) mgmt_prm \<Rightarrow> u32 \<Rightarrow> test_env_oper_state \<Rightarrow> u64 \<Rightarrow> (bool \<times> test_env_oper_state) option" where
  "test_check_run_time_tc_status P crit st now =
     (if mp_timer_hz P = 0 then None
      else
        let st = st\<lparr>teos_result := ucast ((now - teos_start_time st) div mp_timer_hz P)\<rparr>
        in if teos_result st \<ge> crit then Some (True, st\<lparr>teos_stop_time := now\<rparr>) else Some (False, st))"

definition test_check_srv_up_tc_status ::
  "gen_stats \<Rightarrow> u32 \<Rightarrow> test_env_oper_state \<Rightarrow> u64 \<Rightarrow> bool \<times> test_env_oper_state" where
  "test_check_srv_up_tc_status g crit st now =
     (let st = st\<lparr>teos_result := g_up g\<rparr>
      in if teos_result st \<ge> crit then (True, st\<lparr>teos_stop_time := now\<rparr>) else (False, st))"

text \<open>As the code has it, the answer is yes also when the clients are not up.\<close>

definition test_check_cl_up_tc_status ::
  "gen_stats \<Rightarrow> u32 \<Rightarrow> test_env_oper_state \<Rightarrow> u64 \<Rightarrow> bool \<times> test_env_oper_state" where
  "test_check_cl_up_tc_status g crit st now =
     (let st = st\<lparr>teos_result := g_up g\<rparr>
      in if teos_result st \<ge> crit then (True, st\<lparr>teos_stop_time := now\<rparr>) else (True, st))"

definition test_check_cl_estab_tc_status ::
  "gen_stats \<Rightarrow> u32 \<Rightarrow> test_env_oper_state \<Rightarrow> (bool \<times> test_env_oper_state) option" where
  "test_check_cl_estab_tc_status g crit st =
     (let st = st\<lparr>teos_result := g_estab g\<rparr>
      in if teos_result st \<ge> crit
         then
           let st = (if g_start_time g \<noteq> 0 then st\<lparr>teos_start_time := g_start_time g\<rparr> else st);
               st = st\<lparr>teos_stop_time := g_end_time g\<rparr>
           in if teos_stop_time st > teos_start_time st then Some (True, st) else None
         else Some (False, st))"

text \<open>\<open>test_check_data_tc_status\<close> is an assertion that fails.\<close>

definition test_check_criteria ::
  "('app, 's) mgmt_prm \<Rightarrow> gen_stats \<Rightarrow> test_criteria \<Rightarrow> test_env_oper_state \<Rightarrow> u64
     \<Rightarrow> (bool \<times> test_env_oper_state) option" where
  "test_check_criteria P g crit st now =
     (case crit of
        CRIT_RUN_TIME c \<Rightarrow> test_check_run_time_tc_status P c st now
      | CRIT_SRV_UP c \<Rightarrow> Some (test_check_srv_up_tc_status g c st now)
      | CRIT_CL_UP c \<Rightarrow> Some (test_check_cl_up_tc_status g c st now)
      | CRIT_CL_ESTAB c \<Rightarrow> test_check_cl_estab_tc_status g c st
      | CRIT_DATA_MB c \<Rightarrow> None)"

text \<open>Whether the test case is done, whether it has passed, and its state.\<close>

definition test_check_tc_status ::
  "('app, 's) mgmt_prm \<Rightarrow> (nat \<Rightarrow> 's \<Rightarrow> gen_stats \<times> 's) \<Rightarrow> 'app tpg_test_case \<Rightarrow> test_env_oper_state
     \<Rightarrow> ('app, 's) mgmt \<Rightarrow> (bool \<times> bool \<times> test_env_oper_state \<times> ('app, 's) mgmt) option" where
  "test_check_tc_status P answer test_case st M =
     do {
       let now = m_now M;
       let M = test_update_status P answer test_case M;
       let g = m_gen_stats M (tc_eth_port test_case) (tc_id test_case);
       (passed, st) \<leftarrow> test_check_criteria P g (tc_criteria test_case) st now;
       let by_time = (case tc_criteria test_case of CRIT_RUN_TIME _ \<Rightarrow> True | _ \<Rightarrow> False);
       if \<not> passed \<and> \<not> by_time
       then if mp_cycles_per_us P = 0 then None
            else if (now - teos_start_time st) div mp_cycles_per_us P > ucast (mp_max_tc_runtime P)
            then Some (True, passed, st\<lparr>teos_stop_time := now\<rparr>, M)
            else Some (passed, passed, st, M)
       else Some (passed, passed, st, M)
     }"

subsection \<open>Starting and stopping a test case\<close>

definition test_start_test_case ::
  "('app, 's) mgmt_prm \<Rightarrow> u32 \<Rightarrow> ('app, 's) mgmt \<Rightarrow> ('app, 's) mgmt" where
  "test_start_test_case P eth_port M =
     (let tenv = m_envs M eth_port;
          tcid = te_test_case_next tenv;
          entry = cfg (te_test_cases tenv tcid);
          M = mgmt_log (map (\<lambda>core. MsgStart core (tc_eth_port entry) (tc_id entry)) (mp_cores P eth_port)) M;
          tenv = upd_oper tcid (\<lambda>st. st\<lparr>teos_start_time := m_now M, teos_stop_time := 0,
                                        teos_test_case_state := TEST_CASE_STATE__RUNNING, teos_timer := True\<rparr>) tenv;
          tenv = (case filter (\<lambda>tcid_next. tcid_next > tcid) (TEST_CASE_FOREACH tenv) of
                    [] \<Rightarrow> tenv\<lparr>te_test_case_to_start := False\<rparr>
                  | tcid_next # _ \<Rightarrow> tenv\<lparr>te_test_case_next := tcid_next\<rparr>)
      in upd_env eth_port (\<lambda>_. tenv) M)"

text \<open>The manager waits for every core to end the stop message.\<close>

definition test_stop_test_case ::
  "('app, 's) mgmt_prm \<Rightarrow> u32 \<Rightarrow> u32 \<Rightarrow> test_case_state \<Rightarrow> ('app, 's) mgmt \<Rightarrow> ('app, 's) mgmt option" where
  "test_stop_test_case P eth_port tcid new_tc_state M =
     (let entry = cfg (te_test_cases (m_envs M eth_port) tcid);
          st = tec_state (te_test_cases (m_envs M eth_port) tcid);
          cores = mp_cores P eth_port
      in if teos_test_case_state st = TEST_CASE_STATE__IDLE \<or> teos_test_case_state st = TEST_CASE_STATE__STOPPED
         then Some M
         else if \<not> list_all (\<lambda>core. mp_stop_done P core (tc_eth_port entry) (tc_id entry)) cores then None
         else
           let M = mgmt_log (map (\<lambda>core. MsgStop core (tc_eth_port entry) (tc_id entry)) cores) M;
               M = upd_env eth_port (upd_oper tcid (\<lambda>st.
                     st\<lparr>teos_test_case_state := new_tc_state,
                        teos_stop_time := (if teos_stop_time st = 0 then m_now M else teos_stop_time st)\<rparr>)) M
           in Some (M\<lparr>m_rate_stats := upd2 eth_port (tc_id entry) zero_rate_stats (m_rate_stats M)\<rparr>))"

subsection \<open>The timer of a test case\<close>

text \<open>The part of the callback that records the outcome and stops a client.\<close>

definition entry_tmr_outcome ::
  "('app, 's) mgmt_prm \<Rightarrow> u32 \<Rightarrow> u32 \<Rightarrow> bool \<Rightarrow> bool \<Rightarrow> ('app, 's) mgmt \<Rightarrow> ('app, 's) mgmt option" where
  "entry_tmr_outcome P eth_port tcid done passed M =
     (let set_state = (\<lambda>s. upd_env eth_port (upd_oper tcid (\<lambda>st. st\<lparr>teos_test_case_state := s\<rparr>)));
          M = (if passed then set_state TEST_CASE_STATE__PASSED M else M);
          M = (if done \<and> \<not> passed then set_state TEST_CASE_STATE__FAILED M else M);
          entry = cfg (te_test_cases (m_envs M eth_port) tcid)
      in if done \<and> tc_type entry \<noteq> TEST_CASE_TYPE__SERVER
         then
           let M = upd_env eth_port (upd_oper tcid (\<lambda>st. st\<lparr>teos_timer := False\<rparr>)) M
           in test_stop_test_case P eth_port tcid
                (teos_test_case_state (tec_state (te_test_cases (m_envs M eth_port) tcid))) M
         else Some M)"

definition entry_tmr_start_next ::
  "('app, 's) mgmt_prm \<Rightarrow> u32 \<Rightarrow> u32 \<Rightarrow> bool \<Rightarrow> ('app, 's) mgmt \<Rightarrow> ('app, 's) mgmt" where
  "entry_tmr_start_next P eth_port tcid done M =
     (let tenv = m_envs M eth_port
      in if (done \<or> tc_async (cfg (te_test_cases tenv tcid))) \<and> te_test_case_to_start tenv \<and>
            tcid = te_test_case_next tenv - 1
         then test_start_test_case P eth_port M else M)"

definition entry_tmr_rates ::
  "('app, 's) mgmt_prm \<Rightarrow> (nat \<Rightarrow> rate_stats) \<Rightarrow> u32 \<Rightarrow> u32 \<Rightarrow> ('app, 's) mgmt \<Rightarrow> ('app, 's) mgmt option" where
  "entry_tmr_rates P rates eth_port tcid M =
     (let c = te_test_cases (m_envs M eth_port) tcid;
          set_update = (\<lambda>b. upd_env eth_port (upd_oper tcid (\<lambda>st. st\<lparr>teos_update_rates := b\<rparr>)))
      in if teos_update_rates (tec_state c) then map_option (set_update False) (test_update_rates P rates (cfg c) M)
         else Some (set_update True M))"

text \<open>No test case runs and none is left to start: the port is idle.\<close>

definition entry_tmr_all_done :: "u32 \<Rightarrow> bool \<Rightarrow> ('app, 's) mgmt \<Rightarrow> ('app, 's) mgmt" where
  "entry_tmr_all_done eth_port done M =
     (let tenv = m_envs M eth_port
      in if done \<and> \<not> te_test_case_to_start tenv \<and>
            \<not> list_ex (\<lambda>tcid. TEST_CASE_RUNNING (cfg (te_test_cases tenv tcid))
                               (teos_test_case_state (tec_state (te_test_cases tenv tcid)))) (TEST_CASE_FOREACH tenv)
         then upd_env eth_port (\<lambda>tenv. tenv\<lparr>te_test_running := False\<rparr>) M else M)"

definition test_entry_tmr_cb ::
  "('app, 's) mgmt_prm \<Rightarrow> (nat \<Rightarrow> 's \<Rightarrow> gen_stats \<times> 's) \<Rightarrow> (nat \<Rightarrow> rate_stats) \<Rightarrow> u32 \<Rightarrow> u32
     \<Rightarrow> ('app, 's) mgmt \<Rightarrow> ('app, 's) mgmt option" where
  "test_entry_tmr_cb P answer rates eth_port tcid M =
     do {
       let c = te_test_cases (m_envs M eth_port) tcid;
       (done, passed, st, M) \<leftarrow> test_check_tc_status P answer (cfg c) (tec_state c) M;
       let M = upd_env eth_port (upd_oper tcid (\<lambda>_. st)) M;
       M \<leftarrow> entry_tmr_outcome P eth_port tcid done passed M;
       let M = entry_tmr_start_next P eth_port tcid done M;
       M \<leftarrow> entry_tmr_rates P rates eth_port tcid M;
       Some (entry_tmr_all_done eth_port done M)
     }"

subsection \<open>Starting and stopping a port\<close>

definition start_timers :: "'app test_env \<Rightarrow> 'app test_env" where
  "start_timers = fold (\<lambda>i. upd_oper i (\<lambda>st. st\<lparr>teos_timer := False\<rparr>)) te_ids"

text \<open>One test case: its statistics are cleared and the cores are told.\<close>

definition start_init_case ::
  "('app, 's) mgmt_prm \<Rightarrow> u32 \<Rightarrow> u32 \<Rightarrow> ('app, 's) mgmt \<Rightarrow> ('app, 's) mgmt option" where
  "start_init_case P eth_port i M =
     (let c = te_test_cases (m_envs M eth_port) i;
          M = M\<lparr>m_gen_stats := upd2 eth_port i (zero_gen_stats\<lparr>g_latency := test_case_latency_init\<rparr>) (m_gen_stats M),
                m_rate_stats := upd2 eth_port i zero_rate_stats (m_rate_stats M),
                m_app_stats := upd2 eth_port i (mp_stats_init_global P (tc_app (cfg c))) (m_app_stats M)\<rparr>
      in test_init_test_case P (cfg c) (tec_sockopt c) M)"

definition test_start_cb ::
  "('app, 's) mgmt_prm \<Rightarrow> u32 \<Rightarrow> ('app, 's) mgmt \<Rightarrow> (int \<times> ('app, 's) mgmt) option" where
  "test_start_cb P eth_port M =
     (if te_test_running (m_envs M eth_port) then Some (0, M)
      else
        let M = upd_env eth_port (\<lambda>tenv. tenv\<lparr>te_test_running := True\<rparr>) M;
            tenv = m_envs M eth_port; pcfg = te_port_cfg tenv
        in if te_test_cases_count tenv = 0 then Some (- EINVAL, M)
           else
             let M = mgmt_log (map (\<lambda>(i, l3). RouteIntfAdd eth_port l3 i) (enumerate 0 (pc_l3_intfs pcfg))) M;
                 M = (if ip_v4 (pc_def_gw pcfg) \<noteq> 0 then mgmt_log [RouteGwAdd eth_port (pc_def_gw pcfg)] M else M);
                 M = upd_env eth_port start_timers M
             in do {
               M \<leftarrow> fold (\<lambda>i M. Option.bind M (start_init_case P eth_port i)) (TEST_CASE_FOREACH tenv) (Some M);
               first \<leftarrow> test_mgmt_test_case_first (m_envs M eth_port);
               let M = upd_env eth_port (\<lambda>tenv. tenv\<lparr>te_test_case_to_start := te_test_cases_count tenv > 1,
                                                     te_test_case_next := tc_id first\<rparr>) M;
               Some (0, test_start_test_case P eth_port M)
             })"

definition stop_case ::
  "('app, 's) mgmt_prm \<Rightarrow> u32 \<Rightarrow> u32 \<Rightarrow> ('app, 's) mgmt \<Rightarrow> ('app, 's) mgmt option" where
  "stop_case P eth_port i M =
     test_stop_test_case P eth_port i TEST_CASE_STATE__STOPPED
       (upd_env eth_port (upd_oper i (\<lambda>st. st\<lparr>teos_timer := False\<rparr>)) M)"

definition test_stop_cb ::
  "('app, 's) mgmt_prm \<Rightarrow> u32 \<Rightarrow> ('app, 's) mgmt \<Rightarrow> (int \<times> ('app, 's) mgmt) option" where
  "test_stop_cb P eth_port M =
     (let tenv = m_envs M eth_port; pcfg = te_port_cfg tenv
      in if \<not> te_test_running tenv then Some (0, M)
         else if te_test_cases_count tenv = 0 then Some (- EINVAL, M)
         else do {
           M \<leftarrow> fold (\<lambda>i M. Option.bind M (stop_case P eth_port i)) (TEST_CASE_FOREACH tenv) (Some M);
           let M = (if ip_v4 (pc_def_gw pcfg) \<noteq> 0 then mgmt_log [RouteGwDel eth_port (pc_def_gw pcfg)] M else M);
           let M = mgmt_log (map (RouteIntfDel eth_port) (pc_l3_intfs pcfg)) M;
           Some (0, upd_env eth_port (\<lambda>tenv. tenv\<lparr>te_test_running := False\<rparr>) M)
         })"

end
