(* ===== verification/MgmtApi.thy ===== *)
theory MgmtApi
  imports Mgmt
begin

text \<open>
  The management interface, which the CLI and the RPC server call: \<^verbatim>\<open>src/tpg_test_mgmt_api.c\<close>. An
  operation returns its error code, 0 when it succeeds, and changes the environment of a port only
  then, but for one case that the code leaves half done. A getter returns the error or the value.

  The messages printed are not modelled, nor is an argument that is \<open>NULL\<close>. The parameters are the
  number of ports, what the applications say of their configuration, and the calls that let them
  keep memory for it, which are logged.
\<close>

datatype 'app app_cfg_call = AppAddCfg "'app tpg_test_case" | AppDeleteCfg "'app tpg_test_case"

record ('app, 's) mgmt_api = "('app, 's) mgmt" +
  ma_app_calls :: "'app app_cfg_call list"

record 'app api_prm =
  ap_dev_count :: u32
  ap_app_validate :: "'app tpg_test_case \<Rightarrow> bool"
  ap_raw_server :: 'app
  ap_raw_client :: 'app
  ap_app_zero :: 'app
  ap_offload_ipv4 :: "u32 \<Rightarrow> bool"
  ap_offload_tcp :: "u32 \<Rightarrow> bool"
  ap_offload_udp :: "u32 \<Rightarrow> bool"

definition upd_env_api ::
  "u32 \<Rightarrow> ('app test_env \<Rightarrow> 'app test_env) \<Rightarrow> ('app, 's) mgmt_api \<Rightarrow> ('app, 's) mgmt_api" where
  "upd_env_api port f M = M\<lparr>m_envs := (m_envs M)(port := f (m_envs M port))\<rparr>"

subsection \<open>Defaults\<close>

definition test_init_server_default_criteria :: "tpg_server \<Rightarrow> test_criteria" where
  "test_init_server_default_criteria srv =
     CRIT_SRV_UP (TPG_IPV4_RANGE_SIZE (srv_ips srv) * TPG_PORT_RANGE_SIZE (tus_ports srv))"

definition GCFG_TEST_MAX_TC_RUNTIME :: u32 where "GCFG_TEST_MAX_TC_RUNTIME = 600000000"

definition test_init_client_default_criteria :: test_criteria where
  "test_init_client_default_criteria = CRIT_RUN_TIME GCFG_TEST_MAX_TC_RUNTIME"

definition TPG_DELAY :: "u32 \<Rightarrow> tpg_delay" where "TPG_DELAY v = \<lparr>has_d_value = True, d_value = v\<rparr>"
definition TPG_DELAY_INF :: tpg_delay where "TPG_DELAY_INF = \<lparr>has_d_value = False, d_value = 0\<rparr>"
definition TPG_RATE_INF :: TestCfg.tpg_rate where "TPG_RATE_INF = \<lparr>has_r_value = False, r_value = 0\<rparr>"

definition default_server :: tpg_server where
  "default_server =
     \<lparr>srv_ips = TPG_IPV4_RANGE 1 1, l4s_proto = L4_PROTO__TCP, tus_ports = TPG_PORT_RANGE 1 1\<rparr>"

definition default_client :: tpg_client where
  "default_client =
     \<lparr>cl_src_ips = TPG_IPV4_RANGE 1 1, cl_dst_ips = TPG_IPV4_RANGE 1 1, l4c_proto = L4_PROTO__TCP,
      tuc_sports = TPG_PORT_RANGE 1 1, tuc_dports = TPG_PORT_RANGE 1 1, rc_open_rate = TPG_RATE_INF,
      rc_close_rate = TPG_RATE_INF, rc_send_rate = TPG_RATE_INF, cl_mcast_src = False\<rparr>"

text \<open>The client and the server of a test case are the alternatives of a union in the code. Both are fields
  here, and the one that is not of the type of the test case is never read.\<close>

text \<open>The delays are those of \<open>test_init_server_defaults\<close> and \<open>test_init_client_defaults\<close>, which agree.\<close>

definition test_init_defaults :: "'app api_prm \<Rightarrow> test_case_type \<Rightarrow> u32 \<Rightarrow> u32 \<Rightarrow> 'app tpg_test_case" where
  "test_init_defaults A type eth_port test_case_id =
     \<lparr>tc_type = type, tc_eth_port = eth_port, tc_id = test_case_id, tc_client = default_client,
      tc_server = default_server, has_tc_init_delay = False, has_tc_uptime = False, has_tc_downtime = False,
      tc_init_delay = TPG_DELAY 0, tc_uptime = TPG_DELAY_INF, tc_downtime = TPG_DELAY_INF,
      tc_app = (case type of TEST_CASE_TYPE__SERVER \<Rightarrow> ap_raw_server A | TEST_CASE_TYPE__CLIENT \<Rightarrow> ap_raw_client A
                | _ \<Rightarrow> ap_app_zero A),
      tc_criteria = (case type of TEST_CASE_TYPE__SERVER \<Rightarrow> test_init_server_default_criteria default_server
                     | TEST_CASE_TYPE__CLIENT \<Rightarrow> test_init_client_default_criteria | _ \<Rightarrow> CRIT_RUN_TIME 0),
      tc_async = False, has_tc_latency = False,
      tc_latency = \<lparr>tcs_max = None, tcs_max_avg = None, tcs_samples = None\<rparr>\<rparr>"

definition zero_api_sockopt :: api_sockopt where
  "zero_api_sockopt =
     \<lparr>tcpo_win_size = 0, tcpo_syn_retry_cnt = 0, tcpo_syn_ack_retry_cnt = 0, tcpo_data_retry_cnt = 0,
      tcpo_retry_cnt = 0, tcpo_rto = 0, tcpo_fin_to = 0, tcpo_twait_to = 0, tcpo_orphan_to = 0,
      tcpo_skip_timewait = False, tcpo_ack_delay = False, vlanso_hdr_opt_len = 0, ip4so_hdr_opt_len = 0,
      ip4so_rx_tstamp = False, ip4so_tx_tstamp = False, ip4so_tos = 0, vlanso_id = 0, vlanso_pri = 0,
      ethso_tx_offload_ipv4_cksum = False, ethso_tx_offload_tcp_cksum = False, ethso_tx_offload_udp_cksum = False\<rparr>"

definition test_init_server_sockopt_defaults :: "tpg_server \<Rightarrow> api_sockopt \<Rightarrow> api_sockopt" where
  "test_init_server_sockopt_defaults srv so =
     (if l4s_proto srv = L4_PROTO__TCP then so_set_tcp (tcp_store_sockopt tpg_xlate_default_TcpSockopt) so else so)"

definition test_init_client_sockopt_defaults :: "tpg_client \<Rightarrow> api_sockopt \<Rightarrow> api_sockopt" where
  "test_init_client_sockopt_defaults cl so =
     (if l4c_proto cl = L4_PROTO__TCP then so_set_tcp (tcp_store_sockopt tpg_xlate_default_TcpSockopt) so else so)"

definition test_init_sockopt_defaults :: "'app api_prm \<Rightarrow> 'app tpg_test_case \<Rightarrow> api_sockopt" where
  "test_init_sockopt_defaults A te =
     (let so = zero_api_sockopt\<lparr>ethso_tx_offload_ipv4_cksum := ap_offload_ipv4 A (tc_eth_port te),
                                ethso_tx_offload_tcp_cksum := ap_offload_tcp A (tc_eth_port te),
                                ethso_tx_offload_udp_cksum := ap_offload_udp A (tc_eth_port te)\<rparr>;
          so = vlan_store_sockopt tpg_xlate_default_VlanSockopt so;
          so = ipv4_store_sockopt tpg_xlate_default_Ipv4Sockopt so
      in case tc_type te of
           TEST_CASE_TYPE__SERVER \<Rightarrow> test_init_server_sockopt_defaults (tc_server te) so
         | TEST_CASE_TYPE__CLIENT \<Rightarrow> test_init_client_sockopt_defaults (tc_client te) so
         | _ \<Rightarrow> so)"

subsection \<open>Checks of the arguments\<close>

definition test_mgmt_add_port_cfg_check :: "'app api_prm \<Rightarrow> u32 \<Rightarrow> ('app, 's) mgmt_api \<Rightarrow> int" where
  "test_mgmt_add_port_cfg_check A eth_port M =
     (if \<not> test_mgmt_validate_port_id (ap_dev_count A) eth_port then - EINVAL
      else if te_test_running (m_envs M eth_port) then - EALREADY else 0)"

definition test_mgmt_add_test_case_check :: "'app api_prm \<Rightarrow> u32 \<Rightarrow> u32 \<Rightarrow> ('app, 's) mgmt_api \<Rightarrow> int" where
  "test_mgmt_add_test_case_check A eth_port test_case_id M =
     (if \<not> test_mgmt_validate_port_id (ap_dev_count A) eth_port then - EINVAL
      else if \<not> test_mgmt_validate_test_case_id test_case_id then - EINVAL
      else if te_test_running (m_envs M eth_port) then - EALREADY
      else if te_configured (m_envs M eth_port) test_case_id then - EEXIST else 0)"

definition test_mgmt_del_test_case_check :: "'app api_prm \<Rightarrow> u32 \<Rightarrow> u32 \<Rightarrow> ('app, 's) mgmt_api \<Rightarrow> int" where
  "test_mgmt_del_test_case_check A eth_port test_case_id M =
     (if \<not> test_mgmt_validate_port_id (ap_dev_count A) eth_port then - EINVAL
      else if \<not> test_mgmt_validate_test_case_id test_case_id then - EINVAL
      else if te_test_running (m_envs M eth_port) then - EALREADY
      else if \<not> te_configured (m_envs M eth_port) test_case_id then - ENOENT else 0)"

text \<open>\<open>TEST_CASE_TYPE__MAX\<close> stands for any type.\<close>

definition test_mgmt_update_test_case_check ::
  "'app api_prm \<Rightarrow> u32 \<Rightarrow> u32 \<Rightarrow> test_case_type \<Rightarrow> ('app, 's) mgmt_api \<Rightarrow> int" where
  "test_mgmt_update_test_case_check A eth_port test_case_id type M =
     (if \<not> test_mgmt_validate_port_id (ap_dev_count A) eth_port then - EINVAL
      else if \<not> test_mgmt_validate_test_case_id test_case_id then - EINVAL
      else if te_test_running (m_envs M eth_port) then - EALREADY
      else if \<not> te_configured (m_envs M eth_port) test_case_id then - ENOENT
      else if type \<noteq> TEST_CASE_TYPE__MAX \<and> tc_type (cfg (te_test_cases (m_envs M eth_port) test_case_id)) \<noteq> type
      then - EINVAL else 0)"

definition test_mgmt_get_test_case_check ::
  "'app api_prm \<Rightarrow> u32 \<Rightarrow> u32 \<Rightarrow> test_case_type \<Rightarrow> ('app, 's) mgmt_api \<Rightarrow> int" where
  "test_mgmt_get_test_case_check A eth_port test_case_id type M =
     (if \<not> test_mgmt_validate_port_id (ap_dev_count A) eth_port then - EINVAL
      else if \<not> test_mgmt_validate_test_case_id test_case_id then - EINVAL
      else if \<not> te_configured (m_envs M eth_port) test_case_id then - EALREADY
      else if type \<noteq> TEST_CASE_TYPE__MAX \<and> tc_type (cfg (te_test_cases (m_envs M eth_port) test_case_id)) \<noteq> type
      then - EINVAL else 0)"

subsection \<open>Configuration of a port\<close>

definition test_mgmt_add_port_cfg ::
  "'app api_prm \<Rightarrow> u32 \<Rightarrow> port_cfg \<Rightarrow> ('app, 's) mgmt_api \<Rightarrow> int \<times> ('app, 's) mgmt_api" where
  "test_mgmt_add_port_cfg A eth_port pcfg M =
     (let err = test_mgmt_add_port_cfg_check A eth_port M
      in if err \<noteq> 0 then (err, M) else (0, upd_env_api eth_port (\<lambda>tenv. tenv\<lparr>te_port_cfg := pcfg\<rparr>) M))"

definition test_mgmt_get_port_cfg :: "'app api_prm \<Rightarrow> u32 \<Rightarrow> ('app, 's) mgmt_api \<Rightarrow> port_cfg option" where
  "test_mgmt_get_port_cfg A eth_port M =
     (if \<not> test_mgmt_validate_port_id (ap_dev_count A) eth_port then None
      else Some (te_port_cfg (m_envs M eth_port)))"

definition TPG_TEST_MAX_L3_INTF :: nat where "TPG_TEST_MAX_L3_INTF = 10"

definition test_mgmt_add_port_cfg_l3_intf ::
  "'app api_prm \<Rightarrow> u32 \<Rightarrow> l3_intf \<Rightarrow> ('app, 's) mgmt_api \<Rightarrow> int \<times> ('app, 's) mgmt_api" where
  "test_mgmt_add_port_cfg_l3_intf A eth_port l3 M =
     (let err = test_mgmt_add_port_cfg_check A eth_port M;
          intfs = pc_l3_intfs (te_port_cfg (m_envs M eth_port))
      in if err \<noteq> 0 then (err, M)
         else if list_ex (\<lambda>i. TPG_IP_EQ (l3i_ip i) (l3i_ip l3) \<and> TPG_IP_EQ (l3i_mask i) (l3i_mask l3)) intfs
         then (- EEXIST, M)
         else if length intfs = TPG_TEST_MAX_L3_INTF then (- ENOMEM, M)
         else (0, upd_env_api eth_port
                    (\<lambda>tenv. tenv\<lparr>te_port_cfg := (te_port_cfg tenv)\<lparr>pc_l3_intfs := intfs @ [l3]\<rparr>\<rparr>) M))"

definition test_mgmt_add_port_cfg_l3_gw ::
  "'app api_prm \<Rightarrow> u32 \<Rightarrow> tpg_ip \<Rightarrow> ('app, 's) mgmt_api \<Rightarrow> int \<times> ('app, 's) mgmt_api" where
  "test_mgmt_add_port_cfg_l3_gw A eth_port gw M =
     (let err = test_mgmt_add_port_cfg_check A eth_port M
      in if err \<noteq> 0 then (err, M)
         else (0, upd_env_api eth_port
                    (\<lambda>tenv. tenv\<lparr>te_port_cfg := (te_port_cfg tenv)\<lparr>pc_def_gw := gw\<rparr>\<rparr>) M))"

subsection \<open>Test cases\<close>

definition test_mgmt_app_add_test_case ::
  "'app tpg_test_case \<Rightarrow> ('app, 's) mgmt_api \<Rightarrow> ('app, 's) mgmt_api" where
  "test_mgmt_app_add_test_case c M = M\<lparr>ma_app_calls := ma_app_calls M @ [AppAddCfg c]\<rparr>"

definition test_mgmt_app_del_test_case ::
  "'app tpg_test_case \<Rightarrow> ('app, 's) mgmt_api \<Rightarrow> ('app, 's) mgmt_api" where
  "test_mgmt_app_del_test_case c M = M\<lparr>ma_app_calls := ma_app_calls M @ [AppDeleteCfg c]\<rparr>"

definition test_mgmt_add_test_case ::
  "'app api_prm \<Rightarrow> u32 \<Rightarrow> 'app tpg_test_case \<Rightarrow> ('app, 's) mgmt_api \<Rightarrow> int \<times> ('app, 's) mgmt_api" where
  "test_mgmt_add_test_case A eth_port c M =
     (let err = test_mgmt_add_test_case_check A eth_port (tc_id c) M
      in if err \<noteq> 0 then (err, M)
         else if \<not> test_mgmt_validate_test_case (ap_dev_count A) (ap_app_validate A) c then (- EINVAL, M)
         else
           let M = upd_env_api eth_port (upd_case (tc_id c) (\<lambda>x. x\<lparr>cfg := c\<rparr>)) M;
               M = test_mgmt_app_add_test_case c M;
               M = upd_env_api eth_port (upd_oper (tc_id c) (\<lambda>st. st\<lparr>teos_configured := True\<rparr>)) M;
               M = upd_env_api eth_port
                     (upd_case (tc_id c) (\<lambda>x. x\<lparr>tec_sockopt := test_init_sockopt_defaults A c\<rparr>)) M
           in (0, upd_env_api eth_port
                    (\<lambda>tenv. tenv\<lparr>te_test_cases_count := te_test_cases_count tenv + 1\<rparr>) M))"

definition test_mgmt_del_test_case ::
  "'app api_prm \<Rightarrow> u32 \<Rightarrow> u32 \<Rightarrow> ('app, 's) mgmt_api \<Rightarrow> int \<times> ('app, 's) mgmt_api" where
  "test_mgmt_del_test_case A eth_port test_case_id M =
     (let err = test_mgmt_del_test_case_check A eth_port test_case_id M
      in if err \<noteq> 0 then (err, M)
         else
           let M = test_mgmt_app_del_test_case (cfg (te_test_cases (m_envs M eth_port) test_case_id)) M;
               M = upd_env_api eth_port (upd_oper test_case_id (\<lambda>st. st\<lparr>teos_configured := False\<rparr>)) M
           in (0, upd_env_api eth_port
                    (\<lambda>tenv. tenv\<lparr>te_test_cases_count := te_test_cases_count tenv - 1\<rparr>) M))"

text \<open>An update; a field that is not given is \<^term>\<open>None\<close>.\<close>

record update_arg =
  ua_rate_open :: "TestCfg.tpg_rate option"
  ua_rate_close :: "TestCfg.tpg_rate option"
  ua_rate_send :: "TestCfg.tpg_rate option"
  ua_init_delay :: "tpg_delay option"
  ua_uptime :: "tpg_delay option"
  ua_downtime :: "tpg_delay option"
  ua_criteria :: "test_criteria option"
  ua_async :: "bool option"
  ua_latency :: "test_case_latency option"

definition upd_given :: "'v option \<Rightarrow> ('v \<Rightarrow> 'c \<Rightarrow> 'c) \<Rightarrow> 'c \<Rightarrow> 'c" where
  "upd_given v f c = (case v of None \<Rightarrow> c | Some x \<Rightarrow> f x c)"

definition update_fields :: "update_arg \<Rightarrow> 'app tpg_test_case \<Rightarrow> 'app tpg_test_case" where
  "update_fields arg c =
     (let c = upd_given (ua_rate_open arg) (\<lambda>r c. c\<lparr>tc_client := (tc_client c)\<lparr>rc_open_rate := r\<rparr>\<rparr>) c;
          c = upd_given (ua_rate_close arg) (\<lambda>r c. c\<lparr>tc_client := (tc_client c)\<lparr>rc_close_rate := r\<rparr>\<rparr>) c;
          c = upd_given (ua_rate_send arg) (\<lambda>r c. c\<lparr>tc_client := (tc_client c)\<lparr>rc_send_rate := r\<rparr>\<rparr>) c;
          c = upd_given (ua_init_delay arg) (\<lambda>d c. c\<lparr>tc_init_delay := d\<rparr>) c;
          c = upd_given (ua_uptime arg) (\<lambda>d c. c\<lparr>tc_uptime := d\<rparr>) c;
          c = upd_given (ua_downtime arg) (\<lambda>d c. c\<lparr>tc_downtime := d\<rparr>) c;
          c = upd_given (ua_criteria arg) (\<lambda>k c. c\<lparr>tc_criteria := k\<rparr>) c
      in upd_given (ua_async arg) (\<lambda>b c. c\<lparr>tc_async := b\<rparr>) c)"

definition test_mgmt_update_test_case ::
  "'app api_prm \<Rightarrow> u32 \<Rightarrow> u32 \<Rightarrow> update_arg \<Rightarrow> ('app, 's) mgmt_api \<Rightarrow> int \<times> ('app, 's) mgmt_api" where
  "test_mgmt_update_test_case A eth_port test_case_id arg M =
     (let type = (if ua_rate_open arg \<noteq> None \<or> ua_rate_close arg \<noteq> None \<or> ua_rate_send arg \<noteq> None \<or>
                     ua_init_delay arg \<noteq> None \<or> ua_uptime arg \<noteq> None \<or> ua_downtime arg \<noteq> None
                  then TEST_CASE_TYPE__CLIENT else TEST_CASE_TYPE__MAX);
          err = test_mgmt_update_test_case_check A eth_port test_case_id type M
      in if err \<noteq> 0 then (err, M)
         else
           let M = upd_env_api eth_port (upd_case test_case_id (\<lambda>x. x\<lparr>cfg := update_fields arg (cfg x)\<rparr>)) M
           in case ua_latency arg of
                None \<Rightarrow> (0, M)
              | Some lat \<Rightarrow>
                  if (case tcs_samples lat of None \<Rightarrow> False | Some n \<Rightarrow> n > of_nat TPG_TSTAMP_SAMPLES_MAX_BUFSIZE)
                  then (- EINVAL, M)
                  else (0, upd_env_api eth_port (upd_case test_case_id
                             (\<lambda>x. x\<lparr>cfg := (cfg x)\<lparr>has_tc_latency := True, tc_latency := lat\<rparr>\<rparr>)) M))"

definition get_checked ::
  "'app api_prm \<Rightarrow> u32 \<Rightarrow> u32 \<Rightarrow> (('app, 's) mgmt_api \<Rightarrow> 'v) \<Rightarrow> ('app, 's) mgmt_api \<Rightarrow> int + 'v" where
  "get_checked A eth_port test_case_id f M =
     (let err = test_mgmt_get_test_case_check A eth_port test_case_id TEST_CASE_TYPE__MAX M
      in if err \<noteq> 0 then Inl err else Inr (f M))"

definition test_mgmt_get_test_case_cfg ::
  "'app api_prm \<Rightarrow> u32 \<Rightarrow> u32 \<Rightarrow> ('app, 's) mgmt_api \<Rightarrow> int + 'app tpg_test_case" where
  "test_mgmt_get_test_case_cfg A eth_port test_case_id =
     get_checked A eth_port test_case_id (\<lambda>M. cfg (te_test_cases (m_envs M eth_port) test_case_id))"

definition test_mgmt_get_test_case_app_cfg :: "'app api_prm \<Rightarrow> u32 \<Rightarrow> u32 \<Rightarrow> ('app, 's) mgmt_api \<Rightarrow> int + 'app" where
  "test_mgmt_get_test_case_app_cfg A eth_port test_case_id =
     get_checked A eth_port test_case_id (\<lambda>M. tc_app (cfg (te_test_cases (m_envs M eth_port) test_case_id)))"

definition test_mgmt_get_test_case_state ::
  "'app api_prm \<Rightarrow> u32 \<Rightarrow> u32 \<Rightarrow> ('app, 's) mgmt_api \<Rightarrow> int + test_env_oper_state" where
  "test_mgmt_get_test_case_state A eth_port test_case_id =
     get_checked A eth_port test_case_id (\<lambda>M. tec_state (te_test_cases (m_envs M eth_port) test_case_id))"

definition test_mgmt_get_test_case_stats ::
  "'app api_prm \<Rightarrow> u32 \<Rightarrow> u32 \<Rightarrow> ('app, 's) mgmt_api \<Rightarrow> int + gen_stats" where
  "test_mgmt_get_test_case_stats A eth_port test_case_id =
     get_checked A eth_port test_case_id (\<lambda>M. m_gen_stats M eth_port test_case_id)"

definition test_mgmt_get_test_case_rate_stats ::
  "'app api_prm \<Rightarrow> u32 \<Rightarrow> u32 \<Rightarrow> ('app, 's) mgmt_api \<Rightarrow> int + rate_stats" where
  "test_mgmt_get_test_case_rate_stats A eth_port test_case_id =
     get_checked A eth_port test_case_id (\<lambda>M. m_rate_stats M eth_port test_case_id)"

definition test_mgmt_get_test_case_app_stats :: "'app api_prm \<Rightarrow> u32 \<Rightarrow> u32 \<Rightarrow> ('app, 's) mgmt_api \<Rightarrow> int + 's" where
  "test_mgmt_get_test_case_app_stats A eth_port test_case_id =
     get_checked A eth_port test_case_id (\<lambda>M. m_app_stats M eth_port test_case_id)"

definition test_mgmt_update_test_case_app ::
  "'app api_prm \<Rightarrow> u32 \<Rightarrow> u32 \<Rightarrow> 'app \<Rightarrow> ('app, 's) mgmt_api \<Rightarrow> int \<times> ('app, 's) mgmt_api" where
  "test_mgmt_update_test_case_app A eth_port test_case_id app M =
     (let err = test_mgmt_update_test_case_check A eth_port test_case_id TEST_CASE_TYPE__MAX M;
          old = cfg (te_test_cases (m_envs M eth_port) test_case_id)
      in if err \<noteq> 0 then (err, M)
         else if \<not> test_mgmt_validate_test_case (ap_dev_count A) (ap_app_validate A) (old\<lparr>tc_app := app\<rparr>)
         then (- EINVAL, M)
         else
           let M = test_mgmt_app_del_test_case old M;
               M = upd_env_api eth_port (upd_case test_case_id (\<lambda>x. x\<lparr>cfg := (cfg x)\<lparr>tc_app := app\<rparr>\<rparr>)) M
           in (0, test_mgmt_app_add_test_case (cfg (te_test_cases (m_envs M eth_port) test_case_id)) M))"

definition test_mgmt_get_test_case_count :: "'app api_prm \<Rightarrow> u32 \<Rightarrow> ('app, 's) mgmt_api \<Rightarrow> u32" where
  "test_mgmt_get_test_case_count A eth_port M =
     (if \<not> test_mgmt_validate_port_id (ap_dev_count A) eth_port then 0
      else te_test_cases_count (m_envs M eth_port))"

subsection \<open>Options of the sockets of a test case\<close>

definition not_tcp :: "'app tpg_test_case \<Rightarrow> bool" where
  "not_tcp c \<longleftrightarrow> tc_type c = TEST_CASE_TYPE__SERVER \<and> l4s_proto (tc_server c) \<noteq> L4_PROTO__TCP \<or>
                 tc_type c = TEST_CASE_TYPE__CLIENT \<and> l4c_proto (tc_client c) \<noteq> L4_PROTO__TCP"

definition tcp_sockopt_overlay :: "tpg_tcp_sockopt \<Rightarrow> tpg_tcp_sockopt \<Rightarrow> tpg_tcp_sockopt" where
  "tcp_sockopt_overlay d s =
     \<lparr>to_win_size = TPG_XLATE_OPTIONAL_COPY_FIELD (to_win_size d) (to_win_size s),
      to_syn_retry_cnt = TPG_XLATE_OPTIONAL_COPY_FIELD (to_syn_retry_cnt d) (to_syn_retry_cnt s),
      to_syn_ack_retry_cnt = TPG_XLATE_OPTIONAL_COPY_FIELD (to_syn_ack_retry_cnt d) (to_syn_ack_retry_cnt s),
      to_data_retry_cnt = TPG_XLATE_OPTIONAL_COPY_FIELD (to_data_retry_cnt d) (to_data_retry_cnt s),
      to_retry_cnt = TPG_XLATE_OPTIONAL_COPY_FIELD (to_retry_cnt d) (to_retry_cnt s),
      to_rto = TPG_XLATE_OPTIONAL_COPY_FIELD (to_rto d) (to_rto s),
      to_fin_to = TPG_XLATE_OPTIONAL_COPY_FIELD (to_fin_to d) (to_fin_to s),
      to_twait_to = TPG_XLATE_OPTIONAL_COPY_FIELD (to_twait_to d) (to_twait_to s),
      to_orphan_to = TPG_XLATE_OPTIONAL_COPY_FIELD (to_orphan_to d) (to_orphan_to s),
      to_skip_timewait = TPG_XLATE_OPTIONAL_COPY_FIELD (to_skip_timewait d) (to_skip_timewait s),
      to_ack_delay = TPG_XLATE_OPTIONAL_COPY_FIELD (to_ack_delay d) (to_ack_delay s)\<rparr>"

definition upd_sockopt ::
  "u32 \<Rightarrow> u32 \<Rightarrow> (api_sockopt \<Rightarrow> api_sockopt) \<Rightarrow> ('app, 's) mgmt_api \<Rightarrow> ('app, 's) mgmt_api" where
  "upd_sockopt eth_port test_case_id f =
     upd_env_api eth_port (upd_case test_case_id (\<lambda>x. x\<lparr>tec_sockopt := f (tec_sockopt x)\<rparr>))"

definition case_sockopt :: "u32 \<Rightarrow> u32 \<Rightarrow> ('app, 's) mgmt_api \<Rightarrow> api_sockopt" where
  "case_sockopt eth_port test_case_id M = tec_sockopt (te_test_cases (m_envs M eth_port) test_case_id)"

definition test_mgmt_set_tcp_sockopt ::
  "'app api_prm \<Rightarrow> u32 \<Rightarrow> u32 \<Rightarrow> tpg_tcp_sockopt \<Rightarrow> ('app, 's) mgmt_api \<Rightarrow> int \<times> ('app, 's) mgmt_api" where
  "test_mgmt_set_tcp_sockopt A eth_port test_case_id opts M =
     (let err = test_mgmt_update_test_case_check A eth_port test_case_id TEST_CASE_TYPE__MAX M;
          new = tcp_sockopt_overlay (tcp_load_sockopt (so_tcp (case_sockopt eth_port test_case_id M))) opts
      in if err \<noteq> 0 then (err, M)
         else if not_tcp (cfg (te_test_cases (m_envs M eth_port) test_case_id)) then (- EINVAL, M)
         else if \<not> test_mgmt_validate_tcp_sockopt new then (- EINVAL, M)
         else (0, upd_sockopt eth_port test_case_id (so_set_tcp (tcp_store_sockopt new)) M))"

definition test_mgmt_get_tcp_sockopt ::
  "'app api_prm \<Rightarrow> u32 \<Rightarrow> u32 \<Rightarrow> ('app, 's) mgmt_api \<Rightarrow> int + tpg_tcp_sockopt" where
  "test_mgmt_get_tcp_sockopt A eth_port test_case_id M =
     (let err = test_mgmt_get_test_case_check A eth_port test_case_id TEST_CASE_TYPE__MAX M
      in if err \<noteq> 0 then Inl err
         else if not_tcp (cfg (te_test_cases (m_envs M eth_port) test_case_id)) then Inl (- EINVAL)
         else Inr (tcp_load_sockopt (so_tcp (case_sockopt eth_port test_case_id M))))"

definition test_mgmt_set_ipv4_sockopt ::
  "'app api_prm \<Rightarrow> u32 \<Rightarrow> u32 \<Rightarrow> tpg_ipv4_sockopt \<Rightarrow> ('app, 's) mgmt_api \<Rightarrow> int \<times> ('app, 's) mgmt_api" where
  "test_mgmt_set_ipv4_sockopt A eth_port test_case_id opts M =
     (let err = test_mgmt_update_test_case_check A eth_port test_case_id TEST_CASE_TYPE__MAX M;
          d = ipv4_load_sockopt (case_sockopt eth_port test_case_id M);
          new = \<lparr>o_ip4so_rx_tstamp = TPG_XLATE_OPTIONAL_COPY_FIELD (o_ip4so_rx_tstamp d) (o_ip4so_rx_tstamp opts),
                 o_ip4so_tx_tstamp = TPG_XLATE_OPTIONAL_COPY_FIELD (o_ip4so_tx_tstamp d) (o_ip4so_tx_tstamp opts),
                 o_ip4so_tos = TPG_XLATE_OPTIONAL_COPY_FIELD (o_ip4so_tos d) (o_ip4so_tos opts)\<rparr>
      in if err \<noteq> 0 then (err, M)
         else if \<not> test_mgmt_validate_ipv4_sockopt new then (- EINVAL, M)
         else (0, upd_sockopt eth_port test_case_id (ipv4_store_sockopt new) M))"

definition test_mgmt_get_ipv4_sockopt ::
  "'app api_prm \<Rightarrow> u32 \<Rightarrow> u32 \<Rightarrow> ('app, 's) mgmt_api \<Rightarrow> int + tpg_ipv4_sockopt" where
  "test_mgmt_get_ipv4_sockopt A eth_port test_case_id =
     get_checked A eth_port test_case_id (\<lambda>M. ipv4_load_sockopt (case_sockopt eth_port test_case_id M))"

definition test_mgmt_set_vlan_sockopt ::
  "'app api_prm \<Rightarrow> u32 \<Rightarrow> u32 \<Rightarrow> tpg_vlan_sockopt \<Rightarrow> ('app, 's) mgmt_api \<Rightarrow> int \<times> ('app, 's) mgmt_api" where
  "test_mgmt_set_vlan_sockopt A eth_port test_case_id opts M =
     (let err = test_mgmt_update_test_case_check A eth_port test_case_id TEST_CASE_TYPE__MAX M;
          d = vlan_load_sockopt (case_sockopt eth_port test_case_id M);
          new = \<lparr>o_vlanso_id = TPG_XLATE_OPTIONAL_COPY_FIELD (o_vlanso_id d) (o_vlanso_id opts),
                 o_vlanso_pri = TPG_XLATE_OPTIONAL_COPY_FIELD (o_vlanso_pri d) (o_vlanso_pri opts)\<rparr>
      in if err \<noteq> 0 then (err, M)
         else if \<not> test_mgmt_validate_vlan_sockopt new then (- EINVAL, M)
         else (0, upd_sockopt eth_port test_case_id (vlan_store_sockopt new) M))"

definition test_mgmt_get_vlan_sockopt ::
  "'app api_prm \<Rightarrow> u32 \<Rightarrow> u32 \<Rightarrow> ('app, 's) mgmt_api \<Rightarrow> int + tpg_vlan_sockopt" where
  "test_mgmt_get_vlan_sockopt A eth_port test_case_id =
     get_checked A eth_port test_case_id (\<lambda>M. vlan_load_sockopt (case_sockopt eth_port test_case_id M))"

subsection \<open>Starting and stopping a port\<close>

text \<open>The message is processed by the management core before the call returns; the result of its handler
  is not seen.\<close>

definition with_mgmt ::
  "(('app, 's) mgmt \<Rightarrow> (int \<times> ('app, 's) mgmt) option) \<Rightarrow> ('app, 's) mgmt_api
     \<Rightarrow> (int \<times> ('app, 's) mgmt_api) option" where
  "with_mgmt f M = map_option (\<lambda>(r, N). (0, mgmt.extend N (mgmt.more M))) (f (mgmt.truncate M))"

definition test_mgmt_start_port ::
  "'app api_prm \<Rightarrow> ('app, 's) mgmt_prm \<Rightarrow> u32 \<Rightarrow> ('app, 's) mgmt_api \<Rightarrow> (int \<times> ('app, 's) mgmt_api) option" where
  "test_mgmt_start_port A P eth_port M =
     (if \<not> test_mgmt_validate_port_id (ap_dev_count A) eth_port then Some (- EINVAL, M)
      else if te_test_running (m_envs M eth_port) then Some (- EALREADY, M)
      else if test_mgmt_get_test_case_count A eth_port M = 0 then Some (- ENOENT, M)
      else with_mgmt (test_start_cb P eth_port) M)"

definition test_mgmt_stop_port ::
  "'app api_prm \<Rightarrow> ('app, 's) mgmt_prm \<Rightarrow> u32 \<Rightarrow> ('app, 's) mgmt_api \<Rightarrow> (int \<times> ('app, 's) mgmt_api) option" where
  "test_mgmt_stop_port A P eth_port M =
     (if \<not> test_mgmt_validate_port_id (ap_dev_count A) eth_port then Some (- EINVAL, M)
      else if \<not> te_test_running (m_envs M eth_port) then Some (- ENOENT, M)
      else with_mgmt (test_stop_cb P eth_port) M)"

end
