(* ===== verification/MgmtProps.thy ===== *)
theory MgmtProps
  imports MgmtApi
begin

text \<open>
  Properties of the test manager and of its interface. The operations of the interface, the start and
  the stop of a port and the timers of the test cases are the steps of a system; what holds of the
  configuration of the ports is an invariant of its reachable states.
\<close>

named_theorems view_simps \<open>what the manager leaves as it is\<close>

subsection \<open>The configured part of the environments\<close>

definition case_view :: "'app test_env_case \<Rightarrow> 'app tpg_test_case \<times> api_sockopt \<times> bool" where
  "case_view c = (cfg c, tec_sockopt c, teos_configured (tec_state c))"

definition env_view :: "'app test_env \<Rightarrow> u32 \<times> (u32 \<Rightarrow> 'app tpg_test_case \<times> api_sockopt \<times> bool)" where
  "env_view tenv = (te_test_cases_count tenv, \<lambda>i. case_view (te_test_cases tenv i))"

definition m_view :: "('app, 's, 'z) mgmt_scheme \<Rightarrow> u32 \<Rightarrow> u32 \<times> (u32 \<Rightarrow> 'app tpg_test_case \<times> api_sockopt \<times> bool)" where
  "m_view M port = env_view (m_envs M port)"

lemma env_view_flags [view_simps]:
  "env_view (tenv\<lparr>te_test_running := b\<rparr>) = env_view tenv"
  "env_view (tenv\<lparr>te_test_case_to_start := b\<rparr>) = env_view tenv"
  "env_view (tenv\<lparr>te_test_case_next := n\<rparr>) = env_view tenv"
  by (simp_all add: env_view_def)

lemma env_view_oper [view_simps]:
  "(\<And>st. teos_configured (f st) = teos_configured st) \<Longrightarrow> env_view (upd_oper i f tenv) = env_view tenv"
  by (simp add: env_view_def upd_oper_def upd_case_def case_view_def fun_eq_iff)

lemma m_view_upd_env [view_simps]:
  "(\<And>tenv. env_view (f tenv) = env_view tenv) \<Longrightarrow> m_view (upd_env port f M) = m_view M"
  by (simp add: m_view_def upd_env_def fun_eq_iff)

lemma m_view_const [view_simps]:
  "env_view tenv = env_view (m_envs M port) \<Longrightarrow> m_view (upd_env port (\<lambda>_. tenv) M) = m_view M"
  by (simp add: m_view_def upd_env_def fun_eq_iff)

lemma m_view_other [view_simps]:
  "m_view (mgmt_log ms M) = m_view M" "m_view (M\<lparr>m_gen_stats := g\<rparr>) = m_view M"
  "m_view (M\<lparr>m_rate_stats := r\<rparr>) = m_view M" "m_view (M\<lparr>m_app_stats := a\<rparr>) = m_view M"
  "m_view (M\<lparr>m_now := now\<rparr>) = m_view M"
  by (simp_all add: m_view_def mgmt_log_def fun_eq_iff)

subsection \<open>The manager keeps the configuration\<close>

lemma view_update_status [view_simps]: "m_view (test_update_status P answer tc M) = m_view M"
  by (simp add: test_update_status_def Let_def case_prod_beta m_view_def fun_eq_iff)

lemma view_update_rates [view_simps]: "test_update_rates P answer tc M = Some M' \<Longrightarrow> m_view M' = m_view M"
  by (auto simp: test_update_rates_def view_simps)

lemma view_init_test_case [view_simps]: "test_init_test_case P entry so M = Some M' \<Longrightarrow> m_view M' = m_view M"
  by (auto simp: test_init_test_case_def view_simps)

lemma mgmt_log_envs [simp]: "m_envs (mgmt_log ms M) = m_envs M"
  by (simp add: mgmt_log_def)

lemma view_start_test_case [view_simps]: "m_view (test_start_test_case P port M) = m_view M"
  unfolding test_start_test_case_def Let_def
  by (subst m_view_const) (simp_all add: view_simps split: list.split)

lemma view_stop_test_case [view_simps]: "test_stop_test_case P port i s M = Some M' \<Longrightarrow> m_view M' = m_view M"
  by (auto simp: test_stop_test_case_def Let_def view_simps split: if_splits)

lemma criteria_configured:
  "test_check_criteria P g crit st now = Some (b, st') \<Longrightarrow> teos_configured st' = teos_configured st"
  by (auto simp: test_check_criteria_def test_check_run_time_tc_status_def test_check_srv_up_tc_status_def
      test_check_cl_up_tc_status_def test_check_cl_estab_tc_status_def Let_def split: test_criteria.splits if_splits)

lemma view_check_tc_status:
  "test_check_tc_status P answer tc st M = Some (d, p, st', M') \<Longrightarrow>
     m_view M' = m_view M \<and> teos_configured st' = teos_configured st"
  by (auto simp: test_check_tc_status_def bind_eq_Some_conv Let_def view_simps dest: criteria_configured split: if_splits)

lemma view_tmr_outcome: "entry_tmr_outcome P port i d p M = Some M' \<Longrightarrow> m_view M' = m_view M"
  by (auto simp: entry_tmr_outcome_def Let_def view_simps dest!: view_stop_test_case split: if_splits)

lemma view_tmr_start_next [view_simps]: "m_view (entry_tmr_start_next P port i d M) = m_view M"
  by (simp add: entry_tmr_start_next_def Let_def view_simps)

lemma view_tmr_rates: "entry_tmr_rates P rates port i M = Some M' \<Longrightarrow> m_view M' = m_view M"
  by (auto simp: entry_tmr_rates_def Let_def view_simps dest!: view_update_rates split: if_splits)

lemma view_tmr_all_done [view_simps]: "m_view (entry_tmr_all_done port d M) = m_view M"
  by (simp add: entry_tmr_all_done_def Let_def view_simps)

lemma m_view_set_oper:
  assumes "teos_configured st = teos_configured (tec_state (te_test_cases (m_envs M port) i))"
  shows "m_view (upd_env port (upd_oper i (\<lambda>_. st)) M) = m_view M"
  using assms by (auto simp: m_view_def upd_env_def env_view_def upd_oper_def upd_case_def case_view_def fun_eq_iff)

lemma m_view_configured:
  "m_view M' = m_view M \<Longrightarrow> teos_configured (tec_state (te_test_cases (m_envs M' port) i)) =
     teos_configured (tec_state (te_test_cases (m_envs M port) i))"
  by (drule fun_cong [where x = port]) (auto simp: m_view_def env_view_def case_view_def dest: fun_cong [where x = i])

lemma view_tmr_cb: "test_entry_tmr_cb P answer rates port i M = Some M' \<Longrightarrow> m_view M' = m_view M"
proof -
  assume "test_entry_tmr_cb P answer rates port i M = Some M'"
  then obtain d p st M1 M2 M3 where
    1: "test_check_tc_status P answer (cfg (te_test_cases (m_envs M port) i))
         (tec_state (te_test_cases (m_envs M port) i)) M = Some (d, p, st, M1)"
    and 2: "entry_tmr_outcome P port i d p (upd_env port (upd_oper i (\<lambda>_. st)) M1) = Some M2"
    and 3: "entry_tmr_rates P rates port i (entry_tmr_start_next P port i d M2) = Some M3"
    and M': "M' = entry_tmr_all_done port d M3"
    by (auto simp: test_entry_tmr_cb_def bind_eq_Some_conv Let_def)
  from view_check_tc_status [OF 1] m_view_configured [of M1 M port i]
  have "m_view M1 = m_view M" "teos_configured st = teos_configured (tec_state (te_test_cases (m_envs M1 port) i))"
    by metis+
  then have "m_view (upd_env port (upd_oper i (\<lambda>_. st)) M1) = m_view M" by (simp add: m_view_set_oper)
  with view_tmr_outcome [OF 2] view_tmr_rates [OF 3] show ?thesis by (simp add: M' view_simps)
qed

lemma fold_bind_None: "fold (\<lambda>i M. Option.bind M (f i)) xs None = None"
  by (induction xs) simp_all

lemma fold_bind_view:
  assumes "\<And>i M M'. f i M = Some M' \<Longrightarrow> m_view M' = m_view M"
  shows "fold (\<lambda>i M. Option.bind M (f i)) xs (Some M) = Some M' \<Longrightarrow> m_view M' = m_view M"
proof (induction xs arbitrary: M)
  case (Cons x xs)
  then obtain M1 where "f x M = Some M1" "fold (\<lambda>i M. Option.bind M (f i)) xs (Some M1) = Some M'"
    by (cases "f x M") (auto simp: fold_bind_None)
  with Cons.IH [of M1] assms [of x M M1] show ?case by simp
qed simp

lemma view_start_init_case: "start_init_case P port i M = Some M' \<Longrightarrow> m_view M' = m_view M"
  by (auto simp: start_init_case_def Let_def view_simps dest!: view_init_test_case)

lemma view_stop_case: "stop_case P port i M = Some M' \<Longrightarrow> m_view M' = m_view M"
  by (auto simp: stop_case_def view_simps dest!: view_stop_test_case)

lemma view_start_cases:
  "fold (\<lambda>i M. Option.bind M (start_init_case P port i)) is (Some M) = Some M' \<Longrightarrow> m_view M' = m_view M"
  by (erule fold_bind_view [rotated]) (rule view_start_init_case)

lemma view_stop_cases:
  "fold (\<lambda>i M. Option.bind M (stop_case P port i)) is (Some M) = Some M' \<Longrightarrow> m_view M' = m_view M"
  by (erule fold_bind_view [rotated]) (rule view_stop_case)

lemma env_view_start_timers [view_simps]: "env_view (start_timers tenv) = env_view tenv"
  by (simp add: start_timers_def te_ids_def view_simps)

lemma view_start_cb: "test_start_cb P port M = Some (r, M') \<Longrightarrow> m_view M' = m_view M"
  by (auto simp: test_start_cb_def Let_def bind_eq_Some_conv view_simps
      dest!: view_start_cases split: if_splits)

lemma view_stop_cb: "test_stop_cb P port M = Some (r, M') \<Longrightarrow> m_view M' = m_view M"
  by (auto simp: test_stop_cb_def Let_def bind_eq_Some_conv view_simps
      dest!: view_stop_cases split: if_splits)

subsection \<open>The invariant of the configuration\<close>

text \<open>The options as the checks bound them, in the units they are stored in.\<close>

definition ms_value :: "u32 \<Rightarrow> u32 \<Rightarrow> bool" where
  "ms_value max_ms us \<longleftrightarrow> us div 1000 \<le> max_ms \<and> us = us div 1000 * 1000"

definition tcp_sockopt_ok :: "tcp_sockopt \<Rightarrow> bool" where
  "tcp_sockopt_ok t \<longleftrightarrow>
     tcpo_win_size t \<le> 65535 \<and> tcpo_syn_retry_cnt t \<le> 128 \<and> tcpo_syn_ack_retry_cnt t \<le> 128 \<and>
     tcpo_data_retry_cnt t \<le> 128 \<and> tcpo_retry_cnt t \<le> 128 \<and>
     ms_value TCP_MAX_RTO_MS (tcpo_rto t) \<and> ms_value TCP_MAX_FIN_TO_MS (tcpo_fin_to t) \<and>
     ms_value TCP_MAX_TWAIT_TO_MS (tcpo_twait_to t) \<and> ms_value TCP_MAX_ORPHAN_TO_MS (tcpo_orphan_to t)"

lemma ms_times:
  fixes ms :: u32
  assumes "ms \<le> 10000"
  shows "ms * 1000 div 1000 = ms"
proof -
  have "unat ms \<le> 10000" using assms by (simp add: word_le_nat_alt)
  then have "unat (ms * 1000) = unat ms * 1000" by (simp add: unat_word_ariths)
  then show ?thesis by (simp add: word_unat_eq_iff unat_div_distrib)
qed

lemma ms_value_times: "ms \<le> max_ms \<Longrightarrow> max_ms \<le> 10000 \<Longrightarrow> ms_value max_ms (ms * 1000)"
  by (simp add: ms_value_def ms_times order_trans)

lemma retry_ucast: "(n :: u32) \<le> 128 \<Longrightarrow> (ucast n :: u8) \<le> 128 \<and> ucast (ucast n :: u8) = n"
  by (simp add: word_le_nat_alt word_unat_eq_iff unsigned_ucast_eq unsigned_take_bit_eq take_bit_nat_eq_self)

text \<open>
  The check of an application that reads its own part of the configuration, and the type, the port and the number of the
  test case: no update of other parts changes its answer.
\<close>

definition app_check_local :: "('app tpg_test_case \<Rightarrow> bool) \<Rightarrow> bool" where
  "app_check_local v \<longleftrightarrow> (\<forall>c c'. tc_app c' = tc_app c \<longrightarrow> tc_type c' = tc_type c \<longrightarrow> tc_eth_port c' = tc_eth_port c \<longrightarrow>
     tc_id c' = tc_id c \<longrightarrow> v c' = v c)"

lemma app_check_localD:
  "app_check_local v \<Longrightarrow> tc_app c' = tc_app c \<Longrightarrow> tc_type c' = tc_type c \<Longrightarrow> tc_eth_port c' = tc_eth_port c \<Longrightarrow>
     tc_id c' = tc_id c \<Longrightarrow> v c' = v c"
  unfolding app_check_local_def by blast

definition case_ok :: "'app api_prm \<Rightarrow> u32 \<Rightarrow> 'app tpg_test_case \<times> api_sockopt \<times> bool \<Rightarrow> bool" where
  "case_ok A i v \<longleftrightarrow> (case v of (c, so, configured) \<Rightarrow> configured \<longrightarrow>
     i < TPG_TEST_MAX_ENTRIES \<and> tc_id c = i \<and> test_mgmt_validate_test_case (ap_dev_count A) (\<lambda>_. True) c \<and>
     (app_check_local (ap_app_validate A) \<longrightarrow> ap_app_validate A c) \<and>
     (tcp_sockopt_ok (so_tcp so) \<or> not_tcp c) \<and> vlanso_id so \<le> 4094 \<and> vlanso_pri so \<le> 7)"

definition view_ok :: "'app api_prm \<Rightarrow> u32 \<times> (u32 \<Rightarrow> 'app tpg_test_case \<times> api_sockopt \<times> bool) \<Rightarrow> bool" where
  "view_ok A v \<longleftrightarrow> (\<forall>i. case_ok A i (snd v i)) \<and>
     fst v = of_nat (length (filter (\<lambda>i. snd (snd (snd v i))) te_ids))"

definition api_ok :: "'app api_prm \<Rightarrow> ('app, 's, 'z) mgmt_scheme \<Rightarrow> bool" where
  "api_ok A M \<longleftrightarrow> (\<forall>port. view_ok A (m_view M port))"

lemma api_ok_view: "m_view M' = m_view M \<Longrightarrow> api_ok A M \<Longrightarrow> api_ok A M'"
  by (simp add: api_ok_def)

text \<open>An operation changes one port.\<close>

lemma api_ok_env:
  "api_ok A M \<Longrightarrow> view_ok A (env_view (f (m_envs M port))) \<Longrightarrow> api_ok A (upd_env_api port f M)"
  by (simp add: api_ok_def m_view_def upd_env_api_def)

lemma view_ok_case:
  assumes "view_ok A (env_view tenv)" and "teos_configured (tec_state (f (te_test_cases tenv i))) = te_configured tenv i"
    and "te_configured tenv i \<Longrightarrow> case_ok A i (case_view (te_test_cases tenv i)) \<Longrightarrow> case_ok A i (case_view (f (te_test_cases tenv i)))"
  shows "view_ok A (env_view (upd_case i f tenv))"
proof -
  have "teos_configured (tec_state ((if k = i then f (te_test_cases tenv i) else te_test_cases tenv k))) =
      teos_configured (tec_state (te_test_cases tenv k))" for k
    using assms(2) by (simp add: te_configured_def)
  then show ?thesis using assms
    by (auto simp: view_ok_def env_view_def upd_case_def case_view_def te_configured_def case_ok_def split: prod.splits)
qed

subsection \<open>Options\<close>

lemma ucast_u8_back [simp]: "(ucast (ucast (c :: u8) :: u32) :: u8) = c"
  by (rule bit_word_eqI) (simp add: bit_simps)

lemma overlay_cnt:
  fixes c :: u8
  assumes "n = TPG_XLATE_OPTIONAL_COPY_FIELD (TPG_XLATE_OPTIONAL_SET_FIELD (ucast c)) s"
    and "c \<le> 128" and "\<not> (fst n \<and> snd n > (TCP_MAX_RETRY_CNT :: u32))"
  shows "(ucast (snd n) :: u8) \<le> 128 \<and> (ucast (ucast (snd n) :: u8) :: u32) = snd n"
  using assms retry_ucast [of "snd s"]
  by (auto simp: TPG_XLATE_OPTIONAL_COPY_FIELD_def TPG_XLATE_OPTIONAL_SET_FIELD_def TCP_MAX_RETRY_CNT_def not_less
      split: if_splits)

lemma overlay_ms:
  assumes "n = TPG_XLATE_OPTIONAL_COPY_FIELD (TPG_XLATE_OPTIONAL_SET_FIELD (us div 1000)) s"
    and "ms_value max_ms us" and "\<not> (fst n \<and> snd n > max_ms)" and "max_ms \<le> 10000"
  shows "ms_value max_ms (snd n * 1000) \<and> snd n * 1000 div 1000 = snd n"
proof (cases "fst s")
  case True
  then have "snd n \<le> max_ms" using assms
    by (simp add: TPG_XLATE_OPTIONAL_COPY_FIELD_def TPG_XLATE_OPTIONAL_SET_FIELD_def)
  with assms(4) show ?thesis by (simp add: ms_value_times ms_times)
next
  case False
  then have "snd n = us div 1000" using assms
    by (simp add: TPG_XLATE_OPTIONAL_COPY_FIELD_def TPG_XLATE_OPTIONAL_SET_FIELD_def)
  with assms(2) show ?thesis by (simp add: ms_value_def)
qed

lemma overlay_win:
  "n = TPG_XLATE_OPTIONAL_COPY_FIELD (TPG_XLATE_OPTIONAL_SET_FIELD w) s \<Longrightarrow> w \<le> 65535 \<Longrightarrow>
     \<not> (fst n \<and> snd n > TCP_MAX_WINDOW_SIZE) \<Longrightarrow> snd n \<le> 65535"
  by (auto simp: TPG_XLATE_OPTIONAL_COPY_FIELD_def TPG_XLATE_OPTIONAL_SET_FIELD_def TCP_MAX_WINDOW_SIZE_def split: if_splits)

lemma max_ms_le:
  "TCP_MAX_RTO_MS \<le> 10000" "TCP_MAX_FIN_TO_MS \<le> 10000" "TCP_MAX_TWAIT_TO_MS \<le> 10000" "TCP_MAX_ORPHAN_TO_MS \<le> 10000"
  by (simp_all add: TCP_MAX_RTO_MS_def TCP_MAX_FIN_TO_MS_def TCP_MAX_TWAIT_TO_MS_def TCP_MAX_ORPHAN_TO_MS_def)

lemma so_tcp_set [simp]: "so_tcp (so_set_tcp t so) = t"
  by (cases t) (simp add: so_tcp_def so_set_tcp_def tcp_sockopt.defs)

lemma so_set_other [simp]:
  "vlanso_id (so_set_tcp t so) = vlanso_id so" "vlanso_pri (so_set_tcp t so) = vlanso_pri so"
  by (cases so; simp add: so_set_tcp_def tcp_sockopt.defs)+

text \<open>A set that the check accepts keeps the bounds, and what is stored is read back as it was given.\<close>

definition all_given :: "tpg_tcp_sockopt \<Rightarrow> tpg_tcp_sockopt" where
  "all_given opts =
     \<lparr>to_win_size = (True, snd (to_win_size opts)), to_syn_retry_cnt = (True, snd (to_syn_retry_cnt opts)),
      to_syn_ack_retry_cnt = (True, snd (to_syn_ack_retry_cnt opts)),
      to_data_retry_cnt = (True, snd (to_data_retry_cnt opts)), to_retry_cnt = (True, snd (to_retry_cnt opts)),
      to_rto = (True, snd (to_rto opts)), to_fin_to = (True, snd (to_fin_to opts)),
      to_twait_to = (True, snd (to_twait_to opts)), to_orphan_to = (True, snd (to_orphan_to opts)),
      to_skip_timewait = (True, snd (to_skip_timewait opts)), to_ack_delay = (True, snd (to_ack_delay opts))\<rparr>"

lemma tcp_overlay_stored:
  assumes "tcp_sockopt_ok t" and "new = tcp_sockopt_overlay (tcp_load_sockopt t) opts"
    and v: "test_mgmt_validate_tcp_sockopt new"
  shows "tcp_sockopt_ok (tcp_store_sockopt new)" and "tcp_load_sockopt (tcp_store_sockopt new) = all_given new"
proof -
  note ok = assms(1) [unfolded tcp_sockopt_ok_def]
  note checks = v [unfolded test_mgmt_validate_tcp_sockopt_def, simplified]
  have new: "to_win_size new = TPG_XLATE_OPTIONAL_COPY_FIELD (TPG_XLATE_OPTIONAL_SET_FIELD (tcpo_win_size t)) (to_win_size opts)"
    "to_syn_retry_cnt new = TPG_XLATE_OPTIONAL_COPY_FIELD (TPG_XLATE_OPTIONAL_SET_FIELD (ucast (tcpo_syn_retry_cnt t))) (to_syn_retry_cnt opts)"
    "to_syn_ack_retry_cnt new = TPG_XLATE_OPTIONAL_COPY_FIELD (TPG_XLATE_OPTIONAL_SET_FIELD (ucast (tcpo_syn_ack_retry_cnt t))) (to_syn_ack_retry_cnt opts)"
    "to_data_retry_cnt new = TPG_XLATE_OPTIONAL_COPY_FIELD (TPG_XLATE_OPTIONAL_SET_FIELD (ucast (tcpo_data_retry_cnt t))) (to_data_retry_cnt opts)"
    "to_retry_cnt new = TPG_XLATE_OPTIONAL_COPY_FIELD (TPG_XLATE_OPTIONAL_SET_FIELD (ucast (tcpo_retry_cnt t))) (to_retry_cnt opts)"
    "to_rto new = TPG_XLATE_OPTIONAL_COPY_FIELD (TPG_XLATE_OPTIONAL_SET_FIELD (tcpo_rto t div 1000)) (to_rto opts)"
    "to_fin_to new = TPG_XLATE_OPTIONAL_COPY_FIELD (TPG_XLATE_OPTIONAL_SET_FIELD (tcpo_fin_to t div 1000)) (to_fin_to opts)"
    "to_twait_to new = TPG_XLATE_OPTIONAL_COPY_FIELD (TPG_XLATE_OPTIONAL_SET_FIELD (tcpo_twait_to t div 1000)) (to_twait_to opts)"
    "to_orphan_to new = TPG_XLATE_OPTIONAL_COPY_FIELD (TPG_XLATE_OPTIONAL_SET_FIELD (tcpo_orphan_to t div 1000)) (to_orphan_to opts)"
    by (simp_all add: assms(2) tcp_sockopt_overlay_def tcp_load_sockopt_def)
  have cnt: "(ucast (snd (to_syn_retry_cnt new)) :: u8) \<le> 128 \<and> (ucast (ucast (snd (to_syn_retry_cnt new)) :: u8) :: u32) = snd (to_syn_retry_cnt new)"
    "(ucast (snd (to_syn_ack_retry_cnt new)) :: u8) \<le> 128 \<and> (ucast (ucast (snd (to_syn_ack_retry_cnt new)) :: u8) :: u32) = snd (to_syn_ack_retry_cnt new)"
    "(ucast (snd (to_data_retry_cnt new)) :: u8) \<le> 128 \<and> (ucast (ucast (snd (to_data_retry_cnt new)) :: u8) :: u32) = snd (to_data_retry_cnt new)"
    "(ucast (snd (to_retry_cnt new)) :: u8) \<le> 128 \<and> (ucast (ucast (snd (to_retry_cnt new)) :: u8) :: u32) = snd (to_retry_cnt new)"
    using ok checks by (intro overlay_cnt [OF new(2)] overlay_cnt [OF new(3)] overlay_cnt [OF new(4)] overlay_cnt [OF new(5)]; simp add: not_less split: if_splits)+
  have ms: "ms_value TCP_MAX_RTO_MS (snd (to_rto new) * 1000) \<and> snd (to_rto new) * 1000 div 1000 = snd (to_rto new)"
    "ms_value TCP_MAX_FIN_TO_MS (snd (to_fin_to new) * 1000) \<and> snd (to_fin_to new) * 1000 div 1000 = snd (to_fin_to new)"
    "ms_value TCP_MAX_TWAIT_TO_MS (snd (to_twait_to new) * 1000) \<and> snd (to_twait_to new) * 1000 div 1000 = snd (to_twait_to new)"
    "ms_value TCP_MAX_ORPHAN_TO_MS (snd (to_orphan_to new) * 1000) \<and> snd (to_orphan_to new) * 1000 div 1000 = snd (to_orphan_to new)"
    using ok checks by (intro overlay_ms [OF new(6)] overlay_ms [OF new(7)] overlay_ms [OF new(8)] overlay_ms [OF new(9)]; simp add: not_less max_ms_le split: if_splits)+
  have win: "snd (to_win_size new) \<le> 65535"
    using ok checks by (intro overlay_win [OF new(1)]) (simp_all add: not_less split: if_splits)
  show "tcp_sockopt_ok (tcp_store_sockopt new)"
    using cnt ms win by (simp add: tcp_sockopt_ok_def tcp_store_sockopt_def)
  show "tcp_load_sockopt (tcp_store_sockopt new) = all_given new"
    using cnt ms by (simp add: tcp_load_sockopt_def tcp_store_sockopt_def all_given_def TPG_XLATE_OPTIONAL_SET_FIELD_def)
qed

lemma so_tcp_store [simp]: "so_tcp (ipv4_store_sockopt o4 so) = so_tcp so" "so_tcp (vlan_store_sockopt ov so) = so_tcp so"
  by (cases so; simp add: so_tcp_def ipv4_store_sockopt_def vlan_store_sockopt_def Let_def tcp_sockopt.defs)+

lemma vlan_of_ipv4 [simp]: "vlanso_id (ipv4_store_sockopt o4 so) = vlanso_id so" "vlanso_pri (ipv4_store_sockopt o4 so) = vlanso_pri so"
  by (simp_all add: ipv4_store_sockopt_def Let_def)

lemma ucast_u16_back [simp]: "(ucast (ucast (c :: u16) :: u32) :: u16) = c"
  by (rule bit_word_eqI) (simp add: bit_simps)

lemma ucast_small16: "(v :: u32) \<le> 4094 \<Longrightarrow> (ucast v :: u16) \<le> 4094"
  by (simp add: word_le_nat_alt unsigned_ucast_eq unsigned_take_bit_eq take_bit_nat_eq_self)

lemma ucast_small8: "(v :: u32) \<le> 7 \<Longrightarrow> (ucast v :: u8) \<le> 7"
  by (simp add: word_le_nat_alt unsigned_ucast_eq unsigned_take_bit_eq take_bit_nat_eq_self)

lemma vlan_overlay_stored:
  assumes "vlanso_id so \<le> 4094" and "vlanso_pri so \<le> 7"
    and "new = \<lparr>o_vlanso_id = TPG_XLATE_OPTIONAL_COPY_FIELD (o_vlanso_id (vlan_load_sockopt so)) (o_vlanso_id opts),
                o_vlanso_pri = TPG_XLATE_OPTIONAL_COPY_FIELD (o_vlanso_pri (vlan_load_sockopt so)) (o_vlanso_pri opts)\<rparr>"
    and "test_mgmt_validate_vlan_sockopt new"
  shows "vlanso_id (vlan_store_sockopt new so) \<le> 4094" and "vlanso_pri (vlan_store_sockopt new so) \<le> 7"
  using assms
  by (auto simp: vlan_store_sockopt_def vlan_load_sockopt_def TPG_XLATE_OPTIONAL_COPY_FIELD_def TPG_XLATE_OPTIONAL_SET_FIELD_def
      test_mgmt_validate_vlan_sockopt_def VLAN_MAX_def not_less Let_def intro: ucast_small16 ucast_small8 split: if_splits)

lemma default_sockopt_ok:
  "tc_type c \<noteq> TEST_CASE_TYPE__MAX \<Longrightarrow>
     (tcp_sockopt_ok (so_tcp (test_init_sockopt_defaults A c)) \<or> not_tcp c) \<and>
     vlanso_id (test_init_sockopt_defaults A c) \<le> 4094 \<and> vlanso_pri (test_init_sockopt_defaults A c) \<le> 7"
proof -
  have "tcp_sockopt_ok (tcp_store_sockopt tpg_xlate_default_TcpSockopt)"
    by (simp add: tcp_sockopt_ok_def tcp_store_sockopt_def tpg_xlate_default_TcpSockopt_def ms_value_def
        TCP_MAX_RTO_MS_def TCP_MAX_FIN_TO_MS_def TCP_MAX_TWAIT_TO_MS_def TCP_MAX_ORPHAN_TO_MS_def)
  moreover have "vlanso_id (vlan_store_sockopt tpg_xlate_default_VlanSockopt so) = 0"
    "vlanso_pri (vlan_store_sockopt tpg_xlate_default_VlanSockopt so) = 0" for so
    by (simp_all add: vlan_store_sockopt_def tpg_xlate_default_VlanSockopt_def Let_def)
  moreover assume "tc_type c \<noteq> TEST_CASE_TYPE__MAX"
  ultimately show ?thesis
    by (cases "tc_type c")
      (simp_all add: test_init_sockopt_defaults_def test_init_server_sockopt_defaults_def
        test_init_client_sockopt_defaults_def not_tcp_def Let_def)
qed

subsection \<open>The operations keep the invariant\<close>

lemma validate_split:
  "test_mgmt_validate_test_case n v c \<longleftrightarrow> test_mgmt_validate_test_case n (\<lambda>_. True) c \<and> v c"
  by (auto simp: test_mgmt_validate_test_case_def split: if_splits test_case_type.splits)

lemma validate_without_app:
  "test_mgmt_validate_test_case n v c \<Longrightarrow> test_mgmt_validate_test_case n (\<lambda>_. True) c"
  by (simp add: test_mgmt_validate_test_case_def split: if_splits)

lemma validate_client_rates:
  "test_mgmt_validate_test_case_client (cl\<lparr>rc_open_rate := r\<rparr>) = test_mgmt_validate_test_case_client cl"
  "test_mgmt_validate_test_case_client (cl\<lparr>rc_close_rate := r\<rparr>) = test_mgmt_validate_test_case_client cl"
  "test_mgmt_validate_test_case_client (cl\<lparr>rc_send_rate := r\<rparr>) = test_mgmt_validate_test_case_client cl"
  by (simp_all add: test_mgmt_validate_test_case_client_def test_mgmt_validate_client_l4_def)

lemma upd_given_keeps: "(\<And>x c. g (f x c) = g c) \<Longrightarrow> g (upd_given v f c) = g c"
  by (cases v) (simp_all add: upd_given_def)

lemma validate_upd:
  fixes c :: "'app tpg_test_case"
  shows "test_mgmt_validate_test_case n (\<lambda>_. True) (c\<lparr>tc_client := (tc_client c)\<lparr>rc_open_rate := r\<rparr>\<rparr>) =
      test_mgmt_validate_test_case n (\<lambda>_. True) c"
    "test_mgmt_validate_test_case n (\<lambda>_. True) (c\<lparr>tc_client := (tc_client c)\<lparr>rc_close_rate := r\<rparr>\<rparr>) =
      test_mgmt_validate_test_case n (\<lambda>_. True) c"
    "test_mgmt_validate_test_case n (\<lambda>_. True) (c\<lparr>tc_client := (tc_client c)\<lparr>rc_send_rate := r\<rparr>\<rparr>) =
      test_mgmt_validate_test_case n (\<lambda>_. True) c"
    "test_mgmt_validate_test_case n (\<lambda>_. True) (c\<lparr>tc_init_delay := d\<rparr>) = test_mgmt_validate_test_case n (\<lambda>_. True) c"
    "test_mgmt_validate_test_case n (\<lambda>_. True) (c\<lparr>tc_uptime := d\<rparr>) = test_mgmt_validate_test_case n (\<lambda>_. True) c"
    "test_mgmt_validate_test_case n (\<lambda>_. True) (c\<lparr>tc_downtime := d\<rparr>) = test_mgmt_validate_test_case n (\<lambda>_. True) c"
    "test_mgmt_validate_test_case n (\<lambda>_. True) (c\<lparr>tc_criteria := k\<rparr>) = test_mgmt_validate_test_case n (\<lambda>_. True) c"
    "test_mgmt_validate_test_case n (\<lambda>_. True) (c\<lparr>tc_async := b\<rparr>) = test_mgmt_validate_test_case n (\<lambda>_. True) c"
  by (cases "tc_type c"; simp add: test_mgmt_validate_test_case_def test_mgmt_validate_latency_def
      test_mgmt_validate_test_case_server_def validate_client_rates)+

lemma not_tcp_upd:
  fixes c :: "'app tpg_test_case"
  shows "not_tcp (c\<lparr>tc_client := (tc_client c)\<lparr>rc_open_rate := r\<rparr>\<rparr>) = not_tcp c"
    "not_tcp (c\<lparr>tc_client := (tc_client c)\<lparr>rc_close_rate := r\<rparr>\<rparr>) = not_tcp c"
    "not_tcp (c\<lparr>tc_client := (tc_client c)\<lparr>rc_send_rate := r\<rparr>\<rparr>) = not_tcp c"
    "not_tcp (c\<lparr>tc_init_delay := d\<rparr>) = not_tcp c" "not_tcp (c\<lparr>tc_uptime := d\<rparr>) = not_tcp c"
    "not_tcp (c\<lparr>tc_downtime := d\<rparr>) = not_tcp c" "not_tcp (c\<lparr>tc_criteria := k\<rparr>) = not_tcp c"
    "not_tcp (c\<lparr>tc_async := b\<rparr>) = not_tcp c" "not_tcp (c\<lparr>tc_app := a\<rparr>) = not_tcp c"
    "not_tcp (c\<lparr>has_tc_latency := b, tc_latency := l\<rparr>) = not_tcp c"
  by (simp_all add: not_tcp_def)

lemma update_fields_checks:
  fixes c :: "'app tpg_test_case"
  shows "tc_id (update_fields arg c) = tc_id c" "not_tcp (update_fields arg c) = not_tcp c"
    "test_mgmt_validate_test_case n (\<lambda>_. True) (update_fields arg c) = test_mgmt_validate_test_case n (\<lambda>_. True) c"
  unfolding update_fields_def Let_def
  by (simp_all add: upd_given_keeps [where g = tc_id] upd_given_keeps [where g = not_tcp] not_tcp_upd
      upd_given_keeps [where g = "test_mgmt_validate_test_case n (\<lambda>_. True)"] validate_upd)

lemma update_fields_local:
  "app_check_local v \<Longrightarrow> v (update_fields arg c) = v c"
proof (rule app_check_localD)
  show "tc_app (update_fields arg c) = tc_app c" "tc_type (update_fields arg c) = tc_type c"
    "tc_eth_port (update_fields arg c) = tc_eth_port c" "tc_id (update_fields arg c) = tc_id c"
    unfolding update_fields_def Let_def
    by (simp_all add: upd_given_keeps [where g = tc_app] upd_given_keeps [where g = tc_type]
        upd_given_keeps [where g = tc_eth_port] upd_given_keeps [where g = tc_id])
qed

lemma latency_local: "app_check_local v \<Longrightarrow> v (c\<lparr>has_tc_latency := b, tc_latency := l\<rparr>) = v c"
  by (rule app_check_localD) simp_all

lemma with_mgmt_view:
  assumes "\<And>N r N'. f N = Some (r, N') \<Longrightarrow> m_view N' = m_view N" and "with_mgmt f M = Some (r, M')"
  shows "m_view M' = m_view M"
proof -
  have t: "m_view (mgmt.truncate M) = m_view M" by (cases M) (simp add: m_view_def mgmt.defs fun_eq_iff)
  have x: "m_view (mgmt.extend N z) = m_view N" for N :: "('a, 'b) mgmt" and z
    by (cases N) (simp add: m_view_def mgmt.defs fun_eq_iff)
  from assms(2) obtain r' N' where "f (mgmt.truncate M) = Some (r', N')" "M' = mgmt.extend N' (mgmt.more M)"
    by (auto simp: with_mgmt_def)
  with assms(1) [of "mgmt.truncate M" r' N'] show ?thesis by (simp add: t x)
qed

lemma m_view_app_calls [view_simps]:
  "m_view (test_mgmt_app_add_test_case c M) = m_view M" "m_view (test_mgmt_app_del_test_case c M) = m_view M"
  by (simp_all add: m_view_def test_mgmt_app_add_test_case_def test_mgmt_app_del_test_case_def fun_eq_iff)

lemma m_envs_app_calls [simp]:
  "m_envs (test_mgmt_app_add_test_case c M) = m_envs M" "m_envs (test_mgmt_app_del_test_case c M) = m_envs M"
  by (simp_all add: test_mgmt_app_add_test_case_def test_mgmt_app_del_test_case_def)

lemma te_ids_mem: "i \<in> set te_ids \<longleftrightarrow> i < TPG_TEST_MAX_ENTRIES"
proof -
  have "i < 16 \<Longrightarrow> i \<in> set (map of_nat [0..<16])" for i :: u32
    by (rule image_eqI [where x = "unat i", THEN subsetD [OF equalityD2 [OF set_map], rotated]]) (simp_all add: word_less_nat_alt)
  then show ?thesis
    by (auto simp: te_ids_def TPG_TEST_MAX_ENTRIES_def upt_rec)
qed

lemma te_ids_distinct: "distinct te_ids"
  by (simp add: te_ids_def)

lemma filter_one_more:
  assumes "distinct xs" and "i \<in> set xs" and "\<not> P i"
  shows "length (filter (\<lambda>x. x = i \<or> P x) xs) = Suc (length (filter P xs))"
  using assms
proof (induction xs)
  case (Cons x xs)
  show ?case
  proof (cases "x = i")
    case True
    with Cons.prems have "filter (\<lambda>y. y = i \<or> P y) xs = filter P xs" by (intro filter_cong) auto
    with True Cons.prems show ?thesis by simp
  next
    case False
    with Cons show ?thesis by auto
  qed
qed simp

lemma view_ok_add:
  assumes "view_ok A (n, g)" and "\<not> snd (snd (g i))" and "i < TPG_TEST_MAX_ENTRIES" and "case_ok A i v" and "snd (snd v)"
  shows "view_ok A (n + 1, g(i := v))"
proof -
  have "filter (\<lambda>k. snd (snd ((g(i := v)) k))) te_ids = filter (\<lambda>k. k = i \<or> snd (snd (g k))) te_ids"
    using assms(5) by (intro filter_cong) auto
  then have "length (filter (\<lambda>k. snd (snd ((g(i := v)) k))) te_ids) = Suc (length (filter (\<lambda>k. snd (snd (g k))) te_ids))"
    using filter_one_more [OF te_ids_distinct, of i "\<lambda>k. snd (snd (g k))"] assms(2,3) by (simp add: te_ids_mem)
  with assms(1,4) show ?thesis by (auto simp: view_ok_def)
qed

lemma view_ok_del:
  assumes "view_ok A (n, g)" and "snd (snd (g i))" and "\<not> snd (snd v)"
  shows "view_ok A (n - 1, g(i := v))"
proof -
  have c: "case_ok A i (g i)" using assms(1) by (simp add: view_ok_def)
  then have i: "i < TPG_TEST_MAX_ENTRIES" using assms(2) by (auto simp: case_ok_def split: prod.splits)
  have "filter (\<lambda>k. snd (snd (g k))) te_ids = filter (\<lambda>k. k = i \<or> snd (snd ((g(i := v)) k))) te_ids"
    using assms(2) by (intro filter_cong) auto
  then have "length (filter (\<lambda>k. snd (snd (g k))) te_ids) = Suc (length (filter (\<lambda>k. snd (snd ((g(i := v)) k))) te_ids))"
    using filter_one_more [OF te_ids_distinct, of i "\<lambda>k. snd (snd ((g(i := v)) k))"] assms(3) i by (simp add: te_ids_mem)
  with assms(1,3) show ?thesis by (auto simp: view_ok_def case_ok_def split: prod.splits)
qed

lemma api_ok_ports:
  assumes "api_ok A M" and "\<And>p. p \<noteq> port \<Longrightarrow> m_view M' p = m_view M p" and "view_ok A (m_view M' port)"
  shows "api_ok A M'"
  using assms unfolding api_ok_def by metis

lemma api_ok_port_cfg: "api_ok A M \<Longrightarrow> api_ok A (upd_env_api port (\<lambda>tenv. tenv\<lparr>te_port_cfg := f tenv\<rparr>) M)"
  by (rule api_ok_env) (simp_all add: api_ok_def m_view_def env_view_def)

lemma api_ok_add_test_case:
  assumes "api_ok A M"
  shows "api_ok A (snd (test_mgmt_add_test_case A port c M))"
proof (cases "test_mgmt_add_test_case_check A port (tc_id c) M = 0 \<and>
    test_mgmt_validate_test_case (ap_dev_count A) (ap_app_validate A) c")
  case True
  let ?M = "snd (test_mgmt_add_test_case A port c M)"
  obtain n g where v: "m_view M port = (n, g)" by (cases "m_view M port")
  from True have chk: "\<not> snd (snd (g (tc_id c)))" "tc_id c < TPG_TEST_MAX_ENTRIES"
    using v by (auto simp: test_mgmt_add_test_case_check_def te_configured_def m_view_def env_view_def case_view_def
        test_mgmt_validate_test_case_id_def EALREADY_def EEXIST_def split: if_splits)
  have "m_view ?M port = (n + 1, g(tc_id c := (c, test_init_sockopt_defaults A c, True)))"
    using True v by (auto simp: test_mgmt_add_test_case_def Let_def m_view_def upd_env_api_def upd_case_def upd_oper_def
        env_view_def case_view_def fun_eq_iff)
  moreover have "view_ok A (n + 1, g(tc_id c := (c, test_init_sockopt_defaults A c, True)))"
  proof (rule view_ok_add)
    show "view_ok A (n, g)" using assms v by (metis api_ok_def)
    have "tc_type c \<noteq> TEST_CASE_TYPE__MAX" using True by (auto simp: test_mgmt_validate_test_case_def split: if_splits)
    moreover have "test_mgmt_validate_test_case (ap_dev_count A) (\<lambda>_. True) c" "ap_app_validate A c"
      using True validate_split by blast+
    ultimately show "case_ok A (tc_id c) (c, test_init_sockopt_defaults A c, True)"
      using default_sockopt_ok [of c] chk by (auto simp: case_ok_def)
  qed (use chk in simp_all)
  moreover have "m_view ?M p = m_view M p" if "p \<noteq> port" for p
    using True that by (simp add: test_mgmt_add_test_case_def Let_def m_view_def upd_env_api_def)
  ultimately show ?thesis using assms by (metis api_ok_ports)
next
  case False
  then have "snd (test_mgmt_add_test_case A port c M) = M" by (auto simp: test_mgmt_add_test_case_def Let_def)
  with assms show ?thesis by simp
qed

lemma api_ok_del_test_case:
  assumes "api_ok A M"
  shows "api_ok A (snd (test_mgmt_del_test_case A port i M))"
proof (cases "test_mgmt_del_test_case_check A port i M = 0")
  case True
  let ?M = "snd (test_mgmt_del_test_case A port i M)"
  define n g where "n = fst (m_view M port)" and "g = snd (m_view M port)"
  then have v: "m_view M port = (n, g)" by simp
  from True have chk: "snd (snd (g i))"
    using v by (auto simp: test_mgmt_del_test_case_check_def te_configured_def m_view_def env_view_def case_view_def
        EALREADY_def ENOENT_def split: if_splits)
  have "m_view ?M port = (n - 1, g(i := (fst (g i), fst (snd (g i)), False)))"
    using True by (simp add: n_def g_def test_mgmt_del_test_case_def Let_def m_view_def upd_env_api_def upd_case_def
        upd_oper_def env_view_def case_view_def fun_eq_iff)
  moreover have "view_ok A (n - 1, g(i := (fst (g i), fst (snd (g i)), False)))"
    using assms v chk by (intro view_ok_del) (auto simp: api_ok_def dest: spec [where x = port])
  moreover have "m_view ?M p = m_view M p" if "p \<noteq> port" for p
    using True that by (simp add: test_mgmt_del_test_case_def Let_def m_view_def upd_env_api_def)
  ultimately show ?thesis using assms by (metis api_ok_ports)
next
  case False
  with assms show ?thesis by (simp add: test_mgmt_del_test_case_def Let_def)
qed

text \<open>An operation on a configured test case that keeps it so.\<close>

lemma api_ok_upd_case:
  assumes "api_ok A M" and "\<And>x. tec_state (f x) = tec_state x"
    and "case_ok A i (case_view (te_test_cases (m_envs M port) i)) \<Longrightarrow> te_configured (m_envs M port) i \<Longrightarrow>
      case_ok A i (case_view (f (te_test_cases (m_envs M port) i)))"
  shows "api_ok A (upd_env_api port (upd_case i f) M)"
  using assms by (intro api_ok_env view_ok_case) (auto simp: api_ok_def m_view_def te_configured_def)

lemma validate_latency_upd:
  assumes "test_mgmt_validate_test_case n (\<lambda>_. True) c"
    and "\<not> (case tcs_samples lat of None \<Rightarrow> False | Some n \<Rightarrow> n > of_nat TPG_TSTAMP_SAMPLES_MAX_BUFSIZE)"
  shows "test_mgmt_validate_test_case n (\<lambda>_. True) (c\<lparr>has_tc_latency := True, tc_latency := lat\<rparr>)"
proof -
  have "test_mgmt_validate_latency (c\<lparr>has_tc_latency := True, tc_latency := lat\<rparr>)"
    using assms(2) by (cases "tcs_samples lat") (simp_all add: test_mgmt_validate_latency_def)
  with assms(1) show ?thesis
    by (cases "tc_type c") (simp_all add: test_mgmt_validate_test_case_def test_mgmt_validate_test_case_server_def split: if_splits)
qed

lemma api_ok_update:
  assumes "api_ok A M"
  shows "api_ok A (snd (test_mgmt_update_test_case A port i arg M))"
proof -
  let ?M = "upd_env_api port (upd_case i (\<lambda>x. x\<lparr>cfg := update_fields arg (cfg x)\<rparr>)) M"
  have 1: "api_ok A ?M"
    using assms by (rule api_ok_upd_case) (auto simp: case_ok_def case_view_def update_fields_checks update_fields_local)
  have "api_ok A (upd_env_api port (upd_case i (\<lambda>x. x\<lparr>cfg := (cfg x)\<lparr>has_tc_latency := True, tc_latency := lat\<rparr>\<rparr>)) ?M)"
    if "\<not> (case tcs_samples lat of None \<Rightarrow> False | Some n \<Rightarrow> n > of_nat TPG_TSTAMP_SAMPLES_MAX_BUFSIZE)" for lat
    using 1 by (rule api_ok_upd_case) (use that in \<open>auto simp: case_ok_def case_view_def not_tcp_upd validate_latency_upd latency_local\<close>)
  with 1 assms show ?thesis by (simp add: test_mgmt_update_test_case_def Let_def split: option.split)
qed

lemma api_ok_update_app:
  assumes "api_ok A M"
  shows "api_ok A (snd (test_mgmt_update_test_case_app A port i app M))"
proof -
  let ?M = "test_mgmt_app_del_test_case (cfg (te_test_cases (m_envs M port) i)) M"
  let ?M1 = "upd_env_api port (upd_case i (\<lambda>x. x\<lparr>cfg := (cfg x)\<lparr>tc_app := app\<rparr>\<rparr>)) ?M"
  have M: "api_ok A ?M" using assms by (simp add: api_ok_def view_simps)
  have "api_ok A ?M1"
    if "test_mgmt_validate_test_case (ap_dev_count A) (ap_app_validate A)
        ((cfg (te_test_cases (m_envs M port) i))\<lparr>tc_app := app\<rparr>)"
  proof -
    have "test_mgmt_validate_test_case (ap_dev_count A) (\<lambda>_. True) ((cfg (te_test_cases (m_envs M port) i))\<lparr>tc_app := app\<rparr>)"
      "ap_app_validate A ((cfg (te_test_cases (m_envs M port) i))\<lparr>tc_app := app\<rparr>)"
      using that validate_split by blast+
    then show ?thesis
      using M by (intro api_ok_upd_case) (auto simp: case_ok_def case_view_def not_tcp_upd)
  qed
  then have "api_ok A (test_mgmt_app_add_test_case c ?M1)"
    if "test_mgmt_validate_test_case (ap_dev_count A) (ap_app_validate A)
        ((cfg (te_test_cases (m_envs M port) i))\<lparr>tc_app := app\<rparr>)" for c
    using that by (simp add: api_ok_def view_simps)
  with assms show ?thesis by (simp add: test_mgmt_update_test_case_app_def Let_def)
qed

lemma api_ok_set_tcp:
  assumes "api_ok A M"
  shows "api_ok A (snd (test_mgmt_set_tcp_sockopt A port i opts M))"
proof -
  define new where "new = tcp_sockopt_overlay (tcp_load_sockopt (so_tcp (case_sockopt port i M))) opts"
  have "api_ok A (upd_sockopt port i (so_set_tcp (tcp_store_sockopt new)) M)"
    if "\<not> not_tcp (cfg (te_test_cases (m_envs M port) i))" "test_mgmt_validate_tcp_sockopt new"
    unfolding upd_sockopt_def using assms
  proof (rule api_ok_upd_case)
    assume "case_ok A i (case_view (te_test_cases (m_envs M port) i))" and "te_configured (m_envs M port) i"
    with that(1) have "tcp_sockopt_ok (so_tcp (case_sockopt port i M))"
      by (simp add: case_ok_def case_view_def te_configured_def case_sockopt_def)
    from tcp_overlay_stored(1) [OF this new_def that(2)] \<open>case_ok A i (case_view (te_test_cases (m_envs M port) i))\<close>
    show "case_ok A i (case_view ((te_test_cases (m_envs M port) i)
        \<lparr>tec_sockopt := so_set_tcp (tcp_store_sockopt new) (tec_sockopt (te_test_cases (m_envs M port) i))\<rparr>))"
      by (auto simp: case_ok_def case_view_def)
  qed simp
  with assms show ?thesis by (simp add: test_mgmt_set_tcp_sockopt_def new_def Let_def)
qed

lemma api_ok_set_ipv4: "api_ok A M \<Longrightarrow> api_ok A (snd (test_mgmt_set_ipv4_sockopt A port i opts M))"
  by (auto simp: test_mgmt_set_ipv4_sockopt_def upd_sockopt_def Let_def case_ok_def case_view_def intro!: api_ok_upd_case)

lemma api_ok_set_vlan:
  assumes "api_ok A M"
  shows "api_ok A (snd (test_mgmt_set_vlan_sockopt A port i opts M))"
proof -
  let ?so = "case_sockopt port i M"
  define new where "new = \<lparr>o_vlanso_id = TPG_XLATE_OPTIONAL_COPY_FIELD (o_vlanso_id (vlan_load_sockopt ?so)) (o_vlanso_id opts),
                o_vlanso_pri = TPG_XLATE_OPTIONAL_COPY_FIELD (o_vlanso_pri (vlan_load_sockopt ?so)) (o_vlanso_pri opts)\<rparr>"
  have "api_ok A (upd_sockopt port i (vlan_store_sockopt new) M)" if "test_mgmt_validate_vlan_sockopt new"
    unfolding upd_sockopt_def using assms
  proof (rule api_ok_upd_case)
    assume ok: "case_ok A i (case_view (te_test_cases (m_envs M port) i))" and "te_configured (m_envs M port) i"
    then have "vlanso_id ?so \<le> 4094" "vlanso_pri ?so \<le> 7"
      by (simp_all add: case_ok_def case_view_def te_configured_def case_sockopt_def)
    from vlan_overlay_stored [OF this new_def that] ok
    show "case_ok A i (case_view ((te_test_cases (m_envs M port) i)
        \<lparr>tec_sockopt := vlan_store_sockopt new (tec_sockopt (te_test_cases (m_envs M port) i))\<rparr>))"
      by (auto simp: case_ok_def case_view_def case_sockopt_def)
  qed simp
  with assms show ?thesis by (simp add: test_mgmt_set_vlan_sockopt_def new_def Let_def)
qed

subsection \<open>The system\<close>

text \<open>The timer of a test case runs its callback while it is armed; the clock moves.\<close>

inductive mgmt_step ::
  "'app api_prm \<Rightarrow> ('app, 's) mgmt_prm \<Rightarrow> ('app, 's) mgmt_api \<Rightarrow> ('app, 's) mgmt_api \<Rightarrow> bool" for A P where
  AddPortCfg: "mgmt_step A P M (snd (test_mgmt_add_port_cfg A port pcfg M))"
| AddIntf: "mgmt_step A P M (snd (test_mgmt_add_port_cfg_l3_intf A port l3 M))"
| AddGw: "mgmt_step A P M (snd (test_mgmt_add_port_cfg_l3_gw A port gw M))"
| AddTestCase: "mgmt_step A P M (snd (test_mgmt_add_test_case A port c M))"
| DelTestCase: "mgmt_step A P M (snd (test_mgmt_del_test_case A port i M))"
| UpdateTestCase: "mgmt_step A P M (snd (test_mgmt_update_test_case A port i arg M))"
| UpdateApp: "mgmt_step A P M (snd (test_mgmt_update_test_case_app A port i app M))"
| SetTcp: "mgmt_step A P M (snd (test_mgmt_set_tcp_sockopt A port i to M))"
| SetIpv4: "mgmt_step A P M (snd (test_mgmt_set_ipv4_sockopt A port i io M))"
| SetVlan: "mgmt_step A P M (snd (test_mgmt_set_vlan_sockopt A port i vo M))"
| StartPort: "test_mgmt_start_port A P port M = Some (r, M') \<Longrightarrow> mgmt_step A P M M'"
| StopPort: "test_mgmt_stop_port A P port M = Some (r, M') \<Longrightarrow> mgmt_step A P M M'"
| TimerFires: "teos_timer (tec_state (te_test_cases (m_envs M port) i)) \<Longrightarrow>
    with_mgmt (\<lambda>N. map_option (Pair 0) (test_entry_tmr_cb P answer rates port i N)) M = Some (r, M') \<Longrightarrow>
    mgmt_step A P M M'"
| TimePasses: "mgmt_step A P M (M\<lparr>m_now := now\<rparr>)"

definition mgmt_initial :: "('app, 's) mgmt_api \<Rightarrow> bool" where
  "mgmt_initial M \<longleftrightarrow> (\<forall>port. te_test_cases_count (m_envs M port) = 0 \<and> \<not> te_test_running (m_envs M port) \<and>
     (\<forall>i. tec_state (te_test_cases (m_envs M port) i) =
        \<lparr>teos_timer = False, teos_test_case_state = TEST_CASE_STATE__IDLE, teos_result = 0, teos_start_time = 0,
         teos_stop_time = 0, teos_configured = False, teos_update_rates = False\<rparr>))"

lemma mgmt_step_ok: "mgmt_step A P M M' \<Longrightarrow> api_ok A M \<Longrightarrow> api_ok A M'"
proof (induction rule: mgmt_step.induct)
  case (AddPortCfg M port pcfg)
  then show ?case by (simp add: test_mgmt_add_port_cfg_def Let_def api_ok_port_cfg [where f = "\<lambda>_. pcfg"])
next
  case (AddIntf M port l3)
  then show ?case
    by (simp add: test_mgmt_add_port_cfg_l3_intf_def Let_def
        api_ok_port_cfg [where f = "\<lambda>tenv. (te_port_cfg tenv)\<lparr>pc_l3_intfs := x\<rparr>" for x])
next
  case (AddGw M port gw)
  then show ?case
    by (simp add: test_mgmt_add_port_cfg_l3_gw_def Let_def
        api_ok_port_cfg [where f = "\<lambda>tenv. (te_port_cfg tenv)\<lparr>pc_def_gw := x\<rparr>" for x])
next
  case (StartPort port M r M')
  then show ?case
    using with_mgmt_view [of "test_start_cb P port" M r M', OF view_start_cb]
    by (auto simp: test_mgmt_start_port_def api_ok_view split: if_splits)
next
  case (StopPort port M r M')
  then show ?case
    using with_mgmt_view [of "test_stop_cb P port" M r M', OF view_stop_cb]
    by (auto simp: test_mgmt_stop_port_def api_ok_view split: if_splits)
next
  case (TimerFires M port i answer rates r M')
  have "m_view M' = m_view M"
    by (rule with_mgmt_view [OF _ TimerFires.hyps(2)]) (auto dest: view_tmr_cb)
  with TimerFires.prems show ?case by (simp add: api_ok_view)
next
  case (TimePasses M now)
  then show ?case by (simp add: api_ok_def m_view_def)
qed (simp_all add: api_ok_add_test_case api_ok_del_test_case api_ok_update api_ok_update_app api_ok_set_tcp
    api_ok_set_ipv4 api_ok_set_vlan)

lemma mgmt_initial_ok: "mgmt_initial M \<Longrightarrow> api_ok A M"
  by (simp add: mgmt_initial_def api_ok_def view_ok_def m_view_def env_view_def case_view_def case_ok_def)

lemma mgmt_reachable_ok: "(mgmt_step A P)\<^sup>*\<^sup>* M M' \<Longrightarrow> mgmt_initial M \<Longrightarrow> api_ok A M'"
  by (induction rule: rtranclp_induct) (auto intro: mgmt_step_ok mgmt_initial_ok)

end
