(* ===== verification/MgmtSys.thy ===== *)
theory MgmtSys
  imports MgmtProps Examples
begin

text \<open>
  What holds of the management of a port as a whole: of every configuration that the interface can
  build, of a run of the timers of its test cases, and of the statistics that are asked from the cores.
\<close>

subsection \<open>Configurations\<close>

lemma reachable_case:
  assumes "mgmt_initial M0" and "(mgmt_step A P)\<^sup>*\<^sup>* M0 M"
  shows "case_ok A i (case_view (te_test_cases (m_envs M port) i))"
    and "te_test_cases_count (m_envs M port) = of_nat (length (TEST_CASE_FOREACH (m_envs M port)))"
  using mgmt_reachable_ok [OF assms(2,1)] unfolding api_ok_def view_ok_def
  by (auto simp: m_view_def env_view_def TEST_CASE_FOREACH_def te_configured_def [abs_def] case_view_def)

text \<open>
  C16: However a user drives the interface, whatever test cases are running and whatever their timers
  do: a configured test case has a valid identifier, which is that of its slot, and a configuration
  that passes the checks of a test case, the check of its application included, after updates too; and the counter of a
  port is the number of its configured test cases. The hypothesis on the check of the application is that it reads the
  application's part of the configuration, the type, the port and the number of the test case. (The check of the
  raw application asks for an IPv4 option of the test case besides, when it stamps what it sends; the option can be set
  after the check.)
\<close>

theorem reachable_configuration_valid:
  assumes "mgmt_initial M0" and "(mgmt_step A P)\<^sup>*\<^sup>* M0 M" and "app_check_local (ap_app_validate A)"
  shows "te_test_cases_count (m_envs M port) = of_nat (length (TEST_CASE_FOREACH (m_envs M port))) \<and>
    (\<forall>i. te_configured (m_envs M port) i \<longrightarrow> test_mgmt_validate_test_case_id i \<and>
       tc_id (cfg (te_test_cases (m_envs M port) i)) = i \<and>
       test_mgmt_validate_test_case (ap_dev_count A) (ap_app_validate A) (cfg (te_test_cases (m_envs M port) i)))"
proof (intro conjI allI impI)
  fix i
  assume "te_configured (m_envs M port) i"
  with reachable_case(1) [OF assms(1,2), of i port] assms(3)
  show "test_mgmt_validate_test_case_id i" "tc_id (cfg (te_test_cases (m_envs M port) i)) = i"
    "test_mgmt_validate_test_case (ap_dev_count A) (ap_app_validate A) (cfg (te_test_cases (m_envs M port) i))"
    by (simp_all add: case_ok_def case_view_def te_configured_def test_mgmt_validate_test_case_id_def not_le
        validate_split [of _ "ap_app_validate A"])
qed (rule reachable_case(2) [OF assms(1,2)])

definition ex_api :: "unit api_prm" where
  "ex_api =
     \<lparr>ap_dev_count = 1, ap_app_validate = (\<lambda>_. True), ap_raw_server = (), ap_raw_client = (), ap_app_zero = (),
      ap_offload_ipv4 = (\<lambda>_. False), ap_offload_tcp = (\<lambda>_. False), ap_offload_udp = (\<lambda>_. False)\<rparr>"

definition ex_mgmt :: "(unit, unit) mgmt_prm" where
  "ex_mgmt =
     \<lparr>mp_cores = (\<lambda>_. [2, 3]), mp_cycles_per_us = 1, mp_timer_hz = 1000000, mp_max_tc_runtime = 600000000,
      mp_pi_mtu = (\<lambda>_. 1500), mp_stats_init_global = (\<lambda>_. ()), mp_stats_init_req = (\<lambda>_. ()),
      mp_stats_add = (\<lambda>_ _ _. ()), mp_pkts_per_send = (\<lambda>_ _. 1), mp_app_rx_tstamp = (\<lambda>_. False),
      mp_app_tx_tstamp = (\<lambda>_. False), mp_init_answer = (\<lambda>_ im. im), mp_stop_done = (\<lambda>_ _ _. True)\<rparr>"

definition ex_case :: "u32 \<Rightarrow> unit test_env_case" where
  "ex_case i =
     \<lparr>cfg = test_init_defaults ex_api TEST_CASE_TYPE__CLIENT 0 i,
      tec_state = \<lparr>teos_timer = False, teos_test_case_state = TEST_CASE_STATE__IDLE, teos_result = 0,
        teos_start_time = 0, teos_stop_time = 0, teos_configured = False, teos_update_rates = False\<rparr>,
      tec_sockopt = zero_api_sockopt\<rparr>"

definition ex_tenv :: "unit test_env" where
  "ex_tenv =
     \<lparr>te_port_cfg = \<lparr>pc_l3_intfs = [], pc_def_gw = TPG_IPV4 0\<rparr>, te_test_cases = ex_case, te_test_cases_count = 0,
      te_test_running = False, te_test_case_to_start = False, te_test_case_next = 0\<rparr>"

definition ex_M0 :: "(unit, unit) mgmt_api" where
  "ex_M0 =
     \<lparr>m_envs = (\<lambda>_. ex_tenv), m_gen_stats = (\<lambda>_ _. zero_gen_stats), m_rate_stats = (\<lambda>_ _. zero_rate_stats),
      m_app_stats = (\<lambda>_ _. ()), m_now = 1000, m_log = [], ma_app_calls = []\<rparr>"

text \<open>A client is added in slot 3.\<close>

definition ex_M1 :: "(unit, unit) mgmt_api" where
  "ex_M1 = snd (test_mgmt_add_test_case ex_api 0 (cfg (ex_case 3)) ex_M0)"

lemma ex_M0_initial: "mgmt_initial ex_M0"
  by (simp add: mgmt_initial_def ex_M0_def ex_tenv_def ex_case_def)

lemma ex_M1_reachable: "(mgmt_step ex_api ex_mgmt)\<^sup>*\<^sup>* ex_M0 ex_M1"
  unfolding ex_M1_def by (intro r_into_rtranclp mgmt_step.AddTestCase)

lemma ex_M1_case:
  "te_configured (m_envs ex_M1 0) 3" "\<not> not_tcp (cfg (te_test_cases (m_envs ex_M1 0) 3))"
  by code_simp+

text \<open>The applications of the example are of one type, and a check that refuses all test cases of servers.\<close>

definition ex_api_checked :: "unit api_prm" where
  "ex_api_checked = ex_api\<lparr>ap_app_validate := (\<lambda>c. tc_type c = TEST_CASE_TYPE__CLIENT)\<rparr>"

theorem reachable_configuration_valid_witness:
  "let M = snd (test_mgmt_add_test_case ex_api_checked 0 (cfg (ex_case 3)) ex_M0)
   in te_configured (m_envs M 0) 3 \<and>
      test_mgmt_validate_test_case 1 (\<lambda>c. tc_type c = TEST_CASE_TYPE__CLIENT) (cfg (te_test_cases (m_envs M 0) 3)) \<and>
      te_test_cases_count (m_envs M 0) = of_nat (length (TEST_CASE_FOREACH (m_envs M 0)))"
proof -
  let ?M = "snd (test_mgmt_add_test_case ex_api_checked 0 (cfg (ex_case 3)) ex_M0)"
  have "(mgmt_step ex_api_checked ex_mgmt)\<^sup>*\<^sup>* ex_M0 ?M" by (intro r_into_rtranclp mgmt_step.AddTestCase)
  moreover have "app_check_local (ap_app_validate ex_api_checked)"
    by (simp add: app_check_local_def ex_api_checked_def)
  moreover have "te_configured (m_envs ?M 0) 3" by code_simp
  moreover have "ap_dev_count ex_api_checked = 1"
    "ap_app_validate ex_api_checked = (\<lambda>c. tc_type c = TEST_CASE_TYPE__CLIENT)"
    by (simp_all add: ex_api_checked_def ex_api_def)
  ultimately show ?thesis
    using reachable_configuration_valid [OF ex_M0_initial, of ex_api_checked ex_mgmt ?M 0] by (simp add: Let_def)
qed

lemma ms_value_le: "ms_value max_ms us \<Longrightarrow> max_ms \<le> 10000 \<Longrightarrow> us \<le> 10000000"
proof -
  assume "ms_value max_ms us" and "max_ms \<le> 10000"
  then have us: "us = us div 1000 * 1000" and le: "us div 1000 \<le> 10000" by (auto simp: ms_value_def)
  from le have "unat (us div 1000) \<le> 10000" by (simp add: word_le_nat_alt)
  then have "unat (us div 1000 * 1000) \<le> 10000000" by (simp add: unat_word_ariths)
  with us show "us \<le> 10000000" by (simp add: word_le_nat_alt)
qed

lemma timer_fits:
  assumes "us \<le> 10000000" and "ucast (tw_size w) * ucast (tw_step w) \<ge> (10000000 :: u64)"
  shows "fst (TIMER_SET cpu now x us w) = 0"
proof -
  have "(ucast us :: u64) \<le> 10000000"
    using assms(1) by (simp add: word_le_nat_alt unsigned_ucast_eq unsigned_take_bit_eq take_bit_nat_eq_self)
  with assms(2) have "\<not> ucast us > (ucast (tw_size w) * ucast (tw_step w) :: u64)" by (simp add: not_less)
  then show ?thesis by (simp add: TIMER_SET_def tcp_timer_get_wheel_bucket_def Let_def)
qed

definition rto_wheel :: "'e tmr_wheel \<Rightarrow> bool" where
  "rto_wheel w \<longleftrightarrow> tw_size w = GCFG_RTO_TMR_MAX div GCFG_RTO_TMR_STEP \<and> tw_step w = GCFG_RTO_TMR_STEP"

definition slow_wheel :: "'e tmr_wheel \<Rightarrow> bool" where
  "slow_wheel w \<longleftrightarrow> tw_size w = GCFG_SLOW_TMR_MAX div GCFG_SLOW_TMR_STEP \<and> tw_step w = GCFG_SLOW_TMR_STEP"

lemma wheel_spans:
  "rto_wheel w \<Longrightarrow> ucast (tw_size w) * ucast (tw_step w) \<ge> (10000000 :: u64)"
  "slow_wheel w \<Longrightarrow> ucast (tw_size w) * ucast (tw_step w) \<ge> (10000000 :: u64)"
  by (simp_all add: rto_wheel_def slow_wheel_def GCFG_RTO_TMR_MAX_def GCFG_RTO_TMR_STEP_def
      GCFG_SLOW_TMR_MAX_def GCFG_SLOW_TMR_STEP_def)

text \<open>
  C17: The options that a user can give to a test case of TCP fit where the protocol keeps them: the
  window fits in 16 bits, the retry limits in 8, and every timeout is in the span of the wheel that
  the protocol arms it on, so that setting the timer does not fail.
\<close>

theorem configured_timers_fit:
  assumes "mgmt_initial M0" and "(mgmt_step A P)\<^sup>*\<^sup>* M0 M"
    and "te_configured (m_envs M port) i" and "\<not> not_tcp (cfg (te_test_cases (m_envs M port) i))"
    and "t = so_tcp (case_sockopt port i M)" and "rto_wheel rto_w" and "slow_wheel slow_w"
  shows "fst (TIMER_SET cpu now x (tcpo_rto t) rto_w) = 0 \<and> fst (TIMER_SET cpu now x (tcpo_fin_to t) slow_w) = 0 \<and>
    fst (TIMER_SET cpu now x (tcpo_twait_to t) slow_w) = 0 \<and> fst (TIMER_SET cpu now x (tcpo_orphan_to t) slow_w) = 0 \<and>
    unat (tcpo_win_size t) < 2 ^ 16 \<and> tcpo_syn_retry_cnt t \<le> 128 \<and> tcpo_syn_ack_retry_cnt t \<le> 128 \<and>
    tcpo_data_retry_cnt t \<le> 128 \<and> tcpo_retry_cnt t \<le> 128"
proof -
  have ok: "tcp_sockopt_ok t"
    using reachable_case(1) [OF assms(1,2), of i port] assms(3-5)
    by (simp add: case_ok_def case_view_def te_configured_def case_sockopt_def)
  then have "tcpo_rto t \<le> 10000000" "tcpo_fin_to t \<le> 10000000" "tcpo_twait_to t \<le> 10000000" "tcpo_orphan_to t \<le> 10000000"
    by (auto simp: tcp_sockopt_ok_def max_ms_le intro: ms_value_le)
  with ok wheel_spans(1) [OF assms(6)] wheel_spans(2) [OF assms(7)] show ?thesis
    by (simp add: timer_fits tcp_sockopt_ok_def word_le_nat_alt)
qed

theorem configured_timers_fit_witness:
  "fst (TIMER_SET 1 0 () (tcpo_rto (so_tcp (case_sockopt 0 3 ex_M1)))
     \<lparr>tw_size = GCFG_RTO_TMR_MAX div GCFG_RTO_TMR_STEP, tw_step = GCFG_RTO_TMR_STEP, tw_current = 0,
      tw_last_advance = 0, tw_wheel = (\<lambda>_. [])\<rparr>) = 0"
proof -
  let ?r = "\<lparr>tw_size = GCFG_RTO_TMR_MAX div GCFG_RTO_TMR_STEP, tw_step = GCFG_RTO_TMR_STEP, tw_current = 0,
      tw_last_advance = 0, tw_wheel = (\<lambda>_. [])\<rparr> :: unit tmr_wheel"
  let ?s = "\<lparr>tw_size = GCFG_SLOW_TMR_MAX div GCFG_SLOW_TMR_STEP, tw_step = GCFG_SLOW_TMR_STEP, tw_current = 0,
      tw_last_advance = 0, tw_wheel = (\<lambda>_. [])\<rparr> :: unit tmr_wheel"
  have "rto_wheel ?r" "slow_wheel ?s" by (simp_all add: rto_wheel_def slow_wheel_def)
  from configured_timers_fit [OF ex_M0_initial ex_M1_reachable ex_M1_case refl this] show ?thesis by blast
qed

lemma set_tcp_success:
  assumes "test_mgmt_set_tcp_sockopt A port i opts M = (0, M')"
    and "new = tcp_sockopt_overlay (tcp_load_sockopt (so_tcp (case_sockopt port i M))) opts"
  shows "test_mgmt_get_tcp_sockopt A port i M = Inr (tcp_load_sockopt (so_tcp (case_sockopt port i M)))"
    and "te_configured (m_envs M port) i" and "\<not> not_tcp (cfg (te_test_cases (m_envs M port) i))"
    and "test_mgmt_validate_tcp_sockopt new"
    and "M' = upd_sockopt port i (so_set_tcp (tcp_store_sockopt new)) M"
    and "test_mgmt_get_tcp_sockopt A port i M' = Inr (tcp_load_sockopt (tcp_store_sockopt new))"
proof -
  from assms have chk: "test_mgmt_update_test_case_check A port i TEST_CASE_TYPE__MAX M = 0"
    and 1: "\<not> not_tcp (cfg (te_test_cases (m_envs M port) i))" "test_mgmt_validate_tcp_sockopt new"
      "M' = upd_sockopt port i (so_set_tcp (tcp_store_sockopt new)) M"
    by (auto simp: test_mgmt_set_tcp_sockopt_def Let_def split: if_splits)
  then show "\<not> not_tcp (cfg (te_test_cases (m_envs M port) i))" "test_mgmt_validate_tcp_sockopt new"
    "M' = upd_sockopt port i (so_set_tcp (tcp_store_sockopt new)) M" by simp_all
  from chk have v: "test_mgmt_validate_port_id (ap_dev_count A) port" "test_mgmt_validate_test_case_id i"
      "te_configured (m_envs M port) i"
    by (auto simp: test_mgmt_update_test_case_check_def EALREADY_def ENOENT_def split: if_splits)
  then show "te_configured (m_envs M port) i"
    "test_mgmt_get_tcp_sockopt A port i M = Inr (tcp_load_sockopt (so_tcp (case_sockopt port i M)))"
    using 1 by (simp_all add: test_mgmt_get_tcp_sockopt_def test_mgmt_get_test_case_check_def)
  show "test_mgmt_get_tcp_sockopt A port i M' = Inr (tcp_load_sockopt (tcp_store_sockopt new))"
    using v 1 by (simp add: test_mgmt_get_tcp_sockopt_def test_mgmt_get_test_case_check_def upd_sockopt_def
        upd_env_api_def upd_case_def te_configured_def case_sockopt_def)
qed

text \<open>
  Setting options of TCP reads back as they were given: the options that the user gives are
  stored without loss, whatever the units and the widths they are kept in, the others keep the value that they had,
  and the options of every other test case are untouched.
\<close>

theorem set_get_tcp_sockopt:
  assumes "mgmt_initial M0" and "(mgmt_step A P)\<^sup>*\<^sup>* M0 M"
    and "test_mgmt_set_tcp_sockopt A port i opts M = (0, M')"
  shows "\<exists>old. test_mgmt_get_tcp_sockopt A port i M = Inr old \<and>
      test_mgmt_get_tcp_sockopt A port i M' = Inr (all_given (tcp_sockopt_overlay old opts)) \<and>
      (\<forall>p k. te_test_cases (m_envs M' p) k =
         (if p = port \<and> k = i then (te_test_cases (m_envs M p) k)\<lparr>tec_sockopt := tec_sockopt (te_test_cases (m_envs M' p) k)\<rparr>
          else te_test_cases (m_envs M p) k))"
proof -
  define new where "new = tcp_sockopt_overlay (tcp_load_sockopt (so_tcp (case_sockopt port i M))) opts"
  note ok = set_tcp_success [OF assms(3) new_def]
  from reachable_case(1) [OF assms(1,2), of i port] ok(2,3) have "tcp_sockopt_ok (so_tcp (case_sockopt port i M))"
    by (simp add: case_ok_def case_view_def te_configured_def case_sockopt_def)
  from tcp_overlay_stored(2) [OF this new_def ok(4)] ok(6)
  have "test_mgmt_get_tcp_sockopt A port i M' = Inr (all_given new)" by simp
  moreover have "te_test_cases (m_envs M' p) k =
         (if p = port \<and> k = i then (te_test_cases (m_envs M p) k)\<lparr>tec_sockopt := tec_sockopt (te_test_cases (m_envs M' p) k)\<rparr>
          else te_test_cases (m_envs M p) k)" for p k
    unfolding ok(5) by (simp add: upd_sockopt_def upd_env_api_def upd_case_def)
  ultimately show ?thesis using ok(1) unfolding new_def by blast
qed

definition ex_opts :: tpg_tcp_sockopt where
  "ex_opts = \<lparr>to_win_size = (True, 65535), to_syn_retry_cnt = (False, 0), to_syn_ack_retry_cnt = (False, 0),
      to_data_retry_cnt = (True, 128), to_retry_cnt = (False, 0), to_rto = (True, 10000), to_fin_to = (False, 0),
      to_twait_to = (False, 0), to_orphan_to = (False, 0), to_skip_timewait = (False, False), to_ack_delay = (False, False)\<rparr>"

theorem set_get_tcp_sockopt_witness:
  "\<exists>old. test_mgmt_get_tcp_sockopt ex_api 0 3 (snd (test_mgmt_set_tcp_sockopt ex_api 0 3 ex_opts ex_M1)) =
     Inr (all_given (tcp_sockopt_overlay old ex_opts))"
proof -
  have "fst (test_mgmt_set_tcp_sockopt ex_api 0 3 ex_opts ex_M1) = 0" by code_simp
  then have "test_mgmt_set_tcp_sockopt ex_api 0 3 ex_opts ex_M1 =
      (0, snd (test_mgmt_set_tcp_sockopt ex_api 0 3 ex_opts ex_M1))" by (simp add: prod_eq_iff)
  from set_get_tcp_sockopt [OF ex_M0_initial ex_M1_reachable this] show ?thesis by blast
qed

subsection \<open>Statistics\<close>

lemma status_add_counts:
  fixes srv :: u32
  shows "g_up (fst (fold (\<lambda>core. status_add False (g core)) cores (t, srv))) = g_up t + (\<Sum>c\<leftarrow>cores. g_up (g c))"
    and "g_estab (fst (fold (\<lambda>core. status_add False (g core)) cores (t, srv))) = g_estab t + (\<Sum>c\<leftarrow>cores. g_estab (g c))"
    and "g_down (fst (fold (\<lambda>core. status_add False (g core)) cores (t, srv))) = g_down t + (\<Sum>c\<leftarrow>cores. g_down (g c))"
    and "g_failed (fst (fold (\<lambda>core. status_add False (g core)) cores (t, srv))) = g_failed t + (\<Sum>c\<leftarrow>cores. g_failed (g c))"
    and "g_data_failed (fst (fold (\<lambda>core. status_add False (g core)) cores (t, srv))) =
           g_data_failed t + (\<Sum>c\<leftarrow>cores. g_data_failed (g c))"
    and "g_data_null (fst (fold (\<lambda>core. status_add False (g core)) cores (t, srv))) =
           g_data_null t + (\<Sum>c\<leftarrow>cores. g_data_null (g c))"
  by (induction cores arbitrary: t srv) (simp_all add: status_add_def algebra_simps)

lemma status_fold_app:
  "fst (fold (\<lambda>core (ts, s). (status_add b (fst (answer core r)) ts, f s (snd (answer core r)))) cores (ts, s)) =
     fold (\<lambda>core. status_add b (fst (answer core r))) cores ts"
  by (induction cores arbitrary: ts s) simp_all

text \<open>
  The six counters of the sessions, as numbers: in the totals of a test case and on a core.
\<close>

definition total_counts :: "gen_stats \<Rightarrow> u32 list" where
  "total_counts g = [g_up g, g_estab g, g_down g, g_failed g, g_data_failed g, g_data_null g]"

definition core_counts :: "test_case_info \<Rightarrow> u32 list" where
  "core_counts c = [gs_up c, gs_estab c, gs_down c, gs_failed c, gs_data_failed c, gs_data_null c]"

definition pending_counts :: "(nat \<Rightarrow> ('app, 's) test_run \<times> test_case_info) \<Rightarrow> nat list \<Rightarrow> nat \<Rightarrow> u32" where
  "pending_counts C cores k = (\<Sum>core\<leftarrow>cores. core_counts (snd (C core)) ! k)"

text \<open>A request to the cores: each answers and starts its counters again.\<close>

definition req_answer ::
  "('a, 's) app_send_ops \<Rightarrow> (nat \<Rightarrow> ('app, 's) test_run \<times> test_case_info) \<Rightarrow> nat \<Rightarrow> 's \<Rightarrow> gen_stats \<times> 's" where
  "req_answer ops C core s = fst (test_case_stats_req_cb ops (C core))"

definition req_after ::
  "('a, 's) app_send_ops \<Rightarrow> (nat \<Rightarrow> ('app, 's) test_run \<times> test_case_info) \<Rightarrow> nat \<Rightarrow> ('app, 's) test_run \<times> test_case_info" where
  "req_after ops C core = snd (test_case_stats_req_cb ops (C core))"

lemma req_counts:
  "total_counts (fst (req_answer ops C core s)) = core_counts (snd (C core))"
  "core_counts (snd (req_after ops C core)) = [0, 0, 0, 0, 0, 0]"
  by (cases "C core"; simp add: req_answer_def req_after_def total_counts_def core_counts_def
      test_case_stats_req_cb_def Let_def)+

lemma nth_six: "k < 6 \<Longrightarrow> [0, 0, 0, 0, 0, 0 :: u32] ! k = 0"
  by (simp add: less_Suc_eq numeral_eq_Suc) auto

lemma pending_after: "k < 6 \<Longrightarrow> pending_counts (req_after ops C) cores k = 0"
  by (induction cores) (simp_all add: pending_counts_def req_counts nth_six)

lemma fold_total_counts:
  assumes "k < 6"
  shows "total_counts (fst (fold (\<lambda>core. status_add False (g core)) cores (t, srv))) ! k =
    total_counts t ! k + (\<Sum>c\<leftarrow>cores. total_counts (g c) ! k)"
proof -
  from assms have "k \<in> {0, 1, 2, 3, 4, 5}" by auto
  then show ?thesis by (auto simp: total_counts_def status_add_counts)
qed

lemma total_counts_start: "total_counts (status_start t) = total_counts t"
  by (simp add: total_counts_def status_start_def)

text \<open>
  C18: The six counters of the sessions of a client (up, established, down, failed, and the failures of data) are
  collected without loss: however the sessions are spread over the cores, a request moves what each core has counted since
  the last one into the totals of the test case, once, so the sum of the totals and of what the cores still hold is the
  same before and after. Of the other statistics, the samples of the latency are not conserved: their number is added
  twice (\<^verbatim>\<open>src/tpg_test_mgmt.c\<close>, line 709).
\<close>

theorem client_counts_conserved:
  assumes "tc_type tc = TEST_CASE_TYPE__CLIENT" and "k < 6"
    and "M' = test_update_status P (req_answer ops C) tc M"
    and "cores = mp_cores P (tc_eth_port tc)"
  shows "total_counts (m_gen_stats M' (tc_eth_port tc) (tc_id tc)) ! k + pending_counts (req_after ops C) cores k =
    total_counts (m_gen_stats M (tc_eth_port tc) (tc_id tc)) ! k + pending_counts C cores k"
proof -
  let ?t = "status_start (m_gen_stats M (tc_eth_port tc) (tc_id tc))"
  let ?r = "mp_stats_init_req P (tc_app tc)"
  have "m_gen_stats M' (tc_eth_port tc) (tc_id tc) =
      fst (fold (\<lambda>core. status_add False (fst (req_answer ops C core ?r))) cores (?t, 0))"
    using assms(1) unfolding assms(3,4)
    by (simp add: test_update_status_def Let_def case_prod_beta upd2_def status_fold_app)
  then show ?thesis
    using assms(2) by (simp add: fold_total_counts pending_after total_counts_start req_counts pending_counts_def nth_six)
qed

theorem client_counts_conserved_witness:
  "\<forall>T :: (unit, unit) test_run. \<forall>ops :: (unit, unit) app_send_ops.
     total_counts (m_gen_stats (test_update_status ex_mgmt (req_answer ops (\<lambda>core. (T, ex_tci\<lparr>gs_up := of_nat core\<rparr>)))
        (cfg (ex_case 3)) (mgmt.truncate ex_M0)) 0 3) ! 0 = 5"
proof (intro allI)
  fix T :: "(unit, unit) test_run" and ops :: "(unit, unit) app_send_ops"
  let ?C = "\<lambda>core. (T, ex_tci\<lparr>gs_up := of_nat core\<rparr>)"
  have tc: "tc_type (cfg (ex_case 3)) = TEST_CASE_TYPE__CLIENT" "tc_eth_port (cfg (ex_case 3)) = 0" "tc_id (cfg (ex_case 3)) = 3"
    by (simp_all add: ex_case_def test_init_defaults_def)
  have "pending_counts (req_after ops ?C) [2, 3] 0 = 0" by (rule pending_after) simp
  moreover have "pending_counts ?C [2, 3] 0 = 5"
    "total_counts (m_gen_stats (mgmt.truncate ex_M0) 0 3) ! 0 = 0" "mp_cores ex_mgmt 0 = [2, 3]"
    by (simp_all add: pending_counts_def core_counts_def ex_M0_def mgmt.defs total_counts_def
        zero_gen_stats_def ex_mgmt_def)
  moreover note client_counts_conserved [OF tc(1) _ refl refl, of 0 ex_mgmt ops ?C "mgmt.truncate ex_M0"] tc
  ultimately show "total_counts (m_gen_stats (test_update_status ex_mgmt (req_answer ops ?C) (cfg (ex_case 3)) (mgmt.truncate ex_M0)) 0 3) ! 0 = 5"
    by simp
qed

end
