(* ===== verification/MgmtRun.thy ===== *)
theory MgmtRun
  imports MgmtSys
begin

text \<open>
  Runs of the test cases of a port by the manager: what the timers of the test cases do after a start of the
  port, when the identifiers of the test cases have a gap, and when a server does not come up.
\<close>

named_theorems walk_simps \<open>what keeps the walk over the test cases\<close>

text \<open>A run of the timer of test cases: each tick sets the clock and runs one callback.\<close>

fun timer_run ::
  "('app, 's) mgmt_prm \<Rightarrow> u32 \<Rightarrow> (u64 \<times> u32 \<times> (nat \<Rightarrow> 's \<Rightarrow> gen_stats \<times> 's) \<times> (nat \<Rightarrow> rate_stats)) list
     \<Rightarrow> ('app, 's) mgmt \<Rightarrow> ('app, 's) mgmt option" where
  "timer_run P port [] M = Some M"
| "timer_run P port ((now, i, answer, rates) # ticks) M =
     Option.bind (test_entry_tmr_cb P answer rates port i (M\<lparr>m_now := now\<rparr>)) (timer_run P port ticks)"

text \<open>The test cases of a port that the cores were told to start.\<close>

definition started_ids :: "('app, 's) mgmt \<Rightarrow> u32 set" where
  "started_ids M = {k. \<exists>c p. MsgStart c p k \<in> set (m_log M)}"

text \<open>What the callback changes of the walk over the test cases, of the log, and of the state of the port.\<close>

definition walk :: "('app, 's) mgmt \<Rightarrow> u32 \<Rightarrow> u32 set \<times> bool \<times> bool \<times> u32" where
  "walk M port = (started_ids M, te_test_running (m_envs M port), te_test_case_to_start (m_envs M port),
     te_test_case_next (m_envs M port))"

lemma walk_oper [walk_simps]: "walk (upd_env port (upd_oper i f) M) p = walk M p"
  by (simp add: walk_def started_ids_def upd_env_def upd_oper_def upd_case_def)

lemma walk_other [walk_simps]:
  "walk (M\<lparr>m_gen_stats := g\<rparr>) p = walk M p" "walk (M\<lparr>m_rate_stats := r\<rparr>) p = walk M p"
  "walk (M\<lparr>m_app_stats := a\<rparr>) p = walk M p" "walk (M\<lparr>m_now := now\<rparr>) p = walk M p"
  "walk (mgmt_log (map (\<lambda>core. MsgStop core x y) cores) M) p = walk M p"
  by (auto simp: walk_def started_ids_def mgmt_log_def)

lemma walk_update_rates [walk_simps]: "test_update_rates P answer tc M = Some M' \<Longrightarrow> walk M' p = walk M p"
  by (auto simp: test_update_rates_def walk_simps)

lemma walk_check_tc_status: "test_check_tc_status P answer tc st M = Some (d, q, st', M') \<Longrightarrow> walk M' p = walk M p"
  by (auto simp: test_check_tc_status_def test_update_status_def bind_eq_Some_conv Let_def case_prod_beta walk_simps
      split: if_splits)

lemma walk_stop_test_case: "test_stop_test_case P port i s M = Some M' \<Longrightarrow> walk M' p = walk M p"
  by (auto simp: test_stop_test_case_def Let_def walk_simps split: if_splits)

lemma walk_tmr_outcome: "entry_tmr_outcome P port i d q M = Some M' \<Longrightarrow> walk M' p = walk M p"
  by (auto simp: entry_tmr_outcome_def Let_def walk_simps dest!: walk_stop_test_case split: if_splits)

lemma walk_tmr_rates: "entry_tmr_rates P rates port i M = Some M' \<Longrightarrow> walk M' p = walk M p"
  by (auto simp: entry_tmr_rates_def Let_def walk_simps split: if_splits)

lemma walk_stays:
  assumes "test_entry_tmr_cb P answer rates port i M = Some M'"
    and "te_test_case_to_start (m_envs M port)" and "i \<noteq> te_test_case_next (m_envs M port) - 1"
  shows "walk M' port = walk M port"
proof -
  from assms(1) obtain d p st M1 M2 M3 where
    1: "test_check_tc_status P answer (cfg (te_test_cases (m_envs M port) i))
         (tec_state (te_test_cases (m_envs M port) i)) M = Some (d, p, st, M1)"
    and 2: "entry_tmr_outcome P port i d p (upd_env port (upd_oper i (\<lambda>_. st)) M1) = Some M2"
    and 3: "entry_tmr_rates P rates port i (entry_tmr_start_next P port i d M2) = Some M3"
    and M': "M' = entry_tmr_all_done port d M3"
    by (auto simp: test_entry_tmr_cb_def bind_eq_Some_conv Let_def)
  from walk_tmr_outcome [OF 2] walk_check_tc_status [OF 1] have 4: "walk M2 port = walk M port" by (simp add: walk_simps)
  with assms(2,3) have "entry_tmr_start_next P port i d M2 = M2" by (simp add: entry_tmr_start_next_def walk_def Let_def)
  with 3 4 have "walk M3 port = walk M port" using walk_tmr_rates [OF 3] by simp
  with assms(2) show ?thesis by (simp add: M' entry_tmr_all_done_def walk_def Let_def)
qed

lemma FOREACH_view: "m_view M' = m_view M \<Longrightarrow> TEST_CASE_FOREACH (m_envs M' port) = TEST_CASE_FOREACH (m_envs M port)"
  unfolding TEST_CASE_FOREACH_def te_configured_def using m_view_configured [of M' M port] by simp

lemma timer_run_stays:
  assumes "timer_run P port ticks M = Some M'" and "te_test_case_to_start (m_envs M port)"
    and "\<forall>(now, i, answer, rates) \<in> set ticks. i \<noteq> te_test_case_next (m_envs M port) - 1"
  shows "walk M' port = walk M port"
  using assms
proof (induction P port ticks M rule: timer_run.induct)
  case (2 P port now i answer rates ticks M)
  then obtain M1 where M1: "test_entry_tmr_cb P answer rates port i (M\<lparr>m_now := now\<rparr>) = Some M1"
    and run: "timer_run P port ticks M1 = Some M'" by (auto simp: bind_eq_Some_conv)
  from walk_stays [OF M1] "2.prems" have w: "walk M1 port = walk M port" by (simp add: walk_simps)
  then have "te_test_case_to_start (m_envs M1 port)" "te_test_case_next (m_envs M1 port) = te_test_case_next (m_envs M port)"
    using "2.prems"(2) by (simp_all add: walk_def)
  with "2.IH" [OF M1 run] "2.prems"(3) w show ?case by simp
qed simp

lemma te_ids_sorted: "sorted_wrt (<) te_ids"
  by (simp add: te_ids_def)

lemma gap_before_second:
  assumes "TEST_CASE_FOREACH tenv = a # b # rest" and "b \<noteq> a + 1"
  shows "b - 1 \<notin> set (TEST_CASE_FOREACH tenv)" and "filter (\<lambda>k. k > a) (TEST_CASE_FOREACH tenv) = b # rest"
proof -
  have s: "sorted_wrt (<) (a # b # rest)"
    unfolding assms(1) [symmetric] TEST_CASE_FOREACH_def by (rule sorted_wrt_filter [OF te_ids_sorted])
  then have "b \<noteq> 0" by (auto dest: word_gt_0 [THEN iffD1] simp: word_gt_0_no)
  then have "b - 1 < b" by (simp add: word_less_nat_alt unat_minus_one unat_gt_0)
  with s assms(2) show "b - 1 \<notin> set (TEST_CASE_FOREACH tenv)" unfolding assms(1) by auto
  from s show "filter (\<lambda>k. k > a) (TEST_CASE_FOREACH tenv) = b # rest"
    unfolding assms(1) by (auto simp: filter_id_conv)
qed

lemma no_start_in_init: "MsgStart c q k \<notin> set (init_cores P cores im)"
  by (induction cores arbitrary: im) simp_all

lemma walk_log [walk_simps]: "(\<And>c q k. MsgStart c q k \<notin> set ms) \<Longrightarrow> walk (mgmt_log ms M) p = walk M p"
  by (simp add: walk_def started_ids_def mgmt_log_def)

lemma walk_init_case: "start_init_case P port i M = Some M' \<Longrightarrow> walk M' p = walk M p"
  by (auto simp: start_init_case_def test_init_test_case_def Let_def walk_simps no_start_in_init)

lemma fold_init_cases:
  "fold (\<lambda>i M. Option.bind M (start_init_case P port i)) is (Some M) = Some M' \<Longrightarrow> walk M' p = walk M p"
proof (induction "is" arbitrary: M)
  case (Cons i "is")
  then obtain M1 where "start_init_case P port i M = Some M1"
      "fold (\<lambda>i M. Option.bind M (start_init_case P port i)) is (Some M1) = Some M'"
    by (cases "start_init_case P port i M") (auto simp: fold_bind_None)
  with Cons.IH [of M1] walk_init_case [of P port i M M1] show ?case by simp
qed simp

lemma upd_oper_flags [simp]:
  "te_test_running (upd_oper i f tenv) = te_test_running tenv"
  "te_test_case_to_start (upd_oper i f tenv) = te_test_case_to_start tenv"
  "te_test_case_next (upd_oper i f tenv) = te_test_case_next tenv"
  by (simp_all add: upd_oper_def upd_case_def)

lemma walk_start_timers [walk_simps]: "walk (upd_env port start_timers M) p = walk M p"
  by (simp add: walk_def started_ids_def upd_env_def start_timers_def te_ids_def)

lemma FOREACH_oper:
  "(\<And>st. teos_configured (f st) = teos_configured st) \<Longrightarrow> TEST_CASE_FOREACH (upd_oper i f tenv) = TEST_CASE_FOREACH tenv"
proof -
  assume "\<And>st. teos_configured (f st) = teos_configured st"
  then have "te_configured (upd_oper i f tenv) = te_configured tenv"
    by (simp add: te_configured_def upd_oper_def upd_case_def fun_eq_iff)
  then show ?thesis by (simp add: TEST_CASE_FOREACH_def)
qed

text \<open>A start: the state before the first test case is started.\<close>

definition before_cases :: "('app, 's) mgmt_prm \<Rightarrow> u32 \<Rightarrow> ('app, 's) mgmt \<Rightarrow> ('app, 's) mgmt" where
  "before_cases P port M =
     (let M = upd_env port (\<lambda>tenv. tenv\<lparr>te_test_running := True\<rparr>) M; pcfg = te_port_cfg (m_envs M port);
          M = mgmt_log (map (\<lambda>(i, l3). RouteIntfAdd port l3 i) (enumerate 0 (pc_l3_intfs pcfg))) M;
          M = (if ip_v4 (pc_def_gw pcfg) \<noteq> 0 then mgmt_log [RouteGwAdd port (pc_def_gw pcfg)] M else M)
      in upd_env port start_timers M)"

lemma no_start_in_routes [simp]: "MsgStart c q k \<notin> (\<lambda>(i, l3). RouteIntfAdd port l3 i) ` X"
  by auto

lemma FOREACH_running [simp]: "TEST_CASE_FOREACH (tenv\<lparr>te_test_running := b\<rparr>) = TEST_CASE_FOREACH tenv"
  by (simp add: TEST_CASE_FOREACH_def te_configured_def [abs_def])

lemma before_cases_walk: "walk (before_cases P port M) port = (started_ids M, True, snd (snd (walk M port)))"
proof -
  have "walk (upd_env port (\<lambda>tenv. tenv\<lparr>te_test_running := True\<rparr>) M) port = (started_ids M, True, snd (snd (walk M port)))"
    by (simp add: walk_def started_ids_def upd_env_def)
  then show ?thesis by (auto simp: before_cases_def Let_def walk_simps)
qed

lemma before_cases_view: "m_view (before_cases P port M) = m_view M"
  by (simp add: before_cases_def Let_def view_simps)

lemma start_cb_cases:
  assumes "test_start_cb P port M = Some (0, M1)" and "\<not> te_test_running (m_envs M port)"
  obtains M3 first where
    "fold (\<lambda>i M. Option.bind M (start_init_case P port i)) (TEST_CASE_FOREACH (m_envs M port)) (Some (before_cases P port M)) = Some M3"
    and "test_mgmt_test_case_first (m_envs M3 port) = Some first"
    and "M1 = test_start_test_case P port (upd_env port (\<lambda>tenv. tenv\<lparr>te_test_case_to_start := te_test_cases_count tenv > 1,
           te_test_case_next := tc_id first\<rparr>) M3)"
  using assms unfolding test_start_cb_def before_cases_def Let_def
  by (auto simp: bind_eq_Some_conv upd_env_def split: if_split_asm)

lemma start_test_case_walk:
  assumes "te_test_case_next (m_envs M port) = a" and "tc_id (cfg (te_test_cases (m_envs M port) a)) = a"
    and "filter (\<lambda>k. k > a) (TEST_CASE_FOREACH (m_envs M port)) = b # rest"
  shows "fst (walk (test_start_test_case P port M) port) \<subseteq> insert a (started_ids M)"
    and "snd (walk (test_start_test_case P port M) port) = (te_test_running (m_envs M port), te_test_case_to_start (m_envs M port), b)"
proof -
  have "filter (\<lambda>k. k > a) (TEST_CASE_FOREACH (upd_oper i (\<lambda>st. st\<lparr>teos_start_time := s, teos_stop_time := 0,
      teos_test_case_state := TEST_CASE_STATE__RUNNING, teos_timer := True\<rparr>) (m_envs M port))) = b # rest" for i s
    using assms(3) by (simp add: FOREACH_oper)
  then show "fst (walk (test_start_test_case P port M) port) \<subseteq> insert a (started_ids M)"
    and "snd (walk (test_start_test_case P port M) port) = (te_test_running (m_envs M port), te_test_case_to_start (m_envs M port), b)"
    using assms(1,2)
    by (auto simp: test_start_test_case_def Let_def walk_def started_ids_def upd_env_def mgmt_log_def upd_oper_def upd_case_def)
qed

lemma start_port_walk:
  assumes "test_start_cb P port M = Some (0, M1)" and "\<not> te_test_running (m_envs M port)"
    and "TEST_CASE_FOREACH (m_envs M port) = a # b # rest" and "b \<noteq> a + 1"
    and "tc_id (cfg (te_test_cases (m_envs M port) a)) = a" and "te_test_cases_count (m_envs M port) > 1"
  shows "fst (walk M1 port) \<subseteq> insert a (started_ids M)" and "snd (walk M1 port) = (True, True, b)"
proof -
  from assms(1,2) obtain M3 first where
    3: "fold (\<lambda>i M. Option.bind M (start_init_case P port i)) (TEST_CASE_FOREACH (m_envs M port)) (Some (before_cases P port M)) = Some M3"
    and first: "test_mgmt_test_case_first (m_envs M3 port) = Some first"
    and M1: "M1 = test_start_test_case P port (upd_env port (\<lambda>tenv. tenv\<lparr>te_test_case_to_start := te_test_cases_count tenv > 1,
           te_test_case_next := tc_id first\<rparr>) M3)" (is "M1 = test_start_test_case P port ?M4")
    by (rule start_cb_cases)
  from fold_init_cases [OF 3] before_cases_walk have w: "walk M3 port = (started_ids M, True, snd (snd (walk M port)))" by metis
  from view_start_cases [OF 3] before_cases_view have v: "m_view M3 = m_view M" by metis
  have v4: "m_view ?M4 = m_view M" using v by (simp add: m_view_def env_view_def upd_env_def fun_eq_iff)
  have cfgs: "cfg (te_test_cases (m_envs N port) a) = cfg (te_test_cases (m_envs M port) a)" if "m_view N = m_view M" for N
    using fun_cong [OF that, of port] by (auto simp: m_view_def env_view_def case_view_def dest: fun_cong [where x = a])
  have count: "te_test_cases_count (m_envs M3 port) = te_test_cases_count (m_envs M port)"
    using fun_cong [OF v, of port] by (simp add: m_view_def env_view_def)
  have F: "TEST_CASE_FOREACH (m_envs ?M4 port) = a # b # rest" "TEST_CASE_FOREACH (m_envs M3 port) = a # b # rest"
    using FOREACH_view [OF v4, of port] FOREACH_view [OF v, of port] assms(3) by simp_all
  have "tc_id first = a" using first F(2) cfgs [OF v] assms(5) by (simp add: test_mgmt_test_case_first_def)
  then have "te_test_case_next (m_envs ?M4 port) = a" by (simp add: upd_env_def)
  note s = start_test_case_walk [OF this _ gap_before_second(2) [OF F(1) assms(4), folded F(1)], of P]
  show "fst (walk M1 port) \<subseteq> insert a (started_ids M)" and "snd (walk M1 port) = (True, True, b)"
    using s w count assms(5,6) cfgs [OF v4] unfolding M1 by (simp_all add: walk_def upd_env_def started_ids_def)
qed

text \<open>
  A gap in the identifiers of the test cases of a port stops its run. When the test case
  after the first one does not have the next identifier, the callback of a timer never
  finds its turn: whatever the cores answer and however often the timers fire, also when the first test case has passed,
  no other test case is ever started, and the port stays running until the user stops it.
\<close>

theorem gap_in_ids_never_starts:
  assumes "TEST_CASE_FOREACH (m_envs M port) = a # b # rest" and "b \<noteq> a + 1"
    and "tc_id (cfg (te_test_cases (m_envs M port) a)) = a" and "te_test_cases_count (m_envs M port) > 1"
    and "\<not> te_test_running (m_envs M port)" and "test_start_cb P port M = Some (0, M1)"
    and "\<forall>(now, i, answer, rates) \<in> set ticks. te_configured (m_envs M port) i \<and> i \<in> set te_ids"
    and "timer_run P port ticks M1 = Some M2"
  shows "started_ids M2 \<subseteq> insert a (started_ids M) \<and> te_test_running (m_envs M2 port) \<and>
    te_test_case_to_start (m_envs M2 port) \<and> te_test_case_next (m_envs M2 port) = b"
proof -
  note start = start_port_walk [OF assms(6,5,1-4)]
  then have "te_test_case_to_start (m_envs M1 port)" "te_test_case_next (m_envs M1 port) = b" by (simp_all add: walk_def)
  moreover have "\<forall>(now, i, answer, rates) \<in> set ticks. i \<noteq> b - 1"
    using assms(7) gap_before_second(1) [OF assms(1,2)] by (fastforce simp: TEST_CASE_FOREACH_def)
  ultimately have "walk M2 port = walk M1 port" using timer_run_stays [OF assms(8)] by simp
  with start show ?thesis by (simp add: walk_def)
qed

definition ex_gap :: "(unit, unit) mgmt" where
  "ex_gap = mgmt.truncate (snd (test_mgmt_add_test_case ex_api 0 (cfg (ex_case 2))
     (snd (test_mgmt_add_test_case ex_api 0 (cfg (ex_case 0)) ex_M0))))"

definition ex_started :: "(unit, unit) mgmt" where
  "ex_started = snd (the (test_start_cb ex_mgmt 0 ex_gap))"

definition ex_ticks :: "(u64 \<times> u32 \<times> (nat \<Rightarrow> unit \<Rightarrow> gen_stats \<times> unit) \<times> (nat \<Rightarrow> rate_stats)) list" where
  "ex_ticks = [(600000000001000, 0, \<lambda>_ _. (zero_gen_stats, ()), \<lambda>_. zero_rate_stats)]"

definition ex_passed :: "(unit, unit) mgmt" where
  "ex_passed = the (timer_run ex_mgmt 0 ex_ticks ex_started)"

lemma ex_gap_start: "test_start_cb ex_mgmt 0 ex_gap = Some (0, ex_started)"
proof -
  have "map_option fst (test_start_cb ex_mgmt 0 ex_gap) = Some 0" by code_simp
  then show ?thesis by (auto simp: ex_started_def)
qed

lemma ex_gap_run: "timer_run ex_mgmt 0 ex_ticks ex_started = Some ex_passed"
proof -
  have "timer_run ex_mgmt 0 ex_ticks ex_started \<noteq> None" by code_simp
  then show ?thesis by (auto simp: ex_passed_def)
qed

text \<open>The first test case has passed, and the second one is not started.\<close>

theorem gap_in_ids_never_starts_witness:
  "teos_test_case_state (tec_state (te_test_cases (m_envs ex_passed 0) 0)) = TEST_CASE_STATE__PASSED \<and>
     started_ids ex_passed \<subseteq> {0} \<and> te_test_running (m_envs ex_passed 0)"
proof
  show "teos_test_case_state (tec_state (te_test_cases (m_envs ex_passed 0) 0)) = TEST_CASE_STATE__PASSED" by code_simp
  have F: "TEST_CASE_FOREACH (m_envs ex_gap 0) = 0 # 2 # []" by code_simp
  have a: "tc_id (cfg (te_test_cases (m_envs ex_gap 0) 0)) = 0" by code_simp
  have c: "te_test_cases_count (m_envs ex_gap 0) > 1" by code_simp
  have r: "\<not> te_test_running (m_envs ex_gap 0)" by code_simp
  have "set (m_log ex_gap) = {}" by code_simp
  then have s: "started_ids ex_gap = {}" by (simp add: started_ids_def)
  have "\<forall>(now, i, answer, rates) \<in> set ex_ticks. te_configured (m_envs ex_gap 0) i \<and> i \<in> set te_ids"
    using F unfolding ex_ticks_def TEST_CASE_FOREACH_def te_ids_def by (auto split: if_splits)
  from gap_in_ids_never_starts [OF F _ a c r ex_gap_start this ex_gap_run] s
  show "started_ids ex_passed \<subseteq> {0} \<and> te_test_running (m_envs ex_passed 0)" by simp
qed

subsection \<open>A server that does not come up\<close>

lemma server_outcome:
  assumes "tc_type (cfg (te_test_cases (m_envs M port) i)) = TEST_CASE_TYPE__SERVER"
  shows "entry_tmr_outcome P port i True False M =
    Some (upd_env port (upd_oper i (\<lambda>st. st\<lparr>teos_test_case_state := TEST_CASE_STATE__FAILED\<rparr>)) M)"
  using assms by (simp add: entry_tmr_outcome_def Let_def upd_env_def upd_oper_def upd_case_def)

lemma rates_keep:
  assumes "entry_tmr_rates P rates port i M = Some M'"
  shows "m_log M' = m_log M" and "te_test_case_to_start (m_envs M' port) = te_test_case_to_start (m_envs M port)"
    and "cfg (te_test_cases (m_envs M' port) k) = cfg (te_test_cases (m_envs M port) k)"
    and "teos_timer (tec_state (te_test_cases (m_envs M' port) k)) = teos_timer (tec_state (te_test_cases (m_envs M port) k))"
    and "teos_test_case_state (tec_state (te_test_cases (m_envs M' port) k)) =
           teos_test_case_state (tec_state (te_test_cases (m_envs M port) k))"
  using assms by (auto simp: entry_tmr_rates_def test_update_rates_def Let_def upd_env_def upd_oper_def upd_case_def split: if_splits)

lemma srv_up_timeout:
  assumes "tc_criteria tc = CRIT_SRV_UP crit" and "test_check_tc_status P answer tc st M = Some (d, p, st', M')"
    and "g_up (m_gen_stats (test_update_status P answer tc M) (tc_eth_port tc) (tc_id tc)) < crit"
    and "(m_now M - teos_start_time st) div mp_cycles_per_us P > ucast (mp_max_tc_runtime P)"
  shows "d \<and> \<not> p \<and> teos_timer st' = teos_timer st \<and> m_envs M' = m_envs M \<and> m_log M' = m_log M"
  using assms
  by (auto simp: test_check_tc_status_def test_check_criteria_def test_check_srv_up_tc_status_def Let_def
      test_update_status_def case_prod_beta split: if_splits)

text \<open>
  When the only test case of a port is a server that does not come up in the time it has, the
  callback marks it as failed and the port as idle, but it neither stops its timer nor tells
  the cores to stop. Stopping the port is then refused to the user and does nothing in the manager: the
  cores keep listening.
\<close>

theorem failed_server_left_running:
  assumes "tc = cfg (te_test_cases (m_envs M port) i)" and "st = tec_state (te_test_cases (m_envs M port) i)"
    and "tc_type tc = TEST_CASE_TYPE__SERVER" and "tc_criteria tc = CRIT_SRV_UP crit"
    and "TEST_CASE_FOREACH (m_envs M port) = [i]" and "\<not> te_test_case_to_start (m_envs M port)" and "teos_timer st"
    and "g_up (m_gen_stats (test_update_status P answer tc M) (tc_eth_port tc) (tc_id tc)) < crit"
    and "(m_now M - teos_start_time st) div mp_cycles_per_us P > ucast (mp_max_tc_runtime P)"
    and cb: "test_entry_tmr_cb P answer rates port i M = Some M'"
  shows "teos_test_case_state (tec_state (te_test_cases (m_envs M' port) i)) = TEST_CASE_STATE__FAILED \<and>
    teos_timer (tec_state (te_test_cases (m_envs M' port) i)) \<and> \<not> te_test_running (m_envs M' port) \<and>
    m_log M' = m_log M \<and> test_stop_cb P port M' = Some (0, M') \<and>
    (\<forall>A calls. port < ap_dev_count A \<longrightarrow>
       test_mgmt_stop_port A P port (mgmt.extend M' (mgmt_api.fields calls)) =
         Some (- ENOENT, mgmt.extend M' (mgmt_api.fields calls)))"
proof -
  from cb obtain d p st1 M1 M2 M3 where
    1: "test_check_tc_status P answer tc st M = Some (d, p, st1, M1)"
    and 2: "entry_tmr_outcome P port i d p (upd_env port (upd_oper i (\<lambda>_. st1)) M1) = Some M2"
    and 3: "entry_tmr_rates P rates port i (entry_tmr_start_next P port i d M2) = Some M3"
    and M': "M' = entry_tmr_all_done port d M3"
    unfolding test_entry_tmr_cb_def assms(1,2) by (auto simp: bind_eq_Some_conv Let_def)
  from srv_up_timeout [OF assms(4) 1 assms(8,9)] have d: "d" "\<not> p" "teos_timer st1" "m_envs M1 = m_envs M" "m_log M1 = m_log M"
    using assms(7) by simp_all
  then have M2: "M2 = upd_env port (upd_oper i (\<lambda>st. st\<lparr>teos_test_case_state := TEST_CASE_STATE__FAILED\<rparr>))
      (upd_env port (upd_oper i (\<lambda>_. st1)) M1)"
    using 2 assms(1,3) server_outcome [of "upd_env port (upd_oper i (\<lambda>_. st1)) M1" port i P]
    by (simp add: upd_env_def upd_oper_def upd_case_def)
  with d assms(6) have "entry_tmr_start_next P port i d M2 = M2"
    by (simp add: entry_tmr_start_next_def Let_def upd_env_def)
  note keep = rates_keep [OF 3 [unfolded this]]
  have M3: "teos_test_case_state (tec_state (te_test_cases (m_envs M3 port) i)) = TEST_CASE_STATE__FAILED"
    "teos_timer (tec_state (te_test_cases (m_envs M3 port) i))" "m_log M3 = m_log M" "\<not> te_test_case_to_start (m_envs M3 port)"
    "tc_type (cfg (te_test_cases (m_envs M3 port) i)) = TEST_CASE_TYPE__SERVER"
    using keep d assms(1,3,6) by (simp_all add: M2 upd_env_def upd_oper_def upd_case_def)
  have "TEST_CASE_FOREACH (m_envs M' port) = [i]" using FOREACH_view [OF view_tmr_cb [OF cb]] assms(5) by simp
  then have "TEST_CASE_FOREACH (m_envs M3 port) = [i]"
    by (simp add: M' entry_tmr_all_done_def Let_def upd_env_def split: if_splits)
  with M3 d have M': "M' = upd_env port (\<lambda>tenv. tenv\<lparr>te_test_running := False\<rparr>) M3"
    by (simp add: M' entry_tmr_all_done_def Let_def TEST_CASE_RUNNING_def)
  show ?thesis using M3
    by (simp add: M' upd_env_def test_stop_cb_def test_mgmt_stop_port_def test_mgmt_validate_port_id_def mgmt.defs
        flip: not_le)
qed

definition ex_server :: "(unit, unit) mgmt" where
  "ex_server = (snd (the (test_start_cb ex_mgmt 0 (mgmt.truncate (snd (test_mgmt_add_test_case ex_api 0
     (test_init_defaults ex_api TEST_CASE_TYPE__SERVER 0 1) ex_M0))))))\<lparr>m_now := 600002000\<rparr>"

definition ex_failed :: "(unit, unit) mgmt" where
  "ex_failed = the (test_entry_tmr_cb ex_mgmt (\<lambda>_ _. (zero_gen_stats, ())) (\<lambda>_. zero_rate_stats) 0 1 ex_server)"

theorem failed_server_left_running_witness:
  "m_log ex_server \<noteq> [] \<and> m_log ex_failed = m_log ex_server \<and> test_stop_cb ex_mgmt 0 ex_failed = Some (0, ex_failed) \<and>
     teos_timer (tec_state (te_test_cases (m_envs ex_failed 0) 1))"
proof -
  let ?answer = "\<lambda>_ _. (zero_gen_stats, ())" and ?rates = "\<lambda>_. zero_rate_stats"
  let ?tc = "cfg (te_test_cases (m_envs ex_server 0) 1)" and ?st = "tec_state (te_test_cases (m_envs ex_server 0) 1)"
  have "test_entry_tmr_cb ex_mgmt ?answer ?rates 0 1 ex_server \<noteq> None" by code_simp
  then have cb: "test_entry_tmr_cb ex_mgmt ?answer ?rates 0 1 ex_server = Some ex_failed" by (auto simp: ex_failed_def)
  have 1: "tc_type ?tc = TEST_CASE_TYPE__SERVER" by code_simp
  have 2: "tc_criteria ?tc = CRIT_SRV_UP 1" by code_simp
  have 3: "TEST_CASE_FOREACH (m_envs ex_server 0) = [1]" by code_simp
  have 4: "\<not> te_test_case_to_start (m_envs ex_server 0)" by code_simp
  have 5: "teos_timer ?st" by code_simp
  have 6: "g_up (m_gen_stats (test_update_status ex_mgmt ?answer ?tc ex_server) (tc_eth_port ?tc) (tc_id ?tc)) < 1" by code_simp
  have 7: "(m_now ex_server - teos_start_time ?st) div mp_cycles_per_us ex_mgmt > ucast (mp_max_tc_runtime ex_mgmt)" by code_simp
  have "m_log ex_server \<noteq> []" by code_simp
  with failed_server_left_running [OF refl refl 1 2 3 4 5 6 7 cb] show ?thesis by blast
qed

end
