(* ===== verification/HttpApp.thy ===== *)
theory HttpApp
  imports DataChain
begin

text \<open>
  The HTTP 1.1 application: \<^verbatim>\<open>src/appl/tpg_test_http_1_1_app.c\<close>, with the receive and send pointers of
  \<^verbatim>\<open>inc/appl/tpg_test_app_data.h\<close> and the writable chains of \<^verbatim>\<open>inc/tpg_data.h\<close>. A client sends one request
  after the other and waits for the response to each; a server does the opposite. The request and
  the response of a test case are built once and sent from static data.

  A callback takes the application data of the session and the statistics of the test case and
  returns them with the notifications it sends. \<^term>\<open>None\<close> is a null pointer that is followed, or a loop that does
  not end. Strings are lists of bytes without their terminator.

  The functions of DPDK on buffers are a parameter (\<open>pktmbuf_ops\<close>), with their documented behaviour in
  \<open>pktmbuf_ops_spec\<close>. The pointers of receiving and sending share their memory in the code: the offset of the scan is
  what the first 32 bits of the send pointer hold, when that was written last. The address of a buffer is a
  parameter, and \<open>NULL\<close> is 0.
\<close>

subsection \<open>Buffers\<close>

record pktmbuf_ops =
  po_new :: mbuf
  po_tailroom :: "mbuf \<Rightarrow> u16"
  po_append :: "chain \<Rightarrow> u8 list \<Rightarrow> chain option"
  po_chain :: "chain \<Rightarrow> chain \<Rightarrow> int \<times> chain"
  po_unwritten :: "nat \<Rightarrow> u8 list"

definition last_upd :: "u8 list \<Rightarrow> chain \<Rightarrow> chain" where
  "last_upd bs c = butlast c @ [(last c)\<lparr>mb_data := mb_data (last c) @ bs\<rparr>]"

definition head_pkt_len :: "(u32 \<Rightarrow> u32) \<Rightarrow> chain \<Rightarrow> chain" where
  "head_pkt_len f c = (case c of [] \<Rightarrow> [] | m # r \<Rightarrow> m\<lparr>mb_pkt_len := f (mb_pkt_len m)\<rparr> # r)"

text \<open>
  \<open>rte_pktmbuf_append\<close> appends to the last buffer of a chain, when that has the room; \<open>rte_pktmbuf_tailroom\<close> is
  the room of one buffer; \<open>rte_pktmbuf_chain\<close> refuses more than 65535 buffers; what an appended part holds
  before it is written is not specified.
\<close>

definition pktmbuf_ops_spec :: "nat \<Rightarrow> pktmbuf_ops \<Rightarrow> bool" where
  "pktmbuf_ops_spec room po \<longleftrightarrow>
     room < 65536 \<and> mb_data (po_new po) = [] \<and> mb_pkt_len (po_new po) = 0 \<and> mb_nb_segs (po_new po) = 1 \<and>
     (\<forall>m. po_tailroom po m = of_nat (room - length (mb_data m))) \<and>
     (\<forall>c bs. po_append po c bs =
        (if c = [] \<or> length bs > room - length (mb_data (last c)) then None
         else Some (head_pkt_len (\<lambda>n. n + of_nat (length bs)) (last_upd bs c)))) \<and>
     (\<forall>a b. a \<noteq> [] \<longrightarrow> b \<noteq> [] \<longrightarrow> po_chain po a b =
        (if length a + length b > 65535 then (- 75, a)
         else (0, head_pkt_len (\<lambda>n. n + mb_pkt_len (hd b)) (a @ b)))) \<and>
     (\<forall>n. length (po_unwritten po n) = n)"

text \<open>The loop: the buffers, whether the last allocation succeeded.\<close>

partial_function (option) data_alloc_loop ::
  "pktmbuf_ops \<Rightarrow> u32 \<Rightarrow> chain \<Rightarrow> bool list \<Rightarrow> (chain \<times> bool \<times> bool list) option" where
  "data_alloc_loop po len acc bs =
     (let req_len = (if len < ucast (po_tailroom po (po_new po)) then len else ucast (po_tailroom po (po_new po)))
      in do {
        c \<leftarrow> po_append po [po_new po] (po_unwritten po (unat req_len));
        let acc = acc @ c;
        let len = len - req_len;
        if len \<noteq> 0
        then let (ok, bs) = pkt_mbuf_alloc bs
             in if ok then data_alloc_loop po len acc bs else Some (acc, False, bs)
        else Some (acc, True, bs)
      })"

definition data_alloc_chain :: "pktmbuf_ops \<Rightarrow> u32 \<Rightarrow> bool list \<Rightarrow> (chain \<times> bool list) option" where
  "data_alloc_chain po len bs =
     (let (ok, bs) = pkt_mbuf_alloc bs
      in if \<not> ok then Some ([], bs)
         else do {
           (c, ok, bs) \<leftarrow> data_alloc_loop po len [] bs;
           Some (if ok then set_head (of_nat (length c)) len c else [], bs)
         })"

subsection \<open>The pointers of an application\<close>

text \<open>The buffer of an offset, as the rest of the chain.\<close>

fun data_offset_walk :: "chain \<Rightarrow> u32 \<Rightarrow> (chain \<times> u32) option" where
  "data_offset_walk [] offset = None"
| "data_offset_walk (m # c) offset =
     (if offset \<ge> data_len m then data_offset_walk c (offset - data_len m) else Some (m # c, offset))"

definition app_data_get_from_offset :: "chain \<Rightarrow> u32 \<Rightarrow> (chain \<times> u32) option" where
  "app_data_get_from_offset c offset =
     (case c of
        [] \<Rightarrow> None
      | m # _ \<Rightarrow> if offset \<ge> mb_pkt_len m then Some ([], 0) else data_offset_walk c offset)"

record app_send_ptr =
  asp_mbuf_chain :: chain
  asp_data_offset :: u32
  asp_data_len :: u32

definition APP_SEND_PTR_INIT :: "chain \<Rightarrow> app_send_ptr option" where
  "APP_SEND_PTR_INIT tx_mbuf =
     (case tx_mbuf of
        [] \<Rightarrow> None
      | m # _ \<Rightarrow> Some \<lparr>asp_mbuf_chain = tx_mbuf, asp_data_offset = 0, asp_data_len = mb_pkt_len m\<rparr>)"

fun send_ptr_skip :: "chain \<Rightarrow> u32 \<Rightarrow> (chain \<times> u32) option" where
  "send_ptr_skip [] count = (if count = 0 then Some ([], 0) else None)"
| "send_ptr_skip (m # c) count =
     (if count \<noteq> 0 \<and> count \<ge> data_len m then send_ptr_skip c (count - data_len m) else Some (m # c, count))"

definition app_send_ptr_advance :: "app_send_ptr \<Rightarrow> u32 \<Rightarrow> app_send_ptr option" where
  "app_send_ptr_advance send count =
     (case asp_mbuf_chain send of
        [] \<Rightarrow> None
      | m # c \<Rightarrow>
          let send = send\<lparr>asp_data_len := asp_data_len send - count\<rparr>;
              first_elem_size = data_len m - asp_data_offset send;
              walk = (\<lambda>c count. map_option (\<lambda>(c, off). send\<lparr>asp_mbuf_chain := c, asp_data_offset := off\<rparr>)
                                  (send_ptr_skip c count))
          in if asp_data_offset send \<noteq> 0
             then if count < first_elem_size
                  then Some (send\<lparr>asp_data_offset := asp_data_offset send + count\<rparr>)
                  else if count = first_elem_size
                  then Some (send\<lparr>asp_mbuf_chain := c, asp_data_offset := 0\<rparr>)
                  else walk c (count - first_elem_size)
             else walk (m # c) count)"

subsection \<open>Data\<close>

datatype http_state =
    HTTPS_CL_SEND_REQ | HTTPS_CL_PARSE_RESP_HDR | HTTPS_CL_RECV_RESP_BODY
  | HTTPS_SRV_PARSE_REQ_HDR | HTTPS_SRV_RECV_REQ_BODY | HTTPS_SRV_SEND_RESP
  | HTTPS_CLOSED

datatype http_ptr = HaRecv u32 | HaSend app_send_ptr

record http_app =
  ha_ptr :: http_ptr
  ha_content_length :: u32
  ha_req_cnt :: u16
  ha_resp_cnt :: u16
  ha_state :: http_state
  http_mbuf :: chain

record http_stats =
  hsts_req_cnt :: u64
  hsts_resp_cnt :: u64
  hsts_invalid_msg_cnt :: u32
  hsts_no_content_len_cnt :: u32
  hsts_transfer_enc_cnt :: u32
  hsts_no_req :: u32
  hsts_no_resp :: u32

datatype http_notif = HTTP_SEND_START | HTTP_SEND_STOP | HTTP_CLOSE

datatype http_method =
    HTTP_METHOD__GET | HTTP_METHOD__HEAD | HTTP_METHOD__POST | HTTP_METHOD__PUT | HTTP_METHOD__DELETE
  | HTTP_METHOD__CONNECT | HTTP_METHOD__OPTIONS | HTTP_METHOD__TRACE | HTTP_METHOD__HTTP_METHOD_MAX

datatype http_status_code =
    HTTP_STATUS_CODE__OK_200 | HTTP_STATUS_CODE__NOT_FOUND_404 | HTTP_STATUS_CODE__FORBIDDEN_403
  | HTTP_STATUS_CODE__HTTP_STATUS_CODE_MAX

text \<open>A string that is \<open>NULL\<close> is \<^term>\<open>None\<close>.\<close>

record tpg_http_client =
  hc_req_method :: http_method
  hc_req_object_name :: "u8 list option"
  hc_req_host_name :: "u8 list option"
  hc_req_size :: u32
  hc_req_fields :: "u8 list option"

record tpg_http_server =
  hs_resp_code :: http_status_code
  hs_resp_size :: u32
  hs_resp_fields :: "u8 list option"

definition ascii :: "string \<Rightarrow> u8 list" where
  "ascii s = map of_char s"

definition CRLF :: "u8 list" where "CRLF = [13, 10]"

definition HTTP_TPG_USER_AGENT :: "u8 list" where "HTTP_TPG_USER_AGENT = ascii ''WARP17 HTTP CL''"
definition HTTP_DEFAULT_OBJECT_NAME :: "u8 list" where "HTTP_DEFAULT_OBJECT_NAME = ascii ''/index.html''"
definition HTTP_DEFAULT_HOST_NAME :: "u8 list" where "HTTP_DEFAULT_HOST_NAME = ascii ''www.foo42.net''"
definition HTTP_DEFAULT_USER_FIELDS :: "u8 list" where "HTTP_DEFAULT_USER_FIELDS = ascii ''ContentType: plain/text''"
definition HTTP_CONTENT_LENGTH_INVALID :: u32 where "HTTP_CONTENT_LENGTH_INVALID = 0xFFFFFFFF"
definition HTTP_USER_AGENT_STR :: "u8 list" where "HTTP_USER_AGENT_STR = ascii ''User-Agent:''"
definition HTTP_HOST_STR :: "u8 list" where "HTTP_HOST_STR = ascii ''Host:''"
definition HTTP_SERVER_STR :: "u8 list" where "HTTP_SERVER_STR = ascii ''Server:''"
definition HTTP_CONTENT_LEN_STR :: "u8 list" where "HTTP_CONTENT_LEN_STR = ascii ''Content-Length:''"
definition HTTP_TRANSFER_ENC_STR :: "u8 list" where "HTTP_TRANSFER_ENC_STR = ascii ''Transfer-Encoding:''"

definition HTTP_OBJECT_NAME :: "u8 list option \<Rightarrow> u8 list" where
  "HTTP_OBJECT_NAME name = (case name of Some n \<Rightarrow> n | None \<Rightarrow> HTTP_DEFAULT_OBJECT_NAME)"
definition HTTP_HOST_NAME :: "u8 list option \<Rightarrow> u8 list" where
  "HTTP_HOST_NAME name = (case name of Some n \<Rightarrow> n | None \<Rightarrow> HTTP_DEFAULT_HOST_NAME)"
definition HTTP_FIELDS :: "u8 list option \<Rightarrow> u8 list" where
  "HTTP_FIELDS str = (case str of Some n \<Rightarrow> n | None \<Rightarrow> HTTP_DEFAULT_USER_FIELDS)"

definition http_method_names :: "http_method \<Rightarrow> u8 list" where
  "http_method_names m =
     ascii (case m of HTTP_METHOD__GET \<Rightarrow> ''GET'' | HTTP_METHOD__HEAD \<Rightarrow> ''HEAD'' | HTTP_METHOD__POST \<Rightarrow> ''POST''
            | HTTP_METHOD__PUT \<Rightarrow> ''PUT'' | HTTP_METHOD__DELETE \<Rightarrow> ''DELETE'' | HTTP_METHOD__CONNECT \<Rightarrow> ''CONNECT''
            | HTTP_METHOD__OPTIONS \<Rightarrow> ''OPTIONS'' | HTTP_METHOD__TRACE \<Rightarrow> ''TRACE'' | _ \<Rightarrow> [])"

definition http_status_names :: "http_status_code \<Rightarrow> u8 list" where
  "http_status_names c =
     ascii (case c of HTTP_STATUS_CODE__OK_200 \<Rightarrow> ''200 OK'' | HTTP_STATUS_CODE__NOT_FOUND_404 \<Rightarrow> ''404 NOT FOUND''
            | HTTP_STATUS_CODE__FORBIDDEN_403 \<Rightarrow> ''403 FORBIDDEN'' | _ \<Rightarrow> [])"

subsection \<open>Configuration\<close>

text \<open>\<open>tolower\<close> and \<open>strcasestr\<close> of the C library, in its default locale.\<close>

definition tolower :: "u8 \<Rightarrow> u8" where
  "tolower c = (if 65 \<le> c \<and> c \<le> 90 then c + 32 else c)"

fun strcasestr :: "u8 list \<Rightarrow> u8 list \<Rightarrow> bool" where
  "strcasestr [] needle = (needle = [])"
| "strcasestr (c # hay) needle =
     (map tolower (take (length needle) (c # hay)) = map tolower needle \<or> strcasestr hay needle)"

definition http_validate_fields :: "u8 list option \<Rightarrow> bool" where
  "http_validate_fields http_fields =
     (case http_fields of Some f \<Rightarrow> \<not> strcasestr f HTTP_CONTENT_LEN_STR | None \<Rightarrow> True)"

definition http_client_default_cfg :: tpg_http_client where
  "http_client_default_cfg =
     \<lparr>hc_req_method = HTTP_METHOD__GET, hc_req_object_name = None, hc_req_host_name = None, hc_req_size = 0,
      hc_req_fields = None\<rparr>"

definition http_server_default_cfg :: tpg_http_server where
  "http_server_default_cfg =
     \<lparr>hs_resp_code = HTTP_STATUS_CODE__NOT_FOUND_404, hs_resp_size = 0, hs_resp_fields = None\<rparr>"

definition http_client_validate_cfg :: "tpg_http_client \<Rightarrow> bool" where
  "http_client_validate_cfg cfg =
     (if hc_req_method cfg = HTTP_METHOD__HTTP_METHOD_MAX then False
      else if hc_req_method cfg \<noteq> HTTP_METHOD__GET \<and> hc_req_method cfg \<noteq> HTTP_METHOD__HEAD then False
      else if hc_req_size cfg \<ge> HTTP_CONTENT_LENGTH_INVALID then False
      else if \<not> http_validate_fields (hc_req_fields cfg) then False
      else True)"

definition http_server_validate_cfg :: "tpg_http_server \<Rightarrow> bool" where
  "http_server_validate_cfg cfg =
     (if hs_resp_code cfg = HTTP_STATUS_CODE__HTTP_STATUS_CODE_MAX then False
      else if hs_resp_code cfg \<noteq> HTTP_STATUS_CODE__OK_200 \<and> hs_resp_code cfg \<noteq> HTTP_STATUS_CODE__NOT_FOUND_404
      then False
      else if hs_resp_size cfg \<ge> HTTP_CONTENT_LENGTH_INVALID then False
      else if \<not> http_validate_fields (hs_resp_fields cfg) then False
      else True)"

text \<open>
  \<open>strdup\<close> may fail, as the list of booleans says; a configuration whose strings were given back is \<^term>\<open>None\<close>.
\<close>

definition opt_strdup :: "u8 list option \<Rightarrow> u8 list option \<Rightarrow> bool list \<Rightarrow> bool \<times> u8 list option \<times> bool list" where
  "opt_strdup field str bs =
     (case str of
        None \<Rightarrow> (True, field, bs)
      | Some v \<Rightarrow> (case pkt_mbuf_alloc bs of (ok, bs) \<Rightarrow> (ok, if ok then Some v else None, bs)))"

definition http_client_cfg_init ::
  "tpg_http_client \<Rightarrow> http_method \<Rightarrow> u8 list option \<Rightarrow> u8 list option \<Rightarrow> u8 list option \<Rightarrow> u32 \<Rightarrow> bool list
     \<Rightarrow> int \<times> tpg_http_client option \<times> bool list" where
  "http_client_cfg_init cfg method obj_name host_name user_fields req_size bs =
     (let cfg = cfg\<lparr>hc_req_method := method\<rparr>;
          (ok, name, bs) = opt_strdup (hc_req_object_name cfg) obj_name bs;
          cfg = cfg\<lparr>hc_req_object_name := name\<rparr>
      in if \<not> ok then (- ENOMEM, Some cfg, bs)
         else
           let (ok, host, bs) = opt_strdup (hc_req_host_name cfg) host_name bs;
               cfg = cfg\<lparr>hc_req_host_name := host\<rparr>
           in if \<not> ok then (- ENOMEM, None, bs)
              else
                let (ok, flds, bs) = opt_strdup (hc_req_fields cfg) user_fields bs
                in if \<not> ok then (- ENOMEM, None, bs)
                   else (0, Some (cfg\<lparr>hc_req_size := req_size, hc_req_fields := flds\<rparr>), bs))"

definition http_server_cfg_init ::
  "tpg_http_server \<Rightarrow> http_status_code \<Rightarrow> u8 list option \<Rightarrow> u32 \<Rightarrow> bool list
     \<Rightarrow> int \<times> tpg_http_server option \<times> bool list" where
  "http_server_cfg_init cfg status_code user_fields resp_size bs =
     (let cfg = cfg\<lparr>hs_resp_code := status_code\<rparr>;
          (ok, flds, bs) = opt_strdup (hs_resp_fields cfg) user_fields bs;
          cfg = cfg\<lparr>hs_resp_fields := flds\<rparr>
      in if \<not> ok then (- ENOMEM, Some cfg, bs) else (0, Some (cfg\<lparr>hs_resp_size := resp_size\<rparr>), bs))"

subsection \<open>Building the messages\<close>

text \<open>\<open>%u\<close>.\<close>

fun dec_digits :: "nat \<Rightarrow> u8 list" where
  "dec_digits n = (if n < 10 then [of_nat (48 + n)] else dec_digits (n div 10) @ [of_nat (48 + n mod 10)])"

declare dec_digits.simps [simp del]

text \<open>The formatted string is the argument. The room is asked of the first buffer of the chain.\<close>

partial_function (option) http_write_loop ::
  "pktmbuf_ops \<Rightarrow> chain \<Rightarrow> u8 list \<Rightarrow> bool list \<Rightarrow> (int \<times> chain \<times> bool list) option" where
  "http_write_loop po mbuf data bs =
     (if data = [] then Some (0, mbuf, bs)
      else
        let tailroom = unat (po_tailroom po (hd mbuf))
        in if length data \<le> tailroom
           then map_option (\<lambda>mbuf. (0, mbuf, bs)) (po_append po mbuf data)
           else do {
             mbuf \<leftarrow> po_append po mbuf (take tailroom data);
             let (ok, bs) = pkt_mbuf_alloc bs;
             if \<not> ok then Some (- ENOMEM, mbuf, bs)
             else
               let (err, mbuf) = po_chain po mbuf [po_new po]
               in if err \<noteq> 0 then Some (err, mbuf, bs) else http_write_loop po mbuf (drop tailroom data) bs
           })"

definition http_write_str ::
  "pktmbuf_ops \<Rightarrow> chain \<Rightarrow> u8 list \<Rightarrow> bool list \<Rightarrow> (int \<times> chain \<times> bool list) option" where
  "http_write_str po mbuf data bs =
     (if mbuf = [] then Some (- EINVAL, mbuf, bs) else http_write_loop po mbuf data bs)"

text \<open>The writes of a header, up to the first that fails.\<close>

fun http_write_all ::
  "pktmbuf_ops \<Rightarrow> chain \<Rightarrow> u8 list list \<Rightarrow> bool list \<Rightarrow> (int \<times> chain \<times> bool list) option" where
  "http_write_all po mbuf [] bs = Some (0, mbuf, bs)"
| "http_write_all po mbuf (s # ss) bs =
     do {
       (err, mbuf, bs) \<leftarrow> http_write_str po mbuf s bs;
       if err \<noteq> 0 then Some (err, mbuf, bs) else http_write_all po mbuf ss bs
     }"

definition http_req_lines :: "tpg_http_client \<Rightarrow> u8 list list" where
  "http_req_lines cfg =
     [http_method_names (hc_req_method cfg) @ ascii '' '' @ HTTP_OBJECT_NAME (hc_req_object_name cfg) @
        ascii '' HTTP/1.1'' @ CRLF,
      HTTP_USER_AGENT_STR @ ascii '' '' @ HTTP_TPG_USER_AGENT @ CRLF,
      HTTP_HOST_STR @ ascii '' '' @ HTTP_HOST_NAME (hc_req_host_name cfg) @ CRLF,
      HTTP_FIELDS (hc_req_fields cfg) @ CRLF,
      HTTP_CONTENT_LEN_STR @ ascii '' '' @ dec_digits (unat (hc_req_size cfg)) @ CRLF,
      CRLF]"

definition http_resp_lines :: "tpg_http_server \<Rightarrow> u8 list list" where
  "http_resp_lines cfg =
     [ascii ''HTTP/1.1 '' @ http_status_names (hs_resp_code cfg) @ CRLF,
      HTTP_SERVER_STR @ ascii '' '' @ HTTP_TPG_USER_AGENT @ CRLF,
      HTTP_FIELDS (hs_resp_fields cfg) @ CRLF,
      HTTP_CONTENT_LEN_STR @ ascii '' '' @ dec_digits (unat (hs_resp_size cfg)) @ CRLF,
      CRLF]"

text \<open>
  The result is the error and the chain; \<^term>\<open>None\<close> is a chain that was given back to its pool. When no
  body can be allocated the code gives the chain back and returns 0.
\<close>

definition http_build_pkt ::
  "pktmbuf_ops \<Rightarrow> u8 list list \<Rightarrow> u32 \<Rightarrow> chain \<Rightarrow> bool \<Rightarrow> bool list
     \<Rightarrow> (int \<times> chain option \<times> bool list) option" where
  "http_build_pkt po hdr body_size mbuf header_only bs =
     (let (ok, bs, mbuf) = (if mbuf = [] then let (ok, bs) = pkt_mbuf_alloc bs in (ok, bs, [po_new po])
                            else (True, bs, mbuf))
      in if \<not> ok then Some (- ENOMEM, Some [], bs)
         else do {
           (err, mbuf, bs) \<leftarrow> http_write_all po mbuf hdr bs;
           if err \<noteq> 0 then Some (err, None, bs)
           else if body_size = 0 then Some (0, Some mbuf, bs)
           else if header_only then Some (0, Some (head_pkt_len (\<lambda>n. n + body_size) mbuf), bs)
           else do {
             (data, bs) \<leftarrow> data_alloc_chain po body_size bs;
             if data = [] then Some (0, None, bs)
             else Some (0, Some (case mbuf @ data of
                      [] \<Rightarrow> []
                    | m # r \<Rightarrow> m\<lparr>mb_nb_segs := mb_nb_segs m + mb_nb_segs (hd data),
                                 mb_pkt_len := mb_pkt_len m + mb_pkt_len (hd data)\<rparr> # r), bs)
           }
         })"

definition http_build_req_pkt ::
  "pktmbuf_ops \<Rightarrow> tpg_http_client \<Rightarrow> chain \<Rightarrow> bool \<Rightarrow> bool list \<Rightarrow> (int \<times> chain option \<times> bool list) option" where
  "http_build_req_pkt po cfg = http_build_pkt po (http_req_lines cfg) (hc_req_size cfg)"

definition http_build_resp_pkt ::
  "pktmbuf_ops \<Rightarrow> tpg_http_server \<Rightarrow> chain \<Rightarrow> bool \<Rightarrow> bool list \<Rightarrow> (int \<times> chain option \<times> bool list) option" where
  "http_build_resp_pkt po cfg = http_build_pkt po (http_resp_lines cfg) (hs_resp_size cfg)"

text \<open>The messages of a test case, when it starts: an error ends the program.\<close>

definition http_client_tc_start :: "pktmbuf_ops \<Rightarrow> tpg_http_client \<Rightarrow> bool list \<Rightarrow> (chain option \<times> bool list) option" where
  "http_client_tc_start po cfg bs =
     do { (err, c, bs) \<leftarrow> http_build_req_pkt po cfg [] False bs; if err \<noteq> 0 then None else Some (c, bs) }"

definition http_server_tc_start :: "pktmbuf_ops \<Rightarrow> tpg_http_server \<Rightarrow> bool list \<Rightarrow> (chain option \<times> bool list) option" where
  "http_server_tc_start po cfg bs =
     do { (err, c, bs) \<leftarrow> http_build_resp_pkt po cfg [] False bs; if err \<noteq> 0 then None else Some (c, bs) }"

definition http_tc_stop :: "chain \<Rightarrow> chain" where
  "http_tc_stop storage = []"

definition http_pkts :: "u32 \<Rightarrow> u32 \<Rightarrow> u32" where
  "http_pkts pkt_len max_pkt_size = (pkt_len + max_pkt_size - 1) div max_pkt_size"

definition http_client_pkts_per_send :: "pktmbuf_ops \<Rightarrow> tpg_http_client \<Rightarrow> u32 \<Rightarrow> bool list \<Rightarrow> u32 option" where
  "http_client_pkts_per_send po cfg max_pkt_size bs =
     do {
       (err, c, _) \<leftarrow> http_build_req_pkt po cfg [] True bs;
       c \<leftarrow> c;
       if err \<noteq> 0 \<or> c = [] \<or> max_pkt_size = 0 then None else Some (http_pkts (mb_pkt_len (hd c)) max_pkt_size)
     }"

definition http_server_pkts_per_send :: "pktmbuf_ops \<Rightarrow> tpg_http_server \<Rightarrow> u32 \<Rightarrow> bool list \<Rightarrow> u32 option" where
  "http_server_pkts_per_send po cfg max_pkt_size bs =
     do {
       (err, c, _) \<leftarrow> http_build_resp_pkt po cfg [] True bs;
       c \<leftarrow> c;
       if err \<noteq> 0 \<or> c = [] \<or> max_pkt_size = 0 then None else Some (http_pkts (mb_pkt_len (hd c)) max_pkt_size)
     }"

subsection \<open>Receiving\<close>

definition APP_RECV_SCAN_OFFSET :: "(chain \<Rightarrow> u32) \<Rightarrow> http_app \<Rightarrow> u32" where
  "APP_RECV_SCAN_OFFSET addr app =
     (case ha_ptr app of
        HaRecv scan_offset \<Rightarrow> scan_offset
      | HaSend send \<Rightarrow> if asp_mbuf_chain send = [] then 0 else addr (asp_mbuf_chain send))"

definition APP_RECV_PTR_INIT :: "http_app \<Rightarrow> http_app" where
  "APP_RECV_PTR_INIT app = app\<lparr>ha_ptr := HaRecv 0\<rparr>"

definition http_goto_send :: "http_state \<Rightarrow> http_app \<Rightarrow> (http_app \<times> http_notif list) option" where
  "http_goto_send state app =
     map_option (\<lambda>send. (app\<lparr>ha_ptr := HaSend send, ha_content_length := asp_data_len send, ha_state := state\<rparr>,
                          [HTTP_SEND_START]))
       (APP_SEND_PTR_INIT (http_mbuf app))"

definition http_client_goto_send_req :: "http_app \<Rightarrow> (http_app \<times> http_notif list) option" where
  "http_client_goto_send_req = http_goto_send HTTPS_CL_SEND_REQ"

definition http_server_goto_send_resp :: "http_app \<Rightarrow> (http_app \<times> http_notif list) option" where
  "http_server_goto_send_resp = http_goto_send HTTPS_SRV_SEND_RESP"

definition http_goto_recv_headers :: "http_state \<Rightarrow> http_app \<Rightarrow> http_app" where
  "http_goto_recv_headers state app =
     app\<lparr>ha_content_length := HTTP_CONTENT_LENGTH_INVALID, ha_state := state\<rparr>"

definition http_goto_recv_body :: "http_state \<Rightarrow> http_app \<Rightarrow> http_app" where
  "http_goto_recv_body state app = app\<lparr>ha_state := state\<rparr>"

definition isblank :: "u8 \<Rightarrow> bool" where "isblank c \<longleftrightarrow> c = 32 \<or> c = 9"

definition isdigit :: "u8 \<Rightarrow> bool" where "isdigit c \<longleftrightarrow> 48 \<le> c \<and> c \<le> 57"

text \<open>
  A walk over the buffers of a line: the result, and where it stops (the rest of the chain, the offset in its
  first buffer, the bytes of the line that remain).
\<close>

fun http_consume_ws :: "chain \<Rightarrow> u32 \<Rightarrow> u32 \<Rightarrow> bool \<times> chain \<times> u32 \<times> u32" where
  "http_consume_ws [] offset line_len = (line_len \<noteq> 0, [], offset, line_len)"
| "http_consume_ws (m # c) offset line_len =
     (let part_len = data_len m - offset;
          i = of_nat (length (takeWhile isblank (take (unat line_len) (drop (unat offset) (mb_data m)))));
          line_len = line_len - i;
          offset = offset + i
      in if i < part_len \<or> line_len = 0 then (line_len \<noteq> 0, m # c, offset, line_len)
         else http_consume_ws c 0 line_len)"

definition http_digits_value :: "u32 \<Rightarrow> u8 list \<Rightarrow> u32" where
  "http_digits_value result ds = fold (\<lambda>d result. result * 10 + (ucast d - 48)) ds result"

fun http_parse_digits :: "u32 \<Rightarrow> chain \<Rightarrow> u32 \<Rightarrow> u32 \<Rightarrow> bool \<times> chain \<times> u32 \<times> u32 \<times> u32" where
  "http_parse_digits result [] offset line_len = (line_len \<noteq> 0, [], offset, line_len, result)"
| "http_parse_digits result (m # c) offset line_len =
     (let part_len = data_len m - offset;
          ds = takeWhile isdigit (take (unat line_len) (drop (unat offset) (mb_data m)));
          i = of_nat (length ds);
          result = http_digits_value result ds;
          line_len = line_len - i;
          offset = offset + i
      in if i < part_len \<or> line_len = 0 then (line_len \<noteq> 0, m # c, offset, line_len, result)
         else http_parse_digits result c 0 line_len)"

definition http_parse_uint32 :: "chain \<Rightarrow> u32 \<Rightarrow> u32 \<Rightarrow> bool \<times> chain \<times> u32 \<times> u32 \<times> u32" where
  "http_parse_uint32 = http_parse_digits 0"

text \<open>The strings the code looks for hold no 0, so \<open>strncmp\<close> compares the bytes.\<close>

fun http_consume_string :: "u8 list \<Rightarrow> chain \<Rightarrow> u32 \<Rightarrow> u32 \<Rightarrow> bool \<times> chain \<times> u32 \<times> u32" where
  "http_consume_string val [] offset line_len = (val = [], [], offset, line_len)"
| "http_consume_string val (m # c) offset line_len =
     (let part_len = data_len m - offset;
          cmp_len = min (of_nat (length val)) (min part_len line_len);
          n = unat cmp_len
      in if take n val \<noteq> take n (drop (unat offset) (mb_data m)) then (False, m # c, offset, line_len)
         else
           let val = drop n val; line_len = line_len - cmp_len; offset = offset + cmp_len
           in if val = [] \<or> line_len = 0 then (val = [], m # c, offset, line_len)
              else http_consume_string val c 0 line_len)"

definition http_parse_content_length :: "http_app \<Rightarrow> chain \<Rightarrow> u32 \<Rightarrow> u32 \<Rightarrow> bool \<times> http_app" where
  "http_parse_content_length app line offset len =
     (case http_consume_string HTTP_CONTENT_LEN_STR line offset len of (ok, line, offset, len) \<Rightarrow>
        if \<not> ok then (False, app)
        else case http_consume_ws line offset len of (ok, line, offset, len) \<Rightarrow>
          if \<not> ok then (False, app)
          else case http_parse_uint32 line offset len of (ok, line, offset, len, content_len) \<Rightarrow>
            if \<not> ok then (False, app)
            else if len = 2 then (True, app\<lparr>ha_content_length := content_len\<rparr>)
            else (True, app))"

definition http_parse_transfer_enc :: "chain \<Rightarrow> u32 \<Rightarrow> u32 \<Rightarrow> bool" where
  "http_parse_transfer_enc line offset len =
     (case http_consume_string HTTP_TRANSFER_ENC_STR line offset len of (ok, line, offset, len) \<Rightarrow>
        ok \<and> fst (http_consume_ws line offset len))"

definition http_parse_hdr_line ::
  "http_app \<Rightarrow> http_stats \<Rightarrow> chain \<Rightarrow> u32 \<Rightarrow> u32 \<Rightarrow> bool \<Rightarrow> (http_app \<times> http_stats \<times> bool) option" where
  "http_parse_hdr_line app stats hdr_line offset len invalid =
     map_option (\<lambda>(hdr_line, offset).
         case http_parse_content_length app hdr_line offset len of (found, app) \<Rightarrow>
           if found then (app, stats, invalid)
           else if http_parse_transfer_enc hdr_line offset len
           then (app, stats\<lparr>hsts_transfer_enc_cnt := hsts_transfer_enc_cnt stats + 1\<rparr>, True)
           else (app, stats, invalid))
       (app_data_get_from_offset hdr_line offset)"

text \<open>
  Looking for the end of a line in one buffer: its index, or the last byte; then in a chain: the length of the
  line (0 when it is not complete) and the offset from which the next scan goes on.
\<close>

fun http_scan_buf :: "u8 list \<Rightarrow> nat \<Rightarrow> u8 \<Rightarrow> nat + u8" where
  "http_scan_buf [] i last_char = Inr last_char"
| "http_scan_buf (x # xs) i last_char =
     (if x = 10 \<and> last_char = 13 then Inl i else http_scan_buf xs (Suc i) x)"

fun http_scan_bufs :: "chain \<Rightarrow> u32 \<Rightarrow> u8 \<Rightarrow> u32 \<Rightarrow> u32 \<times> u32" where
  "http_scan_bufs [] offset last_char line_len = (0, if last_char = 13 then line_len - 1 else line_len)"
| "http_scan_bufs (m # c) offset last_char line_len =
     (case http_scan_buf (drop (unat offset) (mb_data m)) 0 last_char of
        Inl i \<Rightarrow> (line_len + of_nat i + 1, 0)
      | Inr last_char \<Rightarrow> http_scan_bufs c 0 last_char (line_len + (data_len m - offset)))"

definition http_scan_line :: "(chain \<Rightarrow> u32) \<Rightarrow> http_app \<Rightarrow> chain \<Rightarrow> u32 \<Rightarrow> (u32 \<times> http_app) option" where
  "http_scan_line addr app data offset =
     map_option (\<lambda>(data, offset).
         case http_scan_bufs data offset 0 (APP_RECV_SCAN_OFFSET addr app) of (line_len, scan_offset) \<Rightarrow>
           (line_len, app\<lparr>ha_ptr := HaRecv scan_offset\<rparr>))
       (app_data_get_from_offset data (offset + APP_RECV_SCAN_OFFSET addr app))"

text \<open>Whether the header is complete, the bytes of its lines, and whether it is invalid.\<close>

partial_function (option) http_parse_hdr_loop ::
  "(chain \<Rightarrow> u32) \<Rightarrow> http_app \<Rightarrow> http_stats \<Rightarrow> chain \<Rightarrow> u32 \<Rightarrow> bool \<Rightarrow> u32
     \<Rightarrow> (bool \<times> u32 \<times> bool \<times> http_app \<times> http_stats) option" where
  "http_parse_hdr_loop addr app stats data delivered invalid offset =
     (case data of
        [] \<Rightarrow> None
      | m # _ \<Rightarrow>
          if invalid \<or> offset \<ge> mb_pkt_len m then Some (False, delivered, invalid, app, stats)
          else do {
            (line_len, app) \<leftarrow> http_scan_line addr app data offset;
            if line_len = 0 then Some (False, delivered, invalid, app, stats)
            else if line_len = 2 then Some (True, delivered + line_len, invalid, app, stats)
            else do {
              (app, stats, invalid) \<leftarrow> http_parse_hdr_line app stats data offset line_len invalid;
              http_parse_hdr_loop addr app stats data (delivered + line_len) invalid (offset + line_len)
            }
          })"

definition http_parse_hdr ::
  "(chain \<Rightarrow> u32) \<Rightarrow> http_app \<Rightarrow> http_stats \<Rightarrow> chain
     \<Rightarrow> (bool \<times> u32 \<times> bool \<times> http_app \<times> http_stats) option" where
  "http_parse_hdr addr app stats data = http_parse_hdr_loop addr app stats data 0 False 0"

definition http_consume_body :: "http_app \<Rightarrow> chain \<Rightarrow> u32 \<Rightarrow> u32 \<Rightarrow> bool \<times> u32 \<times> http_app" where
  "http_consume_body app rx_data offset delivered =
     (let consumed = mb_pkt_len (hd rx_data) - offset;
          delivered = delivered + consumed;
          consumed = (if consumed > ha_content_length app then ha_content_length app else consumed);
          app = app\<lparr>ha_content_length := ha_content_length app - consumed\<rparr>
      in (ha_content_length app = 0, delivered, app))"

subsection \<open>The callbacks of a session\<close>

text \<open>The start of a session leaves what the control block held from its last session.\<close>

definition http_client_server_init :: "http_app \<Rightarrow> http_app" where
  "http_client_server_init app = app"

definition http_client_conn_up :: "http_app \<Rightarrow> (http_app \<times> http_notif list) option" where
  "http_client_conn_up app = http_client_goto_send_req (APP_RECV_PTR_INIT app)"

definition http_server_conn_up :: "http_app \<Rightarrow> http_app" where
  "http_server_conn_up app = http_goto_recv_headers HTTPS_SRV_PARSE_REQ_HDR (APP_RECV_PTR_INIT app)"

definition http_client_server_conn_down :: "http_app \<Rightarrow> http_stats \<Rightarrow> http_stats" where
  "http_client_server_conn_down app stats =
     (let stats = (if ha_req_cnt app = 0 then stats\<lparr>hsts_no_req := hsts_no_req stats + 1\<rparr> else stats)
      in if ha_resp_cnt app = 0 then stats\<lparr>hsts_no_resp := hsts_no_resp stats + 1\<rparr> else stats)"

definition http_invalid :: "http_stats \<Rightarrow> http_stats" where
  "http_invalid stats = stats\<lparr>hsts_invalid_msg_cnt := hsts_invalid_msg_cnt stats + 1\<rparr>"

type_synonym http_delivery = "u32 \<times> http_app \<times> http_stats \<times> http_notif list"

definition http_client_recv_body :: "http_app \<Rightarrow> http_stats \<Rightarrow> chain \<Rightarrow> u32 \<Rightarrow> http_delivery option" where
  "http_client_recv_body app stats rx_data delivered =
     (case http_consume_body app rx_data delivered delivered of (done, delivered, app) \<Rightarrow>
        if done
        then map_option (\<lambda>(app, ns).
                 (delivered, app, stats\<lparr>hsts_resp_cnt := hsts_resp_cnt stats + 1\<rparr>, ns))
               (http_client_goto_send_req (app\<lparr>ha_resp_cnt := ha_resp_cnt app + 1\<rparr>))
        else Some (delivered, app, stats, []))"

definition http_client_deliver_data ::
  "(chain \<Rightarrow> u32) \<Rightarrow> http_app \<Rightarrow> http_stats \<Rightarrow> chain \<Rightarrow> http_delivery option" where
  "http_client_deliver_data addr app stats rx_data =
     (case ha_state app of
        HTTPS_CL_PARSE_RESP_HDR \<Rightarrow>
          do {
            (header_done, delivered, invalid, app, stats) \<leftarrow> http_parse_hdr addr app stats rx_data;
            if invalid then Some (0, app, http_invalid stats, [HTTP_CLOSE])
            else if \<not> header_done then Some (delivered, app, stats, [])
            else if ha_content_length app = HTTP_CONTENT_LENGTH_INVALID
            then Some (0, app, stats\<lparr>hsts_no_content_len_cnt := hsts_no_content_len_cnt stats + 1\<rparr>, [HTTP_CLOSE])
            else
              let app = http_goto_recv_body HTTPS_CL_RECV_RESP_BODY app
              in if ha_content_length app \<noteq> 0 \<and> delivered = mb_pkt_len (hd rx_data)
                 then Some (delivered, app, stats, [])
                 else http_client_recv_body app stats rx_data delivered
          }
      | HTTPS_CL_RECV_RESP_BODY \<Rightarrow> http_client_recv_body app stats rx_data 0
      | _ \<Rightarrow> Some (0, app, http_invalid stats, [HTTP_CLOSE]))"

definition http_server_recv_body :: "http_app \<Rightarrow> http_stats \<Rightarrow> chain \<Rightarrow> u32 \<Rightarrow> http_delivery option" where
  "http_server_recv_body app stats rx_data delivered =
     (case http_consume_body app rx_data delivered delivered of (done, delivered, app) \<Rightarrow>
        if done
        then map_option (\<lambda>(app, ns).
                 (delivered, app, stats\<lparr>hsts_req_cnt := hsts_req_cnt stats + 1\<rparr>, ns))
               (http_server_goto_send_resp (app\<lparr>ha_req_cnt := ha_req_cnt app + 1\<rparr>))
        else Some (delivered, app, stats, []))"

definition http_server_deliver_data ::
  "(chain \<Rightarrow> u32) \<Rightarrow> http_app \<Rightarrow> http_stats \<Rightarrow> chain \<Rightarrow> http_delivery option" where
  "http_server_deliver_data addr app stats rx_data =
     (case ha_state app of
        HTTPS_SRV_PARSE_REQ_HDR \<Rightarrow>
          do {
            (header_done, delivered, invalid, app, stats) \<leftarrow> http_parse_hdr addr app stats rx_data;
            if invalid then Some (0, app, http_invalid stats, [HTTP_CLOSE])
            else if \<not> header_done then Some (delivered, app, stats, [])
            else if ha_content_length app = HTTP_CONTENT_LENGTH_INVALID
            then map_option (\<lambda>(app, ns). (delivered, app,
                     stats\<lparr>hsts_no_content_len_cnt := hsts_no_content_len_cnt stats + 1\<rparr>, ns))
                   (http_server_goto_send_resp (app\<lparr>ha_content_length := 0\<rparr>))
            else
              let app = http_goto_recv_body HTTPS_SRV_RECV_REQ_BODY app
              in if ha_content_length app \<noteq> 0 \<and> delivered = mb_pkt_len (hd rx_data)
                 then Some (delivered, app, stats, [])
                 else http_server_recv_body app stats rx_data delivered
          }
      | HTTPS_SRV_RECV_REQ_BODY \<Rightarrow> http_server_recv_body app stats rx_data 0
      | _ \<Rightarrow> Some (0, app, http_invalid stats, [HTTP_CLOSE]))"

text \<open>What is sent next, and what was sent. A send pointer that was not written cannot be read.\<close>

definition http_send_data ::
  "http_state \<Rightarrow> http_app \<Rightarrow> http_stats \<Rightarrow> u32 \<Rightarrow> bool list
     \<Rightarrow> (chain \<times> http_stats \<times> http_notif list \<times> bool list) option" where
  "http_send_data sending app stats max_tx_size bs =
     (if ha_state app = sending
      then case ha_ptr app of
          HaSend send \<Rightarrow>
            map_option (\<lambda>(c, bs). (c, stats, [], bs))
              (data_chain_from_static_chain (asp_mbuf_chain send) (asp_data_offset send)
                 (min (asp_data_len send) max_tx_size) bs)
        | HaRecv _ \<Rightarrow> None
      else Some ([], http_invalid stats, [HTTP_CLOSE], bs))"

definition http_client_send_data ::
  "http_app \<Rightarrow> http_stats \<Rightarrow> u32 \<Rightarrow> bool list \<Rightarrow> (chain \<times> http_stats \<times> http_notif list \<times> bool list) option" where
  "http_client_send_data = http_send_data HTTPS_CL_SEND_REQ"

definition http_server_send_data ::
  "http_app \<Rightarrow> http_stats \<Rightarrow> u32 \<Rightarrow> bool list \<Rightarrow> (chain \<times> http_stats \<times> http_notif list \<times> bool list) option" where
  "http_server_send_data = http_send_data HTTPS_SRV_SEND_RESP"

definition http_sent :: "http_app \<Rightarrow> u32 \<Rightarrow> http_app option" where
  "http_sent app bytes_sent =
     (case ha_ptr app of
        HaSend send \<Rightarrow>
          map_option (\<lambda>send. app\<lparr>ha_ptr := HaSend send, ha_content_length := ha_content_length app - bytes_sent\<rparr>)
            (app_send_ptr_advance send bytes_sent)
      | HaRecv _ \<Rightarrow> None)"

definition http_client_data_sent ::
  "http_app \<Rightarrow> http_stats \<Rightarrow> u32 \<Rightarrow> (bool \<times> http_app \<times> http_stats \<times> http_notif list) option" where
  "http_client_data_sent app stats bytes_sent =
     (if ha_state app = HTTPS_CL_SEND_REQ
      then do {
        app \<leftarrow> http_sent app bytes_sent;
        if ha_content_length app = 0
        then Some (True,
               http_goto_recv_headers HTTPS_CL_PARSE_RESP_HDR (app\<lparr>ha_req_cnt := ha_req_cnt app + 1\<rparr>),
               stats\<lparr>hsts_req_cnt := hsts_req_cnt stats + 1\<rparr>, [HTTP_SEND_STOP])
        else Some (False, app, stats, [])
      }
      else Some (True, app, http_invalid stats, [HTTP_CLOSE]))"

definition http_server_data_sent ::
  "http_app \<Rightarrow> http_stats \<Rightarrow> u32 \<Rightarrow> (bool \<times> http_app \<times> http_stats \<times> http_notif list) option" where
  "http_server_data_sent app stats bytes_sent =
     (if ha_state app = HTTPS_SRV_SEND_RESP
      then do {
        app \<leftarrow> http_sent app bytes_sent;
        if ha_content_length app = 0
        then Some (True,
               http_goto_recv_headers HTTPS_SRV_PARSE_REQ_HDR (app\<lparr>ha_resp_cnt := ha_resp_cnt app + 1\<rparr>),
               stats\<lparr>hsts_resp_cnt := hsts_resp_cnt stats + 1\<rparr>, [HTTP_SEND_STOP])
        else Some (False, app, stats, [])
      }
      else Some (True, app, http_invalid stats, [HTTP_CLOSE]))"

definition http_stats_init :: http_stats where
  "http_stats_init =
     \<lparr>hsts_req_cnt = 0, hsts_resp_cnt = 0, hsts_invalid_msg_cnt = 0, hsts_no_content_len_cnt = 0,
      hsts_transfer_enc_cnt = 0, hsts_no_req = 0, hsts_no_resp = 0\<rparr>"

definition http_stats_add :: "http_stats \<Rightarrow> http_stats \<Rightarrow> http_stats" where
  "http_stats_add stats elem =
     \<lparr>hsts_req_cnt = hsts_req_cnt stats + hsts_req_cnt elem,
      hsts_resp_cnt = hsts_resp_cnt stats + hsts_resp_cnt elem,
      hsts_invalid_msg_cnt = hsts_invalid_msg_cnt stats + hsts_invalid_msg_cnt elem,
      hsts_no_content_len_cnt = hsts_no_content_len_cnt stats + hsts_no_content_len_cnt elem,
      hsts_transfer_enc_cnt = hsts_transfer_enc_cnt stats + hsts_transfer_enc_cnt elem,
      hsts_no_req = hsts_no_req stats + hsts_no_req elem,
      hsts_no_resp = hsts_no_resp stats + hsts_no_resp elem\<rparr>"

end
