(* ===== verification/HttpParse.thy ===== *)
theory HttpParse
  imports HttpApp
begin

text \<open>
  Header parsing against a reference parser on the bytes. The walks over the buffers of a chain see only its
  bytes (\<open>http_consume_string_bytes\<close>, \<open>http_consume_ws_bytes\<close>, \<open>http_parse_digits_bytes\<close>, \<open>http_scan_bufs_bytes\<close>),
  a line has the effect of \<open>line_ref\<close>, a header the result of \<open>hdr_ref\<close>, and \<open>hdr_ref\<close> can stop at any point of
  its input and go on.
\<close>

subsection \<open>The bytes of a walk\<close>

definition walk_ok :: "chain \<Rightarrow> u32 \<Rightarrow> u32 \<Rightarrow> bool" where
  "walk_ok c off len \<longleftrightarrow> chain_ok c \<and> (c \<noteq> [] \<longrightarrow> unat off \<le> length (mb_data (hd c))) \<and>
     unat off + unat len \<le> length (chain_bytes c)"

definition walk_bytes :: "chain \<Rightarrow> u32 \<Rightarrow> u32 \<Rightarrow> u8 list" where
  "walk_bytes c off len = take (unat len) (drop (unat off) (chain_bytes c))"

lemma length_walk_bytes [simp]: "walk_ok c off len \<Longrightarrow> length (walk_bytes c off len) = unat len"
  by (auto simp: walk_ok_def walk_bytes_def min_def)

lemma walk_ok_Nil: "walk_ok [] off len \<longleftrightarrow> off = 0 \<and> len = 0"
  by (auto simp: walk_ok_def unat_eq_0)

text \<open>What a step of a walk takes from its first buffer, and what remains.\<close>

lemma walk_part_len:
  assumes "walk_ok (m # c) off len"
  shows "unat (data_len m - off) = length (mb_data m) - unat off" and "unat off \<le> length (mb_data m)"
proof -
  have "mbuf_ok m" "unat off \<le> length (mb_data m)"
    using assms by (auto simp: walk_ok_def chain_ok_def)
  then show "unat off \<le> length (mb_data m)" "unat (data_len m - off) = length (mb_data m) - unat off"
    by (simp_all add: unat_sub word_unat_le)
qed

lemma walk_bytes_Cons:
  assumes "walk_ok (m # c) off len"
  shows "walk_bytes (m # c) off len =
           take (unat len) (drop (unat off) (mb_data m)) @
           take (unat len - (length (mb_data m) - unat off)) (chain_bytes c)"
  using assms by (simp add: walk_bytes_def walk_ok_def)

lemma walk_step:
  assumes "walk_ok (m # c) off len" and "i \<le> length (mb_data m) - unat off" and "i \<le> unat len"
  shows "walk_ok (m # c) (off + of_nat i) (len - of_nat i)"
    and "walk_bytes (m # c) (off + of_nat i) (len - of_nat i) = drop i (walk_bytes (m # c) off len)"
    and "unat (len - of_nat i) = unat len - i"
proof -
  have i: "unat (of_nat i :: u32) = i"
    using assms(3) unat_u32_less [of len] by (simp add: unat_of_nat)
  show l: "unat (len - of_nat i) = unat len - i"
    using assms(3) i by (simp add: unat_sub word_unat_le)
  have b: "unat off + i \<le> length (mb_data m)" "length (chain_bytes (m # c)) < 4294967296"
    using assms walk_part_len [OF assms(1)] by (auto simp: walk_ok_def chain_ok_def)
  have o: "unat (off + of_nat i) = unat off + i"
    using b i by (simp add: word_le_plus_unat)
  show "walk_ok (m # c) (off + of_nat i) (len - of_nat i)"
    using assms b l o by (auto simp: walk_ok_def)
  show "walk_bytes (m # c) (off + of_nat i) (len - of_nat i) = drop i (walk_bytes (m # c) off len)"
    unfolding walk_bytes_def l o by (simp only: drop_take drop_drop add.commute)
qed

lemma walk_next:
  assumes "walk_ok (m # c) off len" and "unat off = length (mb_data m)"
  shows "walk_ok c 0 len" and "walk_bytes c 0 len = walk_bytes (m # c) off len"
  using assms by (auto simp: walk_ok_def walk_bytes_def chain_ok_def)

lemma take_eq_split:
  assumes "n \<le> length v" and "take n v = take n w"
  shows "take (length v) w = v \<longleftrightarrow> take (length v - n) (drop n w) = drop n v"
proof -
  have "take (length v) w = take n v @ take (length v - n) (drop n w)"
    using assms by (metis le_add_diff_inverse take_add)
  then show ?thesis
    by (metis append_take_drop_id same_append_eq)
qed

lemma take_neq:
  assumes "n \<le> length v" and "take n v \<noteq> take n w"
  shows "take (length v) w \<noteq> v"
proof
  assume "take (length v) w = v"
  then have "take n v = take n (take (length v) w)" by simp
  then show False using assms by (simp add: min_absorb1)
qed

lemma http_consume_string_bytes:
  assumes "walk_ok c off len" and "length val < 4294967296"
    and "http_consume_string val c off len = (ok, c', off', len')"
  shows "ok \<longleftrightarrow> take (length val) (walk_bytes c off len) = val"
    and "ok \<Longrightarrow> walk_ok c' off' len' \<and> walk_bytes c' off' len' = drop (length val) (walk_bytes c off len)"
proof -
  have "(ok \<longleftrightarrow> take (length val) (walk_bytes c off len) = val) \<and>
        (ok \<longrightarrow> walk_ok c' off' len' \<and> walk_bytes c' off' len' = drop (length val) (walk_bytes c off len))"
    using assms
  proof (induction val c off len rule: http_consume_string.induct)
    case (1 val off len)
    then show ?case by (auto simp: walk_bytes_def)
  next
    case (2 val m c off len)
    let ?part = "length (mb_data m) - unat off" and ?w = "walk_bytes (m # c) off len"
    let ?cmp = "min (of_nat (length val)) (min (data_len m - off) len) :: u32"
    let ?n = "unat ?cmp"
    have n: "?n = min (length val) (min ?part (unat len))"
      using walk_part_len [OF 2(2)] 2(3) by (simp add: min_def word_unat_le unat_of_nat)
    then have le: "?n \<le> ?part" "?n \<le> unat len" "?n \<le> length val" by simp_all
    have cmp: "?cmp = of_nat ?n" by simp
    have w: "?w = take (unat len) (drop (unat off) (mb_data m)) @ take (unat len - ?part) (chain_bytes c)"
      by (rule walk_bytes_Cons [OF 2(2)])
    have d: "take ?n (drop (unat off) (mb_data m)) = take ?n ?w"
      unfolding w using le by simp
    note st = walk_step [OF 2(2) le(1,2), folded cmp]
    show ?case
    proof (cases "take ?n val = take ?n ?w")
      case False
      then have "ok = False"
        using 2(4) unfolding http_consume_string.simps(2) Let_def d by simp
      moreover have "take (length val) ?w \<noteq> val"
        by (rule take_neq [OF le(3) False])
      ultimately show ?thesis by simp
    next
      case True
      have val: "take (length val) ?w = val \<longleftrightarrow> take (length (drop ?n val)) (drop ?n ?w) = drop ?n val"
        using take_eq_split [OF le(3) True] by simp
      show ?thesis
      proof (cases "drop ?n val = [] \<or> len - ?cmp = 0")
        case True': True
        have r: "ok = (drop ?n val = [])" "c' = m # c" "off' = off + ?cmp" "len' = len - ?cmp"
          using 2(4) True True' unfolding http_consume_string.simps(2) Let_def d by auto
        show ?thesis
        proof (cases "drop ?n val = []")
          case True
          then have "length val = ?n" using le(3) by simp
          then show ?thesis
            unfolding r val using st(1,2) True by simp
        next
          case False
          then have "drop ?n ?w = []"
            using True' st(3) length_walk_bytes [OF 2(2)] by simp
          then show ?thesis
            unfolding r val using False by simp
        qed
      next
        case False
        then have rec: "http_consume_string (drop ?n val) c 0 (len - ?cmp) = (ok, c', off', len')"
          using 2(4) True unfolding http_consume_string.simps(2) Let_def d by simp
        have "unat (len - ?cmp) \<noteq> 0" "\<not> length val \<le> ?n"
          using False by (auto simp: unat_eq_0)
        then have "?n = ?part"
          using n st(3) by linarith
        then have "unat (off + ?cmp) = length (mb_data m)"
          using walk_part_len [OF 2(2)] st(1) le(2) 2(2)
          by (simp add: word_le_plus_unat walk_ok_def chain_ok_def)
        note nx = walk_next [OF st(1) this]
        have "(ok \<longleftrightarrow> take (length (drop ?n val)) (walk_bytes c 0 (len - ?cmp)) = drop ?n val) \<and>
          (ok \<longrightarrow> walk_ok c' off' len' \<and>
             walk_bytes c' off' len' = drop (length (drop ?n val)) (walk_bytes c 0 (len - ?cmp)))"
          using 2(1) [OF refl refl refl _ refl refl refl False nx(1) _ rec] True 2(3) d by simp
        then show ?thesis
          unfolding nx(2) st(2) val using le(3) by simp
      qed
    qed
  qed
  then show "ok \<longleftrightarrow> take (length val) (walk_bytes c off len) = val"
    and "ok \<Longrightarrow> walk_ok c' off' len' \<and> walk_bytes c' off' len' = drop (length val) (walk_bytes c off len)"
    by blast+
qed

text \<open>A walk that goes on while the bytes are in a class.\<close>

lemma takeWhile_shorter: "length (takeWhile P xs) < length xs \<Longrightarrow> \<exists>x \<in> set xs. \<not> P x"
  by (metis less_irrefl takeWhile_eq_all_conv)

lemma takeWhile_append_stops:
  "length (takeWhile P xs) < length xs \<or> ys = [] \<Longrightarrow> takeWhile P (xs @ ys) = takeWhile P xs"
  using takeWhile_shorter [of P xs] by (metis append_Nil2 takeWhile_append1)

lemma while_append_goes_on:
  assumes "length (takeWhile P xs) = length xs"
  shows "takeWhile P (xs @ ys) = xs @ takeWhile P ys" and "dropWhile P (xs @ ys) = dropWhile P ys"
    and "takeWhile P xs = xs"
proof -
  show eq: "takeWhile P xs = xs"
    using assms by (metis takeWhile_eq_take take_all order_refl)
  then have "\<forall>x \<in> set xs. P x" by (metis takeWhile_eq_all_conv)
  then show "takeWhile P (xs @ ys) = xs @ takeWhile P ys" "dropWhile P (xs @ ys) = dropWhile P ys"
    by (simp_all add: takeWhile_append dropWhile_append)
qed

lemma walk_while:
  assumes w: "walk_ok (m # c) off len"
    and pre: "pre = takeWhile P (take (unat len) (drop (unat off) (mb_data m)))"
    and i: "i = of_nat (length pre)"
  shows "i < data_len m - off \<or> len - i = 0 \<Longrightarrow>
           walk_ok (m # c) (off + i) (len - i) \<and>
           walk_bytes (m # c) (off + i) (len - i) = dropWhile P (walk_bytes (m # c) off len) \<and>
           takeWhile P (walk_bytes (m # c) off len) = pre"
    and "\<not> (i < data_len m - off \<or> len - i = 0) \<Longrightarrow>
           walk_ok c 0 (len - i) \<and>
           dropWhile P (walk_bytes (m # c) off len) = dropWhile P (walk_bytes c 0 (len - i)) \<and>
           takeWhile P (walk_bytes (m # c) off len) = pre @ takeWhile P (walk_bytes c 0 (len - i))"
proof -
  let ?A = "take (unat len) (drop (unat off) (mb_data m))"
  let ?part = "length (mb_data m) - unat off"
  let ?B = "take (unat len - ?part) (chain_bytes c)"
  let ?w = "walk_bytes (m # c) off len"
  have wb: "?w = ?A @ ?B" by (rule walk_bytes_Cons [OF w])
  have lA: "length ?A = min (unat len) ?part" by simp
  have le: "length pre \<le> length ?A" unfolding pre by (rule length_takeWhile_le)
  then have le1: "length pre \<le> ?part" "length pre \<le> unat len" by (auto simp: lA)
  note st = walk_step [OF w le1, folded i]
  have iu: "unat i = length pre"
    using le1(2) unat_u32_less [of len] by (simp add: i unat_of_nat)
  have un: "i < data_len m - off \<longleftrightarrow> length pre < ?part" "len - i = 0 \<longleftrightarrow> unat len = length pre"
    using walk_part_len [OF w] le1(2) st(3) iu by (auto simp: word_unat_less unat_eq_0 [symmetric])
  have drop: "dropWhile P xs = drop (length (takeWhile P xs)) xs" for xs :: "u8 list"
    by (simp add: dropWhile_eq_drop)
  show "walk_ok (m # c) (off + i) (len - i) \<and> walk_bytes (m # c) (off + i) (len - i) = dropWhile P ?w \<and>
        takeWhile P ?w = pre"
    if "i < data_len m - off \<or> len - i = 0"
  proof -
    have "length pre < length ?A \<or> ?B = []"
      using that un le lA le1 by (auto simp: min_def)
    then have "takeWhile P ?w = pre"
      unfolding wb pre by (rule takeWhile_append_stops)
    then show ?thesis using st drop [of ?w] by simp
  qed
  show "walk_ok c 0 (len - i) \<and> dropWhile P ?w = dropWhile P (walk_bytes c 0 (len - i)) \<and>
        takeWhile P ?w = pre @ takeWhile P (walk_bytes c 0 (len - i))"
    if ni: "\<not> (i < data_len m - off \<or> len - i = 0)"
  proof -
    have p: "length pre = ?part" "length pre = length ?A"
      using ni un le1 lA by auto
    have "unat (off + i) = length (mb_data m)"
      using p iu walk_part_len [OF w] w by (simp add: word_le_plus_unat walk_ok_def chain_ok_def)
    note nx = walk_next [OF st(1) this]
    have eq: "length (takeWhile P ?A) = length ?A" using p(2) by (simp only: pre)
    note g = while_append_goes_on [OF eq]
    have preA: "pre = ?A" unfolding pre by (rule g(3))
    have "walk_bytes c 0 (len - i) = drop (length ?A) ?w"
      using nx(2) st(2) p(2) by (simp only:)
    then have B: "?B = walk_bytes c 0 (len - i)"
      unfolding wb by simp
    show ?thesis
      unfolding wb B preA using nx(1) g(1,2) by blast
  qed
qed

lemma http_consume_ws_bytes:
  assumes "walk_ok c off len" and "http_consume_ws c off len = (ok, c', off', len')"
  shows "walk_ok c' off' len' \<and> walk_bytes c' off' len' = dropWhile isblank (walk_bytes c off len) \<and>
         (ok \<longleftrightarrow> len' \<noteq> 0)"
  using assms
proof (induction c off len rule: http_consume_ws.induct)
  case (1 off len)
  then show ?case by (auto simp: walk_bytes_def)
next
  case (2 m c off len)
  note ww = walk_while [OF 2(2) refl refl, where P = isblank]
  show ?case
  proof (cases "of_nat (length (takeWhile isblank (take (unat len) (drop (unat off) (mb_data m))))) < data_len m - off
      \<or> len - of_nat (length (takeWhile isblank (take (unat len) (drop (unat off) (mb_data m))))) = 0")
    case True
    then show ?thesis using ww(1) [OF True] 2(3) by (auto simp: Let_def)
  next
    case False
    note g = ww(2) [OF False]
    show ?thesis
      using 2(1) [OF refl refl refl refl False _ _] g 2(3) False by (auto simp: Let_def)
  qed
qed

lemma http_digits_value_append:
  "http_digits_value r (a @ b) = http_digits_value (http_digits_value r a) b"
  by (simp add: http_digits_value_def)

lemma http_parse_digits_bytes:
  assumes "walk_ok c off len" and "http_parse_digits r c off len = (ok, c', off', len', r')"
  shows "walk_ok c' off' len' \<and> walk_bytes c' off' len' = dropWhile isdigit (walk_bytes c off len) \<and>
         (ok \<longleftrightarrow> len' \<noteq> 0) \<and> r' = http_digits_value r (takeWhile isdigit (walk_bytes c off len))"
  using assms
proof (induction r c off len rule: http_parse_digits.induct)
  case (1 r off len)
  then show ?case by (auto simp: walk_bytes_def http_digits_value_def)
next
  case (2 r m c off len)
  note ww = walk_while [OF 2(2) refl refl, where P = isdigit]
  show ?case
  proof (cases "of_nat (length (takeWhile isdigit (take (unat len) (drop (unat off) (mb_data m))))) < data_len m - off
      \<or> len - of_nat (length (takeWhile isdigit (take (unat len) (drop (unat off) (mb_data m))))) = 0")
    case True
    then show ?thesis using ww(1) [OF True] 2(3) by (auto simp: Let_def)
  next
    case False
    note g = ww(2) [OF False]
    show ?thesis
      using 2(1) [OF refl refl refl refl refl refl False _ _] g 2(3) False
      by (auto simp: Let_def http_digits_value_append)
  qed
qed

subsection \<open>The effect of a line\<close>

text \<open>A line of a header: whether it makes the header invalid, and the content length after it.\<close>

definition line_ref :: "u32 \<Rightarrow> u8 list \<Rightarrow> bool \<times> u32" where
  "line_ref cl line =
     (if take (length HTTP_CONTENT_LEN_STR) line = HTTP_CONTENT_LEN_STR
      then
        let v = dropWhile isblank (drop (length HTTP_CONTENT_LEN_STR) line)
        in (False, if length (dropWhile isdigit v) = 2 then http_digits_value 0 (takeWhile isdigit v) else cl)
      else (take (length HTTP_TRANSFER_ENC_STR) line = HTTP_TRANSFER_ENC_STR \<and>
            dropWhile isblank (drop (length HTTP_TRANSFER_ENC_STR) line) \<noteq> [], cl))"

lemma http_strs [simp]: "length HTTP_CONTENT_LEN_STR = 15" "length HTTP_TRANSFER_ENC_STR = 18"
  by (simp_all add: HTTP_CONTENT_LEN_STR_def HTTP_TRANSFER_ENC_STR_def ascii_def)

lemma http_strs_differ: "take 15 line = HTTP_CONTENT_LEN_STR \<Longrightarrow> take 18 line \<noteq> HTTP_TRANSFER_ENC_STR"
proof
  assume "take 15 line = HTTP_CONTENT_LEN_STR" and "take 18 line = HTTP_TRANSFER_ENC_STR"
  then have "hd HTTP_CONTENT_LEN_STR = hd HTTP_TRANSFER_ENC_STR"
    by (metis hd_take zero_less_numeral)
  then show False
    by (simp add: HTTP_CONTENT_LEN_STR_def HTTP_TRANSFER_ENC_STR_def ascii_def)
qed

lemma walk_bytes_empty: "walk_ok c off len \<Longrightarrow> walk_bytes c off len = [] \<longleftrightarrow> len = 0"
  using length_walk_bytes [of c off len] by (metis length_0_conv unat_eq_0)

lemma http_parse_content_length_bytes:
  assumes "walk_ok c off len"
  shows "\<exists>ok. http_parse_content_length app c off len =
            (ok, if take 15 (walk_bytes c off len) = HTTP_CONTENT_LEN_STR
                 then app\<lparr>ha_content_length := snd (line_ref (ha_content_length app) (walk_bytes c off len))\<rparr> else app) \<and>
          (ok \<longrightarrow> take 15 (walk_bytes c off len) = HTTP_CONTENT_LEN_STR)"
proof -
  let ?w = "walk_bytes c off len"
  obtain ok1 c1 off1 len1 where s1: "http_consume_string HTTP_CONTENT_LEN_STR c off len = (ok1, c1, off1, len1)"
    by (metis prod_cases4)
  have b1: "ok1 \<longleftrightarrow> take 15 ?w = HTTP_CONTENT_LEN_STR"
    and w1: "ok1 \<Longrightarrow> walk_ok c1 off1 len1 \<and> walk_bytes c1 off1 len1 = drop 15 ?w"
    using http_consume_string_bytes [OF assms _ s1] by simp_all
  obtain ok2 c2 off2 len2 where s2: "http_consume_ws c1 off1 len1 = (ok2, c2, off2, len2)"
    by (metis prod_cases4)
  obtain ok3 c3 off3 len3 r where s3: "http_parse_digits 0 c2 off2 len2 = (ok3, c3, off3, len3, r)"
    by (metis prod_cases5)
  show ?thesis
  proof (cases ok1)
    case False
    then show ?thesis
      using b1 s1 by (auto simp: http_parse_content_length_def)
  next
    case True
    have x2: "walk_ok c2 off2 len2" "walk_bytes c2 off2 len2 = dropWhile isblank (drop 15 ?w)" "ok2 \<longleftrightarrow> len2 \<noteq> 0"
      using http_consume_ws_bytes [OF _ s2] w1 [OF True] by simp_all
    have x3: "walk_ok c3 off3 len3" "walk_bytes c3 off3 len3 = dropWhile isdigit (walk_bytes c2 off2 len2)"
      "ok3 \<longleftrightarrow> len3 \<noteq> 0" "r = http_digits_value 0 (takeWhile isdigit (walk_bytes c2 off2 len2))"
      using http_parse_digits_bytes [OF x2(1) s3] by simp_all
    have l3: "length (dropWhile isdigit (dropWhile isblank (drop 15 ?w))) = unat len3"
      using length_walk_bytes [OF x3(1)] x3(2) x2(2) by simp
    have z: "len2 = 0 \<Longrightarrow> len3 = 0"
      using walk_bytes_empty [OF x2(1)] walk_bytes_empty [OF x3(1)] x3(2) by simp
    moreover have "unat len3 = 2 \<longleftrightarrow> len3 = 2"
      by (simp add: word_unat_eq_iff)
    ultimately show ?thesis
      using True b1 s1 s2 s3 x2 x3 l3
      by (auto simp: http_parse_content_length_def http_parse_uint32_def line_ref_def Let_def)
  qed
qed

lemma http_parse_transfer_enc_bytes:
  assumes "walk_ok c off len"
  shows "http_parse_transfer_enc c off len \<longleftrightarrow>
           take 18 (walk_bytes c off len) = HTTP_TRANSFER_ENC_STR \<and>
           dropWhile isblank (drop 18 (walk_bytes c off len)) \<noteq> []"
proof -
  let ?w = "walk_bytes c off len"
  obtain ok1 c1 off1 len1 where s1: "http_consume_string HTTP_TRANSFER_ENC_STR c off len = (ok1, c1, off1, len1)"
    by (metis prod_cases4)
  have b1: "ok1 \<longleftrightarrow> take 18 ?w = HTTP_TRANSFER_ENC_STR"
    and w1: "ok1 \<Longrightarrow> walk_ok c1 off1 len1 \<and> walk_bytes c1 off1 len1 = drop 18 ?w"
    using http_consume_string_bytes [OF assms _ s1] by simp_all
  obtain ok2 c2 off2 len2 where s2: "http_consume_ws c1 off1 len1 = (ok2, c2, off2, len2)"
    by (metis prod_cases4)
  show ?thesis
  proof (cases ok1)
    case False
    then show ?thesis using b1 s1 by (simp add: http_parse_transfer_enc_def)
  next
    case True
    have x2: "walk_ok c2 off2 len2" "walk_bytes c2 off2 len2 = dropWhile isblank (drop 18 ?w)" "ok2 \<longleftrightarrow> len2 \<noteq> 0"
      using http_consume_ws_bytes [OF _ s2] w1 [OF True] by simp_all
    then have "ok2 \<longleftrightarrow> dropWhile isblank (drop 18 ?w) \<noteq> []"
      using walk_bytes_empty [OF x2(1)] by (simp only: simp_thms)
    then show ?thesis using True b1 s1 s2 by (simp only: http_parse_transfer_enc_def prod.case fst_conv simp_thms)
  qed
qed

subsection \<open>The end of a line\<close>

text \<open>The length of the first line, when it is complete, after a byte \<open>last_char\<close>.\<close>

fun line_end :: "u8 \<Rightarrow> u8 list \<Rightarrow> nat option" where
  "line_end last_char [] = None"
| "line_end last_char (x # xs) =
     (if x = 10 \<and> last_char = 13 then Some 1 else map_option Suc (line_end x xs))"

definition last_of :: "u8 \<Rightarrow> u8 list \<Rightarrow> u8" where
  "last_of c xs = (if xs = [] then c else last xs)"

text \<open>How far a scan of an incomplete line got: a carriage return is looked at again.\<close>

definition scanned :: "u8 list \<Rightarrow> nat" where
  "scanned xs = (if last_of 0 xs = 13 then length xs - 1 else length xs)"

lemma last_of_simps [simp]: "last_of c [] = c" "last_of c (xs @ [x]) = x"
  by (simp_all add: last_of_def)

lemma last_of_Cons [simp]: "last_of c (x # xs) = last_of x xs"
  by (simp add: last_of_def)

lemma last_of_append: "last_of c (xs @ ys) = last_of (last_of c xs) ys"
  by (simp add: last_of_def)

lemma line_end_bounds: "line_end c xs = Some n \<Longrightarrow> 0 < n \<and> n \<le> length xs"
  by (induction c xs arbitrary: n rule: line_end.induct) (auto split: if_splits)

lemma line_end_append:
  "line_end c (xs @ ys) =
     (case line_end c xs of
        Some n \<Rightarrow> Some n
      | None \<Rightarrow> map_option (\<lambda>n. length xs + n) (line_end (last_of c xs) ys))"
  by (induction c xs rule: line_end.induct) (auto simp: map_option_case split: option.splits)

lemma line_end_other: "c \<noteq> 13 \<Longrightarrow> line_end c xs = line_end 0 xs"
  by (cases xs) auto

lemma line_end_resume:
  assumes "line_end 0 xs = None"
  shows "line_end 0 (xs @ ys) = map_option (\<lambda>n. scanned xs + n) (line_end 0 (drop (scanned xs) xs @ ys))"
proof (cases "last_of 0 xs = 13")
  case True
  then have ne: "xs \<noteq> []" by (auto simp: last_of_def)
  define b where "b = butlast xs"
  have xs: "xs = b @ [13]"
    using True ne unfolding b_def by (metis append_butlast_last_id last_of_def)
  have "line_end 0 b = None"
    using assms xs by (auto simp: line_end_append split: option.splits)
  moreover have "line_end (last_of 0 b) (13 # ys) = line_end 0 (13 # ys)" by simp
  ultimately show ?thesis
    using True by (simp add: xs scanned_def line_end_append)
next
  case False
  then show ?thesis
    using assms line_end_other [OF False, of ys] by (simp add: scanned_def line_end_append)
qed

lemma scanned_le: "scanned xs \<le> length xs"
  by (simp add: scanned_def)

lemma http_scan_buf_line_end:
  "http_scan_buf xs i c = (case line_end c xs of Some n \<Rightarrow> Inl (i + n - 1) | None \<Rightarrow> Inr (last_of c xs))"
proof (induction xs arbitrary: i c)
  case (Cons x xs)
  show ?case
    using Cons [of "Suc i" x] line_end_bounds [of x xs] by (auto split: option.splits)
qed simp

lemma http_scan_bufs_bytes:
  assumes "chain_ok c" and "c \<noteq> [] \<longrightarrow> unat off \<le> length (mb_data (hd c))" and "c = [] \<longrightarrow> off = 0"
  shows "http_scan_bufs c off l n =
           (case line_end l (drop (unat off) (chain_bytes c)) of
              Some k \<Rightarrow> (n + of_nat k, 0)
            | None \<Rightarrow> (0, let e = n + of_nat (length (drop (unat off) (chain_bytes c)))
                          in if last_of l (drop (unat off) (chain_bytes c)) = 13 then e - 1 else e))"
  using assms
proof (induction c off l n rule: http_scan_bufs.induct)
  case (1 off l n)
  then show ?case by simp
next
  case (2 m c off l n)
  let ?d = "drop (unat off) (mb_data m)"
  have m: "mbuf_ok m" "chain_ok c" "unat off \<le> length (mb_data m)"
    using 2(2,3) chain_ok_ConsD by auto
  have len: "data_len m - off = of_nat (length ?d)"
    using m(1,3) by (simp add: data_len_def of_nat_diff)
  have d: "drop (unat off) (chain_bytes (m # c)) = ?d @ chain_bytes c"
    using m(3) by simp
  show ?case
  proof (cases "line_end l ?d")
    case (Some k)
    then have "0 < k" using line_end_bounds by blast
    then have "of_nat (k - 1) + 1 = (of_nat k :: u32)"
      by (metis One_nat_def Suc_pred add.commute of_nat_Suc)
    then show ?thesis
      using Some \<open>0 < k\<close> unfolding d by (simp add: http_scan_buf_line_end line_end_append add.assoc)
  next
    case None
    have "http_scan_buf ?d 0 l = Inr (last_of l ?d)"
      using None by (simp add: http_scan_buf_line_end)
    from 2(1) [OF this m(2)] None this show ?thesis
      unfolding d by (simp add: line_end_append last_of_append len add.assoc Let_def split: option.splits)
  qed
qed

text \<open>Where the bytes of an offset are.\<close>

lemma data_offset_walk_bytes:
  assumes "chain_ok c" and "unat off < length (chain_bytes c)"
  shows "\<exists>c' off'. data_offset_walk c off = Some (c', off') \<and> chain_ok c' \<and> c' \<noteq> [] \<and>
           unat off' \<le> length (mb_data (hd c')) \<and>
           drop (unat off') (chain_bytes c') = drop (unat off) (chain_bytes c)"
  using assms
proof (induction c off rule: data_offset_walk.induct)
  case (1 off)
  then show ?case by simp
next
  case (2 m c off)
  have m: "mbuf_ok m" "chain_ok c" using 2(2) chain_ok_ConsD by auto
  show ?case
  proof (cases "data_len m \<le> off")
    case True
    then have u: "unat (off - data_len m) = unat off - length (mb_data m)" "length (mb_data m) \<le> unat off"
      using m(1) by (simp_all add: unat_sub word_unat_le)
    then have "unat (off - data_len m) < length (chain_bytes c)" using 2(3) by simp
    from 2(1) [OF True m(2) this] show ?thesis using True u by simp
  next
    case False
    then show ?thesis using 2(2) m(1) by (simp add: word_unat_le)
  qed
qed

lemma app_data_get_from_offset_bytes:
  assumes "pkt_wf data"
  shows "\<exists>c off'. app_data_get_from_offset data off = Some (c, off') \<and> chain_ok c \<and>
           (c \<noteq> [] \<longrightarrow> unat off' \<le> length (mb_data (hd c))) \<and> (c = [] \<longrightarrow> off' = 0) \<and>
           drop (unat off') (chain_bytes c) = drop (unat off) (chain_bytes data)"
proof -
  obtain m r where data: "data = m # r" using assms by (cases data) (auto simp: pkt_wf_def)
  have ok: "chain_ok data" using assms by (simp add: pkt_wf_def)
  have len: "unat (mb_pkt_len m) = length (chain_bytes data)"
    using assms chain_ok_len [OF ok] by (simp only: pkt_wf_def data list.sel)
  show ?thesis
  proof (cases "mb_pkt_len m \<le> off")
    case True
    then have "length (chain_bytes data) \<le> unat off" using len by (simp add: word_unat_le)
    then show ?thesis using True by (simp add: data app_data_get_from_offset_def)
  next
    case False
    then have "unat off < length (chain_bytes data)" using len by (simp add: word_unat_le)
    from data_offset_walk_bytes [OF ok this] show ?thesis
      using False by (fastforce simp: data app_data_get_from_offset_def)
  qed
qed

subsection \<open>Headers\<close>

datatype hdr_end = HdrIncomplete | HdrDone | HdrInvalid

text \<open>How the header in some bytes ends, how many bytes its complete lines have, and the content length.\<close>

function hdr_ref :: "u32 \<Rightarrow> u8 list \<Rightarrow> hdr_end \<times> nat \<times> u32" where
  "hdr_ref cl bs =
     (case line_end 0 bs of
        None \<Rightarrow> (HdrIncomplete, 0, cl)
      | Some n \<Rightarrow>
          if n = 2 then (HdrDone, 2, cl)
          else case line_ref cl (take n bs) of (bad, cl) \<Rightarrow>
            if bad then (HdrInvalid, n, cl)
            else case hdr_ref cl (drop n bs) of (e, k, cl) \<Rightarrow> (e, n + k, cl))"
  by pat_completeness auto
termination
  by (relation "measure (\<lambda>(cl, bs). length bs)") (auto dest: line_end_bounds)

declare hdr_ref.simps [simp del]

lemma hdr_ref_bounds: "hdr_ref cl bs = (e, k, cl') \<Longrightarrow> k \<le> length bs"
proof (induction cl bs arbitrary: e k cl' rule: hdr_ref.induct)
  case (1 cl bs)
  show ?case
  proof (cases "line_end 0 bs")
    case None
    then show ?thesis using 1(2) by (simp add: hdr_ref.simps [of cl bs])
  next
    case (Some n)
    obtain bad cl1 where l: "line_ref cl (take n bs) = (bad, cl1)" by fastforce
    obtain e1 k1 cl2 where r: "hdr_ref cl1 (drop n bs) = (e1, k1, cl2)" by (metis prod_cases3)
    show ?thesis
      using 1(1) [OF Some _ l [symmetric] _ r] 1(2) Some l r line_end_bounds [OF Some]
      by (auto simp: hdr_ref.simps [of cl bs] split: if_splits)
  qed
qed

lemma hdr_ref_append:
  "hdr_ref cl (bs @ xs) =
     (case hdr_ref cl bs of (e, k, cl') \<Rightarrow>
        if e = HdrIncomplete then case hdr_ref cl' (drop k bs @ xs) of (e, k', cl') \<Rightarrow> (e, k + k', cl')
        else (e, k, cl'))"
proof (induction cl bs rule: hdr_ref.induct)
  case (1 cl bs)
  show ?case
  proof (cases "line_end 0 bs")
    case None
    then show ?thesis by (simp add: hdr_ref.simps [of cl bs])
  next
    case (Some n)
    have n: "n \<le> length bs" using line_end_bounds [OF Some] by simp
    have a: "line_end 0 (bs @ xs) = Some n" using Some by (simp add: line_end_append)
    obtain bad cl1 where l: "line_ref cl (take n bs) = (bad, cl1)" by fastforce
    obtain e1 k1 cl2 where r: "hdr_ref cl1 (drop n bs) = (e1, k1, cl2)" by (metis prod_cases3)
    show ?thesis
    proof (cases "n = 2 \<or> bad")
      case True
      then show ?thesis
        using n l by (auto simp: hdr_ref.simps [of cl bs] hdr_ref.simps [of cl "bs @ xs"] Some a)
    next
      case False
      have "hdr_ref cl1 (drop n bs @ xs) =
          (if e1 = HdrIncomplete then case hdr_ref cl2 (drop k1 (drop n bs) @ xs) of (e, k', cl') \<Rightarrow> (e, k1 + k', cl')
           else (e1, k1, cl2))"
        using 1 [OF Some _ l [symmetric]] False r by simp
      then show ?thesis
        using n l r False
        by (auto simp: hdr_ref.simps [of cl bs] hdr_ref.simps [of cl "bs @ xs"] Some a add.commute add.left_commute
            split: prod.splits)
    qed
  qed
qed

text \<open>
  Where a scan may resume in the bytes that are pending: it looked at a beginning of them in which no
  line ends.
\<close>

definition scan_at :: "u32 \<Rightarrow> u8 list \<Rightarrow> bool" where
  "scan_at off bs \<longleftrightarrow> (\<exists>p xs. bs = p @ xs \<and> line_end 0 p = None \<and> unat off = scanned p)"

lemma scan_at_0 [simp]: "scan_at 0 bs"
  unfolding scan_at_def by (rule exI [of _ "[]"]) (simp add: scanned_def)

lemma scan_at_append: "scan_at off bs \<Longrightarrow> scan_at off (bs @ xs)"
  unfolding scan_at_def by (metis append.assoc)

lemma scan_at_scanned:
  assumes "line_end 0 bs = None" and "length bs < 4294967296"
  shows "scan_at (of_nat (scanned bs)) bs"
  using assms scanned_le [of bs] unfolding scan_at_def
  by (intro exI [of _ bs] exI [of _ "[]"]) (simp add: unat_of_nat)

lemma last_of_resume:
  assumes "bs = p @ xs"
  shows "scanned p + length (drop (scanned p) bs) = length bs"
    and "last_of 0 (drop (scanned p) bs) = 13 \<longleftrightarrow> last_of 0 bs = 13"
proof -
  show "scanned p + length (drop (scanned p) bs) = length bs"
    using assms scanned_le [of p] by simp
  show "last_of 0 (drop (scanned p) bs) = 13 \<longleftrightarrow> last_of 0 bs = 13"
  proof (cases "drop (scanned p) bs = []")
    case True
    then have "scanned p = length p" "xs = []"
      using assms scanned_le [of p] by auto
    then have "last_of 0 p \<noteq> 13"
      by (cases p) (auto simp: scanned_def last_of_def split: if_splits)
    then show ?thesis using True assms \<open>xs = []\<close> by simp
  next
    case False
    then show ?thesis by (auto simp: last_of_def)
  qed
qed

lemma http_scan_line_bytes:
  assumes "pkt_wf data" and "unat off \<le> length (chain_bytes data)"
    and "scan_at (APP_RECV_SCAN_OFFSET addr app) (drop (unat off) (chain_bytes data))"
  shows "http_scan_line addr app data off =
           (case line_end 0 (drop (unat off) (chain_bytes data)) of
              Some n \<Rightarrow> Some (of_nat n, app\<lparr>ha_ptr := HaRecv 0\<rparr>)
            | None \<Rightarrow> Some (0, app\<lparr>ha_ptr := HaRecv (of_nat (scanned (drop (unat off) (chain_bytes data))))\<rparr>))"
proof -
  let ?bs = "drop (unat off) (chain_bytes data)" and ?so = "APP_RECV_SCAN_OFFSET addr app"
  obtain p xs where p: "?bs = p @ xs" "line_end 0 p = None" "unat ?so = scanned p"
    using assms(3) unfolding scan_at_def by blast
  have so: "unat ?so \<le> length ?bs" using p scanned_le [of p] by simp
  have lt: "length (chain_bytes data) < 4294967296" using assms(1) by (simp add: pkt_wf_def chain_ok_def)
  have "unat (off + ?so) = unat off + unat ?so"
    using so assms(2) lt by (simp add: word_le_plus_unat)
  then have dr: "drop (unat (off + ?so)) (chain_bytes data) = drop (scanned p) ?bs"
    by (simp add: p(3) add.commute)
  obtain c off' where g: "app_data_get_from_offset data (off + ?so) = Some (c, off')" "chain_ok c"
    "c \<noteq> [] \<longrightarrow> unat off' \<le> length (mb_data (hd c))" "c = [] \<longrightarrow> off' = 0"
    "drop (unat off') (chain_bytes c) = drop (scanned p) ?bs"
    using app_data_get_from_offset_bytes [OF assms(1), of "off + ?so"] dr by (auto simp del: drop_drop)
  note sc = http_scan_bufs_bytes [OF g(2-4), of 0 ?so, unfolded g(5)]
  have le: "line_end 0 ?bs = map_option (\<lambda>n. scanned p + n) (line_end 0 (drop (scanned p) ?bs))"
    using line_end_resume [OF p(2), of xs] p(1) scanned_le [of p] by simp
  have sow: "?so = of_nat (scanned p)" by (simp add: p(3) [symmetric])
  show ?thesis
  proof (cases "line_end 0 (drop (scanned p) ?bs)")
    case (Some n)
    then have "line_end 0 ?bs = Some (scanned p + n)" using le by simp
    then show ?thesis
      using Some sc g(1) by (simp add: http_scan_line_def sow del: drop_drop)
  next
    case None
    then have n: "line_end 0 ?bs = None" using le by simp
    have e: "?so + of_nat (length (drop (scanned p) ?bs)) = of_nat (length ?bs)"
      unfolding sow of_nat_add [symmetric] last_of_resume(1) [OF p(1)] ..
    have "snd (http_scan_bufs c off' 0 ?so) = of_nat (scanned ?bs)"
    proof (cases "last_of 0 ?bs = 13")
      case True
      have "?bs \<noteq> []"
      proof
        assume "?bs = []"
        then show False using True by (simp only: last_of_simps) simp
      qed
      then have "0 < length ?bs" by (simp only: length_greater_0_conv simp_thms)
      then have "of_nat (length ?bs) - 1 = (of_nat (length ?bs - 1) :: u32)"
        by (simp add: of_nat_diff)
      then show ?thesis
        using True None sc e last_of_resume(2) [OF p(1)] by (simp add: scanned_def Let_def del: drop_drop length_drop)
    next
      case False
      then show ?thesis
        using None sc e last_of_resume(2) [OF p(1)] by (simp add: scanned_def Let_def del: drop_drop length_drop)
    qed
    moreover have "fst (http_scan_bufs c off' 0 ?so) = 0"
      using None sc by (simp del: drop_drop)
    ultimately have "http_scan_bufs c off' 0 ?so = (0, of_nat (scanned ?bs))"
      by (metis prod.collapse)
    then show ?thesis
      using g(1) n by (simp add: http_scan_line_def del: drop_drop)
  qed
qed

lemma http_parse_hdr_line_bytes:
  assumes "pkt_wf data" and "n \<le> length (drop (unat off) (chain_bytes data))"
  shows "http_parse_hdr_line app stats data off (of_nat n) False =
           (case line_ref (ha_content_length app) (take n (drop (unat off) (chain_bytes data))) of (bad, cl) \<Rightarrow>
              Some (app\<lparr>ha_content_length := cl\<rparr>,
                    if bad then stats\<lparr>hsts_transfer_enc_cnt := hsts_transfer_enc_cnt stats + 1\<rparr> else stats, bad))"
proof -
  let ?bs = "drop (unat off) (chain_bytes data)"
  obtain c off' where g: "app_data_get_from_offset data off = Some (c, off')" "chain_ok c"
    "c \<noteq> [] \<longrightarrow> unat off' \<le> length (mb_data (hd c))" "c = [] \<longrightarrow> off' = 0"
    "drop (unat off') (chain_bytes c) = ?bs"
    using app_data_get_from_offset_bytes [OF assms(1), of off] by auto
  have lt: "length (chain_bytes data) < 4294967296" using assms(1) by (simp add: pkt_wf_def chain_ok_def)
  then have n: "unat (of_nat n :: u32) = n" using assms(2) by (simp add: unat_of_nat)
  have lb: "length (drop (unat off') (chain_bytes c)) = length ?bs" using g(5) by simp
  have "unat off' \<le> length (chain_bytes c)"
    using g(3,4) by (cases c) auto
  then have w: "walk_ok c off' (of_nat n)"
    using g(2,3) assms(2) lb n by (simp add: walk_ok_def)
  have wb: "walk_bytes c off' (of_nat n) = take n ?bs"
    by (simp add: walk_bytes_def n g(5))
  obtain ok where cl: "http_parse_content_length app c off' (of_nat n) =
      (ok, if take 15 (take n ?bs) = HTTP_CONTENT_LEN_STR
           then app\<lparr>ha_content_length := snd (line_ref (ha_content_length app) (take n ?bs))\<rparr> else app)"
    "ok \<Longrightarrow> take 15 (take n ?bs) = HTTP_CONTENT_LEN_STR"
    using http_parse_content_length_bytes [OF w, of app, unfolded wb] by blast
  note te = http_parse_transfer_enc_bytes [OF w, unfolded wb]
  show ?thesis
  proof (cases "take 15 (take n ?bs) = HTTP_CONTENT_LEN_STR")
    case True
    have "\<not> http_parse_transfer_enc c off' (of_nat n)"
      using te http_strs_differ [OF True] by blast
    moreover have "fst (line_ref (ha_content_length app) (take n ?bs)) = False"
      using True by (simp add: line_ref_def Let_def del: take_take)
    ultimately show ?thesis
      using True cl(1) by (cases "line_ref (ha_content_length app) (take n ?bs)")
        (simp add: http_parse_hdr_line_def g(1) del: take_take)
  next
    case False
    then have "\<not> ok" using cl(2) by blast
    then show ?thesis
      using False cl(1) te by (simp add: http_parse_hdr_line_def g(1) line_ref_def del: take_take)
  qed
qed

text \<open>What parsing a header does.\<close>

definition hdr_parsed :: "http_app \<Rightarrow> http_stats \<Rightarrow> u8 list \<Rightarrow> u32 \<Rightarrow> bool \<times> u32 \<times> bool \<times> http_app \<times> http_stats" where
  "hdr_parsed app stats bs delivered =
     (case hdr_ref (ha_content_length app) bs of (e, n, cl) \<Rightarrow>
        (e = HdrDone, delivered + of_nat n, e = HdrInvalid,
         app\<lparr>ha_ptr := HaRecv (if e = HdrIncomplete then of_nat (scanned (drop n bs)) else 0), ha_content_length := cl\<rparr>,
         if e = HdrInvalid then stats\<lparr>hsts_transfer_enc_cnt := hsts_transfer_enc_cnt stats + 1\<rparr> else stats))"

lemma hdr_parsed_incomplete:
  "line_end 0 bs = None \<Longrightarrow>
   hdr_parsed app stats bs d = (False, d, False, app\<lparr>ha_ptr := HaRecv (of_nat (scanned bs))\<rparr>, stats)"
  by (simp add: hdr_parsed_def hdr_ref.simps [of _ bs])

lemma hdr_parsed_line:
  assumes "line_end 0 bs = Some n"
  shows "hdr_parsed app stats bs d =
    (if n = 2 then (True, d + of_nat n, False, app\<lparr>ha_ptr := HaRecv 0\<rparr>, stats)
     else case line_ref (ha_content_length app) (take n bs) of (bad, cl) \<Rightarrow>
       if bad then (False, d + of_nat n, True, app\<lparr>ha_ptr := HaRecv 0, ha_content_length := cl\<rparr>,
                    stats\<lparr>hsts_transfer_enc_cnt := hsts_transfer_enc_cnt stats + 1\<rparr>)
       else hdr_parsed (app\<lparr>ha_ptr := HaRecv 0, ha_content_length := cl\<rparr>) stats (drop n bs) (d + of_nat n))"
  using assms
  by (auto simp: hdr_parsed_def hdr_ref.simps [of _ bs] add.assoc add.commute split: prod.splits)

lemma http_parse_hdr_loop_bytes:
  assumes "pkt_wf data" and "unat off \<le> length (chain_bytes data)"
    and "scan_at (APP_RECV_SCAN_OFFSET addr app) (drop (unat off) (chain_bytes data))"
    and "unat off < length (chain_bytes data) \<or> ha_ptr app = HaRecv 0"
  shows "http_parse_hdr_loop addr app stats data d False off =
           Some (hdr_parsed app stats (drop (unat off) (chain_bytes data)) d)"
  using assms(2-)
proof (induction "length (chain_bytes data) - unat off" arbitrary: off app d rule: less_induct)
  case less
  let ?bs = "drop (unat off) (chain_bytes data)"
  obtain m r where data: "data = m # r" using assms(1) by (cases data) (auto simp: pkt_wf_def)
  have ok: "chain_ok data" using assms(1) by (simp add: pkt_wf_def)
  have lt: "length (chain_bytes data) < 4294967296" using ok by (simp add: chain_ok_def)
  have len: "unat (mb_pkt_len m) = length (chain_bytes data)"
    using assms(1) chain_ok_len [OF ok] by (simp only: pkt_wf_def data list.sel)
  have case_data: "(case data of [] \<Rightarrow> a | m # _ \<Rightarrow> b m) = b m" for a :: 'a and b
    by (simp add: data)
  show ?case
  proof (cases "unat off < length (chain_bytes data)")
    case False
    then have "mb_pkt_len m \<le> off" using len by (simp add: word_unat_le)
    moreover have "?bs = []" "ha_ptr app = HaRecv 0" using False less(3-) by simp_all
    ultimately show ?thesis
      by (simp add: http_parse_hdr_loop.simps [of addr app] data hdr_parsed_def hdr_ref.simps scanned_def)
  next
    case True
    then have off: "\<not> mb_pkt_len m \<le> off" using len by (simp add: word_unat_le)
    note sl = http_scan_line_bytes [OF assms(1) less(2,3)]
    show ?thesis
    proof (cases "line_end 0 ?bs")
      case None
      then show ?thesis
        using off sl by (subst http_parse_hdr_loop.simps) (simp add: case_data hdr_parsed_incomplete)
    next
      case (Some n)
      note n = conjunct1 [OF line_end_bounds [OF Some]] conjunct2 [OF line_end_bounds [OF Some]]
      then have nlt: "n < 4294967296" using lt by simp
      have nz: "(of_nat n :: u32) \<noteq> 0" "(of_nat n :: u32) = 2 \<longleftrightarrow> n = 2"
        using n(1) nlt by (auto simp: word_unat_eq_iff unat_of_nat)
      have on: "unat (off + of_nat n) = unat off + n"
        using n(2) lt less(2) by (simp add: word_le_plus_unat unat_of_nat)
      let ?app = "app\<lparr>ha_ptr := HaRecv 0\<rparr>"
      obtain bad cl where l: "line_ref (ha_content_length app) (take n ?bs) = (bad, cl)" by fastforce
      have hl: "http_parse_hdr_line ?app stats data off (of_nat n) False =
          Some (?app\<lparr>ha_content_length := cl\<rparr>,
                if bad then stats\<lparr>hsts_transfer_enc_cnt := hsts_transfer_enc_cnt stats + 1\<rparr> else stats, bad)"
        using http_parse_hdr_line_bytes [OF assms(1) n(2), of ?app stats] l by simp
      have rec: "http_parse_hdr_loop addr (?app\<lparr>ha_content_length := cl\<rparr>) stats data (d + of_nat n) False (off + of_nat n) =
          Some (hdr_parsed (?app\<lparr>ha_content_length := cl\<rparr>) stats (drop n ?bs) (d + of_nat n))"
      proof -
        have "length (chain_bytes data) - unat (off + of_nat n) < length (chain_bytes data) - unat off"
          using on n(1) True by simp
        moreover have "APP_RECV_SCAN_OFFSET addr (?app\<lparr>ha_content_length := cl\<rparr>) = 0"
          by (simp add: APP_RECV_SCAN_OFFSET_def)
        ultimately show ?thesis
          using less(1) [of "off + of_nat n" "?app\<lparr>ha_content_length := cl\<rparr>" "d + of_nat n"] on n(2) less(2)
          by (simp add: add.commute)
      qed
      have stop: "http_parse_hdr_loop addr a s data e True o' = Some (False, e, True, a, s)" for a s e o'
        by (simp add: http_parse_hdr_loop.simps [of addr a] data)
      show ?thesis
        using off sl Some nz hl rec l
        by (subst http_parse_hdr_loop.simps) (auto simp: case_data hdr_parsed_line [OF Some] stop)
    qed
  qed
qed

lemma http_parse_hdr_bytes:
  assumes "pkt_wf data" and "chain_bytes data \<noteq> []"
    and "scan_at (APP_RECV_SCAN_OFFSET addr app) (chain_bytes data)"
  shows "http_parse_hdr addr app stats data = Some (hdr_parsed app stats (chain_bytes data) 0)"
  using http_parse_hdr_loop_bytes [of data 0 addr app stats 0] assms by (simp add: http_parse_hdr_def)

end
