(* ===== verification/HttpRecv.thy ===== *)
theory HttpRecv
  imports HttpParse
begin

text \<open>
  Receiving a message. \<open>recv_ref\<close> says what the two receive callbacks do in terms of the bytes they get
  (\<open>client_receives\<close>, \<open>server_receives\<close>). The bytes that a callback does not consume are delivered again with
  those that follow; the contract of a receiver (\<open>http_receiver\<close>) makes it independent of where the stream is cut
  (\<open>recv_ref_resumes\<close>), and both ends fulfil it.
\<close>

subsection \<open>Receiving bytes\<close>

type_synonym http_finish = "http_app \<Rightarrow> http_stats \<Rightarrow> (http_app \<times> http_stats \<times> http_notif list) option"
type_synonym http_no_length = "http_app \<Rightarrow> http_stats \<Rightarrow> u32 \<Rightarrow> http_delivery option"

definition body_ref :: "http_finish \<Rightarrow> http_app \<Rightarrow> http_stats \<Rightarrow> u32 \<Rightarrow> u32 \<Rightarrow> http_delivery option" where
  "body_ref fin app stats all_len k =
     (if ha_content_length app \<le> k
      then map_option (\<lambda>(app, stats, ns). (all_len, app, stats, ns)) (fin (app\<lparr>ha_content_length := 0\<rparr>) stats)
      else Some (all_len, app\<lparr>ha_content_length := ha_content_length app - k\<rparr>, stats, []))"

definition recv_ref ::
  "http_state \<Rightarrow> http_state \<Rightarrow> http_no_length \<Rightarrow> http_finish \<Rightarrow> http_app \<Rightarrow> http_stats \<Rightarrow> u8 list
     \<Rightarrow> http_delivery option" where
  "recv_ref hdr_st body_st nolen fin app stats bs =
     (if ha_state app = hdr_st
      then case hdr_ref (ha_content_length app) bs of (e, n, cl) \<Rightarrow>
        (case e of
           HdrInvalid \<Rightarrow>
             Some (0, app\<lparr>ha_ptr := HaRecv 0, ha_content_length := cl\<rparr>,
                   http_invalid (stats\<lparr>hsts_transfer_enc_cnt := hsts_transfer_enc_cnt stats + 1\<rparr>), [HTTP_CLOSE])
         | HdrIncomplete \<Rightarrow>
             Some (of_nat n, app\<lparr>ha_ptr := HaRecv (of_nat (scanned (drop n bs))), ha_content_length := cl\<rparr>, stats, [])
         | HdrDone \<Rightarrow>
             if cl = HTTP_CONTENT_LENGTH_INVALID
             then nolen (app\<lparr>ha_ptr := HaRecv 0, ha_content_length := cl\<rparr>) stats (of_nat n)
             else body_ref fin (app\<lparr>ha_ptr := HaRecv 0, ha_content_length := cl, ha_state := body_st\<rparr>) stats
                    (of_nat (length bs)) (of_nat (length bs - n)))
      else if ha_state app = body_st
      then body_ref fin app stats (of_nat (length bs)) (of_nat (length bs))
      else Some (0, app, http_invalid stats, [HTTP_CLOSE]))"

subsection \<open>The two receivers\<close>

definition server_no_length :: http_no_length where
  "server_no_length app stats n =
     map_option (\<lambda>(app, ns).
         (n, app, stats\<lparr>hsts_no_content_len_cnt := hsts_no_content_len_cnt stats + 1\<rparr>, ns))
       (http_server_goto_send_resp (app\<lparr>ha_content_length := 0\<rparr>))"

definition server_finish :: http_finish where
  "server_finish app stats =
     map_option (\<lambda>(app, ns). (app, stats\<lparr>hsts_req_cnt := hsts_req_cnt stats + 1\<rparr>, ns))
       (http_server_goto_send_resp (app\<lparr>ha_req_cnt := ha_req_cnt app + 1\<rparr>))"

definition client_no_length :: http_no_length where
  "client_no_length app stats n =
     Some (0, app, stats\<lparr>hsts_no_content_len_cnt := hsts_no_content_len_cnt stats + 1\<rparr>, [HTTP_CLOSE])"

definition client_finish :: http_finish where
  "client_finish app stats =
     map_option (\<lambda>(app, ns). (app, stats\<lparr>hsts_resp_cnt := hsts_resp_cnt stats + 1\<rparr>, ns))
       (http_client_goto_send_req (app\<lparr>ha_resp_cnt := ha_resp_cnt app + 1\<rparr>))"

abbreviation server_ref :: "http_app \<Rightarrow> http_stats \<Rightarrow> u8 list \<Rightarrow> http_delivery option" where
  "server_ref \<equiv> recv_ref HTTPS_SRV_PARSE_REQ_HDR HTTPS_SRV_RECV_REQ_BODY server_no_length server_finish"

abbreviation client_ref :: "http_app \<Rightarrow> http_stats \<Rightarrow> u8 list \<Rightarrow> http_delivery option" where
  "client_ref \<equiv> recv_ref HTTPS_CL_PARSE_RESP_HDR HTTPS_CL_RECV_RESP_BODY client_no_length client_finish"

lemma pkt_wf_len:
  assumes "pkt_wf data"
  shows "mb_pkt_len (hd data) = of_nat (length (chain_bytes data))" and "length (chain_bytes data) < 4294967296"
  using assms by (simp_all add: pkt_wf_def chain_ok_def)

lemma http_consume_body_ref:
  assumes "pkt_wf data" and "n \<le> length (chain_bytes data)"
  shows "http_consume_body app data (of_nat n) (of_nat n) =
           (if ha_content_length app \<le> of_nat (length (chain_bytes data) - n)
            then (True, of_nat (length (chain_bytes data)), app\<lparr>ha_content_length := 0\<rparr>)
            else (False, of_nat (length (chain_bytes data)),
                  app\<lparr>ha_content_length := ha_content_length app - of_nat (length (chain_bytes data) - n)\<rparr>))"
proof -
  have "of_nat (length (chain_bytes data)) - of_nat n = (of_nat (length (chain_bytes data) - n) :: u32)"
    using assms(2) by (simp add: of_nat_diff)
  then show ?thesis
    using pkt_wf_len(1) [OF assms(1)] assms(2)
    by (auto simp: http_consume_body_def Let_def not_less antisym)
qed

lemma recv_body_ref:
  assumes "pkt_wf data" and "n \<le> length (chain_bytes data)"
  shows "http_server_recv_body app stats data (of_nat n) =
           body_ref server_finish app stats (of_nat (length (chain_bytes data))) (of_nat (length (chain_bytes data) - n))"
    and "http_client_recv_body app stats data (of_nat n) =
           body_ref client_finish app stats (of_nat (length (chain_bytes data))) (of_nat (length (chain_bytes data) - n))"
  using http_consume_body_ref [OF assms, of app]
  by (auto simp: http_server_recv_body_def http_client_recv_body_def body_ref_def server_finish_def client_finish_def
      option.map_comp comp_def split_def)

text \<open>Nothing of the body has come with the header.\<close>

lemma body_ref_nothing:
  "ha_content_length app \<noteq> 0 \<Longrightarrow> body_ref fin app stats all_len 0 = Some (all_len, app, stats, [])"
  by (simp add: body_ref_def)

lemma server_receives:
  assumes "pkt_wf data" and "chain_bytes data \<noteq> []"
    and "ha_state app = HTTPS_SRV_PARSE_REQ_HDR \<Longrightarrow> scan_at (APP_RECV_SCAN_OFFSET addr app) (chain_bytes data)"
  shows "http_server_deliver_data addr app stats data = server_ref app stats (chain_bytes data)"
proof (cases "ha_state app = HTTPS_SRV_PARSE_REQ_HDR")
  case True
  obtain e n cl where h: "hdr_ref (ha_content_length app) (chain_bytes data) = (e, n, cl)"
    by (metis prod_cases3)
  note p = http_parse_hdr_bytes [OF assms(1,2) assms(3) [OF True], of stats]
  have n: "n \<le> length (chain_bytes data)" by (rule hdr_ref_bounds [OF h])
  have full: "of_nat n = mb_pkt_len (hd data) \<longleftrightarrow> n = length (chain_bytes data)"
    using n pkt_wf_len [OF assms(1)] by (auto simp: word_unat_eq_iff unat_of_nat)
  show ?thesis
    using True h p n full recv_body_ref(1) [OF assms(1) n]
    by (cases e) (auto simp: http_server_deliver_data_def recv_ref_def hdr_parsed_def http_goto_recv_body_def
        server_no_length_def Let_def body_ref_nothing pkt_wf_len(1) [OF assms(1)])
next
  case False
  then show ?thesis
    using recv_body_ref(1) [OF assms(1), of 0] by (cases "ha_state app") (simp_all add: http_server_deliver_data_def recv_ref_def)
qed

lemma client_receives:
  assumes "pkt_wf data" and "chain_bytes data \<noteq> []"
    and "ha_state app = HTTPS_CL_PARSE_RESP_HDR \<Longrightarrow> scan_at (APP_RECV_SCAN_OFFSET addr app) (chain_bytes data)"
  shows "http_client_deliver_data addr app stats data = client_ref app stats (chain_bytes data)"
proof (cases "ha_state app = HTTPS_CL_PARSE_RESP_HDR")
  case True
  obtain e n cl where h: "hdr_ref (ha_content_length app) (chain_bytes data) = (e, n, cl)"
    by (metis prod_cases3)
  note p = http_parse_hdr_bytes [OF assms(1,2) assms(3) [OF True], of stats]
  have n: "n \<le> length (chain_bytes data)" by (rule hdr_ref_bounds [OF h])
  have full: "of_nat n = mb_pkt_len (hd data) \<longleftrightarrow> n = length (chain_bytes data)"
    using n pkt_wf_len [OF assms(1)] by (auto simp: word_unat_eq_iff unat_of_nat)
  show ?thesis
    using True h p n full recv_body_ref(2) [OF assms(1) n]
    by (cases e) (auto simp: http_client_deliver_data_def recv_ref_def hdr_parsed_def http_goto_recv_body_def
        client_no_length_def Let_def body_ref_nothing pkt_wf_len(1) [OF assms(1)])
next
  case False
  then show ?thesis
    using recv_body_ref(2) [OF assms(1), of 0] by (cases "ha_state app") (simp_all add: http_client_deliver_data_def recv_ref_def)
qed

subsection \<open>Going on with the rest\<close>

text \<open>The bytes of an earlier delivery count too, unless the connection is closed.\<close>

definition delivered_more :: "u32 \<Rightarrow> http_delivery \<Rightarrow> http_delivery" where
  "delivered_more n d = (case d of (k, app, stats, ns) \<Rightarrow> (if HTTP_CLOSE \<in> set ns then 0 else n + k, app, stats, ns))"

locale http_receiver =
  fixes hdr_st body_st :: http_state
    and nolen :: http_no_length
    and fin :: http_finish
  assumes states: "hdr_st \<noteq> body_st"
    and nolen_notifies: "nolen app stats n = Some (k, app', stats', ns) \<Longrightarrow> ns \<noteq> []"
    and nolen_more: "nolen app stats (n + k) = map_option (delivered_more n) (nolen app stats k)"
    and fin_notifies: "fin app stats = Some (app', stats', ns) \<Longrightarrow> ns \<noteq> [] \<and> HTTP_CLOSE \<notin> set ns"
begin

lemma never_silent [simp]:
  "nolen app stats n \<noteq> Some (k, app', stats', [])" "fin app stats \<noteq> Some (app', stats', [])"
  using nolen_notifies fin_notifies by blast+

lemma body_ref_more:
  "body_ref fin app stats (n + t) k = map_option (delivered_more n) (body_ref fin app stats t k)"
  using fin_notifies
  by (cases "fin (app\<lparr>ha_content_length := 0\<rparr>) stats") (auto simp: body_ref_def delivered_more_def)

lemma body_ref_unfinished:
  assumes "body_ref fin app stats t k = Some (n, app', stats', [])"
  shows "k < ha_content_length app" and "n = t"
    and "app' = app\<lparr>ha_content_length := ha_content_length app - k\<rparr>" and "stats' = stats"
  using assms by (auto simp: body_ref_def not_le split: if_splits)

lemma body_ref_add:
  assumes "k1 < ha_content_length app" and "unat k1 + unat k2 < 4294967296"
  shows "body_ref fin app stats t (k1 + k2) =
           body_ref fin (app\<lparr>ha_content_length := ha_content_length app - k1\<rparr>) stats t k2"
proof -
  have u: "unat (k1 + k2) = unat k1 + unat k2" "unat (ha_content_length app - k1) = unat (ha_content_length app) - unat k1"
    using assms by (simp_all add: word_le_plus_unat unat_sub word_unat_le word_unat_less)
  then have "ha_content_length app \<le> k1 + k2 \<longleftrightarrow> ha_content_length app - k1 \<le> k2"
    using assms(1) by (auto simp: word_unat_le word_unat_less)
  then show ?thesis by (simp add: body_ref_def algebra_simps)
qed

lemma body_ref_resumes:
  assumes "body_ref fin app stats (of_nat a) (of_nat k) = Some (n, app', stats', [])" and "k \<le> a"
    and "a + length b2 < 4294967296"
  shows "body_ref fin app stats (of_nat (a + length b2)) (of_nat (k + length b2)) =
           map_option (delivered_more n) (body_ref fin app' stats' (of_nat (length b2)) (of_nat (length b2)))"
proof -
  note u = body_ref_unfinished [OF assms(1)]
  have "unat (of_nat k :: u32) + unat (of_nat (length b2) :: u32) < 4294967296"
    using assms(2,3) by (simp add: unat_of_nat)
  from body_ref_add [OF u(1) this, of stats "of_nat (a + length b2)"] show ?thesis
    by (simp add: u(2-4) body_ref_more)
qed

text \<open>A receiver gets the same from a stream at once and in two parts.\<close>

lemma recv_ref_resumes:
  assumes "recv_ref hdr_st body_st nolen fin app stats b1 = Some (n1, app1, stats1, [])"
    and "length b1 + length b2 < 4294967296"
  shows "recv_ref hdr_st body_st nolen fin app stats (b1 @ b2) =
           map_option (delivered_more n1)
             (recv_ref hdr_st body_st nolen fin app1 stats1 (drop (unat n1) b1 @ b2))"
proof (cases "ha_state app = hdr_st")
  case True
  obtain e n cl where h: "hdr_ref (ha_content_length app) b1 = (e, n, cl)" by (metis prod_cases3)
  have n: "n \<le> length b1" by (rule hdr_ref_bounds [OF h])
  have un: "unat (of_nat n :: u32) = n" "unat (of_nat (length b1) :: u32) = length b1"
    using n assms(2) by (simp_all add: unat_of_nat)
  show ?thesis
  proof (cases e)
    case HdrIncomplete
    obtain e' k cl' where h': "hdr_ref cl (drop n b1 @ b2) = (e', k, cl')" by (metis prod_cases3)
    have one: "hdr_ref (ha_content_length app) (b1 @ b2) = (e', n + k, cl')"
      using h h' HdrIncomplete by (simp add: hdr_ref_append)
    have r: "n1 = of_nat n" "app1 = app\<lparr>ha_ptr := HaRecv (of_nat (scanned (drop n b1))), ha_content_length := cl\<rparr>"
      "stats1 = stats"
      using assms(1) True h HdrIncomplete by (simp_all add: recv_ref_def)
    have k: "k \<le> length (drop n b1 @ b2)" by (rule hdr_ref_bounds [OF h'])
    have l: "of_nat (length (b1 @ b2)) = of_nat n + (of_nat (length (drop n b1 @ b2)) :: u32)"
      "length (b1 @ b2) - (n + k) = length (drop n b1 @ b2) - k"
      "drop (n + k) (b1 @ b2) = drop k (drop n b1 @ b2)"
      using n by (simp_all add: of_nat_diff flip: of_nat_add) (simp add: add.commute drop_drop [symmetric] del: drop_drop)
    show ?thesis
      using True one h' by (cases e') (simp_all add: recv_ref_def r un l body_ref_more nolen_more delivered_more_def
          del: drop_append length_append)
  next
    case HdrDone
    have one: "hdr_ref (ha_content_length app) (b1 @ b2) = (HdrDone, n, cl)"
      using h HdrDone by (simp add: hdr_ref_append)
    have cl: "cl \<noteq> HTTP_CONTENT_LENGTH_INVALID"
      using assms(1) True h HdrDone by (auto simp: recv_ref_def)
    let ?app = "app\<lparr>ha_ptr := HaRecv 0, ha_content_length := cl, ha_state := body_st\<rparr>"
    have b: "body_ref fin ?app stats (of_nat (length b1)) (of_nat (length b1 - n)) = Some (n1, app1, stats1, [])"
      using assms(1) True h HdrDone cl by (simp add: recv_ref_def)
    note u = body_ref_unfinished [OF b]
    have l: "length (b1 @ b2) = length b1 + length b2" "length b1 + length b2 - n = (length b1 - n) + length b2"
      "drop (unat n1) b1 @ b2 = b2"
      using n by (simp_all add: u(2) un)
    have "ha_state app1 = body_st" by (simp add: u(3))
    then show ?thesis
      using True one cl body_ref_resumes [OF b _ assms(2)] states
      by (simp add: recv_ref_def l del: drop_append length_append of_nat_add)
  next
    case HdrInvalid
    then show ?thesis using assms(1) True h by (simp add: recv_ref_def)
  qed
next
  case False
  then have b: "body_ref fin app stats (of_nat (length b1)) (of_nat (length b1)) = Some (n1, app1, stats1, [])"
    and st: "ha_state app = body_st"
    using assms(1) by (simp_all add: recv_ref_def split: if_splits)
  note u = body_ref_unfinished [OF b]
  have "drop (unat n1) b1 @ b2 = b2" "ha_state app1 = body_st" "ha_state app1 \<noteq> hdr_st"
    using assms(2) st False by (simp_all add: u unat_of_nat)
  then show ?thesis
    using False st body_ref_resumes [OF b _ assms(2)] by (simp add: recv_ref_def del: of_nat_add)
qed

text \<open>What a delivery leaves for the next scan.\<close>

lemma recv_ref_scan_at:
  assumes "recv_ref hdr_st body_st nolen fin app stats b1 = Some (n1, app1, stats1, [])"
    and "length b1 < 4294967296" and "ha_state app1 = hdr_st"
  shows "scan_at (APP_RECV_SCAN_OFFSET addr app1) (drop (unat n1) b1 @ b2)"
proof -
  obtain e n cl where h: "hdr_ref (ha_content_length app) b1 = (e, n, cl)" by (metis prod_cases3)
  have n: "n \<le> length b1" by (rule hdr_ref_bounds [OF h])
  have "\<not> (ha_state app \<noteq> hdr_st \<or> e \<noteq> HdrIncomplete)"
  proof
    assume "ha_state app \<noteq> hdr_st \<or> e \<noteq> HdrIncomplete"
    then show False
      using assms(1,3) h states
      by (cases e) (auto simp: recv_ref_def dest: body_ref_unfinished split: if_splits)
  qed
  then have st: "ha_state app = hdr_st" and e: "e = HdrIncomplete" by blast+
  have r: "n1 = of_nat n" "app1 = app\<lparr>ha_ptr := HaRecv (of_nat (scanned (drop n b1))), ha_content_length := cl\<rparr>"
    using assms(1) h st e by (simp_all add: recv_ref_def)
  have "hdr_ref cl (drop n b1) = (HdrIncomplete, 0, cl)"
    using hdr_ref_append [of "ha_content_length app" b1 "[]"] h e
    by (auto split: prod.splits)
  then have "line_end 0 (drop n b1) = None"
    by (auto simp: hdr_ref.simps [of cl] dest: line_end_bounds split: option.splits if_splits prod.splits)
  then have "scan_at (of_nat (scanned (drop n b1))) (drop n b1)"
    using assms(2) by (intro scan_at_scanned) simp_all
  then show ?thesis
    using n assms(2) by (simp add: r APP_RECV_SCAN_OFFSET_def scan_at_append unat_of_nat)
qed

end

lemma http_goto_send_notifies: "http_goto_send st app = Some (app', ns) \<Longrightarrow> ns = [HTTP_SEND_START]"
  by (auto simp: http_goto_send_def)

interpretation server: http_receiver HTTPS_SRV_PARSE_REQ_HDR HTTPS_SRV_RECV_REQ_BODY server_no_length server_finish
  by unfold_locales
    (auto simp: server_no_length_def server_finish_def http_server_goto_send_resp_def delivered_more_def
      http_goto_send_def option.map_comp comp_def)

interpretation client: http_receiver HTTPS_CL_PARSE_RESP_HDR HTTPS_CL_RECV_RESP_BODY client_no_length client_finish
  by unfold_locales
    (auto simp: client_no_length_def client_finish_def http_client_goto_send_req_def delivered_more_def
      http_goto_send_def option.map_comp comp_def)

end
