(* ===== verification/HttpProps.thy ===== *)
theory HttpProps
  imports HttpRecv
begin

text \<open>
  Theorems about the HTTP application: a request that is cut anywhere, the request a client builds and a server
  understands.
\<close>

subsection \<open>Cutting a stream\<close>

lemma server_cut:
  assumes d: "pkt_wf d1" "pkt_wf d2" "pkt_wf d" and ne: "chain_bytes d1 \<noteq> []" "b \<noteq> []"
    and b: "chain_bytes d = chain_bytes d1 @ b" "chain_bytes d2 = drop (unat n1) (chain_bytes d1) @ b"
    and at: "ha_state app = HTTPS_SRV_PARSE_REQ_HDR \<Longrightarrow> scan_at (APP_RECV_SCAN_OFFSET addr app) (chain_bytes d1)"
    and one: "http_server_deliver_data addr app stats d1 = Some (n1, app1, stats1, [])"
  shows "http_server_deliver_data addr app stats d =
           map_option (delivered_more n1) (http_server_deliver_data addr app1 stats1 d2)"
    and "ha_state app1 = HTTPS_SRV_PARSE_REQ_HDR \<Longrightarrow> scan_at (APP_RECV_SCAN_OFFSET addr app1) (chain_bytes d2)"
proof -
  have len: "length (chain_bytes d1) + length b < 4294967296" "length (chain_bytes d1) < 4294967296"
    using pkt_wf_len(2) [OF d(3)] b(1) by simp_all
  have r1: "server_ref app stats (chain_bytes d1) = Some (n1, app1, stats1, [])"
    using one server_receives [OF d(1) ne(1) at] by simp
  show at2: "scan_at (APP_RECV_SCAN_OFFSET addr app1) (chain_bytes d2)"
    if "ha_state app1 = HTTPS_SRV_PARSE_REQ_HDR"
    unfolding b(2) by (rule server.recv_ref_scan_at [OF r1 len(2) that])
  have "http_server_deliver_data addr app stats d = server_ref app stats (chain_bytes d1 @ b)"
    using server_receives [OF d(3), of app addr stats] ne at scan_at_append b(1) by simp
  also have "\<dots> = map_option (delivered_more n1) (server_ref app1 stats1 (chain_bytes d2))"
    unfolding b(2) by (rule server.recv_ref_resumes [OF r1 len(1)])
  also have "server_ref app1 stats1 (chain_bytes d2) = http_server_deliver_data addr app1 stats1 d2"
    using server_receives [OF d(2) _ at2] b(2) ne(2) by simp
  finally show "http_server_deliver_data addr app stats d =
      map_option (delivered_more n1) (http_server_deliver_data addr app1 stats1 d2)" .
qed

lemma client_cut:
  assumes d: "pkt_wf d1" "pkt_wf d2" "pkt_wf d" and ne: "chain_bytes d1 \<noteq> []" "b \<noteq> []"
    and b: "chain_bytes d = chain_bytes d1 @ b" "chain_bytes d2 = drop (unat n1) (chain_bytes d1) @ b"
    and at: "ha_state app = HTTPS_CL_PARSE_RESP_HDR \<Longrightarrow> scan_at (APP_RECV_SCAN_OFFSET addr app) (chain_bytes d1)"
    and one: "http_client_deliver_data addr app stats d1 = Some (n1, app1, stats1, [])"
  shows "http_client_deliver_data addr app stats d =
           map_option (delivered_more n1) (http_client_deliver_data addr app1 stats1 d2)"
    and "ha_state app1 = HTTPS_CL_PARSE_RESP_HDR \<Longrightarrow> scan_at (APP_RECV_SCAN_OFFSET addr app1) (chain_bytes d2)"
proof -
  have len: "length (chain_bytes d1) + length b < 4294967296" "length (chain_bytes d1) < 4294967296"
    using pkt_wf_len(2) [OF d(3)] b(1) by simp_all
  have r1: "client_ref app stats (chain_bytes d1) = Some (n1, app1, stats1, [])"
    using one client_receives [OF d(1) ne(1) at] by simp
  show at2: "scan_at (APP_RECV_SCAN_OFFSET addr app1) (chain_bytes d2)"
    if "ha_state app1 = HTTPS_CL_PARSE_RESP_HDR"
    unfolding b(2) by (rule client.recv_ref_scan_at [OF r1 len(2) that])
  have "http_client_deliver_data addr app stats d = client_ref app stats (chain_bytes d1 @ b)"
    using client_receives [OF d(3), of app addr stats] ne at scan_at_append b(1) by simp
  also have "\<dots> = map_option (delivered_more n1) (client_ref app1 stats1 (chain_bytes d2))"
    unfolding b(2) by (rule client.recv_ref_resumes [OF r1 len(1)])
  also have "client_ref app1 stats1 (chain_bytes d2) = http_client_deliver_data addr app1 stats1 d2"
    using client_receives [OF d(2) _ at2] b(2) ne(2) by simp
  finally show "http_client_deliver_data addr app stats d =
      map_option (delivered_more n1) (http_client_deliver_data addr app1 stats1 d2)" .
qed

subsection \<open>Building a message\<close>

lemma po_spec:
  assumes "pktmbuf_ops_spec room po"
  shows "room < 65536" "mb_data (po_new po) = []" "mb_pkt_len (po_new po) = 0" "mb_nb_segs (po_new po) = 1"
    and "length (po_unwritten po n) = n"
  using assms by (simp_all add: pktmbuf_ops_spec_def)

lemma po_tailroom_room:
  assumes "pktmbuf_ops_spec room po"
  shows "unat (po_tailroom po m) = room - length (mb_data m)"
  using assms by (auto simp: pktmbuf_ops_spec_def unat_of_nat)

lemma po_append_one:
  assumes "pktmbuf_ops_spec room po" and "length bs \<le> room - length (mb_data m)"
  shows "po_append po [m] bs =
           Some [m\<lparr>mb_data := mb_data m @ bs, mb_pkt_len := mb_pkt_len m + of_nat (length bs)\<rparr>]"
  using assms by (simp add: pktmbuf_ops_spec_def last_upd_def head_pkt_len_def)

lemma http_write_all_fits:
  assumes po: "pktmbuf_ops_spec room po" and "length (mb_data m) + length (concat ls) \<le> room"
  shows "http_write_all po [m] ls bs =
           Some (0, [m\<lparr>mb_data := mb_data m @ concat ls, mb_pkt_len := mb_pkt_len m + of_nat (length (concat ls))\<rparr>], bs)"
  using assms(2)
proof (induction ls arbitrary: m)
  case Nil
  then show ?case by simp
next
  case (Cons l ls)
  let ?m = "m\<lparr>mb_data := mb_data m @ l, mb_pkt_len := mb_pkt_len m + of_nat (length l)\<rparr>"
  have le: "length l \<le> room - length (mb_data m)" using Cons(2) by simp
  have "http_write_str po [m] l bs = Some (0, [?m], bs)"
    using po_tailroom_room [OF po, of m] po_append_one [OF po le] le by (cases "l = []") (simp_all add: http_write_str_def http_write_loop.simps)
  moreover have "length (mb_data ?m) + length (concat ls) \<le> room" using Cons(2) by simp
  ultimately show ?case using Cons(1) [of ?m] by (simp add: add.assoc)
qed

lemma data_alloc_loop_fills:
  assumes po: "pktmbuf_ops_spec room po" and room: "0 < room" and "False \<notin> set bs" and "len \<noteq> 0"
  shows "\<exists>c bs'. data_alloc_loop po len acc bs = Some (acc @ c, True, bs') \<and> c \<noteq> [] \<and>
           length (chain_bytes c) = unat len \<and> (\<forall>m \<in> set c. mb_data m \<noteq> [] \<and> mbuf_ok m) \<and> set bs' \<subseteq> set bs"
  using assms(3,4)
proof (induction "unat len" arbitrary: len acc bs rule: less_induct)
  case less
  let ?t = "ucast (po_tailroom po (po_new po)) :: u32"
  define req where "req = (if len < ?t then len else ?t)"
  have t: "unat ?t = room"
    using po_tailroom_room [OF po, of "po_new po"] po_spec(1,2) [OF po]
    by (simp add: unsigned_ucast_eq take_bit_nat_eq_self)
  have rq: "unat req = min (unat len) room" "unat req \<le> room" "unat req \<le> unat len" "0 < unat req"
    using t room less(3) by (auto simp: req_def word_unat_less min_def unat_gt_0)
  define m where "m = (po_new po)\<lparr>mb_data := po_unwritten po (unat req), mb_pkt_len := of_nat (unat req)\<rparr>"
  have ap: "po_append po [po_new po] (po_unwritten po (unat req)) = Some [m]"
    using po_append_one [OF po, of "po_unwritten po (unat req)" "po_new po"] po_spec(2,3,5) [OF po] rq(2)
    by (simp add: m_def)
  have m: "length (mb_data m) = unat req" "mb_data m \<noteq> []" "mbuf_ok m"
    using rq po_spec(1,5) [OF po] by (auto simp: m_def mbuf_ok_def simp flip: length_greater_0_conv)
  have rest: "unat (len - req) = unat len - unat req"
    using rq(3) by (simp add: unat_sub word_unat_le)
  have st: "data_alloc_loop po len acc bs =
      (if len - req \<noteq> 0
       then let (ok, bs) = pkt_mbuf_alloc bs
            in if ok then data_alloc_loop po (len - req) (acc @ [m]) bs else Some (acc @ [m], False, bs)
       else Some (acc @ [m], True, bs))"
    by (subst data_alloc_loop.simps) (simp add: ap flip: req_def, simp add: Let_def)
  show ?case
  proof (cases "len - req = 0")
    case True
    then have "unat len = unat req" using rest rq(3) by simp
    then show ?thesis using st True m by (intro exI [of _ "[m]"] exI [of _ bs]) simp
  next
    case False
    obtain ok bs1 where a: "pkt_mbuf_alloc bs = (ok, bs1)" by fastforce
    note al = pkt_mbuf_alloc_set [OF a]
    then have ok: "ok" "False \<notin> set bs1" using less(2) by auto
    have "unat (len - req) < unat len" using rest rq(4) unat_gt_0 less(3) by (metis diff_less)
    from less(1) [OF this ok(2) False, of "acc @ [m]"] obtain c bs' where
      c: "data_alloc_loop po (len - req) (acc @ [m]) bs1 = Some ((acc @ [m]) @ c, True, bs')"
      "length (chain_bytes c) = unat (len - req)" "\<forall>m \<in> set c. mb_data m \<noteq> [] \<and> mbuf_ok m" "set bs' \<subseteq> set bs1"
      by blast
    show ?thesis
      using st False a ok(1) c m rest rq(3) al(2) by (intro exI [of _ "m # c"] exI [of _ bs']) auto
  qed
qed

lemma data_alloc_chain_fills:
  assumes po: "pktmbuf_ops_spec room po" and room: "0 < room" and bs: "False \<notin> set bs" and "len \<noteq> 0"
  shows "\<exists>c bs'. data_alloc_chain po len bs = Some (c, bs') \<and> c \<noteq> [] \<and> mb_pkt_len (hd c) = len \<and>
           length (chain_bytes c) = unat len \<and> (\<forall>m \<in> set c. mb_data m \<noteq> [] \<and> mbuf_ok m) \<and> set bs' \<subseteq> set bs"
proof -
  obtain ok bs1 where a: "pkt_mbuf_alloc bs = (ok, bs1)" by fastforce
  note al = pkt_mbuf_alloc_set [OF a]
  then have ok: "ok" "False \<notin> set bs1" using bs by auto
  obtain c bs' where c: "data_alloc_loop po len [] bs1 = Some (c, True, bs')" "c \<noteq> []"
    "length (chain_bytes c) = unat len" "\<forall>m \<in> set c. mb_data m \<noteq> [] \<and> mbuf_ok m" "set bs' \<subseteq> set bs1"
    using data_alloc_loop_fills [OF po room ok(2) assms(4), of "[]"] by auto
  let ?c = "set_head (of_nat (length c)) len c"
  have "mb_pkt_len (hd ?c) = len" "\<forall>m \<in> set ?c. mb_data m \<noteq> [] \<and> mbuf_ok m"
    using c(2,4) by (cases c; auto simp: mbuf_ok_def)+
  then show ?thesis
    using a ok(1) c al(2) by (intro exI [of _ ?c] exI [of _ bs']) (auto simp: data_alloc_chain_def)
qed

text \<open>A header that fits one buffer, with a body behind it.\<close>

lemma http_build_pkt_fits:
  assumes po: "pktmbuf_ops_spec room po" and fits: "length (concat ls) \<le> room" and ne: "concat ls \<noteq> []"
    and bs: "False \<notin> set bs" and len: "length (concat ls) + unat n < 4294967296"
  shows "\<exists>c bs' body. http_build_pkt po ls n [] False bs = Some (0, Some c, bs') \<and> pkt_wf c \<and>
           (\<forall>m \<in> set c. mb_data m \<noteq> []) \<and> chain_bytes c = concat ls @ body \<and> length body = unat n"
proof -
  obtain ok bs1 where a: "pkt_mbuf_alloc bs = (ok, bs1)" by fastforce
  note al = pkt_mbuf_alloc_set [OF a]
  then have ok: "ok" "False \<notin> set bs1" using bs by auto
  define m where "m = (po_new po)\<lparr>mb_data := concat ls, mb_pkt_len := of_nat (length (concat ls))\<rparr>"
  have w: "http_write_all po [po_new po] ls bs1 = Some (0, [m], bs1)"
    using http_write_all_fits [OF po, of "po_new po" ls bs1] fits po_spec(2,3) [OF po] by (simp add: m_def)
  have mok: "mbuf_ok m" "mb_data m = concat ls" "mb_pkt_len m = of_nat (length (concat ls))"
    using fits po_spec(1) [OF po] by (simp_all add: m_def mbuf_ok_def)
  show ?thesis
  proof (cases "n = 0")
    case True
    have "pkt_wf [m]" using mok len by (simp add: pkt_wf_def chain_ok_def)
    then show ?thesis
      using a ok(1) w True mok ne by (intro exI [of _ "[m]"] exI [of _ bs1] exI [of _ "[]"]) (auto simp: http_build_pkt_def)
  next
    case False
    have "0 < room" using fits ne by (cases "concat ls") auto
    from data_alloc_chain_fills [OF po this ok(2) False] obtain c bs' where
      c: "data_alloc_chain po n bs1 = Some (c, bs')" "c \<noteq> []" "mb_pkt_len (hd c) = n"
      "length (chain_bytes c) = unat n" "\<forall>m \<in> set c. mb_data m \<noteq> [] \<and> mbuf_ok m"
      by blast
    let ?c = "m\<lparr>mb_nb_segs := mb_nb_segs m + mb_nb_segs (hd c), mb_pkt_len := mb_pkt_len m + mb_pkt_len (hd c)\<rparr> # c"
    have b: "http_build_pkt po ls n [] False bs = Some (0, Some ?c, bs')"
      using a ok(1) w False c(1,2) by (simp add: http_build_pkt_def)
    have "list_all mbuf_ok c" using c(5) by (simp add: list_all_iff)
    then have "pkt_wf ?c"
      using mok c(3,4) len by (simp add: pkt_wf_def chain_ok_def mbuf_ok_def)
    then show ?thesis
      using b c mok ne by (intro exI [of _ ?c] exI [of _ bs'] exI [of _ "chain_bytes c"]) auto
  qed
qed

subsection \<open>Understanding a message\<close>

lemma line_end_CRLF: "10 \<notin> set t \<Longrightarrow> line_end c (t @ CRLF) = Some (length t + 2)"
  by (induction t arbitrary: c) (auto simp: CRLF_def)

lemma hdr_ref_line:
  assumes "10 \<notin> set t" and "t \<noteq> []" and "line_ref cl (t @ CRLF) = (False, cl')"
    and "hdr_ref cl' rest = (e, k, cl'')"
  shows "hdr_ref cl ((t @ CRLF) @ rest) = (e, length (t @ CRLF) + k, cl'')"
proof -
  have "line_end 0 ((t @ CRLF) @ rest) = Some (length (t @ CRLF))"
    using line_end_CRLF [OF assms(1), of 0] by (simp only: line_end_append) (simp add: CRLF_def)
  then show ?thesis
    using assms(2-4) by (simp add: hdr_ref.simps [of cl] CRLF_def)
qed

lemma hdr_ref_end: "hdr_ref cl (CRLF @ rest) = (HdrDone, 2, cl)"
  by (simp add: hdr_ref.simps CRLF_def)

text \<open>A line that starts with another byte than the two that count.\<close>

lemma line_ref_other: "x \<noteq> 67 \<Longrightarrow> x \<noteq> 84 \<Longrightarrow> line_ref cl (x # t) = (False, cl)"
  by (simp add: line_ref_def HTTP_CONTENT_LEN_STR_def HTTP_TRANSFER_ENC_STR_def ascii_def)

text \<open>The digits of a number.\<close>

lemma dec_digits_digits: "c \<in> set (dec_digits n) \<Longrightarrow> \<exists>d < 10. c = of_nat (48 + d)"
proof (induction n rule: dec_digits.induct)
  case (1 n)
  have "n < 10 \<and> c = of_nat (48 + n) \<or> \<not> n < 10 \<and> (c \<in> set (dec_digits (n div 10)) \<or> c = of_nat (48 + n mod 10))"
    using 1(2) by (auto simp: dec_digits.simps [of n] split: if_splits)
  moreover have "n mod 10 < 10" by simp
  ultimately show ?case using 1(1) by blast
qed

lemma digit_byte: "d < 10 \<Longrightarrow> unat (of_nat (48 + d) :: u8) = 48 + d"
  by (simp add: unat_of_nat del: of_nat_add)

lemma dec_digits_isdigit: "\<forall>c \<in> set (dec_digits n). isdigit c"
  using dec_digits_digits digit_byte by (fastforce simp: isdigit_def word_unat_le)

lemma http_digits_value_dec: "http_digits_value 0 (dec_digits n) = of_nat n"
proof (induction n rule: dec_digits.induct)
  case (1 n)
  have d: "ucast (of_nat (48 + d) :: u8) - 48 = (of_nat d :: u32)" if "d < 10" for d
    using digit_byte [OF that] that
    by (simp add: word_unat_eq_iff unat_sub_if_word unsigned_ucast_eq take_bit_nat_eq_self unat_of_nat)
  show ?case
  proof (cases "n < 10")
    case True
    then show ?thesis using d [OF True] by (subst dec_digits.simps) (simp add: http_digits_value_def)
  next
    case False
    have "of_nat n = of_nat (n div 10) * 10 + (of_nat (n mod 10) :: u32)"
      by (metis of_nat_add of_nat_mult of_nat_numeral div_mult_mod_eq)
    then show ?thesis
      using 1 False d [of "n mod 10"] by (subst dec_digits.simps) (simp add: http_digits_value_def)
  qed
qed

lemma dec_digits_ne [simp]: "dec_digits n \<noteq> []"
  by (simp add: dec_digits.simps [of n])

lemma isdigit_not_blank: "isdigit c \<Longrightarrow> \<not> isblank c"
  by (auto simp: isdigit_def isblank_def)

lemma content_length_line:
  "line_ref cl (HTTP_CONTENT_LEN_STR @ ascii '' '' @ dec_digits n @ CRLF) = (False, of_nat n)"
proof -
  let ?d = "dec_digits n"
  have all: "\<forall>c \<in> set ?d. isdigit c" by (rule dec_digits_isdigit)
  then have "\<not> isblank (hd ?d)"
    using hd_in_set [OF dec_digits_ne] isdigit_not_blank by blast
  then have b: "dropWhile isblank (ascii '' '' @ ?d @ CRLF) = ?d @ CRLF"
    by (cases ?d) (simp_all add: ascii_def isblank_def)
  have "takeWhile isdigit (?d @ CRLF) = ?d" "dropWhile isdigit (?d @ CRLF) = CRLF"
    using all by (simp_all add: takeWhile_append dropWhile_append CRLF_def isdigit_def)
  then show ?thesis
    by (simp add: line_ref_def b http_digits_value_dec) (simp add: CRLF_def)
qed

lemma strcasestr_prefix: "strcasestr (needle @ hay) needle"
proof (cases "needle @ hay")
  case Nil
  then show ?thesis by simp
next
  case (Cons a l)
  have "take (length needle) (a # l) = needle"
    unfolding Cons [symmetric] by simp
  then show ?thesis
    unfolding Cons strcasestr.simps by simp
qed

lemma take_before_CRLF:
  assumes "13 \<notin> set v" and "take (length v) (f @ CRLF) = v"
  shows "length v \<le> length f" and "take (length v) f = v"
proof -
  show le: "length v \<le> length f"
  proof (rule ccontr)
    assume "\<not> length v \<le> length f"
    then have "v ! length f = 13" "v ! length f \<in> set v"
      using assms(2) by (metis CRLF_def not_le nth_append_length nth_take, simp)
    then show False using assms(1) by simp
  qed
  then show "take (length v) f = v" using assms(2) by simp
qed

lemma user_field_line:
  assumes "http_validate_fields (Some f)" and "10 \<notin> set f" and "take 18 f \<noteq> HTTP_TRANSFER_ENC_STR"
  shows "line_ref cl (f @ CRLF) = (False, cl)"
proof -
  have "13 \<notin> set HTTP_CONTENT_LEN_STR" "13 \<notin> set HTTP_TRANSFER_ENC_STR"
    by (simp_all add: HTTP_CONTENT_LEN_STR_def HTTP_TRANSFER_ENC_STR_def ascii_def)
  note b = take_before_CRLF [OF this(1), of f] take_before_CRLF [OF this(2), of f]
  have "strcasestr f HTTP_CONTENT_LEN_STR" if "take 15 (f @ CRLF) = HTTP_CONTENT_LEN_STR"
    using b(2) that strcasestr_prefix [of HTTP_CONTENT_LEN_STR "drop 15 f"]
    by (metis append_take_drop_id http_strs(1))
  then show ?thesis
    using b(4) assms(1,3) by (auto simp: line_ref_def http_validate_fields_def)
qed

text \<open>The lines of a request whose strings hold no line feed.\<close>

definition plain_request :: "tpg_http_client \<Rightarrow> bool" where
  "plain_request cfg \<longleftrightarrow>
     10 \<notin> set (HTTP_OBJECT_NAME (hc_req_object_name cfg)) \<and> 10 \<notin> set (HTTP_HOST_NAME (hc_req_host_name cfg)) \<and>
     10 \<notin> set (HTTP_FIELDS (hc_req_fields cfg)) \<and> HTTP_FIELDS (hc_req_fields cfg) \<noteq> [] \<and>
     take 18 (HTTP_FIELDS (hc_req_fields cfg)) \<noteq> HTTP_TRANSFER_ENC_STR"

lemma digits_no_LF: "10 \<notin> set (dec_digits n)"
  using dec_digits_isdigit [of n] by (auto simp: isdigit_def)

lemma default_fields_line: "line_ref cl (HTTP_DEFAULT_USER_FIELDS @ CRLF) = (False, cl)"
  by (simp add: line_ref_def HTTP_DEFAULT_USER_FIELDS_def HTTP_CONTENT_LEN_STR_def HTTP_TRANSFER_ENC_STR_def ascii_def CRLF_def)

lemma fields_line:
  assumes "http_validate_fields o_fields" and "10 \<notin> set (HTTP_FIELDS o_fields)"
    and "take 18 (HTTP_FIELDS o_fields) \<noteq> HTTP_TRANSFER_ENC_STR"
  shows "line_ref cl (HTTP_FIELDS o_fields @ CRLF) = (False, cl)"
  using assms user_field_line default_fields_line by (cases o_fields) (auto simp: HTTP_FIELDS_def)

lemma http_client_validate_cfgD:
  assumes "http_client_validate_cfg cfg"
  shows "hc_req_method cfg = HTTP_METHOD__GET \<or> hc_req_method cfg = HTTP_METHOD__HEAD"
    and "hc_req_size cfg < HTTP_CONTENT_LENGTH_INVALID" and "http_validate_fields (hc_req_fields cfg)"
  using assms by (auto simp: http_client_validate_cfg_def not_le split: if_splits)

lemma request_header_parsed:
  assumes ok: "http_client_validate_cfg cfg" and plain: "plain_request cfg"
  shows "hdr_ref cl (concat (http_req_lines cfg) @ body) =
           (HdrDone, length (concat (http_req_lines cfg)), hc_req_size cfg)"
proof -
  let ?first = "http_method_names (hc_req_method cfg) @ ascii '' '' @ HTTP_OBJECT_NAME (hc_req_object_name cfg) @
        ascii '' HTTP/1.1''"
  let ?agent = "HTTP_USER_AGENT_STR @ ascii '' '' @ HTTP_TPG_USER_AGENT"
  let ?host = "HTTP_HOST_STR @ ascii '' '' @ HTTP_HOST_NAME (hc_req_host_name cfg)"
  let ?flds = "HTTP_FIELDS (hc_req_fields cfg)"
  let ?len = "HTTP_CONTENT_LEN_STR @ ascii '' '' @ dec_digits (unat (hc_req_size cfg))"
  have cc: "concat (http_req_lines cfg) @ body =
      (?first @ CRLF) @ (?agent @ CRLF) @ (?host @ CRLF) @ (?flds @ CRLF) @ (?len @ CRLF) @ CRLF @ body"
    by (simp add: http_req_lines_def)
  have r1: "line_ref c (?first @ CRLF) = (False, c)" "10 \<notin> set ?first" "?first \<noteq> []" for c
    using http_client_validate_cfgD(1) [OF ok] plain
    by (auto simp: http_method_names_def ascii_def line_ref_other plain_request_def)
  have r2: "line_ref c (?agent @ CRLF) = (False, c)" "10 \<notin> set ?agent" "?agent \<noteq> []" for c
    by (simp_all add: HTTP_USER_AGENT_STR_def HTTP_TPG_USER_AGENT_def ascii_def line_ref_other)
  have r3: "line_ref c (?host @ CRLF) = (False, c)" "10 \<notin> set ?host" "?host \<noteq> []" for c
    using plain by (simp_all add: HTTP_HOST_STR_def ascii_def line_ref_other plain_request_def)
  have r4: "line_ref c (?flds @ CRLF) = (False, c)" "10 \<notin> set ?flds" "?flds \<noteq> []" for c
    using plain fields_line [OF http_client_validate_cfgD(3) [OF ok]] by (simp_all add: plain_request_def)
  have r5: "line_ref c (?len @ CRLF) = (False, hc_req_size cfg)" "10 \<notin> set ?len" "?len \<noteq> []" for c
    using content_length_line [of c "unat (hc_req_size cfg)"] digits_no_LF
    by (simp_all add: HTTP_CONTENT_LEN_STR_def ascii_def)
  note e = hdr_ref_end [of "hc_req_size cfg" body]
  note h5 = hdr_ref_line [OF r5(2,3) r5(1) e]
  note h4 = hdr_ref_line [OF r4(2,3) r4(1) h5]
  note h3 = hdr_ref_line [OF r3(2,3) r3(1) h4]
  note h2 = hdr_ref_line [OF r2(2,3) r2(1) h3]
  note h1 = hdr_ref_line [OF r1(2,3) r1(1) h2, of cl]
  have "length (concat (http_req_lines cfg)) =
      length (?first @ CRLF) + (length (?agent @ CRLF) + (length (?host @ CRLF) + (length (?flds @ CRLF) +
        (length (?len @ CRLF) + 2))))"
    by (simp add: http_req_lines_def CRLF_def)
  then show ?thesis unfolding cc using h1 by (simp only:)
qed

text \<open>
  C27: a client whose configuration was validated, with strings of one line, builds a request that a server which
  waits for a request understands: it takes the whole request, counts it, and starts to send its response from the
  beginning.
\<close>

theorem built_request_understood:
  assumes "pktmbuf_ops_spec room po" and "False \<notin> set bs" and "http_client_validate_cfg cfg" and "plain_request cfg"
    and "length (concat (http_req_lines cfg)) \<le> room"
    and "length (concat (http_req_lines cfg)) + unat (hc_req_size cfg) < 4294967296"
    and "ha_state srv = HTTPS_SRV_PARSE_REQ_HDR" and "APP_RECV_SCAN_OFFSET addr srv = 0"
    and "http_mbuf srv = r # resp"
  shows "\<exists>c bs'. http_client_tc_start po cfg bs = Some (Some c, bs') \<and> pkt_wf c \<and>
    (\<exists>body. chain_bytes c = concat (http_req_lines cfg) @ body \<and> length body = unat (hc_req_size cfg)) \<and>
    http_server_deliver_data addr srv stats c =
      Some (mb_pkt_len (hd c),
            srv\<lparr>ha_ptr := HaSend \<lparr>asp_mbuf_chain = r # resp, asp_data_offset = 0, asp_data_len = mb_pkt_len r\<rparr>,
                ha_content_length := mb_pkt_len r, ha_req_cnt := ha_req_cnt srv + 1, ha_state := HTTPS_SRV_SEND_RESP\<rparr>,
            stats\<lparr>hsts_req_cnt := hsts_req_cnt stats + 1\<rparr>, [HTTP_SEND_START])"
proof -
  let ?h = "concat (http_req_lines cfg)"
  have ne: "?h \<noteq> []" by (simp add: http_req_lines_def CRLF_def)
  obtain c bs' body where c: "http_build_pkt po (http_req_lines cfg) (hc_req_size cfg) [] False bs = Some (0, Some c, bs')"
    "pkt_wf c" "chain_bytes c = ?h @ body" "length body = unat (hc_req_size cfg)"
    using http_build_pkt_fits [OF assms(1,5) ne assms(2,6)] by blast
  have "server_ref srv stats (chain_bytes c) =
    body_ref server_finish
      (srv\<lparr>ha_ptr := HaRecv 0, ha_content_length := hc_req_size cfg, ha_state := HTTPS_SRV_RECV_REQ_BODY\<rparr>) stats
      (of_nat (length (chain_bytes c))) (hc_req_size cfg)"
    using assms(7) less_imp_neq [OF http_client_validate_cfgD(2) [OF assms(3)]] c(4)
    by (simp add: recv_ref_def c(3) request_header_parsed [OF assms(3,4)])
  also have "\<dots> = Some (mb_pkt_len (hd c),
      srv\<lparr>ha_ptr := HaSend \<lparr>asp_mbuf_chain = r # resp, asp_data_offset = 0, asp_data_len = mb_pkt_len r\<rparr>,
          ha_content_length := mb_pkt_len r, ha_req_cnt := ha_req_cnt srv + 1, ha_state := HTTPS_SRV_SEND_RESP\<rparr>,
      stats\<lparr>hsts_req_cnt := hsts_req_cnt stats + 1\<rparr>, [HTTP_SEND_START])"
    using assms(9) pkt_wf_len(1) [OF c(2)]
    by (simp add: body_ref_def server_finish_def http_server_goto_send_resp_def http_goto_send_def APP_SEND_PTR_INIT_def)
  finally show ?thesis
    using c server_receives [OF c(2), of srv addr stats] ne assms(8)
    by (simp add: http_client_tc_start_def http_build_req_pkt_def)
qed

text \<open>Functions on buffers with 2048 bytes of room.\<close>

definition ex_po :: pktmbuf_ops where
  "ex_po =
     \<lparr>po_new = \<lparr>mb_data = [], mb_pkt_len = 0, mb_nb_segs = 1\<rparr>,
      po_tailroom = (\<lambda>m. of_nat (2048 - length (mb_data m))),
      po_append = (\<lambda>c bs. if c = [] \<or> length bs > 2048 - length (mb_data (last c)) then None
                     else Some (head_pkt_len (\<lambda>n. n + of_nat (length bs)) (last_upd bs c))),
      po_chain = (\<lambda>a b. if length a + length b > 65535 then (- 75, a)
                    else (0, head_pkt_len (\<lambda>n. n + mb_pkt_len (hd b)) (a @ b))),
      po_unwritten = (\<lambda>n. replicate n 0)\<rparr>"

lemma ex_po_spec: "pktmbuf_ops_spec 2048 ex_po"
  by (simp add: pktmbuf_ops_spec_def ex_po_def)

definition ex_cfg :: tpg_http_client where
  "ex_cfg = http_client_default_cfg\<lparr>hc_req_size := 3\<rparr>"

definition ex_srv :: http_app where
  "ex_srv = http_server_conn_up
     \<lparr>ha_ptr = HaRecv 7, ha_content_length = 0, ha_req_cnt = 0, ha_resp_cnt = 0, ha_state = HTTPS_CLOSED,
      http_mbuf = [\<lparr>mb_data = [1, 2], mb_pkt_len = 2, mb_nb_segs = 1\<rparr>]\<rparr>"

lemma ex_cfg_ok:
  "http_client_validate_cfg ex_cfg" "plain_request ex_cfg" "length (concat (http_req_lines ex_cfg)) \<le> 2048"
  by (simp_all add: ex_cfg_def http_client_default_cfg_def http_client_validate_cfg_def HTTP_CONTENT_LENGTH_INVALID_def
      http_validate_fields_def plain_request_def HTTP_OBJECT_NAME_def HTTP_HOST_NAME_def HTTP_FIELDS_def
      HTTP_DEFAULT_OBJECT_NAME_def HTTP_DEFAULT_HOST_NAME_def HTTP_DEFAULT_USER_FIELDS_def HTTP_TRANSFER_ENC_STR_def
      ascii_def http_req_lines_def http_method_names_def HTTP_USER_AGENT_STR_def HTTP_TPG_USER_AGENT_def CRLF_def
      HTTP_HOST_STR_def HTTP_CONTENT_LEN_STR_def dec_digits.simps)

lemma ex_srv_waits:
  "ha_state ex_srv = HTTPS_SRV_PARSE_REQ_HDR" "APP_RECV_SCAN_OFFSET addr ex_srv = 0"
  "http_mbuf ex_srv = [\<lparr>mb_data = [1, 2], mb_pkt_len = 2, mb_nb_segs = 1\<rparr>]"
  by (simp_all add: ex_srv_def http_server_conn_up_def APP_RECV_PTR_INIT_def http_goto_recv_headers_def APP_RECV_SCAN_OFFSET_def)

theorem built_request_understood_witness:
  "\<exists>c bs' app' stats'. http_client_tc_start ex_po ex_cfg [True] = Some (Some c, bs') \<and> pkt_wf c \<and>
     http_server_deliver_data (\<lambda>c. 0) ex_srv http_stats_init c = Some (mb_pkt_len (hd c), app', stats', [HTTP_SEND_START]) \<and>
     hsts_req_cnt stats' = 1 \<and> ha_state app' = HTTPS_SRV_SEND_RESP"
proof -
  have "unat (hc_req_size ex_cfg) = 3" by (simp add: ex_cfg_def)
  then have "length (concat (http_req_lines ex_cfg)) + unat (hc_req_size ex_cfg) < 4294967296"
    using ex_cfg_ok(3) by linarith
  then show ?thesis
    using built_request_understood [OF ex_po_spec _ ex_cfg_ok(1-3) _ ex_srv_waits, of "[True]" "\<lambda>c. 0" http_stats_init]
    by (fastforce simp: http_stats_init_def)
qed

subsection \<open>A request that is cut\<close>

text \<open>
  C26: when a server has been delivered the beginning of a request and answers nothing yet, delivering the bytes it did
  not consume with those that follow has the same effect as delivering everything at once, however the bytes lie in
  buffers: the same session, statistics and notifications, and the same bytes consumed. The session is then again in a
  state from which this holds.
\<close>

theorem request_cut_anywhere:
  assumes "pkt_wf d1" and "pkt_wf d2" and "pkt_wf d" and "chain_bytes d1 \<noteq> []" and "b \<noteq> []"
    and "chain_bytes d = chain_bytes d1 @ b" and "chain_bytes d2 = drop (unat n1) (chain_bytes d1) @ b"
    and "ha_state app = HTTPS_SRV_PARSE_REQ_HDR \<Longrightarrow> scan_at (APP_RECV_SCAN_OFFSET addr app) (chain_bytes d1)"
    and "http_server_deliver_data addr app stats d1 = Some (n1, app1, stats1, [])"
  shows "http_server_deliver_data addr app stats d =
           map_option (\<lambda>(n, app', stats', ns). (if HTTP_CLOSE \<in> set ns then 0 else n1 + n, app', stats', ns))
             (http_server_deliver_data addr app1 stats1 d2) \<and>
         (ha_state app1 = HTTPS_SRV_PARSE_REQ_HDR \<longrightarrow> scan_at (APP_RECV_SCAN_OFFSET addr app1) (chain_bytes d2))"
  using server_cut [OF assms] by (simp add: delivered_more_def [abs_def])

definition ex_d1 :: chain where
  "ex_d1 = [\<lparr>mb_data = [65, 13], mb_pkt_len = 2, mb_nb_segs = 1\<rparr>]"

definition ex_d2 :: chain where
  "ex_d2 = [\<lparr>mb_data = [65, 13, 10], mb_pkt_len = 5, mb_nb_segs = 2\<rparr>, \<lparr>mb_data = [13, 10], mb_pkt_len = 2, mb_nb_segs = 1\<rparr>]"

definition ex_d :: chain where
  "ex_d = [\<lparr>mb_data = [65], mb_pkt_len = 5, mb_nb_segs = 2\<rparr>, \<lparr>mb_data = [13, 10, 13, 10], mb_pkt_len = 4, mb_nb_segs = 1\<rparr>]"

lemma ex_d_wf: "pkt_wf ex_d1" "pkt_wf ex_d2" "pkt_wf ex_d"
  "chain_bytes ex_d1 = [65, 13]" "chain_bytes ex_d2 = [65, 13, 10, 13, 10]" "chain_bytes ex_d = [65, 13, 10, 13, 10]"
  by (simp_all add: ex_d1_def ex_d2_def ex_d_def pkt_wf_def chain_ok_def mbuf_ok_def)

lemma ex_d1_delivered:
  "http_server_deliver_data addr ex_srv stats ex_d1 = Some (0, ex_srv\<lparr>ha_ptr := HaRecv 1\<rparr>, stats, [])"
  using server_receives [OF ex_d_wf(1), of ex_srv addr stats]
  by (simp add: ex_d_wf ex_srv_waits recv_ref_def hdr_ref.simps scanned_def)

theorem request_cut_anywhere_witness:
  "http_server_deliver_data (\<lambda>c. 9) ex_srv http_stats_init ex_d =
     http_server_deliver_data (\<lambda>c. 9) (ex_srv\<lparr>ha_ptr := HaRecv 1\<rparr>) http_stats_init ex_d2 \<and>
   scan_at 1 (chain_bytes ex_d2)"
proof -
  note c = request_cut_anywhere [OF ex_d_wf(1-3) _ _ _ _ _ ex_d1_delivered, of "[10, 13, 10]" "\<lambda>c. 9" http_stats_init]
  have "map_option (\<lambda>(n, app', stats', ns). (if HTTP_CLOSE \<in> set ns then 0 else 0 + n, app', stats', ns))
      (http_server_deliver_data (\<lambda>c. 9) (ex_srv\<lparr>ha_ptr := HaRecv 1\<rparr>) http_stats_init ex_d2) =
    http_server_deliver_data (\<lambda>c. 9) (ex_srv\<lparr>ha_ptr := HaRecv 1\<rparr>) http_stats_init ex_d2"
  proof -
    have at: "scan_at (APP_RECV_SCAN_OFFSET (\<lambda>c. 9) (ex_srv\<lparr>ha_ptr := HaRecv 1\<rparr>)) (chain_bytes ex_d2)"
      using c by (simp add: ex_d_wf ex_srv_waits)
    show ?thesis
      using server_receives [OF ex_d_wf(2) _ at, of http_stats_init]
      by (simp add: ex_d_wf ex_srv_waits recv_ref_def hdr_ref.simps line_ref_other server_no_length_def
          http_server_goto_send_resp_def http_goto_send_def APP_SEND_PTR_INIT_def ex_srv_def http_server_conn_up_def
          APP_RECV_PTR_INIT_def http_goto_recv_headers_def)
  qed
  moreover have "APP_RECV_SCAN_OFFSET addr (ex_srv\<lparr>ha_ptr := HaRecv 1\<rparr>) = 1" for addr
    by (simp add: APP_RECV_SCAN_OFFSET_def)
  ultimately show ?thesis using c by (simp add: ex_d_wf ex_srv_waits)
qed

end
