(* ===== verification/HttpSession.thy ===== *)
theory HttpSession
  imports HttpProps
begin

text \<open>
  Sending over a session: the send pointer is a position in the message (\<open>send_rest\<close>), and a client session is a
  sequence of sends and deliveries (\<open>client_run\<close>) whose output is whole requests, one for each response.
\<close>

subsection \<open>The send pointer\<close>

definition send_rest :: "app_send_ptr \<Rightarrow> u8 list" where
  "send_rest p = drop (unat (asp_data_offset p)) (chain_bytes (asp_mbuf_chain p))"

definition message_ok :: "chain \<Rightarrow> bool" where
  "message_ok c \<longleftrightarrow> chain_ok c \<and> (\<forall>m \<in> set c. mb_data m \<noteq> [])"

definition send_ok :: "app_send_ptr \<Rightarrow> bool" where
  "send_ok p \<longleftrightarrow> message_ok (asp_mbuf_chain p) \<and>
     (case asp_mbuf_chain p of [] \<Rightarrow> asp_data_offset p = 0 | m # _ \<Rightarrow> unat (asp_data_offset p) < length (mb_data m)) \<and>
     asp_data_len p = of_nat (length (send_rest p))"

lemma message_ok_Cons: "message_ok (m # c) \<Longrightarrow> mbuf_ok m \<and> mb_data m \<noteq> [] \<and> message_ok c"
  by (auto simp: message_ok_def dest: chain_ok_ConsD)

lemma message_ok_empty: "message_ok c \<Longrightarrow> chain_bytes c = [] \<longleftrightarrow> c = []"
  by (cases c) (auto simp: message_ok_def)

lemma send_ptr_skip_bytes:
  assumes "message_ok c" and "unat count \<le> length (chain_bytes c)"
  shows "\<exists>c' off. send_ptr_skip c count = Some (c', off) \<and> message_ok c' \<and>
           (case c' of [] \<Rightarrow> off = 0 | m # _ \<Rightarrow> unat off < length (mb_data m)) \<and>
           drop (unat off) (chain_bytes c') = drop (unat count) (chain_bytes c)"
  using assms
proof (induction c count rule: send_ptr_skip.induct)
  case (1 count)
  then show ?case by (simp add: unat_eq_0)
next
  case (2 m c count)
  note m = message_ok_Cons [OF 2(2)]
  show ?case
  proof (cases "count \<noteq> 0 \<and> data_len m \<le> count")
    case True
    then have u: "unat (count - data_len m) = unat count - length (mb_data m)" "length (mb_data m) \<le> unat count"
      using m by (simp_all add: unat_sub word_unat_le)
    then have "unat (count - data_len m) \<le> length (chain_bytes c)" using 2(3) by simp
    from 2(1) [OF True conjunct2 [OF conjunct2 [OF m]] this] show ?thesis using True u by simp
  next
    case False
    then have "unat count < length (mb_data m)"
      using m by (auto simp: word_unat_le)
    then show ?thesis using False 2(2) by auto
  qed
qed

lemma send_ok_len: "send_ok p \<Longrightarrow> unat (asp_data_len p) = length (send_rest p) \<and> length (send_rest p) < 4294967296"
  by (auto simp: send_ok_def message_ok_def chain_ok_def send_rest_def unat_of_nat)

lemma app_send_ptr_advance_bytes:
  assumes "send_ok p" and "send_rest p \<noteq> []" and "unat count \<le> length (send_rest p)"
  shows "\<exists>p'. app_send_ptr_advance p count = Some p' \<and> send_ok p' \<and> send_rest p' = drop (unat count) (send_rest p)"
proof -
  obtain m c where ch: "asp_mbuf_chain p = m # c"
    using assms(2) by (cases "asp_mbuf_chain p") (auto simp: send_rest_def)
  let ?off = "unat (asp_data_offset p)"
  have ok: "message_ok (m # c)" "?off < length (mb_data m)" and mo: "mbuf_ok m" and oc: "message_ok c"
    using assms(1) message_ok_Cons ch by (auto simp: send_ok_def)
  have rest: "send_rest p = drop ?off (mb_data m) @ chain_bytes c"
    using ok(2) by (simp add: send_rest_def ch)
  have first: "unat (data_len m - asp_data_offset p) = length (mb_data m) - ?off"
    using ok(2) mo by (simp add: unat_sub word_unat_le)
  have len: "asp_data_len p - count = of_nat (length (drop (unat count) (send_rest p)))"
    using send_ok_len [OF assms(1)] assms(3) by (simp add: word_unat_eq_iff unat_sub word_unat_le unat_of_nat)
  have mk: "send_ok p' \<and> send_rest p' = drop (unat count) (send_rest p)"
    if "message_ok c'" "case c' of [] \<Rightarrow> off = 0 | m # _ \<Rightarrow> unat off < length (mb_data m)"
      "drop (unat off) (chain_bytes c') = drop (unat count) (send_rest p)"
      "p' = p\<lparr>asp_data_len := asp_data_len p - count, asp_mbuf_chain := c', asp_data_offset := off\<rparr>" for c' off p'
    using that len by (cases c') (simp_all add: send_ok_def send_rest_def)
  show ?thesis
  proof (cases "asp_data_offset p = 0")
    case True
    have "unat count \<le> length (chain_bytes (m # c))" using assms(3) rest True by simp
    from send_ptr_skip_bytes [OF ok(1) this] obtain c' off where
      s: "send_ptr_skip (m # c) count = Some (c', off)" "message_ok c'"
      "case c' of [] \<Rightarrow> off = 0 | m # _ \<Rightarrow> unat off < length (mb_data m)"
      "drop (unat off) (chain_bytes c') = drop (unat count) (chain_bytes (m # c))"
      by blast
    have "drop (unat off) (chain_bytes c') = drop (unat count) (send_rest p)"
      using s(4) rest True by simp
    from mk [OF s(2,3) this refl] show ?thesis
      using True s(1) by (simp add: app_send_ptr_advance_def ch Let_def)
  next
    case False
    consider (less) "count < data_len m - asp_data_offset p" | (eq) "count = data_len m - asp_data_offset p"
      | (more) "data_len m - asp_data_offset p < count" by fastforce
    then show ?thesis
    proof cases
      case less
      then have u: "unat count < length (mb_data m) - ?off" using first by (simp add: word_unat_less)
      then have uo: "unat (asp_data_offset p + count) = ?off + unat count"
        using mo by (simp add: word_le_plus_unat mbuf_ok_def)
      have dr: "drop (unat (asp_data_offset p + count)) (chain_bytes (m # c)) = drop (unat count) (send_rest p)"
        unfolding rest uo using u by (simp add: add.commute)
      have sm: "p\<lparr>asp_data_len := l, asp_data_offset := x\<rparr> =
          p\<lparr>asp_data_len := l, asp_mbuf_chain := m # c, asp_data_offset := x\<rparr>" for l x
        using ch by (cases p) simp
      have "case m # c of [] \<Rightarrow> asp_data_offset p + count = 0
          | m # _ \<Rightarrow> unat (asp_data_offset p + count) < length (mb_data m)"
        using u uo by simp
      note mk [OF ok(1) this dr sm]
      then show ?thesis
        using False less by (simp add: app_send_ptr_advance_def ch Let_def)
    next
      case eq
      then have dr: "drop (unat (0::u32)) (chain_bytes c) = drop (unat count) (send_rest p)"
        using first by (simp add: rest)
      have "case c of [] \<Rightarrow> (0::u32) = 0 | m # _ \<Rightarrow> unat (0::u32) < length (mb_data m)"
        using oc by (auto simp: message_ok_def split: list.splits)
      note mk [OF oc this dr refl]
      moreover have "app_send_ptr_advance p count =
          Some (p\<lparr>asp_data_len := asp_data_len p - count, asp_mbuf_chain := c, asp_data_offset := 0\<rparr>)"
        using False eq by (simp add: app_send_ptr_advance_def ch)
      ultimately show ?thesis by blast
    next
      case more
      then have u: "unat (count - (data_len m - asp_data_offset p)) = unat count - (length (mb_data m) - ?off)"
          "length (mb_data m) - ?off < unat count"
        using first by (simp_all add: unat_sub word_unat_le word_unat_less)
      then have "unat (count - (data_len m - asp_data_offset p)) \<le> length (chain_bytes c)"
        using assms(3) by (simp add: rest)
      from send_ptr_skip_bytes [OF oc this] obtain c' off where
        s: "send_ptr_skip c (count - (data_len m - asp_data_offset p)) = Some (c', off)" "message_ok c'"
        "case c' of [] \<Rightarrow> off = 0 | m # _ \<Rightarrow> unat off < length (mb_data m)"
        "drop (unat off) (chain_bytes c') = drop (unat (count - (data_len m - asp_data_offset p))) (chain_bytes c)"
        by blast
      have "drop (unat off) (chain_bytes c') = drop (unat count) (send_rest p)"
        using s(4) u by (simp add: rest)
      note mk [OF s(2,3) this refl]
      moreover have "app_send_ptr_advance p count =
          Some (p\<lparr>asp_data_len := asp_data_len p - count, asp_mbuf_chain := c', asp_data_offset := off\<rparr>)"
        using False more s(1) by (simp add: app_send_ptr_advance_def ch Let_def not_less_iff_gr_or_eq)
      ultimately show ?thesis by blast
    qed
  qed
qed

text \<open>The bytes that are sent next.\<close>

lemma send_data_bytes:
  assumes "send_ok p" and "send_rest p \<noteq> []" and "mx \<noteq> 0"
  shows "\<exists>c bs'. data_chain_from_static_chain (asp_mbuf_chain p) (asp_data_offset p) (min (asp_data_len p) mx) bs =
             Some (c, bs') \<and> (c = [] \<longrightarrow> False \<in> set bs) \<and>
             (c \<noteq> [] \<longrightarrow> chain_bytes c = take (unat mx) (send_rest p))"
proof -
  obtain m r where ch: "asp_mbuf_chain p = m # r"
    using assms(2) by (cases "asp_mbuf_chain p") (auto simp: send_rest_def)
  have ok: "list_all mbuf_ok (m # r)" "unat (asp_data_offset p) \<le> length (mb_data (hd (m # r)))"
    using assms(1) by (auto simp: send_ok_def message_ok_def chain_ok_def ch)
  note l = send_ok_len [OF assms(1)]
  have nz: "min (asp_data_len p) mx \<noteq> 0"
    using assms(2,3) l by (auto simp: min_def)
  have un: "unat (min (asp_data_len p) mx) = min (length (send_rest p)) (unat mx)"
    using l by (auto simp: min_def word_unat_le)
  obtain ok1 bs1 where a: "pkt_mbuf_alloc bs = (ok1, bs1)" by fastforce
  note al = pkt_mbuf_alloc_set [OF a]
  obtain c ok2 bs' where c: "data_static_chain_loop (m # r) (asp_data_offset p) (min (asp_data_len p) mx) bs1 =
      Some (c, ok2, bs')" "c \<noteq> []" "\<not> ok2 \<longrightarrow> False \<in> set bs1"
      "ok2 \<longrightarrow> chain_bytes c = take (unat (min (asp_data_len p) mx)) (drop (unat (asp_data_offset p)) (chain_bytes (m # r)))"
    using data_static_chain_loop_range [OF ok(1) _ ok(2), of "min (asp_data_len p) mx" bs1] by blast
  have "take (unat (min (asp_data_len p) mx)) (send_rest p) = take (unat mx) (send_rest p)"
    unfolding un by (metis min.commute take_all_iff take_take order_refl)
  then show ?thesis
    using a al c nz by (auto simp: data_chain_from_static_chain_def ch send_rest_def)
qed

subsection \<open>A client session\<close>

text \<open>
  The session, its statistics, the bytes that the client handed to the protocol, and the bytes that came and were not
  consumed. The protocol takes a part of the bytes it is offered, and delivers the rest of the last time with new bytes.
\<close>

type_synonym http_run = "http_app \<times> http_stats \<times> u8 list \<times> u8 list"

inductive client_run :: "(chain \<Rightarrow> u32) \<Rightarrow> http_app \<Rightarrow> http_stats \<Rightarrow> http_run \<Rightarrow> bool"
  for addr :: "chain \<Rightarrow> u32" and app0 :: http_app and stats0 :: http_stats where
  up: "http_client_conn_up app0 = Some (app, ns) \<Longrightarrow> client_run addr app0 stats0 (app, stats0, [], [])"
| send: "client_run addr app0 stats0 (app, stats, out, pending) \<Longrightarrow> mx \<noteq> 0 \<Longrightarrow>
    http_client_send_data app stats mx bs = Some (c, stats', ns, bs') \<Longrightarrow> c \<noteq> [] \<Longrightarrow>
    0 < n \<Longrightarrow> unat n \<le> length (chain_bytes c) \<Longrightarrow>
    http_client_data_sent app stats' n = Some (all_sent, app', stats'', ns') \<Longrightarrow>
    client_run addr app0 stats0 (app', stats'', out @ take (unat n) (chain_bytes c), pending)"
| recv: "client_run addr app0 stats0 (app, stats, out, pending) \<Longrightarrow> pkt_wf d \<Longrightarrow>
    chain_bytes d = pending @ new \<Longrightarrow> new \<noteq> [] \<Longrightarrow>
    http_client_deliver_data addr app stats d = Some (n, app', stats', ns) \<Longrightarrow> HTTP_CLOSE \<notin> set ns \<Longrightarrow>
    client_run addr app0 stats0 (app', stats', out, drop (unat n) (pending @ new))"

text \<open>\<open>q\<close> requests are complete, \<open>k\<close> bytes of the next were sent, \<open>a\<close> responses came.\<close>

definition client_inv :: "(chain \<Rightarrow> u32) \<Rightarrow> chain \<Rightarrow> http_stats \<Rightarrow> nat \<Rightarrow> nat \<Rightarrow> nat \<Rightarrow> http_run \<Rightarrow> bool" where
  "client_inv addr c stats0 q k a run =
     (case run of (app, stats, out, pending) \<Rightarrow>
        http_mbuf app = c \<and> out = concat (replicate q (chain_bytes c)) @ take k (chain_bytes c) \<and>
        k < length (chain_bytes c) \<and>
        hsts_req_cnt stats = hsts_req_cnt stats0 + of_nat q \<and> hsts_resp_cnt stats = hsts_resp_cnt stats0 + of_nat a \<and>
        (case ha_state app of
           HTTPS_CL_SEND_REQ \<Rightarrow>
             q = a \<and> pending = [] \<and>
             (\<exists>p. ha_ptr app = HaSend p \<and> send_ok p \<and> send_rest p = drop k (chain_bytes c) \<and>
                  ha_content_length app = asp_data_len p)
         | HTTPS_CL_PARSE_RESP_HDR \<Rightarrow>
             q = Suc a \<and> k = 0 \<and> (\<forall>new. scan_at (APP_RECV_SCAN_OFFSET addr app) (pending @ new))
         | HTTPS_CL_RECV_RESP_BODY \<Rightarrow> q = Suc a \<and> k = 0 \<and> pending = []
         | _ \<Rightarrow> False))"

definition ready_to_send :: "chain \<Rightarrow> http_app \<Rightarrow> bool" where
  "ready_to_send c app \<longleftrightarrow> ha_state app = HTTPS_CL_SEND_REQ \<and> http_mbuf app = c \<and>
     (\<exists>p. ha_ptr app = HaSend p \<and> send_ok p \<and> send_rest p = chain_bytes c \<and> ha_content_length app = asp_data_len p)"

lemma goto_send_ready:
  assumes "http_client_goto_send_req app = Some (app', ns)" and "http_mbuf app = c" and "pkt_wf c" and "message_ok c"
  shows "ready_to_send c app'" and "ns = [HTTP_SEND_START]"
proof -
  obtain m r where c: "c = m # r" using assms(3) by (cases c) (auto simp: pkt_wf_def)
  let ?p = "\<lparr>asp_mbuf_chain = c, asp_data_offset = 0, asp_data_len = mb_pkt_len m\<rparr>"
  have "app' = app\<lparr>ha_ptr := HaSend ?p, ha_content_length := mb_pkt_len m, ha_state := HTTPS_CL_SEND_REQ\<rparr>"
    "ns = [HTTP_SEND_START]"
    using assms(1,2) by (auto simp: http_client_goto_send_req_def http_goto_send_def APP_SEND_PTR_INIT_def c)
  moreover have "send_ok ?p"
    using assms(3,4) by (auto simp: send_ok_def send_rest_def pkt_wf_def c message_ok_def)
  ultimately show "ready_to_send c app'" "ns = [HTTP_SEND_START]"
    using assms(2) by (auto simp: ready_to_send_def send_rest_def)
qed

lemma client_inv_ready:
  assumes "ready_to_send c app" and "chain_bytes c \<noteq> []" and "hsts_req_cnt stats = hsts_req_cnt stats0 + of_nat q"
    and "hsts_resp_cnt stats = hsts_resp_cnt stats0 + of_nat q" and "out = concat (replicate q (chain_bytes c))"
  shows "client_inv addr c stats0 q 0 q (app, stats, out, [])"
  using assms by (auto simp: client_inv_def ready_to_send_def)

text \<open>A delivery that does not close the session.\<close>

lemma client_delivery:
  assumes "client_ref app stats bs = Some (n, app', stats', ns)" and "HTTP_CLOSE \<notin> set ns"
    and "http_mbuf app = c" and "pkt_wf c" and "message_ok c" and "length bs < 4294967296"
  shows "hsts_req_cnt stats' = hsts_req_cnt stats \<and>
    (ns = [] \<and> hsts_resp_cnt stats' = hsts_resp_cnt stats \<and> http_mbuf app' = c \<and>
       (ha_state app' = HTTPS_CL_PARSE_RESP_HDR \<or> ha_state app' = HTTPS_CL_RECV_RESP_BODY \<and> drop (unat n) bs = []) \<or>
     ready_to_send c app' \<and> hsts_resp_cnt stats' = hsts_resp_cnt stats + 1 \<and> drop (unat n) bs = [])"
proof -
  have body: "hsts_req_cnt stats' = hsts_req_cnt stats \<and>
    (ns = [] \<and> hsts_resp_cnt stats' = hsts_resp_cnt stats \<and> http_mbuf app' = c \<and>
       ha_state app' = HTTPS_CL_RECV_RESP_BODY \<and> drop (unat n) bs = [] \<or>
     ready_to_send c app' \<and> hsts_resp_cnt stats' = hsts_resp_cnt stats + 1 \<and> drop (unat n) bs = [])"
    if b: "body_ref client_finish a stats (of_nat (length bs)) k = Some (n, app', stats', ns)" "http_mbuf a = c"
      "ha_state a = HTTPS_CL_RECV_RESP_BODY" for a k
  proof (cases "ha_content_length a \<le> k")
    case False
    then show ?thesis using b assms(6) by (auto simp: body_ref_def unat_of_nat)
  next
    case True
    then obtain ns1 where g: "http_client_goto_send_req (a\<lparr>ha_content_length := 0, ha_resp_cnt := ha_resp_cnt a + 1\<rparr>) =
        Some (app', ns1)" and s: "n = of_nat (length bs)" "stats' = stats\<lparr>hsts_resp_cnt := hsts_resp_cnt stats + 1\<rparr>"
      using b by (auto simp: body_ref_def client_finish_def)
    then show ?thesis
      using goto_send_ready(1) [OF g _ assms(4,5)] b(2) assms(6) by (simp add: unat_of_nat)
  qed
  obtain e m cl where h: "hdr_ref (ha_content_length app) bs = (e, m, cl)" by (metis prod_cases3)
  consider (hdr) "ha_state app = HTTPS_CL_PARSE_RESP_HDR" | (body) "ha_state app = HTTPS_CL_RECV_RESP_BODY"
    | (other) "ha_state app \<noteq> HTTPS_CL_PARSE_RESP_HDR" "ha_state app \<noteq> HTTPS_CL_RECV_RESP_BODY" by blast
  then show ?thesis
  proof cases
    case hdr
    show ?thesis
    proof (cases e)
      case HdrDone
      then have "body_ref client_finish
          (app\<lparr>ha_ptr := HaRecv 0, ha_content_length := cl, ha_state := HTTPS_CL_RECV_RESP_BODY\<rparr>) stats
          (of_nat (length bs)) (of_nat (length bs - m)) = Some (n, app', stats', ns)"
        using assms(1,2) hdr h by (auto simp: recv_ref_def client_no_length_def split: if_splits)
      from body [OF this] show ?thesis using assms(3) by simp blast
    qed (use assms(1-3) hdr h in \<open>auto simp: recv_ref_def\<close>)
  next
    case body': body
    then have "body_ref client_finish app stats (of_nat (length bs)) (of_nat (length bs)) = Some (n, app', stats', ns)"
      using assms(1) by (simp add: recv_ref_def)
    from body [OF this assms(3) body'] show ?thesis by blast
  next
    case other
    then show ?thesis using assms(1,2) by (auto simp: recv_ref_def)
  qed
qed

lemma http_client_sent_step:
  assumes "ha_state app = HTTPS_CL_SEND_REQ" and "ha_ptr app = HaSend p" and "send_ok p"
    and "ha_content_length app = asp_data_len p" and "send_rest p \<noteq> []" and "unat n \<le> length (send_rest p)"
  shows "\<exists>p'. send_ok p' \<and> send_rest p' = drop (unat n) (send_rest p) \<and>
    http_client_data_sent app stats n =
      (if unat n = length (send_rest p)
       then Some (True, app\<lparr>ha_ptr := HaSend p', ha_content_length := HTTP_CONTENT_LENGTH_INVALID,
                            ha_req_cnt := ha_req_cnt app + 1, ha_state := HTTPS_CL_PARSE_RESP_HDR\<rparr>,
                  stats\<lparr>hsts_req_cnt := hsts_req_cnt stats + 1\<rparr>, [HTTP_SEND_STOP])
       else Some (False, app\<lparr>ha_ptr := HaSend p', ha_content_length := asp_data_len p'\<rparr>, stats, []))"
proof -
  obtain p' where p': "app_send_ptr_advance p n = Some p'" "send_ok p'" "send_rest p' = drop (unat n) (send_rest p)"
    using app_send_ptr_advance_bytes [OF assms(3,5,6)] by blast
  have l: "asp_data_len p - n = asp_data_len p'"
    using send_ok_len [OF assms(3)] send_ok_len [OF p'(2)] p'(3) assms(6)
    by (simp add: word_unat_eq_iff unat_sub word_unat_le)
  have z: "asp_data_len p' = 0 \<longleftrightarrow> unat n = length (send_rest p)"
    using send_ok_len [OF p'(2)] p'(3) assms(6) by (auto simp: unat_eq_0 [symmetric])
  show ?thesis
    using p' l z assms(1,2,4)
    by (intro exI [of _ p']) (auto simp: http_client_data_sent_def http_sent_def http_goto_recv_headers_def)
qed

lemma send_rest_empty: "send_ok p \<Longrightarrow> send_rest p = [] \<Longrightarrow> asp_mbuf_chain p = []"
  by (cases "asp_mbuf_chain p") (auto simp: send_ok_def send_rest_def)

lemma client_inv_send:
  assumes inv: "client_inv addr c stats0 q k a (app, stats, out, pending)" and mx: "mx \<noteq> 0"
    and sd: "http_client_send_data app stats mx bs = Some (d, stats', ns, bs')" "d \<noteq> []"
    and n: "0 < n" "unat n \<le> length (chain_bytes d)"
    and st: "http_client_data_sent app stats' n = Some (all_sent, app', stats'', ns')"
  shows "\<exists>q k a. client_inv addr c stats0 q k a (app', stats'', out @ take (unat n) (chain_bytes d), pending)"
proof -
  have send: "ha_state app = HTTPS_CL_SEND_REQ"
    using sd by (auto simp: http_client_send_data_def http_send_data_def split: if_splits)
  obtain p where p: "ha_ptr app = HaSend p" "send_ok p" "send_rest p = drop k (chain_bytes c)"
      "ha_content_length app = asp_data_len p" and I: "q = a" "pending = []" "http_mbuf app = c"
      "out = concat (replicate q (chain_bytes c)) @ take k (chain_bytes c)" "k < length (chain_bytes c)"
      "hsts_req_cnt stats = hsts_req_cnt stats0 + of_nat q" "hsts_resp_cnt stats = hsts_resp_cnt stats0 + of_nat a"
    using inv send by (auto simp: client_inv_def)
  have ne: "send_rest p \<noteq> []" using p(3) I(5) by simp
  obtain d' bs1 where sb: "data_chain_from_static_chain (asp_mbuf_chain p) (asp_data_offset p)
      (min (asp_data_len p) mx) bs = Some (d', bs1)" "d' \<noteq> [] \<longrightarrow> chain_bytes d' = take (unat mx) (send_rest p)"
    using send_data_bytes [OF p(2) ne mx, of bs] by blast
  then have sdb: "chain_bytes d = take (unat mx) (send_rest p)" "stats' = stats"
    using sd send p(1) by (auto simp: http_client_send_data_def http_send_data_def)
  then have n': "unat n \<le> length (send_rest p)" "take (unat n) (chain_bytes d) = take (unat n) (send_rest p)"
    using n(2) by auto
  obtain p' where p': "send_ok p'" "send_rest p' = drop (unat n) (send_rest p)" and eq:
    "http_client_data_sent app stats n =
      (if unat n = length (send_rest p)
       then Some (True, app\<lparr>ha_ptr := HaSend p', ha_content_length := HTTP_CONTENT_LENGTH_INVALID,
                            ha_req_cnt := ha_req_cnt app + 1, ha_state := HTTPS_CL_PARSE_RESP_HDR\<rparr>,
                  stats\<lparr>hsts_req_cnt := hsts_req_cnt stats + 1\<rparr>, [HTTP_SEND_STOP])
       else Some (False, app\<lparr>ha_ptr := HaSend p', ha_content_length := asp_data_len p'\<rparr>, stats, []))"
    using http_client_sent_step [OF send p(1,2,4) ne n'(1), of stats] by blast
  have out: "out @ take (unat n) (chain_bytes d) =
      concat (replicate q (chain_bytes c)) @ take (k + unat n) (chain_bytes c)"
    using n'(2) p(3) I(4) by (simp add: take_add)
  show ?thesis
  proof (cases "unat n = length (send_rest p)")
    case True
    then have full: "k + unat n = length (chain_bytes c)" using p(3) I(5) by simp
    have "asp_mbuf_chain p' = []" using send_rest_empty [OF p'(1)] p'(2) True by simp
    then have "client_inv addr c stats0 (Suc q) 0 a (app', stats'', out @ take (unat n) (chain_bytes d), pending)"
      using st eq True sdb(2) I out full
      by (auto simp: client_inv_def APP_RECV_SCAN_OFFSET_def replicate_append_same [symmetric] algebra_simps)
    then show ?thesis by blast
  next
    case False
    then have "k + unat n < length (chain_bytes c)" using n'(1) p(3) I(5) by simp
    then have "client_inv addr c stats0 q (k + unat n) a (app', stats'', out @ take (unat n) (chain_bytes d), pending)"
      using st eq False sdb(2) I out p' p(3) send by (auto simp: client_inv_def add.commute)
    then show ?thesis by blast
  qed
qed

lemma client_inv_recv:
  assumes inv: "client_inv addr c stats0 q k a (app, stats, out, pending)" and c: "pkt_wf c" "message_ok c"
    and d: "pkt_wf d" "chain_bytes d = pending @ new" "new \<noteq> []"
    and dl: "http_client_deliver_data addr app stats d = Some (n, app', stats', ns)" "HTTP_CLOSE \<notin> set ns"
  shows "\<exists>q k a. client_inv addr c stats0 q k a (app', stats', out, drop (unat n) (pending @ new))"
proof -
  have at: "scan_at (APP_RECV_SCAN_OFFSET addr app) (chain_bytes d)" if "ha_state app = HTTPS_CL_PARSE_RESP_HDR"
    using inv that d(2) by (simp add: client_inv_def)
  have ref: "client_ref app stats (pending @ new) = Some (n, app', stats', ns)"
    using client_receives [OF d(1) _ at, of stats] dl(1) d(2,3) by simp
  have len: "length (pending @ new) < 4294967296" using pkt_wf_len(2) [OF d(1)] d(2) by simp
  have st: "ha_state app = HTTPS_CL_PARSE_RESP_HDR \<or> ha_state app = HTTPS_CL_RECV_RESP_BODY"
    using ref dl(2) by (auto simp: recv_ref_def split: if_splits)
  then have I: "q = Suc a" "k = 0" "http_mbuf app = c" "out = concat (replicate q (chain_bytes c))"
      "chain_bytes c \<noteq> []" "hsts_req_cnt stats = hsts_req_cnt stats0 + of_nat q"
      "hsts_resp_cnt stats = hsts_resp_cnt stats0 + of_nat a"
    using inv by (auto simp: client_inv_def)
  note del = client_delivery [OF ref dl(2) I(3) c len]
  show ?thesis
  proof (cases "ready_to_send c app' \<and> hsts_resp_cnt stats' = hsts_resp_cnt stats + 1 \<and> drop (unat n) (pending @ new) = []")
    case True
    have "hsts_resp_cnt stats' = hsts_resp_cnt stats0 + of_nat q" using True I by (simp add: algebra_simps)
    with client_inv_ready [OF conjunct1 [OF True] I(5) _ this I(4)] del True I(6) show ?thesis by metis
  next
    case False
    then have f: "ns = []" "hsts_resp_cnt stats' = hsts_resp_cnt stats" "http_mbuf app' = c"
        "ha_state app' = HTTPS_CL_PARSE_RESP_HDR \<or> ha_state app' = HTTPS_CL_RECV_RESP_BODY \<and> drop (unat n) (pending @ new) = []"
        "hsts_req_cnt stats' = hsts_req_cnt stats"
      using del by blast+
    have "scan_at (APP_RECV_SCAN_OFFSET addr app') (drop (unat n) (pending @ new) @ b)"
      if "ha_state app' = HTTPS_CL_PARSE_RESP_HDR" for b
      using client.recv_ref_scan_at [OF _ len that] ref f(1) by blast
    then have "client_inv addr c stats0 q 0 a (app', stats', out, drop (unat n) (pending @ new))"
      using f I by (auto simp: client_inv_def)
    then show ?thesis by blast
  qed
qed

lemma client_run_inv:
  assumes "client_run addr app0 stats0 run" and "http_mbuf app0 = c" and "pkt_wf c" and "message_ok c"
    and "chain_bytes c \<noteq> []"
  shows "\<exists>q k a. client_inv addr c stats0 q k a run"
  using assms(1)
proof (induction rule: client_run.induct)
  case (up app ns)
  have "http_mbuf (APP_RECV_PTR_INIT app0) = c" using assms(2) by (simp add: APP_RECV_PTR_INIT_def)
  from goto_send_ready(1) [OF _ this assms(3,4)] up have "ready_to_send c app"
    by (simp add: http_client_conn_up_def)
  then show ?case using client_inv_ready [OF _ assms(5), of app stats0 stats0 0 "[]"] by auto
next
  case (send app stats out pending mx bs d stats' ns bs' n all_sent app' stats'' ns')
  from send.IH obtain q k a where "client_inv addr c stats0 q k a (app, stats, out, pending)" by blast
  from client_inv_send [OF this send.hyps(2-7)] show ?case .
next
  case (recv app stats out pending d new n app' stats' ns)
  from recv.IH obtain q k a where "client_inv addr c stats0 q k a (app, stats, out, pending)" by blast
  from client_inv_recv [OF this assms(3,4) recv.hyps(2-6)] show ?case .
qed

text \<open>A callback of a client does not follow a null pointer.\<close>

lemma client_ref_returns:
  assumes "http_mbuf app \<noteq> []"
  shows "client_ref app stats bs \<noteq> None"
proof -
  obtain m r where c: "http_mbuf app = m # r" using assms by (cases "http_mbuf app") auto
  obtain e k cl where h: "hdr_ref (ha_content_length app) bs = (e, k, cl)" by (metis prod_cases3)
  have f: "client_finish a s \<noteq> None" if "http_mbuf a = m # r" for a s
    using that by (simp add: client_finish_def http_client_goto_send_req_def http_goto_send_def APP_SEND_PTR_INIT_def)
  have b: "body_ref client_finish a s t n \<noteq> None" if "http_mbuf a = m # r" for a s t n
    using f [of "a\<lparr>ha_content_length := 0\<rparr>" s] that by (simp add: body_ref_def)
  show ?thesis
    using h c b by (cases e) (auto simp: recv_ref_def client_no_length_def)
qed

lemma client_run_progress:
  assumes inv: "client_inv addr c stats0 q k a (app, stats, out, pending)" and c: "chain_bytes c \<noteq> []"
  shows "ha_state app = HTTPS_CL_SEND_REQ \<Longrightarrow> mx \<noteq> 0 \<Longrightarrow>
      \<exists>d bs'. http_client_send_data app stats mx [] = Some (d, stats, [], bs') \<and>
           chain_bytes d = take (unat mx) (drop k (chain_bytes c)) \<and>
           (\<forall>n. unat n \<le> length (chain_bytes d) \<longrightarrow> http_client_data_sent app stats n \<noteq> None)"
    and "ha_state app \<noteq> HTTPS_CL_SEND_REQ \<Longrightarrow> pkt_wf d \<Longrightarrow> chain_bytes d = pending @ new \<Longrightarrow> new \<noteq> [] \<Longrightarrow>
      http_client_deliver_data addr app stats d \<noteq> None"
proof -
  show "\<exists>d bs'. http_client_send_data app stats mx [] = Some (d, stats, [], bs') \<and>
      chain_bytes d = take (unat mx) (drop k (chain_bytes c)) \<and>
      (\<forall>n. unat n \<le> length (chain_bytes d) \<longrightarrow> http_client_data_sent app stats n \<noteq> None)"
    if st: "ha_state app = HTTPS_CL_SEND_REQ" and mx: "mx \<noteq> 0"
  proof -
    obtain p where p: "ha_ptr app = HaSend p" "send_ok p" "send_rest p = drop k (chain_bytes c)"
        "ha_content_length app = asp_data_len p" "k < length (chain_bytes c)"
      using inv st by (auto simp: client_inv_def)
    have ne: "send_rest p \<noteq> []" using p(3,5) by simp
    obtain d bs' where d: "data_chain_from_static_chain (asp_mbuf_chain p) (asp_data_offset p)
        (min (asp_data_len p) mx) [] = Some (d, bs')" "chain_bytes d = take (unat mx) (send_rest p)"
      using send_data_bytes [OF p(2) ne mx, of "[]"] by auto
    have "http_client_data_sent app stats n \<noteq> None" if n: "unat n \<le> length (chain_bytes d)" for n
    proof -
      have "unat n \<le> length (send_rest p)" using n d(2) by simp
      from http_client_sent_step [OF st p(1,2,4) ne this, of stats] show ?thesis by auto
    qed
    then show ?thesis
      using d st p by (auto simp: http_client_send_data_def http_send_data_def)
  qed
  show "http_client_deliver_data addr app stats d \<noteq> None"
    if "ha_state app \<noteq> HTTPS_CL_SEND_REQ" "pkt_wf d" "chain_bytes d = pending @ new" "new \<noteq> []"
  proof -
    have "ha_state app = HTTPS_CL_PARSE_RESP_HDR \<Longrightarrow> scan_at (APP_RECV_SCAN_OFFSET addr app) (chain_bytes d)"
      using inv that(3) by (simp add: client_inv_def)
    moreover have "http_mbuf app \<noteq> []" using inv c by (auto simp: client_inv_def)
    ultimately show ?thesis
      using client_receives [OF that(2)] client_ref_returns that(3,4) by simp
  qed
qed

text \<open>
  C28: whatever the protocol takes of the data it is offered and however the responses are cut, the bytes a client hands
  over are whole requests and a beginning of the next; a request starts only after a response to the one before; the
  counters count them; and there is always a next step that does not follow a null pointer.
\<close>

theorem client_session_requests:
  assumes "client_run addr app0 stats0 (app, stats, out, pending)" and "http_mbuf app0 = c" and "pkt_wf c"
    and "message_ok c" and "chain_bytes c \<noteq> []"
  shows "\<exists>q k. out = concat (replicate q (chain_bytes c)) @ take k (chain_bytes c) \<and> k < length (chain_bytes c) \<and>
    hsts_req_cnt stats = hsts_req_cnt stats0 + of_nat q \<and>
    (if ha_state app = HTTPS_CL_SEND_REQ
     then hsts_resp_cnt stats = hsts_resp_cnt stats0 + of_nat q \<and>
       (\<forall>mx. mx \<noteq> 0 \<longrightarrow>
          (\<exists>d bs'. http_client_send_data app stats mx [] = Some (d, stats, [], bs') \<and>
             chain_bytes d = take (unat mx) (drop k (chain_bytes c)) \<and>
             (\<forall>n. unat n \<le> length (chain_bytes d) \<longrightarrow> http_client_data_sent app stats n \<noteq> None)))
     else k = 0 \<and> 0 < q \<and> hsts_resp_cnt stats = hsts_resp_cnt stats0 + of_nat (q - 1) \<and>
       (\<forall>d new. pkt_wf d \<longrightarrow> chain_bytes d = pending @ new \<longrightarrow> new \<noteq> [] \<longrightarrow>
          http_client_deliver_data addr app stats d \<noteq> None))"
proof -
  obtain q k a where inv: "client_inv addr c stats0 q k a (app, stats, out, pending)"
    using client_run_inv [OF assms] by blast
  note pr = client_run_progress [OF inv assms(5)]
  show ?thesis
  proof (cases "ha_state app = HTTPS_CL_SEND_REQ")
    case True
    with inv pr(1) [OF True] show ?thesis
      by (intro exI [of _ q] exI [of _ k]) (simp add: client_inv_def)
  next
    case False
    then have "q = Suc a" "k = 0" using inv by (auto simp: client_inv_def split: http_state.splits)
    with inv pr(2) [OF False] False show ?thesis
      by (intro exI [of _ q] exI [of _ k]) (simp add: client_inv_def)
  qed
qed

definition ex_client :: http_app where
  "ex_client =
     \<lparr>ha_ptr = HaRecv 7, ha_content_length = 0, ha_req_cnt = 0, ha_resp_cnt = 0, ha_state = HTTPS_CLOSED,
      http_mbuf = [\<lparr>mb_data = [71, 69, 84], mb_pkt_len = 3, mb_nb_segs = 1\<rparr>]\<rparr>"

lemma ex_client_run:
  "\<exists>app. client_run addr ex_client http_stats_init
     (app, http_stats_init\<lparr>hsts_req_cnt := 1\<rparr>, [71, 69, 84], []) \<and> ha_state app = HTTPS_CL_PARSE_RESP_HDR"
proof -
  let ?m = "\<lparr>mb_data = [71, 69, 84], mb_pkt_len = 3, mb_nb_segs = 1\<rparr> :: mbuf"
  let ?app = "ex_client\<lparr>ha_ptr := HaSend \<lparr>asp_mbuf_chain = [?m], asp_data_offset = 0, asp_data_len = 3\<rparr>,
                 ha_content_length := 3, ha_state := HTTPS_CL_SEND_REQ\<rparr>"
  have "http_client_conn_up ex_client = Some (?app, [HTTP_SEND_START])"
    by (simp add: http_client_conn_up_def http_client_goto_send_req_def http_goto_send_def APP_SEND_PTR_INIT_def
        APP_RECV_PTR_INIT_def ex_client_def)
  note up = client_run.up [OF this, of addr http_stats_init]
  have sd: "http_client_send_data ?app http_stats_init 1460 [] = Some ([?m], http_stats_init, [], [])"
    by (simp add: http_client_send_data_def http_send_data_def data_chain_from_static_chain_def data_len_def
        ex_client_def)
  have st: "http_client_data_sent ?app http_stats_init 3 =
      Some (True, ?app\<lparr>ha_ptr := HaSend \<lparr>asp_mbuf_chain = [], asp_data_offset = 0, asp_data_len = 0\<rparr>,
                       ha_content_length := HTTP_CONTENT_LENGTH_INVALID, ha_req_cnt := 1,
                       ha_state := HTTPS_CL_PARSE_RESP_HDR\<rparr>,
            http_stats_init\<lparr>hsts_req_cnt := 1\<rparr>, [HTTP_SEND_STOP])"
    by (simp add: http_client_data_sent_def http_sent_def app_send_ptr_advance_def http_goto_recv_headers_def data_len_def
        ex_client_def http_stats_init_def)
  from client_run.send [OF up _ sd _ _ _ st] show ?thesis by force
qed

theorem client_session_requests_witness:
  "\<exists>app q k. client_run (\<lambda>c. 0) ex_client http_stats_init
      (app, http_stats_init\<lparr>hsts_req_cnt := 1\<rparr>, [71, 69, 84], []) \<and>
     [71, 69, 84] = concat (replicate q [71, 69, 84]) @ take k ([71, 69, 84] :: u8 list) \<and> k = 0 \<and> 0 < q"
proof -
  have c: "pkt_wf (http_mbuf ex_client)" "message_ok (http_mbuf ex_client)"
    "chain_bytes (http_mbuf ex_client) = [71, 69, 84]"
    by (simp_all add: ex_client_def pkt_wf_def chain_ok_def mbuf_ok_def message_ok_def)
  obtain app where r: "client_run (\<lambda>c. 0) ex_client http_stats_init
      (app, http_stats_init\<lparr>hsts_req_cnt := 1\<rparr>, [71, 69, 84], [])" and st: "ha_state app = HTTPS_CL_PARSE_RESP_HDR"
    using ex_client_run by blast
  show ?thesis
    using client_session_requests [OF r refl c(1,2)] r st by (auto simp: c(3))
qed

end
