(* ===== verification/HttpErrors.thy ===== *)
theory HttpErrors
  imports HttpSession
begin

text \<open>
  Messages the HTTP application does not build or understand: headers longer than a buffer, an empty line among the
  fields of the user, lengths without digits or too large, and counters that survive a session.
\<close>

subsection \<open>Headers longer than a buffer\<close>

lemma po_append_last:
  assumes "pktmbuf_ops_spec room po" and "c \<noteq> []"
  shows "\<exists>d. po_append po c [] = Some d \<and> length d = length c \<and> mb_data (hd d) = mb_data (hd c)"
proof -
  have "po_append po c [] = Some (head_pkt_len (\<lambda>n. n + 0) (last_upd [] c))"
    using assms by (simp add: pktmbuf_ops_spec_def)
  moreover have "last_upd [] c = butlast c @ [last c]" by (simp add: last_upd_def)
  ultimately show ?thesis
    using assms(2) by (cases c) (auto simp: head_pkt_len_def split: list.splits)
qed

lemma po_chain_spec:
  assumes "pktmbuf_ops_spec room po" and "a \<noteq> []"
  shows "po_chain po a [po_new po] =
    (if 65535 \<le> length a then (- 75, a) else (0, head_pkt_len (\<lambda>n. n + 0) (a @ [po_new po])))"
  using assms by (simp add: pktmbuf_ops_spec_def)

text \<open>With no room in the first buffer the loop only chains empty buffers, until it fails.\<close>

lemma http_write_loop_no_room:
  assumes po: "pktmbuf_ops_spec room po" and "mbuf \<noteq> []" and "length (mb_data (hd mbuf)) = room" and "data \<noteq> []"
  shows "\<exists>err mb bs'. http_write_loop po mbuf data bs = Some (err, mb, bs') \<and> err \<noteq> 0"
  using assms(2,3)
proof (induction "65536 - length mbuf" arbitrary: mbuf bs rule: less_induct)
  case less
  have t: "unat (po_tailroom po (hd mbuf)) = 0"
    using po_tailroom_room [OF po] less(3) by simp
  obtain d where d: "po_append po mbuf [] = Some d" "length d = length mbuf" "mb_data (hd d) = mb_data (hd mbuf)"
    using po_append_last [OF po less(2)] by blast
  then have dne: "d \<noteq> []" using less(2) by auto
  note ch = po_chain_spec [OF po dne]
  let ?d = "head_pkt_len (\<lambda>n. n + 0) (d @ [po_new po])"
  have st: "http_write_loop po mbuf data bs =
      (case pkt_mbuf_alloc bs of (ok, bs) \<Rightarrow>
         if \<not> ok then Some (- ENOMEM, d, bs)
         else if 65535 \<le> length d then Some (- 75, d, bs) else http_write_loop po ?d data bs)"
    using assms(4) t d(1) ch by (subst http_write_loop.simps) (simp add: Let_def split: prod.splits)
  show ?case
  proof (cases "fst (pkt_mbuf_alloc bs) \<and> length d < 65535")
    case False
    then show ?thesis using st by (auto split: prod.splits if_splits)
  next
    case True
    have "?d \<noteq> []" "length ?d = Suc (length mbuf)" "mb_data (hd ?d) = mb_data (hd mbuf)"
      using dne d(2,3) by (cases d; simp add: head_pkt_len_def)+
    moreover from this(2) have "65536 - length ?d < 65536 - length mbuf"
      using conjunct2 [OF True] d(2) by linarith
    ultimately have "\<exists>err mb bs'. http_write_loop po ?d data b = Some (err, mb, bs') \<and> err \<noteq> 0" for b
      using less(1) [of ?d b] less(3) by simp
    then show ?thesis using st True by (cases "pkt_mbuf_alloc bs") simp
  qed
qed

lemma http_write_all_too_long:
  assumes po: "pktmbuf_ops_spec room po" and "length (mb_data m) \<le> room"
    and "room < length (mb_data m) + length (concat ls)"
  shows "\<exists>err mb bs'. http_write_all po [m] ls bs = Some (err, mb, bs') \<and> err \<noteq> 0"
  using assms(2,3)
proof (induction ls arbitrary: m bs)
  case Nil
  then show ?case by simp
next
  case (Cons l ls)
  have t: "unat (po_tailroom po m) = room - length (mb_data m)" by (rule po_tailroom_room [OF po])
  show ?case
  proof (cases "length l \<le> room - length (mb_data m)")
    case True
    let ?m = "m\<lparr>mb_data := mb_data m @ l, mb_pkt_len := mb_pkt_len m + of_nat (length l)\<rparr>"
    have "http_write_str po [m] l bs = Some (0, [?m], bs)"
      using t po_append_one [OF po True] True by (cases "l = []") (simp_all add: http_write_str_def http_write_loop.simps)
    then show ?thesis using Cons(1) [of ?m bs] Cons(2,3) True by simp
  next
    case False
    let ?k = "room - length (mb_data m)"
    let ?m = "m\<lparr>mb_data := mb_data m @ take ?k l, mb_pkt_len := mb_pkt_len m + of_nat (length (take ?k l))\<rparr>"
    have "length (take ?k l) \<le> ?k" by simp
    note ap = po_append_one [OF po this]
    have full: "length (mb_data ?m) = room" using False Cons(2) by simp
    let ?d = "head_pkt_len (\<lambda>n. n + 0) ([?m] @ [po_new po])"
    have ch: "po_chain po [?m] [po_new po] = (0, ?d)"
      using po_chain_spec [OF po, of "[?m]"] by simp
    have ne: "l \<noteq> []" "\<not> length l \<le> ?k" "drop ?k l \<noteq> []" using False by auto
    have st: "http_write_str po [m] l bs =
        (case pkt_mbuf_alloc bs of (ok, bs) \<Rightarrow>
           if \<not> ok then Some (- ENOMEM, [?m], bs) else http_write_loop po ?d (drop ?k l) bs)"
      unfolding http_write_str_def using ne(1,2) t ap ch
      by (subst http_write_loop.simps) (simp add: Let_def split: prod.splits)
    have "\<exists>err mb bs'. http_write_loop po ?d (drop ?k l) b = Some (err, mb, bs') \<and> err \<noteq> 0" for b
      by (rule http_write_loop_no_room [OF po _ _ ne(3)]) (use full in \<open>simp_all add: head_pkt_len_def\<close>)
    then have "\<exists>err mb bs'. http_write_str po [m] l bs = Some (err, mb, bs') \<and> err \<noteq> 0"
      unfolding st by (cases "pkt_mbuf_alloc bs") simp
    then obtain err mb bs' where "http_write_str po [m] l bs = Some (err, mb, bs')" "err \<noteq> 0" by blast
    then have "http_write_all po [m] (l # ls) bs = Some (err, mb, bs')" by simp
    then show ?thesis using \<open>err \<noteq> 0\<close> by blast
  qed
qed

lemma http_build_pkt_too_long:
  assumes po: "pktmbuf_ops_spec room po" and "room < length (concat ls)"
  shows "\<exists>err c bs'. http_build_pkt po ls n [] header_only bs = Some (err, c, bs') \<and> err \<noteq> 0"
proof -
  obtain ok bs1 where a: "pkt_mbuf_alloc bs = (ok, bs1)" by fastforce
  have "\<exists>err mb bs'. http_write_all po [po_new po] ls bs1 = Some (err, mb, bs') \<and> err \<noteq> 0"
    using http_write_all_too_long [OF po, of "po_new po" ls bs1] po_spec(2) [OF po] assms(2) by simp
  then obtain err mb bs' where w: "http_write_all po [po_new po] ls bs1 = Some (err, mb, bs')" "err \<noteq> 0"
    by blast
  have "http_build_pkt po ls n [] header_only bs =
      (if ok then Some (err, None, bs') else Some (- ENOMEM, Some [], bs1))"
    using a w by (simp add: http_build_pkt_def)
  then show ?thesis using w(2) by (cases ok) auto
qed

text \<open>
  although a header is meant to go on in further buffers, one that is longer than the first is never built: with any
  supply of buffers the client aborts the program when it starts, and already when it asks for the size of its packets,
  and so does the server.
\<close>

theorem long_header_aborts:
  assumes "pktmbuf_ops_spec room po" and "room < length (concat (http_req_lines cfg))"
    and "room < length (concat (http_resp_lines srv_cfg))"
  shows "http_client_tc_start po cfg bs = None \<and> http_client_pkts_per_send po cfg max_pkt_size bs = None \<and>
         http_server_tc_start po srv_cfg bs = None \<and> http_server_pkts_per_send po srv_cfg max_pkt_size bs = None"
proof -
  note c = http_build_pkt_too_long [OF assms(1,2)] and s = http_build_pkt_too_long [OF assms(1,3)]
  have "http_client_tc_start po cfg bs = None" "http_client_pkts_per_send po cfg max_pkt_size bs = None"
    using c [of "hc_req_size cfg" False bs] c [of "hc_req_size cfg" True bs]
    by (auto simp: http_client_tc_start_def http_client_pkts_per_send_def http_build_req_pkt_def bind_eq_None_conv)
  moreover have "http_server_tc_start po srv_cfg bs = None" "http_server_pkts_per_send po srv_cfg max_pkt_size bs = None"
    using s [of "hs_resp_size srv_cfg" False bs] s [of "hs_resp_size srv_cfg" True bs]
    by (auto simp: http_server_tc_start_def http_server_pkts_per_send_def http_build_resp_pkt_def bind_eq_None_conv)
  ultimately show ?thesis by simp
qed

text \<open>Configurations that pass the checks, with 3000 bytes for the host and for the fields.\<close>

definition ex_long_cfg :: tpg_http_client where
  "ex_long_cfg = http_client_default_cfg\<lparr>hc_req_host_name := Some (replicate 3000 97)\<rparr>"

definition ex_long_srv_cfg :: tpg_http_server where
  "ex_long_srv_cfg = http_server_default_cfg\<lparr>hs_resp_fields := Some (replicate 3000 97)\<rparr>"

lemma strcasestr_replicate: "map tolower needle \<noteq> [] \<Longrightarrow> hd (map tolower needle) \<noteq> tolower x \<Longrightarrow>
  \<not> strcasestr (replicate n x) needle"
  by (induction n) (cases needle; auto)+

lemma ex_long_ok: "http_client_validate_cfg ex_long_cfg" "http_server_validate_cfg ex_long_srv_cfg"
proof -
  have "\<not> strcasestr (replicate 3000 97) HTTP_CONTENT_LEN_STR"
    by (rule strcasestr_replicate) (simp_all add: HTTP_CONTENT_LEN_STR_def ascii_def tolower_def)
  then show "http_client_validate_cfg ex_long_cfg" "http_server_validate_cfg ex_long_srv_cfg"
    by (simp_all add: ex_long_cfg_def ex_long_srv_cfg_def http_client_default_cfg_def http_server_default_cfg_def
        http_client_validate_cfg_def http_server_validate_cfg_def HTTP_CONTENT_LENGTH_INVALID_def http_validate_fields_def)
qed

theorem long_header_aborts_witness:
  "http_client_validate_cfg ex_long_cfg \<and> http_server_validate_cfg ex_long_srv_cfg \<and>
   http_client_tc_start ex_po ex_long_cfg [] = None \<and> http_server_tc_start ex_po ex_long_srv_cfg [] = None"
proof -
  have "2048 < length (concat (http_req_lines ex_long_cfg))" "2048 < length (concat (http_resp_lines ex_long_srv_cfg))"
    by (simp_all add: http_req_lines_def http_resp_lines_def ex_long_cfg_def ex_long_srv_cfg_def
        http_client_default_cfg_def http_server_default_cfg_def HTTP_HOST_NAME_def HTTP_FIELDS_def)
  from long_header_aborts [OF ex_po_spec this, of "[]" 1500] ex_long_ok show ?thesis by simp
qed

subsection \<open>Lengths\<close>

text \<open>
  An empty line among the fields of the user passes the check and ends the header before the content length, which
  stays in the stream.
\<close>

lemma empty_fields_end_header:
  assumes "http_client_validate_cfg cfg" and "hc_req_fields cfg = Some []"
    and "10 \<notin> set (HTTP_OBJECT_NAME (hc_req_object_name cfg))" and "10 \<notin> set (HTTP_HOST_NAME (hc_req_host_name cfg))"
  shows "\<exists>n < length (concat (http_req_lines cfg)).
           hdr_ref cl (concat (http_req_lines cfg) @ body) = (HdrDone, n, cl)"
proof -
  let ?first = "http_method_names (hc_req_method cfg) @ ascii '' '' @ HTTP_OBJECT_NAME (hc_req_object_name cfg) @
        ascii '' HTTP/1.1''"
  let ?agent = "HTTP_USER_AGENT_STR @ ascii '' '' @ HTTP_TPG_USER_AGENT"
  let ?host = "HTTP_HOST_STR @ ascii '' '' @ HTTP_HOST_NAME (hc_req_host_name cfg)"
  let ?rest = "HTTP_CONTENT_LEN_STR @ ascii '' '' @ dec_digits (unat (hc_req_size cfg)) @ CRLF @ CRLF @ body"
  have cc: "concat (http_req_lines cfg) @ body =
      (?first @ CRLF) @ (?agent @ CRLF) @ (?host @ CRLF) @ CRLF @ ?rest"
    using assms(2) by (simp add: http_req_lines_def HTTP_FIELDS_def)
  have r1: "line_ref cl (?first @ CRLF) = (False, cl)" "10 \<notin> set ?first" "?first \<noteq> []"
    using http_client_validate_cfgD(1) [OF assms(1)] assms(3)
    by (auto simp: http_method_names_def ascii_def line_ref_other)
  have r2: "line_ref cl (?agent @ CRLF) = (False, cl)" "10 \<notin> set ?agent" "?agent \<noteq> []"
    by (simp_all add: HTTP_USER_AGENT_STR_def HTTP_TPG_USER_AGENT_def ascii_def line_ref_other)
  have r3: "line_ref cl (?host @ CRLF) = (False, cl)" "10 \<notin> set ?host" "?host \<noteq> []"
    using assms(4) by (simp_all add: HTTP_HOST_STR_def ascii_def line_ref_other)
  note h3 = hdr_ref_line [OF r3(2,3) r3(1) hdr_ref_end [of cl ?rest]]
  note h2 = hdr_ref_line [OF r2(2,3) r2(1) h3]
  note h1 = hdr_ref_line [OF r1(2,3) r1(1) h2]
  have "length (?first @ CRLF) + (length (?agent @ CRLF) + (length (?host @ CRLF) + 2)) < length (concat (http_req_lines cfg))"
    using assms(2) by (simp add: http_req_lines_def CRLF_def)
  then show ?thesis unfolding cc using h1 by blast
qed

text \<open>A length without digits is 0, and a length of more than 32 bits is cut.\<close>

lemma length_without_digits: "line_ref cl (HTTP_CONTENT_LEN_STR @ CRLF) = (False, 0)"
  by (simp add: line_ref_def CRLF_def isblank_def isdigit_def http_digits_value_def)

lemma length_wraps: "line_ref cl (HTTP_CONTENT_LEN_STR @ ascii '' '' @ dec_digits (n + 4294967296) @ CRLF) = (False, of_nat n)"
  using content_length_line [of cl "n + 4294967296"] by simp

text \<open>A session that starts over in a control block keeps the counters of the session before.\<close>

lemma counters_survive:
  "http_client_conn_up (http_client_server_init app) = Some (app', ns) \<Longrightarrow>
     ha_req_cnt app' = ha_req_cnt app \<and> ha_resp_cnt app' = ha_resp_cnt app"
  "ha_req_cnt (http_server_conn_up (http_client_server_init app)) = ha_req_cnt app"
  by (auto simp: http_client_conn_up_def http_client_goto_send_req_def http_goto_send_def http_client_server_init_def
      APP_RECV_PTR_INIT_def http_server_conn_up_def http_goto_recv_headers_def)

text \<open>When the body of a request cannot be allocated the client starts without a message.\<close>

lemma failed_body_starts_without_message:
  assumes "http_write_all po [po_new po] (http_req_lines cfg) bs = Some (0, mbuf, False # bs')"
    and "hc_req_size cfg \<noteq> 0"
  shows "http_client_tc_start po cfg (True # bs) = Some (None, bs')"
  using assms by (simp add: http_client_tc_start_def http_build_req_pkt_def http_build_pkt_def data_alloc_chain_def)

end
