(* ===== verification/NetTypes.thy ===== *)
theory NetTypes
  imports Tcp MgmtEnv
begin

text \<open>
  The network layer of a port below TCP and UDP: the addresses of Ethernet (\<^verbatim>\<open>inc/tpg_ethernet.h\<close>), the tables of
  ARP and of the routes (\<^verbatim>\<open>inc/tpg_arp.h\<close>, \<^verbatim>\<open>inc/tpg_route.h\<close>) and the statistics
  (\<^verbatim>\<open>api/warp17-stats.proto\<close>).

  Every operation of these files works on the tables of one port, by the core that port belongs to first; the state
  of a port is the record \<open>net_port\<close>. A frame that was handed to the driver is in the log \<open>np_tx\<close>; whether an
  allocation or a transmission succeeds is a list of outcomes, as elsewhere.
\<close>

subsection \<open>Bytes\<close>

type_synonym frame = "u8 list"

definition be16 :: "u16 \<Rightarrow> u8 list" where
  "be16 x = [ucast (drop_bit 8 x), ucast x]"

definition be32 :: "u32 \<Rightarrow> u8 list" where
  "be32 x = [ucast (drop_bit 24 x), ucast (drop_bit 16 x), ucast (drop_bit 8 x), ucast x]"

definition eth_mac_to_uint64 :: "u8 list \<Rightarrow> u64" where
  "eth_mac_to_uint64 mac =
     push_bit 40 (ucast (mac ! 0)) OR push_bit 32 (ucast (mac ! 1)) OR push_bit 24 (ucast (mac ! 2)) OR
     push_bit 16 (ucast (mac ! 3)) OR push_bit 8 (ucast (mac ! 4)) OR ucast (mac ! 5)"

definition eth_uint64_to_mac :: "u64 \<Rightarrow> u8 list" where
  "eth_uint64_to_mac uint64_mac =
     [ucast (drop_bit 40 uint64_mac AND 0xff), ucast (drop_bit 32 uint64_mac AND 0xff),
      ucast (drop_bit 24 uint64_mac AND 0xff), ucast (drop_bit 16 uint64_mac AND 0xff),
      ucast (drop_bit 8 uint64_mac AND 0xff), ucast (uint64_mac AND 0xff)]"

subsection \<open>VLAN\<close>

definition VLAN_VID_MASK :: u16 where "VLAN_VID_MASK = 0x0fff"
definition VLAN_PRIO_SHIFT :: nat where "VLAN_PRIO_SHIFT = 13"
definition VLAN_NO_TAG :: u16 where "VLAN_NO_TAG = 0"

definition VLAN_TAG_ID :: "u16 \<Rightarrow> u16" where
  "VLAN_TAG_ID vlan_tci = vlan_tci AND VLAN_VID_MASK"

definition RTE_ETHER_TYPE_IPV4 :: u16 where "RTE_ETHER_TYPE_IPV4 = 0x0800"
definition RTE_ETHER_TYPE_ARP :: u16 where "RTE_ETHER_TYPE_ARP = 0x0806"
definition RTE_ETHER_TYPE_VLAN :: u16 where "RTE_ETHER_TYPE_VLAN = 0x8100"
definition RTE_ETHER_TYPE_IPV6 :: u16 where "RTE_ETHER_TYPE_IPV6 = 0x86DD"

subsection \<open>Tables\<close>

definition TPG_ARP_PORT_TABLE_SIZE :: nat where "TPG_ARP_PORT_TABLE_SIZE = 24"
definition TPG_ROUTE_PORT_TABLE_SIZE :: nat where "TPG_ROUTE_PORT_TABLE_SIZE = TPG_ARP_PORT_TABLE_SIZE div 2"
definition TPG_GW_PORT_VLAN_SIZE :: nat where "TPG_GW_PORT_VLAN_SIZE = 10"

definition TPG_ARP_UINT64_MAC_MASK :: u64 where "TPG_ARP_UINT64_MAC_MASK = 0x0000FFFFFFFFFFFF"
definition TPG_ARP_UINT64_FLAGS_MASK :: u64 where "TPG_ARP_UINT64_FLAGS_MASK = NOT TPG_ARP_UINT64_MAC_MASK"
definition TPG_ARP_FLAG_IN_USE :: u64 where "TPG_ARP_FLAG_IN_USE = 0x0001000000000000"
definition TPG_ARP_FLAG_INCOMPLETE :: u64 where "TPG_ARP_FLAG_INCOMPLETE = 0x0002000000000000"
definition TPG_ARP_FLAG_LOCAL :: u64 where "TPG_ARP_FLAG_LOCAL = 0x0004000000000000"
definition TPG_ARP_MAC_NOT_FOUND :: u64 where "TPG_ARP_MAC_NOT_FOUND = TPG_ARP_FLAG_INCOMPLETE"

record arp_entry =
  ae_mac_flags :: u64
  ae_ip_address :: u32
  ae_vlan_id :: u16

definition ARP_IS_FLAG_SET :: "arp_entry \<Rightarrow> u64 \<Rightarrow> bool" where
  "ARP_IS_FLAG_SET arp flag \<longleftrightarrow> (ae_mac_flags arp AND TPG_ARP_UINT64_FLAGS_MASK) AND flag \<noteq> 0"

definition arp_set_entry_in_use :: "arp_entry \<Rightarrow> arp_entry" where
  "arp_set_entry_in_use arp = arp\<lparr>ae_mac_flags := ae_mac_flags arp OR TPG_ARP_FLAG_IN_USE\<rparr>"

definition arp_clear_entry_in_use :: "arp_entry \<Rightarrow> arp_entry" where
  "arp_clear_entry_in_use arp = arp\<lparr>ae_mac_flags := ae_mac_flags arp AND NOT TPG_ARP_FLAG_IN_USE\<rparr>"

definition arp_is_entry_in_use :: "arp_entry \<Rightarrow> bool" where
  "arp_is_entry_in_use arp \<longleftrightarrow> ARP_IS_FLAG_SET arp TPG_ARP_FLAG_IN_USE"

definition arp_set_mac_in_entry_as_uint64 :: "u64 \<Rightarrow> arp_entry \<Rightarrow> arp_entry" where
  "arp_set_mac_in_entry_as_uint64 mac arp =
     arp\<lparr>ae_mac_flags := (mac AND TPG_ARP_UINT64_MAC_MASK) OR (ae_mac_flags arp AND TPG_ARP_UINT64_FLAGS_MASK)\<rparr>"

definition arp_get_mac_from_entry_as_uint64 :: "arp_entry \<Rightarrow> u64" where
  "arp_get_mac_from_entry_as_uint64 arp = ae_mac_flags arp AND TPG_ARP_UINT64_MAC_MASK"

record route_entry =
  re_net :: u32
  re_mask :: u32
  re_nh :: u32
  re_flags :: u32

definition ROUTE_FLAG_IN_USE :: u32 where "ROUTE_FLAG_IN_USE = 1"
definition ROUTE_FLAG_LOCAL :: u32 where "ROUTE_FLAG_LOCAL = 2"

definition ROUTE_IS_FLAG_SET :: "route_entry \<Rightarrow> u32 \<Rightarrow> bool" where
  "ROUTE_IS_FLAG_SET re flag \<longleftrightarrow> re_flags re AND flag \<noteq> 0"

definition ROUTE_V4 :: "u32 \<Rightarrow> u32 \<Rightarrow> u32 \<Rightarrow> u32 \<Rightarrow> route_entry" where
  "ROUTE_V4 ip msk nhop flags = \<lparr>re_net = ip, re_mask = msk, re_nh = nhop, re_flags = flags\<rparr>"

record gw_per_vlan =
  gw_vlan_id :: u16
  gw_addr :: u32

subsection \<open>Statistics and the state of a port\<close>

record eth_stats =
  es_etype_arp :: u64
  es_etype_ipv4 :: u64
  es_etype_ipv6 :: u64
  es_etype_other :: u64
  es_etype_vlan :: u64
  es_to_small_fragment :: u32
  es_no_tx_mbuf :: u32

record arp_stats =
  as_received_req :: u64
  as_received_rep :: u64
  as_received_other :: u64
  as_req_not_mine :: u64
  as_sent_req :: u64
  as_sent_req_failed :: u64
  as_sent_rep :: u64
  as_sent_rep_failed :: u64
  as_to_small_fragment :: u32
  as_invalid_hw_space :: u32
  as_invalid_proto_space :: u32
  as_invalid_hw_len :: u32
  as_invalid_proto_len :: u32

record route_stats =
  rs_intf_add :: u32
  rs_intf_del :: u32
  rs_gw_add :: u32
  rs_gw_del :: u32
  rs_tbl_full :: u32
  rs_intf_nomem :: u32
  rs_intf_notfound :: u32
  rs_gw_nointf :: u32
  rs_nh_not_found :: u32
  rs_route_not_found :: u32

record ipv4_stats =
  ips_received_pkts :: u64
  ips_received_bytes :: u64
  ips_protocol_icmp :: u64
  ips_protocol_tcp :: u64
  ips_protocol_udp :: u64
  ips_protocol_other :: u64
  ips_to_small_fragment :: u32
  ips_hdr_to_small :: u32
  ips_invalid_checksum :: u32
  ips_total_length_invalid :: u32
  ips_received_frags :: u32
  ips_not_v4 :: u32
  ips_reserved_bit_set :: u32
  ips_invalid_pad :: u32
  ips_invalid_opt :: u32

record net_port =
  np_mac :: "u8 list"
  np_arp :: "arp_entry list"
  np_routes :: "route_entry list"
  np_default_gw :: route_entry
  np_gw_per_vlan :: "gw_per_vlan list"
  np_eth_stats :: eth_stats
  np_arp_stats :: arp_stats
  np_route_stats :: route_stats
  np_ipv4_stats :: ipv4_stats
  np_tx :: "frame list"
  np_alloc_outcomes :: "bool list"
  np_tx_outcomes :: "bool list"

definition upd_eth_stats :: "(eth_stats \<Rightarrow> eth_stats) \<Rightarrow> net_port \<Rightarrow> net_port" where
  "upd_eth_stats f p = p\<lparr>np_eth_stats := f (np_eth_stats p)\<rparr>"

definition upd_arp_stats :: "(arp_stats \<Rightarrow> arp_stats) \<Rightarrow> net_port \<Rightarrow> net_port" where
  "upd_arp_stats f p = p\<lparr>np_arp_stats := f (np_arp_stats p)\<rparr>"

definition upd_route_stats :: "(route_stats \<Rightarrow> route_stats) \<Rightarrow> net_port \<Rightarrow> net_port" where
  "upd_route_stats f p = p\<lparr>np_route_stats := f (np_route_stats p)\<rparr>"

definition upd_ipv4_stats :: "(ipv4_stats \<Rightarrow> ipv4_stats) \<Rightarrow> net_port \<Rightarrow> net_port" where
  "upd_ipv4_stats f p = p\<lparr>np_ipv4_stats := f (np_ipv4_stats p)\<rparr>"

definition np_alloc :: "net_port \<Rightarrow> bool \<times> net_port" where
  "np_alloc p = (case pkt_mbuf_alloc (np_alloc_outcomes p) of (ok, bs) \<Rightarrow> (ok, p\<lparr>np_alloc_outcomes := bs\<rparr>))"

text \<open>What \<^verbatim>\<open>pkt_send_with_hash\<close> makes of a frame: it is sent, or given back and lost.\<close>

definition np_send :: "frame \<Rightarrow> net_port \<Rightarrow> bool \<times> net_port" where
  "np_send f p =
     (case pkt_mbuf_alloc (np_tx_outcomes p) of (ok, bs) \<Rightarrow>
        (ok, p\<lparr>np_tx_outcomes := bs, np_tx := (if ok then np_tx p @ [f] else np_tx p)\<rparr>))"

end
