(* ===== verification/Arp.thy ===== *)
theory Arp
  imports NetTypes
begin

text \<open>
  ARP: \<^verbatim>\<open>src/tpg_arp.c\<close>. The table of a port holds the addresses of its own interfaces (flag \<open>LOCAL\<close>) and what
  the other side answered. Allocation of the tables at start-up, the CLI and the trace are not modelled; the memory
  barriers have no effect on the sequence of operations of one core.
\<close>

subsection \<open>The table\<close>

text \<open>The walk of an update: the first free slot and the first entry with the address, up to the latter.\<close>

fun arp_update_scan :: "u32 \<Rightarrow> arp_entry list \<Rightarrow> nat \<Rightarrow> nat option \<Rightarrow> nat option \<times> nat option" where
  "arp_update_scan ip [] i free_entry = (free_entry, None)"
| "arp_update_scan ip (e # es) i free_entry =
     (if \<not> arp_is_entry_in_use e
      then arp_update_scan ip es (Suc i) (if free_entry = None then Some i else free_entry)
      else if ip = ae_ip_address e then (free_entry, Some i)
      else arp_update_scan ip es (Suc i) free_entry)"

definition arp_update_entry :: "u32 \<Rightarrow> u64 \<Rightarrow> bool \<Rightarrow> u16 \<Rightarrow> net_port \<Rightarrow> bool \<times> net_port" where
  "arp_update_entry ip mac local vlan_id p =
     (case arp_update_scan ip (np_arp p) 0 None of
        (None, None) \<Rightarrow> (False, p)
      | (Some i, _) \<Rightarrow>
          let e = (np_arp p ! i)\<lparr>ae_ip_address := ip, ae_mac_flags := (if local then TPG_ARP_FLAG_LOCAL else 0)\<rparr>;
              e = (arp_set_mac_in_entry_as_uint64 mac e)\<lparr>ae_vlan_id := vlan_id\<rparr>
          in (True, p\<lparr>np_arp := (np_arp p)[i := arp_set_entry_in_use e]\<rparr>)
      | (None, Some i) \<Rightarrow>
          let e = (arp_set_mac_in_entry_as_uint64 mac (np_arp p ! i))\<lparr>ae_vlan_id := vlan_id\<rparr>
          in (True, p\<lparr>np_arp := (np_arp p)[i := e]\<rparr>))"

text \<open>The first entry with a property.\<close>

fun arp_find :: "(arp_entry \<Rightarrow> bool) \<Rightarrow> arp_entry list \<Rightarrow> nat \<Rightarrow> nat option" where
  "arp_find f [] i = None"
| "arp_find f (e # es) i = (if f e then Some i else arp_find f es (Suc i))"

definition arp_delete_entry :: "u32 \<Rightarrow> net_port \<Rightarrow> bool \<times> net_port" where
  "arp_delete_entry ip p =
     (case arp_find (\<lambda>e. arp_is_entry_in_use e \<and> ae_ip_address e = ip) (np_arp p) 0 of
        Some i \<Rightarrow> (True, p\<lparr>np_arp := (np_arp p)[i := arp_clear_entry_in_use (np_arp p ! i)]\<rparr>)
      | None \<Rightarrow> (False, p))"

definition arp_lookup :: "u32 \<Rightarrow> u16 \<Rightarrow> net_port \<Rightarrow> nat option" where
  "arp_lookup ip vlan_id p =
     arp_find (\<lambda>e. arp_is_entry_in_use e \<and> ae_ip_address e = ip \<and> ae_vlan_id e = vlan_id) (np_arp p) 0"

definition arp_lookup_mac :: "u32 \<Rightarrow> u16 \<Rightarrow> net_port \<Rightarrow> u64" where
  "arp_lookup_mac ip vlan_id p =
     (case arp_lookup ip vlan_id p of
        None \<Rightarrow> TPG_ARP_MAC_NOT_FOUND
      | Some i \<Rightarrow> arp_get_mac_from_entry_as_uint64 (np_arp p ! i))"

definition arp_add_local :: "u32 \<Rightarrow> u16 \<Rightarrow> net_port \<Rightarrow> bool \<times> net_port" where
  "arp_add_local ip vlan_id p = arp_update_entry ip (eth_mac_to_uint64 (np_mac p)) True vlan_id p"

definition arp_delete_local :: "u32 \<Rightarrow> u16 \<Rightarrow> net_port \<Rightarrow> bool \<times> net_port" where
  "arp_delete_local ip vlan_id p =
     (case arp_lookup ip vlan_id p of
        None \<Rightarrow> (False, p)
      | Some i \<Rightarrow>
          if \<not> ARP_IS_FLAG_SET (np_arp p ! i) TPG_ARP_FLAG_LOCAL then (False, p)
          else
            let e = (np_arp p ! i)\<lparr>ae_mac_flags := ae_mac_flags (np_arp p ! i) AND NOT TPG_ARP_FLAG_LOCAL\<rparr>
            in arp_delete_entry ip (p\<lparr>np_arp := (np_arp p)[i := e]\<rparr>))"

subsection \<open>Sending\<close>

definition RTE_ARP_HRD_ETHER :: u16 where "RTE_ARP_HRD_ETHER = 1"
definition RTE_ARP_OP_REQUEST :: u16 where "RTE_ARP_OP_REQUEST = 1"
definition RTE_ARP_OP_REPLY :: u16 where "RTE_ARP_OP_REPLY = 2"

definition arp_bcast_addr :: "u8 list" where
  "arp_bcast_addr = replicate 6 0xff"

text \<open>The bytes of an ARP packet (\<^verbatim>\<open>struct rte_arp_hdr\<close>) and of its frame, with a VLAN tag if the tag has an identifier.\<close>

definition arp_pkt :: "u16 \<Rightarrow> u8 list \<Rightarrow> u32 \<Rightarrow> u8 list \<Rightarrow> u32 \<Rightarrow> u8 list" where
  "arp_pkt opcode sha sip tha tip =
     be16 RTE_ARP_HRD_ETHER @ be16 RTE_ETHER_TYPE_IPV4 @ [6, 4] @ be16 opcode @ sha @ be32 sip @ tha @ be32 tip"

definition arp_frame :: "u8 list \<Rightarrow> u8 list \<Rightarrow> u16 \<Rightarrow> u8 list \<Rightarrow> frame" where
  "arp_frame d_addr s_addr vlan_tci arp =
     d_addr @ s_addr @
     (if VLAN_TAG_ID vlan_tci = 0 then be16 RTE_ETHER_TYPE_ARP
      else be16 RTE_ETHER_TYPE_VLAN @ be16 vlan_tci @ be16 RTE_ETHER_TYPE_ARP) @ arp"

definition arp_send_arp_reply :: "u32 \<Rightarrow> u32 \<Rightarrow> u8 list \<Rightarrow> u16 \<Rightarrow> net_port \<Rightarrow> bool \<times> net_port" where
  "arp_send_arp_reply sip dip mac vlan_tci p =
     (case np_alloc p of (ok, p) \<Rightarrow>
        if \<not> ok then (False, p)
        else case np_send (arp_frame mac (np_mac p) vlan_tci
                             (arp_pkt RTE_ARP_OP_REPLY (np_mac p) sip mac dip)) p of (sent, p) \<Rightarrow>
          if \<not> sent then (False, upd_arp_stats (\<lambda>s. s\<lparr>as_sent_rep_failed := as_sent_rep_failed s + 1\<rparr>) p)
          else (True, upd_arp_stats (\<lambda>s. s\<lparr>as_sent_rep := as_sent_rep s + 1\<rparr>) p))"

definition arp_send_arp_request :: "u32 \<Rightarrow> u32 \<Rightarrow> u16 \<Rightarrow> net_port \<Rightarrow> bool \<times> net_port" where
  "arp_send_arp_request local_ip remote_ip vlan_tci p =
     (case np_alloc p of (ok, p) \<Rightarrow>
        if \<not> ok then (False, p)
        else case np_send (arp_frame (replicate 6 0xff) (np_mac p) vlan_tci
                             (arp_pkt RTE_ARP_OP_REQUEST (np_mac p) local_ip (replicate 6 0) remote_ip)) p of (sent, p) \<Rightarrow>
          if \<not> sent then (False, upd_arp_stats (\<lambda>s. s\<lparr>as_sent_req_failed := as_sent_req_failed s + 1\<rparr>) p)
          else (True, upd_arp_stats (\<lambda>s. s\<lparr>as_sent_req := as_sent_req s + 1\<rparr>) p))"

definition arp_send_grat_arp_request :: "u32 \<Rightarrow> u16 \<Rightarrow> net_port \<Rightarrow> bool \<times> net_port" where
  "arp_send_grat_arp_request ip vlan_tci p = arp_send_arp_request ip ip vlan_tci p"

definition arp_send_grat_arp_reply :: "u32 \<Rightarrow> u16 \<Rightarrow> net_port \<Rightarrow> bool \<times> net_port" where
  "arp_send_grat_arp_reply ip vlan_tci p = arp_send_arp_reply ip ip arp_bcast_addr vlan_tci p"

subsection \<open>Receiving\<close>

record arp_hdr =
  arp_hardware :: u16
  arp_protocol :: u16
  arp_hlen :: u8
  arp_plen :: u8
  arp_opcode :: u16
  arp_sha :: "u8 list"
  arp_sip :: u32
  arp_tha :: "u8 list"
  arp_tip :: u32

definition rte_arp_hdr_of :: "u8 list \<Rightarrow> arp_hdr" where
  "rte_arp_hdr_of bs =
     \<lparr>arp_hardware = be16_at bs 0, arp_protocol = be16_at bs 2, arp_hlen = byte_at bs 4, arp_plen = byte_at bs 5,
      arp_opcode = be16_at bs 6, arp_sha = take 6 (drop 8 bs), arp_sip = be32_at bs 14,
      arp_tha = take 6 (drop 18 bs), arp_tip = be32_at bs 24\<rparr>"

definition arp_process_request :: "arp_hdr \<Rightarrow> u16 \<Rightarrow> net_port \<Rightarrow> net_port" where
  "arp_process_request hdr vlan_id p =
     (case arp_lookup (arp_tip hdr) vlan_id p of
        Some i \<Rightarrow>
          if ARP_IS_FLAG_SET (np_arp p ! i) TPG_ARP_FLAG_LOCAL
          then
            let p = snd (arp_send_arp_reply (arp_tip hdr) (arp_sip hdr) (arp_sha hdr) vlan_id p)
            in snd (arp_update_entry (arp_sip hdr) (eth_mac_to_uint64 (arp_sha hdr)) False vlan_id p)
          else upd_arp_stats (\<lambda>s. s\<lparr>as_req_not_mine := as_req_not_mine s + 1\<rparr>) p
      | None \<Rightarrow> upd_arp_stats (\<lambda>s. s\<lparr>as_req_not_mine := as_req_not_mine s + 1\<rparr>) p)"

definition arp_process_reply :: "arp_hdr \<Rightarrow> u16 \<Rightarrow> net_port \<Rightarrow> net_port" where
  "arp_process_reply hdr vlan_id p =
     snd (arp_update_entry (arp_sip hdr) (eth_mac_to_uint64 (arp_sha hdr)) False vlan_id p)"

text \<open>
  The buffer always goes back to the caller. \<open>my_core\<close> says that the packet arrived on the first core of the port;
  on another one the assertion fails.
\<close>

definition arp_receive_pkt :: "bool \<Rightarrow> chain \<Rightarrow> u16 \<Rightarrow> net_port \<Rightarrow> (chain \<times> net_port) option" where
  "arp_receive_pkt my_core mbuf vlan_tci p =
     (case mbuf of
        [] \<Rightarrow> None
      | m # _ \<Rightarrow>
          if data_len m < 28
          then Some (mbuf, upd_arp_stats (\<lambda>s. s\<lparr>as_to_small_fragment := as_to_small_fragment s + 1\<rparr>) p)
          else if \<not> my_core then None
          else
            let hdr = rte_arp_hdr_of (mb_data m); op = arp_opcode hdr
            in if op \<noteq> RTE_ARP_OP_REQUEST \<and> op \<noteq> RTE_ARP_OP_REPLY
               then Some (mbuf, upd_arp_stats (\<lambda>s. s\<lparr>as_received_other := as_received_other s + 1\<rparr>) p)
               else
                 let p = (if op = RTE_ARP_OP_REQUEST
                          then upd_arp_stats (\<lambda>s. s\<lparr>as_received_req := as_received_req s + 1\<rparr>) p
                          else upd_arp_stats (\<lambda>s. s\<lparr>as_received_rep := as_received_rep s + 1\<rparr>) p)
                 in Some (mbuf,
                      if arp_hardware hdr \<noteq> RTE_ARP_HRD_ETHER
                      then upd_arp_stats (\<lambda>s. s\<lparr>as_invalid_hw_space := as_invalid_hw_space s + 1\<rparr>) p
                      else if arp_protocol hdr \<noteq> RTE_ETHER_TYPE_IPV4
                      then upd_arp_stats (\<lambda>s. s\<lparr>as_invalid_proto_space := as_invalid_proto_space s + 1\<rparr>) p
                      else if arp_hlen hdr \<noteq> 6
                      then upd_arp_stats (\<lambda>s. s\<lparr>as_invalid_hw_len := as_invalid_hw_len s + 1\<rparr>) p
                      else if arp_plen hdr \<noteq> 4
                      then upd_arp_stats (\<lambda>s. s\<lparr>as_invalid_proto_len := as_invalid_proto_len s + 1\<rparr>) p
                      else if op = RTE_ARP_OP_REQUEST then arp_process_request hdr (VLAN_TAG_ID vlan_tci) p
                      else arp_process_reply hdr (VLAN_TAG_ID vlan_tci) p))"

end
