(* ===== verification/Route.thy ===== *)
theory Route
  imports Arp
begin

text \<open>
  Routes and next hops: \<^verbatim>\<open>src/tpg_route.c\<close>. The management core stores the gateway of a VLAN itself and sends a
  message to the first core of the port for the rest; it waits until the message was handled, but gets nothing back of
  the result, so \<open>route_v4_intf_add\<close> and its relatives always return 0.
\<close>

definition route_v4_find_gw_port_vlan :: "u16 \<Rightarrow> net_port \<Rightarrow> u32 option" where
  "route_v4_find_gw_port_vlan vlan_id p =
     map_option gw_addr (List.find (\<lambda>g. gw_vlan_id g = vlan_id) (np_gw_per_vlan p))"

fun route_update_scan :: "u32 \<Rightarrow> u32 \<Rightarrow> route_entry list \<Rightarrow> nat \<Rightarrow> nat option \<Rightarrow> nat option \<times> nat option" where
  "route_update_scan net msk [] i free_entry = (free_entry, None)"
| "route_update_scan net msk (e # es) i free_entry =
     (if \<not> ROUTE_IS_FLAG_SET e ROUTE_FLAG_IN_USE
      then route_update_scan net msk es (Suc i) (if free_entry = None then Some i else free_entry)
      else if net = re_net e \<and> msk = re_mask e then (free_entry, Some i)
      else route_update_scan net msk es (Suc i) free_entry)"

text \<open>A slot that is used again keeps the flags it was left with.\<close>

definition route_update_entry :: "u32 \<Rightarrow> u32 \<Rightarrow> u32 \<Rightarrow> u32 \<Rightarrow> net_port \<Rightarrow> bool \<times> net_port" where
  "route_update_entry net msk nh flags p =
     (case route_update_scan net msk (np_routes p) 0 None of
        (None, None) \<Rightarrow> (False, upd_route_stats (\<lambda>s. s\<lparr>rs_tbl_full := rs_tbl_full s + 1\<rparr>) p)
      | (Some i, _) \<Rightarrow>
          (True, p\<lparr>np_routes := (np_routes p)[i := ROUTE_V4 net msk nh
             ((re_flags (np_routes p ! i) OR ROUTE_FLAG_IN_USE) OR flags)]\<rparr>)
      | (None, Some i) \<Rightarrow>
          (True, p\<lparr>np_routes := (np_routes p)[i := ROUTE_V4 net msk nh (re_flags (np_routes p ! i) OR flags)]\<rparr>))"

fun route_find :: "(route_entry \<Rightarrow> bool) \<Rightarrow> route_entry list \<Rightarrow> nat \<Rightarrow> nat option" where
  "route_find f [] i = None"
| "route_find f (e # es) i = (if f e then Some i else route_find f es (Suc i))"

definition route_rem_entry :: "u32 \<Rightarrow> u32 \<Rightarrow> net_port \<Rightarrow> bool \<times> net_port" where
  "route_rem_entry net msk p =
     (case route_find (\<lambda>e. ROUTE_IS_FLAG_SET e ROUTE_FLAG_IN_USE \<and> re_net e = net \<and> re_mask e = msk) (np_routes p) 0 of
        Some i \<Rightarrow>
          let e = np_routes p ! i
          in (True, p\<lparr>np_routes := (np_routes p)[i := e\<lparr>re_flags := re_flags e AND NOT ROUTE_FLAG_IN_USE\<rparr>]\<rparr>)
      | None \<Rightarrow> (False, p))"

definition route_v4_find_local :: "u32 \<Rightarrow> net_port \<Rightarrow> route_entry option \<times> net_port" where
  "route_v4_find_local dest p =
     (case route_find (\<lambda>e. ROUTE_IS_FLAG_SET e ROUTE_FLAG_IN_USE \<and> ROUTE_IS_FLAG_SET e ROUTE_FLAG_LOCAL \<and>
                re_net e AND re_mask e = dest AND re_mask e) (np_routes p) 0 of
        Some i \<Rightarrow> (Some (np_routes p ! i), p)
      | None \<Rightarrow> (None, upd_route_stats (\<lambda>s. s\<lparr>rs_route_not_found := rs_route_not_found s + 1\<rparr>) p))"

subsection \<open>The messages\<close>

record route_intf_msg =
  rim_ip :: u32
  rim_mask :: u32
  rim_vlan_id :: u16
  rim_gw :: u32

definition route_intf_add_cb :: "route_intf_msg \<Rightarrow> net_port \<Rightarrow> int \<times> net_port" where
  "route_intf_add_cb msg p =
     (case arp_add_local (rim_ip msg) (rim_vlan_id msg) p of (added, p) \<Rightarrow>
        if \<not> added then (- ENOMEM, upd_route_stats (\<lambda>s. s\<lparr>rs_intf_nomem := rs_intf_nomem s + 1\<rparr>) p)
        else case route_update_entry (rim_ip msg) (rim_mask msg) 0 ROUTE_FLAG_LOCAL p of (updated, p) \<Rightarrow>
          if \<not> updated then (- ENOMEM, upd_route_stats (\<lambda>s. s\<lparr>rs_intf_nomem := rs_intf_nomem s + 1\<rparr>) p)
          else
            let p = upd_route_stats (\<lambda>s. s\<lparr>rs_intf_add := rs_intf_add s + 1\<rparr>) p;
                p = snd (arp_send_grat_arp_request (rim_ip msg) (rim_vlan_id msg) p);
                p = snd (arp_send_grat_arp_reply (rim_ip msg) (rim_vlan_id msg) p)
            in (0, if rim_gw msg \<noteq> 0 then snd (arp_send_arp_request (rim_ip msg) (rim_gw msg) (rim_vlan_id msg) p) else p))"

definition route_intf_del_cb :: "route_intf_msg \<Rightarrow> net_port \<Rightarrow> int \<times> net_port" where
  "route_intf_del_cb msg p =
     (case arp_delete_local (rim_ip msg) (rim_vlan_id msg) p of (deleted, p) \<Rightarrow>
        if \<not> deleted then (- ENOENT, upd_route_stats (\<lambda>s. s\<lparr>rs_intf_notfound := rs_intf_notfound s + 1\<rparr>) p)
        else case route_rem_entry (rim_ip msg) (rim_mask msg) p of (removed, p) \<Rightarrow>
          if \<not> removed then (- ENOENT, upd_route_stats (\<lambda>s. s\<lparr>rs_intf_notfound := rs_intf_notfound s + 1\<rparr>) p)
          else (0, upd_route_stats (\<lambda>s. s\<lparr>rs_intf_del := rs_intf_del s + 1\<rparr>) p))"

definition route_gw_add_cb :: "u32 \<Rightarrow> net_port \<Rightarrow> int \<times> net_port" where
  "route_gw_add_cb gw p =
     (let p = upd_route_stats (\<lambda>s. s\<lparr>rs_gw_add := rs_gw_add s + 1\<rparr>)
                (p\<lparr>np_default_gw := ROUTE_V4 0 0 gw ROUTE_FLAG_IN_USE\<rparr>)
      in case route_v4_find_local (re_nh (np_default_gw p)) p of
           (None, p) \<Rightarrow> (- EINVAL, upd_route_stats (\<lambda>s. s\<lparr>rs_gw_nointf := rs_gw_nointf s + 1\<rparr>) p)
         | (Some local_intf, p) \<Rightarrow>
             (0, snd (arp_send_arp_request (re_net local_intf) (re_nh (np_default_gw p)) 0 p)))"

definition route_gw_del_cb :: "net_port \<Rightarrow> int \<times> net_port" where
  "route_gw_del_cb p =
     (0, (upd_route_stats (\<lambda>s. s\<lparr>rs_gw_del := rs_gw_del s + 1\<rparr>) p)
           \<lparr>np_default_gw := (np_default_gw p)\<lparr>re_flags := re_flags (np_default_gw p) AND NOT ROUTE_FLAG_IN_USE\<rparr>\<rparr>)"

subsection \<open>The interface\<close>

definition route_v4_intf_add :: "u32 \<Rightarrow> u32 \<Rightarrow> u16 \<Rightarrow> u32 \<Rightarrow> nat \<Rightarrow> net_port \<Rightarrow> int \<times> net_port" where
  "route_v4_intf_add ip msk vlan_id gw index p =
     (let p = p\<lparr>np_gw_per_vlan := (np_gw_per_vlan p)[index := \<lparr>gw_vlan_id = vlan_id, gw_addr = gw\<rparr>]\<rparr>
      in (0, snd (route_intf_add_cb \<lparr>rim_ip = ip, rim_mask = msk, rim_vlan_id = vlan_id, rim_gw = gw\<rparr> p)))"

definition route_v4_intf_del :: "u32 \<Rightarrow> u32 \<Rightarrow> u16 \<Rightarrow> u32 \<Rightarrow> net_port \<Rightarrow> int \<times> net_port" where
  "route_v4_intf_del ip msk vlan_id gw p =
     (0, snd (route_intf_del_cb \<lparr>rim_ip = ip, rim_mask = msk, rim_vlan_id = vlan_id, rim_gw = gw\<rparr> p))"

definition route_v4_gw_add :: "u32 \<Rightarrow> net_port \<Rightarrow> int \<times> net_port" where
  "route_v4_gw_add gw p = (0, snd (route_gw_add_cb gw p))"

definition route_v4_gw_del :: "u32 \<Rightarrow> net_port \<Rightarrow> int \<times> net_port" where
  "route_v4_gw_del gw p = (0, snd (route_gw_del_cb p))"

text \<open>The address of the next hop.\<close>

definition route_v4_nh_lookup :: "u32 \<Rightarrow> u16 \<Rightarrow> net_port \<Rightarrow> u64 \<times> net_port" where
  "route_v4_nh_lookup dest vlan_id p =
     (let nh_mac = arp_lookup_mac dest vlan_id p
      in if nh_mac \<noteq> TPG_ARP_MAC_NOT_FOUND then (nh_mac, p)
         else
           let gw_mac = (if vlan_id \<noteq> 0
                         then case route_v4_find_gw_port_vlan vlan_id p of
                                Some gw \<Rightarrow> arp_lookup_mac gw vlan_id p
                              | None \<Rightarrow> TPG_ARP_MAC_NOT_FOUND
                         else TPG_ARP_MAC_NOT_FOUND)
           in if gw_mac \<noteq> TPG_ARP_MAC_NOT_FOUND then (gw_mac, p)
              else
                let nh_mac = arp_lookup_mac (re_nh (np_default_gw p)) vlan_id p
                in (nh_mac, if nh_mac = TPG_ARP_MAC_NOT_FOUND
                            then upd_route_stats (\<lambda>s. s\<lparr>rs_nh_not_found := rs_nh_not_found s + 1\<rparr>) p else p))"

end
