(* ===== verification/Ipv4.thy ===== *)
theory Ipv4
  imports Route RawApp
begin

text \<open>
  Ethernet and IPv4: building the headers in front of a TCP or UDP header and receiving a frame
  (\<^verbatim>\<open>src/tpg_ethernet.c\<close>, \<^verbatim>\<open>src/tpg_ipv4.c\<close>, \<^verbatim>\<open>inc/tpg_ipv4.h\<close>).

  \<^verbatim>\<open>rte_raw_cksum\<close> is a DPDK function and a parameter: the sum of the 16 bit words of a buffer in ones' complement,
  \<open>rte_raw_cksum_spec\<close>. It is computed and stored in the byte order of the host, little endian here. What the program is built
  with (\<^verbatim>\<open>TPG_SW_CHECKSUMMING\<close>) and what the device can do decides between hardware and software; the flags
  \<open>offload\<close> and \<open>rx_offload\<close> stand for the outcome. The trace and the CLI are not modelled.
\<close>

subsection \<open>The checksum of DPDK\<close>

fun le_words :: "u8 list \<Rightarrow> nat" where
  "le_words [] = 0"
| "le_words [a] = unat a"
| "le_words (a # b # bs) = unat a + 256 * unat b + le_words bs"

definition rte_raw_cksum_spec :: "(u8 list \<Rightarrow> u16) \<Rightarrow> bool" where
  "rte_raw_cksum_spec ck \<longleftrightarrow>
     (\<forall>bs. unat (ck bs) mod 65535 = le_words bs mod 65535 \<and> (ck bs = 0 \<longleftrightarrow> le_words bs = 0))"

definition le16 :: "u16 \<Rightarrow> u8 list" where
  "le16 x = [ucast x, ucast (drop_bit 8 x)]"

subsection \<open>Building the headers\<close>

text \<open>
  A header buffer: its bytes, the lengths and the flag the driver needs for the checksums, and where it is to write a
  timestamp. \<open>room\<close> is what a fresh buffer of the pool can hold.
\<close>

record hdr_mbuf =
  hm_bytes :: frame
  hm_l2_len :: u16
  hm_l3_len :: u16
  hm_ip_cksum :: bool
  hm_tstamp :: "(u16 \<times> u16) option"
  hm_cksum_offset :: "u16 option"

definition rte_pktmbuf_append :: "nat \<Rightarrow> u8 list \<Rightarrow> hdr_mbuf \<Rightarrow> hdr_mbuf option" where
  "rte_pktmbuf_append room bs m =
     (if length (hm_bytes m) + length bs \<le> room then Some (m\<lparr>hm_bytes := hm_bytes m @ bs\<rparr>) else None)"

definition eth_vlan_tci :: "api_sockopt \<Rightarrow> u16" where
  "eth_vlan_tci so = vlanso_id so OR push_bit VLAN_PRIO_SHIFT (ucast (vlanso_pri so))"

definition eth_build_hdr_mbuf ::
  "nat \<Rightarrow> api_sockopt \<Rightarrow> u64 \<Rightarrow> u64 \<Rightarrow> u16 \<Rightarrow> net_port \<Rightarrow> hdr_mbuf option \<times> net_port" where
  "eth_build_hdr_mbuf room so dst_mac src_mac ether_type p =
     (case np_alloc p of (ok, p) \<Rightarrow>
        if \<not> ok then (None, upd_eth_stats (\<lambda>s. s\<lparr>es_no_tx_mbuf := es_no_tx_mbuf s + 1\<rparr>) p)
        else
          let tagged = vlanso_hdr_opt_len so > 0;
              m = \<lparr>hm_bytes = [], hm_l2_len = 0, hm_l3_len = 0, hm_ip_cksum = False, hm_tstamp = None,
                   hm_cksum_offset = None\<rparr>
          in (do {
                m \<leftarrow> rte_pktmbuf_append room
                       (eth_uint64_to_mac dst_mac @ eth_uint64_to_mac src_mac @
                        be16 (if tagged then RTE_ETHER_TYPE_VLAN else ether_type)) m;
                m \<leftarrow> (if tagged then rte_pktmbuf_append room (be16 (eth_vlan_tci so) @ be16 ether_type) m else Some m);
                Some (m\<lparr>hm_l2_len := 14 + ucast (vlanso_hdr_opt_len so)\<rparr>)
              }, p))"

definition IPV4_MCAST_ETH_ADDR_PREFIX :: u64 where "IPV4_MCAST_ETH_ADDR_PREFIX = 0x000001005e000000"
definition IPV4_MCAST_ETH_ADDR_MASK :: u64 where "IPV4_MCAST_ETH_ADDR_MASK = 0x00000000007FFFFF"

definition ipv4_mcast_addr_to_eth :: "u32 \<Rightarrow> u64" where
  "ipv4_mcast_addr_to_eth ip_addr = IPV4_MCAST_ETH_ADDR_PREFIX OR (ucast ip_addr AND IPV4_MCAST_ETH_ADDR_MASK)"

definition IPOPT_TS :: u8 where "IPOPT_TS = 68"
definition IPOPT_TS_TSONLY :: u8 where "IPOPT_TS_TSONLY = 0"

text \<open>An empty timestamp option, and the 20 bytes of a header without options.\<close>

definition ipv4_tstamp_option :: "u8 list" where
  "ipv4_tstamp_option = [IPOPT_TS, 12, 13, IPOPT_TS_TSONLY] @ replicate 8 0"

definition ipv4_hdr_bytes :: "u16 \<Rightarrow> u8 \<Rightarrow> u16 \<Rightarrow> u8 \<Rightarrow> u32 \<Rightarrow> u32 \<Rightarrow> u16 \<Rightarrow> u8 list" where
  "ipv4_hdr_bytes ip_hdr_len tos l4_len protocol src dst cksum =
     [push_bit 4 4 OR ucast (drop_bit 2 ip_hdr_len), tos] @ be16 (ip_hdr_len + l4_len) @ be16 0 @ be16 0 @
     [60, protocol] @ le16 cksum @ be32 src @ be32 dst"

text \<open>An option that does not fit ends the program; a header that does not fit is \<open>Some None\<close>.\<close>

definition ipv4_build_hdr ::
  "nat \<Rightarrow> (u8 list \<Rightarrow> u16) \<Rightarrow> bool \<Rightarrow> api_sockopt \<Rightarrow> u32 \<Rightarrow> u32 \<Rightarrow> hdr_mbuf \<Rightarrow> u8 \<Rightarrow> u16
     \<Rightarrow> hdr_mbuf option option" where
  "ipv4_build_hdr room rte_raw_cksum offload so src dst m protocol l4_len =
     (let l2 = hm_bytes m;
          ts = ip4so_tx_tstamp so;
          ip_hdr_len = (if ts then 32 else 20);
          opts = (if ts then ipv4_tstamp_option else [])
      in case rte_pktmbuf_append room (replicate 20 0) m of
           None \<Rightarrow> Some None
         | Some m1 \<Rightarrow>
             (case (if ts then rte_pktmbuf_append room opts m1 else Some m1) of
                None \<Rightarrow> None
              | Some m \<Rightarrow>
                  let m = (if ts then m\<lparr>hm_tstamp := Some (hm_l2_len m + 20 + 4, 8),
                                        hm_cksum_offset := (if offload then None
                                           else Some (of_nat (length (hm_bytes m)) - ip_hdr_len + 10))\<rparr>
                           else m);
                      hdr = ipv4_hdr_bytes ip_hdr_len (ip4so_tos so) l4_len protocol src dst;
                      raw = rte_raw_cksum (hdr 0 @ opts);
                      cksum = (if offload then 0 else if raw = 0xFFFF then raw else NOT raw)
                  in Some (Some (m\<lparr>hm_bytes := l2 @ hdr cksum @ opts, hm_l3_len := ip_hdr_len,
                                   hm_ip_cksum := offload\<rparr>))))"

definition ipv4_build_hdr_mbuf ::
  "nat \<Rightarrow> (u8 list \<Rightarrow> u16) \<Rightarrow> bool \<Rightarrow> api_sockopt \<Rightarrow> u32 \<Rightarrow> u32 \<Rightarrow> u8 \<Rightarrow> u16 \<Rightarrow> net_port
     \<Rightarrow> (hdr_mbuf option \<times> net_port) option" where
  "ipv4_build_hdr_mbuf room rte_raw_cksum offload so src dst protocol l4_len p =
     (case (if \<not> TPG_IP_MCAST (TPG_IPV4 dst) then route_v4_nh_lookup dst (vlanso_id so) p
            else (ipv4_mcast_addr_to_eth dst, p)) of (dst_mac, p) \<Rightarrow>
        if dst_mac = TPG_ARP_MAC_NOT_FOUND then Some (None, p)
        else case eth_build_hdr_mbuf room so dst_mac (eth_mac_to_uint64 (np_mac p)) RTE_ETHER_TYPE_IPV4 p of
            (None, p) \<Rightarrow> Some (None, p)
          | (Some m, p) \<Rightarrow>
              map_option (\<lambda>m. (m, p)) (ipv4_build_hdr room rte_raw_cksum offload so src dst m protocol l4_len))"

subsection \<open>Receiving\<close>

definition ipv4_parse_option_timestamp :: "u8 list \<Rightarrow> nat \<Rightarrow> u64" where
  "ipv4_parse_option_timestamp bs offset = TSTAMP_JOIN (be32_at bs (offset + 8)) (be32_at bs (offset + 4))"

text \<open>
  The options: the timestamp, or nothing if the packet is corrupted. An option of length 0 is looked at again and
  again.
\<close>

partial_function (option) ipv4_options_loop :: "u8 list \<Rightarrow> u32 \<Rightarrow> u32 \<Rightarrow> u64 \<Rightarrow> u64 option option" where
  "ipv4_options_loop bs offset total_len tstamp_value =
     (if total_len = 0 then Some (Some tstamp_value)
      else if total_len < 4 then Some None
      else
        let ipt_code = byte_at bs (unat offset); ipt_len = ucast (byte_at bs (unat offset + 1)) :: u32
        in if total_len < ipt_len then Some None
           else if ipt_code = IPOPT_TS \<and> ipt_len < 12 then Some None
           else ipv4_options_loop bs (offset + ipt_len) (total_len - ipt_len)
                  (if ipt_code = IPOPT_TS then ipv4_parse_option_timestamp bs (unat offset) else tstamp_value))"

definition ipv4_parse_options :: "u8 list \<Rightarrow> u32 \<Rightarrow> net_port \<Rightarrow> (int \<times> u64 \<times> net_port) option" where
  "ipv4_parse_options bs total_len p =
     map_option (\<lambda>r. case r of
         Some tstamp_value \<Rightarrow> (0, tstamp_value, p)
       | None \<Rightarrow> (- EINVAL, 0, upd_ipv4_stats (\<lambda>s. s\<lparr>ips_invalid_opt := ips_invalid_opt s + 1\<rparr>) p))
       (ipv4_options_loop bs 20 (total_len - 20) 0)"

text \<open>What is above: TCP, UDP and the record of latencies, on a state of their own.\<close>

record 's l4_rx =
  l4_tcp_receive_pkt :: "pcb \<Rightarrow> 's \<Rightarrow> (chain \<times> pcb \<times> 's) option"
  l4_udp_receive_pkt :: "pcb \<Rightarrow> 's \<Rightarrow> (chain \<times> pcb \<times> 's) option"
  l4_latency_check :: "pcb \<Rightarrow> u64 \<Rightarrow> 's \<Rightarrow> 's"

record ipv4_hdr =
  ih_version_ihl :: u8
  ih_total_length :: u16
  ih_fragment_offset :: u16
  ih_next_proto_id :: u8
  ih_src_addr :: u32
  ih_dst_addr :: u32

definition rte_ipv4_hdr_of :: "u8 list \<Rightarrow> ipv4_hdr" where
  "rte_ipv4_hdr_of bs =
     \<lparr>ih_version_ihl = byte_at bs 0, ih_total_length = be16_at bs 2, ih_fragment_offset = be16_at bs 6,
      ih_next_proto_id = byte_at bs 9, ih_src_addr = be32_at bs 12, ih_dst_addr = be32_at bs 16\<rparr>"

definition IPPROTO_ICMP :: u8 where "IPPROTO_ICMP = 1"
definition IPPROTO_TCP :: u8 where "IPPROTO_TCP = 6"
definition IPPROTO_UDP :: u8 where "IPPROTO_UDP = 17"

definition ipv4_hdr_len_of :: "ipv4_hdr \<Rightarrow> u32" where
  "ipv4_hdr_len_of hdr = push_bit 2 (ucast (ih_version_ihl hdr AND 0x0F))"

definition ipv4_count_proto :: "u8 \<Rightarrow> ipv4_stats \<Rightarrow> ipv4_stats" where
  "ipv4_count_proto proto s =
     (if proto = IPPROTO_TCP then s\<lparr>ips_protocol_tcp := ips_protocol_tcp s + 1\<rparr>
      else if proto = IPPROTO_UDP then s\<lparr>ips_protocol_udp := ips_protocol_udp s + 1\<rparr>
      else if proto = IPPROTO_ICMP then s\<lparr>ips_protocol_icmp := ips_protocol_icmp s + 1\<rparr>
      else s\<lparr>ips_protocol_other := ips_protocol_other s + 1\<rparr>)"

text \<open>The checks on a header: \<open>Inl\<close> drops the packet, \<open>Inr\<close> gives the header and its timestamp.\<close>

definition ipv4_check_hdr ::
  "(u8 list \<Rightarrow> u16) \<Rightarrow> bool \<Rightarrow> bool \<Rightarrow> mbuf \<Rightarrow> net_port \<Rightarrow> (net_port + ipv4_hdr \<times> u64 \<times> net_port) option" where
  "ipv4_check_hdr rte_raw_cksum rx_offload ip_cksum_bad m p =
     (if data_len m < 20
      then Some (Inl (upd_ipv4_stats (\<lambda>s. s\<lparr>ips_to_small_fragment := ips_to_small_fragment s + 1\<rparr>) p))
      else
        let hdr = rte_ipv4_hdr_of (mb_data m);
            ip_hdr_len = ipv4_hdr_len_of hdr
        in if ih_fragment_offset hdr AND 0x2000 \<noteq> 0 \<or> ih_fragment_offset hdr AND 0x1FFF \<noteq> 0
           then Some (Inl (upd_ipv4_stats (\<lambda>s. s\<lparr>ips_received_frags := ips_received_frags s + 1\<rparr>) p))
           else
             let p = upd_ipv4_stats (\<lambda>s. ipv4_count_proto (ih_next_proto_id hdr)
                       (s\<lparr>ips_received_pkts := ips_received_pkts s + 1,
                         ips_received_bytes := ips_received_bytes s + ucast (ih_total_length hdr)\<rparr>)) p
             in if data_len m < ip_hdr_len
                then Some (Inl (upd_ipv4_stats (\<lambda>s. s\<lparr>ips_to_small_fragment := ips_to_small_fragment s + 1\<rparr>) p))
                else if ip_hdr_len < 20
                then Some (Inl (upd_ipv4_stats (\<lambda>s. s\<lparr>ips_hdr_to_small := ips_hdr_to_small s + 1\<rparr>) p))
                else if ucast (ih_total_length hdr) < ip_hdr_len \<or> ucast (ih_total_length hdr) > mb_pkt_len m
                then Some (Inl (upd_ipv4_stats (\<lambda>s. s\<lparr>ips_total_length_invalid := ips_total_length_invalid s + 1\<rparr>) p))
                else if ih_version_ihl hdr AND 0xF0 \<noteq> 0x40
                then Some (Inl (upd_ipv4_stats (\<lambda>s. s\<lparr>ips_not_v4 := ips_not_v4 s + 1\<rparr>) p))
                else do {
                  let p = (if ih_fragment_offset hdr AND 0x8000 \<noteq> 0
                           then upd_ipv4_stats (\<lambda>s. s\<lparr>ips_reserved_bit_set := ips_reserved_bit_set s + 1\<rparr>) p else p);
                  (err, tstamp_value, p) \<leftarrow> (if ip_hdr_len > 20 then ipv4_parse_options (mb_data m) ip_hdr_len p
                                              else Some (0, 0, p));
                  if err \<noteq> 0 then Some (Inl p)
                  else if (if rx_offload then ip_cksum_bad
                           else rte_raw_cksum (take (unat ip_hdr_len) (mb_data m)) \<noteq> 0xFFFF)
                  then Some (Inl (upd_ipv4_stats (\<lambda>s. s\<lparr>ips_invalid_checksum := ips_invalid_checksum s + 1\<rparr>) p))
                  else Some (Inr (hdr, tstamp_value, p))
                })"

text \<open>\<^term>\<open>pcb_mbuf\<close> is the packet. The result is the buffer that goes back to its pool.\<close>

definition ipv4_receive_pkt ::
  "pktmbuf_adj \<Rightarrow> pktmbuf_trim \<Rightarrow> (u8 list \<Rightarrow> u16) \<Rightarrow> bool \<Rightarrow> bool \<Rightarrow> 's l4_rx \<Rightarrow> pcb \<Rightarrow> net_port \<Rightarrow> 's
     \<Rightarrow> (chain \<times> pcb \<times> net_port \<times> 's) option" where
  "ipv4_receive_pkt adj trim rte_raw_cksum rx_offload ip_cksum_bad l4 pcb p s =
     (case pcb_mbuf pcb of
        [] \<Rightarrow> None
      | m # ms \<Rightarrow> do {
          checked \<leftarrow> ipv4_check_hdr rte_raw_cksum rx_offload ip_cksum_bad m p;
          case checked of
            Inl p \<Rightarrow> Some (m # ms, pcb, p, s)
          | Inr (hdr, tstamp_value, p) \<Rightarrow> do {
              let l4_len = ih_total_length hdr - ucast (ipv4_hdr_len_of hdr);
              mbuf \<leftarrow> data_adj_chain adj (m # ms) (ipv4_hdr_len_of hdr);
              let pcb = pcb\<lparr>pcb_src_addr := ih_src_addr hdr, pcb_dst_addr := ih_dst_addr hdr,
                            pcb_l4_len := l4_len, pcb_mbuf := mbuf\<rparr>;
              if mbuf = [] then None
              else
                let excess = mb_pkt_len (hd mbuf) - ucast l4_len;
                    trimmed = (if mb_pkt_len (hd mbuf) > ucast l4_len then trim mbuf (ucast excess) else Some mbuf)
                in case trimmed of
                     None \<Rightarrow> Some (mbuf, pcb, upd_ipv4_stats (\<lambda>s. s\<lparr>ips_invalid_pad := ips_invalid_pad s + 1\<rparr>) p, s)
                   | Some mbuf \<Rightarrow> do {
                       let pcb = pcb\<lparr>pcb_mbuf := mbuf\<rparr>;
                       (mbuf, pcb, s) \<leftarrow>
                         (if ih_next_proto_id hdr = IPPROTO_TCP then l4_tcp_receive_pkt l4 pcb s
                          else if ih_next_proto_id hdr = IPPROTO_UDP then l4_udp_receive_pkt l4 pcb s
                          else Some (mbuf, pcb, s));
                       Some (mbuf, pcb, p,
                             if pcb_sockopt pcb \<noteq> None then l4_latency_check l4 pcb tstamp_value s else s)
                     }
            }
        })"

text \<open>The tags of a frame: its type, the last tag and the rest, or a frame that is too short.\<close>

partial_function (option) eth_vlan_loop :: "pktmbuf_adj \<Rightarrow> chain \<Rightarrow> (chain + u16 \<times> u16 \<times> chain) option" where
  "eth_vlan_loop adj mbuf =
     (case mbuf of
        [] \<Rightarrow> None
      | m # _ \<Rightarrow>
          if data_len m < 4 then Some (Inl mbuf)
          else do {
            let etype = be16_at (mb_data m) 2;
            let vlan_tci = be16_at (mb_data m) 0;
            mbuf \<leftarrow> data_adj_chain adj mbuf 4;
            if etype = RTE_ETHER_TYPE_VLAN then eth_vlan_loop adj mbuf else Some (Inr (etype, vlan_tci, mbuf))
          })"

definition eth_dispatch ::
  "(pcb \<Rightarrow> net_port \<Rightarrow> 's \<Rightarrow> (chain \<times> pcb \<times> net_port \<times> 's) option) \<Rightarrow> bool \<Rightarrow> u16 \<Rightarrow> u16 \<Rightarrow> pcb \<Rightarrow> net_port \<Rightarrow> 's
     \<Rightarrow> (chain \<times> pcb \<times> net_port \<times> 's) option" where
  "eth_dispatch ipv4_receive my_core etype vlan_tci pcb p s =
     (if etype = RTE_ETHER_TYPE_IPV4
      then ipv4_receive pcb (upd_eth_stats (\<lambda>s. s\<lparr>es_etype_ipv4 := es_etype_ipv4 s + 1\<rparr>) p) s
      else if etype = RTE_ETHER_TYPE_ARP
      then map_option (\<lambda>(mbuf, p). (mbuf, pcb, p, s))
             (arp_receive_pkt my_core (pcb_mbuf pcb) vlan_tci
                (upd_eth_stats (\<lambda>s. s\<lparr>es_etype_arp := es_etype_arp s + 1\<rparr>) p))
      else if etype = RTE_ETHER_TYPE_IPV6
      then Some (pcb_mbuf pcb, pcb, upd_eth_stats (\<lambda>s. s\<lparr>es_etype_ipv6 := es_etype_ipv6 s + 1\<rparr>) p, s)
      else Some (pcb_mbuf pcb, pcb, upd_eth_stats (\<lambda>s. s\<lparr>es_etype_other := es_etype_other s + 1\<rparr>) p, s))"

definition eth_receive_pkt ::
  "pktmbuf_adj \<Rightarrow> (pcb \<Rightarrow> net_port \<Rightarrow> 's \<Rightarrow> (chain \<times> pcb \<times> net_port \<times> 's) option) \<Rightarrow> bool \<Rightarrow> pcb \<Rightarrow> net_port \<Rightarrow> 's
     \<Rightarrow> (chain \<times> pcb \<times> net_port \<times> 's) option" where
  "eth_receive_pkt adj ipv4_receive my_core pcb p s =
     (case pcb_mbuf pcb of
        [] \<Rightarrow> None
      | m # ms \<Rightarrow>
          let small = upd_eth_stats (\<lambda>s. s\<lparr>es_to_small_fragment := es_to_small_fragment s + 1\<rparr>)
          in if data_len m < 14 then Some (m # ms, pcb, small p, s)
             else do {
               let etype = be16_at (mb_data m) 12;
               mbuf \<leftarrow> data_adj_chain adj (m # ms) 14;
               if etype = RTE_ETHER_TYPE_VLAN
               then do {
                 let p = upd_eth_stats (\<lambda>s. s\<lparr>es_etype_vlan := es_etype_vlan s + 1\<rparr>) p;
                 popped \<leftarrow> eth_vlan_loop adj mbuf;
                 case popped of
                   Inl mbuf \<Rightarrow> Some (mbuf, pcb\<lparr>pcb_mbuf := mbuf\<rparr>, small p, s)
                 | Inr (etype, vlan_tci, mbuf) \<Rightarrow>
                     eth_dispatch ipv4_receive my_core etype vlan_tci (pcb\<lparr>pcb_mbuf := mbuf\<rparr>) p s
               }
               else eth_dispatch ipv4_receive my_core etype VLAN_NO_TAG (pcb\<lparr>pcb_mbuf := mbuf\<rparr>) p s
             })"

end
