(* ===== verification/ArpProps.thy ===== *)
theory ArpProps
  imports Ipv4
begin

text \<open>
  The tables of a port. What an ARP table promises its clients is the locale \<open>neighbour_cache\<close>: an address that was
  learned is found, the others keep what they had. The choice of a next hop is verified against it.
\<close>

subsection \<open>Bytes of addresses\<close>

lemma be16_length [simp]: "length (be16 x) = 2"
  by (simp add: be16_def)

lemma be32_length [simp]: "length (be32 x) = 4"
  by (simp add: be32_def)

lemma le16_length [simp]: "length (le16 x) = 2"
  by (simp add: le16_def)

lemma byte_at_append [simp]:
  "byte_at (xs @ ys) i = (if i < length xs then byte_at xs i else byte_at ys (i - length xs))"
  by (auto simp: byte_at_def nth_append)

lemma byte_at_Cons [simp]: "byte_at (x # xs) i = (case i of 0 \<Rightarrow> x | Suc j \<Rightarrow> byte_at xs j)"
  by (cases i) (simp_all add: byte_at_def)

lemma u16_split: "push_bit 8 (ucast (ucast (drop_bit 8 (x :: u16)) :: u8)) OR ucast (ucast x :: u8) = x"
  by (rule bit_word_eqI) (auto simp: bit_simps)

lemma be16_at_be16 [simp]: "be16_at (be16 x @ ys) 0 = x"
  by (simp add: be16_at_def be16_def u16_split)

lemma be16_at_append [simp]:
  "length xs \<le> i \<Longrightarrow> be16_at (xs @ ys) i = be16_at ys (i - length xs)"
  "i + 1 < length xs \<Longrightarrow> be16_at (xs @ ys) i = be16_at xs i"
  by (simp_all add: be16_at_def Suc_diff_le)

lemma be32_at_append [simp]:
  "length xs \<le> i \<Longrightarrow> be32_at (xs @ ys) i = be32_at ys (i - length xs)"
  "i + 3 < length xs \<Longrightarrow> be32_at (xs @ ys) i = be32_at xs i"
  by (simp_all add: be32_at_def Suc_diff_le le_SucI)

lemma be_at_Cons [simp]:
  "0 < i \<Longrightarrow> be16_at (x # xs) i = be16_at xs (i - 1)" "0 < i \<Longrightarrow> be32_at (x # xs) i = be32_at xs (i - 1)"
  by (auto simp: be16_at_def be32_at_def split: nat.splits)

lemma be32_at_be32 [simp]: "be32_at (be32 x @ ys) 0 = x"
proof -
  have 1: "push_bit 16 (ucast (push_bit 8 (ucast (ucast (drop_bit 24 x) :: u8)) OR ucast (ucast (drop_bit 16 x) :: u8) :: u16)) OR
        ucast (push_bit 8 (ucast (ucast (drop_bit 8 x) :: u8)) OR ucast (ucast x :: u8) :: u16) = x"
  proof (rule bit_word_eqI)
    fix n assume "n < LENGTH(32)"
    then consider "n < 8" | "8 \<le> n" "n < 16" | "16 \<le> n" "n < 24" | "24 \<le> n" "n < 32" by fastforce
    then show "bit (push_bit 16 (ucast (push_bit 8 (ucast (ucast (drop_bit 24 x) :: u8)) OR ucast (ucast (drop_bit 16 x) :: u8) :: u16)) OR
        ucast (push_bit 8 (ucast (ucast (drop_bit 8 x) :: u8)) OR ucast (ucast x :: u8) :: u16) :: u32) n = bit x n"
      by cases (auto simp: bit_simps)
  qed
  show ?thesis using 1 by (simp add: be32_at_def be16_at_def be32_def eval_nat_numeral)
qed

lemma list6: "length xs = 6 \<Longrightarrow> \<exists>a b c d e f. xs = [a, b, c, d, e, f]"
  by (auto simp: eval_nat_numeral length_Suc_conv)

lemma eth_mac_roundtrip:
  assumes "length mac = 6"
  shows "eth_uint64_to_mac (eth_mac_to_uint64 mac) = mac"
proof -
  obtain a b c d e f where m: "mac = [a, b, c, d, e, f]" using list6 [OF assms] by blast
  have ff: "(0xff :: u64) = Bit_Operations.mask 8" by (simp add: mask_eq_exp_minus_1)
  show ?thesis
    unfolding m eth_uint64_to_mac_def eth_mac_to_uint64_def ff
    by (simp add: nth_append) (safe; rule bit_word_eqI; auto simp: bit_simps dest: bit_imp_le_length)
qed

lemma eth_mac_small: "eth_mac_to_uint64 mac AND TPG_ARP_UINT64_MAC_MASK = eth_mac_to_uint64 mac"
proof -
  have m: "TPG_ARP_UINT64_MAC_MASK = Bit_Operations.mask 48"
    by (simp add: mask_eq_exp_minus_1 TPG_ARP_UINT64_MAC_MASK_def)
  show ?thesis unfolding eth_mac_to_uint64_def m
    by (rule bit_word_eqI) (auto simp: bit_simps dest: bit_imp_le_length)
qed

subsection \<open>The contract of the table\<close>

locale neighbour_cache =
  fixes find_mac :: "'t \<Rightarrow> u32 \<Rightarrow> u16 \<Rightarrow> u64 option"
    and learn :: "u32 \<Rightarrow> u64 \<Rightarrow> u16 \<Rightarrow> 't \<Rightarrow> bool \<times> 't"
  assumes learn_finds: "learn ip mac v t = (True, t') \<Longrightarrow> find_mac t' ip v = Some (mac AND TPG_ARP_UINT64_MAC_MASK)"
    and learn_others: "learn ip mac v t = (b, t') \<Longrightarrow> ip' \<noteq> ip \<Longrightarrow> find_mac t' ip' v' = find_mac t ip' v'"
    and learn_full: "learn ip mac v t = (False, t') \<Longrightarrow> t' = t"
begin

text \<open>The next hop: the destination itself, the gateway of its VLAN, the default gateway, as far as they are known.\<close>

definition next_hop :: "'t \<Rightarrow> u32 option \<Rightarrow> u32 \<Rightarrow> u32 \<Rightarrow> u16 \<Rightarrow> u64 option" where
  "next_hop t vlan_gw def_gw dest v =
     (case find_mac t dest v of
        Some mac \<Rightarrow> Some mac
      | None \<Rightarrow>
          (case Option.bind vlan_gw (\<lambda>gw. find_mac t gw v) of
             Some mac \<Rightarrow> Some mac
           | None \<Rightarrow> find_mac t def_gw v))"

lemma learn_vlan_gateway:
  assumes "learn gw mac v t = (True, t')" and "dest \<noteq> gw" and "find_mac t dest v = None"
  shows "next_hop t' (Some gw) def_gw dest v = Some (mac AND TPG_ARP_UINT64_MAC_MASK)"
  using learn_finds [OF assms(1)] learn_others [OF assms(1,2)] assms(3) by (simp add: next_hop_def)

lemma learn_default_gateway:
  assumes "learn gw mac v t = (True, t')" and "dest \<noteq> gw" and "find_mac t dest v = None"
    and "\<forall>g. vlan_gw = Some g \<longrightarrow> g = gw \<or> find_mac t g v = None"
  shows "next_hop t' vlan_gw gw dest v = Some (mac AND TPG_ARP_UINT64_MAC_MASK)"
proof -
  note f = learn_finds [OF assms(1)] and o = learn_others [OF assms(1)]
  have d: "find_mac t' dest v = None" using o [OF assms(2)] assms(3) by simp
  show ?thesis
  proof (cases vlan_gw)
    case (Some g)
    then have "g = gw \<or> find_mac t' g v = None" using assms(4) o [of g v] by (cases "g = gw") auto
    then show ?thesis
    proof
      assume "find_mac t' g v = None"
      moreover have "find_mac t' gw v = Some (mac AND TPG_ARP_UINT64_MAC_MASK)" by (rule f)
      ultimately show ?thesis using Some d by (simp add: next_hop_def)
    qed (use Some d f in \<open>simp add: next_hop_def\<close>)
  qed (use d f in \<open>simp add: next_hop_def\<close>)
qed

lemma learn_keeps_known:
  assumes "learn ip mac v' t = (b, t')" and "dest \<noteq> ip" and "find_mac t dest v = Some m"
  shows "next_hop t' vlan_gw def_gw dest v = Some m"
  using learn_others [OF assms(1,2)] assms(3) by (simp add: next_hop_def)

end

subsection \<open>The table of the code\<close>

definition arp_is :: "u32 \<Rightarrow> u16 \<Rightarrow> arp_entry \<Rightarrow> bool" where
  "arp_is ip v e \<longleftrightarrow> arp_is_entry_in_use e \<and> ae_ip_address e = ip \<and> ae_vlan_id e = v"

definition port_find_mac :: "net_port \<Rightarrow> u32 \<Rightarrow> u16 \<Rightarrow> u64 option" where
  "port_find_mac p ip v =
     map_option arp_get_mac_from_entry_as_uint64 (List.find (arp_is ip v) (np_arp p))"

lemma arp_find_ge: "arp_find f es i = Some j \<Longrightarrow> i \<le> j"
  by (induction es arbitrary: i) (auto split: if_splits dest: Suc_leD)

lemma arp_find_list: "map_option (\<lambda>j. es ! (j - i)) (arp_find f es i) = List.find f es"
proof (induction es arbitrary: i)
  case (Cons e es)
  have "(e # es) ! (j - i) = es ! (j - Suc i)" if "Suc i \<le> j" for j
    using that by (cases "j - i") (auto, metis diff_Suc_1 diff_Suc_eq_diff_pred diff_commute)
  then show ?case using Cons [of "Suc i"] arp_find_ge [of f es "Suc i"]
    by (cases "arp_find f es (Suc i)") auto
qed simp

lemma find_append: "List.find f (xs @ ys) = (case List.find f xs of Some x \<Rightarrow> Some x | None \<Rightarrow> List.find f ys)"
  by (induction xs) auto

lemma arp_lookup_list: "map_option (\<lambda>i. np_arp p ! i) (arp_lookup ip v p) = List.find (arp_is ip v) (np_arp p)"
  using arp_find_list [of "np_arp p" 0] by (simp add: arp_lookup_def arp_is_def [abs_def])

lemma port_find_mac_lookup: "map_option (\<lambda>i. arp_get_mac_from_entry_as_uint64 (np_arp p ! i)) (arp_lookup ip v p) = port_find_mac p ip v"
  unfolding port_find_mac_def by (simp add: option.map_comp o_def flip: arp_lookup_list)

lemma mac_not_reserved: "arp_get_mac_from_entry_as_uint64 e \<noteq> TPG_ARP_MAC_NOT_FOUND"
proof
  assume "arp_get_mac_from_entry_as_uint64 e = TPG_ARP_MAC_NOT_FOUND"
  then have "bit (ae_mac_flags e AND TPG_ARP_UINT64_MAC_MASK) 49 = bit TPG_ARP_MAC_NOT_FOUND 49"
    by (simp add: arp_get_mac_from_entry_as_uint64_def)
  then show False
    by (simp add: TPG_ARP_MAC_NOT_FOUND_def TPG_ARP_FLAG_INCOMPLETE_def TPG_ARP_UINT64_MAC_MASK_def bit_simps)
qed

lemma arp_lookup_mac_find:
  "arp_lookup_mac ip v p = (case port_find_mac p ip v of Some mac \<Rightarrow> mac | None \<Rightarrow> TPG_ARP_MAC_NOT_FOUND)"
  by (simp add: arp_lookup_mac_def flip: port_find_mac_lookup split: option.splits)

lemma port_find_mac_known: "port_find_mac p ip v = Some mac \<Longrightarrow> mac \<noteq> TPG_ARP_MAC_NOT_FOUND"
  using mac_not_reserved by (auto simp: port_find_mac_def)

lemma arp_update_scan_free: "arp_update_scan ip es i (Some f) = (Some f, snd (arp_update_scan ip es i None))"
proof (induction es arbitrary: i f)
  case (Cons e es)
  show ?case
    using Cons [of "Suc i" f] Cons [of "Suc i" i]
    by (cases "arp_is_entry_in_use e"; cases "ip = ae_ip_address e") simp_all
qed simp

definition arp_of :: "u32 \<Rightarrow> arp_entry \<Rightarrow> bool" where
  "arp_of ip e \<longleftrightarrow> arp_is_entry_in_use e \<and> ae_ip_address e = ip"

lemma arp_update_scan_split:
  "arp_update_scan ip es i None = (fr, up) \<Longrightarrow>
     (\<forall>j. fr = Some j \<longrightarrow> (\<exists>xs e ys. es = xs @ e # ys \<and> j = i + length xs \<and> \<not> arp_is_entry_in_use e \<and> (\<forall>x \<in> set xs. arp_is_entry_in_use x \<and> \<not> arp_of ip x))) \<and>
     (\<forall>j. fr = None \<and> up = Some j \<longrightarrow>
        (\<exists>xs e ys. es = xs @ e # ys \<and> j = i + length xs \<and> arp_of ip e \<and> (\<forall>x \<in> set xs. arp_is_entry_in_use x \<and> \<not> arp_of ip x))) \<and>
     (fr = None \<and> up = None \<longrightarrow> (\<forall>x \<in> set es. arp_is_entry_in_use x \<and> \<not> arp_of ip x))"
proof (induction es arbitrary: i)
  case (Cons e es)
  have pre: "\<exists>xs a ys. e # es = xs @ a # ys \<and> j = i + length xs \<and> P a \<and> (\<forall>x \<in> set xs. Q x)"
    if "Q e" "\<exists>xs a ys. es = xs @ a # ys \<and> j = Suc i + length xs \<and> P a \<and> (\<forall>x \<in> set xs. Q x)" for j P Q
  proof -
    from that(2) obtain xs a ys where "es = xs @ a # ys" "j = Suc i + length xs" "P a" "\<forall>x \<in> set xs. Q x" by blast
    then show ?thesis using that(1) by (intro exI [of _ "e # xs"] exI [of _ a] exI [of _ ys]) simp
  qed
  consider "\<not> arp_is_entry_in_use e" | "arp_of ip e" | "arp_is_entry_in_use e" "\<not> arp_of ip e" by blast
  then show ?case
  proof cases
    case 1
    then have "fr = Some i" using Cons.prems by (simp add: arp_update_scan_free)
    then show ?thesis using 1 by (intro conjI allI impI exI [of _ "[]"]) auto
  next
    case 2
    then have "fr = None \<and> up = Some i" using Cons.prems by (auto simp: arp_of_def)
    then show ?thesis using 2 by (intro conjI allI impI exI [of _ "[]"]) auto
  next
    case 3
    then have "arp_update_scan ip es (Suc i) None = (fr, up)" using Cons.prems by (auto simp: arp_of_def split: if_splits)
    from Cons.IH [OF this] show ?thesis using 3 by (intro conjI allI impI; (intro pre)?) auto
  qed
qed auto

lemma flag_bits [bit_simps]:
  "bit TPG_ARP_FLAG_IN_USE n \<longleftrightarrow> n = 48" "bit TPG_ARP_FLAG_LOCAL n \<longleftrightarrow> n = 50"
  "bit TPG_ARP_UINT64_MAC_MASK n \<longleftrightarrow> n < 48" "bit TPG_ARP_UINT64_FLAGS_MASK n \<longleftrightarrow> 48 \<le> n \<and> n < 64"
proof -
  have m: "TPG_ARP_FLAG_IN_USE = push_bit 48 1" "TPG_ARP_FLAG_LOCAL = push_bit 50 1"
    "TPG_ARP_UINT64_MAC_MASK = Bit_Operations.mask 48"
    by (simp_all add: TPG_ARP_FLAG_IN_USE_def TPG_ARP_FLAG_LOCAL_def TPG_ARP_UINT64_MAC_MASK_def mask_eq_exp_minus_1)
  show "bit TPG_ARP_FLAG_IN_USE n \<longleftrightarrow> n = 48" "bit TPG_ARP_FLAG_LOCAL n \<longleftrightarrow> n = 50"
    unfolding m by (auto simp only: bit_push_bit_iff bit_1_iff) (auto simp: possible_bit_def)
  show "bit TPG_ARP_UINT64_MAC_MASK n \<longleftrightarrow> n < 48" "bit TPG_ARP_UINT64_FLAGS_MASK n \<longleftrightarrow> 48 \<le> n \<and> n < 64"
    unfolding TPG_ARP_UINT64_FLAGS_MASK_def m by (auto simp: bit_simps)
qed

lemma flag_set_bit: "ARP_IS_FLAG_SET e f \<longleftrightarrow> (\<exists>n. 48 \<le> n \<and> bit (ae_mac_flags e) n \<and> bit f n)"
  using bit_imp_le_length [of f] by (fastforce simp: ARP_IS_FLAG_SET_def bit_eq_iff bit_simps)

lemma in_use_bit: "arp_is_entry_in_use e \<longleftrightarrow> bit (ae_mac_flags e) 48"
  by (auto simp: arp_is_entry_in_use_def flag_set_bit bit_simps)

lemma entry_simps [simp]:
  "arp_is_entry_in_use (arp_set_entry_in_use e)"
  "\<not> arp_is_entry_in_use (arp_clear_entry_in_use e)"
  "arp_is_entry_in_use (arp_set_mac_in_entry_as_uint64 mac e) = arp_is_entry_in_use e"
  "arp_is_entry_in_use (e\<lparr>ae_vlan_id := v\<rparr>) = arp_is_entry_in_use e"
  "arp_is_entry_in_use (e\<lparr>ae_ip_address := ip\<rparr>) = arp_is_entry_in_use e"
  by (auto simp: in_use_bit arp_set_entry_in_use_def arp_clear_entry_in_use_def arp_set_mac_in_entry_as_uint64_def bit_simps)

lemma entry_fields [simp]:
  "ae_ip_address (arp_set_entry_in_use e) = ae_ip_address e" "ae_vlan_id (arp_set_entry_in_use e) = ae_vlan_id e"
  "ae_ip_address (arp_set_mac_in_entry_as_uint64 mac e) = ae_ip_address e"
  "ae_vlan_id (arp_set_mac_in_entry_as_uint64 mac e) = ae_vlan_id e"
  "ae_ip_address (arp_clear_entry_in_use e) = ae_ip_address e" "ae_vlan_id (arp_clear_entry_in_use e) = ae_vlan_id e"
  by (simp_all add: arp_set_entry_in_use_def arp_set_mac_in_entry_as_uint64_def arp_clear_entry_in_use_def)

lemma entry_mac [simp]:
  "arp_get_mac_from_entry_as_uint64 (arp_set_entry_in_use e) = arp_get_mac_from_entry_as_uint64 e"
  "arp_get_mac_from_entry_as_uint64 (arp_set_mac_in_entry_as_uint64 mac e) = mac AND TPG_ARP_UINT64_MAC_MASK"
  "arp_get_mac_from_entry_as_uint64 (e\<lparr>ae_vlan_id := v\<rparr>) = arp_get_mac_from_entry_as_uint64 e"
  "arp_get_mac_from_entry_as_uint64 (e\<lparr>ae_ip_address := ip\<rparr>) = arp_get_mac_from_entry_as_uint64 e"
  unfolding arp_get_mac_from_entry_as_uint64_def arp_set_entry_in_use_def arp_set_mac_in_entry_as_uint64_def
  by (simp_all, (rule bit_word_eqI, auto simp: bit_simps)+)

text \<open>An update writes one entry; those before it do not have the address.\<close>

lemma arp_update_entry_split:
  assumes "arp_update_entry ip mac local v p = (ok, p')"
  shows "(ok \<and> (\<exists>xs e ys e'. np_arp p = xs @ e # ys \<and> p' = p\<lparr>np_arp := xs @ e' # ys\<rparr> \<and> arp_is ip v e' \<and>
            arp_get_mac_from_entry_as_uint64 e' = mac AND TPG_ARP_UINT64_MAC_MASK \<and>
            (arp_is_entry_in_use e \<longrightarrow> arp_of ip e) \<and> (\<forall>x \<in> set xs. arp_is_entry_in_use x \<and> \<not> arp_of ip x))) \<or>
         (\<not> ok \<and> p' = p \<and> (\<forall>x \<in> set (np_arp p). arp_is_entry_in_use x \<and> \<not> arp_of ip x))"
proof -
  obtain fr up where sc: "arp_update_scan ip (np_arp p) 0 None = (fr, up)" by fastforce
  note sp = arp_update_scan_split [OF this]
  consider i where "fr = Some i" | i where "fr = None" "up = Some i" | "fr = None" "up = None" by (cases fr; cases up) auto
  then show ?thesis
  proof cases
    case (1 i)
    with sp obtain xs e ys where l: "np_arp p = xs @ e # ys" "i = length xs" "\<not> arp_is_entry_in_use e" "\<forall>x \<in> set xs. arp_is_entry_in_use x \<and> \<not> arp_of ip x"
      by auto
    let ?e = "arp_set_entry_in_use ((arp_set_mac_in_entry_as_uint64 mac
        (e\<lparr>ae_ip_address := ip, ae_mac_flags := (if local then TPG_ARP_FLAG_LOCAL else 0)\<rparr>))\<lparr>ae_vlan_id := v\<rparr>)"
    have "ok \<and> p' = p\<lparr>np_arp := xs @ ?e # ys\<rparr>" using assms sc 1 l by (auto simp: arp_update_entry_def Let_def)
    moreover have "arp_is ip v ?e" "arp_get_mac_from_entry_as_uint64 ?e = mac AND TPG_ARP_UINT64_MAC_MASK"
      by (simp_all add: arp_is_def)
    ultimately show ?thesis using l by blast
  next
    case (2 i)
    with sp obtain xs e ys where l: "np_arp p = xs @ e # ys" "i = length xs" "arp_of ip e" "\<forall>x \<in> set xs. arp_is_entry_in_use x \<and> \<not> arp_of ip x"
      by auto
    let ?e = "(arp_set_mac_in_entry_as_uint64 mac e)\<lparr>ae_vlan_id := v\<rparr>"
    have "ok \<and> p' = p\<lparr>np_arp := xs @ ?e # ys\<rparr>" using assms sc 2 l by (auto simp: arp_update_entry_def Let_def)
    moreover have "arp_is ip v ?e" "arp_get_mac_from_entry_as_uint64 ?e = mac AND TPG_ARP_UINT64_MAC_MASK"
      using l(3) by (simp_all add: arp_is_def arp_of_def)
    ultimately show ?thesis using l by blast
  next
    case 3
    then show ?thesis using assms sc sp by (simp add: arp_update_entry_def)
  qed
qed

lemma find_none: "\<forall>x \<in> set xs. \<not> arp_of ip x \<Longrightarrow> List.find (arp_is ip v) xs = None"
  by (induction xs) (auto simp: arp_is_def arp_of_def)

interpretation arp_cache: neighbour_cache port_find_mac "\<lambda>ip mac. arp_update_entry ip mac local" for local
proof
  fix ip mac v p p' b ip' v'
  show "port_find_mac p' ip v = Some (mac AND TPG_ARP_UINT64_MAC_MASK)" if "arp_update_entry ip mac local v p = (True, p')"
    using arp_update_entry_split [OF that] by (auto simp: port_find_mac_def find_append find_none)
  show "port_find_mac p' ip' v' = port_find_mac p ip' v'" if "arp_update_entry ip mac local v p = (b, p')" "ip' \<noteq> ip"
    using arp_update_entry_split [OF that(1)]
  proof (elim disjE conjE exE)
    fix xs e ys e'
    assume e: "np_arp p = xs @ e # ys" "p' = p\<lparr>np_arp := xs @ e' # ys\<rparr>" "arp_is ip v e'" "arp_is_entry_in_use e \<longrightarrow> arp_of ip e"
    then have "\<not> arp_is ip' v' e'" "\<not> arp_is ip' v' e" using that(2) by (auto simp: arp_is_def arp_of_def)
    then show ?thesis using e(1,2) by (simp add: port_find_mac_def find_append split: option.split)
  qed simp
  show "p' = p" if "arp_update_entry ip mac local v p = (False, p')"
    using arp_update_entry_split [OF that] by auto
qed

lemma route_v4_nh_lookup_next_hop:
  "fst (route_v4_nh_lookup dest v p) =
     (case arp_cache.next_hop p (if v \<noteq> 0 then route_v4_find_gw_port_vlan v p else None) (re_nh (np_default_gw p)) dest v of
        Some mac \<Rightarrow> mac | None \<Rightarrow> TPG_ARP_MAC_NOT_FOUND)"
  using port_find_mac_known [of p dest v]
  by (auto simp: route_v4_nh_lookup_def arp_cache.next_hop_def arp_lookup_mac_find Let_def
      dest: port_find_mac_known split: option.splits)

text \<open>A table nothing was deleted from: used entries of different addresses, then free slots.\<close>

definition arp_packed :: "net_port \<Rightarrow> bool" where
  "arp_packed p \<longleftrightarrow> (\<exists>us fs. np_arp p = us @ fs \<and> (\<forall>e \<in> set us. arp_is_entry_in_use e) \<and>
     (\<forall>e \<in> set fs. \<not> arp_is_entry_in_use e) \<and> distinct (map ae_ip_address us))"

lemma packed_split:
  "us @ fs = xs @ e # ys \<Longrightarrow> \<forall>x \<in> set us. P x \<Longrightarrow> \<forall>x \<in> set fs. \<not> P x \<Longrightarrow> \<forall>x \<in> set xs. P x \<Longrightarrow> \<not> P e \<Longrightarrow>
     us = xs \<and> fs = e # ys"
proof (induction us arbitrary: xs)
  case Nil
  then show ?case by (cases xs) auto
next
  case (Cons u us)
  then show ?case by (cases xs) auto
qed

lemma packed_update:
  assumes "arp_packed p" and u: "arp_update_entry ip mac local v p = (ok, p')"
  shows "arp_packed p'" and "ok \<Longrightarrow> v' \<noteq> v \<Longrightarrow> port_find_mac p' ip v' = None"
proof -
  obtain us fs where t: "np_arp p = us @ fs" "\<forall>e \<in> set us. arp_is_entry_in_use e" "\<forall>e \<in> set fs. \<not> arp_is_entry_in_use e"
    "distinct (map ae_ip_address us)"
    using assms(1) unfolding arp_packed_def by blast
  have two: "arp_packed p' \<and> (v' \<noteq> v \<longrightarrow> port_find_mac p' ip v' = None)" if ok
  proof -
    from arp_update_entry_split [OF u] \<open>ok\<close> obtain xs e ys e' where
      e: "np_arp p = xs @ e # ys" "p' = p\<lparr>np_arp := xs @ e' # ys\<rparr>" "arp_is ip v e'"
        "arp_is_entry_in_use e \<longrightarrow> arp_of ip e" "\<forall>x \<in> set xs. arp_is_entry_in_use x \<and> \<not> arp_of ip x"
      by auto
    have e': "arp_is_entry_in_use e'" "ae_ip_address e' = ip" "v' \<noteq> v \<longrightarrow> \<not> arp_is ip v' e'"
      using e(3) by (auto simp: arp_is_def)
    have xs: "ip \<notin> ae_ip_address ` set xs" using e(5) by (auto simp: arp_of_def)
    show ?thesis
    proof (cases "arp_is_entry_in_use e")
      case False
      have eq: "us @ fs = xs @ e # ys" using t(1) e(1) by simp
      have "us = xs \<and> fs = e # ys"
        using packed_split [OF eq t(2,3) _ False] e(5) by blast
      then have "us = xs" "fs = e # ys" by auto
      then have "List.find (arp_is ip v') ys = None" using t(3) by (auto simp: find_None_iff arp_is_def)
      then have "v' \<noteq> v \<longrightarrow> port_find_mac p' ip v' = None"
        using e(2,5) e'(3) by (simp add: port_find_mac_def find_append find_none)
      moreover have "arp_packed p'" unfolding arp_packed_def e(2)
        using t e' xs \<open>us = xs\<close> \<open>fs = e # ys\<close> by (intro exI [of _ "xs @ [e']"] exI [of _ ys]) auto
      ultimately show ?thesis by simp
    next
      case True
      have eq: "us @ fs = xs @ e # ys" using t(1) e(1) by simp
      have "\<exists>us'. us = xs @ e # us' \<and> ys = us' @ fs"
        using eq t(3) True e(5) by (auto simp: append_eq_append_conv2 Cons_eq_append_conv append_eq_Cons_conv)
      then obtain us' where us: "us = xs @ e # us'" "ys = us' @ fs" by blast
      have ip: "ae_ip_address e = ip" using e(4) True by (simp add: arp_of_def)
      have "List.find (arp_is ip v') ys = None"
        using t(3,4) us ip by (force simp: find_None_iff arp_is_def image_iff)
      then have "v' \<noteq> v \<longrightarrow> port_find_mac p' ip v' = None"
        using e(2,5) e'(3) by (simp add: port_find_mac_def find_append find_none)
      moreover have "arp_packed p'" unfolding arp_packed_def e(2)
        using t us ip e' by (intro exI [of _ "xs @ e' # us'"] exI [of _ fs]) auto
      ultimately show ?thesis by simp
    qed
  qed
  show "arp_packed p'" using two arp_update_entry_split [OF u] assms(1) by auto
  show "ok \<Longrightarrow> v' \<noteq> v \<Longrightarrow> port_find_mac p' ip v' = None" using two by simp
qed

subsection \<open>Frames on the wire\<close>

text \<open>What the driver delivers for a frame that fits one buffer.\<close>

definition frame_chain :: "u8 list \<Rightarrow> chain" where
  "frame_chain f = [\<lparr>mb_data = f, mb_pkt_len = of_nat (length f), mb_nb_segs = 1\<rparr>]"

lemma adj_frame:
  assumes adj: "rte_pktmbuf_adj_spec adj" and "length (xs @ ys) < 65536"
  shows "data_adj_chain adj (frame_chain (xs @ ys)) (of_nat (length xs)) = Some (frame_chain ys)"
proof -
  have n: "unat (ucast (of_nat (length xs) :: u32) :: u16) = length xs"
    using assms(2) by (simp add: unsigned_ucast_eq unat_of_nat take_bit_nat_eq_self)
  have u: "(ucast (ucast (of_nat (length xs) :: u32) :: u16) :: u32) = of_nat (length xs)"
    by (rule ucast_u16_u32) (use assms(2) in \<open>simp add: unat_of_nat take_bit_nat_eq_self\<close>)
  show ?thesis
    using adj n u by (simp add: rte_pktmbuf_adj_spec_def data_adj_chain_def frame_chain_def)
qed

lemma data_len_frame: "length f < 65536 \<Longrightarrow> unat (data_len (hd (frame_chain f))) = length f"
  by (simp add: frame_chain_def data_len_def unat_of_nat take_bit_nat_eq_self)

definition eth_header :: "u8 list \<Rightarrow> u8 list \<Rightarrow> u16 option \<Rightarrow> u16 \<Rightarrow> frame" where
  "eth_header d s tag etype =
     d @ s @ (case tag of None \<Rightarrow> be16 etype | Some tci \<Rightarrow> be16 RTE_ETHER_TYPE_VLAN @ be16 tci @ be16 etype)"

definition count_tag :: "u16 option \<Rightarrow> net_port \<Rightarrow> net_port" where
  "count_tag tag p = (if tag = None then p else upd_eth_stats (\<lambda>s. s\<lparr>es_etype_vlan := es_etype_vlan s + 1\<rparr>) p)"

definition tag_tci :: "u16 option \<Rightarrow> u16" where
  "tag_tci tag = (case tag of None \<Rightarrow> VLAN_NO_TAG | Some tci \<Rightarrow> tci)"

lemma eth_receive_header:
  assumes adj: "rte_pktmbuf_adj_spec adj" and l: "length d = 6" "length s = 6" and et: "etype \<noteq> RTE_ETHER_TYPE_VLAN"
    and len: "length body + 18 < 65536" and m: "pcb_mbuf pcb = frame_chain (eth_header d s tag etype @ body)"
  shows "eth_receive_pkt adj ip core pcb p st =
           eth_dispatch ip core etype (tag_tci tag) (pcb\<lparr>pcb_mbuf := frame_chain body\<rparr>) (count_tag tag p) st"
proof (cases tag)
  case None
  let ?h = "d @ s @ be16 etype"
  have a: "data_adj_chain adj (frame_chain (?h @ body)) 14 = Some (frame_chain body)"
    using adj_frame [OF adj, of ?h body] l len by simp
  have big: "\<not> data_len (hd (frame_chain (?h @ body))) < 14"
    using data_len_frame [of "?h @ body"] l len by (simp add: word_unat_less)
  show ?thesis
    using m a big l et None unfolding eth_receive_pkt_def
    by (simp add: frame_chain_def eth_header_def tag_tci_def count_tag_def Let_def)
next
  case (Some tci)
  let ?h = "d @ s @ be16 RTE_ETHER_TYPE_VLAN" and ?b = "be16 tci @ be16 etype @ body"
  have a: "data_adj_chain adj (frame_chain (?h @ ?b)) 14 = Some (frame_chain ?b)"
    using adj_frame [OF adj, of ?h ?b] l len by simp
  have big: "\<not> data_len (hd (frame_chain (?h @ ?b))) < 14" "\<not> data_len (hd (frame_chain ?b)) < 4"
    using data_len_frame [of "?h @ ?b"] data_len_frame [of ?b] l len by (simp_all add: word_unat_less)
  have b: "data_adj_chain adj (frame_chain ?b) 4 = Some (frame_chain body)"
    using adj_frame [OF adj, of "be16 tci @ be16 etype" body] len by simp
  have v: "eth_vlan_loop adj (frame_chain ?b) = Some (Inr (etype, tci, frame_chain body))"
    using b big(2) et by (subst eth_vlan_loop.simps) (simp add: frame_chain_def)
  show ?thesis
    using m a big(1) v l unfolding eth_receive_pkt_def
    by (simp add: frame_chain_def eth_header_def tag_tci_def count_tag_def Let_def Some)
qed

lemma arp_frame_header:
  "arp_frame d s tci a = eth_header d s (if VLAN_TAG_ID tci = 0 then None else Some tci) RTE_ETHER_TYPE_ARP @ a"
  by (simp add: arp_frame_def eth_header_def)

lemma arp_hdr_of_pkt:
  assumes "length sha = 6" "length tha = 6"
  shows "rte_arp_hdr_of (arp_pkt op sha sip tha tip @ pad) =
           \<lparr>arp_hardware = RTE_ARP_HRD_ETHER, arp_protocol = RTE_ETHER_TYPE_IPV4, arp_hlen = 6, arp_plen = 4,
            arp_opcode = op, arp_sha = sha, arp_sip = sip, arp_tha = tha, arp_tip = tip\<rparr>"
  using assms by (simp add: rte_arp_hdr_of_def arp_pkt_def)

lemma length_arp_pkt: "length sha = 6 \<Longrightarrow> length tha = 6 \<Longrightarrow> length (arp_pkt op sha sip tha tip) = 28"
  by (simp add: arp_pkt_def)

lemma arp_receive_well_formed:
  assumes "length sha = 6" "length tha = 6" and "length pad < 65500" and "op = RTE_ARP_OP_REQUEST \<or> op = RTE_ARP_OP_REPLY"
    and hdr: "hdr = \<lparr>arp_hardware = RTE_ARP_HRD_ETHER, arp_protocol = RTE_ETHER_TYPE_IPV4, arp_hlen = 6, arp_plen = 4,
            arp_opcode = op, arp_sha = sha, arp_sip = sip, arp_tha = tha, arp_tip = tip\<rparr>"
  shows "arp_receive_pkt True (frame_chain (arp_pkt op sha sip tha tip @ pad)) tci p =
           Some (frame_chain (arp_pkt op sha sip tha tip @ pad),
             if op = RTE_ARP_OP_REQUEST
             then arp_process_request hdr (VLAN_TAG_ID tci)
                    (upd_arp_stats (\<lambda>s. s\<lparr>as_received_req := as_received_req s + 1\<rparr>) p)
             else arp_process_reply hdr (VLAN_TAG_ID tci)
                    (upd_arp_stats (\<lambda>s. s\<lparr>as_received_rep := as_received_rep s + 1\<rparr>) p))"
proof -
  let ?f = "arp_pkt op sha sip tha tip @ pad"
  have "\<not> data_len (hd (frame_chain ?f)) < 28"
    using data_len_frame [of ?f] length_arp_pkt [OF assms(1,2)] assms(3) by (simp add: word_unat_less)
  moreover have "RTE_ARP_OP_REQUEST \<noteq> RTE_ARP_OP_REPLY" by (simp add: RTE_ARP_OP_REQUEST_def RTE_ARP_OP_REPLY_def)
  ultimately show ?thesis
    using assms(4) arp_hdr_of_pkt [OF assms(1,2), of op sip tip pad]
    by (auto simp: arp_receive_pkt_def frame_chain_def Let_def hdr)
qed

end
