(* ===== verification/NetProps.thy ===== *)
theory NetProps
  imports ArpProps
begin

text \<open>
  The network layer at work: two ports that resolve each other's address, next hops, and what goes wrong with VLANs.
\<close>

named_theorems net_simps \<open>what does not depend on statistics and logs\<close>

lemma np_stats [net_simps, simp]:
  "np_arp (upd_arp_stats f p) = np_arp p" "np_arp (upd_eth_stats g p) = np_arp p" "np_arp (upd_route_stats h p) = np_arp p"
  "np_mac (upd_arp_stats f p) = np_mac p" "np_mac (upd_eth_stats g p) = np_mac p"
  "np_tx (upd_arp_stats f p) = np_tx p" "np_tx (upd_eth_stats g p) = np_tx p"
  "np_tx_outcomes (upd_arp_stats f p) = np_tx_outcomes p" "np_tx_outcomes (upd_eth_stats g p) = np_tx_outcomes p"
  "np_alloc_outcomes (upd_arp_stats f p) = np_alloc_outcomes p" "np_alloc_outcomes (upd_eth_stats g p) = np_alloc_outcomes p"
  "np_gw_per_vlan (upd_arp_stats f p) = np_gw_per_vlan p" "np_gw_per_vlan (upd_eth_stats g p) = np_gw_per_vlan p"
  "np_default_gw (upd_arp_stats f p) = np_default_gw p" "np_default_gw (upd_eth_stats g p) = np_default_gw p"
  by (simp_all add: upd_arp_stats_def upd_eth_stats_def upd_route_stats_def)

lemma port_find_mac_arp: "np_arp p = np_arp q \<Longrightarrow> port_find_mac p = port_find_mac q"
  by (simp add: port_find_mac_def fun_eq_iff)

lemma arp_lookup_mac_arp: "np_arp p = np_arp q \<Longrightarrow> arp_lookup_mac ip v p = arp_lookup_mac ip v q"
  by (simp add: arp_lookup_mac_find port_find_mac_def)

text \<open>A table has room for an address when it has a free slot or an entry of the address.\<close>

definition arp_room :: "u32 \<Rightarrow> net_port \<Rightarrow> bool" where
  "arp_room ip p \<longleftrightarrow> (\<exists>e \<in> set (np_arp p). \<not> arp_is_entry_in_use e \<or> ae_ip_address e = ip)"

lemma arp_update_room:
  assumes "arp_room ip p"
  shows "\<exists>t. arp_update_entry ip mac local v p = (True, p\<lparr>np_arp := t\<rparr>)"
proof -
  obtain ok p' where u: "arp_update_entry ip mac local v p = (ok, p')" by fastforce
  from arp_update_entry_split [OF u] assms show ?thesis unfolding u by (auto simp: arp_room_def arp_of_def)
qed

text \<open>Learning the sender of a packet.\<close>

lemma arp_learned:
  assumes "arp_room ip p" and "length sha = 6"
  shows "arp_lookup_mac ip v (snd (arp_update_entry ip (eth_mac_to_uint64 sha) local v p)) = eth_mac_to_uint64 sha"
proof -
  from arp_update_room [OF assms(1)] obtain t where u: "arp_update_entry ip (eth_mac_to_uint64 sha) local v p = (True, p\<lparr>np_arp := t\<rparr>)"
    by blast
  show ?thesis using arp_cache.learn_finds [OF u] by (simp add: u arp_lookup_mac_find eth_mac_small)
qed

lemma arp_update_rest:
  obtains t where "snd (arp_update_entry ip mac local v p) = p\<lparr>np_arp := t\<rparr>"
proof -
  obtain ok p' where u: "arp_update_entry ip mac local v p = (ok, p')" by fastforce
  from arp_update_entry_split [OF u] have "\<exists>t. p' = p\<lparr>np_arp := t\<rparr>"
    by (elim disjE conjE exE) (auto intro: exI [of _ "np_arp p"])
  then show ?thesis using that u by auto
qed

subsection \<open>Two ports\<close>

definition port_receives ::
  "pktmbuf_adj \<Rightarrow> (pcb \<Rightarrow> net_port \<Rightarrow> 's \<Rightarrow> (chain \<times> pcb \<times> net_port \<times> 's) option) \<Rightarrow> pcb \<Rightarrow> 's \<Rightarrow> frame \<Rightarrow> net_port
     \<Rightarrow> net_port option" where
  "port_receives adj ip pcb s f p =
     map_option (\<lambda>(_, _, p, _). p) (eth_receive_pkt adj ip True (pcb\<lparr>pcb_mbuf := frame_chain f\<rparr>) p s)"

text \<open>A frame with an ARP packet, and perhaps padding, reaches ARP with its VLAN.\<close>

lemma port_receives_arp:
  assumes adj: "rte_pktmbuf_adj_spec adj" and l: "length d = 6" "length s = 6" "length sha = 6" "length tha = 6"
    and pad: "length pad < 60000" and v: "VLAN_TAG_ID v = v" and op: "op = RTE_ARP_OP_REQUEST \<or> op = RTE_ARP_OP_REPLY"
    and hdr: "hdr = \<lparr>arp_hardware = RTE_ARP_HRD_ETHER, arp_protocol = RTE_ETHER_TYPE_IPV4, arp_hlen = 6, arp_plen = 4,
            arp_opcode = op, arp_sha = sha, arp_sip = sip, arp_tha = tha, arp_tip = tip\<rparr>"
  shows "\<exists>f g. port_receives adj ip pcb st (arp_frame d s v (arp_pkt op sha sip tha tip) @ pad) p =
           Some ((if op = RTE_ARP_OP_REQUEST then arp_process_request else arp_process_reply) hdr v
                   (upd_arp_stats f (upd_eth_stats g p)))"
proof -
  let ?tag = "if v = 0 then None else Some v" and ?a = "arp_pkt op sha sip tha tip @ pad"
  have t: "tag_tci ?tag = v" by (simp add: tag_tci_def VLAN_NO_TAG_def)
  have ne: "RTE_ETHER_TYPE_ARP \<noteq> RTE_ETHER_TYPE_VLAN" "RTE_ETHER_TYPE_ARP \<noteq> RTE_ETHER_TYPE_IPV4"
    by (simp_all add: RTE_ETHER_TYPE_ARP_def RTE_ETHER_TYPE_VLAN_def RTE_ETHER_TYPE_IPV4_def)
  have "length ?a + 18 < 65536" using pad length_arp_pkt [OF l(3,4)] by simp
  note e = eth_receive_header [OF adj l(1,2) ne(1) this, of "pcb\<lparr>pcb_mbuf := frame_chain (eth_header d s ?tag RTE_ETHER_TYPE_ARP @ ?a)\<rparr>" ?tag ip True p st]
  have "length pad < 65500" using pad by simp
  note a = arp_receive_well_formed [OF l(3,4) this op hdr]
  have c: "\<exists>g'. upd_eth_stats g (count_tag tag p) = upd_eth_stats g' p" for g tag
    by (auto simp: count_tag_def upd_eth_stats_def intro: exI [of _ "g \<circ> k" for k] exI [of _ g])
  obtain g' where g': "upd_eth_stats (\<lambda>s. s\<lparr>es_etype_arp := es_etype_arp s + 1\<rparr>) (count_tag ?tag p) = upd_eth_stats g' p"
    using c by blast
  show ?thesis
    using e by (auto simp: port_receives_def arp_frame_header v eth_dispatch_def ne a t g')
qed

lemmas port_receives_request = port_receives_arp [where op = RTE_ARP_OP_REQUEST, simplified]
lemmas port_receives_reply = port_receives_arp [where op = RTE_ARP_OP_REPLY, simplified]

text \<open>
  C29: Two ports resolve each other through the frames on the wire, with or without a VLAN tag and with padding behind the
  packet: the port that has the address answers to the port that asked, and then each finds the address of the other.
\<close>

theorem arp_exchange_resolves:
  assumes adj: "rte_pktmbuf_adj_spec adj" and macs: "length (np_mac a) = 6" "length (np_mac b) = 6"
    and v: "VLAN_TAG_ID v = v" and pads: "length pad1 < 60000" "length pad2 < 60000"
    and env: "np_alloc_outcomes a = []" "np_tx_outcomes a = []" "np_alloc_outcomes b = []" "np_tx_outcomes b = []"
    and room: "arp_room ip_b a" "arp_room ip_a b"
    and own: "arp_lookup ip_b v b = Some i" "ARP_IS_FLAG_SET (np_arp b ! i) TPG_ARP_FLAG_LOCAL"
  shows "\<exists>a1 req b1 rep a2.
           arp_send_arp_request ip_a ip_b v a = (True, a1) \<and> np_tx a1 = np_tx a @ [req] \<and>
           port_receives adj ip pcb st (req @ pad1) b = Some b1 \<and> np_tx b1 = np_tx b @ [rep] \<and>
           take 6 rep = np_mac a \<and> port_receives adj ip' pcb' st' (rep @ pad2) a1 = Some a2 \<and>
           arp_lookup_mac ip_b v a2 = eth_mac_to_uint64 (np_mac b) \<and>
           arp_lookup_mac ip_a v b1 = eth_mac_to_uint64 (np_mac a)"
proof -
  let ?req = "arp_frame (replicate 6 0xff) (np_mac a) v (arp_pkt RTE_ARP_OP_REQUEST (np_mac a) ip_a (replicate 6 0) ip_b)"
  let ?rep = "arp_frame (np_mac a) (np_mac b) v (arp_pkt RTE_ARP_OP_REPLY (np_mac b) ip_b (np_mac a) ip_a)"
  have ops: "RTE_ARP_OP_REPLY \<noteq> RTE_ARP_OP_REQUEST" by (simp add: RTE_ARP_OP_REQUEST_def RTE_ARP_OP_REPLY_def)
  obtain a1 where a1: "arp_send_arp_request ip_a ip_b v a = (True, a1)" "np_tx a1 = np_tx a @ [?req]"
    "np_arp a1 = np_arp a" "np_mac a1 = np_mac a"
    using env(1,2) by (auto simp: arp_send_arp_request_def np_alloc_def np_send_def)
  obtain f g where b1: "port_receives adj ip pcb st (?req @ pad1) b =
      Some (arp_process_request \<lparr>arp_hardware = RTE_ARP_HRD_ETHER, arp_protocol = RTE_ETHER_TYPE_IPV4, arp_hlen = 6,
          arp_plen = 4, arp_opcode = RTE_ARP_OP_REQUEST, arp_sha = np_mac a, arp_sip = ip_a, arp_tha = replicate 6 0,
          arp_tip = ip_b\<rparr> v (upd_arp_stats f (upd_eth_stats g b)))" (is "_ = Some (arp_process_request ?h v ?b)")
    using port_receives_request [OF adj _ macs(1) macs(1) _ pads(1) v refl, of "replicate 6 0xff" "replicate 6 0" ip pcb st ip_a ip_b b]
    by auto
  obtain b' where b': "arp_send_arp_reply ip_b ip_a (np_mac a) v ?b = (True, b')" "np_tx b' = np_tx b @ [?rep]"
    "np_arp b' = np_arp b"
    using env(3,4) by (auto simp: arp_send_arp_reply_def np_alloc_def np_send_def)
  let ?b1 = "snd (arp_update_entry ip_a (eth_mac_to_uint64 (np_mac a)) False v b')"
  have own': "arp_lookup ip_b v ?b = Some i" using own(1) by (simp add: arp_lookup_def)
  then have pb: "arp_process_request ?h v ?b = ?b1" using own(2) b'(1) by (simp add: arp_process_request_def Let_def)
  obtain t where t: "?b1 = b'\<lparr>np_arp := t\<rparr>" by (rule arp_update_rest)
  have rb: "arp_room ip_a b'" using room(2) b'(3) by (simp add: arp_room_def)
  obtain f' g' where a2: "port_receives adj ip' pcb' st' (?rep @ pad2) a1 =
      Some (arp_process_reply \<lparr>arp_hardware = RTE_ARP_HRD_ETHER, arp_protocol = RTE_ETHER_TYPE_IPV4, arp_hlen = 6,
          arp_plen = 4, arp_opcode = RTE_ARP_OP_REPLY, arp_sha = np_mac b, arp_sip = ip_b, arp_tha = np_mac a,
          arp_tip = ip_a\<rparr> v (upd_arp_stats f' (upd_eth_stats g' a1)))" (is "_ = Some (arp_process_reply ?h' v ?a)")
    using port_receives_reply [OF adj macs(1,2,2,1) pads(2) v refl, of ip' pcb' st' ip_b ip_a a1] ops by auto
  have "arp_room ip_b ?a" using room(1) a1(3) by (simp add: arp_room_def)
  then have "arp_lookup_mac ip_b v (arp_process_reply ?h' v ?a) = eth_mac_to_uint64 (np_mac b)"
    using arp_learned macs(2) by (simp add: arp_process_reply_def)
  moreover have "take 6 ?rep = np_mac a" using macs by (simp add: arp_frame_def)
  moreover have "np_tx ?b1 = np_tx b @ [?rep]" using t b'(2) by simp
  ultimately show ?thesis
    using a1 b1 pb a2 arp_learned [OF rb macs(1)] by (intro exI conjI) auto
qed

subsection \<open>Next hops\<close>

lemma lookup_find_none: "arp_lookup_mac ip v p = TPG_ARP_MAC_NOT_FOUND \<longleftrightarrow> port_find_mac p ip v = None"
  by (auto simp: arp_lookup_mac_find dest: port_find_mac_known split: option.splits)

lemma reply_learned:
  assumes adj: "rte_pktmbuf_adj_spec adj" and l: "length d = 6" "length s = 6" "length sha = 6" "length tha = 6"
    and pad: "length pad < 60000" and v: "VLAN_TAG_ID v = v"
    and recv: "port_receives adj ip pcb st (arp_frame d s v (arp_pkt RTE_ARP_OP_REPLY sha sip tha tip) @ pad) p = Some p'"
  obtains q where "p' = snd (arp_update_entry sip (eth_mac_to_uint64 sha) False v q)" and "np_arp q = np_arp p"
    and "np_gw_per_vlan p' = np_gw_per_vlan p" and "np_default_gw p' = np_default_gw p"
proof -
  have "RTE_ARP_OP_REPLY \<noteq> RTE_ARP_OP_REQUEST" by (simp add: RTE_ARP_OP_REQUEST_def RTE_ARP_OP_REPLY_def)
  then obtain f g where q: "p' = snd (arp_update_entry sip (eth_mac_to_uint64 sha) False v (upd_arp_stats f (upd_eth_stats g p)))"
    using port_receives_reply [OF adj l pad v refl, of ip pcb st sip tip p] recv by (auto simp: arp_process_reply_def)
  obtain t where "p' = (upd_arp_stats f (upd_eth_stats g p))\<lparr>np_arp := t\<rparr>" unfolding q by (rule arp_update_rest)
  then show thesis using that [OF q] by simp
qed

lemma answer_opens_route:
  assumes adj: "rte_pktmbuf_adj_spec adj" and l: "length d = 6" "length s = 6" "length sha = 6" "length tha = 6"
    and pad: "length pad < 60000" and v: "VLAN_TAG_ID v = v" "v \<noteq> 0"
    and gw: "route_v4_find_gw_port_vlan v p = Some gw" "arp_room gw p"
    and recv: "port_receives adj ip pcb st (arp_frame d s v (arp_pkt RTE_ARP_OP_REPLY sha gw tha tip) @ pad) p = Some p'"
    and dest: "dest \<noteq> gw"
  shows "fst (route_v4_nh_lookup dest v p') =
           (if arp_lookup_mac dest v p = TPG_ARP_MAC_NOT_FOUND then eth_mac_to_uint64 sha else arp_lookup_mac dest v p)"
proof -
  obtain q where q: "p' = snd (arp_update_entry gw (eth_mac_to_uint64 sha) False v q)" "np_arp q = np_arp p"
    "np_gw_per_vlan p' = np_gw_per_vlan p"
    using reply_learned [OF adj l pad v(1) recv] by metis
  have "arp_room gw q" using gw(2) q(2) by (simp add: arp_room_def)
  from arp_update_room [OF this] obtain t where
    u: "arp_update_entry gw (eth_mac_to_uint64 sha) False v q = (True, q\<lparr>np_arp := t\<rparr>)" by blast
  then have p': "arp_update_entry gw (eth_mac_to_uint64 sha) False v q = (True, p')" using q(1) by simp
  have g: "route_v4_find_gw_port_vlan v p' = Some gw" using gw(1) q(3) by (simp add: route_v4_find_gw_port_vlan_def)
  have fq: "port_find_mac q = port_find_mac p" by (rule port_find_mac_arp) (rule q(2))
  show ?thesis
  proof (cases "port_find_mac p dest v")
    case None
    then have "port_find_mac q dest v = None" by (simp add: fq)
    from arp_cache.learn_vlan_gateway [OF p' dest this] None show ?thesis
      by (simp add: route_v4_nh_lookup_next_hop g v(2) eth_mac_small arp_lookup_mac_find)
  next
    case (Some mac)
    then have "port_find_mac q dest v = Some mac" by (simp add: fq)
    from arp_cache.learn_keeps_known [OF p' dest this] Some show ?thesis
      using port_find_mac_known [OF Some] by (simp add: route_v4_nh_lookup_next_hop arp_lookup_mac_find)
  qed
qed

text \<open>
  C30: When the gateway of a VLAN answers, every destination outside of the table is sent to it, and the destinations that
  were known are sent where they were sent before.
\<close>

theorem gateway_answer_opens_route:
  assumes adj: "rte_pktmbuf_adj_spec adj" and l: "length d = 6" "length s = 6" "length sha = 6" "length tha = 6"
    and pad: "length pad < 60000" and v: "VLAN_TAG_ID v = v" "v \<noteq> 0"
    and gw: "route_v4_find_gw_port_vlan v p = Some gw" "arp_room gw p"
    and recv: "port_receives adj ip pcb st (arp_frame d s v (arp_pkt RTE_ARP_OP_REPLY sha gw tha tip) @ pad) p = Some p'"
    and dest: "dest \<noteq> gw"
  shows "fst (route_v4_nh_lookup dest v p') =
           (if arp_lookup_mac dest v p = TPG_ARP_MAC_NOT_FOUND then eth_mac_to_uint64 sha else arp_lookup_mac dest v p)"
  by (rule answer_opens_route [OF assms])

text \<open>
  C31: The table holds one entry for an address, whatever the VLAN: when the gateways of two VLANs have the same address, the
  answer of the second takes the entry of the first, and the first VLAN has no next hop any more.
\<close>

theorem same_gateway_on_two_vlans:
  assumes adj: "rte_pktmbuf_adj_spec adj" and l: "length d1 = 6" "length s1 = 6" "length sha1 = 6" "length tha1 = 6"
      "length d2 = 6" "length s2 = 6" "length sha2 = 6" "length tha2 = 6"
    and pad: "length pad1 < 60000" "length pad2 < 60000" and v1: "VLAN_TAG_ID v1 = v1" "v1 \<noteq> 0" and v2: "VLAN_TAG_ID v2 = v2" "v2 \<noteq> v1"
    and gw: "route_v4_find_gw_port_vlan v1 p = Some gw" "arp_room gw p" and packed: "arp_packed p"
    and dest: "dest \<noteq> gw" "arp_lookup_mac dest v1 p = TPG_ARP_MAC_NOT_FOUND"
    and def_gw: "arp_lookup_mac (re_nh (np_default_gw p)) v1 p = TPG_ARP_MAC_NOT_FOUND" "re_nh (np_default_gw p) \<noteq> gw"
    and r1: "port_receives adj ip1 pcb1 st1 (arp_frame d1 s1 v1 (arp_pkt RTE_ARP_OP_REPLY sha1 gw tha1 tip1) @ pad1) p = Some p1"
    and r2: "port_receives adj ip2 pcb2 st2 (arp_frame d2 s2 v2 (arp_pkt RTE_ARP_OP_REPLY sha2 gw tha2 tip2) @ pad2) p1 = Some p2"
  shows "fst (route_v4_nh_lookup dest v1 p1) = eth_mac_to_uint64 sha1 \<and>
         fst (route_v4_nh_lookup dest v1 p2) = TPG_ARP_MAC_NOT_FOUND"
proof
  show "fst (route_v4_nh_lookup dest v1 p1) = eth_mac_to_uint64 sha1"
    using answer_opens_route [OF adj l(1-4) pad(1) v1 gw r1 dest(1)] dest(2) by simp
  obtain q1 where q1: "p1 = snd (arp_update_entry gw (eth_mac_to_uint64 sha1) False v1 q1)" "np_arp q1 = np_arp p"
    "np_gw_per_vlan p1 = np_gw_per_vlan p" "np_default_gw p1 = np_default_gw p"
    by (rule reply_learned [OF adj l(1-4) pad(1) v1(1) r1])
  obtain q2 where q2: "p2 = snd (arp_update_entry gw (eth_mac_to_uint64 sha2) False v2 q2)" "np_arp q2 = np_arp p1"
    "np_gw_per_vlan p2 = np_gw_per_vlan p1" "np_default_gw p2 = np_default_gw p1"
    by (rule reply_learned [OF adj l(5-8) pad(2) v2(1) r2])
  have "arp_room gw q1" "arp_packed q1" using gw(2) packed q1(2) by (simp_all add: arp_room_def arp_packed_def)
  with arp_update_room q1(1) have u1: "arp_update_entry gw (eth_mac_to_uint64 sha1) False v1 q1 = (True, p1)"
    by (metis snd_conv)
  have "port_find_mac p1 gw v1 \<noteq> None" using arp_cache.learn_finds [OF u1] by simp
  then have "\<exists>e \<in> set (np_arp p1). arp_is gw v1 e"
    unfolding port_find_mac_def option.map_disc_iff find_None_iff by blast
  then have "arp_room gw p1" by (auto simp: arp_room_def arp_is_def)
  then have "arp_room gw q2" "arp_packed q2"
    using packed_update(1) [OF \<open>arp_packed q1\<close> u1] q2(2) by (simp_all add: arp_room_def arp_packed_def)
  with arp_update_room q2(1) have u2: "arp_update_entry gw (eth_mac_to_uint64 sha2) False v2 q2 = (True, p2)"
    by (metis snd_conv)
  have f1: "port_find_mac q1 = port_find_mac p" and f2: "port_find_mac q2 = port_find_mac p1"
    using port_find_mac_arp q1(2) q2(2) by blast+
  have keep: "port_find_mac p2 x v1 = port_find_mac p x v1" if "x \<noteq> gw" for x
    using arp_cache.learn_others [OF u2 that] arp_cache.learn_others [OF u1 that] f1 f2 by simp
  have g: "route_v4_find_gw_port_vlan v1 p2 = Some gw"
    using gw(1) q1(3) q2(3) by (simp add: route_v4_find_gw_port_vlan_def)
  have "port_find_mac p2 gw v1 = None" using packed_update(2) [OF \<open>arp_packed q2\<close> u2 TrueI] v2(2) by metis
  then show "fst (route_v4_nh_lookup dest v1 p2) = TPG_ARP_MAC_NOT_FOUND"
    using keep [OF dest(1)] keep [OF def_gw(2)] dest(2) def_gw(1) g q1(4) q2(4) v1(2)
    by (simp add: route_v4_nh_lookup_next_hop arp_cache.next_hop_def lookup_find_none)
qed

subsection \<open>Concrete ports\<close>

definition net_zero :: "u8 list \<Rightarrow> net_port" where
  "net_zero mac =
     \<lparr>np_mac = mac, np_arp = replicate 24 \<lparr>ae_mac_flags = 0, ae_ip_address = 0, ae_vlan_id = 0\<rparr>,
      np_routes = replicate 12 (ROUTE_V4 0 0 0 0), np_default_gw = ROUTE_V4 0 0 0 0,
      np_gw_per_vlan = replicate 10 \<lparr>gw_vlan_id = 0, gw_addr = 0\<rparr>,
      np_eth_stats = \<lparr>es_etype_arp = 0, es_etype_ipv4 = 0, es_etype_ipv6 = 0, es_etype_other = 0, es_etype_vlan = 0,
        es_to_small_fragment = 0, es_no_tx_mbuf = 0\<rparr>,
      np_arp_stats = \<lparr>as_received_req = 0, as_received_rep = 0, as_received_other = 0, as_req_not_mine = 0, as_sent_req = 0,
        as_sent_req_failed = 0, as_sent_rep = 0, as_sent_rep_failed = 0, as_to_small_fragment = 0, as_invalid_hw_space = 0,
        as_invalid_proto_space = 0, as_invalid_hw_len = 0, as_invalid_proto_len = 0\<rparr>,
      np_route_stats = \<lparr>rs_intf_add = 0, rs_intf_del = 0, rs_gw_add = 0, rs_gw_del = 0, rs_tbl_full = 0, rs_intf_nomem = 0,
        rs_intf_notfound = 0, rs_gw_nointf = 0, rs_nh_not_found = 0, rs_route_not_found = 0\<rparr>,
      np_ipv4_stats = \<lparr>ips_received_pkts = 0, ips_received_bytes = 0, ips_protocol_icmp = 0, ips_protocol_tcp = 0,
        ips_protocol_udp = 0, ips_protocol_other = 0, ips_to_small_fragment = 0, ips_hdr_to_small = 0,
        ips_invalid_checksum = 0, ips_total_length_invalid = 0, ips_received_frags = 0, ips_not_v4 = 0,
        ips_reserved_bit_set = 0, ips_invalid_pad = 0, ips_invalid_opt = 0\<rparr>,
      np_tx = [], np_alloc_outcomes = [], np_tx_outcomes = []\<rparr>"

definition ex_node :: "u8 \<Rightarrow> u32 \<Rightarrow> net_port" where
  "ex_node n ip = snd (arp_add_local ip 10 (net_zero (replicate 6 n)))"

lemma zero_table: "\<not> arp_is_entry_in_use \<lparr>ae_mac_flags = 0, ae_ip_address = ip, ae_vlan_id = v\<rparr>"
  by (simp add: in_use_bit)

lemma ex_node_arp: "np_arp (ex_node n ip) =
    arp_set_entry_in_use ((arp_set_mac_in_entry_as_uint64 (eth_mac_to_uint64 (replicate 6 n))
      \<lparr>ae_mac_flags = TPG_ARP_FLAG_LOCAL, ae_ip_address = ip, ae_vlan_id = 0\<rparr>)\<lparr>ae_vlan_id := 10\<rparr>) #
    replicate 23 \<lparr>ae_mac_flags = 0, ae_ip_address = 0, ae_vlan_id = 0\<rparr>"
  by (simp add: ex_node_def arp_add_local_def arp_update_entry_def net_zero_def eval_nat_numeral zero_table
      arp_update_scan_free)

lemma ex_node_rest: "np_mac (ex_node n ip) = replicate 6 n" "np_alloc_outcomes (ex_node n ip) = []" "np_tx_outcomes (ex_node n ip) = []"
  unfolding ex_node_def arp_add_local_def
  by (rule arp_update_rest [of ip "eth_mac_to_uint64 (np_mac (net_zero (replicate 6 n)))" True 10 "net_zero (replicate 6 n)"];
      simp add: net_zero_def)+

lemma ex_node_own: "arp_lookup ip 10 (ex_node n ip) = Some 0" "ARP_IS_FLAG_SET (np_arp (ex_node n ip) ! 0) TPG_ARP_FLAG_LOCAL"
proof -
  show "arp_lookup ip 10 (ex_node n ip) = Some 0" by (simp add: arp_lookup_def ex_node_arp)
  show "ARP_IS_FLAG_SET (np_arp (ex_node n ip) ! 0) TPG_ARP_FLAG_LOCAL"
    by (auto simp: ex_node_arp flag_set_bit arp_set_entry_in_use_def arp_set_mac_in_entry_as_uint64_def bit_simps)
qed

lemma ex_node_room: "arp_room ip' (ex_node n ip)"
  by (simp add: arp_room_def ex_node_arp zero_table)

theorem arp_exchange_resolves_witness:
  "\<forall>pcb. \<exists>a1 req b1 rep a2.
     arp_send_arp_request 1 2 10 (ex_node 7 1) = (True, a1) \<and>
     port_receives ex_adj0 (\<lambda>_ _ _. None) pcb () (req @ []) (ex_node 9 2) = Some b1 \<and>
     port_receives ex_adj0 (\<lambda>_ _ _. None) pcb () (rep @ replicate 14 0) a1 = Some a2 \<and>
     arp_lookup_mac 2 10 a2 = eth_mac_to_uint64 (replicate 6 9)"
proof
  fix pcb
  have v: "VLAN_TAG_ID 10 = 10" by (simp add: VLAN_TAG_ID_def VLAN_VID_MASK_def)
  have m: "length (np_mac (ex_node 7 1)) = 6" "length (np_mac (ex_node 9 2)) = 6" by (simp_all add: ex_node_rest)
  have p: "length ([] :: u8 list) < 60000" "length (replicate 14 (0 :: u8)) < 60000" by simp_all
  from arp_exchange_resolves [OF ex_adj0_spec m v p ex_node_rest(2,3,2,3) ex_node_room ex_node_room ex_node_own,
      of 1 "\<lambda>_ _ _. None" pcb "()" "\<lambda>_ _ _. None" pcb "()"]
  show "\<exists>a1 req b1 rep a2.
     arp_send_arp_request 1 2 10 (ex_node 7 1) = (True, a1) \<and>
     port_receives ex_adj0 (\<lambda>_ _ _. None) pcb () (req @ []) (ex_node 9 2) = Some b1 \<and>
     port_receives ex_adj0 (\<lambda>_ _ _. None) pcb () (rep @ replicate 14 0) a1 = Some a2 \<and>
     arp_lookup_mac 2 10 a2 = eth_mac_to_uint64 (replicate 6 9)"
    unfolding ex_node_rest(1) by (elim exE conjE) (intro exI conjI)
qed

text \<open>Two VLANs, 10 and 20, with the gateway 99; the port has the address 1 in the first.\<close>

definition ex_gw_port :: net_port where
  "ex_gw_port = (ex_node 7 1)\<lparr>np_gw_per_vlan :=
     \<lparr>gw_vlan_id = 10, gw_addr = 99\<rparr> # \<lparr>gw_vlan_id = 20, gw_addr = 99\<rparr> # replicate 8 \<lparr>gw_vlan_id = 0, gw_addr = 0\<rparr>\<rparr>"

definition ex_answer :: "u8 \<Rightarrow> u16 \<Rightarrow> frame" where
  "ex_answer n v = arp_frame (replicate 6 7) (replicate 6 n) v (arp_pkt RTE_ARP_OP_REPLY (replicate 6 n) 99 (replicate 6 7) 1) @ []"

lemma ex_gw_simps:
  "route_v4_find_gw_port_vlan 10 ex_gw_port = Some 99" "arp_room ip ex_gw_port" "arp_packed ex_gw_port"
  "arp_lookup_mac 5 10 ex_gw_port = TPG_ARP_MAC_NOT_FOUND"
  "arp_lookup_mac (re_nh (np_default_gw ex_gw_port)) 10 ex_gw_port = TPG_ARP_MAC_NOT_FOUND"
  "re_nh (np_default_gw ex_gw_port) \<noteq> 99"
proof -
  have d: "np_default_gw ex_gw_port = ROUTE_V4 0 0 0 0"
    unfolding ex_gw_port_def ex_node_def arp_add_local_def
    by (rule arp_update_rest [of 1 "eth_mac_to_uint64 (np_mac (net_zero (replicate 6 7)))" True 10 "net_zero (replicate 6 7)"])
      (simp add: net_zero_def)
  have f: "port_find_mac ex_gw_port ip 10 = None" if "ip \<noteq> 1" for ip
    using that by (simp add: port_find_mac_def ex_gw_port_def ex_node_arp find_None_iff arp_is_def zero_table)
  show "route_v4_find_gw_port_vlan 10 ex_gw_port = Some 99"
    by (simp add: route_v4_find_gw_port_vlan_def ex_gw_port_def)
  show "arp_room ip ex_gw_port" using ex_node_room by (simp add: arp_room_def ex_gw_port_def)
  show "arp_packed ex_gw_port" unfolding arp_packed_def
    by (rule exI [of _ "[hd (np_arp (ex_node 7 1))]"], rule exI [of _ "tl (np_arp (ex_node 7 1))"])
      (simp add: ex_gw_port_def ex_node_arp zero_table)
  show "arp_lookup_mac 5 10 ex_gw_port = TPG_ARP_MAC_NOT_FOUND"
    "arp_lookup_mac (re_nh (np_default_gw ex_gw_port)) 10 ex_gw_port = TPG_ARP_MAC_NOT_FOUND"
    "re_nh (np_default_gw ex_gw_port) \<noteq> 99"
    using f by (simp_all add: lookup_find_none d ROUTE_V4_def)
qed

lemma ex_answer_received:
  "VLAN_TAG_ID v = v \<Longrightarrow> \<exists>p'. port_receives ex_adj0 ip pcb st (ex_answer n v) p = Some p'"
  using port_receives_reply [OF ex_adj0_spec _ _ _ _ _ _ refl, of "replicate 6 7" "replicate 6 n" "replicate 6 n" "replicate 6 7" "[]" v]
  by (fastforce simp: ex_answer_def)

theorem gateway_answer_opens_route_witness:
  "\<forall>pcb. \<exists>p'. port_receives ex_adj0 (\<lambda>_ _ _. None) pcb () (ex_answer 9 10) ex_gw_port = Some p' \<and>
     fst (route_v4_nh_lookup 5 10 p') = eth_mac_to_uint64 (replicate 6 9)"
proof
  fix pcb
  have v: "VLAN_TAG_ID 10 = 10" "(10 :: u16) \<noteq> 0" by (simp_all add: VLAN_TAG_ID_def VLAN_VID_MASK_def)
  obtain p' where p': "port_receives ex_adj0 (\<lambda>_ _ _. None) pcb () (ex_answer 9 10) ex_gw_port = Some p'"
    using ex_answer_received [OF v(1), of "\<lambda>_ _ _. None" pcb "()" 9 ex_gw_port] by (elim exE)
  have l: "length (replicate 6 n) = 6" for n :: u8 by simp
  show "\<exists>p'. port_receives ex_adj0 (\<lambda>_ _ _. None) pcb () (ex_answer 9 10) ex_gw_port = Some p' \<and>
     fst (route_v4_nh_lookup 5 10 p') = eth_mac_to_uint64 (replicate 6 9)"
    using gateway_answer_opens_route [OF ex_adj0_spec l l l l _ v ex_gw_simps(1,2) p' [unfolded ex_answer_def], of 5]
      ex_gw_simps(4) p' by auto
qed

theorem same_gateway_on_two_vlans_witness:
  "\<forall>pcb. \<exists>p1 p2. port_receives ex_adj0 (\<lambda>_ _ _. None) pcb () (ex_answer 9 10) ex_gw_port = Some p1 \<and>
     port_receives ex_adj0 (\<lambda>_ _ _. None) pcb () (ex_answer 8 20) p1 = Some p2 \<and>
     fst (route_v4_nh_lookup 5 10 p2) = TPG_ARP_MAC_NOT_FOUND"
proof
  fix pcb
  have v: "VLAN_TAG_ID 10 = 10" "(10 :: u16) \<noteq> 0" "VLAN_TAG_ID 20 = 20" "(20 :: u16) \<noteq> 10"
    by (simp_all add: VLAN_TAG_ID_def VLAN_VID_MASK_def)
  obtain p1 where p1: "port_receives ex_adj0 (\<lambda>_ _ _. None) pcb () (ex_answer 9 10) ex_gw_port = Some p1"
    using ex_answer_received [OF v(1), of "\<lambda>_ _ _. None" pcb "()" 9 ex_gw_port] by (elim exE)
  obtain p2 where p2: "port_receives ex_adj0 (\<lambda>_ _ _. None) pcb () (ex_answer 8 20) p1 = Some p2"
    using ex_answer_received [OF v(3), of "\<lambda>_ _ _. None" pcb "()" 8 p1] by (elim exE)
  have l: "length (replicate 6 n) = 6" for n :: u8 by simp
  show "\<exists>p1 p2. port_receives ex_adj0 (\<lambda>_ _ _. None) pcb () (ex_answer 9 10) ex_gw_port = Some p1 \<and>
     port_receives ex_adj0 (\<lambda>_ _ _. None) pcb () (ex_answer 8 20) p1 = Some p2 \<and>
     fst (route_v4_nh_lookup 5 10 p2) = TPG_ARP_MAC_NOT_FOUND"
    using same_gateway_on_two_vlans [OF ex_adj0_spec l l l l l l l l _ _ v ex_gw_simps(1-3) _ ex_gw_simps(4-6)
        p1 [unfolded ex_answer_def] p2 [unfolded ex_answer_def]] p1 p2 by auto
qed

end
