(* ===== verification/Ipv4Props.thy ===== *)
theory Ipv4Props
  imports NetProps RawProps
begin

text \<open>
  IPv4: the headers that are built are the ones that are understood, with the checksum made and checked by the program
  or by the hardware, and an option on which the parser does not return.
\<close>

subsection \<open>The checksum of a header\<close>

lemma le_words_append: "even (length xs) \<Longrightarrow> le_words (xs @ ys) = le_words xs + le_words ys"
  by (induction xs rule: le_words.induct) auto

lemma le_words_le16: "le_words (le16 x) = unat x"
proof -
  have "unat (ucast x :: u8) = unat x mod 256"
    by (simp add: unsigned_ucast_eq take_bit_eq_mod)
  moreover have "unat (ucast (drop_bit 8 x) :: u8) = unat x div 256"
  proof -
    have "unat x div 256 < 256" using unsigned_less [of x, where 'a = nat] by (simp add: div_less_iff_less_mult less_mult_imp_div_less)
    then show ?thesis by (simp add: unsigned_ucast_eq drop_bit_eq_div unat_div take_bit_nat_eq_self)
  qed
  ultimately show ?thesis by (simp add: le16_def)
qed

lemma ipv4_hdr_words:
  "le_words (ipv4_hdr_bytes hl tos l4 proto src dst c @ opts) = le_words (ipv4_hdr_bytes hl tos l4 proto src dst 0 @ opts) + unat c"
proof -
  let ?a = "[push_bit 4 4 OR ucast (drop_bit 2 hl), tos] @ be16 (hl + l4) @ be16 0 @ be16 0 @ [60, proto] :: u8 list"
  have "le_words ((?a @ le16 c) @ (be32 src @ be32 dst @ opts)) = le_words ?a + unat c + le_words (be32 src @ be32 dst @ opts)" for c
    by (simp add: le_words_append le_words_le16 del: append.simps append_assoc)
  from this [of c] this [of 0] show ?thesis by (simp add: ipv4_hdr_bytes_def del: le_words.simps)
qed

lemma ipv4_hdr_words_pos: "0 < le_words (ipv4_hdr_bytes hl tos l4 proto src dst c @ opts)"
proof -
  have "ipv4_hdr_bytes hl tos l4 proto src dst c @ opts =
      ([push_bit 4 4 OR ucast (drop_bit 2 hl), tos] @ be16 (hl + l4) @ be16 0 @ be16 0) @ [60, proto] @
      (le16 c @ be32 src @ be32 dst @ opts)"
    by (simp add: ipv4_hdr_bytes_def)
  then show ?thesis by (simp add: le_words_append del: append_assoc append.simps)
qed

lemma ipv4_cksum_ok:
  assumes ck: "rte_raw_cksum_spec ck"
    and raw: "raw = ck (ipv4_hdr_bytes hl tos l4 proto src dst 0 @ opts)"
  shows "ck (ipv4_hdr_bytes hl tos l4 proto src dst (if raw = 0xFFFF then raw else NOT raw) @ opts) = 0xFFFF"
proof -
  let ?h = "\<lambda>c. ipv4_hdr_bytes hl tos l4 proto src dst c @ opts"
  let ?c = "if raw = 0xFFFF then raw else NOT raw"
  have r: "unat raw mod 65535 = le_words (?h 0) mod 65535" using ck by (simp add: raw rte_raw_cksum_spec_def)
  have "NOT raw = 65535 - raw" by (simp add: not_eq_complement)
  then have "unat (NOT raw) = 65535 - unat raw"
    using unsigned_less [of raw, where 'a = nat] by (simp add: unat_sub word_unat_le)
  then have c: "unat ?c = (if unat raw = 65535 then 65535 else 65535 - unat raw)"
    by (simp add: word_unat_eq_iff)
  have lt: "unat raw \<le> 65535" using unsigned_less [of raw, where 'a = nat] by simp
  have "(le_words (?h 0) + unat ?c) mod 65535 = (unat raw + unat ?c) mod 65535"
    by (metis mod_add_left_eq r)
  also have "\<dots> = 0" using lt unfolding c by auto
  finally have "le_words (?h ?c) mod 65535 = 0" by (simp only: ipv4_hdr_words [of _ _ _ _ _ _ ?c])
  moreover have "ck (?h ?c) \<noteq> 0"
    using ck ipv4_hdr_words_pos [of hl tos l4 proto src dst ?c opts] unfolding rte_raw_cksum_spec_def by simp
  moreover have "unat (ck (?h ?c)) mod 65535 = le_words (?h ?c) mod 65535"
    using ck unfolding rte_raw_cksum_spec_def by blast
  ultimately have "unat (ck (?h ?c)) mod 65535 = 0" "unat (ck (?h ?c)) \<noteq> 0" "unat (ck (?h ?c)) \<le> 65535"
    using unsigned_less [of "ck (?h ?c)", where 'a = nat] by (simp_all add: unat_eq_0)
  then have "unat (ck (?h ?c)) = 65535" by (metis le_neq_implies_less mod_less)
  then show ?thesis by (simp add: word_unat_eq_iff)
qed

subsection \<open>Headers that are built are understood\<close>

definition ip_hl :: "api_sockopt \<Rightarrow> u16" where
  "ip_hl so = (if ip4so_tx_tstamp so then 32 else 20)"

definition ip_opts :: "api_sockopt \<Rightarrow> u8 list" where
  "ip_opts so = (if ip4so_tx_tstamp so then ipv4_tstamp_option else [])"

definition ip_cksum :: "(u8 list \<Rightarrow> u16) \<Rightarrow> bool \<Rightarrow> u8 list \<Rightarrow> u16" where
  "ip_cksum ck offload bs = (if offload then 0 else if ck bs = 0xFFFF then ck bs else NOT (ck bs))"

definition ip_header :: "(u8 list \<Rightarrow> u16) \<Rightarrow> bool \<Rightarrow> api_sockopt \<Rightarrow> u32 \<Rightarrow> u32 \<Rightarrow> u8 \<Rightarrow> u16 \<Rightarrow> u8 list" where
  "ip_header ck offload so src dst proto l4_len =
     (let h = ipv4_hdr_bytes (ip_hl so) (ip4so_tos so) l4_len proto src dst
      in h (ip_cksum ck offload (h 0 @ ip_opts so)) @ ip_opts so)"

lemma length_ipv4_hdr_bytes [simp]: "length (ipv4_hdr_bytes hl tos l4 proto src dst c) = 20"
  by (simp add: ipv4_hdr_bytes_def)

lemma length_ip_header [simp]: "length (ip_header ck offload so src dst proto l4_len) = unat (ip_hl so)"
  by (simp add: ip_header_def Let_def ip_opts_def ip_hl_def ipv4_tstamp_option_def)

lemma length_uint64_mac [simp]: "length (eth_uint64_to_mac x) = 6"
  by (simp add: eth_uint64_to_mac_def)

lemma built_frame:
  assumes "ipv4_build_hdr_mbuf room ck offload so src dst proto l4_len p = Some (Some hm, p')"
  shows "\<exists>d s. length d = 6 \<and> length s = 6 \<and>
    hm_bytes hm = eth_header d s (if vlanso_hdr_opt_len so > 0 then Some (eth_vlan_tci so) else None) RTE_ETHER_TYPE_IPV4 @
                  ip_header ck offload so src dst proto l4_len"
proof -
  obtain dst_mac q where q: "(if \<not> TPG_IP_MCAST (TPG_IPV4 dst) then route_v4_nh_lookup dst (vlanso_id so) p
            else (ipv4_mcast_addr_to_eth dst, p)) = (dst_mac, q)" by fastforce
  with assms obtain m q' where e: "eth_build_hdr_mbuf room so dst_mac (eth_mac_to_uint64 (np_mac q)) RTE_ETHER_TYPE_IPV4 q = (Some m, q')"
    and b: "ipv4_build_hdr room ck offload so src dst m proto l4_len = Some (Some hm)"
    unfolding ipv4_build_hdr_mbuf_def by (auto split: if_splits prod.splits option.splits)
  from e have "\<exists>d s. length d = 6 \<and> length s = 6 \<and>
      hm_bytes m = eth_header d s (if vlanso_hdr_opt_len so > 0 then Some (eth_vlan_tci so) else None) RTE_ETHER_TYPE_IPV4"
    by (auto simp: eth_build_hdr_mbuf_def rte_pktmbuf_append_def eth_header_def Let_def split: prod.splits if_splits)
      (metis length_uint64_mac)+
  moreover have "hm_bytes hm = hm_bytes m @ ip_header ck offload so src dst proto l4_len"
    using b by (auto simp: ipv4_build_hdr_def ip_header_def ip_hl_def ip_opts_def ip_cksum_def Let_def
        split: if_splits option.splits)
  ultimately show ?thesis by auto
qed

lemma ipv4_hdr_of_bytes:
  "rte_ipv4_hdr_of (ipv4_hdr_bytes hl tos l4 proto src dst c @ rest) =
     \<lparr>ih_version_ihl = push_bit 4 4 OR ucast (drop_bit 2 hl), ih_total_length = hl + l4, ih_fragment_offset = 0,
      ih_next_proto_id = proto, ih_src_addr = src, ih_dst_addr = dst\<rparr>"
  by (simp add: rte_ipv4_hdr_of_def ipv4_hdr_bytes_def)

lemma options_empty: "ipv4_options_loop bs off 0 ts = Some (Some ts)"
  by (subst ipv4_options_loop.simps) simp

lemma tstamp_option_parsed:
  "length h = 20 \<Longrightarrow> ipv4_options_loop (h @ ipv4_tstamp_option @ rest) 20 12 0 = Some (Some 0)"
proof -
  assume h: "length h = 20"
  define bs where "bs = h @ ipv4_tstamp_option @ rest"
  have z: "be32_at bs 24 = 0" "be32_at bs 28 = 0"
    using h by (simp_all add: bs_def ipv4_tstamp_option_def be32_at_def be16_at_def eval_nat_numeral)
  have b: "byte_at bs 20 = 68" "byte_at bs 21 = 12"
    using h by (simp_all add: bs_def ipv4_tstamp_option_def IPOPT_TS_def)
  have "ipv4_options_loop bs 20 12 0 = Some (Some 0)"
    by (subst ipv4_options_loop.simps)
      (simp add: b z IPOPT_TS_def ipv4_parse_option_timestamp_def TSTAMP_JOIN_def options_empty)
  then show ?thesis by (simp add: bs_def)
qed

lemma ipv4_check_passes:
  assumes "rte_ipv4_hdr_of (mb_data m) = H" "ipv4_hdr_len_of H = L" "\<not> data_len m < 20" "ih_fragment_offset H = 0"
    "\<not> data_len m < L" "\<not> L < 20" "\<not> ucast (ih_total_length H) < L" "\<not> mb_pkt_len m < ucast (ih_total_length H)"
    "ih_version_ihl H AND 0xF0 = 0x40"
    "\<And>q. (if 20 < L then ipv4_parse_options (mb_data m) L q else Some (0, 0, q)) = Some (0, ts, q)"
    "\<not> (if rx_offload then bad else ck (take (unat L) (mb_data m)) \<noteq> 0xFFFF)"
  shows "\<exists>f. ipv4_check_hdr ck rx_offload bad m p = Some (Inr (H, ts, upd_ipv4_stats f p))"
  unfolding ipv4_check_hdr_def Let_def assms(1,2)
  using assms(3-9,11) by (simp add: assms(10) split del: if_split) blast

text \<open>The header in front of a TCP or UDP packet passes all the checks.\<close>

lemma ip_header_checked:
  assumes ck: "rte_raw_cksum_spec ck" and rx: "if rx_offload then \<not> bad else \<not> offload"
    and len: "unat (ip_hl so) + unat l4_len < 65536"
    and m: "mb_data m = ip_header ck offload so src dst proto l4_len @ rest" "mb_pkt_len m = of_nat (length (mb_data m))"
    and rest: "unat l4_len \<le> length rest" "length (mb_data m) < 65536"
  shows "\<exists>f. ipv4_check_hdr ck rx_offload bad m p =
           Some (Inr (\<lparr>ih_version_ihl = push_bit 4 4 OR ucast (drop_bit 2 (ip_hl so)), ih_total_length = ip_hl so + l4_len,
             ih_fragment_offset = 0, ih_next_proto_id = proto, ih_src_addr = src, ih_dst_addr = dst\<rparr>, 0, upd_ipv4_stats f p))"
proof -
  let ?h = "ipv4_hdr_bytes (ip_hl so) (ip4so_tos so) l4_len proto src dst"
  define c where "c = ip_cksum ck offload (?h 0 @ ip_opts so)"
  have d: "mb_data m = ?h c @ ip_opts so @ rest" using m(1) by (simp add: ip_header_def Let_def c_def)
  let ?hdr = "\<lparr>ih_version_ihl = push_bit 4 4 OR ucast (drop_bit 2 (ip_hl so)), ih_total_length = ip_hl so + l4_len,
             ih_fragment_offset = 0, ih_next_proto_id = proto, ih_src_addr = src, ih_dst_addr = dst\<rparr>"
  have hdr: "rte_ipv4_hdr_of (mb_data m) = ?hdr" unfolding d by (rule ipv4_hdr_of_bytes)
  have hl: "ipv4_hdr_len_of ?hdr = ucast (ip_hl so)" "ih_version_ihl ?hdr AND 0xF0 = 0x40"
    "ucast (ip_hl so) = (20 :: u32) \<or> ucast (ip_hl so) = (32 :: u32)"
    by (simp_all add: ipv4_hdr_len_of_def ip_hl_def)
  have lo: "length (ip_opts so) + 20 = unat (ip_hl so)"
    by (simp add: ip_opts_def ip_hl_def ipv4_tstamp_option_def)
  have dl: "unat (data_len m) = length (mb_data m)" "unat (mb_pkt_len m) = length (mb_data m)"
    using rest(2) m(2) by (simp_all add: data_len_def unat_of_nat take_bit_nat_eq_self)
  have big: "\<not> data_len m < 20" "\<not> data_len m < ucast (ip_hl so)"
    using dl lo hl(3) by (auto simp: d word_unat_less) (auto simp: ip_hl_def split: if_splits)
  have tl: "unat (ip_hl so + l4_len) = unat (ip_hl so) + unat l4_len" using unat_add_lem [of "ip_hl so" l4_len] len by simp
  have tot: "\<not> ucast (ip_hl so + l4_len) < (ucast (ip_hl so) :: u32)" "\<not> mb_pkt_len m < ucast (ip_hl so + l4_len)"
    using tl dl(2) rest(1) by (simp_all add: word_unat_less u16_u32_unat m(1))
  have opts: "(if 20 < (ucast (ip_hl so) :: u32) then ipv4_parse_options (mb_data m) (ucast (ip_hl so)) q else Some (0, 0, q)) =
      Some (0, 0, q)" for q
    using tstamp_option_parsed [of "?h c" rest]
    by (cases "ip4so_tx_tstamp so") (simp_all add: d ip_hl_def ip_opts_def ipv4_parse_options_def)
  have tk: "take (unat (ucast (ip_hl so) :: u32)) (mb_data m) = ?h c @ ip_opts so"
    using lo by (auto simp: d ip_hl_def split: if_splits)
  have ckd: "\<not> (if rx_offload then bad else ck (take (unat (ucast (ip_hl so) :: u32)) (mb_data m)) \<noteq> 0xFFFF)"
    using rx ipv4_cksum_ok [OF ck, of _ "ip_hl so" "ip4so_tos so" l4_len proto src dst "ip_opts so", OF refl]
    unfolding tk by (auto simp: c_def ip_cksum_def split: if_splits)
  have ge: "\<not> (ucast (ip_hl so) :: u32) < 20" using hl(3) by auto
  show ?thesis
    by (rule ipv4_check_passes [where H = ?hdr and L = "ucast (ip_hl so)"], rule hdr, rule hl, rule big, simp, rule big, rule ge,
        use tot in simp, use tot in simp, rule hl, rule opts, rule ckd)
qed

lemma ipv4_receive_passes:
  assumes "pcb_mbuf pcb = [m]" and "ipv4_check_hdr ck rx_offload bad m p = Some (Inr (hdr, ts, p'))"
    and "ih_total_length hdr - ucast (ipv4_hdr_len_of hdr) = l4_len"
    and "data_adj_chain adj [m] (ipv4_hdr_len_of hdr) = Some mbuf" and "mbuf \<noteq> []"
    and trim: "(if mb_pkt_len (hd mbuf) > ucast l4_len then trim mbuf (ucast (mb_pkt_len (hd mbuf) - ucast l4_len)) else Some mbuf) =
          Some mbuf'"
    and proto: "ih_next_proto_id hdr \<in> {IPPROTO_TCP, IPPROTO_UDP}"
  shows "ipv4_receive_pkt adj trim ck rx_offload bad l4 pcb p s =
      map_option (\<lambda>(mbuf, pcb, s). (mbuf, pcb, p', if pcb_sockopt pcb \<noteq> None then l4_latency_check l4 pcb ts s else s))
        ((if ih_next_proto_id hdr = IPPROTO_TCP then l4_tcp_receive_pkt l4 else l4_udp_receive_pkt l4)
           (pcb\<lparr>pcb_src_addr := ih_src_addr hdr, pcb_dst_addr := ih_dst_addr hdr, pcb_l4_len := l4_len, pcb_mbuf := mbuf'\<rparr>) s)"
proof -
  let ?pcb = "pcb\<lparr>pcb_src_addr := ih_src_addr hdr, pcb_dst_addr := ih_dst_addr hdr, pcb_l4_len := l4_len, pcb_mbuf := mbuf'\<rparr>"
  let ?up = "if ih_next_proto_id hdr = IPPROTO_TCP then l4_tcp_receive_pkt l4 ?pcb s else l4_udp_receive_pkt l4 ?pcb s"
  have "ipv4_receive_pkt adj trim ck rx_offload bad l4 pcb p s =
      Option.bind ?up (\<lambda>(mbuf, pcb, s). Some (mbuf, pcb, p', if pcb_sockopt pcb \<noteq> None then l4_latency_check l4 pcb ts s else s))"
    unfolding ipv4_receive_pkt_def Let_def using proto
    by (simp add: assms(1,2,4,5) trim [folded assms(3)] split del: if_split)
      (auto simp: assms(3) IPPROTO_TCP_def IPPROTO_UDP_def)
  also have "\<dots> = map_option (\<lambda>(mbuf, pcb, s). (mbuf, pcb, p', if pcb_sockopt pcb \<noteq> None then l4_latency_check l4 pcb ts s else s)) ?up"
    by (cases ?up) auto
  finally show ?thesis by (simp split: if_splits)
qed

text \<open>
  C32: What one port builds in front of a TCP or UDP packet, the other understands: the frame, with a VLAN tag, the timestamp option
  and padding as it may be, hands the protocol exactly the bytes of the packet, with the two addresses and the length. The
  checksum of the header is made and checked by the program, or left to the hardware on both sides.
\<close>

theorem ip_packet_roundtrip:
  assumes adj: "rte_pktmbuf_adj_spec adj" and trim: "rte_pktmbuf_trim_spec trim" and ck: "rte_raw_cksum_spec ck"
    and built: "ipv4_build_hdr_mbuf room ck offload so src dst proto l4_len p = Some (Some hm, p')"
    and proto: "proto \<in> {IPPROTO_TCP, IPPROTO_UDP}" and rx: "if rx_offload then \<not> bad else \<not> offload"
    and data: "length l4_bytes = unat l4_len" and len: "unat l4_len + length pad < 65000"
  shows "\<exists>q'. eth_receive_pkt adj (ipv4_receive_pkt adj trim ck rx_offload bad l4) my_core
                (pcb\<lparr>pcb_mbuf := frame_chain (hm_bytes hm @ l4_bytes @ pad)\<rparr>) q s =
           map_option (\<lambda>(mbuf, pcb, s). (mbuf, pcb, q', if pcb_sockopt pcb \<noteq> None then l4_latency_check l4 pcb 0 s else s))
             ((if proto = IPPROTO_TCP then l4_tcp_receive_pkt l4 else l4_udp_receive_pkt l4)
                (pcb\<lparr>pcb_src_addr := src, pcb_dst_addr := dst, pcb_l4_len := l4_len, pcb_mbuf := frame_chain l4_bytes\<rparr>) s)"
proof -
  obtain d sa tag where f: "length d = 6" "length sa = 6"
    "hm_bytes hm = eth_header d sa tag RTE_ETHER_TYPE_IPV4 @ ip_header ck offload so src dst proto l4_len"
    using built_frame [OF built] by blast
  let ?h = "ip_header ck offload so src dst proto l4_len" and ?rest = "l4_bytes @ pad"
  let ?body = "?h @ ?rest" and ?p = "count_tag tag q"
  have hl: "unat (ip_hl so) \<le> 32" by (simp add: ip_hl_def)
  have lens: "length ?body + 18 < 65536" using len data hl by simp
  have ne: "RTE_ETHER_TYPE_IPV4 \<noteq> RTE_ETHER_TYPE_VLAN"
    by (simp add: RTE_ETHER_TYPE_IPV4_def RTE_ETHER_TYPE_VLAN_def)
  let ?pcb = "pcb\<lparr>pcb_mbuf := frame_chain (eth_header d sa tag RTE_ETHER_TYPE_IPV4 @ ?body)\<rparr>"
  note e = eth_receive_header [OF adj f(1,2) ne lens, of ?pcb tag]
  define m where "m = hd (frame_chain ?body)"
  have m: "frame_chain ?body = [m]" "mb_data m = ?h @ ?rest" "mb_pkt_len m = of_nat (length (mb_data m))"
    by (simp_all add: m_def frame_chain_def)
  let ?q = "upd_eth_stats (\<lambda>s. s\<lparr>es_etype_ipv4 := es_etype_ipv4 s + 1\<rparr>) ?p"
  define hdr where "hdr = \<lparr>ih_version_ihl = push_bit 4 4 OR ucast (drop_bit 2 (ip_hl so)), ih_total_length = ip_hl so + l4_len,
             ih_fragment_offset = 0, ih_next_proto_id = proto, ih_src_addr = src, ih_dst_addr = dst\<rparr>"
  have lt: "unat (ip_hl so) + unat l4_len < 65536" "unat l4_len \<le> length ?rest" "length (mb_data m) < 65536"
    using len hl data lens m(2) by simp_all
  obtain g where c: "ipv4_check_hdr ck rx_offload bad m ?q = Some (Inr (hdr, 0, upd_ipv4_stats g ?q))"
    using ip_header_checked [OF ck rx lt(1) m(2,3) lt(2,3)] unfolding hdr_def by blast
  have hlen: "ipv4_hdr_len_of hdr = of_nat (length ?h)" and lenl4: "ih_total_length hdr - ucast (ipv4_hdr_len_of hdr) = l4_len"
    by (simp_all add: ipv4_hdr_len_of_def hdr_def ip_hl_def)
  have a: "data_adj_chain adj (frame_chain ?body) (ipv4_hdr_len_of hdr) = Some (frame_chain ?rest)"
    unfolding hlen using adj_frame [OF adj, of ?h ?rest] lens by simp
  let ?n = "of_nat (length ?rest) :: u32"
  have pl: "unat ?n = unat l4_len + length pad"
    using unat_of_nat_small [of "length ?rest", where 'a = 32] len data by simp
  have ul: "unat (ucast l4_len :: u32) = unat l4_len" by (rule u16_u32_unat)
  have t: "(if ?n > ucast l4_len then trim (frame_chain ?rest) (ucast (?n - ucast l4_len)) else Some (frame_chain ?rest)) =
      Some (frame_chain l4_bytes)"
  proof (cases "pad = []")
    case True
    then have "\<not> ucast l4_len < ?n" using pl ul by (simp add: word_unat_less)
    then show ?thesis using True by simp
  next
    case False
    then have gt: "ucast l4_len < ?n" using pl ul by (simp add: word_unat_less)
    then have "unat (?n - ucast l4_len) = length pad"
      using pl ul by (simp add: unat_sub word_unat_le)
    then have u: "unat (ucast (?n - ucast l4_len) :: u16) = length pad" "ucast (ucast (?n - ucast l4_len) :: u16) = ?n - ucast l4_len"
      using len by (simp_all add: ucast16_unat ucast_u16_u32)
    have "trim (frame_chain ?rest) (ucast (?n - ucast l4_len)) =
        Some (set_head 1 (?n - (?n - ucast l4_len)) (frame_chain l4_bytes))"
      using trim u unfolding rte_pktmbuf_trim_spec_def by (simp add: frame_chain_def del: of_nat_add length_append) simp
    moreover have "set_head 1 (?n - (?n - ucast l4_len)) (frame_chain l4_bytes) = frame_chain l4_bytes"
      using data ul by (simp add: frame_chain_def word_unat_eq_iff) 
    ultimately show ?thesis using gt by simp
  qed
  have r: "ipv4_receive_pkt adj trim ck rx_offload bad l4 (pcb\<lparr>pcb_mbuf := frame_chain ?body\<rparr>) ?q s =
      map_option (\<lambda>(mbuf, pcb, s). (mbuf, pcb, upd_ipv4_stats g ?q, if pcb_sockopt pcb \<noteq> None then l4_latency_check l4 pcb 0 s else s))
        ((if proto = IPPROTO_TCP then l4_tcp_receive_pkt l4 else l4_udp_receive_pkt l4)
           (pcb\<lparr>pcb_src_addr := src, pcb_dst_addr := dst, pcb_l4_len := l4_len, pcb_mbuf := frame_chain l4_bytes\<rparr>) s)"
  proof -
    have pm: "pcb_mbuf (pcb\<lparr>pcb_mbuf := frame_chain ?body\<rparr>) = [m]" and ne: "frame_chain ?rest \<noteq> []"
      and n: "mb_pkt_len (hd (frame_chain ?rest)) = ?n" and hp: "ih_next_proto_id hdr = proto"
      "ih_src_addr hdr = src" "ih_dst_addr hdr = dst"
      using m(1) by (simp_all add: frame_chain_def hdr_def)
    have hproto: "ih_next_proto_id hdr \<in> {IPPROTO_TCP, IPPROTO_UDP}" using proto hp(1) by simp
    show ?thesis
      using ipv4_receive_passes [where trim = trim and mbuf = "frame_chain (l4_bytes @ pad)" and mbuf' = "frame_chain l4_bytes",
          OF pm c lenl4 a [unfolded m(1)] ne t [folded n] hproto, of l4 s] by (simp add: hp)
  qed
  show ?thesis
    by (rule exI [of _ "upd_ipv4_stats g ?q"])
      (use e [of "ipv4_receive_pkt adj trim ck rx_offload bad l4" my_core q s] r in \<open>simp add: eth_dispatch_def f(3)\<close>)
qed

subsection \<open>Options of length 0\<close>

text \<open>The parser goes on from where it stands, so a length of 0 keeps it there.\<close>

lemma zero_option_never:
  assumes "byte_at bs (unat off) \<noteq> IPOPT_TS" and "byte_at bs (unat off + 1) = 0" and "4 \<le> total_len"
  shows "ipv4_options_loop bs off total_len ts = None"
proof (cases "ipv4_options_loop bs off total_len ts")
  case (Some y)
  have False
    using assms
    by (induct rule: ipv4_options_loop.raw_induct [OF _ Some]) (auto simp: Let_def split: if_splits)
  then show ?thesis ..
qed

text \<open>
  C33: A packet whose first option has the length 0, such as a header padded with the end-of-options octet, is never done
  with: the parser returns neither an error nor a result, and so neither does the reception of the packet, whatever follows.
\<close>

theorem zero_option_hangs:
  fixes m :: mbuf
  defines "bs \<equiv> mb_data m"
  defines "hdr \<equiv> rte_ipv4_hdr_of bs"
  assumes m: "pcb_mbuf pcb = m # ms" and len: "24 \<le> ipv4_hdr_len_of hdr" "ipv4_hdr_len_of hdr \<le> data_len m"
    and frag: "ih_fragment_offset hdr = 0" and v4: "ih_version_ihl hdr AND 0xF0 = 0x40"
    and tot: "ipv4_hdr_len_of hdr \<le> ucast (ih_total_length hdr)" "ucast (ih_total_length hdr) \<le> mb_pkt_len m"
    and opt: "byte_at bs 20 \<noteq> IPOPT_TS" "byte_at bs 21 = 0"
  shows "(\<forall>ts. ipv4_options_loop bs 20 (ipv4_hdr_len_of hdr - 20) ts = None) \<and>
         ipv4_receive_pkt adj trim ck rx_offload bad l4 pcb p s = None"
proof
  have le: "4 \<le> ipv4_hdr_len_of hdr - 20"
    using len(1) by (simp add: word_unat_le unat_sub)
  show never: "\<forall>ts. ipv4_options_loop bs 20 (ipv4_hdr_len_of hdr - 20) ts = None"
    using zero_option_never [of bs 20] opt le by simp
  have "20 < ipv4_hdr_len_of hdr" "\<not> ipv4_hdr_len_of hdr < 20" "\<not> data_len m < 20"
    using len by (auto simp: word_unat_less word_unat_le)
  then have "ipv4_check_hdr ck rx_offload bad m p = None"
    using len(2) frag v4 tot never unfolding ipv4_check_hdr_def Let_def bs_def [symmetric] hdr_def [symmetric]
    by (auto simp: ipv4_parse_options_def not_less)
  then show "ipv4_receive_pkt adj trim ck rx_offload bad l4 pcb p s = None"
    by (simp add: ipv4_receive_pkt_def m)
qed

subsection \<open>Concrete packets\<close>

definition ex_cksum :: "u8 list \<Rightarrow> u16" where
  "ex_cksum bs = (let w = le_words bs in of_nat (if w = 0 then 0 else if w mod 65535 = 0 then 65535 else w mod 65535))"

lemma ex_cksum_spec: "rte_raw_cksum_spec ex_cksum"
proof -
  have "unat (ex_cksum bs) = (if le_words bs = 0 then 0 else if le_words bs mod 65535 = 0 then 65535 else le_words bs mod 65535)" for bs
    by (simp add: ex_cksum_def Let_def unat_of_nat_small less_imp_le)
  then show ?thesis unfolding rte_raw_cksum_spec_def by (metis mod_mod_trivial mod_self unat_eq_0 mod_0 zero_neq_numeral)
qed

text \<open>A VLAN tag and a timestamp; the checksum is made by the program.\<close>

definition ex_ip_so :: api_sockopt where
  "ex_ip_so =
     \<lparr>tcpo_win_size = 0, tcpo_syn_retry_cnt = 0, tcpo_syn_ack_retry_cnt = 0, tcpo_data_retry_cnt = 0, tcpo_retry_cnt = 0,
      tcpo_rto = 0, tcpo_fin_to = 0, tcpo_twait_to = 0, tcpo_orphan_to = 0, tcpo_skip_timewait = False, tcpo_ack_delay = False,
      vlanso_hdr_opt_len = 4, ip4so_hdr_opt_len = 12, ip4so_rx_tstamp = False, ip4so_tx_tstamp = True, ip4so_tos = 0,
      vlanso_id = 10, vlanso_pri = 3, ethso_tx_offload_ipv4_cksum = False, ethso_tx_offload_tcp_cksum = False,
      ethso_tx_offload_udp_cksum = False\<rparr>"

lemma ex_ip_built:
  "\<exists>hm p'. ipv4_build_hdr_mbuf 128 ex_cksum False ex_ip_so 1 1 IPPROTO_UDP 3 (ex_node 7 1) = Some (Some hm, p')"
proof -
  let ?mac = "arp_lookup_mac 1 10 (ex_node 7 1)"
  have "port_find_mac (ex_node 7 1) 1 10 \<noteq> None"
    by (simp add: port_find_mac_def ex_node_arp arp_is_def)
  then have n: "?mac \<noteq> TPG_ARP_MAC_NOT_FOUND" by (simp add: lookup_find_none)
  then have r: "route_v4_nh_lookup 1 10 (ex_node 7 1) = (?mac, ex_node 7 1)"
    by (simp add: route_v4_nh_lookup_def)
  show ?thesis
    using n by (simp add: ipv4_build_hdr_mbuf_def TPG_IP_MCAST_def TPG_IPV4_def ex_ip_so_def r eth_build_hdr_mbuf_def np_alloc_def
        ex_node_rest ipv4_build_hdr_def rte_pktmbuf_append_def ipv4_tstamp_option_def Let_def)
qed

theorem ip_packet_roundtrip_witness:
  "\<forall>pcb. \<exists>hm p' q'. ipv4_build_hdr_mbuf 128 ex_cksum False ex_ip_so 1 1 IPPROTO_UDP 3 (ex_node 7 1) = Some (Some hm, p') \<and>
     eth_receive_pkt ex_adj0 (ipv4_receive_pkt ex_adj0 ex_trim ex_cksum False False
         \<lparr>l4_tcp_receive_pkt = \<lambda>_ _. None, l4_udp_receive_pkt = \<lambda>pcb s. Some ([], pcb\<lparr>pcb_sockopt := None\<rparr>, chain_bytes (pcb_mbuf pcb)),
          l4_latency_check = \<lambda>_ _ s. s\<rparr>) True
       (pcb\<lparr>pcb_mbuf := frame_chain (hm_bytes hm @ [5, 6, 7] @ [0, 0])\<rparr>) (ex_node 7 1) [] =
     Some ([], pcb\<lparr>pcb_src_addr := 1, pcb_dst_addr := 1, pcb_l4_len := 3, pcb_mbuf := frame_chain [5, 6, 7], pcb_sockopt := None\<rparr>,
       q', [5, 6, 7])"
proof
  fix pcb
  obtain hm p' where b: "ipv4_build_hdr_mbuf 128 ex_cksum False ex_ip_so 1 1 IPPROTO_UDP 3 (ex_node 7 1) = Some (Some hm, p')"
    using ex_ip_built by blast
  have "IPPROTO_UDP \<noteq> IPPROTO_TCP" by (simp add: IPPROTO_UDP_def IPPROTO_TCP_def)
  then show "\<exists>hm p' q'. ipv4_build_hdr_mbuf 128 ex_cksum False ex_ip_so 1 1 IPPROTO_UDP 3 (ex_node 7 1) = Some (Some hm, p') \<and>
     eth_receive_pkt ex_adj0 (ipv4_receive_pkt ex_adj0 ex_trim ex_cksum False False
         \<lparr>l4_tcp_receive_pkt = \<lambda>_ _. None, l4_udp_receive_pkt = \<lambda>pcb s. Some ([], pcb\<lparr>pcb_sockopt := None\<rparr>, chain_bytes (pcb_mbuf pcb)),
          l4_latency_check = \<lambda>_ _ s. s\<rparr>) True
       (pcb\<lparr>pcb_mbuf := frame_chain (hm_bytes hm @ [5, 6, 7] @ [0, 0])\<rparr>) (ex_node 7 1) [] =
     Some ([], pcb\<lparr>pcb_src_addr := 1, pcb_dst_addr := 1, pcb_l4_len := 3, pcb_mbuf := frame_chain [5, 6, 7], pcb_sockopt := None\<rparr>,
       q', [5, 6, 7])"
    using b ip_packet_roundtrip [OF ex_adj0_spec ex_trim_spec ex_cksum_spec b, of False False "[5, 6, 7]" "[0, 0]"
        "\<lparr>l4_tcp_receive_pkt = \<lambda>_ _. None, l4_udp_receive_pkt = \<lambda>pcb s. Some ([], pcb\<lparr>pcb_sockopt := None\<rparr>, chain_bytes (pcb_mbuf pcb)),
          l4_latency_check = \<lambda>_ _ s. s\<rparr>" True pcb "ex_node 7 1" "[]"]
    by (auto simp: frame_chain_def)
qed

theorem zero_option_hangs_witness:
  "\<forall>pcb adj trim ck l4 p s. ipv4_receive_pkt adj trim ck True False l4
     (pcb\<lparr>pcb_mbuf := [\<lparr>mb_data = [0x46, 0, 0, 28, 0, 0, 0, 0, 60, 6, 0, 0, 1, 2, 3, 4, 5, 6, 7, 8, 0, 0, 0, 0, 9, 9, 9, 9],
        mb_pkt_len = 28, mb_nb_segs = 1\<rparr>]\<rparr>) p (s :: nat) = None"
proof (intro allI)
  fix pcb adj trim ck l4 p and s :: nat
  let ?m = "\<lparr>mb_data = [0x46, 0, 0, 28, 0, 0, 0, 0, 60, 6, 0, 0, 1, 2, 3, 4, 5, 6, 7, 8, 0, 0, 0, 0, 9, 9, 9, 9],
        mb_pkt_len = 28, mb_nb_segs = 1\<rparr> :: mbuf"
  have h: "rte_ipv4_hdr_of (mb_data ?m) = \<lparr>ih_version_ihl = 0x46, ih_total_length = 28, ih_fragment_offset = 0,
      ih_next_proto_id = 6, ih_src_addr = be32_at (mb_data ?m) 12, ih_dst_addr = be32_at (mb_data ?m) 16\<rparr>"
    by (simp add: rte_ipv4_hdr_of_def be16_at_def byte_at_def del: byte_at_Cons)
  show "ipv4_receive_pkt adj trim ck True False l4 (pcb\<lparr>pcb_mbuf := [?m]\<rparr>) p s = None"
    using zero_option_hangs [of "pcb\<lparr>pcb_mbuf := [?m]\<rparr>" ?m "[]" adj trim ck True False l4 p s] unfolding h
    by (simp add: ipv4_hdr_len_of_def data_len_def IPOPT_TS_def)
qed

end
