(* ===== verification/Cksum.thy ===== *)
theory Cksum
  imports Ipv4Props
begin

text \<open>
  The checksum of a TCP or UDP packet when the program is built to make it itself (\<^verbatim>\<open>inc/tpg_ipv4.h\<close>): the
  pseudo header, the packet in a chain of buffers, and the data that is added to the checksum of a header. The byte order
  of the host is little endian.
\<close>

definition rte_cpu_to_be_16_len :: "u16 \<Rightarrow> u16" where
  "rte_cpu_to_be_16_len x = push_bit 8 x OR drop_bit 8 x"

definition ipv4_udptcp_phdr_cksum :: "(u8 list \<Rightarrow> u16) \<Rightarrow> u32 \<Rightarrow> u32 \<Rightarrow> u8 \<Rightarrow> u16 \<Rightarrow> u16" where
  "ipv4_udptcp_phdr_cksum rte_raw_cksum src_addr dst_addr proto l4_len =
     rte_raw_cksum (be32 src_addr @ be32 dst_addr @ [0, proto] @ be16 l4_len)"

text \<open>The loop over the buffers, and the end: one carry is added, and 0 is sent as \<open>0xffff\<close>.\<close>

fun cksum_frags :: "(u8 list \<Rightarrow> u16) \<Rightarrow> chain \<Rightarrow> u32 \<Rightarrow> u32 \<Rightarrow> u32" where
  "cksum_frags rte_raw_cksum [] bytes_left cksum = cksum"
| "cksum_frags rte_raw_cksum (m # c) bytes_left cksum =
     (if bytes_left = 0 then cksum
      else
        let mbuf_data_len = (if bytes_left < data_len m then bytes_left else data_len m)
        in cksum_frags rte_raw_cksum c (bytes_left - mbuf_data_len)
             (cksum + ucast (rte_raw_cksum (take (unat mbuf_data_len) (mb_data m)))))"

definition cksum_finish :: "u32 \<Rightarrow> u16" where
  "cksum_finish cksum =
     (let cksum = (drop_bit 16 cksum AND 0xffff) + (cksum AND 0xffff);
          cksum = NOT cksum AND 0xffff
      in ucast (if cksum = 0 then 0xffff else cksum))"

definition ipv4_general_l4_cksum ::
  "(u8 list \<Rightarrow> u16) \<Rightarrow> chain \<Rightarrow> u32 \<Rightarrow> u32 \<Rightarrow> u8 \<Rightarrow> u16 \<Rightarrow> u16 \<Rightarrow> u16 option" where
  "ipv4_general_l4_cksum rte_raw_cksum mbuf src_addr dst_addr proto l4_offset l4_length =
     (case mbuf of
        [] \<Rightarrow> None
      | m # c \<Rightarrow>
          let bytes_left = ucast l4_length :: u32;
              cksum = ucast (ipv4_udptcp_phdr_cksum rte_raw_cksum src_addr dst_addr proto (ucast bytes_left));
              mbuf_data_len = data_len m - ucast l4_offset;
              mbuf_data_len = (if bytes_left < mbuf_data_len then bytes_left else mbuf_data_len);
              cksum = cksum + ucast (rte_raw_cksum (take (unat mbuf_data_len) (drop (unat l4_offset) (mb_data m))))
          in Some (cksum_finish (cksum_frags rte_raw_cksum c (bytes_left - mbuf_data_len) cksum)))"

definition ipv4_update_general_l4_cksum :: "(u8 list \<Rightarrow> u16) \<Rightarrow> u16 \<Rightarrow> chain \<Rightarrow> u16 option" where
  "ipv4_update_general_l4_cksum rte_raw_cksum cksum_in mbuf =
     (case mbuf of
        [] \<Rightarrow> None
      | m # _ \<Rightarrow>
          let bytes_left = mb_pkt_len m;
              cksum = (NOT (ucast cksum_in :: u32) AND 0xffff) + ucast (rte_cpu_to_be_16_len (ucast bytes_left))
          in Some (cksum_finish (cksum_frags rte_raw_cksum mbuf bytes_left cksum)))"

subsection \<open>One carry\<close>

definition loses_carry :: "nat \<Rightarrow> bool" where
  "loses_carry n \<longleftrightarrow> n div 65536 + n mod 65536 \<ge> 65536"

lemma cksum_finish_nat:
  defines "f \<equiv> \<lambda>n. n div 65536 + n mod (65536 :: nat)"
  shows "unat (cksum_finish c) = (if 65535 - f (unat c) mod 65536 = 0 then 65535 else 65535 - f (unat c) mod 65536)"
proof -
  have ff: "(0xffff :: u32) = Bit_Operations.mask 16" by (simp add: mask_eq_exp_minus_1)
  have lt: "unat c < 4294967296" using unsigned_less [of c, where 'a = nat] by simp
  have hi: "unat (drop_bit 16 c AND 0xffff) = unat c div 65536"
  proof -
    have "unat c div 65536 < 65536" using lt by (simp add: div_less_iff_less_mult less_mult_imp_div_less)
    then show ?thesis unfolding ff
      by (simp add: take_bit_eq_mask [symmetric] unsigned_take_bit_eq drop_bit_eq_div unat_div take_bit_nat_eq_self)
  qed
  have lo: "unat (c AND 0xffff) = unat c mod 65536" unfolding ff
    by (simp add: take_bit_eq_mask [symmetric] take_bit_eq_mod unat_mod)
  let ?s = "(drop_bit 16 c AND 0xffff) + (c AND 0xffff)"
  have "unat c div 65536 < 65536" using lt by (simp add: div_less_iff_less_mult less_mult_imp_div_less)
  moreover have "unat c mod 65536 < 65536" by simp
  ultimately have "f (unat c) < 2 ^ LENGTH(32)" unfolding f_def by simp
  then have s: "unat ?s = f (unat c)"
    using unat_add_lem [of "drop_bit 16 c AND 0xffff" "c AND 0xffff"] unfolding hi lo f_def by simp
  have "unat (NOT ?s AND 0xffff) = 65535 - f (unat c) mod 65536"
  proof -
    have "NOT ?s AND 0xffff = 0xffff - take_bit 16 ?s" unfolding ff
      by (simp add: take_bit_eq_mask [symmetric] take_bit_not_eq_mask_diff)
    moreover have "unat (take_bit 16 ?s) = f (unat c) mod 65536"
      by (simp add: take_bit_eq_mod unat_mod s)
    moreover have "unat (take_bit 16 ?s) \<le> 65535" using calculation(2) by simp
    ultimately show ?thesis by (simp add: unat_sub word_unat_le)
  qed
  then show ?thesis
    unfolding cksum_finish_def Let_def
    by (auto simp: unat_eq_0 ucast16_unat)
qed

lemma cksum_finish_valid: "(unat c + unat (cksum_finish c)) mod 65535 = 0 \<longleftrightarrow> \<not> loses_carry (unat c)"
proof -
  define h l where "h = unat c div 65536" and "l = unat c mod 65536"
  have c: "unat c = 65535 * h + (h + l)" unfolding h_def l_def by (simp add: algebra_simps)
  have lt: "unat c < 4294967296" using unsigned_less [of c, where 'a = nat] by simp
  then have b: "h < 65536" "l < 65536" unfolding h_def l_def by (simp_all add: div_less_iff_less_mult less_mult_imp_div_less)
  have r: "unat (cksum_finish c) = (if 65535 - (h + l) mod 65536 = 0 then 65535 else 65535 - (h + l) mod 65536)"
    unfolding cksum_finish_nat h_def l_def by simp
  have m: "(unat c + x) mod 65535 = (h + l + x) mod 65535" for x
    using mod_mult_self2 [of "h + l + x" 65535 h] unfolding c by (simp add: algebra_simps)
  show ?thesis
  proof (cases "h + l < 65536")
    case True
    then have "(h + l + unat (cksum_finish c)) mod 65535 = 0" unfolding r by (cases "h + l = 65535") auto
    then show ?thesis using True m by (simp add: loses_carry_def flip: h_def l_def)
  next
    case False
    then have "(h + l) mod 65536 = h + l - 65536" using b by (simp add: le_mod_geq)
    then have "h + l + unat (cksum_finish c) = 2 * 65535 + 1" unfolding r using b False by auto
    then have "(h + l + unat (cksum_finish c)) mod 65535 = 1" by simp
    then show ?thesis using False m by (simp add: loses_carry_def flip: h_def l_def)
  qed
qed

subsection \<open>Packets\<close>

lemma raw_cksum_mod: "rte_raw_cksum_spec ck \<Longrightarrow> unat (ck bs) mod 65535 = le_words bs mod 65535"
  by (simp add: rte_raw_cksum_spec_def)

lemma mod_eq_add: "a mod m = b mod m \<Longrightarrow> (x + a + y) mod m = (x + b + y) mod (m :: nat)"
  by (metis mod_add_cong)

text \<open>Two sums never lose a carry, so a packet in one buffer gets the right checksum.\<close>

lemma two_sums: "a \<le> 65535 \<Longrightarrow> b \<le> 65535 \<Longrightarrow> \<not> loses_carry (a + b)"
proof (cases "a + b < 65536")
  case True
  then show ?thesis by (simp add: loses_carry_def)
next
  case False
  moreover assume "a \<le> 65535" "b \<le> 65535"
  ultimately have "a + b = 65536 + (a + b - 65536)" "a + b - 65536 < 65535" by auto
  then have "(a + b) div 65536 = 1" "(a + b) mod 65536 = a + b - 65536" by (simp_all add: le_div_geq le_mod_geq)
  then show ?thesis using \<open>a + b - 65536 < 65535\<close> by (simp add: loses_carry_def)
qed

lemma mod_complement:
  assumes "(h + c) mod 65535 = 0" and "c \<le> (65535 :: nat)"
  shows "h mod 65535 = (65535 - c) mod 65535"
proof -
  obtain k where k: "h + c = 65535 * k" using assms(1) by auto
  show ?thesis
  proof (cases k)
    case (Suc j)
    then have "h = 65535 - c + 65535 * j" using k assms(2) by simp
    then show ?thesis by (simp add: mod_mult_self2)
  qed (use k in simp)
qed

lemma u16_le: "unat (x :: u16) \<le> 65535"
  using unsigned_less [of x, where 'a = nat] by simp

lemma unat_add3_u32:
  "unat (ucast (x :: u16) + ucast (y :: u16) :: u32) = unat x + unat y"
  "unat (ucast (x :: u16) + ucast (y :: u16) + ucast (z :: u16) :: u32) = unat x + unat y + unat z"
proof -
  have 1: "unat (ucast x + ucast y :: u32) = unat x + unat y"
    using unat_add_lem [of "ucast x :: u32" "ucast y"] u16_le [of x] u16_le [of y] by (simp add: u16_u32_unat)
  show "unat (ucast x + ucast y :: u32) = unat x + unat y" by (rule 1)
  show "unat (ucast x + ucast y + ucast z :: u32) = unat x + unat y + unat z"
    using unat_add_lem [of "ucast x + ucast y :: u32" "ucast z"] u16_le [of x] u16_le [of y] u16_le [of z]
    by (simp add: u16_u32_unat 1)
qed

lemma one_buffer_cksum:
  assumes ck: "rte_raw_cksum_spec ck" and m: "length (mb_data m) < 65536" "unat off + unat len = length (mb_data m)"
    and r: "ipv4_general_l4_cksum ck [m] src dst proto off len = Some r"
  shows "(le_words (be32 src @ be32 dst @ [0, proto] @ be16 len) + le_words (drop (unat off) (mb_data m)) + unat r) mod 65535 = 0"
proof -
  let ?p = "ck (be32 src @ be32 dst @ [0, proto] @ be16 len)" and ?d = "ck (drop (unat off) (mb_data m))"
  have dl: "data_len m - ucast off = ucast len"
  proof -
    have "data_len m = ucast off + ucast len"
      using m unat_add_lem [of "ucast off :: u32" "ucast len"] unat_of_nat_small [of "length (mb_data m)", where 'a = 32]
      by (simp add: word_unat_eq_iff data_len_def u16_u32_unat)
    then show ?thesis by simp
  qed
  have "ucast (ucast len :: u32) = len" by (rule bit_word_eqI) (auto simp: bit_simps)
  then have r': "r = cksum_finish (ucast ?p + ucast ?d)"
    using r m(2) by (simp add: ipv4_general_l4_cksum_def Let_def dl ipv4_udptcp_phdr_cksum_def u16_u32_unat)
  have "(unat ?p + unat ?d + unat r) mod 65535 = 0"
    using cksum_finish_valid [of "ucast ?p + ucast ?d"] two_sums [OF u16_le u16_le, of ?p ?d] unfolding r' unat_add3_u32 by simp
  moreover note raw_cksum_mod [OF ck, of "be32 src @ be32 dst @ [0, proto] @ be16 len"] raw_cksum_mod [OF ck, of "drop (unat off) (mb_data m)"]
  ultimately show ?thesis using mod_add_cong [OF mod_add_cong refl] by metis
qed

text \<open>
  C34: The checksum of a packet whose data is in a buffer of its own, added to the checksum of its header, is right exactly
  when the sum of its three parts does not carry a second time; the code adds only one carry back. \<open>hw\<close> is the sum of the
  pseudo header and the header, to which the length of the data is added.
\<close>

theorem data_cksum_loses_carry:
  assumes ck: "rte_raw_cksum_spec ck" and hdr: "(hw + unat cksum_in) mod 65535 = 0"
    and m: "mb_pkt_len m = of_nat (length (mb_data m))" "length (mb_data m) < 65536"
    and r: "ipv4_update_general_l4_cksum ck cksum_in [m] = Some r"
  defines "len \<equiv> rte_cpu_to_be_16_len (of_nat (length (mb_data m)))"
  shows "(hw + unat len + le_words (mb_data m) + unat r) mod 65535 = 0 \<longleftrightarrow>
         \<not> loses_carry (unat (NOT cksum_in) + unat len + unat (ck (mb_data m)))"
proof -
  have dl: "data_len m = mb_pkt_len m" "unat (mb_pkt_len m) = length (mb_data m)"
    using m unat_of_nat_small [of "length (mb_data m)", where 'a = 32] by (simp_all add: data_len_def)
  have n: "(NOT (ucast cksum_in :: u32)) AND 0xffff = ucast (NOT cksum_in)"
  proof -
    have ff: "(0xffff :: u32) = Bit_Operations.mask 16" by (simp add: mask_eq_exp_minus_1)
    show ?thesis unfolding ff by (rule bit_word_eqI) (auto simp: bit_simps)
  qed
  have l: "ucast (mb_pkt_len m) = (of_nat (length (mb_data m)) :: u16)"
    using m(2) by (simp add: m(1) word_unat_eq_iff ucast16_unat unat_of_nat_small)
  have t: "take (unat (mb_pkt_len m)) (mb_data m) = mb_data m" by (simp add: dl(2))
  have r': "r = cksum_finish (ucast (NOT cksum_in) + ucast len + ucast (ck (mb_data m)))"
  proof (cases "mb_data m = []")
    case True
    then have "ck (mb_data m) = 0" using ck by (simp add: rte_raw_cksum_spec_def)
    then show ?thesis using r True m(1) by (simp add: ipv4_update_general_l4_cksum_def Let_def n len_def)
  next
    case False
    then have "mb_pkt_len m \<noteq> 0" using dl(2) by (auto simp: unat_eq_0)
    then show ?thesis using r by (simp add: ipv4_update_general_l4_cksum_def Let_def dl(1) n l t len_def)
  qed
  have "NOT cksum_in = 65535 - cksum_in" by (simp add: not_eq_complement)
  then have "unat (NOT cksum_in) = 65535 - unat cksum_in"
    using u16_le [of cksum_in] by (simp add: unat_sub word_unat_le)
  then have h: "hw mod 65535 = unat (NOT cksum_in) mod 65535"
    using mod_complement [OF hdr u16_le] by simp
  have "(hw + unat len + le_words (mb_data m) + unat r) mod 65535 =
      (unat (NOT cksum_in) + unat len + unat (ck (mb_data m)) + unat r) mod 65535"
    by (intro mod_add_cong h refl) (simp add: raw_cksum_mod [OF ck])
  then show ?thesis
    using cksum_finish_valid [of "ucast (NOT cksum_in) + ucast len + ucast (ck (mb_data m))"] unfolding r' unat_add3_u32 by simp
qed

theorem data_cksum_loses_carry_witness:
  "\<exists>r. ipv4_update_general_l4_cksum ex_cksum 1 [\<lparr>mb_data = [1, 254], mb_pkt_len = 2, mb_nb_segs = 1\<rparr>] = Some r \<and>
     (65534 + 512 + le_words [1, 254] + unat r) mod 65535 \<noteq> 0"
proof -
  let ?m = "\<lparr>mb_data = [1, 254], mb_pkt_len = 2, mb_nb_segs = 1\<rparr> :: mbuf"
  obtain r where r: "ipv4_update_general_l4_cksum ex_cksum 1 [?m] = Some r"
    by (simp add: ipv4_update_general_l4_cksum_def Let_def)
  have l: "unat (rte_cpu_to_be_16_len 2) = 512"
    by (simp add: rte_cpu_to_be_16_len_def)
  have s: "unat (NOT (1 :: u16)) = 65534" "unat (ex_cksum [1, 254]) = 65025"
    by (simp_all add: ex_cksum_def)
  have "loses_carry (65534 + 512 + 65025)" by (simp add: loses_carry_def)
  then show ?thesis
    using data_cksum_loses_carry [OF ex_cksum_spec _ _ _ r, of 65534] r s by (simp add: l)
qed

end
