(* ===== verification/Imix.thy ===== *)
theory Imix
  imports MgmtApi RawApp HttpApp
begin

text \<open>
  The IMIX application: \<^verbatim>\<open>src/appl/tpg_test_imix_app.c\<close>, the management of its groups in
  \<^verbatim>\<open>src/tpg_test_mgmt_api.c\<close> and the tables of callbacks in \<^verbatim>\<open>src/appl/tpg_test_app.c\<close>. A group is a list of applications
  with weights; every connection of a test case that uses the group runs one of them, in turn.

  A group may hold an IMIX application again. For the configuration (checks, ownership, packets per send) the calls of the
  applications are followed as the code follows them, through groups of groups. For the sessions the callbacks of the
  other applications are an argument, \<open>app_cbs\<close>; they work on storage \<open>'sto\<close>, data \<open>'d\<close>, statistics \<open>'st\<close> and
  the rest of the world \<open>'w\<close>, and are \<^term>\<open>None\<close> where they abort. The code passes them the whole
  \<open>app_data_t\<close>, of which the applications that are not IMIX use their own part and the storage; an IMIX
  application inside a group would overwrite \<open>ad_imix_id\<close>, \<open>ad_imix_index\<close> and \<open>ad_storage\<close> of the group, which
  callbacks of this type cannot, so the sessions of such a group are not modelled. Pointers are not \<open>NULL\<close>. The
  CLI and printing are not modelled.
\<close>

subsection \<open>Configuration\<close>

datatype app_proto =
    APP_PROTO__RAW_CLIENT | APP_PROTO__RAW_SERVER | APP_PROTO__HTTP_CLIENT | APP_PROTO__HTTP_SERVER | APP_PROTO__IMIX
  | APP_PROTO__APP_PROTO_MAX

datatype tpg_app =
    AppRawClient raw_cfg | AppRawServer raw_cfg | AppHttpClient tpg_http_client | AppHttpServer tpg_http_server
  | AppImix u32

fun app_proto_of :: "tpg_app \<Rightarrow> app_proto" where
  "app_proto_of (AppRawClient _) = APP_PROTO__RAW_CLIENT"
| "app_proto_of (AppRawServer _) = APP_PROTO__RAW_SERVER"
| "app_proto_of (AppHttpClient _) = APP_PROTO__HTTP_CLIENT"
| "app_proto_of (AppHttpServer _) = APP_PROTO__HTTP_SERVER"
| "app_proto_of (AppImix _) = APP_PROTO__IMIX"

definition TPG_IMIX_MAX_GROUPS :: u32 where "TPG_IMIX_MAX_GROUPS = 16"
definition TPG_IMIX_MAX_APPS :: nat where "TPG_IMIX_MAX_APPS = 16"
definition TPG_IMIX_MAX_TOTAL_APP_WEIGHT :: u32 where "TPG_IMIX_MAX_TOTAL_APP_WEIGHT = 100"
definition IMIX_MAX_ENTRIES :: u32 where "IMIX_MAX_ENTRIES = TPG_IMIX_MAX_GROUPS + 1"
definition IMIX_GETS_STATS_TMP_GET_IMIX_ID :: u32 where "IMIX_GETS_STATS_TMP_GET_IMIX_ID = IMIX_MAX_ENTRIES - 1"

record imix_app =
  ia_weight :: u32
  ia_app :: tpg_app

record tpg_imix_group =
  ig_imix_id :: u32
  imix_apps :: "imix_app list"

record test_imix_group =
  tig_group :: tpg_imix_group
  tig_configured :: bool
  tig_referenced :: bool
  tig_owner_eth_port :: u32
  tig_owner_tc_id :: u32

type_synonym imix_groups = "u32 \<Rightarrow> test_imix_group"

definition test_mgmt_validate_imix_id :: "u32 \<Rightarrow> bool" where
  "test_mgmt_validate_imix_id imix_id \<longleftrightarrow> \<not> imix_id \<ge> TPG_IMIX_MAX_GROUPS"

text \<open>The sum of the weights, in 32 bits; there is none if one of them is 0.\<close>

fun imix_total_weight :: "imix_app list \<Rightarrow> u32 \<Rightarrow> u32 option" where
  "imix_total_weight [] total_weight = Some total_weight"
| "imix_total_weight (a # as) total_weight =
     (if ia_weight a = 0 then None else imix_total_weight as (total_weight + ia_weight a))"

definition test_mgmt_validate_imix_group :: "tpg_imix_group \<Rightarrow> bool" where
  "test_mgmt_validate_imix_group imix_cfg =
     (if length (imix_apps imix_cfg) = 0 then False
      else if length (imix_apps imix_cfg) > TPG_IMIX_MAX_APPS then False
      else case imix_total_weight (imix_apps imix_cfg) 0 of
          None \<Rightarrow> False
        | Some total_weight \<Rightarrow> \<not> total_weight > TPG_IMIX_MAX_TOTAL_APP_WEIGHT)"

definition test_mgmt_add_imix_group :: "u32 \<Rightarrow> tpg_imix_group \<Rightarrow> imix_groups \<Rightarrow> int \<times> imix_groups" where
  "test_mgmt_add_imix_group imix_id imix_cfg G =
     (if \<not> test_mgmt_validate_imix_id imix_id then (- EINVAL, G)
      else if tig_configured (G imix_id) then (- EEXIST, G)
      else if \<not> test_mgmt_validate_imix_group imix_cfg then (- EINVAL, G)
      else (0, G(imix_id := (G imix_id)\<lparr>tig_group := imix_cfg, tig_configured := True\<rparr>)))"

definition test_mgmt_del_imix_group :: "u32 \<Rightarrow> imix_groups \<Rightarrow> int \<times> imix_groups" where
  "test_mgmt_del_imix_group imix_id G =
     (if \<not> test_mgmt_validate_imix_id imix_id then (- EINVAL, G)
      else if \<not> tig_configured (G imix_id) then (- ENOENT, G)
      else if tig_referenced (G imix_id) then (- EBUSY, G)
      else (0, G(imix_id := (G imix_id)\<lparr>tig_configured := False\<rparr>)))"

definition test_mgmt_get_imix_group :: "u32 \<Rightarrow> imix_groups \<Rightarrow> int + tpg_imix_group" where
  "test_mgmt_get_imix_group imix_id G =
     (if \<not> test_mgmt_validate_imix_id imix_id then Inl (- EINVAL)
      else if \<not> tig_configured (G imix_id) then Inl (- ENOENT)
      else Inr (tig_group (G imix_id)))"

subsection \<open>The configuration callbacks\<close>

text \<open>
  The checks of the applications of a list, up to the first that fails (\<^verbatim>\<open>APP_CALL(validate_cfg, ...)\<close> in the loop of
  \<open>imix_validate_cfg\<close>). \<open>ip4\<close> is what the raw application reads of the options of the test case.
\<close>

partial_function (option) app_validate_cfgs ::
  "imix_groups \<Rightarrow> bool option \<Rightarrow> u32 \<Rightarrow> u32 \<Rightarrow> tpg_app list \<Rightarrow> bool option" where
  "app_validate_cfgs G ip4 eth_port tcid apps =
     (case apps of
        [] \<Rightarrow> Some True
      | app # rest \<Rightarrow>
          do {
            ok \<leftarrow> (case app of
                AppRawClient c \<Rightarrow> Some (raw_client_validate_cfg ip4 c)
              | AppRawServer c \<Rightarrow> Some (raw_server_validate_cfg ip4 c)
              | AppHttpClient c \<Rightarrow> Some (http_client_validate_cfg c)
              | AppHttpServer c \<Rightarrow> Some (http_server_validate_cfg c)
              | AppImix imix_id \<Rightarrow>
                  if imix_id \<ge> TPG_IMIX_MAX_GROUPS then Some False
                  else if \<not> tig_configured (G imix_id) then Some False
                  else if tig_referenced (G imix_id) \<and>
                          (tig_owner_eth_port (G imix_id) \<noteq> eth_port \<or> tig_owner_tc_id (G imix_id) \<noteq> tcid)
                  then Some False
                  else app_validate_cfgs G ip4 eth_port tcid (map ia_app (imix_apps (tig_group (G imix_id)))));
            if \<not> ok then Some False else app_validate_cfgs G ip4 eth_port tcid rest
          })"

definition imix_validate_cfg :: "imix_groups \<Rightarrow> bool option \<Rightarrow> u32 \<Rightarrow> u32 \<Rightarrow> u32 \<Rightarrow> bool option" where
  "imix_validate_cfg G ip4 eth_port tcid imix_id =
     (if imix_id \<ge> TPG_IMIX_MAX_GROUPS then Some False
      else if \<not> tig_configured (G imix_id) then Some False
      else if tig_referenced (G imix_id) \<and>
              (tig_owner_eth_port (G imix_id) \<noteq> eth_port \<or> tig_owner_tc_id (G imix_id) \<noteq> tcid)
      then Some False
      else app_validate_cfgs G ip4 eth_port tcid (map ia_app (imix_apps (tig_group (G imix_id)))))"

text \<open>
  What adding and deleting a test case does to the groups. The other applications copy or free the strings of their own
  configuration there.
\<close>

partial_function (option) app_add_cfgs :: "u32 \<Rightarrow> u32 \<Rightarrow> tpg_app list \<Rightarrow> imix_groups \<Rightarrow> imix_groups option" where
  "app_add_cfgs eth_port tcid apps G =
     (case apps of
        [] \<Rightarrow> Some G
      | app # rest \<Rightarrow>
          do {
            G \<leftarrow> (case app of
                AppImix imix_id \<Rightarrow>
                  do {
                    G \<leftarrow> app_add_cfgs eth_port tcid (map ia_app (imix_apps (tig_group (G imix_id)))) G;
                    Some (G(imix_id := (G imix_id)\<lparr>tig_referenced := True, tig_owner_eth_port := eth_port,
                                                    tig_owner_tc_id := tcid\<rparr>))
                  }
              | _ \<Rightarrow> Some G);
            app_add_cfgs eth_port tcid rest G
          })"

definition imix_add_cfg :: "u32 \<Rightarrow> u32 \<Rightarrow> u32 \<Rightarrow> imix_groups \<Rightarrow> imix_groups option" where
  "imix_add_cfg eth_port tcid imix_id G =
     do {
       G \<leftarrow> app_add_cfgs eth_port tcid (map ia_app (imix_apps (tig_group (G imix_id)))) G;
       Some (G(imix_id := (G imix_id)\<lparr>tig_referenced := True, tig_owner_eth_port := eth_port, tig_owner_tc_id := tcid\<rparr>))
     }"

partial_function (option) app_delete_cfgs :: "tpg_app list \<Rightarrow> imix_groups \<Rightarrow> imix_groups option" where
  "app_delete_cfgs apps G =
     (case apps of
        [] \<Rightarrow> Some G
      | app # rest \<Rightarrow>
          do {
            G \<leftarrow> (case app of
                AppImix imix_id \<Rightarrow>
                  do {
                    G \<leftarrow> app_delete_cfgs (map ia_app (imix_apps (tig_group (G imix_id)))) G;
                    if \<not> tig_referenced (G imix_id) then None
                    else Some (G(imix_id := (G imix_id)\<lparr>tig_referenced := False\<rparr>))
                  }
              | _ \<Rightarrow> Some G);
            app_delete_cfgs rest G
          })"

definition imix_delete_cfg :: "u32 \<Rightarrow> imix_groups \<Rightarrow> imix_groups option" where
  "imix_delete_cfg imix_id G =
     do {
       G \<leftarrow> app_delete_cfgs (map ia_app (imix_apps (tig_group (G imix_id)))) G;
       if \<not> tig_referenced (G imix_id) then None
       else Some (G(imix_id := (G imix_id)\<lparr>tig_referenced := False\<rparr>))
     }"

text \<open>
  The weights and the weighted packets of the applications of a group; \<open>pkts\<close> is what the others say. The product has
  32 bits, the sums 64.
\<close>

partial_function (option) imix_pkts_loop ::
  "imix_groups \<Rightarrow> (tpg_app \<Rightarrow> u32 option) \<Rightarrow> imix_app list \<Rightarrow> u64 \<Rightarrow> u64 \<Rightarrow> (u64 \<times> u64) option" where
  "imix_pkts_loop G pkts apps total_weight total_pkts_per_send =
     (case apps of
        [] \<Rightarrow> Some (total_weight, total_pkts_per_send)
      | a # rest \<Rightarrow>
          do {
            n \<leftarrow> (case ia_app a of
                AppImix imix_id \<Rightarrow>
                  do {
                    (w, t) \<leftarrow> imix_pkts_loop G pkts (imix_apps (tig_group (G imix_id))) 0 0;
                    if w = 0 then None else Some (ucast ((t + w - 1) div w))
                  }
              | app \<Rightarrow> pkts app);
            imix_pkts_loop G pkts rest (total_weight + ucast (ia_weight a)) (total_pkts_per_send + ucast (ia_weight a * n))
          })"

definition imix_pkts_per_send :: "imix_groups \<Rightarrow> (tpg_app \<Rightarrow> u32 option) \<Rightarrow> u32 \<Rightarrow> u32 option" where
  "imix_pkts_per_send G pkts imix_id =
     do {
       (total_weight, total_pkts_per_send) \<leftarrow> imix_pkts_loop G pkts (imix_apps (tig_group (G imix_id))) 0 0;
       if total_weight = 0 then None else Some (ucast ((total_pkts_per_send + total_weight - 1) div total_weight))
     }"

subsection \<open>The state of a core\<close>

text \<open>The indices of the applications, each as often as its weight says, and the next one to start.\<close>

record imix_app_table =
  iat_app_indices :: "u16 list"
  iat_count :: u32
  iat_last :: u32

record 'st tpg_imix_app_stats =
  ias_imix_id :: u32
  ias_app_protos_count :: nat
  ias_app_protos :: "nat \<Rightarrow> app_proto"
  ias_apps_count :: nat
  ias_apps :: "nat \<Rightarrow> 'st"

record ('sto, 'st) imix_core =
  imix_local_cfg :: "u32 \<Rightarrow> tpg_imix_group"
  imix_storage_table :: "u32 \<Rightarrow> nat \<Rightarrow> 'sto"
  imix_app_tables :: "u32 \<Rightarrow> imix_app_table"
  imix_local_stats :: "u32 \<Rightarrow> 'st tpg_imix_app_stats"

record ('sto, 'd) app_data =
  ad_imix_index :: u16
  ad_imix_id :: u16
  ad_storage :: 'sto
  ad_app :: 'd

record ('sto, 'd, 'st, 'w) app_cbs =
  cb_tc_start :: "tpg_app \<Rightarrow> 'sto \<Rightarrow> 'w \<Rightarrow> ('sto \<times> 'w) option"
  cb_tc_stop :: "tpg_app \<Rightarrow> 'sto \<Rightarrow> 'w \<Rightarrow> ('sto \<times> 'w) option"
  cb_init :: "tpg_app \<Rightarrow> 'sto \<Rightarrow> 'd \<Rightarrow> 'd"
  cb_conn_up :: "app_proto \<Rightarrow> 'sto \<Rightarrow> 'd \<Rightarrow> 'st \<Rightarrow> 'w \<Rightarrow> ('d \<times> 'st \<times> 'w) option"
  cb_conn_down :: "app_proto \<Rightarrow> 'sto \<Rightarrow> 'd \<Rightarrow> 'st \<Rightarrow> 'w \<Rightarrow> ('d \<times> 'st \<times> 'w) option"
  cb_deliver :: "app_proto \<Rightarrow> 'sto \<Rightarrow> 'd \<Rightarrow> 'st \<Rightarrow> 'w \<Rightarrow> chain \<Rightarrow> u64 \<Rightarrow> (u32 \<times> 'd \<times> 'st \<times> 'w) option"
  cb_send :: "app_proto \<Rightarrow> 'sto \<Rightarrow> 'd \<Rightarrow> 'st \<Rightarrow> 'w \<Rightarrow> u32 \<Rightarrow> (chain \<times> 'd \<times> 'st \<times> 'w) option"
  cb_data_sent :: "app_proto \<Rightarrow> 'sto \<Rightarrow> 'd \<Rightarrow> 'st \<Rightarrow> 'w \<Rightarrow> u32 \<Rightarrow> (bool \<times> 'd \<times> 'st \<times> 'w) option"
  cb_stats_init :: "tpg_app \<Rightarrow> 'st \<Rightarrow> 'st"
  cb_stats_copy :: "app_proto \<Rightarrow> 'st \<Rightarrow> 'st \<Rightarrow> 'st"
  cb_stats_add :: "app_proto \<Rightarrow> 'st \<Rightarrow> 'st \<Rightarrow> 'st"

subsection \<open>Starting and stopping a test case\<close>

definition imix_table_zero :: imix_app_table where
  "imix_table_zero = \<lparr>iat_app_indices = replicate (unat TPG_IMIX_MAX_TOTAL_APP_WEIGHT) 0, iat_count = 0, iat_last = 0\<rparr>"

text \<open>An index is put into the table \<open>weight\<close> times; a full table fails the assertion.\<close>

fun imix_fill :: "nat \<Rightarrow> nat \<Rightarrow> imix_app_table \<Rightarrow> imix_app_table option" where
  "imix_fill 0 app_idx tbl = Some tbl"
| "imix_fill (Suc n) app_idx tbl =
     (if \<not> iat_count tbl < TPG_IMIX_MAX_TOTAL_APP_WEIGHT then None
      else imix_fill n app_idx
             (tbl\<lparr>iat_app_indices := (iat_app_indices tbl)[unat (iat_count tbl) := of_nat app_idx],
                  iat_count := iat_count tbl + 1\<rparr>))"

fun imix_start_loop ::
  "(tpg_app \<Rightarrow> 'sto \<Rightarrow> 'w \<Rightarrow> ('sto \<times> 'w) option) \<Rightarrow> imix_app list \<Rightarrow> nat \<Rightarrow> imix_app_table \<Rightarrow> (nat \<Rightarrow> 'sto) \<Rightarrow> 'w
     \<Rightarrow> (imix_app_table \<times> (nat \<Rightarrow> 'sto) \<times> 'w) option" where
  "imix_start_loop tc_start [] app_idx tbl sto w = Some (tbl, sto, w)"
| "imix_start_loop tc_start (a # as) app_idx tbl sto w =
     do {
       tbl \<leftarrow> imix_fill (unat (ia_weight a)) app_idx tbl;
       (s, w) \<leftarrow> tc_start (ia_app a) (sto app_idx) w;
       imix_start_loop tc_start as (Suc app_idx) tbl (sto(app_idx := s)) w
     }"

definition imix_tc_start ::
  "('sto, 'd, 'st, 'w) app_cbs \<Rightarrow> imix_groups \<Rightarrow> u32 \<Rightarrow> ('sto, 'st) imix_core \<Rightarrow> 'w
     \<Rightarrow> (('sto, 'st) imix_core \<times> 'w) option" where
  "imix_tc_start cbs G imix_id c w =
     (let g = tig_group (G imix_id)
      in do {
           (tbl, sto, w) \<leftarrow> imix_start_loop (cb_tc_start cbs) (imix_apps g) 0 imix_table_zero (imix_storage_table c imix_id) w;
           Some (c\<lparr>imix_local_cfg := (imix_local_cfg c)(imix_id := g),
                   imix_app_tables := (imix_app_tables c)(imix_id := tbl),
                   imix_storage_table := (imix_storage_table c)(imix_id := sto)\<rparr>, w)
         })"

fun imix_stop_loop ::
  "(tpg_app \<Rightarrow> 'sto \<Rightarrow> 'w \<Rightarrow> ('sto \<times> 'w) option) \<Rightarrow> imix_app list \<Rightarrow> nat \<Rightarrow> (nat \<Rightarrow> 'sto) \<Rightarrow> 'w
     \<Rightarrow> ((nat \<Rightarrow> 'sto) \<times> 'w) option" where
  "imix_stop_loop tc_stop [] app_idx sto w = Some (sto, w)"
| "imix_stop_loop tc_stop (a # as) app_idx sto w =
     do {
       (s, w) \<leftarrow> tc_stop (ia_app a) (sto app_idx) w;
       imix_stop_loop tc_stop as (Suc app_idx) (sto(app_idx := s)) w
     }"

definition imix_tc_stop ::
  "('sto, 'd, 'st, 'w) app_cbs \<Rightarrow> u32 \<Rightarrow> ('sto, 'st) imix_core \<Rightarrow> 'w \<Rightarrow> (('sto, 'st) imix_core \<times> 'w) option" where
  "imix_tc_stop cbs imix_id c w =
     do {
       (sto, w) \<leftarrow> imix_stop_loop (cb_tc_stop cbs) (imix_apps (imix_local_cfg c imix_id)) 0 (imix_storage_table c imix_id) w;
       Some (c\<lparr>imix_storage_table := (imix_storage_table c)(imix_id := sto),
               imix_local_cfg := (imix_local_cfg c)(imix_id := \<lparr>ig_imix_id = 0, imix_apps = []\<rparr>)\<rparr>, w)
     }"

text \<open>The statistics of a group, set up alike on the cores, for the manager and for a request.\<close>

definition imix_stats_reset ::
  "('sto, 'd, 'st, 'w) app_cbs \<Rightarrow> tpg_imix_group \<Rightarrow> 'st tpg_imix_app_stats \<Rightarrow> 'st tpg_imix_app_stats" where
  "imix_stats_reset cbs g s =
     s\<lparr>ias_app_protos_count := length (imix_apps g), ias_apps_count := length (imix_apps g),
       ias_app_protos := (\<lambda>i. if i < length (imix_apps g) then app_proto_of (ia_app (imix_apps g ! i)) else ias_app_protos s i),
       ias_apps := (\<lambda>i. if i < length (imix_apps g) then cb_stats_init cbs (ia_app (imix_apps g ! i)) (ias_apps s i)
                        else ias_apps s i)\<rparr>"

definition imix_stats_init ::
  "('sto, 'd, 'st, 'w) app_cbs \<Rightarrow> u32 \<Rightarrow> ('sto, 'st) imix_core \<Rightarrow> u32 \<times> ('sto, 'st) imix_core" where
  "imix_stats_init cbs imix_id c =
     (imix_id, c\<lparr>imix_local_stats := (imix_local_stats c)(imix_id :=
                   imix_stats_reset cbs (imix_local_cfg c imix_id) (imix_local_stats c imix_id))\<rparr>)"

definition imix_stats_init_global ::
  "('sto, 'd, 'st, 'w) app_cbs \<Rightarrow> imix_groups \<Rightarrow> u32 \<Rightarrow> (u32 \<Rightarrow> 'st tpg_imix_app_stats)
     \<Rightarrow> u32 \<times> (u32 \<Rightarrow> 'st tpg_imix_app_stats)" where
  "imix_stats_init_global cbs G imix_id S =
     (imix_id, S(imix_id := imix_stats_reset cbs (tig_group (G imix_id)) (S imix_id)))"

definition imix_stats_init_req ::
  "('sto, 'd, 'st, 'w) app_cbs \<Rightarrow> imix_groups \<Rightarrow> u32 \<Rightarrow> (u32 \<Rightarrow> 'st tpg_imix_app_stats)
     \<Rightarrow> u32 \<times> (u32 \<Rightarrow> 'st tpg_imix_app_stats)" where
  "imix_stats_init_req cbs G imix_id S =
     (IMIX_GETS_STATS_TMP_GET_IMIX_ID, S(IMIX_GETS_STATS_TMP_GET_IMIX_ID :=
        imix_stats_reset cbs (tig_group (G imix_id)) (S IMIX_GETS_STATS_TMP_GET_IMIX_ID)))"

subsection \<open>Sessions\<close>

definition imix_init_session :: "u32 \<Rightarrow> ('sto, 'd) app_data \<Rightarrow> ('sto, 'd) app_data" where
  "imix_init_session imix_id ad = ad\<lparr>ad_imix_id := ucast imix_id\<rparr>"

text \<open>
  What the callbacks of a session have in common: the assertions, the position of its application and its protocol.
  \<open>stats_id\<close> is the identifier in the statistics of the test case.
\<close>

definition imix_session_app :: "u32 \<Rightarrow> ('sto, 'd) app_data \<Rightarrow> ('sto, 'st) imix_core \<Rightarrow> (u32 \<times> nat \<times> app_proto) option" where
  "imix_session_app stats_id ad c =
     (let imix_id = ucast (ad_imix_id ad); imix_index = unat (ad_imix_index ad);
          imix_cfg = imix_local_cfg c imix_id
      in if stats_id \<noteq> imix_id then None
         else if \<not> imix_index < length (imix_apps imix_cfg) then None
         else
           let p = app_proto_of (ia_app (imix_apps imix_cfg ! imix_index))
           in if p \<noteq> ias_app_protos (imix_local_stats c imix_id) imix_index then None
              else Some (imix_id, imix_index, p))"

definition imix_put_stats :: "u32 \<Rightarrow> nat \<Rightarrow> 'st \<Rightarrow> ('sto, 'st) imix_core \<Rightarrow> ('sto, 'st) imix_core" where
  "imix_put_stats imix_id imix_index st c =
     c\<lparr>imix_local_stats := (imix_local_stats c)(imix_id :=
         (imix_local_stats c imix_id)\<lparr>ias_apps := (ias_apps (imix_local_stats c imix_id))(imix_index := st)\<rparr>)\<rparr>"

text \<open>
  The application is one that is not IMIX: its \<open>init\<close> and \<open>conn_up\<close> change the part of the session's data that is theirs.
\<close>

definition imix_conn_up ::
  "('sto, 'd, 'st, 'w) app_cbs \<Rightarrow> u32 \<Rightarrow> ('sto, 'd) app_data \<Rightarrow> ('sto, 'st) imix_core \<Rightarrow> 'w
     \<Rightarrow> (('sto, 'd) app_data \<times> ('sto, 'st) imix_core \<times> 'w) option" where
  "imix_conn_up cbs stats_id ad c w =
     (if stats_id \<noteq> ucast (ad_imix_id ad) then None
      else
        let imix_id = ucast (ad_imix_id ad) :: u32;
            tbl = imix_app_tables c imix_id;
            imix_index = iat_app_indices tbl ! unat (iat_last tbl);
            apps = imix_apps (imix_local_cfg c imix_id)
        in if iat_count tbl = 0 then None
           else
             let c = c\<lparr>imix_app_tables := (imix_app_tables c)(imix_id :=
                         tbl\<lparr>iat_last := (iat_last tbl + 1) mod iat_count tbl\<rparr>)\<rparr>
             in if \<not> unat imix_index < length apps then None
                else
                  let app = ia_app (apps ! unat imix_index);
                      ad = ad\<lparr>ad_imix_index := imix_index, ad_storage := imix_storage_table c imix_id (unat imix_index)\<rparr>;
                      ad = ad\<lparr>ad_app := cb_init cbs app (ad_storage ad) (ad_app ad)\<rparr>
                  in if app_proto_of app \<noteq> ias_app_protos (imix_local_stats c imix_id) (unat imix_index) then None
                     else do {
                       (d, st, w) \<leftarrow> cb_conn_up cbs (app_proto_of app) (ad_storage ad) (ad_app ad)
                                       (ias_apps (imix_local_stats c imix_id) (unat imix_index)) w;
                       Some (ad\<lparr>ad_app := d\<rparr>, imix_put_stats imix_id (unat imix_index) st c, w)
                     })"

definition imix_conn_down ::
  "('sto, 'd, 'st, 'w) app_cbs \<Rightarrow> u32 \<Rightarrow> ('sto, 'd) app_data \<Rightarrow> ('sto, 'st) imix_core \<Rightarrow> 'w
     \<Rightarrow> (('sto, 'd) app_data \<times> ('sto, 'st) imix_core \<times> 'w) option" where
  "imix_conn_down cbs stats_id ad c w =
     do {
       (imix_id, i, p) \<leftarrow> imix_session_app stats_id ad c;
       (d, st, w) \<leftarrow> cb_conn_down cbs p (ad_storage ad) (ad_app ad) (ias_apps (imix_local_stats c imix_id) i) w;
       Some (ad\<lparr>ad_app := d\<rparr>, imix_put_stats imix_id i st c, w)
     }"

definition imix_deliver_data ::
  "('sto, 'd, 'st, 'w) app_cbs \<Rightarrow> u32 \<Rightarrow> ('sto, 'd) app_data \<Rightarrow> ('sto, 'st) imix_core \<Rightarrow> 'w \<Rightarrow> chain \<Rightarrow> u64
     \<Rightarrow> (u32 \<times> ('sto, 'd) app_data \<times> ('sto, 'st) imix_core \<times> 'w) option" where
  "imix_deliver_data cbs stats_id ad c w rx_data rx_tstamp =
     do {
       (imix_id, i, p) \<leftarrow> imix_session_app stats_id ad c;
       (n, d, st, w) \<leftarrow> cb_deliver cbs p (ad_storage ad) (ad_app ad) (ias_apps (imix_local_stats c imix_id) i) w rx_data rx_tstamp;
       Some (n, ad\<lparr>ad_app := d\<rparr>, imix_put_stats imix_id i st c, w)
     }"

definition imix_send_data ::
  "('sto, 'd, 'st, 'w) app_cbs \<Rightarrow> u32 \<Rightarrow> ('sto, 'd) app_data \<Rightarrow> ('sto, 'st) imix_core \<Rightarrow> 'w \<Rightarrow> u32
     \<Rightarrow> (chain \<times> ('sto, 'd) app_data \<times> ('sto, 'st) imix_core \<times> 'w) option" where
  "imix_send_data cbs stats_id ad c w max_tx_size =
     do {
       (imix_id, i, p) \<leftarrow> imix_session_app stats_id ad c;
       (m, d, st, w) \<leftarrow> cb_send cbs p (ad_storage ad) (ad_app ad) (ias_apps (imix_local_stats c imix_id) i) w max_tx_size;
       Some (m, ad\<lparr>ad_app := d\<rparr>, imix_put_stats imix_id i st c, w)
     }"

definition imix_data_sent ::
  "('sto, 'd, 'st, 'w) app_cbs \<Rightarrow> u32 \<Rightarrow> ('sto, 'd) app_data \<Rightarrow> ('sto, 'st) imix_core \<Rightarrow> 'w \<Rightarrow> u32
     \<Rightarrow> (bool \<times> ('sto, 'd) app_data \<times> ('sto, 'st) imix_core \<times> 'w) option" where
  "imix_data_sent cbs stats_id ad c w bytes_sent =
     do {
       (imix_id, i, p) \<leftarrow> imix_session_app stats_id ad c;
       (b, d, st, w) \<leftarrow> cb_data_sent cbs p (ad_storage ad) (ad_app ad) (ias_apps (imix_local_stats c imix_id) i) w bytes_sent;
       Some (b, ad\<lparr>ad_app := d\<rparr>, imix_put_stats imix_id i st c, w)
     }"

subsection \<open>Statistics\<close>

text \<open>\<open>S\<close> are the global statistics of the groups. The loops stop at the first application with another protocol.\<close>

fun imix_stats_loop ::
  "(app_proto \<Rightarrow> 'st \<Rightarrow> 'st \<Rightarrow> 'st) \<Rightarrow> nat \<Rightarrow> nat \<Rightarrow> 'st tpg_imix_app_stats \<Rightarrow> 'st tpg_imix_app_stats
     \<Rightarrow> 'st tpg_imix_app_stats option" where
  "imix_stats_loop f 0 app_idx to from_stats = Some to"
| "imix_stats_loop f (Suc n) app_idx to from_stats =
     (if ias_app_protos to app_idx \<noteq> ias_app_protos from_stats app_idx then None
      else imix_stats_loop f n (Suc app_idx)
             (to\<lparr>ias_apps := (ias_apps to)(app_idx :=
                   f (ias_app_protos to app_idx) (ias_apps to app_idx) (ias_apps from_stats app_idx))\<rparr>) from_stats)"

definition imix_stats_copy ::
  "('sto, 'd, 'st, 'w) app_cbs \<Rightarrow> u32 \<Rightarrow> u32 \<Rightarrow> ('sto, 'st) imix_core \<Rightarrow> (u32 \<Rightarrow> 'st tpg_imix_app_stats)
     \<Rightarrow> (u32 \<Rightarrow> 'st tpg_imix_app_stats) option" where
  "imix_stats_copy cbs dest_id src_id c S =
     (let dest = S dest_id; src = imix_local_stats c src_id
      in if ias_app_protos_count dest \<noteq> ias_apps_count dest then None
         else if ias_app_protos_count dest \<noteq> ias_app_protos_count src then None
         else if ias_apps_count dest \<noteq> ias_apps_count src then None
         else map_option (\<lambda>s. S(dest_id := s)) (imix_stats_loop (cb_stats_copy cbs) (ias_apps_count dest) 0 dest src))"

definition imix_stats_add ::
  "('sto, 'd, 'st, 'w) app_cbs \<Rightarrow> u32 \<Rightarrow> u32 \<Rightarrow> (u32 \<Rightarrow> 'st tpg_imix_app_stats)
     \<Rightarrow> (u32 \<Rightarrow> 'st tpg_imix_app_stats) option" where
  "imix_stats_add cbs total_id elem_id S =
     map_option (\<lambda>s. S(total_id := s))
       (imix_stats_loop (cb_stats_add cbs) (ias_app_protos_count (S total_id)) 0 (S total_id) (S elem_id))"

end
