(* ===== verification/ImixProps.thy ===== *)
theory ImixProps
  imports Imix
begin

text \<open>
  The IMIX application starts the applications of a group in turn, each as often as its weight says, and otherwise stays
  out of their way; what happens when the weights wrap around, and when groups hold groups.
\<close>

text \<open>Groups of applications that are no groups themselves.\<close>

definition imix_free :: "tpg_app list \<Rightarrow> bool" where
  "imix_free apps \<longleftrightarrow> (\<forall>app \<in> set apps. \<forall>k. app \<noteq> AppImix k)"

lemma imix_free_simps [simp]:
  "imix_free []" "imix_free (a # as) \<longleftrightarrow> (\<forall>k. a \<noteq> AppImix k) \<and> imix_free as"
  "imix_free (as @ bs) \<longleftrightarrow> imix_free as \<and> imix_free bs"
  by (auto simp: imix_free_def)

subsection \<open>The table of a group\<close>

text \<open>The positions of the applications in the order they are started in, and the total of the weights.\<close>

fun imix_order :: "imix_app list \<Rightarrow> nat \<Rightarrow> u16 list" where
  "imix_order [] i = []"
| "imix_order (a # as) i = replicate (unat (ia_weight a)) (of_nat i) @ imix_order as (Suc i)"

definition imix_weight :: "imix_app list \<Rightarrow> nat" where
  "imix_weight apps = (\<Sum>a\<leftarrow>apps. unat (ia_weight a))"

lemma imix_weight_simps [simp]:
  "imix_weight [] = 0" "imix_weight (a # as) = unat (ia_weight a) + imix_weight as"
  by (simp_all add: imix_weight_def)

lemma imix_order_length [simp]: "length (imix_order apps i) = imix_weight apps"
  by (induction apps arbitrary: i) simp_all

definition table_entries :: "imix_app_table \<Rightarrow> u16 list" where
  "table_entries tbl = take (unat (iat_count tbl)) (iat_app_indices tbl)"

definition table_ok :: "imix_app_table \<Rightarrow> bool" where
  "table_ok tbl \<longleftrightarrow> length (iat_app_indices tbl) = 100 \<and> unat (iat_count tbl) \<le> 100"

lemma imix_fill:
  "table_ok tbl \<Longrightarrow>
   (if unat (iat_count tbl) + n \<le> 100
    then \<exists>tbl'. imix_fill n i tbl = Some tbl' \<and> table_ok tbl' \<and> iat_last tbl' = iat_last tbl \<and>
           table_entries tbl' = table_entries tbl @ replicate n (of_nat i) \<and> unat (iat_count tbl') = unat (iat_count tbl) + n
    else imix_fill n i tbl = None)"
proof (induction n arbitrary: tbl)
  case (Suc n)
  let ?c = "unat (iat_count tbl)"
  let ?t = "tbl\<lparr>iat_app_indices := (iat_app_indices tbl)[?c := of_nat i], iat_count := iat_count tbl + 1\<rparr>"
  show ?case
  proof (cases "?c < 100")
    case True
    then have lt: "iat_count tbl < TPG_IMIX_MAX_TOTAL_APP_WEIGHT"
      by (simp add: word_less_nat_alt TPG_IMIX_MAX_TOTAL_APP_WEIGHT_def)
    have c: "unat (iat_count tbl + 1) = Suc ?c" using True by (simp add: unat_word_ariths)
    then have ok: "table_ok ?t" using True Suc.prems by (simp add: table_ok_def)
    have e: "table_entries ?t = table_entries tbl @ [of_nat i]"
      using True Suc.prems by (simp add: table_entries_def table_ok_def c take_Suc_conv_app_nth)
    show ?thesis using Suc.IH [OF ok] lt c e by (auto simp: replicate_append_same)
  next
    case False
    then show ?thesis
      by (simp add: word_less_nat_alt TPG_IMIX_MAX_TOTAL_APP_WEIGHT_def)
  qed
qed (simp add: table_ok_def)

lemma imix_start_loop:
  assumes "table_ok tbl" "imix_start_loop f apps i tbl sto w = Some (tbl', sto', w')"
  shows "unat (iat_count tbl) + imix_weight apps \<le> 100 \<and> table_ok tbl' \<and> iat_last tbl' = iat_last tbl \<and>
         table_entries tbl' = table_entries tbl @ imix_order apps i \<and>
         unat (iat_count tbl') = unat (iat_count tbl) + imix_weight apps"
  using assms
proof (induction apps arbitrary: i tbl sto w)
  case Nil
  then show ?case by (simp add: table_ok_def)
next
  case (Cons a as)
  then obtain t s w1 where t: "imix_fill (unat (ia_weight a)) i tbl = Some t"
    and r: "imix_start_loop f as (Suc i) t (sto(i := s)) w1 = Some (tbl', sto', w')"
    by (auto elim!: bind_SomeE)
  have "table_ok t \<and> iat_last t = iat_last tbl \<and>
      table_entries t = table_entries tbl @ replicate (unat (ia_weight a)) (of_nat i) \<and>
      unat (iat_count t) = unat (iat_count tbl) + unat (ia_weight a)"
    using imix_fill [OF Cons.prems(1), of "unat (ia_weight a)" i] t by (auto split: if_splits)
  with Cons.IH [OF _ r] show ?case by simp
qed

lemma table_zero [simp]: "table_ok imix_table_zero" "table_entries imix_table_zero = []" "iat_last imix_table_zero = 0"
  "iat_count imix_table_zero = 0"
  by (simp_all add: table_ok_def table_entries_def imix_table_zero_def TPG_IMIX_MAX_TOTAL_APP_WEIGHT_def)

text \<open>What a core has after a test case was started.\<close>

definition imix_started :: "tpg_imix_group \<Rightarrow> u32 \<Rightarrow> ('sto, 'st) imix_core \<Rightarrow> bool" where
  "imix_started g imix_id c \<longleftrightarrow>
     imix_local_cfg c imix_id = g \<and> table_ok (imix_app_tables c imix_id) \<and>
     table_entries (imix_app_tables c imix_id) = imix_order (imix_apps g) 0 \<and>
     unat (iat_count (imix_app_tables c imix_id)) = imix_weight (imix_apps g)"

lemma imix_tc_start_started:
  assumes "imix_tc_start cbs G imix_id c0 w0 = Some (c, w)"
  shows "imix_started (tig_group (G imix_id)) imix_id c \<and> iat_last (imix_app_tables c imix_id) = 0 \<and>
         imix_weight (imix_apps (tig_group (G imix_id))) \<le> 100"
proof -
  obtain tbl sto where r: "imix_start_loop (cb_tc_start cbs) (imix_apps (tig_group (G imix_id))) 0 imix_table_zero
      (imix_storage_table c0 imix_id) w0 = Some (tbl, sto, w)"
    and c: "c = c0\<lparr>imix_local_cfg := (imix_local_cfg c0)(imix_id := tig_group (G imix_id)),
                   imix_app_tables := (imix_app_tables c0)(imix_id := tbl),
                   imix_storage_table := (imix_storage_table c0)(imix_id := sto)\<rparr>"
    using assms by (auto simp: imix_tc_start_def Let_def elim!: bind_SomeE)
  from imix_start_loop [OF _ r] show ?thesis by (simp add: c imix_started_def)
qed

lemma imix_total_weight:
  "imix_total_weight as w = (if \<forall>a \<in> set as. ia_weight a \<noteq> 0 then Some (w + of_nat (imix_weight as)) else None)"
  by (induction as arbitrary: w) (auto simp: add.assoc)

lemma validated_group:
  assumes "test_mgmt_validate_imix_group g"
  shows "imix_apps g \<noteq> []" "length (imix_apps g) \<le> 16" "0 < imix_weight (imix_apps g)"
    "\<And>a. a \<in> set (imix_apps g) \<Longrightarrow> ia_weight a \<noteq> 0"
    "imix_weight (imix_apps g) mod 2 ^ 32 \<le> 100"
proof -
  show g: "imix_apps g \<noteq> []" "length (imix_apps g) \<le> 16" "\<And>a. a \<in> set (imix_apps g) \<Longrightarrow> ia_weight a \<noteq> 0"
    using assms
    by (auto simp: test_mgmt_validate_imix_group_def imix_total_weight TPG_IMIX_MAX_APPS_def split: if_splits)
  then show "0 < imix_weight (imix_apps g)" by (cases "imix_apps g") (auto simp: unat_gt_0)
  have "\<not> of_nat (imix_weight (imix_apps g)) > TPG_IMIX_MAX_TOTAL_APP_WEIGHT"
    using assms g
    by (auto simp: test_mgmt_validate_imix_group_def imix_total_weight split: if_splits)
  then show "imix_weight (imix_apps g) mod 2 ^ 32 \<le> 100"
    by (simp add: not_less word_le_nat_alt unat_of_nat TPG_IMIX_MAX_TOTAL_APP_WEIGHT_def)
qed

subsection \<open>Sessions\<close>

text \<open>
  What the protocols and the timers do to the sessions of a core, by their number, and what they get back. \<open>imix_step\<close>
  calls IMIX. \<open>app_step\<close> is the specification: the applications of the group, called one after the other in the order of
  the weights, each with its own statistics. Its state is the position in the order, the application, storage and data of the
  sessions, the statistics of the applications and the world.
\<close>

datatype imix_event =
    ImixUp nat | ImixDown nat | ImixDeliver nat chain u64 | ImixSend nat u32 | ImixSent nat u32

datatype imix_out = OutStarted u16 | OutDown | OutDelivered u32 | OutChain chain | OutSent bool

type_synonym ('sto, 'd, 'st, 'w) imix_state = "(nat \<Rightarrow> ('sto, 'd) app_data) \<times> ('sto, 'st) imix_core \<times> 'w \<times> imix_out list"

fun imix_step ::
  "('sto, 'd, 'st, 'w) app_cbs \<Rightarrow> u32 \<Rightarrow> imix_event \<Rightarrow> ('sto, 'd, 'st, 'w) imix_state
     \<Rightarrow> ('sto, 'd, 'st, 'w) imix_state option" where
  "imix_step cbs imix_id (ImixUp s) (ads, c, w, out) =
     do {
       (ad, c, w) \<leftarrow> imix_conn_up cbs imix_id (ads s) c w;
       Some (ads(s := ad), c, w, out @ [OutStarted (ad_imix_index ad)])
     }"
| "imix_step cbs imix_id (ImixDown s) (ads, c, w, out) =
     do { (ad, c, w) \<leftarrow> imix_conn_down cbs imix_id (ads s) c w; Some (ads(s := ad), c, w, out @ [OutDown]) }"
| "imix_step cbs imix_id (ImixDeliver s m ts) (ads, c, w, out) =
     do {
       (n, ad, c, w) \<leftarrow> imix_deliver_data cbs imix_id (ads s) c w m ts;
       Some (ads(s := ad), c, w, out @ [OutDelivered n])
     }"
| "imix_step cbs imix_id (ImixSend s n) (ads, c, w, out) =
     do {
       (m, ad, c, w) \<leftarrow> imix_send_data cbs imix_id (ads s) c w n;
       Some (ads(s := ad), c, w, out @ [OutChain m])
     }"
| "imix_step cbs imix_id (ImixSent s n) (ads, c, w, out) =
     do {
       (b, ad, c, w) \<leftarrow> imix_data_sent cbs imix_id (ads s) c w n;
       Some (ads(s := ad), c, w, out @ [OutSent b])
     }"

fun imix_run ::
  "('sto, 'd, 'st, 'w) app_cbs \<Rightarrow> u32 \<Rightarrow> imix_event list \<Rightarrow> ('sto, 'd, 'st, 'w) imix_state
     \<Rightarrow> ('sto, 'd, 'st, 'w) imix_state option" where
  "imix_run cbs imix_id [] S = Some S"
| "imix_run cbs imix_id (e # es) S = do { S \<leftarrow> imix_step cbs imix_id e S; imix_run cbs imix_id es S }"

type_synonym ('sto, 'd, 'st, 'w) app_state =
  "nat \<times> (nat \<Rightarrow> nat \<times> 'sto \<times> 'd) \<times> (nat \<Rightarrow> 'st) \<times> 'w \<times> imix_out list"

fun app_step ::
  "('sto, 'd, 'st, 'w) app_cbs \<Rightarrow> imix_app list \<Rightarrow> (nat \<Rightarrow> 'sto) \<Rightarrow> imix_event \<Rightarrow> ('sto, 'd, 'st, 'w) app_state
     \<Rightarrow> ('sto, 'd, 'st, 'w) app_state option" where
  "app_step cbs apps sto (ImixUp s) (j, ses, sts, w, out) =
     (let i = unat (imix_order apps 0 ! j); app = ia_app (apps ! i); d = cb_init cbs app (sto i) (snd (snd (ses s)))
      in map_option (\<lambda>(d, st, w). ((j + 1) mod imix_weight apps, ses(s := (i, sto i, d)), sts(i := st), w,
             out @ [OutStarted (imix_order apps 0 ! j)]))
           (cb_conn_up cbs (app_proto_of app) (sto i) d (sts i) w))"
| "app_step cbs apps sto (ImixDown s) (j, ses, sts, w, out) =
     (case ses s of (i, st0, d) \<Rightarrow>
        map_option (\<lambda>(d, st, w). (j, ses(s := (i, st0, d)), sts(i := st), w, out @ [OutDown]))
          (cb_conn_down cbs (app_proto_of (ia_app (apps ! i))) st0 d (sts i) w))"
| "app_step cbs apps sto (ImixDeliver s m ts) (j, ses, sts, w, out) =
     (case ses s of (i, st0, d) \<Rightarrow>
        map_option (\<lambda>(n, d, st, w). (j, ses(s := (i, st0, d)), sts(i := st), w, out @ [OutDelivered n]))
          (cb_deliver cbs (app_proto_of (ia_app (apps ! i))) st0 d (sts i) w m ts))"
| "app_step cbs apps sto (ImixSend s n) (j, ses, sts, w, out) =
     (case ses s of (i, st0, d) \<Rightarrow>
        map_option (\<lambda>(m, d, st, w). (j, ses(s := (i, st0, d)), sts(i := st), w, out @ [OutChain m]))
          (cb_send cbs (app_proto_of (ia_app (apps ! i))) st0 d (sts i) w n))"
| "app_step cbs apps sto (ImixSent s n) (j, ses, sts, w, out) =
     (case ses s of (i, st0, d) \<Rightarrow>
        map_option (\<lambda>(b, d, st, w). (j, ses(s := (i, st0, d)), sts(i := st), w, out @ [OutSent b]))
          (cb_data_sent cbs (app_proto_of (ia_app (apps ! i))) st0 d (sts i) w n))"

fun app_run ::
  "('sto, 'd, 'st, 'w) app_cbs \<Rightarrow> imix_app list \<Rightarrow> (nat \<Rightarrow> 'sto) \<Rightarrow> imix_event list \<Rightarrow> ('sto, 'd, 'st, 'w) app_state
     \<Rightarrow> ('sto, 'd, 'st, 'w) app_state option" where
  "app_run cbs apps sto [] S = Some S"
| "app_run cbs apps sto (e # es) S = do { S \<leftarrow> app_step cbs apps sto e S; app_run cbs apps sto es S }"

definition imix_ses :: "('sto, 'd) app_data \<Rightarrow> nat \<times> 'sto \<times> 'd" where
  "imix_ses ad = (unat (ad_imix_index ad), ad_storage ad, ad_app ad)"

definition imix_abs :: "u32 \<Rightarrow> ('sto, 'd, 'st, 'w) imix_state \<Rightarrow> ('sto, 'd, 'st, 'w) app_state" where
  "imix_abs imix_id = (\<lambda>(ads, c, w, out).
     (unat (iat_last (imix_app_tables c imix_id)), imix_ses \<circ> ads, ias_apps (imix_local_stats c imix_id), w, out))"

text \<open>A core on which the test case runs, and sessions of it; a block that was never connected has the index 0.\<close>

definition imix_inv :: "tpg_imix_group \<Rightarrow> (nat \<Rightarrow> 'sto) \<Rightarrow> u32 \<Rightarrow> ('sto, 'd, 'st, 'w) imix_state \<Rightarrow> bool" where
  "imix_inv g sto imix_id = (\<lambda>(ads, c, w, out).
     imix_started g imix_id c \<and> imix_storage_table c imix_id = sto \<and>
     unat (iat_last (imix_app_tables c imix_id)) < imix_weight (imix_apps g) \<and>
     (\<forall>i < length (imix_apps g). ias_app_protos (imix_local_stats c imix_id) i = app_proto_of (ia_app (imix_apps g ! i))) \<and>
     (\<forall>s. ucast (ad_imix_id (ads s)) = imix_id \<and> unat (ad_imix_index (ads s)) < length (imix_apps g)))"

lemma imix_order_less:
  "x \<in> set (imix_order as i) \<Longrightarrow> i + length as \<le> 65536 \<Longrightarrow> unat x < i + length as"
  by (induction as arbitrary: i) (fastforce simp: unat_of_nat_small)+

lemma imix_order_ge:
  "x \<in> set (imix_order as i) \<Longrightarrow> i + length as \<le> 65536 \<Longrightarrow> i \<le> unat x"
  by (induction as arbitrary: i) (fastforce simp: unat_of_nat_small)+

lemma imix_session_app_inv:
  assumes "imix_inv g sto imix_id (ads, c, w, out)"
  shows "imix_session_app imix_id (ads s) c =
    Some (imix_id, unat (ad_imix_index (ads s)), app_proto_of (ia_app (imix_apps g ! unat (ad_imix_index (ads s)))))"
  using assms by (simp add: imix_inv_def imix_started_def imix_session_app_def Let_def)

lemma imix_put_stats_simps [simp]:
  "imix_local_cfg (imix_put_stats k i st c) = imix_local_cfg c"
  "imix_storage_table (imix_put_stats k i st c) = imix_storage_table c"
  "imix_app_tables (imix_put_stats k i st c) = imix_app_tables c"
  "ias_app_protos (imix_local_stats (imix_put_stats k i st c) k) = ias_app_protos (imix_local_stats c k)"
  "ias_apps (imix_local_stats (imix_put_stats k i st c) k) = (ias_apps (imix_local_stats c k))(i := st)"
  by (simp_all add: imix_put_stats_def)

lemma imix_inv_put:
  assumes "imix_inv g sto imix_id (ads, c, w, out)"
  shows "imix_inv g sto imix_id (ads(s := (ads s)\<lparr>ad_app := d\<rparr>), imix_put_stats imix_id i st c, w', out')"
  using assms by (simp add: imix_inv_def imix_started_def)

lemma imix_abs_pair:
  "imix_abs imix_id (ads, c, w, out) =
   (unat (iat_last (imix_app_tables c imix_id)), imix_ses \<circ> ads, ias_apps (imix_local_stats c imix_id), w, out)"
  by (simp add: imix_abs_def)

text \<open>A new connection takes the next position of the order.\<close>

lemma imix_step_up:
  assumes g: "length (imix_apps g) \<le> 16" and I: "imix_inv g sto imix_id (ads, c, w, out)"
  shows "map_option (imix_abs imix_id) (imix_step cbs imix_id (ImixUp s) (ads, c, w, out)) =
      app_step cbs (imix_apps g) sto (ImixUp s) (imix_abs imix_id (ads, c, w, out)) \<and>
    (\<forall>S'. imix_step cbs imix_id (ImixUp s) (ads, c, w, out) = Some S' \<longrightarrow> imix_inv g sto imix_id S')"
proof -
  let ?tbl = "imix_app_tables c imix_id" and ?apps = "imix_apps g" and ?o = "imix_order (imix_apps g) 0"
  let ?j = "unat (iat_last ?tbl)"
  let ?x = "?o ! ?j" let ?i = "unat ?x"
  note i = I [unfolded imix_inv_def, simplified]
  have st: "imix_local_cfg c imix_id = g" "table_ok ?tbl" "table_entries ?tbl = ?o" "unat (iat_count ?tbl) = imix_weight ?apps"
    and lt: "?j < imix_weight ?apps" and pr: "\<And>i. i < length ?apps \<Longrightarrow> ias_app_protos (imix_local_stats c imix_id) i = app_proto_of (ia_app (?apps ! i))"
    and sto: "imix_storage_table c imix_id = sto" and ad: "ucast (ad_imix_id (ads s)) = imix_id"
    using i by (simp_all add: imix_started_def)
  have x: "iat_app_indices ?tbl ! ?j = ?x" using st(3,4) lt unfolding table_entries_def by (metis nth_take)
  have "?x \<in> set ?o" using lt by simp
  from imix_order_less [OF this] g have il: "?i < length ?apps" by simp
  have ne: "iat_count ?tbl \<noteq> 0" using st(4) lt by (metis less_nat_zero_code unat_0)
  have le100: "imix_weight ?apps \<le> 100" using st(2,4) by (simp add: table_ok_def)
  have last: "unat ((iat_last ?tbl + 1) mod iat_count ?tbl) = (?j + 1) mod imix_weight ?apps"
    using lt le100 st(4) by (simp add: unat_mod unat_word_ariths)
  let ?app = "ia_app (?apps ! ?i)"
  let ?d = "cb_init cbs ?app (sto ?i) (ad_app (ads s))"
  let ?r = "cb_conn_up cbs (app_proto_of ?app) (sto ?i) ?d (ias_apps (imix_local_stats c imix_id) ?i) w"
  let ?c = "c\<lparr>imix_app_tables := (imix_app_tables c)(imix_id := ?tbl\<lparr>iat_last := (iat_last ?tbl + 1) mod iat_count ?tbl\<rparr>)\<rparr>"
  have step: "imix_step cbs imix_id (ImixUp s) (ads, c, w, out) =
      map_option (\<lambda>(d, st, w). (ads(s := (ads s)\<lparr>ad_imix_index := ?x, ad_storage := sto ?i, ad_app := d\<rparr>),
          imix_put_stats imix_id ?i st ?c, w, out @ [OutStarted ?x])) ?r"
    using st(1) x ne il pr sto ad by (cases ?r) (auto simp: imix_conn_up_def Let_def)
  have abs: "app_step cbs ?apps sto (ImixUp s) (imix_abs imix_id (ads, c, w, out)) =
      map_option (\<lambda>(d, st, w). ((?j + 1) mod imix_weight ?apps,
          (imix_ses \<circ> ads)(s := (?i, sto ?i, d)),
          (ias_apps (imix_local_stats c imix_id))(?i := st), w, out @ [OutStarted ?x])) ?r"
    by (simp add: imix_abs_def imix_ses_def Let_def)
  have wpos: "0 < imix_weight ?apps" using lt by simp
  show ?thesis
  proof (cases ?r)
    case None
    then show ?thesis unfolding step abs by simp
  next
    case (Some r)
    obtain d st' w' where r: "r = (d, st', w')" by (cases r)
    have eq: "imix_abs imix_id (ads(s := (ads s)\<lparr>ad_imix_index := ?x, ad_storage := sto ?i, ad_app := d\<rparr>),
          imix_put_stats imix_id ?i st' ?c, w', out @ [OutStarted ?x]) =
        ((?j + 1) mod imix_weight ?apps,
          (imix_ses \<circ> ads)(s := (?i, sto ?i, d)),
          (ias_apps (imix_local_stats c imix_id))(?i := st'), w', out @ [OutStarted ?x])"
      unfolding imix_abs_def using last by (simp add: fun_upd_comp imix_ses_def)
    have "imix_inv g sto imix_id (ads(s := (ads s)\<lparr>ad_imix_index := ?x, ad_storage := sto ?i, ad_app := d\<rparr>),
          imix_put_stats imix_id ?i st' ?c, w', out @ [OutStarted ?x])"
      unfolding imix_inv_def using i st sto last il ad pr wpos
      by (simp add: imix_started_def table_ok_def table_entries_def)
    with eq show ?thesis unfolding step abs Some r by simp
  qed
qed

lemmas imix_steps = imix_conn_down_def imix_deliver_data_def imix_send_data_def imix_data_sent_def

lemma imix_step_refines:
  assumes g: "length (imix_apps g) \<le> 16" and I: "imix_inv g sto imix_id S"
  shows "map_option (imix_abs imix_id) (imix_step cbs imix_id e S) =
      app_step cbs (imix_apps g) sto e (imix_abs imix_id S) \<and>
    (\<forall>S'. imix_step cbs imix_id e S = Some S' \<longrightarrow> imix_inv g sto imix_id S')"
proof -
  obtain ads c w out where S: "S = (ads, c, w, out)" by (cases S) auto
  note I' = I [unfolded S]
  note sess = imix_session_app_inv [OF I']
  note put = imix_inv_put [OF I']
  show ?thesis (is ?goal)
  proof (cases e)
    case (ImixUp s)
    then show ?goal unfolding S using imix_step_up [OF g I'] by simp
  next
    case (ImixDown s)
    then show ?goal unfolding S
      by (cases "cb_conn_down cbs (app_proto_of (ia_app (imix_apps g ! unat (ad_imix_index (ads s))))) (ad_storage (ads s))
                  (ad_app (ads s)) (ias_apps (imix_local_stats c imix_id) (unat (ad_imix_index (ads s)))) w ")
        (auto simp: imix_steps sess put imix_abs_pair imix_ses_def fun_upd_comp)
  next
    case (ImixDeliver s m ts)
    then show ?goal unfolding S
      by (cases "cb_deliver cbs (app_proto_of (ia_app (imix_apps g ! unat (ad_imix_index (ads s))))) (ad_storage (ads s))
                  (ad_app (ads s)) (ias_apps (imix_local_stats c imix_id) (unat (ad_imix_index (ads s)))) w m ts")
        (auto simp: imix_steps sess put imix_abs_pair imix_ses_def fun_upd_comp)
  next
    case (ImixSend s n)
    then show ?goal unfolding S
      by (cases "cb_send cbs (app_proto_of (ia_app (imix_apps g ! unat (ad_imix_index (ads s))))) (ad_storage (ads s))
                  (ad_app (ads s)) (ias_apps (imix_local_stats c imix_id) (unat (ad_imix_index (ads s)))) w n")
        (auto simp: imix_steps sess put imix_abs_pair imix_ses_def fun_upd_comp)
  next
    case (ImixSent s n)
    then show ?goal unfolding S
      by (cases "cb_data_sent cbs (app_proto_of (ia_app (imix_apps g ! unat (ad_imix_index (ads s))))) (ad_storage (ads s))
                  (ad_app (ads s)) (ias_apps (imix_local_stats c imix_id) (unat (ad_imix_index (ads s)))) w n")
        (auto simp: imix_steps sess put imix_abs_pair imix_ses_def fun_upd_comp)
  qed
qed

lemma imix_run_refines:
  assumes "length (imix_apps g) \<le> 16" and "imix_inv g sto imix_id S"
  shows "map_option (imix_abs imix_id) (imix_run cbs imix_id es S) = app_run cbs (imix_apps g) sto es (imix_abs imix_id S)"
  using assms(2)
proof (induction es arbitrary: S)
  case (Cons e es)
  note r = imix_step_refines [OF assms(1) Cons.prems, of cbs e]
  show ?case
  proof (cases "imix_step cbs imix_id e S")
    case (Some S')
    with r have "app_step cbs (imix_apps g) sto e (imix_abs imix_id S) = Some (imix_abs imix_id S')" "imix_inv g sto imix_id S'"
      by simp_all
    with Cons.IH [OF this(2)] Some show ?thesis by simp
  qed (use r in simp)
qed simp

text \<open>The state a test case is started in: its sessions know the group and were not connected.\<close>

lemma imix_inv_start:
  assumes valid: "test_mgmt_validate_imix_group (tig_group (G imix_id))"
    and start: "imix_tc_start cbs G imix_id c0 w0 = Some (c1, w)" and c: "snd (imix_stats_init cbs imix_id c1) = c"
    and ads: "\<forall>s. ucast (ad_imix_id (ads s)) = imix_id \<and> ad_imix_index (ads s) = 0"
  shows "imix_inv (tig_group (G imix_id)) (imix_storage_table c imix_id) imix_id (ads, c, w, out) \<and>
         iat_last (imix_app_tables c imix_id) = 0"
proof -
  note s = imix_tc_start_started [OF start]
  have cc: "imix_local_cfg c = imix_local_cfg c1" "imix_app_tables c = imix_app_tables c1"
    using c by (auto simp: imix_stats_init_def)
  have pr: "\<forall>i < length (imix_apps (tig_group (G imix_id))).
      ias_app_protos (imix_local_stats c imix_id) i = app_proto_of (ia_app (imix_apps (tig_group (G imix_id)) ! i))"
    using c s by (auto simp: imix_stats_init_def imix_stats_reset_def imix_started_def)
  show ?thesis
    using s ads pr validated_group(1,3) [OF valid] by (auto simp: imix_inv_def imix_started_def cc)
qed

text \<open>
  C35: Whatever happens on the sessions of a test case that uses a group of other applications, IMIX does what the
  applications of the group do when they are called one after the other in the order of the weights, each with its own
  statistics: no assertion of its own fails, it changes nothing else, and it fails only where an application fails. The
  group must not hold IMIX again: the check of a group accepts that, but the inner IMIX would take over the identifier, the
  index and the storage that the outer one keeps in the data of the session.
\<close>

theorem imix_refines_applications:
  assumes valid: "test_mgmt_validate_imix_group (tig_group (G imix_id))"
    and others: "imix_free (map ia_app (imix_apps (tig_group (G imix_id))))"
    and start: "imix_tc_start cbs G imix_id c0 w0 = Some (c1, w)" and c: "snd (imix_stats_init cbs imix_id c1) = c"
    and ads: "\<forall>s. ucast (ad_imix_id (ads s)) = imix_id \<and> ad_imix_index (ads s) = 0"
  shows "map_option (imix_abs imix_id) (imix_run cbs imix_id es (ads, c, w, out)) =
         app_run cbs (imix_apps (tig_group (G imix_id))) (imix_storage_table c imix_id) es
           (0, imix_ses \<circ> ads, ias_apps (imix_local_stats c imix_id), w, out)"
proof -
  from imix_inv_start [OF valid start c ads, of out] have
    I: "imix_inv (tig_group (G imix_id)) (imix_storage_table c imix_id) imix_id (ads, c, w, out)"
    and l: "iat_last (imix_app_tables c imix_id) = 0" by simp_all
  from imix_run_refines [OF validated_group(2) [OF valid] I, of cbs es] show ?thesis
    by (simp add: imix_abs_pair l)
qed

subsection \<open>The turns\<close>

definition started :: "imix_out list \<Rightarrow> u16 list" where
  "started out = List.map_filter (\<lambda>x. case x of OutStarted i \<Rightarrow> Some i | _ \<Rightarrow> None) out"

lemma started_simps [simp]:
  "started [] = []" "started (xs @ ys) = started xs @ started ys" "started [OutStarted i] = [i]"
  "started [OutDown] = []" "started [OutDelivered n] = []" "started [OutChain m] = []" "started [OutSent b] = []"
  by (simp_all add: started_def List.map_filter_def)

lemma app_step_started:
  assumes "app_step cbs apps sto e (j, ses, sts, w, out) = Some (j', ses', sts', w', out')" and "0 < imix_weight apps"
  shows "(j' = j \<and> started out' = started out) \<or>
         (j' = (j + 1) mod imix_weight apps \<and> started out' = started out @ [imix_order apps 0 ! j])"
  using assms by (cases e) (auto simp: Let_def split: prod.splits)

lemma app_run_started:
  assumes "app_run cbs apps sto es (j, ses, sts, w, out) = Some (j', ses', sts', w', out')" and "j < imix_weight apps"
  shows "\<exists>m. started out' = started out @ map (\<lambda>k. imix_order apps 0 ! ((j + k) mod imix_weight apps)) [0..<m]"
  using assms
proof (induction es arbitrary: j ses sts w out)
  case Nil
  then show ?case by (intro exI [of _ 0]) simp
next
  case (Cons e es)
  let ?W = "imix_weight apps"
  obtain j1 ses1 sts1 w1 out1 where s: "app_step cbs apps sto e (j, ses, sts, w, out) = Some (j1, ses1, sts1, w1, out1)"
    and r: "app_run cbs apps sto es (j1, ses1, sts1, w1, out1) = Some (j', ses', sts', w', out')"
    using Cons.prems(1) by (auto elim!: bind_SomeE)
  have pos: "0 < ?W" using Cons.prems(2) by simp
  from app_step_started [OF s pos] show ?case
  proof
    assume "j1 = j \<and> started out1 = started out"
    with Cons.IH [OF r] Cons.prems(2) show ?thesis by auto
  next
    assume a: "j1 = (j + 1) mod ?W \<and> started out1 = started out @ [imix_order apps 0 ! j]"
    with pos have "j1 < ?W" by simp
    from Cons.IH [OF r this] obtain m where
      m: "started out' = started out1 @ map (\<lambda>k. imix_order apps 0 ! ((j1 + k) mod ?W)) [0..<m]" by blast
    have "map (\<lambda>k. imix_order apps 0 ! ((j + k) mod ?W)) [0..<Suc m] =
        imix_order apps 0 ! j # map (\<lambda>k. imix_order apps 0 ! ((j1 + k) mod ?W)) [0..<m]"
      using a Cons.prems(2) by (simp add: upt_conv_Cons map_Suc_upt [symmetric] mod_add_left_eq del: upt_Suc)
    with a m show ?thesis by (intro exI [of _ "Suc m"]) simp
  qed
qed

lemma count_imix_order:
  "i + length as \<le> 65536 \<Longrightarrow> k < length as \<Longrightarrow> count_list (imix_order as i) (of_nat (i + k)) = unat (ia_weight (as ! k))"
proof (induction as arbitrary: i k)
  case (Cons a as)
  have inj: "(of_nat (i + k) :: u16) = of_nat i \<longleftrightarrow> k = 0"
    using Cons.prems unat_of_nat_small [of "i + k", where 'a = 16] unat_of_nat_small [of i, where 'a = 16]
    by (auto simp: word_unat_eq_iff simp del: of_nat_add)
  have rep: "count_list (replicate n (of_nat i :: u16)) (of_nat (i + k)) = (if k = 0 then n else 0)" for n
    using inj by (induction n) auto
  show ?case
  proof (cases k)
    case 0
    have "of_nat i \<notin> set (imix_order as (Suc i))"
      using imix_order_ge [of "of_nat i" as "Suc i"] Cons.prems by (auto simp: unat_of_nat_small)
    with 0 rep show ?thesis by simp
  next
    case (Suc k')
    with Cons.IH [of "Suc i" k'] Cons.prems rep show ?thesis by simp
  qed
qed simp

lemma count_list_rotate: "count_list (rotate n xs) x = count_list xs x"
proof (induction n)
  case (Suc n)
  have "count_list (rotate1 ys) x = count_list ys x" for ys by (cases ys) simp_all
  with Suc show ?case by simp
qed simp

lemma rotated_window:
  assumes n: "0 < length xs" and le: "s + length xs \<le> m"
  shows "take (length xs) (drop s (map (\<lambda>k. xs ! (k mod length xs)) [0..<m])) = rotate s xs"
proof (rule nth_equalityI)
  show "length (take (length xs) (drop s (map (\<lambda>k. xs ! (k mod length xs)) [0..<m]))) = length (rotate s xs)"
    using le by simp
next
  fix i assume "i < length (take (length xs) (drop s (map (\<lambda>k. xs ! (k mod length xs)) [0..<m])))"
  then have "i < length xs" by simp
  with le show "take (length xs) (drop s (map (\<lambda>k. xs ! (k mod length xs)) [0..<m])) ! i = rotate s xs ! i"
    by (simp add: nth_rotate)
qed

text \<open>
  C36: Among any consecutive connections of a group, as many as the weights of its applications add up to, every
  application is started exactly as often as its weight says, whatever else happens on the sessions in between.
\<close>

theorem imix_weighted_turns:
  assumes valid: "test_mgmt_validate_imix_group (tig_group (G imix_id))"
    and start: "imix_tc_start cbs G imix_id c0 w0 = Some (c1, w)" and c: "snd (imix_stats_init cbs imix_id c1) = c"
    and ads: "\<forall>s. ucast (ad_imix_id (ads s)) = imix_id \<and> ad_imix_index (ads s) = 0"
    and run: "imix_run cbs imix_id es (ads, c, w, []) = Some (ads', c', w', out)"
    and app: "i < length (imix_apps (tig_group (G imix_id)))"
    and window: "s + imix_weight (imix_apps (tig_group (G imix_id))) \<le> length (started out)"
  shows "count_list (take (imix_weight (imix_apps (tig_group (G imix_id)))) (drop s (started out))) (of_nat i) =
         unat (ia_weight (imix_apps (tig_group (G imix_id)) ! i))"
proof -
  let ?apps = "imix_apps (tig_group (G imix_id))"
  let ?o = "imix_order ?apps 0"
  note v = validated_group [OF valid]
  from imix_inv_start [OF valid start c ads, of "[]"] have
    I: "imix_inv (tig_group (G imix_id)) (imix_storage_table c imix_id) imix_id (ads, c, w, [])"
    and l: "iat_last (imix_app_tables c imix_id) = 0" by simp_all
  from imix_run_refines [OF v(2) I, of cbs es, symmetric] run obtain j ses sts where
    "app_run cbs ?apps (imix_storage_table c imix_id) es
       (0, imix_ses \<circ> ads, ias_apps (imix_local_stats c imix_id), w, []) = Some (j, ses, sts, w', out)"
    by (auto simp: imix_abs_pair l)
  from app_run_started [OF this v(3)] obtain m where
    m: "started out = map (\<lambda>k. ?o ! (k mod length ?o)) [0..<m]" by auto
  have "length (started out) = m" unfolding m by simp
  with window have "s + length ?o \<le> m" by simp
  from rotated_window [OF _ this] v(3) have
    "take (imix_weight ?apps) (drop s (started out)) = rotate s ?o" unfolding m by simp
  moreover have "count_list (rotate s ?o) x = count_list ?o x" for x
    by (rule count_list_rotate)
  ultimately show ?thesis using count_imix_order [of 0 ?apps i] v(2) app by simp
qed

lemma imix_start_loop_None:
  assumes "\<forall>app sto w. f app sto w \<noteq> None" and "table_ok tbl"
  shows "imix_start_loop f apps i tbl sto w = None \<longleftrightarrow> 100 < unat (iat_count tbl) + imix_weight apps"
  using assms(2)
proof (induction apps arbitrary: i tbl sto w)
  case Nil
  then show ?case by (simp add: table_ok_def)
next
  case (Cons a as)
  obtain s w1 where cb: "f (ia_app a) (sto i) w = Some (s, w1)"
    using assms(1) by (metis option.exhaust prod.exhaust)
  note fill = imix_fill [OF Cons.prems, of "unat (ia_weight a)" i]
  show ?case
  proof (cases "unat (iat_count tbl) + unat (ia_weight a) \<le> 100")
    case True
    with fill obtain t where "imix_fill (unat (ia_weight a)) i tbl = Some t" "table_ok t"
      "unat (iat_count t) = unat (iat_count tbl) + unat (ia_weight a)" by auto
    with Cons.IH cb show ?thesis by (simp add: add.assoc)
  next
    case False
    with fill show ?thesis by simp
  qed
qed

text \<open>
  The weights are added up in 32 bits when a group is configured. A group that is accepted builds its table when its test
  case starts exactly if the true sum is within the limit too; otherwise the start aborts the program.
\<close>

theorem imix_start_aborts_on_wrap:
  assumes valid: "test_mgmt_add_imix_group imix_id g G = (0, G')"
    and callbacks: "\<forall>app sto w. cb_tc_start cbs app sto w \<noteq> None"
  shows "imix_tc_start cbs G' imix_id c w = None \<longleftrightarrow> 100 < imix_weight (imix_apps g)"
proof -
  have g: "tig_group (G' imix_id) = g"
    using valid by (auto simp: test_mgmt_add_imix_group_def EEXIST_def split: if_splits)
  show ?thesis
    using imix_start_loop_None [OF callbacks table_zero(1), of "imix_apps g" 0 "imix_storage_table c imix_id" w]
    by (cases "imix_start_loop (cb_tc_start cbs) (imix_apps g) 0 imix_table_zero (imix_storage_table c imix_id) w")
      (auto simp: imix_tc_start_def Let_def g)
qed

subsection \<open>A concrete group\<close>

definition ex_empty_groups :: imix_groups where
  "ex_empty_groups = (\<lambda>k. \<lparr>tig_group = \<lparr>ig_imix_id = k, imix_apps = []\<rparr>, tig_configured = False, tig_referenced = False,
     tig_owner_eth_port = 0, tig_owner_tc_id = 0\<rparr>)"

definition ex_imix_group :: "u32 \<Rightarrow> u32 \<Rightarrow> tpg_imix_group" where
  "ex_imix_group a b = \<lparr>ig_imix_id = 0,
     imix_apps = [\<lparr>ia_weight = a, ia_app = AppRawClient raw_client_default_cfg\<rparr>,
                  \<lparr>ia_weight = b, ia_app = AppHttpClient http_client_default_cfg\<rparr>]\<rparr>"

text \<open>Applications that count their calls.\<close>

definition ex_cbs :: "(unit, nat, nat, unit) app_cbs" where
  "ex_cbs =
     \<lparr>cb_tc_start = (\<lambda>_ s w. Some (s, w)), cb_tc_stop = (\<lambda>_ s w. Some (s, w)), cb_init = (\<lambda>_ _ _. 0),
      cb_conn_up = (\<lambda>_ _ d st w. Some (d, st + 1, w)), cb_conn_down = (\<lambda>_ _ d st w. Some (d, st, w)),
      cb_deliver = (\<lambda>_ _ d st w m ts. Some (mb_pkt_len (hd m), d, st, w)),
      cb_send = (\<lambda>_ _ d st w n. Some ([], d + 1, st, w)),
      cb_data_sent = (\<lambda>_ _ d st w n. Some (True, d, st + 1, w)),
      cb_stats_init = (\<lambda>_ _. 0), cb_stats_copy = (\<lambda>_ _ s. s), cb_stats_add = (\<lambda>_ a b. a + b)\<rparr>"

definition ex_imix_core :: "(unit, nat) imix_core" where
  "ex_imix_core =
     \<lparr>imix_local_cfg = (\<lambda>_. \<lparr>ig_imix_id = 0, imix_apps = []\<rparr>), imix_storage_table = (\<lambda>_ _. ()),
      imix_app_tables = (\<lambda>_. imix_table_zero),
      imix_local_stats = (\<lambda>k. \<lparr>ias_imix_id = k, ias_app_protos_count = 0, ias_app_protos = (\<lambda>_. APP_PROTO__RAW_CLIENT),
                              ias_apps_count = 0, ias_apps = (\<lambda>_. 0)\<rparr>)\<rparr>"

definition ex_ads :: "nat \<Rightarrow> (unit, nat) app_data" where
  "ex_ads = (\<lambda>_. \<lparr>ad_imix_index = 0, ad_imix_id = 0, ad_storage = (), ad_app = 0\<rparr>)"

definition ex_groups :: imix_groups where
  "ex_groups = snd (test_mgmt_add_imix_group 0 (ex_imix_group 1 2) ex_empty_groups)"

definition ex_started :: "(unit, nat) imix_core" where
  "ex_started = fst (the (imix_tc_start ex_cbs ex_groups 0 ex_imix_core ()))"

lemma ex_imix:
  "test_mgmt_validate_imix_group (tig_group (ex_groups 0))"
  "imix_tc_start ex_cbs ex_groups 0 ex_imix_core () = Some (ex_started, ())"
  "\<forall>s. ucast (ad_imix_id (ex_ads s)) = (0 :: u32) \<and> ad_imix_index (ex_ads s) = 0"
proof -
  show "test_mgmt_validate_imix_group (tig_group (ex_groups 0))" by code_simp
  have "imix_tc_start ex_cbs ex_groups 0 ex_imix_core () \<noteq> None"
  proof -
    have "\<not> Option.is_none (imix_tc_start ex_cbs ex_groups 0 ex_imix_core ())" by code_simp
    then show ?thesis by (simp add: Option.is_none_def)
  qed
  then show "imix_tc_start ex_cbs ex_groups 0 ex_imix_core () = Some (ex_started, ())" by (auto simp: ex_started_def)
  show "\<forall>s. ucast (ad_imix_id (ex_ads s)) = (0 :: u32) \<and> ad_imix_index (ex_ads s) = 0" by (simp add: ex_ads_def)
qed

theorem imix_refines_applications_witness:
  "imix_tc_start ex_cbs ex_groups 0 ex_imix_core () = Some (ex_started, ()) \<and>
   map_option (imix_abs 0)
     (imix_run ex_cbs 0 [ImixUp 0, ImixSend 0 9, ImixUp 1] (ex_ads, snd (imix_stats_init ex_cbs 0 ex_started), (), [])) =
   app_run ex_cbs (imix_apps (tig_group (ex_groups 0)))
     (imix_storage_table (snd (imix_stats_init ex_cbs 0 ex_started)) 0) [ImixUp 0, ImixSend 0 9, ImixUp 1]
     (0, imix_ses \<circ> ex_ads, ias_apps (imix_local_stats (snd (imix_stats_init ex_cbs 0 ex_started)) 0), (), [])"
proof -
  have "tig_group (ex_groups 0) = ex_imix_group 1 2" by code_simp
  then have "imix_free (map ia_app (imix_apps (tig_group (ex_groups 0))))" by (simp add: ex_imix_group_def)
  from imix_refines_applications [OF ex_imix(1) this ex_imix(2) refl ex_imix(3)] ex_imix(2) show ?thesis by blast
qed

definition ex_run :: "(unit, nat, nat, unit) imix_state option" where
  "ex_run = imix_run ex_cbs 0 [ImixUp 0, ImixUp 1, ImixSend 0 9, ImixUp 2, ImixUp 3]
     (ex_ads, snd (imix_stats_init ex_cbs 0 ex_started), (), [])"

theorem imix_weighted_turns_witness:
  "map_option (started \<circ> snd \<circ> snd \<circ> snd) ex_run = Some [0, 1, 1, 0] \<and>
   count_list (take 3 (drop 1 (started (snd (snd (snd (the ex_run))))))) (of_nat 1) = 2"
proof
  show s: "map_option (started \<circ> snd \<circ> snd \<circ> snd) ex_run = Some [0, 1, 1, 0]" by code_simp
  then obtain a c w out where r: "ex_run = Some (a, c, w, out)" and out: "started out = [0, 1, 1, 0]" by auto
  have a: "imix_apps (tig_group (ex_groups 0)) = imix_apps (ex_imix_group 1 2)" by code_simp
  show "count_list (take 3 (drop 1 (started (snd (snd (snd (the ex_run))))))) (of_nat 1) = 2"
    using imix_weighted_turns [OF ex_imix(1,2) refl ex_imix(3) r [unfolded ex_run_def], of 1 1]
    by (simp add: r a out ex_imix_group_def)
qed

theorem imix_start_aborts_on_wrap_witness:
  "fst (test_mgmt_add_imix_group 0 (ex_imix_group 0x80000000 0x80000001) ex_empty_groups) = 0 \<and>
   imix_tc_start ex_cbs (snd (test_mgmt_add_imix_group 0 (ex_imix_group 0x80000000 0x80000001) ex_empty_groups)) 0
     ex_imix_core () = None"
proof
  let ?r = "test_mgmt_add_imix_group 0 (ex_imix_group 0x80000000 0x80000001) ex_empty_groups"
  show f: "fst ?r = 0" by code_simp
  then have r: "?r = (0, snd ?r)" by (metis prod.collapse)
  have "\<forall>app sto w. cb_tc_start ex_cbs app sto w \<noteq> None" by (simp add: ex_cbs_def)
  from imix_start_aborts_on_wrap [OF r this] show "imix_tc_start ex_cbs (snd ?r) 0 ex_imix_core () = None"
    by (simp add: ex_imix_group_def)
qed

end
