(* ===== verification/ImixGroups.thy ===== *)
theory ImixGroups
  imports ImixProps
begin

text \<open>
  Groups of groups: the calls of the configuration follow them, and neither the checks of a group nor those of a test case
  look for a group that holds itself or holds another one twice.
\<close>

definition group_apps :: "imix_groups \<Rightarrow> u32 \<Rightarrow> tpg_app list" where
  "group_apps G imix_id = map ia_app (imix_apps (tig_group (G imix_id)))"

text \<open>What an application that is not IMIX says of its configuration.\<close>

fun app_valid :: "bool option \<Rightarrow> tpg_app \<Rightarrow> bool" where
  "app_valid ip4 (AppRawClient c) = raw_client_validate_cfg ip4 c"
| "app_valid ip4 (AppRawServer c) = raw_server_validate_cfg ip4 c"
| "app_valid ip4 (AppHttpClient c) = http_client_validate_cfg c"
| "app_valid ip4 (AppHttpServer c) = http_server_validate_cfg c"
| "app_valid ip4 (AppImix k) = False"

lemma app_validate_cfgs_Nil [simp]: "app_validate_cfgs G ip4 port tc [] = Some True"
  by (subst app_validate_cfgs.simps) simp

lemma app_validate_cfgs_Cons:
  "(\<forall>k. a \<noteq> AppImix k) \<Longrightarrow> app_validate_cfgs G ip4 port tc (a # as) =
     (if app_valid ip4 a then app_validate_cfgs G ip4 port tc as else Some False)"
  by (subst app_validate_cfgs.simps, cases a) auto

lemma app_validate_cfgs_imix:
  "app_validate_cfgs G ip4 port tc (AppImix k # as) =
     do { ok \<leftarrow> imix_validate_cfg G ip4 port tc k; if \<not> ok then Some False else app_validate_cfgs G ip4 port tc as }"
  by (subst app_validate_cfgs.simps) (simp add: imix_validate_cfg_def)

lemma app_validate_cfgs_free:
  "imix_free xs \<Longrightarrow> app_validate_cfgs G ip4 port tc (xs @ ys) =
     (if \<forall>a \<in> set xs. app_valid ip4 a then app_validate_cfgs G ip4 port tc ys else Some False)"
  by (induction xs) (simp_all add: app_validate_cfgs_Cons)

text \<open>A group that may be used by the test case of a port.\<close>

definition imix_usable :: "imix_groups \<Rightarrow> u32 \<Rightarrow> u32 \<Rightarrow> u32 \<Rightarrow> bool" where
  "imix_usable G port tc k \<longleftrightarrow> k < TPG_IMIX_MAX_GROUPS \<and> tig_configured (G k) \<and>
     (tig_referenced (G k) \<longrightarrow> tig_owner_eth_port (G k) = port \<and> tig_owner_tc_id (G k) = tc)"

lemma imix_validate_usable:
  "imix_usable G port tc k \<Longrightarrow> imix_validate_cfg G ip4 port tc k = app_validate_cfgs G ip4 port tc (group_apps G k)"
  by (auto simp: imix_usable_def imix_validate_cfg_def group_apps_def not_le)

lemma self_group_never:
  assumes apps: "group_apps G k = pre @ AppImix k # post" and pre: "imix_free pre" "\<forall>a \<in> set pre. app_valid ip4 a"
    and use: "imix_usable G port tc k"
  shows "app_validate_cfgs G ip4 port tc (group_apps G k) = None"
proof (cases "app_validate_cfgs G ip4 port tc (group_apps G k)")
  case (Some r)
  let ?P = "\<lambda>G' ip' port' tc' apps (_ :: bool). G' = G \<and> ip' = ip4 \<and> port' = port \<and> tc' = tc \<longrightarrow>
    \<not> (\<exists>xs ys. pre = xs @ ys \<and> apps = ys @ AppImix k # post)"
  have "?P G ip4 port tc (group_apps G k) r"
  proof (rule app_validate_cfgs.raw_induct [where P = ?P, OF _ Some], intro impI notI, elim exE conjE)
    fix f G' ip' port' tc' l r xs ys
    assume IH: "\<And>G' ip' port' tc' l r. f G' ip' port' tc' l = Some r \<Longrightarrow> ?P G' ip' port' tc' l r"
      and body: "(case l of [] \<Rightarrow> Some True
        | app # rest \<Rightarrow>
            (case app of AppRawClient c \<Rightarrow> Some (raw_client_validate_cfg ip' c)
              | AppRawServer c \<Rightarrow> Some (raw_server_validate_cfg ip' c)
              | AppHttpClient c \<Rightarrow> Some (http_client_validate_cfg c)
              | AppHttpServer c \<Rightarrow> Some (http_server_validate_cfg c)
              | AppImix imix_id \<Rightarrow>
                  if TPG_IMIX_MAX_GROUPS \<le> imix_id then Some False
                  else if \<not> tig_configured (G' imix_id) then Some False
                  else if tig_referenced (G' imix_id) \<and> (tig_owner_eth_port (G' imix_id) \<noteq> port' \<or> tig_owner_tc_id (G' imix_id) \<noteq> tc')
                  then Some False
                  else f G' ip' port' tc' (map ia_app (imix_apps (tig_group (G' imix_id)))))
            \<bind> (\<lambda>ok. if \<not> ok then Some False else f G' ip' port' tc' rest)) = Some r"
      and eq: "G' = G" "ip' = ip4" "port' = port" "tc' = tc" and split: "pre = xs @ ys" and l: "l = ys @ AppImix k # post"
    show False
    proof (cases ys)
      case Nil
      have "\<exists>q. f G ip4 port tc (group_apps G k) = Some q"
        using body use unfolding l Nil eq group_apps_def
        by (auto simp: imix_usable_def not_le split: if_splits elim!: bind_SomeE)
      with IH eq apps show False by blast
    next
      case (Cons a ys')
      have a: "\<forall>j. a \<noteq> AppImix j" "app_valid ip4 a" using pre split Cons by auto
      have "\<exists>q. f G ip4 port tc (ys' @ AppImix k # post) = Some q"
        using body a unfolding l Cons eq by (cases a) auto
      with IH [of G ip4 port tc "ys' @ AppImix k # post"] split Cons show False
        by (metis append.assoc append_Cons append_Nil)
    qed
  qed
  with apps have False by blast
  then show ?thesis ..
qed

text \<open>
  C37: The checks of a test case never return for a group that holds itself, which the configuration of groups accepts: if the
  applications in front of it are valid, IMIX looks at the group again and again.
\<close>

theorem self_group_check_never_returns:
  assumes added: "test_mgmt_add_imix_group k g G = (0, G')" and fresh: "\<not> tig_referenced (G k)"
    and apps: "map ia_app (imix_apps g) = pre @ AppImix k # post"
    and pre: "imix_free pre" "\<forall>a \<in> set pre. app_valid ip4 a"
  shows "imix_validate_cfg G' ip4 port tc k = None"
proof -
  have G': "G' = G(k := (G k)\<lparr>tig_group := g, tig_configured := True\<rparr>)" and k: "k < TPG_IMIX_MAX_GROUPS"
    using added by (auto simp: test_mgmt_add_imix_group_def test_mgmt_validate_imix_id_def EEXIST_def split: if_splits)
  have use: "imix_usable G' port tc k" using k fresh by (simp add: G' imix_usable_def)
  have "group_apps G' k = pre @ AppImix k # post" using apps by (simp add: G' group_apps_def)
  from self_group_never [OF this pre use] show ?thesis by (simp add: imix_validate_usable [OF use])
qed

subsection \<open>A group used twice\<close>

lemma app_add_cfgs_simps [simp]:
  "app_add_cfgs port tc [] G = Some G"
  "(\<forall>k. a \<noteq> AppImix k) \<Longrightarrow> app_add_cfgs port tc (a # as) G = app_add_cfgs port tc as G"
  "app_add_cfgs port tc (AppImix k # as) G = do { G \<leftarrow> imix_add_cfg port tc k G; app_add_cfgs port tc as G }"
  by (subst app_add_cfgs.simps, simp)
    (subst app_add_cfgs.simps, cases a, simp_all add: imix_add_cfg_def app_add_cfgs.simps [of _ _ "AppImix _ # _"])

lemma app_delete_cfgs_simps [simp]:
  "app_delete_cfgs [] G = Some G"
  "(\<forall>k. a \<noteq> AppImix k) \<Longrightarrow> app_delete_cfgs (a # as) G = app_delete_cfgs as G"
  "app_delete_cfgs (AppImix k # as) G = do { G \<leftarrow> imix_delete_cfg k G; app_delete_cfgs as G }"
  by (subst app_delete_cfgs.simps, simp)
    (subst app_delete_cfgs.simps, cases a, simp_all add: imix_delete_cfg_def app_delete_cfgs.simps [of "AppImix _ # _"])

lemma free_add: "imix_free xs \<Longrightarrow> app_add_cfgs port tc (xs @ ys) G = app_add_cfgs port tc ys G"
  by (induction xs) simp_all

lemma free_delete: "imix_free xs \<Longrightarrow> app_delete_cfgs (xs @ ys) G = app_delete_cfgs ys G"
  by (induction xs) simp_all

definition imix_refer :: "u32 \<Rightarrow> u32 \<Rightarrow> u32 \<Rightarrow> imix_groups \<Rightarrow> imix_groups" where
  "imix_refer port tc k G =
     G(k := (G k)\<lparr>tig_referenced := True, tig_owner_eth_port := port, tig_owner_tc_id := tc\<rparr>)"

lemma flat_add: "imix_free (group_apps G k) \<Longrightarrow> imix_add_cfg port tc k G = Some (imix_refer port tc k G)"
  using free_add [of "group_apps G k" port tc "[]" G] by (simp add: imix_add_cfg_def imix_refer_def group_apps_def)

lemma flat_delete:
  "imix_free (group_apps G k) \<Longrightarrow> imix_delete_cfg k G =
     (if tig_referenced (G k) then Some (G(k := (G k)\<lparr>tig_referenced := False\<rparr>)) else None)"
  using free_delete [of "group_apps G k" "[]" G] by (simp add: imix_delete_cfg_def group_apps_def)

lemma group_apps_refer [simp]: "group_apps (imix_refer port tc k G) = group_apps G"
  by (auto simp: group_apps_def imix_refer_def fun_eq_iff)

text \<open>
  A group may hold another group twice: its test case is checked and added, but deleting the test case releases the inner
  group twice, and the second time an assertion aborts the program.
\<close>

theorem shared_inner_group_aborts_delete:
  assumes outer: "group_apps G k = xs @ AppImix i # ys @ AppImix i # zs" "imix_free xs" "imix_free ys" "imix_free zs"
    and inner: "imix_free (group_apps G i)" and ne: "i \<noteq> k"
    and valid: "\<forall>a \<in> set (xs @ ys @ zs @ group_apps G i). app_valid ip4 a"
    and use: "imix_usable G port tc k" "imix_usable G port tc i"
  shows "imix_validate_cfg G ip4 port tc k = Some True \<and>
         (\<exists>G'. imix_add_cfg port tc k G = Some G' \<and> imix_delete_cfg k G' = None)"
proof -
  have vi: "imix_validate_cfg G ip4 port tc i = Some True"
    using app_validate_cfgs_free [OF inner, of G ip4 port tc "[]"] valid by (simp add: imix_validate_usable [OF use(2)])
  have v: "imix_validate_cfg G ip4 port tc k = Some True"
    using app_validate_cfgs_free [OF outer(4), of G ip4 port tc "[]"] valid
    by (simp add: imix_validate_usable [OF use(1)] outer app_validate_cfgs_free app_validate_cfgs_imix vi)
  let ?G1 = "imix_refer port tc i G"
  let ?G2 = "imix_refer port tc i ?G1"
  let ?G' = "imix_refer port tc k ?G2"
  have "app_add_cfgs port tc (group_apps G k) G = Some ?G2"
    using free_add [OF outer(4), of port tc "[]"] inner by (simp add: outer free_add flat_add)
  then have add: "imix_add_cfg port tc k G = Some ?G'"
    by (simp add: imix_add_cfg_def group_apps_def [symmetric] imix_refer_def)
  let ?D = "?G'(i := (?G' i)\<lparr>tig_referenced := False\<rparr>)"
  have "imix_delete_cfg i ?G' = Some ?D" using inner ne by (simp add: flat_delete) (simp add: imix_refer_def)
  moreover have "imix_free (group_apps ?D i)" using inner ne by (simp add: group_apps_def imix_refer_def)
  then have "imix_delete_cfg i ?D = None" by (simp add: flat_delete)
  ultimately have "app_delete_cfgs (group_apps ?G' k) ?G' = None"
    by (simp add: outer free_delete)
  then have "imix_delete_cfg k ?G' = None" by (simp add: imix_delete_cfg_def flip: group_apps_def)
  with v add show ?thesis by blast
qed

subsection \<open>Concrete groups\<close>

definition ex_two_groups :: imix_groups where
  "ex_two_groups = (\<lambda>k. \<lparr>tig_group = \<lparr>ig_imix_id = k, imix_apps =
      (if k = 0 then [\<lparr>ia_weight = 1, ia_app = AppImix 1\<rparr>, \<lparr>ia_weight = 2, ia_app = AppImix 1\<rparr>]
       else [\<lparr>ia_weight = 1, ia_app = AppRawClient raw_client_default_cfg\<rparr>])\<rparr>,
     tig_configured = True, tig_referenced = False, tig_owner_eth_port = 0, tig_owner_tc_id = 0\<rparr>)"

theorem self_group_check_never_returns_witness:
  "test_mgmt_add_imix_group 0 \<lparr>ig_imix_id = 0, imix_apps = [\<lparr>ia_weight = 1, ia_app = AppImix 0\<rparr>]\<rparr>
     (ex_empty_groups) = (0, ex_empty_groups(0 := (ex_empty_groups 0)\<lparr>tig_group :=
        \<lparr>ig_imix_id = 0, imix_apps = [\<lparr>ia_weight = 1, ia_app = AppImix 0\<rparr>]\<rparr>, tig_configured := True\<rparr>)) \<and>
   imix_validate_cfg (ex_empty_groups(0 := (ex_empty_groups 0)\<lparr>tig_group :=
        \<lparr>ig_imix_id = 0, imix_apps = [\<lparr>ia_weight = 1, ia_app = AppImix 0\<rparr>]\<rparr>, tig_configured := True\<rparr>)) None 0 0 0 = None"
proof -
  let ?g = "\<lparr>ig_imix_id = 0, imix_apps = [\<lparr>ia_weight = 1, ia_app = AppImix 0\<rparr>]\<rparr>"
  have a: "test_mgmt_add_imix_group 0 ?g ex_empty_groups =
      (0, ex_empty_groups(0 := (ex_empty_groups 0)\<lparr>tig_group := ?g, tig_configured := True\<rparr>))"
    by (simp add: test_mgmt_add_imix_group_def test_mgmt_validate_imix_id_def test_mgmt_validate_imix_group_def
      TPG_IMIX_MAX_GROUPS_def TPG_IMIX_MAX_APPS_def TPG_IMIX_MAX_TOTAL_APP_WEIGHT_def ex_empty_groups_def)
  moreover have "\<not> tig_referenced (ex_empty_groups 0)" by (simp add: ex_empty_groups_def)
  ultimately show ?thesis
    using self_group_check_never_returns [OF a, of "[]" "[]" None 0 0] by simp
qed

theorem shared_inner_group_aborts_delete_witness:
  "imix_validate_cfg ex_two_groups None 0 0 0 = Some True \<and>
   (\<exists>G'. imix_add_cfg 0 0 0 ex_two_groups = Some G' \<and> imix_delete_cfg 0 G' = None)"
proof -
  have v: "raw_client_validate_cfg None raw_client_default_cfg" by code_simp
  have a: "group_apps ex_two_groups 0 = [AppImix 1, AppImix 1]" "group_apps ex_two_groups 1 = [AppRawClient raw_client_default_cfg]"
    by (simp_all add: group_apps_def ex_two_groups_def)
  show ?thesis
    using shared_inner_group_aborts_delete [of ex_two_groups 0 "[]" 1 "[]" "[]" None 0 0] v
    by (simp add: a imix_usable_def TPG_IMIX_MAX_GROUPS_def) (simp add: ex_two_groups_def)
qed

end
