(* ===== verification/MsgQ.thy ===== *)
theory MsgQ
  imports MgmtEnv
begin

text \<open>
  The queues of messages between the cores: \<^verbatim>\<open>src/tpg_msg.c\<close>, \<^verbatim>\<open>inc/tpg_msg.h\<close>. A core has a queue that every core
  can write to and one of its own. A message is memory of the sender; its flags say who frees it.

  Several cores run at the same time, and a sender may spin on memory that another core writes. So the calls are cut where
  other cores can be seen: a core has a stack of the calls that are not finished, and a step lets one core go on. The
  handlers are called with a frame on the stack and come back with an event that has their result; what they send is
  sent in between. The rings of DPDK are queues of a capacity. \<^term>\<open>None\<close> is an assertion that fails or an access to
  memory that was freed.
\<close>

subsection \<open>Messages\<close>

datatype msg_states = MSG_STATE_INIT | MSG_STATE_QUEUED | MSG_STATE_DEQUEUED

record msg =
  msg_id :: u16
  msg_flags :: u8
  msg_dest_lcore :: u8
  msg_state :: msg_states

definition MSG_MODULE_MAX :: u16 where "MSG_MODULE_MAX = 7"
definition MSG_PER_MODULE_MSGID_BITS :: nat where "MSG_PER_MODULE_MSGID_BITS = 8"
definition MSG_PER_MODULE_MAX_MSGIDS :: u16 where
  "MSG_PER_MODULE_MAX_MSGIDS = push_bit MSG_PER_MODULE_MSGID_BITS 1"

definition MSGID2MODULE :: "u16 \<Rightarrow> u16" where "MSGID2MODULE msgid = drop_bit MSG_PER_MODULE_MSGID_BITS msgid"
definition MSGID2ID :: "u16 \<Rightarrow> u16" where "MSGID2ID msgid = msgid AND (MSG_PER_MODULE_MAX_MSGIDS - 1)"

definition MSG_FLAG_TO_FREE :: u8 where "MSG_FLAG_TO_FREE = 1"
definition MSG_FLAG_LOCAL :: u8 where "MSG_FLAG_LOCAL = 2"
definition MSG_SND_FLAG_NOBLOCK :: u32 where "MSG_SND_FLAG_NOBLOCK = 1"
definition MSG_SND_FLAG_NOWAIT :: u32 where "MSG_SND_FLAG_NOWAIT = 2"
definition ENOBUFS :: int where "ENOBUFS = 105"
definition EADDRNOTAVAIL :: int where "EADDRNOTAVAIL = 99"

definition MSG_FLAG_GET_TO_FREE :: "msg \<Rightarrow> bool" where
  "MSG_FLAG_GET_TO_FREE m \<longleftrightarrow> msg_flags m AND MSG_FLAG_TO_FREE \<noteq> 0"

definition MSG_FLAG_GET_LOCAL :: "msg \<Rightarrow> bool" where
  "MSG_FLAG_GET_LOCAL m \<longleftrightarrow> msg_flags m AND MSG_FLAG_LOCAL \<noteq> 0"

definition MSG_FLAG_RESET_TO_FREE :: "msg \<Rightarrow> msg" where
  "MSG_FLAG_RESET_TO_FREE m = m\<lparr>msg_flags := msg_flags m AND NOT MSG_FLAG_TO_FREE\<rparr>"

subsection \<open>The cores\<close>

datatype mq = QRemote nat | QLocal nat

text \<open>
  A call that is not finished: \<open>msg_process\<close> in the handler of a message; \<open>msg_do_send\<close> before the enqueue, with the
  blocking, the waiting, whether the sender frees, and, if \<open>msg_process\<close> posts the message again, whether that freed;
  \<open>msg_do_send\<close> waiting for the receiver; \<open>msg_poll\<close> before the local queue.
\<close>

datatype mq_frame =
    FHandler nat bool
  | FEnqueue nat mq bool bool bool "bool option"
  | FAwait nat bool
  | FLocal

record msg_stats =
  ms_rcvd :: u64
  ms_snd :: u64
  ms_poll :: u64
  ms_err :: u64
  ms_proc_err :: u64
  ms_alloc :: u64
  ms_alloc_err :: u64
  ms_free :: u64

record mq_state =
  mq_heap :: "nat \<Rightarrow> msg option"
  mq_queues :: "mq \<Rightarrow> nat list option"
  mq_stack :: "nat \<Rightarrow> mq_frame list"
  mq_handlers :: "u16 \<Rightarrow> u16 \<Rightarrow> bool"
  mq_stats :: "nat \<Rightarrow> msg_stats"

text \<open>The number of lcores DPDK knows, the index of an lcore, and what a ring can hold.\<close>

record mq_prm =
  mp_max_lcore :: u32
  mp_lcore_index :: "u8 \<Rightarrow> nat option"
  mp_capacity :: nat

definition upd_msg_stats :: "nat \<Rightarrow> (msg_stats \<Rightarrow> msg_stats) \<Rightarrow> mq_state \<Rightarrow> mq_state" where
  "upd_msg_stats core f S = S\<lparr>mq_stats := (mq_stats S)(core := f (mq_stats S core))\<rparr>"

definition mq_set :: "nat \<Rightarrow> msg option \<Rightarrow> mq_state \<Rightarrow> mq_state" where
  "mq_set p m S = S\<lparr>mq_heap := (mq_heap S)(p := m)\<rparr>"

definition mq_calls :: "nat \<Rightarrow> mq_frame list \<Rightarrow> mq_state \<Rightarrow> mq_state" where
  "mq_calls core fs S = S\<lparr>mq_stack := (mq_stack S)(core := fs)\<rparr>"

definition mq_put :: "mq \<Rightarrow> nat list \<Rightarrow> mq_state \<Rightarrow> mq_state" where
  "mq_put q ps S = S\<lparr>mq_queues := (mq_queues S)(q := Some ps)\<rparr>"

subsection \<open>Handlers, allocation and initialisation\<close>

definition msg_register_handler :: "u16 \<Rightarrow> mq_state \<Rightarrow> int \<times> mq_state" where
  "msg_register_handler msgid S =
     (let module = MSGID2MODULE msgid; i = MSGID2ID msgid
      in if module \<ge> MSG_MODULE_MAX then (- EINVAL, S)
         else if i \<ge> MSG_PER_MODULE_MAX_MSGIDS then (- EINVAL, S)
         else if mq_handlers S module i then (- EEXIST, S)
         else (0, S\<lparr>mq_handlers := (mq_handlers S)(module := (mq_handlers S module)(i := True))\<rparr>))"

definition msg_init :: "nat \<Rightarrow> u16 \<Rightarrow> u16 \<Rightarrow> u8 \<Rightarrow> mq_state \<Rightarrow> mq_state" where
  "msg_init p msgid dest_lcore flags S =
     mq_set p (Some \<lparr>msg_id = msgid, msg_flags = flags, msg_dest_lcore = ucast dest_lcore, msg_state = MSG_STATE_INIT\<rparr>) S"

text \<open>\<open>p\<close> is the address that \<^verbatim>\<open>rte_malloc\<close> returns, if it returns one.\<close>

definition msg_alloc :: "nat \<Rightarrow> nat option \<Rightarrow> u16 \<Rightarrow> u16 \<Rightarrow> mq_state \<Rightarrow> mq_state" where
  "msg_alloc core p msgid dest_lcore S =
     (case p of
        None \<Rightarrow> upd_msg_stats core (\<lambda>s. s\<lparr>ms_alloc_err := ms_alloc_err s + 1\<rparr>) S
      | Some p \<Rightarrow> upd_msg_stats core (\<lambda>s. s\<lparr>ms_alloc := ms_alloc s + 1\<rparr>)
                    (msg_init p msgid dest_lcore MSG_FLAG_TO_FREE S))"

definition msg_free :: "nat \<Rightarrow> nat \<Rightarrow> mq_state \<Rightarrow> mq_state" where
  "msg_free core p S = mq_set p None (upd_msg_stats core (\<lambda>s. s\<lparr>ms_free := ms_free s + 1\<rparr>) S)"

text \<open>The queues of the cores that process packets and of the manager; \<open>idxs\<close> are the indices of all cores.\<close>

definition TPG_CORE_IDX_CLI :: nat where "TPG_CORE_IDX_CLI = 0"

definition msg_sys_init :: "nat list \<Rightarrow> mq_state \<Rightarrow> mq_state" where
  "msg_sys_init idxs S =
     fold (\<lambda>i S. if i = TPG_CORE_IDX_CLI then S else mq_put (QLocal i) [] (mq_put (QRemote i) [] S)) idxs S"

subsection \<open>Sending\<close>

text \<open>Up to the enqueue.\<close>

definition msg_do_send :: "nat \<Rightarrow> nat \<Rightarrow> mq \<Rightarrow> u32 \<Rightarrow> bool option \<Rightarrow> mq_state \<Rightarrow> mq_state option" where
  "msg_do_send core p q snd_flags repost S =
     do {
       m \<leftarrow> mq_heap S p;
       let noblock = (snd_flags AND MSG_SND_FLAG_NOBLOCK \<noteq> 0);
       let nowait = (snd_flags AND MSG_SND_FLAG_NOWAIT \<noteq> 0);
       let to_free = MSG_FLAG_GET_TO_FREE m;
       let m = (if \<not> nowait \<and> to_free then MSG_FLAG_RESET_TO_FREE m else m);
       let S = upd_msg_stats core (\<lambda>s. s\<lparr>ms_snd := ms_snd s + 1\<rparr>) (mq_set p (Some (m\<lparr>msg_state := MSG_STATE_QUEUED\<rparr>)) S);
       Some (mq_calls core (FEnqueue p q noblock nowait to_free repost # mq_stack S core) S)
     }"

text \<open>A call of these fails with \<open>Inl\<close>, or is on the stack.\<close>

definition msg_send_local ::
  "mq_prm \<Rightarrow> nat \<Rightarrow> nat \<Rightarrow> u32 \<Rightarrow> bool option \<Rightarrow> mq_state \<Rightarrow> (int + mq_state) option" where
  "msg_send_local P core p snd_flags repost S =
     do {
       m \<leftarrow> mq_heap S p;
       if ucast (msg_dest_lcore m) > mp_max_lcore P then Some (Inl (- EINVAL))
       else case mp_lcore_index P (msg_dest_lcore m) of
           None \<Rightarrow> Some (Inl (- EINVAL))
         | Some core_idx \<Rightarrow> map_option Inr (msg_do_send core p (QLocal core_idx) snd_flags repost S)
     }"

definition msg_send_remote ::
  "mq_prm \<Rightarrow> nat \<Rightarrow> nat \<Rightarrow> u32 \<Rightarrow> mq_state \<Rightarrow> (int + mq_state) option" where
  "msg_send_remote P core p snd_flags S =
     do {
       m \<leftarrow> mq_heap S p;
       if ucast (msg_dest_lcore m) > mp_max_lcore P then Some (Inl (- EINVAL))
       else case mp_lcore_index P (msg_dest_lcore m) of
           None \<Rightarrow> Some (Inl (- EINVAL))
         | Some core_idx \<Rightarrow>
             if mq_queues S (QRemote core_idx) = None then Some (Inl (- EADDRNOTAVAIL))
             else map_option Inr (msg_do_send core p (QRemote core_idx) snd_flags None S)
     }"

definition msg_send :: "mq_prm \<Rightarrow> nat \<Rightarrow> nat \<Rightarrow> u32 \<Rightarrow> mq_state \<Rightarrow> (int + mq_state) option" where
  "msg_send P core p snd_flags S =
     do {
       m \<leftarrow> mq_heap S p;
       if MSG_FLAG_GET_LOCAL m then msg_send_local P core p snd_flags None S
       else msg_send_remote P core p snd_flags S
     }"

text \<open>The end of \<open>msg_poll_queue\<close> and of \<open>msg_poll\<close> after the first queue, with the result of \<open>msg_process\<close>.\<close>

definition msg_polled :: "nat \<Rightarrow> int \<Rightarrow> mq_state \<Rightarrow> mq_state" where
  "msg_polled core error S =
     (if error = 0 then S
      else
        let S = upd_msg_stats core (\<lambda>s. s\<lparr>ms_proc_err := ms_proc_err s + 1\<rparr>) S
        in case mq_stack S core of FLocal # fs \<Rightarrow> mq_calls core fs S | _ \<Rightarrow> S)"

text \<open>The end of \<open>msg_process\<close>.\<close>

definition msg_process_done :: "nat \<Rightarrow> nat \<Rightarrow> bool \<Rightarrow> int \<Rightarrow> mq_state \<Rightarrow> mq_state option" where
  "msg_process_done core p to_free error S =
     do {
       m \<leftarrow> mq_heap S p;
       Some (msg_polled core error
               (if \<not> to_free then mq_set p (Some (m\<lparr>msg_state := MSG_STATE_DEQUEUED\<rparr>)) S else msg_free core p S))
     }"

text \<open>One attempt to enqueue. A ring that is full is tried again, unless the sender does not want to block.\<close>

definition msg_enqueue :: "mq_prm \<Rightarrow> nat \<Rightarrow> mq_state \<Rightarrow> mq_state option" where
  "msg_enqueue P core S =
     (case mq_stack S core of
        FEnqueue p q noblock nowait to_free repost # fs \<Rightarrow>
          do {
            ps \<leftarrow> mq_queues S q;
            if length ps < mp_capacity P
            then
              let S = mq_calls core (if nowait then fs else FAwait p to_free # fs) (mq_put q (ps @ [p]) S)
              in Some (if repost \<noteq> None then msg_polled core 0 S else S)
            else if \<not> noblock then Some S
            else
              let S = upd_msg_stats core (\<lambda>s. s\<lparr>ms_err := ms_err s + 1\<rparr>) (mq_calls core fs S)
              in case repost of None \<Rightarrow> Some S | Some f \<Rightarrow> msg_process_done core p f (- ENOBUFS) S
          }
      | _ \<Rightarrow> Some S)"

text \<open>One look at the state of the message that the sender waits for.\<close>

definition msg_await :: "nat \<Rightarrow> mq_state \<Rightarrow> mq_state option" where
  "msg_await core S =
     (case mq_stack S core of
        FAwait p to_free # fs \<Rightarrow>
          do {
            m \<leftarrow> mq_heap S p;
            if msg_state m \<noteq> MSG_STATE_DEQUEUED then Some S
            else Some (mq_calls core fs (mq_set p (if to_free then None else Some (m\<lparr>msg_state := MSG_STATE_INIT\<rparr>)) S))
          }
      | _ \<Rightarrow> Some S)"

subsection \<open>Receiving\<close>

text \<open>Up to the call of the handler.\<close>

definition msg_process :: "nat \<Rightarrow> nat \<Rightarrow> mq_state \<Rightarrow> mq_state option" where
  "msg_process core p S =
     do {
       m \<leftarrow> mq_heap S p;
       let module = MSGID2MODULE (msg_id m);
       let i = MSGID2ID (msg_id m);
       if module \<ge> MSG_MODULE_MAX then Some (msg_polled core (- EINVAL) S)
       else if i \<ge> MSG_PER_MODULE_MAX_MSGIDS then Some (msg_polled core (- EINVAL) S)
       else if \<not> mq_handlers S module i then Some (msg_polled core (- ENOENT) S)
       else if msg_state m \<noteq> MSG_STATE_QUEUED then None
       else Some (mq_calls core (FHandler p (MSG_FLAG_GET_TO_FREE m) # mq_stack S core) S)
     }"

definition msg_poll_queue :: "nat \<Rightarrow> mq \<Rightarrow> mq_state \<Rightarrow> mq_state option" where
  "msg_poll_queue core q S =
     (case mq_queues S q of
        None \<Rightarrow> Some (case mq_stack S core of FLocal # fs \<Rightarrow> mq_calls core fs S | _ \<Rightarrow> S)
      | Some ps \<Rightarrow>
          let S = upd_msg_stats core (\<lambda>s. s\<lparr>ms_poll := ms_poll s + 1\<rparr>) S
          in case ps of
               [] \<Rightarrow> Some S
             | p # ps \<Rightarrow> msg_process core p (upd_msg_stats core (\<lambda>s. s\<lparr>ms_rcvd := ms_rcvd s + 1\<rparr>) (mq_put q ps S)))"

text \<open>The first and the second half of \<open>msg_poll\<close>.\<close>

definition msg_poll :: "nat \<Rightarrow> mq_state \<Rightarrow> mq_state option" where
  "msg_poll core S = (if mq_stack S core \<noteq> [] then Some S else msg_poll_queue core (QRemote core) (mq_calls core [FLocal] S))"

definition msg_poll_local :: "nat \<Rightarrow> mq_state \<Rightarrow> mq_state option" where
  "msg_poll_local core S =
     (if mq_stack S core \<noteq> [FLocal] then Some S else msg_poll_queue core (QLocal core) (mq_calls core [] S))"

text \<open>The rest of \<open>msg_process\<close>, with the result of the handler.\<close>

definition msg_process_return :: "mq_prm \<Rightarrow> nat \<Rightarrow> int \<Rightarrow> mq_state \<Rightarrow> mq_state option" where
  "msg_process_return P core error S =
     (case mq_stack S core of
        FHandler p to_free # fs \<Rightarrow>
          do {
            m \<leftarrow> mq_heap S p;
            let S = mq_calls core fs S;
            if error = - EAGAIN
            then do {
              let S = mq_set p (Some (MSG_FLAG_RESET_TO_FREE m)) S;
              sent \<leftarrow> msg_send_local P core p MSG_SND_FLAG_NOWAIT (Some to_free) S;
              case sent of
                Inl error \<Rightarrow> msg_process_done core p to_free error S
              | Inr S \<Rightarrow> Some S
            }
            else msg_process_done core p to_free error S
          }
      | _ \<Rightarrow> Some S)"

subsection \<open>Steps\<close>

text \<open>
  A core that runs its main loop or a handler can allocate, initialise, send and free messages; the rest goes on with a call.
\<close>

datatype mq_event =
    EvAlloc nat "nat option" u16 u16
  | EvInit nat nat u16 u16 u8
  | EvSend nat nat u32
  | EvFree nat nat
  | EvEnqueue nat
  | EvAwait nat
  | EvPoll nat
  | EvPollLocal nat
  | EvReturn nat int

definition core_runs :: "nat \<Rightarrow> mq_state \<Rightarrow> bool" where
  "core_runs core S \<longleftrightarrow> (case mq_stack S core of [] \<Rightarrow> True | FHandler _ _ # _ \<Rightarrow> True | _ \<Rightarrow> False)"

fun msg_step :: "mq_prm \<Rightarrow> mq_event \<Rightarrow> mq_state \<Rightarrow> mq_state option" where
  "msg_step P (EvAlloc core p msgid dest) S = Some (if core_runs core S then msg_alloc core p msgid dest S else S)"
| "msg_step P (EvInit core p msgid dest flags) S = Some (if core_runs core S then msg_init p msgid dest flags S else S)"
| "msg_step P (EvSend core p flags) S =
     (if core_runs core S then map_option (\<lambda>r. case r of Inl _ \<Rightarrow> S | Inr S \<Rightarrow> S) (msg_send P core p flags S) else Some S)"
| "msg_step P (EvFree core p) S = Some (if core_runs core S then msg_free core p S else S)"
| "msg_step P (EvEnqueue core) S = msg_enqueue P core S"
| "msg_step P (EvAwait core) S = msg_await core S"
| "msg_step P (EvPoll core) S = msg_poll core S"
| "msg_step P (EvPollLocal core) S = msg_poll_local core S"
| "msg_step P (EvReturn core error) S = msg_process_return P core error S"

end
