(* ===== verification/MsgQProps.thy ===== *)
theory MsgQProps
  imports MsgQ
begin

text \<open>
  No interleaving of the cores makes the queues touch memory that was freed, free a message twice or handle one that is not queued,
  as long as the modules leave a message alone while it is on its way.
\<close>

subsection \<open>Where a message is\<close>

datatype holder = HQueue mq | HCore nat

fun frame_flight :: "mq_frame \<Rightarrow> nat list" where
  "frame_flight (FHandler p _) = [p]"
| "frame_flight (FEnqueue p _ _ _ _ _) = [p]"
| "frame_flight (FAwait _ _) = []"
| "frame_flight FLocal = []"

fun frame_await :: "mq_frame \<Rightarrow> nat list" where
  "frame_await (FAwait p _) = [p]"
| "frame_await (FEnqueue p _ _ nowait _ _) = (if nowait then [] else [p])"
| "frame_await _ = []"

text \<open>The messages on their way, and those a core waits for or is going to wait for.\<close>

fun flight :: "mq_state \<Rightarrow> holder \<Rightarrow> nat list" where
  "flight S (HQueue q) = (case mq_queues S q of None \<Rightarrow> [] | Some ps \<Rightarrow> ps)"
| "flight S (HCore c) = List.concat (map frame_flight (mq_stack S c))"

definition awaited :: "mq_state \<Rightarrow> nat \<Rightarrow> nat list" where
  "awaited S c = List.concat (map frame_await (mq_stack S c))"

text \<open>Every element in one place only.\<close>

definition apart :: "('c \<Rightarrow> 'a list) \<Rightarrow> bool" where
  "apart F \<longleftrightarrow> (\<forall>c. distinct (F c)) \<and> (\<forall>c c' p. p \<in> set (F c) \<longrightarrow> p \<in> set (F c') \<longrightarrow> c = c')"

lemma apart_add:
  "apart F \<Longrightarrow> \<forall>c. p \<notin> set (F c) \<Longrightarrow> apart (F(c := p # F c))"
  "apart F \<Longrightarrow> \<forall>c. p \<notin> set (F c) \<Longrightarrow> apart (F(c := F c @ [p]))"
  by (auto simp: apart_def)

lemma apart_one: "apart F \<Longrightarrow> F c = p # xs \<Longrightarrow> p \<notin> set xs \<and> (\<forall>c'. c' \<noteq> c \<longrightarrow> p \<notin> set (F c'))"
  unfolding apart_def by (metis distinct.simps(2) list.set_intros(1))

lemma apart_sub:
  assumes "apart F" "F c = p # xs"
  shows "apart (F(c := xs))" "\<forall>c'. p \<notin> set ((F(c := xs)) c')"
proof -
  have "distinct (p # xs)" using assms unfolding apart_def by metis
  moreover have "set xs \<subseteq> set (F c)" using assms(2) by auto
  ultimately show "apart (F(c := xs))" using assms(1) unfolding apart_def by (auto simp: subset_iff)
  show "\<forall>c'. p \<notin> set ((F(c := xs)) c')" using apart_one [OF assms] by auto
qed

text \<open>A message on its way can be posted by its receiver again.\<close>

definition deliverable :: "mq_prm \<Rightarrow> mq_state \<Rightarrow> msg \<Rightarrow> bool" where
  "deliverable P S m \<longleftrightarrow> \<not> ucast (msg_dest_lcore m) > mp_max_lcore P \<and>
     (\<exists>i. mp_lcore_index P (msg_dest_lcore m) = Some i \<and> mq_queues S (QLocal i) \<noteq> None)"

fun frame_ok :: "mq_state \<Rightarrow> mq_frame \<Rightarrow> bool" where
  "frame_ok S (FHandler p f) \<longleftrightarrow> (\<forall>m. mq_heap S p = Some m \<longrightarrow> f = MSG_FLAG_GET_TO_FREE m)"
| "frame_ok S (FEnqueue p q noblock nowait f repost) \<longleftrightarrow> mq_queues S q \<noteq> None \<and> (repost \<noteq> None \<longrightarrow> nowait \<and> \<not> noblock) \<and>
     (\<not> nowait \<longrightarrow> (\<forall>m. mq_heap S p = Some m \<longrightarrow> \<not> MSG_FLAG_GET_TO_FREE m))"
| "frame_ok S (FAwait p f) \<longleftrightarrow> (\<exists>m. mq_heap S p = Some m \<and> \<not> MSG_FLAG_GET_TO_FREE m)"
| "frame_ok S FLocal \<longleftrightarrow> True"

definition mq_inv :: "mq_prm \<Rightarrow> mq_state \<Rightarrow> bool" where
  "mq_inv P S \<longleftrightarrow>
     apart (flight S) \<and> apart (awaited S) \<and>
     (\<forall>h. \<forall>p \<in> set (flight S h). \<exists>m. mq_heap S p = Some m \<and> msg_state m = MSG_STATE_QUEUED \<and> deliverable P S m) \<and>
     (\<forall>c. \<forall>f \<in> set (mq_stack S c). frame_ok S f) \<and>
     (\<forall>i. mq_queues S (QRemote i) \<noteq> None \<longrightarrow> mq_queues S (QLocal i) \<noteq> None)"

text \<open>What the modules have to do: a message that is on its way or waited for is not touched.\<close>

definition mq_free :: "mq_state \<Rightarrow> nat \<Rightarrow> bool" where
  "mq_free S p \<longleftrightarrow> (\<forall>h. p \<notin> set (flight S h)) \<and> (\<forall>c. p \<notin> set (awaited S c))"

fun client_ok :: "mq_prm \<Rightarrow> mq_event \<Rightarrow> mq_state \<Rightarrow> bool" where
  "client_ok P (EvAlloc _ p _ _) S \<longleftrightarrow> (case p of None \<Rightarrow> True | Some p \<Rightarrow> mq_free S p)"
| "client_ok P (EvInit _ p _ _ _) S \<longleftrightarrow> mq_free S p"
| "client_ok P (EvFree _ p) S \<longleftrightarrow> mq_free S p"
| "client_ok P (EvSend _ p _) S \<longleftrightarrow> mq_free S p \<and> (\<exists>m. mq_heap S p = Some m \<and>
     (MSG_FLAG_GET_LOCAL m \<longrightarrow> (\<forall>i. mp_lcore_index P (msg_dest_lcore m) = Some i \<longrightarrow> mq_queues S (QLocal i) \<noteq> None)))"
| "client_ok P _ S \<longleftrightarrow> True"

text \<open>What can come of a state, by events of \<open>A\<close>.\<close>

inductive mq_reach :: "mq_prm \<Rightarrow> mq_event set \<Rightarrow> mq_state \<Rightarrow> mq_state \<Rightarrow> bool" for P A S0 where
  mq_reach_refl: "mq_reach P A S0 S0"
| mq_reach_step: "mq_reach P A S0 S \<Longrightarrow> e \<in> A \<Longrightarrow> client_ok P e S \<Longrightarrow> msg_step P e S = Some S' \<Longrightarrow> mq_reach P A S0 S'"

text \<open>The events that give a message to the queues, to the allocator, or new contents.\<close>

fun touches :: "nat \<Rightarrow> mq_event \<Rightarrow> bool" where
  "touches p (EvAlloc _ q _ _) \<longleftrightarrow> q = Some p"
| "touches p (EvInit _ q _ _ _) \<longleftrightarrow> q = p"
| "touches p (EvSend _ q _) \<longleftrightarrow> q = p"
| "touches p (EvFree _ q) \<longleftrightarrow> q = p"
| "touches p _ \<longleftrightarrow> False"

subsection \<open>Simplification\<close>

lemma mq_simps [simp]:
  "mq_heap (mq_set p m S) = (mq_heap S)(p := m)" "mq_queues (mq_set p m S) = mq_queues S" "mq_stack (mq_set p m S) = mq_stack S"
  "mq_heap (mq_calls c fs S) = mq_heap S" "mq_queues (mq_calls c fs S) = mq_queues S"
  "mq_stack (mq_calls c fs S) = (mq_stack S)(c := fs)"
  "mq_heap (mq_put q ps S) = mq_heap S" "mq_queues (mq_put q ps S) = (mq_queues S)(q := Some ps)"
  "mq_stack (mq_put q ps S) = mq_stack S"
  "mq_heap (upd_msg_stats c g S) = mq_heap S" "mq_queues (upd_msg_stats c g S) = mq_queues S"
  "mq_stack (upd_msg_stats c g S) = mq_stack S" "mq_handlers (mq_set p m S) = mq_handlers S"
  "mq_handlers (mq_calls c fs S) = mq_handlers S" "mq_handlers (mq_put q ps S) = mq_handlers S"
  "mq_handlers (upd_msg_stats c g S) = mq_handlers S"
  by (simp_all add: mq_set_def mq_calls_def mq_put_def upd_msg_stats_def)

lemma flight_simps [simp]:
  "flight (mq_set p m S) = flight S"
  "flight (upd_msg_stats c g S) = flight S"
  "flight (mq_calls c fs S) = (flight S)(HCore c := List.concat (map frame_flight fs))"
  "flight (mq_put q ps S) = (flight S)(HQueue q := ps)"
  "awaited (mq_set p m S) = awaited S"
  "awaited (upd_msg_stats c g S) = awaited S"
  "awaited (mq_put q ps S) = awaited S"
  "awaited (mq_calls c fs S) = (awaited S)(c := List.concat (map frame_await fs))"
  by (auto simp: fun_eq_iff awaited_def split: holder.split) (rename_tac h, case_tac h, auto)+

lemma frame_ok_set:
  "frame_ok S f \<Longrightarrow> p \<notin> set (frame_flight f) \<Longrightarrow>
   (p \<in> set (frame_await f) \<Longrightarrow> \<exists>m. x = Some m \<and> \<not> MSG_FLAG_GET_TO_FREE m) \<Longrightarrow> frame_ok (mq_set p x S) f"
  by (cases f) auto

lemma frame_ok_simps [simp]:
  "frame_ok (mq_calls c fs S) f = frame_ok S f" "frame_ok (upd_msg_stats c g S) f = frame_ok S f"
  by (cases f; simp)+

lemma frame_ok_put: "frame_ok S f \<Longrightarrow> frame_ok (mq_put q ps S) f"
  by (cases f) auto

lemma deliverable_simps [simp]:
  "deliverable P (mq_calls c fs S) m = deliverable P S m" "deliverable P (upd_msg_stats c g S) m = deliverable P S m"
  "deliverable P (mq_set p x S) m = deliverable P S m" "deliverable P S (m\<lparr>msg_state := s\<rparr>) = deliverable P S m"
  "deliverable P S (MSG_FLAG_RESET_TO_FREE m) = deliverable P S m"
  by (simp_all add: deliverable_def MSG_FLAG_RESET_TO_FREE_def)

lemma deliverable_put: "deliverable P S m \<Longrightarrow> deliverable P (mq_put q ps S) m"
  by (auto simp: deliverable_def)

lemma reset_flag [simp]:
  "\<not> MSG_FLAG_GET_TO_FREE (MSG_FLAG_RESET_TO_FREE m)" "msg_state (MSG_FLAG_RESET_TO_FREE m) = msg_state m"
  "MSG_FLAG_GET_TO_FREE (m\<lparr>msg_state := s\<rparr>) = MSG_FLAG_GET_TO_FREE m" "msg_dest_lcore (MSG_FLAG_RESET_TO_FREE m) = msg_dest_lcore m"
proof -
  have "(msg_flags m AND NOT MSG_FLAG_TO_FREE) AND MSG_FLAG_TO_FREE = 0"
    by (simp add: and.assoc MSG_FLAG_TO_FREE_def)
  then show "\<not> MSG_FLAG_GET_TO_FREE (MSG_FLAG_RESET_TO_FREE m)"
    by (simp add: MSG_FLAG_GET_TO_FREE_def MSG_FLAG_RESET_TO_FREE_def)
qed (simp_all add: MSG_FLAG_GET_TO_FREE_def MSG_FLAG_RESET_TO_FREE_def)

lemma flight_frame: "f \<in> set (mq_stack S c) \<Longrightarrow> p \<in> set (frame_flight f) \<Longrightarrow> p \<in> set (flight S (HCore c))"
  by auto

lemma awaited_frame: "f \<in> set (mq_stack S c) \<Longrightarrow> p \<in> set (frame_await f) \<Longrightarrow> p \<in> set (awaited S c)"
  by (auto simp: awaited_def)

lemma mq_invD:
  assumes "mq_inv P S"
  shows "apart (flight S)" "apart (awaited S)"
    "\<And>h p. p \<in> set (flight S h) \<Longrightarrow> \<exists>m. mq_heap S p = Some m \<and> msg_state m = MSG_STATE_QUEUED \<and> deliverable P S m"
    "\<And>c f. f \<in> set (mq_stack S c) \<Longrightarrow> frame_ok S f"
    "\<And>i. mq_queues S (QRemote i) \<noteq> None \<Longrightarrow> mq_queues S (QLocal i) \<noteq> None"
  using assms unfolding mq_inv_def by blast+

lemma mq_inv_stats [simp]: "mq_inv P (upd_msg_stats c g S) = mq_inv P S"
  unfolding mq_inv_def by simp

subsection \<open>Every step keeps the invariant\<close>

text \<open>A message that is on its way nowhere gets other contents.\<close>

lemma inv_set:
  assumes I: "mq_inv P S" and p: "\<forall>h. p \<notin> set (flight S h)"
    and w: "\<And>c. p \<in> set (awaited S c) \<Longrightarrow> \<exists>m. x = Some m \<and> \<not> MSG_FLAG_GET_TO_FREE m"
  shows "mq_inv P (mq_set p x S)"
proof -
  note I' = mq_invD [OF I]
  have fr: "frame_ok (mq_set p x S) f" if "f \<in> set (mq_stack S c)" for f c
    using I'(4) [OF that] frame_ok_set [of S f p x] p flight_frame [OF that] awaited_frame [OF that] w by blast
  have "\<exists>m. mq_heap (mq_set p x S) r = Some m \<and> msg_state m = MSG_STATE_QUEUED \<and> deliverable P (mq_set p x S) m"
    if "r \<in> set (flight S h)" for r h
    using I'(3) [OF that] that p by (cases "r = p") auto
  then show ?thesis using I' fr unfolding mq_inv_def by simp
qed

lemma inv_free: "mq_inv P S \<Longrightarrow> mq_free S p \<Longrightarrow> mq_inv P (mq_set p x S)"
  by (rule inv_set) (auto simp: mq_free_def)

text \<open>The end of a call.\<close>

lemma inv_pop:
  assumes I: "mq_inv P S" and s: "mq_stack S c = f # fs"
  shows "mq_inv P (mq_calls c fs S)"
proof -
  note I' = mq_invD [OF I]
  have sub: "apart (F(d := ys))" if "apart F" "F d = xs @ ys" for F :: "'x \<Rightarrow> nat list" and d xs ys
  proof -
    have "distinct (xs @ ys)" using that unfolding apart_def by metis
    moreover have "set ys \<subseteq> set (F d)" using that(2) by auto
    ultimately show ?thesis using that(1) unfolding apart_def by (auto simp: subset_iff)
  qed
  have fl: "flight S (HCore c) = frame_flight f @ List.concat (map frame_flight fs)" using s by simp
  have aw: "awaited S c = frame_await f @ List.concat (map frame_await fs)" using s by (simp add: awaited_def)
  have "apart ((flight S)(HCore c := List.concat (map frame_flight fs)))"
    "apart ((awaited S)(c := List.concat (map frame_await fs)))"
    using sub [OF I'(1) fl] sub [OF I'(2) aw] .
  moreover have "\<exists>m. mq_heap S p = Some m \<and> msg_state m = MSG_STATE_QUEUED \<and> deliverable P S m"
    if "p \<in> set (((flight S)(HCore c := List.concat (map frame_flight fs))) h)" for h p
    using that I'(3) [of p h] fl by (auto split: if_splits)
  moreover have "frame_ok S g" if "g \<in> set (((mq_stack S)(c := fs)) d)" for g d
    using that I'(4) [of g d] s by (auto split: if_splits)
  ultimately show ?thesis using I'(5) unfolding mq_inv_def by simp
qed

lemma apart_pre:
  "apart F \<Longrightarrow> xs = [] \<or> (\<exists>p. xs = [p] \<and> (\<forall>c. p \<notin> set (F c))) \<Longrightarrow> apart (F(c := xs @ F c))"
  using apart_add(1) by (auto simp: fun_upd_idem)

text \<open>The beginning of a call.\<close>

lemma inv_push:
  assumes I: "mq_inv P S" and f: "frame_ok S f"
    and fl: "frame_flight f = [] \<or> (\<exists>p m. frame_flight f = [p] \<and> (\<forall>h. p \<notin> set (flight S h)) \<and> mq_heap S p = Some m \<and>
      msg_state m = MSG_STATE_QUEUED \<and> deliverable P S m)"
    and w: "frame_await f = [] \<or> (\<exists>p. frame_await f = [p] \<and> (\<forall>c. p \<notin> set (awaited S c)))"
  shows "mq_inv P (mq_calls c (f # mq_stack S c) S)"
proof -
  note I' = mq_invD [OF I]
  have "apart ((flight S)(HCore c := frame_flight f @ flight S (HCore c)))" using apart_pre [OF I'(1)] fl by blast
  moreover have "apart ((awaited S)(c := frame_await f @ awaited S c))" using apart_pre [OF I'(2)] w by blast
  moreover have "\<exists>m. mq_heap S r = Some m \<and> msg_state m = MSG_STATE_QUEUED \<and> deliverable P S m"
    if "r \<in> set (((flight S)(HCore c := frame_flight f @ flight S (HCore c))) h)" for h r
    using that I'(3) [of r h] fl by (auto split: if_splits)
  moreover have "frame_ok S g" if "g \<in> set (((mq_stack S)(c := f # mq_stack S c)) d)" for g d
    using that I'(4) [of g d] f by (auto split: if_splits)
  ultimately show ?thesis using I'(5) unfolding mq_inv_def by (simp add: awaited_def)
qed

lemma inv_queue_add:
  assumes I: "mq_inv P S" and q: "mq_queues S q = Some ps" and p: "\<forall>h. p \<notin> set (flight S h)"
    and m: "mq_heap S p = Some m" "msg_state m = MSG_STATE_QUEUED" "deliverable P S m"
  shows "mq_inv P (mq_put q (ps @ [p]) S)"
proof -
  note I' = mq_invD [OF I]
  have F: "flight S (HQueue q) = ps" using q by simp
  have "apart ((flight S)(HQueue q := ps @ [p]))" using apart_add(2) [OF I'(1) p, of "HQueue q"] F by simp
  moreover have "\<exists>m. mq_heap S r = Some m \<and> msg_state m = MSG_STATE_QUEUED \<and> deliverable P (mq_put q (ps @ [p]) S) m"
    if "r \<in> set (((flight S)(HQueue q := ps @ [p])) h)" for h r
    using that I'(3) [of r h] F m by (auto split: if_splits intro!: deliverable_put)
  moreover have "mq_queues (mq_put q (ps @ [p]) S) (QLocal i) \<noteq> None" if "mq_queues (mq_put q (ps @ [p]) S) (QRemote i) \<noteq> None" for i
    using that I'(5) [of i] q by (auto split: if_splits)
  ultimately show ?thesis using I'(2,4) unfolding mq_inv_def by (simp add: frame_ok_put)
qed

lemma inv_queue_take:
  assumes I: "mq_inv P S" and q: "mq_queues S q = Some (p # ps)"
  shows "mq_inv P (mq_put q ps S)" "\<forall>h. p \<notin> set (flight (mq_put q ps S) h)"
    "\<exists>m. mq_heap S p = Some m \<and> msg_state m = MSG_STATE_QUEUED \<and> deliverable P (mq_put q ps S) m"
proof -
  note I' = mq_invD [OF I]
  have F: "flight S (HQueue q) = p # ps" using q by simp
  note s = apart_sub [OF I'(1) F]
  have "\<exists>m. mq_heap S r = Some m \<and> msg_state m = MSG_STATE_QUEUED \<and> deliverable P (mq_put q ps S) m"
    if "r \<in> set (((flight S)(HQueue q := ps)) h)" for h r
    using that I'(3) [of r h] F by (auto split: if_splits intro!: deliverable_put)
  moreover have "mq_queues (mq_put q ps S) (QLocal i) \<noteq> None" if "mq_queues (mq_put q ps S) (QRemote i) \<noteq> None" for i
    using that I'(5) [of i] q by (auto split: if_splits)
  ultimately show "mq_inv P (mq_put q ps S)" using s(1) I'(2,4) unfolding mq_inv_def by (simp add: frame_ok_put)
  show "\<forall>h. p \<notin> set (flight (mq_put q ps S) h)" using s(2) by simp
  show "\<exists>m. mq_heap S p = Some m \<and> msg_state m = MSG_STATE_QUEUED \<and> deliverable P (mq_put q ps S) m"
    using I'(3) [of p "HQueue q"] q by (auto intro!: deliverable_put)
qed

lemma awaited_not_freed:
  assumes I: "mq_inv P S" and w: "p \<in> set (awaited S c)" and m: "mq_heap S p = Some m"
  shows "\<not> MSG_FLAG_GET_TO_FREE m"
proof -
  from w obtain f where f: "f \<in> set (mq_stack S c)" "p \<in> set (frame_await f)" by (auto simp: awaited_def)
  with mq_invD(4) [OF I f(1)] m show ?thesis by (cases f) (auto split: if_splits)
qed

lemma pop_flight:
  assumes I: "mq_inv P S" and s: "mq_stack S c = f # fs" and f: "frame_flight f = [p]"
  shows "\<forall>h. p \<notin> set (flight (mq_calls c fs S) h)"
  using apart_sub(2) [OF mq_invD(1) [OF I], of "HCore c" p "List.concat (map frame_flight fs)"] s f by simp

lemma pop_awaited:
  assumes I: "mq_inv P S" and s: "mq_stack S c = f # fs" and f: "frame_await f = [p]"
  shows "\<forall>d. p \<notin> set (awaited (mq_calls c fs S) d)"
  using apart_sub(2) [OF mq_invD(2) [OF I], of c p "List.concat (map frame_await fs)"] s f by (simp add: awaited_def)

lemma inv_do_send:
  assumes I: "mq_inv P S" and p: "\<forall>h. p \<notin> set (flight S h)" and m: "mq_heap S p = Some m" "deliverable P S m"
    and q: "mq_queues S q \<noteq> None" and r: "repost \<noteq> None \<Longrightarrow> flags = MSG_SND_FLAG_NOWAIT"
    and w: "flags AND MSG_SND_FLAG_NOWAIT = 0 \<Longrightarrow> \<forall>c. p \<notin> set (awaited S c)"
  shows "\<exists>S'. msg_do_send core p q flags repost S = Some S' \<and> mq_inv P S'"
proof -
  let ?nowait = "flags AND MSG_SND_FLAG_NOWAIT \<noteq> 0" and ?noblock = "flags AND MSG_SND_FLAG_NOBLOCK \<noteq> 0"
  let ?m = "(if \<not> ?nowait \<and> MSG_FLAG_GET_TO_FREE m then MSG_FLAG_RESET_TO_FREE m else m)\<lparr>msg_state := MSG_STATE_QUEUED\<rparr>"
  let ?S = "upd_msg_stats core (\<lambda>s. s\<lparr>ms_snd := ms_snd s + 1\<rparr>) (mq_set p (Some ?m) S)"
  let ?f = "FEnqueue p q ?noblock ?nowait (MSG_FLAG_GET_TO_FREE m) repost"
  have "mq_inv P (mq_set p (Some ?m) S)"
    using inv_set [OF I p, of "Some ?m"] awaited_not_freed [OF I _ m(1)] by auto
  then have "mq_inv P ?S" by simp
  moreover have "frame_ok ?S ?f" using q r by (auto simp: MSG_SND_FLAG_NOWAIT_def MSG_SND_FLAG_NOBLOCK_def)
  moreover have "deliverable P ?S ?m" using m(2) by simp
  moreover have "frame_await ?f = [] \<or> (\<exists>r. frame_await ?f = [r] \<and> (\<forall>c. r \<notin> set (awaited ?S c)))" using w by auto
  ultimately have "mq_inv P (mq_calls core (?f # mq_stack ?S core) ?S)"
    using inv_push [of P ?S ?f core] p by auto
  then show ?thesis using m(1) by (simp add: msg_do_send_def Let_def)
qed

lemma mq_commute:
  "mq_calls c fs (mq_set p x S) = mq_set p x (mq_calls c fs S)"
  "mq_calls c fs (mq_put q ps S) = mq_put q ps (mq_calls c fs S)"
  "mq_calls c fs (mq_calls c gs S) = mq_calls c fs S"
  by (simp_all add: mq_set_def mq_calls_def mq_put_def)

lemma inv_polled: "mq_inv P S \<Longrightarrow> mq_inv P (msg_polled c e S)"
  by (auto simp: msg_polled_def Let_def split: list.splits mq_frame.splits
    intro: inv_pop [of P "upd_msg_stats c (\<lambda>s. s\<lparr>ms_proc_err := ms_proc_err s + 1\<rparr>) S" for S, simplified])

lemma inv_process_done:
  assumes I: "mq_inv P S" and p: "\<forall>h. p \<notin> set (flight S h)" and m: "mq_heap S p = Some m"
    and f: "to_free \<Longrightarrow> \<forall>c. p \<notin> set (awaited S c)"
  shows "\<exists>S'. msg_process_done core p to_free e S = Some S' \<and> mq_inv P S'"
proof -
  have "mq_inv P (if \<not> to_free then mq_set p (Some (m\<lparr>msg_state := MSG_STATE_DEQUEUED\<rparr>)) S else msg_free core p S)"
    using inv_set [OF I p, of "Some (m\<lparr>msg_state := MSG_STATE_DEQUEUED\<rparr>)"] awaited_not_freed [OF I _ m]
      inv_set [of P "upd_msg_stats core (\<lambda>s. s\<lparr>ms_free := ms_free s + 1\<rparr>) S" p None] I p f
    by (auto simp: msg_free_def)
  from inv_polled [OF this] show ?thesis using m by (auto simp: msg_process_done_def)
qed

lemma inv_enqueue:
  assumes I: "mq_inv P S"
  shows "\<exists>S'. msg_enqueue P core S = Some S' \<and> mq_inv P S'"
proof (cases "\<exists>p q b n f r fs. mq_stack S core = FEnqueue p q b n f r # fs")
  case False
  then show ?thesis using I by (auto simp: msg_enqueue_def split: list.splits mq_frame.splits)
next
  case True
  then obtain p q b n f r fs where s: "mq_stack S core = FEnqueue p q b n f r # fs" by blast
  let ?T = "mq_calls core fs S"
  have ok: "frame_ok S (FEnqueue p q b n f r)" using mq_invD(4) [OF I, of "FEnqueue p q b n f r" core] s by simp
  then obtain ps where q: "mq_queues S q = Some ps" by auto
  from mq_invD(3) [OF I, of p "HCore core"] s obtain m where
    m: "mq_heap S p = Some m" "msg_state m = MSG_STATE_QUEUED" "deliverable P S m" by auto
  have T: "mq_inv P ?T" "\<forall>h. p \<notin> set (flight ?T h)"
    using inv_pop [OF I s] pop_flight [OF I s] by simp_all
  have put: "mq_inv P (mq_put q (ps @ [p]) ?T)" using inv_queue_add [OF T(1) _ T(2)] q m by simp
  have wait: "mq_inv P (mq_calls core (FAwait p f # fs) (mq_put q (ps @ [p]) S))" if "\<not> n"
  proof -
    have "\<forall>c. p \<notin> set (awaited ?T c)" using pop_awaited [OF I s] that by simp
    then have "mq_inv P (mq_calls core (FAwait p f # mq_stack (mq_put q (ps @ [p]) ?T) core) (mq_put q (ps @ [p]) ?T))"
      using ok m that by (intro inv_push [OF put]) auto
    then show ?thesis by (simp add: mq_commute)
  qed
  have fails: "\<exists>S'. msg_process_done core p g e (upd_msg_stats core h ?T) = Some S' \<and> mq_inv P S'" if "r = Some g" "b" for g e h
    using ok that by auto
  show ?thesis
    using I q s T(1) put wait fails ok inv_polled [OF put, of core 0]
    by (auto simp: msg_enqueue_def mq_commute Let_def split: option.splits)
qed

lemma inv_await:
  assumes I: "mq_inv P S"
  shows "\<exists>S'. msg_await core S = Some S' \<and> mq_inv P S'"
proof (cases "\<exists>p f fs. mq_stack S core = FAwait p f # fs")
  case False
  then show ?thesis using I by (auto simp: msg_await_def split: list.splits mq_frame.splits)
next
  case True
  then obtain p f fs where s: "mq_stack S core = FAwait p f # fs" by blast
  obtain m where m: "mq_heap S p = Some m" using mq_invD(4) [OF I, of "FAwait p f" core] s by auto
  show ?thesis
  proof (cases "msg_state m = MSG_STATE_DEQUEUED")
    case True
    have n: "p \<notin> set (flight S h)" for h using mq_invD(3) [OF I, of p h] m True by auto
    moreover have "p \<notin> set (List.concat (map frame_flight fs))" using n [of "HCore core"] s by simp
    ultimately have "\<forall>h. p \<notin> set (flight (mq_calls core fs S) h)" by (simp del: flight.simps)
    then have "mq_free (mq_calls core fs S) p" using pop_awaited [OF I s] unfolding mq_free_def by simp
    from inv_free [OF inv_pop [OF I s] this] show ?thesis using s m True by (simp add: msg_await_def mq_commute)
  qed (use I s m in \<open>simp add: msg_await_def\<close>)
qed

lemma inv_process:
  assumes I: "mq_inv P S" and p: "\<forall>h. p \<notin> set (flight S h)"
    and m: "\<exists>m. mq_heap S p = Some m \<and> msg_state m = MSG_STATE_QUEUED \<and> deliverable P S m"
  shows "\<exists>S'. msg_process core p S = Some S' \<and> mq_inv P S'"
proof -
  from m obtain m where m: "mq_heap S p = Some m" "msg_state m = MSG_STATE_QUEUED" "deliverable P S m" by blast
  have "mq_inv P (mq_calls core (FHandler p (MSG_FLAG_GET_TO_FREE m) # mq_stack S core) S)"
    using m p by (intro inv_push [OF I]) auto
  then show ?thesis using m inv_polled [OF I] by (simp add: msg_process_def Let_def)
qed

lemma inv_poll_queue:
  assumes I: "mq_inv P S"
  shows "\<exists>S'. msg_poll_queue core q S = Some S' \<and> mq_inv P S'"
proof (cases "mq_queues S q")
  case None
  then show ?thesis using I
    by (auto simp: msg_poll_queue_def intro: inv_pop split: list.splits mq_frame.splits)
next
  case (Some qs)
  show ?thesis
  proof (cases qs)
    case (Cons p ps)
    let ?S = "upd_msg_stats core (\<lambda>s. s\<lparr>ms_poll := ms_poll s + 1\<rparr>) S"
    have I': "mq_inv P ?S" and q: "mq_queues ?S q = Some (p # ps)" using I Some Cons by simp_all
    note t = inv_queue_take [OF I' q]
    show ?thesis
      using inv_process [of P "upd_msg_stats core (\<lambda>s. s\<lparr>ms_rcvd := ms_rcvd s + 1\<rparr>) (mq_put q ps ?S)" p core] t Some Cons
      by (simp add: msg_poll_queue_def Let_def)
  qed (use I Some in \<open>simp add: msg_poll_queue_def\<close>)
qed

lemma inv_poll:
  assumes I: "mq_inv P S"
  shows "\<exists>S'. msg_poll core S = Some S' \<and> mq_inv P S'" "\<exists>S'. msg_poll_local core S = Some S' \<and> mq_inv P S'"
proof -
  show "\<exists>S'. msg_poll core S = Some S' \<and> mq_inv P S'"
  proof (cases "mq_stack S core = []")
    case True
    have "mq_inv P (mq_calls core (FLocal # mq_stack S core) S)" by (rule inv_push [OF I]) simp_all
    then show ?thesis using inv_poll_queue True by (simp add: msg_poll_def)
  qed (use I in \<open>simp add: msg_poll_def\<close>)
  show "\<exists>S'. msg_poll_local core S = Some S' \<and> mq_inv P S'"
    using inv_poll_queue [OF inv_pop [OF I]] I by (simp add: msg_poll_local_def)
qed

lemma inv_send_local:
  assumes "mq_inv P S" "\<forall>h. p \<notin> set (flight S h)" "mq_heap S p = Some m" "deliverable P S m"
    "repost \<noteq> None \<Longrightarrow> flags = MSG_SND_FLAG_NOWAIT" "flags AND MSG_SND_FLAG_NOWAIT = 0 \<Longrightarrow> \<forall>c. p \<notin> set (awaited S c)"
  shows "\<exists>S'. msg_send_local P core p flags repost S = Some (Inr S') \<and> mq_inv P S'"
proof -
  from assms(4) obtain i where i: "\<not> ucast (msg_dest_lcore m) > mp_max_lcore P"
    "mp_lcore_index P (msg_dest_lcore m) = Some i" "mq_queues S (QLocal i) \<noteq> None" unfolding deliverable_def by blast
  show ?thesis using inv_do_send [OF assms(1-4) i(3) assms(5,6), where core = core] assms(3) i(1,2) by (auto simp: msg_send_local_def)
qed

lemma inv_send:
  assumes I: "mq_inv P S" and c: "client_ok P (EvSend core p flags) S"
  shows "\<exists>r. msg_send P core p flags S = Some r \<and> (\<forall>S'. r = Inr S' \<longrightarrow> mq_inv P S')"
proof -
  from c obtain m where m: "mq_heap S p = Some m" and p: "\<forall>h. p \<notin> set (flight S h)" "\<forall>c. p \<notin> set (awaited S c)"
    and l: "\<And>i. MSG_FLAG_GET_LOCAL m \<Longrightarrow> mp_lcore_index P (msg_dest_lcore m) = Some i \<Longrightarrow> mq_queues S (QLocal i) \<noteq> None"
    by (auto simp: mq_free_def)
  show ?thesis
  proof (cases "ucast (msg_dest_lcore m) > mp_max_lcore P \<or> mp_lcore_index P (msg_dest_lcore m) = None")
    case True
    then show ?thesis using m by (auto simp: msg_send_def msg_send_local_def msg_send_remote_def)
  next
    case False
    then obtain i where i: "\<not> ucast (msg_dest_lcore m) > mp_max_lcore P" "mp_lcore_index P (msg_dest_lcore m) = Some i" by blast
    have d: "deliverable P S m" if "mq_queues S (QLocal i) \<noteq> None" using that i unfolding deliverable_def by blast
    show ?thesis
    proof (cases "MSG_FLAG_GET_LOCAL m")
      case True
      obtain S' where "msg_send_local P core p flags None S = Some (Inr S')" "mq_inv P S'"
        using inv_send_local [OF I p(1) m d [OF l [OF True i(2)]], of None flags core] p(2) by blast
      then show ?thesis using m True by (simp add: msg_send_def)
    next
      case False
      show ?thesis
      proof (cases "mq_queues S (QRemote i) = None")
        case False
        obtain S' where "msg_do_send core p (QRemote i) flags None S = Some S'" "mq_inv P S'"
          using inv_do_send [OF I p(1) m d [OF mq_invD(5) [OF I False]] False, of None flags core] p(2) by blast
        then show ?thesis using m i \<open>\<not> MSG_FLAG_GET_LOCAL m\<close> False by (simp add: msg_send_def msg_send_remote_def)
      qed (use m i False in \<open>simp add: msg_send_def msg_send_remote_def\<close>)
    qed
  qed
qed

lemma inv_process_return:
  assumes I: "mq_inv P S"
  shows "\<exists>S'. msg_process_return P core e S = Some S' \<and> mq_inv P S'"
proof (cases "\<exists>p f fs. mq_stack S core = FHandler p f # fs")
  case False
  then show ?thesis using I by (auto simp: msg_process_return_def split: list.splits mq_frame.splits)
next
  case True
  then obtain p f fs where s: "mq_stack S core = FHandler p f # fs" by blast
  let ?T = "mq_calls core fs S"
  from mq_invD(3) [OF I, of p "HCore core"] s obtain m where
    m: "mq_heap S p = Some m" "deliverable P S m" by auto
  have f: "f = MSG_FLAG_GET_TO_FREE m" using mq_invD(4) [OF I, of "FHandler p f" core] s m by simp
  have T: "mq_inv P ?T" "\<forall>h. p \<notin> set (flight ?T h)" using inv_pop [OF I s] pop_flight [OF I s] by simp_all
  have "p \<in> set (awaited ?T c) \<Longrightarrow> \<not> MSG_FLAG_GET_TO_FREE m" for c using awaited_not_freed [OF T(1), of p c m] m by simp
  then have w: "f \<Longrightarrow> \<forall>c. p \<notin> set (awaited ?T c)" using f by blast
  show ?thesis
  proof (cases "e = - EAGAIN")
    case True
    let ?U = "mq_set p (Some (MSG_FLAG_RESET_TO_FREE m)) ?T"
    have U: "mq_inv P ?U" using inv_set [OF T] by simp
    obtain S' where "msg_send_local P core p MSG_SND_FLAG_NOWAIT (Some f) ?U = Some (Inr S')" "mq_inv P S'"
      using inv_send_local [OF U, of p "MSG_FLAG_RESET_TO_FREE m" "Some f" MSG_SND_FLAG_NOWAIT core] T(2) m(2)
      by (auto simp: MSG_SND_FLAG_NOWAIT_def)
    then show ?thesis using s m True by (simp add: msg_process_return_def Let_def)
  next
    case False
    then show ?thesis using inv_process_done [OF T, of m f core e] w s m by (simp add: msg_process_return_def Let_def)
  qed
qed

theorem inv_step:
  assumes I: "mq_inv P S" and c: "client_ok P e S"
  shows "\<exists>S'. msg_step P e S = Some S' \<and> mq_inv P S'"
proof (cases e)
  case (EvAlloc core p msgid dest)
  with I c show ?thesis by (auto simp: msg_alloc_def msg_init_def intro: inv_free split: option.splits)
next
  case (EvInit core p msgid dest flags)
  with I c show ?thesis by (auto simp: msg_init_def intro: inv_free)
next
  case (EvFree core p)
  with I c show ?thesis
    using inv_free [of P "upd_msg_stats core (\<lambda>s. s\<lparr>ms_free := ms_free s + 1\<rparr>) S" p None]
    by (auto simp: msg_free_def mq_free_def)
next
  case (EvSend core p flags)
  with c obtain r where "msg_send P core p flags S = Some r" "\<forall>S'. r = Inr S' \<longrightarrow> mq_inv P S'"
    using inv_send [OF I, of core p flags] by blast
  then show ?thesis using EvSend I by (cases r) auto
qed (use I inv_enqueue inv_await inv_poll inv_process_return in auto)

lemma reach_inv: "mq_reach P A S0 S \<Longrightarrow> mq_inv P S0 \<Longrightarrow> mq_inv P S"
  by (induction rule: mq_reach.induct) (use inv_step in fastforce)+

text \<open>The queues after the initialisation.\<close>

lemma sys_init_queues:
  "mq_queues (msg_sys_init idxs S) q =
     (case q of QRemote i \<Rightarrow> if i \<in> set idxs \<and> i \<noteq> TPG_CORE_IDX_CLI then Some [] else mq_queues S q
      | QLocal i \<Rightarrow> if i \<in> set idxs \<and> i \<noteq> TPG_CORE_IDX_CLI then Some [] else mq_queues S q)"
  "mq_heap (msg_sys_init idxs S) = mq_heap S" "mq_stack (msg_sys_init idxs S) = mq_stack S"
  unfolding msg_sys_init_def by (induction idxs arbitrary: S) (auto split: mq.splits)

lemma inv_sys_init:
  assumes "\<forall>q. mq_queues S q = None" "\<forall>c. mq_stack S c = []"
  shows "mq_inv P (msg_sys_init idxs S)"
proof -
  have "flight (msg_sys_init idxs S) h = []" for h using assms by (cases h) (auto simp: sys_init_queues split: mq.splits option.splits)
  moreover have "awaited (msg_sys_init idxs S) c = []" for c using assms by (simp add: awaited_def sys_init_queues)
  ultimately show ?thesis using assms by (simp add: mq_inv_def apart_def sys_init_queues)
qed

subsection \<open>The queues are safe\<close>

text \<open>C38: From the initialisation on, whatever the cores do in whatever order, the next call of the queues never touches memory
  that was freed, never frees a message twice and never fails its assertion, as long as the modules leave a message alone while
  it is on its way; a message is in one place only, is in memory and is marked as queued, and one that a core waits for is not
  freed by who receives it.\<close>

theorem queues_never_fault:
  assumes "mq_reach P UNIV (msg_sys_init idxs S0) S" "\<forall>q. mq_queues S0 q = None" "\<forall>c. mq_stack S0 c = []" "client_ok P e S"
  shows "msg_step P e S \<noteq> None \<and> apart (flight S) \<and>
    (\<forall>h. \<forall>p \<in> set (flight S h). \<exists>m. mq_heap S p = Some m \<and> msg_state m = MSG_STATE_QUEUED) \<and>
    (\<forall>c p f. FAwait p f \<in> set (mq_stack S c) \<longrightarrow> (\<exists>m. mq_heap S p = Some m \<and> \<not> MSG_FLAG_GET_TO_FREE m))"
proof -
  note I = reach_inv [OF assms(1) inv_sys_init [OF assms(2,3)]]
  from inv_step [OF I assms(4)] have "msg_step P e S \<noteq> None" by auto
  moreover have "\<forall>c p f. FAwait p f \<in> set (mq_stack S c) \<longrightarrow> (\<exists>m. mq_heap S p = Some m \<and> \<not> MSG_FLAG_GET_TO_FREE m)"
    using mq_invD(4) [OF I] by fastforce
  ultimately show ?thesis using mq_invD(1,3) [OF I] by blast
qed

subsection \<open>Three cores\<close>

text \<open>The CLI, the manager and one core that processes packets; the manager sends a message that it waits for.\<close>

definition three_cores :: mq_prm where
  "three_cores = \<lparr>mp_max_lcore = 128, mp_lcore_index = (\<lambda>l. if l < 3 then Some (unat l) else None), mp_capacity = 15\<rparr>"

definition no_memory :: mq_state where
  "no_memory = \<lparr>mq_heap = \<lambda>_. None, mq_queues = \<lambda>_. None, mq_stack = \<lambda>_. [], mq_handlers = \<lambda>_ i. i = 3,
     mq_stats = \<lambda>_. \<lparr>ms_rcvd = 0, ms_snd = 0, ms_poll = 0, ms_err = 0, ms_proc_err = 0, ms_alloc = 0, ms_alloc_err = 0, ms_free = 0\<rparr>\<rparr>"

fun mq_run :: "mq_prm \<Rightarrow> mq_event list \<Rightarrow> mq_state \<Rightarrow> mq_state option" where
  "mq_run P [] S = Some S"
| "mq_run P (e # es) S = do { S \<leftarrow> msg_step P e S; mq_run P es S }"

lemma reach_run:
  assumes "mq_run P es S = Some S'" "mq_reach P A S0 S" "set es \<subseteq> A" "\<forall>e \<in> set es. \<forall>S. client_ok P e S"
  shows "mq_reach P A S0 S'"
  using assms
proof (induction es arbitrary: S)
  case (Cons e es)
  from Cons.prems(1) obtain T where T: "msg_step P e S = Some T" "mq_run P es T = Some S'" by (auto simp: bind_eq_Some_conv)
  moreover have "mq_reach P A S0 T" using mq_reach_step [OF Cons.prems(2) _ _ T(1)] Cons.prems(3,4) by simp
  ultimately show ?case using Cons.IH Cons.prems(3,4) by simp
qed simp

definition booted :: mq_state where
  "booted = msg_sys_init [0, 1, 2] no_memory"

lemma booted_free: "mq_free booted p" "mq_heap booted = (\<lambda>_. None)" "mq_stack booted = (\<lambda>_. [])"
proof -
  have "flight booted h = []" for h by (cases h) (auto simp: booted_def no_memory_def sys_init_queues split: mq.splits)
  moreover have "awaited booted c = []" for c by (simp add: awaited_def booted_def no_memory_def sys_init_queues)
  ultimately show "mq_free booted p" by (simp add: mq_free_def del: flight.simps)
qed (simp_all add: booted_def no_memory_def sys_init_queues)

lemma alloc_reach:
  "mq_reach three_cores UNIV booted (msg_alloc 1 (Some 7) 3 2 booted)" "mq_free (msg_alloc 1 (Some 7) 3 2 booted) 7"
proof -
  show "mq_reach three_cores UNIV booted (msg_alloc 1 (Some 7) 3 2 booted)"
    using mq_reach_step [OF mq_reach_refl, of "EvAlloc 1 (Some 7) 3 2" UNIV three_cores booted] booted_free
    by (simp add: core_runs_def)
  show "mq_free (msg_alloc 1 (Some 7) 3 2 booted) 7"
    using booted_free(1) [of 7] by (simp add: mq_free_def msg_alloc_def msg_init_def del: flight.simps)
qed

theorem queues_never_fault_witness:
  "msg_step three_cores (EvSend 1 7 0) (msg_alloc 1 (Some 7) 3 2 booted) \<noteq> None"
proof -
  have "client_ok three_cores (EvSend 1 7 0) (msg_alloc 1 (Some 7) 3 2 booted)"
    using alloc_reach(2) by (simp add: msg_alloc_def msg_init_def MSG_FLAG_GET_LOCAL_def MSG_FLAG_TO_FREE_def MSG_FLAG_LOCAL_def)
  moreover have "mq_reach three_cores UNIV (msg_sys_init [0, 1, 2] no_memory) (msg_alloc 1 (Some 7) 3 2 booted)"
    using alloc_reach(1) unfolding booted_def .
  moreover have "\<forall>q. mq_queues no_memory q = None" "\<forall>c. mq_stack no_memory c = []" by (simp_all add: no_memory_def)
  ultimately show ?thesis using queues_never_fault by blast
qed

end
