(* ===== verification/MsgQLoss.thy ===== *)
theory MsgQLoss
  imports MsgQProps
begin

text \<open>
  What becomes of messages that their receiver posts again, and of those that nobody handles.
\<close>

subsection \<open>Messages that are posted again\<close>

text \<open>A message that neither a receiver nor a sender frees.\<close>

definition nobodys :: "nat \<Rightarrow> mq_state \<Rightarrow> bool" where
  "nobodys p S \<longleftrightarrow> (\<exists>m. mq_heap S p = Some m \<and> \<not> MSG_FLAG_GET_TO_FREE m) \<and> (\<forall>c. p \<notin> set (awaited S c))"

lemma nobodys_simps [simp]:
  "q \<noteq> p \<Longrightarrow> nobodys p (mq_set q x S) = nobodys p S" "nobodys p (mq_put r ps S) = nobodys p S"
  "nobodys p (upd_msg_stats c g S) = nobodys p S"
  by (simp_all add: nobodys_def)

lemma nobodys_set: "nobodys p S \<Longrightarrow> \<not> MSG_FLAG_GET_TO_FREE m \<Longrightarrow> nobodys p (mq_set p (Some m) S)"
  by (simp add: nobodys_def)

lemma nobodysD: "nobodys p S \<Longrightarrow> mq_heap S p = Some m \<Longrightarrow> \<not> MSG_FLAG_GET_TO_FREE m"
  by (auto simp: nobodys_def)

lemma nobodys_pop: "nobodys p S \<Longrightarrow> mq_stack S c = f # fs \<Longrightarrow> nobodys p (mq_calls c fs S)"
  by (auto simp: nobodys_def awaited_def dest: spec [of _ c])

lemma nobodys_push: "nobodys p S \<Longrightarrow> p \<notin> set (frame_await f) \<Longrightarrow> mq_stack S c = fs \<Longrightarrow> nobodys p (mq_calls c (f # fs) S)"
  by (auto simp: nobodys_def awaited_def dest: spec [of _ c])

lemma nobodys_polled: "nobodys p S \<Longrightarrow> nobodys p (msg_polled c e S)"
  by (auto simp: msg_polled_def Let_def intro: nobodys_pop split: list.splits mq_frame.splits)

lemma nobodys_process_done:
  assumes "msg_process_done c q f e S = Some S'" "nobodys p S" "q = p \<longrightarrow> \<not> f"
  shows "nobodys p S'"
  using assms by (cases "q = p") (auto simp: msg_process_done_def msg_free_def
      intro!: nobodys_polled nobodys_set dest: nobodysD split: bind_splits if_splits)

lemma nobodys_do_send:
  assumes "msg_do_send c q r flags g S = Some S'" "nobodys p S" "q = p \<longrightarrow> flags AND MSG_SND_FLAG_NOWAIT \<noteq> 0"
  shows "nobodys p S'"
  using assms nobodysD [OF assms(2)] by (cases "q = p")
    (auto simp: msg_do_send_def Let_def intro!: nobodys_push nobodys_set split: bind_splits if_splits)

lemma nobodys_send_local:
  assumes "msg_send_local P c q flags g S = Some (Inr S')" "nobodys p S" "q = p \<longrightarrow> flags AND MSG_SND_FLAG_NOWAIT \<noteq> 0"
  shows "nobodys p S'"
  using assms by (auto simp: msg_send_local_def intro: nobodys_do_send split: bind_splits if_splits option.splits)

lemma nobodys_poll_queue:
  assumes "msg_poll_queue c q S = Some S'" "nobodys p S"
  shows "nobodys p S'"
  using assms
  by (auto simp: msg_poll_queue_def msg_process_def Let_def intro!: nobodys_polled nobodys_push intro: nobodys_pop
      split: option.splits list.splits mq_frame.splits bind_splits if_splits)

lemma process_return_cases:
  assumes s: "mq_stack S c = FHandler p f # fs" and r: "msg_process_return P c e S = Some S'"
  obtains (finished) "e \<noteq> - EAGAIN" "msg_process_done c p f e (mq_calls c fs S) = Some S'"
  | (failed) m e' where
      "msg_process_done c p f e' (mq_set p (Some (MSG_FLAG_RESET_TO_FREE m)) (mq_calls c fs S)) = Some S'"
  | (reposted) m where "e = - EAGAIN" "mq_heap S p = Some m"
      "msg_send_local P c p MSG_SND_FLAG_NOWAIT (Some f)
         (mq_set p (Some (MSG_FLAG_RESET_TO_FREE m)) (mq_calls c fs S)) = Some (Inr S')"
proof -
  from r s obtain m where m: "mq_heap S p = Some m" by (auto simp: msg_process_return_def bind_eq_Some_conv)
  show thesis
  proof (cases "e = - EAGAIN")
    case True
    with r s m obtain x where "msg_send_local P c p MSG_SND_FLAG_NOWAIT (Some f)
         (mq_set p (Some (MSG_FLAG_RESET_TO_FREE m)) (mq_calls c fs S)) = Some x"
      "(case x of Inl e \<Rightarrow> msg_process_done c p f e (mq_set p (Some (MSG_FLAG_RESET_TO_FREE m)) (mq_calls c fs S)) | Inr S \<Rightarrow> Some S) = Some S'"
      by (auto simp: msg_process_return_def Let_def bind_eq_Some_conv)
    then show thesis using True m failed reposted by (cases x) auto
  qed (use r s m finished in \<open>auto simp: msg_process_return_def\<close>)
qed

lemma nowait_set: "MSG_SND_FLAG_NOWAIT AND MSG_SND_FLAG_NOWAIT \<noteq> 0"
  by (simp add: MSG_SND_FLAG_NOWAIT_def)

lemma nobodys_step:
  assumes I: "mq_inv P S" and st: "msg_step P e S = Some S'" and n: "nobodys p S" and t: "\<not> touches p e"
  shows "nobodys p S'"
proof (cases e)
  case (EvAlloc c q i d)
  with st n t show ?thesis by (auto simp: msg_alloc_def msg_init_def split: option.splits if_splits)
next
  case (EvInit c q i d f)
  with st n t show ?thesis by (auto simp: msg_init_def split: if_splits)
next
  case (EvFree c q)
  with st n t show ?thesis by (auto simp: msg_free_def split: if_splits)
next
  case (EvSend c q f)
  with st n t show ?thesis
    by (auto simp: msg_send_def msg_send_local_def msg_send_remote_def intro: nobodys_do_send
        split: bind_splits if_splits option.splits sum.splits)
next
  case (EvEnqueue c)
  show ?thesis
  proof (cases "\<exists>q r b w f g fs. mq_stack S c = FEnqueue q r b w f g # fs")
    case True
    then obtain q r b w f g fs where s: "mq_stack S c = FEnqueue q r b w f g # fs" by blast
    have g: "g \<noteq> None \<longrightarrow> \<not> b" using mq_invD(4) [OF I, of "FEnqueue q r b w f g" c] s by auto
    have "nobodys p (mq_calls c fs (mq_put r ps S))" for ps using nobodys_pop [of p "mq_put r ps S"] n s by simp
    moreover have "nobodys p (mq_calls c (FAwait q f # fs) (mq_put r ps S))" if "\<not> w" for ps
      using n s that by (auto simp: nobodys_def awaited_def dest: spec [of _ c])
    ultimately show ?thesis using st EvEnqueue s n g nobodys_pop [OF n s]
      by (auto simp: msg_enqueue_def Let_def intro!: nobodys_polled split: bind_splits if_splits option.splits)
  qed (use st EvEnqueue n in \<open>auto simp: msg_enqueue_def split: list.splits mq_frame.splits\<close>)
next
  case (EvAwait c)
  show ?thesis
  proof (cases "\<exists>q f fs. mq_stack S c = FAwait q f # fs")
    case True
    then obtain q f fs where s: "mq_stack S c = FAwait q f # fs" by blast
    have "q \<noteq> p" using n s by (auto simp: nobodys_def awaited_def dest: spec [of _ c])
    then show ?thesis using st EvAwait s n nobodys_pop [OF n s]
      by (auto simp: msg_await_def mq_commute split: bind_splits if_splits)
  qed (use st EvAwait n in \<open>auto simp: msg_await_def split: list.splits mq_frame.splits\<close>)
next
  case (EvPoll c)
  with st n show ?thesis
    using nobodys_poll_queue [OF _ nobodys_push [of p S FLocal c "[]"]] by (auto simp: msg_poll_def split: if_splits)
next
  case (EvPollLocal c)
  with st n show ?thesis
    using nobodys_poll_queue [OF _ nobodys_pop [of p S c FLocal "[]"]] by (auto simp: msg_poll_local_def split: if_splits)
next
  case (EvReturn c err)
  show ?thesis
  proof (cases "\<exists>q f fs. mq_stack S c = FHandler q f # fs")
    case True
    then obtain q f fs where s: "mq_stack S c = FHandler q f # fs" by blast
    have ok: "frame_ok S (FHandler q f)" using mq_invD(4) [OF I, of "FHandler q f" c] s by simp
    have f: "q = p \<longrightarrow> \<not> f" using ok n by (auto simp: nobodys_def)
    note pop = nobodys_pop [OF n s]
    have re: "nobodys p (mq_set q (Some (MSG_FLAG_RESET_TO_FREE m)) (mq_calls c fs S))" for m
      using pop by (cases "q = p") (auto intro: nobodys_set)
    from st EvReturn have "msg_process_return P c err S = Some S'" by simp
    then show ?thesis
      by (rule process_return_cases [OF s]) (use pop f re nowait_set in \<open>blast intro: nobodys_process_done nobodys_send_local\<close>)+
  qed (use st EvReturn n in \<open>auto simp: msg_process_return_def split: list.splits mq_frame.splits\<close>)
qed

lemma nobodys_reach:
  assumes "mq_reach P A S0 S" "mq_inv P S0" "nobodys p S0" "\<forall>e \<in> A. \<not> touches p e"
  shows "nobodys p S"
  using assms(1)
proof (induction rule: mq_reach.induct)
  case (mq_reach_step S e S')
  then show ?case using nobodys_step [OF reach_inv [OF mq_reach_step(1) assms(2)]] assms(4) by blast
qed (rule assms(3))

subsection \<open>Messages that nobody handles\<close>

text \<open>A core waits for a message that is nowhere on its way.\<close>

definition stuck :: "nat \<Rightarrow> nat \<Rightarrow> bool \<Rightarrow> mq_frame list \<Rightarrow> mq_state \<Rightarrow> bool" where
  "stuck c p f fs S \<longleftrightarrow> mq_stack S c = FAwait p f # fs \<and> (\<forall>h. p \<notin> set (flight S h)) \<and>
     (\<exists>m. mq_heap S p = Some m \<and> msg_state m \<noteq> MSG_STATE_DEQUEUED)"

lemma stuck_simps [simp]:
  "q \<noteq> p \<Longrightarrow> stuck c p f fs (mq_set q x S) = stuck c p f fs S"
  "stuck c p f fs (upd_msg_stats d g S) = stuck c p f fs S"
  by (simp_all add: stuck_def)

lemma stuckD:
  assumes "stuck c p f fs S"
  shows "mq_stack S c = FAwait p f # fs" "\<And>h. p \<notin> set (flight S h)"
    "\<And>m. mq_heap S p = Some m \<Longrightarrow> msg_state m \<noteq> MSG_STATE_DEQUEUED" "mq_heap S p \<noteq> None"
  using assms by (auto simp: stuck_def)

lemma stuck_put: "stuck c p f fs S \<Longrightarrow> p \<notin> set ps \<Longrightarrow> stuck c p f fs (mq_put r ps S)"
  by (simp add: stuck_def)

lemma stuck_calls:
  "stuck c p f fs S \<Longrightarrow> d \<noteq> c \<Longrightarrow> p \<notin> set (List.concat (map frame_flight gs)) \<Longrightarrow> stuck c p f fs (mq_calls d gs S)"
  by (simp add: stuck_def)

lemma stuck_pop:
  assumes t: "stuck c p f fs S" and s: "mq_stack S d = g # gs" "\<And>q b. g \<noteq> FAwait q b"
  shows "d \<noteq> c" "p \<notin> set (frame_flight g)" "p \<notin> set (List.concat (map frame_flight gs))" "stuck c p f fs (mq_calls d gs S)"
proof -
  show d: "d \<noteq> c" using stuckD(1) [OF t] s by auto
  show "p \<notin> set (frame_flight g)" "p \<notin> set (List.concat (map frame_flight gs))" using stuckD(2) [OF t, of "HCore d"] s by auto
  then show "stuck c p f fs (mq_calls d gs S)" by (intro stuck_calls [OF t d])
qed

lemma stuck_push:
  assumes t: "stuck c p f fs S" and d: "d \<noteq> c" "mq_stack S d = gs" "p \<notin> set (frame_flight g)"
  shows "stuck c p f fs (mq_calls d (g # gs) S)"
  using stuckD(2) [OF t, of "HCore d"] d by (intro stuck_calls [OF t]) auto

lemma stuck_polled: "stuck c p f fs S \<Longrightarrow> stuck c p f fs (msg_polled d e S)"
  using stuck_pop(4) [of c p f fs "upd_msg_stats d (\<lambda>s. s\<lparr>ms_proc_err := ms_proc_err s + 1\<rparr>) S" d FLocal]
  by (auto simp: msg_polled_def Let_def split: list.splits mq_frame.splits)

lemma stuck_process_done:
  assumes "msg_process_done d q g e S = Some S'" "stuck c p f fs S" "q \<noteq> p"
  shows "stuck c p f fs S'"
  using assms by (auto simp: msg_process_done_def msg_free_def bind_eq_Some_conv intro!: stuck_polled split: if_splits)

lemma stuck_do_send:
  assumes "msg_do_send d q r flags g S = Some S'" "stuck c p f fs S" "q \<noteq> p" "d \<noteq> c"
  shows "stuck c p f fs S'"
  using assms by (auto simp: msg_do_send_def Let_def bind_eq_Some_conv intro!: stuck_push)

lemma stuck_send_local:
  assumes "msg_send_local P d q flags g S = Some (Inr S')" "stuck c p f fs S" "q \<noteq> p" "d \<noteq> c"
  shows "stuck c p f fs S'"
  using assms by (auto simp: msg_send_local_def bind_eq_Some_conv intro: stuck_do_send split: if_splits option.splits)

lemma stuck_send:
  assumes "msg_send P d q flags S = Some (Inr S')" "stuck c p f fs S" "q \<noteq> p" "d \<noteq> c"
  shows "stuck c p f fs S'"
  using assms by (auto simp: msg_send_def msg_send_remote_def bind_eq_Some_conv intro: stuck_do_send stuck_send_local
      split: if_splits option.splits)

lemma stuck_poll_queue:
  assumes q: "msg_poll_queue d q S = Some S'" and t: "stuck c p f fs S" and d: "d \<noteq> c"
  shows "stuck c p f fs S'"
proof (cases "mq_queues S q")
  case None
  then show ?thesis using q t stuck_pop(4) [OF t, of d FLocal]
    by (auto simp: msg_poll_queue_def split: list.splits mq_frame.splits)
next
  case (Some qs)
  have "p \<notin> set qs" using stuckD(2) [OF t, of "HQueue q"] Some by simp
  then show ?thesis using q t d Some
    by (auto simp: msg_poll_queue_def msg_process_def Let_def bind_eq_Some_conv intro!: stuck_polled stuck_push stuck_put
        split: list.splits if_splits)
qed

lemma apart_core:
  assumes I: "mq_inv P S" and "mq_stack S c = FAwait p f # fs" "mq_stack S d = FAwait p g # gs"
  shows "c = d"
proof -
  have "p \<in> set (awaited S c)" "p \<in> set (awaited S d)" using assms(2,3) by (simp_all add: awaited_def)
  with mq_invD(2) [OF I] show ?thesis unfolding apart_def by blast
qed

lemma stuck_step:
  assumes I: "mq_inv P S" and k: "client_ok P e S" and st: "msg_step P e S = Some S'" and t: "stuck c p f fs S"
  shows "stuck c p f fs S'"
proof -
  have aw: "p \<in> set (awaited S c)" using stuckD(1) [OF t] by (simp add: awaited_def)
  then have free: "q \<noteq> p" if "mq_free S q" for q using that by (auto simp: mq_free_def)
  have runs: "d \<noteq> c" if "core_runs d S" for d using that stuckD(1) [OF t] by (auto simp: core_runs_def)
  show ?thesis
  proof (cases e)
    case (EvAlloc d q i l)
    then have "q \<noteq> Some p" using k free [of p] by auto
    with EvAlloc st t show ?thesis by (auto simp: msg_alloc_def msg_init_def split: option.splits if_splits)
  next
    case (EvInit d q i l g)
    then have "q \<noteq> p" using k free [of q] by simp
    with EvInit st t show ?thesis by (auto simp: msg_init_def split: if_splits)
  next
    case (EvFree d q)
    then have "q \<noteq> p" using k free [of q] by simp
    with EvFree st t show ?thesis by (auto simp: msg_free_def split: if_splits)
  next
    case (EvSend d q g)
    then have q: "q \<noteq> p" using k free [of q] by simp
    show ?thesis
    proof (cases "core_runs d S")
      case True
      with EvSend st obtain r where r: "msg_send P d q g S = Some r" "S' = (case r of Inl _ \<Rightarrow> S | Inr S \<Rightarrow> S)" by auto
      then show ?thesis using t stuck_send [OF _ t q runs [OF True]] by (cases r) auto
    qed (use EvSend st t in auto)
  next
    case (EvEnqueue d)
    show ?thesis
    proof (cases "\<exists>q r b w g h gs. mq_stack S d = FEnqueue q r b w g h # gs")
      case True
      then obtain q r b w g h gs where s: "mq_stack S d = FEnqueue q r b w g h # gs" by blast
      note pop = stuck_pop [OF t s, simplified]
      have "p \<notin> set ps" if "mq_queues S r = Some ps" for ps using stuckD(2) [OF t, of "HQueue r"] that by simp
      moreover have "stuck c p f fs (mq_calls d (FAwait q g # gs) S)" using pop by (intro stuck_calls [OF t]) auto
      ultimately show ?thesis using st EvEnqueue s pop t
        by (auto simp: msg_enqueue_def Let_def mq_commute bind_eq_Some_conv intro!: stuck_polled stuck_put
            intro: stuck_process_done split: if_splits option.splits)
    qed (use st EvEnqueue t in \<open>auto simp: msg_enqueue_def split: list.splits mq_frame.splits\<close>)
  next
    case (EvAwait d)
    show ?thesis
    proof (cases "\<exists>q g gs. mq_stack S d = FAwait q g # gs \<and> d \<noteq> c")
      case True
      then obtain q g gs where s: "mq_stack S d = FAwait q g # gs" and d: "d \<noteq> c" by blast
      have "q \<noteq> p" using apart_core [OF I stuckD(1) [OF t], of d g gs] s d by blast
      moreover have "stuck c p f fs (mq_calls d gs S)"
        using stuckD(2) [OF t, of "HCore d"] s by (intro stuck_calls [OF t d]) simp
      ultimately show ?thesis using st EvAwait s
        by (auto simp: msg_await_def mq_commute bind_eq_Some_conv split: if_splits) (use t in auto)
    next
      case False
      then show ?thesis using st EvAwait t stuckD [OF t]
        by (auto simp: msg_await_def bind_eq_Some_conv split: list.splits mq_frame.splits if_splits)
    qed
  next
    case (EvPoll d)
    have "stuck c p f fs (mq_calls d [FLocal] S)" if "mq_stack S d = []"
      using that stuckD(1) [OF t] by (intro stuck_calls [OF t]) auto
    with st t EvPoll stuckD(1) [OF t] show ?thesis
      by (auto simp: msg_poll_def intro: stuck_poll_queue split: if_splits)
  next
    case (EvPollLocal d)
    with st t stuck_pop [OF t, of d FLocal "[]"] show ?thesis
      by (auto simp: msg_poll_local_def intro: stuck_poll_queue split: if_splits)
  next
    case (EvReturn d err)
    show ?thesis
    proof (cases "\<exists>q g gs. mq_stack S d = FHandler q g # gs")
      case True
      then obtain q g gs where s: "mq_stack S d = FHandler q g # gs" by blast
      note pop = stuck_pop [OF t s, simplified]
      from st EvReturn have "msg_process_return P d err S = Some S'" by simp
      then show ?thesis
        by (rule process_return_cases [OF s])
          (use pop in \<open>auto intro: stuck_process_done stuck_send_local\<close>)
    qed (use st EvReturn t in \<open>auto simp: msg_process_return_def split: list.splits mq_frame.splits\<close>)
  qed
qed

lemma stuck_reach:
  assumes "mq_reach P A S0 S" "mq_inv P S0" "stuck c p f fs S0"
  shows "stuck c p f fs S"
  using assms(1)
proof (induction rule: mq_reach.induct)
  case (mq_reach_step S e S')
  then show ?case using stuck_step [OF reach_inv [OF mq_reach_step(1) assms(2)]] by blast
qed (rule assms(3))

subsection \<open>What is lost\<close>

lemma booted_inv: "mq_reach P A (msg_sys_init idxs S0) S \<Longrightarrow> \<forall>q. mq_queues S0 q = None \<Longrightarrow> \<forall>c. mq_stack S0 c = [] \<Longrightarrow> mq_inv P S"
  by (rule reach_inv [OF _ inv_sys_init])

text \<open>Posting a message again never fails.\<close>

lemma repost_sent:
  assumes I: "mq_inv P S" and s: "mq_stack S c = FHandler p f # fs" and r: "msg_process_return P c (- EAGAIN) S = Some S'"
  obtains m where "msg_send_local P c p MSG_SND_FLAG_NOWAIT (Some f)
         (mq_set p (Some (MSG_FLAG_RESET_TO_FREE m)) (mq_calls c fs S)) = Some (Inr S')"
proof -
  let ?T = "mq_calls c fs S"
  from mq_invD(3) [OF I, of p "HCore c"] s obtain m where m: "mq_heap S p = Some m" "deliverable P S m" by auto
  have T: "mq_inv P ?T" "\<forall>h. p \<notin> set (flight ?T h)" using inv_pop [OF I s] pop_flight [OF I s] by simp_all
  let ?U = "mq_set p (Some (MSG_FLAG_RESET_TO_FREE m)) ?T"
  have U: "mq_inv P ?U" using inv_set [OF T] by simp
  obtain S'' where "msg_send_local P c p MSG_SND_FLAG_NOWAIT (Some f) ?U = Some (Inr S'')"
    using inv_send_local [OF U, of p "MSG_FLAG_RESET_TO_FREE m" "Some f" MSG_SND_FLAG_NOWAIT c] T(2) m(2) nowait_set by auto
  with r s m that show thesis by (simp add: msg_process_return_def Let_def)
qed

text \<open>C39: A message that its receiver would have freed and whose handler asks to have it posted again is never freed by the
  queues any more, however often it is handled afterwards and whatever the handler answers then: unless a module frees it, it stays
  in memory. The modules that ask for this do not free the message.\<close>

theorem reposted_message_is_lost:
  assumes "mq_reach P UNIV (msg_sys_init idxs S0) S" "\<forall>q. mq_queues S0 q = None" "\<forall>c. mq_stack S0 c = []"
    "mq_stack S core = FHandler p True # fs" "msg_process_return P core (- EAGAIN) S = Some S1"
    "mq_reach P {e. \<not> touches p e} S1 S2"
  shows "mq_heap S2 p \<noteq> None"
proof -
  note I = booted_inv [OF assms(1-3)]
  let ?T = "mq_calls core fs S"
  have I1: "mq_inv P S1" using inv_process_return [OF I, of core "- EAGAIN"] assms(5) by auto
  from mq_invD(3) [OF I, of p "HCore core"] assms(4) obtain m where m: "mq_heap S p = Some m" by auto
  have "MSG_FLAG_GET_TO_FREE m" using mq_invD(4) [OF I, of "FHandler p True" core] assms(4) m by simp
  moreover have "p \<in> set (awaited ?T c) \<Longrightarrow> \<not> MSG_FLAG_GET_TO_FREE m" for c
    using awaited_not_freed [OF inv_pop [OF I assms(4)], of p c m] m by simp
  ultimately have "p \<notin> set (awaited ?T c)" for c by blast
  then have n: "nobodys p (mq_set p (Some (MSG_FLAG_RESET_TO_FREE m)) ?T)" for m by (simp add: nobodys_def)
  obtain m' where "msg_send_local P core p MSG_SND_FLAG_NOWAIT (Some True)
         (mq_set p (Some (MSG_FLAG_RESET_TO_FREE m')) ?T) = Some (Inr S1)" using repost_sent [OF I assms(4,5)] .
  from nobodys_send_local [OF this n] nowait_set have "nobodys p S1" by blast
  from nobodys_reach [OF assms(6) I1 this] show ?thesis by (auto simp: nobodys_def)
qed

text \<open>C40: A core that sends a message and waits for it waits for ever if nobody registered a handler for the identifier of the
  message (or it names no module): who receives it drops it without telling the sender. No event of any core ends the wait.\<close>

theorem unhandled_message_blocks_sender:
  assumes "mq_reach P UNIV (msg_sys_init idxs S0) S" "\<forall>q. mq_queues S0 q = None" "\<forall>c. mq_stack S0 c = []"
    "mq_stack S core = FAwait p f # fs" "mq_stack S d = []" "mq_queues S (QRemote d) = Some (p # ps)" "mq_heap S p = Some m"
    "MSGID2MODULE (msg_id m) \<ge> MSG_MODULE_MAX \<or> \<not> mq_handlers S (MSGID2MODULE (msg_id m)) (MSGID2ID (msg_id m))"
    "msg_step P (EvPoll d) S = Some S1" "mq_reach P UNIV S1 S2"
  shows "mq_stack S2 core = FAwait p f # fs"
proof -
  note I = booted_inv [OF assms(1-3)]
  have I1: "mq_inv P S1" using inv_step [OF I, of "EvPoll d"] assms(9) by auto
  let ?g = "\<lambda>s. s\<lparr>ms_poll := ms_poll s + 1\<rparr>" and ?h = "\<lambda>s. s\<lparr>ms_rcvd := ms_rcvd s + 1\<rparr>"
  let ?T = "upd_msg_stats d ?g (mq_calls d [FLocal] S)"
  let ?U = "upd_msg_stats d ?h (mq_put (QRemote d) ps ?T)"
  have "mq_inv P (mq_calls d (FLocal # mq_stack S d) S)" by (rule inv_push [OF I]) simp_all
  then have T: "mq_inv P ?T" "mq_queues ?T (QRemote d) = Some (p # ps)" using assms(5,6) by simp_all
  have "msg_state m = MSG_STATE_QUEUED" using mq_invD(3) [OF I, of p "HQueue (QRemote d)"] assms(6,7) by simp
  moreover have "d \<noteq> core" using assms(4,5) by auto
  ultimately have "stuck core p f fs ?U" using inv_queue_take(2) [OF T] assms(4,7) by (simp add: stuck_def)
  then have "stuck core p f fs (msg_polled d e ?U)" for e by (rule stuck_polled)
  moreover have "\<exists>e. S1 = msg_polled d e ?U"
    using assms(5-9) by (auto simp: msg_poll_def msg_poll_queue_def msg_process_def Let_def split: if_splits)
  ultimately have "stuck core p f fs S1" by auto
  from stuckD(1) [OF stuck_reach [OF assms(10) I1 this]] show ?thesis .
qed

subsection \<open>On three cores\<close>

text \<open>The manager sends message 7; the packet core polls. The run computes.\<close>

definition sent :: "u16 \<Rightarrow> u32 \<Rightarrow> mq_state" where
  "sent i flags = the (msg_step three_cores (EvSend 1 7 flags) (msg_alloc 1 (Some 7) i 2 booted))"

lemma sent_reach:
  assumes "msg_step three_cores (EvSend 1 7 flags) (msg_alloc 1 (Some 7) i 2 booted) \<noteq> None"
  shows "mq_reach three_cores UNIV booted (sent i flags)"
proof -
  let ?S = "msg_alloc 1 (Some 7) i 2 booted"
  have "mq_reach three_cores UNIV booted ?S"
    using mq_reach_step [OF mq_reach_refl, of "EvAlloc 1 (Some 7) i 2" UNIV three_cores booted] booted_free
    by (simp add: core_runs_def)
  moreover have "mq_free ?S 7"
    using booted_free(1) [of 7] by (simp add: mq_free_def msg_alloc_def msg_init_def del: flight.simps)
  then have "client_ok three_cores (EvSend 1 7 flags) ?S"
    by (simp add: msg_alloc_def msg_init_def MSG_FLAG_GET_LOCAL_def MSG_FLAG_TO_FREE_def MSG_FLAG_LOCAL_def)
  moreover have "msg_step three_cores (EvSend 1 7 flags) ?S = Some (sent i flags)"
    using assms by (auto simp: sent_def simp del: msg_step.simps)
  ultimately show ?thesis using mq_reach_step UNIV_I by blast
qed

lemma sent_run:
  assumes "\<not> Option.is_none (msg_step three_cores (EvSend 1 7 flags) (msg_alloc 1 (Some 7) i 2 booted))"
    "\<not> Option.is_none (mq_run three_cores es (sent i flags))" "\<forall>e \<in> set es. \<forall>S. client_ok three_cores e S"
  shows "mq_reach three_cores UNIV (msg_sys_init [0, 1, 2] no_memory) (the (mq_run three_cores es (sent i flags)))"
proof -
  obtain S where "mq_run three_cores es (sent i flags) = Some S" using assms(2) by (auto simp: Option.is_none_def)
  then have "mq_reach three_cores UNIV booted (the (mq_run three_cores es (sent i flags)))"
    using reach_run sent_reach assms(1,3) by (simp add: Option.is_none_def)
  then show ?thesis unfolding booted_def .
qed

definition handled :: mq_state where
  "handled = the (mq_run three_cores [EvEnqueue 1, EvPoll 2] (sent 3 MSG_SND_FLAG_NOWAIT))"

definition reposted :: mq_state where
  "reposted = the (msg_process_return three_cores 2 (- EAGAIN) handled)"

lemma handled_facts:
  "\<not> Option.is_none (msg_step three_cores (EvSend 1 7 MSG_SND_FLAG_NOWAIT) (msg_alloc 1 (Some 7) 3 2 booted))"
  "\<not> Option.is_none (mq_run three_cores [EvEnqueue 1, EvPoll 2] (sent 3 MSG_SND_FLAG_NOWAIT))"
  "mq_stack handled 2 = [FHandler 7 True, FLocal]"
  "\<not> Option.is_none (msg_process_return three_cores 2 (- EAGAIN) handled)"
  "\<not> Option.is_none (mq_run three_cores [EvEnqueue 2, EvPollLocal 2, EvReturn 2 0] reposted)"
  by code_simp+

lemma no_memory_facts: "\<forall>q. mq_queues no_memory q = None" "\<forall>c. mq_stack no_memory c = []"
  by (simp_all add: no_memory_def)

lemma some_the: "\<not> Option.is_none x \<Longrightarrow> x = Some (the x)"
  by (auto simp: Option.is_none_def)

theorem reposted_message_is_lost_witness:
  "mq_heap (the (mq_run three_cores [EvEnqueue 2, EvPollLocal 2, EvReturn 2 0] reposted)) 7 \<noteq> None"
proof -
  have "mq_reach three_cores UNIV (msg_sys_init [0, 1, 2] no_memory) handled"
    unfolding handled_def by (rule sent_run [OF handled_facts(1,2)]) auto
  moreover have "msg_process_return three_cores 2 (- EAGAIN) handled = Some reposted"
    unfolding reposted_def by (rule some_the [OF handled_facts(4)])
  moreover have "mq_reach three_cores {e. \<not> touches 7 e} reposted
      (the (mq_run three_cores [EvEnqueue 2, EvPollLocal 2, EvReturn 2 0] reposted))"
    by (rule reach_run [OF some_the [OF handled_facts(5)] mq_reach_refl]) auto
  ultimately show ?thesis using reposted_message_is_lost [OF _ no_memory_facts handled_facts(3)] by blast
qed

definition waiting :: mq_state where
  "waiting = the (mq_run three_cores [EvEnqueue 1] (sent 4 0))"

definition dropped :: mq_state where
  "dropped = the (msg_step three_cores (EvPoll 2) waiting)"

lemma waiting_facts:
  "\<not> Option.is_none (msg_step three_cores (EvSend 1 7 0) (msg_alloc 1 (Some 7) 4 2 booted))"
  "\<not> Option.is_none (mq_run three_cores [EvEnqueue 1] (sent 4 0))"
  "mq_stack waiting 1 = [FAwait 7 True]" "mq_stack waiting 2 = []" "mq_queues waiting (QRemote 2) = Some [7]"
  "\<not> Option.is_none (mq_heap waiting 7)"
  "\<not> mq_handlers waiting (MSGID2MODULE (msg_id (the (mq_heap waiting 7)))) (MSGID2ID (msg_id (the (mq_heap waiting 7))))"
  "\<not> Option.is_none (msg_step three_cores (EvPoll 2) waiting)"
  "\<not> Option.is_none (mq_run three_cores [EvAwait 1, EvPollLocal 2, EvPoll 2, EvAwait 1] dropped)"
  by code_simp+

theorem unhandled_message_blocks_sender_witness:
  "mq_stack (the (mq_run three_cores [EvAwait 1, EvPollLocal 2, EvPoll 2, EvAwait 1] dropped)) 1 = [FAwait 7 True]"
proof -
  have "mq_reach three_cores UNIV (msg_sys_init [0, 1, 2] no_memory) waiting"
    unfolding waiting_def by (rule sent_run [OF waiting_facts(1,2)]) auto
  moreover have "msg_step three_cores (EvPoll 2) waiting = Some dropped"
    unfolding dropped_def by (rule some_the [OF waiting_facts(8)])
  moreover have "mq_reach three_cores UNIV dropped
      (the (mq_run three_cores [EvAwait 1, EvPollLocal 2, EvPoll 2, EvAwait 1] dropped))"
    by (rule reach_run [OF some_the [OF waiting_facts(9)] mq_reach_refl]) auto
  ultimately show ?thesis
    using unhandled_message_blocks_sender [OF _ no_memory_facts waiting_facts(3,4,5) some_the [OF waiting_facts(6)]]
      waiting_facts(7) by blast
qed

end
