(* ===== verification/MgmtStats.thy ===== *)
theory MgmtStats
  imports MgmtApi NetTypes Udp MsgQ
begin

text \<open>
  The statistics that the management interface adds up and clears, the counters of a link and the options of a port:
  \<^verbatim>\<open>src/tpg_test_mgmt_api.c\<close>, \<^verbatim>\<open>inc/tpg_stats.h\<close>, \<^verbatim>\<open>src/tpg_port.c\<close>.

  Every core counts for itself in an array of the ports, which a core may not have. The counters of a driver, its
  clock, and whether it starts again are arguments. The software is taken as configured without
  \<^verbatim>\<open>_SPEEDY_PKT_PARSE_\<close>.
\<close>

subsection \<open>Statistics of the cores\<close>

type_synonym 's core_stats = "nat \<Rightarrow> (u32 \<Rightarrow> 's) option"

text \<open>The loop over the statistics of a port that the cores have.\<close>

definition STATS_FOREACH_CORE :: "('s \<Rightarrow> 'a \<Rightarrow> 'a) \<Rightarrow> nat list \<Rightarrow> 's core_stats \<Rightarrow> u32 \<Rightarrow> 'a \<Rightarrow> 'a" where
  "STATS_FOREACH_CORE f cores S eth_port =
     fold (\<lambda>core acc. case S core of None \<Rightarrow> acc | Some stats \<Rightarrow> f (stats eth_port) acc) cores"

text \<open>The same when the loop writes to them.\<close>

definition STATS_UPDATE_CORE :: "('s \<Rightarrow> 's) \<Rightarrow> nat list \<Rightarrow> u32 \<Rightarrow> 's core_stats \<Rightarrow> 's core_stats" where
  "STATS_UPDATE_CORE f cores eth_port =
     fold (\<lambda>core S. case S core of None \<Rightarrow> S | Some stats \<Rightarrow> S(core := Some (stats(eth_port := f (stats eth_port))))) cores"

definition STATS_CLEAR :: "'s \<Rightarrow> nat list \<Rightarrow> u32 \<Rightarrow> 's core_stats \<Rightarrow> 's core_stats" where
  "STATS_CLEAR zero = STATS_UPDATE_CORE (\<lambda>_. zero)"

record port_stats =
  ps_received_pkts :: u64
  ps_received_bytes :: u64
  ps_sent_pkts :: u64
  ps_sent_bytes :: u64
  ps_sent_failure :: u64
  ps_received_ring_if_failed :: u64
  ps_sent_sim_failure :: u64

text \<open>The body of each loop.\<close>

definition port_stats_zero :: port_stats where
  "port_stats_zero =
     \<lparr>ps_received_pkts = 0, ps_received_bytes = 0, ps_sent_pkts = 0, ps_sent_bytes = 0, ps_sent_failure = 0,
      ps_received_ring_if_failed = 0, ps_sent_sim_failure = 0\<rparr>"

definition port_stats_add :: "port_stats \<Rightarrow> port_stats \<Rightarrow> port_stats" where
  "port_stats_add s t =
     t\<lparr>ps_received_pkts := ps_received_pkts t + ps_received_pkts s,
       ps_received_bytes := ps_received_bytes t + ps_received_bytes s,
       ps_sent_pkts := ps_sent_pkts t + ps_sent_pkts s, ps_sent_bytes := ps_sent_bytes t + ps_sent_bytes s,
       ps_sent_failure := ps_sent_failure t + ps_sent_failure s,
       ps_received_ring_if_failed := ps_received_ring_if_failed t + ps_received_ring_if_failed s,
       ps_sent_sim_failure := ps_sent_sim_failure t + ps_sent_sim_failure s\<rparr>"

definition eth_stats_zero :: eth_stats where
  "eth_stats_zero =
     \<lparr>es_etype_arp = 0, es_etype_ipv4 = 0, es_etype_ipv6 = 0, es_etype_other = 0, es_etype_vlan = 0,
      es_to_small_fragment = 0, es_no_tx_mbuf = 0\<rparr>"

definition eth_stats_add :: "eth_stats \<Rightarrow> eth_stats \<Rightarrow> eth_stats" where
  "eth_stats_add s t =
     t\<lparr>es_etype_arp := es_etype_arp t + es_etype_arp s, es_etype_ipv4 := es_etype_ipv4 t + es_etype_ipv4 s,
       es_etype_ipv6 := es_etype_ipv6 t + es_etype_ipv6 s, es_etype_vlan := es_etype_vlan t + es_etype_vlan s,
       es_etype_other := es_etype_other t + es_etype_other s,
       es_to_small_fragment := es_to_small_fragment t + es_to_small_fragment s,
       es_no_tx_mbuf := es_no_tx_mbuf t + es_no_tx_mbuf s\<rparr>"

definition arp_stats_zero :: arp_stats where
  "arp_stats_zero =
     \<lparr>as_received_req = 0, as_received_rep = 0, as_received_other = 0, as_req_not_mine = 0, as_sent_req = 0,
      as_sent_req_failed = 0, as_sent_rep = 0, as_sent_rep_failed = 0, as_to_small_fragment = 0,
      as_invalid_hw_space = 0, as_invalid_proto_space = 0, as_invalid_hw_len = 0, as_invalid_proto_len = 0\<rparr>"

definition arp_stats_add :: "arp_stats \<Rightarrow> arp_stats \<Rightarrow> arp_stats" where
  "arp_stats_add s t =
     t\<lparr>as_received_req := as_received_req t + as_received_req s,
       as_received_rep := as_received_rep t + as_received_rep s,
       as_received_other := as_received_other t + as_received_other s, as_sent_req := as_sent_req t + as_sent_req s,
       as_sent_req_failed := as_sent_req_failed t + as_sent_req_failed s,
       as_sent_rep := as_sent_rep t + as_sent_rep s,
       as_sent_rep_failed := as_sent_rep_failed t + as_sent_rep_failed s,
       as_to_small_fragment := as_to_small_fragment t + as_to_small_fragment s,
       as_invalid_hw_space := as_invalid_hw_space t + as_invalid_hw_space s,
       as_invalid_hw_len := as_invalid_hw_len t + as_invalid_hw_len s,
       as_invalid_proto_space := as_invalid_proto_space t + as_invalid_proto_space s,
       as_invalid_proto_len := as_invalid_proto_len t + as_invalid_proto_len s,
       as_req_not_mine := as_req_not_mine t + as_req_not_mine s\<rparr>"

definition route_stats_zero :: route_stats where
  "route_stats_zero =
     \<lparr>rs_intf_add = 0, rs_intf_del = 0, rs_gw_add = 0, rs_gw_del = 0, rs_tbl_full = 0, rs_intf_nomem = 0,
      rs_intf_notfound = 0, rs_gw_nointf = 0, rs_nh_not_found = 0, rs_route_not_found = 0\<rparr>"

definition route_stats_add :: "route_stats \<Rightarrow> route_stats \<Rightarrow> route_stats" where
  "route_stats_add s t =
     t\<lparr>rs_intf_add := rs_intf_add t + rs_intf_add s, rs_intf_del := rs_intf_del t + rs_intf_del s,
       rs_gw_add := rs_gw_add t + rs_gw_add s, rs_gw_del := rs_gw_del t + rs_gw_del s,
       rs_tbl_full := rs_tbl_full t + rs_tbl_full s, rs_intf_nomem := rs_intf_nomem t + rs_intf_nomem s,
       rs_intf_notfound := rs_intf_notfound t + rs_intf_notfound s, rs_gw_nointf := rs_gw_nointf t + rs_gw_nointf s,
       rs_nh_not_found := rs_nh_not_found t + rs_nh_not_found s,
       rs_route_not_found := rs_route_not_found t + rs_route_not_found s\<rparr>"

definition ipv4_stats_zero :: ipv4_stats where
  "ipv4_stats_zero =
     \<lparr>ips_received_pkts = 0, ips_received_bytes = 0, ips_protocol_icmp = 0, ips_protocol_tcp = 0,
      ips_protocol_udp = 0, ips_protocol_other = 0, ips_to_small_fragment = 0, ips_hdr_to_small = 0,
      ips_invalid_checksum = 0, ips_total_length_invalid = 0, ips_received_frags = 0, ips_not_v4 = 0,
      ips_reserved_bit_set = 0, ips_invalid_pad = 0, ips_invalid_opt = 0\<rparr>"

definition ipv4_stats_add :: "ipv4_stats \<Rightarrow> ipv4_stats \<Rightarrow> ipv4_stats" where
  "ipv4_stats_add s t =
     t\<lparr>ips_received_pkts := ips_received_pkts t + ips_received_pkts s,
       ips_received_bytes := ips_received_bytes t + ips_received_bytes s,
       ips_protocol_icmp := ips_protocol_icmp t + ips_protocol_icmp s,
       ips_protocol_tcp := ips_protocol_tcp t + ips_protocol_tcp s,
       ips_protocol_udp := ips_protocol_udp t + ips_protocol_udp s,
       ips_protocol_other := ips_protocol_other t + ips_protocol_other s,
       ips_to_small_fragment := ips_to_small_fragment t + ips_to_small_fragment s,
       ips_hdr_to_small := ips_hdr_to_small t + ips_hdr_to_small s,
       ips_invalid_checksum := ips_invalid_checksum t + ips_invalid_checksum s,
       ips_total_length_invalid := ips_total_length_invalid t + ips_total_length_invalid s,
       ips_received_frags := ips_received_frags t + ips_received_frags s, ips_not_v4 := ips_not_v4 t + ips_not_v4 s,
       ips_reserved_bit_set := ips_reserved_bit_set t + ips_reserved_bit_set s,
       ips_invalid_pad := ips_invalid_pad t + ips_invalid_pad s\<rparr>"

definition udp_stats_zero :: udp_stats where
  "udp_stats_zero =
     \<lparr>us_received_pkts = 0, us_received_bytes = 0, us_sent_pkts = 0, us_sent_ctrl_bytes = 0, us_sent_data_bytes = 0,
      us_ucb_malloced = 0, us_ucb_freed = 0, us_ucb_not_found = 0, us_ucb_alloc_err = 0, us_to_small_fragment = 0,
      us_invalid_checksum = 0, us_failed_pkts = 0\<rparr>"

definition udp_stats_add :: "udp_stats \<Rightarrow> udp_stats \<Rightarrow> udp_stats" where
  "udp_stats_add s t =
     t\<lparr>us_received_pkts := us_received_pkts t + us_received_pkts s,
       us_received_bytes := us_received_bytes t + us_received_bytes s,
       us_sent_pkts := us_sent_pkts t + us_sent_pkts s,
       us_sent_ctrl_bytes := us_sent_ctrl_bytes t + us_sent_ctrl_bytes s,
       us_sent_data_bytes := us_sent_data_bytes t + us_sent_data_bytes s,
       us_ucb_malloced := us_ucb_malloced t + us_ucb_malloced s, us_ucb_freed := us_ucb_freed t + us_ucb_freed s,
       us_ucb_not_found := us_ucb_not_found t + us_ucb_not_found s,
       us_ucb_alloc_err := us_ucb_alloc_err t + us_ucb_alloc_err s,
       us_to_small_fragment := us_to_small_fragment t + us_to_small_fragment s,
       us_invalid_checksum := us_invalid_checksum t + us_invalid_checksum s,
       us_failed_pkts := us_failed_pkts t + us_failed_pkts s\<rparr>"

definition tcp_stats_zero :: tcp_stats where
  "tcp_stats_zero =
     \<lparr>ts_received_pkts = 0, ts_received_bytes = 0, ts_sent_ctrl_pkts = 0, ts_sent_ctrl_bytes = 0,
      ts_sent_data_pkts = 0, ts_sent_data_bytes = 0, ts_tcb_malloced = 0, ts_tcb_freed = 0, ts_tcb_not_found = 0,
      ts_tcb_alloc_err = 0, ts_to_small_fragment = 0, ts_hdr_to_small = 0, ts_invalid_checksum = 0,
      ts_failed_ctrl_pkts = 0, ts_failed_data_pkts = 0, ts_failed_data_clone = 0, ts_reserved_bit_set = 0,
      ts_sent_syn = 0, ts_recv_syn = 0, ts_sent_fin = 0, ts_recv_fin = 0, ts_sent_rst = 0, ts_recv_rst = 0\<rparr>"

definition tcp_stats_add :: "tcp_stats \<Rightarrow> tcp_stats \<Rightarrow> tcp_stats" where
  "tcp_stats_add s t =
     t\<lparr>ts_received_pkts := ts_received_pkts t + ts_received_pkts s,
       ts_received_bytes := ts_received_bytes t + ts_received_bytes s,
       ts_sent_ctrl_pkts := ts_sent_ctrl_pkts t + ts_sent_ctrl_pkts s,
       ts_sent_ctrl_bytes := ts_sent_ctrl_bytes t + ts_sent_ctrl_bytes s,
       ts_sent_data_pkts := ts_sent_data_pkts t + ts_sent_data_pkts s,
       ts_sent_data_bytes := ts_sent_data_bytes t + ts_sent_data_bytes s,
       ts_tcb_malloced := ts_tcb_malloced t + ts_tcb_malloced s, ts_tcb_freed := ts_tcb_freed t + ts_tcb_freed s,
       ts_tcb_not_found := ts_tcb_not_found t + ts_tcb_not_found s,
       ts_tcb_alloc_err := ts_tcb_alloc_err t + ts_tcb_alloc_err s,
       ts_to_small_fragment := ts_to_small_fragment t + ts_to_small_fragment s,
       ts_hdr_to_small := ts_hdr_to_small t + ts_hdr_to_small s,
       ts_invalid_checksum := ts_invalid_checksum t + ts_invalid_checksum s,
       ts_failed_ctrl_pkts := ts_failed_ctrl_pkts t + ts_failed_ctrl_pkts s,
       ts_failed_data_pkts := ts_failed_data_pkts t + ts_failed_data_pkts s,
       ts_failed_data_clone := ts_failed_data_clone t + ts_failed_data_clone s,
       ts_reserved_bit_set := ts_reserved_bit_set t + ts_reserved_bit_set s,
       ts_recv_syn := ts_recv_syn t + ts_recv_syn s, ts_sent_syn := ts_sent_syn t + ts_sent_syn s,
       ts_recv_fin := ts_recv_fin t + ts_recv_fin s, ts_sent_fin := ts_sent_fin t + ts_sent_fin s,
       ts_recv_rst := ts_recv_rst t + ts_recv_rst s, ts_sent_rst := ts_sent_rst t + ts_sent_rst s\<rparr>"

definition tsm_stats_zero :: tsm_stats where
  "tsm_stats_zero =
     \<lparr>tsms_tcb_states = (\<lambda>_. 0), tsms_syn_to = 0, tsms_synack_to = 0, tsms_retry_to = 0,
      tsms_retrans_bytes = 0, tsms_missing_seq = 0, tsms_snd_win_full = 0\<rparr>"

definition tsm_stats_add :: "tsm_stats \<Rightarrow> tsm_stats \<Rightarrow> tsm_stats" where
  "tsm_stats_add s t =
     t\<lparr>tsms_tcb_states := (\<lambda>i. tsms_tcb_states t i + tsms_tcb_states s i),
       tsms_syn_to := tsms_syn_to t + tsms_syn_to s, tsms_synack_to := tsms_synack_to t + tsms_synack_to s,
       tsms_retry_to := tsms_retry_to t + tsms_retry_to s,
       tsms_retrans_bytes := tsms_retrans_bytes t + tsms_retrans_bytes s,
       tsms_missing_seq := tsms_missing_seq t + tsms_missing_seq s,
       tsms_snd_win_full := tsms_snd_win_full t + tsms_snd_win_full s\<rparr>"

definition msg_stats_zero :: msg_stats where
  "msg_stats_zero =
     \<lparr>ms_rcvd = 0, ms_snd = 0, ms_poll = 0, ms_err = 0, ms_proc_err = 0, ms_alloc = 0, ms_alloc_err = 0, ms_free = 0\<rparr>"

definition msg_stats_add :: "msg_stats \<Rightarrow> msg_stats \<Rightarrow> msg_stats" where
  "msg_stats_add s t =
     t\<lparr>ms_rcvd := ms_rcvd t + ms_rcvd s, ms_snd := ms_snd t + ms_snd s, ms_poll := ms_poll t + ms_poll s,
       ms_err := ms_err t + ms_err s, ms_proc_err := ms_proc_err t + ms_proc_err s,
       ms_alloc := ms_alloc t + ms_alloc s, ms_alloc_err := ms_alloc_err t + ms_alloc_err s,
       ms_free := ms_free t + ms_free s\<rparr>"

definition timer_stats_zero :: timer_stats where
  "timer_stats_zero =
     \<lparr>tts_rto_set = 0, tts_rto_cancelled = 0, tts_rto_fired = 0, tts_slow_set = 0, tts_slow_cancelled = 0,
      tts_slow_fired = 0, tts_test_set = 0, tts_test_cancelled = 0, tts_test_fired = 0, tts_rto_failed = 0,
      tts_slow_failed = 0, tts_test_failed = 0, tts_l4cb_null = 0, tts_l4cb_invalid_flags = 0,
      tts_timeout_overflow = 0\<rparr>"

definition timer_stats_add :: "timer_stats \<Rightarrow> timer_stats \<Rightarrow> timer_stats" where
  "timer_stats_add s t =
     t\<lparr>tts_rto_set := tts_rto_set t + tts_rto_set s, tts_rto_cancelled := tts_rto_cancelled t + tts_rto_cancelled s,
       tts_rto_fired := tts_rto_fired t + tts_rto_fired s, tts_slow_set := tts_slow_set t + tts_slow_set s,
       tts_slow_cancelled := tts_slow_cancelled t + tts_slow_cancelled s,
       tts_slow_fired := tts_slow_fired t + tts_slow_fired s, tts_test_set := tts_test_set t + tts_test_set s,
       tts_test_cancelled := tts_test_cancelled t + tts_test_cancelled s,
       tts_test_fired := tts_test_fired t + tts_test_fired s, tts_rto_failed := tts_rto_failed t + tts_rto_failed s,
       tts_slow_failed := tts_slow_failed t + tts_slow_failed s, tts_l4cb_null := tts_l4cb_null t + tts_l4cb_null s,
       tts_l4cb_invalid_flags := tts_l4cb_invalid_flags t + tts_l4cb_invalid_flags s,
       tts_timeout_overflow := tts_timeout_overflow t + tts_timeout_overflow s\<rparr>"

record all_stats =
  as_port :: "port_stats core_stats"
  as_eth :: "eth_stats core_stats"
  as_arp :: "arp_stats core_stats"
  as_route :: "route_stats core_stats"
  as_ipv4 :: "ipv4_stats core_stats"
  as_udp :: "udp_stats core_stats"
  as_tcp :: "tcp_stats core_stats"
  as_tsm :: "tsm_stats core_stats"
  as_msg :: "msg_stats core_stats"
  as_timer :: "timer_stats core_stats"

text \<open>\<open>n\<close> is the number of ports, \<open>cores\<close> are all lcores but the first.\<close>

definition test_mgmt_get_port_stats :: "u32 \<Rightarrow> nat list \<Rightarrow> all_stats \<Rightarrow> u32 \<Rightarrow> int + port_stats" where
  "test_mgmt_get_port_stats n cores A eth_port =
     (if \<not> test_mgmt_validate_port_id n eth_port then Inl (- EINVAL)
      else Inr (STATS_FOREACH_CORE port_stats_add cores (as_port A) eth_port port_stats_zero))"

definition test_mgmt_get_eth_stats :: "u32 \<Rightarrow> nat list \<Rightarrow> all_stats \<Rightarrow> u32 \<Rightarrow> int + eth_stats" where
  "test_mgmt_get_eth_stats n cores A eth_port =
     (if \<not> test_mgmt_validate_port_id n eth_port then Inl (- EINVAL)
      else Inr (STATS_FOREACH_CORE eth_stats_add cores (as_eth A) eth_port eth_stats_zero))"

definition test_mgmt_get_arp_stats :: "u32 \<Rightarrow> nat list \<Rightarrow> all_stats \<Rightarrow> u32 \<Rightarrow> int + arp_stats" where
  "test_mgmt_get_arp_stats n cores A eth_port =
     (if \<not> test_mgmt_validate_port_id n eth_port then Inl (- EINVAL)
      else Inr (STATS_FOREACH_CORE arp_stats_add cores (as_arp A) eth_port arp_stats_zero))"

definition test_mgmt_get_route_stats :: "u32 \<Rightarrow> nat list \<Rightarrow> all_stats \<Rightarrow> u32 \<Rightarrow> int + route_stats" where
  "test_mgmt_get_route_stats n cores A eth_port =
     (if \<not> test_mgmt_validate_port_id n eth_port then Inl (- EINVAL)
      else Inr (STATS_FOREACH_CORE route_stats_add cores (as_route A) eth_port route_stats_zero))"

definition test_mgmt_get_ipv4_stats :: "u32 \<Rightarrow> nat list \<Rightarrow> all_stats \<Rightarrow> u32 \<Rightarrow> int + ipv4_stats" where
  "test_mgmt_get_ipv4_stats n cores A eth_port =
     (if \<not> test_mgmt_validate_port_id n eth_port then Inl (- EINVAL)
      else Inr (STATS_FOREACH_CORE ipv4_stats_add cores (as_ipv4 A) eth_port ipv4_stats_zero))"

definition test_mgmt_get_udp_stats :: "u32 \<Rightarrow> nat list \<Rightarrow> all_stats \<Rightarrow> u32 \<Rightarrow> int + udp_stats" where
  "test_mgmt_get_udp_stats n cores A eth_port =
     (if \<not> test_mgmt_validate_port_id n eth_port then Inl (- EINVAL)
      else Inr (STATS_FOREACH_CORE udp_stats_add cores (as_udp A) eth_port udp_stats_zero))"

definition test_mgmt_get_tcp_stats :: "u32 \<Rightarrow> nat list \<Rightarrow> all_stats \<Rightarrow> u32 \<Rightarrow> int + tcp_stats" where
  "test_mgmt_get_tcp_stats n cores A eth_port =
     (if \<not> test_mgmt_validate_port_id n eth_port then Inl (- EINVAL)
      else Inr (STATS_FOREACH_CORE tcp_stats_add cores (as_tcp A) eth_port tcp_stats_zero))"

definition test_mgmt_get_tsm_stats :: "u32 \<Rightarrow> nat list \<Rightarrow> all_stats \<Rightarrow> u32 \<Rightarrow> int + tsm_stats" where
  "test_mgmt_get_tsm_stats n cores A eth_port =
     (if \<not> test_mgmt_validate_port_id n eth_port then Inl (- EINVAL)
      else Inr (STATS_FOREACH_CORE tsm_stats_add cores (as_tsm A) eth_port tsm_stats_zero))"

definition test_mgmt_get_msg_stats :: "nat list \<Rightarrow> all_stats \<Rightarrow> msg_stats" where
  "test_mgmt_get_msg_stats cores A = STATS_FOREACH_CORE msg_stats_add cores (as_msg A) 0 msg_stats_zero"

definition test_mgmt_get_timer_stats :: "u32 \<Rightarrow> nat list \<Rightarrow> all_stats \<Rightarrow> u32 \<Rightarrow> int + timer_stats" where
  "test_mgmt_get_timer_stats n cores A eth_port =
     (if \<not> test_mgmt_validate_port_id n eth_port then Inl (- EINVAL)
      else Inr (STATS_FOREACH_CORE timer_stats_add cores (as_timer A) eth_port timer_stats_zero))"

definition test_mgmt_clear_tsm_statistics :: "nat list \<Rightarrow> u32 \<Rightarrow> tsm_stats core_stats \<Rightarrow> tsm_stats core_stats" where
  "test_mgmt_clear_tsm_statistics cores eth_port =
     STATS_UPDATE_CORE (\<lambda>s. s\<lparr>tsms_syn_to := 0, tsms_synack_to := 0, tsms_retry_to := 0, tsms_retrans_bytes := 0,
       tsms_missing_seq := 0, tsms_snd_win_full := 0\<rparr>) cores eth_port"

text \<open>The counters of the driver are reset too.\<close>

definition test_mgmt_clear_statistics :: "u32 \<Rightarrow> nat list \<Rightarrow> u32 \<Rightarrow> all_stats \<Rightarrow> int \<times> all_stats" where
  "test_mgmt_clear_statistics n cores eth_port A =
     (if \<not> test_mgmt_validate_port_id n eth_port then (- EINVAL, A)
      else (0, A\<lparr>
        as_port := STATS_CLEAR port_stats_zero cores eth_port (as_port A),
        as_eth := STATS_CLEAR eth_stats_zero cores eth_port (as_eth A),
        as_arp := STATS_CLEAR arp_stats_zero cores eth_port (as_arp A),
        as_route := STATS_CLEAR route_stats_zero cores eth_port (as_route A),
        as_ipv4 := STATS_CLEAR ipv4_stats_zero cores eth_port (as_ipv4 A),
        as_udp := STATS_CLEAR udp_stats_zero cores eth_port (as_udp A),
        as_tcp := STATS_CLEAR tcp_stats_zero cores eth_port (as_tcp A),
        as_tsm := test_mgmt_clear_tsm_statistics cores eth_port (as_tsm A),
        as_msg := STATS_CLEAR msg_stats_zero cores eth_port (as_msg A),
        as_timer := STATS_CLEAR timer_stats_zero cores eth_port (as_timer A)\<rparr>))"

subsection \<open>The link of a port\<close>

record link_stats =
  ls_ipackets :: u64
  ls_ibytes :: u64
  ls_opackets :: u64
  ls_obytes :: u64
  ls_imissed :: u64
  ls_ierrors :: u64
  ls_oerrors :: u64
  ls_rx_nombuf :: u64

record link_rate_statistics =
  lrs_estats :: link_stats
  lrs_timestamp :: u64

record phy_stats =
  pys_rx_pkts :: u64
  pys_rx_bytes :: u64
  pys_tx_pkts :: u64
  pys_tx_bytes :: u64
  pys_rx_drops :: u64
  pys_rx_errors :: u64
  pys_tx_errors :: u64
  pys_rx_nombuf :: u64
  pys_link_speed :: u32

definition TPG_TIME_DIFF :: "u64 \<Rightarrow> u64 \<Rightarrow> u64" where "TPG_TIME_DIFF now prev = now - prev"

text \<open>
  The rates since the last call: \<open>estats\<close> are the counters of the driver, \<open>now\<close> and \<open>hz\<close> its clock. A division by 0 is
  \<^term>\<open>None\<close>.
\<close>

definition port_link_rate_stats_get ::
  "link_stats \<Rightarrow> u64 \<Rightarrow> u64 \<Rightarrow> link_rate_statistics \<Rightarrow> (link_stats \<times> link_rate_statistics) option" where
  "port_link_rate_stats_get estats now hz lrstats =
     (let time_diff = TPG_TIME_DIFF now (lrs_timestamp lrstats);
          old = lrs_estats lrstats
      in if time_diff = 0 then None
         else Some
           (\<lparr>ls_ipackets = (ls_ipackets estats - ls_ipackets old) * hz div time_diff,
             ls_ibytes = (ls_ibytes estats - ls_ibytes old) * hz div time_diff,
             ls_opackets = (ls_opackets estats - ls_opackets old) * hz div time_diff,
             ls_obytes = (ls_obytes estats - ls_obytes old) * hz div time_diff,
             ls_imissed = (ls_imissed estats - ls_imissed old) * hz div time_diff,
             ls_ierrors = (ls_ierrors estats - ls_ierrors old) * hz div time_diff,
             ls_oerrors = (ls_oerrors estats - ls_oerrors old) * hz div time_diff,
             ls_rx_nombuf = (ls_rx_nombuf estats - ls_rx_nombuf old) * hz div time_diff\<rparr>,
            \<lparr>lrs_estats = estats, lrs_timestamp = now\<rparr>))"

definition test_mgmt_get_phy_stats :: "u32 \<Rightarrow> u32 \<Rightarrow> link_stats \<Rightarrow> u32 \<Rightarrow> int + phy_stats" where
  "test_mgmt_get_phy_stats n eth_port phy speed =
     (if \<not> test_mgmt_validate_port_id n eth_port then Inl (- EINVAL)
      else Inr \<lparr>pys_rx_pkts = ls_ipackets phy, pys_rx_bytes = ls_ibytes phy, pys_tx_pkts = ls_opackets phy,
        pys_tx_bytes = ls_obytes phy, pys_rx_drops = ls_imissed phy, pys_rx_errors = ls_ierrors phy,
        pys_tx_errors = ls_oerrors phy, pys_rx_nombuf = ls_rx_nombuf phy, pys_link_speed = speed\<rparr>)"

definition test_mgmt_get_phy_rate_stats ::
  "u32 \<Rightarrow> u32 \<Rightarrow> link_stats \<Rightarrow> u64 \<Rightarrow> u64 \<Rightarrow> u32 \<Rightarrow> link_rate_statistics \<Rightarrow> ((int + phy_stats) \<times> link_rate_statistics) option" where
  "test_mgmt_get_phy_rate_stats n eth_port estats now hz speed lrstats =
     (if \<not> test_mgmt_validate_port_id n eth_port then Some (Inl (- EINVAL), lrstats)
      else
        do {
          (phy, lrstats) \<leftarrow> port_link_rate_stats_get estats now hz lrstats;
          Some (Inr \<lparr>pys_rx_pkts = ls_ipackets phy, pys_rx_bytes = ls_ibytes phy, pys_tx_pkts = ls_opackets phy,
            pys_tx_bytes = ls_obytes phy, pys_rx_drops = ls_imissed phy, pys_rx_errors = ls_ierrors phy,
            pys_tx_errors = ls_oerrors phy, pys_rx_nombuf = ls_rx_nombuf phy, pys_link_speed = speed\<rparr>, lrstats)
        })"

subsection \<open>Options of a port\<close>

record tpg_port_options =
  has_po_mtu :: bool
  po_mtu :: u32

record port_info =
  pi_driver_name :: string
  pi_max_rx_pktlen :: u32
  pi_mtu :: u16

definition PORT_MIN_MTU :: u32 where "PORT_MIN_MTU = 68"
definition PORT_MAX_MTU :: u32 where "PORT_MAX_MTU = 9198"

definition port_adjust_max_rx_pktlen :: "port_info \<Rightarrow> port_info" where
  "port_adjust_max_rx_pktlen i =
     (if pi_max_rx_pktlen i = 0 \<or> pi_max_rx_pktlen i > PORT_MAX_MTU then i\<lparr>pi_max_rx_pktlen := PORT_MAX_MTU\<rparr> else i)"

definition test_mgmt_validate_port_options :: "tpg_port_options \<Rightarrow> port_info \<Rightarrow> bool" where
  "test_mgmt_validate_port_options opts i \<longleftrightarrow>
     \<not> (has_po_mtu opts \<and> (po_mtu opts < PORT_MIN_MTU \<or> po_mtu opts > pi_max_rx_pktlen i))"

definition port_get_conn_options :: "port_info \<Rightarrow> tpg_port_options" where
  "port_get_conn_options i = \<lparr>has_po_mtu = True, po_mtu = ucast (pi_mtu i)\<rparr>"

text \<open>
  The result of \<^verbatim>\<open>rte_eth_dev_set_mtu\<close> is only printed; the drivers that are named in the code differ in whether the port
  is stopped, and \<open>start\<close> is the result of starting it again.
\<close>

definition port_set_conn_options :: "int \<Rightarrow> tpg_port_options \<Rightarrow> port_info \<Rightarrow> int \<times> port_info" where
  "port_set_conn_options start opts i =
     (if pi_driver_name i = ''net_i40e'' \<and> start < 0 then (start, i) else (0, i\<lparr>pi_mtu := ucast (po_mtu opts)\<rparr>))"

text \<open>The options of the port are read and merged into, but the options that were given are what is set.\<close>

definition test_mgmt_set_port_options ::
  "'app api_prm \<Rightarrow> u32 \<Rightarrow> int \<Rightarrow> tpg_port_options \<Rightarrow> ('app, 's) mgmt_api \<Rightarrow> port_info \<Rightarrow> int \<times> port_info" where
  "test_mgmt_set_port_options A eth_port start opts M i =
     (let err = test_mgmt_add_port_cfg_check A eth_port M
      in if err \<noteq> 0 then (err, i)
         else if \<not> test_mgmt_validate_port_options opts i then (- EINVAL, i)
         else port_set_conn_options start opts i)"

definition test_mgmt_get_port_options :: "'app api_prm \<Rightarrow> u32 \<Rightarrow> port_info \<Rightarrow> int + tpg_port_options" where
  "test_mgmt_get_port_options A eth_port i =
     (if \<not> test_mgmt_validate_port_id (ap_dev_count A) eth_port then Inl (- EINVAL) else Inr (port_get_conn_options i))"

end
