(* ===== verification/MgmtStatsProps.thy ===== *)
theory MgmtStatsProps
  imports MgmtStats "HOL-Library.Multiset"
begin

text \<open>
  The statistics that are reported are the sums over the cores, in whatever order they are visited, of what was counted since they
  were cleared; the rates of a link and the options of a port.
\<close>

subsection \<open>Adding up\<close>

text \<open>What the statistics of a module offer the loops: a value that counts nothing, and an addition whose order does not matter.\<close>

locale statistics =
  fixes add :: "'s \<Rightarrow> 's \<Rightarrow> 's" and zero :: 's
  assumes add_commute: "add s (add t u) = add t (add s u)"
    and add_zero: "add zero t = t"
begin

lemma foreach_swap: "(\<lambda>acc. case S d of None \<Rightarrow> acc | Some a \<Rightarrow> add (a p) acc) \<circ> (\<lambda>acc. case S c of None \<Rightarrow> acc | Some a \<Rightarrow> add (a p) acc) =
  (\<lambda>acc. case S c of None \<Rightarrow> acc | Some a \<Rightarrow> add (a p) acc) \<circ> (\<lambda>acc. case S d of None \<Rightarrow> acc | Some a \<Rightarrow> add (a p) acc)"
  by (auto simp: fun_eq_iff add_commute split: option.splits)

lemma foreach_order: "mset cores = mset ds \<Longrightarrow> STATS_FOREACH_CORE add cores S p = STATS_FOREACH_CORE add ds S p"
  unfolding STATS_FOREACH_CORE_def by (rule fold_multiset_equiv [OF foreach_swap])

text \<open>Statistics of a port that are clear on every core add nothing.\<close>

lemma foreach_clear:
  "\<forall>c \<in> set cores. \<forall>a. S c = Some a \<longrightarrow> a p = zero \<Longrightarrow> STATS_FOREACH_CORE add cores S p t = t"
  unfolding STATS_FOREACH_CORE_def by (induction cores arbitrary: t) (auto simp: add_zero split: option.splits)

end

interpretation port_st: statistics port_stats_add port_stats_zero
  by unfold_locales (simp_all add: port_stats_add_def port_stats_zero_def add.left_commute add.assoc)
interpretation eth_st: statistics eth_stats_add eth_stats_zero
  by unfold_locales (simp_all add: eth_stats_add_def eth_stats_zero_def add.left_commute add.assoc)
interpretation arp_st: statistics arp_stats_add arp_stats_zero
  by unfold_locales (simp_all add: arp_stats_add_def arp_stats_zero_def add.left_commute add.assoc)
interpretation route_st: statistics route_stats_add route_stats_zero
  by unfold_locales (simp_all add: route_stats_add_def route_stats_zero_def add.left_commute add.assoc)
interpretation ipv4_st: statistics ipv4_stats_add ipv4_stats_zero
  by unfold_locales (simp_all add: ipv4_stats_add_def ipv4_stats_zero_def add.left_commute add.assoc)
interpretation udp_st: statistics udp_stats_add udp_stats_zero
  by unfold_locales (simp_all add: udp_stats_add_def udp_stats_zero_def add.left_commute add.assoc)
interpretation tcp_st: statistics tcp_stats_add tcp_stats_zero
  by unfold_locales (simp_all add: tcp_stats_add_def tcp_stats_zero_def add.left_commute add.assoc)
interpretation tsm_st: statistics tsm_stats_add tsm_stats_zero
  by unfold_locales (simp_all add: tsm_stats_add_def tsm_stats_zero_def ac_simps)
interpretation msg_st: statistics msg_stats_add msg_stats_zero
  by unfold_locales (simp_all add: msg_stats_add_def msg_stats_zero_def add.left_commute add.assoc)
interpretation timer_st: statistics timer_stats_add timer_stats_zero
  by unfold_locales (simp_all add: timer_stats_add_def timer_stats_zero_def add.left_commute add.assoc)

text \<open>A counter that the loop adds up is reported as the sum.\<close>

definition per_core :: "nat list \<Rightarrow> 's core_stats \<Rightarrow> u32 \<Rightarrow> 's list" where
  "per_core cores S p = map (\<lambda>a. a p) (List.map_filter S cores)"

lemma foreach_sum:
  fixes sel :: "'s \<Rightarrow> 'n :: len word"
  assumes "\<And>s t. sel (add s t) = sel t + sel s"
  shows "sel (STATS_FOREACH_CORE add cores S p t) = sel t + sum_list (map sel (per_core cores S p))"
  unfolding STATS_FOREACH_CORE_def per_core_def
  by (induction cores arbitrary: t) (auto simp: assms List.map_filter_simps algebra_simps split: option.splits)

subsection \<open>Clearing\<close>

lemma update_core:
  assumes "distinct cores"
  shows "STATS_UPDATE_CORE f cores p S c =
    (if c \<in> set cores then map_option (\<lambda>a. a(p := f (a p))) (S c) else S c)"
  using assms unfolding STATS_UPDATE_CORE_def
  by (induction cores arbitrary: S) (auto split: option.splits)

lemma foreach_other:
  assumes "distinct cores" "q \<noteq> p"
  shows "STATS_FOREACH_CORE g cores (STATS_UPDATE_CORE f cores p S) q t = STATS_FOREACH_CORE g cores S q t"
proof -
  have "STATS_FOREACH_CORE g ds (STATS_UPDATE_CORE f cores p S) q t = STATS_FOREACH_CORE g ds S q t" for ds
    unfolding STATS_FOREACH_CORE_def using assms(2)
    by (induction ds arbitrary: t) (auto simp: update_core [OF assms(1)] split: option.splits)
  then show ?thesis .
qed

lemma per_core_update:
  assumes "distinct cores"
  shows "per_core cores (STATS_UPDATE_CORE f cores p S) p = map f (per_core cores S p)"
proof -
  have "set ds \<subseteq> set cores \<Longrightarrow> per_core ds (STATS_UPDATE_CORE f cores p S) p = map f (per_core ds S p)" for ds
    unfolding per_core_def
    by (induction ds) (auto simp: List.map_filter_simps update_core [OF assms] split: option.splits)
  then show ?thesis by simp
qed

lemma cleared:
  assumes "statistics add zero" "distinct cores"
  shows "STATS_FOREACH_CORE add cores (STATS_CLEAR zero cores p S) p zero = zero"
  by (rule statistics.foreach_clear [OF assms(1)]) (auto simp: STATS_CLEAR_def update_core [OF assms(2)])

text \<open>
  Clearing the statistics of a port makes every report of the port start at 0, but for the number of connections in each state,
  which is kept, and changes no report of another port. The statistics of messages, which the cores keep for port 0, are cleared
  for port 0 only.
\<close>

lemma clear_tsm:
  assumes "distinct cores"
  shows "STATS_FOREACH_CORE tsm_stats_add cores (test_mgmt_clear_tsm_statistics cores p S) p tsm_stats_zero =
    tsm_stats_zero\<lparr>tsms_tcb_states := tsms_tcb_states (STATS_FOREACH_CORE tsm_stats_add cores S p tsm_stats_zero)\<rparr>"
proof -
  let ?only = "\<lambda>u. tsm_stats_zero\<lparr>tsms_tcb_states := tsms_tcb_states u\<rparr>"
  let ?none = "\<lambda>s. s\<lparr>tsms_syn_to := 0, tsms_synack_to := 0, tsms_retry_to := 0, tsms_retrans_bytes := 0,
       tsms_missing_seq := 0, tsms_snd_win_full := 0\<rparr>"
  have one: "tsm_stats_add (?none s) (?only u) = ?only (tsm_stats_add s u)" for s u
    by (simp add: tsm_stats_add_def tsm_stats_zero_def)
  have "STATS_FOREACH_CORE tsm_stats_add ds (test_mgmt_clear_tsm_statistics cores p S) p (?only u) =
      ?only (STATS_FOREACH_CORE tsm_stats_add ds S p u)" if "set ds \<subseteq> set cores" for ds u
    using that
  proof (induction ds arbitrary: u)
    case (Cons d ds)
    have "test_mgmt_clear_tsm_statistics cores p S d = map_option (\<lambda>a. a(p := ?none (a p))) (S d)"
      using Cons.prems by (simp add: test_mgmt_clear_tsm_statistics_def update_core [OF assms])
    then show ?case using Cons one by (cases "S d") (simp_all add: STATS_FOREACH_CORE_def)
  qed (simp add: STATS_FOREACH_CORE_def)
  from this [of cores tsm_stats_zero] show ?thesis by simp
qed

theorem cleared_counters_are_zero:
  assumes "distinct cores" and "test_mgmt_clear_statistics n cores p A = (0, B)"
  shows "test_mgmt_get_port_stats n cores B p = Inr port_stats_zero \<and>
    test_mgmt_get_eth_stats n cores B p = Inr eth_stats_zero \<and>
    test_mgmt_get_arp_stats n cores B p = Inr arp_stats_zero \<and>
    test_mgmt_get_route_stats n cores B p = Inr route_stats_zero \<and>
    test_mgmt_get_ipv4_stats n cores B p = Inr ipv4_stats_zero \<and>
    test_mgmt_get_udp_stats n cores B p = Inr udp_stats_zero \<and>
    test_mgmt_get_tcp_stats n cores B p = Inr tcp_stats_zero \<and>
    test_mgmt_get_timer_stats n cores B p = Inr timer_stats_zero \<and>
    test_mgmt_get_tsm_stats n cores B p =
      map_sum id (\<lambda>s. tsm_stats_zero\<lparr>tsms_tcb_states := tsms_tcb_states s\<rparr>) (test_mgmt_get_tsm_stats n cores A p) \<and>
    test_mgmt_get_msg_stats cores B = (if p = 0 then msg_stats_zero else test_mgmt_get_msg_stats cores A) \<and>
    (\<forall>q. q \<noteq> p \<longrightarrow> test_mgmt_get_port_stats n cores B q = test_mgmt_get_port_stats n cores A q \<and>
      test_mgmt_get_eth_stats n cores B q = test_mgmt_get_eth_stats n cores A q \<and>
      test_mgmt_get_arp_stats n cores B q = test_mgmt_get_arp_stats n cores A q \<and>
      test_mgmt_get_route_stats n cores B q = test_mgmt_get_route_stats n cores A q \<and>
      test_mgmt_get_ipv4_stats n cores B q = test_mgmt_get_ipv4_stats n cores A q \<and>
      test_mgmt_get_udp_stats n cores B q = test_mgmt_get_udp_stats n cores A q \<and>
      test_mgmt_get_tcp_stats n cores B q = test_mgmt_get_tcp_stats n cores A q \<and>
      test_mgmt_get_timer_stats n cores B q = test_mgmt_get_timer_stats n cores A q \<and>
      test_mgmt_get_tsm_stats n cores B q = test_mgmt_get_tsm_stats n cores A q)"
proof -
  from assms(2) have v: "test_mgmt_validate_port_id n p" by (auto simp: test_mgmt_clear_statistics_def split: if_splits)
  note B = assms(2) [symmetric, unfolded test_mgmt_clear_statistics_def, simplified v, simplified]
  note ok = cleared [OF port_st.statistics_axioms assms(1)]
    cleared [OF eth_st.statistics_axioms assms(1)]
    cleared [OF arp_st.statistics_axioms assms(1)]
    cleared [OF route_st.statistics_axioms assms(1)]
    cleared [OF ipv4_st.statistics_axioms assms(1)]
    cleared [OF udp_st.statistics_axioms assms(1)]
    cleared [OF tcp_st.statistics_axioms assms(1)]
    cleared [OF timer_st.statistics_axioms assms(1)]
    cleared [OF msg_st.statistics_axioms assms(1)]
  note ok = ok [unfolded STATS_CLEAR_def]
  note oth = foreach_other [OF assms(1)]
  show ?thesis
    using v by (simp add: B ok clear_tsm [OF assms(1), unfolded test_mgmt_clear_tsm_statistics_def] oth STATS_CLEAR_def [abs_def] test_mgmt_clear_tsm_statistics_def [abs_def]
        test_mgmt_get_port_stats_def test_mgmt_get_eth_stats_def test_mgmt_get_arp_stats_def test_mgmt_get_route_stats_def test_mgmt_get_ipv4_stats_def test_mgmt_get_udp_stats_def test_mgmt_get_tcp_stats_def test_mgmt_get_timer_stats_def test_mgmt_get_tsm_stats_def test_mgmt_get_msg_stats_def)
qed

subsection \<open>Rates\<close>

text \<open>
  A rate of the link is exact as long as the product of the count since the last call and the frequency of the clock fits 64 bits; a
  second call at the same time divides by 0.
\<close>

theorem link_rate_exact:
  assumes "port_link_rate_stats_get estats now hz L = Some (r, L')"
    and "unat (ls_ibytes estats - ls_ibytes (lrs_estats L)) * unat hz < 2 ^ 64"
  shows "unat (ls_ibytes r) =
      unat (ls_ibytes estats - ls_ibytes (lrs_estats L)) * unat hz div unat (now - lrs_timestamp L) \<and>
    port_link_rate_stats_get later now hz L' = None"
proof -
  have r: "ls_ibytes r = (ls_ibytes estats - ls_ibytes (lrs_estats L)) * hz div (now - lrs_timestamp L)"
    and L': "lrs_timestamp L' = now"
    using assms(1) by (auto simp: port_link_rate_stats_get_def TPG_TIME_DIFF_def Let_def split: if_splits)
  show ?thesis using assms(2) L' unfolding r
    by (simp add: unat_div unat_word_ariths port_link_rate_stats_get_def TPG_TIME_DIFF_def)
qed

text \<open>8 GB in a second, on a clock of about 2 GHz: the rate that is shown is 0.\<close>

definition no_link_stats :: link_stats where
  "no_link_stats = \<lparr>ls_ipackets = 0, ls_ibytes = 0, ls_opackets = 0, ls_obytes = 0, ls_imissed = 0, ls_ierrors = 0,
     ls_oerrors = 0, ls_rx_nombuf = 0\<rparr>"

lemma link_rate_wraps:
  "map_option (ls_ibytes \<circ> fst) (port_link_rate_stats_get (no_link_stats\<lparr>ls_ibytes := 8589934592\<rparr>) 2147483648 2147483648
     \<lparr>lrs_estats = no_link_stats, lrs_timestamp = 0\<rparr>) = Some 0"
  by code_simp

subsection \<open>The options of a port\<close>

text \<open>
  An MTU that a user sets is the one that is read back, and it is in the range of the device. Options without an MTU are accepted
  too, but set the MTU of the port to what the field happens to hold.
\<close>

theorem port_options_roundtrip:
  assumes "test_mgmt_set_port_options A p start opts M (port_adjust_max_rx_pktlen i) = (0, i')"
  shows "test_mgmt_get_port_options A p i' =
      Inr \<lparr>has_po_mtu = True, po_mtu = (if has_po_mtu opts then po_mtu opts else ucast (ucast (po_mtu opts) :: u16))\<rparr> \<and>
    (has_po_mtu opts \<longrightarrow> 68 \<le> po_mtu opts \<and> po_mtu opts \<le> 9198)"
proof -
  have v: "test_mgmt_validate_port_id (ap_dev_count A) p" and ok: "test_mgmt_validate_port_options opts (port_adjust_max_rx_pktlen i)"
    and i': "pi_mtu i' = ucast (po_mtu opts)"
    using assms by (auto simp: test_mgmt_set_port_options_def test_mgmt_add_port_cfg_check_def port_set_conn_options_def Let_def
        split: if_splits)
  have range: "68 \<le> po_mtu opts \<and> po_mtu opts \<le> 9198" if "has_po_mtu opts"
    using ok that by (auto simp: test_mgmt_validate_port_options_def port_adjust_max_rx_pktlen_def PORT_MIN_MTU_def PORT_MAX_MTU_def
        not_less split: if_splits)
  have fits: "ucast (ucast x :: u16) = x" if "x \<le> 9198" for x :: u32
  proof -
    have "unat x \<le> 9198" using that by (simp add: word_le_nat_alt)
    then show ?thesis by (simp add: word_unat_eq_iff unsigned_ucast_eq unsigned_take_bit_eq take_bit_nat_eq_self)
  qed
  show ?thesis using v i' range fits by (auto simp: test_mgmt_get_port_options_def port_get_conn_options_def)
qed

end
