(* ===== verification/Spec2Isabelle.thy ===== *)
theory Spec2Isabelle
  imports Prelude SeqNum Mbuf Rate TimerWheel Core TestSM TestSMProps Sessions TcpTypes TcpTx TcpData
    TcpSM Tcp TestSMFrame TcpFrame TcpSMProps Toeplitz Lookup TcpSendProps TcpRcvProps TcpProps TcpIfaceProps DataChain RawApp RawProps Udp UdpProps
    Latency TestCfg TestCfgProps Runner RunnerProps RunnerStop RunnerPurge
    MgmtEnv Mgmt MgmtApi MgmtProps MgmtSys MgmtRun
    HttpApp HttpParse HttpRecv HttpProps HttpSession HttpErrors
    NetTypes Arp Route Ipv4 ArpProps NetProps Ipv4Props Cksum
    Imix ImixProps ImixGroups MsgQ MsgQProps MsgQLoss MgmtStats MgmtStatsProps
begin

text \<open>
  WARP17 is a stateful traffic generator: packet cores open, drive and close TCP and UDP sessions by the hundred
  thousand, and a management core configures, starts and supervises the test cases they belong to. This development
  models its implementation under \<^verbatim>\<open>src/\<close> and proves what the parts promise each other.
  File names below are relative to \<^verbatim>\<open>src/\<close> of the sources; the comments at the head of each
  theory say which functions it holds.

  \<^bold>\<open>The program.\<close> A packet core runs one loop: messages, received packets, the clock.
  \<^item> A session is a control block. Its generic part (\<^verbatim>\<open>l4_control_block_t\<close>) carries the state of
    the \<^emph>\<open>session test state machine\<close>: waiting to be initialised, opened, sending, open, waiting to be closed. The
    lists of a test case (\<open>tos_to_init_cbs\<close>, \<open>tos_to_open_cbs\<close>, \<open>tos_to_close_cbs\<close>, \<open>tos_to_send_cbs\<close> and that of the
    closed ones) hold the blocks that wait.
  \<^item> A \<^emph>\<open>runner\<close> message opens, closes or sends on a batch of the sessions of one list, as many as the \<^emph>\<open>rate
    limit\<close> of the core allows, and posts itself again.
  \<^item> Below a session is a TCP or UDP control block, kept in a hash table that received packets are looked up in.
    TCP has its state machine, the send queue, reassembly, and retransmission and slow timers on \<^emph>\<open>timer wheels\<close>.
  \<^item> Above it is an \<^emph>\<open>application\<close> (raw requests and responses, HTTP 1.1, or IMIX, a weighted mix of them), which says what to send and gets what arrives.
    A protocol notifies the session state machine (\<^verbatim>\<open>test_notification\<close>), which calls the application; the
    application may answer with notifications.
  \<^item> The \<^emph>\<open>management\<close> core stores the configuration, adds up the statistics of the packet cores and moves the test
    cases of a port through their states from timers.

  \<^bold>\<open>Conventions.\<close> Structs are records, enums are datatypes, \<^verbatim>\<open>uintN_t\<close> is \<open>N word\<close>, lists linked through
  the blocks are lists of identifiers. An assertion that fails, \<^verbatim>\<open>TPG_ERROR_ABORT\<close>, a dereferenced null
  pointer and the removal of an element from a list it is not on are \<open>None\<close>; return codes are the integers of the code.
  A C pointer to a control block that a callback may change is passed in and returned. What lies outside
  \<^verbatim>\<open>src/\<close>, DPDK above all, is an argument: the outcome of allocations and transmissions (lists of booleans, used up
  from the front), \<^verbatim>\<open>rte_pktmbuf_adj\<close> and its relatives (records of functions with a stated contract), the
  answers of the other cores, random numbers and the clock.

  \<^bold>\<open>Theories.\<close>
  \<^item> \<open>Prelude\<close> (words, the option monad, collections), \<open>SeqNum\<close> (\<^verbatim>\<open>inc/tpg_tcp.h\<close>, \<^verbatim>\<open>SEG_*\<close>), \<open>Mbuf\<close> and
    \<open>DataChain\<close> (packet buffers, \<^verbatim>\<open>inc/tpg_data.h\<close>), \<open>Rate\<close> (\<^verbatim>\<open>src/tpg_rate.c\<close>), \<open>TimerWheel\<close>
    (\<^verbatim>\<open>src/tpg_timer.c\<close>), \<open>Core\<close> (control block, state of a core).
  \<^item> Sessions: \<open>TestSM\<close> (\<^verbatim>\<open>src/tpg_tests_sm.c\<close>), \<open>TestSMProps\<close>, \<open>TestSMFrame\<close>, \<open>Sessions\<close>: every session is on the list
    of its state after any sequence of steps, and the state functions refine the session automaton.
  \<^item> TCP: \<open>TcpTypes\<close> (blocks, lookup), \<open>TcpTx\<close>, \<open>TcpData\<close> (\<^verbatim>\<open>src/tpg_tcp_data.c\<close>), \<open>TcpSM\<close>
    (\<^verbatim>\<open>src/tpg_tcp_sm.c\<close>), \<open>Tcp\<close> (\<^verbatim>\<open>src/tpg_tcp.c\<close>); \<open>TcpFrame\<close> (what operations leave alone), \<open>TcpSMProps\<close> (the state
    diagram, release on close, timers), \<open>TcpSendProps\<close> (order, window, retransmission), \<open>TcpRcvProps\<close> (reassembly refines a
    set of positions), \<open>TcpProps\<close> and \<open>TcpIfaceProps\<close> (acceptance, resets, open, retries), \<open>Lookup\<close> and \<open>Toeplitz\<close> (the
    connection hash).
  \<^item> \<open>Udp\<close>, \<open>UdpProps\<close> (\<^verbatim>\<open>src/tpg_udp.c\<close>).
  \<^item> Test cases on a core: \<open>TestCfg\<close>, \<open>TestCfgProps\<close> (the walks over the sessions of a configuration), \<open>Runner\<close>, \<open>RunnerProps\<close>,
    \<open>RunnerStop\<close> (\<^verbatim>\<open>src/tpg_tests.c\<close>), \<open>RunnerPurge\<close> (the stop returns and purges every session), \<open>Latency\<close>.
  \<^item> Applications: \<open>RawApp\<close>, \<open>RawProps\<close> (lockstep of both ends); \<open>HttpApp\<close> (\<^verbatim>\<open>src/appl/tpg_test_http_1_1_app.c\<close>), \<open>HttpParse\<close>
    and \<open>HttpRecv\<close> (the parser against a reference on the bytes), \<open>HttpProps\<close>, \<open>HttpSession\<close>, \<open>HttpErrors\<close>;
    \<open>Imix\<close> (\<^verbatim>\<open>src/appl/tpg_test_imix_app.c\<close>, its groups in \<^verbatim>\<open>src/tpg_test_mgmt_api.c\<close>), \<open>ImixProps\<close> (the sessions of a
    group refine those of its applications, called by weight), \<open>ImixGroups\<close> (groups of groups).
  \<^item> Below TCP and UDP: \<open>NetTypes\<close>, \<open>Arp\<close> (\<^verbatim>\<open>src/tpg_arp.c\<close>), \<open>Route\<close> (\<^verbatim>\<open>src/tpg_route.c\<close>), \<open>Ipv4\<close>
    (\<^verbatim>\<open>src/tpg_ethernet.c\<close>, \<^verbatim>\<open>src/tpg_ipv4.c\<close>), \<open>Cksum\<close> (\<^verbatim>\<open>inc/tpg_ipv4.h\<close>); \<open>ArpProps\<close> and \<open>NetProps\<close> (address
    resolution over frames, next hops), \<open>Ipv4Props\<close> (headers that are built are understood, the options). They work on the
    state of a port and on bytes; TCP and UDP above see a packet as its fields and a transmission as its outcome.
  \<^item> Management: \<open>MgmtEnv\<close>, \<open>Mgmt\<close> (\<^verbatim>\<open>src/tpg_test_mgmt.c\<close>), \<open>MgmtApi\<close>
    (\<^verbatim>\<open>src/tpg_test_mgmt_api.c\<close>), \<open>MgmtProps\<close>, \<open>MgmtSys\<close> (an invariant of everything a user can do), \<open>MgmtRun\<close>;
    \<open>MgmtStats\<close> and \<open>MgmtStatsProps\<close> (statistics of ports and protocols, the rates of a link, the options of a port).
  \<^item> Between the cores: \<open>MsgQ\<close> (\<^verbatim>\<open>src/tpg_msg.c\<close>), \<open>MsgQProps\<close> (no interleaving makes the queues touch memory that was
    freed), \<open>MsgQLoss\<close> (messages that are lost, senders that wait for ever). A core is a stack of unfinished calls and a step
    lets one core go on.
  \<^item> \<open>Examples\<close> holds the concrete blocks and environments the theorems are applied to.

  \<^bold>\<open>Interfaces.\<close> Where one part relies on another the contract is a locale, with the code as its instance:
  \<open>test_dispatcher\<close> and \<open>test_frame\<close> (what re-entering the session state machine does to the lists, and what it leaves
  alone; both instances are \<open>test_sm_run n\<close>), \<open>tsm_dispatcher\<close> (the same for \<open>tsm_run n\<close>), \<open>session_table\<close> (the hash table),
  \<open>session_opener\<close>, \<open>session_purger\<close> and its extension \<open>session_stopper\<close> (what a runner expects of TCP and UDP),
  \<open>http_receiver\<close> (the two ends of HTTP), \<open>neighbour_cache\<close> (the ARP table as the choice of next hops uses it),
  \<open>statistics\<close> (counters that are added up over the cores).
  The state types of TCP and UDP extend those of \<open>Core\<close> through the extension field of the records, so the
  lemmas of the session state machine hold in both.

  \<^bold>\<open>Bounds and fuel.\<close> The two dispatchers call each other's states recursively; \<open>test_sm_run\<close> and \<open>tsm_run\<close> take the depth
  of the recursion as fuel. Three levels are enough: \<open>test_sm_fuel_enough\<close> and \<open>tsm_run_fuel\<close> show that the
  result is the same whatever dispatcher stands below the third, so \<open>None\<close> always means an abort of the code. The loop over the segments of a send runs at most
  \<open>GCFG_TCP_SEGS_PER_SEND + 1\<close> times, as in the code; the messages of an open tick are unfolded once more than there are sessions in
  the slot. Loops that the code does not bound (walks over address and port ranges, header parsing, building data
  chains) are partial functions: that they return is proved where they do, and that they do not where they do not
  (\<open>port_range_65535_never_returns\<close>).

  \<^bold>\<open>What goes wrong.\<close> Several theorems show inputs that the code does not handle: sessions waiting to be closed
  that cannot be purged, data stranded in reassembly, an abort when the window opens during a close, port ranges that end at 65535,
  gaps in the identifiers of test cases, headers longer than a buffer, gateways of two VLANs with the same address, IP options of length 0, checksums that carry twice,
  closes from inside a callback,
  groups of applications that hold
  themselves or another one twice, weights and rates that wrap, messages that are posted again and never freed.

  \<^bold>\<open>Not modelled.\<close> Device configuration, the packet loop and the KNI and ring drivers are I/O over DPDK. The CLI, the RPC server,
  the display of statistics and tracing only report. The queue model stands on its own: a
  runner logs the messages it posts, and the other theories take messages as calls, in any order where the order matters.
  The headers built by \<open>Ipv4\<close> are not put in front of the packets of the TCP model. The callbacks
  that TCP and UDP call are those of an application that does not close its session from inside of them: the close that the
  HTTP application asks for on an invalid message is a notification of its own (\<open>test_notification_app\<close>), and what it
  does in the middle of a segment is shown for one state only (\<open>close_inside_segment\<close>). The callbacks of the
  applications under IMIX are an argument of its model and work on their own part of the session; the sessions of a group
  that holds a group are not modelled, only its configuration. Concurrent access to shared statistics is not modelled: a core owns its state.
\<close>

end
